(* ===== verification/Prelude.thy ===== *)
theory Prelude
  imports Main "HOL-Library.Word" "HOL-Library.Signed_Division"
begin

text \<open>
  Shared material of the development: the error values of the TypeScript code, a bind for
  computations that may throw, little-endian byte strings (the only byte order the code uses:
  every \<open>DataView\<close> access passes \<open>true\<close>, and the typed-array views of registers and immediates
  are little-endian on every platform the program runs on), and the general lemmas on lists and
  words the components share.

  The named collections:
  \<^item> \<open>js_word\<close>: JavaScript number operators as operations on \<open>32 word\<close>;
  \<^item> \<open>op_spec\<close>: what one PVM operation does, as an equation on machine words;
  \<^item> \<open>frame\<close>: what an operation leaves unchanged.
\<close>

named_theorems js_word \<open>JavaScript operators in terms of machine words\<close>
named_theorems op_spec \<open>PVM operations as equations on machine words\<close>
named_theorems frame \<open>parts of the state an operation leaves alone\<close>

type_synonym byte = "8 word"
type_synonym u32 = "32 word"
type_synonym u64 = "64 word"

section \<open>Errors\<close>

text \<open>
  Everything the code throws. \<open>AssertionFailure\<close> is a failed \<open>check`...`\<close> of
  \<open>packages/core/utils/debug.ts\<close>, the others are the error classes and the plain
  \<open>throw new Error(...)\<close> / \<open>throw new TypeError(...)\<close> statements.
\<close>

datatype js_error =
    AssertionFailure
  | GenericError
  | TypeError
  | RangeError
  | EndOfDataError
  | OutOfMemory
  | IncorrectSbrkIndex
  | FinalizedBuilderModification
  | ReservedMemoryFault
  | PageNotExist

type_synonym 'a throws = "js_error + 'a"

text \<open>Sequencing: the first exception wins.\<close>

fun bindE :: "'e + 'a \<Rightarrow> ('a \<Rightarrow> 'e + 'b) \<Rightarrow> 'e + 'b" where
  "bindE (Inl e) f = Inl e"
| "bindE (Inr x) f = f x"

text \<open>The tagged template \<open>check`${cond} message`\<close>: continue or throw.\<close>

definition check :: "bool \<Rightarrow> 'a throws \<Rightarrow> 'a throws" where
  "check c k = (if c then k else Inl AssertionFailure)"

lemma check_True [simp]: "check True k = k"
  by (simp add: check_def)

lemma check_False [simp]: "check False k = Inl AssertionFailure"
  by (simp add: check_def)

lemma check_Inr_iff [simp]: "check c k = Inr x \<longleftrightarrow> c \<and> k = Inr x"
  by (simp add: check_def)

lemma bindE_Inr_iff: "bindE m f = Inr y \<longleftrightarrow> (\<exists>x. m = Inr x \<and> f x = Inr y)"
  by (cases m) auto

lemma bindE_InrE:
  assumes "bindE m f = Inr y"
  obtains x where "m = Inr x" "f x = Inr y"
  using assms by (auto simp: bindE_Inr_iff)

lemma bindE_assoc: "bindE (bindE m f) g = bindE m (\<lambda>x. bindE (f x) g)"
  by (cases m) auto

section \<open>Lists as arrays\<close>

text \<open>\<open>a.subarray(start, end)\<close> on a \<open>Uint8Array\<close>: both ends are clamped to the length.\<close>

definition subarray :: "'a list \<Rightarrow> nat \<Rightarrow> nat \<Rightarrow> 'a list" where
  "subarray xs start end = take (end - start) (drop start xs)"

text \<open>\<open>a.set(src, off)\<close>, for a source that fits into the array.\<close>

definition blit :: "'a list \<Rightarrow> nat \<Rightarrow> 'a list \<Rightarrow> 'a list" where
  "blit xs off src = take off xs @ src @ drop (off + length src) xs"

lemma length_subarray [simp]: "length (subarray xs s e) = min (e - s) (length xs - s)"
  by (simp add: subarray_def)

lemma subarray_full: "n \<le> length xs \<Longrightarrow> length (subarray xs s (s + k)) = k \<longleftrightarrow> k \<le> length xs - s"
  by (auto simp: subarray_def)

lemma nth_subarray: "i < e - s \<Longrightarrow> s + i < length xs \<Longrightarrow> subarray xs s e ! i = xs ! (s + i)"
  by (simp add: subarray_def)

lemma length_blit [simp]: "off + length src \<le> length xs \<Longrightarrow> length (blit xs off src) = length xs"
  by (simp add: blit_def)

lemma nth_blit:
  assumes "off + length src \<le> length xs" and "i < length xs"
  shows "blit xs off src ! i =
    (if off \<le> i \<and> i < off + length src then src ! (i - off) else xs ! i)"
  using assms by (auto simp: blit_def nth_append min_def)

lemma take_blit: "off + length src \<le> length xs \<Longrightarrow>
    take (off + length src) (blit xs off src) = take off xs @ src"
  by (cases src) (auto simp: blit_def min_def)

lemma subarray_append_blit:
  "off + length src \<le> length xs \<Longrightarrow> subarray (blit xs off src) off (off + length src) = src"
  by (simp add: blit_def subarray_def min_def)

lemma blit_Nil [simp]: "blit xs off [] = xs"
  by (simp add: blit_def)

lemma blit_blit:
  assumes "off + length as + length bs \<le> length xs"
  shows "blit (blit xs off as) (off + length as) bs = blit xs off (as @ bs)"
  by (rule nth_equalityI) (use assms in \<open>auto simp: nth_blit nth_append\<close>)

lemma div_less_of_mult: "0 < b \<Longrightarrow> n < a * b \<Longrightarrow> n div b < a" for a b n :: int
  by (metis div_by_0 less_irrefl linorder_not_le mult_right_mono order_less_imp_le order_trans
      pos_mod_sign le_add_same_cancel1 div_mult_mod_eq)

section \<open>Little-endian byte strings\<close>

primrec le_bytes :: "nat \<Rightarrow> int \<Rightarrow> byte list" where
  "le_bytes 0 x = []"
| "le_bytes (Suc n) x = word_of_int x # le_bytes n (x div 256)"

primrec le_val :: "byte list \<Rightarrow> int" where
  "le_val [] = 0"
| "le_val (b # bs) = uint b + 256 * le_val bs"

lemma length_le_bytes [simp]: "length (le_bytes n x) = n"
  by (induction n arbitrary: x) auto

lemma uint_word8_of_int: "uint (word_of_int x :: byte) = x mod 256"
  by (simp add: uint_word_of_int)

lemma byte_bounds: "0 \<le> uint (b :: byte)" "uint (b :: byte) < 256"
  using uint_lt2p [of b] by simp_all

lemma mod_256_decomp: "x mod 256 + 256 * ((x div 256) mod 256 ^ n) = x mod (256 :: int) ^ Suc n"
proof -
  have "x mod (256 * 256 ^ n) = 256 * (x div 256 mod 256 ^ n) + x mod 256"
    by (rule zmod_zmult2_eq) simp
  then show ?thesis by simp
qed

lemma le_val_le_bytes: "le_val (le_bytes n x) = x mod 256 ^ n"
proof (induction n arbitrary: x)
  case 0
  show ?case by simp
next
  case (Suc n)
  then show ?case using mod_256_decomp [of x n] by (simp add: uint_word8_of_int)
qed

lemma le_val_nonneg [simp]: "0 \<le> le_val bs"
  by (induction bs) (auto simp: byte_bounds)

lemma le_val_less: "le_val bs < 256 ^ length bs"
proof (induction bs)
  case Nil
  show ?case by simp
next
  case (Cons b bs)
  have "uint b < 256" by (rule byte_bounds)
  with Cons show ?case by simp
qed

lemma le_bytes_le_val: "le_bytes (length bs) (le_val bs) = bs"
proof (induction bs)
  case Nil
  show ?case by simp
next
  case (Cons b bs)
  have "(uint b + 256 * le_val bs) div 256 = le_val bs"
    using byte_bounds [of b] by simp
  moreover have "(word_of_int (uint b + 256 * le_val bs) :: byte) = b"
    by (rule word_uint_eqI) (use byte_bounds [of b] in \<open>simp add: uint_word8_of_int del: of_int_add of_int_mult\<close>)
  ultimately show ?case using Cons by simp
qed

lemma le_bytes_mod: "le_bytes n (x mod 256 ^ n) = le_bytes n x"
  using le_bytes_le_val [of "le_bytes n x"] by (simp add: le_val_le_bytes)

lemma le_bytes_cong: "x mod 256 ^ n = y mod 256 ^ n \<Longrightarrow> le_bytes n x = le_bytes n y"
  using le_bytes_mod [of n x] le_bytes_mod [of n y] by simp

lemma le_val_append: "le_val (xs @ ys) = le_val xs + 256 ^ length xs * le_val ys"
  by (induction xs) (auto simp: algebra_simps)

lemma le_val_replicate_0 [simp]: "le_val (replicate n 0) = 0"
  by (induction n) auto

lemma le_val_inject: "length xs = length ys \<Longrightarrow> le_val xs = le_val ys \<longleftrightarrow> xs = ys"
  using le_bytes_le_val [of xs] le_bytes_le_val [of ys] by metis

lemma take_le_bytes: "k \<le> n \<Longrightarrow> take k (le_bytes n x) = le_bytes k x"
proof (induction k arbitrary: n x)
  case 0
  then show ?case by simp
next
  case (Suc k)
  then obtain m where "n = Suc m" by (cases n) auto
  with Suc show ?case by simp
qed

lemma nth_le_bytes: "i < n \<Longrightarrow> le_bytes n x ! i = word_of_int (x div 256 ^ i)"
proof (induction n arbitrary: i x)
  case 0
  then show ?case by simp
next
  case (Suc n)
  then show ?case by (cases i) (auto simp: zdiv_zmult2_eq)
qed

text \<open>The bytes of a 64-bit register, least significant first, and back.\<close>

definition word_bytes :: "u64 \<Rightarrow> byte list" where
  "word_bytes w = le_bytes 8 (uint w)"

definition bytes_word :: "byte list \<Rightarrow> u64" where
  "bytes_word bs = word_of_int (le_val bs)"

lemma length_word_bytes [simp]: "length (word_bytes w) = 8"
  by (simp add: word_bytes_def)

lemma bytes_word_word_bytes [simp]: "bytes_word (word_bytes w) = w"
  using uint_lt2p [of w] by (simp add: word_bytes_def bytes_word_def le_val_le_bytes)

lemma word_bytes_bytes_word: "length bs = 8 \<Longrightarrow> word_bytes (bytes_word bs) = bs"
  using le_val_less [of bs] le_bytes_le_val [of bs]
  by (simp add: word_bytes_def bytes_word_def uint_word_of_int)

end
