(* ===== verification/JsNum.thy ===== *)
theory JsNum
  imports Prelude
begin

text \<open>
  The number semantics of the source language, as far as the program uses it.

  A JavaScript \<open>number\<close> is modelled as an \<open>int\<close>. Every number the modelled code computes with
  is an integer whose magnitude stays below \<open>2 ^ 53\<close> (registers are cut to 32 bits before number
  arithmetic, lengths and indices are below \<open>2 ^ 33\<close>), so double arithmetic on it is exact. The
  bitwise operators convert to 32 bits first (\<open>ToInt32\<close>, \<open>ToUint32\<close> of the language standard)
  and shift counts are taken modulo 32; both are written out here. A \<open>bigint\<close> is an unbounded
  \<open>int\<close>, whose bitwise operators are those of the infinite two's complement, exactly as
  Isabelle's bit operations on \<open>int\<close>; its division and remainder truncate towards zero
  (\<open>sdiv\<close>, \<open>smod\<close>).
\<close>

unbundle bit_operations_syntax

section \<open>Operators on numbers\<close>

definition to_int32 :: "int \<Rightarrow> int" where
  "to_int32 x = signed_take_bit 31 x"

definition to_uint32 :: "int \<Rightarrow> int" where
  "to_uint32 x = take_bit 32 x"

text \<open>The shift count: the low five bits of the right operand.\<close>

definition shift_count :: "int \<Rightarrow> nat" where
  "shift_count n = nat (take_bit 5 n)"

definition js_and :: "int \<Rightarrow> int \<Rightarrow> int" where
  "js_and a b = to_int32 a AND to_int32 b"

definition js_or :: "int \<Rightarrow> int \<Rightarrow> int" where
  "js_or a b = to_int32 a OR to_int32 b"

definition js_xor :: "int \<Rightarrow> int \<Rightarrow> int" where
  "js_xor a b = to_int32 a XOR to_int32 b"

definition js_not :: "int \<Rightarrow> int" where
  "js_not a = NOT (to_int32 a)"

text \<open>\<open>a << n\<close>, \<open>a >> n\<close> and \<open>a >>> n\<close>.\<close>

definition js_shl :: "int \<Rightarrow> int \<Rightarrow> int" where
  "js_shl a n = to_int32 (push_bit (shift_count n) (to_int32 a))"

definition js_shr :: "int \<Rightarrow> int \<Rightarrow> int" where
  "js_shr a n = drop_bit (shift_count n) (to_int32 a)"

definition js_ushr :: "int \<Rightarrow> int \<Rightarrow> int" where
  "js_ushr a n = drop_bit (shift_count n) (to_uint32 a)"

text \<open>\<open>~~(a / b)\<close>: truncating division, then \<open>ToInt32\<close>.\<close>

definition js_trunc_quot :: "int \<Rightarrow> int \<Rightarrow> int" where
  "js_trunc_quot a b = to_int32 (a sdiv b)"

text \<open>\<open>Math.ceil(x / n)\<close> for a natural \<open>x\<close> and a positive \<open>n\<close>.\<close>

definition ceil_div :: "nat \<Rightarrow> nat \<Rightarrow> nat" where
  "ceil_div x n = (x + n - 1) div n"

section \<open>The operators on 32-bit words\<close>

abbreviation w32 :: "int \<Rightarrow> u32" where
  "w32 x \<equiv> word_of_int x"

abbreviation w64 :: "int \<Rightarrow> u64" where
  "w64 x \<equiv> word_of_int x"

lemma to_int32_sint: "to_int32 x = sint (w32 x)"
  by (simp add: to_int32_def sint_sbintrunc')

lemma to_uint32_uint: "to_uint32 x = uint (w32 x)"
  by (simp add: to_uint32_def uint_word_of_int take_bit_eq_mod)

lemma w32_to_int32 [js_word]: "w32 (to_int32 x) = w32 x"
  by (simp add: to_int32_sint)

lemma w32_to_uint32 [js_word]: "w32 (to_uint32 x) = w32 x"
  by (simp add: to_uint32_uint)

lemma shift_count_mod: "shift_count n = nat (n mod 32)"
  by (simp add: shift_count_def take_bit_eq_mod)

lemma shift_count_less: "shift_count n < 32"
  by (simp add: shift_count_mod nat_less_iff)

lemma shift_count_self: "0 \<le> n \<Longrightarrow> n < 32 \<Longrightarrow> shift_count n = nat n"
  by (simp add: shift_count_mod)

lemma shift_count_of_mod32 [simp]: "shift_count (n mod 32) = shift_count n"
  by (simp add: shift_count_mod)

lemma shift_count_32 [simp]: "shift_count 32 = 0"
  by (simp add: shift_count_mod)

lemma w32_js_and [js_word]: "w32 (js_and a b) = w32 a AND w32 b"
  by (simp add: js_and_def of_int_and_eq js_word)

lemma w32_js_or [js_word]: "w32 (js_or a b) = w32 a OR w32 b"
  by (simp add: js_or_def of_int_or_eq js_word)

lemma w32_js_xor [js_word]: "w32 (js_xor a b) = w32 a XOR w32 b"
  by (simp add: js_xor_def of_int_xor_eq js_word)

lemma w32_js_not [js_word]: "w32 (js_not a) = NOT (w32 a)"
  by (simp add: js_not_def of_int_not_eq js_word)

lemma w32_js_shl [js_word]: "w32 (js_shl a n) = push_bit (shift_count n) (w32 a)"
  by (simp add: js_shl_def js_word of_int_push_bit)

lemma js_shr_sint: "js_shr a n = sint (signed_drop_bit (shift_count n) (w32 a))"
  by (simp add: js_shr_def to_int32_sint sint_signed_drop_bit_eq)

lemma w32_js_shr [js_word]: "w32 (js_shr a n) = signed_drop_bit (shift_count n) (w32 a)"
  by (simp add: js_shr_sint)

lemma js_ushr_uint: "js_ushr a n = uint (drop_bit (shift_count n) (w32 a))"
  using uint_lt2p [of "w32 a"]
  by (simp add: js_ushr_def to_uint32_uint unsigned_drop_bit_eq take_bit_int_eq_self)

lemma w32_js_ushr [js_word]: "w32 (js_ushr a n) = drop_bit (shift_count n) (w32 a)"
  by (simp add: js_ushr_uint)

text \<open>The value of a bitwise result is the signed reading of the word.\<close>

lemma js_and_sint: "js_and a b = sint (w32 a AND w32 b)"
  by (simp add: js_and_def to_int32_sint signed_and_eq)

lemma js_or_sint: "js_or a b = sint (w32 a OR w32 b)"
  by (simp add: js_or_def to_int32_sint signed_or_eq)

lemma js_shl_sint: "js_shl a n = sint (push_bit (shift_count n) (w32 a))"
  unfolding w32_js_shl [symmetric]
  by (simp add: js_shl_def to_int32_def flip: to_int32_sint)

section \<open>Small values\<close>

text \<open>On values that fit the positive half of an \<open>int32\<close> the operators are the plain ones.\<close>

lemma to_int32_id: "0 \<le> x \<Longrightarrow> x < 2 ^ 31 \<Longrightarrow> to_int32 x = x"
  by (simp add: to_int32_def signed_take_bit_int_eq_self)

lemma to_uint32_id: "0 \<le> x \<Longrightarrow> x < 2 ^ 32 \<Longrightarrow> to_uint32 x = x"
  by (simp add: to_uint32_def take_bit_int_eq_self)

lemma to_uint32_mod: "to_uint32 x = x mod 2 ^ 32"
  by (simp add: to_uint32_def take_bit_eq_mod)

lemma js_and_mask:
  assumes "k < 32"
  shows "js_and x (2 ^ k - 1) = x mod 2 ^ k"
proof -
  have lt: "(2 :: int) ^ k \<le> 2 ^ 31"
    using assms by (intro power_increasing) auto
  then have "to_int32 (2 ^ k - 1) = mask k"
    by (simp add: to_int32_id mask_eq_exp_minus_1)
  then have "js_and x (2 ^ k - 1) = take_bit k (signed_take_bit 31 x)"
    by (simp add: js_and_def to_int32_def flip: take_bit_eq_mask)
  also have "\<dots> = take_bit k x"
    using assms by (simp add: take_bit_signed_take_bit)
  finally show ?thesis by (simp add: take_bit_eq_mod)
qed

lemma js_ushr_small: "0 \<le> x \<Longrightarrow> x < 2 ^ 32 \<Longrightarrow> 0 \<le> n \<Longrightarrow> n < 32 \<Longrightarrow> js_ushr x n = x div 2 ^ nat n"
  by (simp add: js_ushr_def to_uint32_id shift_count_self drop_bit_eq_div)

lemma js_ushr_0: "js_ushr x 0 = x mod 2 ^ 32"
  by (simp add: js_ushr_def to_uint32_mod shift_count_mod)

lemma js_shr_small: "0 \<le> x \<Longrightarrow> x < 2 ^ 31 \<Longrightarrow> 0 \<le> n \<Longrightarrow> n < 32 \<Longrightarrow> js_shr x n = x div 2 ^ nat n"
  by (simp add: js_shr_def to_int32_id shift_count_self drop_bit_eq_div)

lemma js_shr_0: "js_shr x 0 = sint (w32 x)"
  by (simp add: js_shr_sint shift_count_mod)

lemma js_shl_small:
  assumes "0 \<le> x" "0 \<le> n" "n < 32" "x * 2 ^ nat n < 2 ^ 31"
  shows "js_shl x n = x * 2 ^ nat n"
proof -
  have "x * 1 \<le> x * 2 ^ nat n"
    using assms(1) by (intro mult_left_mono) auto
  with assms show ?thesis
    by (simp add: js_shl_def shift_count_self to_int32_id push_bit_eq_mult)
qed

text \<open>Or-ing in disjoint bit ranges is addition: how the code assembles bytes.\<close>

lemma or_push_bit_eq_add:
  fixes x y :: int
  assumes "0 \<le> x" "x < 2 ^ n"
  shows "x OR push_bit n y = x + 2 ^ n * y"
proof -
  have x: "take_bit n x = x" using assms by (simp add: take_bit_int_eq_self)
  then have "x OR push_bit n y = concat_bit n x y"
    by (simp add: concat_bit_def)
  also have "\<dots> = x + 2 ^ n * y"
    using x by (simp add: concat_bit_eq push_bit_eq_mult mult.commute)
  finally show ?thesis .
qed

lemma ceil_div_bounds:
  assumes "0 < n"
  shows "x \<le> n * ceil_div x n" and "n * ceil_div x n < x + n"
proof -
  have "n * ((x + n - 1) div n) + (x + n - 1) mod n = x + n - 1"
    by simp
  moreover have "(x + n - 1) mod n < n"
    using assms by simp
  ultimately have "x \<le> n * ((x + n - 1) div n) \<and> n * ((x + n - 1) div n) < x + n"
    using assms by linarith
  then show "x \<le> n * ceil_div x n" and "n * ceil_div x n < x + n"
    by (simp_all add: ceil_div_def)
qed

lemma ceil_div_le_iff:
  assumes "0 < n"
  shows "ceil_div x n \<le> k \<longleftrightarrow> x \<le> n * k"
proof
  assume "ceil_div x n \<le> k"
  then have "n * ceil_div x n \<le> n * k" by simp
  with ceil_div_bounds(1) [OF assms, of x] show "x \<le> n * k" by linarith
next
  assume "x \<le> n * k"
  with ceil_div_bounds(2) [OF assms, of x] have "n * ceil_div x n < n * (k + 1)"
    by (simp add: algebra_simps)
  then have "ceil_div x n < k + 1" by (simp only: mult_less_cancel1)
  then show "ceil_div x n \<le> k" by simp
qed

lemma ceil_div_0 [simp]: "0 < n \<Longrightarrow> ceil_div 0 n = 0"
  by (simp add: ceil_div_def)

lemma ceil_div_mult [simp]: "0 < n \<Longrightarrow> ceil_div (n * k) n = k"
  using ceil_div_le_iff [of n "n * k"] ceil_div_bounds(1) [of n "n * k"]
  by (intro antisym) auto


end
