(* ===== verification/Registers.thy ===== *)
theory Registers
  imports JsNum
begin

text \<open>
  The register file of the PVM, \<open>registers.ts\<close>: thirteen 64-bit cells read as unsigned
  (\<open>asUnsigned\<close>) or signed (\<open>asSigned\<close>) \<open>bigint\<close>s, both views of one byte buffer. The cells are
  words; the two views are \<open>uint\<close> and \<open>sint\<close>, a store into either reduces modulo \<open>2 ^ 64\<close>
  (\<open>word_of_int\<close>), and the byte view is the little-endian concatenation. An out-of-range store into
  a typed array is ignored, as a list update out of range is; reads are only made at indices
  produced by the nibble decoder, which clamps them to 12 (see theory ArgsDecoder).
\<close>

unbundle bit_operations_syntax

type_synonym registers = "u64 list"

definition NO_OF_REGISTERS :: nat where "NO_OF_REGISTERS = 13"
definition REGISTER_SIZE_SHIFT :: nat where "REGISTER_SIZE_SHIFT = 3"

definition tryAsRegisterIndex :: "int \<Rightarrow> nat throws" where
  "tryAsRegisterIndex index = check (index \<ge> 0 \<and> index < int NO_OF_REGISTERS) (Inr (nat index))"

definition signExtend32To64 :: "int \<Rightarrow> int" where
  "signExtend32To64 bigValue =
     (let mask32 = 0xffffffff; signBit = 0x80000000; maskedValue = bigValue AND mask32
      in if maskedValue AND signBit \<noteq> 0 then maskedValue OR NOT mask32 else maskedValue)"

definition empty_registers :: registers where
  "empty_registers = replicate NO_OF_REGISTERS 0"

definition getAllEncoded :: "registers \<Rightarrow> byte list" where
  "getAllEncoded regs = concat (List.map word_bytes regs)"

fun words_of_bytes :: "byte list \<Rightarrow> registers" where
  "words_of_bytes (b0 # b1 # b2 # b3 # b4 # b5 # b6 # b7 # bs) =
     bytes_word [b0, b1, b2, b3, b4, b5, b6, b7] # words_of_bytes bs"
| "words_of_bytes _ = []"

definition registers_fromBytes :: "byte list \<Rightarrow> registers throws" where
  "registers_fromBytes bytes =
     check (length bytes = push_bit REGISTER_SIZE_SHIFT NO_OF_REGISTERS) (Inr (words_of_bytes bytes))"

definition setAllEncoded :: "registers \<Rightarrow> byte list \<Rightarrow> registers throws" where
  "setAllEncoded regs bytes =
     check (length bytes = length (getAllEncoded regs)) (Inr (words_of_bytes bytes))"

definition getBytesAsLittleEndian :: "registers \<Rightarrow> nat \<Rightarrow> nat \<Rightarrow> byte list" where
  "getBytesAsLittleEndian regs index len =
     (let offset = push_bit REGISTER_SIZE_SHIFT index
      in subarray (getAllEncoded regs) offset (offset + len))"

definition copyFrom_regs :: "registers \<Rightarrow> registers \<Rightarrow> registers" where
  "copyFrom_regs regs other = blit regs 0 other"

fun reset_loop :: "nat \<Rightarrow> registers \<Rightarrow> registers" where
  "reset_loop 0 regs = regs"
| "reset_loop (Suc i) regs = (reset_loop i regs)[i := 0]"

definition reset_regs :: "registers \<Rightarrow> registers" where
  "reset_regs regs = reset_loop NO_OF_REGISTERS regs"

definition getU64 :: "registers \<Rightarrow> nat \<Rightarrow> int" where
  "getU64 regs i = uint (regs ! i)"

definition getI64 :: "registers \<Rightarrow> nat \<Rightarrow> int" where
  "getI64 regs i = sint (regs ! i)"

definition setU64 :: "registers \<Rightarrow> nat \<Rightarrow> int \<Rightarrow> registers" where
  "setU64 regs i v = regs[i := word_of_int v]"

definition setI64 :: "registers \<Rightarrow> nat \<Rightarrow> int \<Rightarrow> registers" where
  "setI64 regs i v = regs[i := word_of_int v]"

definition getLowerU32 :: "registers \<Rightarrow> nat \<Rightarrow> int" where
  "getLowerU32 regs i = getU64 regs i AND 0xffffffff"

definition getLowerI32 :: "registers \<Rightarrow> nat \<Rightarrow> int" where
  "getLowerI32 regs i = js_shr (getLowerU32 regs i) 0"

definition setU32 :: "registers \<Rightarrow> nat \<Rightarrow> int \<Rightarrow> registers" where
  "setU32 regs i v = setU64 regs i (signExtend32To64 v)"

definition setI32 :: "registers \<Rightarrow> nat \<Rightarrow> int \<Rightarrow> registers" where
  "setI32 regs i v = setI64 regs i (signExtend32To64 v)"

section \<open>The views as words\<close>

abbreviation lo32 :: "u64 \<Rightarrow> u32" where
  "lo32 w \<equiv> ucast w"

abbreviation sx64 :: "u32 \<Rightarrow> u64" where
  "sx64 w \<equiv> scast w"

lemma mask32_lit: "(0xffffffff :: int) = mask 32"
  by (simp add: mask_eq_exp_minus_1)

lemma and_mask_single: "k < m \<Longrightarrow> (v AND mask m) AND push_bit k 1 = push_bit k (of_bool (bit v k))"
  for v :: int
  by (rule bit_eqI) (auto simp: bit_simps)

lemma signExtend32To64_eq: "signExtend32To64 v = signed_take_bit 31 v"
proof -
  have s: "(0x80000000 :: int) = push_bit 31 1" by (simp add: push_bit_eq_mult)
  have b: "(v AND mask 32) AND push_bit 31 1 = push_bit 31 (of_bool (bit v 31))"
    by (rule and_mask_single) simp
  have c: "(push_bit 31 (of_bool (bit v 31)) \<noteq> (0 :: int)) = bit v 31" by simp
  have "signExtend32To64 v =
      (if bit v 31 then (v AND mask 32) OR NOT (mask 32) else v AND mask 32)"
    unfolding signExtend32To64_def Let_def mask32_lit s b c ..
  moreover have "n = 31 \<or> n < 31 \<or> 32 \<le> n" for n :: nat by arith
  ultimately show ?thesis
    by (intro bit_eqI) (auto simp: bit_simps min_def split: if_splits dest: le_antisym)
qed

lemma w64_signExtend32To64 [op_spec]: "w64 (signExtend32To64 v) = sx64 (w32 v)"
  unfolding signExtend32To64_eq to_int32_def [symmetric] to_int32_sint
  by simp

lemma getLowerU32_eq [op_spec]: "getLowerU32 regs i = uint (lo32 (regs ! i))"
  unfolding getLowerU32_def getU64_def mask32_lit take_bit_eq_mask [symmetric]
  by (simp add: unsigned_ucast_eq)

lemma getLowerI32_eq [op_spec]: "getLowerI32 regs i = sint (lo32 (regs ! i))"
  by (simp add: getLowerI32_def getLowerU32_eq js_shr_0)

lemma setU32_eq [op_spec]: "setU32 regs i v = regs[i := sx64 (w32 v)]"
  by (simp add: setU32_def setU64_def w64_signExtend32To64)

lemma setI32_eq [op_spec]: "setI32 regs i v = regs[i := sx64 (w32 v)]"
  by (simp add: setI32_def setI64_def w64_signExtend32To64)

lemmas reg_access = getU64_def getI64_def setU64_def setI64_def getLowerU32_eq getLowerI32_eq
  setU32_eq setI32_eq

lemma length_set [simp]:
  "length (setU64 regs i v) = length regs" "length (setI64 regs i v) = length regs"
  "length (setU32 regs i v) = length regs" "length (setI32 regs i v) = length regs"
  by (simp_all add: reg_access)

section \<open>The byte view\<close>

lemma words_of_bytes_append:
  "length bs = 8 \<Longrightarrow> words_of_bytes (bs @ cs) = bytes_word bs # words_of_bytes cs"
  by (auto simp: length_Suc_conv numeral_eq_Suc)

lemma words_of_bytes_getAllEncoded [simp]: "words_of_bytes (getAllEncoded regs) = regs"
  by (induction regs) (auto simp: getAllEncoded_def words_of_bytes_append)

lemma length_getAllEncoded [simp]: "length (getAllEncoded regs) = 8 * length regs"
  by (induction regs) (auto simp: getAllEncoded_def)

lemma getAllEncoded_words_of_bytes:
  "length bs = 8 * n \<Longrightarrow> getAllEncoded (words_of_bytes bs) = bs \<and> length (words_of_bytes bs) = n"
proof (induction n arbitrary: bs)
  case 0
  then show ?case by (simp add: getAllEncoded_def)
next
  case (Suc n)
  have l: "length (take 8 bs) = 8" "length (drop 8 bs) = 8 * n" using Suc.prems by auto
  have "words_of_bytes bs = bytes_word (take 8 bs) # words_of_bytes (drop 8 bs)"
    using words_of_bytes_append [OF l(1), of "drop 8 bs"] by simp
  moreover have "word_bytes (bytes_word (take 8 bs)) = take 8 bs"
    by (rule word_bytes_bytes_word [OF l(1)])
  ultimately show ?case
    using Suc.IH [OF l(2)] by (simp add: getAllEncoded_def)
qed

lemma getAllEncoded_drop: "drop (8 * i) (getAllEncoded regs) = getAllEncoded (drop i regs)"
proof (induction i arbitrary: regs)
  case 0
  then show ?case by simp
next
  case (Suc i)
  then show ?case by (cases regs) (auto simp: getAllEncoded_def)
qed

text \<open>The bytes a store instruction reads from a register are its low \<open>len\<close> bytes.\<close>

lemma getBytesAsLittleEndian_eq:
  assumes "i < length regs" "len \<le> 8"
  shows "getBytesAsLittleEndian regs i len = le_bytes len (uint (regs ! i))"
proof -
  have "drop i regs = regs ! i # drop (Suc i) regs"
    using assms(1) by (simp add: Cons_nth_drop_Suc)
  then have "getAllEncoded (drop i regs) = word_bytes (regs ! i) @ getAllEncoded (drop (Suc i) regs)"
    by (simp add: getAllEncoded_def)
  then have "take len (drop (8 * i) (getAllEncoded regs)) = take len (word_bytes (regs ! i))"
    using assms(2) by (simp add: getAllEncoded_drop)
  then show ?thesis
    using assms(2)
    by (simp add: getBytesAsLittleEndian_def subarray_def REGISTER_SIZE_SHIFT_def push_bit_eq_mult
        mult.commute word_bytes_def take_le_bytes)
qed

lemma reset_regs_eq: "length regs = 13 \<Longrightarrow> reset_regs regs = empty_registers"
  by (simp add: reset_regs_def empty_registers_def NO_OF_REGISTERS_def numeral_eq_Suc length_Suc_conv)
     (auto simp: length_Suc_conv)

lemma copyFrom_regs_eq: "length regs = length other \<Longrightarrow> copyFrom_regs regs other = other"
  by (simp add: copyFrom_regs_def blit_def)


end
