(* ===== verification/MathUtils.thy ===== *)
theory MathUtils
  imports Registers
begin

text \<open>
  The arithmetic helpers of \<open>ops/math-utils.ts\<close> and the bit counters of \<open>ops/bit-utils.ts\<close>, with
  what each computes on machine words. The 32-bit multiplication and both population counts are
  the optimised routines of the source; they are proved equal to the plain operations.
\<close>

unbundle bit_operations_syntax

definition MAX_U32 :: int where "MAX_U32 = 0xffffffff"

definition addWithOverflowU32 :: "int \<Rightarrow> int \<Rightarrow> int" where
  "addWithOverflowU32 a b =
     (if a > MAX_U32 - b then
        let spaceToMaxA = MAX_U32 - a; spaceToMaxB = MAX_U32 - b;
            overflowSum = spaceToMaxA + spaceToMaxB
        in MAX_U32 - overflowSum - 1
      else a + b)"

text \<open>\<open>(a + b) % 2n ** 64n\<close>: exponentiation binds tighter than the remainder.\<close>

definition addWithOverflowU64 :: "int \<Rightarrow> int \<Rightarrow> int" where
  "addWithOverflowU64 a b = (a + b) smod 2 ^ 64"

definition sub_U32 :: "int \<Rightarrow> int \<Rightarrow> int" where
  "sub_U32 a b = (if b > a then MAX_U32 - b + a + 1 else a - b)"

definition sub_U64 :: "int \<Rightarrow> int \<Rightarrow> int" where
  "sub_U64 a b = (2 ^ 64 + a - b) smod 2 ^ 64"

definition MUL_THRESHOLD :: int where "MUL_THRESHOLD = 2 ^ 16"

definition mulLowerUnsignedU32 :: "int \<Rightarrow> int \<Rightarrow> int" where
  "mulLowerUnsignedU32 a b =
     (if a > MUL_THRESHOLD \<or> b > MUL_THRESHOLD then
        let aHigh = js_shr a 16; aLow = js_and a 0xffff;
            bHigh = js_shr b 16; bLow = js_and b 0xffff;
            lowLow = aLow * bLow; lowHigh = aLow * bHigh; highLow = aHigh * bLow;
            carry = js_shr lowLow 16 + js_and lowHigh 0xffff + js_and highLow 0xffff
        in js_or (js_and lowLow 0xffff) (js_shl carry 16)
      else a * b)"

definition mul_U64 :: "int \<Rightarrow> int \<Rightarrow> int" where
  "mul_U64 a b = (a * b) smod 2 ^ 64"

definition mulUpper :: "int \<Rightarrow> int \<Rightarrow> int" where
  "mulUpper a b = drop_bit 64 (a * b) AND 0xffffffffffffffff"

definition interpretAsSigned :: "int \<Rightarrow> int" where
  "interpretAsSigned v =
     (let unsignedLimit = push_bit 64 1; signedLimit = push_bit 63 1
      in if v \<ge> signedLimit then v - unsignedLimit else v)"

definition mul_UpperUU :: "int \<Rightarrow> int \<Rightarrow> int" where
  "mul_UpperUU a b =
     (let aUnsigned = a AND 0xffffffffffffffff; bUnsigned = b AND 0xffffffffffffffff
      in drop_bit 64 (aUnsigned * bUnsigned) AND 0xffffffffffffffff)"

definition mul_UpperSU :: "int \<Rightarrow> int \<Rightarrow> int" where
  "mul_UpperSU a b =
     (let bUnsigned = b AND 0xffffffffffffffff;
          signedResult = drop_bit 64 (a * bUnsigned);
          resultLimitedTo64Bits = signedResult AND 0xffffffffffffffff
      in interpretAsSigned resultLimitedTo64Bits)"

definition mul_UpperSS :: "int \<Rightarrow> int \<Rightarrow> int" where
  "mul_UpperSS a b =
     (let signedResult = drop_bit 64 (a * b);
          resultLimitedTo64Bits = signedResult AND 0xffffffffffffffff
      in interpretAsSigned resultLimitedTo64Bits)"

text \<open>The length of \<open>value.toString(2)\<close>: the binary digits, and a minus sign if negative.\<close>

fun bin_digits :: "nat \<Rightarrow> nat" where
  "bin_digits n = (if n < 2 then 1 else 1 + bin_digits (n div 2))"

declare bin_digits.simps [simp del]

definition unsignedRightShiftBigInt :: "int \<Rightarrow> int \<Rightarrow> int throws" where
  "unsignedRightShiftBigInt v shift = check (shift \<ge> 0)
     (let binaryLength = max 64 ((if v < 0 then 1 else 0) + bin_digits (nat \<bar>v\<bar>));
          unsignedRepresentation = (if v < 0 then push_bit binaryLength 1 + v else v)
      in Inr (drop_bit (nat shift) unsignedRepresentation))"

definition maxBigInt :: "int list \<Rightarrow> int throws" where
  "maxBigInt args = (case args of [] \<Rightarrow> Inl GenericError
     | x # xs \<Rightarrow> Inr (foldl (\<lambda>m current. if current > m then current else m) x xs))"

definition minBigInt :: "int list \<Rightarrow> int throws" where
  "minBigInt args = (case args of [] \<Rightarrow> Inl GenericError
     | x # xs \<Rightarrow> Inr (foldl (\<lambda>m current. if current < m then current else m) x xs))"

section \<open>Bit counting\<close>

definition countBits32 :: "int \<Rightarrow> int" where
  "countBits32 val =
     (let x = val;
          x = x - js_and (js_shr x 1) 0x55555555;
          x = js_and x 0x33333333 + js_and (js_shr x 2) 0x33333333;
          x = js_and (x + js_shr x 4) 0x0f0f0f0f;
          x = x + js_shr x 8;
          x = x + js_shr x 16
      in js_and x 0x3f)"

definition countBits64 :: "int \<Rightarrow> int" where
  "countBits64 val =
     (let x = val;
          x = x - (drop_bit 1 x AND 0x5555555555555555);
          x = (x AND 0x3333333333333333) + (drop_bit 2 x AND 0x3333333333333333);
          x = (x + drop_bit 4 x) AND 0x0f0f0f0f0f0f0f0f;
          x = x + drop_bit 8 x;
          x = x + drop_bit 16 x;
          x = x + drop_bit 32 x
      in x AND 0x7f)"

text \<open>\<open>Math.clz32\<close> of the language's library: the zeros before the first one of a \<open>uint32\<close>.\<close>

definition math_clz32 :: "int \<Rightarrow> int" where
  "math_clz32 x = int (length (takeWhile (\<lambda>i. \<not> bit (to_uint32 x) i) (rev [0..<32])))"

definition clz64 :: "int \<Rightarrow> int" where
  "clz64 bigintValue =
     (let highNumber = drop_bit 32 bigintValue; lowNumber = bigintValue AND 0xffffffff;
          highResult = math_clz32 highNumber
      in if highResult < 32 then highResult else highResult + math_clz32 lowNumber)"

text \<open>
  The counting loops of \<open>ctz32\<close> and \<open>ctz64\<close>: while the last bit is clear. They stop because the
  value is not zero; the argument \<open>fuel\<close> bounds the rounds, 32 and 64 of them are enough.
\<close>

fun ctz32_loop :: "nat \<Rightarrow> int \<Rightarrow> int \<Rightarrow> int" where
  "ctz32_loop 0 v count = count"
| "ctz32_loop (Suc fuel) v count =
     (if js_and v 1 = 0 then ctz32_loop fuel (js_ushr v 1) (count + 1) else count)"

definition ctz32 :: "int \<Rightarrow> int" where
  "ctz32 val = (if val = 0 then 32 else ctz32_loop 32 val 0)"

fun ctz64_loop :: "nat \<Rightarrow> int \<Rightarrow> int \<Rightarrow> int" where
  "ctz64_loop 0 v count = count"
| "ctz64_loop (Suc fuel) v count =
     (if v AND 1 = 0 then ctz64_loop fuel (drop_bit 1 v) (count + 1) else count)"

definition ctz64 :: "int \<Rightarrow> int" where
  "ctz64 val = (if val = 0 then 64 else ctz64_loop 64 val 0)"

section \<open>The population counts are right\<close>

text \<open>
  A number as a list of digits of \<open>k\<close> bits. Each round of the routine adds neighbouring digits
  into one of twice the width; the digits never overflow into each other.
\<close>

fun dv :: "nat \<Rightarrow> int list \<Rightarrow> int" where
  "dv k [] = 0"
| "dv k (d # ds) = d + 2 ^ k * dv k ds"

fun sums :: "int list \<Rightarrow> int list" where
  "sums (a # b # ds) = (a + b) # sums ds"
| "sums _ = []"

fun rep_mask :: "nat \<Rightarrow> int \<Rightarrow> nat \<Rightarrow> int" where
  "rep_mask k m 0 = 0"
| "rep_mask k m (Suc n) = m + 2 ^ k * rep_mask k m n"

definition in_digits :: "int \<Rightarrow> int list \<Rightarrow> bool" where
  "in_digits m ds \<longleftrightarrow> (\<forall>d \<in> set ds. 0 \<le> d \<and> d \<le> m)"

lemma in_digits_simps [simp]:
  "in_digits m []" "in_digits m (d # ds) \<longleftrightarrow> 0 \<le> d \<and> d \<le> m \<and> in_digits m ds"
  by (auto simp: in_digits_def)

lemma and_digit:
  fixes d m :: int
  assumes "0 \<le> d" "d < 2 ^ k" "0 \<le> m" "m < 2 ^ k"
  shows "(d + 2 ^ k * r) AND (m + 2 ^ k * M) = (d AND m) + 2 ^ k * (r AND M)"
proof -
  have t: "take_bit k d = d" "take_bit k m = m" using assms by (simp_all add: take_bit_int_eq_self)
  have dm: "0 \<le> d AND m" "d AND m < 2 ^ k"
    using assms by (auto intro: AND_upper1 order_le_less_trans)
  have "(d + 2 ^ k * r) AND (m + 2 ^ k * M) = (d OR push_bit k r) AND (m OR push_bit k M)"
    using assms by (simp add: or_push_bit_eq_add)
  also have "\<dots> = (take_bit k d OR push_bit k r) AND (take_bit k m OR push_bit k M)"
    by (simp only: t)
  also have "\<dots> = (take_bit k d AND take_bit k m) OR push_bit k (r AND M)"
    by (rule bit_eqI) (auto simp: bit_simps)
  also have "\<dots> = (d AND m) OR push_bit k (r AND M)" by (simp only: t)
  also have "\<dots> = (d AND m) + 2 ^ k * (r AND M)"
    using dm by (rule or_push_bit_eq_add)
  finally show ?thesis .
qed

lemma sum_sums: "even (length ds) \<Longrightarrow> sum_list (sums ds) = sum_list ds"
  by (induction ds rule: sums.induct) auto

lemma length_sums: "length (sums ds) = length ds div 2"
  by (induction ds rule: sums.induct) auto

lemma in_digits_sums: "in_digits m ds \<Longrightarrow> in_digits (2 * m) (sums ds)"
  by (induction ds rule: sums.induct) auto

lemma dv_nonneg: "in_digits m ds \<Longrightarrow> 0 \<le> dv k ds"
  by (induction ds) auto

fun evens :: "int list \<Rightarrow> int list" where
  "evens (a # b # ds) = a # evens ds"
| "evens _ = []"

fun odds :: "int list \<Rightarrow> int list" where
  "odds (a # b # ds) = b # odds ds"
| "odds _ = []"

lemma pow_double: "(2 :: int) ^ (2 * k) = 2 ^ k * 2 ^ k" "(2 :: int) ^ (k * 2) = 2 ^ k * 2 ^ k"
  by (simp_all add: mult_2 mult_2_right power_add)

lemma dv_sums: "dv k (evens ds) + dv k (odds ds) = dv k (sums ds)"
proof (induction ds rule: sums.induct)
  case (1 a b ds)
  show ?case by (simp add: distrib_left flip: 1)
qed auto

lemma dv_split: "even (length ds) \<Longrightarrow> dv k ds = dv (2 * k) (evens ds) + 2 ^ k * dv (2 * k) (odds ds)"
  by (induction ds rule: sums.induct) (auto simp: algebra_simps pow_double)

text \<open>Masking every other digit, before and after a shift by one digit.\<close>

lemma mask_digit: "0 \<le> a \<Longrightarrow> a < 2 ^ k \<Longrightarrow> (a + 2 ^ k * b) AND (2 ^ k - 1) = a" for a b :: int
  by (simp add: take_bit_eq_mod take_bit_int_eq_self flip: mask_eq_exp_minus_1 take_bit_eq_mask)

lemma digit_less: "0 \<le> a \<Longrightarrow> a < 2 ^ k \<Longrightarrow> 0 \<le> b \<Longrightarrow> b < 2 ^ k \<Longrightarrow> a + 2 ^ k * b < 2 ^ (2 * k)" for a b :: int
proof -
  assume *: "a < 2 ^ k" "b < 2 ^ k"
  then have "2 ^ k * (b + 1) \<le> (2 :: int) ^ k * 2 ^ k" by (intro mult_left_mono) auto
  with * show ?thesis by (simp add: algebra_simps pow_double)
qed

abbreviation alt_mask :: "nat \<Rightarrow> nat \<Rightarrow> int" where
  "alt_mask k n \<equiv> rep_mask (2 * k) (2 ^ k - 1) n"

lemma and_alt_mask:
  assumes "in_digits (2 ^ k - 1) ds" "even (length ds)"
  shows "dv k ds AND alt_mask k (length ds div 2) = dv (2 * k) (evens ds)"
    and "drop_bit k (dv k ds) AND alt_mask k (length ds div 2) = dv (2 * k) (odds ds)"
proof -
  have *: "dv k ds AND alt_mask k (length ds div 2) = dv (2 * k) (evens ds) \<and>
    drop_bit k (dv k ds) AND alt_mask k (length ds div 2) = dv (2 * k) (odds ds)"
    using assms
  proof (induction ds rule: sums.induct)
    case (1 a b ds)
    let ?R = "dv k ds" and ?M = "alt_mask k (length ds div 2)"
    have ab: "0 \<le> a" "a < 2 ^ k" "0 \<le> b" "b < 2 ^ k" using 1 by auto
    have m: "0 \<le> (2 :: int) ^ k - 1" "(2 :: int) ^ k - 1 < 2 ^ (2 * k)"
    proof -
      show "0 \<le> (2 :: int) ^ k - 1" by simp
      have "(2 :: int) ^ k \<le> 2 ^ (2 * k)" by (intro power_increasing) auto
      then show "(2 :: int) ^ k - 1 < 2 ^ (2 * k)" by linarith
    qed
    have IH: "?R AND ?M = dv (2 * k) (evens ds)" "drop_bit k ?R AND ?M = dv (2 * k) (odds ds)"
      using 1 by auto
    have e1: "dv k (a # b # ds) = (a + 2 ^ k * b) + 2 ^ (2 * k) * ?R"
      by (simp add: algebra_simps pow_double)
    have e2: "drop_bit k (dv k (a # b # ds)) = (b + 2 ^ k * (?R mod 2 ^ k)) + 2 ^ (2 * k) * drop_bit k ?R"
    proof -
      have "drop_bit k (dv k (a # b # ds)) = b + 2 ^ k * ?R"
        using ab by (simp add: drop_bit_eq_div)
      moreover have "2 ^ k * ?R = 2 ^ k * (?R mod 2 ^ k + 2 ^ k * (?R div 2 ^ k))" by simp
      ultimately show ?thesis
        by (simp only: drop_bit_eq_div distrib_left pow_double mult.assoc add.assoc)
    qed
    have c: "0 \<le> ?R mod 2 ^ k" "?R mod 2 ^ k < 2 ^ k" by simp_all
    have M: "alt_mask k (length (a # b # ds) div 2) = (2 ^ k - 1) + 2 ^ (2 * k) * ?M" by simp
    have "dv k (a # b # ds) AND alt_mask k (length (a # b # ds) div 2) = a + 2 ^ (2 * k) * (?R AND ?M)"
      unfolding e1 M using ab m digit_less [of a k b]
      by (subst and_digit) (auto simp: mask_digit)
    moreover have "drop_bit k (dv k (a # b # ds)) AND alt_mask k (length (a # b # ds) div 2)
        = b + 2 ^ (2 * k) * (drop_bit k ?R AND ?M)"
      unfolding e2 M using ab m c digit_less [of b k "?R mod 2 ^ k"]
      by (subst and_digit) (auto simp: mask_digit)
    ultimately show ?case by (simp add: IH)
  qed auto
  then show "dv k ds AND alt_mask k (length ds div 2) = dv (2 * k) (evens ds)"
    "drop_bit k (dv k ds) AND alt_mask k (length ds div 2) = dv (2 * k) (odds ds)" by auto
qed

text \<open>The three shapes of a round.\<close>

lemma round_sub:
  assumes "in_digits (2 ^ k - 1) ds" "even (length ds)" "k = 1"
  shows "dv k ds - (drop_bit k (dv k ds) AND alt_mask k (length ds div 2)) = dv (2 * k) (sums ds)"
  using and_alt_mask [OF assms(1,2)] dv_split [OF assms(2), of k] dv_sums [of "2 * k" ds] assms(3)
  by simp

lemma round_add:
  assumes "in_digits (2 ^ k - 1) ds" "even (length ds)"
  shows "(dv k ds AND alt_mask k (length ds div 2)) + (drop_bit k (dv k ds) AND alt_mask k (length ds div 2))
    = dv (2 * k) (sums ds)"
  using and_alt_mask [OF assms] dv_sums by simp

fun adj :: "int list \<Rightarrow> int list" where
  "adj (a # b # ds) = (a + b) # adj (b # ds)"
| "adj ds = ds"

lemma length_adj [simp]: "length (adj ds) = length ds"
  by (induction ds rule: adj.induct) auto

lemma evens_adj: "even (length ds) \<Longrightarrow> evens (adj ds) = sums ds"
proof (induction ds rule: sums.induct)
  case (1 a b ds)
  then show ?case by (cases ds) auto
qed auto

lemma in_digits_adj: "in_digits m ds \<Longrightarrow> 0 \<le> m \<Longrightarrow> in_digits (2 * m) (adj ds)"
  by (induction ds rule: adj.induct) auto

lemma drop_dv: "0 \<le> d \<Longrightarrow> d < 2 ^ k \<Longrightarrow> drop_bit k (dv k (d # ds)) = dv k ds"
  by (simp add: drop_bit_eq_div)

lemma dv_adj: "in_digits (2 ^ k - 1) ds \<Longrightarrow> dv k ds + drop_bit k (dv k ds) = dv k (adj ds)"
proof (induction ds rule: adj.induct)
  case (1 a b ds)
  then have "dv k (b # ds) + dv k ds = dv k (adj (b # ds))"
    using drop_dv [of b k ds] by simp
  moreover have "dv k (a # b # ds) + drop_bit k (dv k (a # b # ds)) =
      a + b + 2 ^ k * (dv k (b # ds) + dv k ds)"
    using 1 drop_dv [of a k "b # ds"] by (simp add: distrib_left)
  ultimately show ?case by simp
qed (auto simp: drop_bit_eq_div)

lemma round_fold:
  assumes "in_digits m ds" "even (length ds)" "0 \<le> m" "2 * m \<le> 2 ^ k - 1"
  shows "(dv k ds + drop_bit k (dv k ds)) AND alt_mask k (length ds div 2) = dv (2 * k) (sums ds)"
proof -
  have "in_digits (2 ^ k - 1) ds"
    using assms(1,3,4) unfolding in_digits_def by force
  moreover have "in_digits (2 ^ k - 1) (adj ds)"
    using in_digits_adj [OF assms(1,3)] assms(4) unfolding in_digits_def by force
  ultimately show ?thesis
    using and_alt_mask(1) [of k "adj ds"] assms(2) by (simp add: dv_adj evens_adj)
qed

text \<open>The digits of a word, and what the last rounds make of the byte sums.\<close>

definition bit_list :: "nat \<Rightarrow> int \<Rightarrow> int list" where
  "bit_list n x = List.map (\<lambda>i. of_bool (bit x i)) [0..<n]"

definition ones :: "nat \<Rightarrow> int \<Rightarrow> int" where
  "ones n x = sum_list (bit_list n x)"

lemma bit_list_Suc: "bit_list (Suc n) x = of_bool (odd x) # bit_list n (x div 2)"
  by (simp add: bit_list_def upt_conv_Cons map_Suc_upt [symmetric] comp_def bit_0 bit_Suc del: upt_Suc)

lemma dv_bit_list: "dv 1 (bit_list n x) = take_bit n x"
proof (induction n arbitrary: x)
  case 0
  show ?case by (simp add: bit_list_def)
next
  case (Suc n)
  then show ?case by (simp add: bit_list_Suc take_bit_Suc mod_2_eq_odd)
qed

lemma bit_list_digits: "in_digits 1 (bit_list n x)"
  by (auto simp: in_digits_def bit_list_def)

lemma length_bit_list [simp]: "length (bit_list n x) = n"
  by (simp add: bit_list_def)

lemma swar_bytes:
  assumes "0 \<le> x" "x < 2 ^ (8 * n)"
  defines "s \<equiv> sums (sums (sums (bit_list (8 * n) x)))"
  shows "(let x = x - (drop_bit 1 x AND rep_mask 2 1 (4 * n));
        x = (x AND rep_mask 4 3 (2 * n)) + (drop_bit 2 x AND rep_mask 4 3 (2 * n))
      in (x + drop_bit 4 x) AND rep_mask 8 15 n) = dv 8 s"
    "length s = n" "in_digits 8 s" "sum_list s = ones (8 * n) x"
proof -
  let ?b = "bit_list (8 * n) x"
  have x: "x = dv 1 ?b"
    using assms(1,2) dv_bit_list [of "8 * n" x] by (simp add: take_bit_int_eq_self)
  have d: "in_digits 1 ?b" "in_digits 2 (sums ?b)" "in_digits 4 (sums (sums ?b))" "in_digits 8 s"
    using bit_list_digits in_digits_sums [of 1 ?b] in_digits_sums [of 2 "sums ?b"]
      in_digits_sums [of 4 "sums (sums ?b)"] by (simp_all add: s_def)
  have d2: "in_digits 3 (sums ?b)" using d(2) unfolding in_digits_def by fastforce
  show "length s = n" "in_digits 8 s" using d by (simp_all add: s_def length_sums)
  show "sum_list s = ones (8 * n) x" by (simp add: s_def sum_sums length_sums ones_def)
  have 1: "dv 1 ?b - (drop_bit 1 (dv 1 ?b) AND rep_mask 2 1 (4 * n)) = dv 2 (sums ?b)"
    using round_sub [of 1 ?b] d(1) by simp
  have 2: "(dv 2 (sums ?b) AND rep_mask 4 3 (2 * n)) + (drop_bit 2 (dv 2 (sums ?b)) AND rep_mask 4 3 (2 * n))
      = dv 4 (sums (sums ?b))"
    using round_add [of 2 "sums ?b"] d2 by (simp add: length_sums)
  have 3: "(dv 4 (sums (sums ?b)) + drop_bit 4 (dv 4 (sums (sums ?b)))) AND rep_mask 8 15 n = dv 8 s"
    using round_fold [of 4 "sums (sums ?b)" 4] d(3) by (simp add: length_sums s_def)
  show "(let x = x - (drop_bit 1 x AND rep_mask 2 1 (4 * n));
        x = (x AND rep_mask 4 3 (2 * n)) + (drop_bit 2 x AND rep_mask 4 3 (2 * n))
      in (x + drop_bit 4 x) AND rep_mask 8 15 n) = dv 8 s"
    unfolding Let_def by (subst (1 2 3 4 5 6 7 8) x) (simp only: 1 2 3)
qed

text \<open>The last rounds fold the byte sums into the low byte.\<close>

lemma fold_bytes4:
  assumes "in_digits 8 [a, b, c, d]"
  defines "x \<equiv> dv 8 [a, b, c, d]"
  shows "(let x = x + drop_bit 8 x in (x + drop_bit 16 x) mod 64) = a + b + c + d"
proof -
  have ab: "0 \<le> a" "a \<le> 8" "0 \<le> b" "b \<le> 8" "0 \<le> c" "c \<le> 8" "0 \<le> d" "d \<le> 8"
    using assms by auto
  have x1: "x + drop_bit 8 x = (a + b) + 256 * (b + c) + 65536 * ((c + d) + 256 * d)"
    using ab by (simp add: x_def drop_bit_eq_div)
  have "drop_bit 16 ((a + b) + 256 * (b + c) + 65536 * ((c + d) + 256 * d)) = (c + d) + 256 * d"
    using ab by (simp add: drop_bit_eq_div)
  moreover have "((a + b) + 256 * (b + c) + 65536 * ((c + d) + 256 * d) + ((c + d) + 256 * d)) mod 64
      = (a + b + c + d) mod 64"
  proof -
    have "(a + b) + 256 * (b + c) + 65536 * ((c + d) + 256 * d) + ((c + d) + 256 * d)
        = (a + b + c + d) + 64 * (4 * (b + c) + 1024 * ((c + d) + 256 * d) + 4 * d)" by simp
    then show ?thesis by (simp only: mod_mult_self2)
  qed
  ultimately show ?thesis unfolding Let_def x1 using ab by simp
qed

lemma fold_bytes8:
  assumes "in_digits 8 [a, b, c, d, e, f, g, h]"
  defines "x \<equiv> dv 8 [a, b, c, d, e, f, g, h]"
  shows "(let x = x + drop_bit 8 x; x = x + drop_bit 16 x in (x + drop_bit 32 x) mod 128)
    = a + b + c + d + e + f + g + h"
proof -
  have ab: "0 \<le> a" "a \<le> 8" "0 \<le> b" "b \<le> 8" "0 \<le> c" "c \<le> 8" "0 \<le> d" "d \<le> 8"
    "0 \<le> e" "e \<le> 8" "0 \<le> f" "f \<le> 8" "0 \<le> g" "g \<le> 8" "0 \<le> h" "h \<le> 8"
    using assms by auto
  define p q r where "p = (a + b) + 256 * (b + c)" and "q = (c + d) + 256 * (d + e)"
    and "r = (e + f) + 256 * (f + g)"
  define s where "s = (g + h) + 256 * h"
  have b: "0 \<le> p" "p < 8192" "0 \<le> q" "q < 8192" "0 \<le> r" "r < 8192" "0 \<le> s" "s < 8192"
    using ab by (auto simp: p_def q_def r_def s_def)
  have x1: "x + drop_bit 8 x = p + 65536 * q + 4294967296 * (r + 65536 * s)"
    using ab by (simp add: x_def drop_bit_eq_div p_def q_def r_def s_def)
  have x2: "drop_bit 16 (p + 65536 * q + 4294967296 * (r + 65536 * s)) = q + 65536 * (r + 65536 * s)"
    using b by (simp add: drop_bit_eq_div)
  have x3: "(p + 65536 * q + 4294967296 * (r + 65536 * s)) + (q + 65536 * (r + 65536 * s))
      = (p + q + 65536 * (q + r)) + 4294967296 * (r + s + 65536 * s)"
    by simp
  have x4: "drop_bit 32 ((p + q + 65536 * (q + r)) + 4294967296 * (r + s + 65536 * s)) = r + s + 65536 * s"
    using b by (simp add: drop_bit_eq_div)
  have "((p + q + 65536 * (q + r)) + 4294967296 * (r + s + 65536 * s) + (r + s + 65536 * s)) mod 128
      = (p + q + r + s) mod 128"
  proof -
    have "(p + q + 65536 * (q + r)) + 4294967296 * (r + s + 65536 * s) + (r + s + 65536 * s)
        = (p + q + r + s) + 128 * (512 * (q + r) + 33554432 * (r + s + 65536 * s) + 512 * s)" by simp
    then show ?thesis by (simp only: mod_mult_self2)
  qed
  also have "\<dots> = (a + b + c + d + e + f + g + h) mod 128"
  proof -
    have "p + q + r + s = (a + b + c + d + e + f + g + h) + 128 * (2 * ((b + c) + (d + e) + (f + g) + h))"
      by (simp add: p_def q_def r_def s_def)
    then show ?thesis by (simp only: mod_mult_self2)
  qed
  also have "\<dots> = a + b + c + d + e + f + g + h" using ab by simp
  finally show ?thesis unfolding Let_def x1 x2 x3 x4 .
qed

lemma rep_masks:
  "rep_mask 2 1 (4 * 4) = 0x55555555" "rep_mask 4 3 (2 * 4) = 0x33333333" "rep_mask 8 15 4 = 0x0f0f0f0f"
  "rep_mask 2 1 (4 * 8) = 0x5555555555555555" "rep_mask 4 3 (2 * 8) = 0x3333333333333333"
  "rep_mask 8 15 8 = 0x0f0f0f0f0f0f0f0f"
  by (simp_all add: numeral_eq_Suc)

lemma and_mask_mod: "x AND 0x7f = x mod 128" "x AND 0x3f = x mod 64" for x :: int
  using take_bit_eq_mask [of 7 x] take_bit_eq_mask [of 6 x]
  by (simp_all add: mask_eq_exp_minus_1 take_bit_eq_mod)

lemma countBits64_eq:
  assumes "0 \<le> x" "x < 2 ^ 64"
  shows "countBits64 x = ones 64 x"
proof -
  obtain a b c d e f g h where ds: "sums (sums (sums (bit_list (8 * 8) x))) = [a, b, c, d, e, f, g, h]"
    using swar_bytes(2) [of x 8] assms by (auto simp: numeral_eq_Suc length_Suc_conv)
  define y where "y = (let x = x - (drop_bit 1 x AND 0x5555555555555555);
      x = (x AND 0x3333333333333333) + (drop_bit 2 x AND 0x3333333333333333)
    in (x + drop_bit 4 x) AND 0x0f0f0f0f0f0f0f0f)"
  have y: "y = dv 8 [a, b, c, d, e, f, g, h]"
    using swar_bytes(1) [of x 8, unfolded ds rep_masks] assms unfolding y_def by simp
  have "countBits64 x = (let x = y + drop_bit 8 y; x = x + drop_bit 16 x in x + drop_bit 32 x) AND 0x7f"
    unfolding countBits64_def y_def Let_def ..
  also have "\<dots> = (let x = y + drop_bit 8 y; x = x + drop_bit 16 x in (x + drop_bit 32 x) mod 128)"
    by (simp only: and_mask_mod Let_def)
  also have "\<dots> = a + b + c + d + e + f + g + h"
    unfolding y by (rule fold_bytes8) (use swar_bytes(3) [of x 8, unfolded ds] assms in simp)
  also have "\<dots> = ones 64 x"
    using swar_bytes(4) [of x 8, unfolded ds] assms by simp
  finally show ?thesis .
qed

text \<open>On 32 bits the number operators agree with the unbounded ones under the masks.\<close>

lemma js_and_mask_eq: "0 \<le> m \<Longrightarrow> m < 2 ^ 31 \<Longrightarrow> js_and x m = x AND m"
proof -
  assume m: "0 \<le> m" "m < 2 ^ 31"
  then have t: "to_int32 m = m" "take_bit 31 m = m"
    by (simp_all add: to_int32_id take_bit_int_eq_self)
  have "to_int32 x AND take_bit 31 m = x AND take_bit 31 m"
    by (rule bit_eqI) (auto simp: to_int32_def bit_simps min_def)
  with t show ?thesis by (simp add: js_and_def)
qed

lemma js_shr_and_mask_eq:
  assumes "k < 32" "0 \<le> m" "m < 2 ^ (32 - k)" "0 < k"
  shows "js_and (js_shr x (int k)) m = drop_bit k x AND m"
proof -
  have "(2 :: int) ^ (32 - k) \<le> 2 ^ 31" using assms by (intro power_increasing) auto
  then have "m < 2 ^ 31" using assms by linarith
  then have "js_and (js_shr x (int k)) m = js_shr x (int k) AND m"
    using assms by (simp add: js_and_mask_eq)
  also have "\<dots> = js_shr x (int k) AND take_bit (32 - k) m"
    using assms by (simp add: take_bit_int_eq_self)
  also have "\<dots> = drop_bit k x AND take_bit (32 - k) m"
  proof (rule bit_eqI)
    fix n
    consider "n < 32 - k" "k + n < 31" | "k + n = 31" | "32 - k \<le> n" by linarith
    then show "bit (js_shr x (int k) AND take_bit (32 - k) m) n = bit (drop_bit k x AND take_bit (32 - k) m) n"
      using assms(1) by cases (auto simp: js_shr_def shift_count_self to_int32_def bit_simps)
  qed
  also have "\<dots> = drop_bit k x AND m"
    using assms by (simp add: take_bit_int_eq_self)
  finally show ?thesis .
qed

lemma countBits32_eq:
  assumes "0 \<le> x" "x < 2 ^ 32"
  shows "countBits32 x = ones 32 x"
proof -
  obtain a b c d where ds: "sums (sums (sums (bit_list (8 * 4) x))) = [a, b, c, d]"
    using swar_bytes(2) [of x 4] assms by (auto simp: numeral_eq_Suc length_Suc_conv)
  define x1 where "x1 = x - (drop_bit 1 x AND 0x55555555)"
  define x2 where "x2 = (x1 AND 0x33333333) + (drop_bit 2 x1 AND 0x33333333)"
  define y where "y = (x2 + drop_bit 4 x2) AND 0x0f0f0f0f"
  have y: "y = dv 8 [a, b, c, d]"
    using swar_bytes(1) [of x 4, unfolded ds rep_masks] assms
    unfolding y_def x2_def x1_def Let_def by simp
  have dig: "in_digits 8 [a, b, c, d]" using swar_bytes(3) [of x 4, unfolded ds] assms by simp
  have and_le: "0 \<le> z AND m \<and> z AND m \<le> m" if "0 \<le> m" for z m :: int
    using that by (simp add: AND_upper2)
  have "x1 AND 0x33333333 \<le> 0x33333333" "drop_bit 2 x1 AND 0x33333333 \<le> 0x33333333"
    using and_le [of "0x33333333"] by simp_all
  then have x2: "0 \<le> x2" "x2 \<le> 0x66666666"
    unfolding x2_def by (simp, linarith)
  have y0: "0 \<le> y" "y \<le> 0x0f0f0f0f" using and_le [of "0x0f0f0f0f"] by (simp_all add: y_def)
  have s1: "x - js_and (js_shr x 1) 0x55555555 = x1"
    using js_shr_and_mask_eq [of 1 "0x55555555" x] by (simp add: x1_def)
  have s2: "js_and x1 0x33333333 + js_and (js_shr x1 2) 0x33333333 = x2"
    using js_shr_and_mask_eq [of 2 "0x33333333" x1] by (simp add: x2_def js_and_mask_eq)
  have s3: "js_and (x2 + js_shr x2 4) 0x0f0f0f0f = y"
    using x2 by (simp add: y_def js_and_mask_eq js_shr_small drop_bit_eq_div)
  have s4: "js_shr y 8 = drop_bit 8 y" using y0 by (simp add: js_shr_small drop_bit_eq_div)
  have d8: "0 \<le> drop_bit 8 y" "drop_bit 8 y \<le> 0x0f0f0f"
  proof -
    show "0 \<le> drop_bit 8 y" using y0 by simp
    have "y div 256 \<le> 0x0f0f0f0f div 256" using y0 by (intro zdiv_mono1) auto
    then show "drop_bit 8 y \<le> 0x0f0f0f" by (simp add: drop_bit_eq_div)
  qed
  have s5: "js_shr (y + drop_bit 8 y) 16 = drop_bit 16 (y + drop_bit 8 y)"
    using y0 d8 by (simp add: js_shr_small drop_bit_eq_div)
  have "countBits32 x = (let x = y + drop_bit 8 y in x + drop_bit 16 x) AND 0x3f"
    unfolding countBits32_def Let_def s1 s2 s3 s4 s5 by (simp add: js_and_mask_eq)
  also have "\<dots> = (let x = y + drop_bit 8 y in (x + drop_bit 16 x) mod 64)"
    by (simp only: and_mask_mod Let_def)
  also have "\<dots> = a + b + c + d"
    unfolding y by (rule fold_bytes4 [OF dig])
  also have "\<dots> = ones 32 x"
    using swar_bytes(4) [of x 4, unfolded ds] assms by simp
  finally show ?thesis .
qed

section \<open>Zeros before and after the ones\<close>

definition leading_zeros :: "nat \<Rightarrow> int \<Rightarrow> int" where
  "leading_zeros n x = int (length (takeWhile (\<lambda>i. \<not> bit x i) (rev [0..<n])))"

definition trailing_zeros :: "nat \<Rightarrow> int \<Rightarrow> int" where
  "trailing_zeros n x = int (length (takeWhile (\<lambda>i. \<not> bit x i) [0..<n]))"

lemma math_clz32_eq: "0 \<le> x \<Longrightarrow> x < 2 ^ 32 \<Longrightarrow> math_clz32 x = leading_zeros 32 x"
  by (simp add: math_clz32_def leading_zeros_def to_uint32_id)

lemma leading_zeros_le: "leading_zeros n x \<le> int n"
  using length_takeWhile_le [of "\<lambda>i. \<not> bit x i" "rev [0..<n]"] by (simp add: leading_zeros_def)

lemma leading_zeros_add:
  "leading_zeros (m + n) x =
    (if leading_zeros n (drop_bit m x) < int n then leading_zeros n (drop_bit m x)
     else int n + leading_zeros m x)"
proof -
  have e: "rev [0..<m + n] = List.map (\<lambda>i. m + i) (rev [0..<n]) @ rev [0..<m]"
  proof -
    have "[0..<m + n] = [0..<m] @ [m..<m + n]" by (rule upt_add_eq_append) simp
    moreover have "[m..<m + n] = List.map (\<lambda>i. m + i) [0..<n]"
      using map_add_upt [of m n] by (simp add: add.commute)
    ultimately show ?thesis by (simp add: rev_map)
  qed
  have t: "takeWhile (\<lambda>i. \<not> bit x i) (List.map (\<lambda>i. m + i) (rev [0..<n])) =
      List.map (\<lambda>i. m + i) (takeWhile (\<lambda>i. \<not> bit (drop_bit m x) i) (rev [0..<n]))"
    by (simp add: takeWhile_map comp_def bit_drop_bit_eq)
  let ?P = "\<lambda>i. \<not> bit (drop_bit m x) i"
  show ?thesis
  proof (cases "\<forall>i \<in> set (rev [0..<n]). ?P i")
    case True
    then have "takeWhile ?P (rev [0..<n]) = rev [0..<n]" by (simp only: takeWhile_eq_all_conv)
    then have "length (takeWhile ?P (rev [0..<n])) = n" by (metis diff_zero length_rev length_upt)
    moreover have "takeWhile (\<lambda>i. \<not> bit x i) (List.map (\<lambda>i. m + i) (rev [0..<n]) @ rev [0..<m]) =
        List.map (\<lambda>i. m + i) (rev [0..<n]) @ takeWhile (\<lambda>i. \<not> bit x i) (rev [0..<m])"
      using True by (intro takeWhile_append2) (auto simp: bit_drop_bit_eq le_iff_add)
    ultimately show ?thesis unfolding leading_zeros_def e by simp
  next
    case False
    then obtain j where "j < n" "bit x (m + j)" by (auto simp: bit_drop_bit_eq)
    then have i: "m + j \<in> set (List.map (\<lambda>i. m + i) (rev [0..<n]))" "bit x (m + j)" by auto
    have "takeWhile ?P (rev [0..<n]) \<noteq> rev [0..<n]"
      using False by (simp add: takeWhile_eq_all_conv)
    then have "length (takeWhile ?P (rev [0..<n])) < n"
      using length_takeWhile_le [of ?P "rev [0..<n]"]
      by (metis diff_zero le_neq_implies_less length_rev length_upt takeWhile_eq_take take_all_iff order_refl)
    moreover have "takeWhile (\<lambda>i. \<not> bit x i) (List.map (\<lambda>i. m + i) (rev [0..<n]) @ rev [0..<m]) =
        takeWhile (\<lambda>i. \<not> bit x i) (List.map (\<lambda>i. m + i) (rev [0..<n]))"
      using i by (intro takeWhile_append1) auto
    ultimately show ?thesis unfolding leading_zeros_def e t by simp
  qed
qed

lemma leading_zeros_take_bit: "leading_zeros n (take_bit n x) = leading_zeros n x"
  unfolding leading_zeros_def
  by (rule arg_cong [of _ _ "\<lambda>xs. int (length xs)"], rule takeWhile_cong) (auto simp: bit_take_bit_iff)

lemma clz64_eq:
  assumes "0 \<le> x" "x < 2 ^ 64"
  shows "clz64 x = leading_zeros 64 x"
proof -
  have hi: "0 \<le> drop_bit 32 x" "drop_bit 32 x < 2 ^ 32"
    using assms div_less_of_mult [of "2 ^ 32" x "2 ^ 32"] by (simp_all add: drop_bit_eq_div)
  have "x AND 0xffffffff = take_bit 32 x"
    unfolding mask32_lit by (simp add: take_bit_eq_mask)
  then have lo: "math_clz32 (x AND 0xffffffff) = leading_zeros 32 x"
    using math_clz32_eq [of "take_bit 32 x"] take_bit_int_less_exp [of 32 x]
    by (simp add: leading_zeros_take_bit)
  show ?thesis
    using leading_zeros_add [of 32 32 x] leading_zeros_le [of 32 "drop_bit 32 x"] hi
    by (simp add: clz64_def Let_def lo math_clz32_eq)
qed

text \<open>
  The counting loops stop at the first one, before the fuel runs out: on a value that is not zero
  the count is the index of its lowest set bit.
\<close>

lemma trailing_zeros_Suc:
  "trailing_zeros (Suc n) v = (if odd v then 0 else 1 + trailing_zeros n (v div 2))"
  unfolding trailing_zeros_def
  by (simp add: upt_conv_Cons map_Suc_upt [symmetric] takeWhile_map comp_def bit_0 bit_Suc del: upt_Suc)

lemma trailing_zeros_0: "trailing_zeros n 0 = int n"
  by (induction n) (simp_all add: trailing_zeros_Suc, simp add: trailing_zeros_def)

lemma trailing_zeros_bit:
  assumes "v \<noteq> 0" "0 \<le> v" "v < 2 ^ n"
  shows "trailing_zeros n v < int n" "bit v (nat (trailing_zeros n v))"
    "\<forall>i < nat (trailing_zeros n v). \<not> bit v i"
proof -
  have "\<exists>i < n. bit v i"
  proof (rule ccontr)
    assume "\<not> (\<exists>i < n. bit v i)"
    then have "take_bit n v = 0" by (intro bit_eqI) (auto simp: bit_take_bit_iff)
    with assms show False by (simp add: take_bit_int_eq_self)
  qed
  then have ex: "\<exists>i \<in> set [0..<n]. \<not> \<not> bit v i" by auto
  let ?k = "length (takeWhile (\<lambda>i. \<not> bit v i) [0..<n])"
  have k: "?k < n"
    using ex length_takeWhile_le [of "\<lambda>i. \<not> bit v i" "[0..<n]"]
    by (metis diff_zero le_neq_implies_less length_upt takeWhile_eq_all_conv takeWhile_eq_take take_all_iff order_refl)
  then show "trailing_zeros n v < int n" by (simp add: trailing_zeros_def)
  have "\<not> \<not> bit v ([0..<n] ! ?k)" using k by (intro nth_length_takeWhile) simp
  with k show "bit v (nat (trailing_zeros n v))" by (simp add: trailing_zeros_def)
  show "\<forall>i < nat (trailing_zeros n v). \<not> bit v i"
  proof (intro allI impI)
    fix i assume "i < nat (trailing_zeros n v)"
    then have i: "i < ?k" by (simp add: trailing_zeros_def)
    then have "takeWhile (\<lambda>i. \<not> bit v i) [0..<n] ! i \<in> set (takeWhile (\<lambda>i. \<not> bit v i) [0..<n])"
      by (rule nth_mem)
    moreover have "takeWhile (\<lambda>i. \<not> bit v i) [0..<n] ! i = i"
      using i k by (simp add: takeWhile_nth)
    ultimately show "\<not> bit v i" by (metis set_takeWhileD)
  qed
qed

lemma ctz64_loop_eq: "ctz64_loop fuel v c = c + trailing_zeros fuel v"
proof (induction fuel arbitrary: v c)
  case 0
  show ?case by (simp add: trailing_zeros_def)
next
  case (Suc fuel)
  then show ?case
    by (simp add: trailing_zeros_Suc and_one_eq mod_2_eq_odd drop_bit_Suc)
qed

lemma ctz64_eq: "0 \<le> x \<Longrightarrow> x < 2 ^ 64 \<Longrightarrow> ctz64 x = trailing_zeros 64 x"
  by (simp add: ctz64_def ctz64_loop_eq trailing_zeros_0)

lemma ctz32_loop_eq:
  "0 \<le> v \<Longrightarrow> v < 2 ^ 32 \<Longrightarrow> ctz32_loop fuel v c = c + trailing_zeros fuel v"
proof (induction fuel arbitrary: v c)
  case 0
  show ?case by (simp add: trailing_zeros_def)
next
  case (Suc fuel)
  have a: "js_and v 1 = v mod 2" using js_and_mask [of 1 v] by simp
  have u: "js_ushr v 1 = v div 2" using Suc.prems by (simp add: js_ushr_small)
  have "0 \<le> v div 2" "v div 2 < 2 ^ 32" using Suc.prems by simp_all
  then show ?case
    using Suc.IH [of "v div 2" "c + 1"] by (simp add: trailing_zeros_Suc a u mod_2_eq_odd)
qed

lemma ctz32_eq: "0 \<le> x \<Longrightarrow> x < 2 ^ 32 \<Longrightarrow> ctz32 x = trailing_zeros 32 x"
  by (simp add: ctz32_def ctz32_loop_eq trailing_zeros_0)

section \<open>Arithmetic on words\<close>

lemma w32_addWithOverflow [op_spec]: "w32 (addWithOverflowU32 a b) = w32 a + w32 b"
  by (simp add: addWithOverflowU32_def MAX_U32_def Let_def)

lemma w64_mod: "w64 (x mod 2 ^ 64) = w64 x"
  by (rule word_uint_eqI) (simp add: uint_word_of_int)

lemma smod_nonneg: "0 \<le> x \<Longrightarrow> x smod 2 ^ n = x mod (2 :: int) ^ n"
  by (cases "x = 0") (simp_all add: signed_modulo_int_def)

lemma w64_smod: "0 \<le> x \<Longrightarrow> w64 (x smod 2 ^ 64) = w64 x"
  by (simp only: smod_nonneg w64_mod)

lemma w64_addWithOverflow [op_spec]:
  "0 \<le> a \<Longrightarrow> 0 \<le> b \<Longrightarrow> w64 (addWithOverflowU64 a b) = w64 a + w64 b"
  unfolding addWithOverflowU64_def by (subst w64_smod) simp_all

lemma w32_sub_U32 [op_spec]: "w32 (sub_U32 a b) = w32 a - w32 b"
  by (simp add: sub_U32_def MAX_U32_def)

lemma w64_sub_U64 [op_spec]:
  assumes "0 \<le> a" "0 \<le> b" "b \<le> 2 ^ 64"
  shows "w64 (sub_U64 a b) = w64 a - w64 b"
proof -
  have "w64 (sub_U64 a b) = w64 (2 ^ 64 + a - b)"
    unfolding sub_U64_def using assms by (intro w64_smod) linarith
  then show ?thesis by simp
qed

lemma w64_mul_U64 [op_spec]: "0 \<le> a \<Longrightarrow> 0 \<le> b \<Longrightarrow> w64 (mul_U64 a b) = w64 a * w64 b"
  unfolding mul_U64_def by (subst w64_smod) simp_all

lemma mask64_lit: "(0xffffffffffffffff :: int) = mask 64"
  by (simp add: mask_eq_exp_minus_1)

lemma w64_and_mask: "w64 (x AND 0xffffffffffffffff) = w64 x"
  unfolding mask64_lit take_bit_eq_mask [symmetric]
  by (rule word_uint_eqI) (simp add: uint_word_of_int take_bit_eq_mod)

lemma and_mask64_id: "0 \<le> x \<Longrightarrow> x < 2 ^ 64 \<Longrightarrow> x AND 0xffffffffffffffff = x" for x :: int
  unfolding mask64_lit take_bit_eq_mask [symmetric] by (simp add: take_bit_int_eq_self)

lemma w64_interpretAsSigned: "w64 (interpretAsSigned x) = w64 x"
proof -
  have "w64 (x - 2 ^ 64) = w64 x" by simp
  then show ?thesis by (simp add: interpretAsSigned_def push_bit_eq_mult Let_def)
qed

lemma w64_mul_UpperUU [op_spec]:
  "0 \<le> a \<Longrightarrow> a < 2 ^ 64 \<Longrightarrow> 0 \<le> b \<Longrightarrow> b < 2 ^ 64 \<Longrightarrow> w64 (mul_UpperUU a b) = w64 ((a * b) div 2 ^ 64)"
  by (simp add: mul_UpperUU_def w64_and_mask and_mask64_id drop_bit_eq_div)

lemma w64_mul_UpperSU [op_spec]:
  "0 \<le> b \<Longrightarrow> b < 2 ^ 64 \<Longrightarrow> w64 (mul_UpperSU a b) = w64 ((a * b) div 2 ^ 64)"
  by (simp add: mul_UpperSU_def w64_interpretAsSigned w64_and_mask and_mask64_id drop_bit_eq_div)

lemma w64_mul_UpperSS [op_spec]: "w64 (mul_UpperSS a b) = w64 ((a * b) div 2 ^ 64)"
  by (simp add: mul_UpperSS_def w64_interpretAsSigned w64_and_mask drop_bit_eq_div)

text \<open>The split multiplication computes the low 32 bits of the product.\<close>

lemma w32_eq_iff: "w32 x = w32 y \<longleftrightarrow> x mod 2 ^ 32 = y mod 2 ^ 32"
  by (simp add: word_of_int_eq_iff take_bit_eq_mod)

lemma w32_shifted_mod: "w32 (2 ^ 16 * (x mod 2 ^ 16)) = w32 (2 ^ 16 * x)"
proof -
  have "2 ^ 16 * (x mod 2 ^ 16) = (2 ^ 16 * x) mod (2 ^ 32 :: int)"
    by (simp add: mult_mod_right)
  then show ?thesis by (simp only: w32_eq_iff mod_mod_trivial)
qed

lemma w32_js_shr16: "w32 (2 ^ 16 * js_shr x 16 + x mod 2 ^ 16) = w32 x"
proof -
  have s: "js_shr x 16 = to_int32 x div 2 ^ 16"
    by (simp add: js_shr_def shift_count_self drop_bit_eq_div)
  have "take_bit 16 (to_int32 x) = take_bit 16 x"
    by (simp add: to_int32_def take_bit_signed_take_bit)
  then have "x mod 2 ^ 16 = to_int32 x mod 2 ^ 16" by (simp only: take_bit_eq_mod)
  then have "2 ^ 16 * js_shr x 16 + x mod 2 ^ 16 = to_int32 x"
    unfolding s by (simp add: mult_div_mod_eq)
  then show ?thesis by (simp only: w32_to_int32)
qed

lemma w32_or_shl16:
  "w32 (js_or (js_and x 0xffff) (js_shl c 16)) = w32 (x mod 2 ^ 16 + 2 ^ 16 * c)"
proof -
  have x: "js_and x 0xffff = x mod 2 ^ 16" using js_and_mask [of 16 x] by simp
  have "w32 (js_or (js_and x 0xffff) (js_shl c 16)) = w32 (x mod 2 ^ 16) OR push_bit 16 (w32 c)"
    by (simp add: js_word x shift_count_self)
  also have "\<dots> = w32 ((x mod 2 ^ 16) OR push_bit 16 c)"
    by (simp add: of_int_or_eq of_int_push_bit)
  also have "(x mod 2 ^ 16) OR push_bit 16 c = x mod 2 ^ 16 + 2 ^ 16 * c"
    by (rule or_push_bit_eq_add) simp_all
  finally show ?thesis .
qed

lemma w32_mulLower [op_spec]: "w32 (mulLowerUnsignedU32 a b) = w32 a * w32 b"
proof (cases "a > MUL_THRESHOLD \<or> b > MUL_THRESHOLD")
  case False
  then show ?thesis by (simp add: mulLowerUnsignedU32_def)
next
  case True
  define ah al bh bl where "ah = js_shr a 16" and "al = a mod 2 ^ 16" and "bh = js_shr b 16"
    and "bl = b mod 2 ^ 16"
  have m: "js_and x 0xffff = x mod 2 ^ 16" for x using js_and_mask [of 16 x] by simp
  define ll lh hl where "ll = al * bl" and "lh = al * bh" and "hl = ah * bl"
  have "w32 (mulLowerUnsignedU32 a b) =
      w32 (js_or (js_and ll 0xffff) (js_shl (js_shr ll 16 + lh mod 2 ^ 16 + hl mod 2 ^ 16) 16))"
    using True by (simp add: mulLowerUnsignedU32_def Let_def m ah_def al_def bh_def bl_def ll_def
        lh_def hl_def)
  also have "\<dots> = w32 (ll mod 2 ^ 16 + 2 ^ 16 * (js_shr ll 16 + lh mod 2 ^ 16 + hl mod 2 ^ 16))"
    by (rule w32_or_shl16)
  also have "\<dots> = w32 ((2 ^ 16 * js_shr ll 16 + ll mod 2 ^ 16) + (2 ^ 16 * (lh mod 2 ^ 16))
      + 2 ^ 16 * (hl mod 2 ^ 16))"
    by (rule arg_cong [of _ _ w32]) (simp only: distrib_left add_ac)
  also have "\<dots> = w32 ll + w32 (2 ^ 16 * lh) + w32 (2 ^ 16 * hl)"
    by (simp only: of_int_add w32_shifted_mod w32_js_shr16 [unfolded of_int_add])
  also have "\<dots> = w32 (al * bl + 2 ^ 16 * (al * bh) + 2 ^ 16 * (ah * bl) + 2 ^ 32 * (ah * bh))"
  proof -
    have "w32 (2 ^ 32 * (ah * bh)) = w32 0" by (simp only: w32_eq_iff mod_mult_self1_is_0 mod_0)
    then show ?thesis by (simp only: ll_def lh_def hl_def of_int_add of_int_0 add_0_right)
  qed
  also have "\<dots> = w32 ((2 ^ 16 * ah + al) * (2 ^ 16 * bh + bl))"
    by (rule arg_cong [of _ _ w32]) (simp add: algebra_simps)
  also have "\<dots> = w32 a * w32 b"
    using w32_js_shr16 [of a] w32_js_shr16 [of b]
    by (simp only: of_int_mult ah_def al_def bh_def bl_def)
  finally show ?thesis .
qed

text \<open>A logical right shift of an unsigned value.\<close>

lemma unsignedRightShift_eq:
  "0 \<le> v \<Longrightarrow> 0 \<le> n \<Longrightarrow> unsignedRightShiftBigInt v n = Inr (drop_bit (nat n) v)"
  by (simp add: unsignedRightShiftBigInt_def Let_def)

lemma maxBigInt2: "maxBigInt [a, b] = Inr (max a b)"
  by (simp add: maxBigInt_def max_def)

lemma minBigInt2: "minBigInt [a, b] = Inr (min a b)"
  by (auto simp: minBigInt_def min_def)



end
