(* ===== verification/Immediates.thy ===== *)
theory Immediates
  imports Registers
begin

text \<open>
  The three small decoders of \<open>args-decoder/decoders/\<close>: immediates (sign-extended to 64 bits),
  extended-width immediates and register nibbles. Each owns a byte buffer that every \<open>setBytes\<close> or
  \<open>setByte\<close> overwrites completely, so a decoder is modelled by the buffer after the last call. An
  immediate's buffer has eight bytes; its typed-array views are the little-endian readings below,
  and \<open>imm_word\<close> is the machine word all of them show.
\<close>

unbundle bit_operations_syntax

type_synonym immediate = "byte list"

definition BUFFER_SIZE :: nat where "BUFFER_SIZE = 8"
definition IMMEDIATE_SIZE :: nat where "IMMEDIATE_SIZE = 4"

definition setBytes :: "byte list \<Rightarrow> immediate" where
  "setBytes bytes =
     (let n = length bytes;
          msb = (if n > 0 then js_and (uint (bytes ! (n - 1))) 0x80 else 0);
          noOfBytes = min n BUFFER_SIZE;
          prefix = (if msb \<noteq> 0 then 0xff else 0x00)
      in List.map (\<lambda>i. bytes ! i) [0..<noOfBytes] @ replicate (BUFFER_SIZE - n) prefix)"

definition imm_getU32 :: "immediate \<Rightarrow> int" where
  "imm_getU32 b = le_val (subarray b 0 4)"

definition imm_getI32 :: "immediate \<Rightarrow> int" where
  "imm_getI32 b = signed_take_bit 31 (le_val (subarray b 0 4))"

text \<open>The deprecated names.\<close>

definition imm_getUnsigned :: "immediate \<Rightarrow> int" where "imm_getUnsigned b = imm_getU32 b"
definition imm_getSigned :: "immediate \<Rightarrow> int" where "imm_getSigned b = imm_getI32 b"

definition imm_getU64 :: "immediate \<Rightarrow> int" where
  "imm_getU64 b = le_val b"

definition imm_getI64 :: "immediate \<Rightarrow> int" where
  "imm_getI64 b = signed_take_bit 63 (le_val b)"

definition imm_getBytesAsLittleEndian :: "immediate \<Rightarrow> byte list" where
  "imm_getBytesAsLittleEndian b = subarray b 0 IMMEDIATE_SIZE"

definition imm_getExtendedBytesAsLittleEndian :: "immediate \<Rightarrow> byte list" where
  "imm_getExtendedBytesAsLittleEndian b = b"

section \<open>Extended-width immediates\<close>

text \<open>Bytes past the eighth are ignored by the typed array.\<close>

definition ext_setBytes :: "byte list \<Rightarrow> byte list" where
  "ext_setBytes bytes = take 8 bytes @ replicate (8 - length bytes) 0"

definition ext_getValue :: "byte list \<Rightarrow> int" where
  "ext_getValue b = le_val b"

definition ext_getBytesAsLittleEndian :: "byte list \<Rightarrow> byte list" where
  "ext_getBytesAsLittleEndian b = subarray b 0 8"

section \<open>Nibbles\<close>

text \<open>The byte is kept in an \<open>Int8Array\<close>, so it reads back signed.\<close>

definition MAX_REGISTER_INDEX :: nat where "MAX_REGISTER_INDEX = NO_OF_REGISTERS - 1"
definition NIBBLE_MAX_LENGTH :: nat where "NIBBLE_MAX_LENGTH = 4"

definition setByte :: "byte \<Rightarrow> int" where
  "setByte b = signed_take_bit 7 (uint b)"

definition getHighNibble :: "int \<Rightarrow> int" where
  "getHighNibble b = js_ushr (js_and b 0xf0) 4"

definition getLowNibble :: "int \<Rightarrow> int" where
  "getLowNibble b = js_and b 0x0f"

definition getHighNibbleAsRegisterIndex :: "int \<Rightarrow> nat" where
  "getHighNibbleAsRegisterIndex b = nat (min (getHighNibble b) (int MAX_REGISTER_INDEX))"

definition getLowNibbleAsRegisterIndex :: "int \<Rightarrow> nat" where
  "getLowNibbleAsRegisterIndex b = nat (min (getLowNibble b) (int MAX_REGISTER_INDEX))"

definition getHighNibbleAsLength :: "int \<Rightarrow> nat" where
  "getHighNibbleAsLength b = nat (min (getHighNibble b) (int NIBBLE_MAX_LENGTH))"

definition getLowNibbleAsLength :: "int \<Rightarrow> nat" where
  "getLowNibbleAsLength b = nat (min (getLowNibble b) (int NIBBLE_MAX_LENGTH))"

section \<open>The word behind an immediate\<close>

definition imm_word :: "immediate \<Rightarrow> u64" where
  "imm_word b = word_of_int (le_val b)"

definition wf_imm :: "immediate \<Rightarrow> bool" where
  "wf_imm b \<longleftrightarrow> length b = 8"

lemma length_setBytes [simp]: "length (setBytes bs) = 8"
  by (simp add: setBytes_def BUFFER_SIZE_def Let_def)

lemma wf_setBytes [simp]: "wf_imm (setBytes bs)"
  by (simp add: wf_imm_def)

lemma uint_imm_word: "wf_imm b \<Longrightarrow> uint (imm_word b) = le_val b"
  using le_val_less [of b] by (simp add: wf_imm_def imm_word_def uint_word_of_int)

lemma imm_getU64_eq [op_spec]: "wf_imm b \<Longrightarrow> imm_getU64 b = uint (imm_word b)"
  by (simp add: imm_getU64_def uint_imm_word)

lemma imm_getI64_eq [op_spec]: "wf_imm b \<Longrightarrow> imm_getI64 b = sint (imm_word b)"
  by (simp add: imm_getI64_def sint_uint uint_imm_word)

lemma le_val_take: "k \<le> length b \<Longrightarrow> le_val (take k b) = le_val b mod 256 ^ k"
  using le_bytes_le_val [of b] le_val_le_bytes [of k "le_val b"] take_le_bytes [of k "length b" "le_val b"]
  by simp

lemma imm_getU32_eq [op_spec]: "wf_imm b \<Longrightarrow> imm_getU32 b = uint (lo32 (imm_word b))"
  by (simp add: imm_getU32_def subarray_def wf_imm_def le_val_take unsigned_ucast_eq
      uint_imm_word take_bit_eq_mod)

lemma imm_getI32_eq [op_spec]: "wf_imm b \<Longrightarrow> imm_getI32 b = sint (lo32 (imm_word b))"
  using imm_getU32_eq [of b] by (simp add: imm_getI32_def imm_getU32_def sint_uint)

lemma imm_bytes_eq [op_spec]:
  "wf_imm b \<Longrightarrow> n \<le> 8 \<Longrightarrow> subarray b 0 n = le_bytes n (uint (imm_word b))"
  using le_bytes_le_val [of b] take_le_bytes [of n 8 "le_val b"]
  by (simp add: wf_imm_def subarray_def uint_imm_word)

text \<open>Sign extension: the bytes are read as a signed number of their own width.\<close>

lemma and_single_bit: "x AND push_bit k 1 = push_bit k (of_bool (bit x k))" for x :: int
  by (rule bit_eqI) (auto simp: bit_simps)

lemma js_and_0x80: "js_and (uint (b :: byte)) 0x80 \<noteq> 0 \<longleftrightarrow> 128 \<le> uint b"
proof -
  have x: "to_int32 (uint b) = uint b" using byte_bounds [of b] by (simp add: to_int32_id)
  have y: "to_int32 0x80 = push_bit 7 1" by (simp add: to_int32_id push_bit_eq_mult)
  have z: "(push_bit 7 (of_bool c) \<noteq> (0 :: int)) = c" for c by simp
  have "js_and (uint b) 0x80 \<noteq> 0 \<longleftrightarrow> bit (uint b) 7"
    unfolding js_and_def x y and_single_bit z ..
  also have "\<dots> \<longleftrightarrow> odd (uint b div 128)" by (simp add: bit_iff_odd)
  also have "\<dots> \<longleftrightarrow> 128 \<le> uint b"
  proof (cases "128 \<le> uint b")
    case True
    then have "uint b div 128 = 1" using byte_bounds [of b] by (intro div_pos_geq [THEN trans]) auto
    with True show ?thesis by simp
  qed (use byte_bounds [of b] in simp)
  finally show ?thesis .
qed

lemma le_val_replicate_ff: "le_val (replicate m 0xff) = 256 ^ m - 1"
  by (induction m) auto

text \<open>The top bit of the last byte is the sign of the little-endian reading.\<close>

lemma le_val_sign:
  assumes "bs \<noteq> []"
  shows "128 \<le> uint (last bs) \<longleftrightarrow> 2 ^ (8 * length bs - 1) \<le> le_val bs"
proof -
  obtain as b where bs: "bs = as @ [b]" using assms by (metis append_butlast_last_id)
  have as: "0 \<le> le_val as" "le_val as < 256 ^ length as" using le_val_less [of as] by simp_all
  have p: "(2 :: int) ^ (8 * length bs - 1) = 256 ^ length as * 128"
  proof -
    have "8 * length bs - 1 = 8 * length as + 7" by (simp add: bs)
    then show ?thesis by (simp add: power_add power_mult)
  qed
  show ?thesis
  proof
    assume "128 \<le> uint (last bs)"
    then have "256 ^ length as * 128 \<le> 256 ^ length as * uint b" by (simp add: bs)
    then show "2 ^ (8 * length bs - 1) \<le> le_val bs"
      unfolding p by (simp add: bs le_val_append add_increasing)
  next
    assume "2 ^ (8 * length bs - 1) \<le> le_val bs"
    then have "256 ^ length as * 128 \<le> le_val as + 256 ^ length as * uint b"
      unfolding p by (simp add: bs le_val_append)
    then have "256 ^ length as * 128 < 256 ^ length as * (uint b + 1)"
      using as(2) unfolding distrib_left mult_1_right by linarith
    then have "128 < uint b + 1"
      by (rule mult_less_cancel_left_pos [THEN iffD1, rotated]) simp
    then show "128 \<le> uint (last bs)" by (simp add: bs)
  qed
qed

lemma signed_take_bit_cases:
  assumes "0 \<le> v" "v < 2 ^ Suc k"
  shows "signed_take_bit k v = (if 2 ^ k \<le> v then v - 2 ^ Suc k else (v :: int))"
proof (cases "2 ^ k \<le> v")
  case True
  have "signed_take_bit k v = signed_take_bit k (take_bit (Suc k) (v - 2 ^ Suc k))"
    using assms by (simp add: take_bit_eq_mod mod_diff_eq)
  also have "\<dots> = signed_take_bit k (v - 2 ^ Suc k)" by (simp add: signed_take_bit_take_bit)
  also have "\<dots> = v - 2 ^ Suc k" using assms True by (intro signed_take_bit_int_eq_self) auto
  finally show ?thesis using True by simp
next
  case False
  have "- (2 ^ k) \<le> v" by (rule order_trans [OF _ assms(1)]) simp
  with False show ?thesis by (simp add: signed_take_bit_int_eq_self)
qed

lemma setBytes_eq:
  assumes "length bs \<le> 8"
  shows "setBytes bs = bs @ replicate (8 - length bs)
    (if bs \<noteq> [] \<and> 2 ^ (8 * length bs - 1) \<le> le_val bs then 0xff else 0)"
proof (cases "bs = []")
  case True
  then show ?thesis by (simp add: setBytes_def BUFFER_SIZE_def)
next
  case False
  then have l: "bs ! (length bs - 1) = last bs" by (simp add: last_conv_nth)
  have m: "List.map (\<lambda>i. bs ! i) [0..<min (length bs) 8] = bs"
    using assms by (simp add: min_def map_nth)
  show ?thesis
    unfolding setBytes_def Let_def BUFFER_SIZE_def m l using False
    by (simp add: js_and_0x80 le_val_sign del: One_nat_def)
qed

lemma setBytes_imm_word:
  assumes "length bs \<le> 8"
  shows "imm_word (setBytes bs) =
    (if bs = [] then 0 else word_of_int (signed_take_bit (8 * length bs - 1) (le_val bs)))"
proof (cases "bs = []")
  case True
  then show ?thesis by (simp add: setBytes_eq imm_word_def)
next
  case False
  let ?n = "length bs" and ?v = "le_val bs"
  have k: "Suc (8 * ?n - 1) = 8 * ?n" using False by (cases bs) auto
  have v: "0 \<le> ?v" "?v < 2 ^ (8 * ?n)" using le_val_less [of bs] by (simp_all add: power_mult)
  have st: "signed_take_bit (8 * ?n - 1) ?v = (if 2 ^ (8 * ?n - 1) \<le> ?v then ?v - 2 ^ (8 * ?n) else ?v)"
    using signed_take_bit_cases [of ?v "8 * ?n - 1", unfolded k] v by blast
  show ?thesis
  proof (cases "2 ^ (8 * ?n - 1) \<le> ?v")
    case True
    have "(256 :: int) ^ ?n * 256 ^ (8 - ?n) = 256 ^ 8"
      using assms by (simp flip: power_add)
    then have "le_val (setBytes bs) = ?v - 2 ^ (8 * ?n) + 2 ^ 64"
      using True False assms
      by (simp add: setBytes_eq le_val_append le_val_replicate_ff right_diff_distrib power_mult)
    then have "imm_word (setBytes bs) = word_of_int (?v - 2 ^ (8 * ?n) + 2 ^ 64)"
      by (simp add: imm_word_def)
    also have "\<dots> = word_of_int (?v - 2 ^ (8 * ?n))"
      by (rule word_uint_eqI) (simp add: uint_word_of_int del: of_int_add of_int_diff)
    finally show ?thesis using True False st by simp
  next
    case F: False
    then show ?thesis using False assms st by (simp add: setBytes_eq imm_word_def le_val_append)
  qed
qed

lemma and_high_mask: "x AND push_bit k (mask k) = push_bit k (take_bit k (drop_bit k x))" for x :: int
  by (rule bit_eqI) (auto simp: bit_simps)

lemma nibbles:
  "getLowNibble (setByte b) = uint b mod 16" "getHighNibble (setByte b) = uint b div 16"
proof -
  show "getLowNibble (setByte b) = uint b mod 16"
    using js_and_mask [of 4 "setByte b"] take_bit_signed_take_bit [of 4 7 "uint b"]
    by (simp add: getLowNibble_def setByte_def take_bit_eq_mod)
  have f0: "to_int32 0xf0 = push_bit 4 (mask 4)"
    by (simp add: to_int32_id push_bit_eq_mult mask_eq_exp_minus_1)
  have "take_bit 4 (drop_bit 4 (to_int32 (setByte b))) = take_bit 4 (drop_bit 4 (uint b))"
    by (rule bit_eqI) (auto simp: to_int32_def setByte_def bit_simps min_def le_Suc_eq numeral_eq_Suc)
  then have "js_and (setByte b) 0xf0 = push_bit 4 (take_bit 4 (drop_bit 4 (uint b)))"
    unfolding js_and_def f0 and_high_mask by simp
  then have "getHighNibble (setByte b) = take_bit 28 (take_bit 4 (drop_bit 4 (uint b)))"
    by (simp add: getHighNibble_def js_ushr_def shift_count_self to_uint32_def take_bit_push_bit
        drop_bit_push_bit_int)
  also have "\<dots> = take_bit 4 (drop_bit 4 (uint b))" by simp
  also have "\<dots> = uint b div 16"
  proof -
    have "0 \<le> uint b div 16" "uint b div 16 < 16" using byte_bounds [of b] by presburger+
    then show ?thesis by (simp add: take_bit_eq_mod drop_bit_eq_div)
  qed
  finally show "getHighNibble (setByte b) = uint b div 16" .
qed

lemma nibble_index_le:
  "getLowNibbleAsRegisterIndex v \<le> 12" "getHighNibbleAsRegisterIndex v \<le> 12"
  "getLowNibbleAsLength v \<le> 4" "getHighNibbleAsLength v \<le> 4"
  by (simp_all add: getLowNibbleAsRegisterIndex_def getHighNibbleAsRegisterIndex_def
      getLowNibbleAsLength_def getHighNibbleAsLength_def MAX_REGISTER_INDEX_def
      NO_OF_REGISTERS_def NIBBLE_MAX_LENGTH_def)


end
