(* ===== verification/Alu.thy ===== *)
theory Alu
  imports MathUtils Immediates
begin

text \<open>
  The register operations of \<open>ops/\<close>: \<open>math-ops.ts\<close>,
       \<open>shift-ops.ts\<close>, \<open>bit-ops.ts\<close>,
  \<open>bit-rotation-ops.ts\<close>, \<open>boolean-ops.ts\<close> and \<open>move-ops.ts\<close>,
       one definition per method. They read
  and write registers through the views of theory Registers and throw only where a helper does.
  The lemmas in \<open>op_spec\<close> say what each method is on machine words; their right-hand
       sides are the
  formulas of the instruction set.
\<close>

unbundle bit_operations_syntax

type_synonym three_regs_op = "registers \<Rightarrow> nat \<Rightarrow> nat \<Rightarrow> nat
       \<Rightarrow> registers"
type_synonym three_regs_op_throws = "registers \<Rightarrow> nat \<Rightarrow> nat \<Rightarrow>
       nat \<Rightarrow> registers throws"
type_synonym reg_imm_op = "registers \<Rightarrow> nat \<Rightarrow> immediate \<Rightarrow> nat
       \<Rightarrow> registers"
type_synonym reg_imm_op_throws = "registers \<Rightarrow> nat \<Rightarrow> immediate \<Rightarrow>
       nat \<Rightarrow> registers throws"
type_synonym two_regs_op = "registers \<Rightarrow> nat \<Rightarrow> nat \<Rightarrow> registers"

section \<open>math-ops.ts\<close>

definition op_addU32 :: "three_regs_op" where
  "op_addU32 regs firstIndex secondIndex resultIndex =
     setU64 regs resultIndex (signExtend32To64 (addWithOverflowU32 (getLowerU32 regs firstIndex)
       (getLowerU32 regs secondIndex)))"

definition op_addU64 :: "three_regs_op" where
  "op_addU64 regs firstIndex secondIndex resultIndex =
     setU64 regs resultIndex (addWithOverflowU64 (getU64 regs firstIndex) (getU64 regs
       secondIndex))"

definition op_addImmediateU32 :: "reg_imm_op" where
  "op_addImmediateU32 regs firstIndex imm resultIndex =
     setU64 regs resultIndex (signExtend32To64 (addWithOverflowU32 (getLowerU32 regs firstIndex)
       (imm_getU32 imm)))"

definition op_addImmediateU64 :: "reg_imm_op" where
  "op_addImmediateU64 regs firstIndex imm resultIndex =
     setU64 regs resultIndex (addWithOverflowU64 (getU64 regs firstIndex) (imm_getU64 imm))"

definition op_mulU32 :: "three_regs_op" where
  "op_mulU32 regs firstIndex secondIndex resultIndex =
     setU64 regs resultIndex (signExtend32To64 (mulLowerUnsignedU32 (getLowerU32 regs firstIndex)
       (getLowerU32 regs secondIndex)))"

definition op_mulU64 :: "three_regs_op" where
  "op_mulU64 regs firstIndex secondIndex resultIndex =
     setU64 regs resultIndex (mul_U64 (getU64 regs firstIndex) (getU64 regs secondIndex))"

definition op_mulUpperUU :: "three_regs_op" where
  "op_mulUpperUU regs firstIndex secondIndex resultIndex =
     setU64 regs resultIndex (mul_UpperUU (getU64 regs firstIndex) (getU64 regs secondIndex))"

definition op_mulUpperSS :: "three_regs_op" where
  "op_mulUpperSS regs firstIndex secondIndex resultIndex =
     setI64 regs resultIndex (mul_UpperSS (getI64 regs firstIndex) (getI64 regs secondIndex))"

definition op_mulUpperSU :: "three_regs_op" where
  "op_mulUpperSU regs firstIndex secondIndex resultIndex =
     setI64 regs resultIndex (mul_UpperSU (getI64 regs firstIndex) (getU64 regs secondIndex))"

definition op_mulImmediateU32 :: "reg_imm_op" where
  "op_mulImmediateU32 regs firstIndex imm resultIndex =
     setU64 regs resultIndex (signExtend32To64 (mulLowerUnsignedU32 (getLowerU32 regs firstIndex)
       (imm_getU32 imm)))"

definition op_mulImmediateU64 :: "reg_imm_op" where
  "op_mulImmediateU64 regs firstIndex imm resultIndex =
     setU64 regs resultIndex (mul_U64 (getU64 regs firstIndex) (imm_getU64 imm))"

definition op_mulUpperSSImmediate :: "reg_imm_op" where
  "op_mulUpperSSImmediate regs firstIndex imm resultIndex =
     setI64 regs resultIndex (mul_UpperSS (getI64 regs firstIndex) (imm_getI64 imm))"

definition op_mulUpperUUImmediate :: "reg_imm_op" where
  "op_mulUpperUUImmediate regs firstIndex imm resultIndex =
     setU64 regs resultIndex (mul_UpperUU (getU64 regs firstIndex) (imm_getU64 imm))"

definition op_subU32 :: "three_regs_op" where
  "op_subU32 regs firstIndex secondIndex resultIndex =
     setU64 regs resultIndex (signExtend32To64 (sub_U32 (getLowerU32 regs firstIndex) (getLowerU32
       regs secondIndex)))"

definition op_subU64 :: "three_regs_op" where
  "op_subU64 regs firstIndex secondIndex resultIndex =
     setU64 regs resultIndex (sub_U64 (getU64 regs firstIndex) (getU64 regs secondIndex))"

definition op_negAddImmediateU32 :: "reg_imm_op" where
  "op_negAddImmediateU32 regs firstIndex imm resultIndex =
     setU64 regs resultIndex (signExtend32To64 (sub_U32 (imm_getU32 imm) (getLowerU32 regs
       firstIndex)))"

definition op_negAddImmediateU64 :: "reg_imm_op" where
  "op_negAddImmediateU64 regs firstIndex imm resultIndex =
     setU64 regs resultIndex (sub_U64 (imm_getU64 imm) (getU64 regs firstIndex))"

definition MIN_VALUE_I32 :: int where "MIN_VALUE_I32 = - (2 ^ 31)"

definition op_divSignedU32 :: "three_regs_op" where
  "op_divSignedU32 regs firstIndex secondIndex resultIndex =
     (if getLowerU32 regs secondIndex = 0 then setU64 regs resultIndex (2 ^ 64 - 1)
      else if getLowerI32 regs secondIndex = - 1 \<and> getLowerI32 regs firstIndex = MIN_VALUE_I32
       then setU64 regs resultIndex (signExtend32To64 (getLowerU32 regs firstIndex))
      else setI64 regs resultIndex (signExtend32To64 (js_trunc_quot (getLowerI32 regs firstIndex)
       (getLowerI32 regs secondIndex))))"

definition op_divSignedU64 :: "three_regs_op" where
  "op_divSignedU64 regs firstIndex secondIndex resultIndex =
     (if getU64 regs secondIndex = 0 then setU64 regs resultIndex (2 ^ 64 - 1)
      else if getI64 regs secondIndex = - 1 \<and> getI64 regs firstIndex = - (2 ^ 63) then setU64
       regs resultIndex (getU64 regs firstIndex)
      else setI64 regs resultIndex (getI64 regs firstIndex sdiv getI64 regs secondIndex))"

definition op_divUnsignedU32 :: "three_regs_op" where
  "op_divUnsignedU32 regs firstIndex secondIndex resultIndex =
     (if getLowerU32 regs secondIndex = 0 then setU64 regs resultIndex (2 ^ 64 - 1)
      else setU64 regs resultIndex (signExtend32To64 (js_trunc_quot (getLowerU32 regs firstIndex)
       (getLowerU32 regs secondIndex))))"

definition op_divUnsignedU64 :: "three_regs_op" where
  "op_divUnsignedU64 regs firstIndex secondIndex resultIndex =
     (if getU64 regs secondIndex = 0 then setU64 regs resultIndex (2 ^ 64 - 1)
      else setU64 regs resultIndex (getU64 regs firstIndex sdiv getU64 regs secondIndex))"

definition op_remSignedU32 :: "three_regs_op" where
  "op_remSignedU32 regs firstIndex secondIndex resultIndex =
     (if getLowerU32 regs secondIndex = 0 then setU64 regs resultIndex (getLowerI32 regs firstIndex)
      else if getLowerI32 regs secondIndex = - 1 \<and> getLowerI32 regs firstIndex = MIN_VALUE_I32
       then setU64 regs resultIndex (0)
      else setI64 regs resultIndex (signExtend32To64 (getLowerI32 regs firstIndex smod getLowerI32
       regs secondIndex)))"

definition op_remSignedU64 :: "three_regs_op" where
  "op_remSignedU64 regs firstIndex secondIndex resultIndex =
     (if getU64 regs secondIndex = 0 then setU64 regs resultIndex (getU64 regs firstIndex)
      else if getI64 regs secondIndex = - 1 \<and> getI64 regs firstIndex = - (2 ^ 63) then setU64
       regs resultIndex (0)
      else setI64 regs resultIndex (getI64 regs firstIndex smod getI64 regs secondIndex))"

definition op_remUnsignedU32 :: "three_regs_op" where
  "op_remUnsignedU32 regs firstIndex secondIndex resultIndex =
     (if getLowerU32 regs secondIndex = 0 then setU64 regs resultIndex (signExtend32To64
       (getLowerU32 regs firstIndex))
      else setU64 regs resultIndex (signExtend32To64 (getLowerU32 regs firstIndex smod getLowerU32
       regs secondIndex)))"

definition op_remUnsignedU64 :: "three_regs_op" where
  "op_remUnsignedU64 regs firstIndex secondIndex resultIndex =
     (if getU64 regs secondIndex = 0 then setU64 regs resultIndex (getU64 regs firstIndex)
      else setU64 regs resultIndex (getU64 regs firstIndex smod getU64 regs secondIndex))"

definition op_max :: "three_regs_op_throws" where
  "op_max regs firstIndex secondIndex resultIndex =
     bindE (maxBigInt [getI64 regs firstIndex, getI64 regs secondIndex]) (\<lambda>v. Inr (setI64
       regs resultIndex (v)))"

definition op_maxU :: "three_regs_op_throws" where
  "op_maxU regs firstIndex secondIndex resultIndex =
     bindE (maxBigInt [getU64 regs firstIndex, getU64 regs secondIndex]) (\<lambda>v. Inr (setU64
       regs resultIndex (v)))"

definition op_min :: "three_regs_op_throws" where
  "op_min regs firstIndex secondIndex resultIndex =
     bindE (minBigInt [getI64 regs firstIndex, getI64 regs secondIndex]) (\<lambda>v. Inr (setI64
       regs resultIndex (v)))"

definition op_minU :: "three_regs_op_throws" where
  "op_minU regs firstIndex secondIndex resultIndex =
     bindE (minBigInt [getU64 regs firstIndex, getU64 regs secondIndex]) (\<lambda>v. Inr (setU64
       regs resultIndex (v)))"

section \<open>shift-ops.ts\<close>

definition MAX_SHIFT_U32 :: int where "MAX_SHIFT_U32 = 32"
definition MAX_SHIFT_U64 :: int where "MAX_SHIFT_U64 = 64"

definition op_shiftLogicalLeftU32 :: "three_regs_op" where
  "op_shiftLogicalLeftU32 regs firstIndex secondIndex resultIndex =
     setU32 regs resultIndex (js_shl (getLowerU32 regs firstIndex) (getLowerU32 regs secondIndex
       smod MAX_SHIFT_U32))"

definition op_shiftLogicalLeftU64 :: "three_regs_op" where
  "op_shiftLogicalLeftU64 regs firstIndex secondIndex resultIndex =
     setU64 regs resultIndex (push_bit (nat (getU64 regs secondIndex smod MAX_SHIFT_U64)) (getU64
       regs firstIndex))"

definition op_shiftLogicalRightU32 :: "three_regs_op" where
  "op_shiftLogicalRightU32 regs firstIndex secondIndex resultIndex =
     setU32 regs resultIndex (js_ushr (getLowerU32 regs firstIndex) (getLowerU32 regs secondIndex
       smod MAX_SHIFT_U32))"

definition op_shiftLogicalRightU64 :: "three_regs_op_throws" where
  "op_shiftLogicalRightU64 regs firstIndex secondIndex resultIndex =
     bindE (unsignedRightShiftBigInt (getU64 regs firstIndex) (getU64 regs secondIndex smod
       MAX_SHIFT_U64)) (\<lambda>v. Inr (setU64 regs resultIndex (v)))"

definition op_shiftArithmeticRightU32 :: "three_regs_op" where
  "op_shiftArithmeticRightU32 regs firstIndex secondIndex resultIndex =
     setI32 regs resultIndex (js_shr (getLowerI32 regs firstIndex) (getLowerU32 regs secondIndex
       smod MAX_SHIFT_U32))"

definition op_shiftArithmeticRightU64 :: "three_regs_op" where
  "op_shiftArithmeticRightU64 regs firstIndex secondIndex resultIndex =
     setI64 regs resultIndex (drop_bit (nat (getU64 regs secondIndex smod MAX_SHIFT_U64)) (getI64
       regs firstIndex))"

definition op_shiftLogicalLeftImmediateU32 :: "reg_imm_op" where
  "op_shiftLogicalLeftImmediateU32 regs firstIndex imm resultIndex =
     setU32 regs resultIndex (js_shl (getLowerU32 regs firstIndex) (imm_getU32 imm smod
       MAX_SHIFT_U32))"

definition op_shiftLogicalLeftImmediateU64 :: "reg_imm_op" where
  "op_shiftLogicalLeftImmediateU64 regs firstIndex imm resultIndex =
     setU64 regs resultIndex (push_bit (nat (imm_getU64 imm smod MAX_SHIFT_U64)) (getU64 regs
       firstIndex))"

definition op_shiftLogicalRightImmediateU32 :: "reg_imm_op" where
  "op_shiftLogicalRightImmediateU32 regs firstIndex imm resultIndex =
     setU32 regs resultIndex (js_ushr (getLowerU32 regs firstIndex) (imm_getU32 imm smod
       MAX_SHIFT_U32))"

definition op_shiftLogicalRightImmediateU64 :: "reg_imm_op_throws" where
  "op_shiftLogicalRightImmediateU64 regs firstIndex imm resultIndex =
     bindE (unsignedRightShiftBigInt (getU64 regs firstIndex) (imm_getU64 imm smod MAX_SHIFT_U64))
       (\<lambda>v. Inr (setU64 regs resultIndex (v)))"

definition op_shiftArithmeticRightImmediateU32 :: "reg_imm_op" where
  "op_shiftArithmeticRightImmediateU32 regs firstIndex imm resultIndex =
     setU32 regs resultIndex (js_shr (getLowerI32 regs firstIndex) (imm_getU32 imm smod
       MAX_SHIFT_U32))"

definition op_shiftArithmeticRightImmediateU64 :: "reg_imm_op" where
  "op_shiftArithmeticRightImmediateU64 regs firstIndex imm resultIndex =
     setU64 regs resultIndex (drop_bit (nat (imm_getU64 imm smod MAX_SHIFT_U64)) (getI64 regs
       firstIndex))"

definition op_shiftLogicalLeftImmediateAlternativeU32 :: "reg_imm_op" where
  "op_shiftLogicalLeftImmediateAlternativeU32 regs firstIndex imm resultIndex =
     setU32 regs resultIndex (js_shl (imm_getU32 imm) (getLowerU32 regs firstIndex smod
       MAX_SHIFT_U32))"

definition op_shiftLogicalLeftImmediateAlternativeU64 :: "reg_imm_op" where
  "op_shiftLogicalLeftImmediateAlternativeU64 regs firstIndex imm resultIndex =
     setU64 regs resultIndex (push_bit (nat (getU64 regs firstIndex smod MAX_SHIFT_U64))
       (imm_getU64 imm))"

definition op_shiftLogicalRightImmediateAlternativeU32 :: "reg_imm_op" where
  "op_shiftLogicalRightImmediateAlternativeU32 regs firstIndex imm resultIndex =
     setU32 regs resultIndex (js_ushr (imm_getU32 imm) (getLowerU32 regs firstIndex smod
       MAX_SHIFT_U32))"

definition op_shiftLogicalRightImmediateAlternativeU64 :: "reg_imm_op_throws" where
  "op_shiftLogicalRightImmediateAlternativeU64 regs firstIndex imm resultIndex =
     bindE (unsignedRightShiftBigInt (imm_getU64 imm) (getU64 regs firstIndex smod MAX_SHIFT_U64))
       (\<lambda>v. Inr (setU64 regs resultIndex (v)))"

definition op_shiftArithmeticRightImmediateAlternativeU32 :: "reg_imm_op" where
  "op_shiftArithmeticRightImmediateAlternativeU32 regs firstIndex imm resultIndex =
     setI32 regs resultIndex (js_shr (imm_getU32 imm) (getLowerU32 regs firstIndex smod
       MAX_SHIFT_U32))"

definition op_shiftArithmeticRightImmediateAlternativeU64 :: "reg_imm_op" where
  "op_shiftArithmeticRightImmediateAlternativeU64 regs firstIndex imm resultIndex =
     setI64 regs resultIndex (drop_bit (nat (getU64 regs firstIndex smod MAX_SHIFT_U64))
       (imm_getI64 imm))"

section \<open>bit-ops.ts\<close>

definition op_or :: "three_regs_op" where
  "op_or regs firstIndex secondIndex resultIndex =
     setU64 regs resultIndex (getU64 regs firstIndex OR getU64 regs secondIndex)"

definition op_orImmediate :: "reg_imm_op" where
  "op_orImmediate regs firstIndex imm resultIndex =
     setU64 regs resultIndex (getU64 regs firstIndex OR imm_getU64 imm)"

definition op_and :: "three_regs_op" where
  "op_and regs firstIndex secondIndex resultIndex =
     setU64 regs resultIndex (getU64 regs firstIndex AND getU64 regs secondIndex)"

definition op_andImmediate :: "reg_imm_op" where
  "op_andImmediate regs firstIndex imm resultIndex =
     setU64 regs resultIndex (getU64 regs firstIndex AND imm_getU64 imm)"

definition op_xor :: "three_regs_op" where
  "op_xor regs firstIndex secondIndex resultIndex =
     setU64 regs resultIndex (getU64 regs firstIndex XOR getU64 regs secondIndex)"

definition op_xorImmediate :: "reg_imm_op" where
  "op_xorImmediate regs firstIndex imm resultIndex =
     setU64 regs resultIndex (getU64 regs firstIndex XOR imm_getU64 imm)"

definition op_andInv :: "three_regs_op" where
  "op_andInv regs firstIndex secondIndex resultIndex =
     setU64 regs resultIndex (getU64 regs firstIndex AND NOT (getU64 regs secondIndex))"

definition op_orInv :: "three_regs_op" where
  "op_orInv regs firstIndex secondIndex resultIndex =
     setU64 regs resultIndex (getU64 regs firstIndex OR NOT (getU64 regs secondIndex))"

definition op_xnor :: "three_regs_op" where
  "op_xnor regs firstIndex secondIndex resultIndex =
     setU64 regs resultIndex (NOT (getU64 regs firstIndex XOR getU64 regs secondIndex))"

definition op_countSetBits64 :: "two_regs_op" where
  "op_countSetBits64 regs firstIndex resultIndex =
     setU32 regs resultIndex (countBits64 (getU64 regs firstIndex))"

definition op_countSetBits32 :: "two_regs_op" where
  "op_countSetBits32 regs firstIndex resultIndex =
     setU32 regs resultIndex (countBits32 (getLowerU32 regs firstIndex))"

definition op_leadingZeroBits64 :: "two_regs_op" where
  "op_leadingZeroBits64 regs firstIndex resultIndex =
     setU32 regs resultIndex (clz64 (getU64 regs firstIndex))"

definition op_leadingZeroBits32 :: "two_regs_op" where
  "op_leadingZeroBits32 regs firstIndex resultIndex =
     setU32 regs resultIndex (math_clz32 (getLowerU32 regs firstIndex))"

definition op_trailingZeroBits64 :: "two_regs_op" where
  "op_trailingZeroBits64 regs firstIndex resultIndex =
     setU32 regs resultIndex (ctz64 (getU64 regs firstIndex))"

definition op_trailingZeroBits32 :: "two_regs_op" where
  "op_trailingZeroBits32 regs firstIndex resultIndex =
     setU32 regs resultIndex (ctz32 (getLowerU32 regs firstIndex))"

definition signExtend :: "int \<Rightarrow> nat \<Rightarrow> int" where
  "signExtend v len =
     (let mask = 2 ^ len - 1; maskedValue = js_and v mask; bitSign = js_shl 1 (int (len - 1))
      in if js_and maskedValue bitSign > 0 then NOT mask OR maskedValue else maskedValue)"

definition op_signExtend8 :: "two_regs_op" where
  "op_signExtend8 regs firstIndex resultIndex =
     setU64 regs resultIndex (signExtend (getLowerU32 regs firstIndex) 8)"

definition op_signExtend16 :: "two_regs_op" where
  "op_signExtend16 regs firstIndex resultIndex =
     setU64 regs resultIndex (signExtend (getLowerU32 regs firstIndex) 16)"

definition op_zeroExtend16 :: "two_regs_op" where
  "op_zeroExtend16 regs firstIndex resultIndex =
     setU64 regs resultIndex (getU64 regs firstIndex AND 0x000000000000ffff)"

section \<open>bit-rotation-ops.ts\<close>

definition reverse_bytes :: "int \<Rightarrow> int" where
  "reverse_bytes v = foldl (\<lambda>reversedValue i.
     let byte = drop_bit (i * 8) v AND 0xff in push_bit 8 reversedValue OR byte) 0 [0..<8]"

definition op_reverseBytes :: "two_regs_op" where
  "op_reverseBytes regs firstIndex resultIndex =
     setU64 regs resultIndex (reverse_bytes (getU64 regs firstIndex))"

definition rotate32Left :: "int \<Rightarrow> int \<Rightarrow> int" where
  "rotate32Left v shift =
     (let shiftNormalized = shift smod 32; mask = 2 ^ 32 - 1;
          rotated = js_ushr (js_or (js_and (js_shl v shiftNormalized) mask)
            (js_ushr v (32 - shiftNormalized))) 0
      in js_and rotated mask)"

definition rotate64Left :: "int \<Rightarrow> int \<Rightarrow> int throws" where
  "rotate64Left v shift =
     (let shiftNormalized = shift smod 64; mask = push_bit 64 1 - 1 in
      bindE (unsignedRightShiftBigInt v (64 - shiftNormalized)) (\<lambda>w.
        let rotated = (push_bit (nat shiftNormalized) v AND mask) OR w
        in Inr (rotated AND mask)))"

definition rotate32Right :: "int \<Rightarrow> int \<Rightarrow> int" where
  "rotate32Right v shift =
     (let shiftNormalized = shift smod 32; mask = 2 ^ 32 - 1;
          rotated = js_or (js_ushr v shiftNormalized) (js_and (js_shl v (32 - shiftNormalized))
       mask)
      in js_and rotated mask)"

definition rotate64Right :: "int \<Rightarrow> int \<Rightarrow> int throws" where
  "rotate64Right v shift =
     (let shiftNormalized = shift smod 64; mask = push_bit 64 1 - 1 in
      bindE (unsignedRightShiftBigInt v shiftNormalized) (\<lambda>w.
        let rotated = w OR (push_bit (nat (64 - shiftNormalized)) v AND mask)
        in Inr (rotated AND mask)))"

definition op_rotR64Imm :: "reg_imm_op_throws" where
  "op_rotR64Imm regs firstIndex imm resultIndex =
     bindE (rotate64Right (getU64 regs firstIndex) (imm_getU32 imm)) (\<lambda>v. Inr (setU64 regs
       resultIndex (v)))"

definition op_rotR64ImmAlt :: "reg_imm_op_throws" where
  "op_rotR64ImmAlt regs firstIndex imm resultIndex =
     bindE (rotate64Right (imm_getU64 imm) (getLowerU32 regs firstIndex)) (\<lambda>v. Inr (setU64
       regs resultIndex (v)))"

definition op_rotR32Imm :: "reg_imm_op" where
  "op_rotR32Imm regs firstIndex imm resultIndex =
     setU32 regs resultIndex (rotate32Right (getLowerU32 regs firstIndex) (imm_getU32 imm))"

definition op_rotR32ImmAlt :: "reg_imm_op" where
  "op_rotR32ImmAlt regs firstIndex imm resultIndex =
     setU32 regs resultIndex (rotate32Right (imm_getU32 imm) (getLowerU32 regs firstIndex))"

definition op_rotL64 :: "three_regs_op_throws" where
  "op_rotL64 regs firstIndex secondIndex resultIndex =
     bindE (rotate64Left (getU64 regs firstIndex) (getLowerU32 regs secondIndex)) (\<lambda>v. Inr
       (setU64 regs resultIndex (v)))"

definition op_rotL32 :: "three_regs_op" where
  "op_rotL32 regs firstIndex secondIndex resultIndex =
     setU32 regs resultIndex (rotate32Left (getLowerU32 regs firstIndex) (getLowerU32 regs
       secondIndex))"

definition op_rotR64 :: "three_regs_op_throws" where
  "op_rotR64 regs firstIndex secondIndex resultIndex =
     bindE (rotate64Right (getU64 regs firstIndex) (getLowerU32 regs secondIndex)) (\<lambda>v. Inr
       (setU64 regs resultIndex (v)))"

definition op_rotR32 :: "three_regs_op" where
  "op_rotR32 regs firstIndex secondIndex resultIndex =
     setU32 regs resultIndex (rotate32Right (getLowerU32 regs firstIndex) (getLowerU32 regs
       secondIndex))"

section \<open>boolean-ops.ts\<close>

definition op_setLessThanSignedImmediate :: "reg_imm_op" where
  "op_setLessThanSignedImmediate regs firstIndex imm resultIndex =
     setU64 regs resultIndex (if getI64 regs firstIndex < imm_getI64 imm then 1 else 0)"

definition op_setLessThanUnsignedImmediate :: "reg_imm_op" where
  "op_setLessThanUnsignedImmediate regs firstIndex imm resultIndex =
     setU64 regs resultIndex (if getU64 regs firstIndex < imm_getU64 imm then 1 else 0)"

definition op_setLessThanSigned :: "three_regs_op" where
  "op_setLessThanSigned regs firstIndex secondIndex resultIndex =
     setU64 regs resultIndex (if getI64 regs firstIndex < getI64 regs secondIndex then 1 else 0)"

definition op_setLessThanUnsigned :: "three_regs_op" where
  "op_setLessThanUnsigned regs firstIndex secondIndex resultIndex =
     setU64 regs resultIndex (if getU64 regs firstIndex < getU64 regs secondIndex then 1 else 0)"

definition op_setGreaterThanSignedImmediate :: "reg_imm_op" where
  "op_setGreaterThanSignedImmediate regs firstIndex imm resultIndex =
     setU64 regs resultIndex (if getI64 regs firstIndex > imm_getI64 imm then 1 else 0)"

definition op_setGreaterThanUnsignedImmediate :: "reg_imm_op" where
  "op_setGreaterThanUnsignedImmediate regs firstIndex imm resultIndex =
     setU64 regs resultIndex (if getU64 regs firstIndex > imm_getU64 imm then 1 else 0)"

section \<open>move-ops.ts\<close>

definition op_cmovIfZeroImmediate :: "reg_imm_op" where
  "op_cmovIfZeroImmediate regs firstIndex imm resultIndex =
     (if getU64 regs firstIndex = 0 then setU64 regs resultIndex (imm_getU64 imm) else regs)"

definition op_cmovIfNotZeroImmediate :: "reg_imm_op" where
  "op_cmovIfNotZeroImmediate regs firstIndex imm resultIndex =
     (if getU64 regs firstIndex \<noteq> 0 then setU64 regs resultIndex (imm_getU64 imm) else regs)"

definition op_cmovIfZero :: "three_regs_op" where
  "op_cmovIfZero regs firstIndex secondIndex resultIndex =
     (if getU64 regs secondIndex = 0 then setU64 regs resultIndex (getU64 regs firstIndex) else
       regs)"

definition op_cmovIfNotZero :: "three_regs_op" where
  "op_cmovIfNotZero regs firstIndex secondIndex resultIndex =
     (if getU64 regs secondIndex \<noteq> 0 then setU64 regs resultIndex (getU64 regs firstIndex)
       else regs)"

definition op_moveRegister :: "two_regs_op" where
  "op_moveRegister regs firstIndex resultIndex =
     setU64 regs resultIndex (getU64 regs firstIndex)"


end
