(* ===== verification/Numbers.thy ===== *)
theory Numbers
  imports JsNum
begin

text \<open>
  The fixed-size integers of \<open>packages/core/numbers/index.ts\<close>. A branded number type
  (\<open>U8\<close>, \<open>U16\<close>, \<open>U32\<close>, \<open>U64\<close>) is a plain \<open>int\<close>; the \<open>tryAs...\<close> functions throw when the
  value does not fit. The lemmas show that the bit-mask tests decide exactly the value ranges,
  that splitting and collating 64-bit values are inverse, and that the two sums are the sums
  modulo the type's size with an exact overflow flag.
\<close>

unbundle bit_operations_syntax

definition MAX_VALUE_U8 :: int where "MAX_VALUE_U8 = 0xff"
definition MAX_VALUE_U16 :: int where "MAX_VALUE_U16 = 0xffff"
definition MAX_VALUE_U32 :: int where "MAX_VALUE_U32 = 0xffffffff"
definition MAX_VALUE_U64 :: int where "MAX_VALUE_U64 = 0xffffffffffffffff"

definition isU8 :: "int \<Rightarrow> bool" where
  "isU8 v = (js_and v MAX_VALUE_U8 = v)"

definition tryAsU8 :: "int \<Rightarrow> int throws" where
  "tryAsU8 v = check (isU8 v) (Inr v)"

definition isU16 :: "int \<Rightarrow> bool" where
  "isU16 v = (js_and v MAX_VALUE_U16 = v)"

definition tryAsU16 :: "int \<Rightarrow> int throws" where
  "tryAsU16 v = check (isU16 v) (Inr v)"

text \<open>\<open>(v & MAX_VALUE_U32) >>> 0 === v\<close>\<close>

definition isU32 :: "int \<Rightarrow> bool" where
  "isU32 v = (js_ushr (js_and v MAX_VALUE_U32) 0 = v)"

definition tryAsU32 :: "int \<Rightarrow> int throws" where
  "tryAsU32 v = check (isU32 v) (Inr v)"

text \<open>\<open>isU64\<close> works on a \<open>bigint\<close>, so the mask is not cut to 32 bits.\<close>

definition isU64 :: "int \<Rightarrow> bool" where
  "isU64 v = (v AND MAX_VALUE_U64 = v)"

definition tryAsU64 :: "int \<Rightarrow> int throws" where
  "tryAsU64 x = check (isU64 x) (Inr x)"

record u64_parts =
  lower :: int
  upper :: int

definition u64FromParts :: "u64_parts \<Rightarrow> int" where
  "u64FromParts p = push_bit 32 (upper p) + lower p"

definition u64IntoParts :: "int \<Rightarrow> u64_parts" where
  "u64IntoParts v = \<lparr>lower = v AND (2 ^ 32 - 1), upper = drop_bit 32 v\<rparr>"

text \<open>The \<open>Result<T>\<close> of modulo arithmetic.\<close>

record modulo_result =
  overflow :: bool
  sum_value :: int

fun sum_loop :: "int list \<Rightarrow> int \<Rightarrow> int" where
  "sum_loop [] acc = acc"
| "sum_loop (v # vs) acc = sum_loop vs (acc + v)"

definition sumU64 :: "int list \<Rightarrow> modulo_result throws" where
  "sumU64 values =
     (let acc = sum_loop values 0;
          ov = \<not> isU64 acc;
          acc' = acc AND 0xffffffffffffffff
      in bindE (tryAsU64 acc') (\<lambda>v. Inr \<lparr>overflow = ov, sum_value = v\<rparr>))"

text \<open>The loop of \<open>sumU32\<close>: it wraps at every step and remembers whether a step went down.\<close>

fun sumU32_loop :: "int list \<Rightarrow> int \<Rightarrow> bool \<Rightarrow> int \<times> bool" where
  "sumU32_loop [] acc ov = (acc, ov)"
| "sumU32_loop (v # vs) acc ov =
     (let prev = acc; acc' = js_ushr (acc + v) 0
      in sumU32_loop vs acc' (ov \<or> prev > acc'))"

definition sumU32 :: "int list \<Rightarrow> modulo_result throws" where
  "sumU32 values =
     (case sumU32_loop values 0 False of (acc, ov) \<Rightarrow>
        bindE (tryAsU32 acc) (\<lambda>v. Inr \<lparr>overflow = ov, sum_value = v\<rparr>))"

text \<open>Storing a number into a \<open>Uint8Array\<close> keeps it modulo 256 (\<open>word_of_int\<close>).\<close>

definition u32AsLeBytes :: "int \<Rightarrow> byte list" where
  "u32AsLeBytes value = map word_of_int
     [js_and value 0xff, js_and (js_shr value 8) 0xff,
      js_and (js_shr value 16) 0xff, js_and (js_shr value 24) 0xff]"

definition leBytesAsU32 :: "byte list \<Rightarrow> int throws" where
  "leBytesAsU32 a = check (length a = 4)
     (Inr (js_ushr
        (js_or (js_or (js_or (uint (a ! 0)) (js_shl (uint (a ! 1)) 8))
                      (js_shl (uint (a ! 2)) 16))
               (js_shl (uint (a ! 3)) 24)) 0))"

definition minU64 :: "int \<Rightarrow> int list \<Rightarrow> int" where
  "minU64 a values = foldl (\<lambda>m v. if v > m then m else v) a values"

definition maxU64 :: "int \<Rightarrow> int list \<Rightarrow> int" where
  "maxU64 a values = foldl (\<lambda>m v. if v < m then m else v) a values"

section \<open>The range tests\<close>

lemma mod_eq_self_iff_int: "0 < m \<Longrightarrow> v mod m = v \<longleftrightarrow> 0 \<le> v \<and> v < (m :: int)"
  by (metis mod_pos_pos_trivial pos_mod_bound pos_mod_sign)

lemma isU8_iff: "isU8 v \<longleftrightarrow> 0 \<le> v \<and> v < 2 ^ 8"
proof -
  have "js_and v 255 = v mod 256"
    using js_and_mask [of 8 v] by simp
  then show ?thesis
    by (auto simp: isU8_def MAX_VALUE_U8_def mod_eq_self_iff_int)
qed

lemma isU16_iff: "isU16 v \<longleftrightarrow> 0 \<le> v \<and> v < 2 ^ 16"
proof -
  have "js_and v 65535 = v mod 65536"
    using js_and_mask [of 16 v] by simp
  then show ?thesis
    by (auto simp: isU16_def MAX_VALUE_U16_def mod_eq_self_iff_int)
qed

lemma js_and_ones: "js_ushr (js_and v 0xffffffff) 0 = v mod 2 ^ 32"
proof -
  have "(0xffffffff :: u32) = - 1" by simp
  then have "w32 (js_and v 0xffffffff) = w32 v"
    by (simp only: js_word of_int_numeral and.right_neutral)
  then have "to_uint32 (js_and v 0xffffffff) = to_uint32 v"
    by (simp add: to_uint32_uint)
  then show ?thesis
    by (simp add: js_ushr_0 to_uint32_mod)
qed

lemma isU32_iff: "isU32 v \<longleftrightarrow> 0 \<le> v \<and> v < 2 ^ 32"
  unfolding isU32_def MAX_VALUE_U32_def js_and_ones
  by (simp add: mod_eq_self_iff_int)

lemma isU64_iff: "isU64 v \<longleftrightarrow> 0 \<le> v \<and> v < 2 ^ 64"
proof -
  have "v AND 0xffffffffffffffff = take_bit 64 v"
    by (simp add: take_bit_eq_mask mask_eq_exp_minus_1)
  then show ?thesis
    by (simp add: isU64_def MAX_VALUE_U64_def take_bit_int_eq_self_iff)
qed

lemmas is_unsigned_iff = isU8_iff isU16_iff isU32_iff isU64_iff

lemma tryAs_Inr_iff:
  "tryAsU8 v = Inr r \<longleftrightarrow> r = v \<and> 0 \<le> v \<and> v < 2 ^ 8"
  "tryAsU16 v = Inr r \<longleftrightarrow> r = v \<and> 0 \<le> v \<and> v < 2 ^ 16"
  "tryAsU32 v = Inr r \<longleftrightarrow> r = v \<and> 0 \<le> v \<and> v < 2 ^ 32"
  "tryAsU64 v = Inr r \<longleftrightarrow> r = v \<and> 0 \<le> v \<and> v < 2 ^ 64"
  by (auto simp: tryAsU8_def tryAsU16_def tryAsU32_def tryAsU64_def is_unsigned_iff)

section \<open>Splitting and collating\<close>

lemma and_mask32: "v AND 0xffffffff = take_bit 32 (v :: int)"
  by (simp add: take_bit_eq_mask mask_eq_exp_minus_1)

lemma u64FromParts_IntoParts: "u64FromParts (u64IntoParts v) = v"
proof -
  have "push_bit 32 (drop_bit 32 v) + take_bit 32 v = v"
    by (metis bits_ident)
  then show ?thesis
    by (simp add: u64FromParts_def u64IntoParts_def and_mask32)
qed

lemma u64IntoParts_FromParts:
  assumes "0 \<le> lower p" "lower p < 2 ^ 32"
  shows "u64IntoParts (u64FromParts p) = p"
  using assms
  by (cases p) (simp add: u64FromParts_def u64IntoParts_def and_mask32 push_bit_eq_mult
      take_bit_eq_mod drop_bit_eq_div)

section \<open>The sums\<close>

lemma sum_loop_eq: "sum_loop vs acc = acc + sum_list vs"
  by (induction vs arbitrary: acc) auto

lemma wrap_step:
  assumes "0 \<le> acc" "acc < 2 ^ 32" "0 \<le> v" "v < (2 :: int) ^ 32"
  shows "js_ushr (acc + v) 0 = (if acc + v < 2 ^ 32 then acc + v else acc + v - 2 ^ 32)"
proof -
  have "(acc + v) mod 2 ^ 32 = (acc + v - 2 ^ 32) mod 2 ^ 32"
    by (simp only: minus_mod_self2)
  then show ?thesis
    using assms mod_pos_pos_trivial [of "acc + v - 2 ^ 32" "2 ^ 32"] by (auto simp: js_ushr_0)
qed

lemma sumU32_loop_eq:
  assumes "0 \<le> acc" "acc < 2 ^ 32" "list_all (\<lambda>v. 0 \<le> v \<and> v < 2 ^ 32) vs"
  shows "sumU32_loop vs acc ov =
    ((acc + sum_list vs) mod 2 ^ 32, ov \<or> acc + sum_list vs \<ge> 2 ^ 32)"
  using assms
proof (induction vs arbitrary: acc ov)
  case Nil
  then show ?case by simp
next
  case (Cons v vs)
  let ?s = "js_ushr (acc + v) 0"
  have v: "0 \<le> v" "v < 2 ^ 32" and vs: "list_all (\<lambda>v. 0 \<le> v \<and> v < 2 ^ 32) vs"
    using Cons.prems(3) by auto
  have s: "?s = (if acc + v < 2 ^ 32 then acc + v else acc + v - 2 ^ 32)"
    using wrap_step Cons.prems(1,2) v by blast
  have nonneg: "0 \<le> sum_list vs"
    using vs by (intro sum_list_nonneg) (auto simp: list_all_iff)
  have bounds: "0 \<le> ?s" "?s < 2 ^ 32"
    using s Cons.prems(1,2) v by auto
  have "(?s + sum_list vs) mod 2 ^ 32 = (acc + v + sum_list vs) mod 2 ^ 32"
    by (simp add: js_ushr_0 mod_simps)
  moreover have "(ov \<or> acc > ?s) \<or> ?s + sum_list vs \<ge> 2 ^ 32 \<longleftrightarrow>
      ov \<or> acc + v + sum_list vs \<ge> 2 ^ 32"
    unfolding s using v Cons.prems(1,2) nonneg by auto
  ultimately show ?case
    using Cons.IH [OF bounds vs, of "ov \<or> acc > ?s"] by (simp add: Let_def algebra_simps)
qed

lemma sumU64_eq:
  "sumU64 vs = Inr \<lparr>overflow = \<not> (0 \<le> sum_list vs \<and> sum_list vs < 2 ^ 64),
                    sum_value = sum_list vs mod 2 ^ 64\<rparr>"
proof -
  have mask: "sum_list vs AND 0xffffffffffffffff = sum_list vs mod 2 ^ 64"
    using take_bit_eq_mask [of 64 "sum_list vs"]
    by (simp add: mask_eq_exp_minus_1 take_bit_eq_mod)
  have "tryAsU64 (sum_list vs mod 2 ^ 64) = Inr (sum_list vs mod 2 ^ 64)"
    by (simp add: tryAs_Inr_iff)
  then show ?thesis
    by (simp add: sumU64_def sum_loop_eq isU64_iff mask Let_def)
qed

lemma sumU32_eq:
  assumes "list_all (\<lambda>v. 0 \<le> v \<and> v < 2 ^ 32) vs"
  shows "sumU32 vs = Inr \<lparr>overflow = sum_list vs \<ge> 2 ^ 32, sum_value = sum_list vs mod 2 ^ 32\<rparr>"
proof -
  have "tryAsU32 (sum_list vs mod 2 ^ 32) = Inr (sum_list vs mod 2 ^ 32)"
    by (simp add: tryAs_Inr_iff)
  with sumU32_loop_eq [of 0 vs False] assms show ?thesis
    by (simp add: sumU32_def)
qed

section \<open>Little-endian bytes of a 32-bit number\<close>

lemma byte_of_shr:
  assumes "0 \<le> n" "n < 25"
  shows "(word_of_int (js_and (js_shr v n) 0xff) :: byte) = word_of_int (v div 2 ^ nat n)"
proof -
  have "js_and (js_shr v n) 0xff = take_bit 8 (drop_bit (nat n) (signed_take_bit 31 v))"
    using js_and_mask [of 8 "js_shr v n"] assms
    by (simp add: js_shr_def shift_count_self to_int32_def take_bit_eq_mod)
  also have "\<dots> = take_bit 8 (drop_bit (nat n) v)"
  proof (rule bit_eqI)
    fix m
    have "nat n + m \<le> 31" if "m < 8" using assms that by linarith
    then show "bit (take_bit 8 (drop_bit (nat n) (signed_take_bit 31 v))) m =
        bit (take_bit 8 (drop_bit (nat n) v)) m"
      by (auto simp: bit_simps)
  qed
  finally have "js_and (js_shr v n) 0xff = take_bit 8 (v div 2 ^ nat n)"
    by (simp add: drop_bit_eq_div)
  then show ?thesis
    by (simp add: word_of_int_eq_iff)
qed

lemma u32AsLeBytes_eq: "u32AsLeBytes v = le_bytes 4 v"
proof -
  have 0: "(word_of_int (js_and v 0xff) :: byte) = word_of_int v"
    using byte_of_shr [of 0 v] js_and_mask [of 8 v]
    by (simp add: word_of_int_eq_iff take_bit_eq_mod)
  show ?thesis
    using byte_of_shr [of 8 v] byte_of_shr [of 16 v] byte_of_shr [of 24 v] 0
    by (simp add: u32AsLeBytes_def eval_nat_numeral zdiv_zmult2_eq [symmetric])
qed

lemma le_val_4:
  assumes "length a = 4"
  shows "le_val a = ((uint (a ! 0) OR push_bit 8 (uint (a ! 1))) OR push_bit 16 (uint (a ! 2)))
    OR push_bit 24 (uint (a ! 3))"
proof -
  obtain p q r s where a: "a = [p, q, r, s]"
    using assms by (auto simp: length_Suc_conv eval_nat_numeral)
  let ?x1 = "uint p + 2 ^ 8 * uint q"
  let ?x2 = "?x1 + 2 ^ 16 * uint r"
  have x0: "uint p < 2 ^ 8" and "uint q < 2 ^ 8" and "uint r < 2 ^ 8"
    using byte_bounds by simp_all
  then have x1: "?x1 < 2 ^ 16" and x2: "?x2 < 2 ^ 24"
    by simp_all
  show ?thesis
    using or_push_bit_eq_add [of "uint p" 8 "uint q"] or_push_bit_eq_add [of ?x1 16 "uint r"]
      or_push_bit_eq_add [of ?x2 24 "uint s"] x0 x1 x2 a byte_bounds
    by simp
qed

lemma leBytesAsU32_eq: "leBytesAsU32 a = check (length a = 4) (Inr (le_val a))"
proof (cases "length a = 4")
  case True
  let ?v = "js_or (js_or (js_or (uint (a ! 0)) (js_shl (uint (a ! 1)) 8))
      (js_shl (uint (a ! 2)) 16)) (js_shl (uint (a ! 3)) 24)"
  have "w32 ?v = w32 (le_val a)"
    by (simp only: le_val_4 [OF True] of_int_or_eq of_int_push_bit w32_js_or w32_js_shl
        shift_count_mod) simp
  then have "js_ushr ?v 0 = uint (w32 (le_val a))"
    by (simp add: js_ushr_uint shift_count_mod)
  also have "\<dots> = le_val a"
    using le_val_less [of a] True by (simp add: uint_word_of_int)
  finally show ?thesis using True by (simp add: leBytesAsU32_def)
qed (simp add: leBytesAsU32_def)

section \<open>Minimum and maximum\<close>

lemma minU64_eq: "minU64 a vs = Min (set (a # vs))"
proof (induction vs arbitrary: a)
  case Nil
  show ?case by (simp add: minU64_def)
next
  case (Cons v vs)
  have "minU64 a (v # vs) = minU64 (min a v) vs"
    by (simp add: minU64_def min_def)
  also have "\<dots> = Min (insert (min a v) (set vs))"
    using Cons.IH by simp
  also have "\<dots> = Min (set (a # v # vs))"
    by (cases vs) (simp_all add: min.assoc)
  finally show ?case .
qed

lemma maxU64_eq: "maxU64 a vs = Max (set (a # vs))"
proof (induction vs arbitrary: a)
  case Nil
  show ?case by (simp add: maxU64_def)
next
  case (Cons v vs)
  have "maxU64 a (v # vs) = maxU64 (max a v) vs"
    by (simp add: maxU64_def max_def)
  also have "\<dots> = Max (insert (max a v) (set vs))"
    using Cons.IH by simp
  also have "\<dots> = Max (set (a # v # vs))"
    by (cases vs) (simp_all add: max.assoc)
  finally show ?case .
qed


end
