(* ===== verification/Bitvec.thy ===== *)
theory Bitvec
  imports JsNum
begin

text \<open>
  The packed bit vector of \<open>packages/core/bytes/bitvec.ts\<close>: a byte array and a bit length.
  Bit \<open>i\<close> is bit \<open>i mod 8\<close> of byte \<open>i div 8\<close>. The lemmas show that \<open>setBit\<close> changes exactly
  the bit it names, that \<open>sumWith\<close> is the pointwise disjunction and that the iterator yields
  exactly the set bits, in ascending order.
\<close>

unbundle bit_operations_syntax

record bitvec =
  data :: "byte list"
  bitLength :: nat

text \<open>The constructor's check; every way to make a \<open>BitVec\<close> goes through it.\<close>

definition new_bitvec :: "byte list \<Rightarrow> nat \<Rightarrow> bitvec throws" where
  "new_bitvec d n = check (length d * 8 \<ge> n) (Inr \<lparr>data = d, bitLength = n\<rparr>)"

definition fromBlob :: "byte list \<Rightarrow> nat \<Rightarrow> bitvec throws" where
  "fromBlob d n = new_bitvec d n"

definition empty_bitvec :: "nat \<Rightarrow> bitvec throws" where
  "empty_bitvec n = new_bitvec (replicate (ceil_div n 8) 0) n"

definition byteLength :: "bitvec \<Rightarrow> nat" where
  "byteLength v = ceil_div (bitLength v) 8"

definition bv_raw :: "bitvec \<Rightarrow> byte list" where
  "bv_raw v = subarray (data v) 0 (byteLength v)"

text \<open>\<open>for (i = 0; i < byteLength; i++) data[i] |= otherRaw[i]\<close>\<close>

fun or_loop :: "nat \<Rightarrow> byte list \<Rightarrow> byte list \<Rightarrow> byte list" where
  "or_loop 0 d other = d"
| "or_loop (Suc n) d other = (let d' = or_loop n d other in d'[n := d' ! n OR other ! n])"

definition sumWith :: "bitvec \<Rightarrow> bitvec \<Rightarrow> bitvec throws" where
  "sumWith v other = check (bitLength other = bitLength v)
     (Inr (v\<lparr>data := or_loop (byteLength v) (data v) (bv_raw other)\<rparr>))"

definition setBit :: "bitvec \<Rightarrow> nat \<Rightarrow> bool \<Rightarrow> bitvec throws" where
  "setBit v idx val = check (idx < bitLength v)
     (let byteIndex = idx div 8; bitIndexInByte = idx mod 8;
          mask = js_shl 1 (int bitIndexInByte);
          old = uint (data v ! byteIndex)
      in Inr (v\<lparr>data := (data v)[byteIndex := word_of_int
            (if val then js_or old mask else js_and old (js_not mask))]\<rparr>))"

definition isSet :: "bitvec \<Rightarrow> nat \<Rightarrow> bool throws" where
  "isSet v idx = check (idx < bitLength v)
     (let byteIndex = idx div 8; bitIndexInByte = idx mod 8;
          mask = js_shl 1 (int bitIndexInByte)
      in Inr (js_and (uint (data v ! byteIndex)) mask > 0))"

text \<open>The generator: bits are read without the range check of \<open>isSet\<close>.\<close>

definition yields_bit :: "bitvec \<Rightarrow> nat \<Rightarrow> bool" where
  "yields_bit v b =
     (let byteIndex = drop_bit 3 b; bitIndex = b - push_bit 3 byteIndex;
          bitValue = js_shr (uint (data v ! byteIndex)) (int bitIndex)
      in js_and bitValue 1 = 1)"

definition indicesOfSetBits :: "bitvec \<Rightarrow> nat list" where
  "indicesOfSetBits v = filter (yields_bit v) [0..<bitLength v]"

section \<open>Bits of the model\<close>

text \<open>The abstract reading of a bit vector, and the invariant of the constructor.\<close>

definition bit_at :: "byte list \<Rightarrow> nat \<Rightarrow> bool" where
  "bit_at d i = bit (d ! (i div 8)) (i mod 8)"

definition wf_bitvec :: "bitvec \<Rightarrow> bool" where
  "wf_bitvec v \<longleftrightarrow> bitLength v \<le> length (data v) * 8"

lemma wf_bitvec_index: "wf_bitvec v \<Longrightarrow> i < bitLength v \<Longrightarrow> i div 8 < length (data v)"
  by (simp add: wf_bitvec_def less_mult_imp_div_less)

lemma new_bitvec_wf: "new_bitvec d n = Inr v \<Longrightarrow> wf_bitvec v \<and> data v = d \<and> bitLength v = n"
  by (auto simp: new_bitvec_def wf_bitvec_def)

lemma mask_bit: "k < 8 \<Longrightarrow> js_shl 1 (int k) = 2 ^ k"
proof -
  assume k: "k < 8"
  then have "(2 :: int) ^ k \<le> 2 ^ 7" by (intro power_increasing) auto
  with k show ?thesis by (simp add: js_shl_small)
qed

lemma js_and_byte_bit: "k < 8 \<Longrightarrow> js_and (uint (b :: byte)) (2 ^ k) = of_bool (bit b k) * 2 ^ k"
proof -
  assume k: "k < 8"
  then have p: "(2 :: int) ^ k \<le> 2 ^ 7" by (intro power_increasing) auto
  have "uint b AND 2 ^ k = of_bool (bit (uint b) k) * 2 ^ k"
    by (rule bit_eqI) (auto simp: bit_simps bit_exp_iff)
  with k p byte_bounds [of b] show ?thesis
    by (simp add: js_and_def to_int32_id bit_uint_iff)
qed

lemma isSet_eq: "isSet v i = check (i < bitLength v) (Inr (bit_at (data v) i))"
  by (simp add: isSet_def bit_at_def mask_bit js_and_byte_bit)

lemma byte_of_int_bit: "bit (word_of_int x :: byte) n \<longleftrightarrow> n < 8 \<and> bit x n"
  by (simp add: bit_word_of_int_iff)

lemma bit_to_int32: "n < 8 \<Longrightarrow> bit (to_int32 x) n = bit x n"
  by (simp add: to_int32_def bit_simps)

lemma setBit_byte:
  fixes b :: byte
  assumes "k < 8"
  shows "bit (word_of_int (js_or (uint b) (js_shl 1 (int k))) :: byte) n = (n = k \<or> bit b n)"
    and "bit (word_of_int (js_and (uint b) (js_not (js_shl 1 (int k)))) :: byte) n
      = (n \<noteq> k \<and> bit b n)"
proof -
  have *: "n < 8 \<and> P \<longleftrightarrow> Q" if "n < 8 \<Longrightarrow> P \<longleftrightarrow> Q" "Q \<Longrightarrow> n < 8" for P Q
    using that by blast
  have b: "bit b n \<Longrightarrow> n < 8" by (drule bit_imp_le_length) simp
  show "bit (word_of_int (js_or (uint b) (js_shl 1 (int k))) :: byte) n = (n = k \<or> bit b n)"
    unfolding byte_of_int_bit mask_bit [OF assms] js_or_def using assms b
    by (intro *) (auto simp: bit_or_iff bit_to_int32 bit_uint_iff bit_exp_iff)
  show "bit (word_of_int (js_and (uint b) (js_not (js_shl 1 (int k)))) :: byte) n
      = (n \<noteq> k \<and> bit b n)"
    unfolding byte_of_int_bit mask_bit [OF assms] js_and_def js_not_def using assms b
    by (intro *) (auto simp: bit_and_iff bit_not_iff bit_to_int32 bit_uint_iff bit_exp_iff)
qed

lemma setBit_bit_at:
  assumes "wf_bitvec v" "idx < bitLength v" "setBit v idx val = Inr v'" "i < bitLength v"
  shows "bit_at (data v') i = (if i = idx then val else bit_at (data v) i)"
proof -
  have lt: "idx div 8 < length (data v)" "i div 8 < length (data v)"
    using assms wf_bitvec_index by auto
  have i: "i = idx \<longleftrightarrow> i div 8 = idx div 8 \<and> i mod 8 = idx mod 8"
    by (metis div_mult_mod_eq)
  show ?thesis
  proof (cases "i div 8 = idx div 8")
    case True
    with assms(2,3) lt i show ?thesis
      by (cases val) (auto simp: setBit_def bit_at_def Let_def setBit_byte)
  next
    case False
    with assms(2,3) i show ?thesis
      by (auto simp: setBit_def bit_at_def Let_def)
  qed
qed

lemma setBit_wf:
  assumes "wf_bitvec v" "setBit v idx val = Inr v'"
  shows "wf_bitvec v' \<and> bitLength v' = bitLength v \<and> length (data v') = length (data v)"
  using assms by (auto simp: setBit_def wf_bitvec_def Let_def)

lemma setBit_Inr_iff: "(\<exists>v'. setBit v idx val = Inr v') \<longleftrightarrow> idx < bitLength v"
  by (auto simp: setBit_def Let_def)

lemma yields_bit_iff: "yields_bit v b = bit_at (data v) b"
proof -
  let ?y = "uint (data v ! (b div 8))"
  have b: "drop_bit 3 b = b div 8" "b - push_bit 3 (b div 8) = b mod 8"
    by (simp_all add: drop_bit_eq_div push_bit_eq_mult minus_div_mult_eq_mod)
  have "js_shr ?y (int (b mod 8)) = drop_bit (b mod 8) ?y"
    using byte_bounds [of "data v ! (b div 8)"]
    by (simp add: js_shr_def to_int32_id shift_count_self nat_mod_distrib)
  then have "js_and (js_shr ?y (int (b mod 8))) 1 = drop_bit (b mod 8) ?y mod 2"
    using js_and_mask [of 1] by simp
  also have "\<dots> = of_bool (bit ?y (b mod 8))"
    by (simp add: bit_iff_odd_drop_bit mod_2_eq_odd)
  finally show ?thesis
    by (simp add: yields_bit_def bit_at_def Let_def b bit_uint_iff)
qed

lemma indicesOfSetBits_eq: "indicesOfSetBits v = filter (bit_at (data v)) [0..<bitLength v]"
  unfolding indicesOfSetBits_def by (rule filter_cong) (simp_all add: yields_bit_iff)

lemma length_or_loop [simp]: "length (or_loop n d other) = length d"
  by (induction n) (auto simp: Let_def)

lemma nth_or_loop:
  "n \<le> length d \<Longrightarrow> k < length d \<Longrightarrow>
    or_loop n d other ! k = (if k < n then d ! k OR other ! k else d ! k)"
  by (induction n) (auto simp: Let_def nth_list_update less_Suc_eq)

lemma byteLength_le: "wf_bitvec v \<Longrightarrow> byteLength v \<le> length (data v)"
  by (simp add: byteLength_def wf_bitvec_def ceil_div_le_iff mult.commute)

lemma sumWith_bit_at:
  assumes "wf_bitvec v" "wf_bitvec w" "sumWith v w = Inr u" "i < bitLength v"
  shows "bit_at (data u) i = (bit_at (data v) i \<or> bit_at (data w) i)"
proof -
  have len: "bitLength w = bitLength v" and u: "data u = or_loop (byteLength v) (data v) (bv_raw w)"
    using assms(3) by (auto simp: sumWith_def)
  have "i div 8 < byteLength v"
    using assms(4) ceil_div_bounds(1) [of 8 "bitLength v"]
    by (simp add: byteLength_def less_mult_imp_div_less mult.commute)
  moreover have "byteLength w = byteLength v" using len by (simp add: byteLength_def)
  ultimately show ?thesis
    using byteLength_le [OF assms(1)] byteLength_le [OF assms(2)]
    by (simp add: bit_at_def u nth_or_loop bv_raw_def subarray_def bit_or_iff)
qed


end
