(* ===== verification/Natural.thy ===== *)
theory Natural
  imports Prelude
begin

text \<open>
  The abstract byte format of variable-length naturals, the serialisation \<open>E\<close> of the Gray Paper:
  the first byte tells by its leading ones how many bytes follow and carries the most significant
  bits. The encoder and the decoder are both proved against this one definition.
\<close>

text \<open>The number of bytes after the first: how many of the thresholds the number reaches.\<close>

definition extra_bytes :: "int \<Rightarrow> nat" where
  "extra_bytes n = length (filter (\<lambda>k. 2 ^ (7 * k) \<le> n) [1..<9])"

definition first_byte :: "nat \<Rightarrow> int \<Rightarrow> int" where
  "first_byte l n = 2 ^ 8 - 2 ^ (8 - l) + n div 2 ^ (8 * l)"

definition nat_bytes :: "int \<Rightarrow> byte list" where
  "nat_bytes n = word_of_int (first_byte (extra_bytes n) n) # le_bytes (extra_bytes n) n"

lemma length_nat_bytes [simp]: "length (nat_bytes n) = Suc (extra_bytes n)"
  by (simp add: nat_bytes_def)

lemma extra_bytesI:
  assumes "l \<le> 8" "l = 0 \<or> 2 ^ (7 * l) \<le> n" "l = 8 \<or> n < 2 ^ (7 * (l + 1))"
  shows "extra_bytes n = l"
proof -
  have "[1..<9] = [1..<Suc l] @ [Suc l..<9]"
    using assms(1) upt_add_eq_append [of 1 "Suc l" "8 - l"] by simp
  moreover have "filter (\<lambda>k. 2 ^ (7 * k) \<le> n) [1..<Suc l] = [1..<Suc l]"
  proof (rule filter_True, intro ballI)
    fix k assume k: "k \<in> set [1..<Suc l]"
    then have "(2 :: int) ^ (7 * k) \<le> 2 ^ (7 * l)" by (intro power_increasing) auto
    also have "\<dots> \<le> n" using assms(2) k by auto
    finally show "2 ^ (7 * k) \<le> n" .
  qed
  moreover have "filter (\<lambda>k. 2 ^ (7 * k) \<le> n) [Suc l..<9] = []"
  proof (rule filter_False, intro ballI)
    fix k assume k: "k \<in> set [Suc l..<9]"
    then have "(2 :: int) ^ (7 * (l + 1)) \<le> 2 ^ (7 * k)" by (intro power_increasing) auto
    moreover have "n < 2 ^ (7 * (l + 1))" using assms(3) k by auto
    ultimately show "\<not> 2 ^ (7 * k) \<le> n" by linarith
  qed
  ultimately show ?thesis by (simp add: extra_bytes_def)
qed

text \<open>Every number falls into exactly one of the nine ranges.\<close>

lemma last_threshold: "\<exists>l \<le> m. (l = 0 \<or> P l) \<and> (l = m \<or> \<not> P (Suc l))" for m :: nat
proof (induction m)
  case 0
  then show ?case by simp
next
  case (Suc m)
  then show ?case by (cases "P (Suc m)") (blast, metis le_SucI)
qed

lemma extra_bytes_cases:
  obtains l where "l \<le> 8" "extra_bytes n = l" "l = 0 \<or> 2 ^ (7 * l) \<le> n"
    "l = 8 \<or> n < 2 ^ (7 * (l + 1))"
proof -
  obtain l where "l \<le> 8" "l = 0 \<or> 2 ^ (7 * l) \<le> n" "l = 8 \<or> \<not> 2 ^ (7 * Suc l) \<le> n"
    using last_threshold [of 8 "\<lambda>l. 2 ^ (7 * l) \<le> n"] by blast
  then show thesis by (intro that [of l]) (auto intro: extra_bytesI)
qed

lemma extra_bytes_le: "extra_bytes n \<le> 8"
  using length_filter_le [of "\<lambda>k. 2 ^ (7 * k) \<le> n" "[1..<9]"] by (simp add: extra_bytes_def)

text \<open>What is left for the first byte fits below its leading ones.\<close>

lemma first_byte_payload:
  assumes "0 \<le> n" "n < 2 ^ 64"
  shows "2 * (n div 2 ^ (8 * extra_bytes n)) < 2 ^ (8 - extra_bytes n)"
proof -
  obtain l where l: "l \<le> 8" "extra_bytes n = l" "l = 8 \<or> n < 2 ^ (7 * (l + 1))"
    using extra_bytes_cases by metis
  show ?thesis
  proof (cases "l = 8")
    case True
    with l assms show ?thesis by simp
  next
    case False
    define a where "a = 7 - l"
    from False l have a: "8 - l = Suc a" "7 * (l + 1) = 8 * l + a" by (auto simp: a_def)
    have "(2 :: int) ^ (7 * (l + 1)) = 2 ^ a * 2 ^ (8 * l)"
      unfolding a(2) power_add by (rule mult.commute)
    with False l have "n < 2 ^ a * 2 ^ (8 * l)" by metis
    then have "n div 2 ^ (8 * l) < 2 ^ a" by (rule div_less_of_mult [rotated]) simp
    with l a show ?thesis by simp
  qed
qed

lemma first_byte_bounds:
  assumes "0 \<le> n" "n < 2 ^ 64"
  defines "l \<equiv> extra_bytes n"
  shows "2 ^ 8 - 2 ^ (8 - l) \<le> first_byte l n" "first_byte l n < 2 ^ 8"
    "2 * (2 ^ 8 - first_byte l n) > 2 ^ (8 - l)"
proof -
  define q where "q = n div 2 ^ (8 * l)"
  define X where "X = (2 :: int) ^ (8 - l)"
  have "0 \<le> q" using assms(1) by (simp add: q_def pos_imp_zdiv_nonneg_iff)
  moreover have "2 * q < X"
    unfolding l_def q_def X_def by (rule first_byte_payload [OF assms(1,2)])
  ultimately show "2 ^ 8 - 2 ^ (8 - l) \<le> first_byte l n" "first_byte l n < 2 ^ 8"
    "2 * (2 ^ 8 - first_byte l n) > 2 ^ (8 - l)"
    unfolding first_byte_def q_def [symmetric] X_def [symmetric] by auto
qed

lemma uint_first_byte:
  assumes "0 \<le> n" "n < 2 ^ 64"
  shows "uint (word_of_int (first_byte (extra_bytes n) n) :: byte) = first_byte (extra_bytes n) n"
proof -
  have "(2 :: int) ^ (8 - extra_bytes n) \<le> 2 ^ 8" by (intro power_increasing) auto
  then show ?thesis
    using first_byte_bounds [OF assms] by (simp add: uint_word8_of_int)
qed

text \<open>The format loses nothing: the payload and the following bytes give the number back.\<close>

lemma natural_value:
  "le_val (le_bytes l n) + 2 ^ (8 * l) * (first_byte l n + 2 ^ (8 - l) - 2 ^ 8) = n"
  by (simp add: first_byte_def le_val_le_bytes power_mult)

text \<open>Shorter numbers take fewer bytes: the encoding is never longer than needed.\<close>

lemma extra_bytes_mono: "m \<le> n \<Longrightarrow> extra_bytes m \<le> extra_bytes n"
proof -
  assume "m \<le> n"
  then have "filter (\<lambda>k. 2 ^ (7 * k) \<le> m) [1..<9] = filter (\<lambda>k. 2 ^ (7 * k) \<le> m) (filter (\<lambda>k. 2 ^ (7 * k) \<le> n) [1..<9])"
    by (auto simp: filter_filter intro!: filter_cong)
  then show ?thesis
    unfolding extra_bytes_def by (metis length_filter_le)
qed

end
