(* ===== verification/Decoder.thy ===== *)
theory Decoder
  imports Numbers Bitvec Natural
begin

text \<open>
  The decoder of \<open>packages/core/codec/decoder.ts\<close>: a source buffer and a read offset. A decoding
  function returns the value and the moved decoder, or throws. The opaque \<open>context\<close> handed to
  custom decoders is not modelled (none of the decoders here reads it). The specification of an
  operation is what it consumes: \<open>decodes f bs x\<close> says that wherever the bytes \<open>bs\<close> stand at the
  offset, \<open>f\<close> returns \<open>x\<close> and moves past exactly those bytes.
\<close>

unbundle bit_operations_syntax

record decoder =
  source :: "byte list"
  d_offset :: nat

type_synonym 'a decoding = "decoder \<Rightarrow> ('a \<times> decoder) throws"

definition dec_fromBlob :: "byte list \<Rightarrow> decoder" where
  "dec_fromBlob src = \<lparr>source = src, d_offset = 0\<rparr>"

definition dec_fromBytesBlob :: "byte list \<Rightarrow> nat option \<Rightarrow> decoder" where
  "dec_fromBytesBlob src offset =
     \<lparr>source = src, d_offset = (case offset of None \<Rightarrow> 0 | Some n \<Rightarrow> n)\<rparr>"

definition bytesRead :: "decoder \<Rightarrow> nat" where
  "bytesRead d = d_offset d"

definition remainingBytes :: "byte list decoding" where
  "remainingBytes d =
     (let bytes = drop (d_offset d) (source d)
      in Inr (bytes, d\<lparr>d_offset := d_offset d + length bytes\<rparr>))"

definition ensureHasBytes :: "int \<Rightarrow> decoder \<Rightarrow> unit throws" where
  "ensureHasBytes bytes d = check (bytes \<ge> 0)
     (if int (d_offset d) + bytes > int (length (source d)) then Inl EndOfDataError else Inr ())"

text \<open>The \<open>n\<close> source bytes at offset \<open>o\<close>, and the little-endian reads of the \<open>DataView\<close>.\<close>

definition view_bytes :: "decoder \<Rightarrow> nat \<Rightarrow> nat \<Rightarrow> byte list" where
  "view_bytes d off n = subarray (source d) off (off + n)"

definition getUint :: "nat \<Rightarrow> nat \<Rightarrow> decoder \<Rightarrow> int" where
  "getUint n off d = le_val (view_bytes d off n)"

definition getInt :: "nat \<Rightarrow> nat \<Rightarrow> decoder \<Rightarrow> int" where
  "getInt n off d = signed_take_bit (8 * n - 1) (getUint n off d)"

definition getNum :: "nat \<Rightarrow> (decoder \<Rightarrow> 'a) \<Rightarrow> 'a decoding" where
  "getNum bytes f d = bindE (ensureHasBytes (int bytes) d) (\<lambda>_.
     let num = f d in Inr (num, d\<lparr>d_offset := d_offset d + bytes\<rparr>))"

definition dec_i8 :: "int decoding" where "dec_i8 = getNum 1 (\<lambda>d. getInt 1 (d_offset d) d)"
definition dec_u8 :: "int decoding" where "dec_u8 = getNum 1 (\<lambda>d. getUint 1 (d_offset d) d)"
definition dec_i16 :: "int decoding" where "dec_i16 = getNum 2 (\<lambda>d. getInt 2 (d_offset d) d)"
definition dec_u16 :: "int decoding" where "dec_u16 = getNum 2 (\<lambda>d. getUint 2 (d_offset d) d)"
definition dec_i32 :: "int decoding" where "dec_i32 = getNum 4 (\<lambda>d. getInt 4 (d_offset d) d)"
definition dec_u32 :: "int decoding" where "dec_u32 = getNum 4 (\<lambda>d. getUint 4 (d_offset d) d)"
definition dec_i64 :: "int decoding" where "dec_i64 = getNum 8 (\<lambda>d. getInt 8 (d_offset d) d)"
definition dec_u64 :: "int decoding" where "dec_u64 = getNum 8 (\<lambda>d. getUint 8 (d_offset d) d)"

definition dec_u24 :: "int decoding" where
  "dec_u24 = getNum 3 (\<lambda>d.
     let num = getUint 1 (d_offset d) d
     in js_or num (js_shl (getUint 2 (d_offset d + 1) d) 8))"

definition dec_i24 :: "int decoding" where
  "dec_i24 d = bindE (dec_u24 d) (\<lambda>(num, d).
     Inr (if num \<ge> 2 ^ 23 then num - 2 ^ 24 else num, d))"

definition dec_bool :: "bool decoding" where
  "dec_bool d = bindE (dec_u8 d) (\<lambda>(num, d).
     if num = 0 then Inr (False, d) else if num = 1 then Inr (True, d) else Inl GenericError)"

definition MASKS :: "int list" where
  "MASKS = [0xff, 0xfe, 0xfc, 0xf8, 0xf0, 0xe0, 0xc0, 0x80]"

fun extraBytes_loop :: "int list \<Rightarrow> nat \<Rightarrow> int \<Rightarrow> nat" where
  "extraBytes_loop [] i firstByte = 0"
| "extraBytes_loop (m # ms) i firstByte =
     (if firstByte \<ge> m then 8 - i else extraBytes_loop ms (i + 1) firstByte)"

definition decodeVariableLengthExtraBytes :: "int \<Rightarrow> nat throws" where
  "decodeVariableLengthExtraBytes firstByte = check (firstByte \<ge> 0 \<and> firstByte < 256)
     (Inr (extraBytes_loop MASKS 0 firstByte))"

definition dec_varU32 :: "int decoding" where
  "dec_varU32 d =
     bindE (ensureHasBytes 1 d) (\<lambda>_.
     let firstByte = uint (source d ! d_offset d) in
     bindE (decodeVariableLengthExtraBytes firstByte) (\<lambda>l.
     let d = d\<lparr>d_offset := d_offset d + 1\<rparr> in
     if l = 0 then Inr (firstByte, d)
     else if l > 4 then Inl GenericError
     else
       bindE (ensureHasBytes (int l) d) (\<lambda>_.
       let mostSignificantByte = js_shl (firstByte + 2 ^ (8 - l) - 2 ^ 8) (int (l * 8)) in
       if l = 1 then bindE (dec_u8 d) (\<lambda>(v, d). Inr (mostSignificantByte + v, d))
       else if l = 2 then bindE (dec_u16 d) (\<lambda>(v, d). Inr (mostSignificantByte + v, d))
       else if l = 3 then bindE (dec_u24 d) (\<lambda>(v, d). Inr (mostSignificantByte + v, d))
       else if mostSignificantByte = 0 then dec_u32 d
       else Inl GenericError)))"

fun or_bytes :: "nat \<Rightarrow> byte list \<Rightarrow> int \<Rightarrow> int" where
  "or_bytes i [] num = num"
| "or_bytes i (b # bs) num = or_bytes (i + 1) bs (num OR push_bit (8 * i) (uint b))"

definition dec_varU64 :: "int decoding" where
  "dec_varU64 d =
     bindE (ensureHasBytes 1 d) (\<lambda>_.
     let firstByte = uint (source d ! d_offset d) in
     bindE (decodeVariableLengthExtraBytes firstByte) (\<lambda>l.
     let d = d\<lparr>d_offset := d_offset d + 1\<rparr> in
     if l = 0 then bindE (tryAsU64 firstByte) (\<lambda>v. Inr (v, d))
     else
       bindE (ensureHasBytes (int l) d) (\<lambda>_.
       let d = d\<lparr>d_offset := d_offset d + l\<rparr> in
       if l = 8 then bindE (tryAsU64 (getUint 8 (d_offset d - l) d)) (\<lambda>v. Inr (v, d))
       else
         let num = push_bit (8 * l) (firstByte + 2 ^ (8 - l) - 2 ^ 8);
             num = or_bytes 0 (view_bytes d (d_offset d - l) l) num
         in bindE (tryAsU64 num) (\<lambda>v. Inr (v, d)))))"

definition dec_bytes :: "nat \<Rightarrow> byte list decoding" where
  "dec_bytes len d =
     (if len = 0 then Inr ([], d)
      else bindE (ensureHasBytes (int len) d) (\<lambda>_.
        Inr (view_bytes d (d_offset d) len, d\<lparr>d_offset := d_offset d + len\<rparr>)))"

definition dec_bytesBlob :: "byte list decoding" where
  "dec_bytesBlob d = bindE (dec_varU32 d) (\<lambda>(len, d).
     bindE (ensureHasBytes len d) (\<lambda>_.
       Inr (view_bytes d (d_offset d) (nat len), d\<lparr>d_offset := d_offset d + nat len\<rparr>)))"

definition dec_bitVecFixLen :: "nat \<Rightarrow> bitvec decoding" where
  "dec_bitVecFixLen len d =
     (if len = 0 then bindE (empty_bitvec 0) (\<lambda>v. Inr (v, d))
      else
        let byteLen = ceil_div len 8 in
        bindE (dec_bytes byteLen d) (\<lambda>(bytes, d).
        let emptyBitsStart = len mod 8;
            lastByte = uint (bytes ! (byteLen - 1));
            emptyBits = js_shr lastByte (int emptyBitsStart)
        in if emptyBitsStart > 0 \<and> emptyBits > 0 then Inl GenericError
           else bindE (fromBlob bytes len) (\<lambda>v. Inr (v, d))))"

definition dec_bitVecVarLen :: "bitvec decoding" where
  "dec_bitVecVarLen d = bindE (dec_varU32 d) (\<lambda>(len, d). dec_bitVecFixLen (nat len) d)"

definition dec_object :: "'a decoding \<Rightarrow> 'a decoding" where
  "dec_object decode d = decode d"

definition dec_optional :: "'a decoding \<Rightarrow> 'a option decoding" where
  "dec_optional decode d = bindE (dec_bool d) (\<lambda>(isSet, d).
     if \<not> isSet then Inr (None, d) else bindE (decode d) (\<lambda>(x, d). Inr (Some x, d)))"

fun dec_sequenceFixLen :: "'a decoding \<Rightarrow> nat \<Rightarrow> 'a list decoding" where
  "dec_sequenceFixLen decode 0 d = Inr ([], d)"
| "dec_sequenceFixLen decode (Suc n) d = bindE (decode d) (\<lambda>(x, d).
     bindE (dec_sequenceFixLen decode n d) (\<lambda>(xs, d). Inr (x # xs, d)))"

definition dec_sequenceVarLen :: "'a decoding \<Rightarrow> 'a list decoding" where
  "dec_sequenceVarLen decode d = bindE (dec_varU32 d) (\<lambda>(len, d).
     dec_sequenceFixLen decode (nat len) d)"

definition skip :: "int \<Rightarrow> decoder \<Rightarrow> decoder throws" where
  "skip bytes d = bindE (ensureHasBytes bytes d) (\<lambda>_.
     Inr (d\<lparr>d_offset := d_offset d + nat bytes\<rparr>))"

definition resetTo :: "int \<Rightarrow> decoder \<Rightarrow> decoder throws" where
  "resetTo newOffset d =
     (if int (d_offset d) < newOffset then skip (newOffset - int (d_offset d)) d
      else check (newOffset \<ge> 0) (Inr (d\<lparr>d_offset := nat newOffset\<rparr>)))"

definition finish :: "decoder \<Rightarrow> unit throws" where
  "finish d = (if d_offset d < length (source d) then Inl GenericError else Inr ())"

definition decodeObject :: "'a decoding \<Rightarrow> byte list \<Rightarrow> 'a throws" where
  "decodeObject decode src = bindE (dec_object decode (dec_fromBlob src)) (\<lambda>(obj, d).
     bindE (finish d) (\<lambda>_. Inr obj))"

text \<open>
  \<open>Decoder.decodeSequence\<close> loops until the source is used up; with an element decoder that reads
  nothing it would loop forever, so the loop is partial.
\<close>

partial_function (option) decodeSequence_loop ::
    "'a decoding \<Rightarrow> 'a list \<Rightarrow> decoder \<Rightarrow> ('a list \<times> decoder) throws option" where
  "decodeSequence_loop decode seq d =
     (if bytesRead d < length (source d) then
        (case dec_object decode d of
           Inl err \<Rightarrow> Some (Inl err)
         | Inr (x, d) \<Rightarrow> decodeSequence_loop decode (seq @ [x]) d)
      else Some (Inr (seq, d)))"

definition decodeSequence :: "'a decoding \<Rightarrow> byte list \<Rightarrow> 'a list throws option" where
  "decodeSequence decode src =
     (case decodeSequence_loop decode [] (dec_fromBlob src) of
        None \<Rightarrow> None
      | Some r \<Rightarrow> Some (bindE r (\<lambda>(seq, d). bindE (finish d) (\<lambda>_. Inr seq))))"

section \<open>What an operation consumes\<close>

definition at :: "decoder \<Rightarrow> byte list \<Rightarrow> bool" where
  "at d bs \<longleftrightarrow> d_offset d + length bs \<le> length (source d) \<and> view_bytes d (d_offset d) (length bs) = bs"

definition adv :: "decoder \<Rightarrow> nat \<Rightarrow> decoder" where
  "adv d n = d\<lparr>d_offset := d_offset d + n\<rparr>"

definition decodes :: "'a decoding \<Rightarrow> byte list \<Rightarrow> 'a \<Rightarrow> bool" where
  "decodes f bs x \<longleftrightarrow> (\<forall>d. at d bs \<longrightarrow> f d = Inr (x, adv d (length bs)))"

lemma decodesI: "(\<And>d. at d bs \<Longrightarrow> f d = Inr (x, adv d (length bs))) \<Longrightarrow> decodes f bs x"
  by (simp add: decodes_def)

lemma decodesD: "decodes f bs x \<Longrightarrow> at d bs \<Longrightarrow> f d = Inr (x, adv d (length bs))"
  by (simp add: decodes_def)

lemma adv_simps [simp]: "source (adv d n) = source d" "d_offset (adv d n) = d_offset d + n"
  "adv (adv d m) n = adv d (m + n)" "adv d 0 = d"
  by (simp_all add: adv_def add.assoc)

lemma offset_update: "d\<lparr>d_offset := d_offset d + n\<rparr> = adv d n"
  by (simp add: adv_def)

lemma view_adv [simp]: "view_bytes (adv d m) off n = view_bytes d off n"
  by (simp add: view_bytes_def)

lemma at_iff: "at d bs \<longleftrightarrow>
    d_offset d \<le> length (source d) \<and> (\<exists>ys. drop (d_offset d) (source d) = bs @ ys)"
proof
  assume a: "at d bs"
  then have "bs @ drop (length bs) (drop (d_offset d) (source d)) = drop (d_offset d) (source d)"
    unfolding at_def view_bytes_def subarray_def by (metis add_diff_cancel_left' append_take_drop_id)
  with a show "d_offset d \<le> length (source d) \<and> (\<exists>ys. drop (d_offset d) (source d) = bs @ ys)"
    unfolding at_def by (metis le_add1 order_trans)
next
  assume a: "d_offset d \<le> length (source d) \<and> (\<exists>ys. drop (d_offset d) (source d) = bs @ ys)"
  then obtain ys where ys: "drop (d_offset d) (source d) = bs @ ys" by blast
  then have "length (source d) - d_offset d = length bs + length ys"
    by (metis length_append length_drop)
  with a ys show "at d bs" by (simp add: at_def view_bytes_def subarray_def)
qed

lemma at_append: "at d (bs @ cs) \<longleftrightarrow> at d bs \<and> at (adv d (length bs)) cs"
proof
  assume a: "at d (bs @ cs)"
  then obtain ys where ys: "drop (d_offset d) (source d) = bs @ cs @ ys" by (auto simp: at_iff)
  then have "drop (d_offset d + length bs) (source d) = cs @ ys"
    by (metis add.commute append_eq_conv_conj drop_drop)
  moreover have "d_offset d + length bs \<le> length (source d)" using a by (simp add: at_def)
  ultimately show "at d bs \<and> at (adv d (length bs)) cs"
    using ys by (simp add: at_iff)
next
  assume a: "at d bs \<and> at (adv d (length bs)) cs"
  then obtain ys zs where 1: "drop (d_offset d) (source d) = bs @ ys"
    and 2: "drop (d_offset d + length bs) (source d) = cs @ zs" by (auto simp: at_iff)
  from 1 have "drop (d_offset d + length bs) (source d) = ys"
    by (metis add.commute append_eq_conv_conj drop_drop)
  with a 1 2 show "at d (bs @ cs)" by (auto simp: at_iff)
qed

lemma at_Nil [simp]: "at d [] \<longleftrightarrow> d_offset d \<le> length (source d)"
  by (simp add: at_def view_bytes_def subarray_def)

lemma at_ConsD: "at d (b # bs) \<Longrightarrow> source d ! d_offset d = b \<and> at (adv d 1) bs"
proof -
  assume a: "at d (b # bs)"
  then obtain ys where ys: "drop (d_offset d) (source d) = b # bs @ ys" by (auto simp: at_iff)
  then have "d_offset d < length (source d)" by (metis drop_all linorder_not_le list.simps(3))
  then have "source d ! d_offset d = b" using ys by (metis hd_drop_conv_nth list.sel(1))
  with a at_append [of d "[b]" bs] show ?thesis by simp
qed

lemma ensure_at: "at d bs \<Longrightarrow> n \<le> length bs \<Longrightarrow> ensureHasBytes (int n) d = Inr ()"
  by (simp add: ensureHasBytes_def at_def)

lemma view_at: "at d bs \<Longrightarrow> view_bytes d (d_offset d) (length bs) = bs"
  by (simp add: at_def)

lemma getUint_at: "at d bs \<Longrightarrow> n = length bs \<Longrightarrow> getUint n (d_offset d) d = le_val bs"
  by (simp add: getUint_def view_at)

lemma getNum_decodes:
  assumes "\<And>d. at d bs \<Longrightarrow> f d = x" "length bs = n"
  shows "decodes (getNum n f) bs x"
  by (rule decodesI) (use assms in \<open>auto simp: getNum_def ensure_at Let_def offset_update\<close>)

text \<open>Sequencing.\<close>

lemma decodes_bind:
  assumes "decodes f bs x" "decodes (g x) cs y"
  shows "decodes (\<lambda>d. bindE (f d) (\<lambda>(x, d). g x d)) (bs @ cs) y"
  using assms by (auto simp: decodes_def at_append)

lemma decodes_return: "decodes f bs x \<Longrightarrow> decodes (\<lambda>d. bindE (f d) (\<lambda>(x, d). Inr (h x, d))) bs (h x)"
  by (simp add: decodes_def)

lemma decodes_cong: "decodes f bs x \<Longrightarrow> (\<And>d. g d = f d) \<Longrightarrow> decodes g bs x"
  by (simp add: decodes_def)

section \<open>The operations\<close>

lemma uint_decodes:
  "length bs = 1 \<Longrightarrow> decodes dec_u8 bs (le_val bs)"
  "length bs = 2 \<Longrightarrow> decodes dec_u16 bs (le_val bs)"
  "length bs = 4 \<Longrightarrow> decodes dec_u32 bs (le_val bs)"
  "length bs = 8 \<Longrightarrow> decodes dec_u64 bs (le_val bs)"
  unfolding dec_u8_def dec_u16_def dec_u32_def dec_u64_def
  by (auto intro!: getNum_decodes getUint_at)

lemma sint_decodes:
  "length bs = 1 \<Longrightarrow> decodes dec_i8 bs (signed_take_bit 7 (le_val bs))"
  "length bs = 2 \<Longrightarrow> decodes dec_i16 bs (signed_take_bit 15 (le_val bs))"
  "length bs = 4 \<Longrightarrow> decodes dec_i32 bs (signed_take_bit 31 (le_val bs))"
  "length bs = 8 \<Longrightarrow> decodes dec_i64 bs (signed_take_bit 63 (le_val bs))"
  unfolding dec_i8_def dec_i16_def dec_i32_def dec_i64_def
  by (auto intro!: getNum_decodes simp: getInt_def getUint_at)

lemma u24_decodes:
  assumes "length bs = 3"
  shows "decodes dec_u24 bs (le_val bs)"
  unfolding dec_u24_def
proof (rule getNum_decodes)
  fix d assume a: "at d bs"
  from assms obtain b0 b1 b2 where bs: "bs = [b0] @ [b1, b2]"
    by (auto simp: numeral_eq_Suc length_Suc_conv)
  from a have 0: "getUint 1 (d_offset d) d = uint b0" "getUint 2 (d_offset d + 1) d = le_val [b1, b2]"
    unfolding bs at_append using getUint_at [of d "[b0]" 1] getUint_at [of "adv d 1" "[b1, b2]" 2]
    by (auto simp: getUint_def)
  define v where "v = le_val [b1, b2]"
  have v: "0 \<le> v" "v < 2 ^ 16" using le_val_less [of "[b1, b2]"] by (simp_all add: v_def)
  have b: "0 \<le> uint b0" "uint b0 < 2 ^ 8" using byte_bounds [of b0] by simp_all
  have "js_shl v 8 = push_bit 8 v"
    using v by (simp add: js_shl_small push_bit_eq_mult)
  moreover have "to_int32 (uint b0) = uint b0" using b by (simp add: to_int32_id)
  moreover have "to_int32 (push_bit 8 v) = push_bit 8 v"
    using v by (intro to_int32_id) (simp_all add: push_bit_eq_mult)
  ultimately have "js_or (uint b0) (js_shl v 8) = uint b0 + 2 ^ 8 * v"
    using b by (simp add: js_or_def or_push_bit_eq_add)
  then show "(let num = getUint 1 (d_offset d) d
      in js_or num (js_shl (getUint 2 (d_offset d + 1) d) 8)) = le_val bs"
    unfolding 0 v_def bs by simp
qed (rule assms)

lemma bool_decodes: "decodes dec_bool [if b then 1 else 0] b"
proof (rule decodesI)
  fix d assume "at d [if b then 1 else 0]"
  then have "dec_u8 d = Inr (le_val [if b then 1 else 0], adv d 1)"
    using uint_decodes(1) [of "[if b then 1 else 0]"] by (auto dest: decodesD)
  then show "dec_bool d = Inr (b, adv d (length [if b then 1 else 0 :: byte]))"
    by (simp add: dec_bool_def)
qed

lemma bytes_decodes: "decodes (dec_bytes (length bs)) bs bs"
  by (rule decodesI) (auto simp: dec_bytes_def ensure_at view_at offset_update)

section \<open>Variable-length naturals\<close>

text \<open>The mask table finds the number of extra bytes from the leading ones.\<close>

lemma extraBytes_first_byte:
  assumes "l \<le> 8" "2 ^ 8 - 2 ^ (8 - l) \<le> f" "f < 2 ^ 8" "2 ^ (8 - l) < 2 * (2 ^ 8 - f)" "0 \<le> f"
  shows "decodeVariableLengthExtraBytes f = Inr l"
proof -
  have "l \<in> {0, 1, 2, 3, 4, 5, 6, 7, 8}" using assms(1) by auto
  with assms(2-) show ?thesis
    by (auto simp: decodeVariableLengthExtraBytes_def MASKS_def)
qed

lemma or_bytes_eq:
  "or_bytes i bs num = num OR push_bit (8 * i) (le_val bs)"
proof (induction i bs num rule: or_bytes.induct)
  case (1 i num)
  then show ?case by simp
next
  case (2 i b bs num)
  have "le_val (b # bs) = uint b OR push_bit 8 (le_val bs)"
    using byte_bounds [of b] by (subst or_push_bit_eq_add) auto
  then have "push_bit (8 * i) (le_val (b # bs)) =
      push_bit (8 * i) (uint b) OR push_bit (8 * i) (push_bit 8 (le_val bs))"
    by (simp only: push_bit_or)
  with 2 show ?case by (simp add: or.assoc add.commute)
qed

text \<open>What both decoders have in common: the prefix is read, the payload is what is left over.\<close>

lemma nat_prefix:
  assumes "0 \<le> n" "n < 2 ^ 64" "at d (nat_bytes n)"
  defines "l \<equiv> extra_bytes n"
  shows "ensureHasBytes 1 d = Inr ()"
    "uint (source d ! d_offset d) = first_byte l n"
    "decodeVariableLengthExtraBytes (first_byte l n) = Inr l"
    "at (adv d 1) (le_bytes l n)"
    "ensureHasBytes (int l) (adv d 1) = Inr ()"
    "view_bytes d (d_offset d + 1) l = le_bytes l n"
proof -
  have a: "source d ! d_offset d = word_of_int (first_byte l n) \<and> at (adv d 1) (le_bytes l n)"
    using assms(3) unfolding nat_bytes_def l_def by (rule at_ConsD)
  then show "at (adv d 1) (le_bytes l n)" by simp
  then show "ensureHasBytes (int l) (adv d 1) = Inr ()" by (rule ensure_at) simp
  show "view_bytes d (d_offset d + 1) l = le_bytes l n"
    using view_at [of "adv d 1" "le_bytes l n"] a by simp
  show "uint (source d ! d_offset d) = first_byte l n"
    using a uint_first_byte [OF assms(1,2)] by (simp add: l_def)
  show "ensureHasBytes 1 d = Inr ()"
    using ensure_at [OF assms(3), of 1] by simp
  have "(2 :: int) ^ (8 - l) \<le> 2 ^ 8" by (intro power_increasing) auto
  then show "decodeVariableLengthExtraBytes (first_byte l n) = Inr l"
    using first_byte_bounds [OF assms(1,2)] extra_bytes_le [of n]
    by (intro extraBytes_first_byte) (auto simp: l_def)
qed

lemma varU64_decodes:
  assumes "0 \<le> n" "n < 2 ^ 64"
  shows "decodes dec_varU64 (nat_bytes n) n"
proof (rule decodesI)
  fix d assume a: "at d (nat_bytes n)"
  define l where "l = extra_bytes n"
  note p = nat_prefix [OF assms a, folded l_def]
  have n: "tryAsU64 n = Inr n" using assms by (simp add: tryAs_Inr_iff)
  have l8: "l \<le> 8" unfolding l_def by (rule extra_bytes_le)
  have adv: "d\<lparr>d_offset := Suc (d_offset d)\<rparr> = adv d 1" by (simp add: adv_def)
  have val: "le_val (le_bytes l n) + 2 ^ (8 * l) * (first_byte l n + 2 ^ (8 - l) - 2 ^ 8) = n"
    by (rule natural_value)
  consider "l = 0" | "l = 8" | "l \<noteq> 0" "l \<noteq> 8" by blast
  then show "dec_varU64 d = Inr (n, adv d (length (nat_bytes n)))"
  proof cases
    case 1
    with val have "first_byte 0 n = n" by simp
    with 1 p n show ?thesis by (simp add: dec_varU64_def Let_def adv l_def [symmetric])
  next
    case 2
    then have "le_val (le_bytes 8 n) = n" using assms by (simp add: le_val_le_bytes)
    then have "getUint 8 (Suc (d_offset d)) d = n" using p(6) 2 by (simp add: getUint_def)
    with 2 p n show ?thesis
      by (simp add: dec_varU64_def Let_def adv l_def [symmetric] getUint_def)
         (simp add: adv_def view_bytes_def)
  next
    case 3
    have "0 \<le> le_val (le_bytes l n)" "le_val (le_bytes l n) < 2 ^ (8 * l)"
      using le_val_less [of "le_bytes l n"] by (simp_all add: power_mult)
    then have "push_bit (8 * l) (first_byte l n + 2 ^ (8 - l) - 2 ^ 8) OR le_val (le_bytes l n) = n"
      using val by (subst or.commute) (simp add: or_push_bit_eq_add)
    with 3 p n show ?thesis
      by (simp add: dec_varU64_def Let_def adv l_def [symmetric] or_bytes_eq)
         (simp add: adv_def view_bytes_def)
  qed
qed

lemma nat_bytes_u32_extra: "n < 2 ^ 32 \<Longrightarrow> extra_bytes n \<le> 4"
proof -
  assume "n < 2 ^ 32"
  then have "extra_bytes n \<le> extra_bytes (2 ^ 32)" by (intro extra_bytes_mono) auto
  also have "extra_bytes (2 ^ 32) = 4" by (rule extra_bytesI) auto
  finally show ?thesis .
qed

lemma varU32_decodes:
  assumes "0 \<le> n" "n < 2 ^ 32"
  shows "decodes dec_varU32 (nat_bytes n) n"
proof (rule decodesI)
  fix d assume a: "at d (nat_bytes n)"
  have n64: "n < 2 ^ 64" using assms by simp
  define l where "l = extra_bytes n"
  define q where "q = n div 2 ^ (8 * l)"
  note p = nat_prefix [OF assms(1) n64 a, folded l_def]
  have l4: "l \<le> 4" unfolding l_def by (rule nat_bytes_u32_extra [OF assms(2)])
  have adv: "d\<lparr>d_offset := Suc (d_offset d)\<rparr> = adv d 1" by (simp add: adv_def)
  have q: "first_byte l n + 2 ^ (8 - l) - 2 ^ 8 = q" by (simp add: first_byte_def q_def)
  have q0: "0 \<le> q" using assms by (simp add: q_def pos_imp_zdiv_nonneg_iff)
  have val: "le_val (le_bytes l n) + 2 ^ (8 * l) * q = n"
    using natural_value [of l n] unfolding q .
  have shl: "l < 4 \<Longrightarrow> js_shl q (int (l * 8)) = q * 2 ^ (8 * l)"
  proof -
    assume "l < 4"
    have "2 * q < 2 ^ (8 - l)"
      using first_byte_payload [OF assms(1) n64] by (simp add: q_def l_def)
    moreover have "l = 0 \<or> l = 1 \<or> l = 2 \<or> l = 3" using \<open>l < 4\<close> by auto
    ultimately show ?thesis
      using q0 by (auto intro: js_shl_small [THEN trans])
  qed
  have tail: "\<And>bs. decodes f (le_bytes l n) v \<Longrightarrow> f (adv d 1) = Inr (v, adv d (Suc l))" for f and v :: int
    using p(4) by (auto dest: decodesD)
  consider "l = 0" | "l = 1" | "l = 2" | "l = 3" | "l = 4" using l4 by linarith
  then show "dec_varU32 d = Inr (n, adv d (length (nat_bytes n)))"
  proof cases
    case 1
    with val q have "first_byte 0 n = n" by simp
    with 1 p show ?thesis by (simp add: dec_varU32_def Let_def adv l_def [symmetric])
  next
    case 2
    with p q shl val tail [OF uint_decodes(1)] show ?thesis
      by (simp add: dec_varU32_def Let_def adv l_def [symmetric] del: le_bytes.simps)
  next
    case 3
    with p q shl val tail [OF uint_decodes(2)] show ?thesis
      by (simp add: dec_varU32_def Let_def adv l_def [symmetric] del: le_bytes.simps)
  next
    case 4
    with p q shl val tail [OF u24_decodes] show ?thesis
      by (simp add: dec_varU32_def Let_def adv l_def [symmetric] del: le_bytes.simps)
  next
    case 5
    then have "q = 0" using assms by (simp add: q_def)
    with 5 p q val tail [OF uint_decodes(3)] show ?thesis
      by (simp add: dec_varU32_def Let_def adv l_def [symmetric] js_shl_def to_int32_def del: le_bytes.simps)
  qed
qed

lemma of_nat_less_u32: "k < 2 ^ 32 \<Longrightarrow> int k < 2 ^ 32"
  by (metis of_nat_less_iff of_nat_numeral of_nat_power)

lemma blob_decodes:
  assumes "length bs < 2 ^ 32"
  shows "decodes dec_bytesBlob (nat_bytes (int (length bs)) @ bs) bs"
  unfolding dec_bytesBlob_def
proof (rule decodes_bind)
  show "decodes dec_varU32 (nat_bytes (int (length bs))) (int (length bs))"
    using of_nat_less_u32 [OF assms] by (intro varU32_decodes) auto
  show "decodes (\<lambda>d. bindE (ensureHasBytes (int (length bs)) d) (\<lambda>_.
      Inr (view_bytes d (d_offset d) (nat (int (length bs))),
           d\<lparr>d_offset := d_offset d + nat (int (length bs))\<rparr>))) bs bs"
    by (rule decodesI) (simp add: ensure_at view_at offset_update)
qed

section \<open>Bit vectors\<close>

text \<open>No byte beyond the bit length, no bit set beyond it: what the decoder insists on.\<close>

definition canonical :: "bitvec \<Rightarrow> bool" where
  "canonical v \<longleftrightarrow> length (data v) = byteLength v \<and>
     (bitLength v mod 8 > 0 \<longrightarrow> uint (last (data v)) < 2 ^ (bitLength v mod 8))"

lemma js_shr_byte: "k < 8 \<Longrightarrow> js_shr (uint (b :: byte)) (int k) = uint b div 2 ^ k"
  using byte_bounds [of b] by (simp add: js_shr_small)

lemma bitVecFixLen_decodes:
  assumes "canonical v"
  shows "decodes (dec_bitVecFixLen (bitLength v)) (bv_raw v) v"
proof (rule decodesI)
  fix d assume a: "at d (bv_raw v)"
  have raw: "bv_raw v = data v"
    using assms by (simp add: bv_raw_def canonical_def subarray_def)
  show "dec_bitVecFixLen (bitLength v) d = Inr (v, adv d (length (bv_raw v)))"
  proof (cases "bitLength v = 0")
    case True
    then have "data v = []" using assms by (simp add: canonical_def byteLength_def)
    with True raw show ?thesis
      by (cases v) (simp add: dec_bitVecFixLen_def empty_bitvec_def new_bitvec_def)
  next
    case False
    let ?n = "ceil_div (bitLength v) 8"
    have n: "length (data v) = ?n" using assms by (simp add: canonical_def byteLength_def)
    have le: "bitLength v \<le> ?n * 8" using ceil_div_bounds(1) [of 8 "bitLength v"] by simp
    with False have pos: "0 < ?n" by (cases ?n) auto
    then have last: "data v ! (?n - 1) = last (data v)" using n by (subst last_conv_nth) auto
    have "dec_bytes ?n d = Inr (data v, adv d ?n)"
      using bytes_decodes [of "data v"] a raw n by (auto dest: decodesD)
    moreover have "\<not> (bitLength v mod 8 > 0 \<and> js_shr (uint (last (data v))) (int (bitLength v mod 8)) > 0)"
      using assms by (auto simp: canonical_def js_shr_byte div_pos_pos_trivial byte_bounds)
    ultimately show ?thesis
      using False n le raw
      by (simp add: dec_bitVecFixLen_def Let_def last [unfolded One_nat_def] fromBlob_def new_bitvec_def)
  qed
qed

lemma bitVecVarLen_decodes:
  assumes "canonical v" "bitLength v < 2 ^ 32"
  shows "decodes dec_bitVecVarLen (nat_bytes (int (bitLength v)) @ bv_raw v) v"
  unfolding dec_bitVecVarLen_def
  by (rule decodes_bind [OF varU32_decodes])
     (use assms of_nat_less_u32 [OF assms(2)] in \<open>simp_all add: bitVecFixLen_decodes\<close>)

section \<open>No read outside the source\<close>

definition moves :: "decoder \<Rightarrow> decoder \<Rightarrow> bool" where
  "moves d d' \<longleftrightarrow> source d' = source d \<and> d_offset d \<le> d_offset d' \<and>
     (d_offset d \<le> length (source d) \<longrightarrow> d_offset d' \<le> length (source d))"

definition bounded :: "'a decoding \<Rightarrow> bool" where
  "bounded f \<longleftrightarrow> (\<forall>d x d'. f d = Inr (x, d') \<longrightarrow> moves d d')"

lemma moves_refl [simp]: "moves d d"
  by (simp add: moves_def)

lemma moves_trans: "moves d d' \<Longrightarrow> moves d' d'' \<Longrightarrow> moves d d''"
  by (auto simp: moves_def)

lemma boundedI: "(\<And>d x d'. f d = Inr (x, d') \<Longrightarrow> moves d d') \<Longrightarrow> bounded f"
  unfolding bounded_def by blast

lemma boundedD: "bounded f \<Longrightarrow> f d = Inr (x, d') \<Longrightarrow> moves d d'"
  unfolding bounded_def by blast

lemma bounded_bind:
  assumes f: "bounded f" and g: "\<And>x. bounded (g x)"
  shows "bounded (\<lambda>d. bindE (f d) (\<lambda>(x, d). g x d))"
proof (rule boundedI)
  fix d y d'' assume "bindE (f d) (\<lambda>(x, d). g x d) = Inr (y, d'')"
  then obtain x d' where "f d = Inr (x, d')" "g x d' = Inr (y, d'')"
    by (auto simp: bindE_Inr_iff)
  then show "moves d d''" using boundedD [OF f] boundedD [OF g] by (metis moves_trans)
qed

lemma bounded_Inr: "bounded (\<lambda>d. Inr (x, d))"
  by (rule boundedI) auto

lemma bounded_Inl: "bounded (\<lambda>d. Inl e)"
  by (rule boundedI) auto

lemma bounded_throws: "bounded (\<lambda>d. bindE m (\<lambda>x. Inr (x, d)))"
  by (rule boundedI) (auto simp: bindE_Inr_iff)

lemma ensure_Inr: "ensureHasBytes n d = Inr u \<longleftrightarrow> 0 \<le> n \<and> int (d_offset d) + n \<le> int (length (source d))"
  by (auto simp: ensureHasBytes_def check_def)

lemma moves_adv: "ensureHasBytes n d = Inr u \<Longrightarrow> moves d (d\<lparr>d_offset := d_offset d + nat n\<rparr>)"
  by (auto simp: ensure_Inr moves_def)

lemma bounded_getNum: "bounded (getNum n f)"
  by (rule boundedI) (auto simp: getNum_def bindE_Inr_iff Let_def dest: moves_adv)

lemma bounded_ints: "bounded dec_u8" "bounded dec_u16" "bounded dec_u24" "bounded dec_u32"
  "bounded dec_u64" "bounded dec_i8" "bounded dec_i16" "bounded dec_i32" "bounded dec_i64"
  unfolding dec_u8_def dec_u16_def dec_u24_def dec_u32_def dec_u64_def dec_i8_def dec_i16_def
    dec_i32_def dec_i64_def
  by (rule bounded_getNum)+

lemma bounded_bool: "bounded dec_bool"
  unfolding dec_bool_def
  by (rule bounded_bind [OF bounded_ints(1)]) (auto intro: boundedI split: if_splits)

lemma bounded_bytes: "bounded (dec_bytes n)"
  by (rule boundedI) (auto simp: dec_bytes_def bindE_Inr_iff dest: moves_adv split: if_splits)

lemma bounded_map: "bounded f \<Longrightarrow> bounded (\<lambda>d. bindE (f d) (\<lambda>(x, d). Inr (h x, d)))"
  by (rule bounded_bind) (auto simp: bounded_Inr)

lemma bounded_varU32: "bounded dec_varU32"
proof (rule boundedI)
  fix d x d' assume r: "dec_varU32 d = Inr (x, d')"
  let ?d = "d\<lparr>d_offset := d_offset d + 1\<rparr>"
  from r have e: "ensureHasBytes 1 d = Inr ()" by (auto simp: dec_varU32_def bindE_Inr_iff)
  have m: "moves d ?d" using moves_adv [OF e] by simp
  have b: "bounded (\<lambda>d. bindE (dec_u8 d) (\<lambda>(v, d). Inr (m + v, d)))"
    "bounded (\<lambda>d. bindE (dec_u16 d) (\<lambda>(v, d). Inr (m + v, d)))"
    "bounded (\<lambda>d. bindE (dec_u24 d) (\<lambda>(v, d). Inr (m + v, d)))" "bounded dec_u32" for m
    by (intro bounded_map bounded_ints)+
  have "moves ?d d'"
    using r by (auto simp: dec_varU32_def Let_def bindE_Inr_iff split: if_splits
        dest: boundedD [OF bounded_ints(1)] boundedD [OF bounded_ints(2)]
          boundedD [OF bounded_ints(3)] boundedD [OF bounded_ints(4)])
  with m show "moves d d'" by (rule moves_trans)
qed

lemma bounded_varU64: "bounded dec_varU64"
proof (rule boundedI)
  fix d x d' assume r: "dec_varU64 d = Inr (x, d')"
  let ?d = "d\<lparr>d_offset := d_offset d + 1\<rparr>"
  from r have e: "ensureHasBytes 1 d = Inr ()" by (auto simp: dec_varU64_def bindE_Inr_iff)
  have m: "moves d ?d" using moves_adv [OF e] by simp
  have "moves ?d d'"
    using r by (auto simp: dec_varU64_def Let_def bindE_Inr_iff split: if_splits dest: moves_adv)
  with m show "moves d d'" by (rule moves_trans)
qed

lemma bounded_bytesBlob: "bounded dec_bytesBlob"
  unfolding dec_bytesBlob_def
  by (rule bounded_bind [OF bounded_varU32], rule boundedI) (auto simp: bindE_Inr_iff dest: moves_adv)

lemma bounded_if: "bounded f \<Longrightarrow> bounded g \<Longrightarrow> bounded (\<lambda>d. if c then f d else g d)"
  by (cases c) auto

lemma bounded_bitVecFixLen: "bounded (dec_bitVecFixLen n)"
proof (cases "n = 0")
  case True
  then show ?thesis by (auto intro!: boundedI simp: dec_bitVecFixLen_def bindE_Inr_iff)
next
  case False
  show ?thesis
    unfolding dec_bitVecFixLen_def Let_def if_not_P [OF False]
    by (intro bounded_bind bounded_bytes bounded_if bounded_Inl bounded_throws)
qed

lemma bounded_optional: "bounded f \<Longrightarrow> bounded (dec_optional f)"
  unfolding dec_optional_def
  by (intro bounded_bind [OF bounded_bool] bounded_if bounded_Inr bounded_map)

lemma bounded_sequenceFixLen: "bounded f \<Longrightarrow> bounded (dec_sequenceFixLen f n)"
proof (induction n)
  case 0
  show ?case by (rule boundedI) auto
next
  case (Suc n)
  then have "bounded (\<lambda>d. bindE (f d) (\<lambda>(x, d). bindE (dec_sequenceFixLen f n d) (\<lambda>(xs, d). Inr (x # xs, d))))"
    by (intro bounded_bind bounded_map) auto
  then show ?case by (simp add: bounded_def)
qed

lemma bounded_sequenceVarLen: "bounded f \<Longrightarrow> bounded (dec_sequenceVarLen f)"
  unfolding dec_sequenceVarLen_def
  by (intro bounded_bind [OF bounded_varU32] bounded_sequenceFixLen)

section \<open>Reading a whole source\<close>

text \<open>
  With an element decoder that never reads outside and always consumes at least one byte, the loop
  of \<open>decodeSequence\<close> returns: the measure is the number of bytes left.
\<close>

definition consumes :: "'a decoding \<Rightarrow> bool" where
  "consumes f \<longleftrightarrow> bounded f \<and> (\<forall>d x d'. f d = Inr (x, d') \<longrightarrow> d_offset d < d_offset d')"

lemma decodeSequence_loop_terminates:
  assumes "consumes f"
  shows "\<exists>r. decodeSequence_loop f seq d = Some r"
proof (induction "length (source d) - d_offset d" arbitrary: seq d rule: less_induct)
  case less
  show ?case
  proof (cases "bytesRead d < length (source d)")
    case False
    then show ?thesis by (subst decodeSequence_loop.simps) simp
  next
    case True
    show ?thesis
    proof (cases "f d")
      case (Inl err)
      with True show ?thesis
        by (subst decodeSequence_loop.simps) (simp add: dec_object_def)
    next
      case (Inr p)
      obtain x d' where p: "p = (x, d')" by (cases p)
      have "moves d d'" "d_offset d < d_offset d'"
        using assms Inr p by (auto simp: consumes_def dest: boundedD)
      then have "length (source d') - d_offset d' < length (source d) - d_offset d"
        using True by (auto simp: moves_def bytesRead_def)
      from less [OF this] show ?thesis
        using True Inr p by (subst decodeSequence_loop.simps) (simp add: dec_object_def)
    qed
  qed
qed


end
