(* ===== verification/Instructions.thy ===== *)
theory Instructions
  imports Prelude
begin

text \<open>
  The instruction set: the enumeration of \<open>instruction.ts\<close>, the gas table that
  \<open>assemblify.ts\<close> builds from one list per argument format, \<open>instruction-gas-map.ts\<close>, and the
  argument formats of \<open>argument-type.ts\<close> and \<open>instruction-argument-type-map.ts\<close>. The
  enumeration is numeric in the source and is indexed by raw code bytes, so an instruction is its
  number here as well; five names carry a prefix because the plain ones are operators of the
  logic. The tables are compared with each other at the end.
\<close>

section \<open>Opcodes\<close>

abbreviation (input) TRAP :: nat where "TRAP \<equiv> 0"
abbreviation (input) FALLTHROUGH :: nat where "FALLTHROUGH \<equiv> 1"
abbreviation (input) ECALLI :: nat where "ECALLI \<equiv> 10"
abbreviation (input) LOAD_IMM_64 :: nat where "LOAD_IMM_64 \<equiv> 20"
abbreviation (input) STORE_IMM_U8 :: nat where "STORE_IMM_U8 \<equiv> 30"
abbreviation (input) STORE_IMM_U16 :: nat where "STORE_IMM_U16 \<equiv> 31"
abbreviation (input) STORE_IMM_U32 :: nat where "STORE_IMM_U32 \<equiv> 32"
abbreviation (input) STORE_IMM_U64 :: nat where "STORE_IMM_U64 \<equiv> 33"
abbreviation (input) JUMP :: nat where "JUMP \<equiv> 40"
abbreviation (input) JUMP_IND :: nat where "JUMP_IND \<equiv> 50"
abbreviation (input) LOAD_IMM :: nat where "LOAD_IMM \<equiv> 51"
abbreviation (input) LOAD_U8 :: nat where "LOAD_U8 \<equiv> 52"
abbreviation (input) LOAD_I8 :: nat where "LOAD_I8 \<equiv> 53"
abbreviation (input) LOAD_U16 :: nat where "LOAD_U16 \<equiv> 54"
abbreviation (input) LOAD_I16 :: nat where "LOAD_I16 \<equiv> 55"
abbreviation (input) LOAD_U32 :: nat where "LOAD_U32 \<equiv> 56"
abbreviation (input) LOAD_I32 :: nat where "LOAD_I32 \<equiv> 57"
abbreviation (input) LOAD_U64 :: nat where "LOAD_U64 \<equiv> 58"
abbreviation (input) STORE_U8 :: nat where "STORE_U8 \<equiv> 59"
abbreviation (input) STORE_U16 :: nat where "STORE_U16 \<equiv> 60"
abbreviation (input) STORE_U32 :: nat where "STORE_U32 \<equiv> 61"
abbreviation (input) STORE_U64 :: nat where "STORE_U64 \<equiv> 62"
abbreviation (input) STORE_IMM_IND_U8 :: nat where "STORE_IMM_IND_U8 \<equiv> 70"
abbreviation (input) STORE_IMM_IND_U16 :: nat where "STORE_IMM_IND_U16 \<equiv> 71"
abbreviation (input) STORE_IMM_IND_U32 :: nat where "STORE_IMM_IND_U32 \<equiv> 72"
abbreviation (input) STORE_IMM_IND_U64 :: nat where "STORE_IMM_IND_U64 \<equiv> 73"
abbreviation (input) LOAD_IMM_JUMP :: nat where "LOAD_IMM_JUMP \<equiv> 80"
abbreviation (input) BRANCH_EQ_IMM :: nat where "BRANCH_EQ_IMM \<equiv> 81"
abbreviation (input) BRANCH_NE_IMM :: nat where "BRANCH_NE_IMM \<equiv> 82"
abbreviation (input) BRANCH_LT_U_IMM :: nat where "BRANCH_LT_U_IMM \<equiv> 83"
abbreviation (input) BRANCH_LE_U_IMM :: nat where "BRANCH_LE_U_IMM \<equiv> 84"
abbreviation (input) BRANCH_GE_U_IMM :: nat where "BRANCH_GE_U_IMM \<equiv> 85"
abbreviation (input) BRANCH_GT_U_IMM :: nat where "BRANCH_GT_U_IMM \<equiv> 86"
abbreviation (input) BRANCH_LT_S_IMM :: nat where "BRANCH_LT_S_IMM \<equiv> 87"
abbreviation (input) BRANCH_LE_S_IMM :: nat where "BRANCH_LE_S_IMM \<equiv> 88"
abbreviation (input) BRANCH_GE_S_IMM :: nat where "BRANCH_GE_S_IMM \<equiv> 89"
abbreviation (input) BRANCH_GT_S_IMM :: nat where "BRANCH_GT_S_IMM \<equiv> 90"
abbreviation (input) MOVE_REG :: nat where "MOVE_REG \<equiv> 100"
abbreviation (input) SBRK :: nat where "SBRK \<equiv> 101"
abbreviation (input) COUNT_SET_BITS_64 :: nat where "COUNT_SET_BITS_64 \<equiv> 102"
abbreviation (input) COUNT_SET_BITS_32 :: nat where "COUNT_SET_BITS_32 \<equiv> 103"
abbreviation (input) LEADING_ZERO_BITS_64 :: nat where "LEADING_ZERO_BITS_64 \<equiv> 104"
abbreviation (input) LEADING_ZERO_BITS_32 :: nat where "LEADING_ZERO_BITS_32 \<equiv> 105"
abbreviation (input) TRAILING_ZERO_BITS_64 :: nat where "TRAILING_ZERO_BITS_64 \<equiv> 106"
abbreviation (input) TRAILING_ZERO_BITS_32 :: nat where "TRAILING_ZERO_BITS_32 \<equiv> 107"
abbreviation (input) SIGN_EXTEND_8 :: nat where "SIGN_EXTEND_8 \<equiv> 108"
abbreviation (input) SIGN_EXTEND_16 :: nat where "SIGN_EXTEND_16 \<equiv> 109"
abbreviation (input) ZERO_EXTEND_16 :: nat where "ZERO_EXTEND_16 \<equiv> 110"
abbreviation (input) REVERSE_BYTES :: nat where "REVERSE_BYTES \<equiv> 111"
abbreviation (input) STORE_IND_U8 :: nat where "STORE_IND_U8 \<equiv> 120"
abbreviation (input) STORE_IND_U16 :: nat where "STORE_IND_U16 \<equiv> 121"
abbreviation (input) STORE_IND_U32 :: nat where "STORE_IND_U32 \<equiv> 122"
abbreviation (input) STORE_IND_U64 :: nat where "STORE_IND_U64 \<equiv> 123"
abbreviation (input) LOAD_IND_U8 :: nat where "LOAD_IND_U8 \<equiv> 124"
abbreviation (input) LOAD_IND_I8 :: nat where "LOAD_IND_I8 \<equiv> 125"
abbreviation (input) LOAD_IND_U16 :: nat where "LOAD_IND_U16 \<equiv> 126"
abbreviation (input) LOAD_IND_I16 :: nat where "LOAD_IND_I16 \<equiv> 127"
abbreviation (input) LOAD_IND_U32 :: nat where "LOAD_IND_U32 \<equiv> 128"
abbreviation (input) LOAD_IND_I32 :: nat where "LOAD_IND_I32 \<equiv> 129"
abbreviation (input) LOAD_IND_U64 :: nat where "LOAD_IND_U64 \<equiv> 130"
abbreviation (input) ADD_IMM_32 :: nat where "ADD_IMM_32 \<equiv> 131"
abbreviation (input) AND_IMM :: nat where "AND_IMM \<equiv> 132"
abbreviation (input) XOR_IMM :: nat where "XOR_IMM \<equiv> 133"
abbreviation (input) OR_IMM :: nat where "OR_IMM \<equiv> 134"
abbreviation (input) MUL_IMM_32 :: nat where "MUL_IMM_32 \<equiv> 135"
abbreviation (input) SET_LT_U_IMM :: nat where "SET_LT_U_IMM \<equiv> 136"
abbreviation (input) SET_LT_S_IMM :: nat where "SET_LT_S_IMM \<equiv> 137"
abbreviation (input) SHLO_L_IMM_32 :: nat where "SHLO_L_IMM_32 \<equiv> 138"
abbreviation (input) SHLO_R_IMM_32 :: nat where "SHLO_R_IMM_32 \<equiv> 139"
abbreviation (input) SHAR_R_IMM_32 :: nat where "SHAR_R_IMM_32 \<equiv> 140"
abbreviation (input) NEG_ADD_IMM_32 :: nat where "NEG_ADD_IMM_32 \<equiv> 141"
abbreviation (input) SET_GT_U_IMM :: nat where "SET_GT_U_IMM \<equiv> 142"
abbreviation (input) SET_GT_S_IMM :: nat where "SET_GT_S_IMM \<equiv> 143"
abbreviation (input) SHLO_L_IMM_ALT_32 :: nat where "SHLO_L_IMM_ALT_32 \<equiv> 144"
abbreviation (input) SHLO_R_IMM_ALT_32 :: nat where "SHLO_R_IMM_ALT_32 \<equiv> 145"
abbreviation (input) SHAR_R_IMM_ALT_32 :: nat where "SHAR_R_IMM_ALT_32 \<equiv> 146"
abbreviation (input) CMOV_IZ_IMM :: nat where "CMOV_IZ_IMM \<equiv> 147"
abbreviation (input) CMOV_NZ_IMM :: nat where "CMOV_NZ_IMM \<equiv> 148"
abbreviation (input) ADD_IMM_64 :: nat where "ADD_IMM_64 \<equiv> 149"
abbreviation (input) MUL_IMM_64 :: nat where "MUL_IMM_64 \<equiv> 150"
abbreviation (input) SHLO_L_IMM_64 :: nat where "SHLO_L_IMM_64 \<equiv> 151"
abbreviation (input) SHLO_R_IMM_64 :: nat where "SHLO_R_IMM_64 \<equiv> 152"
abbreviation (input) SHAR_R_IMM_64 :: nat where "SHAR_R_IMM_64 \<equiv> 153"
abbreviation (input) NEG_ADD_IMM_64 :: nat where "NEG_ADD_IMM_64 \<equiv> 154"
abbreviation (input) SHLO_L_IMM_ALT_64 :: nat where "SHLO_L_IMM_ALT_64 \<equiv> 155"
abbreviation (input) SHLO_R_IMM_ALT_64 :: nat where "SHLO_R_IMM_ALT_64 \<equiv> 156"
abbreviation (input) SHAR_R_IMM_ALT_64 :: nat where "SHAR_R_IMM_ALT_64 \<equiv> 157"
abbreviation (input) ROT_R_64_IMM :: nat where "ROT_R_64_IMM \<equiv> 158"
abbreviation (input) ROT_R_64_IMM_ALT :: nat where "ROT_R_64_IMM_ALT \<equiv> 159"
abbreviation (input) ROT_R_32_IMM :: nat where "ROT_R_32_IMM \<equiv> 160"
abbreviation (input) ROT_R_32_IMM_ALT :: nat where "ROT_R_32_IMM_ALT \<equiv> 161"
abbreviation (input) BRANCH_EQ :: nat where "BRANCH_EQ \<equiv> 170"
abbreviation (input) BRANCH_NE :: nat where "BRANCH_NE \<equiv> 171"
abbreviation (input) BRANCH_LT_U :: nat where "BRANCH_LT_U \<equiv> 172"
abbreviation (input) BRANCH_LT_S :: nat where "BRANCH_LT_S \<equiv> 173"
abbreviation (input) BRANCH_GE_U :: nat where "BRANCH_GE_U \<equiv> 174"
abbreviation (input) BRANCH_GE_S :: nat where "BRANCH_GE_S \<equiv> 175"
abbreviation (input) LOAD_IMM_JUMP_IND :: nat where "LOAD_IMM_JUMP_IND \<equiv> 180"
abbreviation (input) ADD_32 :: nat where "ADD_32 \<equiv> 190"
abbreviation (input) SUB_32 :: nat where "SUB_32 \<equiv> 191"
abbreviation (input) MUL_32 :: nat where "MUL_32 \<equiv> 192"
abbreviation (input) DIV_U_32 :: nat where "DIV_U_32 \<equiv> 193"
abbreviation (input) DIV_S_32 :: nat where "DIV_S_32 \<equiv> 194"
abbreviation (input) REM_U_32 :: nat where "REM_U_32 \<equiv> 195"
abbreviation (input) REM_S_32 :: nat where "REM_S_32 \<equiv> 196"
abbreviation (input) SHLO_L_32 :: nat where "SHLO_L_32 \<equiv> 197"
abbreviation (input) SHLO_R_32 :: nat where "SHLO_R_32 \<equiv> 198"
abbreviation (input) SHAR_R_32 :: nat where "SHAR_R_32 \<equiv> 199"
abbreviation (input) ADD_64 :: nat where "ADD_64 \<equiv> 200"
abbreviation (input) SUB_64 :: nat where "SUB_64 \<equiv> 201"
abbreviation (input) MUL_64 :: nat where "MUL_64 \<equiv> 202"
abbreviation (input) DIV_U_64 :: nat where "DIV_U_64 \<equiv> 203"
abbreviation (input) DIV_S_64 :: nat where "DIV_S_64 \<equiv> 204"
abbreviation (input) REM_U_64 :: nat where "REM_U_64 \<equiv> 205"
abbreviation (input) REM_S_64 :: nat where "REM_S_64 \<equiv> 206"
abbreviation (input) SHLO_L_64 :: nat where "SHLO_L_64 \<equiv> 207"
abbreviation (input) SHLO_R_64 :: nat where "SHLO_R_64 \<equiv> 208"
abbreviation (input) SHAR_R_64 :: nat where "SHAR_R_64 \<equiv> 209"
abbreviation (input) INSTR_AND :: nat where "INSTR_AND \<equiv> 210"
abbreviation (input) INSTR_XOR :: nat where "INSTR_XOR \<equiv> 211"
abbreviation (input) INSTR_OR :: nat where "INSTR_OR \<equiv> 212"
abbreviation (input) MUL_UPPER_S_S :: nat where "MUL_UPPER_S_S \<equiv> 213"
abbreviation (input) MUL_UPPER_U_U :: nat where "MUL_UPPER_U_U \<equiv> 214"
abbreviation (input) MUL_UPPER_S_U :: nat where "MUL_UPPER_S_U \<equiv> 215"
abbreviation (input) SET_LT_U :: nat where "SET_LT_U \<equiv> 216"
abbreviation (input) SET_LT_S :: nat where "SET_LT_S \<equiv> 217"
abbreviation (input) CMOV_IZ :: nat where "CMOV_IZ \<equiv> 218"
abbreviation (input) CMOV_NZ :: nat where "CMOV_NZ \<equiv> 219"
abbreviation (input) ROT_L_64 :: nat where "ROT_L_64 \<equiv> 220"
abbreviation (input) ROT_L_32 :: nat where "ROT_L_32 \<equiv> 221"
abbreviation (input) ROT_R_64 :: nat where "ROT_R_64 \<equiv> 222"
abbreviation (input) ROT_R_32 :: nat where "ROT_R_32 \<equiv> 223"
abbreviation (input) AND_INV :: nat where "AND_INV \<equiv> 224"
abbreviation (input) OR_INV :: nat where "OR_INV \<equiv> 225"
abbreviation (input) XNOR :: nat where "XNOR \<equiv> 226"
abbreviation (input) INSTR_MAX :: nat where "INSTR_MAX \<equiv> 227"
abbreviation (input) MAX_U :: nat where "MAX_U \<equiv> 228"
abbreviation (input) INSTR_MIN :: nat where "INSTR_MIN \<equiv> 229"
abbreviation (input) MIN_U :: nat where "MIN_U \<equiv> 230"

text \<open>The enumeration as the object TypeScript compiles it to: names to numbers.\<close>

definition instruction_enum :: "(string \<times> nat) list" where
  "instruction_enum = [
     (''TRAP'', TRAP), (''FALLTHROUGH'', FALLTHROUGH), (''ECALLI'', ECALLI),
     (''LOAD_IMM_64'', LOAD_IMM_64), (''STORE_IMM_U8'', STORE_IMM_U8),
     (''STORE_IMM_U16'', STORE_IMM_U16), (''STORE_IMM_U32'', STORE_IMM_U32),
     (''STORE_IMM_U64'', STORE_IMM_U64), (''JUMP'', JUMP), (''JUMP_IND'', JUMP_IND),
     (''LOAD_IMM'', LOAD_IMM), (''LOAD_U8'', LOAD_U8), (''LOAD_I8'', LOAD_I8),
     (''LOAD_U16'', LOAD_U16), (''LOAD_I16'', LOAD_I16), (''LOAD_U32'', LOAD_U32),
     (''LOAD_I32'', LOAD_I32), (''LOAD_U64'', LOAD_U64), (''STORE_U8'', STORE_U8),
     (''STORE_U16'', STORE_U16), (''STORE_U32'', STORE_U32), (''STORE_U64'', STORE_U64),
     (''STORE_IMM_IND_U8'', STORE_IMM_IND_U8), (''STORE_IMM_IND_U16'', STORE_IMM_IND_U16),
     (''STORE_IMM_IND_U32'', STORE_IMM_IND_U32), (''STORE_IMM_IND_U64'', STORE_IMM_IND_U64),
     (''LOAD_IMM_JUMP'', LOAD_IMM_JUMP), (''BRANCH_EQ_IMM'', BRANCH_EQ_IMM),
     (''BRANCH_NE_IMM'', BRANCH_NE_IMM), (''BRANCH_LT_U_IMM'', BRANCH_LT_U_IMM),
     (''BRANCH_LE_U_IMM'', BRANCH_LE_U_IMM), (''BRANCH_GE_U_IMM'', BRANCH_GE_U_IMM),
     (''BRANCH_GT_U_IMM'', BRANCH_GT_U_IMM), (''BRANCH_LT_S_IMM'', BRANCH_LT_S_IMM),
     (''BRANCH_LE_S_IMM'', BRANCH_LE_S_IMM), (''BRANCH_GE_S_IMM'', BRANCH_GE_S_IMM),
     (''BRANCH_GT_S_IMM'', BRANCH_GT_S_IMM), (''MOVE_REG'', MOVE_REG), (''SBRK'', SBRK),
     (''COUNT_SET_BITS_64'', COUNT_SET_BITS_64), (''COUNT_SET_BITS_32'', COUNT_SET_BITS_32),
     (''LEADING_ZERO_BITS_64'', LEADING_ZERO_BITS_64),
     (''LEADING_ZERO_BITS_32'', LEADING_ZERO_BITS_32),
     (''TRAILING_ZERO_BITS_64'', TRAILING_ZERO_BITS_64),
     (''TRAILING_ZERO_BITS_32'', TRAILING_ZERO_BITS_32), (''SIGN_EXTEND_8'', SIGN_EXTEND_8),
     (''SIGN_EXTEND_16'', SIGN_EXTEND_16), (''ZERO_EXTEND_16'', ZERO_EXTEND_16),
     (''REVERSE_BYTES'', REVERSE_BYTES), (''STORE_IND_U8'', STORE_IND_U8),
     (''STORE_IND_U16'', STORE_IND_U16), (''STORE_IND_U32'', STORE_IND_U32),
     (''STORE_IND_U64'', STORE_IND_U64), (''LOAD_IND_U8'', LOAD_IND_U8),
     (''LOAD_IND_I8'', LOAD_IND_I8), (''LOAD_IND_U16'', LOAD_IND_U16),
     (''LOAD_IND_I16'', LOAD_IND_I16), (''LOAD_IND_U32'', LOAD_IND_U32),
     (''LOAD_IND_I32'', LOAD_IND_I32), (''LOAD_IND_U64'', LOAD_IND_U64),
     (''ADD_IMM_32'', ADD_IMM_32), (''AND_IMM'', AND_IMM), (''XOR_IMM'', XOR_IMM),
     (''OR_IMM'', OR_IMM), (''MUL_IMM_32'', MUL_IMM_32), (''SET_LT_U_IMM'', SET_LT_U_IMM),
     (''SET_LT_S_IMM'', SET_LT_S_IMM), (''SHLO_L_IMM_32'', SHLO_L_IMM_32),
     (''SHLO_R_IMM_32'', SHLO_R_IMM_32), (''SHAR_R_IMM_32'', SHAR_R_IMM_32),
     (''NEG_ADD_IMM_32'', NEG_ADD_IMM_32), (''SET_GT_U_IMM'', SET_GT_U_IMM),
     (''SET_GT_S_IMM'', SET_GT_S_IMM), (''SHLO_L_IMM_ALT_32'', SHLO_L_IMM_ALT_32),
     (''SHLO_R_IMM_ALT_32'', SHLO_R_IMM_ALT_32), (''SHAR_R_IMM_ALT_32'', SHAR_R_IMM_ALT_32),
     (''CMOV_IZ_IMM'', CMOV_IZ_IMM), (''CMOV_NZ_IMM'', CMOV_NZ_IMM),
     (''ADD_IMM_64'', ADD_IMM_64), (''MUL_IMM_64'', MUL_IMM_64),
     (''SHLO_L_IMM_64'', SHLO_L_IMM_64), (''SHLO_R_IMM_64'', SHLO_R_IMM_64),
     (''SHAR_R_IMM_64'', SHAR_R_IMM_64), (''NEG_ADD_IMM_64'', NEG_ADD_IMM_64),
     (''SHLO_L_IMM_ALT_64'', SHLO_L_IMM_ALT_64), (''SHLO_R_IMM_ALT_64'', SHLO_R_IMM_ALT_64),
     (''SHAR_R_IMM_ALT_64'', SHAR_R_IMM_ALT_64), (''ROT_R_64_IMM'', ROT_R_64_IMM),
     (''ROT_R_64_IMM_ALT'', ROT_R_64_IMM_ALT), (''ROT_R_32_IMM'', ROT_R_32_IMM),
     (''ROT_R_32_IMM_ALT'', ROT_R_32_IMM_ALT), (''BRANCH_EQ'', BRANCH_EQ),
     (''BRANCH_NE'', BRANCH_NE), (''BRANCH_LT_U'', BRANCH_LT_U), (''BRANCH_LT_S'', BRANCH_LT_S),
     (''BRANCH_GE_U'', BRANCH_GE_U), (''BRANCH_GE_S'', BRANCH_GE_S),
     (''LOAD_IMM_JUMP_IND'', LOAD_IMM_JUMP_IND), (''ADD_32'', ADD_32), (''SUB_32'', SUB_32),
     (''MUL_32'', MUL_32), (''DIV_U_32'', DIV_U_32), (''DIV_S_32'', DIV_S_32),
     (''REM_U_32'', REM_U_32), (''REM_S_32'', REM_S_32), (''SHLO_L_32'', SHLO_L_32),
     (''SHLO_R_32'', SHLO_R_32), (''SHAR_R_32'', SHAR_R_32), (''ADD_64'', ADD_64),
     (''SUB_64'', SUB_64), (''MUL_64'', MUL_64), (''DIV_U_64'', DIV_U_64),
     (''DIV_S_64'', DIV_S_64), (''REM_U_64'', REM_U_64), (''REM_S_64'', REM_S_64),
     (''SHLO_L_64'', SHLO_L_64), (''SHLO_R_64'', SHLO_R_64), (''SHAR_R_64'', SHAR_R_64),
     (''AND'', INSTR_AND), (''XOR'', INSTR_XOR), (''OR'', INSTR_OR),
     (''MUL_UPPER_S_S'', MUL_UPPER_S_S), (''MUL_UPPER_U_U'', MUL_UPPER_U_U),
     (''MUL_UPPER_S_U'', MUL_UPPER_S_U), (''SET_LT_U'', SET_LT_U), (''SET_LT_S'', SET_LT_S),
     (''CMOV_IZ'', CMOV_IZ), (''CMOV_NZ'', CMOV_NZ), (''ROT_L_64'', ROT_L_64),
     (''ROT_L_32'', ROT_L_32), (''ROT_R_64'', ROT_R_64), (''ROT_R_32'', ROT_R_32),
     (''AND_INV'', AND_INV), (''OR_INV'', OR_INV), (''XNOR'', XNOR), (''MAX'', INSTR_MAX),
     (''MAX_U'', MAX_U), (''MIN'', INSTR_MIN), (''MIN_U'', MIN_U)]"

text \<open>\<open>Instruction[code]\<close>, the reverse mapping: the name of a code, or \<open>undefined\<close>.\<close>

definition instruction_name :: "nat \<Rightarrow> string option" where
  "instruction_name code = map_of (List.map (\<lambda>(n, c). (c, n)) instruction_enum) code"

definition HIGHEST_INSTRUCTION_NUMBER :: nat where "HIGHEST_INSTRUCTION_NUMBER = MIN_U"

section \<open>The gas table\<close>

definition instructionsWithoutArgs :: "(nat \<times> int) list" where
  "instructionsWithoutArgs = [
     (TRAP, 1), (FALLTHROUGH, 1)]"

definition instructionsWithOneImmediate :: "(nat \<times> int) list" where
  "instructionsWithOneImmediate = [
     (ECALLI, 1)]"

definition instructionsWithOneRegisterAndOneExtendedWidthImmediate :: "(nat \<times> int) list" where
  "instructionsWithOneRegisterAndOneExtendedWidthImmediate = [
     (LOAD_IMM_64, 1)]"

definition instructionsWithTwoImmediates :: "(nat \<times> int) list" where
  "instructionsWithTwoImmediates = [
     (STORE_IMM_U8, 1), (STORE_IMM_U16, 1), (STORE_IMM_U32, 1), (STORE_IMM_U64, 1)]"

definition instructionsWithOneOffset :: "(nat \<times> int) list" where
  "instructionsWithOneOffset = [
     (JUMP, 1)]"

definition instructionsWithOneRegisterAndOneImmediate :: "(nat \<times> int) list" where
  "instructionsWithOneRegisterAndOneImmediate = [
     (JUMP_IND, 1), (LOAD_IMM, 1), (LOAD_U8, 1), (LOAD_I8, 1), (LOAD_U16, 1), (LOAD_I16, 1),
     (LOAD_U32, 1), (LOAD_I32, 1), (LOAD_U64, 1), (STORE_U8, 1), (STORE_U16, 1), (STORE_U32, 1),
     (STORE_U64, 1)]"

definition instructionsWithOneRegisterAndTwoImmediate :: "(nat \<times> int) list" where
  "instructionsWithOneRegisterAndTwoImmediate = [
     (STORE_IMM_IND_U8, 1), (STORE_IMM_IND_U16, 1), (STORE_IMM_IND_U32, 1),
     (STORE_IMM_IND_U64, 1)]"

definition instructionsWithOneRegisterOneImmediateAndOneOffset :: "(nat \<times> int) list" where
  "instructionsWithOneRegisterOneImmediateAndOneOffset = [
     (LOAD_IMM_JUMP, 1), (BRANCH_EQ_IMM, 1), (BRANCH_NE_IMM, 1), (BRANCH_LT_U_IMM, 1),
     (BRANCH_LE_U_IMM, 1), (BRANCH_GE_U_IMM, 1), (BRANCH_GT_U_IMM, 1), (BRANCH_LT_S_IMM, 1),
     (BRANCH_LE_S_IMM, 1), (BRANCH_GE_S_IMM, 1), (BRANCH_GT_S_IMM, 1)]"

definition instructionsWithTwoRegisters :: "(nat \<times> int) list" where
  "instructionsWithTwoRegisters = [
     (MOVE_REG, 1), (SBRK, 1), (COUNT_SET_BITS_64, 1), (COUNT_SET_BITS_32, 1),
     (LEADING_ZERO_BITS_64, 1), (LEADING_ZERO_BITS_32, 1), (TRAILING_ZERO_BITS_64, 1),
     (TRAILING_ZERO_BITS_32, 1), (SIGN_EXTEND_8, 1), (SIGN_EXTEND_16, 1), (ZERO_EXTEND_16, 1),
     (REVERSE_BYTES, 1)]"

definition instructionsWithTwoRegistersAndOneImmediate :: "(nat \<times> int) list" where
  "instructionsWithTwoRegistersAndOneImmediate = [
     (STORE_IND_U8, 1), (STORE_IND_U16, 1), (STORE_IND_U32, 1), (STORE_IND_U64, 1),
     (LOAD_IND_U8, 1), (LOAD_IND_I8, 1), (LOAD_IND_U16, 1), (LOAD_IND_I16, 1),
     (LOAD_IND_U32, 1), (LOAD_IND_I32, 1), (LOAD_IND_U64, 1), (ADD_IMM_32, 1), (AND_IMM, 1),
     (XOR_IMM, 1), (OR_IMM, 1), (MUL_IMM_32, 1), (SET_LT_U_IMM, 1), (SET_LT_S_IMM, 1),
     (SHLO_L_IMM_32, 1), (SHLO_R_IMM_32, 1), (SHAR_R_IMM_32, 1), (NEG_ADD_IMM_32, 1),
     (SET_GT_U_IMM, 1), (SET_GT_S_IMM, 1), (SHLO_L_IMM_ALT_32, 1), (SHLO_R_IMM_ALT_32, 1),
     (SHAR_R_IMM_ALT_32, 1), (CMOV_IZ_IMM, 1), (CMOV_NZ_IMM, 1), (ADD_IMM_64, 1),
     (MUL_IMM_64, 1), (SHLO_L_IMM_64, 1), (SHLO_R_IMM_64, 1), (SHAR_R_IMM_64, 1),
     (NEG_ADD_IMM_64, 1), (SHLO_L_IMM_ALT_64, 1), (SHLO_R_IMM_ALT_64, 1),
     (SHAR_R_IMM_ALT_64, 1), (ROT_R_64_IMM, 1), (ROT_R_64_IMM_ALT, 1), (ROT_R_32_IMM, 1),
     (ROT_R_32_IMM_ALT, 1)]"

definition instructionsWithTwoRegistersAndOneOffset :: "(nat \<times> int) list" where
  "instructionsWithTwoRegistersAndOneOffset = [
     (BRANCH_EQ, 1), (BRANCH_NE, 1), (BRANCH_LT_U, 1), (BRANCH_LT_S, 1), (BRANCH_GE_U, 1),
     (BRANCH_GE_S, 1)]"

definition instructionWithTwoRegistersAndTwoImmediates :: "(nat \<times> int) list" where
  "instructionWithTwoRegistersAndTwoImmediates = [
     (LOAD_IMM_JUMP_IND, 1)]"

definition instructionsWithThreeRegisters :: "(nat \<times> int) list" where
  "instructionsWithThreeRegisters = [
     (ADD_32, 1), (SUB_32, 1), (MUL_32, 1), (DIV_U_32, 1), (DIV_S_32, 1), (REM_U_32, 1),
     (REM_S_32, 1), (SHLO_L_32, 1), (SHLO_R_32, 1), (SHAR_R_32, 1), (ADD_64, 1), (SUB_64, 1),
     (MUL_64, 1), (DIV_U_64, 1), (DIV_S_64, 1), (REM_U_64, 1), (REM_S_64, 1), (SHLO_L_64, 1),
     (SHLO_R_64, 1), (SHAR_R_64, 1), (INSTR_AND, 1), (INSTR_XOR, 1), (INSTR_OR, 1),
     (MUL_UPPER_S_S, 1), (MUL_UPPER_U_U, 1), (MUL_UPPER_S_U, 1), (SET_LT_U, 1), (SET_LT_S, 1),
     (CMOV_IZ, 1), (CMOV_NZ, 1), (ROT_L_64, 1), (ROT_L_32, 1), (ROT_R_64, 1), (ROT_R_32, 1),
     (AND_INV, 1), (OR_INV, 1), (XNOR, 1), (INSTR_MAX, 1), (MAX_U, 1), (INSTR_MIN, 1),
     (MIN_U, 1)]"

definition instructions :: "(nat \<times> int) list" where
  "instructions =
     instructionsWithoutArgs @
     instructionsWithOneImmediate @
     instructionsWithOneRegisterAndOneExtendedWidthImmediate @
     instructionsWithTwoImmediates @
     instructionsWithOneOffset @
     instructionsWithOneRegisterAndOneImmediate @
     instructionsWithOneRegisterAndTwoImmediate @
     instructionsWithOneRegisterOneImmediateAndOneOffset @
     instructionsWithTwoRegisters @
     instructionsWithTwoRegistersAndOneImmediate @
     instructionsWithTwoRegistersAndOneOffset @
     instructionWithTwoRegistersAndTwoImmediates @
     instructionsWithThreeRegisters"

text \<open>\<open>byteToOpCodeMap\<close>: the reduction of the list into an object, later entries winning.\<close>

definition byteToOpCodeMap :: "nat \<rightharpoonup> int" where
  "byteToOpCodeMap = foldl (\<lambda>acc (byte, gas). acc(byte \<mapsto> gas)) Map.empty instructions"

definition instructionGasMap :: "nat \<rightharpoonup> int" where
  "instructionGasMap i = (if i < HIGHEST_INSTRUCTION_NUMBER + 1 then byteToOpCodeMap i else None)"

section \<open>Argument formats\<close>

datatype argument_type =
    NO_ARGUMENTS
  | ONE_IMMEDIATE
  | TWO_IMMEDIATES
  | ONE_OFFSET
  | ONE_REGISTER_ONE_IMMEDIATE
  | ONE_REGISTER_TWO_IMMEDIATES
  | ONE_REGISTER_ONE_IMMEDIATE_ONE_OFFSET
  | TWO_REGISTERS
  | TWO_REGISTERS_ONE_IMMEDIATE
  | TWO_REGISTERS_ONE_OFFSET
  | TWO_REGISTERS_TWO_IMMEDIATES
  | THREE_REGISTERS
  | ONE_REGISTER_ONE_EXTENDED_WIDTH_IMMEDIATE

definition format_table :: "(nat \<times> argument_type) list" where
  "format_table = [
     (TRAP, NO_ARGUMENTS), (FALLTHROUGH, NO_ARGUMENTS), (ECALLI, ONE_IMMEDIATE),
     (LOAD_IMM_64, ONE_REGISTER_ONE_EXTENDED_WIDTH_IMMEDIATE), (STORE_IMM_U8, TWO_IMMEDIATES),
     (STORE_IMM_U16, TWO_IMMEDIATES), (STORE_IMM_U32, TWO_IMMEDIATES),
     (STORE_IMM_U64, TWO_IMMEDIATES), (JUMP, ONE_OFFSET),
     (JUMP_IND, ONE_REGISTER_ONE_IMMEDIATE), (LOAD_IMM, ONE_REGISTER_ONE_IMMEDIATE),
     (LOAD_U8, ONE_REGISTER_ONE_IMMEDIATE), (LOAD_I8, ONE_REGISTER_ONE_IMMEDIATE),
     (LOAD_U16, ONE_REGISTER_ONE_IMMEDIATE), (LOAD_I16, ONE_REGISTER_ONE_IMMEDIATE),
     (LOAD_U32, ONE_REGISTER_ONE_IMMEDIATE), (LOAD_I32, ONE_REGISTER_ONE_IMMEDIATE),
     (LOAD_U64, ONE_REGISTER_ONE_IMMEDIATE), (STORE_U8, ONE_REGISTER_ONE_IMMEDIATE),
     (STORE_U16, ONE_REGISTER_ONE_IMMEDIATE), (STORE_U32, ONE_REGISTER_ONE_IMMEDIATE),
     (STORE_U64, ONE_REGISTER_ONE_IMMEDIATE), (STORE_IMM_IND_U8, ONE_REGISTER_TWO_IMMEDIATES),
     (STORE_IMM_IND_U16, ONE_REGISTER_TWO_IMMEDIATES),
     (STORE_IMM_IND_U32, ONE_REGISTER_TWO_IMMEDIATES),
     (STORE_IMM_IND_U64, ONE_REGISTER_TWO_IMMEDIATES),
     (LOAD_IMM_JUMP, ONE_REGISTER_ONE_IMMEDIATE_ONE_OFFSET),
     (BRANCH_EQ_IMM, ONE_REGISTER_ONE_IMMEDIATE_ONE_OFFSET),
     (BRANCH_NE_IMM, ONE_REGISTER_ONE_IMMEDIATE_ONE_OFFSET),
     (BRANCH_LT_U_IMM, ONE_REGISTER_ONE_IMMEDIATE_ONE_OFFSET),
     (BRANCH_LE_U_IMM, ONE_REGISTER_ONE_IMMEDIATE_ONE_OFFSET),
     (BRANCH_GE_U_IMM, ONE_REGISTER_ONE_IMMEDIATE_ONE_OFFSET),
     (BRANCH_GT_U_IMM, ONE_REGISTER_ONE_IMMEDIATE_ONE_OFFSET),
     (BRANCH_LT_S_IMM, ONE_REGISTER_ONE_IMMEDIATE_ONE_OFFSET),
     (BRANCH_LE_S_IMM, ONE_REGISTER_ONE_IMMEDIATE_ONE_OFFSET),
     (BRANCH_GE_S_IMM, ONE_REGISTER_ONE_IMMEDIATE_ONE_OFFSET),
     (BRANCH_GT_S_IMM, ONE_REGISTER_ONE_IMMEDIATE_ONE_OFFSET), (MOVE_REG, TWO_REGISTERS),
     (SBRK, TWO_REGISTERS), (COUNT_SET_BITS_64, TWO_REGISTERS),
     (COUNT_SET_BITS_32, TWO_REGISTERS), (LEADING_ZERO_BITS_64, TWO_REGISTERS),
     (LEADING_ZERO_BITS_32, TWO_REGISTERS), (TRAILING_ZERO_BITS_64, TWO_REGISTERS),
     (TRAILING_ZERO_BITS_32, TWO_REGISTERS), (SIGN_EXTEND_8, TWO_REGISTERS),
     (SIGN_EXTEND_16, TWO_REGISTERS), (ZERO_EXTEND_16, TWO_REGISTERS),
     (REVERSE_BYTES, TWO_REGISTERS), (STORE_IND_U8, TWO_REGISTERS_ONE_IMMEDIATE),
     (STORE_IND_U16, TWO_REGISTERS_ONE_IMMEDIATE), (STORE_IND_U32, TWO_REGISTERS_ONE_IMMEDIATE),
     (STORE_IND_U64, TWO_REGISTERS_ONE_IMMEDIATE), (LOAD_IND_U8, TWO_REGISTERS_ONE_IMMEDIATE),
     (LOAD_IND_I8, TWO_REGISTERS_ONE_IMMEDIATE), (LOAD_IND_U16, TWO_REGISTERS_ONE_IMMEDIATE),
     (LOAD_IND_I16, TWO_REGISTERS_ONE_IMMEDIATE), (LOAD_IND_U32, TWO_REGISTERS_ONE_IMMEDIATE),
     (LOAD_IND_I32, TWO_REGISTERS_ONE_IMMEDIATE), (LOAD_IND_U64, TWO_REGISTERS_ONE_IMMEDIATE),
     (ADD_IMM_32, TWO_REGISTERS_ONE_IMMEDIATE), (ADD_IMM_64, TWO_REGISTERS_ONE_IMMEDIATE),
     (AND_IMM, TWO_REGISTERS_ONE_IMMEDIATE), (XOR_IMM, TWO_REGISTERS_ONE_IMMEDIATE),
     (OR_IMM, TWO_REGISTERS_ONE_IMMEDIATE), (MUL_IMM_32, TWO_REGISTERS_ONE_IMMEDIATE),
     (MUL_IMM_64, TWO_REGISTERS_ONE_IMMEDIATE), (SET_LT_U_IMM, TWO_REGISTERS_ONE_IMMEDIATE),
     (SET_LT_S_IMM, TWO_REGISTERS_ONE_IMMEDIATE), (SHLO_L_IMM_32, TWO_REGISTERS_ONE_IMMEDIATE),
     (SHLO_R_IMM_32, TWO_REGISTERS_ONE_IMMEDIATE), (SHAR_R_IMM_32, TWO_REGISTERS_ONE_IMMEDIATE),
     (NEG_ADD_IMM_32, TWO_REGISTERS_ONE_IMMEDIATE),
     (SHLO_L_IMM_64, TWO_REGISTERS_ONE_IMMEDIATE), (SHLO_R_IMM_64, TWO_REGISTERS_ONE_IMMEDIATE),
     (SHAR_R_IMM_64, TWO_REGISTERS_ONE_IMMEDIATE),
     (NEG_ADD_IMM_64, TWO_REGISTERS_ONE_IMMEDIATE), (SET_GT_U_IMM, TWO_REGISTERS_ONE_IMMEDIATE),
     (SET_GT_S_IMM, TWO_REGISTERS_ONE_IMMEDIATE),
     (SHLO_L_IMM_ALT_32, TWO_REGISTERS_ONE_IMMEDIATE),
     (SHLO_R_IMM_ALT_32, TWO_REGISTERS_ONE_IMMEDIATE),
     (SHAR_R_IMM_ALT_32, TWO_REGISTERS_ONE_IMMEDIATE),
     (SHLO_L_IMM_ALT_64, TWO_REGISTERS_ONE_IMMEDIATE),
     (SHLO_R_IMM_ALT_64, TWO_REGISTERS_ONE_IMMEDIATE),
     (SHAR_R_IMM_ALT_64, TWO_REGISTERS_ONE_IMMEDIATE),
     (CMOV_IZ_IMM, TWO_REGISTERS_ONE_IMMEDIATE), (CMOV_NZ_IMM, TWO_REGISTERS_ONE_IMMEDIATE),
     (ROT_R_64_IMM, TWO_REGISTERS_ONE_IMMEDIATE),
     (ROT_R_64_IMM_ALT, TWO_REGISTERS_ONE_IMMEDIATE),
     (ROT_R_32_IMM, TWO_REGISTERS_ONE_IMMEDIATE),
     (ROT_R_32_IMM_ALT, TWO_REGISTERS_ONE_IMMEDIATE), (BRANCH_EQ, TWO_REGISTERS_ONE_OFFSET),
     (BRANCH_NE, TWO_REGISTERS_ONE_OFFSET), (BRANCH_LT_U, TWO_REGISTERS_ONE_OFFSET),
     (BRANCH_LT_S, TWO_REGISTERS_ONE_OFFSET), (BRANCH_GE_U, TWO_REGISTERS_ONE_OFFSET),
     (BRANCH_GE_S, TWO_REGISTERS_ONE_OFFSET), (LOAD_IMM_JUMP_IND, TWO_REGISTERS_TWO_IMMEDIATES),
     (ADD_32, THREE_REGISTERS), (ADD_64, THREE_REGISTERS), (SUB_32, THREE_REGISTERS),
     (SUB_64, THREE_REGISTERS), (INSTR_AND, THREE_REGISTERS), (INSTR_XOR, THREE_REGISTERS),
     (INSTR_OR, THREE_REGISTERS), (MUL_32, THREE_REGISTERS), (MUL_64, THREE_REGISTERS),
     (MUL_UPPER_S_S, THREE_REGISTERS), (MUL_UPPER_U_U, THREE_REGISTERS),
     (MUL_UPPER_S_U, THREE_REGISTERS), (DIV_U_32, THREE_REGISTERS), (DIV_S_32, THREE_REGISTERS),
     (REM_U_32, THREE_REGISTERS), (REM_S_32, THREE_REGISTERS), (DIV_U_64, THREE_REGISTERS),
     (DIV_S_64, THREE_REGISTERS), (REM_U_64, THREE_REGISTERS), (REM_S_64, THREE_REGISTERS),
     (SET_LT_U, THREE_REGISTERS), (SET_LT_S, THREE_REGISTERS), (SHLO_L_32, THREE_REGISTERS),
     (SHLO_R_32, THREE_REGISTERS), (SHAR_R_32, THREE_REGISTERS), (SHLO_L_64, THREE_REGISTERS),
     (SHLO_R_64, THREE_REGISTERS), (SHAR_R_64, THREE_REGISTERS), (CMOV_IZ, THREE_REGISTERS),
     (CMOV_NZ, THREE_REGISTERS), (ROT_L_64, THREE_REGISTERS), (ROT_L_32, THREE_REGISTERS),
     (ROT_R_64, THREE_REGISTERS), (ROT_R_32, THREE_REGISTERS), (AND_INV, THREE_REGISTERS),
     (OR_INV, THREE_REGISTERS), (XNOR, THREE_REGISTERS), (INSTR_MAX, THREE_REGISTERS),
     (MAX_U, THREE_REGISTERS), (INSTR_MIN, THREE_REGISTERS), (MIN_U, THREE_REGISTERS)]"

definition instructionArgumentTypeMap :: "nat \<rightharpoonup> argument_type" where
  "instructionArgumentTypeMap = map_of format_table"

section \<open>The tables agree\<close>

text \<open>The format under which \<open>assemblify.ts\<close> lists an instruction.\<close>

definition listed_formats :: "(nat \<times> argument_type) list" where
  "listed_formats =
     concat (List.map (\<lambda>(is, t). List.map (\<lambda>(i, _). (i, t)) is)
       [(instructionsWithoutArgs, NO_ARGUMENTS),
        (instructionsWithOneImmediate, ONE_IMMEDIATE),
        (instructionsWithOneRegisterAndOneExtendedWidthImmediate,
           ONE_REGISTER_ONE_EXTENDED_WIDTH_IMMEDIATE),
        (instructionsWithTwoImmediates, TWO_IMMEDIATES),
        (instructionsWithOneOffset, ONE_OFFSET),
        (instructionsWithOneRegisterAndOneImmediate, ONE_REGISTER_ONE_IMMEDIATE),
        (instructionsWithOneRegisterAndTwoImmediate, ONE_REGISTER_TWO_IMMEDIATES),
        (instructionsWithOneRegisterOneImmediateAndOneOffset,
           ONE_REGISTER_ONE_IMMEDIATE_ONE_OFFSET),
        (instructionsWithTwoRegisters, TWO_REGISTERS),
        (instructionsWithTwoRegistersAndOneImmediate, TWO_REGISTERS_ONE_IMMEDIATE),
        (instructionsWithTwoRegistersAndOneOffset, TWO_REGISTERS_ONE_OFFSET),
        (instructionWithTwoRegistersAndTwoImmediates, TWO_REGISTERS_TWO_IMMEDIATES),
        (instructionsWithThreeRegisters, THREE_REGISTERS)])"

lemmas instruction_lists = instructionsWithoutArgs_def instructionsWithOneImmediate_def
  instructionsWithOneRegisterAndOneExtendedWidthImmediate_def instructionsWithTwoImmediates_def
  instructionsWithOneOffset_def instructionsWithOneRegisterAndOneImmediate_def
  instructionsWithOneRegisterAndTwoImmediate_def
  instructionsWithOneRegisterOneImmediateAndOneOffset_def instructionsWithTwoRegisters_def
  instructionsWithTwoRegistersAndOneImmediate_def instructionsWithTwoRegistersAndOneOffset_def
  instructionWithTwoRegistersAndTwoImmediates_def instructionsWithThreeRegisters_def

lemma listed_opcodes: "List.map fst listed_formats = List.map snd instruction_enum"
  by (simp add: listed_formats_def instruction_lists instruction_enum_def)

lemma distinct_opcodes: "distinct (List.map snd instruction_enum)"
  by (simp add: instruction_enum_def)

definition opcodes :: "nat list" where
  "opcodes = List.map snd instruction_enum"

lemma length_formats:
  "length instruction_enum = 139" "length listed_formats = 139" "length instructions = 139"
  by (simp_all add: instruction_enum_def listed_formats_def instructions_def instruction_lists)

text \<open>Every code is a byte and none exceeds the highest one.\<close>

lemma opcodes_le: "c \<in> set opcodes \<Longrightarrow> c \<le> HIGHEST_INSTRUCTION_NUMBER"
  by (simp add: opcodes_def instruction_enum_def HIGHEST_INSTRUCTION_NUMBER_def) auto

lemma instructions_eq: "instructions = List.map (\<lambda>(i, _). (i, 1)) listed_formats"
  by (simp add: instructions_def listed_formats_def instruction_lists)

lemma instruction_name_iff: "instruction_name c \<noteq> None \<longleftrightarrow> c \<in> set opcodes"
  by (auto simp: instruction_name_def opcodes_def map_of_eq_None_iff image_image case_prod_beta)

lemma foldl_fun_upd_map_of:
  "foldl (\<lambda>acc (k, v). acc(k \<mapsto> v)) m xs = m ++ map_of (rev xs)"
  by (induction xs arbitrary: m) (auto simp: map_add_def fun_eq_iff split: option.splits)

lemma map_of_const:
  "map_of (List.map (\<lambda>(i, _). (i, v)) xs) c = (if c \<in> set (List.map fst xs) then Some v else None)"
  by (induction xs) auto

lemma byteToOpCodeMap_eq: "byteToOpCodeMap c = (if c \<in> set opcodes then Some 1 else None)"
proof -
  have "List.map fst instructions = List.map fst listed_formats"
    by (simp add: instructions_eq comp_def case_prod_beta)
  then have d: "distinct (List.map fst instructions)"
    by (simp only: listed_opcodes distinct_opcodes)
  have "distinct (List.map fst (rev instructions))"
    using d by (simp add: rev_map [symmetric])
  then have "map_of (rev instructions) = map_of instructions"
    using d by (simp add: map_of_inject_set)
  then have "byteToOpCodeMap c = map_of instructions c"
    by (simp add: byteToOpCodeMap_def foldl_fun_upd_map_of)
  also have "\<dots> = (if c \<in> set (List.map fst listed_formats) then Some 1 else None)"
    unfolding instructions_eq by (rule map_of_const)
  finally show ?thesis
    by (simp only: listed_opcodes opcodes_def)
qed

lemma instructionGasMap_eq: "instructionGasMap c = (if c \<in> set opcodes then Some 1 else None)"
  using opcodes_le [of c] by (auto simp: instructionGasMap_def byteToOpCodeMap_eq)

text \<open>
  The second table lists the instructions in another order; both are maps with the same pairs.
\<close>

lemma sort_format_table: "sort_key fst format_table = listed_formats"
  by (simp add: format_table_def listed_formats_def instruction_lists)

lemma instructionArgumentTypeMap_eq: "instructionArgumentTypeMap = map_of listed_formats"
proof -
  have d: "distinct (List.map fst listed_formats)"
    by (simp only: listed_opcodes distinct_opcodes)
  have s: "set format_table = set listed_formats"
    by (simp flip: sort_format_table)
  have "length format_table = length listed_formats"
    by (simp flip: sort_format_table)
  then have "distinct (List.map fst format_table)"
    using d s by (metis card_distinct distinct_card length_map set_map)
  with d s show ?thesis
    by (simp add: instructionArgumentTypeMap_def map_of_inject_set)
qed

lemma format_defined_iff: "instructionArgumentTypeMap c \<noteq> None \<longleftrightarrow> c \<in> set opcodes"
  unfolding instructionArgumentTypeMap_eq map_of_eq_None_iff listed_opcodes [symmetric] opcodes_def
  by (simp flip: listed_opcodes)

end
