(* ===== verification/ProgramDecoder.thy ===== *)
theory ProgramDecoder
  imports Decoder Instructions
begin

text \<open>
  How the interpreter takes a program blob apart: \<open>program-decoder/mask.ts\<close> (the skip table),
  \<open>jump-table.ts\<close>, \<open>program-decoder.ts\<close> and \<open>basic-blocks/\<close>. The reference for the mask is
  \<open>gap\<close>, the number of positions from an index to the next instruction, counted on the mask bits
  themselves; the reference for the blob is its concatenation of fields.
\<close>

unbundle bit_operations_syntax

section \<open>Mask\<close>

text \<open>A \<open>Mask\<close> is its \<open>lookupTableForward\<close>, a \<open>Uint8Array\<close>: storing a number keeps its low byte.\<close>

type_synonym code_mask = "byte list"

definition MAX_INSTRUCTION_DISTANCE :: nat where "MAX_INSTRUCTION_DISTANCE = 25"

fun lookup_loop :: "bitvec \<Rightarrow> nat \<Rightarrow> nat \<Rightarrow> byte list \<Rightarrow> byte list throws" where
  "lookup_loop m 0 lastInstructionOffset table = Inr table"
| "lookup_loop m (Suc i) lastInstructionOffset table = bindE (isSet m i) (\<lambda>set_i.
     let lastInstructionOffset = (if set_i then 0 else lastInstructionOffset + 1)
     in lookup_loop m i lastInstructionOffset (table[i := word_of_nat lastInstructionOffset]))"

definition buildLookupTableForward :: "bitvec \<Rightarrow> byte list throws" where
  "buildLookupTableForward m = lookup_loop m (bitLength m) 0 (replicate (bitLength m) 0)"

definition new_mask :: "bitvec \<Rightarrow> code_mask throws" where
  "new_mask m = buildLookupTableForward m"

definition empty_mask :: "code_mask throws" where
  "empty_mask = bindE (empty_bitvec 0) new_mask"

definition isInstruction :: "code_mask \<Rightarrow> nat \<Rightarrow> bool" where
  "isInstruction m index \<longleftrightarrow> index < length m \<and> m ! index = 0"

definition getNoOfBytesToNextInstruction :: "code_mask \<Rightarrow> int \<Rightarrow> nat throws" where
  "getNoOfBytesToNextInstruction m index = check (index \<ge> 0)
     (Inr (min (if nat index < length m then unat (m ! nat index) else 0) MAX_INSTRUCTION_DISTANCE))"

section \<open>Jump table\<close>

text \<open>A \<open>JumpTable\<close> is its \<open>Uint32Array\<close> of destinations.\<close>

type_synonym jump_table = "u32 list"

fun decodeNext_loop :: "byte list \<Rightarrow> int \<Rightarrow> int" where
  "decodeNext_loop [] v = v"
| "decodeNext_loop (b # bs) v =
     (if js_and v 0xff000000 > 0 then 2 ^ 32 - 1
      else decodeNext_loop bs (js_or (js_shl v 8) (uint b)))"

text \<open>The code reads \<open>bytes[itemByteLength - i - 1]\<close> for ascending \<open>i\<close>: the item backwards.\<close>

definition decodeNext :: "byte list \<Rightarrow> int" where
  "decodeNext bytes = decodeNext_loop (rev bytes) 0"

definition new_jumpTable :: "nat \<Rightarrow> byte list \<Rightarrow> jump_table" where
  "new_jumpTable itemByteLength bytes =
     (let len = (if itemByteLength = 0 then 0 else length bytes div itemByteLength)
      in List.map (\<lambda>i. w32 (decodeNext (subarray bytes (i * itemByteLength) ((i + 1) * itemByteLength))))
           [0..<len])"

definition empty_jumpTable :: jump_table where
  "empty_jumpTable = new_jumpTable 0 []"

definition jumpTable_fromRaw :: "nat \<Rightarrow> byte list \<Rightarrow> jump_table throws" where
  "jumpTable_fromRaw itemByteLength bytes =
     check (itemByteLength = 0 \<or> length bytes mod itemByteLength = 0)
       (Inr (new_jumpTable itemByteLength bytes))"

definition hasIndex :: "jump_table \<Rightarrow> int \<Rightarrow> bool" where
  "hasIndex jt index \<longleftrightarrow> index < int (length jt) \<and> index \<ge> 0"

text \<open>\<open>undefined\<close> past the end.\<close>

definition getDestination :: "jump_table \<Rightarrow> nat \<Rightarrow> nat option" where
  "getDestination jt index = (if index < length jt then Some (unat (jt ! index)) else None)"

definition getSize :: "jump_table \<Rightarrow> nat" where
  "getSize jt = length jt"

definition copyFrom_jt :: "jump_table \<Rightarrow> jump_table \<Rightarrow> jump_table" where
  "copyFrom_jt this jt = jt"

section \<open>Program decoder\<close>

record program =
  p_code :: "byte list"
  p_mask :: code_mask
  p_jumpTable :: jump_table

datatype program_error = InvalidProgramError

definition decodeProgram :: "byte list \<Rightarrow> (bitvec \<times> byte list \<times> nat \<times> byte list) throws" where
  "decodeProgram prog =
     bindE (dec_varU32 (dec_fromBlob prog)) (\<lambda>(jumpTableLength, d).
     bindE (dec_u8 d) (\<lambda>(jumpTableItemLength, d).
     bindE (dec_varU32 d) (\<lambda>(codeLength, d).
     bindE (dec_bytes (nat (jumpTableLength * jumpTableItemLength)) d) (\<lambda>(jumpTable, d).
     bindE (dec_bytes (nat codeLength) d) (\<lambda>(code, d).
     bindE (dec_bitVecFixLen (nat codeLength) d) (\<lambda>(m, d).
     bindE (finish d) (\<lambda>_. Inr (m, code, nat jumpTableItemLength, jumpTable))))))))"

definition new_program :: "byte list \<Rightarrow> program throws" where
  "new_program rawProgram =
     bindE (decodeProgram rawProgram) (\<lambda>(m, code, jumpTableItemLength, jumpTable).
     bindE (new_mask m) (\<lambda>m.
     bindE (jumpTable_fromRaw jumpTableItemLength jumpTable) (\<lambda>jt.
       Inr \<lparr>p_code = code, p_mask = m, p_jumpTable = jt\<rparr>)))"

definition deblob :: "byte list \<Rightarrow> program_error + program" where
  "deblob prog = (case new_program prog of Inr p \<Rightarrow> Inr p | Inl e \<Rightarrow> Inl InvalidProgramError)"

section \<open>Basic blocks\<close>

definition termination_opcodes :: "nat list" where
  "termination_opcodes = [TRAP, FALLTHROUGH, JUMP, JUMP_IND, LOAD_IMM_JUMP, LOAD_IMM_JUMP_IND,
     BRANCH_EQ, BRANCH_NE, BRANCH_GE_U, BRANCH_GE_S, BRANCH_LT_U, BRANCH_LT_S,
     BRANCH_EQ_IMM, BRANCH_NE_IMM, BRANCH_LT_U_IMM, BRANCH_LT_S_IMM, BRANCH_LE_U_IMM,
     BRANCH_LE_S_IMM, BRANCH_GE_U_IMM, BRANCH_GE_S_IMM, BRANCH_GT_U_IMM, BRANCH_GT_S_IMM]"

text \<open>\<open>new Array(HIGHEST + 1).fill(false)\<close>, then one assignment per terminating instruction.\<close>

definition terminationInstructions :: "bool list" where
  "terminationInstructions =
     fold (\<lambda>i xs. xs[i := True]) termination_opcodes (replicate (HIGHEST_INSTRUCTION_NUMBER + 1) False)"

definition terminates :: "nat \<Rightarrow> bool" where
  "terminates i \<longleftrightarrow> i < length terminationInstructions \<and> terminationInstructions ! i"

definition isBasicBlockTermination :: "byte list \<Rightarrow> code_mask \<Rightarrow> nat \<Rightarrow> bool" where
  "isBasicBlockTermination code m index \<longleftrightarrow> isInstruction m index \<and> terminates (unat (code ! index))"

type_synonym basic_blocks = "nat set"

fun basicBlocks_loop :: "byte list \<Rightarrow> code_mask \<Rightarrow> nat list \<Rightarrow> basic_blocks \<Rightarrow> basic_blocks throws" where
  "basicBlocks_loop code m [] bbs = Inr bbs"
| "basicBlocks_loop code m (i # is) bbs =
     (if isInstruction m i \<and> isBasicBlockTermination code m i then
        bindE (getNoOfBytesToNextInstruction m (int (i + 1))) (\<lambda>n.
          basicBlocks_loop code m is (insert (i + 1 + n) bbs))
      else basicBlocks_loop code m is bbs)"

definition basicBlocks_reset :: "byte list \<Rightarrow> code_mask \<Rightarrow> basic_blocks throws" where
  "basicBlocks_reset code m = basicBlocks_loop code m [0..<length code] {0}"

definition isBeginningOfBasicBlock :: "basic_blocks \<Rightarrow> int \<Rightarrow> bool" where
  "isBeginningOfBasicBlock bbs index \<longleftrightarrow> index \<ge> 0 \<and> nat index \<in> bbs"

section \<open>The mask is the skip function\<close>

definition mask_bits :: "bitvec \<Rightarrow> bool list" where
  "mask_bits m = List.map (bit_at (data m)) [0..<bitLength m]"

text \<open>The positions from index \<open>i\<close> up to the next instruction (or the end of the mask).\<close>

definition gap :: "bool list \<Rightarrow> nat \<Rightarrow> nat" where
  "gap bits i = length (takeWhile Not (drop i bits))"

lemma length_mask_bits [simp]: "length (mask_bits m) = bitLength m"
  by (simp add: mask_bits_def)

lemma gap_step: "i < length bits \<Longrightarrow> gap bits i = (if bits ! i then 0 else Suc (gap bits (Suc i)))"
  by (simp add: gap_def Cons_nth_drop_Suc [symmetric])

lemma gap_end [simp]: "length bits \<le> i \<Longrightarrow> gap bits i = 0"
  by (simp add: gap_def)

lemma gap_le: "gap bits i \<le> length bits - i"
  by (metis gap_def length_drop length_takeWhile_le)

lemma gap_0_iff: "i < length bits \<Longrightarrow> gap bits i = 0 \<longleftrightarrow> bits ! i"
  by (simp add: gap_step)

text \<open>\<open>gap\<close> is characterised by what it skips: no instruction before, one (or the end) behind.\<close>

lemma gap_between:
  assumes "i \<le> j" "j < i + gap bits i"
  shows "j < length bits \<and> \<not> bits ! j"
proof -
  let ?k = "j - i"
  have k: "?k < length (takeWhile Not (drop i bits))" using assms by (simp add: gap_def)
  then have "\<not> drop i bits ! ?k" using nth_mem set_takeWhileD takeWhile_nth by metis
  with assms k show ?thesis using gap_le [of bits i] by simp
qed

lemma gap_target:
  assumes "i + gap bits i < length bits"
  shows "bits ! (i + gap bits i)"
  using nth_length_takeWhile [of Not "drop i bits"] assms by (simp add: gap_def)

lemma lookup_loop_eq:
  assumes "k \<le> bitLength m" "length table = bitLength m" "off = gap (mask_bits m) k"
  shows "\<exists>table'. lookup_loop m k off table = Inr table' \<and> length table' = bitLength m \<and>
    (\<forall>i < bitLength m. table' ! i = (if i < k then word_of_nat (gap (mask_bits m) i) else table ! i))"
  using assms
proof (induction k arbitrary: off table)
  case (Suc k)
  let ?off = "gap (mask_bits m) k"
  have k: "k < bitLength m" using Suc.prems by simp
  have off: "(if bit_at (data m) k then 0 else off + 1) = ?off"
    using k Suc.prems(3) by (simp add: gap_step [of k] mask_bits_def)
  obtain t where t: "lookup_loop m k ?off (table[k := word_of_nat ?off]) = Inr t" "length t = bitLength m"
    "\<And>i. i < bitLength m \<Longrightarrow> t ! i = (if i < k then word_of_nat (gap (mask_bits m) i)
        else table[k := word_of_nat ?off] ! i)"
    using Suc.IH [of "table[k := word_of_nat ?off]" ?off] Suc.prems k by auto
  have "lookup_loop m (Suc k) off table = Inr t"
    using k by (simp add: isSet_eq Let_def off t(1) [symmetric] del: One_nat_def)
  with t Suc.prems(2) k show ?case by (auto simp: less_Suc_eq)
qed simp

lemma new_mask_eq: "new_mask m = Inr (List.map (\<lambda>i. word_of_nat (gap (mask_bits m) i)) [0..<bitLength m])"
proof -
  obtain t where "lookup_loop m (bitLength m) 0 (replicate (bitLength m) 0) = Inr t" "length t = bitLength m"
    "\<forall>i < bitLength m. t ! i = word_of_nat (gap (mask_bits m) i)"
    using lookup_loop_eq [of "bitLength m" m "replicate (bitLength m) 0" 0] by auto
  then show ?thesis
    by (auto simp: new_mask_def buildLookupTableForward_def intro: nth_equalityI)
qed

lemma new_mask_total: "\<exists>t. new_mask m = Inr t \<and> length t = bitLength m"
  by (simp add: new_mask_eq)

lemma isInstruction_eq:
  "new_mask m = Inr t \<Longrightarrow> isInstruction t i \<longleftrightarrow> i < bitLength m \<and> 256 dvd gap (mask_bits m) i"
  by (auto simp: new_mask_eq isInstruction_def word_of_nat_eq_0_iff)

lemma getNoOfBytes_eq: "new_mask m = Inr t \<Longrightarrow> getNoOfBytesToNextInstruction t (int i) =
    Inr (min (gap (mask_bits m) i mod 256) MAX_INSTRUCTION_DISTANCE)"
  by (auto simp: new_mask_eq getNoOfBytesToNextInstruction_def unat_of_nat)

lemma getNoOfBytes_total: "\<exists>n \<le> 25. getNoOfBytesToNextInstruction t (int i) = Inr n"
  by (simp add: getNoOfBytesToNextInstruction_def MAX_INSTRUCTION_DISTANCE_def)

section \<open>The jump table reads little-endian items\<close>

lemma w32_high_byte: "0 \<le> v \<Longrightarrow> v < 2 ^ 24 \<Longrightarrow> w32 v AND w32 0xff000000 = 0"
proof -
  assume v: "0 \<le> v" "v < 2 ^ 24"
  have m: "w32 0xff000000 = push_bit 24 (mask 8)" by (simp add: mask_eq_exp_minus_1 push_bit_eq_mult)
  have "\<not> bit v n" if "24 \<le> n" for n
  proof -
    have "(2 :: int) ^ 24 \<le> 2 ^ n" using that by (intro power_increasing) auto
    with v have "v div 2 ^ n = 0" by (intro div_pos_pos_trivial) linarith+
    then show ?thesis by (simp add: bit_iff_odd)
  qed
  then show ?thesis
    unfolding m by (intro bit_word_eqI) (auto simp: bit_simps)
qed

lemma w32_shift_in:
  assumes "w32 u = w32 v"
  shows "w32 (js_or (js_shl u 8) (uint (b :: byte))) = w32 (v * 256 + uint b)"
proof -
  have "push_bit 8 (w32 v) = w32 (v * 256)"
    by (simp add: push_bit_eq_mult)
  moreover have "w32 (v * 256) OR w32 (uint b) = w32 (v * 256 + uint b)"
  proof -
    have "push_bit 8 v OR uint b = v * 256 + uint b"
      using or_push_bit_eq_add [of "uint b" 8 v] byte_bounds [of b] by (simp add: or.commute algebra_simps)
    moreover have "push_bit 8 v = v * 256" by (simp add: push_bit_eq_mult)
    ultimately show ?thesis by (metis of_int_or_eq)
  qed
  ultimately show ?thesis
    using assms by (simp add: js_word shift_count_self)
qed

lemma decodeNext_loop_eq:
  assumes "w32 u = w32 v" "0 \<le> v" "v * 256 ^ length bs + le_val (rev bs) < 2 ^ 32"
  shows "w32 (decodeNext_loop bs u) = w32 (v * 256 ^ length bs + le_val (rev bs))"
  using assms
proof (induction bs arbitrary: u v)
  case (Cons b bs)
  let ?v = "v * 256 + uint b"
  have split: "v * 256 ^ length (b # bs) + le_val (rev (b # bs)) = ?v * 256 ^ length bs + le_val (rev bs)"
    by (simp add: le_val_append algebra_simps)
  have "?v \<le> ?v * 256 ^ length bs + le_val (rev bs)"
    using Cons.prems(2) byte_bounds [of b] mult_left_mono [of 1 "256 ^ length bs" ?v]
    by (intro add_increasing2 le_val_nonneg) auto
  then have "?v < 2 ^ 32" using Cons.prems(3) split by linarith
  then have "v * 256 + uint b < 4294967296" by simp
  then have "v < 16777216" using byte_bounds(1) [of b] by linarith
  then have "v < 2 ^ 24" by simp
  then have "\<not> js_and u 0xff000000 > 0"
    using w32_high_byte [OF Cons.prems(2)] Cons.prems(1) by (simp add: js_and_sint del: word_of_int_numeral)
  moreover have "w32 (decodeNext_loop bs (js_or (js_shl u 8) (uint b))) = w32 (?v * 256 ^ length bs + le_val (rev bs))"
    using Cons.prems byte_bounds [of b]
    by (intro Cons.IH w32_shift_in) (simp_all add: split [symmetric])
  ultimately show ?case by (simp only: decodeNext_loop.simps if_False split)
qed simp

lemma decodeNext_eq: "le_val bs < 2 ^ 32 \<Longrightarrow> w32 (decodeNext bs) = w32 (le_val bs)"
  using decodeNext_loop_eq [of 0 0 "rev bs"] by (simp add: decodeNext_def)

lemma decodeNext_short: "length bs \<le> 4 \<Longrightarrow> w32 (decodeNext bs) = w32 (le_val bs)"
  using le_val_less [of bs] power_increasing [of "length bs" 4 "256 :: int"]
  by (intro decodeNext_eq) simp

lemma length_new_jumpTable [simp]:
  "length (new_jumpTable z bs) = (if z = 0 then 0 else length bs div z)"
  by (simp add: new_jumpTable_def)

lemma nth_new_jumpTable: "i < length (new_jumpTable z bs) \<Longrightarrow>
    new_jumpTable z bs ! i = w32 (decodeNext (subarray bs (i * z) ((i + 1) * z)))"
  by (simp add: new_jumpTable_def Let_def del: length_new_jumpTable split: if_splits)

section \<open>Basic blocks\<close>

lemma basicBlocks_loop_eq:
  "basicBlocks_loop code m is bbs = Inr (bbs \<union>
     {i + 1 + (if i + 1 < length m then min (unat (m ! (i + 1))) 25 else 0) |i.
        i \<in> set is \<and> isBasicBlockTermination code m i})"
proof (induction "is" arbitrary: bbs)
  case (Cons i "is")
  then show ?case
    by (auto simp: isBasicBlockTermination_def getNoOfBytesToNextInstruction_def
        MAX_INSTRUCTION_DISTANCE_def nat_add_distrib)
qed simp

lemma basicBlocks_reset_eq: "basicBlocks_reset code m = Inr ({0} \<union>
     {i + 1 + (if i + 1 < length m then min (unat (m ! (i + 1))) 25 else 0) |i.
        i < length code \<and> isBasicBlockTermination code m i})"
  by (simp add: basicBlocks_reset_def basicBlocks_loop_eq)

lemma terminates_iff: "terminates i \<longleftrightarrow> i \<in> set termination_opcodes"
proof -
  have len: "length (fold (\<lambda>i xs. xs[i := True]) is xs) = length xs" for "is" and xs :: "bool list"
    by (induction "is" arbitrary: xs) auto
  have upd: "j < length xs \<Longrightarrow> xs[a := True] ! j \<longleftrightarrow> a = j \<or> xs ! j" for a j and xs :: "bool list"
    by (cases "a = j") auto
  have nth: "j < length xs \<Longrightarrow> fold (\<lambda>i xs. xs[i := True]) is xs ! j \<longleftrightarrow> j \<in> set is \<or> xs ! j"
    for "is" j and xs :: "bool list"
    by (induction "is" arbitrary: xs) (auto simp: upd)
  have le: "\<forall>i \<in> set termination_opcodes. i < HIGHEST_INSTRUCTION_NUMBER + 1"
    by (simp add: termination_opcodes_def HIGHEST_INSTRUCTION_NUMBER_def)
  show ?thesis
    unfolding terminates_def terminationInstructions_def len using le by (auto simp: nth simp del: replicate.simps)
qed

section \<open>The blob\<close>

lemma at_fromBlob: "at (dec_fromBlob bs) bs"
  by (simp add: at_def dec_fromBlob_def view_bytes_def subarray_def)

lemma finish_at_end: "finish (adv (dec_fromBlob bs) (length bs)) = Inr ()"
  by (simp add: finish_def dec_fromBlob_def adv_def)

text \<open>\<open>blob_of j z jt code m\<close>: the layout of the blob, field by field.\<close>

definition blob_of :: "nat \<Rightarrow> nat \<Rightarrow> byte list \<Rightarrow> byte list \<Rightarrow> bitvec \<Rightarrow> byte list" where
  "blob_of j z jt code m = nat_bytes (int j) @ le_bytes 1 (int z) @ nat_bytes (int (length code)) @
     jt @ code @ bv_raw m"

lemma decodeProgram_blob:
  assumes "j < 2 ^ 32" "z < 256" "length jt = j * z" "length code < 2 ^ 32"
    "canonical m" "bitLength m = length code"
  shows "decodeProgram (blob_of j z jt code m) = Inr (m, code, z, jt)"
proof -
  have jt: "decodes (dec_bytes (nat (int j * int z))) jt jt"
    using bytes_decodes [of jt] assms(3) by (simp flip: of_nat_mult)
  have code: "decodes (dec_bytes (nat (int (length code)))) code code"
    using bytes_decodes [of code] by simp
  have m: "decodes (dec_bitVecFixLen (nat (int (length code)))) (bv_raw m) m"
    using bitVecFixLen_decodes [OF assms(5)] assms(6) by simp
  have z: "decodes dec_u8 (le_bytes 1 (int z)) (int z)"
    using uint_decodes(1) [of "le_bytes 1 (int z)"] assms(2) by (simp add: unsigned_of_nat take_bit_nat_eq_self)
  have j: "decodes dec_varU32 (nat_bytes (int j)) (int j)"
    "decodes dec_varU32 (nat_bytes (int (length code))) (int (length code))"
    using assms of_nat_less_u32 by (auto intro!: varU32_decodes)
  have all: "decodes (\<lambda>d. bindE (dec_varU32 d) (\<lambda>(jumpTableLength, d).
     bindE (dec_u8 d) (\<lambda>(jumpTableItemLength, d).
     bindE (dec_varU32 d) (\<lambda>(codeLength, d).
     bindE (dec_bytes (nat (jumpTableLength * jumpTableItemLength)) d) (\<lambda>(jumpTable, d).
     bindE (dec_bytes (nat codeLength) d) (\<lambda>(code, d).
     bindE (dec_bitVecFixLen (nat codeLength) d) (\<lambda>(m, d).
       Inr ((m, code, nat jumpTableItemLength, jumpTable), d))))))))
     (blob_of j z jt code m) (m, code, nat (int z), jt)"
    unfolding blob_of_def
    by (rule decodes_bind [OF j(1)], rule decodes_bind [OF z], rule decodes_bind [OF j(2)],
        rule decodes_bind [OF jt], rule decodes_bind [OF code], rule decodes_return [OF m])
  have "at (dec_fromBlob (blob_of j z jt code m)) (blob_of j z jt code m)" by (rule at_fromBlob)
  from decodesD [OF all this] show ?thesis
    unfolding decodeProgram_def
    by (auto simp: bindE_Inr_iff finish_at_end)
qed

lemma new_program_blob:
  assumes "j < 2 ^ 32" "z < 256" "length jt = j * z" "length code < 2 ^ 32"
    "canonical m" "bitLength m = length code"
  shows "new_program (blob_of j z jt code m) = Inr \<lparr>p_code = code,
    p_mask = List.map (\<lambda>i. word_of_nat (gap (mask_bits m) i)) [0..<length code],
    p_jumpTable = new_jumpTable z jt\<rparr>"
  using assms
  by (simp add: new_program_def decodeProgram_blob new_mask_eq jumpTable_fromRaw_def)

section \<open>Items of the jump table\<close>

text \<open>
  What one item of the jump table decodes to, for every item length the format allows. The loop shifts
  the item into a 32-bit number, most significant byte first, and clamps when the top byte of that number
  tests greater than zero; the test is on a signed number, so a top byte from 128 on is shifted out silently.
\<close>

lemma clamp_test:
  assumes "w32 u = w32 (t * 2 ^ 24 + r)" "0 \<le> t" "t < 256" "0 \<le> r" "r < 2 ^ 24"
  shows "js_and u 0xff000000 > 0 \<longleftrightarrow> 1 \<le> t \<and> t \<le> 127"
proof -
  let ?v = "t * 2 ^ 24 + r"
  have "?v AND push_bit 24 255 = push_bit 24 (drop_bit 24 ?v AND 255)"
  proof (rule bit_eqI)
    fix n
    show "bit (?v AND push_bit 24 255) n = bit (push_bit 24 (drop_bit 24 ?v AND 255)) n"
      by (cases "24 \<le> n") (simp_all only: bit_and_iff bit_push_bit_iff bit_drop_bit_eq comp_def possible_bit_int le_add_diff_inverse simp_thms)
  qed
  also have "drop_bit 24 ?v = t" using assms(4,5) by (simp add: drop_bit_eq_div)
  also have "t AND 255 = t" using take_bit_eq_mask [of 8 t] assms(2,3) by (simp add: take_bit_int_eq_self mask_eq_exp_minus_1)
  finally have "?v AND 0xff000000 = t * 2 ^ 24" by (simp add: push_bit_eq_mult)
  then have "w32 u AND w32 0xff000000 = w32 (t * 2 ^ 24)" unfolding assms(1) by (metis of_int_and_eq)
  then have "js_and u 0xff000000 = sint (w32 (t * 2 ^ 24))" by (simp add: js_and_sint del: word_of_int_numeral)
  also have "\<dots> = signed_take_bit 31 (t * 2 ^ 24)" by (simp add: sint_sbintrunc' del: of_int_mult of_int_numeral word_of_int_numeral)
  also have "\<dots> = (t * 2 ^ 24 + 2 ^ 31) mod 2 ^ 32 - 2 ^ 31"
    by (simp add: signed_take_bit_eq_take_bit_shift take_bit_eq_mod)
  also have "\<dots> = (if t \<le> 127 then t * 2 ^ 24 else t * 2 ^ 24 - 2 ^ 32)"
  proof (cases "t \<le> 127")
    case True
    then show ?thesis using assms(2) by (simp add: mod_pos_pos_trivial)
  next
    case False
    have "(t * 2 ^ 24 + 2 ^ 31) mod 2 ^ 32 = (t * 2 ^ 24 + 2 ^ 31 - 2 ^ 32) mod 2 ^ 32"
      by (simp only: minus_mod_self2)
    also have "\<dots> = t * 2 ^ 24 + 2 ^ 31 - 2 ^ 32" using False assms(3) by (intro mod_pos_pos_trivial) simp_all
    finally show ?thesis using False by simp
  qed
  finally show ?thesis using assms(2,3) by auto
qed

text \<open>The last four bytes read are all the loop knows of the number; it stops when the first of them is 1 to 127.\<close>

lemma decodeNext_loop_spec:
  assumes "length ps = 4" "w32 u = w32 (le_val (rev ps))"
  shows "w32 (decodeNext_loop bs u) =
    (if \<exists>i < length bs. 1 \<le> uint ((ps @ bs) ! i) \<and> uint ((ps @ bs) ! i) \<le> 127 then w32 (2 ^ 32 - 1)
     else w32 (le_val (rev (drop (length bs) (ps @ bs)))))"
  using assms
proof (induction bs arbitrary: ps u)
  case (Cons b bs)
  from Cons.prems(1) obtain p qs where ps: "ps = p # qs" "length qs = 3" by (cases ps) auto
  let ?in = "\<lambda>p. 1 \<le> uint p \<and> uint (p :: byte) \<le> 127"
  have test: "js_and u 0xff000000 > 0 \<longleftrightarrow> ?in p"
  proof (rule clamp_test)
    show "w32 u = w32 (uint p * 2 ^ 24 + le_val (rev qs))"
      using Cons.prems(2) ps by (simp add: le_val_append algebra_simps)
    show "le_val (rev qs) < 2 ^ 24" using le_val_less [of "rev qs"] ps(2) by simp
  qed (simp_all add: byte_bounds)
  have all: "(\<exists>i < length (b # bs). ?in ((ps @ b # bs) ! i)) \<longleftrightarrow> ?in p \<or> (\<exists>i < length bs. ?in (((qs @ [b]) @ bs) ! i))"
    unfolding ps by (simp add: Ex_less_Suc2)
  show ?case
  proof (cases "?in p")
    case True
    then show ?thesis using test all by simp
  next
    case False
    have "w32 (js_or (js_shl u 8) (uint b)) = w32 (le_val (rev ps) * 256 + uint b)" by (rule w32_shift_in [OF Cons.prems(2)])
    also have "\<dots> = w32 (le_val (rev (qs @ [b])))"
    proof -
      have "le_val (rev ps) * 256 + uint b = le_val (rev (qs @ [b])) + uint p * 2 ^ 32"
        using ps by (simp add: le_val_append algebra_simps)
      then show ?thesis unfolding word_of_int_eq_iff take_bit_eq_mod by (simp only: len_bit0 len_num1 mult_1_right) simp
    qed
    finally have step: "w32 (js_or (js_shl u 8) (uint b)) = w32 (le_val (rev (qs @ [b])))" .
    have "w32 (decodeNext_loop (b # bs) u) = w32 (decodeNext_loop bs (js_or (js_shl u 8) (uint b)))"
      using test False by simp
    also have "\<dots> = (if \<exists>i < length bs. ?in (((qs @ [b]) @ bs) ! i) then w32 (2 ^ 32 - 1)
        else w32 (le_val (rev (drop (length bs) ((qs @ [b]) @ bs)))))"
      by (rule Cons.IH) (use ps step in simp_all)
    also have "drop (length bs) ((qs @ [b]) @ bs) = drop (length (b # bs)) (ps @ b # bs)" by (simp add: ps)
    finally show ?thesis using all False by simp
  qed
qed simp

text \<open>So an item of more than four bytes is clamped when one of the bytes past the fourth is 1 to 127, and otherwise cut.\<close>

lemma decodeNext_spec:
  "uint (w32 (decodeNext bs)) =
    (if \<exists>j \<in> {4..<length bs}. 1 \<le> uint (bs ! j) \<and> uint (bs ! j) \<le> 127 then 2 ^ 32 - 1 else le_val bs mod 2 ^ 32)"
proof -
  let ?in = "\<lambda>p. 1 \<le> uint p \<and> uint (p :: byte) \<le> 127" and ?z = "replicate 4 (0 :: byte)" and ?n = "length bs"
  have zero: "w32 0 = w32 (le_val (rev ?z))" by simp
  have ex: "(\<exists>i < ?n. ?in ((?z @ rev bs) ! i)) \<longleftrightarrow> (\<exists>j \<in> {4..<?n}. ?in (bs ! j))"
  proof
    assume "\<exists>i < ?n. ?in ((?z @ rev bs) ! i)"
    then obtain i where i: "i < ?n" "?in ((?z @ rev bs) ! i)" by blast
    then have "4 \<le> i" by (cases "i < 4") (simp_all add: nth_append)
    with i have "?in (bs ! (?n - 1 - (i - 4)))" by (simp add: nth_append rev_nth)
    moreover have "?n - 1 - (i - 4) \<in> {4..<?n}" using i(1) \<open>4 \<le> i\<close> by auto
    ultimately show "\<exists>j \<in> {4..<?n}. ?in (bs ! j)" by blast
  next
    assume "\<exists>j \<in> {4..<?n}. ?in (bs ! j)"
    then obtain j where j: "4 \<le> j" "j < ?n" "?in (bs ! j)" by auto
    then have "?in ((?z @ rev bs) ! (4 + (?n - 1 - j)))" by (simp add: nth_append rev_nth)
    moreover have "4 + (?n - 1 - j) < ?n" using j by simp
    ultimately show "\<exists>i < ?n. ?in ((?z @ rev bs) ! i)" by blast
  qed
  have cut: "le_val (rev (drop ?n (?z @ rev bs))) mod 2 ^ 32 = le_val bs mod 2 ^ 32"
  proof -
    have "le_val (bs @ ?z) mod 2 ^ 32 = le_val (rev (drop ?n (?z @ rev bs))) mod 2 ^ 32"
    proof -
      let ?w = "?z @ rev bs"
      have "bs @ ?z = rev (take ?n ?w @ drop ?n ?w)" unfolding append_take_drop_id by simp
      also have "\<dots> = rev (drop ?n ?w) @ rev (take ?n ?w)" by (simp only: rev_append)
      finally have "le_val (bs @ ?z) = le_val (rev (drop ?n ?w)) + 256 ^ length (rev (drop ?n ?w)) * le_val (rev (take ?n ?w))"
        by (simp only: le_val_append)
      moreover have "length (rev (drop ?n ?w)) = 4" by simp
      ultimately show ?thesis by simp
    qed
    moreover have "le_val (bs @ ?z) = le_val bs" by (simp add: le_val_append)
    ultimately show ?thesis by simp
  qed
  have "w32 (decodeNext bs) = (if \<exists>j \<in> {4..<?n}. ?in (bs ! j) then w32 (2 ^ 32 - 1) else w32 (le_val (rev (drop ?n (?z @ rev bs)))))"
    using decodeNext_loop_spec [OF _ zero, of "rev bs"] unfolding decodeNext_def length_rev ex by simp
  moreover have "uint (w32 (2 ^ 32 - 1)) = 2 ^ 32 - 1" by (simp add: uint_word_of_int del: word_of_int_numeral)
  moreover have "uint (w32 (le_val (rev (drop ?n (?z @ rev bs))))) = le_val bs mod 2 ^ 32"
    unfolding cut [symmetric] by (simp only: uint_word_of_int len_num1 len_num0 len_bit0 len_bit1) simp
  ultimately show ?thesis by (cases "\<exists>j \<in> {4..<?n}. ?in (bs ! j)") (simp_all only: if_True if_False)
qed

end
