(* ===== verification/ArgsDecoder.thy ===== *)
theory ArgsDecoder
  imports ProgramDecoder Immediates
begin

text \<open>
  \<open>args-decoder/args-decoder.ts\<close>: the arguments of the instruction at a program counter. The code
  keeps one mutable result object per argument type (\<open>args-decoding-results.ts\<close>) and \<open>fillArgs\<close>
  overwrites every field of the one it is given, so the model returns a fresh value. The order of
  the constructor arguments is the order of the fields, \<open>noOfBytesToSkip\<close> first.
\<close>

datatype args =
    EmptyArgs nat
  | OneImmediateArgs nat immediate
  | ThreeRegistersArgs nat nat nat nat
  | TwoRegistersArgs nat nat nat
  | TwoRegistersOneImmediateArgs nat nat nat immediate
  | OneRegisterOneImmediateArgs nat nat immediate
  | OneRegisterOneExtendedWidthImmediateArgs nat nat "byte list"
  | TwoRegistersTwoImmediatesArgs nat nat nat immediate immediate
  | TwoImmediatesArgs nat immediate immediate
  | TwoRegistersOneOffsetArgs nat nat nat int
  | OneRegisterOneImmediateOneOffsetArgs nat nat immediate int
  | OneRegisterTwoImmediatesArgs nat nat immediate immediate
  | OneOffsetArgs nat int

definition IMMEDIATE_AND_OFFSET_MAX_LENGTH :: nat where "IMMEDIATE_AND_OFFSET_MAX_LENGTH = 4"

text \<open>\<open>code[i]\<close> handed to \<open>setByte\<close>: \<open>undefined\<close> is stored as 0 in the \<open>Int8Array\<close>.\<close>

definition code_byte :: "byte list \<Rightarrow> nat \<Rightarrow> byte" where
  "code_byte code i = (if i < length code then code ! i else 0)"

definition fillArgs :: "byte list \<Rightarrow> code_mask \<Rightarrow> nat \<Rightarrow> argument_type \<Rightarrow> args throws" where
  "fillArgs code m pc ty = bindE (getNoOfBytesToNextInstruction m (int (pc + 1))) (\<lambda>n.
     let nextInstructionDistance = 1 + n;
         firstByte = setByte (code_byte code (pc + 1));
         secondByte = setByte (code_byte code (pc + 2))
     in Inr (case ty of
       NO_ARGUMENTS \<Rightarrow> EmptyArgs nextInstructionDistance
     | ONE_IMMEDIATE \<Rightarrow>
         let immediateLength = min IMMEDIATE_AND_OFFSET_MAX_LENGTH (nextInstructionDistance - 1);
             argsStartIndex = pc + 1
         in OneImmediateArgs nextInstructionDistance
              (setBytes (subarray code argsStartIndex (argsStartIndex + immediateLength)))
     | THREE_REGISTERS \<Rightarrow>
         ThreeRegistersArgs nextInstructionDistance
           (getLowNibbleAsRegisterIndex firstByte) (getHighNibbleAsRegisterIndex firstByte)
           (getLowNibbleAsRegisterIndex secondByte)
     | TWO_REGISTERS_ONE_IMMEDIATE \<Rightarrow>
         let immediateLength = min IMMEDIATE_AND_OFFSET_MAX_LENGTH (nextInstructionDistance - 2);
             immediateStartIndex = pc + 2;
             immediateEndIndex = immediateStartIndex + immediateLength
         in TwoRegistersOneImmediateArgs nextInstructionDistance
              (getLowNibbleAsRegisterIndex firstByte) (getHighNibbleAsRegisterIndex firstByte)
              (setBytes (subarray code immediateStartIndex immediateEndIndex))
     | ONE_REGISTER_ONE_IMMEDIATE_ONE_OFFSET \<Rightarrow>
         let immediateLength = getHighNibbleAsLength firstByte;
             immediateStartIndex = pc + 2;
             immediateEndIndex = immediateStartIndex + immediateLength;
             offsetLength = min IMMEDIATE_AND_OFFSET_MAX_LENGTH
               (nextInstructionDistance - 2 - immediateLength);
             offsetStartIndex = pc + 2 + immediateLength;
             offsetEndIndex = offsetStartIndex + offsetLength
         in OneRegisterOneImmediateOneOffsetArgs nextInstructionDistance
              (getLowNibbleAsRegisterIndex firstByte)
              (setBytes (subarray code immediateStartIndex immediateEndIndex))
              (int pc + imm_getSigned (setBytes (subarray code offsetStartIndex offsetEndIndex)))
     | TWO_REGISTERS_ONE_OFFSET \<Rightarrow>
         let offsetLength = min IMMEDIATE_AND_OFFSET_MAX_LENGTH (nextInstructionDistance - 2);
             offsetStartIndex = pc + 2;
             offsetEndIndex = offsetStartIndex + offsetLength
         in TwoRegistersOneOffsetArgs nextInstructionDistance
              (getLowNibbleAsRegisterIndex firstByte) (getHighNibbleAsRegisterIndex firstByte)
              (int pc + imm_getSigned (setBytes (subarray code offsetStartIndex offsetEndIndex)))
     | TWO_REGISTERS \<Rightarrow>
         TwoRegistersArgs nextInstructionDistance
           (getHighNibbleAsRegisterIndex firstByte) (getLowNibbleAsRegisterIndex firstByte)
     | ONE_OFFSET \<Rightarrow>
         let offsetLength = min IMMEDIATE_AND_OFFSET_MAX_LENGTH (nextInstructionDistance - 1);
             offsetStartIndex = pc + 1;
             offsetEndIndex = offsetStartIndex + offsetLength;
             offsetValue = imm_getSigned (setBytes (subarray code offsetStartIndex offsetEndIndex))
         in OneOffsetArgs nextInstructionDistance (int pc + offsetValue)
     | ONE_REGISTER_ONE_IMMEDIATE \<Rightarrow>
         let immediateLength = min IMMEDIATE_AND_OFFSET_MAX_LENGTH (nextInstructionDistance - 2);
             immediateStartIndex = pc + 2;
             immediateEndIndex = immediateStartIndex + immediateLength
         in OneRegisterOneImmediateArgs nextInstructionDistance
              (getLowNibbleAsRegisterIndex firstByte)
              (setBytes (subarray code immediateStartIndex immediateEndIndex))
     | TWO_IMMEDIATES \<Rightarrow>
         let firstImmediateLength = getLowNibbleAsLength firstByte;
             firstImmediateStartIndex = pc + 2;
             firstImmediateEndIndex = firstImmediateStartIndex + firstImmediateLength;
             secondImmediateLength = min IMMEDIATE_AND_OFFSET_MAX_LENGTH
               (nextInstructionDistance - 2 - firstImmediateLength);
             secondImmediateEndIndex = firstImmediateEndIndex + secondImmediateLength
         in TwoImmediatesArgs nextInstructionDistance
              (setBytes (subarray code firstImmediateStartIndex firstImmediateEndIndex))
              (setBytes (subarray code firstImmediateEndIndex secondImmediateEndIndex))
     | ONE_REGISTER_TWO_IMMEDIATES \<Rightarrow>
         let firstImmediateLength = getHighNibbleAsLength firstByte;
             firstImmediateStartIndex = pc + 2;
             firstImmediateEndIndex = firstImmediateStartIndex + firstImmediateLength;
             secondImmediateLength = min IMMEDIATE_AND_OFFSET_MAX_LENGTH
               (nextInstructionDistance - 2 - firstImmediateLength);
             secondImmediateEndIndex = firstImmediateEndIndex + secondImmediateLength
         in OneRegisterTwoImmediatesArgs nextInstructionDistance
              (getLowNibbleAsRegisterIndex firstByte)
              (setBytes (subarray code firstImmediateStartIndex firstImmediateEndIndex))
              (setBytes (subarray code firstImmediateEndIndex secondImmediateEndIndex))
     | TWO_REGISTERS_TWO_IMMEDIATES \<Rightarrow>
         let firstImmediateLength = getLowNibbleAsLength secondByte;
             firstImmediateStartIndex = pc + 3;
             firstImmediateEndIndex = firstImmediateStartIndex + firstImmediateLength;
             secondImmediateLength = min IMMEDIATE_AND_OFFSET_MAX_LENGTH
               (nextInstructionDistance - 3 - firstImmediateLength);
             secondImmediateEndIndex = firstImmediateEndIndex + secondImmediateLength
         in TwoRegistersTwoImmediatesArgs nextInstructionDistance
              (getLowNibbleAsRegisterIndex firstByte) (getHighNibbleAsRegisterIndex firstByte)
              (setBytes (subarray code firstImmediateStartIndex firstImmediateEndIndex))
              (setBytes (subarray code firstImmediateEndIndex secondImmediateEndIndex))
     | ONE_REGISTER_ONE_EXTENDED_WIDTH_IMMEDIATE \<Rightarrow>
         let immediateStartIndex = pc + 2;
             immediateEndIndex = immediateStartIndex + 8
         in OneRegisterOneExtendedWidthImmediateArgs nextInstructionDistance
              (getLowNibbleAsRegisterIndex firstByte)
              (ext_setBytes (subarray code immediateStartIndex immediateEndIndex))))"

section \<open>What decoding guarantees\<close>

fun noOfBytesToSkip :: "args \<Rightarrow> nat" where
  "noOfBytesToSkip (EmptyArgs n) = n"
| "noOfBytesToSkip (OneImmediateArgs n _) = n"
| "noOfBytesToSkip (ThreeRegistersArgs n _ _ _) = n"
| "noOfBytesToSkip (TwoRegistersArgs n _ _) = n"
| "noOfBytesToSkip (TwoRegistersOneImmediateArgs n _ _ _) = n"
| "noOfBytesToSkip (OneRegisterOneImmediateArgs n _ _) = n"
| "noOfBytesToSkip (OneRegisterOneExtendedWidthImmediateArgs n _ _) = n"
| "noOfBytesToSkip (TwoRegistersTwoImmediatesArgs n _ _ _ _) = n"
| "noOfBytesToSkip (TwoImmediatesArgs n _ _) = n"
| "noOfBytesToSkip (TwoRegistersOneOffsetArgs n _ _ _) = n"
| "noOfBytesToSkip (OneRegisterOneImmediateOneOffsetArgs n _ _ _) = n"
| "noOfBytesToSkip (OneRegisterTwoImmediatesArgs n _ _ _) = n"
| "noOfBytesToSkip (OneOffsetArgs n _) = n"

fun args_type :: "args \<Rightarrow> argument_type" where
  "args_type (EmptyArgs _) = NO_ARGUMENTS"
| "args_type (OneImmediateArgs _ _) = ONE_IMMEDIATE"
| "args_type (ThreeRegistersArgs _ _ _ _) = THREE_REGISTERS"
| "args_type (TwoRegistersArgs _ _ _) = TWO_REGISTERS"
| "args_type (TwoRegistersOneImmediateArgs _ _ _ _) = TWO_REGISTERS_ONE_IMMEDIATE"
| "args_type (OneRegisterOneImmediateArgs _ _ _) = ONE_REGISTER_ONE_IMMEDIATE"
| "args_type (OneRegisterOneExtendedWidthImmediateArgs _ _ _) = ONE_REGISTER_ONE_EXTENDED_WIDTH_IMMEDIATE"
| "args_type (TwoRegistersTwoImmediatesArgs _ _ _ _ _) = TWO_REGISTERS_TWO_IMMEDIATES"
| "args_type (TwoImmediatesArgs _ _ _) = TWO_IMMEDIATES"
| "args_type (TwoRegistersOneOffsetArgs _ _ _ _) = TWO_REGISTERS_ONE_OFFSET"
| "args_type (OneRegisterOneImmediateOneOffsetArgs _ _ _ _) = ONE_REGISTER_ONE_IMMEDIATE_ONE_OFFSET"
| "args_type (OneRegisterTwoImmediatesArgs _ _ _ _) = ONE_REGISTER_TWO_IMMEDIATES"
| "args_type (OneOffsetArgs _ _) = ONE_OFFSET"

text \<open>Register operands in range, immediates eight bytes wide.\<close>

fun wf_args :: "args \<Rightarrow> bool" where
  "wf_args (EmptyArgs _) \<longleftrightarrow> True"
| "wf_args (OneImmediateArgs _ i) \<longleftrightarrow> wf_imm i"
| "wf_args (ThreeRegistersArgs _ a b c) \<longleftrightarrow> a < 13 \<and> b < 13 \<and> c < 13"
| "wf_args (TwoRegistersArgs _ a b) \<longleftrightarrow> a < 13 \<and> b < 13"
| "wf_args (TwoRegistersOneImmediateArgs _ a b i) \<longleftrightarrow> a < 13 \<and> b < 13 \<and> wf_imm i"
| "wf_args (OneRegisterOneImmediateArgs _ a i) \<longleftrightarrow> a < 13 \<and> wf_imm i"
| "wf_args (OneRegisterOneExtendedWidthImmediateArgs _ a i) \<longleftrightarrow> a < 13 \<and> wf_imm i"
| "wf_args (TwoRegistersTwoImmediatesArgs _ a b i j) \<longleftrightarrow> a < 13 \<and> b < 13 \<and> wf_imm i \<and> wf_imm j"
| "wf_args (TwoImmediatesArgs _ i j) \<longleftrightarrow> wf_imm i \<and> wf_imm j"
| "wf_args (TwoRegistersOneOffsetArgs _ a b _) \<longleftrightarrow> a < 13 \<and> b < 13"
| "wf_args (OneRegisterOneImmediateOneOffsetArgs _ a i _) \<longleftrightarrow> a < 13 \<and> wf_imm i"
| "wf_args (OneRegisterTwoImmediatesArgs _ a i j) \<longleftrightarrow> a < 13 \<and> wf_imm i \<and> wf_imm j"
| "wf_args (OneOffsetArgs _ _) \<longleftrightarrow> True"

lemma nibble_index_less:
  "getLowNibbleAsRegisterIndex v < 13" "getHighNibbleAsRegisterIndex v < 13"
  using nibble_index_le [of v] by linarith+

lemma wf_ext_setBytes [simp]: "wf_imm (ext_setBytes bs)"
  by (simp add: wf_imm_def ext_setBytes_def)

lemma fillArgs_total: "\<exists>a. fillArgs code m pc ty = Inr a"
  using getNoOfBytes_total [of m "pc + 1"] by (auto simp: fillArgs_def Let_def)

lemma fillArgs_wf:
  assumes "fillArgs code m pc ty = Inr a"
  shows "wf_args a \<and> args_type a = ty \<and> 1 \<le> noOfBytesToSkip a \<and> noOfBytesToSkip a \<le> 26"
proof -
  obtain n where n: "n \<le> 25" "getNoOfBytesToNextInstruction m (int (pc + 1)) = Inr n"
    using getNoOfBytes_total [of m "pc + 1"] by auto
  show ?thesis
    using assms n(1) unfolding fillArgs_def n(2) bindE.simps
    by (cases ty) (auto simp: Let_def nibble_index_less)
qed

text \<open>A jump offset is relative to the instruction itself and fits 32 signed bits.\<close>

fun branch_target :: "args \<Rightarrow> int option" where
  "branch_target (TwoRegistersOneOffsetArgs _ _ _ t) = Some t"
| "branch_target (OneRegisterOneImmediateOneOffsetArgs _ _ _ t) = Some t"
| "branch_target (OneOffsetArgs _ t) = Some t"
| "branch_target _ = None"

lemma fillArgs_target:
  assumes "fillArgs code m pc ty = Inr a" "branch_target a = Some t"
  shows "int pc - 2 ^ 31 \<le> t \<and> t < int pc + 2 ^ 31"
proof -
  obtain n where n: "getNoOfBytesToNextInstruction m (int (pc + 1)) = Inr n"
    using getNoOfBytes_total [of m "pc + 1"] by auto
  have b: "- 2147483648 \<le> imm_getSigned x" "imm_getSigned x < 2147483648" for x
    using signed_take_bit_int_greater_eq_minus_exp [of 31 "le_val (subarray x 0 4)"]
      signed_take_bit_int_less_exp [of 31 "le_val (subarray x 0 4)"]
    by (simp_all add: imm_getSigned_def imm_getI32_def)
  show ?thesis
    using assms b unfolding fillArgs_def n bindE.simps
    by (cases ty) (auto simp: Let_def)
qed

end
