(* ===== verification/MemoryRanges.thy ===== *)
theory MemoryRanges
  imports Numbers
begin

text \<open>
  Addresses, pages and ranges of \<open>pvm-interpreter/memory\<close>: \<open>memory-consts.ts\<close>,
  \<open>memory-index.ts\<close>, \<open>memory-utils.ts\<close>, \<open>pages/page-utils.ts\<close>, the page faults of
  \<open>errors.ts\<close>, \<open>memory-range.ts\<close> and \<open>page-range.ts\<close>. Addresses, lengths and page numbers are
  natural numbers; where the code shifts them with 32-bit operators the model does too. The
  reference for a range is the set of addresses \<open>(start + k) mod 2^32\<close> it stands for.
\<close>

section \<open>Constants and indices\<close>

definition MAX_MEMORY_INDEX :: nat where "MAX_MEMORY_INDEX = 0xffffffff"
definition MEMORY_SIZE :: nat where "MEMORY_SIZE = MAX_MEMORY_INDEX + 1"
definition PAGE_SIZE_SHIFT :: nat where "PAGE_SIZE_SHIFT = 12"
definition PAGE_SIZE :: nat where "PAGE_SIZE = nat (js_shl 1 (int PAGE_SIZE_SHIFT))"
definition MIN_ALLOCATION_SHIFT :: nat where "MIN_ALLOCATION_SHIFT = 7"
definition MIN_ALLOCATION_LENGTH :: nat where
  "MIN_ALLOCATION_LENGTH = nat (js_shr (int PAGE_SIZE) (int MIN_ALLOCATION_SHIFT))"
definition LAST_PAGE_NUMBER :: nat where "LAST_PAGE_NUMBER = (MEMORY_SIZE - PAGE_SIZE) div PAGE_SIZE"
definition RESERVED_NUMBER_OF_PAGES :: nat where "RESERVED_NUMBER_OF_PAGES = 16"
definition MAX_NUMBER_OF_PAGES :: nat where "MAX_NUMBER_OF_PAGES = MEMORY_SIZE div PAGE_SIZE"

definition tryAsMemoryIndex :: "nat \<Rightarrow> nat throws" where
  "tryAsMemoryIndex index = check (index \<le> MAX_MEMORY_INDEX) (Inr index)"

definition tryAsSbrkIndex :: "nat \<Rightarrow> nat throws" where
  "tryAsSbrkIndex index = check (index \<le> MAX_MEMORY_INDEX + 1) (Inr index)"

definition tryAsPageIndex :: "nat \<Rightarrow> nat throws" where
  "tryAsPageIndex index = check (index < PAGE_SIZE) (Inr index)"

definition tryAsPageNumber :: "nat \<Rightarrow> nat throws" where
  "tryAsPageNumber index = check (index \<le> LAST_PAGE_NUMBER) (Inr index)"

definition getNextPageNumber :: "nat \<Rightarrow> nat throws" where
  "getNextPageNumber pageNumber =
     (let newPageNumber = (if pageNumber = LAST_PAGE_NUMBER then 0 else pageNumber + 1)
      in tryAsPageNumber newPageNumber)"

definition alignToPageSize :: "nat \<Rightarrow> nat" where
  "alignToPageSize len = PAGE_SIZE * ceil_div len PAGE_SIZE"

definition getPageNumber :: "nat \<Rightarrow> nat throws" where
  "getPageNumber address = tryAsPageNumber (nat (js_ushr (int address) (int PAGE_SIZE_SHIFT)))"

definition getStartPageIndex :: "nat \<Rightarrow> nat throws" where
  "getStartPageIndex address = tryAsMemoryIndex (nat (js_ushr
     (js_shl (js_ushr (int address) (int PAGE_SIZE_SHIFT)) (int PAGE_SIZE_SHIFT)) 0))"

definition getStartPageIndexFromPageNumber :: "nat \<Rightarrow> nat throws" where
  "getStartPageIndexFromPageNumber pageNumber =
     tryAsMemoryIndex (nat (js_ushr (js_shl (int pageNumber) (int PAGE_SIZE_SHIFT)) 0))"

section \<open>Page faults\<close>

record page_fault =
  address :: nat
  isAccessFault :: bool

definition fault_fromPageNumber :: "nat \<Rightarrow> bool \<Rightarrow> page_fault throws" where
  "fault_fromPageNumber maybePageNumber acc =
     bindE (tryAsPageNumber maybePageNumber) (\<lambda>pageNumber.
     bindE (getStartPageIndexFromPageNumber pageNumber) (\<lambda>startPageIndex.
     bindE (tryAsU32 (int startPageIndex)) (\<lambda>a. Inr \<lparr>address = nat a, isAccessFault = acc\<rparr>)))"

definition fault_fromMemoryIndex :: "nat \<Rightarrow> bool \<Rightarrow> page_fault throws" where
  "fault_fromMemoryIndex maybeMemoryIndex acc =
     bindE (tryAsMemoryIndex (maybeMemoryIndex mod MEMORY_SIZE)) (\<lambda>memoryIndex.
     bindE (getStartPageIndex memoryIndex) (\<lambda>startPageIndex.
     bindE (tryAsU32 (int startPageIndex)) (\<lambda>a. Inr \<lparr>address = nat a, isAccessFault = acc\<rparr>)))"

section \<open>Memory ranges\<close>

record memory_range =
  mr_start :: nat
  mr_length :: nat
  mr_end :: nat
  mr_lastIndex :: "nat option"

definition new_memoryRange :: "nat \<Rightarrow> nat \<Rightarrow> memory_range throws" where
  "new_memoryRange start len =
     bindE (tryAsMemoryIndex ((start + len) mod MEMORY_SIZE)) (\<lambda>e.
     if len > 0 then
       bindE (tryAsMemoryIndex ((e + MEMORY_SIZE - 1) mod MEMORY_SIZE)) (\<lambda>l.
         Inr \<lparr>mr_start = start, mr_length = len, mr_end = e, mr_lastIndex = Some l\<rparr>)
     else Inr \<lparr>mr_start = start, mr_length = len, mr_end = e, mr_lastIndex = None\<rparr>)"

definition memoryRange_fromStartAndLength :: "nat \<Rightarrow> nat \<Rightarrow> memory_range throws" where
  "memoryRange_fromStartAndLength start len =
     (if len > MEMORY_SIZE then Inl TypeError else new_memoryRange start len)"

definition mr_isEmpty :: "memory_range \<Rightarrow> bool" where
  "mr_isEmpty r \<longleftrightarrow> mr_length r = 0"

definition mr_isWrapped :: "memory_range \<Rightarrow> bool" where
  "mr_isWrapped r \<longleftrightarrow> mr_start r \<ge> mr_end r \<and> \<not> mr_isEmpty r"

definition mr_isInRange :: "memory_range \<Rightarrow> nat \<Rightarrow> bool" where
  "mr_isInRange r addr =
     (if mr_isWrapped r then addr \<ge> mr_start r \<or> addr < mr_end r
      else addr \<ge> mr_start r \<and> addr < mr_end r)"

definition mr_overlapsWith :: "memory_range \<Rightarrow> memory_range \<Rightarrow> bool" where
  "mr_overlapsWith r other =
     (case (mr_lastIndex r, mr_lastIndex other) of
        (Some l, Some l') \<Rightarrow>
          mr_isInRange r (mr_start other) \<or> mr_isInRange r l' \<or>
          mr_isInRange other (mr_start r) \<or> mr_isInRange other l
      | _ \<Rightarrow> False)"

definition RESERVED_MEMORY_RANGE :: "memory_range throws" where
  "RESERVED_MEMORY_RANGE = memoryRange_fromStartAndLength 0 (RESERVED_NUMBER_OF_PAGES * PAGE_SIZE)"

section \<open>Page ranges\<close>

record page_range =
  pr_start :: nat
  pr_length :: nat
  pr_end :: nat

definition new_pageRange :: "nat \<Rightarrow> nat \<Rightarrow> page_range throws" where
  "new_pageRange start len = bindE (tryAsPageNumber ((start + len) mod MAX_NUMBER_OF_PAGES)) (\<lambda>e.
     Inr \<lparr>pr_start = start, pr_length = len, pr_end = e\<rparr>)"

definition pageRange_fromStartAndLength :: "nat \<Rightarrow> nat \<Rightarrow> page_range throws" where
  "pageRange_fromStartAndLength start len =
     (if len > MAX_NUMBER_OF_PAGES then Inl TypeError else new_pageRange start len)"

definition fromMemoryRange :: "memory_range \<Rightarrow> page_range throws" where
  "fromMemoryRange r = bindE (getPageNumber (mr_start r)) (\<lambda>startPage.
     if mr_isEmpty r then new_pageRange startPage 0
     else bindE (getPageNumber (case mr_lastIndex r of Some l \<Rightarrow> l | None \<Rightarrow> mr_end r)) (\<lambda>pageWithLastIndex.
       bindE (getNextPageNumber pageWithLastIndex) (\<lambda>endPage.
         if (startPage = endPage \<or> startPage = pageWithLastIndex) \<and> mr_length r > PAGE_SIZE
         then new_pageRange startPage MAX_NUMBER_OF_PAGES
         else pageRange_fromStartAndLength startPage
           (if startPage < endPage then endPage - startPage
            else MAX_NUMBER_OF_PAGES - startPage + endPage))))"

definition pr_isEmpty :: "page_range \<Rightarrow> bool" where
  "pr_isEmpty r \<longleftrightarrow> pr_length r = 0"

definition pr_isWrapped :: "page_range \<Rightarrow> bool" where
  "pr_isWrapped r \<longleftrightarrow> pr_start r \<ge> pr_end r \<and> \<not> pr_isEmpty r"

definition pr_isInRange :: "page_range \<Rightarrow> nat \<Rightarrow> bool" where
  "pr_isInRange r page =
     (if pr_isWrapped r then page \<ge> pr_start r \<or> page < pr_end r
      else page \<ge> pr_start r \<and> page < pr_end r)"

section \<open>Constants as numbers\<close>

lemma memory_constants [simp]:
  "MAX_MEMORY_INDEX = 4294967295" "MEMORY_SIZE = 4294967296" "PAGE_SIZE_SHIFT = 12"
  "PAGE_SIZE = 4096" "MIN_ALLOCATION_LENGTH = 32" "LAST_PAGE_NUMBER = 1048575"
  "RESERVED_NUMBER_OF_PAGES = 16" "MAX_NUMBER_OF_PAGES = 1048576"
proof -
  show c: "MAX_MEMORY_INDEX = 4294967295" "MEMORY_SIZE = 4294967296" "PAGE_SIZE_SHIFT = 12"
    "RESERVED_NUMBER_OF_PAGES = 16"
    by (simp_all add: MAX_MEMORY_INDEX_def MEMORY_SIZE_def PAGE_SIZE_SHIFT_def RESERVED_NUMBER_OF_PAGES_def)
  show p: "PAGE_SIZE = 4096"
    by (simp add: PAGE_SIZE_def PAGE_SIZE_SHIFT_def js_shl_small)
  show "MIN_ALLOCATION_LENGTH = 32" "LAST_PAGE_NUMBER = 1048575" "MAX_NUMBER_OF_PAGES = 1048576"
    by (simp_all add: MIN_ALLOCATION_LENGTH_def MIN_ALLOCATION_SHIFT_def LAST_PAGE_NUMBER_def
        MAX_NUMBER_OF_PAGES_def p c js_shr_small)
qed

section \<open>Iterating over a page range\<close>

text \<open>
  The generator: \<open>do { yield i; i = next(i) } while (i !== end)\<close>. \<open>end\<close> went through
  \<open>tryAsPageNumber\<close> in the constructor; the first test only says so, and makes the loop total.
\<close>

function page_loop :: "nat \<Rightarrow> nat \<Rightarrow> nat list throws" where
  "page_loop i e =
     (if e > LAST_PAGE_NUMBER then Inl AssertionFailure
      else case getNextPageNumber i of
        Inl err \<Rightarrow> Inl err
      | Inr i' \<Rightarrow> if i' = e then Inr [i] else bindE (page_loop i' e) (\<lambda>is. Inr (i # is)))"
  by auto

definition pr_steps :: "nat \<Rightarrow> nat \<Rightarrow> nat" where
  "pr_steps i e = (e + MAX_NUMBER_OF_PAGES - 1 - i) mod MAX_NUMBER_OF_PAGES"

lemma getNextPageNumber_Inr: "getNextPageNumber i = Inr i' \<longleftrightarrow>
    i \<le> 1048575 \<and> i' = (if i = 1048575 then 0 else i + 1)"
  by (auto simp: getNextPageNumber_def tryAsPageNumber_def Let_def)

lemma pr_steps_next:
  assumes "getNextPageNumber i = Inr i'" "e \<le> 1048575" "i' \<noteq> e"
  shows "pr_steps i e = Suc (pr_steps i' e)"
proof (cases "e > i")
  case True
  with assms have "i' = i + 1" "i + 1 < e" by (auto simp: getNextPageNumber_Inr)
  moreover have "pr_steps i e = e - 1 - i" "pr_steps (i + 1) e = e - 1 - (i + 1)"
    using True assms \<open>i + 1 < e\<close> by (simp_all add: pr_steps_def mod_if)
  ultimately show ?thesis by simp
next
  case False
  with assms show ?thesis by (auto simp: pr_steps_def getNextPageNumber_Inr mod_if)
qed

termination page_loop
  by (relation "measure (\<lambda>(i, e). pr_steps i e)") (auto simp: pr_steps_next)

declare page_loop.simps [simp del]

definition pr_pages :: "page_range \<Rightarrow> nat list throws" where
  "pr_pages r = (if pr_isEmpty r then Inr [] else page_loop (pr_start r) (pr_end r))"

section \<open>The shifts are divisions\<close>

lemma getPageNumber_eq [simp]: "a < 4294967296 \<Longrightarrow> getPageNumber a = Inr (a div 4096)"
proof -
  assume a: "a < 4294967296"
  then have "js_ushr (int a) 12 = int (a div 4096)"
    by (simp add: js_ushr_small zdiv_int)
  with a show ?thesis by (simp add: getPageNumber_def tryAsPageNumber_def)
qed

lemma page_start_ushr: "p < 1048576 \<Longrightarrow> nat (js_ushr (js_shl (int p) 12) 0) = p * 4096"
proof -
  assume p: "p < 1048576"
  have "js_ushr (js_shl (int p) 12) 0 = uint (push_bit 12 (w32 (int p)))"
    by (simp add: js_ushr_uint w32_js_shl shift_count_self del: of_int_of_nat_eq)
  also have "\<dots> = int p * 4096"
    using p by (simp add: push_bit_eq_mult uint_word_ariths mod_pos_pos_trivial unsigned_of_nat take_bit_nat_eq_self)
  finally show ?thesis by simp
qed

lemma getStartPageIndexFromPageNumber_eq [simp]:
  "p < 1048576 \<Longrightarrow> getStartPageIndexFromPageNumber p = Inr (p * 4096)"
  using page_start_ushr [of p]
  by (simp add: getStartPageIndexFromPageNumber_def tryAsMemoryIndex_def)

lemma getStartPageIndex_eq [simp]:
  "a < 4294967296 \<Longrightarrow> getStartPageIndex a = Inr (a div 4096 * 4096)"
proof -
  assume a: "a < 4294967296"
  then have "js_ushr (int a) 12 = int (a div 4096)"
    by (simp add: js_ushr_small zdiv_int)
  with a page_start_ushr [of "a div 4096"] show ?thesis
    by (simp add: getStartPageIndex_def tryAsMemoryIndex_def)
qed

lemma tryAsU32_nat: "n < 4294967296 \<Longrightarrow> tryAsU32 (int n) = Inr (int n)"
  by (simp add: tryAsU32_def isU32_iff)

lemma fault_fromPageNumber_eq [simp]:
  "p < 1048576 \<Longrightarrow> fault_fromPageNumber p acc = Inr \<lparr>address = p * 4096, isAccessFault = acc\<rparr>"
  by (simp add: fault_fromPageNumber_def tryAsPageNumber_def tryAsU32_nat del: of_nat_mult)

lemma fault_fromMemoryIndex_eq [simp]: "fault_fromMemoryIndex a acc =
    Inr \<lparr>address = (a mod 4294967296) div 4096 * 4096, isAccessFault = acc\<rparr>"
  by (simp add: fault_fromMemoryIndex_def tryAsMemoryIndex_def less_Suc_eq_le [symmetric] tryAsU32_nat
      del: of_nat_mult)

section \<open>A memory range is a set of addresses\<close>

definition range_addrs :: "nat \<Rightarrow> nat \<Rightarrow> nat set" where
  "range_addrs s n = (\<lambda>k. (s + k) mod MEMORY_SIZE) ` {..<n}"

lemma memoryRange_eq [simp]:
  assumes "n \<le> 4294967296"
  shows "memoryRange_fromStartAndLength s n = Inr \<lparr>mr_start = s, mr_length = n,
    mr_end = (s + n) mod 4294967296,
    mr_lastIndex = (if n = 0 then None else Some ((s + n - 1) mod 4294967296))\<rparr>"
proof -
  have "(4294967295 + (s + n) mod 4294967296) mod 4294967296 = (s + n - 1) mod 4294967296" if "n > 0"
  proof -
    have "(4294967295 + (s + n) mod 4294967296) mod 4294967296 = (4294967295 + (s + n)) mod 4294967296"
      by (rule mod_add_right_eq)
    also have "4294967295 + (s + n) = (s + n - 1) + 4294967296" using that by simp
    finally show ?thesis by simp
  qed
  with assms show ?thesis
    by (simp add: memoryRange_fromStartAndLength_def new_memoryRange_def tryAsMemoryIndex_def
        less_Suc_eq_le [symmetric])
qed

lemma range_addrs_iff:
  assumes "s < 4294967296" "n \<le> 4294967296"
  shows "a \<in> range_addrs s n \<longleftrightarrow> a < 4294967296 \<and> (if s \<le> a then a - s < n else a + 4294967296 - s < n)"
proof
  assume "a \<in> range_addrs s n"
  then obtain k where k: "k < n" "a = (s + k) mod 4294967296" by (auto simp: range_addrs_def)
  show "a < 4294967296 \<and> (if s \<le> a then a - s < n else a + 4294967296 - s < n)"
  proof (cases "s + k < 4294967296")
    case True
    with k show ?thesis by simp
  next
    case False
    with k assms have "a = s + k - 4294967296" by (simp add: mod_if)
    with k assms False show ?thesis by auto
  qed
next
  assume a: "a < 4294967296 \<and> (if s \<le> a then a - s < n else a + 4294967296 - s < n)"
  show "a \<in> range_addrs s n"
  proof (cases "s \<le> a")
    case True
    with a have "a - s < n" "a = (s + (a - s)) mod MEMORY_SIZE" by auto
    then show ?thesis unfolding range_addrs_def by blast
  next
    case False
    with a assms have "a + 4294967296 - s < n" "a = (s + (a + 4294967296 - s)) mod MEMORY_SIZE" by auto
    then show ?thesis unfolding range_addrs_def by blast
  qed
qed

lemma mr_isInRange_iff:
  assumes "memoryRange_fromStartAndLength s n = Inr r" "s < 4294967296" "n \<le> 4294967296" "a < 4294967296"
  shows "mr_isInRange r a \<longleftrightarrow> a \<in> range_addrs s n"
proof (cases "s + n < 4294967296")
  case True
  with assms show ?thesis
    by (auto simp: range_addrs_iff mr_isInRange_def mr_isWrapped_def mr_isEmpty_def)
next
  case False
  with assms have "(s + n) mod 4294967296 = s + n - 4294967296"
    by (cases "s + n = 8589934592") (auto simp: mod_if)
  with assms False show ?thesis
    by (auto simp: range_addrs_iff mr_isInRange_def mr_isWrapped_def mr_isEmpty_def)
qed

text \<open>Two cyclic intervals meet exactly if one contains the first address of the other.\<close>

lemma range_addrs_meet:
  assumes "s < 4294967296" "n \<le> 4294967296" "t < 4294967296" "m \<le> 4294967296"
    "a \<in> range_addrs s n" "a \<in> range_addrs t m"
  shows "s \<in> range_addrs t m \<or> t \<in> range_addrs s n"
  using assms by (auto simp: range_addrs_iff split: if_splits)

lemma mr_overlapsWith_iff:
  assumes r: "memoryRange_fromStartAndLength s n = Inr r" and r': "memoryRange_fromStartAndLength t m = Inr r'"
    and b: "s < 4294967296" "n \<le> 4294967296" "t < 4294967296" "m \<le> 4294967296"
  shows "mr_overlapsWith r r' \<longleftrightarrow> range_addrs s n \<inter> range_addrs t m \<noteq> {}"
proof (cases "n = 0 \<or> m = 0")
  case True
  with r r' b show ?thesis by (auto simp: mr_overlapsWith_def range_addrs_def split: option.splits)
next
  case False
  let ?l = "\<lambda>s n. (s + n - 1) mod 4294967296 :: nat"
  have own: "s' \<in> range_addrs s' n'" "?l s' n' \<in> range_addrs s' n'" if "n' > 0" "s' < 4294967296" for s' n'
  proof -
    show "s' \<in> range_addrs s' n'" using that by (auto simp: range_addrs_def intro: image_eqI [of _ _ 0])
    show "?l s' n' \<in> range_addrs s' n'"
      using that by (auto simp: range_addrs_def intro!: image_eqI [of _ _ "n' - 1"])
  qed
  have "mr_overlapsWith r r' \<longleftrightarrow> t \<in> range_addrs s n \<or> ?l t m \<in> range_addrs s n \<or>
      s \<in> range_addrs t m \<or> ?l s n \<in> range_addrs t m"
    using False r r' b mr_isInRange_iff [OF r b(1,2)] mr_isInRange_iff [OF r' b(3,4)]
    by (auto simp: mr_overlapsWith_def)
  with own range_addrs_meet [OF b] False b show ?thesis by (metis disjoint_iff gr0I)
qed

section \<open>A page range is the set of pages an access touches\<close>

lemma page_loop_eq:
  assumes "i < 1048576" "e < 1048576"
  shows "page_loop i e = Inr (List.map (\<lambda>k. (i + k) mod 1048576) [0..<Suc (pr_steps i e)])"
  using assms
proof (induction "pr_steps i e" arbitrary: i)
  case 0
  let ?i = "if i = 1048575 then 0 else i + 1"
  have n: "getNextPageNumber i = Inr ?i" using 0(2) by (simp add: getNextPageNumber_Inr)
  have "?i = e" using pr_steps_next [OF n, of e] 0 by fastforce
  then show ?case
    using 0(2,3) by (simp add: page_loop.simps [of i] n 0(1) [symmetric] split: if_splits)
next
  case (Suc x)
  let ?i = "if i = 1048575 then 0 else i + 1"
  have n: "getNextPageNumber i = Inr ?i" using Suc.prems(1) by (simp add: getNextPageNumber_Inr)
  have ne: "?i \<noteq> e"
  proof
    assume "?i = e"
    then have "pr_steps i e = 0" using Suc.prems by (auto simp: pr_steps_def split: if_splits)
    with Suc.hyps(2) show False by simp
  qed
  have x: "x = pr_steps ?i e" using pr_steps_next [OF n _ ne] Suc.prems Suc.hyps(2) by simp
  have IH: "page_loop ?i e = Inr (List.map (\<lambda>k. (?i + k) mod 1048576) [0..<Suc (pr_steps ?i e)])"
    using Suc.prems by (intro Suc.hyps(1) [OF x]) auto
  have shift: "List.map (\<lambda>k. (?i + k) mod 1048576) [0..<j] = List.map (\<lambda>k. (i + k) mod 1048576) [Suc 0..<Suc j]" for j
  proof (cases "i = 1048575")
    case True
    have "k mod 1048576 = (1048575 + Suc k) mod (1048576 :: nat)" for k
      using mod_add_self1 [of 1048576 k] by simp
    with True show ?thesis by (intro nth_equalityI) (auto simp del: upt_Suc)
  qed (auto intro!: nth_equalityI simp del: upt_Suc)
  have "page_loop i e = bindE (page_loop ?i e) (\<lambda>is. Inr (i # is))"
    using n ne Suc.prems by (subst page_loop.simps) auto
  also have "\<dots> = Inr (i # List.map (\<lambda>k. (i + k) mod 1048576) [Suc 0..<Suc (Suc x)])"
    unfolding IH shift x [symmetric] by simp
  also have "i # List.map (\<lambda>k. (i + k) mod 1048576) [Suc 0..<Suc (Suc x)] =
      List.map (\<lambda>k. (i + k) mod 1048576) [0..<Suc (Suc x)]"
    using Suc.prems(1) by (simp add: upt_conv_Cons del: upt_Suc)
  finally show ?case using Suc.hyps(2) by simp
qed

lemma pr_steps_end:
  assumes "i < 1048576" "0 < c" "c \<le> 1048576"
  shows "Suc (pr_steps i ((i + c) mod 1048576)) = c"
proof -
  have "((i + c) mod 1048576 + (1048575 - i)) mod 1048576 = (i + c + (1048575 - i)) mod 1048576"
    by (rule mod_add_left_eq)
  also have "i + c + (1048575 - i) = (c - 1) + 1048576" using assms by simp
  also have "((c - 1) + 1048576) mod 1048576 = c - 1" unfolding mod_add_self2 using assms by simp
  finally have "((i + c) mod 1048576 + (1048575 - i)) mod 1048576 = c - 1" .
  moreover have "(i + c) mod 1048576 + MAX_NUMBER_OF_PAGES - 1 - i = (i + c) mod 1048576 + (1048575 - i)"
    using assms by simp
  ultimately show ?thesis using assms unfolding pr_steps_def by simp
qed

text \<open>The number of pages the range \<open>[s, s + n)\<close> needs; at most all of them.\<close>

definition page_count :: "nat \<Rightarrow> nat \<Rightarrow> nat" where
  "page_count s n = min 1048576 ((s mod 4096 + n + 4095) div 4096)"

definition pages_of :: "nat \<Rightarrow> nat \<Rightarrow> nat list" where
  "pages_of s n = List.map (\<lambda>k. (s div 4096 + k) mod 1048576) [0..<page_count s n]"

lemma new_pageRange_pages:
  assumes "i < 1048576" "0 < c" "c \<le> 1048576"
  shows "bindE (new_pageRange i c) pr_pages = Inr (List.map (\<lambda>k. (i + k) mod 1048576) [0..<c])"
  using assms page_loop_eq [of i "(i + c) mod 1048576"]
  by (simp add: new_pageRange_def tryAsPageNumber_def less_Suc_eq_le [symmetric] pr_pages_def
      pr_isEmpty_def pr_steps_end)

lemma pageRange_pages:
  "i < 1048576 \<Longrightarrow> 0 < c \<Longrightarrow> c \<le> 1048576 \<Longrightarrow> bindE (pageRange_fromStartAndLength i c) pr_pages =
    Inr (List.map (\<lambda>k. (i + k) mod 1048576) [0..<c])"
  using new_pageRange_pages by (simp add: pageRange_fromStartAndLength_def)

lemma page_of_wrapped:
  fixes s k :: nat
  shows "((s + k) mod 4294967296) div 4096 = (s div 4096 + (s mod 4096 + k) div 4096) mod 1048576"
proof -
  have "(s + k) mod 4294967296 = 4096 * (((s + k) div 4096) mod 1048576) + (s + k) mod 4096"
    using mod_mult2_eq [of "s + k" 4096 1048576] by simp
  then have "((s + k) mod 4294967296) div 4096 = ((s + k) div 4096) mod 1048576"
    by simp
  moreover have "(s + k) div 4096 = s div 4096 + (s mod 4096 + k) div 4096"
  proof -
    have "s + k = (s mod 4096 + k) + 4096 * (s div 4096)" by simp
    then show ?thesis by (metis div_mult_self2 zero_neq_numeral)
  qed
  ultimately show ?thesis by simp
qed

lemma page_span: "0 < n \<Longrightarrow> n \<le> 4294967296 \<Longrightarrow> (s mod 4096 + (n - 1)) div 4096 \<le> (1048576 :: nat)"
  using mod_less_divisor [of 4096 s] less_mult_imp_div_less [of "s mod 4096 + (n - 1)" 1048577 4096]
  by simp

lemma page_count_span: "0 < n \<Longrightarrow> page_count s n = min 1048576 ((s mod 4096 + (n - 1)) div 4096 + 1)"
proof -
  assume "0 < n"
  then have "s mod 4096 + n + 4095 = (s mod 4096 + (n - 1)) + 4096" by simp
  then show ?thesis unfolding page_count_def by (metis div_add_self2 zero_neq_numeral)
qed

lemma fromMemoryRange_pages:
  assumes s: "s < 4294967296" and n: "0 < n" "n \<le> 4294967296"
    and r: "memoryRange_fromStartAndLength s n = Inr r"
  shows "bindE (fromMemoryRange r) pr_pages = Inr (pages_of s n)"
proof -
  define q where "q = (s mod 4096 + (n - 1)) div 4096"
  define L where "L = ((s + n - 1) mod 4294967296) div 4096"
  define E where "E = (if L = 1048575 then 0 else L + 1)"
  let ?S = "s div 4096"
  have S: "?S < 1048576" using s by (simp add: less_mult_imp_div_less)
  have L: "L = (?S + q) mod 1048576"
    using page_of_wrapped [of s "n - 1"] n by (simp add: q_def L_def)
  have q: "q \<le> 1048576" unfolding q_def by (rule page_span [OF n])
  have count: "page_count s n = min 1048576 (q + 1)"
    unfolding q_def by (rule page_count_span [OF n(1)])
  have E: "E = (?S + q + 1) mod 1048576" unfolding E_def L by (simp add: mod_Suc)
  have Lb: "L \<le> 1048575" unfolding L by simp
  have nxt: "getNextPageNumber L = Inr E" using Lb unfolding getNextPageNumber_Inr E_def by blast
  have r': "r = \<lparr>mr_start = s, mr_length = n, mr_end = (s + n) mod 4294967296,
      mr_lastIndex = Some ((s + n - 1) mod 4294967296)\<rparr>"
    using r n by simp
  have fm: "fromMemoryRange r = (if (?S = E \<or> ?S = L) \<and> n > 4096 then new_pageRange ?S 1048576
      else pageRange_fromStartAndLength ?S (if ?S < E then E - ?S else 1048576 - ?S + E))"
    using s n nxt unfolding r' fromMemoryRange_def by (simp add: mr_isEmpty_def L_def [symmetric, unfolded One_nat_def])
  show ?thesis
  proof (cases "q \<ge> 1048575")
    case True
    have "n > 4096"
    proof (rule ccontr)
      assume "\<not> n > 4096"
      then have "q < 2" unfolding q_def using mod_less_divisor [of 4096 s]
        by (intro less_mult_imp_div_less) simp
      with True show False by simp
    qed
    moreover have "?S = E \<or> ?S = L"
    proof (cases "q = 1048575")
      case True
      then have "E = ?S" unfolding E using S mod_add_self2 [of ?S 1048576] by simp
      then show ?thesis by simp
    next
      case False
      with \<open>q \<ge> 1048575\<close> q have "q = 1048576" by simp
      then show ?thesis unfolding L using S by simp
    qed
    ultimately show ?thesis
      using True new_pageRange_pages [OF S, of 1048576] by (simp add: fm pages_of_def count)
  next
    case False
    have E': "E = (if ?S + q + 1 < 1048576 then ?S + q + 1 else ?S + q + 1 - 1048576)"
      unfolding E using S False by (auto simp: le_mod_geq)
    have L': "L = (if ?S + q < 1048576 then ?S + q else ?S + q - 1048576)"
      unfolding L using S False by (auto simp: le_mod_geq)
    have "\<not> ((?S = E \<or> ?S = L) \<and> n > 4096)"
    proof
      assume a: "(?S = E \<or> ?S = L) \<and> n > 4096"
      then have "4096 \<le> s mod 4096 + (n - 1)" by linarith
      then have "q > 0" unfolding q_def by (simp add: div_greater_zero_iff)
      with a S False show False unfolding E' L' by (auto split: if_splits)
    qed
    moreover have "(if ?S < E then E - ?S else 1048576 - ?S + E) = q + 1"
      using S False unfolding E' by (auto split: if_splits)
    ultimately have "fromMemoryRange r = pageRange_fromStartAndLength ?S (q + 1)"
      unfolding fm by (simp only: if_False)
    then show ?thesis
      using False pageRange_pages [OF S, of "q + 1"] by (simp add: pages_of_def count)
  qed
qed

lemma pages_of_touched:
  assumes s: "s < 4294967296" and n: "0 < n" "n \<le> 4294967296"
  shows "set (pages_of s n) = (\<lambda>a. a div 4096) ` range_addrs s n"
proof -
  let ?f = "\<lambda>j. (s div 4096 + j) mod 1048576"
  define q where "q = (s mod 4096 + (n - 1)) div 4096"
  have count: "page_count s n = min 1048576 (q + 1)"
    unfolding q_def by (rule page_count_span [OF n(1)])
  have q: "q \<le> 1048576" unfolding q_def by (rule page_span [OF n])
  define r where "r = s mod 4096"
  have r: "r < 4096" by (simp add: r_def)
  have touched: "(\<lambda>k. (r + k) div 4096) ` {..<n} = {..q}"
  proof (intro equalityI subsetI)
    fix j assume "j \<in> (\<lambda>k. (r + k) div 4096) ` {..<n}"
    then show "j \<in> {..q}" by (auto simp: q_def r_def [symmetric] intro!: div_le_mono)
  next
    fix j assume "j \<in> {..q}"
    then have j: "j * 4096 \<le> r + (n - 1)"
      by (simp add: q_def r_def [symmetric] less_eq_div_iff_mult_less_eq)
    let ?k = "j * 4096 - r"
    have "?k < n" using j n by linarith
    moreover have "(r + ?k) div 4096 = j"
    proof (cases j)
      case (Suc i)
      then have "r + ?k = j * 4096" using r by linarith
      then show ?thesis by simp
    qed (simp add: r)
    ultimately show "j \<in> (\<lambda>k. (r + k) div 4096) ` {..<n}" by (metis image_eqI lessThan_iff)
  qed
  have "(\<lambda>a. a div 4096) ` range_addrs s n = ?f ` {..q}"
    unfolding range_addrs_def image_image memory_constants page_of_wrapped touched [symmetric] r_def ..
  also have "\<dots> = ?f ` {..<min 1048576 (q + 1)}"
  proof (cases "q = 1048576")
    case True
    then have "{..q} = insert 1048576 {..<min 1048576 (q + 1)}" by auto
    moreover have "?f 1048576 \<in> ?f ` {..<min 1048576 (q + 1)}"
      using True by (intro image_eqI [of _ _ 0]) auto
    ultimately show ?thesis by (simp only: image_insert insert_absorb)
  next
    case False
    with q have "{..q} = {..<min 1048576 (q + 1)}" by auto
    then show ?thesis by simp
  qed
  finally show ?thesis unfolding pages_of_def count by (simp only: set_map set_upt lessThan_atLeast0)
qed

lemma new_pageRange_Inr: "new_pageRange i c = Inr pr \<Longrightarrow>
    pr_start pr = i \<and> pr_length pr = c \<and> pr_end pr = (i + c) mod 1048576"
  by (auto simp: new_pageRange_def bindE_Inr_iff tryAsPageNumber_def)

lemma pageRange_Inr: "pageRange_fromStartAndLength i c = Inr pr \<Longrightarrow>
    pr_start pr = i \<and> pr_length pr = c \<and> c \<le> 1048576 \<and> pr_end pr = (i + c) mod 1048576"
  by (auto simp: pageRange_fromStartAndLength_def split: if_splits dest: new_pageRange_Inr)

lemma fromMemoryRange_wf:
  assumes fm: "fromMemoryRange r = Inr pr" and s: "mr_start r < 4294967296"
  shows "pr_start pr < 1048576" "pr_length pr \<le> 1048576"
    "pr_end pr = (pr_start pr + pr_length pr) mod 1048576"
proof -
  have S: "mr_start r div 4096 < 1048576" using s by (simp add: less_mult_imp_div_less)
  obtain c where "new_pageRange (mr_start r div 4096) c = Inr pr \<and> c \<le> 1048576 \<or>
      pageRange_fromStartAndLength (mr_start r div 4096) c = Inr pr"
    using fm s unfolding fromMemoryRange_def getPageNumber_eq [OF s] bindE.simps
    by (fastforce simp: bindE_Inr_iff split: if_splits)
  then show "pr_start pr < 1048576" "pr_length pr \<le> 1048576"
    "pr_end pr = (pr_start pr + pr_length pr) mod 1048576"
    using S by (auto dest!: new_pageRange_Inr pageRange_Inr)
qed

text \<open>Membership in a page range agrees with iteration over it.\<close>

lemma pr_isInRange_iff:
  assumes w: "pr_start pr < 1048576" "pr_length pr \<le> 1048576"
    "pr_end pr = (pr_start pr + pr_length pr) mod 1048576" and p: "p < 1048576"
    and ps: "pr_pages pr = Inr ps"
  shows "pr_isInRange pr p \<longleftrightarrow> p \<in> set ps"
proof -
  let ?i = "pr_start pr" and ?c = "pr_length pr"
  show ?thesis
  proof (cases "?c = 0")
    case True
    with w ps show ?thesis
      by (auto simp: pr_isInRange_def pr_isWrapped_def pr_isEmpty_def pr_pages_def)
  next
    case False
    have "bindE (new_pageRange ?i ?c) pr_pages = Inr (List.map (\<lambda>k. (?i + k) mod 1048576) [0..<?c])"
      using w False by (intro new_pageRange_pages) auto
    moreover have "new_pageRange ?i ?c = Inr pr"
      using w(3) by (cases pr) (simp add: new_pageRange_def tryAsPageNumber_def less_Suc_eq_le [symmetric])
    ultimately have set: "set ps = (\<lambda>k. (?i + k) mod 1048576) ` {..<?c}" using ps by auto
    have cyc: "p \<in> set ps \<longleftrightarrow> (if ?i \<le> p then p - ?i < ?c else p + 1048576 - ?i < ?c)"
    proof
      assume "p \<in> set ps"
      then obtain k where k: "k < ?c" "p = (?i + k) mod 1048576" by (auto simp: set)
      show "if ?i \<le> p then p - ?i < ?c else p + 1048576 - ?i < ?c"
      proof (cases "?i + k < 1048576")
        case True
        with k show ?thesis by simp
      next
        case False
        with k w have "p = ?i + k - 1048576" by (simp add: le_mod_geq)
        with k w False show ?thesis by auto
      qed
    next
      assume a: "if ?i \<le> p then p - ?i < ?c else p + 1048576 - ?i < ?c"
      show "p \<in> set ps"
      proof (cases "?i \<le> p")
        case True
        with a p have "p - ?i < ?c" "p = (?i + (p - ?i)) mod 1048576" by auto
        then show ?thesis unfolding set by blast
      next
        case False
        with a p w have "p + 1048576 - ?i < ?c" "p = (?i + (p + 1048576 - ?i)) mod 1048576" by auto
        then show ?thesis unfolding set by blast
      qed
    qed
    show ?thesis
    proof (cases "?i + ?c < 1048576")
      case True
      with w p False show ?thesis
        unfolding cyc by (auto simp: pr_isInRange_def pr_isWrapped_def pr_isEmpty_def)
    next
      case F: False
      with w have "(?i + ?c) mod 1048576 = ?i + ?c - 1048576"
        by (cases "?i + ?c = 2097152") (auto simp: le_mod_geq)
      with w p False F show ?thesis
        unfolding cyc by (auto simp: pr_isInRange_def pr_isWrapped_def pr_isEmpty_def)
    qed
  qed
qed

end
