(* ===== verification/Memory.thy ===== *)
theory Memory
  imports MemoryRanges
begin

text \<open>
  The memory of the PVM: \<open>memory/pages/*.ts\<close> and \<open>memory.ts\<close>. A page object is only ever
  reached through the map of the memory that holds it, so a reference to a page is the page
  number it is stored under, and mutating the object is updating the map. (Two memories sharing
  one map after \<open>copyFrom\<close>, and a read-only page sharing its bytes with the array it was made
  from, are outside the model.) The reference is \<open>mem_byte\<close>: the byte an address shows.
\<close>

section \<open>Typed arrays\<close>

text \<open>\<open>xs.set(src, off)\<close> throws when the source does not fit; \<open>buffer.resize(n)\<close> pads with zeros;
  \<open>xs.fill(0, s, e)\<close> clamps to the array.\<close>

definition typed_set :: "byte list \<Rightarrow> byte list \<Rightarrow> nat \<Rightarrow> byte list throws" where
  "typed_set xs src off = (if off + length src > length xs then Inl RangeError else Inr (blit xs off src))"

definition resize :: "nat \<Rightarrow> byte list \<Rightarrow> byte list" where
  "resize n xs = take n xs @ replicate (n - length xs) 0"

definition fill_zero :: "nat \<Rightarrow> nat \<Rightarrow> byte list \<Rightarrow> byte list" where
  "fill_zero s e xs = List.map (\<lambda>i. if s \<le> i \<and> i < e then 0 else xs ! i) [0..<length xs]"

section \<open>Pages\<close>

datatype memory_page =
    ReadablePage (page_start: nat) (page_data: "byte list")
  | WriteablePage (page_start: nat) (page_data: "byte list")

definition new_ReadablePage :: "nat \<Rightarrow> byte list \<Rightarrow> memory_page throws" where
  "new_ReadablePage pageNumber data = bindE (getStartPageIndexFromPageNumber pageNumber) (\<lambda>start.
     Inr (ReadablePage start data))"

definition new_WriteablePage :: "nat \<Rightarrow> byte list option \<Rightarrow> memory_page throws" where
  "new_WriteablePage pageNumber initialData = bindE (getStartPageIndexFromPageNumber pageNumber) (\<lambda>start.
     let dataLength = (case initialData of Some d \<Rightarrow> length d | None \<Rightarrow> 0);
         initialPageLength = min PAGE_SIZE (max dataLength MIN_ALLOCATION_LENGTH);
         view = replicate initialPageLength 0
     in case initialData of
          Some d \<Rightarrow> bindE (typed_set view d 0) (\<lambda>view. Inr (WriteablePage start view))
        | None \<Rightarrow> Inr (WriteablePage start view))"

fun isWriteable :: "memory_page \<Rightarrow> bool" where
  "isWriteable (ReadablePage _ _) = False"
| "isWriteable (WriteablePage _ _) = True"

text \<open>Both classes load alike. The result array is returned; on a fault it is untouched.\<close>

definition page_loadInto :: "memory_page \<Rightarrow> byte list \<Rightarrow> nat \<Rightarrow> nat \<Rightarrow> (page_fault + byte list) throws" where
  "page_loadInto page result startIndex len =
     (let endIndex = startIndex + len in
      if endIndex > PAGE_SIZE then
        bindE (fault_fromMemoryIndex (page_start page + PAGE_SIZE) False) (\<lambda>f. Inr (Inl f))
      else
        let bytes = subarray (page_data page) startIndex endIndex;
            result = fill_zero (length bytes) len result
        in bindE (typed_set result bytes 0) (\<lambda>result. Inr (Inr result)))"

definition grow_view :: "nat \<Rightarrow> nat \<Rightarrow> byte list \<Rightarrow> byte list" where
  "grow_view startIndex n view =
     (if length view < startIndex + n \<and> length view < PAGE_SIZE
      then resize (min PAGE_SIZE (max MIN_ALLOCATION_LENGTH (startIndex + n))) view
      else view)"

fun page_storeFrom :: "memory_page \<Rightarrow> nat \<Rightarrow> byte list \<Rightarrow> ((page_fault + unit) \<times> memory_page) throws" where
  "page_storeFrom (ReadablePage start data) startIndex bytes =
     bindE (fault_fromMemoryIndex start True) (\<lambda>f. Inr (Inl f, ReadablePage start data))"
| "page_storeFrom (WriteablePage start view) startIndex bytes =
     bindE (typed_set (grow_view startIndex (length bytes) view) bytes startIndex) (\<lambda>view.
       Inr (Inr (), WriteablePage start view))"

fun page_setData :: "memory_page \<Rightarrow> nat \<Rightarrow> byte list \<Rightarrow> memory_page throws" where
  "page_setData (ReadablePage start data) pageIndex bytes =
     bindE (typed_set data bytes pageIndex) (\<lambda>data. Inr (ReadablePage start data))"
| "page_setData (WriteablePage start view) pageIndex bytes =
     bindE (typed_set (grow_view pageIndex (length bytes) view) bytes pageIndex) (\<lambda>view.
       Inr (WriteablePage start view))"

section \<open>Memory\<close>

record memory =
  sbrkIndex :: nat
  virtualSbrkIndex :: nat
  endHeapIndex :: nat
  pages :: "nat \<rightharpoonup> memory_page"

datatype access_type = READ | WRITE

definition fromInitialMemory :: "(nat \<rightharpoonup> memory_page) \<Rightarrow> nat \<Rightarrow> nat \<Rightarrow> memory" where
  "fromInitialMemory mem sbrk endHeap =
     \<lparr>sbrkIndex = sbrk, virtualSbrkIndex = sbrk, endHeapIndex = endHeap, pages = mem\<rparr>"

text \<open>\<open>new Memory()\<close> and \<open>reset\<close>: the defaults.\<close>

definition new_memory :: "memory throws" where
  "new_memory =
     bindE RESERVED_MEMORY_RANGE (\<lambda>r.
     bindE (tryAsSbrkIndex (mr_end r)) (\<lambda>s.
     bindE (tryAsSbrkIndex MAX_MEMORY_INDEX) (\<lambda>e.
       Inr \<lparr>sbrkIndex = s, virtualSbrkIndex = s, endHeapIndex = e, pages = Map.empty\<rparr>)))"

definition memory_reset :: "memory \<Rightarrow> memory throws" where
  "memory_reset m = new_memory"

definition copyFrom_memory :: "memory \<Rightarrow> memory \<Rightarrow> memory" where
  "copyFrom_memory this m = this\<lparr>sbrkIndex := sbrkIndex m, virtualSbrkIndex := virtualSbrkIndex m,
     endHeapIndex := endHeapIndex m, pages := pages m\<rparr>"

fun getPages_loop :: "memory \<Rightarrow> access_type \<Rightarrow> nat list \<Rightarrow> nat list \<Rightarrow> (page_fault + nat list) throws" where
  "getPages_loop m acc [] found = Inr (Inr found)"
| "getPages_loop m acc (pageNumber # rest) found =
     (if pageNumber < RESERVED_NUMBER_OF_PAGES then
        bindE (fault_fromPageNumber pageNumber True) (\<lambda>f. Inr (Inl f))
      else case pages m pageNumber of
        None \<Rightarrow> bindE (fault_fromPageNumber pageNumber False) (\<lambda>f. Inr (Inl f))
      | Some page \<Rightarrow>
          if acc = WRITE \<and> \<not> isWriteable page then
            bindE (fault_fromPageNumber pageNumber True) (\<lambda>f. Inr (Inl f))
          else getPages_loop m acc rest (found @ [pageNumber]))"

definition getPages :: "memory \<Rightarrow> nat \<Rightarrow> nat \<Rightarrow> access_type \<Rightarrow> (page_fault + nat list) throws" where
  "getPages m startAddress len acc =
     (if len = 0 then Inr (Inr [])
      else bindE (memoryRange_fromStartAndLength startAddress len) (\<lambda>memoryRange.
           bindE (fromMemoryRange memoryRange) (\<lambda>pageRange.
           bindE (pr_pages pageRange) (\<lambda>ps. getPages_loop m acc ps []))))"

text \<open>The copying loops: a page found by \<open>getPages\<close> is in the map; the \<open>None\<close> branches are dead.\<close>

fun store_loop :: "nat list \<Rightarrow> nat \<Rightarrow> nat \<Rightarrow> nat \<Rightarrow> byte list \<Rightarrow> memory \<Rightarrow> memory throws" where
  "store_loop [] currentPosition bytesLeft addr bytes m = Inr m"
| "store_loop (p # ps) currentPosition bytesLeft addr bytes m =
     bindE (tryAsPageIndex (currentPosition mod PAGE_SIZE)) (\<lambda>pageStartIndex.
       let bytesToWrite = min (PAGE_SIZE - pageStartIndex) bytesLeft;
           sourceStartIndex = currentPosition - addr;
           src = subarray bytes sourceStartIndex (sourceStartIndex + bytesToWrite)
       in case pages m p of
            None \<Rightarrow> Inl TypeError
          | Some page \<Rightarrow>
              bindE (page_storeFrom page pageStartIndex src) (\<lambda>(_, page).
                store_loop ps (currentPosition + bytesToWrite) (bytesLeft - bytesToWrite) addr bytes
                  (m\<lparr>pages := (pages m)(p \<mapsto> page)\<rparr>)))"

definition storeFrom :: "nat \<Rightarrow> byte list \<Rightarrow> memory \<Rightarrow> ((page_fault + unit) \<times> memory) throws" where
  "storeFrom addr bytes m =
     (if length bytes = 0 then Inr (Inr (), m)
      else bindE (getPages m addr (length bytes) WRITE) (\<lambda>pagesResult.
        case pagesResult of
          Inl f \<Rightarrow> Inr (Inl f, m)
        | Inr ps \<Rightarrow> bindE (store_loop ps addr (length bytes) addr bytes m) (\<lambda>m. Inr (Inr (), m))))"

fun load_loop :: "nat list \<Rightarrow> nat \<Rightarrow> nat \<Rightarrow> nat \<Rightarrow> byte list \<Rightarrow> memory \<Rightarrow> byte list throws" where
  "load_loop [] currentPosition bytesLeft startAddress result m = Inr result"
| "load_loop (p # ps) currentPosition bytesLeft startAddress result m =
     bindE (tryAsPageIndex (currentPosition mod PAGE_SIZE)) (\<lambda>pageStartIndex.
       let bytesToRead = min (PAGE_SIZE - pageStartIndex) bytesLeft;
           destinationStartIndex = currentPosition - startAddress
       in case pages m p of
            None \<Rightarrow> Inl TypeError
          | Some page \<Rightarrow>
              bindE (page_loadInto page (drop destinationStartIndex result) pageStartIndex bytesToRead) (\<lambda>r.
                let result = (case r of Inr destination \<Rightarrow> take destinationStartIndex result @ destination
                                      | Inl _ \<Rightarrow> result)
                in load_loop ps (currentPosition + bytesToRead) (bytesLeft - bytesToRead)
                     startAddress result m))"

definition loadInto :: "byte list \<Rightarrow> nat \<Rightarrow> memory \<Rightarrow> (page_fault + byte list) throws" where
  "loadInto result startAddress m =
     (if length result = 0 then Inr (Inr result)
      else bindE (getPages m startAddress (length result) READ) (\<lambda>pagesResult.
        case pagesResult of
          Inl f \<Rightarrow> Inr (Inl f)
        | Inr ps \<Rightarrow> bindE (load_loop ps startAddress (length result) startAddress result m) (\<lambda>result.
            Inr (Inr result))))"

definition memory_store :: "nat \<Rightarrow> byte list \<Rightarrow> memory \<Rightarrow> ((page_fault + unit) \<times> memory) throws" where
  "memory_store addr bytes m = bindE (tryAsMemoryIndex addr) (\<lambda>a. storeFrom a bytes m)"

definition memory_read :: "nat \<Rightarrow> byte list \<Rightarrow> memory \<Rightarrow> (page_fault + byte list) throws" where
  "memory_read addr out m = bindE (tryAsMemoryIndex addr) (\<lambda>a. loadInto out a m)"

fun allocate_loop :: "nat list \<Rightarrow> (nat \<rightharpoonup> memory_page) \<Rightarrow> (nat \<rightharpoonup> memory_page) throws" where
  "allocate_loop [] mem = Inr mem"
| "allocate_loop (p # ps) mem = bindE (new_WriteablePage p None) (\<lambda>page.
     allocate_loop ps (mem(p \<mapsto> page)))"

text \<open>\<open>(newSbrkIndex - currentSbrkIndex) / PAGE_SIZE\<close> may be fractional; \<open>fromStartAndLength\<close> then
  throws its \<open>TypeError\<close>.\<close>

definition sbrk :: "nat \<Rightarrow> memory \<Rightarrow> (nat \<times> memory) throws" where
  "sbrk len m =
     (let currentSbrkIndex = sbrkIndex m; currentVirtualSbrkIndex = virtualSbrkIndex m in
      if MAX_MEMORY_INDEX < currentVirtualSbrkIndex + len \<or> currentVirtualSbrkIndex + len > endHeapIndex m
      then Inl OutOfMemory
      else bindE (tryAsSbrkIndex (currentVirtualSbrkIndex + len)) (\<lambda>newVirtualSbrkIndex.
        if newVirtualSbrkIndex \<le> currentSbrkIndex then
          Inr (currentVirtualSbrkIndex, m\<lparr>virtualSbrkIndex := newVirtualSbrkIndex\<rparr>)
        else bindE (tryAsSbrkIndex (alignToPageSize newVirtualSbrkIndex)) (\<lambda>newSbrkIndex.
             bindE (getPageNumber currentSbrkIndex) (\<lambda>firstPageNumber.
             if (newSbrkIndex - currentSbrkIndex) mod PAGE_SIZE \<noteq> 0 then Inl TypeError else
             bindE (pageRange_fromStartAndLength firstPageNumber
                      ((newSbrkIndex - currentSbrkIndex) div PAGE_SIZE)) (\<lambda>rangeToAllocate.
             bindE (pr_pages rangeToAllocate) (\<lambda>ps.
             bindE (allocate_loop ps (pages m)) (\<lambda>mem.
               Inr (currentVirtualSbrkIndex, m\<lparr>pages := mem, virtualSbrkIndex := newVirtualSbrkIndex,
                      sbrkIndex := newSbrkIndex\<rparr>))))))))"

definition getPageDump :: "nat \<Rightarrow> memory \<Rightarrow> byte list option" where
  "getPageDump pageNumber m = map_option page_data (pages m pageNumber)"

text \<open>\<open>getDirtyPages\<close>: the keys of the map, whose order is not modelled.\<close>

definition getDirtyPages :: "memory \<Rightarrow> nat set" where
  "getDirtyPages m = dom (pages m)"

section \<open>What an address shows\<close>

definition data_at :: "byte list \<Rightarrow> nat \<Rightarrow> byte" where
  "data_at d i = (if i < length d then d ! i else 0)"

definition mem_byte :: "memory \<Rightarrow> nat \<Rightarrow> byte" where
  "mem_byte m a = (case pages m (a div 4096) of None \<Rightarrow> 0 | Some p \<Rightarrow> data_at (page_data p) (a mod 4096))"

definition accessible :: "memory \<Rightarrow> access_type \<Rightarrow> nat \<Rightarrow> bool" where
  "accessible m acc p \<longleftrightarrow> 16 \<le> p \<and>
     (case pages m p of None \<Rightarrow> False | Some page \<Rightarrow> acc = WRITE \<longrightarrow> isWriteable page)"

definition fault_at :: "memory \<Rightarrow> nat \<Rightarrow> page_fault" where
  "fault_at m p = \<lparr>address = p * 4096, isAccessFault = (p < 16 \<or> pages m p \<noteq> None)\<rparr>"

definition wf_page :: "nat \<Rightarrow> memory_page \<Rightarrow> bool" where
  "wf_page p page \<longleftrightarrow> p < 1048576 \<and> page_start page = p * 4096 \<and> length (page_data page) \<le> 4096"

definition wf_pages :: "(nat \<rightharpoonup> memory_page) \<Rightarrow> bool" where
  "wf_pages mem \<longleftrightarrow> (\<forall>p page. mem p = Some page \<longrightarrow> wf_page p page)"

section \<open>Which pages an access gets\<close>

lemma getPages_loop_eq:
  assumes "\<forall>p \<in> set ps. p < 1048576"
  shows "getPages_loop m acc ps found = Inr (case List.find (\<lambda>p. \<not> accessible m acc p) ps of
    None \<Rightarrow> Inr (found @ ps) | Some p \<Rightarrow> Inl (fault_at m p))"
  using assms
  by (induction ps arbitrary: found)
     (auto simp: accessible_def fault_at_def split: option.splits)

lemma pages_of_less: "p \<in> set (pages_of s n) \<Longrightarrow> p < 1048576"
  by (auto simp: pages_of_def)

lemma getPages_eq:
  assumes "s < 4294967296" "0 < n" "n \<le> 4294967296"
  shows "getPages m s n acc = Inr (case List.find (\<lambda>p. \<not> accessible m acc p) (pages_of s n) of
    None \<Rightarrow> Inr (pages_of s n) | Some p \<Rightarrow> Inl (fault_at m p))"
proof -
  obtain r where r: "memoryRange_fromStartAndLength s n = Inr r" using memoryRange_eq [OF assms(3)] by blast
  obtain pr where pr: "fromMemoryRange r = Inr pr" "pr_pages pr = Inr (pages_of s n)"
    using fromMemoryRange_pages [OF assms r] by (auto simp: bindE_Inr_iff)
  have "\<forall>p \<in> set (pages_of s n). p < 1048576" using pages_of_less by blast
  with assms r pr show ?thesis by (simp add: getPages_def getPages_loop_eq split: option.split)
qed

lemma getPages_too_long:
  "n > 4294967296 \<Longrightarrow> getPages m s n acc = Inl TypeError"
  by (simp add: getPages_def memoryRange_fromStartAndLength_def)

text \<open>Page 0 is reserved, so an access that wraps around faults: granted accesses are contiguous.\<close>

definition granted :: "memory \<Rightarrow> access_type \<Rightarrow> nat \<Rightarrow> nat \<Rightarrow> bool" where
  "granted m acc s n \<longleftrightarrow> (\<forall>a \<in> range_addrs s n. accessible m acc (a div 4096))"

lemma granted_no_wrap:
  assumes "granted m acc s n" "s < 4294967296"
  shows "s + n \<le> 4294967296"
proof (rule ccontr)
  assume "\<not> s + n \<le> 4294967296"
  then have "0 \<in> range_addrs s n"
    using assms(2) unfolding range_addrs_def by (intro image_eqI [of _ _ "4294967296 - s"]) auto
  with assms(1) show False by (auto simp: granted_def accessible_def)
qed

lemma granted_iff:
  "granted m acc s n \<longleftrightarrow> (\<forall>k < n. accessible m acc (((s + k) mod 4294967296) div 4096))"
  by (auto simp: granted_def range_addrs_def)

lemma granted_find:
  assumes "s < 4294967296" "0 < n" "n \<le> 4294967296"
  shows "granted m acc s n \<longleftrightarrow> List.find (\<lambda>p. \<not> accessible m acc p) (pages_of s n) = None"
  by (simp add: find_None_iff pages_of_touched [OF assms] granted_def)

text \<open>The pages of a contiguous access.\<close>

lemma pages_of_contiguous:
  assumes "s + n \<le> 4294967296" "0 < n"
  shows "pages_of s n = [s div 4096..<Suc ((s + n - 1) div 4096)]"
proof -
  let ?S = "s div 4096" and ?L = "(s + n - 1) div 4096"
  have "s + n - 1 = (s mod 4096 + (n - 1)) + 4096 * ?S" using assms(2) by simp
  then have L: "?L = ?S + (s mod 4096 + (n - 1)) div 4096" by (metis div_mult_self2 zero_neq_numeral)
  have less: "?L < 1048576" using assms by (intro less_mult_imp_div_less) simp
  with L have c: "page_count s n = Suc ?L - ?S"
    using page_count_span [OF assms(2), of s] by simp
  show ?thesis
    unfolding pages_of_def c using less L by (intro nth_equalityI) (auto simp del: upt_Suc)
qed

section \<open>Loading\<close>

lemma page_loadInto_eq:
  assumes "wf_page p page" "i + n \<le> 4096" "n \<le> length result"
  shows "page_loadInto page result i n =
    Inr (Inr (List.map (\<lambda>k. data_at (page_data page) (i + k)) [0..<n] @ drop n result))"
proof -
  let ?d = "page_data page"
  let ?b = "subarray ?d i (i + n)"
  have len: "length ?b \<le> n" by simp
  have r: "typed_set (fill_zero (length ?b) n result) ?b 0 = Inr (blit (fill_zero (length ?b) n result) 0 ?b)"
    using len assms(3) by (simp add: typed_set_def fill_zero_def del: length_subarray)
  have "blit (fill_zero (length ?b) n result) 0 ?b =
      List.map (\<lambda>k. data_at ?d (i + k)) [0..<n] @ drop n result" (is "?l = ?r")
  proof (rule nth_equalityI)
    show ll: "length ?l = length ?r"
      using len assms(3) by (simp add: fill_zero_def del: length_subarray)
    fix j assume "j < length ?l"
    then have j: "j < length result" using ll assms(3) by simp
    show "?l ! j = ?r ! j"
    proof (cases "j < length ?b")
      case True
      then show ?thesis
        using j len assms(3) by (subst nth_blit) (auto simp: fill_zero_def nth_append data_at_def nth_subarray)
    next
      case False
      then show ?thesis
        using j len assms(3)
        by (subst nth_blit) (auto simp: fill_zero_def nth_append data_at_def)
    qed
  qed
  with r assms(2) show ?thesis by (simp add: page_loadInto_def Let_def del: length_subarray)
qed

lemma mem_byte_on_page: "pages m p = Some page \<Longrightarrow> i < 4096 \<Longrightarrow>
    mem_byte m (p * 4096 + i) = data_at (page_data page) i"
  by (simp add: mem_byte_def)

text \<open>One round of the copying loops, as arithmetic.\<close>

lemma page_step:
  fixes cur left P Q :: nat
  assumes "cur div 4096 = P" "P < Q" "(Q - 1) * 4096 < cur + left" "cur + left \<le> Q * 4096"
    and n: "n = min (4096 - cur mod 4096) left"
  shows "cur mod 4096 + n \<le> 4096" "n \<le> left" "Suc P < Q \<Longrightarrow> (cur + n) div 4096 = Suc P"
    "Q \<le> Suc P \<Longrightarrow> n = left" "\<And>k. k < n \<Longrightarrow> (cur + k) div 4096 = P \<and> (cur + k) mod 4096 = cur mod 4096 + k"
proof -
  obtain i where i: "cur = P * 4096 + i" "i < 4096" "cur mod 4096 = i"
    using assms(1) by (metis div_mult_mod_eq mod_less_divisor zero_less_numeral)
  show "cur mod 4096 + n \<le> 4096" "n \<le> left" using i n by auto
  have Q: "Suc P < Q \<Longrightarrow> (Q - 1) * 4096 \<ge> P * 4096 + 4096"
  proof -
    assume "Suc P < Q"
    then have "Suc P * 4096 \<le> (Q - 1) * 4096" by (intro mult_le_mono1) simp
    then show ?thesis by simp
  qed
  show "(cur + n) div 4096 = Suc P" if "Suc P < Q"
  proof -
    have "cur + n = Suc P * 4096" using Q [OF that] assms(3) i n by simp
    then show ?thesis by (simp only: nonzero_mult_div_cancel_right zero_neq_numeral)
  qed
  show "n = left" if "Q \<le> Suc P"
  proof -
    have "Q = Suc P" using that assms(2) by simp
    then show ?thesis using assms(4) i n by simp
  qed
  fix k assume "k < n"
  then have k: "cur + k = (i + k) + P * 4096" "i + k < 4096" using i n by auto
  show "(cur + k) div 4096 = P \<and> (cur + k) mod 4096 = cur mod 4096 + k"
    unfolding i(3) k(1) using k(2) by simp
qed

lemma load_loop_eq:
  assumes "wf_pages (pages m)" "ps = [P..<Q]" "\<forall>p \<in> set ps. pages m p \<noteq> None" "start \<le> cur"
    "length res = cur - start + left"
    "P < Q \<Longrightarrow> cur div 4096 = P \<and> (Q - 1) * 4096 < cur + left \<and> cur + left \<le> Q * 4096"
    "Q \<le> P \<Longrightarrow> left = 0"
  shows "load_loop ps cur left start res m =
    Inr (take (cur - start) res @ List.map (mem_byte m) [cur..<cur + left])"
  using assms(2-)
proof (induction ps arbitrary: P cur left res)
  case Nil
  then have "Q \<le> P" by (metis upt_eq_Nil_conv le0)
  with Nil.prems show ?case by simp
next
  case (Cons p ps)
  have p: "p = P" "P < Q" "ps = [Suc P..<Q]" using Cons.prems(1) [symmetric] by (auto simp: upt_eq_Cons_conv)
  define n where "n = min (4096 - cur mod 4096) left"
  note step = page_step [OF _ p(2) _ _ n_def]
  have c: "cur div 4096 = P" "(Q - 1) * 4096 < cur + left" "cur + left \<le> Q * 4096"
    using Cons.prems(5) p(2) by auto
  note step = step [OF c]
  obtain page where page: "pages m P = Some page" using Cons.prems(2) p by auto
  then have wf: "wf_page P page" using assms(1) by (simp add: wf_pages_def)
  let ?d = "cur - start"
  have bytes: "List.map (\<lambda>k. data_at (page_data page) (cur mod 4096 + k)) [0..<n] =
      List.map (mem_byte m) [cur..<cur + n]"
  proof (rule nth_equalityI)
    fix k assume "k < length (List.map (\<lambda>k. data_at (page_data page) (cur mod 4096 + k)) [0..<n])"
    then have k: "k < n" by simp
    with step(5) [OF k] page show "List.map (\<lambda>k. data_at (page_data page) (cur mod 4096 + k)) [0..<n] ! k =
        List.map (mem_byte m) [cur..<cur + n] ! k"
      by (simp add: mem_byte_def)
  qed simp
  let ?res = "take ?d res @ List.map (mem_byte m) [cur..<cur + n] @ drop n (drop ?d res)"
  have "n \<le> length (drop ?d res)" using step(2) Cons.prems(4) by simp
  with page_loadInto_eq [OF wf step(1) this] bytes
  have load: "page_loadInto page (drop ?d res) (cur mod 4096) n =
      Inr (Inr (List.map (mem_byte m) [cur..<cur + n] @ drop n (drop ?d res)))" by simp
  have "load_loop (p # ps) cur left start res m = load_loop ps (cur + n) (left - n) start ?res m"
    using page load by (simp add: tryAsPageIndex_def p(1) Let_def n_def [symmetric])
  also have "\<dots> = Inr (take (cur + n - start) ?res @ List.map (mem_byte m) [cur + n..<(cur + n) + (left - n)])"
  proof (rule Cons.IH [OF p(3)])
    show "\<forall>q \<in> set ps. pages m q \<noteq> None" using Cons.prems(2) by simp
    show "start \<le> cur + n" using Cons.prems(3) by simp
    show "length ?res = cur + n - start + (left - n)"
      using Cons.prems(3,4) step(2) by simp
    show "(cur + n) div 4096 = Suc P \<and> (Q - 1) * 4096 < cur + n + (left - n) \<and> cur + n + (left - n) \<le> Q * 4096"
      if "Suc P < Q" using step(2) step(3) [OF that] c by simp
    show "left - n = 0" if "Q \<le> Suc P" using step(4) [OF that] by simp
  qed
  also have "take (cur + n - start) ?res @ List.map (mem_byte m) [cur + n..<(cur + n) + (left - n)] =
      take ?d res @ List.map (mem_byte m) [cur..<cur + left]"
  proof -
    have "length (take ?d res) = ?d" "cur + n - start = ?d + n" using Cons.prems(3,4) by auto
    then have "take (cur + n - start) ?res = take ?d res @ List.map (mem_byte m) [cur..<cur + n]" by simp
    moreover have "[cur..<cur + n] @ [cur + n..<cur + left] = [cur..<cur + left]"
      using step(2) by (metis upt_add_eq_append le_add1 le_add_diff_inverse add.assoc)
    ultimately show ?thesis using step(2) by (simp flip: map_append)
  qed
  finally show ?case .
qed

lemma contiguous_setup:
  assumes "s + n \<le> 4294967296" "0 < n"
  defines "P \<equiv> s div 4096" and "Q \<equiv> Suc ((s + n - 1) div 4096)"
  shows "pages_of s n = [P..<Q]" "s div 4096 = P" "P < Q" "(Q - 1) * 4096 < s + n" "s + n \<le> Q * 4096"
proof -
  show "pages_of s n = [P..<Q]" unfolding P_def Q_def by (rule pages_of_contiguous [OF assms(1,2)])
  show "P < Q" unfolding P_def Q_def using assms(2) by (simp add: less_Suc_eq_le div_le_mono)
  have "(s + n - 1) div 4096 * 4096 \<le> s + n - 1" by simp
  then show "(Q - 1) * 4096 < s + n" unfolding Q_def using assms(2) by simp
  have "s + n - 1 < Suc ((s + n - 1) div 4096) * 4096"
    using dividend_less_div_times [of 4096 "s + n - 1"] by simp
  then show "s + n \<le> Q * 4096" unfolding Q_def using assms(2) by linarith
qed (simp add: P_def)

text \<open>A load shows the bytes at its addresses, or faults at the first inaccessible page.\<close>

lemma loadInto_eq:
  assumes wf: "wf_pages (pages m)" and s: "s < 4294967296" and n: "0 < length res" "length res \<le> 4294967296"
  shows "loadInto res s m = Inr (case List.find (\<lambda>p. \<not> accessible m READ p) (pages_of s (length res)) of
    None \<Rightarrow> Inr (List.map (mem_byte m) [s..<s + length res]) | Some p \<Rightarrow> Inl (fault_at m p))"
proof (cases "List.find (\<lambda>p. \<not> accessible m READ p) (pages_of s (length res))")
  case None
  then have g: "granted m READ s (length res)" using granted_find [OF s n] by simp
  note su = contiguous_setup [OF granted_no_wrap [OF g s] n(1)]
  have "\<forall>p \<in> set (pages_of s (length res)). pages m p \<noteq> None"
    using None by (auto simp: find_None_iff accessible_def split: option.splits)
  from load_loop_eq [OF wf su(1) this, of s s res "length res"] su
  have "load_loop (pages_of s (length res)) s (length res) s res m =
      Inr (List.map (mem_byte m) [s..<s + length res])" by simp
  with None n s show ?thesis by (simp add: loadInto_def getPages_eq )
next
  case (Some p)
  with n s show ?thesis by (simp add: loadInto_def getPages_eq)
qed

section \<open>Storing\<close>

lemma grow_view_props:
  assumes "length v \<le> 4096" "i + n \<le> 4096"
  shows "length (grow_view i n v) \<le> 4096" "i + n \<le> length (grow_view i n v)"
    "data_at (grow_view i n v) j = data_at v j"
proof -
  show "length (grow_view i n v) \<le> 4096" "i + n \<le> length (grow_view i n v)"
    using assms by (auto simp: grow_view_def resize_def)
  show "data_at (grow_view i n v) j = data_at v j"
    by (auto simp: grow_view_def resize_def data_at_def nth_append min_def)
qed

lemma page_storeFrom_eq:
  assumes "wf_page p page" "isWriteable page" "i + length bs \<le> 4096"
  obtains page' where "page_storeFrom page i bs = Inr (Inr (), page')" "wf_page p page'" "isWriteable page'"
    "\<And>j. data_at (page_data page') j =
      (if i \<le> j \<and> j < i + length bs then bs ! (j - i) else data_at (page_data page) j)"
proof -
  obtain st v where page: "page = WriteablePage st v" using assms(2) by (cases page) auto
  with assms(1) have wf: "p < 1048576" "st = p * 4096" "length v \<le> 4096" by (auto simp: wf_page_def)
  note g = grow_view_props [OF wf(3) assms(3)]
  let ?v = "blit (grow_view i (length bs) v) i bs"
  have "page_storeFrom page i bs = Inr (Inr (), WriteablePage st ?v)"
    using g(2) by (simp add: page typed_set_def)
  moreover have "wf_page p (WriteablePage st ?v)" using g wf by (simp add: wf_page_def)
  moreover have "data_at ?v j = (if i \<le> j \<and> j < i + length bs then bs ! (j - i) else data_at v j)" for j
    using g(1,2) g(3) [of j] by (auto simp: data_at_def nth_blit)
  ultimately show thesis using that by (simp add: page)
qed

definition same_shape :: "memory \<Rightarrow> memory \<Rightarrow> bool" where
  "same_shape m m' \<longleftrightarrow> sbrkIndex m' = sbrkIndex m \<and> virtualSbrkIndex m' = virtualSbrkIndex m \<and>
     endHeapIndex m' = endHeapIndex m \<and>
     (\<forall>p. map_option isWriteable (pages m' p) = map_option isWriteable (pages m p))"

lemma same_shape_refl [simp]: "same_shape m m"
  by (simp add: same_shape_def)

lemma same_shape_trans: "same_shape m m' \<Longrightarrow> same_shape m' m'' \<Longrightarrow> same_shape m m''"
  by (simp add: same_shape_def)

lemma same_shape_accessible [frame]: "same_shape m m' \<Longrightarrow> accessible m' acc p = accessible m acc p"
proof -
  assume "same_shape m m'"
  then have "map_option isWriteable (pages m' p) = map_option isWriteable (pages m p)"
    by (simp add: same_shape_def)
  then show ?thesis by (cases "pages m p"; cases "pages m' p") (auto simp: accessible_def)
qed

lemma same_shape_granted [frame]: "same_shape m m' \<Longrightarrow> granted m' acc s n = granted m acc s n"
  by (simp add: granted_def same_shape_accessible)

lemma store_loop_eq:
  assumes "wf_pages (pages m)" "ps = [P..<Q]" "\<forall>p \<in> set ps. accessible m WRITE p" "start \<le> cur"
    "length bytes = cur - start + left"
    "P < Q \<Longrightarrow> cur div 4096 = P \<and> (Q - 1) * 4096 < cur + left \<and> cur + left \<le> Q * 4096"
    "Q \<le> P \<Longrightarrow> left = 0"
  shows "\<exists>m'. store_loop ps cur left start bytes m = Inr m' \<and> wf_pages (pages m') \<and> same_shape m m' \<and>
    (\<forall>a. mem_byte m' a = (if cur \<le> a \<and> a < cur + left then bytes ! (a - start) else mem_byte m a))"
  using assms
proof (induction ps arbitrary: P cur left m)
  case Nil
  then have "Q \<le> P" by (metis upt_eq_Nil_conv le0)
  with Nil.prems show ?case by auto
next
  case (Cons p ps)
  have p: "p = P" "P < Q" "ps = [Suc P..<Q]" using Cons.prems(2) [symmetric] by (auto simp: upt_eq_Cons_conv)
  define n where "n = min (4096 - cur mod 4096) left"
  have c: "cur div 4096 = P" "(Q - 1) * 4096 < cur + left" "cur + left \<le> Q * 4096"
    using Cons.prems(6) p(2) by auto
  note step = page_step [OF c(1) p(2) c(2,3) n_def]
  obtain page where page: "pages m P = Some page" "isWriteable page"
    using Cons.prems(3) p(1) by (auto simp: accessible_def split: option.splits)
  then have wf: "wf_page P page" using Cons.prems(1) by (simp add: wf_pages_def)
  let ?d = "cur - start" and ?i = "cur mod 4096"
  let ?src = "subarray bytes ?d (?d + n)"
  have src: "length ?src = n" using Cons.prems(5) step(2) by simp
  with step(1) have "?i + length ?src \<le> 4096" by simp
  from page_storeFrom_eq [OF wf page(2) this] obtain page' where page':
    "page_storeFrom page ?i ?src = Inr (Inr (), page')" "wf_page P page'" "isWriteable page'"
    "\<And>j. data_at (page_data page') j = (if ?i \<le> j \<and> j < ?i + n then ?src ! (j - ?i) else data_at (page_data page) j)"
    unfolding src by metis
  let ?m = "m\<lparr>pages := (pages m)(P \<mapsto> page')\<rparr>"
  have shape: "same_shape m ?m" using page page'(3) by (simp add: same_shape_def)
  have one: "mem_byte ?m a = (if cur \<le> a \<and> a < cur + n then bytes ! (a - start) else mem_byte m a)" for a
  proof (cases "a div 4096 = P")
    case True
    then have "a = P * 4096 + a mod 4096" "cur = P * 4096 + ?i"
      using c(1) by (metis div_mult_mod_eq)+
    then have in_page: "cur \<le> a \<and> a < cur + n \<longleftrightarrow> ?i \<le> a mod 4096 \<and> a mod 4096 < ?i + n"
      and off: "a mod 4096 - ?i = a - cur"
      by linarith+
    have "?src ! (a - cur) = bytes ! (a - start)" if "cur \<le> a" "a < cur + n"
      using that Cons.prems(4,5) step(2) by (simp add: nth_subarray)
    with True page page'(4) [of "a mod 4096"] in_page off show ?thesis
      by (cases "cur \<le> a \<and> a < cur + n") (auto simp: mem_byte_def)
  next
    case False
    have "\<not> (cur \<le> a \<and> a < cur + n)"
    proof
      assume "cur \<le> a \<and> a < cur + n"
      then have "a - cur < n" "cur + (a - cur) = a" by auto
      with step(5) [of "a - cur"] False show False by simp
    qed
    with False show ?thesis by (auto simp: mem_byte_def)
  qed
  have "\<exists>m'. store_loop ps (cur + n) (left - n) start bytes ?m = Inr m' \<and> wf_pages (pages m') \<and> same_shape ?m m' \<and>
    (\<forall>a. mem_byte m' a = (if cur + n \<le> a \<and> a < (cur + n) + (left - n) then bytes ! (a - start) else mem_byte ?m a))"
  proof (rule Cons.IH [OF _ p(3)])
    show "wf_pages (pages ?m)" using Cons.prems(1) page'(2) by (simp add: wf_pages_def)
    show "\<forall>q \<in> set ps. accessible ?m WRITE q"
      using Cons.prems(3) same_shape_accessible [OF shape] by simp
    show "start \<le> cur + n" using Cons.prems(4) by simp
    show "length bytes = cur + n - start + (left - n)" using Cons.prems(4,5) step(2) by simp
    show "(cur + n) div 4096 = Suc P \<and> (Q - 1) * 4096 < cur + n + (left - n) \<and> cur + n + (left - n) \<le> Q * 4096"
      if "Suc P < Q" using step(2) step(3) [OF that] c by simp
    show "left - n = 0" if "Q \<le> Suc P" using step(4) [OF that] by simp
  qed
  then obtain m' where m': "store_loop ps (cur + n) (left - n) start bytes ?m = Inr m'" "wf_pages (pages m')"
    "same_shape ?m m'"
    "\<And>a. mem_byte m' a = (if cur + n \<le> a \<and> a < (cur + n) + (left - n) then bytes ! (a - start) else mem_byte ?m a)"
    by blast
  have "store_loop (p # ps) cur left start bytes m = Inr m'"
    using page page'(1) m'(1) by (simp add: tryAsPageIndex_def p(1) Let_def n_def [symmetric])
  moreover have "mem_byte m' a = (if cur \<le> a \<and> a < cur + left then bytes ! (a - start) else mem_byte m a)" for a
    using step(2) by (auto simp: m'(4) one)
  ultimately show ?case using m'(2) same_shape_trans [OF shape m'(3)] by blast
qed

text \<open>A store writes exactly its bytes, or faults at the first page that cannot be written and
  changes nothing.\<close>

lemma storeFrom_cases:
  assumes wf: "wf_pages (pages m)" and s: "s < 4294967296" and n: "0 < length bytes" "length bytes \<le> 4294967296"
  obtains (stored) m' where "granted m WRITE s (length bytes)" "storeFrom s bytes m = Inr (Inr (), m')"
      "wf_pages (pages m')" "same_shape m m'"
      "\<And>a. mem_byte m' a = (if s \<le> a \<and> a < s + length bytes then bytes ! (a - s) else mem_byte m a)"
  | (fault) p where "\<not> granted m WRITE s (length bytes)"
      "List.find (\<lambda>p. \<not> accessible m WRITE p) (pages_of s (length bytes)) = Some p"
      "storeFrom s bytes m = Inr (Inl (fault_at m p), m)"
proof (cases "List.find (\<lambda>p. \<not> accessible m WRITE p) (pages_of s (length bytes))")
  case None
  then have g: "granted m WRITE s (length bytes)" using granted_find [OF s n] by simp
  note su = contiguous_setup [OF granted_no_wrap [OF g s] n(1)]
  have "\<forall>p \<in> set (pages_of s (length bytes)). accessible m WRITE p"
    using None by (auto simp: find_None_iff)
  from store_loop_eq [OF wf su(1) this, of s s bytes "length bytes"] su
  obtain m' where m': "store_loop (pages_of s (length bytes)) s (length bytes) s bytes m = Inr m'"
    "wf_pages (pages m')" "same_shape m m'"
    "\<And>a. mem_byte m' a = (if s \<le> a \<and> a < s + length bytes then bytes ! (a - s) else mem_byte m a)"
    by auto
  from m'(1) None n s have "storeFrom s bytes m = Inr (Inr (), m')" by (simp add: storeFrom_def getPages_eq)
  with g m' stored show ?thesis by blast
next
  case (Some p)
  then have "\<not> granted m WRITE s (length bytes)" using granted_find [OF s n] by simp
  moreover from Some n s have "storeFrom s bytes m = Inr (Inl (fault_at m p), m)"
    by (simp add: storeFrom_def getPages_eq)
  ultimately show ?thesis using fault Some by blast
qed

section \<open>The heap\<close>

text \<open>
  The invariant of a memory: pages under their own number and no longer than a page, a page-aligned
  allocation pointer at or above the requested one, writeable pages in between, and no page yet in
  the part of the heap still to be allocated.
\<close>

definition wf_memory :: "memory \<Rightarrow> bool" where
  "wf_memory m \<longleftrightarrow> wf_pages (pages m) \<and> sbrkIndex m mod 4096 = 0 \<and> sbrkIndex m \<le> 4294967296 \<and>
     virtualSbrkIndex m \<le> sbrkIndex m \<and>
     (\<forall>p. virtualSbrkIndex m div 4096 \<le> p \<and> p * 4096 < sbrkIndex m \<longrightarrow>
        map_option isWriteable (pages m p) = Some True) \<and>
     (\<forall>p. sbrkIndex m \<le> p * 4096 \<and> p * 4096 < endHeapIndex m \<longrightarrow> pages m p = None)"

lemma wf_memory_pages [intro]: "wf_memory m \<Longrightarrow> wf_pages (pages m)"
  by (simp add: wf_memory_def)

lemma wf_memory_same_shape:
  assumes "wf_memory m" "same_shape m m'" "wf_pages (pages m')"
  shows "wf_memory m'"
proof -
  have "pages m' p = None \<longleftrightarrow> pages m p = None" for p
    using assms(2) unfolding same_shape_def by (metis option.map_disc_iff)
  with assms show ?thesis by (auto simp: wf_memory_def same_shape_def)
qed

definition fresh_page :: "nat \<Rightarrow> memory_page" where
  "fresh_page p = WriteablePage (p * 4096) (replicate 32 0)"

lemma new_WriteablePage_None: "p < 1048576 \<Longrightarrow> new_WriteablePage p None = Inr (fresh_page p)"
  by (simp add: new_WriteablePage_def fresh_page_def)

lemma allocate_loop_eq:
  "\<forall>p \<in> set ps. p < 1048576 \<Longrightarrow>
    allocate_loop ps mem = Inr (\<lambda>p. if p \<in> set ps then Some (fresh_page p) else mem p)"
proof (induction ps arbitrary: mem)
  case (Cons p ps)
  then have "allocate_loop (p # ps) mem =
      Inr (\<lambda>q. if q \<in> set ps then Some (fresh_page q) else (mem(p \<mapsto> fresh_page p)) q)"
    by (simp add: new_WriteablePage_None)
  also have "(\<lambda>q. if q \<in> set ps then Some (fresh_page q) else (mem(p \<mapsto> fresh_page p)) q) =
      (\<lambda>q. if q \<in> set (p # ps) then Some (fresh_page q) else mem q)" by auto
  finally show ?case .
qed simp

lemma alignToPageSize_props:
  "v \<le> alignToPageSize v" "alignToPageSize v < v + 4096" "alignToPageSize v mod 4096 = 0"
  "k mod 4096 = 0 \<Longrightarrow> v \<le> k \<Longrightarrow> alignToPageSize v \<le> k"
proof -
  show "v \<le> alignToPageSize v" "alignToPageSize v < v + 4096"
    using ceil_div_bounds [of 4096 v] by (simp_all add: alignToPageSize_def mult.commute)
  show "alignToPageSize v mod 4096 = 0" by (simp add: alignToPageSize_def)
  assume "k mod 4096 = 0" "v \<le> k"
  then obtain j where "k = 4096 * j" by auto
  with \<open>v \<le> k\<close> show "alignToPageSize v \<le> k"
    using ceil_div_le_iff [of 4096 v j] by (simp add: alignToPageSize_def mult.commute)
qed

text \<open>The new pages: from the old allocation pointer up to the new one.\<close>

definition extended :: "memory \<Rightarrow> nat \<Rightarrow> nat \<Rightarrow> memory" where
  "extended m v s = m\<lparr>
     pages := (\<lambda>p. if sbrkIndex m \<le> p * 4096 \<and> p * 4096 < s then Some (fresh_page p) else pages m p),
     virtualSbrkIndex := v, sbrkIndex := s\<rparr>"

lemma sbrk_eq:
  assumes wf: "wf_memory m"
  shows "sbrk len m =
    (if virtualSbrkIndex m + len > min 4294967295 (endHeapIndex m) then Inl OutOfMemory
     else Inr (virtualSbrkIndex m, extended m (virtualSbrkIndex m + len)
            (max (sbrkIndex m) (alignToPageSize (virtualSbrkIndex m + len)))))"
proof -
  let ?v = "virtualSbrkIndex m + len" and ?s = "sbrkIndex m"
  let ?a = "alignToPageSize ?v"
  have s: "?s mod 4096 = 0" using wf by (simp add: wf_memory_def)
  note a = alignToPageSize_props [where v = "?v"]
  show ?thesis
  proof (cases "?v > min 4294967295 (endHeapIndex m)")
    case True
    then show ?thesis by (auto simp: sbrk_def Let_def)
  next
    case False
    then have v: "?v \<le> 4294967295" "?v \<le> endHeapIndex m" by auto
    show ?thesis
    proof (cases "?v \<le> ?s")
      case True
      with a(4) [OF s] have "max ?s ?a = ?s" by simp
      with True v show ?thesis
        by (cases m) (auto intro!: ext simp: sbrk_def Let_def tryAsSbrkIndex_def extended_def)
    next
      case False
      then have "?s < ?a" using a(1) by simp
      define P where "P = ?s div 4096"
      define Q where "Q = ?a div 4096"
      have P: "?s = P * 4096" using s div_mult_mod_eq [of ?s 4096] by (simp add: P_def)
      have Q: "?a = Q * 4096" using a(3) div_mult_mod_eq [of ?a 4096] by (simp add: Q_def)
      from \<open>?s < ?a\<close> P Q have PQ: "P < Q" by simp
      have "Q * 4096 < 4294967295 + 4096" using a(2) v Q by simp
      then have Q20: "Q \<le> 1048576" by simp
      have diff: "?a - ?s = (Q - P) * 4096" using P Q by (simp add: diff_mult_distrib)
      have ps: "bindE (pageRange_fromStartAndLength P (Q - P)) pr_pages = Inr [P..<Q]"
      proof -
        have "List.map (\<lambda>k. (P + k) mod 1048576) [0..<Q - P] = [P..<Q]"
          using PQ Q20 by (intro nth_equalityI) auto
        with pageRange_pages [of P "Q - P"] PQ Q20 show ?thesis by simp
      qed
      then obtain r where r: "pageRange_fromStartAndLength P (Q - P) = Inr r" "pr_pages r = Inr [P..<Q]"
        by (auto simp: bindE_Inr_iff)
      have alloc: "allocate_loop [P..<Q] (pages m) =
          Inr (\<lambda>p. if p \<in> set [P..<Q] then Some (fresh_page p) else pages m p)"
        using Q20 by (intro allocate_loop_eq) auto
      have set: "P \<le> p \<and> p < Q \<longleftrightarrow> ?s \<le> p * 4096 \<and> p * 4096 < ?a" for p
        unfolding P Q by simp
      have "?s < 4294967296" using \<open>\<not> ?v \<le> ?s\<close> v by simp
      then have "getPageNumber ?s = Inr P" by (simp add: P_def)
      moreover have "tryAsSbrkIndex ?a = Inr ?a" using Q20 Q by (simp add: tryAsSbrkIndex_def)
      moreover have "max ?s ?a = ?a" using \<open>?s < ?a\<close> by simp
      ultimately show ?thesis
        using False v r alloc
        by (simp add: sbrk_def Let_def tryAsSbrkIndex_def [of ?v] diff extended_def set)
    qed
  qed
qed

lemma sbrk_Inr:
  assumes wf: "wf_memory m" and r: "sbrk len m = Inr (i, m')"
  defines "s' \<equiv> max (sbrkIndex m) (alignToPageSize (virtualSbrkIndex m + len))"
  shows "i = virtualSbrkIndex m" "m' = extended m (virtualSbrkIndex m + len) s'"
    "virtualSbrkIndex m + len \<le> 4294967295" "virtualSbrkIndex m + len \<le> endHeapIndex m"
  using r by (auto simp: sbrk_eq [OF wf] s'_def split: if_splits)

text \<open>A page that \<open>sbrk\<close> adds was not there before: the heap it draws from is untouched.\<close>

lemma sbrk_new_pages:
  assumes wf: "wf_memory m" and r: "sbrk len m = Inr (i, m')"
    and p: "sbrkIndex m \<le> p * 4096" "p * 4096 < sbrkIndex m'"
  shows "pages m p = None"
proof -
  note e = sbrk_Inr [OF wf r]
  have "p * 4096 < endHeapIndex m"
  proof (rule ccontr)
    assume "\<not> p * 4096 < endHeapIndex m"
    then have "virtualSbrkIndex m + len \<le> p * 4096" using e(4) by simp
    then have "alignToPageSize (virtualSbrkIndex m + len) \<le> p * 4096" by (intro alignToPageSize_props(4)) auto
    with p e(2) show False by (simp add: extended_def)
  qed
  with wf p show ?thesis by (auto simp: wf_memory_def)
qed

lemma sbrk_mem_byte:
  assumes wf: "wf_memory m" and r: "sbrk len m = Inr (i, m')"
  shows "mem_byte m' a = mem_byte m a"
proof (cases "sbrkIndex m \<le> a div 4096 * 4096 \<and> a div 4096 * 4096 < sbrkIndex m'")
  case True
  with sbrk_new_pages [OF wf r, of "a div 4096"] sbrk_Inr(2) [OF wf r] show ?thesis
    by (auto simp: mem_byte_def extended_def fresh_page_def data_at_def)
next
  case False
  with sbrk_Inr(2) [OF wf r] show ?thesis by (auto simp: mem_byte_def extended_def)
qed

lemma sbrk_wf:
  assumes wf: "wf_memory m" and r: "sbrk len m = Inr (i, m')"
  shows "wf_memory m'"
proof -
  let ?v = "virtualSbrkIndex m + len"
  let ?s = "max (sbrkIndex m) (alignToPageSize ?v)"
  note e = sbrk_Inr [OF wf r]
  note a = alignToPageSize_props [where v = "?v"]
  have al: "alignToPageSize ?v \<le> 4294967296" using e(3) by (intro alignToPageSize_props(4)) auto
  have sv: "virtualSbrkIndex m \<le> ?v" by simp
  have "p < 1048576" if "p * 4096 < alignToPageSize ?v" for p using that al by simp
  moreover have "map_option isWriteable (pages m p) = Some True"
    if "?v div 4096 \<le> p" "p * 4096 < sbrkIndex m" for p
    using wf that div_le_mono [OF sv, of 4096] by (auto simp: wf_memory_def)
  moreover have "sbrkIndex m \<le> p * 4096" if "\<not> p * 4096 < sbrkIndex m" for p using that by simp
  ultimately show ?thesis
    using wf al a(1,3) unfolding e(2)
    by (auto simp: wf_memory_def extended_def wf_pages_def wf_page_def fresh_page_def max_def)
qed

lemma sbrk_granted:
  assumes wf: "wf_memory m" and r: "sbrk len m = Inr (i, m')" and a: "i \<le> a" "a < i + len"
  shows "map_option isWriteable (pages m' (a div 4096)) = Some True"
proof -
  let ?v = "virtualSbrkIndex m + len"
  note e = sbrk_Inr [OF wf r]
  have le: "a div 4096 * 4096 \<le> a" by simp
  have "a < ?v" using a e(1) by simp
  then have below: "a div 4096 * 4096 < alignToPageSize ?v"
    using alignToPageSize_props(1) [where v = "?v"] le by linarith
  show ?thesis
  proof (cases "sbrkIndex m \<le> a div 4096 * 4096")
    case True
    with below show ?thesis unfolding e(2) by (simp add: extended_def fresh_page_def)
  next
    case False
    moreover have "virtualSbrkIndex m div 4096 \<le> a div 4096" using a e(1) by (simp add: div_le_mono)
    ultimately show ?thesis using wf unfolding e(2) by (auto simp: wf_memory_def extended_def)
  qed
qed

section \<open>Granted accesses after a store\<close>

lemma granted_read_shape: "granted m WRITE s n \<Longrightarrow> same_shape m m' \<Longrightarrow> granted m' READ s n"
  by (simp add: same_shape_granted) (auto simp: granted_def accessible_def split: option.splits)

lemma granted_writeable:
  assumes "granted m WRITE s n" "s < 4294967296" "s \<le> a" "a < s + n"
  shows "map_option isWriteable (pages m (a div 4096)) = Some True"
proof -
  have "a < 4294967296" using granted_no_wrap [OF assms(1,2)] assms(4) by simp
  then have "a \<in> range_addrs s n" using assms(3,4)
    unfolding range_addrs_def by (intro image_eqI [of _ _ "a - s"]) auto
  with assms(1) show ?thesis by (auto simp: granted_def accessible_def split: option.splits)
qed

lemma map_nth_shift:
  "List.map (\<lambda>a. if s \<le> a \<and> a < s + length xs then xs ! (a - s) else f a) [s..<s + length xs] = xs"
  by (rule nth_equalityI) auto

end
