(* ===== verification/PvmOps.thy ===== *)
theory PvmOps
  imports Alu ArgsDecoder Memory
begin

text \<open>
  The operations of \<open>ops/\<close> that touch more than registers: \<open>load-ops.ts\<close>, \<open>store-ops.ts\<close>,
  \<open>memory-ops.ts\<close>, \<open>branch-ops.ts\<close>, \<open>dynamic-jump-ops.ts\<close>, \<open>host-call-ops.ts\<close> and
  \<open>no-args-ops.ts\<close>. The objects these classes share (the register file, the memory and the
  \<open>InstructionResult\<close>) are the three fields of a \<open>machine\<close>; an operation maps a machine to a
  machine, or throws.
\<close>

unbundle bit_operations_syntax

section \<open>The shared state\<close>

text \<open>\<open>result.ts\<close> and \<open>instruction-result.ts\<close>\<close>

datatype pvm_result = R_HALT | R_PANIC | R_FAULT_ACCESS | R_FAULT | R_HOST

record instruction_result =
  nextPc :: nat
  ir_status :: "pvm_result option"
  exitParam :: "int option"

definition new_instructionResult :: instruction_result where
  "new_instructionResult = \<lparr>nextPc = 0, ir_status = None, exitParam = None\<rparr>"

definition instructionResult_reset :: "instruction_result \<Rightarrow> instruction_result" where
  "instructionResult_reset r = \<lparr>nextPc = 0, ir_status = None, exitParam = None\<rparr>"

record machine =
  m_regs :: registers
  m_mem :: memory
  m_res :: instruction_result

definition set_status :: "pvm_result \<Rightarrow> machine \<Rightarrow> machine" where
  "set_status st s = s\<lparr>m_res := (m_res s)\<lparr>ir_status := Some st\<rparr>\<rparr>"

definition set_exitParam :: "int \<Rightarrow> machine \<Rightarrow> machine" where
  "set_exitParam p s = s\<lparr>m_res := (m_res s)\<lparr>exitParam := Some p\<rparr>\<rparr>"

definition set_nextPc :: "nat \<Rightarrow> machine \<Rightarrow> machine" where
  "set_nextPc pc s = s\<lparr>m_res := (m_res s)\<lparr>nextPc := pc\<rparr>\<rparr>"

definition set_regs :: "registers \<Rightarrow> machine \<Rightarrow> machine" where
  "set_regs r s = s\<lparr>m_regs := r\<rparr>"

section \<open>load-ops.ts\<close>

definition REG_SIZE_BYTES :: nat where "REG_SIZE_BYTES = 8"

definition loadImmediate :: "nat \<Rightarrow> immediate \<Rightarrow> machine \<Rightarrow> machine" where
  "loadImmediate registerIndex imm s = set_regs (setU64 (m_regs s) registerIndex (imm_getU64 imm)) s"

definition loadImmediateU64 :: "nat \<Rightarrow> byte list \<Rightarrow> machine \<Rightarrow> machine" where
  "loadImmediateU64 registerIndex imm s = set_regs (setU64 (m_regs s) registerIndex (ext_getValue imm)) s"

text \<open>The byte view of a register is written in place: the loaded bytes, then the fill.\<close>

definition load_fault :: "int \<Rightarrow> page_fault \<Rightarrow> machine \<Rightarrow> machine" where
  "load_fault addr f s =
     (if isAccessFault f then set_status R_FAULT_ACCESS s
      else set_exitParam addr (set_status R_FAULT s))"

definition loadNumber :: "int \<Rightarrow> nat \<Rightarrow> nat \<Rightarrow> machine \<Rightarrow> machine throws" where
  "loadNumber addr registerIndex numberLength s =
     (let registerBytes = getBytesAsLittleEndian (m_regs s) registerIndex REG_SIZE_BYTES in
      bindE (tryAsMemoryIndex (nat addr)) (\<lambda>index.
      bindE (loadInto (subarray registerBytes 0 numberLength) index (m_mem s)) (\<lambda>loadResult.
        case loadResult of
          Inl f \<Rightarrow> Inr (load_fault addr f s)
        | Inr bytes \<Rightarrow>
            let registerBytes = bytes @ replicate (REG_SIZE_BYTES - numberLength) 0
            in Inr (set_regs ((m_regs s)[registerIndex := bytes_word registerBytes]) s))))"

definition loadSignedNumber :: "int \<Rightarrow> nat \<Rightarrow> nat \<Rightarrow> machine \<Rightarrow> machine throws" where
  "loadSignedNumber addr registerIndex numberLength s =
     (let registerBytes = getBytesAsLittleEndian (m_regs s) registerIndex REG_SIZE_BYTES in
      bindE (tryAsMemoryIndex (nat addr)) (\<lambda>index.
      bindE (loadInto (subarray registerBytes 0 numberLength) index (m_mem s)) (\<lambda>loadResult.
        case loadResult of
          Inl f \<Rightarrow> Inr (load_fault addr f s)
        | Inr bytes \<Rightarrow>
            let msb = js_and (uint (bytes ! (numberLength - 1))) 0x80;
                registerBytes = bytes @ replicate (REG_SIZE_BYTES - numberLength) (if msb > 0 then 0xff else 0x00)
            in Inr (set_regs ((m_regs s)[registerIndex := bytes_word registerBytes]) s))))"

definition loadU8 :: "int \<Rightarrow> nat \<Rightarrow> machine \<Rightarrow> machine throws" where "loadU8 addr r = loadNumber addr r 1"
definition loadU16 :: "int \<Rightarrow> nat \<Rightarrow> machine \<Rightarrow> machine throws" where "loadU16 addr r = loadNumber addr r 2"
definition loadU32 :: "int \<Rightarrow> nat \<Rightarrow> machine \<Rightarrow> machine throws" where "loadU32 addr r = loadNumber addr r 4"
definition loadU64 :: "int \<Rightarrow> nat \<Rightarrow> machine \<Rightarrow> machine throws" where "loadU64 addr r = loadNumber addr r 8"
definition loadI8 :: "int \<Rightarrow> nat \<Rightarrow> machine \<Rightarrow> machine throws" where "loadI8 addr r = loadSignedNumber addr r 1"
definition loadI16 :: "int \<Rightarrow> nat \<Rightarrow> machine \<Rightarrow> machine throws" where "loadI16 addr r = loadSignedNumber addr r 2"
definition loadI32 :: "int \<Rightarrow> nat \<Rightarrow> machine \<Rightarrow> machine throws" where "loadI32 addr r = loadSignedNumber addr r 4"

text \<open>\<open>addWithOverflowU32(regs.getLowerU32(index), imm.getU32())\<close>\<close>

definition ind_address :: "machine \<Rightarrow> nat \<Rightarrow> immediate \<Rightarrow> int" where
  "ind_address s registerIndex imm =
     addWithOverflowU32 (getLowerU32 (m_regs s) registerIndex) (imm_getU32 imm)"

definition loadIndU8 :: "nat \<Rightarrow> nat \<Rightarrow> immediate \<Rightarrow> machine \<Rightarrow> machine throws" where
  "loadIndU8 a b imm s = loadNumber (ind_address s b imm) a 1 s"
definition loadIndU16 :: "nat \<Rightarrow> nat \<Rightarrow> immediate \<Rightarrow> machine \<Rightarrow> machine throws" where
  "loadIndU16 a b imm s = loadNumber (ind_address s b imm) a 2 s"
definition loadIndU32 :: "nat \<Rightarrow> nat \<Rightarrow> immediate \<Rightarrow> machine \<Rightarrow> machine throws" where
  "loadIndU32 a b imm s = loadNumber (ind_address s b imm) a 4 s"
definition loadIndU64 :: "nat \<Rightarrow> nat \<Rightarrow> immediate \<Rightarrow> machine \<Rightarrow> machine throws" where
  "loadIndU64 a b imm s = loadNumber (ind_address s b imm) a 8 s"
definition loadIndI8 :: "nat \<Rightarrow> nat \<Rightarrow> immediate \<Rightarrow> machine \<Rightarrow> machine throws" where
  "loadIndI8 a b imm s = loadSignedNumber (ind_address s b imm) a 1 s"
definition loadIndI16 :: "nat \<Rightarrow> nat \<Rightarrow> immediate \<Rightarrow> machine \<Rightarrow> machine throws" where
  "loadIndI16 a b imm s = loadSignedNumber (ind_address s b imm) a 2 s"
definition loadIndI32 :: "nat \<Rightarrow> nat \<Rightarrow> immediate \<Rightarrow> machine \<Rightarrow> machine throws" where
  "loadIndI32 a b imm s = loadSignedNumber (ind_address s b imm) a 4 s"

section \<open>store-ops.ts\<close>

definition op_store :: "int \<Rightarrow> byte list \<Rightarrow> machine \<Rightarrow> machine throws" where
  "op_store addr bytes s =
     bindE (tryAsMemoryIndex (nat addr)) (\<lambda>index.
     bindE (storeFrom index bytes (m_mem s)) (\<lambda>(storeResult, mem).
       let s = s\<lparr>m_mem := mem\<rparr> in
       case storeResult of
         Inr _ \<Rightarrow> Inr s
       | Inl f \<Rightarrow>
           if isAccessFault f then Inr (set_status R_FAULT_ACCESS s)
           else bindE (tryAsMemoryIndex (address f)) (\<lambda>a.
                bindE (getStartPageIndex a) (\<lambda>start.
                  Inr (set_exitParam (int start) (set_status R_FAULT s))))))"

definition store_reg :: "nat \<Rightarrow> int \<Rightarrow> nat \<Rightarrow> machine \<Rightarrow> machine throws" where
  "store_reg n addr registerIndex s = op_store addr (getBytesAsLittleEndian (m_regs s) registerIndex n) s"

definition storeU8 :: "int \<Rightarrow> nat \<Rightarrow> machine \<Rightarrow> machine throws" where "storeU8 = store_reg 1"
definition storeU16 :: "int \<Rightarrow> nat \<Rightarrow> machine \<Rightarrow> machine throws" where "storeU16 = store_reg 2"
definition storeU32 :: "int \<Rightarrow> nat \<Rightarrow> machine \<Rightarrow> machine throws" where "storeU32 = store_reg 4"
definition storeU64 :: "int \<Rightarrow> nat \<Rightarrow> machine \<Rightarrow> machine throws" where "storeU64 = store_reg 8"

definition ind_address_unsigned :: "machine \<Rightarrow> nat \<Rightarrow> immediate \<Rightarrow> int" where
  "ind_address_unsigned s registerIndex imm =
     addWithOverflowU32 (getLowerU32 (m_regs s) registerIndex) (imm_getUnsigned imm)"

definition storeIndU8 :: "nat \<Rightarrow> nat \<Rightarrow> immediate \<Rightarrow> machine \<Rightarrow> machine throws" where
  "storeIndU8 a b imm s = store_reg 1 (ind_address_unsigned s b imm) a s"
definition storeIndU16 :: "nat \<Rightarrow> nat \<Rightarrow> immediate \<Rightarrow> machine \<Rightarrow> machine throws" where
  "storeIndU16 a b imm s = store_reg 2 (ind_address_unsigned s b imm) a s"
definition storeIndU32 :: "nat \<Rightarrow> nat \<Rightarrow> immediate \<Rightarrow> machine \<Rightarrow> machine throws" where
  "storeIndU32 a b imm s = store_reg 4 (ind_address_unsigned s b imm) a s"
definition storeIndU64 :: "nat \<Rightarrow> nat \<Rightarrow> immediate \<Rightarrow> machine \<Rightarrow> machine throws" where
  "storeIndU64 a b imm s = store_reg 8 (ind_address_unsigned s b imm) a s"

definition storeImmediateU8 :: "int \<Rightarrow> immediate \<Rightarrow> machine \<Rightarrow> machine throws" where
  "storeImmediateU8 addr imm = op_store addr (subarray (imm_getBytesAsLittleEndian imm) 0 1)"
definition storeImmediateU16 :: "int \<Rightarrow> immediate \<Rightarrow> machine \<Rightarrow> machine throws" where
  "storeImmediateU16 addr imm = op_store addr (subarray (imm_getBytesAsLittleEndian imm) 0 2)"
definition storeImmediateU32 :: "int \<Rightarrow> immediate \<Rightarrow> machine \<Rightarrow> machine throws" where
  "storeImmediateU32 addr imm = op_store addr (subarray (imm_getBytesAsLittleEndian imm) 0 4)"
definition storeImmediateU64 :: "int \<Rightarrow> immediate \<Rightarrow> machine \<Rightarrow> machine throws" where
  "storeImmediateU64 addr imm = op_store addr (imm_getExtendedBytesAsLittleEndian imm)"

definition storeImmediateIndU8 :: "nat \<Rightarrow> immediate \<Rightarrow> immediate \<Rightarrow> machine \<Rightarrow> machine throws" where
  "storeImmediateIndU8 r imm1 imm2 s = storeImmediateU8 (ind_address_unsigned s r imm1) imm2 s"
definition storeImmediateIndU16 :: "nat \<Rightarrow> immediate \<Rightarrow> immediate \<Rightarrow> machine \<Rightarrow> machine throws" where
  "storeImmediateIndU16 r imm1 imm2 s = storeImmediateU16 (ind_address_unsigned s r imm1) imm2 s"
definition storeImmediateIndU32 :: "nat \<Rightarrow> immediate \<Rightarrow> immediate \<Rightarrow> machine \<Rightarrow> machine throws" where
  "storeImmediateIndU32 r imm1 imm2 s = storeImmediateU32 (ind_address_unsigned s r imm1) imm2 s"
definition storeImmediateIndU64 :: "nat \<Rightarrow> immediate \<Rightarrow> immediate \<Rightarrow> machine \<Rightarrow> machine throws" where
  "storeImmediateIndU64 r imm1 imm2 s = storeImmediateU64 (ind_address_unsigned s r imm1) imm2 s"

section \<open>memory-ops.ts\<close>

text \<open>Whatever \<open>sbrk\<close> throws becomes a \<open>FAULT\<close>.\<close>

definition op_sbrk :: "nat \<Rightarrow> nat \<Rightarrow> machine \<Rightarrow> machine" where
  "op_sbrk firstIndex resultIndex s =
     (case sbrk (nat (getLowerU32 (m_regs s) firstIndex)) (m_mem s) of
        Inr (index, mem) \<Rightarrow> s\<lparr>m_mem := mem, m_regs := setU32 (m_regs s) resultIndex (int index)\<rparr>
      | Inl e \<Rightarrow> set_status R_FAULT s)"

section \<open>branch-ops.ts\<close>

definition branch :: "basic_blocks \<Rightarrow> int \<Rightarrow> bool \<Rightarrow> machine \<Rightarrow> machine" where
  "branch bbs target condition s =
     (if \<not> condition then s
      else if \<not> isBeginningOfBasicBlock bbs target then set_status R_PANIC s
      else set_nextPc (nat target) s)"

definition jump :: "basic_blocks \<Rightarrow> int \<Rightarrow> machine \<Rightarrow> machine" where
  "jump bbs target = branch bbs target True"

type_synonym branch_imm = "basic_blocks \<Rightarrow> nat \<Rightarrow> immediate \<Rightarrow> int \<Rightarrow> machine \<Rightarrow> machine"
type_synonym branch_regs = "basic_blocks \<Rightarrow> nat \<Rightarrow> nat \<Rightarrow> int \<Rightarrow> machine \<Rightarrow> machine"

definition branchEqImmediate :: branch_imm where
  "branchEqImmediate bbs r imm target s = branch bbs target (getU64 (m_regs s) r = imm_getU64 imm) s"
definition branchEq :: branch_regs where
  "branchEq bbs a b target s = branch bbs target (getU64 (m_regs s) a = getU64 (m_regs s) b) s"
definition branchNeImmediate :: branch_imm where
  "branchNeImmediate bbs r imm target s = branch bbs target (getU64 (m_regs s) r \<noteq> imm_getU64 imm) s"
definition branchNe :: branch_regs where
  "branchNe bbs a b target s = branch bbs target (getU64 (m_regs s) a \<noteq> getU64 (m_regs s) b) s"
definition branchLtUnsignedImmediate :: branch_imm where
  "branchLtUnsignedImmediate bbs r imm target s = branch bbs target (getU64 (m_regs s) r < imm_getU64 imm) s"
definition branchLtUnsigned :: branch_regs where
  "branchLtUnsigned bbs a b target s = branch bbs target (getU64 (m_regs s) a < getU64 (m_regs s) b) s"
definition branchLeUnsignedImmediate :: branch_imm where
  "branchLeUnsignedImmediate bbs r imm target s = branch bbs target (getU64 (m_regs s) r \<le> imm_getU64 imm) s"
definition branchGtUnsignedImmediate :: branch_imm where
  "branchGtUnsignedImmediate bbs r imm target s = branch bbs target (getU64 (m_regs s) r > imm_getU64 imm) s"
definition branchGeUnsignedImmediate :: branch_imm where
  "branchGeUnsignedImmediate bbs r imm target s = branch bbs target (getU64 (m_regs s) r \<ge> imm_getU64 imm) s"
definition branchGeUnsigned :: branch_regs where
  "branchGeUnsigned bbs a b target s = branch bbs target (getU64 (m_regs s) a \<ge> getU64 (m_regs s) b) s"
definition branchLtSignedImmediate :: branch_imm where
  "branchLtSignedImmediate bbs r imm target s = branch bbs target (getI64 (m_regs s) r < imm_getI64 imm) s"
definition branchLtSigned :: branch_regs where
  "branchLtSigned bbs a b target s = branch bbs target (getI64 (m_regs s) a < getI64 (m_regs s) b) s"
definition branchLeSignedImmediate :: branch_imm where
  "branchLeSignedImmediate bbs r imm target s = branch bbs target (getI64 (m_regs s) r \<le> imm_getI64 imm) s"
definition branchGtSignedImmediate :: branch_imm where
  "branchGtSignedImmediate bbs r imm target s = branch bbs target (getI64 (m_regs s) r > imm_getI64 imm) s"
definition branchGeSignedImmediate :: branch_imm where
  "branchGeSignedImmediate bbs r imm target s = branch bbs target (getI64 (m_regs s) r \<ge> imm_getI64 imm) s"
definition branchGeSigned :: branch_regs where
  "branchGeSigned bbs a b target s = branch bbs target (getI64 (m_regs s) a \<ge> getI64 (m_regs s) b) s"

section \<open>dynamic-jump-ops.ts\<close>

definition EXIT :: int where "EXIT = 0xffff0000"
definition JUMP_ALIGMENT_FACTOR :: int where "JUMP_ALIGMENT_FACTOR = 2"

definition djump :: "jump_table \<Rightarrow> basic_blocks \<Rightarrow> int \<Rightarrow> machine \<Rightarrow> machine" where
  "djump jt bbs dynamicAddress s =
     (if dynamicAddress = EXIT then set_status R_HALT s
      else if dynamicAddress = 0 \<or> dynamicAddress mod JUMP_ALIGMENT_FACTOR \<noteq> 0 then set_status R_PANIC s
      else let jumpTableIndex = dynamicAddress div JUMP_ALIGMENT_FACTOR - 1 in
        if \<not> hasIndex jt jumpTableIndex then set_status R_PANIC s
        else case getDestination jt (nat jumpTableIndex) of
            None \<Rightarrow> set_status R_PANIC s
          | Some destination \<Rightarrow>
              if \<not> isBeginningOfBasicBlock bbs (int destination) then set_status R_PANIC s
              else set_nextPc destination s)"

definition caluclateJumpAddress :: "immediate \<Rightarrow> nat \<Rightarrow> machine \<Rightarrow> int" where
  "caluclateJumpAddress imm registerIndex s =
     addWithOverflowU32 (getLowerU32 (m_regs s) registerIndex) (imm_getU32 imm)"

definition jumpInd :: "jump_table \<Rightarrow> basic_blocks \<Rightarrow> int \<Rightarrow> machine \<Rightarrow> machine" where
  "jumpInd jt bbs addr = djump jt bbs addr"

section \<open>host-call-ops.ts and no-args-ops.ts\<close>

definition hostCall :: "immediate \<Rightarrow> machine \<Rightarrow> machine" where
  "hostCall imm s = set_exitParam (imm_getUnsigned imm) (set_status R_HOST s)"

definition trap :: "machine \<Rightarrow> machine" where
  "trap s = set_status R_PANIC s"

definition fallthrough :: "machine \<Rightarrow> machine" where
  "fallthrough s = s"

end
