(* ===== verification/Dispatchers.thy ===== *)
theory Dispatchers
  imports PvmOps
begin

text \<open>
  The dispatchers of \<open>ops-dispatchers/\<close>, one per argument format: a \<open>switch\<close> from the opcode to
  the call of one operation. An opcode without a case leaves the state alone.
\<close>

definition on_regs :: 
    "(registers \<Rightarrow> registers) \<Rightarrow> machine \<Rightarrow> machine throws" where
  "on_regs f s = Inr (set_regs (f (m_regs s)) s)"

definition on_regs_throws :: 
    "(registers \<Rightarrow> registers throws) \<Rightarrow> machine \<Rightarrow> machine throws" where
  "on_regs_throws f s = bindE (f (m_regs s)) (\<lambda>regs. Inr (set_regs regs s))"

definition noArgs_dispatch :: "nat \<Rightarrow> machine \<Rightarrow> machine throws" where
  "noArgs_dispatch instruction s =
     (if instruction = TRAP then Inr (trap s)
      else if instruction = FALLTHROUGH then Inr (fallthrough s)
      else Inr s)"

definition oneImm_dispatch :: 
    "nat \<Rightarrow> immediate \<Rightarrow> machine \<Rightarrow> machine throws" where
  "oneImm_dispatch instruction imm s =
     (if instruction = ECALLI then Inr (hostCall imm s)
      else Inr s)"

definition oneOffset_dispatch :: 
    "basic_blocks \<Rightarrow> nat \<Rightarrow> int \<Rightarrow> machine \<Rightarrow> machine throws" where
  "oneOffset_dispatch bbs instruction target s =
     (if instruction = JUMP then Inr (jump bbs target s)
      else Inr s)"

definition oneRegOneExtImm_dispatch :: 
    "nat \<Rightarrow> nat \<Rightarrow> byte list \<Rightarrow> machine \<Rightarrow> machine throws" where
  "oneRegOneExtImm_dispatch instruction reg imm s =
     (if instruction = LOAD_IMM_64 then Inr (loadImmediateU64 reg imm s)
      else Inr s)"

definition oneRegOneImm_dispatch :: 
    "jump_table \<Rightarrow> basic_blocks \<Rightarrow> nat \<Rightarrow> nat \<Rightarrow> immediate \<Rightarrow> machine \<Rightarrow> machine throws" where
  "oneRegOneImm_dispatch jt bbs instruction reg imm s =
     (if instruction = LOAD_IMM then Inr (loadImmediate reg imm s)
      else if instruction = STORE_U8 then storeU8 (imm_getUnsigned imm) reg s
      else if instruction = STORE_U16 then storeU16 (imm_getUnsigned imm) reg s
      else if instruction = STORE_U32 then storeU32 (imm_getUnsigned imm) reg s
      else if instruction = STORE_U64 then storeU64 (imm_getUnsigned imm) reg s
      else if instruction = LOAD_U8 then loadU8 (imm_getUnsigned imm) reg s
      else if instruction = LOAD_U16 then loadU16 (imm_getUnsigned imm) reg s
      else if instruction = LOAD_U32 then loadU32 (imm_getUnsigned imm) reg s
      else if instruction = LOAD_U64 then loadU64 (imm_getUnsigned imm) reg s
      else if instruction = LOAD_I8 then loadI8 (imm_getUnsigned imm) reg s
      else if instruction = LOAD_I16 then loadI16 (imm_getUnsigned imm) reg s
      else if instruction = LOAD_I32 then loadI32 (imm_getUnsigned imm) reg s
      else if instruction = JUMP_IND then (let addr = caluclateJumpAddress imm reg s in Inr (jumpInd jt bbs addr s))
      else Inr s)"

definition oneRegOneImmOneOffset_dispatch :: 
    "basic_blocks \<Rightarrow> nat \<Rightarrow> nat \<Rightarrow> immediate \<Rightarrow> int \<Rightarrow> machine \<Rightarrow> machine throws" where
  "oneRegOneImmOneOffset_dispatch bbs instruction reg imm target s =
     (if instruction = LOAD_IMM_JUMP then Inr (jump bbs target (loadImmediate reg imm s))
      else if instruction = BRANCH_EQ_IMM then Inr (branchEqImmediate bbs reg imm target s)
      else if instruction = BRANCH_NE_IMM then Inr (branchNeImmediate bbs reg imm target s)
      else if instruction = BRANCH_LT_U_IMM then Inr (branchLtUnsignedImmediate bbs reg imm target s)
      else if instruction = BRANCH_LE_U_IMM then Inr (branchLeUnsignedImmediate bbs reg imm target s)
      else if instruction = BRANCH_GE_U_IMM then Inr (branchGeUnsignedImmediate bbs reg imm target s)
      else if instruction = BRANCH_GT_U_IMM then Inr (branchGtUnsignedImmediate bbs reg imm target s)
      else if instruction = BRANCH_LT_S_IMM then Inr (branchLtSignedImmediate bbs reg imm target s)
      else if instruction = BRANCH_LE_S_IMM then Inr (branchLeSignedImmediate bbs reg imm target s)
      else if instruction = BRANCH_GE_S_IMM then Inr (branchGeSignedImmediate bbs reg imm target s)
      else if instruction = BRANCH_GT_S_IMM then Inr (branchGtSignedImmediate bbs reg imm target s)
      else Inr s)"

definition oneRegTwoImms_dispatch :: 
    "nat \<Rightarrow> nat \<Rightarrow> immediate \<Rightarrow> immediate \<Rightarrow> machine \<Rightarrow> machine throws" where
  "oneRegTwoImms_dispatch instruction reg imm1 imm2 s =
     (if instruction = STORE_IMM_IND_U8 then storeImmediateIndU8 reg imm1 imm2 s
      else if instruction = STORE_IMM_IND_U16 then storeImmediateIndU16 reg imm1 imm2 s
      else if instruction = STORE_IMM_IND_U32 then storeImmediateIndU32 reg imm1 imm2 s
      else if instruction = STORE_IMM_IND_U64 then storeImmediateIndU64 reg imm1 imm2 s
      else Inr s)"

definition twoImms_dispatch :: 
    "nat \<Rightarrow> immediate \<Rightarrow> immediate \<Rightarrow> machine \<Rightarrow> machine throws" where
  "twoImms_dispatch instruction imm1 imm2 s =
     (if instruction = STORE_IMM_U8 then storeImmediateU8 (imm_getUnsigned imm1) imm2 s
      else if instruction = STORE_IMM_U16 then storeImmediateU16 (imm_getUnsigned imm1) imm2 s
      else if instruction = STORE_IMM_U32 then storeImmediateU32 (imm_getUnsigned imm1) imm2 s
      else if instruction = STORE_IMM_U64 then storeImmediateU64 (imm_getUnsigned imm1) imm2 s
      else Inr s)"

definition twoRegs_dispatch :: 
    "nat \<Rightarrow> nat \<Rightarrow> nat \<Rightarrow> machine \<Rightarrow> machine throws" where
  "twoRegs_dispatch instruction first second s =
     (if instruction = MOVE_REG then on_regs (\<lambda>regs. op_moveRegister regs first second) s
      else if instruction = SBRK then Inr (op_sbrk first second s)
      else if instruction = COUNT_SET_BITS_64 then on_regs (\<lambda>regs. op_countSetBits64 regs first second) s
      else if instruction = COUNT_SET_BITS_32 then on_regs (\<lambda>regs. op_countSetBits32 regs first second) s
      else if instruction = LEADING_ZERO_BITS_64 then on_regs (\<lambda>regs. op_leadingZeroBits64 regs first second) s
      else if instruction = LEADING_ZERO_BITS_32 then on_regs (\<lambda>regs. op_leadingZeroBits32 regs first second) s
      else if instruction = TRAILING_ZERO_BITS_64 then on_regs (\<lambda>regs. op_trailingZeroBits64 regs first second) s
      else if instruction = TRAILING_ZERO_BITS_32 then on_regs (\<lambda>regs. op_trailingZeroBits32 regs first second) s
      else if instruction = SIGN_EXTEND_8 then on_regs (\<lambda>regs. op_signExtend8 regs first second) s
      else if instruction = SIGN_EXTEND_16 then on_regs (\<lambda>regs. op_signExtend16 regs first second) s
      else if instruction = ZERO_EXTEND_16 then on_regs (\<lambda>regs. op_zeroExtend16 regs first second) s
      else if instruction = REVERSE_BYTES then on_regs (\<lambda>regs. op_reverseBytes regs first second) s
      else Inr s)"

definition twoRegsOneOffset_dispatch :: 
    "basic_blocks \<Rightarrow> nat \<Rightarrow> nat \<Rightarrow> nat \<Rightarrow> int \<Rightarrow> machine \<Rightarrow> machine throws" where
  "twoRegsOneOffset_dispatch bbs instruction first second target s =
     (if instruction = BRANCH_EQ then Inr (branchEq bbs first second target s)
      else if instruction = BRANCH_NE then Inr (branchNe bbs first second target s)
      else if instruction = BRANCH_LT_U then Inr (branchLtUnsigned bbs first second target s)
      else if instruction = BRANCH_LT_S then Inr (branchLtSigned bbs first second target s)
      else if instruction = BRANCH_GE_U then Inr (branchGeUnsigned bbs first second target s)
      else if instruction = BRANCH_GE_S then Inr (branchGeSigned bbs first second target s)
      else Inr s)"

definition twoRegsTwoImms_dispatch :: 
    "jump_table \<Rightarrow> basic_blocks \<Rightarrow> nat \<Rightarrow> nat \<Rightarrow> nat \<Rightarrow> immediate \<Rightarrow> immediate \<Rightarrow> machine \<Rightarrow> machine throws" where
  "twoRegsTwoImms_dispatch jt bbs instruction first second imm1 imm2 s =
     (if instruction = LOAD_IMM_JUMP_IND then (let addr = caluclateJumpAddress imm2 second s in Inr (jumpInd jt bbs addr (loadImmediate first imm1 s)))
      else Inr s)"

definition threeRegs_dispatch :: 
    "nat \<Rightarrow> nat \<Rightarrow> nat \<Rightarrow> nat \<Rightarrow> machine \<Rightarrow> machine throws" where
  "threeRegs_dispatch instruction first second third s =
     (if instruction = ADD_32 then on_regs (\<lambda>regs. op_addU32 regs first second third) s
      else if instruction = ADD_64 then on_regs (\<lambda>regs. op_addU64 regs first second third) s
      else if instruction = MUL_32 then on_regs (\<lambda>regs. op_mulU32 regs first second third) s
      else if instruction = MUL_64 then on_regs (\<lambda>regs. op_mulU64 regs first second third) s
      else if instruction = MUL_UPPER_U_U then on_regs (\<lambda>regs. op_mulUpperUU regs first second third) s
      else if instruction = MUL_UPPER_S_S then on_regs (\<lambda>regs. op_mulUpperSS regs first second third) s
      else if instruction = MUL_UPPER_S_U then on_regs (\<lambda>regs. op_mulUpperSU regs first second third) s
      else if instruction = SUB_32 then on_regs (\<lambda>regs. op_subU32 regs first second third) s
      else if instruction = SUB_64 then on_regs (\<lambda>regs. op_subU64 regs first second third) s
      else if instruction = DIV_S_32 then on_regs (\<lambda>regs. op_divSignedU32 regs first second third) s
      else if instruction = DIV_S_64 then on_regs (\<lambda>regs. op_divSignedU64 regs first second third) s
      else if instruction = DIV_U_32 then on_regs (\<lambda>regs. op_divUnsignedU32 regs first second third) s
      else if instruction = DIV_U_64 then on_regs (\<lambda>regs. op_divUnsignedU64 regs first second third) s
      else if instruction = REM_S_32 then on_regs (\<lambda>regs. op_remSignedU32 regs first second third) s
      else if instruction = REM_S_64 then on_regs (\<lambda>regs. op_remSignedU64 regs first second third) s
      else if instruction = REM_U_32 then on_regs (\<lambda>regs. op_remUnsignedU32 regs first second third) s
      else if instruction = REM_U_64 then on_regs (\<lambda>regs. op_remUnsignedU64 regs first second third) s
      else if instruction = SHLO_L_32 then on_regs (\<lambda>regs. op_shiftLogicalLeftU32 regs first second third) s
      else if instruction = SHLO_L_64 then on_regs (\<lambda>regs. op_shiftLogicalLeftU64 regs first second third) s
      else if instruction = SHLO_R_32 then on_regs (\<lambda>regs. op_shiftLogicalRightU32 regs first second third) s
      else if instruction = SHLO_R_64 then on_regs_throws (\<lambda>regs. op_shiftLogicalRightU64 regs first second third) s
      else if instruction = SHAR_R_32 then on_regs (\<lambda>regs. op_shiftArithmeticRightU32 regs first second third) s
      else if instruction = SHAR_R_64 then on_regs (\<lambda>regs. op_shiftArithmeticRightU64 regs first second third) s
      else if instruction = INSTR_OR then on_regs (\<lambda>regs. op_or regs first second third) s
      else if instruction = INSTR_AND then on_regs (\<lambda>regs. op_and regs first second third) s
      else if instruction = INSTR_XOR then on_regs (\<lambda>regs. op_xor regs first second third) s
      else if instruction = SET_LT_S then on_regs (\<lambda>regs. op_setLessThanSigned regs first second third) s
      else if instruction = SET_LT_U then on_regs (\<lambda>regs. op_setLessThanUnsigned regs first second third) s
      else if instruction = CMOV_IZ then on_regs (\<lambda>regs. op_cmovIfZero regs first second third) s
      else if instruction = CMOV_NZ then on_regs (\<lambda>regs. op_cmovIfNotZero regs first second third) s
      else if instruction = ROT_L_64 then on_regs_throws (\<lambda>regs. op_rotL64 regs first second third) s
      else if instruction = ROT_L_32 then on_regs (\<lambda>regs. op_rotL32 regs first second third) s
      else if instruction = ROT_R_64 then on_regs_throws (\<lambda>regs. op_rotR64 regs first second third) s
      else if instruction = ROT_R_32 then on_regs (\<lambda>regs. op_rotR32 regs first second third) s
      else if instruction = AND_INV then on_regs (\<lambda>regs. op_andInv regs first second third) s
      else if instruction = OR_INV then on_regs (\<lambda>regs. op_orInv regs first second third) s
      else if instruction = XNOR then on_regs (\<lambda>regs. op_xnor regs first second third) s
      else if instruction = INSTR_MAX then on_regs_throws (\<lambda>regs. op_max regs first second third) s
      else if instruction = MAX_U then on_regs_throws (\<lambda>regs. op_maxU regs first second third) s
      else if instruction = INSTR_MIN then on_regs_throws (\<lambda>regs. op_min regs first second third) s
      else if instruction = MIN_U then on_regs_throws (\<lambda>regs. op_minU regs first second third) s
      else Inr s)"

definition twoRegsOneImm_dispatch :: 
    "nat \<Rightarrow> nat \<Rightarrow> nat \<Rightarrow> immediate \<Rightarrow> machine \<Rightarrow> machine throws" where
  "twoRegsOneImm_dispatch instruction first second imm s =
     (if instruction = ADD_IMM_32 then on_regs (\<lambda>regs. op_addImmediateU32 regs second imm first) s
      else if instruction = ADD_IMM_64 then on_regs (\<lambda>regs. op_addImmediateU64 regs second imm first) s
      else if instruction = MUL_IMM_32 then on_regs (\<lambda>regs. op_mulImmediateU32 regs second imm first) s
      else if instruction = MUL_IMM_64 then on_regs (\<lambda>regs. op_mulImmediateU64 regs second imm first) s
      else if instruction = NEG_ADD_IMM_32 then on_regs (\<lambda>regs. op_negAddImmediateU32 regs second imm first) s
      else if instruction = NEG_ADD_IMM_64 then on_regs (\<lambda>regs. op_negAddImmediateU64 regs second imm first) s
      else if instruction = SHLO_L_IMM_32 then on_regs (\<lambda>regs. op_shiftLogicalLeftImmediateU32 regs second imm first) s
      else if instruction = SHLO_L_IMM_64 then on_regs (\<lambda>regs. op_shiftLogicalLeftImmediateU64 regs second imm first) s
      else if instruction = SHLO_L_IMM_ALT_32 then on_regs (\<lambda>regs. op_shiftLogicalLeftImmediateAlternativeU32 regs second imm first) s
      else if instruction = SHLO_L_IMM_ALT_64 then on_regs (\<lambda>regs. op_shiftLogicalLeftImmediateAlternativeU64 regs second imm first) s
      else if instruction = SHLO_R_IMM_32 then on_regs (\<lambda>regs. op_shiftLogicalRightImmediateU32 regs second imm first) s
      else if instruction = SHLO_R_IMM_64 then on_regs_throws (\<lambda>regs. op_shiftLogicalRightImmediateU64 regs second imm first) s
      else if instruction = SHLO_R_IMM_ALT_32 then on_regs (\<lambda>regs. op_shiftLogicalRightImmediateAlternativeU32 regs second imm first) s
      else if instruction = SHLO_R_IMM_ALT_64 then on_regs_throws (\<lambda>regs. op_shiftLogicalRightImmediateAlternativeU64 regs second imm first) s
      else if instruction = SHAR_R_IMM_32 then on_regs (\<lambda>regs. op_shiftArithmeticRightImmediateU32 regs second imm first) s
      else if instruction = SHAR_R_IMM_64 then on_regs (\<lambda>regs. op_shiftArithmeticRightImmediateU64 regs second imm first) s
      else if instruction = SHAR_R_IMM_ALT_32 then on_regs (\<lambda>regs. op_shiftArithmeticRightImmediateAlternativeU32 regs second imm first) s
      else if instruction = SHAR_R_IMM_ALT_64 then on_regs (\<lambda>regs. op_shiftArithmeticRightImmediateAlternativeU64 regs second imm first) s
      else if instruction = OR_IMM then on_regs (\<lambda>regs. op_orImmediate regs second imm first) s
      else if instruction = AND_IMM then on_regs (\<lambda>regs. op_andImmediate regs second imm first) s
      else if instruction = XOR_IMM then on_regs (\<lambda>regs. op_xorImmediate regs second imm first) s
      else if instruction = SET_LT_S_IMM then on_regs (\<lambda>regs. op_setLessThanSignedImmediate regs second imm first) s
      else if instruction = SET_LT_U_IMM then on_regs (\<lambda>regs. op_setLessThanUnsignedImmediate regs second imm first) s
      else if instruction = SET_GT_S_IMM then on_regs (\<lambda>regs. op_setGreaterThanSignedImmediate regs second imm first) s
      else if instruction = SET_GT_U_IMM then on_regs (\<lambda>regs. op_setGreaterThanUnsignedImmediate regs second imm first) s
      else if instruction = CMOV_IZ_IMM then on_regs (\<lambda>regs. op_cmovIfZeroImmediate regs second imm first) s
      else if instruction = CMOV_NZ_IMM then on_regs (\<lambda>regs. op_cmovIfNotZeroImmediate regs second imm first) s
      else if instruction = STORE_IND_U8 then storeIndU8 first second imm s
      else if instruction = STORE_IND_U16 then storeIndU16 first second imm s
      else if instruction = STORE_IND_U32 then storeIndU32 first second imm s
      else if instruction = STORE_IND_U64 then storeIndU64 first second imm s
      else if instruction = LOAD_IND_U8 then loadIndU8 first second imm s
      else if instruction = LOAD_IND_U16 then loadIndU16 first second imm s
      else if instruction = LOAD_IND_U32 then loadIndU32 first second imm s
      else if instruction = LOAD_IND_U64 then loadIndU64 first second imm s
      else if instruction = LOAD_IND_I8 then loadIndI8 first second imm s
      else if instruction = LOAD_IND_I16 then loadIndI16 first second imm s
      else if instruction = LOAD_IND_I32 then loadIndI32 first second imm s
      else if instruction = ROT_R_64_IMM then on_regs_throws (\<lambda>regs. op_rotR64Imm regs second imm first) s
      else if instruction = ROT_R_64_IMM_ALT then on_regs_throws (\<lambda>regs. op_rotR64ImmAlt regs second imm first) s
      else if instruction = ROT_R_32_IMM then on_regs (\<lambda>regs. op_rotR32Imm regs second imm first) s
      else if instruction = ROT_R_32_IMM_ALT then on_regs (\<lambda>regs. op_rotR32ImmAlt regs second imm first) s
      else Inr s)"


end
