(* ===== verification/AluSpec.thy ===== *)
theory AluSpec
  imports Alu
begin

text \<open>
  What every register operation computes, on machine words: the formulas of the instruction set
  (the PVM appendix of the Gray Paper), with the 32-bit operations on the low halves followed by
  sign extension. Each lemma gives the whole new register file.
\<close>

unbundle bit_operations_syntax

text \<open>Division and remainder of signed words truncate towards zero.\<close>

definition word_sdiv :: "'a::len word \<Rightarrow> 'a word \<Rightarrow> 'a word" where
  "word_sdiv a b = word_of_int (sint a sdiv sint b)"

definition word_srem :: "'a::len word \<Rightarrow> 'a word \<Rightarrow> 'a word" where
  "word_srem a b = word_of_int (sint a smod sint b)"

text \<open>The upper halves of the three 128-bit products.\<close>

definition mul_hi_uu :: "u64 \<Rightarrow> u64 \<Rightarrow> u64" where
  "mul_hi_uu a b = word_of_int ((uint a * uint b) div 2 ^ 64)"

definition mul_hi_ss :: "u64 \<Rightarrow> u64 \<Rightarrow> u64" where
  "mul_hi_ss a b = word_of_int ((sint a * sint b) div 2 ^ 64)"

definition mul_hi_su :: "u64 \<Rightarrow> u64 \<Rightarrow> u64" where
  "mul_hi_su a b = word_of_int ((sint a * uint b) div 2 ^ 64)"

lemmas alu_defs = reg_access w64_signExtend32To64 mul_hi_uu_def mul_hi_ss_def mul_hi_su_def

lemma w64_max: "w64 (2 ^ 64 - 1) = - 1"
  by simp


lemma uint_lt_64: "uint (w :: u64) < 18446744073709551616"
  using uint_lt2p [of w] by simp

lemma uint_le_64: "uint (w :: u64) \<le> 18446744073709551616"
  using uint_lt_64 [of w] by simp

text \<open>Shift amounts are below the width.\<close>

lemma shift32: "uint (w :: u32) smod MAX_SHIFT_U32 = uint w mod 32"
  using smod_nonneg [of "uint w" 5] by (simp add: MAX_SHIFT_U32_def)

lemma shift64: "uint (w :: u64) smod MAX_SHIFT_U64 = uint w mod 64"
  using smod_nonneg [of "uint w" 6] by (simp add: MAX_SHIFT_U64_def)

lemma w64_push_uint: "w64 (push_bit n (uint w)) = push_bit n w"
  by (simp add: of_int_push_bit)

lemma w64_drop_uint: "w64 (drop_bit n (uint w)) = drop_bit n w"
  by (rule bit_word_eqI) (auto simp: bit_simps)

lemma w64_drop_sint: "w64 (drop_bit n (sint w)) = signed_drop_bit n w"
  by (simp flip: sint_signed_drop_bit_eq)

lemma max_u64: "(18446744073709551615 :: u64) = - 1"
  by simp

text \<open>Division: the values of the quotients, and the one overflow.\<close>

lemma sdiv_nonneg: "0 \<le> x \<Longrightarrow> 0 \<le> y \<Longrightarrow> x sdiv y = x div (y :: int)"
  by (cases "x = 0"; cases "y = 0") (simp_all add: signed_divide_int_def)

lemma smod_nonneg2: "0 \<le> x \<Longrightarrow> 0 \<le> y \<Longrightarrow> x smod y = x mod (y :: int)"
  by (cases "x = 0") (simp_all add: signed_modulo_int_def)

lemma udiv_word: "word_of_int (uint a sdiv uint b) = a div b" "word_of_int (uint a smod uint b) = a mod b"
  for a b :: "'a::len word"
  by (simp_all add: sdiv_nonneg smod_nonneg2 flip: uint_div uint_mod)

lemma w32_js_trunc_quot: "w32 (js_trunc_quot x y) = w32 (x sdiv y)"
  by (simp add: js_trunc_quot_def js_word)

lemma sdiv_overflow:
  fixes a b :: u64 and c d :: u32
  shows "sint b = - 1 \<Longrightarrow> sint a = - (2 ^ 63) \<Longrightarrow> word_sdiv a b = a"
    "sint d = - 1 \<Longrightarrow> sint c = - (2 ^ 31) \<Longrightarrow> word_sdiv c d = c"
proof -
  assume *: "sint b = - 1" "sint a = - (2 ^ 63)"
  have "word_sdiv a b = w64 (2 ^ 63)" unfolding word_sdiv_def * by (simp add: signed_divide_int_def)
  also have "\<dots> = w64 (- (2 ^ 63))" by simp
  also have "\<dots> = a" unfolding *(2) [symmetric] by simp
  finally show "word_sdiv a b = a" .
next
  assume *: "sint d = - 1" "sint c = - (2 ^ 31)"
  have "word_sdiv c d = w32 (2 ^ 31)" unfolding word_sdiv_def * by (simp add: signed_divide_int_def)
  also have "\<dots> = w32 (- (2 ^ 31))" by simp
  also have "\<dots> = c" unfolding *(2) [symmetric] by simp
  finally show "word_sdiv c d = c" .
qed

lemma srem_minus_one: "sint b = - 1 \<Longrightarrow> word_srem a b = 0"
  by (simp add: word_srem_def signed_modulo_int_def)

lemmas div_rules = uint_0_iff max_u64 w32_js_trunc_quot udiv_word MIN_VALUE_I32_def
  word_sdiv_def [symmetric] word_srem_def [symmetric]

section \<open>Arithmetic\<close>

lemma addU32_spec [op_spec]: "op_addU32 regs a b r = regs[r := sx64 (lo32 (regs ! a) + lo32 (regs ! b))]"
  by (simp add: op_addU32_def alu_defs op_spec )

lemma addU64_spec [op_spec]: "op_addU64 regs a b r = regs[r := regs ! a + regs ! b]"
  by (simp add: op_addU64_def alu_defs op_spec )

lemma addImmediateU32_spec [op_spec]: "wf_imm i \<Longrightarrow>
    op_addImmediateU32 regs a i r = regs[r := sx64 (lo32 (regs ! a) + lo32 (imm_word i))]"
  by (simp add: op_addImmediateU32_def alu_defs op_spec )

lemma addImmediateU64_spec [op_spec]: "wf_imm i \<Longrightarrow>
    op_addImmediateU64 regs a i r = regs[r := regs ! a + imm_word i]"
  by (simp add: op_addImmediateU64_def alu_defs op_spec )

lemma subU32_spec [op_spec]: "op_subU32 regs a b r = regs[r := sx64 (lo32 (regs ! a) - lo32 (regs ! b))]"
  by (simp add: op_subU32_def alu_defs op_spec )

lemma subU64_spec [op_spec]: "op_subU64 regs a b r = regs[r := regs ! a - regs ! b]"
  by (simp add: op_subU64_def alu_defs op_spec uint_le_64)

lemma negAddImmediateU32_spec [op_spec]: "wf_imm i \<Longrightarrow>
    op_negAddImmediateU32 regs a i r = regs[r := sx64 (lo32 (imm_word i) - lo32 (regs ! a))]"
  by (simp add: op_negAddImmediateU32_def alu_defs op_spec )

lemma negAddImmediateU64_spec [op_spec]: "wf_imm i \<Longrightarrow>
    op_negAddImmediateU64 regs a i r = regs[r := imm_word i - regs ! a]"
  by (simp add: op_negAddImmediateU64_def alu_defs op_spec uint_le_64)

lemma mulU32_spec [op_spec]: "op_mulU32 regs a b r = regs[r := sx64 (lo32 (regs ! a) * lo32 (regs ! b))]"
  by (simp add: op_mulU32_def alu_defs op_spec )

lemma mulU64_spec [op_spec]: "op_mulU64 regs a b r = regs[r := regs ! a * regs ! b]"
  by (simp add: op_mulU64_def alu_defs op_spec )

lemma mulImmediateU32_spec [op_spec]: "wf_imm i \<Longrightarrow>
    op_mulImmediateU32 regs a i r = regs[r := sx64 (lo32 (regs ! a) * lo32 (imm_word i))]"
  by (simp add: op_mulImmediateU32_def alu_defs op_spec )

lemma mulImmediateU64_spec [op_spec]: "wf_imm i \<Longrightarrow>
    op_mulImmediateU64 regs a i r = regs[r := regs ! a * imm_word i]"
  by (simp add: op_mulImmediateU64_def alu_defs op_spec )

lemma mulUpperUU_spec [op_spec]: "op_mulUpperUU regs a b r = regs[r := mul_hi_uu (regs ! a) (regs ! b)]"
  by (simp add: op_mulUpperUU_def alu_defs op_spec uint_lt_64)

lemma mulUpperSS_spec [op_spec]: "op_mulUpperSS regs a b r = regs[r := mul_hi_ss (regs ! a) (regs ! b)]"
  by (simp add: op_mulUpperSS_def alu_defs op_spec )

lemma mulUpperSU_spec [op_spec]: "op_mulUpperSU regs a b r = regs[r := mul_hi_su (regs ! a) (regs ! b)]"
  by (simp add: op_mulUpperSU_def alu_defs op_spec uint_lt_64)

lemma mulUpperUUImmediate_spec [op_spec]: "wf_imm i \<Longrightarrow>
    op_mulUpperUUImmediate regs a i r = regs[r := mul_hi_uu (regs ! a) (imm_word i)]"
  by (simp add: op_mulUpperUUImmediate_def alu_defs op_spec uint_lt_64)

lemma mulUpperSSImmediate_spec [op_spec]: "wf_imm i \<Longrightarrow>
    op_mulUpperSSImmediate regs a i r = regs[r := mul_hi_ss (regs ! a) (imm_word i)]"
  by (simp add: op_mulUpperSSImmediate_def alu_defs op_spec )

section \<open>Division\<close>

lemma divUnsignedU32_spec [op_spec]: "op_divUnsignedU32 regs a b r = regs[r := if lo32 (regs ! b) = 0 then - 1 else sx64 (lo32 (regs ! a) div lo32 (regs ! b))]"
  by (auto simp: op_divUnsignedU32_def alu_defs op_spec div_rules sdiv_overflow srem_minus_one)

lemma divUnsignedU64_spec [op_spec]: "op_divUnsignedU64 regs a b r = regs[r := if regs ! b = 0 then - 1 else regs ! a div regs ! b]"
  by (auto simp: op_divUnsignedU64_def alu_defs op_spec div_rules sdiv_overflow srem_minus_one)

lemma divSignedU32_spec [op_spec]: "op_divSignedU32 regs a b r = regs[r := if lo32 (regs ! b) = 0 then - 1 else sx64 (word_sdiv (lo32 (regs ! a)) (lo32 (regs ! b)))]"
  by (auto simp: op_divSignedU32_def alu_defs op_spec div_rules sdiv_overflow srem_minus_one)

lemma divSignedU64_spec [op_spec]: "op_divSignedU64 regs a b r = regs[r := if regs ! b = 0 then - 1 else word_sdiv (regs ! a) (regs ! b)]"
  by (auto simp: op_divSignedU64_def alu_defs op_spec div_rules sdiv_overflow srem_minus_one)

lemma remUnsignedU32_spec [op_spec]: "op_remUnsignedU32 regs a b r = regs[r := if lo32 (regs ! b) = 0 then sx64 (lo32 (regs ! a)) else sx64 (lo32 (regs ! a) mod lo32 (regs ! b))]"
  by (auto simp: op_remUnsignedU32_def alu_defs op_spec div_rules sdiv_overflow srem_minus_one)

lemma remUnsignedU64_spec [op_spec]: "op_remUnsignedU64 regs a b r = regs[r := if regs ! b = 0 then regs ! a else regs ! a mod regs ! b]"
  by (auto simp: op_remUnsignedU64_def alu_defs op_spec div_rules sdiv_overflow srem_minus_one)

lemma remSignedU32_spec [op_spec]: "op_remSignedU32 regs a b r = regs[r := if lo32 (regs ! b) = 0 then sx64 (lo32 (regs ! a)) else sx64 (word_srem (lo32 (regs ! a)) (lo32 (regs ! b)))]"
  by (auto simp: op_remSignedU32_def alu_defs op_spec div_rules sdiv_overflow srem_minus_one)

lemma remSignedU64_spec [op_spec]: "op_remSignedU64 regs a b r = regs[r := if regs ! b = 0 then regs ! a else word_srem (regs ! a) (regs ! b)]"
  by (auto simp: op_remSignedU64_def alu_defs op_spec div_rules sdiv_overflow srem_minus_one)

section \<open>Minimum and maximum\<close>

lemma max_spec [op_spec]: "op_max regs a b r = Inr (regs[r := if sint (regs ! a) < sint (regs ! b) then regs ! b else regs ! a])"
  by (simp add: op_max_def alu_defs op_spec maxBigInt2 minBigInt2 max_def min_def not_le not_less)

lemma maxU_spec [op_spec]: "op_maxU regs a b r = Inr (regs[r := if uint (regs ! a) < uint (regs ! b) then regs ! b else regs ! a])"
  by (simp add: op_maxU_def alu_defs op_spec maxBigInt2 minBigInt2 max_def min_def not_le not_less)

lemma min_spec [op_spec]: "op_min regs a b r = Inr (regs[r := if sint (regs ! b) < sint (regs ! a) then regs ! b else regs ! a])"
  by (simp add: op_min_def alu_defs op_spec maxBigInt2 minBigInt2 max_def min_def not_le not_less)

lemma minU_spec [op_spec]: "op_minU regs a b r = Inr (regs[r := if uint (regs ! b) < uint (regs ! a) then regs ! b else regs ! a])"
  by (simp add: op_minU_def alu_defs op_spec maxBigInt2 minBigInt2 max_def min_def not_le not_less)

section \<open>Shifts\<close>

lemma shiftLogicalLeftU32_spec [op_spec]: "op_shiftLogicalLeftU32 regs a b r = regs[r := sx64 (push_bit (nat (uint (lo32 (regs ! b)) mod 32)) (lo32 (regs ! a)))]"
  by (simp add: op_shiftLogicalLeftU32_def alu_defs op_spec shift32 shift64 unsignedRightShift_eq js_word shift_count_mod w64_push_uint w64_drop_uint w64_drop_sint)

lemma shiftLogicalLeftU64_spec [op_spec]: "op_shiftLogicalLeftU64 regs a b r = regs[r := push_bit (nat (uint (regs ! b) mod 64)) (regs ! a)]"
  by (simp add: op_shiftLogicalLeftU64_def alu_defs op_spec shift32 shift64 unsignedRightShift_eq js_word shift_count_mod w64_push_uint w64_drop_uint w64_drop_sint)

lemma shiftLogicalRightU32_spec [op_spec]: "op_shiftLogicalRightU32 regs a b r = regs[r := sx64 (drop_bit (nat (uint (lo32 (regs ! b)) mod 32)) (lo32 (regs ! a)))]"
  by (simp add: op_shiftLogicalRightU32_def alu_defs op_spec shift32 shift64 unsignedRightShift_eq js_word shift_count_mod w64_push_uint w64_drop_uint w64_drop_sint)

lemma shiftLogicalRightU64_spec [op_spec]: "op_shiftLogicalRightU64 regs a b r = Inr (regs[r := drop_bit (nat (uint (regs ! b) mod 64)) (regs ! a)])"
  by (simp add: op_shiftLogicalRightU64_def alu_defs op_spec shift32 shift64 unsignedRightShift_eq js_word shift_count_mod w64_push_uint w64_drop_uint w64_drop_sint)

lemma shiftArithmeticRightU32_spec [op_spec]: "op_shiftArithmeticRightU32 regs a b r = regs[r := sx64 (signed_drop_bit (nat (uint (lo32 (regs ! b)) mod 32)) (lo32 (regs ! a)))]"
  by (simp add: op_shiftArithmeticRightU32_def alu_defs op_spec shift32 shift64 unsignedRightShift_eq js_word shift_count_mod w64_push_uint w64_drop_uint w64_drop_sint)

lemma shiftArithmeticRightU64_spec [op_spec]: "op_shiftArithmeticRightU64 regs a b r = regs[r := signed_drop_bit (nat (uint (regs ! b) mod 64)) (regs ! a)]"
  by (simp add: op_shiftArithmeticRightU64_def alu_defs op_spec shift32 shift64 unsignedRightShift_eq js_word shift_count_mod w64_push_uint w64_drop_uint w64_drop_sint)

lemma shiftLogicalLeftImmediateU32_spec [op_spec]: "wf_imm i \<Longrightarrow>
    op_shiftLogicalLeftImmediateU32 regs a i r = regs[r := sx64 (push_bit (nat (uint (lo32 (imm_word i)) mod 32)) (lo32 (regs ! a)))]"
  by (simp add: op_shiftLogicalLeftImmediateU32_def alu_defs op_spec shift32 shift64 unsignedRightShift_eq js_word shift_count_mod w64_push_uint w64_drop_uint w64_drop_sint)

lemma shiftLogicalLeftImmediateU64_spec [op_spec]: "wf_imm i \<Longrightarrow>
    op_shiftLogicalLeftImmediateU64 regs a i r = regs[r := push_bit (nat (uint (imm_word i) mod 64)) (regs ! a)]"
  by (simp add: op_shiftLogicalLeftImmediateU64_def alu_defs op_spec shift32 shift64 unsignedRightShift_eq js_word shift_count_mod w64_push_uint w64_drop_uint w64_drop_sint)

lemma shiftLogicalRightImmediateU32_spec [op_spec]: "wf_imm i \<Longrightarrow>
    op_shiftLogicalRightImmediateU32 regs a i r = regs[r := sx64 (drop_bit (nat (uint (lo32 (imm_word i)) mod 32)) (lo32 (regs ! a)))]"
  by (simp add: op_shiftLogicalRightImmediateU32_def alu_defs op_spec shift32 shift64 unsignedRightShift_eq js_word shift_count_mod w64_push_uint w64_drop_uint w64_drop_sint)

lemma shiftLogicalRightImmediateU64_spec [op_spec]: "wf_imm i \<Longrightarrow>
    op_shiftLogicalRightImmediateU64 regs a i r = Inr (regs[r := drop_bit (nat (uint (imm_word i) mod 64)) (regs ! a)])"
  by (simp add: op_shiftLogicalRightImmediateU64_def alu_defs op_spec shift32 shift64 unsignedRightShift_eq js_word shift_count_mod w64_push_uint w64_drop_uint w64_drop_sint)

lemma shiftArithmeticRightImmediateU32_spec [op_spec]: "wf_imm i \<Longrightarrow>
    op_shiftArithmeticRightImmediateU32 regs a i r = regs[r := sx64 (signed_drop_bit (nat (uint (lo32 (imm_word i)) mod 32)) (lo32 (regs ! a)))]"
  by (simp add: op_shiftArithmeticRightImmediateU32_def alu_defs op_spec shift32 shift64 unsignedRightShift_eq js_word shift_count_mod w64_push_uint w64_drop_uint w64_drop_sint)

lemma shiftArithmeticRightImmediateU64_spec [op_spec]: "wf_imm i \<Longrightarrow>
    op_shiftArithmeticRightImmediateU64 regs a i r = regs[r := signed_drop_bit (nat (uint (imm_word i) mod 64)) (regs ! a)]"
  by (simp add: op_shiftArithmeticRightImmediateU64_def alu_defs op_spec shift32 shift64 unsignedRightShift_eq js_word shift_count_mod w64_push_uint w64_drop_uint w64_drop_sint)

lemma shiftLogicalLeftImmediateAlternativeU32_spec [op_spec]: "wf_imm i \<Longrightarrow>
    op_shiftLogicalLeftImmediateAlternativeU32 regs a i r = regs[r := sx64 (push_bit (nat (uint (lo32 (regs ! a)) mod 32)) (lo32 (imm_word i)))]"
  by (simp add: op_shiftLogicalLeftImmediateAlternativeU32_def alu_defs op_spec shift32 shift64 unsignedRightShift_eq js_word shift_count_mod w64_push_uint w64_drop_uint w64_drop_sint)

lemma shiftLogicalLeftImmediateAlternativeU64_spec [op_spec]: "wf_imm i \<Longrightarrow>
    op_shiftLogicalLeftImmediateAlternativeU64 regs a i r = regs[r := push_bit (nat (uint (regs ! a) mod 64)) (imm_word i)]"
  by (simp add: op_shiftLogicalLeftImmediateAlternativeU64_def alu_defs op_spec shift32 shift64 unsignedRightShift_eq js_word shift_count_mod w64_push_uint w64_drop_uint w64_drop_sint)

lemma shiftLogicalRightImmediateAlternativeU32_spec [op_spec]: "wf_imm i \<Longrightarrow>
    op_shiftLogicalRightImmediateAlternativeU32 regs a i r = regs[r := sx64 (drop_bit (nat (uint (lo32 (regs ! a)) mod 32)) (lo32 (imm_word i)))]"
  by (simp add: op_shiftLogicalRightImmediateAlternativeU32_def alu_defs op_spec shift32 shift64 unsignedRightShift_eq js_word shift_count_mod w64_push_uint w64_drop_uint w64_drop_sint)

lemma shiftLogicalRightImmediateAlternativeU64_spec [op_spec]: "wf_imm i \<Longrightarrow>
    op_shiftLogicalRightImmediateAlternativeU64 regs a i r = Inr (regs[r := drop_bit (nat (uint (regs ! a) mod 64)) (imm_word i)])"
  by (simp add: op_shiftLogicalRightImmediateAlternativeU64_def alu_defs op_spec shift32 shift64 unsignedRightShift_eq js_word shift_count_mod w64_push_uint w64_drop_uint w64_drop_sint)

lemma shiftArithmeticRightImmediateAlternativeU32_spec [op_spec]: "wf_imm i \<Longrightarrow>
    op_shiftArithmeticRightImmediateAlternativeU32 regs a i r = regs[r := sx64 (signed_drop_bit (nat (uint (lo32 (regs ! a)) mod 32)) (lo32 (imm_word i)))]"
  by (simp add: op_shiftArithmeticRightImmediateAlternativeU32_def alu_defs op_spec shift32 shift64 unsignedRightShift_eq js_word shift_count_mod w64_push_uint w64_drop_uint w64_drop_sint)

lemma shiftArithmeticRightImmediateAlternativeU64_spec [op_spec]: "wf_imm i \<Longrightarrow>
    op_shiftArithmeticRightImmediateAlternativeU64 regs a i r = regs[r := signed_drop_bit (nat (uint (regs ! a) mod 64)) (imm_word i)]"
  by (simp add: op_shiftArithmeticRightImmediateAlternativeU64_def alu_defs op_spec shift32 shift64 unsignedRightShift_eq js_word shift_count_mod w64_push_uint w64_drop_uint w64_drop_sint)

section \<open>Bits\<close>

lemma or_spec [op_spec]: "op_or regs a b r = regs[r := regs ! a OR regs ! b]"
  by (simp add: op_or_def alu_defs op_spec of_int_or_eq of_int_and_eq of_int_xor_eq of_int_not_eq)

lemma orImmediate_spec [op_spec]: "wf_imm i \<Longrightarrow>
    op_orImmediate regs a i r = regs[r := regs ! a OR imm_word i]"
  by (simp add: op_orImmediate_def alu_defs op_spec of_int_or_eq of_int_and_eq of_int_xor_eq of_int_not_eq)

lemma and_spec [op_spec]: "op_and regs a b r = regs[r := regs ! a AND regs ! b]"
  by (simp add: op_and_def alu_defs op_spec of_int_or_eq of_int_and_eq of_int_xor_eq of_int_not_eq)

lemma andImmediate_spec [op_spec]: "wf_imm i \<Longrightarrow>
    op_andImmediate regs a i r = regs[r := regs ! a AND imm_word i]"
  by (simp add: op_andImmediate_def alu_defs op_spec of_int_or_eq of_int_and_eq of_int_xor_eq of_int_not_eq)

lemma xor_spec [op_spec]: "op_xor regs a b r = regs[r := regs ! a XOR regs ! b]"
  by (simp add: op_xor_def alu_defs op_spec of_int_or_eq of_int_and_eq of_int_xor_eq of_int_not_eq)

lemma xorImmediate_spec [op_spec]: "wf_imm i \<Longrightarrow>
    op_xorImmediate regs a i r = regs[r := regs ! a XOR imm_word i]"
  by (simp add: op_xorImmediate_def alu_defs op_spec of_int_or_eq of_int_and_eq of_int_xor_eq of_int_not_eq)

lemma andInv_spec [op_spec]: "op_andInv regs a b r = regs[r := regs ! a AND NOT (regs ! b)]"
  by (simp add: op_andInv_def alu_defs op_spec of_int_or_eq of_int_and_eq of_int_xor_eq of_int_not_eq)

lemma orInv_spec [op_spec]: "op_orInv regs a b r = regs[r := regs ! a OR NOT (regs ! b)]"
  by (simp add: op_orInv_def alu_defs op_spec of_int_or_eq of_int_and_eq of_int_xor_eq of_int_not_eq)

lemma xnor_spec [op_spec]: "op_xnor regs a b r = regs[r := NOT (regs ! a XOR regs ! b)]"
  by (simp add: op_xnor_def alu_defs op_spec of_int_or_eq of_int_and_eq of_int_xor_eq of_int_not_eq)

section \<open>Comparison and moves\<close>

lemma setLessThanSignedImmediate_spec [op_spec]: "wf_imm i \<Longrightarrow>
    op_setLessThanSignedImmediate regs a i r = regs[r := if regs ! a <s imm_word i then 1 else 0]"
  by (simp add: op_setLessThanSignedImmediate_def alu_defs op_spec word_sless_alt)

lemma setLessThanUnsignedImmediate_spec [op_spec]: "wf_imm i \<Longrightarrow>
    op_setLessThanUnsignedImmediate regs a i r = regs[r := if regs ! a < imm_word i then 1 else 0]"
  by (simp add: op_setLessThanUnsignedImmediate_def alu_defs op_spec word_less_alt)

lemma setLessThanSigned_spec [op_spec]: "op_setLessThanSigned regs a b r = regs[r := if regs ! a <s regs ! b then 1 else 0]"
  by (simp add: op_setLessThanSigned_def alu_defs op_spec word_sless_alt)

lemma setLessThanUnsigned_spec [op_spec]: "op_setLessThanUnsigned regs a b r = regs[r := if regs ! a < regs ! b then 1 else 0]"
  by (simp add: op_setLessThanUnsigned_def alu_defs op_spec word_less_alt)

lemma setGreaterThanSignedImmediate_spec [op_spec]: "wf_imm i \<Longrightarrow>
    op_setGreaterThanSignedImmediate regs a i r = regs[r := if imm_word i <s regs ! a then 1 else 0]"
  by (simp add: op_setGreaterThanSignedImmediate_def alu_defs op_spec word_sless_alt)

lemma setGreaterThanUnsignedImmediate_spec [op_spec]: "wf_imm i \<Longrightarrow>
    op_setGreaterThanUnsignedImmediate regs a i r = regs[r := if imm_word i < regs ! a then 1 else 0]"
  by (simp add: op_setGreaterThanUnsignedImmediate_def alu_defs op_spec word_less_alt)

lemma cmovIfZeroImmediate_spec [op_spec]: "wf_imm i \<Longrightarrow>
    op_cmovIfZeroImmediate regs a i r = regs[r := if regs ! a = 0 then imm_word i else regs ! r]"
  by (simp add: op_cmovIfZeroImmediate_def alu_defs op_spec uint_0_iff)

lemma cmovIfNotZeroImmediate_spec [op_spec]: "wf_imm i \<Longrightarrow>
    op_cmovIfNotZeroImmediate regs a i r = regs[r := if regs ! a \<noteq> 0 then imm_word i else regs ! r]"
  by (simp add: op_cmovIfNotZeroImmediate_def alu_defs op_spec uint_0_iff)

lemma cmovIfZero_spec [op_spec]: "op_cmovIfZero regs a b r = regs[r := if regs ! b = 0 then regs ! a else regs ! r]"
  by (simp add: op_cmovIfZero_def alu_defs op_spec uint_0_iff)

lemma cmovIfNotZero_spec [op_spec]: "op_cmovIfNotZero regs a b r = regs[r := if regs ! b \<noteq> 0 then regs ! a else regs ! r]"
  by (simp add: op_cmovIfNotZero_def alu_defs op_spec uint_0_iff)

lemma moveRegister_spec [op_spec]: "op_moveRegister regs a r = regs[r := regs ! a]"
  by (simp add: op_moveRegister_def alu_defs op_spec )

section \<open>Counting, extending, reversing\<close>

lemma sx64_sint: "sx64 w = w64 (sint w)"
  by (rule bit_word_eqI) (auto simp: bit_simps min_def)

lemma sx64_small: "0 \<le> v \<Longrightarrow> v < 2 ^ 31 \<Longrightarrow> sx64 (w32 v) = w64 v"
  unfolding sx64_sint to_int32_sint [symmetric] by (simp add: to_int32_id)

lemma ones_bounds: "0 \<le> ones n x" "ones n x \<le> int n"
proof -
  have "0 \<le> sum_list (List.map (\<lambda>i. of_bool (bit x i) :: int) is) \<and>
      sum_list (List.map (\<lambda>i. of_bool (bit x i) :: int) is) \<le> int (length is)" for "is" :: "nat list"
    by (induction "is") auto
  from this [of "[0..<n]"] show "0 \<le> ones n x" "ones n x \<le> int n"
    by (simp_all add: ones_def bit_list_def)
qed

lemma leading_zeros_nonneg: "0 \<le> leading_zeros n x"
  by (simp add: leading_zeros_def)

lemma trailing_zeros_bounds: "0 \<le> trailing_zeros n x" "trailing_zeros n x \<le> int n"
  using length_takeWhile_le [of "\<lambda>i. \<not> bit x i" "[0..<n]"] by (simp_all add: trailing_zeros_def)

lemma uint_lt_32: "uint (w :: u32) < 4294967296"
  using uint_lt2p [of w] by simp

lemma countSetBits64_spec [op_spec]: "op_countSetBits64 regs a r = regs[r := w64 (ones 64 (uint (regs ! a)))]"
  using ones_bounds [of 64 "uint (regs ! a)"]
  by (simp add: op_countSetBits64_def alu_defs countBits64_eq uint_lt_64 sx64_small)

lemma countSetBits32_spec [op_spec]:
  "op_countSetBits32 regs a r = regs[r := w64 (ones 32 (uint (lo32 (regs ! a))))]"
  using ones_bounds [of 32 "uint (lo32 (regs ! a))"]
  by (simp add: op_countSetBits32_def alu_defs countBits32_eq uint_lt_32 sx64_small)

lemma leadingZeroBits64_spec [op_spec]:
  "op_leadingZeroBits64 regs a r = regs[r := w64 (leading_zeros 64 (uint (regs ! a)))]"
  using leading_zeros_le [of 64 "uint (regs ! a)"]
  by (simp add: op_leadingZeroBits64_def alu_defs clz64_eq uint_lt_64 sx64_small leading_zeros_nonneg)

lemma leadingZeroBits32_spec [op_spec]:
  "op_leadingZeroBits32 regs a r = regs[r := w64 (leading_zeros 32 (uint (lo32 (regs ! a))))]"
  using leading_zeros_le [of 32 "uint (lo32 (regs ! a))"]
  by (simp add: op_leadingZeroBits32_def alu_defs math_clz32_eq uint_lt_32 sx64_small leading_zeros_nonneg)

lemma trailingZeroBits64_spec [op_spec]:
  "op_trailingZeroBits64 regs a r = regs[r := w64 (trailing_zeros 64 (uint (regs ! a)))]"
  using trailing_zeros_bounds [of 64 "uint (regs ! a)"]
  by (simp add: op_trailingZeroBits64_def alu_defs ctz64_eq uint_lt_64 sx64_small)

lemma trailingZeroBits32_spec [op_spec]:
  "op_trailingZeroBits32 regs a r = regs[r := w64 (trailing_zeros 32 (uint (lo32 (regs ! a))))]"
  using trailing_zeros_bounds [of 32 "uint (lo32 (regs ! a))"]
  by (simp add: op_trailingZeroBits32_def alu_defs ctz32_eq uint_lt_32 sx64_small)

lemma signExtend_eq:
  assumes "0 < k" "k < 31"
  shows "signExtend v k = signed_take_bit (k - 1) v"
proof -
  have m: "js_and v (2 ^ k - 1) = take_bit k v"
    using assms by (simp add: js_and_mask take_bit_eq_mod)
  have kk: "k - 1 < 30" "Suc (k - 1) = k" using assms by auto
  have p: "(2 :: int) ^ (k - 1) < 2 ^ 31" using kk by (intro power_strict_increasing) auto
  then have b: "js_shl 1 (int (k - 1)) = push_bit (k - 1) 1"
    using kk js_shl_small [of 1 "int (k - 1)"] unfolding nat_int by (simp add: push_bit_eq_mult)
  have t: "js_and (take_bit k v) (push_bit (k - 1) 1) = take_bit k v AND push_bit (k - 1) 1"
    using p by (simp add: js_and_mask_eq push_bit_eq_mult)
  have bit: "take_bit k v AND push_bit (k - 1) 1 = push_bit (k - 1) (of_bool (bit v (k - 1)))"
    unfolding and_single_bit using assms by (simp add: bit_take_bit_iff)
  have pos: "(push_bit (k - 1) (of_bool (bit v (k - 1))) > (0 :: int)) = bit v (k - 1)"
    by (simp add: push_bit_eq_mult)
  have "signExtend v k = (if bit v (k - 1) then NOT (mask k) OR take_bit k v else take_bit k v)"
    unfolding signExtend_def Let_def m b t bit pos by (simp add: mask_eq_exp_minus_1)
  also have "\<dots> = signed_take_bit (k - 1) v"
  proof (rule bit_eqI)
    fix n
    consider "n < k - 1" | "n = k - 1" | "k \<le> n" by linarith
    then show "bit (if bit v (k - 1) then NOT (mask k) OR take_bit k v else take_bit k v) n =
        bit (signed_take_bit (k - 1) v) n"
      using kk by cases (auto simp: bit_simps min_def)
  qed
  finally show ?thesis .
qed

lemma signExtend8_spec [op_spec]: "op_signExtend8 regs a r = regs[r := scast (ucast (regs ! a) :: 8 word)]"
proof -
  have "w64 (signed_take_bit 7 (uint (lo32 (regs ! a)))) = scast (ucast (regs ! a) :: 8 word)"
    by (rule bit_word_eqI) (auto simp: bit_simps min_def)
  then show ?thesis by (simp add: op_signExtend8_def alu_defs signExtend_eq)
qed

lemma signExtend16_spec [op_spec]: "op_signExtend16 regs a r = regs[r := scast (ucast (regs ! a) :: 16 word)]"
proof -
  have "w64 (signed_take_bit 15 (uint (lo32 (regs ! a)))) = scast (ucast (regs ! a) :: 16 word)"
    by (rule bit_word_eqI) (auto simp: bit_simps min_def)
  then show ?thesis by (simp add: op_signExtend16_def alu_defs signExtend_eq)
qed

lemma zeroExtend16_spec [op_spec]: "op_zeroExtend16 regs a r = regs[r := ucast (ucast (regs ! a) :: 16 word)]"
proof -
  have "uint (regs ! a) AND 0xffff = take_bit 16 (uint (regs ! a))"
    using take_bit_eq_mask [of 16 "uint (regs ! a)"] by (simp add: mask_eq_exp_minus_1)
  moreover have "w64 (take_bit 16 (uint (regs ! a))) = ucast (ucast (regs ! a) :: 16 word)"
    by (rule bit_word_eqI) (auto simp: bit_simps)
  ultimately show ?thesis by (simp add: op_zeroExtend16_def alu_defs)
qed

lemma le_bytes_Suc_append: "le_bytes (Suc n) x = le_bytes n x @ [word_of_int (x div 256 ^ n)]"
  by (induction n arbitrary: x) (simp_all add: zdiv_zmult2_eq)

lemma reverse_bytes_eq:
  "foldl (\<lambda>reversedValue i. let byte = drop_bit (i * 8) v AND 0xff in push_bit 8 reversedValue OR byte) 0 [0..<n]
    = le_val (rev (le_bytes n v))"
proof (induction n)
  case 0
  show ?case by simp
next
  case (Suc n)
  let ?b = "drop_bit (n * 8) v AND 0xff"
  have "?b = take_bit 8 (drop_bit (n * 8) v)"
    using take_bit_eq_mask [of 8 "drop_bit (n * 8) v"] by (simp add: mask_eq_exp_minus_1)
  then have b: "?b = uint (word_of_int (v div 256 ^ n) :: byte)"
    by (simp add: uint_word8_of_int take_bit_eq_mod drop_bit_eq_div power_mult mult.commute [of n])
  have "push_bit 8 y OR ?b = ?b + 2 ^ 8 * y" for y
    using byte_bounds [of "word_of_int (v div 256 ^ n)"] unfolding b
    by (subst or.commute) (simp add: or_push_bit_eq_add)
  with Suc show ?case by (simp add: le_bytes_Suc_append b Let_def del: le_bytes.simps)
qed

lemma reverseBytes_spec [op_spec]: "op_reverseBytes regs a r = regs[r := bytes_word (rev (word_bytes (regs ! a)))]"
  using reverse_bytes_eq [of "uint (regs ! a)" 8]
  by (simp add: op_reverseBytes_def reverse_bytes_def alu_defs bytes_word_def word_bytes_def)

section \<open>Rotations\<close>

lemma smod_32: "uint (w :: u32) smod 32 = uint w mod 32" "uint (w :: u32) smod 64 = uint w mod 64"
  using smod_nonneg [of "uint w" 5] smod_nonneg [of "uint w" 6] by simp_all

lemma push_mask64: "push_bit 64 1 - 1 = (mask 64 :: int)"
  by (simp add: mask_eq_exp_minus_1 push_bit_eq_mult)

lemma rotate64Right_eq:
  "rotate64Right (uint (w :: u64)) (uint (s :: u32)) = Inr (uint (word_rotr (nat (uint s mod 64)) w))"
proof -
  define n where "n = nat (uint s mod 64)"
  have n: "n < 64" "uint s mod 64 = int n" by (auto simp: n_def)
  have e: "nat (64 - int n) = 64 - n" by simp
  have "(drop_bit n (uint w) OR (push_bit (64 - n) (uint w) AND mask 64)) AND mask 64 = uint (word_rotr n w)"
  proof (rule bit_eqI)
    fix i
    show "bit ((drop_bit n (uint w) OR (push_bit (64 - n) (uint w) AND mask 64)) AND mask 64) i =
        bit (uint (word_rotr n w)) i"
    proof (cases "i < 64")
      case True
      show ?thesis
      proof (cases "i + n < 64")
        case True
        with n show ?thesis by (auto simp: bit_simps add.commute dest: bit_imp_le_length)
      next
        case False
        then have "(i + n) mod 64 = i + n - 64" using True n by (simp add: mod_if)
        with False True n show ?thesis
          by (auto simp: bit_simps add.commute dest: bit_imp_le_length)
      qed
    qed (auto simp: bit_simps)
  qed
  then show ?thesis
    unfolding rotate64Right_def Let_def push_mask64 smod_32 n(2)
    by (simp add: unsignedRightShift_eq e)
qed

lemma bit_rotl:
  fixes w :: "'a::len word"
  assumes L: "LENGTH('a) = L" and ni: "n < L" "i < L"
  shows "bit (word_rotl n w) i = (if n \<le> i then bit w (i - n) else bit w (i + L - n))"
proof (cases "n \<le> i")
  case True
  then have "i + (L - n) = (i - n) + L" using ni by simp
  then have "(i + (L - n)) mod L = i - n" using ni by (simp only: mod_add_self2) simp
  with True ni L show ?thesis by (simp add: bit_word_rotl_iff)
next
  case False
  with ni L show ?thesis by (simp add: bit_word_rotl_iff)
qed

lemma bit_rotl64: "n < 64 \<Longrightarrow> i < 64 \<Longrightarrow>
    bit (word_rotl n (w :: u64)) i = (if n \<le> i then bit w (i - n) else bit w (i + 64 - n))"
  by (rule bit_rotl) simp_all

lemma bit_rotl32: "n < 32 \<Longrightarrow> i < 32 \<Longrightarrow>
    bit (word_rotl n (w :: u32)) i = (if n \<le> i then bit w (i - n) else bit w (i + 32 - n))"
  by (rule bit_rotl) simp_all

text \<open>A left rotation by \<open>n\<close> is a right rotation by the width minus \<open>n\<close>.\<close>

lemma rotate64Left_eq:
  "rotate64Left (uint (w :: u64)) (uint (s :: u32)) = Inr (uint (word_rotl (nat (uint s mod 64)) w))"
proof -
  define n where "n = nat (uint s mod 64)"
  have n: "n < 64" "uint s mod 64 = int n" by (auto simp: n_def)
  have e: "nat (64 - int n) = 64 - n" by simp
  have "((push_bit n (uint w) AND mask 64) OR drop_bit (64 - n) (uint w)) AND mask 64 = uint (word_rotl n w)"
  proof (rule bit_eqI)
    fix i
    show "bit (((push_bit n (uint w) AND mask 64) OR drop_bit (64 - n) (uint w)) AND mask 64) i =
        bit (uint (word_rotl n w)) i"
    proof (cases "i < 64")
      case True
      with n show ?thesis
        by (auto simp: bit_rotl64 bit_or_iff bit_and_iff bit_push_bit_iff bit_drop_bit_eq bit_mask_iff
            bit_uint_iff add.commute dest: bit_imp_le_length)
    qed (auto simp: bit_simps)
  qed
  then show ?thesis
    unfolding rotate64Left_def Let_def push_mask64 smod_32 n(2)
    using n(1) unsignedRightShift_eq[of "uint w" "64 - int n"] by (simp add: e)
qed

lemma w32_minus_one: "w32 (2 ^ 32 - 1) = - 1"
  by simp

lemma shift_count_32_minus: "n < 32 \<Longrightarrow> shift_count (32 - int n) = (32 - n) mod 32"
proof -
  assume "n < 32"
  then have "32 - int n = int (32 - n)" by simp
  then have "(32 - int n) mod 32 = int ((32 - n) mod 32)" by (simp only: zmod_int of_nat_numeral)
  then show ?thesis by (simp only: shift_count_mod nat_int)
qed

lemma w32_rotate32Right:
  "w32 (rotate32Right (uint (w :: u32)) (uint (s :: u32))) = word_rotr (nat (uint s mod 32)) w"
proof -
  define n where "n = nat (uint s mod 32)"
  have n: "n < 32" "uint s mod 32 = int n" by (auto simp: n_def)
  have sc: "shift_count (int n) = n" using n by (simp add: shift_count_self)
  have "w32 (rotate32Right (uint w) (uint s)) = drop_bit n w OR push_bit ((32 - n) mod 32) w"
    unfolding rotate32Right_def Let_def smod_32 n(2)
    by (simp only: js_word w32_minus_one sc shift_count_32_minus [OF n(1)] word_of_int_uint
        and.right_neutral)
  also have "\<dots> = word_rotr n w"
  proof (rule bit_word_eqI)
    fix i assume "i < LENGTH(32)"
    then have i: "i < 32" by simp
    show "bit (drop_bit n w OR push_bit ((32 - n) mod 32) w) i = bit (word_rotr n w) i"
    proof (cases "n = 0")
      case True
      then show ?thesis using i by (simp add: bit_simps)
    next
      case False
      then have m: "(32 - n) mod 32 = 32 - n" using n by simp
      show ?thesis
      proof (cases "i + n < 32")
        case True
        with n i show ?thesis unfolding m
          by (auto simp: bit_simps bit_word_rotr_iff add.commute dest: bit_imp_le_length)
      next
        case F: False
        then have "(i + n) mod 32 = i + n - 32" using i n by (simp add: mod_if)
        with F i n show ?thesis unfolding m
          by (auto simp: bit_simps bit_word_rotr_iff add.commute dest: bit_imp_le_length)
      qed
    qed
  qed
  finally show ?thesis by (simp add: n_def)
qed

lemma w32_rotate32Left:
  "w32 (rotate32Left (uint (w :: u32)) (uint (s :: u32))) = word_rotl (nat (uint s mod 32)) w"
proof -
  define n where "n = nat (uint s mod 32)"
  have n: "n < 32" "uint s mod 32 = int n" by (auto simp: n_def)
  have sc: "shift_count (int n) = n" "shift_count 0 = 0" using n by (simp_all add: shift_count_self)
  have "w32 (rotate32Left (uint w) (uint s)) = push_bit n w OR drop_bit ((32 - n) mod 32) w"
    unfolding rotate32Left_def Let_def smod_32 n(2)
    by (simp only: js_word w32_minus_one sc shift_count_32_minus [OF n(1)] word_of_int_uint
        and.right_neutral drop_bit_0 id_apply)
  also have "\<dots> = word_rotl n w"
  proof (rule bit_word_eqI)
    fix i assume "i < LENGTH(32)"
    then have i: "i < 32" by simp
    show "bit (push_bit n w OR drop_bit ((32 - n) mod 32) w) i = bit (word_rotl n w) i"
    proof (cases "n = 0")
      case True
      then show ?thesis using i by (simp add: bit_simps)
    next
      case False
      then have m: "(32 - n) mod 32 = 32 - n" using n by simp
      from n i show ?thesis unfolding m
        by (auto simp: bit_rotl32 bit_or_iff bit_push_bit_iff bit_drop_bit_eq add.commute
            dest: bit_imp_le_length)
    qed
  qed
  finally show ?thesis by (simp add: n_def)
qed

lemmas rotate_rules = rotate64Right_eq rotate64Left_eq w32_rotate32Right w32_rotate32Left

lemma rotR64_spec [op_spec]:
  "op_rotR64 regs a b r = Inr (regs[r := word_rotr (nat (uint (lo32 (regs ! b)) mod 64)) (regs ! a)])"
  by (simp add: op_rotR64_def alu_defs rotate_rules)

lemma rotL64_spec [op_spec]:
  "op_rotL64 regs a b r = Inr (regs[r := word_rotl (nat (uint (lo32 (regs ! b)) mod 64)) (regs ! a)])"
  by (simp add: op_rotL64_def alu_defs rotate_rules)

lemma rotR32_spec [op_spec]:
  "op_rotR32 regs a b r = regs[r := sx64 (word_rotr (nat (uint (lo32 (regs ! b)) mod 32)) (lo32 (regs ! a)))]"
  by (simp add: op_rotR32_def alu_defs rotate_rules)

lemma rotL32_spec [op_spec]:
  "op_rotL32 regs a b r = regs[r := sx64 (word_rotl (nat (uint (lo32 (regs ! b)) mod 32)) (lo32 (regs ! a)))]"
  by (simp add: op_rotL32_def alu_defs rotate_rules)

lemma rotR64Imm_spec [op_spec]: "wf_imm i \<Longrightarrow>
    op_rotR64Imm regs a i r = Inr (regs[r := word_rotr (nat (uint (lo32 (imm_word i)) mod 64)) (regs ! a)])"
  by (simp add: op_rotR64Imm_def alu_defs rotate_rules op_spec)

lemma rotR64ImmAlt_spec [op_spec]: "wf_imm i \<Longrightarrow>
    op_rotR64ImmAlt regs a i r = Inr (regs[r := word_rotr (nat (uint (lo32 (regs ! a)) mod 64)) (imm_word i)])"
  by (simp add: op_rotR64ImmAlt_def alu_defs rotate_rules op_spec)

lemma rotR32Imm_spec [op_spec]: "wf_imm i \<Longrightarrow>
    op_rotR32Imm regs a i r = regs[r := sx64 (word_rotr (nat (uint (lo32 (imm_word i)) mod 32)) (lo32 (regs ! a)))]"
  by (simp add: op_rotR32Imm_def alu_defs rotate_rules op_spec)

lemma rotR32ImmAlt_spec [op_spec]: "wf_imm i \<Longrightarrow>
    op_rotR32ImmAlt regs a i r = regs[r := sx64 (word_rotr (nat (uint (lo32 (regs ! a)) mod 32)) (lo32 (imm_word i)))]"
  by (simp add: op_rotR32ImmAlt_def alu_defs rotate_rules op_spec)




end
