(* ===== verification/InstructionSet.thy ===== *)
theory InstructionSet
  imports Dispatchers AluSpec
begin

text \<open>
  The reference for the register instructions: for each opcode, the value written to the
  destination register as a function of the operand words (and of the old destination value, which
  the conditional moves keep). The formulas are written on machine words, without the code's
  bigint arithmetic, masks and 32-bit JavaScript operators; the lemmas show that the dispatchers
  and the operations they call compute exactly them.
\<close>

unbundle bit_operations_syntax

definition three_regs_sem :: "nat \<Rightarrow> u64 \<Rightarrow> u64 \<Rightarrow> u64 \<Rightarrow> u64" where
  "three_regs_sem instruction a b d =
     (if instruction = ADD_32 then sx64 (lo32 a + lo32 b)
      else if instruction = ADD_64 then a + b
      else if instruction = MUL_32 then sx64 (lo32 a * lo32 b)
      else if instruction = MUL_64 then a * b
      else if instruction = MUL_UPPER_U_U then mul_hi_uu a b
      else if instruction = MUL_UPPER_S_S then mul_hi_ss a b
      else if instruction = MUL_UPPER_S_U then mul_hi_su a b
      else if instruction = SUB_32 then sx64 (lo32 a - lo32 b)
      else if instruction = SUB_64 then a - b
      else if instruction = DIV_S_32 then (if lo32 b = 0 then - 1 else sx64 (word_sdiv (lo32 a) (lo32 b)))
      else if instruction = DIV_S_64 then (if b = 0 then - 1 else word_sdiv a b)
      else if instruction = DIV_U_32 then (if lo32 b = 0 then - 1 else sx64 (lo32 a div lo32 b))
      else if instruction = DIV_U_64 then (if b = 0 then - 1 else a div b)
      else if instruction = REM_S_32 then (if lo32 b = 0 then sx64 (lo32 a) else sx64 (word_srem (lo32 a) (lo32 b)))
      else if instruction = REM_S_64 then (if b = 0 then a else word_srem a b)
      else if instruction = REM_U_32 then (if lo32 b = 0 then sx64 (lo32 a) else sx64 (lo32 a mod lo32 b))
      else if instruction = REM_U_64 then (if b = 0 then a else a mod b)
      else if instruction = SHLO_L_32 then sx64 (push_bit (nat (uint (lo32 b) mod 32)) (lo32 a))
      else if instruction = SHLO_L_64 then push_bit (nat (uint b mod 64)) a
      else if instruction = SHLO_R_32 then sx64 (drop_bit (nat (uint (lo32 b) mod 32)) (lo32 a))
      else if instruction = SHLO_R_64 then drop_bit (nat (uint b mod 64)) a
      else if instruction = SHAR_R_32 then sx64 (signed_drop_bit (nat (uint (lo32 b) mod 32)) (lo32 a))
      else if instruction = SHAR_R_64 then signed_drop_bit (nat (uint b mod 64)) a
      else if instruction = INSTR_OR then a OR b
      else if instruction = INSTR_AND then a AND b
      else if instruction = INSTR_XOR then a XOR b
      else if instruction = SET_LT_S then (if a <s b then 1 else 0)
      else if instruction = SET_LT_U then (if a < b then 1 else 0)
      else if instruction = CMOV_IZ then (if b = 0 then a else d)
      else if instruction = CMOV_NZ then (if b \<noteq> 0 then a else d)
      else if instruction = ROT_L_64 then word_rotl (nat (uint (lo32 b) mod 64)) a
      else if instruction = ROT_L_32 then sx64 (word_rotl (nat (uint (lo32 b) mod 32)) (lo32 a))
      else if instruction = ROT_R_64 then word_rotr (nat (uint (lo32 b) mod 64)) a
      else if instruction = ROT_R_32 then sx64 (word_rotr (nat (uint (lo32 b) mod 32)) (lo32 a))
      else if instruction = AND_INV then a AND NOT b
      else if instruction = OR_INV then a OR NOT b
      else if instruction = XNOR then NOT (a XOR b)
      else if instruction = INSTR_MAX then (if sint a < sint b then b else a)
      else if instruction = MAX_U then (if uint a < uint b then b else a)
      else if instruction = INSTR_MIN then (if sint b < sint a then b else a)
      else if instruction = MIN_U then (if uint b < uint a then b else a)
      else d)"

definition two_regs_imm_sem :: "nat \<Rightarrow> u64 \<Rightarrow> u64 \<Rightarrow> u64 \<Rightarrow> u64" where
  "two_regs_imm_sem instruction a i d =
     (if instruction = ADD_IMM_32 then sx64 (lo32 a + lo32 i)
      else if instruction = ADD_IMM_64 then a + i
      else if instruction = MUL_IMM_32 then sx64 (lo32 a * lo32 i)
      else if instruction = MUL_IMM_64 then a * i
      else if instruction = NEG_ADD_IMM_32 then sx64 (lo32 i - lo32 a)
      else if instruction = NEG_ADD_IMM_64 then i - a
      else if instruction = SHLO_L_IMM_32 then sx64 (push_bit (nat (uint (lo32 i) mod 32)) (lo32 a))
      else if instruction = SHLO_L_IMM_64 then push_bit (nat (uint i mod 64)) a
      else if instruction = SHLO_L_IMM_ALT_32 then sx64 (push_bit (nat (uint (lo32 a) mod 32)) (lo32 i))
      else if instruction = SHLO_L_IMM_ALT_64 then push_bit (nat (uint a mod 64)) i
      else if instruction = SHLO_R_IMM_32 then sx64 (drop_bit (nat (uint (lo32 i) mod 32)) (lo32 a))
      else if instruction = SHLO_R_IMM_64 then drop_bit (nat (uint i mod 64)) a
      else if instruction = SHLO_R_IMM_ALT_32 then sx64 (drop_bit (nat (uint (lo32 a) mod 32)) (lo32 i))
      else if instruction = SHLO_R_IMM_ALT_64 then drop_bit (nat (uint a mod 64)) i
      else if instruction = SHAR_R_IMM_32 then sx64 (signed_drop_bit (nat (uint (lo32 i) mod 32)) (lo32 a))
      else if instruction = SHAR_R_IMM_64 then signed_drop_bit (nat (uint i mod 64)) a
      else if instruction = SHAR_R_IMM_ALT_32 then sx64 (signed_drop_bit (nat (uint (lo32 a) mod 32)) (lo32 i))
      else if instruction = SHAR_R_IMM_ALT_64 then signed_drop_bit (nat (uint a mod 64)) i
      else if instruction = OR_IMM then a OR i
      else if instruction = AND_IMM then a AND i
      else if instruction = XOR_IMM then a XOR i
      else if instruction = SET_LT_S_IMM then (if a <s i then 1 else 0)
      else if instruction = SET_LT_U_IMM then (if a < i then 1 else 0)
      else if instruction = SET_GT_S_IMM then (if i <s a then 1 else 0)
      else if instruction = SET_GT_U_IMM then (if i < a then 1 else 0)
      else if instruction = CMOV_IZ_IMM then (if a = 0 then i else d)
      else if instruction = CMOV_NZ_IMM then (if a \<noteq> 0 then i else d)
      else if instruction = ROT_R_64_IMM then word_rotr (nat (uint (lo32 i) mod 64)) a
      else if instruction = ROT_R_64_IMM_ALT then word_rotr (nat (uint (lo32 a) mod 64)) i
      else if instruction = ROT_R_32_IMM then sx64 (word_rotr (nat (uint (lo32 i) mod 32)) (lo32 a))
      else if instruction = ROT_R_32_IMM_ALT then sx64 (word_rotr (nat (uint (lo32 a) mod 32)) (lo32 i))
      else d)"

definition two_regs_sem :: "nat \<Rightarrow> u64 \<Rightarrow> u64 \<Rightarrow> u64" where
  "two_regs_sem instruction a d =
     (if instruction = MOVE_REG then a
      else if instruction = COUNT_SET_BITS_64 then w64 (ones 64 (uint a))
      else if instruction = COUNT_SET_BITS_32 then w64 (ones 32 (uint (lo32 a)))
      else if instruction = LEADING_ZERO_BITS_64 then w64 (leading_zeros 64 (uint a))
      else if instruction = LEADING_ZERO_BITS_32 then w64 (leading_zeros 32 (uint (lo32 a)))
      else if instruction = TRAILING_ZERO_BITS_64 then w64 (trailing_zeros 64 (uint a))
      else if instruction = TRAILING_ZERO_BITS_32 then w64 (trailing_zeros 32 (uint (lo32 a)))
      else if instruction = SIGN_EXTEND_8 then scast (ucast a :: 8 word)
      else if instruction = SIGN_EXTEND_16 then scast (ucast a :: 16 word)
      else if instruction = ZERO_EXTEND_16 then ucast (ucast a :: 16 word)
      else if instruction = REVERSE_BYTES then bytes_word (rev (word_bytes a))
      else d)"

section \<open>The dispatchers implement the reference\<close>

lemma threeRegs_dispatch_eq:
  "threeRegs_dispatch instruction first second third s =
    Inr (set_regs ((m_regs s)[third := three_regs_sem instruction
      (m_regs s ! first) (m_regs s ! second) (m_regs s ! third)]) s)"
  unfolding threeRegs_dispatch_def three_regs_sem_def
  by (simp add: on_regs_def on_regs_throws_def op_spec set_regs_def)

lemma twoRegs_dispatch_eq:
  "instruction \<noteq> SBRK \<Longrightarrow> twoRegs_dispatch instruction first second s =
    Inr (set_regs ((m_regs s)[second := two_regs_sem instruction
      (m_regs s ! first) (m_regs s ! second)]) s)"
  unfolding twoRegs_dispatch_def two_regs_sem_def
  by (simp add: on_regs_def on_regs_throws_def op_spec set_regs_def)


end
