(* ===== verification/OpsSpec.thy ===== *)
theory OpsSpec
  imports InstructionSet
begin

text \<open>
  What the operations of theory PvmOps do: loads and stores in terms of the bytes of memory
  (\<open>mem_byte\<close>) and of the first page an access is denied, branches and dynamic jumps in terms of
  the basic blocks. The invariant of the shared state is \<open>wf_machine\<close>; \<open>good\<close> says that an operation
  does not throw, keeps the invariant and moves the program counter only to a basic block.
\<close>

section \<open>The invariant of the shared state\<close>

definition wf_result :: "instruction_result \<Rightarrow> bool" where
  "wf_result r \<longleftrightarrow> (case exitParam r of None \<Rightarrow> True | Some p \<Rightarrow> 0 \<le> p \<and> p < 4294967296)"

definition wf_machine :: "machine \<Rightarrow> bool" where
  "wf_machine s \<longleftrightarrow> length (m_regs s) = 13 \<and> wf_memory (m_mem s) \<and> wf_result (m_res s)"

definition good :: "basic_blocks \<Rightarrow> machine \<Rightarrow> machine throws \<Rightarrow> bool" where
  "good bbs s r \<longleftrightarrow> (\<exists>s'. r = Inr s' \<and> wf_machine s' \<and>
     (nextPc (m_res s') = nextPc (m_res s) \<or> nextPc (m_res s') \<in> bbs))"

lemma goodI: "wf_machine s' \<Longrightarrow> nextPc (m_res s') = nextPc (m_res s) \<or> nextPc (m_res s') \<in> bbs \<Longrightarrow>
    good bbs s (Inr s')"
  by (auto simp: good_def)

lemma good_trans: "good bbs s (Inr s') \<Longrightarrow> good bbs s' r \<Longrightarrow> good bbs s r"
  by (auto simp: good_def)

lemmas state_updates = set_status_def set_exitParam_def set_nextPc_def set_regs_def

lemma wf_machine_updates [simp]:
  "wf_machine (set_status st s) = wf_machine s" "wf_machine (set_nextPc pc s) = wf_machine s"
  "wf_machine s \<Longrightarrow> length regs = 13 \<Longrightarrow> wf_machine (set_regs regs s)"
  "wf_machine s \<Longrightarrow> 0 \<le> p \<Longrightarrow> p < 4294967296 \<Longrightarrow> wf_machine (set_exitParam p s)"
  "wf_machine s \<Longrightarrow> wf_memory m \<Longrightarrow> wf_machine (s\<lparr>m_mem := m\<rparr>)"
  by (simp_all add: wf_machine_def wf_result_def state_updates)

lemma nextPc_updates [simp]:
  "nextPc (m_res (set_status st s)) = nextPc (m_res s)" "nextPc (m_res (set_exitParam p s)) = nextPc (m_res s)"
  "nextPc (m_res (set_regs regs s)) = nextPc (m_res s)" "nextPc (m_res (set_nextPc pc s)) = pc"
  by (simp_all add: state_updates)

lemma wf_machine_parts:
  "wf_machine s \<Longrightarrow> length (m_regs s) = 13" "wf_machine s \<Longrightarrow> wf_pages (pages (m_mem s))"
  "wf_machine s \<Longrightarrow> wf_memory (m_mem s)"
  by (auto simp: wf_machine_def)

section \<open>Addresses\<close>

lemma addWithOverflowU32_uint: "addWithOverflowU32 (uint (x :: u32)) (uint y) = uint (x + y)"
proof -
  have b: "0 \<le> uint x" "uint x < 4294967296" "0 \<le> uint y" "uint y < 4294967296"
    using uint_lt2p [of x] uint_lt2p [of y] by simp_all
  show ?thesis
  proof (cases "uint x + uint y < 4294967296")
    case True
    then have "uint (x + y) = uint x + uint y" using b by (simp add: uint_word_ariths mod_pos_pos_trivial)
    with True show ?thesis by (simp add: addWithOverflowU32_def MAX_U32_def)
  next
    case False
    then have "(uint x + uint y - 4294967296) mod 4294967296 = uint x + uint y - 4294967296"
      using b by (intro mod_pos_pos_trivial) auto
    then have "(uint x + uint y) mod 4294967296 = uint x + uint y - 4294967296"
      by (simp only: minus_mod_self2)
    then have "uint (x + y) = uint x + uint y - 4294967296" by (simp add: uint_word_ariths)
    with False show ?thesis by (simp add: addWithOverflowU32_def MAX_U32_def Let_def)
  qed
qed

lemma ind_address_eq [op_spec]:
  "wf_imm imm \<Longrightarrow> ind_address s r imm = uint (lo32 (m_regs s ! r) + lo32 (imm_word imm))"
  "wf_imm imm \<Longrightarrow> ind_address_unsigned s r imm = uint (lo32 (m_regs s ! r) + lo32 (imm_word imm))"
  "wf_imm imm \<Longrightarrow> caluclateJumpAddress imm r s = uint (lo32 (m_regs s ! r) + lo32 (imm_word imm))"
  by (simp_all add: ind_address_def ind_address_unsigned_def caluclateJumpAddress_def imm_getUnsigned_def
      getLowerU32_eq imm_getU32_eq addWithOverflowU32_uint)

lemma imm_getUnsigned_uint [op_spec]: "wf_imm imm \<Longrightarrow> imm_getUnsigned imm = uint (lo32 (imm_word imm))"
  by (simp add: imm_getUnsigned_def imm_getU32_eq)

lemma u32_address: "nat (uint (a :: u32)) = unat a" "unat a < 4294967296"
  using uint_lt2p [of a] by (simp_all flip: nat_uint_eq)

section \<open>Loads\<close>

text \<open>The page whose fault an access reports.\<close>

definition first_fault :: "memory \<Rightarrow> access_type \<Rightarrow> nat \<Rightarrow> nat \<Rightarrow> page_fault" where
  "first_fault m acc s n =
     (case List.find (\<lambda>p. \<not> accessible m acc p) (pages_of s n) of
        Some p \<Rightarrow> fault_at m p | None \<Rightarrow> fault_at m 0)"

definition bytes_at :: "memory \<Rightarrow> nat \<Rightarrow> nat \<Rightarrow> byte list" where
  "bytes_at m a n = List.map (mem_byte m) [a..<a + n]"

lemma length_bytes_at [simp]: "length (bytes_at m a n) = n"
  by (simp add: bytes_at_def)

lemma first_fault_bounds:
  assumes "a < 4294967296" "0 < n" "n \<le> 4294967296" "\<not> granted m acc a n"
  shows "address (first_fault m acc a n) < 4294967296" "address (first_fault m acc a n) mod 4096 = 0"
proof -
  obtain p where p: "List.find (\<lambda>p. \<not> accessible m acc p) (pages_of a n) = Some p"
    using assms(4) granted_find [OF assms(1-3)] by auto
  then have "p \<in> set (pages_of a n)" by (auto simp: find_Some_iff)
  then have "p < 1048576" by (rule pages_of_less)
  with p show "address (first_fault m acc a n) < 4294967296" "address (first_fault m acc a n) mod 4096 = 0"
    by (simp_all add: first_fault_def fault_at_def)
qed

lemma loadInto_granted:
  assumes "wf_pages (pages m)" "a < 4294967296" "0 < length res" "length res \<le> 4294967296"
  shows "loadInto res a m = Inr (if granted m READ a (length res) then Inr (bytes_at m a (length res))
    else Inl (first_fault m READ a (length res)))"
  using loadInto_eq [OF assms] granted_find [OF assms(2-4)]
  by (auto simp: bytes_at_def first_fault_def split: option.splits)

lemma bytes_word_zero_extend: "length bs \<le> 8 \<Longrightarrow> bytes_word (bs @ replicate (8 - length bs) 0) = w64 (le_val bs)"
  by (simp add: bytes_word_def le_val_append)

lemma loadNumber_eq:
  assumes wf: "wf_machine s" and r: "r < 13" and n: "0 < n" "n \<le> 8"
  shows "loadNumber (uint (addr :: u32)) r n s =
    Inr (if granted (m_mem s) READ (unat addr) n
         then set_regs ((m_regs s)[r := w64 (le_val (bytes_at (m_mem s) (unat addr) n))]) s
         else load_fault (uint addr) (first_fault (m_mem s) READ (unat addr) n) s)"
proof -
  let ?b = "subarray (getBytesAsLittleEndian (m_regs s) r 8) 0 n"
  have len: "length ?b = n"
    using wf_machine_parts(1) [OF wf] r n by (simp add: getBytesAsLittleEndian_eq)
  note load = loadInto_granted [OF wf_machine_parts(2) [OF wf] u32_address(2) [of addr], of ?b, unfolded len]
  show ?thesis
    using n load bytes_word_zero_extend [of "bytes_at (m_mem s) (unat addr) n"] u32_address(2) [of addr]
    by (auto simp: loadNumber_def Let_def REG_SIZE_BYTES_def tryAsMemoryIndex_def)
qed

lemma js_and_0x80_pos: "js_and (uint (b :: byte)) 0x80 > 0 \<longleftrightarrow> 128 \<le> uint b"
proof -
  have "js_and (uint b) 0x80 \<ge> 0" using byte_bounds [of b] by (simp add: js_and_def to_int32_id)
  with js_and_0x80 [of b] show ?thesis by linarith
qed

lemma bytes_word_sign_extend:
  assumes "bs \<noteq> []" "length bs \<le> 8"
  shows "bytes_word (bs @ replicate (8 - length bs) (if js_and (uint (last bs)) 0x80 > 0 then 0xff else 0)) =
    w64 (signed_take_bit (8 * length bs - 1) (le_val bs))"
proof -
  have "bytes_word (setBytes bs) = w64 (signed_take_bit (8 * length bs - 1) (le_val bs))"
    using setBytes_imm_word [OF assms(2)] assms(1) by (simp add: imm_word_def bytes_word_def)
  then show ?thesis
    using setBytes_eq [OF assms(2)] le_val_sign [OF assms(1)] assms(1) by (simp add: js_and_0x80_pos)
qed

lemma loadSignedNumber_eq:
  assumes wf: "wf_machine s" and r: "r < 13" and n: "0 < n" "n \<le> 8"
  shows "loadSignedNumber (uint (addr :: u32)) r n s =
    Inr (if granted (m_mem s) READ (unat addr) n
         then set_regs ((m_regs s)[r := w64 (signed_take_bit (8 * n - 1) (le_val (bytes_at (m_mem s) (unat addr) n)))]) s
         else load_fault (uint addr) (first_fault (m_mem s) READ (unat addr) n) s)"
proof -
  let ?b = "subarray (getBytesAsLittleEndian (m_regs s) r 8) 0 n"
  let ?l = "bytes_at (m_mem s) (unat addr) n"
  have len: "length ?b = n"
    using wf_machine_parts(1) [OF wf] r n by (simp add: getBytesAsLittleEndian_eq)
  note load = loadInto_granted [OF wf_machine_parts(2) [OF wf] u32_address(2) [of addr], of ?b, unfolded len]
  have ne: "?l \<noteq> []" using n by (simp add: bytes_at_def)
  then have "?l ! (n - 1) = last ?l" by (simp add: last_conv_nth)
  with ne show ?thesis
    using n load bytes_word_sign_extend [of ?l] u32_address(2) [of addr]
    by (auto simp: loadSignedNumber_def Let_def REG_SIZE_BYTES_def tryAsMemoryIndex_def)
qed

lemma load_fault_good:
  assumes "wf_machine s" "0 \<le> addr" "addr < 4294967296"
  shows "wf_machine (load_fault addr f s)" "nextPc (m_res (load_fault addr f s)) = nextPc (m_res s)"
  using assms by (simp_all add: load_fault_def)

lemma loads_good:
  assumes "wf_machine s" "r < 13" "0 < n" "n \<le> 8"
  shows "good bbs s (loadNumber (uint (addr :: u32)) r n s)" "good bbs s (loadSignedNumber (uint (addr :: u32)) r n s)"
  using assms load_fault_good [of s "uint addr"] uint_lt2p [of addr]
  by (auto simp: loadNumber_eq loadSignedNumber_eq wf_machine_parts(1) intro!: goodI)

section \<open>Stores\<close>

definition store_fault :: "page_fault \<Rightarrow> machine \<Rightarrow> machine" where
  "store_fault f s =
     (if isAccessFault f then set_status R_FAULT_ACCESS s
      else set_exitParam (int (address f)) (set_status R_FAULT s))"

lemma op_store_cases:
  assumes wf: "wf_machine s" and n: "0 < length bs" "length bs \<le> 8"
  obtains (stored) m' where "granted (m_mem s) WRITE (unat addr) (length bs)"
      "op_store (uint (addr :: u32)) bs s = Inr (s\<lparr>m_mem := m'\<rparr>)" "wf_memory m'" "same_shape (m_mem s) m'"
      "\<And>a. mem_byte m' a =
        (if unat addr \<le> a \<and> a < unat addr + length bs then bs ! (a - unat addr) else mem_byte (m_mem s) a)"
  | (denied) "\<not> granted (m_mem s) WRITE (unat addr) (length bs)"
      "op_store (uint addr) bs s = Inr (store_fault (first_fault (m_mem s) WRITE (unat addr) (length bs)) s)"
proof -
  note a = u32_address [of addr]
  have n': "length bs \<le> 4294967296" using n by simp
  have s': "s\<lparr>m_mem := m_mem s\<rparr> = s" by simp
  from wf_machine_parts(2) [OF wf] a(2) n(1) n' show thesis
  proof (cases rule: storeFrom_cases)
    case (stored m')
    then have "op_store (uint addr) bs s = Inr (s\<lparr>m_mem := m'\<rparr>)"
      using a by (simp add: op_store_def tryAsMemoryIndex_def)
    moreover have "wf_memory m'"
      using wf_memory_same_shape [OF wf_machine_parts(3) [OF wf]] stored by blast
    ultimately show ?thesis using stored that(1) by blast
  next
    case (fault p)
    then have f: "first_fault (m_mem s) WRITE (unat addr) (length bs) = fault_at (m_mem s) p"
      by (simp add: first_fault_def)
    have "p \<in> set (pages_of (unat addr) (length bs))" using fault(2) by (auto simp: find_Some_iff)
    then have "p < 1048576" by (rule pages_of_less)
    then have "op_store (uint addr) bs s = Inr (store_fault (fault_at (m_mem s) p) s)"
      using fault(3) a by (simp add: op_store_def tryAsMemoryIndex_def store_fault_def fault_at_def s')
    with f fault(1) that(2) show ?thesis by simp
  qed
qed

lemma store_fault_good:
  assumes "wf_machine s" "address f < 4294967296"
  shows "wf_machine (store_fault f s)" "nextPc (m_res (store_fault f s)) = nextPc (m_res s)"
  using assms by (simp_all add: store_fault_def)

lemma op_store_good:
  assumes wf: "wf_machine s" and n: "0 < length bs" "length bs \<le> 8"
  shows "good bbs s (op_store (uint (addr :: u32)) bs s)"
  using wf n
proof (cases rule: op_store_cases [where addr = addr])
  case (stored m')
  with wf show ?thesis by (auto intro: goodI)
next
  case denied
  have "address (first_fault (m_mem s) WRITE (unat addr) (length bs)) < 4294967296"
    using denied(1) n u32_address(2) [of addr] by (intro first_fault_bounds) auto
  with denied store_fault_good [OF wf] show ?thesis by (auto intro!: goodI)
qed

lemma store_reg_bytes:
  assumes "wf_machine s" "r < 13" "n \<le> 8"
  shows "store_reg n addr r s = op_store addr (le_bytes n (uint (m_regs s ! r))) s"
  using assms wf_machine_parts(1) by (simp add: store_reg_def getBytesAsLittleEndian_eq)

lemma store_reg_good:
  "wf_machine s \<Longrightarrow> r < 13 \<Longrightarrow> 0 < n \<Longrightarrow> n \<le> 8 \<Longrightarrow> good bbs s (store_reg n (uint (addr :: u32)) r s)"
  by (simp add: store_reg_bytes op_store_good)

lemma imm_low_bytes:
  "wf_imm imm \<Longrightarrow> length (subarray (imm_getBytesAsLittleEndian imm) 0 1) = 1"
  "wf_imm imm \<Longrightarrow> length (subarray (imm_getBytesAsLittleEndian imm) 0 2) = 2"
  "wf_imm imm \<Longrightarrow> length (subarray (imm_getBytesAsLittleEndian imm) 0 4) = 4"
  "wf_imm imm \<Longrightarrow> length (imm_getExtendedBytesAsLittleEndian imm) = 8"
  by (simp_all add: imm_getBytesAsLittleEndian_def imm_getExtendedBytesAsLittleEndian_def wf_imm_def IMMEDIATE_SIZE_def)

lemma store_immediates_good:
  assumes "wf_machine s" "wf_imm imm"
  shows "good bbs s (storeImmediateU8 (uint (addr :: u32)) imm s)" "good bbs s (storeImmediateU16 (uint addr) imm s)"
    "good bbs s (storeImmediateU32 (uint addr) imm s)" "good bbs s (storeImmediateU64 (uint addr) imm s)"
  unfolding storeImmediateU8_def storeImmediateU16_def storeImmediateU32_def storeImmediateU64_def
  by (rule op_store_good; use assms imm_low_bytes in \<open>simp\<close>)+

section \<open>Allocation\<close>

lemma op_sbrk_good: "wf_machine s \<Longrightarrow> good bbs s (Inr (op_sbrk a d s))"
proof (rule goodI)
  assume wf: "wf_machine s"
  show "wf_machine (op_sbrk a d s)"
  proof (cases "sbrk (nat (getLowerU32 (m_regs s) a)) (m_mem s)")
    case (Inr r)
    obtain i m' where r: "r = (i, m')" by (cases r)
    have "wf_memory m'" using sbrk_wf [OF wf_machine_parts(3) [OF wf]] Inr r by blast
    with wf Inr r show ?thesis by (simp add: op_sbrk_def wf_machine_def)
  qed (simp add: op_sbrk_def wf)
  show "nextPc (m_res (op_sbrk a d s)) = nextPc (m_res s) \<or> nextPc (m_res (op_sbrk a d s)) \<in> bbs"
    by (simp add: op_sbrk_def split: sum.split)
qed

section \<open>Branches and jumps\<close>

lemma branch_good: "wf_machine s \<Longrightarrow> good bbs s (Inr (branch bbs target c s))"
  by (rule goodI) (auto simp: branch_def isBeginningOfBasicBlock_def)

lemma jump_good: "wf_machine s \<Longrightarrow> good bbs s (Inr (jump bbs target s))"
  by (simp add: jump_def branch_good)

lemmas branch_defs = branchEqImmediate_def branchEq_def branchNeImmediate_def branchNe_def
  branchLtUnsignedImmediate_def branchLtUnsigned_def branchLeUnsignedImmediate_def
  branchGtUnsignedImmediate_def branchGeUnsignedImmediate_def branchGeUnsigned_def
  branchLtSignedImmediate_def branchLtSigned_def branchLeSignedImmediate_def
  branchGtSignedImmediate_def branchGeSignedImmediate_def branchGeSigned_def

lemma djump_good: "wf_machine s \<Longrightarrow> good bbs s (Inr (djump jt bbs a s))"
  by (rule goodI) (auto simp: djump_def Let_def isBeginningOfBasicBlock_def split: option.split)

lemma loadImmediate_good:
  "wf_machine s \<Longrightarrow> good bbs s (Inr (loadImmediate r imm s))"
  "wf_machine s \<Longrightarrow> good bbs s (Inr (loadImmediateU64 r ext s))"
  by (rule goodI; simp add: loadImmediate_def loadImmediateU64_def wf_machine_parts(1))+

section \<open>Every dispatcher is good\<close>

lemmas memory_op_defs = loadU8_def loadU16_def loadU32_def loadU64_def loadI8_def loadI16_def loadI32_def
  loadIndU8_def loadIndU16_def loadIndU32_def loadIndU64_def loadIndI8_def loadIndI16_def loadIndI32_def
  storeU8_def storeU16_def storeU32_def storeU64_def storeIndU8_def storeIndU16_def storeIndU32_def
  storeIndU64_def storeImmediateIndU8_def storeImmediateIndU16_def storeImmediateIndU32_def
  storeImmediateIndU64_def

lemmas op_goods = loads_good store_reg_good store_immediates_good op_sbrk_good branch_good jump_good
  djump_good loadImmediate_good

lemma set_regs_good: "wf_machine s \<Longrightarrow> length regs = 13 \<Longrightarrow> good bbs s (Inr (set_regs regs s))"
  by (rule goodI) auto

lemma same_good: "wf_machine s \<Longrightarrow> good bbs s (Inr s)"
  by (rule goodI) auto

lemma noArgs_good: "wf_machine s \<Longrightarrow> good bbs s (noArgs_dispatch i s)"
  by (auto simp: noArgs_dispatch_def trap_def fallthrough_def intro!: goodI)

lemma oneImm_good: "wf_machine s \<Longrightarrow> wf_imm imm \<Longrightarrow> good bbs s (oneImm_dispatch i imm s)"
  using uint_lt2p [of "lo32 (imm_word imm)"]
  by (auto simp: oneImm_dispatch_def hostCall_def imm_getUnsigned_uint intro!: goodI)

lemma oneOffset_good: "wf_machine s \<Longrightarrow> good bbs s (oneOffset_dispatch bbs i target s)"
  by (simp add: oneOffset_dispatch_def jump_good same_good)

lemma oneRegOneExtImm_good: "wf_machine s \<Longrightarrow> good bbs s (oneRegOneExtImm_dispatch i r ext s)"
  by (simp add: oneRegOneExtImm_dispatch_def loadImmediate_good same_good)

lemma oneRegOneImm_good:
  "wf_machine s \<Longrightarrow> r < 13 \<Longrightarrow> wf_imm imm \<Longrightarrow> good bbs s (oneRegOneImm_dispatch jt bbs i r imm s)"
  unfolding oneRegOneImm_dispatch_def Let_def jumpInd_def memory_op_defs
  by (simp add: imm_getUnsigned_uint op_goods same_good)

lemma oneRegOneImmOneOffset_good:
  "wf_machine s \<Longrightarrow> good bbs s (oneRegOneImmOneOffset_dispatch bbs i r imm target s)"
  using good_trans [OF loadImmediate_good(1) jump_good, of s r imm bbs target]
  unfolding oneRegOneImmOneOffset_dispatch_def branch_defs
  by (simp add: branch_good same_good loadImmediate_def wf_machine_parts(1))

lemma oneRegTwoImms_good:
  "wf_machine s \<Longrightarrow> wf_imm imm1 \<Longrightarrow> wf_imm imm2 \<Longrightarrow> good bbs s (oneRegTwoImms_dispatch i r imm1 imm2 s)"
  unfolding oneRegTwoImms_dispatch_def memory_op_defs
  by (simp add: ind_address_eq op_goods same_good)

lemma twoImms_good:
  "wf_machine s \<Longrightarrow> wf_imm imm1 \<Longrightarrow> wf_imm imm2 \<Longrightarrow> good bbs s (twoImms_dispatch i imm1 imm2 s)"
  unfolding twoImms_dispatch_def
  by (simp add: imm_getUnsigned_uint op_goods same_good)

lemma twoRegs_good: "wf_machine s \<Longrightarrow> good bbs s (twoRegs_dispatch i a d s)"
proof (cases "i = SBRK")
  case True
  assume "wf_machine s"
  then show ?thesis unfolding True by (simp add: twoRegs_dispatch_def op_sbrk_good)
next
  case False
  assume "wf_machine s"
  then show ?thesis
    unfolding twoRegs_dispatch_eq [OF False] by (intro set_regs_good) (simp_all add: wf_machine_parts(1))
qed

lemma twoRegsOneOffset_good: "wf_machine s \<Longrightarrow> good bbs s (twoRegsOneOffset_dispatch bbs i a b target s)"
  unfolding twoRegsOneOffset_dispatch_def branch_defs by (simp add: branch_good same_good)

lemma twoRegsTwoImms_good:
  "wf_machine s \<Longrightarrow> good bbs s (twoRegsTwoImms_dispatch jt bbs i a b imm1 imm2 s)"
  using good_trans [OF loadImmediate_good(1) djump_good]
  unfolding twoRegsTwoImms_dispatch_def Let_def jumpInd_def
  by (simp add: same_good loadImmediate_def wf_machine_parts(1))

lemma threeRegs_good: "wf_machine s \<Longrightarrow> good bbs s (threeRegs_dispatch i a b d s)"
  unfolding threeRegs_dispatch_eq by (intro set_regs_good) (simp_all add: wf_machine_parts(1))

text \<open>The indirect loads and stores among the instructions with two registers and an immediate.\<close>

definition indirect_opcodes :: "nat list" where
  "indirect_opcodes = [STORE_IND_U8, STORE_IND_U16, STORE_IND_U32, STORE_IND_U64, LOAD_IND_U8,
     LOAD_IND_U16, LOAD_IND_U32, LOAD_IND_U64, LOAD_IND_I8, LOAD_IND_I16, LOAD_IND_I32]"

lemma twoRegsOneImm_dispatch_eq:
  assumes "i \<notin> set indirect_opcodes" "wf_imm imm"
  shows "twoRegsOneImm_dispatch i first second imm s =
    Inr (set_regs ((m_regs s)[first := two_regs_imm_sem i (m_regs s ! second) (imm_word imm)
      (m_regs s ! first)]) s)"
  using assms unfolding twoRegsOneImm_dispatch_def two_regs_imm_sem_def indirect_opcodes_def
  by (simp add: on_regs_def on_regs_throws_def op_spec set_regs_def)

lemma twoRegsOneImm_indirect:
  "twoRegsOneImm_dispatch STORE_IND_U8 a b imm s = store_reg 1 (ind_address_unsigned s b imm) a s"
  "twoRegsOneImm_dispatch STORE_IND_U16 a b imm s = store_reg 2 (ind_address_unsigned s b imm) a s"
  "twoRegsOneImm_dispatch STORE_IND_U32 a b imm s = store_reg 4 (ind_address_unsigned s b imm) a s"
  "twoRegsOneImm_dispatch STORE_IND_U64 a b imm s = store_reg 8 (ind_address_unsigned s b imm) a s"
  "twoRegsOneImm_dispatch LOAD_IND_U8 a b imm s = loadNumber (ind_address s b imm) a 1 s"
  "twoRegsOneImm_dispatch LOAD_IND_U16 a b imm s = loadNumber (ind_address s b imm) a 2 s"
  "twoRegsOneImm_dispatch LOAD_IND_U32 a b imm s = loadNumber (ind_address s b imm) a 4 s"
  "twoRegsOneImm_dispatch LOAD_IND_U64 a b imm s = loadNumber (ind_address s b imm) a 8 s"
  "twoRegsOneImm_dispatch LOAD_IND_I8 a b imm s = loadSignedNumber (ind_address s b imm) a 1 s"
  "twoRegsOneImm_dispatch LOAD_IND_I16 a b imm s = loadSignedNumber (ind_address s b imm) a 2 s"
  "twoRegsOneImm_dispatch LOAD_IND_I32 a b imm s = loadSignedNumber (ind_address s b imm) a 4 s"
  by (simp_all add: twoRegsOneImm_dispatch_def memory_op_defs)

lemma twoRegsOneImm_good:
  assumes "wf_machine s" "a < 13" "wf_imm imm"
  shows "good bbs s (twoRegsOneImm_dispatch i a b imm s)"
proof (cases "i \<in> set indirect_opcodes")
  case True
  then show ?thesis
    unfolding indirect_opcodes_def
    using assms by (auto simp: twoRegsOneImm_indirect ind_address_eq op_goods)
next
  case False
  show ?thesis
    unfolding twoRegsOneImm_dispatch_eq [OF False assms(3)]
    using assms(1) by (intro set_regs_good) (simp_all add: wf_machine_parts(1))
qed

end
