(* ===== verification/Gas.thy ===== *)
theory Gas
  imports Numbers
begin

text \<open>
  Gas values (\<open>pvm-interface/gas.ts\<close>) and the gas counter of the interpreter
  (\<open>pvm-interpreter/gas.ts\<close>). A \<open>Gas\<close> is a \<open>number\<close> below \<open>2 ^ 32\<close> or a \<open>bigint\<close> below
  \<open>2 ^ 64\<close>; both are integers here, and \<open>tryAsGas\<close> takes the \<open>typeof\<close> test as an argument.
  The counter never goes below zero: an underflow sets it to zero and is reported.
\<close>

definition tryAsSmallGas :: "int \<Rightarrow> int throws" where
  "tryAsSmallGas v = tryAsU32 v"

definition tryAsBigGas :: "int \<Rightarrow> int throws" where
  "tryAsBigGas v = tryAsU64 v"

definition tryAsGas :: "bool \<Rightarrow> int \<Rightarrow> int throws" where
  "tryAsGas is_number v = (if is_number \<and> v < 2 ^ 32 then tryAsSmallGas v else tryAsBigGas v)"

record gas_counter =
  initialGas :: int
  gas :: int

text \<open>\<open>gasCounter(gas)\<close>, the factory, with the constructor it calls.\<close>

definition gasCounter :: "int \<Rightarrow> gas_counter throws" where
  "gasCounter g = bindE (tryAsU64 g) (\<lambda>g.
     bindE (tryAsGas False g) (\<lambda>init. Inr \<lparr>initialGas = init, gas = g\<rparr>))"

definition gas_set :: "gas_counter \<Rightarrow> int \<Rightarrow> gas_counter throws" where
  "gas_set c g = bindE (tryAsU64 g) (\<lambda>g. Inr (c\<lparr>gas := g\<rparr>))"

definition gas_get :: "gas_counter \<Rightarrow> int throws" where
  "gas_get c = tryAsGas False (gas c)"

text \<open>\<open>sub\<close> returns whether the subtraction underflowed.\<close>

definition gas_sub :: "gas_counter \<Rightarrow> int \<Rightarrow> (gas_counter \<times> bool) throws" where
  "gas_sub c g = bindE (tryAsU64 g) (\<lambda>g.
     let result = gas c - g in
     if result \<ge> 0 then bindE (tryAsU64 result) (\<lambda>r. Inr (c\<lparr>gas := r\<rparr>, False))
     else bindE (tryAsU64 0) (\<lambda>z. Inr (c\<lparr>gas := z\<rparr>, True)))"

definition gas_used :: "gas_counter \<Rightarrow> int throws" where
  "gas_used c = bindE (tryAsU64 (initialGas c)) (\<lambda>init.
     let gasConsumed = init - gas c in
     if gasConsumed < 0 then Inr (initialGas c) else tryAsGas False gasConsumed)"

text \<open>The counter is in range; it may be set above the initial gas by a host call.\<close>

definition wf_gas :: "gas_counter \<Rightarrow> bool" where
  "wf_gas c \<longleftrightarrow> 0 \<le> gas c \<and> gas c < 2 ^ 64 \<and> 0 \<le> initialGas c \<and> initialGas c < 2 ^ 64"

lemma tryAsU64_Inr: "0 \<le> v \<Longrightarrow> v < 2 ^ 64 \<Longrightarrow> tryAsU64 v = Inr v"
  by (simp add: tryAs_Inr_iff)

lemma tryAsGas_big: "0 \<le> v \<Longrightarrow> v < 2 ^ 64 \<Longrightarrow> tryAsGas b v = Inr v"
  by (auto simp: tryAsGas_def tryAsSmallGas_def tryAsBigGas_def tryAs_Inr_iff)

lemma gasCounter_eq:
  "0 \<le> g \<Longrightarrow> g < 2 ^ 64 \<Longrightarrow> gasCounter g = Inr \<lparr>initialGas = g, gas = g\<rparr>"
  by (simp add: gasCounter_def tryAsU64_Inr tryAsGas_big)

text \<open>The exact behaviour of a subtraction: it saturates at zero and tells so.\<close>

lemma gas_sub_eq:
  assumes "wf_gas c" "0 \<le> g" "g < 2 ^ 64"
  shows "gas_sub c g = Inr (c\<lparr>gas := max 0 (gas c - g)\<rparr>, gas c < g)"
  using assms by (auto simp: gas_sub_def wf_gas_def tryAsU64_Inr max_def Let_def)

lemma gas_sub_wf: "wf_gas c \<Longrightarrow> 0 \<le> g \<Longrightarrow> wf_gas (c\<lparr>gas := max 0 (gas c - g)\<rparr>)"
  by (auto simp: wf_gas_def)

lemma gas_used_eq:
  "wf_gas c \<Longrightarrow> gas_used c = Inr (if initialGas c < gas c then initialGas c else initialGas c - gas c)"
  by (auto simp: gas_used_def wf_gas_def tryAsU64_Inr tryAsGas_big Let_def)

end
