(* ===== verification/Interpreter.thy ===== *)
theory Interpreter
  imports OpsSpec Gas "HOL-Library.AList"
begin

text \<open>
  The interpreter of \<open>interpreter.ts\<close>: its state, \<open>resetGeneric\<close>, \<open>nextStep\<close>, \<open>runProgram\<close> and
  the accessors, and the debugger's adapter (\<open>debugger-adapter.ts\<close>). The objects the constructor
  shares between the operation classes are the \<open>machine\<close> of theory PvmOps. Not returning is the
  value \<open>None\<close> of \<open>runProgram\<close>; the lemmas show that it does return, because every step that ends
  in \<open>OK\<close> costs gas.
\<close>

datatype status = S_OK | S_HALT | S_PANIC | S_FAULT | S_HOST | S_OOG

record interpreter =
  i_useSbrkGas :: bool
  i_machine :: machine
  i_gas :: gas_counter
  i_code :: "byte list"
  i_mask :: code_mask
  i_pc :: nat
  i_status :: status
  i_basicBlocks :: basic_blocks
  i_jumpTable :: jump_table

definition new_interpreter :: "bool \<Rightarrow> interpreter throws" where
  "new_interpreter useSbrkGas =
     bindE new_memory (\<lambda>mem.
     bindE (gasCounter 0) (\<lambda>g.
     bindE empty_mask (\<lambda>m.
       Inr \<lparr>i_useSbrkGas = useSbrkGas,
            i_machine = \<lparr>m_regs = empty_registers, m_mem = mem, m_res = new_instructionResult\<rparr>,
            i_gas = g, i_code = [], i_mask = m, i_pc = 0, i_status = S_OK, i_basicBlocks = {},
            i_jumpTable = empty_jumpTable\<rparr>)))"

definition resetGeneric :: "byte list \<Rightarrow> nat \<Rightarrow> int \<Rightarrow> registers option \<Rightarrow> memory option \<Rightarrow>
    interpreter \<Rightarrow> interpreter throws" where
  "resetGeneric rawProgram pc initGas maybeRegisters maybeMemory st =
     bindE (new_program rawProgram) (\<lambda>p.
     bindE (gasCounter initGas) (\<lambda>g.
     bindE (basicBlocks_reset (p_code p) (p_mask p)) (\<lambda>bbs.
     let s = i_machine st;
         regs = (case maybeRegisters of Some r \<Rightarrow> copyFrom_regs (m_regs s) r | None \<Rightarrow> reset_regs (m_regs s))
     in bindE (case maybeMemory of Some m \<Rightarrow> Inr (copyFrom_memory (m_mem s) m)
                                 | None \<Rightarrow> memory_reset (m_mem s)) (\<lambda>mem.
       Inr (st\<lparr>i_code := p_code p, i_mask := p_mask p,
               i_jumpTable := copyFrom_jt (i_jumpTable st) (p_jumpTable p),
               i_pc := pc, i_gas := g, i_status := S_OK, i_basicBlocks := bbs,
               i_machine := \<lparr>m_regs = regs, m_mem = mem, m_res = instructionResult_reset (m_res s)\<rparr>\<rparr>)))))"

section \<open>One step\<close>

text \<open>The \<open>switch\<close> over the argument types.\<close>

fun dispatch :: "jump_table \<Rightarrow> basic_blocks \<Rightarrow> nat \<Rightarrow> args \<Rightarrow> machine \<Rightarrow> machine throws" where
  "dispatch jt bbs i (EmptyArgs _) s = noArgs_dispatch i s"
| "dispatch jt bbs i (OneImmediateArgs _ imm) s = oneImm_dispatch i imm s"
| "dispatch jt bbs i (OneRegisterOneImmediateOneOffsetArgs _ r imm t) s =
     oneRegOneImmOneOffset_dispatch bbs i r imm t s"
| "dispatch jt bbs i (TwoRegistersArgs _ a b) s = twoRegs_dispatch i a b s"
| "dispatch jt bbs i (ThreeRegistersArgs _ a b c) s = threeRegs_dispatch i a b c s"
| "dispatch jt bbs i (TwoRegistersOneImmediateArgs _ a b imm) s = twoRegsOneImm_dispatch i a b imm s"
| "dispatch jt bbs i (TwoRegistersOneOffsetArgs _ a b t) s = twoRegsOneOffset_dispatch bbs i a b t s"
| "dispatch jt bbs i (OneOffsetArgs _ t) s = oneOffset_dispatch bbs i t s"
| "dispatch jt bbs i (OneRegisterOneImmediateArgs _ r imm) s = oneRegOneImm_dispatch jt bbs i r imm s"
| "dispatch jt bbs i (TwoImmediatesArgs _ x y) s = twoImms_dispatch i x y s"
| "dispatch jt bbs i (OneRegisterTwoImmediatesArgs _ r x y) s = oneRegTwoImms_dispatch i r x y s"
| "dispatch jt bbs i (TwoRegistersTwoImmediatesArgs _ a b x y) s = twoRegsTwoImms_dispatch jt bbs i a b x y s"
| "dispatch jt bbs i (OneRegisterOneExtendedWidthImmediateArgs _ r ext) s = oneRegOneExtImm_dispatch i r ext s"

text \<open>Being resumed from a host call.\<close>

definition resume :: "interpreter \<Rightarrow> interpreter" where
  "resume st =
     (if i_status st = S_HOST then
        let s = i_machine st in
        st\<lparr>i_status := S_OK, i_pc := nextPc (m_res s),
           i_machine := s\<lparr>m_res := instructionResult_reset (m_res s)\<rparr>\<rparr>
      else st)"

definition calculateSbrkCost :: "nat \<Rightarrow> int" where
  "calculateSbrkCost len = int (alignToPageSize len div PAGE_SIZE) * 16"

definition current_instruction :: "interpreter \<Rightarrow> nat" where
  "current_instruction st = (if i_pc st < length (i_code st) then unat (i_code st ! i_pc st) else TRAP)"

fun status_of :: "pvm_result \<Rightarrow> status" where
  "status_of R_FAULT = S_FAULT"
| "status_of R_HALT = S_HALT"
| "status_of R_PANIC = S_PANIC"
| "status_of R_FAULT_ACCESS = S_PANIC"
| "status_of R_HOST = S_HOST"

text \<open>The end of the step: a status ends the run, otherwise the program counter moves.\<close>

definition finish_step :: "interpreter \<Rightarrow> interpreter" where
  "finish_step st = (case ir_status (m_res (i_machine st)) of
     Some r \<Rightarrow> st\<lparr>i_status := status_of r\<rparr>
   | None \<Rightarrow> st\<lparr>i_pc := nextPc (m_res (i_machine st))\<rparr>)"

text \<open>The extra gas of an \<open>SBRK\<close>; \<open>True\<close> on underflow.\<close>

definition sbrk_gas :: "nat \<Rightarrow> args \<Rightarrow> interpreter \<Rightarrow> (interpreter \<times> bool) throws" where
  "sbrk_gas currentInstruction a st = (case a of
     TwoRegistersArgs _ first second \<Rightarrow>
       if i_useSbrkGas st \<and> currentInstruction = SBRK then
         bindE (tryAsGas True (calculateSbrkCost (nat (getLowerU32 (m_regs (i_machine st)) first)))) (\<lambda>cost.
         bindE (gas_sub (i_gas st) cost) (\<lambda>(g, underflow). Inr (st\<lparr>i_gas := g\<rparr>, underflow)))
       else Inr (st, False)
   | _ \<Rightarrow> Inr (st, False))"

definition nextStep :: "interpreter \<Rightarrow> interpreter throws" where
  "nextStep st0 =
     (let st = resume st0;
          currentInstruction = current_instruction st;
          isValidInstruction = (instruction_name currentInstruction \<noteq> None);
          gasCost = (case instructionGasMap currentInstruction of
            Some g \<Rightarrow> Inr g
          | None \<Rightarrow> (case instructionGasMap TRAP of Some g \<Rightarrow> Inr g | None \<Rightarrow> Inl TypeError))
      in
      bindE gasCost (\<lambda>cost.
      bindE (gas_sub (i_gas st) cost) (\<lambda>(g, underflow).
      let st = st\<lparr>i_gas := g\<rparr> in
      if underflow then Inr (st\<lparr>i_status := S_OOG\<rparr>)
      else
        let argsType = (case instructionArgumentTypeMap currentInstruction of
              Some t \<Rightarrow> t | None \<Rightarrow> NO_ARGUMENTS) in
        bindE (fillArgs (i_code st) (i_mask st) (i_pc st) argsType) (\<lambda>argsResult.
          if \<not> isValidInstruction then
            Inr (finish_step (st\<lparr>i_machine := set_status R_PANIC (i_machine st)\<rparr>))
          else
            let st = st\<lparr>i_machine := set_nextPc (i_pc st + noOfBytesToSkip argsResult) (i_machine st)\<rparr> in
            bindE (sbrk_gas currentInstruction argsResult st) (\<lambda>(st, underflow).
              if underflow then Inr (st\<lparr>i_status := S_OOG\<rparr>)
              else bindE (dispatch (i_jumpTable st) (i_basicBlocks st) currentInstruction argsResult (i_machine st))
                (\<lambda>s. Inr (finish_step (st\<lparr>i_machine := s\<rparr>))))))))"

partial_function (option) runProgram :: "interpreter \<Rightarrow> interpreter throws option" where
  "runProgram st = (case nextStep st of
     Inl e \<Rightarrow> Some (Inl e)
   | Inr st' \<Rightarrow> if i_status st' = S_OK then runProgram st' else Some (Inr st'))"

section \<open>Accessors\<close>

definition getPC :: "interpreter \<Rightarrow> nat" where "getPC st = i_pc st"
definition setNextPC :: "nat \<Rightarrow> interpreter \<Rightarrow> interpreter" where "setNextPC pc st = st\<lparr>i_pc := pc\<rparr>"
definition getStatus :: "interpreter \<Rightarrow> status" where "getStatus st = i_status st"

definition getExitParam :: "interpreter \<Rightarrow> int option throws" where
  "getExitParam st = (case exitParam (m_res (i_machine st)) of
     None \<Rightarrow> Inr None | Some p \<Rightarrow> bindE (tryAsU32 p) (\<lambda>p. Inr (Some p)))"

definition getMemoryPage :: "nat \<Rightarrow> interpreter \<Rightarrow> byte list option throws" where
  "getMemoryPage pageNumber st =
     bindE (tryAsPageNumber pageNumber) (\<lambda>p. Inr (getPageDump p (m_mem (i_machine st))))"

text \<open>
  \<open>calculateBlockGasCost\<close>: the map from block starts to costs, as an association list in insertion
  order; \<open>None\<close> stands for \<open>NaN\<close>, what adding the cost of an undefined opcode makes.
\<close>

definition add_cost :: "int option \<Rightarrow> int option \<Rightarrow> int option" where
  "add_cost a b = (case (a, b) of (Some x, Some y) \<Rightarrow> Some (x + y) | _ \<Rightarrow> None)"

function blockGas_loop :: "interpreter \<Rightarrow> nat \<Rightarrow> nat \<Rightarrow> int option \<Rightarrow> (nat \<times> int option) list \<Rightarrow>
    (nat \<times> int option) list throws" where
  "blockGas_loop st index currentBlock gasCost blocks =
     (if index < length (i_code st) then
        let instruction = unat (i_code st ! index);
            starts = isBeginningOfBasicBlock (i_basicBlocks st) (int index);
            blocks = (if starts then AList.update currentBlock gasCost blocks else blocks);
            currentBlock = (if starts then index else currentBlock);
            gasCost = add_cost (if starts then Some 0 else gasCost) (instructionGasMap instruction)
        in case getNoOfBytesToNextInstruction (i_mask st) (int (index + 1)) of
             Inl e \<Rightarrow> Inl e
           | Inr n \<Rightarrow> blockGas_loop st (index + 1 + n) currentBlock gasCost blocks
      else Inr (AList.update currentBlock gasCost blocks))"
  by auto
termination
  by (relation "measure (\<lambda>(st, index, _). length (i_code st) - index)") auto

declare blockGas_loop.simps [simp del]

definition calculateBlockGasCost :: "interpreter \<Rightarrow> (nat \<times> int option) list throws" where
  "calculateBlockGasCost st = blockGas_loop st 0 0 (Some 0) []"

section \<open>debugger-adapter.ts\<close>

definition debugger_getPageDump :: "nat \<Rightarrow> interpreter \<Rightarrow> byte list throws" where
  "debugger_getPageDump pageNumber st = bindE (getMemoryPage pageNumber st) (\<lambda>page.
     case page of
       None \<Rightarrow> Inr (replicate PAGE_SIZE 0)
     | Some page \<Rightarrow>
         if length page = PAGE_SIZE then Inr page
         else typed_set (replicate PAGE_SIZE 0) page 0)"

definition debugger_setMemory :: "nat \<Rightarrow> byte list \<Rightarrow> interpreter \<Rightarrow> interpreter throws" where
  "debugger_setMemory addr bytes st = bindE (tryAsMemoryIndex addr) (\<lambda>a.
     bindE (storeFrom a bytes (m_mem (i_machine st))) (\<lambda>(_, mem).
       Inr (st\<lparr>i_machine := (i_machine st)\<lparr>m_mem := mem\<rparr>\<rparr>)))"

definition debugger_getExitArg :: "interpreter \<Rightarrow> int throws" where
  "debugger_getExitArg st = bindE (getExitParam st) (\<lambda>p. Inr (case p of Some v \<Rightarrow> v | None \<Rightarrow> 0))"

definition debugger_nextStep :: "interpreter \<Rightarrow> (bool \<times> interpreter) throws" where
  "debugger_nextStep st = bindE (nextStep st) (\<lambda>st. Inr (i_status st = S_OK, st))"

fun nSteps_loop :: "nat \<Rightarrow> interpreter \<Rightarrow> (bool \<times> interpreter) throws" where
  "nSteps_loop 0 st = Inr (True, st)"
| "nSteps_loop (Suc n) st = bindE (debugger_nextStep st) (\<lambda>(isOk, st).
     if \<not> isOk then Inr (False, st) else nSteps_loop n st)"

definition nSteps :: "nat \<Rightarrow> interpreter \<Rightarrow> (bool \<times> interpreter) throws" where
  "nSteps steps st = check (js_ushr (int steps) 0 > 0) (nSteps_loop steps st)"

definition debugger_setRegisters :: "byte list \<Rightarrow> interpreter \<Rightarrow> interpreter throws" where
  "debugger_setRegisters regs st = bindE (registers_fromBytes regs) (\<lambda>r.
     Inr (st\<lparr>i_machine := (i_machine st)\<lparr>m_regs := copyFrom_regs (m_regs (i_machine st)) r\<rparr>\<rparr>))"

definition debugger_setGasLeft :: "int \<Rightarrow> interpreter \<Rightarrow> interpreter throws" where
  "debugger_setGasLeft g st = bindE (tryAsGas False g) (\<lambda>g.
     bindE (gas_set (i_gas st) g) (\<lambda>c. Inr (st\<lparr>i_gas := c\<rparr>)))"

section \<open>The invariant and the total step\<close>

definition wf_interp :: "interpreter \<Rightarrow> bool" where
  "wf_interp st \<longleftrightarrow> wf_machine (i_machine st) \<and> wf_gas (i_gas st)"

definition same_program :: "interpreter \<Rightarrow> interpreter \<Rightarrow> bool" where
  "same_program st st' \<longleftrightarrow> i_code st' = i_code st \<and> i_mask st' = i_mask st \<and>
     i_basicBlocks st' = i_basicBlocks st \<and> i_jumpTable st' = i_jumpTable st \<and>
     i_useSbrkGas st' = i_useSbrkGas st"

lemma same_program_refl [simp]: "same_program st st"
  by (simp add: same_program_def)

lemma same_program_trans: "same_program st st' \<Longrightarrow> same_program st' st'' \<Longrightarrow> same_program st st''"
  by (simp add: same_program_def)

lemma resume_frame [simp]:
  "i_code (resume st) = i_code st" "i_mask (resume st) = i_mask st"
  "i_basicBlocks (resume st) = i_basicBlocks st" "i_jumpTable (resume st) = i_jumpTable st"
  "i_useSbrkGas (resume st) = i_useSbrkGas st" "i_gas (resume st) = i_gas st"
  "m_regs (i_machine (resume st)) = m_regs (i_machine st)" "m_mem (i_machine (resume st)) = m_mem (i_machine st)"
  by (simp_all add: resume_def Let_def)

lemma resume_wf: "wf_interp st \<Longrightarrow> wf_interp (resume st)"
  by (simp add: wf_interp_def resume_def Let_def wf_machine_def wf_result_def instructionResult_reset_def)

lemma finish_step_frame [simp]:
  "i_machine (finish_step st) = i_machine st" "i_gas (finish_step st) = i_gas st"
  "i_code (finish_step st) = i_code st" "i_mask (finish_step st) = i_mask st"
  "i_basicBlocks (finish_step st) = i_basicBlocks st" "i_jumpTable (finish_step st) = i_jumpTable st"
  "i_useSbrkGas (finish_step st) = i_useSbrkGas st"
  by (simp_all add: finish_step_def split: option.split)

lemma status_of_not_OK: "status_of r \<noteq> S_OK"
  by (cases r) auto

lemma finish_step_OK:
  "i_status (finish_step st) = S_OK \<longleftrightarrow> ir_status (m_res (i_machine st)) = None \<and> i_status st = S_OK"
  by (auto simp: finish_step_def status_of_not_OK split: option.split)

lemma finish_step_pc: "i_status (finish_step st) = S_OK \<Longrightarrow> i_pc (finish_step st) = nextPc (m_res (i_machine st))"
  by (auto simp: finish_step_def status_of_not_OK split: option.splits)

lemma dispatch_good: "wf_machine s \<Longrightarrow> wf_args a \<Longrightarrow> good bbs s (dispatch jt bbs i a s)"
  by (cases a) (simp_all add: noArgs_good oneImm_good oneRegOneImmOneOffset_good twoRegs_good threeRegs_good
      twoRegsOneImm_good twoRegsOneOffset_good oneOffset_good oneRegOneImm_good twoImms_good
      oneRegTwoImms_good twoRegsTwoImms_good oneRegOneExtImm_good)

lemma gas_cost_1:
  "(case instructionGasMap i of Some g \<Rightarrow> Inr g
    | None \<Rightarrow> (case instructionGasMap TRAP of Some g \<Rightarrow> Inr g | None \<Rightarrow> Inl TypeError)) = (Inr 1 :: int throws)"
  by (simp add: instructionGasMap_eq opcodes_def instruction_enum_def)

lemma sbrk_cost_bounds: "0 \<le> calculateSbrkCost n" "n < 4294967296 \<Longrightarrow> calculateSbrkCost n < 4294967296"
proof -
  show "0 \<le> calculateSbrkCost n" by (simp add: calculateSbrkCost_def)
  assume "n < 4294967296"
  then have "alignToPageSize n \<le> 4294967296" by (intro alignToPageSize_props(4)) auto
  then have "alignToPageSize n div 4096 \<le> 1048576" by (simp add: div_le_mono [of _ 4294967296 4096, simplified])
  then show "calculateSbrkCost n < 4294967296" by (simp add: calculateSbrkCost_def)
qed

text \<open>The extra charge of an \<open>SBRK\<close> only touches the gas counter, and never raises it.\<close>

lemma sbrk_gas_eq:
  assumes "wf_gas (i_gas st)"
  shows "\<exists>g underflow. sbrk_gas i a st = Inr (st\<lparr>i_gas := g\<rparr>, underflow) \<and> wf_gas g \<and>
    gas g \<le> gas (i_gas st)"
proof -
  have same: "\<exists>g underflow. Inr (st, False) = (Inr (st\<lparr>i_gas := g\<rparr>, underflow) :: (interpreter \<times> bool) throws) \<and>
      wf_gas g \<and> gas g \<le> gas (i_gas st)"
    using assms by (intro exI [of _ "i_gas st"] exI [of _ False]) simp
  show ?thesis
  proof (cases "\<exists>k x y. a = TwoRegistersArgs k x y \<and> i_useSbrkGas st \<and> i = SBRK")
    case True
    then obtain k x y where a: "a = TwoRegistersArgs k x y" "i_useSbrkGas st" "i = SBRK" by blast
    let ?n = "nat (getLowerU32 (m_regs (i_machine st)) x)"
    have n: "?n < 4294967296" using uint_lt2p [of "lo32 (m_regs (i_machine st) ! x)"]
      by (simp add: getLowerU32_eq flip: nat_uint_eq)
    let ?c = "calculateSbrkCost ?n"
    have c: "0 \<le> ?c" "?c < 2 ^ 64" using sbrk_cost_bounds [of ?n] n by auto
    then have "tryAsGas True ?c = Inr ?c" by (rule tryAsGas_big)
    then have "sbrk_gas i a st = Inr (st\<lparr>i_gas := (i_gas st)\<lparr>gas := max 0 (gas (i_gas st) - ?c)\<rparr>\<rparr>, gas (i_gas st) < ?c)"
      unfolding sbrk_gas_def a using a gas_sub_eq [OF assms c] by simp
    moreover have "max 0 (gas (i_gas st) - ?c) \<le> gas (i_gas st)" using c assms by (simp add: wf_gas_def)
    ultimately show ?thesis using gas_sub_wf [OF assms c(1)] by (auto simp del: max_less_iff_conj)
  next
    case False
    then have "sbrk_gas i a st = Inr (st, False)" by (auto simp: sbrk_gas_def split: args.split)
    with same show ?thesis by simp
  qed
qed

text \<open>What every step does: it never throws, keeps the invariants and the program, charges at
  least one unit of gas if it can go on, and goes on at the next instruction or at a basic block.\<close>

definition step_post :: "interpreter \<Rightarrow> interpreter \<Rightarrow> bool" where
  "step_post st st' \<longleftrightarrow> wf_interp st' \<and> same_program st st' \<and> gas (i_gas st') \<le> gas (i_gas st) \<and>
     (i_status st' = S_OK \<longrightarrow> gas (i_gas st') + 1 \<le> gas (i_gas st) \<and>
        (i_pc st' \<in> i_basicBlocks st \<or>
         (\<exists>n. getNoOfBytesToNextInstruction (i_mask st) (int (i_pc (resume st) + 1)) = Inr n \<and>
              i_pc st' = i_pc (resume st) + 1 + n)))"

lemma fillArgs_skip: "fillArgs code m pc ty = Inr a \<Longrightarrow>
    \<exists>n. getNoOfBytesToNextInstruction m (int (pc + 1)) = Inr n \<and> noOfBytesToSkip a = 1 + n"
  by (cases ty) (auto simp: fillArgs_def Let_def bindE_Inr_iff simp del: of_nat_add of_nat_Suc)

lemma nextStep_post:
  assumes wf: "wf_interp st"
  shows "\<exists>st'. nextStep st = Inr st' \<and> step_post st st'"
proof -
  define st1 where "st1 = resume st"
  have wf1: "wf_machine (i_machine st1)" "wf_gas (i_gas st1)" "i_gas st1 = i_gas st"
    using resume_wf [OF wf] by (simp_all add: wf_interp_def st1_def)
  define i where "i = current_instruction st1"
  define g where "g = (i_gas st1)\<lparr>gas := max 0 (gas (i_gas st1) - 1)\<rparr>"
  have g: "gas_sub (i_gas st1) 1 = Inr (g, gas (i_gas st1) < 1)" "wf_gas g"
    using gas_sub_eq [OF wf1(2), of 1] gas_sub_wf [OF wf1(2), of 1] by (simp_all add: g_def)
  have gle: "gas g \<le> gas (i_gas st)" "\<not> gas (i_gas st1) < 1 \<Longrightarrow> gas g + 1 \<le> gas (i_gas st)"
    using wf1 by (auto simp: g_def wf_gas_def)
  define st2 where "st2 = st1\<lparr>i_gas := g\<rparr>"
  have prog: "same_program st st2" by (simp add: st2_def st1_def same_program_def)
  show ?thesis
  proof (cases "gas (i_gas st1) < 1")
    case True
    then have "nextStep st = Inr (st2\<lparr>i_status := S_OOG\<rparr>)"
      by (simp add: nextStep_def Let_def gas_cost_1 g(1) flip: st1_def st2_def)
    moreover have "step_post st (st2\<lparr>i_status := S_OOG\<rparr>)"
      using prog wf1 g gle by (simp add: step_post_def wf_interp_def same_program_def st2_def)
    ultimately show ?thesis by blast
  next
    case gas: False
    let ?ty = "case instructionArgumentTypeMap i of Some t \<Rightarrow> t | None \<Rightarrow> NO_ARGUMENTS"
    obtain a where a: "fillArgs (i_code st2) (i_mask st2) (i_pc st2) ?ty = Inr a"
      using fillArgs_total by blast
    have sel: "i_code st1 = i_code st2" "i_mask st1 = i_mask st2" "i_pc st1 = i_pc st2"
      "i_machine st1 = i_machine st2"
      by (simp_all add: st2_def)
    have step: "nextStep st =
        (if instruction_name i = None then Inr (finish_step (st2\<lparr>i_machine := set_status R_PANIC (i_machine st2)\<rparr>))
         else let st = st2\<lparr>i_machine := set_nextPc (i_pc st2 + noOfBytesToSkip a) (i_machine st2)\<rparr> in
            bindE (sbrk_gas i a st) (\<lambda>(st, underflow).
              if underflow then Inr (st\<lparr>i_status := S_OOG\<rparr>)
              else bindE (dispatch (i_jumpTable st) (i_basicBlocks st) i a (i_machine st))
                (\<lambda>s. Inr (finish_step (st\<lparr>i_machine := s\<rparr>)))))"
      using gas a by (simp add: nextStep_def Let_def gas_cost_1 g(1) sel cong: if_cong flip: st1_def st2_def i_def)
    show ?thesis
    proof (cases "instruction_name i = None")
      case True
      let ?st = "finish_step (st2\<lparr>i_machine := set_status R_PANIC (i_machine st2)\<rparr>)"
      have "i_status ?st \<noteq> S_OK" by (simp add: finish_step_OK set_status_def)
      then have "step_post st ?st"
        using prog wf1 g gle by (simp add: step_post_def wf_interp_def same_program_def st2_def)
      with True step show ?thesis by simp
    next
      case False
      define st3 where "st3 = st2\<lparr>i_machine := set_nextPc (i_pc st2 + noOfBytesToSkip a) (i_machine st2)\<rparr>"
      obtain g' u where sg: "sbrk_gas i a st3 = Inr (st3\<lparr>i_gas := g'\<rparr>, u)" "wf_gas g'" "gas g' \<le> gas g"
        using sbrk_gas_eq [of st3 i a] g(2) by (auto simp: st3_def st2_def)
      define st4 where "st4 = st3\<lparr>i_gas := g'\<rparr>"
      have prog4: "same_program st st4" using prog by (simp add: st4_def st3_def same_program_def)
      have m4: "wf_machine (i_machine st4)" "i_gas st4 = g'"
        "nextPc (m_res (i_machine st4)) = i_pc st2 + noOfBytesToSkip a"
        using wf1 by (simp_all add: st4_def st3_def st2_def)
      have step': "nextStep st = (if u then Inr (st4\<lparr>i_status := S_OOG\<rparr>)
              else bindE (dispatch (i_jumpTable st4) (i_basicBlocks st4) i a (i_machine st4))
                (\<lambda>s. Inr (finish_step (st4\<lparr>i_machine := s\<rparr>))))"
        using step [unfolded if_not_P [OF False] Let_def] sg(1) by (simp flip: st3_def st4_def)
      show ?thesis
      proof (cases u)
        case True
        have "step_post st (st4\<lparr>i_status := S_OOG\<rparr>)"
          using prog4 m4 sg gle by (simp add: step_post_def wf_interp_def same_program_def)
        with True step' show ?thesis by simp
      next
        case u: False
        have "good (i_basicBlocks st4) (i_machine st4) (dispatch (i_jumpTable st4) (i_basicBlocks st4) i a (i_machine st4))"
          using m4(1) fillArgs_wf [OF a] by (intro dispatch_good) auto
        then obtain s where s: "dispatch (i_jumpTable st4) (i_basicBlocks st4) i a (i_machine st4) = Inr s"
          "wf_machine s" "nextPc (m_res s) = i_pc st2 + noOfBytesToSkip a \<or> nextPc (m_res s) \<in> i_basicBlocks st4"
          unfolding good_def m4(3) by blast
        let ?st = "finish_step (st4\<lparr>i_machine := s\<rparr>)"
        obtain n where n: "getNoOfBytesToNextInstruction (i_mask st) (int (i_pc st1 + 1)) = Inr n"
          "noOfBytesToSkip a = 1 + n"
          using fillArgs_skip [OF a] by (auto simp: st2_def st1_def)
        have "nextPc (m_res s) \<in> i_basicBlocks st \<or>
          (\<exists>n. getNoOfBytesToNextInstruction (i_mask st) (int (i_pc st1 + 1)) = Inr n \<and> nextPc (m_res s) = i_pc st1 + 1 + n)"
          using s(3) n prog4 by (auto simp: st2_def same_program_def)
        then have "step_post st ?st"
          using prog4 m4 s(2) sg gle(1) gle(2) [OF gas]
          unfolding step_post_def st1_def
          by (auto simp: finish_step_pc wf_interp_def same_program_def)
        with u step' s(1) show ?thesis by simp
      qed
    qed
  qed
qed

section \<open>Runs\<close>

inductive steps :: "interpreter \<Rightarrow> interpreter \<Rightarrow> bool" where
  steps_refl: "steps st st"
| steps_step: "steps st st' \<Longrightarrow> i_status st' = S_OK \<Longrightarrow> nextStep st' = Inr st'' \<Longrightarrow> steps st st''"

inductive_cases steps_cases: "steps st st'"

lemma step_postD:
  "wf_interp st \<Longrightarrow> nextStep st = Inr st' \<Longrightarrow> step_post st st'"
  using nextStep_post [of st] by auto

lemma steps_wf: "steps st st' \<Longrightarrow> wf_interp st \<Longrightarrow>
    wf_interp st' \<and> same_program st st' \<and> gas (i_gas st') \<le> gas (i_gas st)"
proof (induction rule: steps.induct)
  case (steps_step st st' st'')
  then have "step_post st' st''" using step_postD by blast
  with steps_step show ?case
    by (auto simp: step_post_def intro: same_program_trans)
qed simp

lemma steps_Cons: "steps st' st'' \<Longrightarrow> i_status st = S_OK \<Longrightarrow> nextStep st = Inr st' \<Longrightarrow> steps st st''"
  by (induction rule: steps.induct) (auto intro: steps.intros)

text \<open>A run returns: the gas of a state that can go on is a measure.\<close>

lemma runProgram_returns:
  assumes "wf_interp st"
  shows "\<exists>st'. runProgram st = Some (Inr st') \<and> i_status st' \<noteq> S_OK \<and> wf_interp st' \<and>
    same_program st st' \<and> gas (i_gas st') \<le> gas (i_gas st)"
  using assms
proof (induction "nat (gas (i_gas st))" arbitrary: st rule: less_induct)
  case less
  obtain st1 where st1: "nextStep st = Inr st1" "step_post st st1" using nextStep_post [OF less.prems] by blast
  show ?case
  proof (cases "i_status st1 = S_OK")
    case False
    with st1 show ?thesis by (subst runProgram.simps) (auto simp: step_post_def)
  next
    case True
    with st1(2) have "wf_interp st1" "gas (i_gas st1) + 1 \<le> gas (i_gas st)" by (auto simp: step_post_def)
    moreover from this have "nat (gas (i_gas st1)) < nat (gas (i_gas st))"
      by (auto simp: wf_interp_def wf_gas_def)
    ultimately obtain st' where "runProgram st1 = Some (Inr st')" "i_status st' \<noteq> S_OK" "wf_interp st'"
      "same_program st1 st'" "gas (i_gas st') \<le> gas (i_gas st1)"
      using less.hyps by blast
    with True st1 show ?thesis
      by (subst runProgram.simps) (auto simp: step_post_def intro: same_program_trans)
  qed
qed

text \<open>The number of steps is bounded by the gas.\<close>

lemma nSteps_stops:
  assumes "wf_interp st" "gas (i_gas st) < int n"
  shows "\<exists>st'. nSteps_loop n st = Inr (False, st')"
  using assms
proof (induction n arbitrary: st)
  case 0
  then show ?case by (simp add: wf_interp_def wf_gas_def)
next
  case (Suc n)
  obtain st1 where st1: "nextStep st = Inr st1" "step_post st st1" using nextStep_post [OF Suc.prems(1)] by blast
  show ?case
  proof (cases "i_status st1 = S_OK")
    case True
    with st1(2) Suc.prems(2) have "wf_interp st1" "gas (i_gas st1) < int n" by (auto simp: step_post_def)
    with Suc.IH st1 True show ?thesis by (simp add: debugger_nextStep_def)
  qed (use st1 in \<open>simp add: debugger_nextStep_def\<close>)
qed

section \<open>Particular steps\<close>

lemma nextStep_out_of_gas:
  assumes "wf_interp st" "gas (i_gas st) = 0"
  shows "nextStep st = Inr ((resume st)\<lparr>i_status := S_OOG\<rparr>)"
proof -
  have "(i_gas st)\<lparr>gas := 0\<rparr> = i_gas st" using assms(2) by (cases "i_gas st") simp
  moreover have "(resume st)\<lparr>i_gas := i_gas st\<rparr> = resume st"
    by (cases "resume st") (use resume_frame(6) [of st] in \<open>simp del: resume_frame\<close>)
  ultimately show ?thesis
    using assms gas_sub_eq [of "i_gas st" 1]
    by (simp add: nextStep_def Let_def gas_cost_1 wf_interp_def)
qed

text \<open>With gas, a step is charged one unit and dispatches on the decoded arguments.\<close>

lemma nextStep_charged:
  assumes "wf_interp st" "i_status st \<noteq> S_HOST" "gas (i_gas st) \<ge> 1"
    "current_instruction st = i" "i \<in> set opcodes" "instructionArgumentTypeMap i = Some ty"
    "fillArgs (i_code st) (i_mask st) (i_pc st) ty = Inr a" "i \<noteq> SBRK \<or> \<not> i_useSbrkGas st"
  shows "nextStep st = bindE
    (dispatch (i_jumpTable st) (i_basicBlocks st) i a (set_nextPc (i_pc st + noOfBytesToSkip a) (i_machine st)))
    (\<lambda>s. Inr (finish_step (st\<lparr>i_gas := (i_gas st)\<lparr>gas := gas (i_gas st) - 1\<rparr>, i_machine := s\<rparr>)))"
proof -
  have r: "resume st = st" using assms(2) by (simp add: resume_def)
  have g: "gas_sub (i_gas st) 1 = Inr ((i_gas st)\<lparr>gas := gas (i_gas st) - 1\<rparr>, False)"
    using assms(1,3) gas_sub_eq [of "i_gas st" 1] by (simp add: wf_interp_def)
  have n: "instruction_name i \<noteq> None" using iffD2 [OF instruction_name_iff assms(5)] .
  have sg: "sbrk_gas i a st' = Inr (st', False)" if "i_useSbrkGas st' = i_useSbrkGas st" for st'
    using assms(8) that by (cases a) (auto simp: sbrk_gas_def)
  show ?thesis
    using assms n by (simp add: nextStep_def Let_def r gas_cost_1 g sg)
qed

lemma nextStep_invalid:
  assumes "wf_interp st" "i_status st \<noteq> S_HOST" "gas (i_gas st) \<ge> 1" "current_instruction st \<notin> set opcodes"
  shows "nextStep st = Inr (finish_step (st\<lparr>i_gas := (i_gas st)\<lparr>gas := gas (i_gas st) - 1\<rparr>,
    i_machine := set_status R_PANIC (i_machine st)\<rparr>))"
proof -
  have r: "resume st = st" using assms(2) by (simp add: resume_def)
  have g: "gas_sub (i_gas st) 1 = Inr ((i_gas st)\<lparr>gas := gas (i_gas st) - 1\<rparr>, False)"
    using assms(1,3) gas_sub_eq [of "i_gas st" 1] by (simp add: wf_interp_def)
  have n: "instruction_name (current_instruction st) = None" using assms(4) instruction_name_iff by metis
  obtain a where "fillArgs (i_code st) (i_mask st) (i_pc st)
      (case instructionArgumentTypeMap (current_instruction st) of Some t \<Rightarrow> t | None \<Rightarrow> NO_ARGUMENTS) = Inr a"
    using fillArgs_total by blast
  then show ?thesis by (simp add: nextStep_def Let_def r gas_cost_1 g n)
qed

end
