(* ===== verification/Spi.thy ===== *)
theory Spi
  imports Memory Decoder Registers "HOL-Library.AList"
begin

text \<open>
  How a program's initial state is laid out: \<open>memory/memory-builder.ts\<close>,
  \<open>spi-decoder/decode-standard-program.ts\<close> (the standard program format) and \<open>program.ts\<close>. The
  builder's \<open>Map\<close> is an association list in insertion order.
\<close>

section \<open>MemoryBuilder\<close>

record builder =
  initialMemory :: "(nat \<times> memory_page) list"
  isFinalized :: bool

definition new_builder :: builder where
  "new_builder = \<lparr>initialMemory = [], isFinalized = False\<rparr>"

definition ensureNotFinalized :: "builder \<Rightarrow> 'a throws \<Rightarrow> 'a throws" where
  "ensureNotFinalized b k = (if isFinalized b then Inl FinalizedBuilderModification else k)"

definition ensureNoReservedMemoryUsage :: "memory_range \<Rightarrow> 'a throws \<Rightarrow> 'a throws" where
  "ensureNoReservedMemoryUsage r k = bindE RESERVED_MEMORY_RANGE (\<lambda>reserved.
     if mr_overlapsWith r reserved then Inl ReservedMemoryFault else k)"

fun set_pages_loop :: "(nat \<Rightarrow> byte list \<Rightarrow> memory_page throws) \<Rightarrow> byte list \<Rightarrow> nat \<Rightarrow> nat list \<Rightarrow>
    (nat \<times> memory_page) list \<Rightarrow> (nat \<times> memory_page) list throws" where
  "set_pages_loop mk bytes i [] mem = Inr mem"
| "set_pages_loop mk bytes i (pageNumber # ps) mem =
     (let dataChunk = subarray bytes (i * PAGE_SIZE) ((i + 1) * PAGE_SIZE) in
      bindE (mk pageNumber dataChunk) (\<lambda>page.
        set_pages_loop mk bytes (i + 1) ps (AList.update pageNumber page mem)))"

text \<open>The two page setters differ only in the page class they create.\<close>

definition set_pages :: "(nat \<Rightarrow> byte list \<Rightarrow> memory_page throws) \<Rightarrow> nat \<Rightarrow> nat \<Rightarrow> byte list \<Rightarrow>
    builder \<Rightarrow> builder throws" where
  "set_pages mk start end bytes b =
     ensureNotFinalized b
       (check (start < end)
       (check (start mod PAGE_SIZE = 0)
       (check (end mod PAGE_SIZE = 0)
       (check (length bytes \<le> end - start)
       (let len = end - start in
        bindE (memoryRange_fromStartAndLength start len) (\<lambda>r.
        ensureNoReservedMemoryUsage r
          (bindE (fromMemoryRange r) (\<lambda>pr.
           bindE (pr_pages pr) (\<lambda>ps.
           bindE (set_pages_loop mk bytes 0 ps (initialMemory b)) (\<lambda>mem.
             Inr (b\<lparr>initialMemory := mem\<rparr>)))))))))))"

definition setReadablePages :: "nat \<Rightarrow> nat \<Rightarrow> byte list \<Rightarrow> builder \<Rightarrow> builder throws" where
  "setReadablePages = set_pages new_ReadablePage"

definition setWriteablePages :: "nat \<Rightarrow> nat \<Rightarrow> byte list \<Rightarrow> builder \<Rightarrow> builder throws" where
  "setWriteablePages = set_pages (\<lambda>n d. new_WriteablePage n (Some d))"

definition setData :: "nat \<Rightarrow> byte list \<Rightarrow> builder \<Rightarrow> builder throws" where
  "setData start bytes b =
     ensureNotFinalized b
       (let pageOffset = start mod PAGE_SIZE; remainingSpaceOnPage = PAGE_SIZE - pageOffset in
        check (length bytes \<le> remainingSpaceOnPage)
        (bindE (memoryRange_fromStartAndLength start (length bytes)) (\<lambda>r.
         ensureNoReservedMemoryUsage r
           (bindE (getPageNumber start) (\<lambda>pageNumber.
            case map_of (initialMemory b) pageNumber of
              None \<Rightarrow> Inl PageNotExist
            | Some page \<Rightarrow>
                bindE (tryAsPageIndex (start - page_start page)) (\<lambda>startPageIndex.
                bindE (page_setData page startPageIndex bytes) (\<lambda>page.
                  Inr (b\<lparr>initialMemory := AList.update pageNumber page (initialMemory b)\<rparr>))))))))"

definition finalize :: "nat \<Rightarrow> nat \<Rightarrow> builder \<Rightarrow> (memory \<times> builder) throws" where
  "finalize startHeapIndex endHeap b =
     check (startHeapIndex \<le> endHeap)
       (ensureNotFinalized b
         (bindE (memoryRange_fromStartAndLength startHeapIndex (endHeap - startHeapIndex)) (\<lambda>heapRange.
          bindE (fromMemoryRange heapRange) (\<lambda>heapPagesRange.
          if list_ex (\<lambda>(pageNumber, _). pr_isInRange heapPagesRange pageNumber) (initialMemory b)
          then Inl IncorrectSbrkIndex
          else bindE (tryAsSbrkIndex startHeapIndex) (\<lambda>s.
            Inr (fromInitialMemory (map_of (initialMemory b)) s endHeap, b\<lparr>isFinalized := True\<rparr>))))))"

section \<open>The standard program format\<close>

text \<open>\<open>memory-conts.ts\<close> and \<open>memory-utils.ts\<close> of the decoder\<close>

definition SPI_PAGE_SIZE :: nat where "SPI_PAGE_SIZE = 2 ^ 12"
definition SEGMENT_SIZE :: nat where "SEGMENT_SIZE = 2 ^ 16"
definition DATA_LENGTH :: nat where "DATA_LENGTH = 2 ^ 24"
definition STACK_SEGMENT :: nat where "STACK_SEGMENT = 0xfefe0000"
definition ARGS_SEGMENT :: nat where "ARGS_SEGMENT = 0xfeff0000"
definition LAST_PAGE :: nat where "LAST_PAGE = 0xffff0000"

definition spi_alignToSegmentSize :: "nat \<Rightarrow> nat" where
  "spi_alignToSegmentSize len = SEGMENT_SIZE * ceil_div len SEGMENT_SIZE"

definition spi_alignToPageSize :: "nat \<Rightarrow> nat" where
  "spi_alignToPageSize len = SPI_PAGE_SIZE * ceil_div len SPI_PAGE_SIZE"

record memory_segment =
  seg_start :: nat
  seg_end :: nat
  seg_data :: "byte list option"

record spi_memory =
  readable :: "memory_segment list"
  writeable :: "memory_segment list"
  spi_sbrkIndex :: nat
  heapEnd :: nat

record spi_program =
  spi_code :: "byte list"
  spi_memory :: spi_memory
  spi_registers :: registers

definition getMemorySegment :: "nat \<Rightarrow> nat \<Rightarrow> byte list option \<Rightarrow> memory_segment" where
  "getMemorySegment start end bytes = \<lparr>seg_start = start, seg_end = end, seg_data = bytes\<rparr>"

definition getRegisters :: "nat \<Rightarrow> registers" where
  "getRegisters argsLength = (replicate NO_OF_REGISTERS 0)
     [0 := word_of_nat LAST_PAGE, 1 := word_of_nat STACK_SEGMENT, 7 := word_of_nat ARGS_SEGMENT,
      8 := word_of_nat argsLength]"

text \<open>\<open>[cond && segment, ...].filter(nonEmpty)\<close>\<close>

definition segments :: "(bool \<times> memory_segment) list \<Rightarrow> memory_segment list" where
  "segments xs = List.map snd (filter fst xs)"

definition decodeStandardProgram :: "byte list \<Rightarrow> byte list \<Rightarrow> spi_program throws" where
  "decodeStandardProgram prog args =
     bindE (dec_u24 (dec_fromBlob prog)) (\<lambda>(oLength, d).
     bindE (dec_u24 d) (\<lambda>(wLength, d).
     check (length args \<le> DATA_LENGTH)
     (check (oLength \<le> int DATA_LENGTH)
     (check (wLength \<le> int DATA_LENGTH)
     (bindE (dec_u16 d) (\<lambda>(noOfHeapZerosPages, d).
     bindE (dec_u24 d) (\<lambda>(stackSize, d).
     bindE (dec_bytes (nat oLength) d) (\<lambda>(readOnlyMemory, d).
     bindE (dec_bytes (nat wLength) d) (\<lambda>(initialHeap, d).
     bindE (dec_u32 d) (\<lambda>(codeLength, d).
     bindE (dec_bytes (nat codeLength) d) (\<lambda>(code, d).
     bindE (finish d) (\<lambda>_.
     let readOnlyLength = nat oLength; heapLength = nat wLength;
         readonlyDataStart = SEGMENT_SIZE;
         readonlyDataEnd = SEGMENT_SIZE + spi_alignToPageSize readOnlyLength;
         heapDataStart = 2 * SEGMENT_SIZE + spi_alignToSegmentSize readOnlyLength;
         heapDataEnd = heapDataStart + spi_alignToPageSize heapLength;
         heapZerosEnd = heapDataStart + spi_alignToPageSize heapLength + nat noOfHeapZerosPages * SPI_PAGE_SIZE;
         stackStart = STACK_SEGMENT - spi_alignToPageSize (nat stackSize);
         stackEnd = STACK_SEGMENT;
         argsStart = ARGS_SEGMENT;
         argsEnd = argsStart + spi_alignToPageSize (length args);
         argsZerosEnd = argsEnd + spi_alignToPageSize (length args);
         readableMemory = segments
           [(readOnlyLength > 0, getMemorySegment readonlyDataStart readonlyDataEnd (Some readOnlyMemory)),
            (length args > 0, getMemorySegment argsStart argsEnd (Some args)),
            (argsEnd < argsZerosEnd, getMemorySegment argsEnd argsZerosEnd None)];
         writeableMemory = segments
           [(heapLength > 0, getMemorySegment heapDataStart heapDataEnd (Some initialHeap)),
            (heapDataEnd < heapZerosEnd, getMemorySegment heapDataEnd heapZerosEnd None),
            (stackStart < stackEnd, getMemorySegment stackStart stackEnd None)]
     in Inr \<lparr>spi_code = code,
             spi_memory = \<lparr>readable = readableMemory, writeable = writeableMemory,
               spi_sbrkIndex = heapZerosEnd, heapEnd = stackStart\<rparr>,
             spi_registers = getRegisters (length args)\<rparr>))))))))))))"

section \<open>Program\<close>

record spi_result =
  prog_code :: "byte list"
  prog_registers :: registers
  prog_memory :: memory
  prog_metadata :: "byte list"

text \<open>\<open>extractCodeAndMetadata\<close>: (metadata, code)\<close>

definition extractCodeAndMetadata :: "byte list \<Rightarrow> (byte list \<times> byte list) throws" where
  "extractCodeAndMetadata blobWithMetadata =
     bindE (dec_bytesBlob (dec_fromBlob blobWithMetadata)) (\<lambda>(metadata, d).
     bindE (remainingBytes d) (\<lambda>(code, d). Inr (metadata, code)))"

fun set_segments :: "(nat \<Rightarrow> nat \<Rightarrow> byte list \<Rightarrow> builder \<Rightarrow> builder throws) \<Rightarrow> memory_segment list \<Rightarrow>
    builder \<Rightarrow> builder throws" where
  "set_segments f [] b = Inr b"
| "set_segments f (seg # segs) b =
     bindE (tryAsMemoryIndex (seg_start seg)) (\<lambda>startIndex.
     bindE (tryAsMemoryIndex (seg_end seg)) (\<lambda>endIndex.
     bindE (f startIndex endIndex (case seg_data seg of Some d \<Rightarrow> d | None \<Rightarrow> []) b) (\<lambda>b.
       set_segments f segs b)))"

definition code_and_metadata :: "byte list \<Rightarrow> bool \<Rightarrow> (byte list \<times> byte list) throws" where
  "code_and_metadata blob hasMetadata =
     (if hasMetadata then extractCodeAndMetadata blob else Inr ([], blob))"

definition fromSpi :: "byte list \<Rightarrow> byte list \<Rightarrow> bool \<Rightarrow> spi_result throws" where
  "fromSpi blob args hasMetadata =
     bindE (code_and_metadata blob hasMetadata) (\<lambda>(metadata, spiCode).
     bindE (decodeStandardProgram spiCode args) (\<lambda>p.
     let rawMemory = spi_memory p; regs = copyFrom_regs empty_registers (spi_registers p) in
     bindE (set_segments setReadablePages (readable rawMemory) new_builder) (\<lambda>b.
     bindE (set_segments setWriteablePages (writeable rawMemory) b) (\<lambda>b.
     bindE (tryAsMemoryIndex (spi_sbrkIndex rawMemory)) (\<lambda>heapStart.
     bindE (tryAsSbrkIndex (heapEnd rawMemory)) (\<lambda>heapEnd.
     bindE (finalize heapStart heapEnd b) (\<lambda>(mem, b).
       Inr \<lparr>prog_code = spi_code p, prog_registers = regs, prog_memory = mem, prog_metadata = metadata\<rparr>)))))))"

definition fromGeneric :: "byte list \<Rightarrow> bool \<Rightarrow> spi_result throws" where
  "fromGeneric blob hasMetadata =
     bindE (code_and_metadata blob hasMetadata) (\<lambda>(metadata, code).
     bindE new_memory (\<lambda>mem.
       Inr \<lparr>prog_code = code, prog_registers = empty_registers, prog_memory = mem, prog_metadata = metadata\<rparr>))"

section \<open>What the page setters do\<close>

text \<open>The pages of the two classes, made from a chunk of at most one page.\<close>

definition readable_page :: "nat \<Rightarrow> byte list \<Rightarrow> memory_page" where
  "readable_page p d = ReadablePage (p * 4096) d"

definition writeable_page :: "nat \<Rightarrow> byte list \<Rightarrow> memory_page" where
  "writeable_page p d = WriteablePage (p * 4096) (d @ replicate (min 4096 (max (length d) 32) - length d) 0)"

definition makes :: "(nat \<Rightarrow> byte list \<Rightarrow> memory_page throws) \<Rightarrow> (nat \<Rightarrow> byte list \<Rightarrow> memory_page) \<Rightarrow> bool" where
  "makes mk pg \<longleftrightarrow> (\<forall>p d. p < 1048576 \<longrightarrow> length d \<le> 4096 \<longrightarrow> mk p d = Inr (pg p d))"

lemma makes_readable: "makes new_ReadablePage readable_page"
  by (simp add: makes_def new_ReadablePage_def readable_page_def)

lemma makes_writeable: "makes (\<lambda>n d. new_WriteablePage n (Some d)) writeable_page"
proof -
  have "length d \<le> 4096 \<Longrightarrow> blit (replicate n 0) 0 d = d @ replicate (n - length d) 0" for n and d :: "byte list"
    by (simp add: blit_def)
  then show ?thesis
    by (auto simp: makes_def new_WriteablePage_def Let_def typed_set_def writeable_page_def)
qed

text \<open>\<open>put pg start end data m\<close>: the pages of \<open>[start, end)\<close> filled with consecutive chunks.\<close>

definition put :: "(nat \<Rightarrow> byte list \<Rightarrow> memory_page) \<Rightarrow> nat \<Rightarrow> nat \<Rightarrow> byte list \<Rightarrow>
    (nat \<rightharpoonup> memory_page) \<Rightarrow> (nat \<rightharpoonup> memory_page)" where
  "put pg s e bs m = (\<lambda>p. if s \<le> p * 4096 \<and> p * 4096 < e
     then Some (pg p (subarray bs (p * 4096 - s) (p * 4096 - s + 4096))) else m p)"

lemma put_empty [simp]: "put pg s s bs m = m"
  by (rule ext) (auto simp: put_def)

lemma set_pages_loop_map:
  assumes "makes mk pg" "Q \<le> 1048576"
  shows "ps = [P + i..<Q] \<Longrightarrow> \<exists>mem'. set_pages_loop mk bs i ps mem = Inr mem' \<and>
    map_of mem' = (\<lambda>p. if P + i \<le> p \<and> p < Q
      then Some (pg p (subarray bs ((p - P) * 4096) ((p - P) * 4096 + 4096))) else map_of mem p)"
proof (induction ps arbitrary: i mem)
  case Nil
  then have "Q \<le> P + i" by (metis upt_eq_Nil_conv le0)
  then show ?case by (auto intro!: ext)
next
  case (Cons p ps)
  have p: "p = P + i" "p < Q" "ps = [P + Suc i..<Q]" using Cons.prems [symmetric] by (auto simp: upt_eq_Cons_conv)
  let ?d = "subarray bs (i * 4096) ((i + 1) * 4096)"
  have mk: "mk p ?d = Inr (pg p ?d)" using assms p by (simp add: makes_def)
  obtain mem' where mem': "set_pages_loop mk bs (Suc i) ps (AList.update p (pg p ?d) mem) = Inr mem'"
    "map_of mem' = (\<lambda>q. if P + Suc i \<le> q \<and> q < Q
      then Some (pg q (subarray bs ((q - P) * 4096) ((q - P) * 4096 + 4096)))
      else map_of (AList.update p (pg p ?d) mem) q)"
    using Cons.IH [OF p(3)] by blast
  have "set_pages_loop mk bs i (p # ps) mem = Inr mem'"
    using mk mem'(1) by (simp add: Let_def)
  moreover have "map_of mem' = (\<lambda>q. if P + i \<le> q \<and> q < Q
      then Some (pg q (subarray bs ((q - P) * 4096) ((q - P) * 4096 + 4096))) else map_of mem q)"
    unfolding mem'(2) update_conv' using p by (auto simp: fun_eq_iff algebra_simps)
  ultimately show ?case by blast
qed

lemma reserved_range: "RESERVED_MEMORY_RANGE = memoryRange_fromStartAndLength 0 65536"
  by (simp add: RESERVED_MEMORY_RANGE_def)

lemma reserved_usage:
  assumes r: "memoryRange_fromStartAndLength s n = Inr r" and "s < 4294967296" "0 < n" "s + n \<le> 4294967296"
  shows "ensureNoReservedMemoryUsage r k = (if s < 65536 then Inl ReservedMemoryFault else k)"
proof -
  obtain r' where r': "memoryRange_fromStartAndLength 0 65536 = Inr r'" using memoryRange_eq [of 65536 0] by simp
  have "mr_overlapsWith r r' \<longleftrightarrow> range_addrs s n \<inter> range_addrs 0 65536 \<noteq> {}"
    using assms by (intro mr_overlapsWith_iff [OF r r']) auto
  also have "\<dots> \<longleftrightarrow> s < 65536"
  proof
    assume "range_addrs s n \<inter> range_addrs 0 65536 \<noteq> {}"
    then show "s < 65536" using assms by (auto simp: range_addrs_iff split: if_splits)
  next
    assume "s < 65536"
    then have "s \<in> range_addrs s n \<inter> range_addrs 0 65536" using assms by (simp add: range_addrs_iff)
    then show "range_addrs s n \<inter> range_addrs 0 65536 \<noteq> {}" by blast
  qed
  finally show ?thesis by (simp add: ensureNoReservedMemoryUsage_def reserved_range r')
qed

lemma set_pages_eq:
  assumes mk: "makes mk pg" and nf: "\<not> isFinalized b"
    and se: "s < e" "s mod 4096 = 0" "e mod 4096 = 0" "e < 4294967296" "65536 \<le> s" and bs: "length bs \<le> e - s"
  shows "\<exists>mem. set_pages mk s e bs b = Inr (b\<lparr>initialMemory := mem\<rparr>) \<and>
    map_of mem = put pg s e bs (map_of (initialMemory b))"
proof -
  define P where "P = s div 4096"
  define Q where "Q = e div 4096"
  have P: "s = P * 4096" and Q: "e = Q * 4096"
    using se(2,3) div_mult_mod_eq [of s 4096] div_mult_mod_eq [of e 4096] by (simp_all add: P_def Q_def)
  have PQ: "P < Q" "Q \<le> 1048576" using se P Q by auto
  obtain r where r: "memoryRange_fromStartAndLength s (e - s) = Inr r" using memoryRange_eq [of "e - s" s] se by simp
  have "pages_of s (e - s) = [P..<Q]"
  proof -
    have "(e - 1) div 4096 = Q - 1"
    proof -
      have "e - 1 = (Q - 1) * 4096 + 4095" using PQ Q by (cases Q) auto
      then show ?thesis by simp
    qed
    then show ?thesis using pages_of_contiguous [of s "e - s"] se PQ by (simp add: P_def)
  qed
  then have "bindE (fromMemoryRange r) pr_pages = Inr [P..<Q]"
    using fromMemoryRange_pages [OF _ _ _ r] se by simp
  then obtain pr where pr: "fromMemoryRange r = Inr pr" "pr_pages pr = Inr [P..<Q]"
    by (auto simp: bindE_Inr_iff)
  obtain mem where mem: "set_pages_loop mk bs 0 [P..<Q] (initialMemory b) = Inr mem"
    "map_of mem = (\<lambda>p. if P \<le> p \<and> p < Q
      then Some (pg p (subarray bs ((p - P) * 4096) ((p - P) * 4096 + 4096))) else map_of (initialMemory b) p)"
    using set_pages_loop_map [OF mk PQ(2), of "[P..<Q]" P 0 bs "initialMemory b"] by auto
  have "set_pages mk s e bs b = Inr (b\<lparr>initialMemory := mem\<rparr>)"
    using nf se bs r pr mem(1) reserved_usage [OF r]
    by (simp add: set_pages_def ensureNotFinalized_def)
  moreover have "map_of mem = put pg s e bs (map_of (initialMemory b))"
    unfolding mem(2) put_def P Q by (auto simp: fun_eq_iff diff_mult_distrib)
  ultimately show ?thesis by blast
qed

section \<open>Finalizing\<close>

lemma finalize_eq:
  assumes nf: "\<not> isFinalized b" and h: "startHeap \<le> endHeap" "endHeap \<le> 4294967296" "startHeap < 4294967296"
    and wf: "wf_pages (map_of (initialMemory b))"
    and free: "\<And>p. startHeap div 4096 \<le> p \<Longrightarrow> p * 4096 < endHeap \<Longrightarrow> map_of (initialMemory b) p = None"
  shows "finalize startHeap endHeap b =
    Inr (fromInitialMemory (map_of (initialMemory b)) startHeap endHeap, b\<lparr>isFinalized := True\<rparr>)"
proof -
  let ?n = "endHeap - startHeap"
  obtain r where r: "memoryRange_fromStartAndLength startHeap ?n = Inr r" "mr_start r = startHeap" "mr_length r = ?n"
    using memoryRange_eq [of ?n startHeap] h by simp
  obtain pr ps where pr: "fromMemoryRange r = Inr pr" "pr_pages pr = Inr ps"
    "set ps = (if ?n = 0 then {} else set (pages_of startHeap ?n))"
  proof (cases "?n = 0")
    case True
    then have "fromMemoryRange r = new_pageRange (startHeap div 4096) 0"
      using r h by (simp add: fromMemoryRange_def mr_isEmpty_def)
    also have "\<dots> = Inr \<lparr>pr_start = startHeap div 4096, pr_length = 0, pr_end = startHeap div 4096\<rparr>"
      using h(3) by (simp add: new_pageRange_def tryAsPageNumber_def less_mult_imp_div_less less_Suc_eq_le [symmetric])
    finally show thesis using True by (intro that) (auto simp: pr_pages_def pr_isEmpty_def)
  next
    case False
    then have "bindE (fromMemoryRange r) pr_pages = Inr (pages_of startHeap ?n)"
      using fromMemoryRange_pages [OF h(3) _ _ r(1)] h by simp
    with False that show thesis by (auto simp: bindE_Inr_iff)
  qed
  have none: "\<not> pr_isInRange pr p" if "map_of (initialMemory b) p \<noteq> None" for p
  proof
    assume "pr_isInRange pr p"
    moreover have p: "p < 1048576" using that wf by (auto simp: wf_pages_def wf_page_def)
    ultimately have "p \<in> set ps"
      using pr_isInRange_iff [OF fromMemoryRange_wf [OF pr(1)] p pr(2)] r h by simp
    then have n: "?n > 0" and "p \<in> set (pages_of startHeap ?n)" using pr(3) by (auto split: if_splits)
    then have le: "startHeap div 4096 \<le> p" "p \<le> (endHeap - 1) div 4096"
      using pages_of_contiguous [of startHeap ?n] h by auto
    have "p * 4096 < endHeap"
    proof -
      have "p * 4096 \<le> (endHeap - 1) div 4096 * 4096" using le(2) by simp
      also have "\<dots> \<le> endHeap - 1" by simp
      finally show ?thesis using n by linarith
    qed
    then have "map_of (initialMemory b) p = None" by (rule free [OF le(1)])
    with that show False by simp
  qed
  have "\<not> list_ex (\<lambda>(p, _). pr_isInRange pr p) (initialMemory b)"
  proof
    assume "list_ex (\<lambda>(p, _). pr_isInRange pr p) (initialMemory b)"
    then obtain p pg where "(p, pg) \<in> set (initialMemory b)" "pr_isInRange pr p" by (auto simp: list_ex_iff)
    moreover from this have "map_of (initialMemory b) p \<noteq> None" by (metis map_of_eq_None_iff image_eqI fst_conv)
    ultimately show False using none by blast
  qed
  with nf h r pr show ?thesis
    by (simp add: finalize_def ensureNotFinalized_def tryAsSbrkIndex_def)
qed

text \<open>A finalized memory with a page-aligned heap start satisfies the invariant of Memory.\<close>

lemma fromInitialMemory_wf:
  assumes "wf_pages m" "startHeap mod 4096 = 0" "startHeap \<le> 4294967296"
    "\<And>p. startHeap \<le> p * 4096 \<Longrightarrow> p * 4096 < endHeap \<Longrightarrow> m p = None"
  shows "wf_memory (fromInitialMemory m startHeap endHeap)"
proof -
  have "\<not> (startHeap div 4096 \<le> p \<and> p * 4096 < startHeap)" for p
  proof
    assume a: "startHeap div 4096 \<le> p \<and> p * 4096 < startHeap"
    then have "startHeap div 4096 * 4096 \<le> p * 4096" by simp
    moreover have "startHeap div 4096 * 4096 = startHeap" using assms(2) div_mult_mod_eq [of startHeap 4096] by simp
    ultimately show False using a by simp
  qed
  then have "\<forall>p. startHeap div 4096 \<le> p \<and> p * 4096 < startHeap \<longrightarrow> (\<exists>pg. m p = Some pg \<and> isWriteable pg)"
    by blast
  with assms show ?thesis by (simp add: wf_memory_def fromInitialMemory_def del: not_le)
qed

section \<open>Building from segments\<close>

text \<open>A segment the setters accept: page-aligned, above the reserved pages, holding its data. The
  empty segments the decoder filters out would do nothing.\<close>

definition seg_ok :: "memory_segment \<Rightarrow> bool" where
  "seg_ok seg \<longleftrightarrow> seg_start seg mod 4096 = 0 \<and> seg_end seg mod 4096 = 0 \<and> seg_end seg < 4294967296 \<and>
     65536 \<le> seg_start seg \<and> seg_start seg \<le> seg_end seg \<and>
     length (case seg_data seg of Some d \<Rightarrow> d | None \<Rightarrow> []) \<le> seg_end seg - seg_start seg"

definition put_seg :: "(nat \<Rightarrow> byte list \<Rightarrow> memory_page) \<Rightarrow> memory_segment \<Rightarrow>
    (nat \<rightharpoonup> memory_page) \<Rightarrow> (nat \<rightharpoonup> memory_page)" where
  "put_seg pg seg = put pg (seg_start seg) (seg_end seg) (case seg_data seg of Some d \<Rightarrow> d | None \<Rightarrow> [])"

lemma set_segments_eq:
  assumes mk: "makes mk pg"
  shows "\<not> isFinalized b \<Longrightarrow> \<forall>seg \<in> set segs. seg_ok seg \<and> seg_start seg < seg_end seg \<Longrightarrow>
    \<exists>mem. set_segments (set_pages mk) segs b = Inr (b\<lparr>initialMemory := mem\<rparr>) \<and>
      map_of mem = fold (put_seg pg) segs (map_of (initialMemory b))"
proof (induction segs arbitrary: b)
  case Nil
  then show ?case by (intro exI [of _ "initialMemory b"]) simp
next
  case (Cons seg segs)
  let ?d = "case seg_data seg of Some d \<Rightarrow> d | None \<Rightarrow> []"
  have s: "seg_start seg < seg_end seg" "seg_start seg mod 4096 = 0" "seg_end seg mod 4096 = 0"
    "seg_end seg < 4294967296" "65536 \<le> seg_start seg" "length ?d \<le> seg_end seg - seg_start seg"
    using Cons.prems(2) by (auto simp: seg_ok_def)
  obtain mem where mem: "set_pages mk (seg_start seg) (seg_end seg) ?d b = Inr (b\<lparr>initialMemory := mem\<rparr>)"
    "map_of mem = put_seg pg seg (map_of (initialMemory b))"
    using set_pages_eq [OF mk Cons.prems(1) s] by (auto simp: put_seg_def)
  obtain mem' where "set_segments (set_pages mk) segs (b\<lparr>initialMemory := mem\<rparr>) = Inr (b\<lparr>initialMemory := mem\<rparr>\<lparr>initialMemory := mem'\<rparr>)"
    "map_of mem' = fold (put_seg pg) segs (map_of mem)"
    using Cons.IH [of "b\<lparr>initialMemory := mem\<rparr>"] Cons.prems by auto
  with mem s show ?case by (intro exI [of _ mem']) (simp add: tryAsMemoryIndex_def)
qed

lemma fold_segments:
  assumes "\<forall>(c, seg) \<in> set xs. \<not> c \<longrightarrow> seg_start seg = seg_end seg"
  shows "fold (put_seg pg) (segments xs) m = fold (put_seg pg) (List.map snd xs) m"
  using assms by (induction xs arbitrary: m) (auto simp: segments_def put_seg_def)

end
