(* ===== verification/JamProgram.thy ===== *)
theory JamProgram
  imports Interpreter Spi
begin

text \<open>
  From a program to a running interpreter: \<open>Interpreter.resetJam\<close> and the debugger's resets, the
  states a reset leaves (they satisfy the invariant of theory Interpreter), and the layout of the
  memory \<open>Program.fromSpi\<close> builds out of a standard program.
\<close>

section \<open>Resets\<close>

definition resetJam :: "byte list \<Rightarrow> byte list \<Rightarrow> nat \<Rightarrow> int \<Rightarrow> bool \<Rightarrow> interpreter \<Rightarrow> interpreter throws" where
  "resetJam prog args pc g hasMetadata st =
     bindE (fromSpi prog args hasMetadata) (\<lambda>p.
       resetGeneric (prog_code p) pc g (Some (prog_registers p)) (Some (prog_memory p)) st)"

definition debugger_resetJAM :: "byte list \<Rightarrow> nat \<Rightarrow> int \<Rightarrow> byte list \<Rightarrow> bool \<Rightarrow> interpreter \<Rightarrow> interpreter throws" where
  "debugger_resetJAM jamProgram pc g args hasMetadata pvm =
     bindE (tryAsGas False g) (\<lambda>g. resetJam jamProgram args pc g hasMetadata pvm)"

definition debugger_resetGeneric :: "byte list \<Rightarrow> byte list \<Rightarrow> int \<Rightarrow> interpreter \<Rightarrow> interpreter throws" where
  "debugger_resetGeneric rawProgram flatRegisters initGas pvm =
     bindE (tryAsGas False initGas) (\<lambda>g.
     bindE (registers_fromBytes flatRegisters) (\<lambda>regs.
       resetGeneric rawProgram 0 g (Some regs) None pvm))"

definition debugger_reset :: "byte list \<Rightarrow> nat \<Rightarrow> int \<Rightarrow> registers option \<Rightarrow> memory option \<Rightarrow> interpreter \<Rightarrow>
    interpreter throws" where
  "debugger_reset rawProgram pc g maybeRegisters maybeMemory pvm =
     bindE (tryAsGas False g) (\<lambda>g. resetGeneric rawProgram pc g maybeRegisters maybeMemory pvm)"

lemma new_memory_eq: "new_memory = Inr \<lparr>sbrkIndex = 65536, virtualSbrkIndex = 65536,
    endHeapIndex = 4294967295, pages = Map.empty\<rparr>"
proof -
  obtain r where "memoryRange_fromStartAndLength 0 65536 = Inr r" "mr_end r = 65536"
    using memoryRange_eq [of 65536 0] by simp
  then show ?thesis by (simp add: new_memory_def RESERVED_MEMORY_RANGE_def tryAsSbrkIndex_def)
qed

lemma new_memory_wf: "new_memory = Inr m \<Longrightarrow> wf_memory m"
  by (auto simp: new_memory_eq wf_memory_def wf_pages_def)

lemma gasCounter_wf: "gasCounter g = Inr c \<Longrightarrow> wf_gas c"
  by (auto simp: gasCounter_def wf_gas_def bindE_Inr_iff tryAs_Inr_iff tryAsGas_def tryAsBigGas_def)

lemma new_interpreter_wf: "new_interpreter u = Inr st \<Longrightarrow> wf_interp st"
  by (auto simp: new_interpreter_def bindE_Inr_iff wf_interp_def wf_machine_def wf_result_def
      new_instructionResult_def gasCounter_wf new_memory_wf empty_registers_def NO_OF_REGISTERS_def)

lemma copyFrom_memory_eq: "copyFrom_memory m m' = m'"
  by (simp add: copyFrom_memory_def)

lemma reset_wf:
  assumes wf: "wf_interp st" and r: "resetGeneric blob pc g regs mem st = Inr st'"
    and regs: "pred_option (\<lambda>r. length r = 13) regs" and mem: "pred_option wf_memory mem"
  shows "wf_interp st' \<and> i_status st' = S_OK \<and> i_pc st' = pc"
proof -
  let ?s = "i_machine st"
  obtain p g' bbs m where p: "new_program blob = Inr p" "gasCounter g = Inr g'"
      "basicBlocks_reset (p_code p) (p_mask p) = Inr bbs"
      "(case mem of Some m \<Rightarrow> Inr (copyFrom_memory (m_mem ?s) m) | None \<Rightarrow> memory_reset (m_mem ?s)) = Inr m"
    and st': "st' = st\<lparr>i_code := p_code p, i_mask := p_mask p,
       i_jumpTable := copyFrom_jt (i_jumpTable st) (p_jumpTable p),
       i_pc := pc, i_gas := g', i_status := S_OK, i_basicBlocks := bbs,
       i_machine := \<lparr>m_regs = (case regs of Some r \<Rightarrow> copyFrom_regs (m_regs ?s) r | None \<Rightarrow> reset_regs (m_regs ?s)),
         m_mem = m, m_res = instructionResult_reset (m_res ?s)\<rparr>\<rparr>"
    using r unfolding resetGeneric_def Let_def bindE_Inr_iff by blast
  have "wf_memory m"
    using p(4) mem by (cases mem) (auto simp: memory_reset_def new_memory_wf copyFrom_memory_eq)
  moreover have "length (m_regs ?s) = 13" using wf by (simp add: wf_interp_def wf_machine_def)
  then have "length (case regs of Some r \<Rightarrow> copyFrom_regs (m_regs ?s) r | None \<Rightarrow> reset_regs (m_regs ?s)) = 13"
    using regs by (cases regs) (simp_all add: reset_regs_eq copyFrom_regs_eq empty_registers_def NO_OF_REGISTERS_def)
  ultimately show ?thesis
    using gasCounter_wf [OF p(2)] unfolding st'
    by (simp add: wf_interp_def wf_machine_def wf_result_def instructionResult_reset_def)
qed

section \<open>Decoding a standard program\<close>

text \<open>The encoding named in the comment of \<open>decodeStandardProgram\<close>.\<close>

definition spi_blob :: "byte list \<Rightarrow> byte list \<Rightarrow> nat \<Rightarrow> nat \<Rightarrow> byte list \<Rightarrow> byte list" where
  "spi_blob ro rw z s code = le_bytes 3 (int (length ro)) @ le_bytes 3 (int (length rw)) @ le_bytes 2 (int z) @
     le_bytes 3 (int s) @ ro @ rw @ le_bytes 4 (int (length code)) @ code"

lemma le_decodes:
  assumes "x < 256 ^ n"
  shows "n = 2 \<Longrightarrow> decodes dec_u16 (le_bytes n (int x)) (int x)"
    "n = 3 \<Longrightarrow> decodes dec_u24 (le_bytes n (int x)) (int x)"
    "n = 4 \<Longrightarrow> decodes dec_u32 (le_bytes n (int x)) (int x)"
proof -
  have "int x < 256 ^ n" using assms by (metis of_nat_less_iff of_nat_numeral of_nat_power)
  then have "le_val (le_bytes n (int x)) = int x" by (simp add: le_val_le_bytes)
  then show "n = 2 \<Longrightarrow> decodes dec_u16 (le_bytes n (int x)) (int x)"
    "n = 3 \<Longrightarrow> decodes dec_u24 (le_bytes n (int x)) (int x)"
    "n = 4 \<Longrightarrow> decodes dec_u32 (le_bytes n (int x)) (int x)"
    using uint_decodes(2,3) [of "le_bytes n (int x)"] u24_decodes [of "le_bytes n (int x)"] by auto
qed

lemma spi_alignToPageSize_eq: "spi_alignToPageSize n = 4096 * ceil_div n 4096"
  by (simp add: spi_alignToPageSize_def SPI_PAGE_SIZE_def)

definition heap_start :: "nat \<Rightarrow> nat" where "heap_start n = 131072 + spi_alignToSegmentSize n"

definition readable_segments :: "byte list \<Rightarrow> byte list \<Rightarrow> (bool \<times> memory_segment) list" where
  "readable_segments ro args =
     [(length ro > 0, getMemorySegment 65536 (65536 + spi_alignToPageSize (length ro)) (Some ro)),
      (length args > 0, getMemorySegment ARGS_SEGMENT (ARGS_SEGMENT + spi_alignToPageSize (length args)) (Some args)),
      (ARGS_SEGMENT + spi_alignToPageSize (length args) <
         ARGS_SEGMENT + spi_alignToPageSize (length args) + spi_alignToPageSize (length args),
       getMemorySegment (ARGS_SEGMENT + spi_alignToPageSize (length args))
         (ARGS_SEGMENT + spi_alignToPageSize (length args) + spi_alignToPageSize (length args)) None)]"

definition writeable_segments :: "byte list \<Rightarrow> byte list \<Rightarrow> nat \<Rightarrow> nat \<Rightarrow> (bool \<times> memory_segment) list" where
  "writeable_segments ro rw z s =
     (let h = heap_start (length ro); e = h + spi_alignToPageSize (length rw) in
     [(length rw > 0, getMemorySegment h e (Some rw)),
      (e < e + z * 4096, getMemorySegment e (e + z * 4096) None),
      (STACK_SEGMENT - spi_alignToPageSize s < STACK_SEGMENT,
       getMemorySegment (STACK_SEGMENT - spi_alignToPageSize s) STACK_SEGMENT None)])"

lemma decodeStandardProgram_blob:
  assumes "length ro < 2 ^ 24" "length rw < 2 ^ 24" "z < 2 ^ 16" "s < 2 ^ 24" "length code < 2 ^ 32"
    "length args \<le> 2 ^ 24"
  shows "decodeStandardProgram (spi_blob ro rw z s code) args = Inr
    \<lparr>spi_code = code,
     spi_memory = \<lparr>readable = segments (readable_segments ro args),
       writeable = segments (writeable_segments ro rw z s),
       spi_sbrkIndex = heap_start (length ro) + spi_alignToPageSize (length rw) + z * 4096,
       heapEnd = STACK_SEGMENT - spi_alignToPageSize s\<rparr>,
     spi_registers = getRegisters (length args)\<rparr>"
proof -
  define d where "d = dec_fromBlob (spi_blob ro rw z s code)"
  note at = at_fromBlob [of "spi_blob ro rw z s code", unfolded spi_blob_def at_append,
      folded spi_blob_def, folded d_def, simplified]
  have i: "length ro < 256 ^ 3" "length rw < 256 ^ 3" "z < 256 ^ 2" "s < 256 ^ 3" "length code < 256 ^ 4"
    using assms by simp_all
  have "dec_u24 d = Inr (int (length ro), adv d 3)"
    using decodesD [OF le_decodes(2) [OF i(1)]] at by simp
  moreover have "dec_u24 (adv d 3) = Inr (int (length rw), adv d 6)"
    using decodesD [OF le_decodes(2) [OF i(2)]] at by simp
  moreover have "dec_u16 (adv d 6) = Inr (int z, adv d 8)"
    using decodesD [OF le_decodes(1) [OF i(3)]] at by simp
  moreover have "dec_u24 (adv d 8) = Inr (int s, adv d 11)"
    using decodesD [OF le_decodes(2) [OF i(4)]] at by simp
  moreover have "dec_bytes (length ro) (adv d 11) = Inr (ro, adv d (11 + length ro))"
    using decodesD [OF bytes_decodes] at by simp
  moreover have "dec_bytes (length rw) (adv d (11 + length ro)) = Inr (rw, adv d (11 + length ro + length rw))"
    using decodesD [OF bytes_decodes] at by (simp add: add.assoc)
  moreover have "dec_u32 (adv d (11 + length ro + length rw)) = Inr (int (length code), adv d (15 + length ro + length rw))"
    using decodesD [OF le_decodes(3) [OF i(5)]] at by (simp add: add_ac)
  moreover have "dec_bytes (length code) (adv d (15 + length ro + length rw)) =
      Inr (code, adv d (15 + length ro + length rw + length code))"
    using decodesD [OF bytes_decodes] at by (simp add: add_ac)
  moreover have "finish (adv d (15 + length ro + length rw + length code)) = Inr ()"
    using finish_at_end [of "spi_blob ro rw z s code"] by (simp add: d_def spi_blob_def add_ac)
  ultimately show ?thesis using assms
    unfolding decodeStandardProgram_def d_def [symmetric]
    by (simp add: Let_def DATA_LENGTH_def SEGMENT_SIZE_def SPI_PAGE_SIZE_def readable_segments_def
        writeable_segments_def heap_start_def)
qed

section \<open>The memory of a standard program\<close>

definition map_byte :: "(nat \<rightharpoonup> memory_page) \<Rightarrow> nat \<Rightarrow> byte" where
  "map_byte m a = (case m (a div 4096) of None \<Rightarrow> 0 | Some p \<Rightarrow> data_at (page_data p) (a mod 4096))"

lemma mem_byte_initial: "mem_byte (fromInitialMemory m s e) a = map_byte m a"
  by (simp add: mem_byte_def map_byte_def fromInitialMemory_def)

text \<open>What the two page classes have in common: the page of a chunk holds its bytes, then zeros.\<close>

definition holds :: "(nat \<Rightarrow> byte list \<Rightarrow> memory_page) \<Rightarrow> bool \<Rightarrow> bool" where
  "holds pg w \<longleftrightarrow> (\<forall>p d. length d \<le> 4096 \<longrightarrow> data_at (page_data (pg p d)) = data_at d \<and>
     isWriteable (pg p d) = w \<and> page_start (pg p d) = p * 4096 \<and> length (page_data (pg p d)) \<le> 4096)"

lemma holds_pages: "holds readable_page False" "holds writeable_page True"
  by (auto simp: holds_def readable_page_def writeable_page_def data_at_def fun_eq_iff nth_append)

lemma page_in_range:
  fixes s :: nat
  assumes "s mod 4096 = 0"
  shows "s \<le> a div 4096 * 4096 \<longleftrightarrow> s \<le> a"
proof -
  obtain k where "s = k * 4096" using assms by (metis mod_0_imp_dvd dvd_div_mult_self)
  then show ?thesis by (simp add: less_eq_div_iff_mult_less_eq)
qed

lemma put_at:
  assumes "s mod 4096 = 0" "e mod 4096 = 0"
  shows "put pg s e bs m (a div 4096) = (if s \<le> a \<and> a < e
    then Some (pg (a div 4096) (subarray bs (a div 4096 * 4096 - s) (a div 4096 * 4096 - s + 4096)))
    else m (a div 4096))"
  using page_in_range [OF assms(1), of a] page_in_range [OF assms(2), of a] by (auto simp: put_def)

lemma map_byte_put:
  assumes pg: "holds pg w" and se: "s mod 4096 = 0" "e mod 4096 = 0"
  shows "map_byte (put pg s e bs m) a = (if s \<le> a \<and> a < e then data_at bs (a - s) else map_byte m a)"
proof (cases "s \<le> a \<and> a < e")
  case True
  let ?o = "a div 4096 * 4096 - s"
  have o: "?o + a mod 4096 = a - s" using True page_in_range [OF se(1), of a] div_mult_mod_eq [of a 4096] by simp
  have "data_at (subarray bs ?o (?o + 4096)) (a mod 4096) = data_at bs (?o + a mod 4096)"
    by (auto simp: data_at_def nth_subarray)
  with True pg show ?thesis by (simp add: map_byte_def put_at [OF se] holds_def o)
qed (auto simp: map_byte_def put_at [OF se])

lemma writeable_put:
  assumes pg: "holds pg w" and se: "s mod 4096 = 0" "e mod 4096 = 0"
  shows "map_option isWriteable (put pg s e bs m (a div 4096)) =
    (if s \<le> a \<and> a < e then Some w else map_option isWriteable (m (a div 4096)))"
  using pg by (simp add: put_at [OF se] holds_def)

lemma wf_pages_put:
  assumes "holds pg w" "wf_pages m" "e \<le> 4294967296"
  shows "wf_pages (put pg s e bs m)"
  using assms by (auto simp: wf_pages_def put_def wf_page_def holds_def split: if_splits)

text \<open>The six segments: read-only data, arguments and their zeros; heap, its zeros, and the stack.\<close>

definition spi_pages :: "byte list \<Rightarrow> byte list \<Rightarrow> nat \<Rightarrow> nat \<Rightarrow> byte list \<Rightarrow> (nat \<rightharpoonup> memory_page)" where
  "spi_pages ro rw z s args =
     (let h = heap_start (length ro); e = h + spi_alignToPageSize (length rw);
          a = ARGS_SEGMENT + spi_alignToPageSize (length args) in
      put writeable_page (STACK_SEGMENT - spi_alignToPageSize s) STACK_SEGMENT []
      (put writeable_page e (e + z * 4096) []
      (put writeable_page h e rw
      (put readable_page a (a + spi_alignToPageSize (length args)) []
      (put readable_page ARGS_SEGMENT a args
      (put readable_page 65536 (65536 + spi_alignToPageSize (length ro)) ro Map.empty))))))"

text \<open>Sizes the decoder accepts and that leave the heap below the stack.\<close>

definition spi_fits :: "byte list \<Rightarrow> byte list \<Rightarrow> nat \<Rightarrow> nat \<Rightarrow> byte list \<Rightarrow> bool" where
  "spi_fits ro rw z s args \<longleftrightarrow> length ro < 2 ^ 24 \<and> length rw < 2 ^ 24 \<and> z < 2 ^ 16 \<and> s < 2 ^ 24 \<and>
     length args \<le> 0x807000 \<and>
     heap_start (length ro) + spi_alignToPageSize (length rw) + z * 4096 \<le> STACK_SEGMENT - spi_alignToPageSize s"

lemma align_bounds:
  "n \<le> spi_alignToPageSize n" "n \<le> k * 4096 \<Longrightarrow> spi_alignToPageSize n \<le> k * 4096"
  "spi_alignToPageSize n mod 4096 = 0" "spi_alignToPageSize 0 = 0" "0 < n \<Longrightarrow> 0 < spi_alignToPageSize n"
  using ceil_div_bounds(1) [of 4096 n] ceil_div_le_iff [of 4096 n k]
  by (auto simp: spi_alignToPageSize_eq mult.commute)

lemma heap_start_bounds: "131072 + n \<le> heap_start n" "heap_start n mod 4096 = 0"
proof -
  have "heap_start n = (32 + 16 * ceil_div n 65536) * 4096"
    by (simp add: heap_start_def spi_alignToSegmentSize_def SEGMENT_SIZE_def)
  then show "heap_start n mod 4096 = 0" by simp
  show "131072 + n \<le> heap_start n"
    using ceil_div_bounds(1) [of 65536 n]
    by (simp add: heap_start_def spi_alignToSegmentSize_def SEGMENT_SIZE_def)
qed

text \<open>The address map of a fitting program, and what is writeable in it.\<close>

definition spi_byte :: "byte list \<Rightarrow> byte list \<Rightarrow> byte list \<Rightarrow> nat \<Rightarrow> byte" where
  "spi_byte ro rw args a =
     (let h = heap_start (length ro) in
      if 65536 \<le> a \<and> a < 65536 + length ro then ro ! (a - 65536)
      else if h \<le> a \<and> a < h + length rw then rw ! (a - h)
      else if ARGS_SEGMENT \<le> a \<and> a < ARGS_SEGMENT + length args then args ! (a - ARGS_SEGMENT)
      else 0)"

definition spi_access :: "byte list \<Rightarrow> byte list \<Rightarrow> nat \<Rightarrow> nat \<Rightarrow> byte list \<Rightarrow> nat \<Rightarrow> bool option" where
  "spi_access ro rw z s args a =
     (let h = heap_start (length ro) in
      if 65536 \<le> a \<and> a < 65536 + spi_alignToPageSize (length ro) then Some False
      else if h \<le> a \<and> a < h + spi_alignToPageSize (length rw) + z * 4096 then Some True
      else if STACK_SEGMENT - spi_alignToPageSize s \<le> a \<and> a < STACK_SEGMENT then Some True
      else if ARGS_SEGMENT \<le> a \<and> a < ARGS_SEGMENT + 2 * spi_alignToPageSize (length args) then Some False
      else None)"

lemma spi_bounds:
  assumes "spi_fits ro rw z s args"
  defines "h \<equiv> heap_start (length ro)"
  shows "65536 + spi_alignToPageSize (length ro) \<le> h" "spi_alignToPageSize s \<le> 16777216"
    "spi_alignToPageSize (length args) \<le> 0x807000" "h mod 4096 = 0"
    "h + spi_alignToPageSize (length rw) + z * 4096 \<le> STACK_SEGMENT - spi_alignToPageSize s"
    "STACK_SEGMENT mod 4096 = 0" "ARGS_SEGMENT mod 4096 = 0"
    "(STACK_SEGMENT - spi_alignToPageSize s) mod 4096 = 0"
    "(h + spi_alignToPageSize (length rw)) mod 4096 = 0"
    "(h + spi_alignToPageSize (length rw) + z * 4096) mod 4096 = 0"
    "(65536 + spi_alignToPageSize (length ro)) mod 4096 = 0"
    "(ARGS_SEGMENT + spi_alignToPageSize (length args)) mod 4096 = 0"
    "(ARGS_SEGMENT + spi_alignToPageSize (length args) + spi_alignToPageSize (length args)) mod 4096 = 0"
proof -
  have "length ro \<le> 16 * ceil_div (length ro) 65536 * 4096"
    using ceil_div_bounds(1) [of 65536 "length ro"] by simp
  then have "spi_alignToPageSize (length ro) \<le> 16 * ceil_div (length ro) 65536 * 4096" by (rule align_bounds(2))
  then show "65536 + spi_alignToPageSize (length ro) \<le> h"
    by (simp add: h_def heap_start_def spi_alignToSegmentSize_def SEGMENT_SIZE_def)
  show s: "spi_alignToPageSize s \<le> 16777216" using align_bounds(2) [of s 4096] assms by (simp add: spi_fits_def)
  show "spi_alignToPageSize (length args) \<le> 0x807000"
    using align_bounds(2) [of "length args" "0x807"] assms by (simp add: spi_fits_def)
  show h: "h mod 4096 = 0" by (simp add: h_def heap_start_bounds)
  show "h + spi_alignToPageSize (length rw) + z * 4096 \<le> STACK_SEGMENT - spi_alignToPageSize s"
    using assms by (simp add: spi_fits_def h_def)
  show "STACK_SEGMENT mod 4096 = 0" "ARGS_SEGMENT mod 4096 = 0" by (simp_all add: STACK_SEGMENT_def ARGS_SEGMENT_def)
  obtain c where c: "spi_alignToPageSize s = 4096 * c" by (simp add: spi_alignToPageSize_eq)
  have "STACK_SEGMENT - spi_alignToPageSize s = 4096 * (1044448 - c)"
    by (simp add: c STACK_SEGMENT_def diff_mult_distrib2)
  then show "(STACK_SEGMENT - spi_alignToPageSize s) mod 4096 = 0" by simp
  show "(h + spi_alignToPageSize (length rw)) mod 4096 = 0" using h by (simp add: mod_add_eq [symmetric] align_bounds)
  then show "(h + spi_alignToPageSize (length rw) + z * 4096) mod 4096 = 0" by simp
  show "(65536 + spi_alignToPageSize (length ro)) mod 4096 = 0"
    "(ARGS_SEGMENT + spi_alignToPageSize (length args)) mod 4096 = 0"
    by (simp_all add: mod_add_eq [symmetric] align_bounds ARGS_SEGMENT_def)
  then show "(ARGS_SEGMENT + spi_alignToPageSize (length args) + spi_alignToPageSize (length args)) mod 4096 = 0"
    using align_bounds(3) [of "length args"] by (metis mod_add_eq add_0 mod_0)
qed

lemma map_byte_empty: "map_byte Map.empty a = 0"
  by (simp add: map_byte_def)

lemma data_at_diff: "x \<le> a \<Longrightarrow> data_at d (a - x) = (if a < x + length d then d ! (a - x) else 0)"
  by (auto simp: data_at_def)

lemma regions:
  fixes a h e A S Z P Q :: nat
  assumes "65536 + P \<le> h" "h + length rw \<le> e" "e \<le> Z" "Z \<le> S" "S \<le> T" "T < G" "G + length args \<le> A" "length ro \<le> P"
  shows "(if S \<le> a \<and> a < T then 0
      else if e \<le> a \<and> a < Z then 0
      else if h \<le> a \<and> a < e then data_at rw (a - h)
      else if A \<le> a \<and> a < A + Q then 0
      else if G \<le> a \<and> a < A then data_at args (a - G)
      else if 65536 \<le> a \<and> a < 65536 + P then data_at ro (a - 65536) else 0) =
     (if 65536 \<le> a \<and> a < 65536 + length ro then ro ! (a - 65536)
      else if h \<le> a \<and> a < h + length rw then rw ! (a - h)
      else if G \<le> a \<and> a < G + length args then args ! (a - G)
      else 0)"
proof -
  consider "a < 65536" | "65536 \<le> a" "a < 65536 + length ro" | "65536 + length ro \<le> a" "a < h"
    | "h \<le> a" "a < h + length rw" | "h + length rw \<le> a" "a < G" | "G \<le> a" "a < G + length args"
    | "G + length args \<le> a" by linarith
  then show ?thesis using assms
    by cases (simp_all add: data_at_diff)
qed

lemma data_at_Nil: "data_at [] i = 0"
  by (simp add: data_at_def)

lemma spi_pages_byte:
  assumes f: "spi_fits ro rw z s args"
  shows "map_byte (spi_pages ro rw z s args) a = spi_byte ro rw args a"
proof -
  note b = spi_bounds [OF f]
  note pg = map_byte_put [OF holds_pages(1)] map_byte_put [OF holds_pages(2)]
  define h where "h = heap_start (length ro)"
  define e where "e = h + spi_alignToPageSize (length rw)"
  define A where "A = ARGS_SEGMENT + spi_alignToPageSize (length args)"
  define S where "S = STACK_SEGMENT - spi_alignToPageSize s"
  define Z where "Z = e + z * 4096"
  have l: "65536 + spi_alignToPageSize (length ro) \<le> h" "h + length rw \<le> e" "e \<le> Z" "Z \<le> S" "S \<le> STACK_SEGMENT"
    "STACK_SEGMENT < ARGS_SEGMENT" "ARGS_SEGMENT + length args \<le> A" "length ro \<le> spi_alignToPageSize (length ro)"
    using b(1,5) align_bounds(1) [of "length rw"] align_bounds(1) [of "length args"] align_bounds(1) [of "length ro"]
    by (simp_all add: h_def e_def A_def S_def Z_def STACK_SEGMENT_def ARGS_SEGMENT_def)
  have m: "S mod 4096 = 0" "STACK_SEGMENT mod 4096 = 0" "e mod 4096 = 0" "Z mod 4096 = 0" "h mod 4096 = 0" "A mod 4096 = 0"
    "(A + spi_alignToPageSize (length args)) mod 4096 = 0" "ARGS_SEGMENT mod 4096 = 0"
    "(65536 :: nat) mod 4096 = 0" "(65536 + spi_alignToPageSize (length ro)) mod 4096 = 0"
    using b by (simp_all only: h_def e_def A_def S_def Z_def) simp
  have "map_byte (spi_pages ro rw z s args) a =
     (if S \<le> a \<and> a < STACK_SEGMENT then 0
      else if e \<le> a \<and> a < Z then 0
      else if h \<le> a \<and> a < e then data_at rw (a - h)
      else if A \<le> a \<and> a < A + spi_alignToPageSize (length args) then 0
      else if ARGS_SEGMENT \<le> a \<and> a < A then data_at args (a - ARGS_SEGMENT)
      else if 65536 \<le> a \<and> a < 65536 + spi_alignToPageSize (length ro) then data_at ro (a - 65536) else 0)"
    unfolding spi_pages_def Let_def h_def [symmetric] e_def [symmetric] A_def [symmetric] S_def [symmetric] Z_def [symmetric]
    by (simp only: pg m map_byte_empty data_at_Nil)
  then show ?thesis unfolding regions [OF l] unfolding spi_byte_def Let_def h_def .
qed

lemma access_regions:
  fixes a h e A S Z P Q :: nat
  assumes "65536 + P \<le> h" "h \<le> e" "e \<le> Z" "Z \<le> S" "S \<le> T" "T < G" "G \<le> A"
  shows "(if S \<le> a \<and> a < T then Some True
      else if e \<le> a \<and> a < Z then Some True
      else if h \<le> a \<and> a < e then Some True
      else if A \<le> a \<and> a < B then Some False
      else if G \<le> a \<and> a < A then Some False
      else if 65536 \<le> a \<and> a < 65536 + P then Some False else None) =
     (if 65536 \<le> a \<and> a < 65536 + P then Some False
      else if h \<le> a \<and> a < Z then Some True
      else if S \<le> a \<and> a < T then Some True
      else if G \<le> a \<and> a < max A B then Some False
      else None)"
proof -
  consider "a < 65536" | "65536 \<le> a" "a < 65536 + P" | "65536 + P \<le> a" "a < h" | "h \<le> a" "a < e" | "e \<le> a" "a < Z"
    | "Z \<le> a" "a < S" | "S \<le> a" "a < T" | "T \<le> a" "a < G" | "G \<le> a" "a < A" | "A \<le> a" by linarith
  then show ?thesis using assms by cases (simp_all add: less_max_iff_disj)
qed

lemma spi_pages_access:
  assumes f: "spi_fits ro rw z s args"
  shows "map_option isWriteable (spi_pages ro rw z s args (a div 4096)) = spi_access ro rw z s args a"
proof -
  note b = spi_bounds [OF f]
  note pg = writeable_put [OF holds_pages(1)] writeable_put [OF holds_pages(2)]
  define h where "h = heap_start (length ro)"
  define e where "e = h + spi_alignToPageSize (length rw)"
  define A where "A = ARGS_SEGMENT + spi_alignToPageSize (length args)"
  define B where "B = A + spi_alignToPageSize (length args)"
  define S where "S = STACK_SEGMENT - spi_alignToPageSize s"
  define Z where "Z = e + z * 4096"
  have l: "65536 + spi_alignToPageSize (length ro) \<le> h" "h \<le> e" "e \<le> Z" "Z \<le> S" "S \<le> STACK_SEGMENT"
    "STACK_SEGMENT < ARGS_SEGMENT" "ARGS_SEGMENT \<le> A"
    using b(1,5) by (simp_all add: h_def e_def A_def S_def Z_def STACK_SEGMENT_def ARGS_SEGMENT_def)
  have m: "S mod 4096 = 0" "STACK_SEGMENT mod 4096 = 0" "e mod 4096 = 0" "Z mod 4096 = 0" "h mod 4096 = 0" "A mod 4096 = 0"
    "(A + spi_alignToPageSize (length args)) mod 4096 = 0" "ARGS_SEGMENT mod 4096 = 0"
    "(65536 :: nat) mod 4096 = 0" "(65536 + spi_alignToPageSize (length ro)) mod 4096 = 0"
    using b by (simp_all only: h_def e_def A_def S_def Z_def) simp
  have "map_option isWriteable (spi_pages ro rw z s args (a div 4096)) =
     (if S \<le> a \<and> a < STACK_SEGMENT then Some True
      else if e \<le> a \<and> a < Z then Some True
      else if h \<le> a \<and> a < e then Some True
      else if A \<le> a \<and> a < B then Some False
      else if ARGS_SEGMENT \<le> a \<and> a < A then Some False
      else if 65536 \<le> a \<and> a < 65536 + spi_alignToPageSize (length ro) then Some False else None)"
    unfolding spi_pages_def Let_def h_def [symmetric] e_def [symmetric] A_def [symmetric] S_def [symmetric] Z_def [symmetric] B_def
    by (simp only: pg m) simp
  moreover have "max A B = ARGS_SEGMENT + 2 * spi_alignToPageSize (length args)" by (simp add: A_def B_def)
  ultimately show ?thesis unfolding access_regions [OF l]
    unfolding spi_access_def Let_def h_def S_def Z_def e_def by (simp only: add.assoc)
qed

section \<open>What fromSpi builds\<close>

lemma wf_pages_empty: "wf_pages (\<lambda>p. None)"
  by (simp add: wf_pages_def)

lemma spi_pages_wf: "spi_fits ro rw z s args \<Longrightarrow> wf_pages (spi_pages ro rw z s args)"
  using spi_bounds [of ro rw z s args]
  by (simp add: spi_pages_def Let_def wf_pages_put [OF holds_pages(1)] wf_pages_put [OF holds_pages(2)]
      wf_pages_empty STACK_SEGMENT_def ARGS_SEGMENT_def)

definition spi_heap :: "byte list \<Rightarrow> byte list \<Rightarrow> nat \<Rightarrow> nat" where
  "spi_heap ro rw z = heap_start (length ro) + spi_alignToPageSize (length rw) + z * 4096"

lemma spi_heap_free:
  assumes f: "spi_fits ro rw z s args" and p: "spi_heap ro rw z \<le> p * 4096" "p * 4096 < STACK_SEGMENT - spi_alignToPageSize s"
  shows "spi_pages ro rw z s args p = None"
proof -
  define a where "a = p * 4096"
  have "p * 4096 < STACK_SEGMENT" using p(2) by (rule less_le_trans) simp
  have "map_option isWriteable (spi_pages ro rw z s args (a div 4096)) = spi_access ro rw z s args a"
    by (rule spi_pages_access [OF f])
  moreover have "spi_access ro rw z s args a = None"
    using p spi_bounds(1) [OF f] \<open>p * 4096 < STACK_SEGMENT\<close> unfolding a_def [symmetric]
    by (simp add: spi_access_def Let_def spi_heap_def STACK_SEGMENT_def ARGS_SEGMENT_def)
  ultimately show ?thesis by (simp add: a_def)
qed

lemma spi_memory_wf:
  assumes "spi_fits ro rw z s args"
  shows "wf_memory (fromInitialMemory (spi_pages ro rw z s args) (spi_heap ro rw z) (STACK_SEGMENT - spi_alignToPageSize s))"
  by (rule fromInitialMemory_wf [OF spi_pages_wf [OF assms]])
     (use spi_bounds(5,10) [OF assms] spi_heap_free [OF assms] in \<open>auto simp: spi_heap_def STACK_SEGMENT_def\<close>)

lemma readable_ok:
  assumes f: "spi_fits ro rw z s args"
  shows "\<forall>seg \<in> set (segments (readable_segments ro args)). seg_ok seg \<and> seg_start seg < seg_end seg"
    "\<forall>seg \<in> set (segments (writeable_segments ro rw z s)). seg_ok seg \<and> seg_start seg < seg_end seg"
proof -
  note b = spi_bounds [OF f]
  define h where "h = heap_start (length ro)"
  define P where "P = spi_alignToPageSize (length ro)"
  define W where "W = spi_alignToPageSize (length rw)"
  define Q where "Q = spi_alignToPageSize (length args)"
  define T where "T = spi_alignToPageSize s"
  have P: "length ro \<le> P" "length rw \<le> W" "length args \<le> Q" "P mod 4096 = 0" "0 < length ro \<Longrightarrow> 0 < P"
    "0 < length rw \<Longrightarrow> 0 < W" "0 < length args \<Longrightarrow> 0 < Q"
    by (simp_all add: P_def W_def Q_def align_bounds)
  note b' = b [folded h_def, folded P_def W_def Q_def T_def]
  have g: "ARGS_SEGMENT = 4278124544" "STACK_SEGMENT = 4278059008" by (simp_all add: ARGS_SEGMENT_def STACK_SEGMENT_def)
  have h: "P < 4294901760" "h \<le> 4278059008" "h + W < 4294967296" "h + W + z * 4096 < 4294967296"
    using b'(1,5) unfolding g by auto
  show "\<forall>seg \<in> set (segments (readable_segments ro args)). seg_ok seg \<and> seg_start seg < seg_end seg"
    unfolding readable_segments_def P_def [symmetric] Q_def [symmetric]
    using b'(1,3,5,11,12,13) P h unfolding g
    by (simp add: segments_def seg_ok_def getMemorySegment_def)
  show "\<forall>seg \<in> set (segments (writeable_segments ro rw z s)). seg_ok seg \<and> seg_start seg < seg_end seg"
    unfolding writeable_segments_def Let_def h_def [symmetric] W_def [symmetric] T_def [symmetric]
    using b'(1,2,4,5,8,9,10) P h unfolding g
    by (simp add: segments_def seg_ok_def getMemorySegment_def)
qed


lemma fold_readable: "fold (put_seg readable_page) (segments (readable_segments ro args)) Map.empty =
    (let a = ARGS_SEGMENT + spi_alignToPageSize (length args) in
      put readable_page a (a + spi_alignToPageSize (length args)) []
      (put readable_page ARGS_SEGMENT a args
      (put readable_page 65536 (65536 + spi_alignToPageSize (length ro)) ro Map.empty)))"
proof -
  have "\<forall>(c, seg) \<in> set (readable_segments ro args). \<not> c \<longrightarrow> seg_start seg = seg_end seg"
    by (auto simp: readable_segments_def getMemorySegment_def align_bounds)
  from fold_segments [OF this] show ?thesis
    by (simp add: readable_segments_def getMemorySegment_def put_seg_def Let_def)
qed

lemma fold_writeable: "fold (put_seg writeable_page) (segments (writeable_segments ro rw z s)) m =
    (let h = heap_start (length ro); e = h + spi_alignToPageSize (length rw) in
      put writeable_page (STACK_SEGMENT - spi_alignToPageSize s) STACK_SEGMENT []
      (put writeable_page e (e + z * 4096) [] (put writeable_page h e rw m)))"
proof -
  have "\<forall>(c, seg) \<in> set (writeable_segments ro rw z s). \<not> c \<longrightarrow> seg_start seg = seg_end seg"
    by (auto simp: writeable_segments_def getMemorySegment_def align_bounds Let_def STACK_SEGMENT_def)
  from fold_segments [OF this] show ?thesis
    by (simp add: writeable_segments_def getMemorySegment_def put_seg_def Let_def)
qed

lemma fromSpi_eq:
  assumes f: "spi_fits ro rw z s args" and code: "length code < 2 ^ 32"
  shows "fromSpi (spi_blob ro rw z s code) args False = Inr
    \<lparr>prog_code = code, prog_registers = getRegisters (length args),
     prog_memory = fromInitialMemory (spi_pages ro rw z s args) (spi_heap ro rw z)
       (STACK_SEGMENT - spi_alignToPageSize s),
     prog_metadata = []\<rparr>"
proof -
  let ?r = "segments (readable_segments ro args)" and ?w = "segments (writeable_segments ro rw z s)"
  let ?e = "STACK_SEGMENT - spi_alignToPageSize s"
  have d: "decodeStandardProgram (spi_blob ro rw z s code) args = Inr
    \<lparr>spi_code = code, spi_memory = \<lparr>readable = ?r, writeable = ?w, spi_sbrkIndex = spi_heap ro rw z, heapEnd = ?e\<rparr>,
     spi_registers = getRegisters (length args)\<rparr>"
    unfolding spi_heap_def by (rule decodeStandardProgram_blob) (use f code in \<open>simp_all add: spi_fits_def\<close>)
  obtain m1 where m1: "set_segments setReadablePages ?r new_builder = Inr (new_builder\<lparr>initialMemory := m1\<rparr>)"
    "map_of m1 = fold (put_seg readable_page) ?r Map.empty"
    using set_segments_eq [OF makes_readable _ readable_ok(1) [OF f], of new_builder]
    by (auto simp: setReadablePages_def new_builder_def)
  define b1 where "b1 = new_builder\<lparr>initialMemory := m1\<rparr>"
  obtain m2 where m2: "set_segments setWriteablePages ?w b1 = Inr (b1\<lparr>initialMemory := m2\<rparr>)"
    "map_of m2 = fold (put_seg writeable_page) ?w (map_of m1)"
    using set_segments_eq [OF makes_writeable _ readable_ok(2) [OF f], of b1]
    by (auto simp: setWriteablePages_def b1_def new_builder_def)
  have m: "map_of m2 = spi_pages ro rw z s args"
    unfolding m2(2) m1(2) fold_readable fold_writeable by (simp add: spi_pages_def Let_def)
  have h: "spi_heap ro rw z \<le> ?e" "?e \<le> 4294967296" "spi_heap ro rw z < 4294967296" "spi_heap ro rw z mod 4096 = 0"
    using spi_bounds(5,10) [OF f] by (simp_all add: spi_heap_def STACK_SEGMENT_def)
  have "finalize (spi_heap ro rw z) ?e (b1\<lparr>initialMemory := m2\<rparr>) =
    Inr (fromInitialMemory (spi_pages ro rw z s args) (spi_heap ro rw z) ?e, b1\<lparr>initialMemory := m2, isFinalized := True\<rparr>)"
  proof -
    have "map_of m2 p = None" if "spi_heap ro rw z div 4096 \<le> p" "p * 4096 < ?e" for p
    proof -
      have "spi_heap ro rw z \<le> p * 4096"
        using mult_le_mono1 [OF that(1), of 4096] div_mult_mod_eq [of "spi_heap ro rw z" 4096] h(4) by simp
      then show ?thesis unfolding m by (rule spi_heap_free [OF f _ that(2)])
    qed
    then show ?thesis
      using finalize_eq [of "b1\<lparr>initialMemory := m2\<rparr>" "spi_heap ro rw z" ?e] h spi_pages_wf [OF f]
      by (simp add: m b1_def new_builder_def)
  qed
  with d m1(1) m2(1) h show ?thesis
    by (simp add: fromSpi_def code_and_metadata_def b1_def [symmetric] tryAsMemoryIndex_def tryAsSbrkIndex_def
        copyFrom_regs_eq getRegisters_def empty_registers_def NO_OF_REGISTERS_def)
qed

section \<open>Two programs the loader refuses\<close>

text \<open>Arguments the decoder's length check admits and the builder cannot place: the zeros that
  follow them would end past the last address.\<close>

lemma long_args_rejected:
  assumes a: "0x807000 < length args" "length args \<le> 2 ^ 24"
    and b: "length rw < 2 ^ 24" "z < 2 ^ 16" "s < 2 ^ 24" "length code < 2 ^ 32"
  shows "fromSpi (spi_blob [] rw z s code) args False = Inl AssertionFailure"
proof -
  define Q where "Q = spi_alignToPageSize (length args)"
  have Q: "length args \<le> Q" "Q \<le> 16777216" "Q mod 4096 = 0"
    using align_bounds(1,3) [of "length args"] align_bounds(2) [of "length args" 4096] a by (simp_all add: Q_def)
  have "8417280 < 4096 * ceil_div (length args) 4096" using a Q(1) by (simp add: Q_def spi_alignToPageSize_eq)
  then have "2055 < ceil_div (length args) 4096" by linarith
  then have Q2: "8421376 \<le> Q" by (simp add: Q_def spi_alignToPageSize_eq)
  have segs: "segments (readable_segments [] args) =
    [getMemorySegment 4278124544 (4278124544 + Q) (Some args),
     getMemorySegment (4278124544 + Q) (4278124544 + Q + Q) None]"
    using a Q2 by (auto simp: segments_def readable_segments_def Q_def ARGS_SEGMENT_def)
  obtain mem where "setReadablePages 4278124544 (4278124544 + Q) args new_builder = Inr (new_builder\<lparr>initialMemory := mem\<rparr>)"
    using set_pages_eq [OF makes_readable, of new_builder 4278124544 "4278124544 + Q" args] Q Q2
    by (auto simp: setReadablePages_def new_builder_def mod_add_eq [symmetric])
  then have "set_segments setReadablePages (segments (readable_segments [] args)) new_builder = Inl AssertionFailure"
    using Q Q2 by (simp add: segs getMemorySegment_def tryAsMemoryIndex_def)
  moreover have "decodeStandardProgram (spi_blob [] rw z s code) args = Inr
    \<lparr>spi_code = code,
     spi_memory = \<lparr>readable = segments (readable_segments [] args),
       writeable = segments (writeable_segments [] rw z s),
       spi_sbrkIndex = heap_start (length ([] :: byte list)) + spi_alignToPageSize (length rw) + z * 4096,
       heapEnd = STACK_SEGMENT - spi_alignToPageSize s\<rparr>,
     spi_registers = getRegisters (length args)\<rparr>"
    by (rule decodeStandardProgram_blob) (use a b in simp_all)
  ultimately show ?thesis by (simp add: fromSpi_def code_and_metadata_def Let_def)
qed

text \<open>\<open>setData\<close> on a readable page created without data: the page's array is empty, so the copy
  throws, whatever is written.\<close>

lemma setData_readable_empty:
  assumes "0 < length bs" "length bs \<le> 4096" "65536 \<le> s" "s mod 4096 = 0" "s + 4096 < 4294967296"
  shows "bindE (setReadablePages s (s + 4096) [] new_builder) (setData s bs) = Inl RangeError"
proof -
  obtain mem where mem: "setReadablePages s (s + 4096) [] new_builder = Inr (new_builder\<lparr>initialMemory := mem\<rparr>)"
    "map_of mem = put readable_page s (s + 4096) [] Map.empty"
    using set_pages_eq [OF makes_readable, of new_builder s "s + 4096" "[]"] assms
    by (auto simp: setReadablePages_def new_builder_def)
  have p: "s div 4096 * 4096 = s" using assms(4) by (metis add_0_right div_mult_mod_eq)
  then have "map_of mem (s div 4096) = Some (ReadablePage s [])"
    by (simp add: mem(2) put_def readable_page_def subarray_def)
  moreover obtain r where r: "memoryRange_fromStartAndLength s (length bs) = Inr r"
    using memoryRange_eq [of "length bs" s] assms by simp
  moreover have "ensureNoReservedMemoryUsage r k = (k :: builder throws)" for k
    using reserved_usage [OF r] assms by simp
  moreover have "getPageNumber s = Inr (s div 4096)"
    using getPageNumber_eq [of s] assms by simp
  ultimately show ?thesis using assms unfolding mem(1) bindE.simps
    by (simp add: setData_def ensureNotFinalized_def new_builder_def tryAsPageIndex_def typed_set_def Let_def)
qed

end
