(* ===== verification/Encoder.thy ===== *)
theory Encoder
  imports Numbers Bitvec Natural
begin

text \<open>
  The encoder of \<open>packages/core/codec/encoder.ts\<close>: a destination buffer (resizable up to
  \<open>MAX_LENGTH\<close>, or a fixed array given by the caller) and a write offset. Every write first
  makes room with \<open>ensureBigEnough\<close>, which throws when the limit or the fixed array is
  exceeded. The abstract specification of each operation is the byte string it appends
  (\<open>appends\<close>): with room it succeeds and appends exactly that string, without room it throws.
\<close>

unbundle bit_operations_syntax

record encoder =
  destination :: "byte list"
  e_offset :: nat
  e_buffer :: bool

definition DEFAULT_START_LENGTH :: nat where "DEFAULT_START_LENGTH = 512"
definition MAX_LENGTH :: nat where "MAX_LENGTH = 20 * 1024 * 1024"

text \<open>\<open>Encoder.create\<close>: a fixed destination, or a resizable buffer of the expected length.\<close>

definition create_fixed :: "byte list \<Rightarrow> encoder" where
  "create_fixed dest = \<lparr>destination = dest, e_offset = 0, e_buffer = False\<rparr>"

definition create_resizable :: "nat option \<Rightarrow> encoder" where
  "create_resizable expectedLength =
     (let startLength = (case expectedLength of None \<Rightarrow> DEFAULT_START_LENGTH | Some n \<Rightarrow> n)
      in \<lparr>destination = replicate (min MAX_LENGTH startLength) 0, e_offset = 0, e_buffer = True\<rparr>)"

definition viewResult :: "encoder \<Rightarrow> byte list" where
  "viewResult e = subarray (destination e) 0 (e_offset e)"

definition ensureBigEnough :: "nat \<Rightarrow> bool \<Rightarrow> encoder \<Rightarrow> encoder throws" where
  "ensureBigEnough len silent e =
     (let newLength = e_offset e + len in
      if newLength > MAX_LENGTH then (if silent then Inr e else Inl GenericError)
      else if newLength > length (destination e) then
        (let e' = (if e_buffer e then
                     (let minExtend = max newLength (push_bit 1 (length (destination e)));
                          size = min MAX_LENGTH minExtend
                      in e\<lparr>destination :=
                             destination e @ replicate (size - length (destination e)) 0\<rparr>)
                   else e)
         in if newLength > length (destination e') then
              (if silent then Inr e' else Inl GenericError)
            else Inr e')
      else Inr e)"

text \<open>Writing bytes at the offset and moving it: the last two lines of every operation.\<close>

definition put :: "byte list \<Rightarrow> encoder \<Rightarrow> encoder" where
  "put bs e = e\<lparr>destination := blit (destination e) (e_offset e) bs,
               e_offset := e_offset e + length bs\<rparr>"

definition prepareIntegerN :: "int \<Rightarrow> nat \<Rightarrow> encoder \<Rightarrow> encoder throws" where
  "prepareIntegerN num n e =
     (let maxNum = (2 :: int) ^ (8 * n)
      in check (num < maxNum) (check (- num \<le> maxNum div 2) (ensureBigEnough n False e)))"

definition i32 :: "int \<Rightarrow> encoder \<Rightarrow> encoder throws" where
  "i32 num e = bindE (prepareIntegerN num 4 e) (\<lambda>e. Inr (put (le_bytes 4 num) e))"

definition i64 :: "int \<Rightarrow> encoder \<Rightarrow> encoder throws" where
  "i64 num e =
     (let maxNum = (2 :: int) ^ 64
      in check (num < maxNum) (check (- num \<le> maxNum div 2)
           (bindE (ensureBigEnough 8 False e) (\<lambda>e. Inr (put (le_bytes 8 num) e)))))"

definition i24 :: "int \<Rightarrow> encoder \<Rightarrow> encoder throws" where
  "i24 num e = bindE (prepareIntegerN num 3 e)
     (\<lambda>e. Inr (put (le_bytes 1 (js_and num 0xff) @ le_bytes 2 (js_shr num 8)) e))"

definition i16 :: "int \<Rightarrow> encoder \<Rightarrow> encoder throws" where
  "i16 num e = bindE (prepareIntegerN num 2 e) (\<lambda>e. Inr (put (le_bytes 2 num) e))"

definition i8 :: "int \<Rightarrow> encoder \<Rightarrow> encoder throws" where
  "i8 num e = bindE (prepareIntegerN num 1 e) (\<lambda>e. Inr (put (le_bytes 1 num) e))"

definition enc_bool :: "bool \<Rightarrow> encoder \<Rightarrow> encoder throws" where
  "enc_bool b e = bindE (tryAsU8 (if b then 1 else 0)) (\<lambda>v. i8 v e)"

text \<open>The inner loop of \<open>varU64\<close> over the \<open>l\<close> remaining bytes.\<close>

fun rest_bytes :: "nat \<Rightarrow> int \<Rightarrow> byte list" where
  "rest_bytes 0 r = []"
| "rest_bytes (Suc l) r = word_of_int (r AND 0xff) # rest_bytes l (drop_bit 8 r)"

text \<open>The outer loop, from \<open>l = 7\<close> down to \<open>0\<close>; the first argument is \<open>l + 1\<close>.\<close>

fun varU64_loop :: "nat \<Rightarrow> int \<Rightarrow> int \<Rightarrow> encoder \<Rightarrow> encoder throws" where
  "varU64_loop 0 minEncoded num e = Inl GenericError"
| "varU64_loop (Suc l) minEncoded num e =
     (if num \<ge> minEncoded then
        bindE (ensureBigEnough (l + 1) False e) (\<lambda>e.
          let maxVal = (2 :: int) ^ (8 * l);
              byte = 2 ^ 8 - 2 ^ (8 - l) + num sdiv maxVal;
              e = put [word_of_int (byte AND 0xff)] e;
              r = num smod maxVal
          in Inr (put (rest_bytes l r) e))
      else varU64_loop l (drop_bit 7 minEncoded) num e)"

definition varU64 :: "int \<Rightarrow> encoder \<Rightarrow> encoder throws" where
  "varU64 num e =
     (if num = 0 then bindE (ensureBigEnough 1 False e) (\<lambda>e. Inr (put [0] e))
      else
        let maxEncoded = (2 :: int) ^ (7 * 8) in
        if num \<ge> maxEncoded then
          bindE (ensureBigEnough 9 False e) (\<lambda>e. Inr (put (0xff # le_bytes 8 num) e))
        else varU64_loop 8 (drop_bit 7 maxEncoded) num e)"

definition varU32 :: "int \<Rightarrow> encoder \<Rightarrow> encoder throws" where
  "varU32 num e = check (num \<ge> 0) (check (num < 2 ^ 32) (varU64 num e))"

definition enc_blob :: "byte list \<Rightarrow> encoder \<Rightarrow> encoder throws" where
  "enc_blob bs e =
     bindE (tryAsU32 (int (length bs))) (\<lambda>n.
     bindE (varU32 n e) (\<lambda>e.
     bindE (ensureBigEnough (length bs) False e) (\<lambda>e. Inr (put bs e))))"

definition enc_bytes :: "byte list \<Rightarrow> encoder \<Rightarrow> encoder throws" where
  "enc_bytes bs e = bindE (ensureBigEnough (length bs) False e) (\<lambda>e. Inr (put bs e))"

definition bitVecFixLen :: "bitvec \<Rightarrow> encoder \<Rightarrow> encoder throws" where
  "bitVecFixLen v e = enc_bytes (bv_raw v) e"

definition bitVecVarLen :: "bitvec \<Rightarrow> encoder \<Rightarrow> encoder throws" where
  "bitVecVarLen v e =
     bindE (tryAsU32 (int (bitLength v))) (\<lambda>n.
     bindE (varU32 n e) (\<lambda>e. bitVecFixLen v e))"

text \<open>Size hints, and an \<open>Encode<T>\<close>: the encoding function with its hint.\<close>

record size_hint =
  hint_bytes :: nat
  isExact :: bool

definition addSizeHints :: "size_hint \<Rightarrow> size_hint \<Rightarrow> size_hint" where
  "addSizeHints a b = \<lparr>hint_bytes = hint_bytes a + hint_bytes b, isExact = isExact a \<and> isExact b\<rparr>"

record 'a encode_t =
  encode :: "'a \<Rightarrow> encoder \<Rightarrow> encoder throws"
  sizeHint :: size_hint

definition applySizeHint :: "('a, 'm) encode_t_scheme \<Rightarrow> nat \<Rightarrow> encoder \<Rightarrow> encoder throws" where
  "applySizeHint enc multiply e =
     (if hint_bytes (sizeHint enc) > 0 \<and> multiply > 0
      then ensureBigEnough (hint_bytes (sizeHint enc) * multiply) True e
      else Inr e)"

definition enc_object :: "('a, 'm) encode_t_scheme \<Rightarrow> 'a \<Rightarrow> encoder \<Rightarrow> encoder throws" where
  "enc_object enc x e = bindE (applySizeHint enc 1 e) (encode enc x)"

definition enc_optional :: "('a, 'm) encode_t_scheme \<Rightarrow> 'a option \<Rightarrow> encoder \<Rightarrow> encoder throws" where
  "enc_optional enc x e =
     bindE (enc_bool (x \<noteq> None) e) (\<lambda>e.
       case x of None \<Rightarrow> Inr e
       | Some y \<Rightarrow> bindE (applySizeHint enc 1 e) (encode enc y))"

fun encode_all :: "('a, 'm) encode_t_scheme \<Rightarrow> 'a list \<Rightarrow> encoder \<Rightarrow> encoder throws" where
  "encode_all enc [] e = Inr e"
| "encode_all enc (x # xs) e = bindE (encode enc x e) (encode_all enc xs)"

definition sequenceFixLen :: "('a, 'm) encode_t_scheme \<Rightarrow> 'a list \<Rightarrow> encoder \<Rightarrow> encoder throws" where
  "sequenceFixLen enc xs e = bindE (applySizeHint enc (length xs) e) (encode_all enc xs)"

definition sequenceVarLen :: "('a, 'm) encode_t_scheme \<Rightarrow> 'a list \<Rightarrow> encoder \<Rightarrow> encoder throws" where
  "sequenceVarLen enc xs e = check (length xs \<le> 2 ^ 32)
     (bindE (tryAsU32 (int (length xs))) (\<lambda>n.
      bindE (varU32 n e) (sequenceFixLen enc xs)))"

definition encodeObject :: "('a, 'm) encode_t_scheme \<Rightarrow> 'a \<Rightarrow> byte list throws" where
  "encodeObject enc x =
     (let n = (if hint_bytes (sizeHint enc) = 0 then DEFAULT_START_LENGTH else hint_bytes (sizeHint enc))
      in bindE (enc_object enc x (create_resizable (Some n))) (\<lambda>e. Inr (viewResult e)))"

section \<open>What an operation appends\<close>

text \<open>The largest offset the encoder can reach: the size limit, or the end of a fixed array.\<close>

definition capacity :: "encoder \<Rightarrow> nat" where
  "capacity e = (if e_buffer e then MAX_LENGTH else min MAX_LENGTH (length (destination e)))"

definition ok_enc :: "encoder \<Rightarrow> bool" where
  "ok_enc e \<longleftrightarrow> e_offset e \<le> length (destination e) \<and> e_offset e \<le> capacity e
     \<and> (e_buffer e \<longrightarrow> length (destination e) \<le> MAX_LENGTH)"

definition room :: "nat \<Rightarrow> encoder \<Rightarrow> bool" where
  "room n e \<longleftrightarrow> e_offset e + n \<le> capacity e"

definition emits :: "encoder \<Rightarrow> encoder \<Rightarrow> byte list \<Rightarrow> bool" where
  "emits e e' bs \<longleftrightarrow> ok_enc e' \<and> viewResult e' = viewResult e @ bs \<and> capacity e' = capacity e"

definition appends :: "(encoder \<Rightarrow> encoder throws) \<Rightarrow> byte list \<Rightarrow> bool" where
  "appends op bs \<longleftrightarrow> (\<forall>e. ok_enc e \<longrightarrow>
     (room (length bs) e \<longrightarrow> (\<exists>e'. op e = Inr e' \<and> emits e e' bs)) \<and>
     (\<not> room (length bs) e \<longrightarrow> (\<exists>err. op e = Inl err)))"

lemma ok_create_fixed: "ok_enc (create_fixed dest)" "capacity (create_fixed dest) = min MAX_LENGTH (length dest)"
  by (simp_all add: ok_enc_def create_fixed_def capacity_def)

lemma ok_create_resizable:
  "ok_enc (create_resizable n)" "capacity (create_resizable n) = MAX_LENGTH"
  "viewResult (create_resizable n) = []"
  by (simp_all add: ok_enc_def create_resizable_def capacity_def viewResult_def subarray_def Let_def)

lemma length_viewResult: "ok_enc e \<Longrightarrow> length (viewResult e) = e_offset e"
  by (simp add: viewResult_def ok_enc_def)

lemma emits_offset: "ok_enc e \<Longrightarrow> emits e e' bs \<Longrightarrow> e_offset e' = e_offset e + length bs"
  unfolding emits_def by (metis length_append length_viewResult)

lemma emits_refl: "ok_enc e \<Longrightarrow> emits e e []"
  by (simp add: emits_def)

lemma emits_trans: "emits e e' bs \<Longrightarrow> emits e' e'' cs \<Longrightarrow> emits e e'' (bs @ cs)"
  by (simp add: emits_def)

lemma room_0: "ok_enc e \<Longrightarrow> room 0 e"
  by (simp add: room_def ok_enc_def)

lemma room_mono: "room n e \<Longrightarrow> m \<le> n \<Longrightarrow> room m e"
  by (simp add: room_def)

lemma room_after: "ok_enc e \<Longrightarrow> emits e e' bs \<Longrightarrow> room n e' \<longleftrightarrow> room (length bs + n) e"
  using emits_offset [of e e' bs] by (simp add: room_def emits_def add.assoc)

lemma push_bit_1_nat: "push_bit 1 (n :: nat) = n * 2"
  by (simp add: push_bit_eq_mult)

text \<open>\<open>ensureBigEnough\<close> appends nothing, keeps the limit and makes the space available.\<close>

lemma ensureBigEnough_room:
  assumes "ok_enc e" "room n e"
  obtains e' where "ensureBigEnough n silent e = Inr e'" "emits e e' []"
    "e_offset e' + n \<le> length (destination e')"
proof -
  have le: "e_offset e + n \<le> MAX_LENGTH" using assms by (simp add: room_def capacity_def split: if_splits)
  show thesis
  proof (cases "e_offset e + n \<le> length (destination e)")
    case True
    then show thesis
      using le assms by (intro that [of e]) (auto simp: ensureBigEnough_def Let_def emits_refl)
  next
    case False
    then have b: "e_buffer e" using assms by (auto simp: room_def capacity_def split: if_splits)
    define size where "size = min MAX_LENGTH (max (e_offset e + n) (length (destination e) * 2))"
    define e' where "e' = e\<lparr>destination :=
      destination e @ replicate (size - length (destination e)) 0\<rparr>"
    have "e_offset e + n \<le> size" using le by (simp add: size_def)
    moreover have "size \<le> MAX_LENGTH" by (simp add: size_def)
    ultimately show thesis
      using le b False assms
      by (intro that [of e'])
         (auto simp: ensureBigEnough_def Let_def push_bit_1_nat e'_def size_def [symmetric] emits_def
           ok_enc_def capacity_def viewResult_def subarray_def)
  qed
qed

lemma ensureBigEnough_no_room:
  assumes "\<not> room n e" "ok_enc e"
  shows "ensureBigEnough n False e = Inl GenericError"
  using assms by (auto simp: ensureBigEnough_def room_def capacity_def ok_enc_def Let_def)

lemma ensureBigEnough_silent:
  assumes "ok_enc e"
  obtains e' where "ensureBigEnough n True e = Inr e'" "emits e e' []"
proof (cases "room n e")
  case True
  with assms show thesis by (elim ensureBigEnough_room [where silent = True]) (auto intro: that)
next
  case False
  with assms have "ensureBigEnough n True e = Inr e"
    by (auto simp: ensureBigEnough_def room_def capacity_def ok_enc_def Let_def)
  with assms show thesis by (intro that [of e]) (auto simp: emits_refl)
qed

lemma put_emits:
  assumes "ok_enc e" "e_offset e + length bs \<le> length (destination e)" "room (length bs) e"
  shows "emits e (put bs e) bs"
  using assms by (auto simp: emits_def ok_enc_def put_def viewResult_def capacity_def room_def
      subarray_def take_blit split: if_splits)

lemma put_put:
  assumes "e_offset e + length bs + length cs \<le> length (destination e)"
  shows "put cs (put bs e) = put (bs @ cs) e"
  using assms by (simp add: put_def blit_blit add.assoc)

section \<open>Building blocks\<close>

lemma appendsI:
  assumes "\<And>e. ok_enc e \<Longrightarrow> room (length bs) e \<Longrightarrow> \<exists>e'. op e = Inr e' \<and> emits e e' bs"
    and "\<And>e. ok_enc e \<Longrightarrow> \<not> room (length bs) e \<Longrightarrow> \<exists>err. op e = Inl err"
  shows "appends op bs"
  using assms by (simp add: appends_def)

lemma appends_room:
  assumes "appends op bs" "ok_enc e" "room (length bs) e"
  obtains e' where "op e = Inr e'" "emits e e' bs"
  using assms unfolding appends_def by blast

lemma appends_no_room:
  assumes "appends op bs" "ok_enc e" "\<not> room (length bs) e"
  obtains err where "op e = Inl err"
  using assms unfolding appends_def by blast

lemma appends_Inr: "appends Inr []"
  by (auto simp: appends_def room_0 emits_refl)

text \<open>Sequencing concatenates.\<close>

lemma appends_bind:
  assumes f: "appends f bs" and g: "appends g cs"
  shows "appends (\<lambda>e. bindE (f e) g) (bs @ cs)"
proof (rule appendsI)
  fix e assume e: "ok_enc e" and r: "room (length (bs @ cs)) e"
  from r have "room (length bs) e" by (rule room_mono) simp
  with f e obtain e' where 1: "f e = Inr e'" "emits e e' bs" by (rule appends_room)
  then have "ok_enc e'" "room (length cs) e'"
    using r room_after [OF e 1(2)] by (simp_all add: emits_def)
  with g obtain e'' where "g e' = Inr e''" "emits e' e'' cs" by (rule appends_room)
  with 1 show "\<exists>e''. bindE (f e) g = Inr e'' \<and> emits e e'' (bs @ cs)"
    by (auto intro: emits_trans)
next
  fix e assume e: "ok_enc e" and r: "\<not> room (length (bs @ cs)) e"
  show "\<exists>err. bindE (f e) g = Inl err"
  proof (cases "room (length bs) e")
    case True
    with f e obtain e' where 1: "f e = Inr e'" "emits e e' bs" by (rule appends_room)
    then have "ok_enc e'" "\<not> room (length cs) e'"
      using r room_after [OF e 1(2)] by (simp_all add: emits_def)
    with g obtain err where "g e' = Inl err" by (rule appends_no_room)
    with 1 show ?thesis by simp
  next
    case False
    with f e obtain err where "f e = Inl err" by (rule appends_no_room)
    then show ?thesis by simp
  qed
qed

lemma appends_reserve: "appends (\<lambda>e. bindE (ensureBigEnough (length bs) False e) (\<lambda>e. Inr (put bs e))) bs"
proof (rule appendsI)
  fix e assume e: "ok_enc e" and r: "room (length bs) e"
  then obtain e' where 1: "ensureBigEnough (length bs) False e = Inr e'" "emits e e' []"
    "e_offset e' + length bs \<le> length (destination e')"
    by (rule ensureBigEnough_room)
  then have "emits e' (put bs e') bs"
    using r room_after [OF e 1(2)] by (intro put_emits) (auto simp: emits_def)
  with 1(2) have "emits e (put bs e') bs"
    using emits_trans [of e e' "[]" "put bs e'" bs] by simp
  with 1(1) show "\<exists>e'. bindE (ensureBigEnough (length bs) False e) (\<lambda>e. Inr (put bs e)) = Inr e'
      \<and> emits e e' bs"
    by simp
qed (auto simp: ensureBigEnough_no_room)

lemma appends_cong: "appends f bs \<Longrightarrow> (\<And>e. g e = f e) \<Longrightarrow> appends g bs"
  by (simp add: appends_def)

lemma appends_hint: "appends (applySizeHint enc k) []"
proof (rule appendsI)
  fix e assume "ok_enc e"
  then show "\<exists>e'. applySizeHint enc k e = Inr e' \<and> emits e e' []"
    by (cases "hint_bytes (sizeHint enc) > 0 \<and> k > 0")
       (auto simp: applySizeHint_def emits_refl
         intro: ensureBigEnough_silent [of e "hint_bytes (sizeHint enc) * k"])
qed (simp add: room_0)

section \<open>The operations\<close>

lemma bind_put: "n = length bs \<Longrightarrow>
    appends (\<lambda>e. bindE (ensureBigEnough n False e) (\<lambda>e. Inr (put bs e))) bs"
  by (simp add: appends_reserve)

text \<open>The fixed-width integers: any value of the signed or the unsigned range.\<close>

definition fits :: "nat \<Rightarrow> int \<Rightarrow> bool" where
  "fits n v \<longleftrightarrow> v < 2 ^ (8 * n) \<and> - v \<le> 2 ^ (8 * n) div 2"

lemma prepare_eq: "fits n v \<Longrightarrow> prepareIntegerN v n e = ensureBigEnough n False e"
  by (simp add: prepareIntegerN_def fits_def Let_def)

lemma i8_appends: "fits 1 v \<Longrightarrow> appends (i8 v) (le_bytes 1 v)"
  by (rule appends_cong [OF appends_reserve]) (simp add: i8_def prepare_eq)

lemma i16_appends: "fits 2 v \<Longrightarrow> appends (i16 v) (le_bytes 2 v)"
  by (rule appends_cong [OF appends_reserve]) (simp add: i16_def prepare_eq)

lemma i32_appends: "fits 4 v \<Longrightarrow> appends (i32 v) (le_bytes 4 v)"
  by (rule appends_cong [OF appends_reserve]) (simp add: i32_def prepare_eq)

lemma i64_appends: "fits 8 v \<Longrightarrow> appends (i64 v) (le_bytes 8 v)"
  by (rule appends_cong [OF appends_reserve]) (simp add: i64_def fits_def Let_def)

lemma i24_bytes:
  assumes "fits 3 v"
  shows "le_bytes 1 (js_and v 0xff) @ le_bytes 2 (js_shr v 8) = le_bytes 3 v"
proof -
  have "to_int32 v = v"
    using assms by (simp add: to_int32_def fits_def signed_take_bit_int_eq_self)
  then have "js_shr v 8 = v div 256"
    by (simp add: js_shr_def shift_count_self drop_bit_eq_div)
  moreover have "js_and v 255 = v mod 256"
    using js_and_mask [of 8 v] by simp
  moreover have "(word_of_int (v mod 256) :: byte) = word_of_int v"
    by (rule word_uint_eqI) (simp add: uint_word8_of_int)
  ultimately show ?thesis
    by (simp add: numeral_eq_Suc)
qed

lemma i24_appends: "fits 3 v \<Longrightarrow> appends (i24 v) (le_bytes 3 v)"
  by (rule appends_cong [OF appends_reserve]) (simp add: i24_def i24_bytes [simplified] prepare_eq)

lemma bool_appends: "appends (enc_bool b) [if b then 1 else 0]"
proof -
  have "tryAsU8 (if b then 1 else 0) = Inr (if b then 1 else 0)"
    by (simp add: tryAs_Inr_iff)
  moreover have "appends (i8 (if b then 1 else 0)) (le_bytes 1 (if b then 1 else 0))"
    by (rule i8_appends) (simp add: fits_def)
  ultimately show ?thesis by (auto simp: enc_bool_def appends_def)
qed

lemma bytes_appends: "appends (enc_bytes bs) bs"
  by (rule appends_cong [OF appends_reserve]) (simp add: enc_bytes_def)

section \<open>Variable-length naturals\<close>

lemma rest_bytes_eq: "rest_bytes l r = le_bytes l r"
proof (induction l arbitrary: r)
  case 0
  then show ?case by simp
next
  case (Suc l)
  have "r AND 255 = r mod 256"
    using take_bit_eq_mask [of 8 r] by (simp add: mask_eq_exp_minus_1 take_bit_eq_mod)
  then have "(word_of_int (r AND 255) :: byte) = word_of_int r"
    by (intro word_uint_eqI) (simp add: uint_word8_of_int)
  with Suc show ?case by (simp add: drop_bit_eq_div)
qed

text \<open>Two consecutive writes into reserved space are one write.\<close>

lemma reserve_put_put:
  assumes "ok_enc e" "n = length bs + length cs"
  shows "bindE (ensureBigEnough n False e) (\<lambda>e. Inr (put cs (put bs e))) =
    bindE (ensureBigEnough n False e) (\<lambda>e. Inr (put (bs @ cs) e))"
proof (cases "room n e")
  case True
  with assms(1) obtain e' where "ensureBigEnough n False e = Inr e'"
    "e_offset e' + n \<le> length (destination e')"
    by (rule ensureBigEnough_room)
  with assms(2) show ?thesis by (simp add: put_put)
next
  case False
  with assms(1) show ?thesis by (simp add: ensureBigEnough_no_room)
qed

lemma word8_and_255: "(word_of_int (x AND 255) :: byte) = word_of_int x"
  using rest_bytes_eq [of 1 x] by simp

lemma varU64_loop_eq:
  assumes "ok_enc e" "1 \<le> n" "n < 2 ^ (7 * Suc k)" "k < 8"
  shows "varU64_loop (Suc k) (2 ^ (7 * k)) n e =
    bindE (ensureBigEnough (length (nat_bytes n)) False e) (\<lambda>e. Inr (put (nat_bytes n) e))"
  using assms(3,4)
proof (induction k)
  case 0
  have "extra_bytes n = 0" using 0 assms(2) by (intro extra_bytesI) auto
  with assms(1,2) show ?case
    by (simp add: Let_def word8_and_255 nat_bytes_def first_byte_def reserve_put_put)
next
  case (Suc k)
  show ?case
  proof (cases "2 ^ (7 * Suc k) \<le> n")
    case True
    then have l: "extra_bytes n = Suc k"
      using Suc.prems by (intro extra_bytesI) auto
    have q: "n sdiv 2 ^ m = n div 2 ^ m" "n smod 2 ^ m = n mod 2 ^ m" for m
      using assms(2) by (simp_all add: signed_divide_int_def signed_modulo_int_def)
    have "le_bytes (Suc k) (n mod 2 ^ (8 * Suc k)) = le_bytes (Suc k) n"
      by (rule le_bytes_cong) (simp add: power_add power_mult)
    with True l show ?thesis
      using assms(1)
      by (simp add: Let_def word8_and_255 q rest_bytes_eq reserve_put_put nat_bytes_def
          first_byte_def del: le_bytes.simps)
  next
    case False
    have "drop_bit 7 ((2 :: int) ^ (7 * Suc k)) = 2 ^ (7 * k)"
      by (simp add: drop_bit_eq_div power_add)
    with False Suc show ?thesis by simp
  qed
qed

lemma varU64_appends:
  assumes "0 \<le> n" "n < 2 ^ 64"
  shows "appends (varU64 n) (nat_bytes n)"
proof -
  have "varU64 n e = bindE (ensureBigEnough (length (nat_bytes n)) False e)
      (\<lambda>e. Inr (put (nat_bytes n) e))" if e: "ok_enc e" for e
  proof -
    consider (zero) "n = 0" | (mid) "n \<noteq> 0" "n < 2 ^ 56" | (big) "2 ^ 56 \<le> n" by force
    then show ?thesis
    proof cases
      case zero
      moreover have "extra_bytes 0 = 0" by (rule extra_bytesI) auto
      ultimately show ?thesis by (simp add: varU64_def nat_bytes_def first_byte_def)
    next
      case mid
      then show ?thesis
        using assms(1) e varU64_loop_eq [of e n 7]
        by (simp add: varU64_def Let_def drop_bit_eq_div)
    next
      case big
      then have "extra_bytes n = 8" by (intro extra_bytesI) auto
      with big assms show ?thesis
        by (simp add: varU64_def nat_bytes_def first_byte_def del: le_bytes.simps)
    qed
  qed
  then show ?thesis
    using appends_reserve [of "nat_bytes n"] by (simp add: appends_def)
qed

lemma varU32_appends: "0 \<le> n \<Longrightarrow> n < 2 ^ 32 \<Longrightarrow> appends (varU32 n) (nat_bytes n)"
  using varU64_appends [of n] by (simp add: appends_def varU32_def)

text \<open>A length prefix followed by a body: the shape of every variable-length value.\<close>

definition prefixed :: "nat \<Rightarrow> byte list \<Rightarrow> byte list" where
  "prefixed n bs = nat_bytes (int n) @ bs"

lemma length_prefix_appends:
  assumes "n < 2 ^ 32" "appends f bs"
  shows "appends (\<lambda>e. bindE (tryAsU32 (int n)) (\<lambda>n. bindE (varU32 n e) f)) (prefixed n bs)"
proof -
  have n: "int n < 2 ^ 32" using assms(1) by (metis of_nat_less_iff of_nat_numeral of_nat_power)
  then have "tryAsU32 (int n) = Inr (int n)" by (simp add: tryAs_Inr_iff)
  moreover have "appends (\<lambda>e. bindE (varU32 (int n) e) f) (prefixed n bs)"
    unfolding prefixed_def using n by (intro appends_bind varU32_appends assms) auto
  ultimately show ?thesis by simp
qed

lemma blob_appends: "length bs < 2 ^ 32 \<Longrightarrow> appends (enc_blob bs) (prefixed (length bs) bs)"
  unfolding enc_blob_def by (intro length_prefix_appends appends_reserve)

lemma bitVecFixLen_appends: "appends (bitVecFixLen v) (bv_raw v)"
  unfolding bitVecFixLen_def by (rule bytes_appends)

lemma bitVecVarLen_appends:
  "bitLength v < 2 ^ 32 \<Longrightarrow> appends (bitVecVarLen v) (prefixed (bitLength v) (bv_raw v))"
  unfolding bitVecVarLen_def by (intro length_prefix_appends bitVecFixLen_appends)


end
