(* ===== verification/Codec.thy ===== *)
theory Codec
  imports Encoder Decoder "HOL-Library.Multiset"
begin

text \<open>
  Descriptors, the composable codecs of \<open>packages/core/codec/descriptors.ts\<close>, with the skipping
  functions of \<open>skip.ts\<close> and the length validation of \<open>validation.ts\<close>. A descriptor extends an
  \<open>Encode<T>\<close> (\<open>encode_t\<close>) with its decoder and its skipper. Views (lazily decoded objects) are
  not modelled; names are only used in error messages and are left out.

  The interface is stated as locales: \<open>element_encoder\<close> (what \<open>encode\<close> appends), \<open>element_decoder\<close>
  (what \<open>decode\<close> returns where those bytes stand) and \<open>codec\<close>, which joins them and adds that
  skipping moves as far as decoding does. The sequence, optional and pair descriptors are proved
  correct once, for any element, and every primitive descriptor is an instance.
\<close>

record 'a descriptor = "'a encode_t" +
  decode :: "'a decoding"
  skip_fn :: "decoder \<Rightarrow> decoder throws"

definition exactHint :: "nat \<Rightarrow> size_hint" where
  "exactHint n = \<lparr>hint_bytes = n, isExact = True\<rparr>"

definition TYPICAL_SEQUENCE_LENGTH :: nat where "TYPICAL_SEQUENCE_LENGTH = 64"
definition TYPICAL_DICTIONARY_LENGTH :: nat where "TYPICAL_DICTIONARY_LENGTH = 32"

section \<open>The skipper\<close>

definition skip_n :: "nat \<Rightarrow> decoder \<Rightarrow> decoder throws" where
  "skip_n n d = skip (int n) d"

definition skip_varU64 :: "decoder \<Rightarrow> decoder throws" where
  "skip_varU64 d = bindE (dec_u8 d) (\<lambda>(firstByte, d).
     bindE (decodeVariableLengthExtraBytes firstByte) (\<lambda>l. skip (int l) d))"

definition skip_bytesBlob :: "decoder \<Rightarrow> decoder throws" where
  "skip_bytesBlob d = bindE (dec_varU32 d) (\<lambda>(len, d). skip len d)"

definition skip_bitVecFixLen :: "nat \<Rightarrow> decoder \<Rightarrow> decoder throws" where
  "skip_bitVecFixLen n d = skip (int (ceil_div n 8)) d"

definition skip_bitVecVarLen :: "decoder \<Rightarrow> decoder throws" where
  "skip_bitVecVarLen d = bindE (dec_varU32 d) (\<lambda>(len, d). skip_bitVecFixLen (nat len) d)"

definition skip_optional :: "(decoder \<Rightarrow> decoder throws) \<Rightarrow> decoder \<Rightarrow> decoder throws" where
  "skip_optional f d = bindE (dec_bool d) (\<lambda>(isSet, d). if isSet then f d else Inr d)"

fun skip_sequenceFixLen :: "(decoder \<Rightarrow> decoder throws) \<Rightarrow> nat \<Rightarrow> decoder \<Rightarrow> decoder throws" where
  "skip_sequenceFixLen f 0 d = Inr d"
| "skip_sequenceFixLen f (Suc n) d = bindE (f d) (skip_sequenceFixLen f n)"

section \<open>Primitive descriptors\<close>

definition codec_bytes :: "nat \<Rightarrow> byte list descriptor" where
  "codec_bytes len = \<lparr>encode = enc_bytes, sizeHint = exactHint len,
     decode = dec_bytes len, skip_fn = skip_n len\<rparr>"

definition codec_nothing :: "unit descriptor" where
  "codec_nothing = \<lparr>encode = (\<lambda>_. Inr), sizeHint = exactHint 0,
     decode = (\<lambda>d. Inr ((), d)), skip_fn = Inr\<rparr>"

definition codec_varU32 :: "int descriptor" where
  "codec_varU32 = \<lparr>encode = varU32, sizeHint = \<lparr>hint_bytes = 4, isExact = False\<rparr>,
     decode = dec_varU32, skip_fn = skip_varU64\<rparr>"

definition codec_varU64 :: "int descriptor" where
  "codec_varU64 = \<lparr>encode = varU64, sizeHint = \<lparr>hint_bytes = 8, isExact = False\<rparr>,
     decode = dec_varU64, skip_fn = skip_varU64\<rparr>"

definition codec_u64 :: "int descriptor" where
  "codec_u64 = \<lparr>encode = i64, sizeHint = exactHint 8, decode = dec_u64, skip_fn = skip_n 8\<rparr>"
definition codec_u32 :: "int descriptor" where
  "codec_u32 = \<lparr>encode = i32, sizeHint = exactHint 4, decode = dec_u32, skip_fn = skip_n 4\<rparr>"
definition codec_u24 :: "int descriptor" where
  "codec_u24 = \<lparr>encode = i24, sizeHint = exactHint 3, decode = dec_u24, skip_fn = skip_n 3\<rparr>"
definition codec_u16 :: "int descriptor" where
  "codec_u16 = \<lparr>encode = i16, sizeHint = exactHint 2, decode = dec_u16, skip_fn = skip_n 2\<rparr>"
definition codec_u8 :: "int descriptor" where
  "codec_u8 = \<lparr>encode = i8, sizeHint = exactHint 1, decode = dec_u8, skip_fn = skip_n 1\<rparr>"

definition codec_i64 :: "int descriptor" where
  "codec_i64 = \<lparr>encode = i64, sizeHint = exactHint 8, decode = dec_i64, skip_fn = skip_n 8\<rparr>"
definition codec_i32 :: "int descriptor" where
  "codec_i32 = \<lparr>encode = i32, sizeHint = exactHint 4, decode = dec_i32, skip_fn = skip_n 4\<rparr>"
definition codec_i24 :: "int descriptor" where
  "codec_i24 = \<lparr>encode = i24, sizeHint = exactHint 3, decode = dec_i24, skip_fn = skip_n 3\<rparr>"
definition codec_i16 :: "int descriptor" where
  "codec_i16 = \<lparr>encode = i16, sizeHint = exactHint 2, decode = dec_i16, skip_fn = skip_n 2\<rparr>"
definition codec_i8 :: "int descriptor" where
  "codec_i8 = \<lparr>encode = i8, sizeHint = exactHint 1, decode = dec_i8, skip_fn = skip_n 1\<rparr>"

definition codec_bool :: "bool descriptor" where
  "codec_bool = \<lparr>encode = enc_bool, sizeHint = exactHint 1, decode = dec_bool, skip_fn = skip_n 1\<rparr>"

definition codec_blob :: "byte list descriptor" where
  "codec_blob = \<lparr>encode = enc_blob,
     sizeHint = \<lparr>hint_bytes = TYPICAL_SEQUENCE_LENGTH, isExact = False\<rparr>,
     decode = dec_bytesBlob, skip_fn = skip_bytesBlob\<rparr>"

definition codec_bitVecVarLen :: "bitvec descriptor" where
  "codec_bitVecVarLen = \<lparr>encode = bitVecVarLen,
     sizeHint = \<lparr>hint_bytes = drop_bit 3 TYPICAL_SEQUENCE_LENGTH, isExact = False\<rparr>,
     decode = dec_bitVecVarLen, skip_fn = skip_bitVecVarLen\<rparr>"

definition codec_bitVecFixLen :: "nat \<Rightarrow> bitvec descriptor" where
  "codec_bitVecFixLen bitLen = \<lparr>encode = bitVecFixLen, sizeHint = exactHint (drop_bit 3 bitLen),
     decode = dec_bitVecFixLen bitLen, skip_fn = skip_bitVecFixLen bitLen\<rparr>"

section \<open>Combinators\<close>

definition codec_optional :: "'a descriptor \<Rightarrow> 'a option descriptor" where
  "codec_optional type = \<lparr>encode = enc_optional type,
     sizeHint = addSizeHints \<lparr>hint_bytes = 1, isExact = False\<rparr> (sizeHint type),
     decode = dec_optional (decode type), skip_fn = skip_optional (skip_fn type)\<rparr>"

record length_range =
  minLength :: nat
  maxLength :: nat

definition validateLength :: "length_range \<Rightarrow> nat \<Rightarrow> unit throws" where
  "validateLength rng n =
     (if n < minLength rng then Inl GenericError
      else if n > maxLength rng then Inl GenericError
      else Inr ())"

definition default_range :: length_range where
  "default_range = \<lparr>minLength = 0, maxLength = 2 ^ 32 - 1\<rparr>"

definition codec_sequenceVarLen ::
    "'a descriptor \<Rightarrow> length_range \<Rightarrow> nat option \<Rightarrow> 'a list descriptor" where
  "codec_sequenceVarLen type options typical =
     (let typicalLength = (case typical of None \<Rightarrow> TYPICAL_SEQUENCE_LENGTH | Some n \<Rightarrow> n) in
      \<lparr>encode = (\<lambda>v e. bindE (validateLength options (length v)) (\<lambda>_. sequenceVarLen type v e)),
       sizeHint = \<lparr>hint_bytes = typicalLength * hint_bytes (sizeHint type), isExact = False\<rparr>,
       decode = (\<lambda>d. bindE (dec_varU32 d) (\<lambda>(len, d).
         bindE (validateLength options (nat len)) (\<lambda>_.
         dec_sequenceFixLen (decode type) (nat len) d))),
       skip_fn = (\<lambda>d. bindE (dec_varU32 d) (\<lambda>(len, d).
         bindE (validateLength options (nat len)) (\<lambda>_.
         skip_sequenceFixLen (skip_fn type) (nat len) d)))\<rparr>)"

definition codec_sequenceFixLen :: "'a descriptor \<Rightarrow> nat \<Rightarrow> 'a list descriptor" where
  "codec_sequenceFixLen type len =
     \<lparr>encode = sequenceFixLen type,
      sizeHint = \<lparr>hint_bytes = len * hint_bytes (sizeHint type), isExact = isExact (sizeHint type)\<rparr>,
      decode = dec_sequenceFixLen (decode type) len,
      skip_fn = skip_sequenceFixLen (skip_fn type) len\<rparr>"

definition codec_pair :: "'a descriptor \<Rightarrow> 'b descriptor \<Rightarrow> ('a \<times> 'b) descriptor" where
  "codec_pair a b =
     \<lparr>encode = (\<lambda>elem e. bindE (encode a (fst elem) e) (encode b (snd elem))),
      sizeHint = addSizeHints (sizeHint a) (sizeHint b),
      decode = (\<lambda>d. bindE (decode a d) (\<lambda>(aValue, d).
        bindE (decode b d) (\<lambda>(bValue, d). Inr ((aValue, bValue), d)))),
      skip_fn = (\<lambda>d. bindE (skip_fn a d) (skip_fn b))\<rparr>"

text \<open>
  The dictionary: a \<open>Map\<close> is its list of entries in insertion order; \<open>sortKeys\<close> is the comparator
  argument, \<open>data.sort\<close> a stable sort by it.
\<close>

fun insert_by :: "('k \<Rightarrow> 'k \<Rightarrow> int) \<Rightarrow> 'k \<times> 'v \<Rightarrow> ('k \<times> 'v) list \<Rightarrow> ('k \<times> 'v) list" where
  "insert_by cmp x [] = [x]"
| "insert_by cmp x (y # ys) = (if cmp (fst x) (fst y) \<le> 0 then x # y # ys else y # insert_by cmp x ys)"

definition sort_by :: "('k \<Rightarrow> 'k \<Rightarrow> int) \<Rightarrow> ('k \<times> 'v) list \<Rightarrow> ('k \<times> 'v) list" where
  "sort_by cmp xs = foldr (insert_by cmp) xs []"

fun encode_entries :: "'k descriptor \<Rightarrow> 'v descriptor \<Rightarrow> ('k \<times> 'v) list \<Rightarrow> encoder \<Rightarrow> encoder throws" where
  "encode_entries key val [] e = Inr e"
| "encode_entries key val ((k, v) # xs) e =
     bindE (encode key k e) (\<lambda>e. bindE (encode val v e) (encode_entries key val xs))"

fun decode_entries :: "'k descriptor \<Rightarrow> 'v descriptor \<Rightarrow> ('k \<Rightarrow> 'k \<Rightarrow> int) \<Rightarrow> nat \<Rightarrow> 'k option
    \<Rightarrow> ('k \<times> 'v) list \<Rightarrow> ('k \<times> 'v) list decoding" where
  "decode_entries key val cmp 0 prevKey m d = Inr (m, d)"
| "decode_entries key val cmp (Suc n) prevKey m d =
     bindE (decode key d) (\<lambda>(k, d).
     bindE (decode val d) (\<lambda>(v, d).
     if k \<in> fst ` set m then Inl GenericError
     else if (case prevKey of None \<Rightarrow> False | Some p \<Rightarrow> cmp p k \<ge> 0) then Inl GenericError
     else decode_entries key val cmp n (Some k) (m @ [(k, v)]) d))"

definition codec_dictionary :: "'k descriptor \<Rightarrow> 'v descriptor \<Rightarrow> ('k \<Rightarrow> 'k \<Rightarrow> int) \<Rightarrow> nat option
    \<Rightarrow> ('k \<times> 'v) list descriptor" where
  "codec_dictionary key val sortKeys fixedLength =
     (let hint = addSizeHints (sizeHint key) (sizeHint val);
          prefix = (\<lambda>d. case fixedLength of Some n \<Rightarrow> Inr (int n, d) | None \<Rightarrow> dec_varU32 d) in
      \<lparr>encode = (\<lambda>v e. let sorted = sort_by sortKeys v in
         bindE (case fixedLength of Some _ \<Rightarrow> Inr e
                | None \<Rightarrow> bindE (tryAsU32 (int (length sorted))) (\<lambda>n. varU32 n e))
           (encode_entries key val sorted)),
       sizeHint = (case fixedLength of
           Some n \<Rightarrow> \<lparr>hint_bytes = n * hint_bytes hint,
                      isExact = isExact (sizeHint key) \<and> isExact (sizeHint val)\<rparr>
         | None \<Rightarrow> \<lparr>hint_bytes = TYPICAL_DICTIONARY_LENGTH * hint_bytes hint, isExact = False\<rparr>),
       decode = (\<lambda>d. bindE (prefix d) (\<lambda>(len, d).
         decode_entries key val sortKeys (nat len) None [] d)),
       skip_fn = (\<lambda>d. bindE (prefix d) (\<lambda>(len, d).
         bindE (skip_sequenceFixLen (skip_fn key) (nat len) d)
           (skip_sequenceFixLen (skip_fn val) (nat len))))\<rparr>)"

text \<open>
  The skipper of \<open>Class(descriptors)\<close>, for any fields: a class whose hints are all exact is skipped
  in one step, otherwise the fields are skipped in declaration order (\<open>forEachDescriptor\<close>, which
  rethrows everything but the end of data as a plain error).
\<close>

definition class_hint :: "size_hint list \<Rightarrow> size_hint" where
  "class_hint hs = foldl addSizeHints (exactHint 0) hs"

definition rethrow :: "'a throws \<Rightarrow> 'a throws" where
  "rethrow r = (case r of Inr x \<Rightarrow> Inr x | Inl e \<Rightarrow>
     Inl (if e = EndOfDataError then EndOfDataError else GenericError))"

fun skip_fields :: "(decoder \<Rightarrow> decoder throws) list \<Rightarrow> decoder \<Rightarrow> decoder throws" where
  "skip_fields [] d = Inr d"
| "skip_fields (f # fs) d = bindE (rethrow (f d)) (skip_fields fs)"

definition class_skipper ::
    "size_hint list \<Rightarrow> (decoder \<Rightarrow> decoder throws) list \<Rightarrow> decoder \<Rightarrow> decoder throws" where
  "class_skipper hints skips d =
     (let sh = class_hint hints in
      if isExact sh then skip (int (hint_bytes sh)) d else skip_fields skips d)"

section \<open>The interfaces\<close>

locale element_encoder =
  fixes enc :: "('a, 'm) encode_t_scheme"
    and bytes_of :: "'a \<Rightarrow> byte list"
    and valid :: "'a \<Rightarrow> bool"
  assumes encode_appends: "valid x \<Longrightarrow> appends (encode enc x) (bytes_of x)"
begin

lemma encode_all_appends:
  "list_all valid xs \<Longrightarrow> appends (encode_all enc xs) (concat (List.map bytes_of xs))"
proof (induction xs)
  case Nil
  show ?case by (simp add: appends_cong [OF appends_Inr])
next
  case (Cons x xs)
  then have "appends (\<lambda>e. bindE (encode enc x e) (encode_all enc xs))
      (bytes_of x @ concat (List.map bytes_of xs))"
    by (intro appends_bind encode_appends) auto
  then show ?case by (simp add: appends_def)
qed

lemma object_appends: "valid x \<Longrightarrow> appends (enc_object enc x) (bytes_of x)"
  unfolding enc_object_def
  using appends_bind [OF appends_hint encode_appends, of x enc 1] by simp

lemma fixlen_appends:
  "list_all valid xs \<Longrightarrow> appends (sequenceFixLen enc xs) (concat (List.map bytes_of xs))"
  unfolding sequenceFixLen_def
  using appends_bind [OF appends_hint encode_all_appends, of xs enc "length xs"] by simp

lemma varlen_appends:
  assumes "list_all valid xs" "length xs < 2 ^ 32"
  shows "appends (sequenceVarLen enc xs) (prefixed (length xs) (concat (List.map bytes_of xs)))"
  by (rule appends_cong [OF length_prefix_appends [OF assms(2) fixlen_appends [OF assms(1)]]])
     (use assms(2) in \<open>simp add: sequenceVarLen_def\<close>)

lemma optional_appends:
  assumes "pred_option valid x"
  shows "appends (enc_optional enc x)
    (case x of None \<Rightarrow> [0] | Some y \<Rightarrow> 1 # bytes_of y)"
proof (cases x)
  case None
  have "appends (\<lambda>e. bindE (enc_bool False e) Inr) ([0] @ [])"
    using appends_bind [OF bool_appends [of False] appends_Inr] by simp
  then have "appends (enc_optional enc None) [0]"
    by (simp only: append_Nil2) (erule appends_cong, simp add: enc_optional_def)
  with None show ?thesis by simp
next
  case (Some y)
  have "appends (\<lambda>e. bindE (applySizeHint enc 1 e) (encode enc y)) (bytes_of y)"
    using appends_bind [OF appends_hint encode_appends, of y enc 1] assms Some by simp
  then have "appends (\<lambda>e. bindE (enc_bool True e)
      (\<lambda>e. bindE (applySizeHint enc 1 e) (encode enc y))) ([1] @ bytes_of y)"
    using appends_bind [OF bool_appends [of True]] by simp
  then have "appends (enc_optional enc (Some y)) ([1] @ bytes_of y)"
    by (rule appends_cong) (simp add: enc_optional_def)
  with Some show ?thesis by simp
qed

text \<open>One-shot encoding: the bytes of the value, unless they exceed the size limit.\<close>

lemma encodeObject_eq:
  assumes "valid x"
  shows "length (bytes_of x) \<le> MAX_LENGTH \<Longrightarrow> encodeObject enc x = Inr (bytes_of x)"
    "\<not> length (bytes_of x) \<le> MAX_LENGTH \<Longrightarrow> \<exists>err. encodeObject enc x = Inl err"
proof -
  define e0 where "e0 = create_resizable (Some
    (if hint_bytes (sizeHint enc) = 0 then DEFAULT_START_LENGTH else hint_bytes (sizeHint enc)))"
  have ok: "ok_enc e0" "viewResult e0 = []" and room: "room n e0 \<longleftrightarrow> n \<le> MAX_LENGTH" for n
    by (auto simp: e0_def ok_create_resizable room_def) (simp_all add: create_resizable_def)
  have eq: "encodeObject enc x = bindE (enc_object enc x e0) (\<lambda>e. Inr (viewResult e))"
    by (simp add: encodeObject_def e0_def Let_def)
  {
    assume "length (bytes_of x) \<le> MAX_LENGTH"
    with object_appends [OF assms] ok(1) room obtain e'
      where "enc_object enc x e0 = Inr e'" "emits e0 e' (bytes_of x)"
      by (meson appends_room)
    with ok(2) eq show "encodeObject enc x = Inr (bytes_of x)" by (simp add: emits_def)
  next
    assume "\<not> length (bytes_of x) \<le> MAX_LENGTH"
    with object_appends [OF assms] ok(1) room obtain err where "enc_object enc x e0 = Inl err"
      by (meson appends_no_room)
    with eq show "\<exists>err. encodeObject enc x = Inl err" by simp
  }
qed

end

locale element_decoder =
  fixes dec :: "'a decoding"
    and bytes_of :: "'a \<Rightarrow> byte list"
    and valid :: "'a \<Rightarrow> bool"
  assumes decode_decodes: "valid x \<Longrightarrow> decodes dec (bytes_of x) x"
begin

lemma sequence_decodes:
  "list_all valid xs \<Longrightarrow>
    decodes (dec_sequenceFixLen dec (length xs)) (concat (List.map bytes_of xs)) xs"
proof (induction xs)
  case Nil
  show ?case by (simp add: decodes_def)
next
  case (Cons x xs)
  then have "decodes (\<lambda>d. bindE (dec d) (\<lambda>(x, d).
      bindE (dec_sequenceFixLen dec (length xs) d) (\<lambda>(xs, d). Inr (x # xs, d))))
      (bytes_of x @ concat (List.map bytes_of xs)) (x # xs)"
    by (intro decodes_bind [where x = x] decode_decodes decodes_return) auto
  then show ?case by (simp add: decodes_def)
qed

lemma optional_decodes:
  assumes "pred_option valid x"
  shows "decodes (dec_optional dec) (case x of None \<Rightarrow> [0] | Some y \<Rightarrow> 1 # bytes_of y) x"
proof (cases x)
  case None
  have "decodes (dec_optional dec) ([0] @ []) None"
    unfolding dec_optional_def using bool_decodes [of False]
    by (intro decodes_bind) (auto simp: decodes_def)
  with None show ?thesis by simp
next
  case (Some y)
  have "decodes (\<lambda>d. bindE (dec d) (\<lambda>(x, d). Inr (Some x, d))) (bytes_of y) (Some y)"
    using assms Some by (intro decodes_return decode_decodes) simp
  then have "decodes (dec_optional dec) ([1] @ bytes_of y) (Some y)"
    unfolding dec_optional_def using bool_decodes [of True] by (intro decodes_bind) auto
  with Some show ?thesis by simp
qed

lemma decodeObject_eq:
  assumes "valid x"
  shows "decodeObject dec (bytes_of x) = Inr x"
proof -
  have "at (dec_fromBlob (bytes_of x)) (bytes_of x)"
    by (simp add: at_iff dec_fromBlob_def)
  then have "dec (dec_fromBlob (bytes_of x)) =
      Inr (x, adv (dec_fromBlob (bytes_of x)) (length (bytes_of x)))"
    by (rule decodesD [OF decode_decodes [OF assms]])
  then show ?thesis
    by (simp add: decodeObject_def dec_object_def finish_def) (simp add: dec_fromBlob_def)
qed

end

text \<open>Skipping moves past exactly the bytes a value occupies.\<close>

definition skips :: "(decoder \<Rightarrow> decoder throws) \<Rightarrow> byte list \<Rightarrow> bool" where
  "skips f bs \<longleftrightarrow> (\<forall>d. at d bs \<longrightarrow> f d = Inr (adv d (length bs)))"

locale codec =
  element_encoder "cd :: 'a descriptor" bytes_of valid +
  element_decoder "decode cd" bytes_of valid
  for cd :: "'a descriptor" and bytes_of :: "'a \<Rightarrow> byte list" and valid :: "'a \<Rightarrow> bool" +
  assumes skip_skips: "valid x \<Longrightarrow> skips (skip_fn cd) (bytes_of x)"
    and hint_exact: "isExact (sizeHint cd) \<Longrightarrow> valid x \<Longrightarrow>
      length (bytes_of x) = hint_bytes (sizeHint cd)"
begin

lemma round_trip:
  assumes "valid x" "length (bytes_of x) \<le> MAX_LENGTH"
  shows "bindE (encodeObject cd x) (decodeObject (decode cd)) = Inr x"
  by (simp add: encodeObject_eq(1) [OF assms] decodeObject_eq [OF assms(1)])

text \<open>The encoding is injective, and no encoding is a prefix of another one.\<close>

lemma prefix_free:
  assumes "valid x" "valid y" "bytes_of x @ bs = bytes_of y @ cs"
  shows "x = y"
proof -
  let ?d = "dec_fromBlob (bytes_of x @ bs)"
  have "at ?d (bytes_of x)" "at ?d (bytes_of y)"
    using assms(3) by (simp_all add: at_iff dec_fromBlob_def) metis
  then have "decode cd ?d = Inr (x, adv ?d (length (bytes_of x)))"
    "decode cd ?d = Inr (y, adv ?d (length (bytes_of y)))"
    using assms(1,2) by (auto intro: decodesD decode_decodes)
  then show ?thesis by simp
qed

lemma skip_sequence:
  "list_all valid xs \<Longrightarrow>
    skips (skip_sequenceFixLen (skip_fn cd) (length xs)) (concat (List.map bytes_of xs))"
proof (induction xs)
  case Nil
  show ?case by (simp add: skips_def)
next
  case (Cons x xs)
  then show ?case using skip_skips [of x] by (auto simp: skips_def at_append)
qed

end

section \<open>The primitive descriptors satisfy the interface\<close>

lemma skips_n: "length bs = n \<Longrightarrow> skips (skip_n n) bs"
  by (auto simp: skips_def skip_n_def skip_def ensure_at offset_update)

lemma skips_varU64: "0 \<le> n \<Longrightarrow> n < 2 ^ 64 \<Longrightarrow> skips skip_varU64 (nat_bytes n)"
  unfolding skips_def
proof (intro allI impI)
  fix d assume n: "0 \<le> n" "n < 2 ^ 64" and a: "at d (nat_bytes n)"
  define l where "l = extra_bytes n"
  note p = nat_prefix [OF n a, folded l_def]
  have "at d [word_of_int (first_byte l n)]"
    using a at_append [of d "[word_of_int (first_byte l n)]" "le_bytes l n"]
    by (simp add: nat_bytes_def l_def)
  then have "dec_u8 d = Inr (le_val [word_of_int (first_byte l n)], adv d 1)"
    using uint_decodes(1) [of "[word_of_int (first_byte l n)]"] by (auto dest: decodesD)
  then have "dec_u8 d = Inr (first_byte l n, adv d 1)"
    using uint_first_byte [OF n] by (simp add: l_def)
  with p show "skip_varU64 d = Inr (adv d (length (nat_bytes n)))"
    by (simp add: skip_varU64_def skip_def offset_update l_def [symmetric])
qed

lemma skips_prefixed:
  assumes "n < 2 ^ 32" "skips (f (int n)) bs"
  shows "skips (\<lambda>d. bindE (dec_varU32 d) (\<lambda>(len, d). f len d)) (prefixed n bs)"
  using assms varU32_decodes [of "int n"] of_nat_less_u32 [OF assms(1)]
  by (auto simp: skips_def prefixed_def at_append decodes_def)

definition in_range :: "nat \<Rightarrow> int \<Rightarrow> bool" where
  "in_range n v \<longleftrightarrow> 0 \<le> v \<and> v < 2 ^ (8 * n)"

definition in_signed :: "nat \<Rightarrow> int \<Rightarrow> bool" where
  "in_signed n v \<longleftrightarrow> - (2 ^ (8 * n - 1)) \<le> v \<and> v < 2 ^ (8 * n - 1)"

lemma fits_in_range: "in_range n v \<Longrightarrow> fits n v"
  by (auto simp: in_range_def fits_def)

lemma fits_in_signed: "0 < n \<Longrightarrow> in_signed n v \<Longrightarrow> fits n v"
proof -
  assume "0 < n" and v: "in_signed n v"
  then have "8 * n = Suc (8 * n - 1)" by simp
  then have "(2 :: int) ^ (8 * n) = 2 * 2 ^ (8 * n - 1)" by (metis power_Suc)
  with v show ?thesis
    unfolding in_signed_def fits_def by (auto intro: order_less_le_trans)
qed

lemma le_val_in_range: "in_range n v \<Longrightarrow> le_val (le_bytes n v) = v"
  by (simp add: in_range_def le_val_le_bytes power_mult)

lemma le_val_in_signed: "0 < n \<Longrightarrow> in_signed n v \<Longrightarrow> signed_take_bit (8 * n - 1) (le_val (le_bytes n v)) = v"
proof -
  assume n: "0 < n" and v: "in_signed n v"
  have "le_val (le_bytes n v) = take_bit (8 * n) v"
    by (simp add: le_val_le_bytes power_mult take_bit_eq_mod)
  moreover have "signed_take_bit (8 * n - 1) (take_bit (8 * n) v) = signed_take_bit (8 * n - 1) v"
    using n by (auto simp: signed_take_bit_take_bit)
  ultimately show ?thesis
    using v by (simp add: in_signed_def signed_take_bit_int_eq_self)
qed

lemma unsigned_codec:
  assumes "\<And>v. fits n v \<Longrightarrow> appends (enc v) (le_bytes n v)"
    and "\<And>bs. length bs = n \<Longrightarrow> decodes f bs (le_val bs)"
  shows "codec \<lparr>encode = enc, sizeHint = exactHint n, decode = f, skip_fn = skip_n n\<rparr>
    (le_bytes n) (in_range n)"
proof
  fix v assume v: "in_range n v"
  show "appends (encode \<lparr>encode = enc, sizeHint = exactHint n, decode = f, skip_fn = skip_n n\<rparr> v)
      (le_bytes n v)"
    using assms(1) fits_in_range [OF v] by simp
  show "decodes (decode \<lparr>encode = enc, sizeHint = exactHint n, decode = f, skip_fn = skip_n n\<rparr>)
      (le_bytes n v) v"
    using assms(2) [of "le_bytes n v"] by (simp add: le_val_in_range [OF v])
qed (simp_all add: skips_n exactHint_def)

lemma signed_codec:
  assumes "\<And>v. fits n v \<Longrightarrow> appends (enc v) (le_bytes n v)" "0 < n"
    and "\<And>bs. length bs = n \<Longrightarrow> decodes f bs (signed_take_bit (8 * n - 1) (le_val bs))"
  shows "codec \<lparr>encode = enc, sizeHint = exactHint n, decode = f, skip_fn = skip_n n\<rparr>
    (le_bytes n) (in_signed n)"
proof
  fix v assume v: "in_signed n v"
  show "appends (encode \<lparr>encode = enc, sizeHint = exactHint n, decode = f, skip_fn = skip_n n\<rparr> v)
      (le_bytes n v)"
    using assms(1) fits_in_signed [OF assms(2) v] by simp
  show "decodes (decode \<lparr>encode = enc, sizeHint = exactHint n, decode = f, skip_fn = skip_n n\<rparr>)
      (le_bytes n v) v"
    using assms(3) [of "le_bytes n v"] unfolding le_val_in_signed [OF assms(2) v] by simp
qed (simp_all add: skips_n exactHint_def)

lemma i24_decodes:
  assumes "length bs = 3"
  shows "decodes dec_i24 bs (signed_take_bit 23 (le_val bs))"
proof -
  have b: "0 \<le> le_val bs" "le_val bs < 2 ^ 24" using le_val_less [of bs] assms by simp_all
  have "(if le_val bs \<ge> 2 ^ 23 then le_val bs - 2 ^ 24 else le_val bs) = signed_take_bit 23 (le_val bs)"
  proof (cases "le_val bs \<ge> 2 ^ 23")
    case True
    have "signed_take_bit 23 (le_val bs) = signed_take_bit 23 (take_bit 24 (le_val bs - 2 ^ 24))"
      using b by (simp add: take_bit_eq_mod mod_diff_eq)
    also have "\<dots> = signed_take_bit 23 (le_val bs - 2 ^ 24)" by (simp add: signed_take_bit_take_bit)
    also have "\<dots> = le_val bs - 2 ^ 24" using b True by (intro signed_take_bit_int_eq_self) auto
    finally show ?thesis using True by simp
  next
    case False
    have "- (2 ^ 23) \<le> le_val bs" by (rule order_trans [OF _ b(1)]) simp
    then have "signed_take_bit 23 (le_val bs) = le_val bs"
      using False by (intro signed_take_bit_int_eq_self) auto
    with False show ?thesis by simp
  qed
  with decodes_return [OF u24_decodes [OF assms], of "\<lambda>n. if n \<ge> 2 ^ 23 then n - 2 ^ 24 else n"]
  show ?thesis by (simp add: decodes_def dec_i24_def)
qed

interpretation u8: codec codec_u8 "le_bytes 1" "in_range 1"
  unfolding codec_u8_def by (rule unsigned_codec [OF i8_appends uint_decodes(1)])

interpretation u16: codec codec_u16 "le_bytes 2" "in_range 2"
  unfolding codec_u16_def by (rule unsigned_codec [OF i16_appends uint_decodes(2)])

interpretation u24: codec codec_u24 "le_bytes 3" "in_range 3"
  unfolding codec_u24_def by (rule unsigned_codec [OF i24_appends u24_decodes])

interpretation u32: codec codec_u32 "le_bytes 4" "in_range 4"
  unfolding codec_u32_def by (rule unsigned_codec [OF i32_appends uint_decodes(3)])

interpretation u64: codec codec_u64 "le_bytes 8" "in_range 8"
  unfolding codec_u64_def by (rule unsigned_codec [OF i64_appends uint_decodes(4)])

interpretation i8: codec codec_i8 "le_bytes 1" "in_signed 1"
  unfolding codec_i8_def by (rule signed_codec [OF i8_appends]) (simp_all add: sint_decodes)

interpretation i16: codec codec_i16 "le_bytes 2" "in_signed 2"
  unfolding codec_i16_def by (rule signed_codec [OF i16_appends]) (simp_all add: sint_decodes)

interpretation i24: codec codec_i24 "le_bytes 3" "in_signed 3"
  unfolding codec_i24_def by (rule signed_codec [OF i24_appends]) (simp_all add: i24_decodes)

interpretation i32: codec codec_i32 "le_bytes 4" "in_signed 4"
  unfolding codec_i32_def by (rule signed_codec [OF i32_appends]) (simp_all add: sint_decodes)

interpretation i64: codec codec_i64 "le_bytes 8" "in_signed 8"
  unfolding codec_i64_def by (rule signed_codec [OF i64_appends]) (simp_all add: sint_decodes)

interpretation bool: codec codec_bool "\<lambda>b. [if b then 1 else 0]" "\<lambda>_. True"
  by unfold_locales (simp_all add: codec_bool_def bool_appends bool_decodes skips_n exactHint_def)

interpretation bytes: codec "codec_bytes n" "\<lambda>bs. bs" "\<lambda>bs. length bs = n" for n
  by unfold_locales (auto simp: codec_bytes_def bytes_appends bytes_decodes skips_n exactHint_def)

interpretation varU32: codec codec_varU32 nat_bytes "\<lambda>n. 0 \<le> n \<and> n < 2 ^ 32"
  by unfold_locales
     (simp_all add: codec_varU32_def varU32_appends varU32_decodes skips_varU64)

interpretation varU64: codec codec_varU64 nat_bytes "\<lambda>n. 0 \<le> n \<and> n < 2 ^ 64"
  by unfold_locales
     (simp_all add: codec_varU64_def varU64_appends varU64_decodes skips_varU64)

interpretation blob: codec codec_blob "\<lambda>bs. prefixed (length bs) bs" "\<lambda>bs. length bs < 2 ^ 32"
proof
  fix bs :: "byte list" assume bs: "length bs < 2 ^ 32"
  have "skips (skip (int (length bs))) bs" by (auto simp: skips_def skip_def ensure_at offset_update)
  with bs show "skips (skip_fn codec_blob) (prefixed (length bs) bs)"
    using skips_prefixed [of "length bs" skip bs] by (simp add: codec_blob_def skip_bytesBlob_def [abs_def])
qed (simp_all add: codec_blob_def blob_appends blob_decodes [folded prefixed_def])

interpretation bitVecVarLen: codec codec_bitVecVarLen "\<lambda>v. prefixed (bitLength v) (bv_raw v)"
  "\<lambda>v. canonical v \<and> bitLength v < 2 ^ 32"
proof
  fix v assume v: "canonical v \<and> bitLength v < 2 ^ 32"
  then have l: "length (bv_raw v) = ceil_div (bitLength v) 8"
    by (simp add: bv_raw_def canonical_def byteLength_def)
  have "skips (\<lambda>d. skip_bitVecFixLen (nat (int (bitLength v))) d) (bv_raw v)"
    using l by (auto simp: skips_def skip_bitVecFixLen_def skip_def ensure_at offset_update)
  with v show "skips (skip_fn codec_bitVecVarLen) (prefixed (bitLength v) (bv_raw v))"
    using skips_prefixed [of "bitLength v" "\<lambda>len. skip_bitVecFixLen (nat len)" "bv_raw v"]
    by (simp add: codec_bitVecVarLen_def skip_bitVecVarLen_def [abs_def])
qed (simp_all add: codec_bitVecVarLen_def bitVecVarLen_appends bitVecVarLen_decodes [folded prefixed_def])

section \<open>Combinators preserve the interface\<close>

context codec
begin

text \<open>What \<open>optional(type)\<close> writes.\<close>

lemma skip_optional_skips:
  assumes "pred_option valid x"
  shows "skips (skip_optional (skip_fn cd)) (case x of None \<Rightarrow> [0] | Some y \<Rightarrow> 1 # bytes_of y)"
proof (cases x)
  case None
  then show ?thesis using bool_decodes [of False] by (simp add: skips_def skip_optional_def decodes_def)
next
  case (Some y)
  have "dec_bool d = Inr (True, adv d 1)" "at (adv d 1) (bytes_of y)" if "at d (1 # bytes_of y)" for d
    using that at_append [of d "[1]" "bytes_of y"] bool_decodes [of True]
    by (auto simp: decodes_def)
  with Some assms skip_skips [of y] show ?thesis
    by (auto simp: skips_def skip_optional_def)
qed

lemma optional_codec:
  "codec (codec_optional cd) (\<lambda>x. case x of None \<Rightarrow> [0] | Some y \<Rightarrow> 1 # bytes_of y) (pred_option valid)"
  by unfold_locales
     (simp_all only: codec_optional_def descriptor.simps encode_t.simps size_hint.simps addSizeHints_def
       optional_appends optional_decodes skip_optional_skips, simp)

lemma sequenceFixLen_codec:
  "codec (codec_sequenceFixLen cd n) (\<lambda>xs. concat (List.map bytes_of xs))
     (\<lambda>xs. list_all valid xs \<and> length xs = n)"
proof
  fix xs assume "isExact (sizeHint (codec_sequenceFixLen cd n))"
    and xs: "list_all valid xs \<and> length xs = n"
  then have "\<forall>x \<in> set xs. length (bytes_of x) = hint_bytes (sizeHint cd)"
    by (auto simp: codec_sequenceFixLen_def hint_exact list_all_iff)
  then have "length (concat (List.map bytes_of xs)) = length xs * hint_bytes (sizeHint cd)"
    by (induction xs) auto
  with xs show "length (concat (List.map bytes_of xs)) = hint_bytes (sizeHint (codec_sequenceFixLen cd n))"
    by (simp add: codec_sequenceFixLen_def)
qed (auto simp: codec_sequenceFixLen_def fixlen_appends sequence_decodes skip_sequence)

lemma sequenceVarLen_codec:
  "codec (codec_sequenceVarLen cd rng typical)
     (\<lambda>xs. prefixed (length xs) (concat (List.map bytes_of xs)))
     (\<lambda>xs. list_all valid xs \<and> length xs < 2 ^ 32 \<and> minLength rng \<le> length xs \<and> length xs \<le> maxLength rng)"
proof
  fix xs
  assume xs: "list_all valid xs \<and> length xs < 2 ^ 32 \<and> minLength rng \<le> length xs \<and> length xs \<le> maxLength rng"
  then have v: "validateLength rng (length xs) = Inr ()" by (simp add: validateLength_def)
  let ?bs = "concat (List.map bytes_of xs)"
  show "appends (encode (codec_sequenceVarLen cd rng typical) xs) (prefixed (length xs) ?bs)"
    using varlen_appends [of xs] xs v by (simp add: codec_sequenceVarLen_def)
  have "decodes (\<lambda>d. bindE (dec_varU32 d) (\<lambda>(len, d).
      bindE (validateLength rng (nat len)) (\<lambda>_. dec_sequenceFixLen (decode cd) (nat len) d)))
      (nat_bytes (int (length xs)) @ ?bs) xs"
    by (rule decodes_bind [OF varU32_decodes])
       (use xs v sequence_decodes [of xs] of_nat_less_u32 [of "length xs"] in simp_all)
  then show "decodes (decode (codec_sequenceVarLen cd rng typical)) (prefixed (length xs) ?bs) xs"
    by (simp add: codec_sequenceVarLen_def prefixed_def)
  have "skips (\<lambda>d. bindE (dec_varU32 d) (\<lambda>(len, d).
      bindE (validateLength rng (nat len)) (\<lambda>_. skip_sequenceFixLen (skip_fn cd) (nat len) d)))
      (prefixed (length xs) ?bs)"
    by (rule skips_prefixed) (use xs v skip_sequence [of xs] in \<open>simp_all add: skips_def\<close>)
  then show "skips (skip_fn (codec_sequenceVarLen cd rng typical)) (prefixed (length xs) ?bs)"
    by (simp add: codec_sequenceVarLen_def)
qed (simp add: codec_sequenceVarLen_def)

end

locale two_codecs =
  a: codec ca bytes_a valid_a + b: codec cb bytes_b valid_b
  for ca :: "'a descriptor" and bytes_a valid_a and cb :: "'b descriptor" and bytes_b valid_b
begin

lemma pair_codec:
  "codec (codec_pair ca cb) (\<lambda>p. bytes_a (fst p) @ bytes_b (snd p))
     (\<lambda>p. valid_a (fst p) \<and> valid_b (snd p))"
proof
  fix p assume p: "valid_a (fst p) \<and> valid_b (snd p)"
  show "appends (encode (codec_pair ca cb) p) (bytes_a (fst p) @ bytes_b (snd p))"
    using p appends_bind [OF a.encode_appends b.encode_appends, of "fst p" "snd p"]
    by (simp add: codec_pair_def)
  have "decodes (decode (codec_pair ca cb)) (bytes_a (fst p) @ bytes_b (snd p)) (fst p, snd p)"
    unfolding codec_pair_def descriptor.simps
    using p by (intro decodes_bind [where x = "fst p"] decodes_return a.decode_decodes b.decode_decodes) auto
  then show "decodes (decode (codec_pair ca cb)) (bytes_a (fst p) @ bytes_b (snd p)) p" by simp
  show "skips (skip_fn (codec_pair ca cb)) (bytes_a (fst p) @ bytes_b (snd p))"
    using p a.skip_skips b.skip_skips by (auto simp: skips_def codec_pair_def at_append)
  show "length (bytes_a (fst p) @ bytes_b (snd p)) = hint_bytes (sizeHint (codec_pair ca cb))"
    if "isExact (sizeHint (codec_pair ca cb))"
    using that p by (simp add: codec_pair_def addSizeHints_def a.hint_exact b.hint_exact)
qed

text \<open>The entries of a dictionary, key and value in turn.\<close>

definition entry_bytes :: "('a \<times> 'b) list \<Rightarrow> byte list" where
  "entry_bytes xs = concat (List.map (\<lambda>(k, v). bytes_a k @ bytes_b v) xs)"

lemma entries_appends:
  "list_all (\<lambda>(k, v). valid_a k \<and> valid_b v) xs \<Longrightarrow> appends (encode_entries ca cb xs) (entry_bytes xs)"
proof (induction xs)
  case Nil
  show ?case by (simp add: appends_cong [OF appends_Inr] entry_bytes_def)
next
  case (Cons x xs)
  obtain k v where x: "x = (k, v)" by (cases x)
  have "appends (\<lambda>e. bindE (encode ca k e) (\<lambda>e. bindE (encode cb v e) (encode_entries ca cb xs)))
      (bytes_a k @ bytes_b v @ entry_bytes xs)"
    using Cons x by (intro appends_bind a.encode_appends b.encode_appends) auto
  then show ?case by (simp add: x entry_bytes_def appends_def)
qed

definition increasing :: "('a \<Rightarrow> 'a \<Rightarrow> int) \<Rightarrow> ('a \<times> 'b) list \<Rightarrow> bool" where
  "increasing cmp xs \<longleftrightarrow> sorted_wrt (\<lambda>x y. cmp (fst x) (fst y) < 0) xs"

lemma entries_decode:
  assumes "list_all (\<lambda>(k, v). valid_a k \<and> valid_b v) xs" "increasing cmp (m @ xs)"
    "distinct (List.map fst (m @ xs))" "p = (if m = [] then None else Some (fst (last m)))"
  shows "decodes (decode_entries ca cb cmp (length xs) p m) (entry_bytes xs) (m @ xs)"
  using assms
proof (induction xs arbitrary: m p)
  case Nil
  show ?case by (simp add: decodes_def entry_bytes_def)
next
  case (Cons x xs)
  obtain k v where x: "x = (k, v)" by (cases x)
  have fresh: "k \<notin> fst ` set m" using Cons.prems x by auto
  have ord: "\<not> (case p of None \<Rightarrow> False | Some q \<Rightarrow> cmp q k \<ge> 0)"
  proof (cases "m = []")
    case False
    then have "last m \<in> set m" by simp
    moreover have "\<forall>y \<in> set m. cmp (fst y) k < 0"
      using Cons.prems(2) x by (auto simp: increasing_def sorted_wrt_append)
    ultimately show ?thesis using Cons.prems(4) False by fastforce
  qed (simp add: Cons.prems(4))
  have "decodes (decode_entries ca cb cmp (length xs) (Some k) (m @ [(k, v)])) (entry_bytes xs)
      ((m @ [(k, v)]) @ xs)"
    using Cons.prems x by (intro Cons.IH) auto
  then have "decodes (\<lambda>d. bindE (decode ca d) (\<lambda>(k, d). bindE (decode cb d) (\<lambda>(v, d).
      if k \<in> fst ` set m then Inl GenericError
      else if (case p of None \<Rightarrow> False | Some q \<Rightarrow> cmp q k \<ge> 0) then Inl GenericError
      else decode_entries ca cb cmp (length xs) (Some k) (m @ [(k, v)]) d)))
      (bytes_a k @ bytes_b v @ entry_bytes xs) (m @ x # xs)"
    using Cons.prems x fresh ord
    by (intro decodes_bind [where x = k] decodes_bind [where x = v] a.decode_decodes b.decode_decodes) auto
  then show ?case by (simp add: x entry_bytes_def decodes_def)
qed

text \<open>
  The dictionary with a length prefix. The comparator is a strict order on the keys at hand; the
  decoded \<open>Map\<close> has the entries in key order.
\<close>

lemma dictionary_codec_decodes:
  assumes "list_all (\<lambda>(k, v). valid_a k \<and> valid_b v) xs" "length xs < 2 ^ 32"
    "increasing cmp (sort_by cmp xs)" "distinct (List.map fst xs)" "mset (sort_by cmp xs) = mset xs"
  shows "appends (encode (codec_dictionary ca cb cmp None) xs)
      (prefixed (length xs) (entry_bytes (sort_by cmp xs)))"
    "decodes (decode (codec_dictionary ca cb cmp None))
      (prefixed (length xs) (entry_bytes (sort_by cmp xs))) (sort_by cmp xs)"
proof -
  let ?s = "sort_by cmp xs"
  have len: "length ?s = length xs" using assms(5) by (metis size_mset)
  have all: "list_all (\<lambda>(k, v). valid_a k \<and> valid_b v) ?s"
    using assms(1,5) by (metis list_all_iff set_mset_mset)
  have dist: "distinct (List.map fst ?s)"
    using assms(4,5) by (metis distinct_map mset_eq_imp_distinct_iff mset_map)
  show "appends (encode (codec_dictionary ca cb cmp None) xs) (prefixed (length xs) (entry_bytes ?s))"
    by (rule appends_cong [OF length_prefix_appends [OF assms(2) entries_appends [OF all]]])
       (simp add: codec_dictionary_def Let_def len bindE_assoc)
  have "decodes (\<lambda>d. bindE (dec_varU32 d) (\<lambda>(len, d). decode_entries ca cb cmp (nat len) None [] d))
      (nat_bytes (int (length xs)) @ entry_bytes ?s) ?s"
    using of_nat_less_u32 [OF assms(2)] entries_decode [of ?s cmp "[]" None] all assms(3) dist len
    by (intro decodes_bind [OF varU32_decodes]) auto
  then show "decodes (decode (codec_dictionary ca cb cmp None))
      (prefixed (length xs) (entry_bytes ?s)) ?s"
    by (simp add: codec_dictionary_def Let_def prefixed_def)
qed

end

section \<open>The dictionary's sort\<close>

definition strict_comparator :: "('k \<Rightarrow> 'k \<Rightarrow> int) \<Rightarrow> bool" where
  "strict_comparator cmp \<longleftrightarrow>
     (\<forall>a b. cmp a b = 0 \<longleftrightarrow> a = b) \<and> (\<forall>a b. cmp a b < 0 \<longleftrightarrow> 0 < cmp b a) \<and>
     (\<forall>a b c. cmp a b < 0 \<longrightarrow> cmp b c < 0 \<longrightarrow> cmp a c < 0)"

lemma mset_insert_by: "mset (insert_by cmp x xs) = add_mset x (mset xs)"
  by (induction xs) auto

lemma mset_sort_by: "mset (sort_by cmp xs) = mset xs"
  unfolding sort_by_def by (induction xs) (auto simp: mset_insert_by)

lemma insert_by_sorted:
  assumes "strict_comparator cmp" "sorted_wrt (\<lambda>x y. cmp (fst x) (fst y) < 0) xs"
    "fst x \<notin> fst ` set xs"
  shows "sorted_wrt (\<lambda>x y. cmp (fst x) (fst y) < 0) (insert_by cmp x xs)"
  using assms(2,3)
proof (induction xs)
  case Nil
  show ?case by simp
next
  case (Cons y ys)
  have set: "set (insert_by cmp x ys) = insert x (set ys)"
    by (metis mset_insert_by set_mset_add_mset_insert set_mset_mset)
  show ?case
  proof (cases "cmp (fst x) (fst y) \<le> 0")
    case True
    then have "cmp (fst x) (fst y) < 0"
      using Cons.prems assms(1) unfolding strict_comparator_def by (metis image_eqI le_less list.set_intros(1))
    moreover from this have "\<forall>z \<in> set ys. cmp (fst x) (fst z) < 0"
      using Cons.prems(1) assms(1) unfolding strict_comparator_def
      by (metis sorted_wrt.simps(2))
    ultimately show ?thesis using True Cons.prems(1) by simp
  next
    case False
    then have "cmp (fst y) (fst x) < 0" using assms(1) unfolding strict_comparator_def by auto
    with False Cons set show ?thesis by auto
  qed
qed

lemma sort_by_sorted:
  assumes "strict_comparator cmp" "distinct (List.map fst xs)"
  shows "sorted_wrt (\<lambda>x y. cmp (fst x) (fst y) < 0) (sort_by cmp xs)"
  using assms(2)
proof (induction xs)
  case Nil
  show ?case by (simp add: sort_by_def)
next
  case (Cons x xs)
  have "set (sort_by cmp xs) = set xs" by (metis mset_sort_by set_mset_mset)
  with Cons assms(1) show ?case by (auto simp: sort_by_def intro!: insert_by_sorted)
qed

section \<open>Instances the program uses\<close>

text \<open>
  \<open>codec.dictionary(codec.u32, ...)\<close> keyed by service ids, and an optional 32-byte hash.
\<close>

interpretation u32_blob: two_codecs codec_u32 "le_bytes 4" "in_range 4"
  codec_blob "\<lambda>bs. prefixed (length bs) bs" "\<lambda>bs. length bs < 2 ^ 32" ..

interpretation opt_hash: codec "codec_optional (codec_bytes 32)"
  "\<lambda>x. case x of None \<Rightarrow> [0] | Some y \<Rightarrow> 1 # y" "pred_option (\<lambda>bs. length bs = 32)"
  by (rule bytes.optional_codec)

interpretation hash_seq: codec "codec_sequenceVarLen (codec_bytes 32) default_range None"
  "\<lambda>xs. prefixed (length xs) (concat (List.map (\<lambda>bs. bs) xs))"
  "\<lambda>xs. list_all (\<lambda>bs. length bs = 32) xs \<and> length xs < 2 ^ 32 \<and>
     minLength default_range \<le> length xs \<and> length xs \<le> maxLength default_range"
  by (rule bytes.sequenceVarLen_codec)

end
