(* ===== verification/Findings.thy ===== *)
theory Findings
  imports JamProgram Codec
begin

text \<open>
  Behaviour of the code that its comments, names or callers do not expect, each shown on the model:
  the look-up table of the code mask wraps, the jump table clamps only some of the entries it
  should, two skippers disagree with the decoders they stand for, and a faulting load does not name
  the faulting page.
\<close>

section \<open>Program decoding\<close>

text \<open>\<open>Uint8Array\<close> entries wrap at 256: a byte exactly 256 positions before the next instruction
  is taken for an instruction.\<close>

lemma mask_wraps:
  assumes "new_mask m = Inr t" "i < bitLength m" "gap (mask_bits m) i = 256"
  shows "isInstruction t i \<and> \<not> mask_bits m ! i"
  using assms isInstruction_eq [OF assms(1), of i] gap_0_iff [of i "mask_bits m"] by simp

text \<open>The test for the top byte is signed: five-byte entries from \<open>2 ^ 39\<close> on are not clamped.\<close>

lemma jump_table_clamp:
  "w32 (decodeNext [0, 0, 0, 0, 1]) = 0xffffffff" "w32 (decodeNext [0, 0, 0, 0, 0x80]) = 0"
  by code_simp+

section \<open>Skipping\<close>

text \<open>A dictionary is encoded entry by entry; its skipper skips all keys and then all values. The
  encoding of two entries is decoded, but not skipped.\<close>

interpretation u8_blob: two_codecs codec_u8 "le_bytes 1" "in_range 1"
  codec_blob "\<lambda>bs. prefixed (length bs) bs" "\<lambda>bs. length bs < 2 ^ 32" ..

definition sample_entries :: "(int \<times> byte list) list" where
  "sample_entries = [(1, [0xaa]), (2, [])]"

definition sample_dictionary :: "(int \<times> byte list) list descriptor" where
  "sample_dictionary = codec_dictionary codec_u8 codec_blob (\<lambda>a b. a - b) None"

lemma sample_bytes: "prefixed (length sample_entries) (u8_blob.entry_bytes sample_entries) = [2, 1, 1, 0xaa, 2, 0]"
  unfolding u8_blob.entry_bytes_def sample_entries_def by code_simp

lemma dictionary_skip_differs:
  "appends (encode sample_dictionary sample_entries) [2, 1, 1, 0xaa, 2, 0]"
  "decode sample_dictionary (dec_fromBlob [2, 1, 1, 0xaa, 2, 0]) =
     Inr (sample_entries, (dec_fromBlob [2, 1, 1, 0xaa, 2, 0])\<lparr>d_offset := 6\<rparr>)"
  "skip_fn sample_dictionary (dec_fromBlob [2, 1, 1, 0xaa, 2, 0]) = Inl EndOfDataError"
proof -
  have s: "sort_by (\<lambda>a b. a - b) sample_entries = sample_entries" by code_simp
  have v: "list_all (\<lambda>(k, v). in_range 1 k \<and> length v < 2 ^ 32) sample_entries" "length sample_entries < 2 ^ 32"
    "u8_blob.increasing (\<lambda>a b. a - b) (sort_by (\<lambda>a b. a - b) sample_entries)" "distinct (List.map fst sample_entries)"
    "mset (sort_by (\<lambda>a b. a - b) sample_entries) = mset sample_entries"
    unfolding s u8_blob.increasing_def by (simp_all add: sample_entries_def in_range_def)
  note d = u8_blob.dictionary_codec_decodes [OF v, unfolded s sample_bytes, folded sample_dictionary_def]
  show "appends (encode sample_dictionary sample_entries) [2, 1, 1, 0xaa, 2, 0]" by (rule d(1))
  show "decode sample_dictionary (dec_fromBlob [2, 1, 1, 0xaa, 2, 0]) =
     Inr (sample_entries, (dec_fromBlob [2, 1, 1, 0xaa, 2, 0])\<lparr>d_offset := 6\<rparr>)"
    using decodesD [OF d(2) at_fromBlob] by (simp add: adv_def dec_fromBlob_def)
  show "skip_fn sample_dictionary (dec_fromBlob [2, 1, 1, 0xaa, 2, 0]) = Inl EndOfDataError"
    by code_simp
qed

text \<open>The exact size hint of a bit vector rounds down, so a class of fixed-size fields that has one
  skips fewer bytes than it occupies.\<close>

lemma bitvec_hint_short:
  assumes "bitLen mod 8 \<noteq> 0" "canonical v" "bitLength v = bitLen"
  shows "length (bv_raw v) = hint_bytes (sizeHint (codec_bitVecFixLen bitLen)) + 1"
    "isExact (sizeHint (codec_bitVecFixLen bitLen))"
    "class_skipper [sizeHint (codec_bitVecFixLen bitLen)] [skip_fn (codec_bitVecFixLen bitLen)] d =
       skip (int (length (bv_raw v)) - 1) d"
proof -
  have "ceil_div bitLen 8 = bitLen div 8 + 1"
    using assms(1) by (simp add: ceil_div_def) presburger
  then show len: "length (bv_raw v) = hint_bytes (sizeHint (codec_bitVecFixLen bitLen)) + 1"
    using assms(2,3)
    by (simp add: canonical_def bv_raw_def byteLength_def codec_bitVecFixLen_def exactHint_def drop_bit_eq_div)
  show "isExact (sizeHint (codec_bitVecFixLen bitLen))" by (simp add: codec_bitVecFixLen_def exactHint_def)
  then show "class_skipper [sizeHint (codec_bitVecFixLen bitLen)] [skip_fn (codec_bitVecFixLen bitLen)] d =
       skip (int (length (bv_raw v)) - 1) d"
    using len by (simp add: class_skipper_def class_hint_def addSizeHints_def exactHint_def Let_def)
qed

section \<open>Faults\<close>

text \<open>A load that runs off the end of a readable page reports its own address, which that page
  serves; a store at the same place reports the start of the page it needs.\<close>

lemma load_fault_address:
  assumes wf: "wf_machine s" and r: "r < 13" and k: "16 \<le> p" "p < 1048575"
    and page: "pages (m_mem s) p = Some page" "isWriteable page" and missing: "pages (m_mem s) (p + 1) = None"
  defines "a \<equiv> int p * 4096 + 4095"
  shows "loadNumber a r 2 s = Inr (set_exitParam a (set_status R_FAULT s))"
    "store_reg 2 a r s = Inr (set_exitParam (a + 1) (set_status R_FAULT s))"
    "granted (m_mem s) READ (nat a) 1"
proof -
  define w where "w = (word_of_int a :: u32)"
  have a: "a = int (p * 4096 + 4095)" "p * 4096 + 4095 < 4294967296" using k by (simp_all add: a_def)
  then have "0 \<le> a" "a < 2 ^ LENGTH(32)" by simp_all
  then have w1: "a = uint w" unfolding w_def uint_word_of_int by (simp add: mod_pos_pos_trivial)
  have w: "a = uint w" "nat a = p * 4096 + 4095" "unat w = p * 4096 + 4095"
    using a(1) w1 by (metis nat_int unat_eq_nat_uint)+
  have pages: "pages_of (p * 4096 + 4095) 2 = [p, p + 1]"
    using pages_of_contiguous [of "p * 4096 + 4095" 2] k by (simp add: upt_rec)
  have acc: "accessible (m_mem s) acc p" "\<not> accessible (m_mem s) acc (p + 1)" for acc
    using k page missing by (simp_all add: accessible_def)
  have ff: "first_fault (m_mem s) acc (p * 4096 + 4095) 2 = fault_at (m_mem s) (p + 1)" for acc
    using acc by (simp add: first_fault_def pages)
  have ng: "\<not> granted (m_mem s) acc (p * 4096 + 4095) 2" for acc
    using k acc by (subst granted_find) (auto simp: pages)
  have fault: "\<not> isAccessFault (fault_at (m_mem s) (p + 1))" "int (address (fault_at (m_mem s) (p + 1))) = a + 1"
    using k missing by (simp_all add: fault_at_def a_def)
  show "loadNumber a r 2 s = Inr (set_exitParam a (set_status R_FAULT s))"
    using loadNumber_eq [OF wf r, of 2 w] ng fault(1) unfolding w(1) [symmetric] w(3) ff by (simp add: load_fault_def)
  show "store_reg 2 a r s = Inr (set_exitParam (a + 1) (set_status R_FAULT s))"
  proof (cases rule: op_store_cases [OF wf, of "le_bytes 2 (uint (m_regs s ! r))" w])
    case (3 m')
    then show ?thesis using ng [of WRITE] w(3) by simp
  next
    case 4
    then show ?thesis
      using store_reg_bytes [OF wf r, of 2 a] fault ff unfolding w(1) [symmetric] w(3)
      by (simp add: store_fault_def)
  qed simp_all
  show "granted (m_mem s) READ (nat a) 1"
    using acc k unfolding w(2) by (auto simp: granted_iff)
qed

end
