(* ===== verification/Samples.thy ===== *)
theory Samples
  imports Findings
begin

text \<open>
  Small concrete states on which the properties of the root theory are instantiated: a memory with
  one writeable page above the reserved ones, the machine over it, and an interpreter at the start
  of a two-byte program.
\<close>

definition sample_memory :: memory where
  "sample_memory = \<lparr>sbrkIndex = 69632, virtualSbrkIndex = 69632, endHeapIndex = 4294967295,
     pages = [16 \<mapsto> WriteablePage 65536 (replicate 32 0)]\<rparr>"

definition sample_machine :: machine where
  "sample_machine = \<lparr>m_regs = empty_registers, m_mem = sample_memory, m_res = new_instructionResult\<rparr>"

definition sample_interpreter :: "int \<Rightarrow> byte list \<Rightarrow> interpreter" where
  "sample_interpreter g code = \<lparr>i_useSbrkGas = False, i_machine = sample_machine,
     i_gas = \<lparr>initialGas = g, gas = g\<rparr>, i_code = code, i_mask = replicate (length code) 0, i_pc = 0,
     i_status = S_OK, i_basicBlocks = {0}, i_jumpTable = []\<rparr>"

lemma sample_memory_wf: "wf_memory sample_memory"
  by (auto simp: sample_memory_def wf_memory_def wf_pages_def wf_page_def split: if_splits)

lemma sample_machine_wf: "wf_machine sample_machine"
  by (simp add: sample_machine_def wf_machine_def sample_memory_wf empty_registers_def NO_OF_REGISTERS_def
      wf_result_def new_instructionResult_def)

lemma sample_interpreter_wf: "0 \<le> g \<Longrightarrow> g < 2 ^ 64 \<Longrightarrow> wf_interp (sample_interpreter g code)"
  by (simp add: sample_interpreter_def wf_interp_def sample_machine_wf wf_gas_def)

lemma sample_granted: "65536 \<le> s \<Longrightarrow> s + n \<le> 69632 \<Longrightarrow> granted sample_memory acc s n"
proof -
  assume a: "65536 \<le> s" "s + n \<le> 69632"
  have "(s + k) div 4096 = 16" if "k < n" for k
    using a that by (intro div_nat_eqI) auto
  with a show ?thesis by (simp add: granted_iff accessible_def sample_memory_def)
qed

lemma sample_not_granted: "69632 \<le> s \<Longrightarrow> s < 4294967296 \<Longrightarrow> 0 < n \<Longrightarrow> \<not> granted sample_memory acc s n"
proof -
  assume a: "69632 \<le> s" "s < 4294967296" "0 < n"
  have "s div 4096 \<noteq> 16" using a(1) div_le_mono [of 69632 s 4096] by simp
  then have "\<not> accessible sample_memory acc (((s + 0) mod 4294967296) div 4096)"
    using a(2) by (simp add: accessible_def sample_memory_def)
  with a(3) show ?thesis unfolding granted_iff by blast
qed

text \<open>A program of one \<open>TRAP\<close>.\<close>

definition sample_mask :: bitvec where
  "sample_mask = \<lparr>data = [1], bitLength = 1\<rparr>"

lemma sample_mask_canonical: "canonical sample_mask" "bitLength sample_mask = length [0 :: byte]"
  by (simp_all add: canonical_def sample_mask_def byteLength_def ceil_div_def)

lemma sample_spi_fits: "spi_fits [1] [2] 1 4096 [3]"
  by (simp add: spi_fits_def heap_start_def spi_alignToSegmentSize_def spi_alignToPageSize_def
      SEGMENT_SIZE_def SPI_PAGE_SIZE_def STACK_SEGMENT_def ceil_div_def)

lemma sample_step:
  "\<exists>st'. nextStep (sample_interpreter 10 [1, 0]) = Inr st' \<and> i_status st' = S_OK"
proof -
  let ?st = "sample_interpreter 10 [1, 0]"
  have "fillArgs (i_code ?st) (i_mask ?st) (i_pc ?st) NO_ARGUMENTS = Inr (EmptyArgs 1)"
    by (simp add: sample_interpreter_def fillArgs_def getNoOfBytesToNextInstruction_def)
  moreover have "current_instruction ?st = FALLTHROUGH"
    by (simp add: sample_interpreter_def current_instruction_def)
  moreover have "FALLTHROUGH \<in> set opcodes" "instructionArgumentTypeMap FALLTHROUGH = Some NO_ARGUMENTS"
    by (simp_all add: opcodes_def instruction_enum_def instructionArgumentTypeMap_def format_table_def)
  ultimately show ?thesis
    using nextStep_charged [OF sample_interpreter_wf, of 10 "[1, 0]" FALLTHROUGH NO_ARGUMENTS "EmptyArgs 1"]
    by (simp add: sample_interpreter_def noArgs_dispatch_def fallthrough_def finish_step_def set_nextPc_def
        sample_machine_def new_instructionResult_def)
qed

end
