(* ===== verification/ArgsSpec.thy ===== *)
theory ArgsSpec
  imports ArgsDecoder
begin

text \<open>
  The instruction formats as a table, independent of the decoder. The operand bytes of an
  instruction follow its opcode; their nibbles are numbered from 0, the low one of a byte first. A
  format says which nibbles name registers, and which stretches of operand bytes (start after the
  opcode, length) hold immediates and the offset of a jump, given the number \<open>n\<close> of operand bytes
  and the nibbles that hold a length. \<open>fillArgs_spec\<close> shows that the decoder reads exactly these.
\<close>

definition operand_nibble :: "byte list \<Rightarrow> nat \<Rightarrow> nat \<Rightarrow> int" where
  "operand_nibble code pc k = uint (code_byte code (pc + 1 + k div 2)) div 16 ^ (k mod 2) mod 16"

fun register_nibbles :: "argument_type \<Rightarrow> nat list" where
  "register_nibbles THREE_REGISTERS = [0, 1, 2]"
| "register_nibbles TWO_REGISTERS = [1, 0]"
| "register_nibbles TWO_REGISTERS_ONE_IMMEDIATE = [0, 1]"
| "register_nibbles TWO_REGISTERS_TWO_IMMEDIATES = [0, 1]"
| "register_nibbles TWO_REGISTERS_ONE_OFFSET = [0, 1]"
| "register_nibbles ONE_REGISTER_ONE_IMMEDIATE = [0]"
| "register_nibbles ONE_REGISTER_TWO_IMMEDIATES = [0]"
| "register_nibbles ONE_REGISTER_ONE_IMMEDIATE_ONE_OFFSET = [0]"
| "register_nibbles ONE_REGISTER_ONE_EXTENDED_WIDTH_IMMEDIATE = [0]"
| "register_nibbles _ = []"

text \<open>The nibble that holds the length of the first of two variable fields.\<close>

fun length_nibble :: "argument_type \<Rightarrow> nat" where
  "length_nibble TWO_IMMEDIATES = 0"
| "length_nibble TWO_REGISTERS_TWO_IMMEDIATES = 2"
| "length_nibble _ = 1"

fun immediate_fields :: "argument_type \<Rightarrow> nat \<Rightarrow> nat \<Rightarrow> (nat \<times> nat) list" where
  "immediate_fields ONE_IMMEDIATE n l = [(0, min 4 n)]"
| "immediate_fields TWO_REGISTERS_ONE_IMMEDIATE n l = [(1, min 4 (n - 1))]"
| "immediate_fields ONE_REGISTER_ONE_IMMEDIATE n l = [(1, min 4 (n - 1))]"
| "immediate_fields ONE_REGISTER_ONE_IMMEDIATE_ONE_OFFSET n l = [(1, l)]"
| "immediate_fields TWO_IMMEDIATES n l = [(1, l), (1 + l, min 4 (n - 1 - l))]"
| "immediate_fields ONE_REGISTER_TWO_IMMEDIATES n l = [(1, l), (1 + l, min 4 (n - 1 - l))]"
| "immediate_fields TWO_REGISTERS_TWO_IMMEDIATES n l = [(2, l), (2 + l, min 4 (n - 2 - l))]"
| "immediate_fields _ n l = []"

fun offset_field :: "argument_type \<Rightarrow> nat \<Rightarrow> nat \<Rightarrow> (nat \<times> nat) option" where
  "offset_field ONE_OFFSET n l = Some (0, min 4 n)"
| "offset_field TWO_REGISTERS_ONE_OFFSET n l = Some (1, min 4 (n - 1))"
| "offset_field ONE_REGISTER_ONE_IMMEDIATE_ONE_OFFSET n l = Some (1 + l, min 4 (n - 1 - l))"
| "offset_field _ n l = None"

text \<open>The bytes of a field, cut at the end of the code, and the signed number they are.\<close>

definition field_bytes :: "byte list \<Rightarrow> nat \<Rightarrow> nat \<times> nat \<Rightarrow> byte list" where
  "field_bytes code pc f = take (snd f) (drop (pc + 1 + fst f) code)"

definition signed_val :: "byte list \<Rightarrow> int" where
  "signed_val bs = (if bs = [] then 0 else signed_take_bit (8 * length bs - 1) (le_val bs))"

definition format_registers :: "argument_type \<Rightarrow> byte list \<Rightarrow> nat \<Rightarrow> nat list" where
  "format_registers ty code pc = List.map (\<lambda>k. nat (min 12 (operand_nibble code pc k))) (register_nibbles ty)"

definition format_length :: "argument_type \<Rightarrow> byte list \<Rightarrow> nat \<Rightarrow> nat" where
  "format_length ty code pc = nat (min 4 (operand_nibble code pc (length_nibble ty)))"

definition format_immediates :: "argument_type \<Rightarrow> byte list \<Rightarrow> nat \<Rightarrow> nat \<Rightarrow> u64 list" where
  "format_immediates ty code pc n =
     (if ty = ONE_REGISTER_ONE_EXTENDED_WIDTH_IMMEDIATE then [word_of_int (le_val (field_bytes code pc (1, 8)))]
      else List.map (\<lambda>f. word_of_int (signed_val (field_bytes code pc f)))
        (immediate_fields ty n (format_length ty code pc)))"

definition format_target :: "argument_type \<Rightarrow> byte list \<Rightarrow> nat \<Rightarrow> nat \<Rightarrow> int option" where
  "format_target ty code pc n = map_option (\<lambda>f. int pc + signed_val (field_bytes code pc f))
     (offset_field ty n (format_length ty code pc))"

text \<open>What an instruction finds in the decoded arguments: registers and immediates in field order.\<close>

fun arg_registers :: "args \<Rightarrow> nat list" where
  "arg_registers (ThreeRegistersArgs _ a b c) = [a, b, c]"
| "arg_registers (TwoRegistersArgs _ a b) = [a, b]"
| "arg_registers (TwoRegistersOneImmediateArgs _ a b _) = [a, b]"
| "arg_registers (TwoRegistersTwoImmediatesArgs _ a b _ _) = [a, b]"
| "arg_registers (TwoRegistersOneOffsetArgs _ a b _) = [a, b]"
| "arg_registers (OneRegisterOneImmediateArgs _ a _) = [a]"
| "arg_registers (OneRegisterOneExtendedWidthImmediateArgs _ a _) = [a]"
| "arg_registers (OneRegisterOneImmediateOneOffsetArgs _ a _ _) = [a]"
| "arg_registers (OneRegisterTwoImmediatesArgs _ a _ _) = [a]"
| "arg_registers _ = []"

fun arg_immediates :: "args \<Rightarrow> immediate list" where
  "arg_immediates (OneImmediateArgs _ i) = [i]"
| "arg_immediates (TwoImmediatesArgs _ i j) = [i, j]"
| "arg_immediates (TwoRegistersOneImmediateArgs _ _ _ i) = [i]"
| "arg_immediates (TwoRegistersTwoImmediatesArgs _ _ _ i j) = [i, j]"
| "arg_immediates (OneRegisterOneImmediateArgs _ _ i) = [i]"
| "arg_immediates (OneRegisterOneExtendedWidthImmediateArgs _ _ i) = [i]"
| "arg_immediates (OneRegisterOneImmediateOneOffsetArgs _ _ i _) = [i]"
| "arg_immediates (OneRegisterTwoImmediatesArgs _ _ i j) = [i, j]"
| "arg_immediates _ = []"

lemma nibble_registers:
  "getLowNibbleAsRegisterIndex (setByte b) = nat (min 12 (uint b mod 16))"
  "getHighNibbleAsRegisterIndex (setByte b) = nat (min 12 (uint b div 16))"
  by (simp_all add: getLowNibbleAsRegisterIndex_def getHighNibbleAsRegisterIndex_def nibbles
      MAX_REGISTER_INDEX_def NO_OF_REGISTERS_def min.commute)

lemma nibble_lengths:
  "getLowNibbleAsLength (setByte b) = nat (min 4 (uint b mod 16))"
  "getHighNibbleAsLength (setByte b) = nat (min 4 (uint b div 16))"
  by (simp_all add: getLowNibbleAsLength_def getHighNibbleAsLength_def nibbles NIBBLE_MAX_LENGTH_def min.commute)

lemma high_nibble_mod: "uint (b :: byte) div 16 mod 16 = uint b div 16"
  using byte_bounds [of b] by (intro mod_pos_pos_trivial) presburger+

lemma operand_nibble_cases:
  "operand_nibble code pc 0 = uint (code_byte code (pc + 1)) mod 16"
  "operand_nibble code pc (Suc 0) = uint (code_byte code (pc + 1)) div 16"
  "operand_nibble code pc 2 = uint (code_byte code (pc + 2)) mod 16"
  by (simp_all add: operand_nibble_def high_nibble_mod)

lemma field_bytes_subarray:
  "a = pc + 1 + s \<Longrightarrow> e = a + l \<Longrightarrow> subarray code a e = field_bytes code pc (s, l)"
  by (simp add: subarray_def field_bytes_def)

lemma length_field_bytes: "length (field_bytes code pc f) \<le> snd f"
  by (simp add: field_bytes_def)

lemma field_word: "snd f \<le> 8 \<Longrightarrow> imm_word (setBytes (field_bytes code pc f)) = word_of_int (signed_val (field_bytes code pc f))"
  using length_field_bytes [of code pc f] by (simp add: setBytes_imm_word signed_val_def)

lemma field_signed:
  assumes "snd f \<le> 4"
  shows "imm_getSigned (setBytes (field_bytes code pc f)) = signed_val (field_bytes code pc f)"
proof (cases "field_bytes code pc f = []")
  case True
  then show ?thesis
    using field_word [of f code pc] assms imm_getI32_eq [OF wf_setBytes, of "field_bytes code pc f"]
    by (simp add: imm_getSigned_def signed_val_def)
next
  case False
  let ?b = "field_bytes code pc f"
  have l: "8 * length ?b - 1 \<le> 31" using length_field_bytes [of code pc f] assms by linarith
  have "imm_getSigned (setBytes ?b) = sint (lo32 (word_of_int (signed_val ?b)))"
    using field_word [of f code pc] assms imm_getI32_eq [OF wf_setBytes, of ?b] by (simp add: imm_getSigned_def)
  also have "\<dots> = signed_take_bit 31 (signed_val ?b)"
    by (simp add: sint_uint unsigned_ucast_eq uint_word_of_int_eq signed_take_bit_take_bit)
  also have "\<dots> = signed_val ?b"
    using False l by (simp add: signed_val_def min_def)
  finally show ?thesis .
qed

lemma extended_word: "snd f \<le> 8 \<Longrightarrow> imm_word (ext_setBytes (field_bytes code pc f)) = word_of_int (le_val (field_bytes code pc f))"
  using length_field_bytes [of code pc f] by (simp add: imm_word_def ext_setBytes_def le_val_append)

lemma field_slices:
  "subarray code (pc + 1) (pc + 1 + l) = field_bytes code pc (0, l)"
  "subarray code (pc + 2) (pc + 2 + l) = field_bytes code pc (1, l)"
  "subarray code (pc + 3) (pc + 3 + l) = field_bytes code pc (2, l)"
  "subarray code (pc + 2 + k) (pc + 2 + k + l) = field_bytes code pc (1 + k, l)"
  "subarray code (pc + 3 + k) (pc + 3 + k + l) = field_bytes code pc (2 + k, l)"
  by (rule field_bytes_subarray; simp)+

lemmas format_simps = format_registers_def format_immediates_def format_target_def format_length_def
  operand_nibble_cases field_word field_signed extended_word nibble_registers nibble_lengths
  IMMEDIATE_AND_OFFSET_MAX_LENGTH_def

lemma fillArgs_spec:
  assumes "getNoOfBytesToNextInstruction m (int (pc + 1)) = Inr n"
  shows "\<exists>a. fillArgs code m pc ty = Inr a \<and> args_type a = ty \<and> noOfBytesToSkip a = 1 + n \<and>
    arg_registers a = format_registers ty code pc \<and>
    List.map imm_word (arg_immediates a) = format_immediates ty code pc n \<and>
    branch_target a = format_target ty code pc n"
  unfolding fillArgs_def assms bindE.simps Let_def field_slices
  by (cases ty) (simp_all add: format_simps)

end
