(* ===== verification/Ordering.thy ===== *)
theory Ordering
  imports Prelude "HOL-Library.Multiset"
begin

text \<open>
  Orderings and comparators, \<open>packages/core/ordering/index.ts\<close>: the three-valued result of a
  comparison and its tests, the contract a comparator has to meet for the sorted collections to
  work (locale \<open>total_comparator\<close>), and \<open>Array.sort\<close> of the standard library, which is stable.
\<close>

datatype ordering = Less | Equal | Greater

text \<open>\<open>OrderingValue\<close>\<close>

fun ordering_value :: "ordering \<Rightarrow> int" where
  "ordering_value Less = - 1"
| "ordering_value Equal = 0"
| "ordering_value Greater = 1"

definition isLess :: "ordering \<Rightarrow> bool" where
  "isLess r \<longleftrightarrow> ordering_value r = ordering_value Less"

definition isGreater :: "ordering \<Rightarrow> bool" where
  "isGreater r \<longleftrightarrow> ordering_value r = ordering_value Greater"

definition isEqual :: "ordering \<Rightarrow> bool" where
  "isEqual r \<longleftrightarrow> ordering_value r = ordering_value Equal"

definition isNotEqual :: "ordering \<Rightarrow> bool" where
  "isNotEqual r \<longleftrightarrow> \<not> isEqual r"

definition isGreaterOrEqual :: "ordering \<Rightarrow> bool" where
  "isGreaterOrEqual r \<longleftrightarrow> isEqual r \<or> isGreater r"

definition isLessOrEqual :: "ordering \<Rightarrow> bool" where
  "isLessOrEqual r \<longleftrightarrow> isEqual r \<or> isLess r"

type_synonym 'a comparator = "'a \<Rightarrow> 'a \<Rightarrow> ordering"

lemma ordering_tests [simp]:
  "isLess r \<longleftrightarrow> r = Less" "isGreater r \<longleftrightarrow> r = Greater" "isEqual r \<longleftrightarrow> r = Equal"
  "isNotEqual r \<longleftrightarrow> r \<noteq> Equal" "isGreaterOrEqual r \<longleftrightarrow> r \<noteq> Less" "isLessOrEqual r \<longleftrightarrow> r \<noteq> Greater"
  by (cases r; simp add: isLess_def isGreater_def isEqual_def isNotEqual_def isGreaterOrEqual_def
      isLessOrEqual_def)+

lemma ordering_value_le_0 [simp]: "ordering_value r \<le> 0 \<longleftrightarrow> r \<noteq> Greater"
  by (cases r) auto

section \<open>Comparators\<close>

text \<open>What the collections ask of a comparator: a total preorder, consistent in both directions.\<close>

locale total_comparator =
  fixes cmp :: "'a comparator"
  assumes cmp_refl: "cmp a a = Equal"
    and cmp_swap: "cmp a b = Less \<longleftrightarrow> cmp b a = Greater"
    and cmp_trans: "cmp a b \<noteq> Greater \<Longrightarrow> cmp b c \<noteq> Greater \<Longrightarrow> cmp a c \<noteq> Greater"
begin

lemma equal_sym: "cmp a b = Equal \<longleftrightarrow> cmp b a = Equal"
  by (metis cmp_swap ordering.exhaust)

lemma not_greater_iff: "cmp a b \<noteq> Greater \<longleftrightarrow> cmp b a \<noteq> Less"
  using cmp_swap by blast

lemma less_trans_weak:
  "cmp a b = Less \<Longrightarrow> cmp b c \<noteq> Greater \<Longrightarrow> cmp a c = Less"
  "cmp a b \<noteq> Greater \<Longrightarrow> cmp b c = Less \<Longrightarrow> cmp a c = Less"
  by (metis cmp_swap cmp_trans ordering.distinct(3) ordering.exhaust)+

lemma equal_cong:
  assumes "cmp a b = Equal"
  shows "cmp a c = cmp b c" "cmp c a = cmp c b"
proof -
  have ba: "cmp b a = Equal" using assms equal_sym by blast
  show "cmp a c = cmp b c"
    by (metis assms ba cmp_swap cmp_trans less_trans_weak(2) ordering.exhaust ordering.distinct(5))
  then show "cmp c a = cmp c b"
    by (metis cmp_swap equal_sym ordering.exhaust)
qed

lemma equal_trans: "cmp a b = Equal \<Longrightarrow> cmp b c = Equal \<Longrightarrow> cmp a c = Equal"
  using equal_cong(1) by metis

end

text \<open>Sorted with duplicates, and strictly sorted.\<close>

definition sorted_cmp :: "'a comparator \<Rightarrow> 'a list \<Rightarrow> bool" where
  "sorted_cmp cmp xs \<longleftrightarrow> sorted_wrt (\<lambda>a b. cmp a b \<noteq> Greater) xs"

definition strict_cmp :: "'a comparator \<Rightarrow> 'a list \<Rightarrow> bool" where
  "strict_cmp cmp xs \<longleftrightarrow> sorted_wrt (\<lambda>a b. cmp a b = Less) xs"

lemma strict_cmp_sorted: "strict_cmp cmp xs \<Longrightarrow> sorted_cmp cmp xs"
  unfolding strict_cmp_def sorted_cmp_def by (rule sorted_wrt_mono_rel) auto

lemma sorted_cmp_simps [simp]:
  "sorted_cmp cmp []" "sorted_cmp cmp [x]"
  "sorted_cmp cmp (x # xs) \<longleftrightarrow> (\<forall>y \<in> set xs. cmp x y \<noteq> Greater) \<and> sorted_cmp cmp xs"
  "strict_cmp cmp []"
  "strict_cmp cmp (x # xs) \<longleftrightarrow> (\<forall>y \<in> set xs. cmp x y = Less) \<and> strict_cmp cmp xs"
  by (auto simp: sorted_cmp_def strict_cmp_def)

lemma sorted_cmp_append:
  "sorted_cmp cmp (xs @ ys) \<longleftrightarrow>
    sorted_cmp cmp xs \<and> sorted_cmp cmp ys \<and> (\<forall>x \<in> set xs. \<forall>y \<in> set ys. cmp x y \<noteq> Greater)"
  "strict_cmp cmp (xs @ ys) \<longleftrightarrow>
    strict_cmp cmp xs \<and> strict_cmp cmp ys \<and> (\<forall>x \<in> set xs. \<forall>y \<in> set ys. cmp x y = Less)"
  by (auto simp: sorted_cmp_def strict_cmp_def sorted_wrt_append)

section \<open>\<open>Array.sort\<close>\<close>

text \<open>
  \<open>data.sort((a, b) => comparator(a, b).value)\<close> is stable, so for a consistent comparator its
  result is that of insertion sort.
\<close>

fun sort_insert :: "'a comparator \<Rightarrow> 'a \<Rightarrow> 'a list \<Rightarrow> 'a list" where
  "sort_insert cmp x [] = [x]"
| "sort_insert cmp x (y # ys) = (if ordering_value (cmp x y) \<le> 0 then x # y # ys else y # sort_insert cmp x ys)"

definition array_sort :: "'a comparator \<Rightarrow> 'a list \<Rightarrow> 'a list" where
  "array_sort cmp xs = foldr (sort_insert cmp) xs []"

lemma mset_sort_insert [simp]: "mset (sort_insert cmp x xs) = add_mset x (mset xs)"
  by (induction xs) auto

lemma set_sort_insert [simp]: "set (sort_insert cmp x xs) = insert x (set xs)"
  by (metis mset_sort_insert set_mset_add_mset_insert set_mset_mset)

lemma mset_array_sort [simp]: "mset (array_sort cmp xs) = mset xs"
  by (induction xs) (auto simp: array_sort_def)

lemma set_array_sort [simp]: "set (array_sort cmp xs) = set xs"
  by (metis mset_array_sort set_mset_mset)

lemma length_array_sort [simp]: "length (array_sort cmp xs) = length xs"
  by (metis mset_array_sort size_mset)

context total_comparator begin

lemma sorted_sort_insert: "sorted_cmp cmp xs \<Longrightarrow> sorted_cmp cmp (sort_insert cmp x xs)"
proof (induction xs)
  case Nil
  then show ?case by simp
next
  case (Cons y ys)
  show ?case
  proof (cases "cmp x y = Greater")
    case True
    then have "cmp y x \<noteq> Greater" using cmp_swap by force
    with Cons True show ?thesis by auto
  next
    case False
    then have "\<forall>z \<in> set ys. cmp x z \<noteq> Greater" using Cons.prems cmp_trans by auto
    with False Cons.prems show ?thesis by auto
  qed
qed

lemma sorted_array_sort: "sorted_cmp cmp (array_sort cmp xs)"
  by (induction xs) (auto simp: array_sort_def intro: sorted_sort_insert)

text \<open>Stability: equal elements stay in their order.\<close>

lemma filter_sort_insert:
  "filter (\<lambda>y. cmp y k = Equal) (sort_insert cmp x xs) =
    (if cmp x k = Equal then x # filter (\<lambda>y. cmp y k = Equal) xs else filter (\<lambda>y. cmp y k = Equal) xs)"
proof (induction xs)
  case Nil
  then show ?case by simp
next
  case (Cons y ys)
  have "cmp x y = Greater \<Longrightarrow> \<not> (cmp x k = Equal \<and> cmp y k = Equal)"
    using equal_cong(2) by (metis equal_sym ordering.distinct(5))
  with Cons show ?case by auto
qed

lemma array_sort_stable:
  "filter (\<lambda>y. cmp y k = Equal) (array_sort cmp xs) = filter (\<lambda>y. cmp y k = Equal) xs"
  by (induction xs) (auto simp: array_sort_def filter_sort_insert)

text \<open>Adjacent comparisons, which is what the code tests, are enough.\<close>

lemma sorted_adjacent:
  "sorted_cmp cmp xs \<longleftrightarrow> (\<forall>i. Suc i < length xs \<longrightarrow> cmp (xs ! i) (xs ! Suc i) \<noteq> Greater)"
proof -
  have "transp (\<lambda>a b. cmp a b \<noteq> Greater)" by (rule transpI) (rule cmp_trans)
  then show ?thesis unfolding sorted_cmp_def by (rule sorted_wrt_iff_nth_Suc_transp)
qed

lemma strict_adjacent:
  "strict_cmp cmp xs \<longleftrightarrow> (\<forall>i. Suc i < length xs \<longrightarrow> cmp (xs ! i) (xs ! Suc i) = Less)"
proof -
  have "transp (\<lambda>a b. cmp a b = Less)" by (rule transpI) (auto intro: less_trans_weak(1))
  then show ?thesis unfolding strict_cmp_def by (rule sorted_wrt_iff_nth_Suc_transp)
qed

lemma strict_distinct: "strict_cmp cmp xs \<Longrightarrow> distinct xs"
  by (induction xs) (auto simp: cmp_refl)

end

end
