(* ===== verification/SortedCollections.thy ===== *)
theory SortedCollections
  imports Ordering
begin

text \<open>
  The sorted collections, \<open>packages/core/collections/sorted-array.ts\<close> and \<open>sorted-set.ts\<close>: an
  array kept sorted by a comparator, with lookup by binary search. A collection is its \<open>array\<close>;
  the comparator it holds is an argument of every operation (so the check of the merging
  functions, that both collections hold the same comparator, is an identity of the model).
  A mutating method returns the new array, with its result where it has one. Array lengths stay far
  below \<open>2 ^ 30\<close>, so \<open>(high + low) >> 1\<close> halves the sum.
\<close>

record search_result =
  at_idx :: nat
  is_found :: bool

section \<open>\<open>SortedArray\<close>\<close>

function binary_search_loop :: "'a comparator \<Rightarrow> 'a list \<Rightarrow> 'a \<Rightarrow> nat \<Rightarrow> nat \<Rightarrow> search_result" where
  "binary_search_loop cmp arr v low high =
    (if low < high then
       let mid = (high + low) div 2; r = cmp (arr ! mid) v in
       if isEqual r then \<lparr>at_idx = mid, is_found = True\<rparr>
       else if isLess r then binary_search_loop cmp arr v (mid + 1) high
       else binary_search_loop cmp arr v low mid
     else \<lparr>at_idx = low, is_found = False\<rparr>)"
  by pat_completeness auto
termination by (relation "measure (\<lambda>(cmp, arr, v, low, high). high - low)") auto

declare binary_search_loop.simps [simp del]

definition binarySearch :: "'a comparator \<Rightarrow> 'a list \<Rightarrow> 'a \<Rightarrow> search_result" where
  "binarySearch cmp arr v = binary_search_loop cmp arr v 0 (length arr)"

text \<open>\<open>splice(i, 0, v)\<close>, \<open>splice(i, 1)\<close> and \<open>splice(i, 1, v)\<close> at an index of the array.\<close>

definition splice_insert :: "nat \<Rightarrow> 'a \<Rightarrow> 'a list \<Rightarrow> 'a list" where
  "splice_insert i v xs = take i xs @ v # drop i xs"

definition splice_remove :: "nat \<Rightarrow> 'a list \<Rightarrow> 'a list" where
  "splice_remove i xs = take i xs @ drop (i + 1) xs"

definition sa_fromArray :: "'a comparator \<Rightarrow> 'a list \<Rightarrow> 'a list" where
  "sa_fromArray cmp arr = array_sort cmp arr"

fun check_sorted_from :: "'a comparator \<Rightarrow> (ordering \<Rightarrow> bool) \<Rightarrow> 'a list \<Rightarrow> nat \<Rightarrow> nat \<Rightarrow> bool" where
  "check_sorted_from cmp bad d i 0 = True"
| "check_sorted_from cmp bad d i (Suc n) =
    (if bad (cmp (d ! (i - 1)) (d ! i)) then False else check_sorted_from cmp bad d (Suc i) n)"

definition sa_fromSortedArray :: "'a comparator \<Rightarrow> 'a list \<Rightarrow> 'a list throws" where
  "sa_fromSortedArray cmp arr =
    (if length arr = 0 then Inr []
     else if check_sorted_from cmp isGreater arr 1 (length arr - 1) then Inr arr
     else Inl GenericError)"

definition sa_insert :: "'a comparator \<Rightarrow> 'a \<Rightarrow> 'a list \<Rightarrow> 'a list" where
  "sa_insert cmp v arr = splice_insert (at_idx (binarySearch cmp arr v)) v arr"

definition sa_pop :: "'a list \<Rightarrow> 'a option \<times> 'a list" where
  "sa_pop arr = (if arr = [] then (None, []) else (Some (last arr), butlast arr))"

definition sa_findIndex :: "'a comparator \<Rightarrow> 'a list \<Rightarrow> 'a \<Rightarrow> int" where
  "sa_findIndex cmp arr v =
    (let findIdx = binarySearch cmp arr v in if is_found findIdx then int (at_idx findIdx) else - 1)"

definition sa_findExact :: "'a comparator \<Rightarrow> 'a list \<Rightarrow> 'a \<Rightarrow> 'a option" where
  "sa_findExact cmp arr v =
    (let findIdx = binarySearch cmp arr v in if is_found findIdx then Some (arr ! at_idx findIdx) else None)"

definition sa_removeOne :: "'a comparator \<Rightarrow> 'a \<Rightarrow> 'a list \<Rightarrow> 'a option \<times> 'a list" where
  "sa_removeOne cmp v arr =
    (let findIdx = binarySearch cmp arr v in
     if is_found findIdx then (Some (arr ! at_idx findIdx), splice_remove (at_idx findIdx) arr) else (None, arr))"

definition sa_has :: "'a comparator \<Rightarrow> 'a list \<Rightarrow> 'a \<Rightarrow> bool" where
  "sa_has cmp arr v = is_found (binarySearch cmp arr v)"

text \<open>The three loops of the merge; \<open>result\<close> is filled from its start.\<close>

fun merge_loop :: "'a comparator \<Rightarrow> 'a list \<Rightarrow> 'a list \<Rightarrow> 'a list" where
  "merge_loop cmp (x # xs) (y # ys) =
    (if isLess (cmp x y) then x # merge_loop cmp xs (y # ys)
     else if isGreater (cmp x y) then y # merge_loop cmp (x # xs) ys
     else x # y # merge_loop cmp xs ys)"
| "merge_loop cmp xs [] = xs"
| "merge_loop cmp [] ys = ys"

definition sa_fromTwoSortedCollections :: "'a comparator \<Rightarrow> 'a list \<Rightarrow> 'a list \<Rightarrow> 'a list throws" where
  "sa_fromTwoSortedCollections cmp arr1 arr2 = sa_fromSortedArray cmp (merge_loop cmp arr1 arr2)"

section \<open>\<open>SortedSet\<close>\<close>

fun non_duplicates :: "'a comparator \<Rightarrow> 'a \<Rightarrow> 'a list \<Rightarrow> 'a list" where
  "non_duplicates cmp prev [] = []"
| "non_duplicates cmp prev (x # xs) =
    (if \<not> isEqual (cmp prev x) then x # non_duplicates cmp x xs else non_duplicates cmp x xs)"

definition ss_fromArray :: "'a comparator \<Rightarrow> 'a list \<Rightarrow> 'a list" where
  "ss_fromArray cmp arr =
    (case array_sort cmp arr of [] \<Rightarrow> [] | x # xs \<Rightarrow> x # non_duplicates cmp x xs)"

definition ss_fromArrayUnique :: "'a comparator \<Rightarrow> 'a list \<Rightarrow> 'a list throws" where
  "ss_fromArrayUnique cmp arr =
    (let d = array_sort cmp arr in
     if check_sorted_from cmp isEqual d 1 (length d - 1) then Inr d else Inl GenericError)"

definition ss_fromSortedArray :: "'a comparator \<Rightarrow> 'a list \<Rightarrow> 'a list throws" where
  "ss_fromSortedArray cmp arr =
    (if length arr = 0 then Inr []
     else if check_sorted_from cmp isGreaterOrEqual arr 1 (length arr - 1) then Inr arr
     else Inl GenericError)"

definition ss_insert :: "'a comparator \<Rightarrow> 'a \<Rightarrow> 'a list \<Rightarrow> 'a list" where
  "ss_insert cmp v arr =
    (let findIdx = binarySearch cmp arr v in
     if \<not> is_found findIdx then splice_insert (at_idx findIdx) v arr else arr)"

definition ss_replace :: "'a comparator \<Rightarrow> 'a \<Rightarrow> 'a list \<Rightarrow> 'a option \<times> 'a list" where
  "ss_replace cmp v arr =
    (let findIdx = binarySearch cmp arr v in
     if is_found findIdx then (Some (arr ! at_idx findIdx), arr[at_idx findIdx := v])
     else (None, splice_insert (at_idx findIdx) v arr))"

text \<open>
  The merged array is deduplicated in place: element \<open>i\<close> is compared with its old predecessor and
  kept elements move down to index \<open>j\<close>, which never passes \<open>i\<close>.
\<close>

fun dedup_loop :: "'a comparator \<Rightarrow> 'a list \<Rightarrow> nat \<Rightarrow> nat \<Rightarrow> nat \<Rightarrow> 'a list \<times> nat" where
  "dedup_loop cmp a i j 0 = (a, j)"
| "dedup_loop cmp a i j (Suc n) =
    (if isNotEqual (cmp (a ! (i - 1)) (a ! i)) then dedup_loop cmp (a[j := a ! i]) (Suc i) (Suc j) n
     else dedup_loop cmp a (Suc i) j n)"

definition ss_fromTwoSortedCollections :: "'a comparator \<Rightarrow> 'a list \<Rightarrow> 'a list \<Rightarrow> 'a list throws" where
  "ss_fromTwoSortedCollections cmp arr1 arr2 =
    (if length arr1 = 0 then ss_fromSortedArray cmp arr2
     else if length arr2 = 0 then ss_fromSortedArray cmp arr1
     else bindE (sa_fromTwoSortedCollections cmp arr1 arr2) (\<lambda>merged.
       let (a, j) = dedup_loop cmp merged 1 1 (length merged - 1) in
       ss_fromSortedArray cmp (take j a)))"

section \<open>Binary search\<close>

text \<open>A value is present when the array has an element the comparator calls equal.\<close>

definition present :: "'a comparator \<Rightarrow> 'a \<Rightarrow> 'a list \<Rightarrow> bool" where
  "present cmp v arr \<longleftrightarrow> (\<exists>x \<in> set arr. cmp x v = Equal)"

lemma nth_splice_insert:
  "i \<le> length xs \<Longrightarrow> j < Suc (length xs) \<Longrightarrow>
    splice_insert i v xs ! j = (if j < i then xs ! j else if j = i then v else xs ! (j - 1))"
  by (auto simp: splice_insert_def nth_append min_def nth_Cons' less_Suc_eq)

lemma mset_splice_insert [simp]: "mset (splice_insert i v xs) = add_mset v (mset xs)"
  unfolding splice_insert_def by (metis append_take_drop_id mset_append mset.simps(2) union_mset_add_mset_right)

lemma set_splice_insert [simp]: "set (splice_insert i v xs) = insert v (set xs)"
  by (metis mset_splice_insert set_mset_add_mset_insert set_mset_mset)

lemma mset_splice_remove: "i < length xs \<Longrightarrow> add_mset (xs ! i) (mset (splice_remove i xs)) = mset xs"
  unfolding splice_remove_def
  by (metis Suc_eq_plus1 id_take_nth_drop mset_append mset.simps(2) union_mset_add_mset_right)

context total_comparator begin

lemma sorted_cmp_nth:
  "sorted_cmp cmp arr \<Longrightarrow> i \<le> j \<Longrightarrow> j < length arr \<Longrightarrow> cmp (arr ! i) (arr ! j) \<noteq> Greater"
  unfolding sorted_cmp_def using sorted_wrt_nth_less [of "\<lambda>a b. cmp a b \<noteq> Greater" arr i j] cmp_refl
  by (cases "i = j") auto

definition search_ok :: "'a list \<Rightarrow> 'a \<Rightarrow> search_result \<Rightarrow> bool" where
  "search_ok arr v r \<longleftrightarrow>
    (if is_found r then at_idx r < length arr \<and> cmp (arr ! at_idx r) v = Equal
     else at_idx r \<le> length arr \<and> (\<forall>i < at_idx r. cmp (arr ! i) v = Less) \<and>
       (\<forall>i < length arr. at_idx r \<le> i \<longrightarrow> cmp (arr ! i) v = Greater))"

lemma binary_search_loop_ok:
  assumes "sorted_cmp cmp arr" "low \<le> high" "high \<le> length arr"
    "\<forall>i < low. cmp (arr ! i) v = Less" "\<forall>i < length arr. high \<le> i \<longrightarrow> cmp (arr ! i) v = Greater"
  shows "search_ok arr v (binary_search_loop cmp arr v low high)"
  using assms(2-5)
proof (induction "high - low" arbitrary: low high rule: less_induct)
  case less
  define mid where "mid = (high + low) div 2"
  show ?case
  proof (cases "low < high")
    case False
    then have "binary_search_loop cmp arr v low high = \<lparr>at_idx = low, is_found = False\<rparr>"
      by (simp add: binary_search_loop.simps)
    with False less.prems show ?thesis by (simp add: search_ok_def)
  next
    case True
    then have mid: "low \<le> mid" "mid < high" by (auto simp: mid_def)
    show ?thesis
    proof (cases "cmp (arr ! mid) v")
      case Equal
      with True mid less.prems(2) show ?thesis
        by (simp add: binary_search_loop.simps [of cmp arr v low] search_ok_def Let_def mid_def [symmetric])
    next
      case Less
      have "cmp (arr ! i) v = Less" if "i < Suc mid" for i
        using sorted_cmp_nth [OF assms(1), of i mid] that mid less.prems(2) Less less_trans_weak(2) by simp
      then have "search_ok arr v (binary_search_loop cmp arr v (Suc mid) high)"
        using mid less.prems by (intro less.hyps) auto
      with True Less show ?thesis
        by (simp add: binary_search_loop.simps [of cmp arr v low] Let_def mid_def [symmetric])
    next
      case Greater
      have "cmp (arr ! i) v = Greater" if "mid \<le> i" "i < length arr" for i
        using sorted_cmp_nth [OF assms(1) that] Greater cmp_swap less_trans_weak(1) by meson
      then have "search_ok arr v (binary_search_loop cmp arr v low mid)"
        using mid less.prems by (intro less.hyps) auto
      with True Greater show ?thesis
        by (simp add: binary_search_loop.simps [of cmp arr v low] Let_def mid_def [symmetric])
    qed
  qed
qed

lemma binarySearch_ok: "sorted_cmp cmp arr \<Longrightarrow> search_ok arr v (binarySearch cmp arr v)"
  unfolding binarySearch_def by (rule binary_search_loop_ok) auto

lemma found_iff: "sorted_cmp cmp arr \<Longrightarrow> is_found (binarySearch cmp arr v) \<longleftrightarrow> present cmp v arr"
  using binarySearch_ok [of arr v] by (force simp: search_ok_def present_def in_set_conv_nth split: if_splits)

text \<open>Where the search ends, the value fits.\<close>

lemma search_place:
  assumes "sorted_cmp cmp arr"
    and k_def: "k = at_idx (binarySearch cmp arr v)"
  shows "k \<le> length arr" "\<forall>x \<in> set (take k arr). cmp x v \<noteq> Greater" "\<forall>x \<in> set (drop k arr). cmp v x \<noteq> Greater"
    "\<not> is_found (binarySearch cmp arr v) \<Longrightarrow> \<forall>x \<in> set (take k arr). cmp x v = Less"
    "\<not> is_found (binarySearch cmp arr v) \<Longrightarrow> \<forall>x \<in> set (drop k arr). cmp v x = Less"
proof -
  have ok: "search_ok arr v (binarySearch cmp arr v)" by (rule binarySearch_ok [OF assms(1)])
  show le: "k \<le> length arr" using ok by (auto simp: search_ok_def k_def split: if_splits)
  have *: "i < k \<Longrightarrow> cmp (arr ! i) v \<noteq> Greater \<and> (\<not> is_found (binarySearch cmp arr v) \<longrightarrow> cmp (arr ! i) v = Less)" for i
    using ok sorted_cmp_nth [OF assms(1), of i k] equal_cong(2) le
    by (auto simp: search_ok_def k_def split: if_splits)
  have **: "k \<le> i \<Longrightarrow> i < length arr \<Longrightarrow>
      cmp v (arr ! i) \<noteq> Greater \<and> (\<not> is_found (binarySearch cmp arr v) \<longrightarrow> cmp v (arr ! i) = Less)" for i
  proof -
    assume i: "k \<le> i" "i < length arr"
    show ?thesis
    proof (cases "is_found (binarySearch cmp arr v)")
      case True
      then have "cmp (arr ! k) v = Equal" using ok by (simp add: search_ok_def k_def)
      then have "cmp v (arr ! i) = cmp (arr ! k) (arr ! i)" by (rule equal_cong(1) [symmetric])
      with True sorted_cmp_nth [OF assms(1) i] show ?thesis by simp
    next
      case False
      then have "cmp (arr ! i) v = Greater" using ok i by (simp add: search_ok_def k_def)
      then have "cmp v (arr ! i) = Less" using cmp_swap by blast
      then show ?thesis by simp
    qed
  qed
  show "\<forall>x \<in> set (take k arr). cmp x v \<noteq> Greater" using * le by (auto simp: in_set_conv_nth)
  show "\<forall>x \<in> set (drop k arr). cmp v x \<noteq> Greater" using ** by (auto simp: in_set_conv_nth)
  show "\<not> is_found (binarySearch cmp arr v) \<Longrightarrow> \<forall>x \<in> set (take k arr). cmp x v = Less"
    using * le by (auto simp: in_set_conv_nth)
  show "\<not> is_found (binarySearch cmp arr v) \<Longrightarrow> \<forall>x \<in> set (drop k arr). cmp v x = Less"
    using ** by (auto simp: in_set_conv_nth)
qed

end

section \<open>The sorted array\<close>

lemma check_sorted_from_iff:
  "0 < i \<Longrightarrow> i + n = length d \<Longrightarrow>
    check_sorted_from cmp bad d i n \<longleftrightarrow> (\<forall>k. i \<le> Suc k \<longrightarrow> Suc k < length d \<longrightarrow> \<not> bad (cmp (d ! k) (d ! Suc k)))"
proof (induction n arbitrary: i)
  case 0
  then show ?case by auto
next
  case (Suc n)
  then have "check_sorted_from cmp bad d (Suc i) n \<longleftrightarrow>
      (\<forall>k. Suc i \<le> Suc k \<longrightarrow> Suc k < length d \<longrightarrow> \<not> bad (cmp (d ! k) (d ! Suc k)))"
    by auto
  moreover obtain j where "i = Suc j" using Suc.prems by (cases i) auto
  ultimately show ?case using Suc.prems by (auto simp: le_less_Suc_eq dest: le_antisym) (metis Suc_leI le_neq_implies_less)
qed

lemma mset_merge_loop: "mset (merge_loop cmp xs ys) = mset xs + mset ys"
  by (induction cmp xs ys rule: merge_loop.induct) auto

lemma set_merge_loop [simp]: "set (merge_loop cmp xs ys) = set xs \<union> set ys"
  by (metis mset_merge_loop set_mset_mset set_mset_union)

context total_comparator begin

lemma sa_fromSortedArray_eq:
  "sa_fromSortedArray cmp arr = (if sorted_cmp cmp arr then Inr arr else Inl GenericError)"
  using check_sorted_from_iff [of 1 "length arr - 1" arr cmp isGreater]
  by (cases "arr = []") (auto simp: sa_fromSortedArray_def sorted_adjacent Suc_le_eq)

lemma ss_fromSortedArray_eq:
  "ss_fromSortedArray cmp arr = (if strict_cmp cmp arr then Inr arr else Inl GenericError)"
proof -
  have "r \<noteq> Less \<longleftrightarrow> isGreaterOrEqual r" for r by simp
  then show ?thesis
    using check_sorted_from_iff [of 1 "length arr - 1" arr cmp isGreaterOrEqual]
    by (cases "arr = []") (auto simp: ss_fromSortedArray_def strict_adjacent Suc_le_eq)
qed

lemma sa_insert_sorted:
  assumes "sorted_cmp cmp arr"
  shows "sorted_cmp cmp (sa_insert cmp v arr)"
proof -
  define k where "k = at_idx (binarySearch cmp arr v)"
  note place = search_place [OF assms k_def]
  from assms have "sorted_cmp cmp (take k arr @ drop k arr)" by simp
  then have "sorted_cmp cmp (take k arr)" "sorted_cmp cmp (drop k arr)"
    "\<forall>x \<in> set (take k arr). \<forall>y \<in> set (drop k arr). cmp x y \<noteq> Greater"
    unfolding sorted_cmp_append by auto
  with place(2,3) show ?thesis
    by (simp add: sa_insert_def splice_insert_def k_def [symmetric] sorted_cmp_append)
qed

lemma sa_insert_mset: "mset (sa_insert cmp v arr) = add_mset v (mset arr)"
  by (simp add: sa_insert_def)

lemma sa_has_iff: "sorted_cmp cmp arr \<Longrightarrow> sa_has cmp arr v \<longleftrightarrow> present cmp v arr"
  by (simp add: sa_has_def found_iff)

lemma sa_findExact_eq:
  assumes "sorted_cmp cmp arr"
  shows "sa_findExact cmp arr v = None \<longleftrightarrow> \<not> present cmp v arr"
    "sa_findExact cmp arr v = Some x \<Longrightarrow> x \<in> set arr \<and> cmp x v = Equal"
  using binarySearch_ok [OF assms, of v] found_iff [OF assms, of v]
  by (auto simp: sa_findExact_def Let_def search_ok_def split: if_splits)

lemma sa_findIndex_eq:
  assumes "sorted_cmp cmp arr"
  shows "sa_findIndex cmp arr v = - 1 \<longleftrightarrow> \<not> present cmp v arr"
    "sa_findIndex cmp arr v = int i \<Longrightarrow> i < length arr \<and> cmp (arr ! i) v = Equal"
  using binarySearch_ok [OF assms, of v] found_iff [OF assms, of v]
  by (auto simp: sa_findIndex_def Let_def search_ok_def split: if_splits)

lemma sorted_splice_remove:
  "sorted_cmp cmp arr \<Longrightarrow> sorted_cmp cmp (splice_remove k arr)"
  "strict_cmp cmp arr \<Longrightarrow> strict_cmp cmp (splice_remove k arr)"
proof -
  have split: "take k arr @ drop k arr = arr" by simp
  have sub: "set (drop (k + 1) arr) \<subseteq> set (drop k arr)" by (simp add: set_drop_subset_set_drop)
  have tail: "P (drop k arr) \<Longrightarrow> (\<And>x xs. P (x # xs) \<Longrightarrow> P xs) \<Longrightarrow> P [] \<Longrightarrow> P (drop (k + 1) arr)" for P
    by (cases "drop k arr") (auto simp flip: tl_drop drop_Suc simp: drop_Suc)
  show "sorted_cmp cmp arr \<Longrightarrow> sorted_cmp cmp (splice_remove k arr)"
    using sub tail [of "sorted_cmp cmp"] sorted_cmp_append(1) [of cmp "take k arr" "drop k arr"]
    by (auto simp: splice_remove_def sorted_cmp_append split)
  show "strict_cmp cmp arr \<Longrightarrow> strict_cmp cmp (splice_remove k arr)"
    using sub tail [of "strict_cmp cmp"] sorted_cmp_append(2) [of cmp "take k arr" "drop k arr"]
    by (auto simp: splice_remove_def sorted_cmp_append split)
qed

lemma sa_removeOne_eq:
  assumes "sorted_cmp cmp arr"
  shows "\<not> present cmp v arr \<Longrightarrow> sa_removeOne cmp v arr = (None, arr)"
    "present cmp v arr \<Longrightarrow> \<exists>x arr'. sa_removeOne cmp v arr = (Some x, arr') \<and> cmp x v = Equal \<and>
      sorted_cmp cmp arr' \<and> add_mset x (mset arr') = mset arr"
  using binarySearch_ok [OF assms, of v] found_iff [OF assms, of v] sorted_splice_remove(1) [OF assms]
  by (auto simp: sa_removeOne_def Let_def search_ok_def mset_splice_remove)


lemma merge_loop_sorted:
  "sorted_cmp cmp xs \<Longrightarrow> sorted_cmp cmp ys \<Longrightarrow> sorted_cmp cmp (merge_loop cmp xs ys)"
proof (induction "length xs + length ys" arbitrary: xs ys rule: less_induct)
  case less
  show ?case
  proof (cases xs; cases ys)
    fix x xs' y ys'
    assume xy: "xs = x # xs'" "ys = y # ys'"
    have below: "cmp a b \<noteq> Greater \<Longrightarrow> \<forall>c \<in> set cs. cmp b c \<noteq> Greater \<Longrightarrow> \<forall>c \<in> set cs. cmp a c \<noteq> Greater"
      for a b cs using cmp_trans by blast
    have IH: "sorted_cmp cmp (merge_loop cmp xs' ys)" "sorted_cmp cmp (merge_loop cmp xs ys')"
      "sorted_cmp cmp (merge_loop cmp xs' ys')"
      using less xy by auto
    show ?thesis
    proof (cases "cmp x y")
      case Less
      with IH(1) less.prems xy below [of x y ys'] show ?thesis by auto
    next
      case Equal
      then have "cmp y x = Equal" using equal_sym by blast
      with Equal IH(3) less.prems xy below [of x y ys'] below [of y x xs'] show ?thesis by auto
    next
      case Greater
      then have "cmp y x = Less" using cmp_swap by blast
      with Greater IH(2) less.prems xy below [of y x xs'] show ?thesis by auto
    qed
  qed (use less.prems in auto)
qed

lemma sa_merge_eq:
  "sorted_cmp cmp xs \<Longrightarrow> sorted_cmp cmp ys \<Longrightarrow>
    sa_fromTwoSortedCollections cmp xs ys = Inr (merge_loop cmp xs ys)"
  by (simp add: sa_fromTwoSortedCollections_def sa_fromSortedArray_eq merge_loop_sorted)

end

section \<open>The sorted set\<close>

text \<open>Removing adjacent duplicates, as the code of \<open>fromArray\<close> does it: a list and its in-place form.\<close>

definition dedup :: "'a comparator \<Rightarrow> 'a list \<Rightarrow> 'a list" where
  "dedup cmp xs = (case xs of [] \<Rightarrow> [] | x # ys \<Rightarrow> x # non_duplicates cmp x ys)"

lemma dedup_loop_eq:
  assumes "0 < j" "j \<le> i" "i + n = length a"
  shows "\<exists>a'. dedup_loop cmp a i j n = (a', j + length (non_duplicates cmp (a ! (i - 1)) (drop i a))) \<and>
    take (j + length (non_duplicates cmp (a ! (i - 1)) (drop i a))) a' =
    take j a @ non_duplicates cmp (a ! (i - 1)) (drop i a) \<and> length a' = length a"
  using assms
proof (induction n arbitrary: a i j)
  case 0
  then show ?case by simp
next
  case (Suc n)
  then have drop: "drop i a = a ! i # drop (Suc i) a" by (simp add: Cons_nth_drop_Suc)
  show ?case
  proof (cases "cmp (a ! (i - 1)) (a ! i) = Equal")
    case True
    with Suc.IH [of j "Suc i" a] Suc.prems drop show ?thesis by simp
  next
    case False
    define b where "b = a[j := a ! i]"
    have b: "b ! i = a ! i" "drop (Suc i) b = drop (Suc i) a" "take (Suc j) b = take j a @ [a ! i]" "length b = length a"
      using Suc.prems by (auto simp: b_def nth_list_update take_Suc_conv_app_nth)
    have "dedup_loop cmp a i j (Suc n) = dedup_loop cmp b (Suc i) (Suc j) n"
      using False by (simp add: b_def)
    moreover define nd where "nd = non_duplicates cmp (b ! (Suc i - 1)) (drop (Suc i) b)"
    have "non_duplicates cmp (a ! (i - 1)) (drop i a) = a ! i # nd"
      using False drop b by (simp add: nd_def)
    moreover obtain a' where "dedup_loop cmp b (Suc i) (Suc j) n = (a', Suc j + length nd)"
      "take (Suc j + length nd) a' = take (Suc j) b @ nd" "length a' = length b"
      using Suc.IH [of "Suc j" "Suc i" b] Suc.prems(2,3) b(4) by (auto simp: nd_def)
    ultimately show ?thesis using b(3,4) by (intro exI [of _ a']) simp
  qed
qed

lemma dedup_in_place:
  assumes "a \<noteq> []" "dedup_loop cmp a 1 1 (length a - 1) = (a', j)"
  shows "take j a' = dedup cmp a"
  using dedup_loop_eq [of 1 1 "length a - 1" a cmp] assms by (cases a) (auto simp: dedup_def)

context total_comparator begin

lemma non_duplicates_subset: "set (non_duplicates cmp x xs) \<subseteq> set xs"
  by (induction xs arbitrary: x) auto

lemma non_duplicates_strict:
  assumes "sorted_cmp cmp (x # xs)"
  shows "strict_cmp cmp (x # non_duplicates cmp x xs)"
  using assms
proof (induction xs arbitrary: x)
  case Nil
  then show ?case by simp
next
  case (Cons y ys)
  then have IH: "strict_cmp cmp (y # non_duplicates cmp y ys)" by simp
  show ?case
  proof (cases "cmp x y = Equal")
    case True
    with IH show ?thesis using equal_cong(1) [OF True] by simp
  next
    case False
    then have xy: "cmp x y = Less" using Cons.prems by (auto intro: ordering.exhaust [of "cmp x y"])
    with IH False show ?thesis using less_trans_weak(1) [OF xy] by auto
  qed
qed

lemma non_duplicates_covers: "z \<in> set (x # xs) \<Longrightarrow> \<exists>w \<in> set (x # non_duplicates cmp x xs). cmp w z = Equal"
proof (induction xs arbitrary: x)
  case Nil
  then show ?case by (simp add: cmp_refl)
next
  case (Cons y ys)
  show ?case
  proof (cases "z = x")
    case True
    then show ?thesis by (auto simp: cmp_refl)
  next
    case False
    with Cons.prems have "z \<in> set (y # ys)" by simp
    from Cons.IH [OF this] obtain w where w: "w = y \<or> w \<in> set (non_duplicates cmp y ys)" "cmp w z = Equal"
      by auto
    show ?thesis
    proof (cases "cmp x y = Equal")
      case True
      then show ?thesis using w equal_trans [OF True] by auto
    next
      case False
      then show ?thesis using w by auto
    qed
  qed
qed

lemma dedup_spec:
  assumes "sorted_cmp cmp xs"
  shows "strict_cmp cmp (dedup cmp xs)" "set (dedup cmp xs) \<subseteq> set xs"
    "present cmp v (dedup cmp xs) \<longleftrightarrow> present cmp v xs"
proof -
  show "strict_cmp cmp (dedup cmp xs)"
    using non_duplicates_strict assms by (cases xs) (simp_all add: dedup_def del: sorted_cmp_simps(3,5))
  show sub: "set (dedup cmp xs) \<subseteq> set xs"
    using non_duplicates_subset by (cases xs) (auto simp: dedup_def)
  have "z \<in> set xs \<Longrightarrow> \<exists>w \<in> set (dedup cmp xs). cmp w z = Equal" for z
    using non_duplicates_covers by (cases xs) (auto simp: dedup_def)
  then show "present cmp v (dedup cmp xs) \<longleftrightarrow> present cmp v xs"
    using sub unfolding present_def by (meson equal_trans subsetD)
qed

lemma ss_fromArray_eq: "ss_fromArray cmp xs = dedup cmp (array_sort cmp xs)"
  by (simp add: ss_fromArray_def dedup_def)

lemma present_set: "set xs = set ys \<Longrightarrow> present cmp v xs \<longleftrightarrow> present cmp v ys"
  by (simp add: present_def)

lemma ss_fromArray_spec:
  "strict_cmp cmp (ss_fromArray cmp xs)" "set (ss_fromArray cmp xs) \<subseteq> set xs"
  "present cmp v (ss_fromArray cmp xs) \<longleftrightarrow> present cmp v xs"
  using dedup_spec [OF sorted_array_sort [of xs]] present_set [of "array_sort cmp xs" xs]
  by (auto simp: ss_fromArray_eq)

lemma ss_merge_spec:
  assumes "strict_cmp cmp xs" "strict_cmp cmp ys"
  shows "\<exists>zs. ss_fromTwoSortedCollections cmp xs ys = Inr zs \<and> strict_cmp cmp zs \<and>
    set zs \<subseteq> set xs \<union> set ys \<and> (\<forall>v. present cmp v zs \<longleftrightarrow> present cmp v xs \<or> present cmp v ys)"
proof (cases "xs = [] \<or> ys = []")
  case True
  with assms show ?thesis
    by (auto simp: ss_fromTwoSortedCollections_def ss_fromSortedArray_eq present_def)
next
  case False
  let ?m = "merge_loop cmp xs ys"
  have m: "sorted_cmp cmp ?m" using assms by (simp add: merge_loop_sorted strict_cmp_sorted)
  have ne: "?m \<noteq> []" using False set_merge_loop [of cmp xs ys] by (metis Un_empty set_empty)
  obtain a j where aj: "dedup_loop cmp ?m 1 1 (length ?m - 1) = (a, j)" by fastforce
  have "ss_fromTwoSortedCollections cmp xs ys = Inr (dedup cmp ?m)"
    using False assms dedup_in_place [OF ne aj] aj dedup_spec(1) [OF m]
    by (simp add: ss_fromTwoSortedCollections_def sa_merge_eq strict_cmp_sorted ss_fromSortedArray_eq)
  moreover have "present cmp v ?m \<longleftrightarrow> present cmp v xs \<or> present cmp v ys" for v
    by (auto simp: present_def)
  ultimately show ?thesis using dedup_spec [OF m] by auto
qed

lemma ss_insert_spec:
  assumes "strict_cmp cmp arr"
  shows "present cmp v arr \<Longrightarrow> ss_insert cmp v arr = arr"
    "\<not> present cmp v arr \<Longrightarrow> strict_cmp cmp (ss_insert cmp v arr) \<and>
      mset (ss_insert cmp v arr) = add_mset v (mset arr)"
proof -
  note sorted = strict_cmp_sorted [OF assms]
  show "present cmp v arr \<Longrightarrow> ss_insert cmp v arr = arr"
    using found_iff [OF sorted, of v] by (simp add: ss_insert_def Let_def)
  assume "\<not> present cmp v arr"
  then have nf: "\<not> is_found (binarySearch cmp arr v)" using found_iff [OF sorted] by simp
  define k where "k = at_idx (binarySearch cmp arr v)"
  note place = search_place(4,5) [OF sorted k_def nf]
  have "strict_cmp cmp (take k arr @ drop k arr)" using assms by simp
  then have "strict_cmp cmp (take k arr)" "strict_cmp cmp (drop k arr)"
    "\<forall>x \<in> set (take k arr). \<forall>y \<in> set (drop k arr). cmp x y = Less"
    unfolding sorted_cmp_append by auto
  with place nf have "strict_cmp cmp (ss_insert cmp v arr)"
    by (simp add: ss_insert_def Let_def splice_insert_def k_def [symmetric] sorted_cmp_append)
  then show "strict_cmp cmp (ss_insert cmp v arr) \<and> mset (ss_insert cmp v arr) = add_mset v (mset arr)"
    using nf by (simp add: ss_insert_def Let_def)
qed

lemma strict_update:
  assumes "strict_cmp cmp arr" "k < length arr" "cmp (arr ! k) v = Equal"
  shows "strict_cmp cmp (arr[k := v])"
  unfolding strict_cmp_def sorted_wrt_iff_nth_less
proof (intro allI impI)
  fix i j
  assume ij: "i < j" "j < length (arr[k := v])"
  with assms(1) have less: "cmp (arr ! i) (arr ! j) = Less"
    by (simp add: strict_cmp_def sorted_wrt_iff_nth_less)
  show "cmp (arr[k := v] ! i) (arr[k := v] ! j) = Less"
    using less ij equal_cong(1) [OF assms(3), of "arr ! j"] equal_cong(2) [OF assms(3), of "arr ! i"]
    by (cases "i = k"; cases "j = k") simp_all
qed

lemma ss_replace_spec:
  assumes "strict_cmp cmp arr" "ss_replace cmp v arr = (old, arr')"
  shows "strict_cmp cmp arr'" "v \<in> set arr'"
    "old = None \<longleftrightarrow> \<not> present cmp v arr"
    "old = Some x \<Longrightarrow> cmp x v = Equal \<and> add_mset x (mset arr') = add_mset v (mset arr)"
    "old = None \<Longrightarrow> mset arr' = add_mset v (mset arr)"
proof -
  note sorted = strict_cmp_sorted [OF assms(1)]
  have nf: "\<not> is_found (binarySearch cmp arr v) \<Longrightarrow> ss_replace cmp v arr = (None, ss_insert cmp v arr)"
    by (simp add: ss_replace_def ss_insert_def Let_def)
  note ok = binarySearch_ok [OF sorted, of v] and f = found_iff [OF sorted, of v]
  define k where "k = at_idx (binarySearch cmp arr v)"
  have fd: "is_found (binarySearch cmp arr v) \<Longrightarrow>
      k < length arr \<and> cmp (arr ! k) v = Equal \<and> ss_replace cmp v arr = (Some (arr ! k), arr[k := v])"
    using ok by (simp add: search_ok_def ss_replace_def Let_def k_def)
  show "strict_cmp cmp arr'"
    using nf fd assms f strict_update [of arr k v] ss_insert_spec(2) [of arr v]
    by (cases "is_found (binarySearch cmp arr v)") auto
  show "old = None \<longleftrightarrow> \<not> present cmp v arr" using nf fd assms f by (cases "is_found (binarySearch cmp arr v)") auto
  show "old = None \<Longrightarrow> mset arr' = add_mset v (mset arr)"
    using nf fd assms f ss_insert_spec(2) [of arr v] by (cases "is_found (binarySearch cmp arr v)") auto
  show *: "old = Some x \<Longrightarrow> cmp x v = Equal \<and> add_mset x (mset arr') = add_mset v (mset arr)"
    using nf fd assms f by (cases "is_found (binarySearch cmp arr v)") (auto simp: mset_update)
  show "v \<in> set arr'"
    using nf fd assms f ss_insert_spec(2) [of arr v] set_update_memI [of k arr v]
    by (cases "is_found (binarySearch cmp arr v)") (auto dest: arg_cong [where f = set_mset])
qed

end

end
