(* ===== verification/Blobs.thy ===== *)
theory Blobs
  imports JsNum Ordering
begin

text \<open>
  Byte blobs, \<open>packages/core/bytes/bytes.ts\<close>. A \<open>BytesBlob\<close> and a \<open>Bytes<N>\<close> are wrappers of
  one \<open>Uint8Array\<close> each, modelled as the byte list; the length checks of \<open>Bytes\<close> are its
  constructor's. Hex text is a HOL string of the code units. \<open>toStringTruncated\<close>, which only shortens a
  text for display, is left out.
\<close>

type_synonym blob = "byte list"

section \<open>Comparison\<close>

text \<open>The loop over the common prefix, then the lengths.\<close>

fun blob_compare_loop :: "nat \<Rightarrow> nat \<Rightarrow> blob \<Rightarrow> blob \<Rightarrow> ordering option" where
  "blob_compare_loop 0 i a b = None"
| "blob_compare_loop (Suc n) i a b =
    (if a ! i < b ! i then Some Less
     else if a ! i > b ! i then Some Greater
     else blob_compare_loop n (Suc i) a b)"

definition blob_compare :: "blob comparator" where
  "blob_compare a b =
    (case blob_compare_loop (min (length a) (length b)) 0 a b of
       Some r \<Rightarrow> r
     | None \<Rightarrow> if length a < length b then Less else if length a > length b then Greater else Equal)"

definition bytesBlobComparator :: "blob comparator" where
  "bytesBlobComparator a b = blob_compare a b"

fun u8ArraySameLengthEqual :: "nat \<Rightarrow> nat \<Rightarrow> blob \<Rightarrow> blob \<Rightarrow> bool" where
  "u8ArraySameLengthEqual 0 i a b = True"
| "u8ArraySameLengthEqual (Suc n) i a b = (if a ! i \<noteq> b ! i then False else u8ArraySameLengthEqual n (Suc i) a b)"

definition blob_isEqualTo :: "blob \<Rightarrow> blob \<Rightarrow> bool" where
  "blob_isEqualTo a b = (if length a \<noteq> length b then False else u8ArraySameLengthEqual (length a) 0 a b)"

definition bytes_isEqualTo :: "blob \<Rightarrow> blob \<Rightarrow> bool throws" where
  "bytes_isEqualTo a b = check (length a = length b) (Inr (u8ArraySameLengthEqual (length a) 0 a b))"

section \<open>Construction\<close>

text \<open>The constructor of \<open>Bytes\<close> checks the length of its buffer.\<close>

definition new_Bytes :: "blob \<Rightarrow> nat \<Rightarrow> blob throws" where
  "new_Bytes raw len = check (length raw = len) (Inr raw)"

definition bytes_fromBlob :: "blob \<Rightarrow> nat \<Rightarrow> blob throws" where
  "bytes_fromBlob v len = new_Bytes v len"

text \<open>\<open>new Uint8Array(v)\<close> of numbers; \<open>(x & 0xff) === x\<close> holds of the bytes only.\<close>

definition blobFromNumbers :: "int list \<Rightarrow> blob throws" where
  "blobFromNumbers v = check (\<forall>x \<in> set v. js_and x 255 = x) (Inr (map word_of_int v))"

definition bytes_fromNumbers :: "int list \<Rightarrow> nat \<Rightarrow> blob throws" where
  "bytes_fromNumbers v len =
    check (\<forall>x \<in> set v. js_and x 255 = x) (new_Bytes (map word_of_int v) len)"

definition bytes_zero :: "nat \<Rightarrow> blob" where
  "bytes_zero len = replicate len 0"

definition bytes_fill :: "nat \<Rightarrow> int \<Rightarrow> blob throws" where
  "bytes_fill len input = check (js_and input 255 = input) (Inr (replicate len (word_of_int input)))"

text \<open>The parts are copied one after the other into a buffer of their total length.\<close>

definition blobFromParts :: "blob list \<Rightarrow> blob" where
  "blobFromParts parts =
    fst (fold (\<lambda>r (buffer, off). (blit buffer off r, off + length r)) parts
      (replicate (sum_list (map length parts)) 0, 0))"

text \<open>\<open>chunks(size)\<close>, for a positive size: the last chunk may be shorter.\<close>

function blob_chunks_from :: "nat \<Rightarrow> nat \<Rightarrow> blob \<Rightarrow> blob list" where
  "blob_chunks_from k i b =
    (if i < length b \<and> 0 < k then subarray b i (i + k) # blob_chunks_from k (i + k) b else [])"
  by pat_completeness auto
termination by (relation "measure (\<lambda>(k, i, b). length b - i)") auto

declare blob_chunks_from.simps [simp del]

definition chunks :: "nat \<Rightarrow> blob \<Rightarrow> blob list" where
  "chunks k b = blob_chunks_from k 0 b"

section \<open>Hexadecimal text\<close>

definition char_code :: "char \<Rightarrow> int" where "char_code c = of_char c"

definition CODE_OF_0 :: int where "CODE_OF_0 = char_code CHR ''0''"
definition CODE_OF_9 :: int where "CODE_OF_9 = char_code CHR ''9''"
definition CODE_OF_a :: int where "CODE_OF_a = char_code CHR ''a''"
definition CODE_OF_f :: int where "CODE_OF_f = char_code CHR ''f''"
definition CODE_OF_A :: int where "CODE_OF_A = char_code CHR ''A''"
definition CODE_OF_F :: int where "CODE_OF_F = char_code CHR ''F''"
definition VALUE_OF_A :: int where "VALUE_OF_A = 10"

definition numberFromCharCode :: "int \<Rightarrow> int throws" where
  "numberFromCharCode x =
    (if x \<ge> CODE_OF_0 \<and> x \<le> CODE_OF_9 then Inr (x - CODE_OF_0)
     else if x \<ge> CODE_OF_a \<and> x \<le> CODE_OF_f then Inr (x - CODE_OF_a + VALUE_OF_A)
     else if x \<ge> CODE_OF_A \<and> x \<le> CODE_OF_F then Inr (x - CODE_OF_A + VALUE_OF_A)
     else Inl GenericError)"

definition byteFromString :: "string \<Rightarrow> int throws" where
  "byteFromString s = check (length s = 2)
    (bindE (numberFromCharCode (char_code (s ! 0))) (\<lambda>a.
     bindE (numberFromCharCode (char_code (s ! 1))) (\<lambda>b. Inr (js_or (js_shl a 4) b))))"

definition nibbleToString :: "int \<Rightarrow> char" where
  "nibbleToString n =
    (if n \<ge> VALUE_OF_A then char_of (n + CODE_OF_a - VALUE_OF_A) else char_of (n + CODE_OF_0))"

definition bytesToHexString :: "blob \<Rightarrow> string" where
  "bytesToHexString buffer =
    fold (\<lambda>v s. s @ [nibbleToString (js_ushr (uint v) 4)] @ [nibbleToString (js_and (uint v) 15)]) buffer ''0x''"

fun parse_pairs :: "string \<Rightarrow> nat \<Rightarrow> nat \<Rightarrow> blob \<Rightarrow> blob throws" where
  "parse_pairs v 0 i acc = Inr acc"
| "parse_pairs v (Suc n) i acc =
    bindE (byteFromString (subarray v i (i + 2))) (\<lambda>c. parse_pairs v n (i + 2) (acc[i div 2 := word_of_int c]))"

definition parseBlobNoPrefix :: "string \<Rightarrow> blob throws" where
  "parseBlobNoPrefix v =
    (if length v mod 2 = 1 then Inl GenericError
     else parse_pairs v (length v div 2) 0 (replicate (length v div 2) 0))"

definition parseBlob :: "string \<Rightarrow> blob throws" where
  "parseBlob v = (if take 2 v \<noteq> ''0x'' then Inl GenericError else parseBlobNoPrefix (drop 2 v))"

definition parseBytesNoPrefix :: "string \<Rightarrow> nat \<Rightarrow> blob throws" where
  "parseBytesNoPrefix v len =
    (if length v > 2 * len then Inl GenericError
     else bindE (parseBlobNoPrefix v) (\<lambda>b. new_Bytes b len))"

definition parseBytes :: "string \<Rightarrow> nat \<Rightarrow> blob throws" where
  "parseBytes v len =
    (if length v > 2 * len + 2 then Inl GenericError
     else bindE (parseBlob v) (\<lambda>b. new_Bytes b len))"

section \<open>Lexicographic comparison\<close>

lemma blob_compare_loop_Cons [simp]:
  "blob_compare_loop n (Suc i) (x # a) (y # b) = blob_compare_loop n i a b"
  by (induction n arbitrary: i) auto

lemma blob_compare_simps [simp]:
  "blob_compare [] [] = Equal" "blob_compare [] (y # ys) = Less" "blob_compare (x # xs) [] = Greater"
  "blob_compare (x # xs) (y # ys) = (if x < y then Less else if x > y then Greater else blob_compare xs ys)"
  by (auto simp: blob_compare_def split: option.split)

lemma blob_compare_Equal: "blob_compare a b = Equal \<longleftrightarrow> a = b"
  by (induction a b rule: list_induct2') auto

lemma blob_compare_swap: "blob_compare a b = Less \<longleftrightarrow> blob_compare b a = Greater"
  by (induction a b rule: list_induct2') auto

lemma blob_compare_trans:
  "blob_compare a b \<noteq> Greater \<Longrightarrow> blob_compare b c \<noteq> Greater \<Longrightarrow> blob_compare a c \<noteq> Greater"
proof (induction a b arbitrary: c rule: list_induct2')
  case 1
  then show ?case by (cases c) auto
next
  case (2 x xs)
  then show ?case by simp
next
  case (3 y ys)
  then show ?case by (cases c) auto
next
  case (4 x xs y ys)
  then show ?case by (cases c) (auto split: if_splits)
qed

interpretation blob_cmp: total_comparator blob_compare
proof
  show "blob_compare a a = Equal" for a by (simp add: blob_compare_Equal)
  show "blob_compare a b = Less \<longleftrightarrow> blob_compare b a = Greater" for a b by (rule blob_compare_swap)
  show "blob_compare a b \<noteq> Greater \<Longrightarrow> blob_compare b c \<noteq> Greater \<Longrightarrow> blob_compare a c \<noteq> Greater"
    for a b c by (rule blob_compare_trans)
qed

lemma u8_equal_Cons [simp]:
  "u8ArraySameLengthEqual n (Suc i) (x # a) (y # b) = u8ArraySameLengthEqual n i a b"
  by (induction n arbitrary: i) auto

lemma u8_equal: "length a = n \<Longrightarrow> length b = n \<Longrightarrow> u8ArraySameLengthEqual n 0 a b \<longleftrightarrow> a = b"
proof (induction n arbitrary: a b)
  case 0
  then show ?case by simp
next
  case (Suc n)
  then show ?case by (cases a; cases b) auto
qed

lemma blob_isEqualTo_iff [simp]: "blob_isEqualTo a b \<longleftrightarrow> a = b"
  using u8_equal by (auto simp: blob_isEqualTo_def)

lemma bytes_isEqualTo_eq: "length a = length b \<Longrightarrow> bytes_isEqualTo a b = Inr (a = b)"
  by (simp add: bytes_isEqualTo_def u8_equal)

section \<open>Chunks and parts\<close>

lemma blob_chunks_from_drop:
  "0 < k \<Longrightarrow> blob_chunks_from k i b = chunks k (drop i b)"
proof (induction k i b rule: blob_chunks_from.induct)
  case (1 k i b)
  have shift: "0 < k \<Longrightarrow> blob_chunks_from k (j + n) c = blob_chunks_from k n (drop j c)" for j n c
  proof (induction k n "drop j c" rule: blob_chunks_from.induct)
    case (1 k n)
    show ?case
    proof (cases "n < length (drop j c)")
      case True
      then have "blob_chunks_from k (j + n + k) c = blob_chunks_from k (n + k) (drop j c)"
        using 1 by (simp add: add.assoc)
      with True 1(2) show ?thesis
        by (simp add: blob_chunks_from.simps [of k "j + n"] blob_chunks_from.simps [of k n]
            subarray_def add.commute add.left_commute)
    next
      case False
      then have "\<not> j + n < length c" by simp
      with False show ?thesis by (simp add: blob_chunks_from.simps [of k "j + n"] blob_chunks_from.simps [of k n])
    qed
  qed
  from shift [of i 0 b] 1(2) show ?case by (simp add: chunks_def)
qed

lemma chunks_step:
  assumes "0 < k"
  shows "chunks k b = (if b = [] then [] else take k b # chunks k (drop k b))"
  using assms blob_chunks_from_drop [OF assms, of k b]
  by (simp add: chunks_def [of k b] blob_chunks_from.simps [of k 0] subarray_def)

lemma chunks_Nil [simp]: "chunks k [] = []"
  by (simp add: chunks_def blob_chunks_from.simps)

lemma concat_chunks:
  assumes "0 < k"
  shows "concat (chunks k b) = b"
proof (induction b rule: length_induct)
  case (1 b)
  then show ?case using assms by (cases "b = []") (simp_all add: chunks_step [OF assms, of b])
qed

lemma length_chunks:
  assumes "0 < k"
  shows "length (chunks k b) = (length b + k - 1) div k"
proof (induction b rule: length_induct)
  case (1 b)
  show ?case
  proof (cases "length b \<le> k")
    case True
    then have "(length b + k - 1) div k = (if b = [] then 0 else 1)"
      using assms by (cases b) (auto intro!: div_nat_eqI)
    then show ?thesis using assms True
      by (cases "b = []") (simp_all add: chunks_step [OF assms, of b])
  next
    case False
    then have "length (chunks k (drop k b)) = (length b - k + k - 1) div k" using 1 assms by auto
    with False assms show ?thesis
      by (auto simp: chunks_step [OF assms, of b] le_div_geq)
  qed
qed

lemma nth_chunks:
  assumes "0 < k" "i < length (chunks k b)"
  shows "chunks k b ! i = subarray b (i * k) (i * k + k)"
  using assms(2)
proof (induction i arbitrary: b)
  case 0
  then show ?case by (subst chunks_step [OF assms(1)]) (auto simp: subarray_def chunks_step [OF assms(1)])
next
  case (Suc i)
  then have "b \<noteq> []" by (auto simp: chunks_step [OF assms(1)])
  with Suc.prems have "i < length (chunks k (drop k b))" by (simp add: chunks_step [OF assms(1), of b])
  with Suc.IH \<open>b \<noteq> []\<close> show ?case
    by (subst chunks_step [OF assms(1)]) (simp add: subarray_def add.commute)
qed

lemma blobFromParts_fold:
  "fold (\<lambda>r (buffer, off). (blit buffer off r, off + length r)) parts
     (acc @ replicate (sum_list (map length parts)) 0, length acc) =
   (acc @ concat parts, length acc + length (concat parts))"
proof (induction parts arbitrary: acc)
  case Nil
  then show ?case by simp
next
  case (Cons r rs)
  have "blit (acc @ replicate (length r + sum_list (map length rs)) 0) (length acc) r =
      (acc @ r) @ replicate (sum_list (map length rs)) 0"
    by (simp add: blit_def)
  then show ?case using Cons [of "acc @ r"] by simp
qed

lemma blobFromParts_concat: "blobFromParts parts = concat parts"
  using blobFromParts_fold [of parts "[]"] by (simp add: blobFromParts_def)

section \<open>Hexadecimal text\<close>

lemma nibble_cases:
  assumes "0 \<le> n" "n < (16 :: int)"
  shows "n \<in> {0, 1, 2, 3, 4, 5, 6, 7, 8, 9, 10, 11, 12, 13, 14, 15}"
  using assms by (simp only: insert_iff empty_iff) presburger

lemmas hex_codes = CODE_OF_0_def CODE_OF_9_def CODE_OF_a_def CODE_OF_f_def CODE_OF_A_def CODE_OF_F_def
  VALUE_OF_A_def

lemma number_of_nibble_all:
  "\<forall>n \<in> {0, 1, 2, 3, 4, 5, 6, 7, 8, 9, 10, 11, 12, 13, 14, 15}.
    numberFromCharCode (char_code (nibbleToString n)) = Inr n"
  by code_simp

lemma number_of_nibble: "0 \<le> n \<Longrightarrow> n < 16 \<Longrightarrow> numberFromCharCode (char_code (nibbleToString n)) = Inr n"
  using number_of_nibble_all nibble_cases by blast

lemma number_bounds:
  assumes "numberFromCharCode x = Inr n"
  shows "0 \<le> n \<and> n < 16"
  using assms by (auto simp: numberFromCharCode_def hex_codes char_code_def of_char_def split: if_splits)

lemma to_int32_small: "0 \<le> x \<Longrightarrow> x < 2147483648 \<Longrightarrow> to_int32 x = x"
  using to_int32_id [of x] by simp

lemma join_nibbles:
  assumes "0 \<le> a" "a < 16" "0 \<le> b" "b < 16"
  shows "js_or (js_shl a 4) b = a * 16 + b"
proof -
  have "js_shl a 4 = push_bit 4 a"
    using assms by (simp add: js_shl_def to_int32_def shift_count_def signed_take_bit_int_eq_self push_bit_eq_mult)
  moreover have "push_bit 4 a < 2 ^ 31" "0 \<le> push_bit 4 a"
    using assms by (simp_all add: push_bit_eq_mult)
  ultimately have "js_or (js_shl a 4) b = or (push_bit 4 a) b"
    using assms by (simp add: js_or_def to_int32_small)
  moreover have "and (push_bit 4 a) b = 0"
  proof -
    have "b = take_bit 4 b" using assms by (simp add: take_bit_int_eq_self)
    moreover have "and (push_bit 4 a) (take_bit 4 b) = 0"
      by (rule bit_eqI) (auto simp: bit_simps)
    ultimately show ?thesis by simp
  qed
  ultimately show ?thesis
    using plus_and_or [of "push_bit 4 a" b] by (simp add: push_bit_eq_mult)
qed

lemma high_nibble: "js_ushr (uint (v :: byte)) 4 = uint v div 16"
  using byte_bounds [of v] by (simp add: js_ushr_def to_uint32_def shift_count_def drop_bit_eq_div take_bit_int_eq_self)

lemma low_nibble: "js_and (uint (v :: byte)) 15 = uint v mod 16"
proof -
  have "js_and (uint v) 15 = and (uint v) (mask 4)"
    using byte_bounds [of v] by (simp add: js_and_def to_int32_small mask_eq_exp_minus_1)
  then show ?thesis by (simp add: take_bit_eq_mask [symmetric] take_bit_eq_mod)
qed

definition hex_byte :: "byte \<Rightarrow> string" where
  "hex_byte v = [nibbleToString (uint v div 16), nibbleToString (uint v mod 16)]"

lemma bytesToHexString_concat: "bytesToHexString b = ''0x'' @ concat (map hex_byte b)"
proof -
  have "fold (\<lambda>v s. s @ [nibbleToString (js_ushr (uint v) 4)] @ [nibbleToString (js_and (uint v) 15)]) b s =
      s @ concat (map hex_byte b)" for s
    by (induction b arbitrary: s) (auto simp: hex_byte_def high_nibble low_nibble)
  then show ?thesis by (simp add: bytesToHexString_def)
qed

lemma byteFromString_hex: "byteFromString (hex_byte v) = Inr (uint v)"
proof -
  have "uint v div 16 < 16" "0 \<le> uint v div 16" using byte_bounds [of v] by (simp_all add: pos_imp_zdiv_nonneg_iff)
  then show ?thesis using byte_bounds [of v]
    by (simp add: byteFromString_def hex_byte_def number_of_nibble join_nibbles)
qed

lemma byteFromString_bounds:
  assumes "byteFromString s = Inr n"
  shows "0 \<le> n \<and> n < 256"
proof -
  from assms obtain a b where ab: "numberFromCharCode (char_code (s ! 0)) = Inr a"
    "numberFromCharCode (char_code (s ! 1)) = Inr b" "n = js_or (js_shl a 4) b"
    by (auto simp: byteFromString_def bindE_Inr_iff)
  from number_bounds [OF ab(1)] number_bounds [OF ab(2)] ab(3) show ?thesis
    by (simp add: join_nibbles)
qed

text \<open>The loop of the parser, over pairs of characters.\<close>

primrec parse_bytes :: "string list \<Rightarrow> blob throws" where
  "parse_bytes [] = Inr []"
| "parse_bytes (s # ss) = bindE (byteFromString s) (\<lambda>c. bindE (parse_bytes ss) (\<lambda>cs. Inr (word_of_int c # cs)))"

fun pairs_of :: "string \<Rightarrow> string list" where
  "pairs_of (a # b # s) = [a, b] # pairs_of s"
| "pairs_of _ = []"

lemma parse_pairs_bytes:
  assumes "length v = 2 * n" "length pre = 2 * k" "length acc = k"
  shows "parse_pairs (pre @ v) n (2 * k) (acc @ replicate n 0) =
    bindE (parse_bytes (pairs_of v)) (\<lambda>bs. Inr (acc @ bs))"
  using assms
proof (induction n arbitrary: v pre k acc)
  case 0
  then show ?case by simp
next
  case (Suc n)
  then obtain a b w where v: "v = a # b # w" "length w = 2 * n"
    by (cases v; cases "tl v") auto
  have sub: "subarray (pre @ v) (2 * k) (2 * k + 2) = [a, b]"
    using Suc.prems v by (simp add: subarray_def)
  have "parse_pairs ((pre @ [a, b]) @ w) n (2 * Suc k) ((acc @ [word_of_int c]) @ replicate n 0) =
      bindE (parse_bytes (pairs_of w)) (\<lambda>bs. Inr ((acc @ [word_of_int c]) @ bs))" for c
    by (rule Suc.IH) (use Suc.prems v in auto)
  moreover have "(acc @ replicate (Suc n) 0)[k := c] = (acc @ [c]) @ replicate n 0" for c :: byte
    using Suc.prems by (simp add: list_update_append)
  ultimately show ?case
    using sub v by (cases "byteFromString [a, b]") (simp_all add: bindE_assoc)
qed

lemma parseBlobNoPrefix_eq:
  "parseBlobNoPrefix v = (if odd (length v) then Inl GenericError else parse_bytes (pairs_of v))"
proof (cases "odd (length v)")
  case True
  then show ?thesis by (simp add: parseBlobNoPrefix_def odd_iff_mod_2_eq_one)
next
  case False
  then obtain n where "length v = 2 * n" by (auto elim: evenE)
  with parse_pairs_bytes [of v n "[]" 0 "[]"] show ?thesis
    by (cases "parse_bytes (pairs_of v)") (simp_all add: parseBlobNoPrefix_def)
qed

lemma pairs_of_hex: "pairs_of (concat (map hex_byte b)) = map hex_byte b"
  by (induction b) (auto simp: hex_byte_def)

lemma parse_bytes_hex: "parse_bytes (map hex_byte b) = Inr b"
  by (induction b) (auto simp: byteFromString_hex)

lemma parseBlob_toString: "parseBlob (bytesToHexString b) = Inr b"
proof -
  have "even (length (concat (map hex_byte b)))" by (induction b) (auto simp: hex_byte_def)
  then show ?thesis
    by (simp add: parseBlob_def bytesToHexString_concat parseBlobNoPrefix_eq pairs_of_hex parse_bytes_hex)
qed

lemma parseBytes_toString:
  "parseBytes (bytesToHexString b) n = (if length b = n then Inr b else if length b > n then Inl GenericError
     else Inl AssertionFailure)"
proof -
  have "length (concat (map hex_byte b)) = 2 * length b" by (induction b) (auto simp: hex_byte_def)
  then have "length (bytesToHexString b) = 2 * length b + 2" by (simp add: bytesToHexString_concat)
  then show ?thesis by (simp add: parseBytes_def parseBlob_toString new_Bytes_def)
qed

text \<open>What parses is hexadecimal text of the right length, and denotes one byte per pair.\<close>

lemma parse_bytes_length: "parse_bytes ss = Inr bs \<Longrightarrow> length bs = length ss"
  by (induction ss arbitrary: bs) (auto simp: bindE_Inr_iff)

lemma parseBlobNoPrefix_length: "parseBlobNoPrefix v = Inr bs \<Longrightarrow> length v = 2 * length bs"
proof -
  have "even (length v) \<Longrightarrow> length v = 2 * length (pairs_of v)" for v :: string
    by (induction v rule: pairs_of.induct) auto
  then show "parseBlobNoPrefix v = Inr bs \<Longrightarrow> length v = 2 * length bs"
    by (auto simp: parseBlobNoPrefix_eq dest: parse_bytes_length split: if_splits)
qed

end
