(* ===== verification/BlobDictionary.thy ===== *)
theory BlobDictionary
  imports Blobs "HOL-Library.AList"
begin

text \<open>
  The dictionaries keyed by byte strings: \<open>collections/blob-dictionary.ts\<close> with its three users
  \<open>hash-dictionary.ts\<close>, \<open>truncated-hash-dictionary.ts\<close> and \<open>hash-set.ts\<close>.

  A dictionary is a tree of nodes. A node has a list of entries under the rest of their key, or a
  map from the number of the next six bytes of the key to a subtree; a list that has grown past a
  threshold is turned into a map. The leaves are objects shared between the tree and \<open>keyvals\<close>,
  the map the iterators run over, and an overwriting \<open>set\<close> changes their \<open>value\<close> in place: a leaf here
  is its immutable key with an address, and the values are in a store. \<open>keyvals\<close> is a JavaScript
  \<open>Map\<close> whose keys are compared by reference, so a key object is its bytes with an identity.
  A \<open>Map\<close> is the list of its entries in insertion order (\<open>AList.update\<close> keeps the place of a key
  that is set again).
\<close>

section \<open>The data\<close>

record key_obj =
  key_ref :: nat
  key_raw :: blob

record leaf =
  leaf_key :: key_obj
  leaf_addr :: nat

datatype dict_node = DictNode (node_leaf: "leaf option") (node_children: dict_children)
  and dict_children =
    ListChildren "(blob \<times> leaf) list"
  | MapChildren "(int \<times> dict_node) list"

record 'v blob_dictionary =
  dict_root :: dict_node
  keyvals :: "(key_obj \<times> leaf) list"
  store :: "'v list"
  mapNodeThreshold :: nat

definition CHUNK_SIZE :: nat where "CHUNK_SIZE = 6"

text \<open>
  \<open>bytesAsU48\<close>: the first four bytes with 32-bit operators (a missing byte is \<open>undefined\<close>, which
  they read as 0), the others in plain arithmetic, then the length in three extra bits.
\<close>

definition byte_or_0 :: "blob \<Rightarrow> nat \<Rightarrow> int" where
  "byte_or_0 bytes i = (if i < length bytes then uint (bytes ! i) else 0)"

definition chunk_number :: "blob \<Rightarrow> int" where
  "chunk_number bytes =
    (let val = js_or (js_or (js_or (byte_or_0 bytes 3) (js_shl (byte_or_0 bytes 2) 8))
           (js_shl (byte_or_0 bytes 1) 16)) (js_shl (byte_or_0 bytes 0) 24);
         val = fold (\<lambda>b v. v * 256 + uint b) (drop 4 bytes) val in
     val * 8 + int (length bytes))"

definition bytesAsU48 :: "blob \<Rightarrow> int throws" where
  "bytesAsU48 bytes = check (length bytes \<le> CHUNK_SIZE) (Inr (chunk_number bytes))"

section \<open>Nodes\<close>

definition withList :: dict_node where
  "withList = DictNode None (ListChildren [])"

text \<open>\<open>Node.remove\<close>, \<open>Node.set\<close>: the leaf of the node itself; \<open>st\<close> is the store of the values.\<close>

fun node_remove :: "dict_node \<Rightarrow> leaf option \<times> dict_node" where
  "node_remove (DictNode None c) = (None, DictNode None c)"
| "node_remove (DictNode (Some l) c) = (Some l, DictNode None c)"

fun node_set :: "key_obj \<Rightarrow> 'v \<Rightarrow> dict_node \<Rightarrow> 'v list \<Rightarrow> leaf option \<times> dict_node \<times> 'v list" where
  "node_set k v (DictNode None c) st =
    (let l = \<lparr>leaf_key = k, leaf_addr = length st\<rparr> in (Some l, DictNode (Some l) c, st @ [v]))"
| "node_set k v (DictNode (Some l) c) st = (None, DictNode (Some l) c, st[leaf_addr l := v])"

text \<open>\<open>ListChildren\<close>\<close>

fun list_find :: "blob \<Rightarrow> (blob \<times> leaf) list \<Rightarrow> leaf option" where
  "list_find k [] = None"
| "list_find k ((k', l) # xs) = (if blob_isEqualTo k' k then Some l else list_find k xs)"

fun list_remove :: "blob \<Rightarrow> (blob \<times> leaf) list \<Rightarrow> leaf option \<times> (blob \<times> leaf) list" where
  "list_remove k [] = (None, [])"
| "list_remove k ((k', l) # xs) =
    (if blob_isEqualTo k' k then (Some l, xs)
     else let (r, xs') = list_remove k xs in (r, (k', l) # xs'))"

text \<open>
  \<open>insert(key, leaf)\<close> is called with a fresh leaf object: an existing entry takes over its value, else
  the leaf itself is stored. The leaf of an entry moved to another list is not fresh: \<open>list_push\<close>.
\<close>

definition list_insert :: "blob \<Rightarrow> key_obj \<Rightarrow> 'v \<Rightarrow> (blob \<times> leaf) list \<Rightarrow> 'v list \<Rightarrow>
    leaf option \<times> (blob \<times> leaf) list \<times> 'v list" where
  "list_insert sub k v xs st =
    (case list_find sub xs of
       Some l \<Rightarrow> (None, xs, st[leaf_addr l := v])
     | None \<Rightarrow> let l = \<lparr>leaf_key = k, leaf_addr = length st\<rparr> in (Some l, xs @ [(sub, l)], st @ [v]))"

definition list_push :: "blob \<Rightarrow> leaf \<Rightarrow> (blob \<times> leaf) list \<Rightarrow> 'v list \<Rightarrow> (blob \<times> leaf) list \<times> 'v list" where
  "list_push sub l xs st =
    (case list_find sub xs of
       Some l' \<Rightarrow> (xs, st[leaf_addr l' := st ! leaf_addr l])
     | None \<Rightarrow> (xs @ [(sub, l)], st))"

text \<open>
  \<open>MapChildren\<close>. A key chunk has at most six bytes, so \<open>bytesAsU48\<close> does not throw (lemma
  \<open>bytesAsU48_chunk\<close>) and the number is used directly.
\<close>

definition getChild :: "(int \<times> dict_node) list \<Rightarrow> blob \<Rightarrow> dict_node option" where
  "getChild m keyChunk = map_of m (chunk_number keyChunk)"

definition setChild :: "(int \<times> dict_node) list \<Rightarrow> blob \<Rightarrow> dict_node \<Rightarrow> (int \<times> dict_node) list" where
  "setChild m keyChunk n = AList.update (chunk_number keyChunk) n m"

definition from_list_step :: "blob \<times> leaf \<Rightarrow> (int \<times> dict_node) list \<times> 'v list \<Rightarrow>
    (int \<times> dict_node) list \<times> 'v list" where
  "from_list_step = (\<lambda>(k, l) (m, st).
    let currentKeyChunk = subarray k 0 CHUNK_SIZE;
        subKey = drop CHUNK_SIZE k;
        child = (case getChild m currentKeyChunk of Some n \<Rightarrow> n | None \<Rightarrow> withList) in
    (case child of
       DictNode lf (ListChildren xs) \<Rightarrow>
         (let (xs', st') = list_push subKey l xs st in
          (setChild m currentKeyChunk (DictNode lf (ListChildren xs')), st'))
     | DictNode lf (MapChildren _) \<Rightarrow> (m, st)))"

definition fromListNode :: "(blob \<times> leaf) list \<Rightarrow> 'v list \<Rightarrow> (int \<times> dict_node) list \<times> 'v list" where
  "fromListNode xs st = fold from_list_step xs ([], st)"

fun convertListChildrenToMap :: "dict_node \<Rightarrow> 'v list \<Rightarrow> dict_node \<times> 'v list" where
  "convertListChildrenToMap (DictNode lf (ListChildren xs)) st =
    (let (m, st') = fromListNode xs st in (DictNode lf (MapChildren m), st'))"
| "convertListChildrenToMap n st = (n, st)"

section \<open>The dictionary\<close>

text \<open>
  The loop of \<open>internalSet\<close>: the chunks that the generator still has to yield, the depth and the current
  node; an absent value means removal. The result is the leaf that was added or removed, the new
  node and the new store.
\<close>

fun internal_set_loop :: "nat \<Rightarrow> key_obj \<Rightarrow> 'v option \<Rightarrow> blob list \<Rightarrow> nat \<Rightarrow> dict_node \<Rightarrow> 'v list \<Rightarrow>
    leaf option \<times> dict_node \<times> 'v list" where
  "internal_set_loop thr key val [] depth node st =
    (case val of
       None \<Rightarrow> (let (r, n) = node_remove node in (r, n, st))
     | Some v \<Rightarrow> node_set key v node st)"
| "internal_set_loop thr key val (keyChunk # cs) depth (DictNode lf (ListChildren xs)) st =
    (let subkey = drop (CHUNK_SIZE * depth) (key_raw key);
         (r, xs', st') = (case val of
            Some v \<Rightarrow> list_insert subkey key v xs st
          | None \<Rightarrow> let (r, xs') = list_remove subkey xs in (r, xs', st)) in
     if length subkey > CHUNK_SIZE \<and> length xs' > thr
     then let (n, st'') = convertListChildrenToMap (DictNode lf (ListChildren xs')) st' in (r, n, st'')
     else (r, DictNode lf (ListChildren xs'), st'))"
| "internal_set_loop thr key val (keyChunk # cs) depth (DictNode lf (MapChildren m)) st =
    (case getChild m keyChunk of
       Some n \<Rightarrow>
         (let (r, n', st') = internal_set_loop thr key val cs (depth + 1) n st in
          (r, DictNode lf (MapChildren (setChild m keyChunk n')), st'))
     | None \<Rightarrow>
         if val = None then (None, DictNode lf (MapChildren m), st)
         else
           (let (r, n', st') = internal_set_loop thr key val cs (depth + 1) withList st in
            (r, DictNode lf (MapChildren (setChild m keyChunk n')), st')))"

definition internalSet :: "key_obj \<Rightarrow> 'v option \<Rightarrow> 'v blob_dictionary \<Rightarrow> leaf option \<times> 'v blob_dictionary" where
  "internalSet key val d =
    (let (r, n, st) = internal_set_loop (mapNodeThreshold d) key val (chunks CHUNK_SIZE (key_raw key)) 0
       (dict_root d) (store d) in
     (r, d\<lparr>dict_root := n, store := st\<rparr>))"

definition new_dictionary :: "nat \<Rightarrow> 'v blob_dictionary" where
  "new_dictionary threshold =
    \<lparr>dict_root = withList, keyvals = [], store = [], mapNodeThreshold = threshold\<rparr>"

definition dict_set :: "key_obj \<Rightarrow> 'v \<Rightarrow> 'v blob_dictionary \<Rightarrow> 'v blob_dictionary" where
  "dict_set key v d =
    (case internalSet key (Some v) d of
       (None, d') \<Rightarrow> d'
     | (Some l, d') \<Rightarrow> d'\<lparr>keyvals := AList.update (leaf_key l) l (keyvals d')\<rparr>)"

definition dict_delete :: "key_obj \<Rightarrow> 'v blob_dictionary \<Rightarrow> bool \<times> 'v blob_dictionary" where
  "dict_delete key d =
    (case internalSet key None d of
       (None, d') \<Rightarrow> (False, d')
     | (Some l, d') \<Rightarrow> (True, d'\<lparr>keyvals := AList.delete (leaf_key l) (keyvals d')\<rparr>))"

definition dict_fromEntries :: "(key_obj \<times> 'v) list \<Rightarrow> nat \<Rightarrow> 'v blob_dictionary" where
  "dict_fromEntries es threshold = fold (\<lambda>(k, v). dict_set k v) es (new_dictionary threshold)"

text \<open>
  The loop of \<open>get\<close>, up to the leaf. A list node that lacks the key keeps the loop at the same node
  until the chunks are used up, and then its own leaf is the answer.
\<close>

fun get_loop :: "blob \<Rightarrow> blob list \<Rightarrow> nat \<Rightarrow> dict_node \<Rightarrow> leaf option" where
  "get_loop key cs depth (DictNode lf (ListChildren xs)) =
    (case list_find (if depth = 0 then key else drop (depth * CHUNK_SIZE) key) xs of
       Some l \<Rightarrow> Some l
     | None \<Rightarrow> (case cs of [] \<Rightarrow> lf | c # cs' \<Rightarrow> get_loop key cs' depth (DictNode lf (ListChildren xs))))"
| "get_loop key cs depth (DictNode lf (MapChildren m)) =
    (case cs of
       [] \<Rightarrow> lf
     | c # cs' \<Rightarrow> (case getChild m c of None \<Rightarrow> None | Some n \<Rightarrow> get_loop key cs' (depth + 1) n))"

definition leaf_value :: "'v blob_dictionary \<Rightarrow> leaf \<Rightarrow> 'v" where
  "leaf_value d l = store d ! leaf_addr l"

definition dict_get :: "key_obj \<Rightarrow> 'v blob_dictionary \<Rightarrow> 'v option" where
  "dict_get key d =
    map_option (leaf_value d) (get_loop (key_raw key) (chunks CHUNK_SIZE (key_raw key)) 0 (dict_root d))"

definition dict_has :: "key_obj \<Rightarrow> 'v blob_dictionary \<Rightarrow> bool" where
  "dict_has key d \<longleftrightarrow> dict_get key d \<noteq> None"

definition dict_size :: "'v blob_dictionary \<Rightarrow> nat" where
  "dict_size d = length (keyvals d)"

definition dict_keys :: "'v blob_dictionary \<Rightarrow> key_obj list" where
  "dict_keys d = map fst (keyvals d)"

definition dict_values :: "'v blob_dictionary \<Rightarrow> 'v list" where
  "dict_values d = map (\<lambda>(k, l). leaf_value d l) (keyvals d)"

definition dict_entries :: "'v blob_dictionary \<Rightarrow> (key_obj \<times> 'v) list" where
  "dict_entries d = map (\<lambda>(k, l). (leaf_key l, leaf_value d l)) (keyvals d)"

definition dict_toSortedArray :: "key_obj comparator \<Rightarrow> 'v blob_dictionary \<Rightarrow> 'v list" where
  "dict_toSortedArray cmp d = map snd (array_sort (\<lambda>a b. cmp (fst a) (fst b)) (dict_entries d))"

section \<open>Its users\<close>

definition BLOB_DICTIONARY_THRESHOLD :: nat where "BLOB_DICTIONARY_THRESHOLD = 5"

definition new_hash_dictionary :: "'v blob_dictionary" where
  "new_hash_dictionary = new_dictionary BLOB_DICTIONARY_THRESHOLD"

definition hash_dictionary_fromEntries :: "(key_obj \<times> 'v) list \<Rightarrow> 'v blob_dictionary" where
  "hash_dictionary_fromEntries es = fold (\<lambda>(k, v). dict_set k v) es new_hash_dictionary"

text \<open>\<open>hash-set.ts\<close>\<close>

type_synonym hash_set = "bool blob_dictionary"

definition hs_insert :: "key_obj \<Rightarrow> hash_set \<Rightarrow> hash_set" where
  "hs_insert k s = dict_set k True s"

definition hs_insertAll :: "key_obj list \<Rightarrow> hash_set \<Rightarrow> hash_set" where
  "hs_insertAll ks s = fold (\<lambda>k. dict_set k True) ks s"

definition hs_from :: "key_obj list \<Rightarrow> hash_set" where
  "hs_from ks = hs_insertAll ks new_hash_dictionary"

definition hs_size :: "hash_set \<Rightarrow> nat" where
  "hs_size s = dict_size s"

definition hs_has :: "key_obj \<Rightarrow> hash_set \<Rightarrow> bool" where
  "hs_has k s = dict_has k s"

definition hs_elements :: "hash_set \<Rightarrow> key_obj list" where
  "hs_elements s = map fst (dict_entries s)"

definition hs_delete :: "key_obj \<Rightarrow> hash_set \<Rightarrow> bool \<times> hash_set" where
  "hs_delete k s = dict_delete k s"

definition hs_intersection :: "hash_set \<Rightarrow> hash_set \<Rightarrow> key_obj list" where
  "hs_intersection self other =
    (let (iterate, second) = (if hs_size self < hs_size other then (self, other) else (other, self)) in
     filter (\<lambda>e. hs_has e second) (hs_elements iterate))"

text \<open>
  \<open>truncated-hash-dictionary.ts\<close>. A key of another length is cut to 31 bytes in a new object,
  whose identity is \<open>r\<close>.
\<close>

definition TRUNCATED_HASH_SIZE :: nat where "TRUNCATED_HASH_SIZE = 31"

definition getTruncatedKey :: "nat \<Rightarrow> key_obj \<Rightarrow> key_obj throws" where
  "getTruncatedKey r key =
    (if length (key_raw key) = TRUNCATED_HASH_SIZE then Inr key
     else bindE (bytes_fromBlob (subarray (key_raw key) 0 TRUNCATED_HASH_SIZE) TRUNCATED_HASH_SIZE)
       (\<lambda>b. Inr \<lparr>key_ref = r, key_raw = b\<rparr>))"

definition thd_get :: "nat \<Rightarrow> key_obj \<Rightarrow> 'v blob_dictionary \<Rightarrow> 'v option throws" where
  "thd_get r key d = bindE (getTruncatedKey r key) (\<lambda>k. Inr (dict_get k d))"

definition thd_has :: "nat \<Rightarrow> key_obj \<Rightarrow> 'v blob_dictionary \<Rightarrow> bool throws" where
  "thd_has r key d = bindE (getTruncatedKey r key) (\<lambda>k. Inr (dict_has k d))"

definition thd_set :: "nat \<Rightarrow> key_obj \<Rightarrow> 'v \<Rightarrow> 'v blob_dictionary \<Rightarrow> 'v blob_dictionary throws" where
  "thd_set r key v d = bindE (getTruncatedKey r key) (\<lambda>k. Inr (dict_set k v d))"

definition thd_delete :: "nat \<Rightarrow> key_obj \<Rightarrow> 'v blob_dictionary \<Rightarrow> 'v blob_dictionary throws" where
  "thd_delete r key d = bindE (getTruncatedKey r key) (\<lambda>k. Inr (snd (dict_delete k d)))"

text \<open>The entries get the identities \<open>r\<close>, \<open>r + 1\<close>, ... when their keys are cut.\<close>

fun thd_truncate :: "nat \<Rightarrow> (key_obj \<times> 'v) list \<Rightarrow> (key_obj \<times> 'v) list throws" where
  "thd_truncate r [] = Inr []"
| "thd_truncate r ((k, v) # es) =
    bindE (getTruncatedKey r k) (\<lambda>k. bindE (thd_truncate (r + 1) es) (\<lambda>es. Inr ((k, v) # es)))"

definition thd_fromEntries :: "nat \<Rightarrow> (key_obj \<times> 'v) list \<Rightarrow> 'v blob_dictionary throws" where
  "thd_fromEntries r es =
    bindE (thd_truncate r es) (\<lambda>es. Inr (dict_fromEntries es BLOB_DICTIONARY_THRESHOLD))"

section \<open>The number of a chunk\<close>

lemma bit_js_or: "n < 32 \<Longrightarrow> bit (js_or a b) n \<longleftrightarrow> bit a n \<or> bit b n"
  by (simp add: js_or_def to_int32_def bit_or_iff bit_signed_take_bit_iff min_absorb1 min_absorb2)

lemma bit_js_shl: "n < 32 \<Longrightarrow> shift_count k = i \<Longrightarrow> bit (js_shl a k) n \<longleftrightarrow> i \<le> n \<and> bit a (n - i)"
  by (auto simp: js_shl_def to_int32_def bit_signed_take_bit_iff bit_push_bit_iff min_absorb1 min_absorb2)

definition chunk_head :: "blob \<Rightarrow> int" where
  "chunk_head bytes = js_or (js_or (js_or (byte_or_0 bytes 3) (js_shl (byte_or_0 bytes 2) 8))
     (js_shl (byte_or_0 bytes 1) 16)) (js_shl (byte_or_0 bytes 0) 24)"

lemma bit_byte_or_0: "bit (byte_or_0 b i) n \<Longrightarrow> n < 8"
  using bit_imp_le_length [of "b ! i"] by (auto simp: byte_or_0_def bit_uint_iff split: if_splits)

lemma not_bit_byte_or_0: "8 \<le> n \<Longrightarrow> \<not> bit (byte_or_0 b i) n"
  using bit_byte_or_0 by fastforce

lemma bit_chunk_head:
  "n < 8 \<Longrightarrow> bit (chunk_head b) n \<longleftrightarrow> bit (byte_or_0 b 3) n"
  "n < 8 \<Longrightarrow> bit (chunk_head b) (n + 8) \<longleftrightarrow> bit (byte_or_0 b 2) n"
  "n < 8 \<Longrightarrow> bit (chunk_head b) (n + 16) \<longleftrightarrow> bit (byte_or_0 b 1) n"
  "n < 8 \<Longrightarrow> bit (chunk_head b) (n + 24) \<longleftrightarrow> bit (byte_or_0 b 0) n"
proof -
  have "n < 8 \<Longrightarrow> i < 4 \<Longrightarrow> bit (chunk_head b) (n + 8 * i) \<longleftrightarrow> bit (byte_or_0 b (3 - i)) n" for i
  proof -
    assume n: "n < 8" "i < 4"
    define k where "k = n + 8 * i"
    have "bit (chunk_head b) k \<longleftrightarrow> bit (byte_or_0 b 3) k \<or> 8 \<le> k \<and> bit (byte_or_0 b 2) (k - 8) \<or>
        16 \<le> k \<and> bit (byte_or_0 b 1) (k - 16) \<or> 24 \<le> k \<and> bit (byte_or_0 b 0) (k - 24)"
      using n by (simp add: chunk_head_def bit_js_or bit_js_shl [where i = 8] bit_js_shl [where i = 16]
          bit_js_shl [where i = 24] shift_count_mod k_def)
    moreover have "i = 0 \<or> i = 1 \<or> i = 2 \<or> i = 3" using n(2) by linarith
    ultimately show ?thesis using n(1)
      by (elim disjE) (auto simp: k_def not_bit_byte_or_0)
  qed
  from this [of 0] this [of 1] this [of 2] this [of 3]
  show "n < 8 \<Longrightarrow> bit (chunk_head b) n \<longleftrightarrow> bit (byte_or_0 b 3) n"
    "n < 8 \<Longrightarrow> bit (chunk_head b) (n + 8) \<longleftrightarrow> bit (byte_or_0 b 2) n"
    "n < 8 \<Longrightarrow> bit (chunk_head b) (n + 16) \<longleftrightarrow> bit (byte_or_0 b 1) n"
    "n < 8 \<Longrightarrow> bit (chunk_head b) (n + 24) \<longleftrightarrow> bit (byte_or_0 b 0) n"
    by simp_all
qed

lemma byte_or_0_eqI: "(\<And>n. n < 8 \<Longrightarrow> bit (byte_or_0 a i) n \<longleftrightarrow> bit (byte_or_0 b i) n) \<Longrightarrow> byte_or_0 a i = byte_or_0 b i"
  by (rule bit_eqI) (metis bit_byte_or_0)

lemma chunk_head_inject:
  assumes "length a = length b" "chunk_head a = chunk_head b"
  shows "take 4 a = take 4 b"
proof (rule nth_equalityI)
  show "length (take 4 a) = length (take 4 b)" using assms by simp
  fix i assume i: "i < length (take 4 a)"
  have "byte_or_0 a 3 = byte_or_0 b 3" "byte_or_0 a 2 = byte_or_0 b 2" "byte_or_0 a 1 = byte_or_0 b 1"
    "byte_or_0 a 0 = byte_or_0 b 0"
    by (rule byte_or_0_eqI; use assms(2) bit_chunk_head [of _ a] bit_chunk_head [of _ b] in metis)+
  moreover have "i = 0 \<or> i = 1 \<or> i = 2 \<or> i = 3" using i by simp linarith
  ultimately have "byte_or_0 a i = byte_or_0 b i" by auto
  then show "take 4 a ! i = take 4 b ! i"
    using i assms(1) by (simp add: byte_or_0_def word_uint_eqI)
qed

lemma fold_bytes_inject:
  "length xs = length ys \<Longrightarrow>
    fold (\<lambda>b v. v * 256 + uint b) xs u = fold (\<lambda>b v. v * 256 + uint (b :: byte)) ys w \<Longrightarrow> xs = ys \<and> u = w"
proof (induction xs ys arbitrary: u w rule: list_induct2)
  case Nil
  then show ?case by simp
next
  case (Cons x xs y ys)
  then have "xs = ys" and eq: "u * 256 + uint x = w * 256 + uint y" by auto
  have "uint x = (u * 256 + uint x) mod 256" "uint y = (w * 256 + uint y) mod 256"
    using byte_bounds [of x] byte_bounds [of y] by simp_all
  then have "uint x = uint y" using eq by simp
  with eq \<open>xs = ys\<close> show ?case by (simp add: word_uint_eq_iff)
qed

lemma chunk_number_inject:
  assumes "chunk_number a = chunk_number b" "length a \<le> 6" "length b \<le> 6"
  shows "a = b"
proof -
  define f where "f c = fold (\<lambda>b v. v * 256 + uint b) (drop 4 c) (chunk_head c)" for c :: blob
  have n: "chunk_number c = f c * 8 + int (length c)" for c
    by (simp add: chunk_number_def f_def chunk_head_def Let_def)
  have "int (length a) = chunk_number a mod 8" "int (length b) = chunk_number b mod 8"
    using assms(2,3) by (simp_all add: n)
  with assms(1) have len: "length a = length b" by simp
  with assms(1) have "f a = f b" by (simp add: n)
  then have "drop 4 a = drop 4 b" "chunk_head a = chunk_head b"
    using fold_bytes_inject [of "drop 4 a" "drop 4 b"] len unfolding f_def by auto
  with chunk_head_inject [OF len] show "a = b" by (metis append_take_drop_id)
qed

lemma bytesAsU48_chunk: "c \<in> set (chunks CHUNK_SIZE b) \<Longrightarrow> bytesAsU48 c = Inr (chunk_number c)"
  using nth_chunks [of CHUNK_SIZE _ b]
  by (auto simp: in_set_conv_nth bytesAsU48_def CHUNK_SIZE_def)

section \<open>The tree as a map\<close>

text \<open>
  When all keys have one length \<open>L > 0\<close>, every node at depth \<open>d\<close> is reached with \<open>6 * d < L\<close> bytes of
  the key used up, and no node has a leaf of its own. Dictionaries of hashes are of this kind.
\<close>

inductive wf_node :: "nat \<Rightarrow> nat \<Rightarrow> blob \<Rightarrow> dict_node \<Rightarrow> bool" where
  wf_list: "6 * d < L \<Longrightarrow> length p = 6 * d \<Longrightarrow> distinct (map fst xs) \<Longrightarrow>
    (\<And>k l. (k, l) \<in> set xs \<Longrightarrow> length k = L - 6 * d \<and> key_raw (leaf_key l) = p @ k) \<Longrightarrow>
    wf_node L d p (DictNode None (ListChildren xs))"
| wf_map: "6 * Suc d < L \<Longrightarrow> length p = 6 * d \<Longrightarrow> distinct (map fst m) \<Longrightarrow>
    (\<And>n c. (n, c) \<in> set m \<Longrightarrow> \<exists>ch. length ch = 6 \<and> n = chunk_number ch \<and> wf_node L (Suc d) (p @ ch) c) \<Longrightarrow>
    wf_node L d p (DictNode None (MapChildren m))"

inductive_cases wf_list_cases: "wf_node L d p (DictNode lf (ListChildren xs))"
inductive_cases wf_map_cases: "wf_node L d p (DictNode lf (MapChildren m))"

text \<open>The lookup by the rest of the key.\<close>

function tfind :: "dict_node \<Rightarrow> blob \<Rightarrow> leaf option" where
  "tfind (DictNode lf (ListChildren xs)) r = map_of xs r"
| "tfind (DictNode lf (MapChildren m)) r =
    (if r = [] then None else
     case map_of m (chunk_number (take 6 r)) of None \<Rightarrow> None | Some n \<Rightarrow> tfind n (drop 6 r))"
  by pat_completeness auto
termination by (relation "measure (\<lambda>(n, r). length r)") auto

lemma list_find_map_of: "list_find k xs = map_of xs k"
  by (induction k xs rule: list_find.induct) auto

lemma get_loop_list: "get_loop key cs d (DictNode None (ListChildren xs)) = map_of xs (drop (d * 6) key)"
  by (induction cs) (auto simp: list_find_map_of CHUNK_SIZE_def split: option.split)

lemma chunks_6: "r \<noteq> [] \<Longrightarrow> chunks CHUNK_SIZE r = take 6 r # chunks CHUNK_SIZE (drop 6 r)"
  by (subst chunks_step) (auto simp: CHUNK_SIZE_def)

lemma get_loop_tfind:
  assumes "wf_node L d p n" "length r = L - 6 * d" "drop (6 * d) key = r"
  shows "get_loop key (chunks CHUNK_SIZE r) d n = tfind n r"
  using assms
proof (induction arbitrary: r rule: wf_node.induct)
  case (wf_list d L p xs)
  then have "drop (d * 6) key = r" by (simp add: mult.commute)
  then show ?case by (simp only: get_loop_list tfind.simps)
next
  case (wf_map d L p m)
  then have ne: "r \<noteq> []" by auto
  show ?case
  proof (cases "map_of m (chunk_number (take 6 r))")
    case None
    with ne show ?thesis by (simp add: chunks_6 getChild_def)
  next
    case (Some c)
    then obtain ch where "wf_node L (Suc d) (p @ ch) c"
      "\<And>r. length r = L - 6 * Suc d \<Longrightarrow> drop (6 * Suc d) key = r \<Longrightarrow>
        get_loop key (chunks CHUNK_SIZE r) (Suc d) c = tfind c r"
      using wf_map.IH [OF map_of_SomeD [OF Some]] by blast
    moreover have "drop (6 * Suc d) key = drop 6 r"
      using wf_map.prems(2) by (metis add.commute drop_drop mult_Suc_right)
    ultimately show ?thesis using ne Some wf_map.prems by (simp add: chunks_6 getChild_def)
  qed
qed

subsection \<open>Converting a list to a map\<close>

text \<open>After some entries: a well-formed map of list nodes that finds exactly them.\<close>

lemma tfind_update:
  assumes "length ch = 6" "length r \<ge> 6"
    "\<And>n c. (n, c) \<in> set m \<Longrightarrow> \<exists>ch. length ch = 6 \<and> n = chunk_number ch"
  shows "tfind (DictNode lf (MapChildren (setChild m ch c))) r =
    (if take 6 r = ch then tfind c (drop 6 r) else tfind (DictNode lf (MapChildren m)) r)"
proof -
  have "chunk_number (take 6 r) = chunk_number ch \<longleftrightarrow> take 6 r = ch"
    using chunk_number_inject [of "take 6 r" ch] assms(1,2) by auto
  moreover have "r \<noteq> []" using assms(2) by auto
  ultimately show ?thesis by (auto simp: setChild_def update_conv' split: option.split)
qed

lemma wf_setChild:
  assumes "wf_node L d p (DictNode None (MapChildren m))" "wf_node L (Suc d) (p @ ch) c" "length ch = 6"
  shows "wf_node L d p (DictNode None (MapChildren (setChild m ch c)))"
proof -
  from assms(1) have m: "6 * Suc d < L" "length p = 6 * d" "distinct (map fst m)"
    "\<And>n c. (n, c) \<in> set m \<Longrightarrow> \<exists>ch. length ch = 6 \<and> n = chunk_number ch \<and> wf_node L (Suc d) (p @ ch) c"
    by (auto elim!: wf_map_cases)
  have "(n, c') \<in> set (setChild m ch c) \<Longrightarrow> (n, c') = (chunk_number ch, c) \<or> (n, c') \<in> set m" for n c'
    unfolding setChild_def by (induction m) (auto split: if_splits)
  then have "\<exists>ch. length ch = 6 \<and> n = chunk_number ch \<and> wf_node L (Suc d) (p @ ch) c'"
    if "(n, c') \<in> set (setChild m ch c)" for n c'
    using that m(4) assms(2,3) by blast
  with m(1-3) show ?thesis
    by (intro wf_node.wf_map) (auto simp: setChild_def distinct_update)
qed

lemma from_list_step_ok:
  assumes "wf_node L d p (DictNode None (MapChildren m))"
    "\<forall>n c. (n, c) \<in> set m \<longrightarrow> (\<exists>xs. c = DictNode None (ListChildren xs))"
    "length k = L - 6 * d" "key_raw (leaf_key l) = p @ k" "tfind (DictNode None (MapChildren m)) k = None"
  shows "\<exists>m'. from_list_step (k, l) (m, st) = (m', st) \<and> wf_node L d p (DictNode None (MapChildren m')) \<and>
    (\<forall>n c. (n, c) \<in> set m' \<longrightarrow> (\<exists>xs. c = DictNode None (ListChildren xs))) \<and>
    (\<forall>r. length r = L - 6 * d \<longrightarrow> tfind (DictNode None (MapChildren m')) r =
      (if r = k then Some l else tfind (DictNode None (MapChildren m)) r))"
proof -
  from assms(1) have m: "6 * Suc d < L" "length p = 6 * d" "distinct (map fst m)"
    "\<And>n c. (n, c) \<in> set m \<Longrightarrow> \<exists>ch. length ch = 6 \<and> n = chunk_number ch \<and> wf_node L (Suc d) (p @ ch) c"
    by (auto elim!: wf_map_cases)
  define ch where "ch = take 6 k"
  have ch: "length ch = 6" "k = ch @ drop 6 k" "k \<noteq> []" "subarray k 0 CHUNK_SIZE = ch"
    using m(1) assms(3) by (auto simp: ch_def subarray_def CHUNK_SIZE_def)
  define xs where "xs = (case getChild m ch of Some (DictNode _ (ListChildren xs)) \<Rightarrow> xs | _ \<Rightarrow> [])"
  have child: "(case getChild m ch of Some n \<Rightarrow> n | None \<Rightarrow> withList) = DictNode None (ListChildren xs)"
    using assms(2) map_of_SomeD [of m "chunk_number ch"]
    by (auto simp: xs_def getChild_def withList_def split: option.split) fastforce
  have wf_child: "wf_node L (Suc d) (p @ ch) (DictNode None (ListChildren xs))"
  proof (cases "getChild m ch")
    case None
    then have "xs = []" by (simp add: xs_def)
    with m ch show ?thesis by (auto intro: wf_node.wf_list)
  next
    case (Some c)
    then have "(chunk_number ch, c) \<in> set m" by (simp add: getChild_def map_of_SomeD)
    then obtain ch' where "length ch' = 6" "chunk_number ch = chunk_number ch'" "wf_node L (Suc d) (p @ ch') c"
      using m(4) by blast
    with Some child chunk_number_inject [of ch ch'] ch(1) show ?thesis by auto
  qed
  have old: "tfind (DictNode None (MapChildren m)) r = map_of xs (drop 6 r)" if "take 6 r = ch" "r \<noteq> []" for r
  proof (cases "getChild m ch")
    case None
    with that show ?thesis by (simp add: xs_def getChild_def)
  next
    case (Some c)
    then have "c = DictNode None (ListChildren xs)" using child by simp
    with Some that show ?thesis by (simp add: getChild_def)
  qed
  have no: "map_of xs (drop 6 k) = None" using old [of k] assms(5) ch by (simp add: ch_def)
  define c' where "c' = DictNode None (ListChildren (xs @ [(drop 6 k, l)]))"
  have "from_list_step (k, l) (m, st) = (setChild m ch c', st)"
    using child no ch by (simp add: from_list_step_def CHUNK_SIZE_def list_push_def list_find_map_of c'_def)
  moreover have wf_c': "wf_node L (Suc d) (p @ ch) c'"
  proof -
    from wf_child have x: "distinct (map fst xs)"
      "\<And>k l. (k, l) \<in> set xs \<Longrightarrow> length k = L - 6 * Suc d \<and> key_raw (leaf_key l) = (p @ ch) @ k"
      by (auto elim!: wf_list_cases)
    have "drop 6 k \<notin> fst ` set xs" using no by (simp add: map_of_eq_None_iff)
    with x m ch assms(3,4) show ?thesis unfolding c'_def
      by (intro wf_node.wf_list) auto
  qed
  moreover note wf_setChild [OF assms(1) wf_c' ch(1)]
  moreover have "\<forall>n c. (n, c) \<in> set (setChild m ch c') \<longrightarrow> (\<exists>xs. c = DictNode None (ListChildren xs))"
  proof -
    have "(n, c) \<in> set (AList.update a b m) \<Longrightarrow> c = b \<or> (n, c) \<in> set m" for n c a b
      by (induction m) (auto split: if_splits)
    with assms(2) show ?thesis unfolding setChild_def c'_def by blast
  qed
  moreover have "tfind (DictNode None (MapChildren (setChild m ch c'))) r =
      (if r = k then Some l else tfind (DictNode None (MapChildren m)) r)" if "length r = L - 6 * d" for r
  proof -
    have "tfind (DictNode None (MapChildren (setChild m ch c'))) r =
        (if take 6 r = ch then tfind c' (drop 6 r) else tfind (DictNode None (MapChildren m)) r)"
      by (rule tfind_update) (use m that ch in auto)
    moreover have "r = k \<longleftrightarrow> take 6 r = ch \<and> drop 6 r = drop 6 k"
      unfolding ch_def by (metis append_take_drop_id)
    moreover have "r \<noteq> []" using that m(1) by auto
    ultimately show ?thesis using old [of r] no by (auto simp: c'_def map_add_def split: option.split)
  qed
  ultimately show ?thesis by blast
qed

lemma fold_from_list:
  assumes "wf_node L d p (DictNode None (ListChildren xs))" "6 * Suc d < L"
  shows "\<exists>m. fromListNode xs st = (m, st) \<and> wf_node L d p (DictNode None (MapChildren m)) \<and>
    (\<forall>n c. (n, c) \<in> set m \<longrightarrow> (\<exists>xs. c = DictNode None (ListChildren xs))) \<and>
    (\<forall>r. length r = L - 6 * d \<longrightarrow> tfind (DictNode None (MapChildren m)) r = map_of xs r)"
  using assms(1)
proof (induction xs rule: rev_induct)
  case Nil
  then have "length p = 6 * d" by (auto elim!: wf_list_cases)
  with assms(2) show ?case by (auto simp: fromListNode_def intro: wf_node.wf_map)
next
  case (snoc x xs)
  obtain k l where x: "x = (k, l)" by fastforce
  from snoc.prems have w: "6 * d < L" "length p = 6 * d" "distinct (map fst (xs @ [x]))"
    "\<And>k l. (k, l) \<in> set (xs @ [x]) \<Longrightarrow> length k = L - 6 * d \<and> key_raw (leaf_key l) = p @ k"
    by (blast elim: wf_list_cases)+
  then have "wf_node L d p (DictNode None (ListChildren xs))" by (intro wf_node.wf_list) auto
  from snoc.IH [OF this] obtain m where m: "fromListNode xs st = (m, st)"
    "wf_node L d p (DictNode None (MapChildren m))"
    "\<forall>n c. (n, c) \<in> set m \<longrightarrow> (\<exists>xs. c = DictNode None (ListChildren xs))"
    "\<And>r. length r = L - 6 * d \<Longrightarrow> tfind (DictNode None (MapChildren m)) r = map_of xs r"
    by blast
  have k: "length k = L - 6 * d" "key_raw (leaf_key l) = p @ k" using w(4) x by auto
  have no: "map_of xs k = None" using w(3) x by (simp add: map_of_eq_None_iff)
  have "tfind (DictNode None (MapChildren m)) k = None" using m(4) [OF k(1)] no by simp
  from from_list_step_ok [OF m(2,3) k this] obtain m' where
    "from_list_step x (m, st) = (m', st)" "wf_node L d p (DictNode None (MapChildren m'))"
    "\<forall>n c. (n, c) \<in> set m' \<longrightarrow> (\<exists>xs. c = DictNode None (ListChildren xs))"
    "\<forall>r. length r = L - 6 * d \<longrightarrow> tfind (DictNode None (MapChildren m')) r =
      (if r = k then Some l else tfind (DictNode None (MapChildren m)) r)"
    unfolding x by blast
  moreover have "map_of (xs @ [x]) r = (if r = k then Some l else map_of xs r)" for r
    using no by (auto simp: x map_add_def split: option.split)
  ultimately show ?case using m(1,4) by (auto simp: fromListNode_def)
qed

text \<open>The step at the end of an operation on a list node: convert it, or not.\<close>

lemma finish_list:
  assumes "wf_node L d p (DictNode None (ListChildren xs))"
  shows "\<exists>n. (if L - 6 * d > CHUNK_SIZE \<and> length xs > thr
      then let (n, st') = convertListChildrenToMap (DictNode None (ListChildren xs)) st in (res, n, st')
      else (res, DictNode None (ListChildren xs), st)) = (res, n, st) \<and> wf_node L d p n \<and>
    (\<forall>r. length r = L - 6 * d \<longrightarrow> tfind n r = map_of xs r)"
proof (cases "L - 6 * d > CHUNK_SIZE \<and> length xs > thr")
  case True
  then have "6 * Suc d < L" by (simp add: CHUNK_SIZE_def less_diff_conv)
  from fold_from_list [OF assms this, of st] True show ?thesis by auto
next
  case False
  with assms show ?thesis by auto
qed

subsection \<open>Setting and removing\<close>

text \<open>What one operation on the tree does to the lookup of the keys of the same length.\<close>

definition set_post :: "nat \<Rightarrow> nat \<Rightarrow> blob \<Rightarrow> key_obj \<Rightarrow> 'v \<Rightarrow> blob \<Rightarrow> dict_node \<Rightarrow> 'v list \<Rightarrow>
    leaf option \<times> dict_node \<times> 'v list \<Rightarrow> bool" where
  "set_post L d p key v r n st = (\<lambda>(res, n', st').
    wf_node L d p n' \<and>
    (case tfind n r of
       Some l \<Rightarrow> res = None \<and> st' = st[leaf_addr l := v] \<and>
         (\<forall>q. length q = L - 6 * d \<longrightarrow> tfind n' q = tfind n q)
     | None \<Rightarrow> res = Some \<lparr>leaf_key = key, leaf_addr = length st\<rparr> \<and> st' = st @ [v] \<and>
         (\<forall>q. length q = L - 6 * d \<longrightarrow> tfind n' q = (if q = r then res else tfind n q))))"

definition delete_post :: "nat \<Rightarrow> nat \<Rightarrow> blob \<Rightarrow> blob \<Rightarrow> dict_node \<Rightarrow> 'v list \<Rightarrow>
    leaf option \<times> dict_node \<times> 'v list \<Rightarrow> bool" where
  "delete_post L d p r n st = (\<lambda>(res, n', st').
    wf_node L d p n' \<and> st' = st \<and> res = tfind n r \<and>
    (\<forall>q. length q = L - 6 * d \<longrightarrow> tfind n' q = (if q = r then None else tfind n q)))"

text \<open>Both descend alike: a changed child changes the lookups that start with its chunk.\<close>

lemma tfind_child:
  assumes "wf_node L d p (DictNode None (MapChildren m))" "length ch = 6" "length q = L - 6 * d"
  shows "tfind (DictNode None (MapChildren (setChild m ch c))) q =
    (if take 6 q = ch then tfind c (drop 6 q) else tfind (DictNode None (MapChildren m)) q)"
  using assms by (intro tfind_update) (auto elim!: wf_map_cases)

lemma set_list:
  assumes "wf_node L d p (DictNode None (ListChildren xs))" "key_raw key = p @ r" "length r = L - 6 * d"
  shows "set_post L d p key v r (DictNode None (ListChildren xs)) st
    (internal_set_loop thr key (Some v) (chunks CHUNK_SIZE r) d (DictNode None (ListChildren xs)) st)"
proof -
  from assms(1) have w: "6 * d < L" "length p = 6 * d" "distinct (map fst xs)"
    "\<And>k l. (k, l) \<in> set xs \<Longrightarrow> length k = L - 6 * d \<and> key_raw (leaf_key l) = p @ k"
    by (auto elim!: wf_list_cases)
  have r: "r \<noteq> []" "drop (CHUNK_SIZE * d) (key_raw key) = r" using assms w by (auto simp: CHUNK_SIZE_def)
  show ?thesis
  proof (cases "map_of xs r")
    case (Some l)
    from finish_list [OF assms(1), where res = None and st = "st[leaf_addr l := v]" and thr = thr]
    show ?thesis using r Some assms(3)
      by (fastforce simp: chunks_6 list_insert_def list_find_map_of set_post_def)
  next
    case None
    let ?l = "\<lparr>leaf_key = key, leaf_addr = length st\<rparr>"
    have "wf_node L d p (DictNode None (ListChildren (xs @ [(r, ?l)])))"
      using w assms None by (intro wf_node.wf_list) (auto simp: map_of_eq_None_iff)
    from finish_list [OF this, where res = "Some ?l" and st = "st @ [v]" and thr = thr] obtain n where
      "(if L - 6 * d > CHUNK_SIZE \<and> length (xs @ [(r, ?l)]) > thr
        then let (n, st') = convertListChildrenToMap (DictNode None (ListChildren (xs @ [(r, ?l)]))) (st @ [v])
          in (Some ?l, n, st')
        else (Some ?l, DictNode None (ListChildren (xs @ [(r, ?l)])), st @ [v])) = (Some ?l, n, st @ [v])"
      "wf_node L d p n" "\<forall>q. length q = L - 6 * d \<longrightarrow> tfind n q = map_of (xs @ [(r, ?l)]) q"
      by blast
    moreover have "map_of (xs @ [(r, ?l)]) q = (if q = r then Some ?l else map_of xs q)" for q
      using None by (auto simp: map_add_def split: option.split)
    ultimately show ?thesis using r None assms(3)
      by (simp add: chunks_6 list_insert_def list_find_map_of set_post_def Let_def)
  qed
qed

lemma list_remove_spec:
  "distinct (map fst xs) \<Longrightarrow> list_remove k xs = (map_of xs k, filter (\<lambda>(k', l). k' \<noteq> k) xs)"
proof (induction xs)
  case Nil
  then show ?case by simp
next
  case (Cons x xs)
  obtain k' l where x: "x = (k', l)" by fastforce
  have "k' = k \<Longrightarrow> filter (\<lambda>(k', l). k' \<noteq> k) xs = xs"
    using Cons.prems x by (force simp: filter_id_conv)
  with Cons x show ?case by auto
qed

lemma map_of_filter_key: "map_of (filter (\<lambda>(k', l). k' \<noteq> k) xs) q = (if q = k then None else map_of xs q)"
  by (induction xs) auto

lemma delete_list:
  assumes "wf_node L d p (DictNode None (ListChildren xs))" "key_raw key = p @ r" "length r = L - 6 * d"
  shows "delete_post L d p r (DictNode None (ListChildren xs)) st
    (internal_set_loop thr key None (chunks CHUNK_SIZE r) d (DictNode None (ListChildren xs)) st)"
proof -
  from assms(1) have w: "6 * d < L" "length p = 6 * d" "distinct (map fst xs)"
    "\<And>k l. (k, l) \<in> set xs \<Longrightarrow> length k = L - 6 * d \<and> key_raw (leaf_key l) = p @ k"
    by (auto elim!: wf_list_cases)
  let ?ys = "filter (\<lambda>(k', l). k' \<noteq> r) xs"
  have r: "r \<noteq> []" "drop (CHUNK_SIZE * d) (key_raw key) = r" using assms w by (auto simp: CHUNK_SIZE_def)
  have "wf_node L d p (DictNode None (ListChildren ?ys))"
    using w by (intro wf_node.wf_list) (auto simp: distinct_map inj_on_def)
  from finish_list [OF this, where res = "map_of xs r" and st = st and thr = thr] obtain n where
    "(if L - 6 * d > CHUNK_SIZE \<and> length ?ys > thr
      then let (n, st') = convertListChildrenToMap (DictNode None (ListChildren ?ys)) st in (map_of xs r, n, st')
      else (map_of xs r, DictNode None (ListChildren ?ys), st)) = (map_of xs r, n, st)"
    "wf_node L d p n" "\<forall>q. length q = L - 6 * d \<longrightarrow> tfind n q = map_of ?ys q"
    by blast
  then show ?thesis using r assms(3) list_remove_spec [OF w(3), of r]
    by (simp add: chunks_6 delete_post_def Let_def map_of_filter_key)
qed

lemma wf_withList: "6 * d < L \<Longrightarrow> length p = 6 * d \<Longrightarrow> wf_node L d p withList"
  by (auto simp: withList_def intro: wf_node.wf_list)

lemma descend:
  assumes "wf_node L d p (DictNode None (MapChildren m))" "key_raw key = p @ r" "length r = L - 6 * d"
  obtains ch s where "r = ch @ s" "length ch = 6" "length s = L - 6 * Suc d" "key_raw key = (p @ ch) @ s"
    "chunks CHUNK_SIZE r = ch # chunks CHUNK_SIZE s" "take 6 r = ch" "drop 6 r = s" "r \<noteq> []"
proof (rule that [of "take 6 r" "drop 6 r"])
  have "6 * Suc d < L" using assms(1) by (auto elim!: wf_map_cases)
  then show "length (take 6 r) = 6" "length (drop 6 r) = L - 6 * Suc d" "r \<noteq> []" using assms by auto
  then show "chunks CHUNK_SIZE r = take 6 r # chunks CHUNK_SIZE (drop 6 r)" by (simp add: chunks_6)
qed (use assms in auto)

lemma child_wf:
  assumes "wf_node L d p (DictNode None (MapChildren m))" "getChild m ch = Some c" "length ch = 6"
  shows "wf_node L (Suc d) (p @ ch) c"
proof -
  have "(chunk_number ch, c) \<in> set m" using assms(2) by (simp add: getChild_def map_of_SomeD)
  then obtain ch' where "length ch' = 6" "chunk_number ch = chunk_number ch'" "wf_node L (Suc d) (p @ ch') c"
    using assms(1) by (auto elim!: wf_map_cases)
  with chunk_number_inject [of ch ch'] assms(3) show ?thesis by auto
qed

text \<open>A missing child behaves like an empty list node.\<close>

definition child_of :: "(int \<times> dict_node) list \<Rightarrow> blob \<Rightarrow> dict_node" where
  "child_of m ch = (case getChild m ch of Some c \<Rightarrow> c | None \<Rightarrow> withList)"

lemma tfind_withList [simp]: "tfind withList q = None"
  by (simp add: withList_def)

lemma tfind_map_child: "q \<noteq> [] \<Longrightarrow> tfind (DictNode lf (MapChildren m)) q = tfind (child_of m (take 6 q)) (drop 6 q)"
  by (simp add: child_of_def getChild_def split: option.split)

lemma tfind_setChild:
  assumes "wf_node L d p (DictNode None (MapChildren m))" "length ch = 6" "length q = L - 6 * d"
  shows "tfind (DictNode None (MapChildren (setChild m ch c))) q =
    (if take 6 q = ch then tfind c (drop 6 q) else tfind (DictNode None (MapChildren m)) q)"
  by (rule tfind_child [OF assms])

lemma set_post_map:
  assumes "wf_node L d p (DictNode None (MapChildren m))" "r = ch @ s" "length ch = 6" "length r = L - 6 * d"
    "set_post L (Suc d) (p @ ch) key v s (child_of m ch) st (res, n', st')"
  shows "set_post L d p key v r (DictNode None (MapChildren m)) st
    (res, DictNode None (MapChildren (setChild m ch n')), st')"
proof -
  have L: "6 * Suc d < L" using assms(1) by (auto elim!: wf_map_cases)
  have child: "wf_node L (Suc d) (p @ ch) n'" using assms(5) by (simp add: set_post_def)
  have old: "tfind (DictNode None (MapChildren m)) q = tfind (child_of m (take 6 q)) (drop 6 q)"
    if "length q = L - 6 * d" for q
    by (rule tfind_map_child) (use that L in auto)
  note new = tfind_setChild [OF assms(1,3)]
  have r: "take 6 r = ch" "drop 6 r = s" using assms(2,3) by auto
  have eq: "q = r \<longleftrightarrow> take 6 q = ch \<and> drop 6 q = s" for q using r by (metis append_take_drop_id)
  have short: "length q = L - 6 * d \<Longrightarrow> length (drop 6 q) = L - 6 * Suc d" for q :: blob using L by simp
  show ?thesis
    using assms(4,5) wf_setChild [OF assms(1) child assms(3)] old [OF assms(4)] r old new eq short
    unfolding set_post_def by (cases "tfind (child_of m ch) s") (auto simp del: tfind.simps)
qed

lemma delete_post_map:
  assumes "wf_node L d p (DictNode None (MapChildren m))" "r = ch @ s" "length ch = 6" "length r = L - 6 * d"
    "delete_post L (Suc d) (p @ ch) s (child_of m ch) st (res, n', st')"
  shows "delete_post L d p r (DictNode None (MapChildren m)) st
    (res, DictNode None (MapChildren (setChild m ch n')), st')"
proof -
  have L: "6 * Suc d < L" using assms(1) by (auto elim!: wf_map_cases)
  have child: "wf_node L (Suc d) (p @ ch) n'" using assms(5) by (simp add: delete_post_def)
  have old: "tfind (DictNode None (MapChildren m)) q = tfind (child_of m (take 6 q)) (drop 6 q)"
    if "length q = L - 6 * d" for q
    by (rule tfind_map_child) (use that L in auto)
  note new = tfind_setChild [OF assms(1,3)]
  have r: "take 6 r = ch" "drop 6 r = s" using assms(2,3) by auto
  have eq: "q = r \<longleftrightarrow> take 6 q = ch \<and> drop 6 q = s" for q using r by (metis append_take_drop_id)
  have short: "length q = L - 6 * d \<Longrightarrow> length (drop 6 q) = L - 6 * Suc d" for q :: blob using L by simp
  show ?thesis
    using assms(4,5) wf_setChild [OF assms(1) child assms(3)] old [OF assms(4)] r old new eq short
    unfolding delete_post_def by (auto simp del: tfind.simps)
qed

lemma set_ok:
  assumes "wf_node L d p n" "key_raw key = p @ r" "length r = L - 6 * d"
  shows "set_post L d p key v r n st (internal_set_loop thr key (Some v) (chunks CHUNK_SIZE r) d n st)"
  using assms
proof (induction arbitrary: r st rule: wf_node.induct)
  case (wf_list d L p xs)
  have "wf_node L d p (DictNode None (ListChildren xs))" using wf_list by (intro wf_node.wf_list) auto
  from set_list [OF this wf_list.prems] show ?case .
next
  case (wf_map d L p m)
  have w: "wf_node L d p (DictNode None (MapChildren m))"
    using wf_map(1-3) wf_map.IH by (intro wf_node.wf_map) blast+
  from descend [OF w wf_map.prems] obtain ch s where ch: "r = ch @ s" "length ch = 6"
    "length s = L - 6 * Suc d" "key_raw key = (p @ ch) @ s" "chunks CHUNK_SIZE r = ch # chunks CHUNK_SIZE s" .
  have post: "set_post L (Suc d) (p @ ch) key v s (child_of m ch) st
      (internal_set_loop thr key (Some v) (chunks CHUNK_SIZE s) (Suc d) (child_of m ch) st)"
  proof (cases "getChild m ch")
    case None
    have "wf_node L (Suc d) (p @ ch) withList" using wf_map(1,2) ch(2) by (intro wf_withList) auto
    from set_list [OF this [unfolded withList_def] ch(4,3)] None show ?thesis
      by (simp add: child_of_def withList_def)
  next
    case (Some c)
    then have "(chunk_number ch, c) \<in> set m" by (simp add: getChild_def map_of_SomeD)
    from wf_map.IH [OF this] obtain ch' where "length ch' = 6" "chunk_number ch = chunk_number ch'"
      "\<And>r st. key_raw key = (p @ ch') @ r \<Longrightarrow> length r = L - 6 * Suc d \<Longrightarrow> set_post L (Suc d) (p @ ch') key v r c st
        (internal_set_loop thr key (Some v) (chunks CHUNK_SIZE r) (Suc d) c st)"
      by blast
    with chunk_number_inject [of ch ch'] ch Some show ?thesis by (simp add: child_of_def)
  qed
  obtain res n' st' where call:
    "internal_set_loop thr key (Some v) (chunks CHUNK_SIZE s) (Suc d) (child_of m ch) st = (res, n', st')"
    using prod_cases3 by blast
  then have "internal_set_loop thr key (Some v) (chunks CHUNK_SIZE r) d (DictNode None (MapChildren m)) st =
      (res, DictNode None (MapChildren (setChild m ch n')), st')"
    by (auto simp: ch(5) child_of_def split: option.splits)
  with set_post_map [OF w ch(1,2) wf_map.prems(2) post [unfolded call]] show ?case by simp
qed

lemma delete_ok:
  fixes st :: "'v list"
  assumes "wf_node L d p n" "key_raw key = p @ r" "length r = L - 6 * d"
  shows "delete_post L d p r n st (internal_set_loop thr key None (chunks CHUNK_SIZE r) d n st)"
  using assms
proof (induction arbitrary: r st rule: wf_node.induct)
  case (wf_list d L p xs)
  have "wf_node L d p (DictNode None (ListChildren xs))" using wf_list by (intro wf_node.wf_list) auto
  from delete_list [OF this wf_list.prems] show ?case .
next
  case (wf_map d L p m)
  have w: "wf_node L d p (DictNode None (MapChildren m))"
    using wf_map(1-3) wf_map.IH by (intro wf_node.wf_map) blast+
  from descend [OF w wf_map.prems] obtain ch s where ch: "r = ch @ s" "length ch = 6"
    "length s = L - 6 * Suc d" "key_raw key = (p @ ch) @ s" "chunks CHUNK_SIZE r = ch # chunks CHUNK_SIZE s"
    "take 6 r = ch" "drop 6 r = s" "r \<noteq> []" .
  show ?case
  proof (cases "getChild m ch")
    case None
    then have "tfind (DictNode None (MapChildren m)) r = None"
      using tfind_map_child [OF ch(8)] ch(6) by (simp add: child_of_def del: tfind.simps)
    with None w ch(5) show ?thesis by (simp add: delete_post_def del: tfind.simps)
  next
    case (Some c)
    then have "(chunk_number ch, c) \<in> set m" by (simp add: getChild_def map_of_SomeD)
    from wf_map.IH [OF this] obtain ch' where "length ch' = 6" "chunk_number ch = chunk_number ch'"
      "\<And>r (st :: 'v list). key_raw key = (p @ ch') @ r \<Longrightarrow> length r = L - 6 * Suc d \<Longrightarrow> delete_post L (Suc d) (p @ ch') r c st
        (internal_set_loop thr key None (chunks CHUNK_SIZE r) (Suc d) c st)"
      by blast
    with chunk_number_inject [of ch ch'] ch(2-4) have post: "delete_post L (Suc d) (p @ ch) s (child_of m ch) st
        (internal_set_loop thr key None (chunks CHUNK_SIZE s) (Suc d) c st)"
      using Some by (simp add: child_of_def)
    obtain res n' st' where call:
      "internal_set_loop thr key None (chunks CHUNK_SIZE s) (Suc d) c st = (res, n', st')"
      using prod_cases3 by blast
    then have "internal_set_loop thr key None (chunks CHUNK_SIZE r) d (DictNode None (MapChildren m)) st =
        (res, DictNode None (MapChildren (setChild m ch n')), st')"
      using Some by (simp add: ch(5))
    with delete_post_map [OF w ch(1,2) wf_map.prems(2) post [unfolded call]] show ?thesis by (simp only:)
  qed
qed

section \<open>The dictionary as an association list\<close>

text \<open>The entries the iterators yield, by the bytes of their keys.\<close>

definition dict_abs :: "'v blob_dictionary \<Rightarrow> (blob \<times> 'v) list" where
  "dict_abs d = map (\<lambda>(k, v). (key_raw k, v)) (dict_entries d)"

text \<open>The tree and \<open>keyvals\<close> have the same leaves, at distinct addresses of the store.\<close>

definition dict_wf :: "nat \<Rightarrow> 'v blob_dictionary \<Rightarrow> bool" where
  "dict_wf L d \<longleftrightarrow> 0 < L \<and> wf_node L 0 [] (dict_root d) \<and>
    (\<forall>(k, l) \<in> set (keyvals d). k = leaf_key l \<and> length (key_raw k) = L \<and> leaf_addr l < length (store d)) \<and>
    distinct (map (\<lambda>(k, l). key_raw k) (keyvals d)) \<and> distinct (map (\<lambda>(k, l). leaf_addr l) (keyvals d)) \<and>
    (\<forall>q l. length q = L \<longrightarrow>
      (tfind (dict_root d) q = Some l \<longleftrightarrow> (leaf_key l, l) \<in> set (keyvals d) \<and> key_raw (leaf_key l) = q))"

lemma dict_abs_eq: "dict_wf L d \<Longrightarrow> dict_abs d = map (\<lambda>(k, l). (key_raw k, leaf_value d l)) (keyvals d)"
  unfolding dict_wf_def dict_abs_def dict_entries_def by fastforce

lemma update_append: "k \<notin> fst ` set xs \<Longrightarrow> AList.update k v xs = xs @ [(k, v)]"
  by (induction xs) auto

lemma map_fst_keyvals: "map fst (map (\<lambda>(k, l). (key_raw k, f l)) xs) = map (\<lambda>(k, l). key_raw k) xs"
  by (induction xs) auto

lemma new_dictionary_wf: "0 < L \<Longrightarrow> dict_wf L (new_dictionary thr)" "dict_abs (new_dictionary thr) = []"
  by (auto simp: dict_wf_def new_dictionary_def dict_abs_def dict_entries_def intro: wf_withList)

lemma tfind_keyvals:
  assumes "dict_wf L d" "length q = L"
  shows "map_option (leaf_value d) (tfind (dict_root d) q) = map_of (dict_abs d) q"
proof -
  let ?al = "map (\<lambda>(k, l). (key_raw k, leaf_value d l)) (keyvals d)"
  have dist: "distinct (map fst ?al)" using assms(1) by (simp add: dict_wf_def map_fst_keyvals del: map_map)
  have f: "tfind (dict_root d) q = Some l \<longleftrightarrow> (leaf_key l, l) \<in> set (keyvals d) \<and> key_raw (leaf_key l) = q" for l
    using assms by (simp add: dict_wf_def)
  show ?thesis
  proof (cases "tfind (dict_root d) q")
    case None
    have "q \<notin> fst ` set ?al"
    proof
      assume "q \<in> fst ` set ?al"
      then obtain k l where "(k, l) \<in> set (keyvals d)" "key_raw k = q" by auto
      with assms(1) f [of l] None show False by (auto simp: dict_wf_def)
    qed
    then have "map_of ?al q = None" by (simp only: map_of_eq_None_iff not_False_eq_True)
    with None show ?thesis by (simp add: dict_abs_eq [OF assms(1)] del: map_map)
  next
    case (Some l)
    with f have "(q, leaf_value d l) \<in> set ?al" by force
    then have "map_of ?al q = Some (leaf_value d l)" using dist by (simp only: map_of_is_SomeI)
    with Some show ?thesis by (simp add: dict_abs_eq [OF assms(1)] del: map_map)
  qed
qed

lemma dict_get_abs:
  assumes "dict_wf L d" "length (key_raw k) = L"
  shows "dict_get k d = map_of (dict_abs d) (key_raw k)"
proof -
  have "get_loop (key_raw k) (chunks CHUNK_SIZE (key_raw k)) 0 (dict_root d) = tfind (dict_root d) (key_raw k)"
    using assms by (intro get_loop_tfind) (auto simp: dict_wf_def)
  then show ?thesis using tfind_keyvals [OF assms] by (simp add: dict_get_def)
qed

lemma dict_size_abs: "dict_wf L d \<Longrightarrow> dict_size d = length (dict_abs d)"
  by (simp add: dict_size_def dict_abs_eq)

text \<open>Overwriting one address changes one entry.\<close>

lemma map_store_update:
  assumes "distinct (map (\<lambda>(k, l). key_raw k) xs)" "distinct (map (\<lambda>(k, l). leaf_addr l) xs)"
    "\<forall>(k, l) \<in> set xs. leaf_addr l < length st" "(k, l) \<in> set xs"
  shows "map (\<lambda>(k', l'). (key_raw k', st[leaf_addr l := v] ! leaf_addr l')) xs =
    AList.update (key_raw k) v (map (\<lambda>(k, l). (key_raw k, st ! leaf_addr l)) xs)"
  using assms
proof (induction xs)
  case Nil
  then show ?case by simp
next
  case (Cons x xs)
  obtain k' l' where x: "x = (k', l')" by fastforce
  show ?case
  proof (cases "(k, l) = x")
    case True
    have "map (\<lambda>(k', l'). (key_raw k', st[leaf_addr l := v] ! leaf_addr l')) xs =
        map (\<lambda>(k, l). (key_raw k, st ! leaf_addr l)) xs"
      using Cons.prems True x by (intro map_cong) (force simp: nth_list_update)+
    with True x Cons.prems show ?thesis by auto
  next
    case False
    then have mem: "(k, l) \<in> set xs" using Cons.prems by auto
    then have "leaf_addr l \<noteq> leaf_addr l'" "key_raw k \<noteq> key_raw k'" using Cons.prems x by force+
    with Cons mem x show ?thesis by auto
  qed
qed

lemma dict_set_ok:
  fixes d :: "'v blob_dictionary"
  assumes "dict_wf L d" "length (key_raw k) = L"
  shows "dict_wf L (dict_set k v d)" "dict_abs (dict_set k v d) = AList.update (key_raw k) v (dict_abs d)"
proof -
  have d: "0 < L" "wf_node L 0 [] (dict_root d)"
    "\<forall>(k, l) \<in> set (keyvals d). k = leaf_key l \<and> length (key_raw k) = L \<and> leaf_addr l < length (store d)"
    "distinct (map (\<lambda>(k, l). key_raw k) (keyvals d))" "distinct (map (\<lambda>(k, l). leaf_addr l) (keyvals d))"
    "\<And>q l. length q = L \<Longrightarrow>
      tfind (dict_root d) q = Some l \<longleftrightarrow> (leaf_key l, l) \<in> set (keyvals d) \<and> key_raw (leaf_key l) = q"
    using assms(1) by (auto simp: dict_wf_def)
  obtain res n st where call: "internal_set_loop (mapNodeThreshold d) k (Some v) (chunks CHUNK_SIZE (key_raw k)) 0
      (dict_root d) (store d) = (res, n, st)" using prod_cases3 by blast
  have post: "set_post L 0 [] k v (key_raw k) (dict_root d) (store d) (res, n, st)"
    unfolding call [symmetric] by (rule set_ok [OF d(2)]) (use assms(2) in auto)
  show "dict_wf L (dict_set k v d)"
    "dict_abs (dict_set k v d) = AList.update (key_raw k) v (dict_abs d)"
  proof (atomize (full), cases "tfind (dict_root d) (key_raw k)")
    case (Some l)
    then have r: "dict_set k v d = d\<lparr>dict_root := n, store := (store d)[leaf_addr l := v]\<rparr>" "wf_node L 0 [] n"
      "\<And>q. length q = L \<Longrightarrow> tfind n q = tfind (dict_root d) q"
      using post call by (auto simp: set_post_def dict_set_def internalSet_def)
    have wf: "dict_wf L (dict_set k v d)"
      unfolding r(1) dict_wf_def using d r(2,3) by auto
    have l: "(leaf_key l, l) \<in> set (keyvals d)" "key_raw (leaf_key l) = key_raw k"
      using d(6) [OF assms(2)] Some by auto
    have "dict_abs (dict_set k v d) = AList.update (key_raw (leaf_key l)) v (dict_abs d)"
      unfolding dict_abs_eq [OF wf] dict_abs_eq [OF assms(1)]
      using map_store_update [OF d(4,5) _ l(1), of "store d" v] d(3)
      by (auto simp: r(1) leaf_value_def)
    with wf l show "dict_wf L (dict_set k v d) \<and>
        dict_abs (dict_set k v d) = AList.update (key_raw k) v (dict_abs d)" by simp
  next
    case None
    define l where "l = \<lparr>leaf_key = k, leaf_addr = length (store d)\<rparr>"
    have fresh: "key_raw k \<notin> (\<lambda>(k, l). key_raw k) ` set (keyvals d)"
    proof
      assume "key_raw k \<in> (\<lambda>(k, l). key_raw k) ` set (keyvals d)"
      then obtain k' l' where "(k', l') \<in> set (keyvals d)" "key_raw k' = key_raw k" by auto
      with d(3) d(6) [OF assms(2), of l'] None show False by fastforce
    qed
    then have nk: "k \<notin> fst ` set (keyvals d)" by force
    have r: "dict_set k v d = d\<lparr>dict_root := n, store := store d @ [v], keyvals := keyvals d @ [(k, l)]\<rparr>"
      "wf_node L 0 [] n" "\<And>q. length q = L \<Longrightarrow> tfind n q = (if q = key_raw k then Some l else tfind (dict_root d) q)"
      using post call None
      by (auto simp: set_post_def dict_set_def internalSet_def l_def update_append [OF nk])
    have old: "(k', l') \<in> set (keyvals d) \<Longrightarrow> leaf_addr l' < length (store d)" for k' l' using d(3) by auto
    have "tfind n q = Some l' \<longleftrightarrow>
        (leaf_key l', l') \<in> set (keyvals d @ [(k, l)]) \<and> key_raw (leaf_key l') = q" if "length q = L" for q l'
    proof (cases "q = key_raw k")
      case True
      then have "(leaf_key l', l') \<in> set (keyvals d) \<Longrightarrow> key_raw (leaf_key l') \<noteq> q" using fresh by force
      with True r(3) [OF that] show ?thesis by (auto simp: l_def)
    next
      case False
      with r(3) [OF that] d(6) [OF that] show ?thesis by (auto simp: l_def)
    qed
    moreover have "\<forall>(k', l') \<in> set (keyvals d @ [(k, l)]). k' = leaf_key l' \<and> length (key_raw k') = L \<and>
        leaf_addr l' < length (store d @ [v])"
      using d(3) assms(2) by (auto simp: l_def less_Suc_eq dest: old)
    moreover have "distinct (map (\<lambda>(k, l). leaf_addr l) (keyvals d @ [(k, l)]))"
      using d(5) by (auto simp: l_def dest: old)
    moreover have "distinct (map (\<lambda>(k, l). key_raw k) (keyvals d @ [(k, l)]))" using d(4) fresh by auto
    ultimately have wf: "dict_wf L (dict_set k v d)"
      unfolding r(1) dict_wf_def using d(1) r(2) by (auto simp del: set_append)
    have "dict_abs (dict_set k v d) = dict_abs d @ [(key_raw k, v)]"
      unfolding dict_abs_eq [OF wf] dict_abs_eq [OF assms(1)]
      by (auto simp: r(1) leaf_value_def nth_append l_def dest: old)
    moreover have "key_raw k \<notin> fst ` set (dict_abs d)"
      using fresh by (force simp: dict_abs_eq [OF assms(1)])
    ultimately show "dict_wf L (dict_set k v d) \<and>
        dict_abs (dict_set k v d) = AList.update (key_raw k) v (dict_abs d)"
      using wf by (simp add: update_append)
  qed
qed

lemma delete_notin: "k \<notin> fst ` set xs \<Longrightarrow> AList.delete k xs = xs"
  by (induction xs) auto

lemma map_delete_raw:
  assumes "distinct (map (\<lambda>(k, l). key_raw k) xs)" "(k, l) \<in> set xs"
  shows "map (\<lambda>(k, l). (key_raw k, f l)) (AList.delete k xs) =
    AList.delete (key_raw k) (map (\<lambda>(k, l). (key_raw k, f l)) xs)"
  using assms
proof (induction xs)
  case Nil
  then show ?case by simp
next
  case (Cons x xs)
  obtain k' l' where x: "x = (k', l')" by fastforce
  show ?case
  proof (cases "k = k'")
    case True
    have "k' \<notin> fst ` set xs" "key_raw k' \<notin> fst ` set (map (\<lambda>(k, l). (key_raw k, f l)) xs)"
      using Cons.prems x by force+
    with True x show ?thesis by (simp add: delete_notin)
  next
    case False
    then have "(k, l) \<in> set xs" "key_raw k \<noteq> key_raw k'" using Cons.prems x by force+
    with Cons False x show ?thesis by simp
  qed
qed

lemma set_delete: "set (AList.delete k xs) = {(k', l) \<in> set xs. k' \<noteq> k}"
  by (auto simp: AList.delete_eq)

lemma distinct_map_delete: "distinct (map f xs) \<Longrightarrow> distinct (map f (AList.delete k xs))"
  unfolding AList.delete_eq by (rule distinct_map_filter)

lemma dict_delete_ok:
  fixes d :: "'v blob_dictionary"
  assumes "dict_wf L d" "length (key_raw k) = L" "dict_delete k d = (b, d')"
  shows "dict_wf L d'" "dict_abs d' = AList.delete (key_raw k) (dict_abs d)"
    "b \<longleftrightarrow> key_raw k \<in> fst ` set (dict_abs d)"
proof -
  have d: "0 < L" "wf_node L 0 [] (dict_root d)"
    "\<forall>(k, l) \<in> set (keyvals d). k = leaf_key l \<and> length (key_raw k) = L \<and> leaf_addr l < length (store d)"
    "distinct (map (\<lambda>(k, l). key_raw k) (keyvals d))" "distinct (map (\<lambda>(k, l). leaf_addr l) (keyvals d))"
    "\<And>q l. length q = L \<Longrightarrow>
      tfind (dict_root d) q = Some l \<longleftrightarrow> (leaf_key l, l) \<in> set (keyvals d) \<and> key_raw (leaf_key l) = q"
    using assms(1) by (auto simp: dict_wf_def)
  obtain res n st where call: "internal_set_loop (mapNodeThreshold d) k None (chunks CHUNK_SIZE (key_raw k)) 0
      (dict_root d) (store d) = (res, n, st)" using prod_cases3 by blast
  have "delete_post L 0 [] (key_raw k) (dict_root d) (store d) (res, n, st)"
    unfolding call [symmetric] by (rule delete_ok [OF d(2)]) (use assms(2) in auto)
  then have post: "wf_node L 0 [] n" "st = store d" "res = tfind (dict_root d) (key_raw k)"
    "\<And>q. length q = L \<Longrightarrow> tfind n q = (if q = key_raw k then None else tfind (dict_root d) q)"
    by (auto simp: delete_post_def)
  show "dict_wf L d'" "dict_abs d' = AList.delete (key_raw k) (dict_abs d)"
    "b \<longleftrightarrow> key_raw k \<in> fst ` set (dict_abs d)"
  proof (atomize (full), cases res)
    case None
    then have r: "b = False" "d' = d\<lparr>dict_root := n\<rparr>"
      using assms(3) call post(2) by (auto simp: dict_delete_def internalSet_def)
    have "tfind n q = tfind (dict_root d) q" if "length q = L" for q
      using post(3,4) None that by auto
    then have wf: "dict_wf L d'" unfolding r dict_wf_def using d post(1) by auto
    moreover have "dict_abs d' = dict_abs d" by (simp add: r dict_abs_def dict_entries_def leaf_value_def)
    moreover have "map_of (dict_abs d) (key_raw k) = None"
      using tfind_keyvals [OF assms(1,2)] None post(3) by simp
    ultimately show "dict_wf L d' \<and> dict_abs d' = AList.delete (key_raw k) (dict_abs d) \<and>
        b = (key_raw k \<in> fst ` set (dict_abs d))"
      using r(1) by (simp add: map_of_eq_None_iff delete_notin)
  next
    case (Some l)
    then have l: "(leaf_key l, l) \<in> set (keyvals d)" "key_raw (leaf_key l) = key_raw k"
      using d(6) [OF assms(2)] post(3) by auto
    from Some have r: "b = True" "d' = d\<lparr>dict_root := n, keyvals := AList.delete (leaf_key l) (keyvals d)\<rparr>"
      using assms(3) call post(2) by (auto simp: dict_delete_def internalSet_def)
    have raw: "key_raw k' = key_raw (leaf_key l) \<longleftrightarrow> k' = leaf_key l" if "(k', l') \<in> set (keyvals d)" for k' l'
      using d(4) that l(1) by (auto simp: distinct_map inj_on_def)
    have "tfind n q = Some l' \<longleftrightarrow>
        (leaf_key l', l') \<in> set (AList.delete (leaf_key l) (keyvals d)) \<and> key_raw (leaf_key l') = q"
      if "length q = L" for q l'
      using d(6) [OF that, of l'] post(4) [OF that] raw [of "leaf_key l'" l'] l(2) by (auto simp: set_delete)
    moreover have "\<forall>(k', l') \<in> set (AList.delete (leaf_key l) (keyvals d)). k' = leaf_key l' \<and>
        length (key_raw k') = L \<and> leaf_addr l' < length (store d)"
      using d(3) by (auto simp: set_delete)
    ultimately have wf: "dict_wf L d'"
      unfolding r dict_wf_def using d(1,4,5) post(1) by (simp add: distinct_map_delete)
    have "dict_abs d' = AList.delete (key_raw (leaf_key l)) (dict_abs d)"
      unfolding dict_abs_eq [OF wf] dict_abs_eq [OF assms(1)]
      using map_delete_raw [OF d(4) l(1), of "leaf_value d"] by (simp add: r leaf_value_def)
    moreover have "key_raw k \<in> fst ` set (dict_abs d)"
      using l by (force simp: dict_abs_eq [OF assms(1)])
    ultimately show "dict_wf L d' \<and> dict_abs d' = AList.delete (key_raw k) (dict_abs d) \<and>
        b = (key_raw k \<in> fst ` set (dict_abs d))"
      using wf r(1) l(2) by simp
  qed
qed

lemma dict_sets_ok:
  assumes "dict_wf L d" "\<forall>(k, v) \<in> set es. length (key_raw k) = L"
  shows "dict_wf L (fold (\<lambda>(k, v). dict_set k v) es d)"
    "dict_abs (fold (\<lambda>(k, v). dict_set k v) es d) = fold (\<lambda>(k, v). AList.update (key_raw k) v) es (dict_abs d)"
  using assms by (induction es arbitrary: d) (auto simp: dict_set_ok)

section \<open>Sets of hashes and truncated keys\<close>

lemma hs_has_iff: "dict_wf L s \<Longrightarrow> length (key_raw k) = L \<Longrightarrow> hs_has k s \<longleftrightarrow> key_raw k \<in> fst ` set (dict_abs s)"
  by (simp add: hs_has_def dict_has_def dict_get_abs map_of_eq_None_iff)

lemma hs_elements_raw: "map key_raw (hs_elements s) = map fst (dict_abs s)"
  by (simp add: hs_elements_def dict_abs_def comp_def case_prod_unfold)

lemma set_elements_raw: "key_raw ` set (hs_elements s) = fst ` set (dict_abs s)"
  by (metis hs_elements_raw list.set_map)

lemma hs_elements_length: "dict_wf L s \<Longrightarrow> k \<in> set (hs_elements s) \<Longrightarrow> length (key_raw k) = L"
  by (auto simp: hs_elements_def dict_entries_def dict_wf_def)

lemma hs_intersection_set:
  assumes "dict_wf L s" "dict_wf L t"
  shows "key_raw ` set (hs_intersection s t) = fst ` set (dict_abs s) \<inter> fst ` set (dict_abs t)"
proof -
  have "key_raw ` {e \<in> set (hs_elements u). hs_has e w} = fst ` set (dict_abs u) \<inter> fst ` set (dict_abs w)"
    if "dict_wf L u" "dict_wf L w" for u w
  proof -
    have "hs_has k w \<longleftrightarrow> key_raw k \<in> fst ` set (dict_abs w)" if "k \<in> set (hs_elements u)" for k
      using hs_has_iff [OF \<open>dict_wf L w\<close>] hs_elements_length [OF \<open>dict_wf L u\<close> that] by simp
    then have "{e \<in> set (hs_elements u). hs_has e w} =
        {e \<in> set (hs_elements u). key_raw e \<in> fst ` set (dict_abs w)}" by blast
    also have "key_raw ` \<dots> = key_raw ` set (hs_elements u) \<inter> fst ` set (dict_abs w)" by blast
    finally show ?thesis by (simp only: set_elements_raw)
  qed
  from this [OF assms] this [OF assms(2,1)] show ?thesis
    by (auto simp: hs_intersection_def)
qed

lemma getTruncatedKey_eq:
  "getTruncatedKey r k =
    (if length (key_raw k) < 31 then Inl AssertionFailure
     else if length (key_raw k) = 31 then Inr k else Inr \<lparr>key_ref = r, key_raw = take 31 (key_raw k)\<rparr>)"
  by (auto simp: getTruncatedKey_def TRUNCATED_HASH_SIZE_def bytes_fromBlob_def new_Bytes_def subarray_def check_def)

lemma thd_set_get:
  assumes "dict_wf 31 d" "length (key_raw k) \<ge> 31" "length (key_raw q) \<ge> 31"
  shows "\<exists>d'. thd_set r k v d = Inr d' \<and> dict_wf 31 d' \<and>
    thd_get s q d' = (if take 31 (key_raw q) = take 31 (key_raw k) then Inr (Some v) else thd_get s q d)"
proof -
  obtain k' where k': "getTruncatedKey r k = Inr k'" "key_raw k' = take 31 (key_raw k)" "length (key_raw k') = 31"
    using assms(2) by (cases "length (key_raw k) = 31") (auto simp: getTruncatedKey_eq)
  obtain q' where q': "getTruncatedKey s q = Inr q'" "key_raw q' = take 31 (key_raw q)" "length (key_raw q') = 31"
    using assms(3) by (cases "length (key_raw q) = 31") (auto simp: getTruncatedKey_eq)
  show ?thesis
    using dict_get_abs [OF dict_set_ok(1) [OF assms(1) k'(3)] q'(3), of v] dict_get_abs [OF assms(1) q'(3)]
      dict_set_ok [OF assms(1) k'(3), of v]
    by (simp add: thd_set_def thd_get_def update_conv' k'(1,2) q'(1,2))
qed

section \<open>Keys of different lengths\<close>

text \<open>
  With keys of several lengths the dictionary is no map. A key whose length is a multiple of six
  sits in a list under the empty rest once its node is split, but \<open>internalSet\<close> then writes the leaf
  of the node, which \<open>get\<close> never reaches; and a node's leaf answers for every longer key its list lacks.
\<close>

definition short_key :: key_obj where "short_key = \<lparr>key_ref = 0, key_raw = [1, 2, 3, 4, 5, 6]\<rparr>"
definition long_key :: key_obj where "long_key = \<lparr>key_ref = 1, key_raw = [9, 9, 9, 9, 9, 9, 9]\<rparr>"
definition empty_key :: key_obj where "empty_key = \<lparr>key_ref = 2, key_raw = []\<rparr>"

lemma mixed_keys_lose_update:
  "dict_get short_key (dict_set short_key (20 :: int) (dict_set long_key 5 (dict_set short_key 10 (new_dictionary 0)))) =
    Some 10"
  by code_simp

lemma empty_key_answers:
  "dict_get long_key (dict_set empty_key (7 :: int) (new_dictionary 0)) = Some 7"
  by code_simp

end
