(* ===== verification/Containers.thy ===== *)
theory Containers
  imports Prelude "HOL-Library.AList"
begin

text \<open>
  Three small containers of \<open>packages/core/collections\<close>: \<open>array-view.ts\<close> (a window of an array),
  \<open>sized-array.ts\<close> (arrays of a fixed length) and \<open>multi-map.ts\<close> (a map under several keys, as
  nested maps). A JavaScript \<open>Map\<close> is the list of its entries in insertion order. An index is an
  \<open>int\<close> where the code checks that it is not negative.
\<close>

section \<open>\<open>ArrayView\<close>\<close>

record 'a array_view =
  av_source :: "'a list"
  av_start :: nat
  av_end :: nat
  av_length :: nat

definition av_from :: "'a list \<Rightarrow> int \<Rightarrow> int \<Rightarrow> 'a array_view throws" where
  "av_from source start stop =
    check (start \<ge> 0 \<and> stop \<le> int (length source) \<and> start \<le> stop)
      (Inr \<lparr>av_source = source, av_start = nat start, av_end = nat stop, av_length = nat (stop - start)\<rparr>)"

definition av_get :: "'a array_view \<Rightarrow> int \<Rightarrow> 'a throws" where
  "av_get v i = check (i \<ge> 0 \<and> i < int (av_length v)) (Inr (av_source v ! (av_start v + nat i)))"

definition av_subview :: "'a array_view \<Rightarrow> int \<Rightarrow> int option \<Rightarrow> 'a array_view throws" where
  "av_subview v begin_at to =
    (let to = (case to of Some t \<Rightarrow> t | None \<Rightarrow> int (av_length v)) in
     av_from (av_source v) (int (av_start v) + begin_at) (int (av_start v) + to))"

definition av_toArray :: "'a array_view \<Rightarrow> 'a list" where
  "av_toArray v = subarray (av_source v) (av_start v) (av_end v)"

definition av_iterate :: "'a array_view \<Rightarrow> 'a list" where
  "av_iterate v = map (\<lambda>i. av_source v ! i) [av_start v..<av_end v]"

definition av_wf :: "'a array_view \<Rightarrow> bool" where
  "av_wf v \<longleftrightarrow> av_start v \<le> av_end v \<and> av_end v \<le> length (av_source v) \<and> av_length v = av_end v - av_start v"

lemma av_from_wf:
  assumes "av_from xs s e = Inr v"
  shows "av_wf v" "av_toArray v = subarray xs (nat s) (nat e)"
  using assms by (auto simp: av_from_def av_wf_def av_toArray_def nat_diff_distrib)

lemma av_iterate_eq: "av_wf v \<Longrightarrow> av_iterate v = av_toArray v"
  by (rule nth_equalityI) (auto simp: av_wf_def av_iterate_def av_toArray_def nth_subarray)

lemma av_get_eq:
  "av_wf v \<Longrightarrow> av_get v i = (if 0 \<le> i \<and> i < int (length (av_toArray v)) then Inr (av_toArray v ! nat i)
    else Inl AssertionFailure)"
  by (auto simp: av_get_def av_wf_def av_toArray_def check_def nth_subarray nat_less_iff)

lemma av_subview_eq:
  assumes "av_wf v" "av_subview v s (Some e) = Inr w" "0 \<le> s" "e \<le> int (av_length v)"
  shows "av_wf w" "av_toArray w = subarray (av_toArray v) (nat s) (nat e)"
proof -
  from assms(2) have w: "av_from (av_source v) (int (av_start v) + s) (int (av_start v) + e) = Inr w"
    by (simp add: av_subview_def)
  then have "s \<le> e" by (simp add: av_from_def)
  show "av_wf w" by (rule av_from_wf [OF w])
  have "nat (int (av_start v) + s) = av_start v + nat s" "nat (int (av_start v) + e) = av_start v + nat e"
    using assms(3) \<open>s \<le> e\<close> by auto
  moreover have "nat e \<le> av_end v - av_start v" using assms(1,4) by (simp add: av_wf_def)
  moreover note av_from_wf(2) [OF w]
  ultimately have "av_toArray w = subarray (av_source v) (av_start v + nat s) (av_start v + nat e)" by simp
  also have "\<dots> = subarray (av_toArray v) (nat s) (nat e)"
    using \<open>nat e \<le> av_end v - av_start v\<close>
    by (auto simp: av_toArray_def subarray_def drop_take min_def add.commute)
  finally show "av_toArray w = subarray (av_toArray v) (nat s) (nat e)" .
qed

section \<open>\<open>FixedSizeArray\<close>\<close>

definition fsa_new :: "'a list \<Rightarrow> nat \<Rightarrow> 'a list throws" where
  "fsa_new arr len = check (length arr = len) (Inr arr)"

fun fsa_fill_loop :: "(nat \<Rightarrow> 'a) \<Rightarrow> nat \<Rightarrow> nat \<Rightarrow> 'a list \<Rightarrow> 'a list" where
  "fsa_fill_loop generator i 0 acc = acc"
| "fsa_fill_loop generator i (Suc n) acc = fsa_fill_loop generator (Suc i) n (acc @ [generator i])"

definition fsa_fill :: "(nat \<Rightarrow> 'a) \<Rightarrow> nat \<Rightarrow> 'a list throws" where
  "fsa_fill generator len = fsa_new (fsa_fill_loop generator 0 len []) len"

lemma fsa_fill_eq: "fsa_fill f n = Inr (map f [0..<n])"
proof -
  have "fsa_fill_loop f i n acc = acc @ map f [i..<i + n]" for i n acc
    by (induction n arbitrary: i acc) (auto simp: upt_rec)
  then show ?thesis by (simp add: fsa_fill_def fsa_new_def)
qed

section \<open>\<open>MultiMap\<close>\<close>

datatype ('k, 'v) nested = Value 'v | Nested "('k \<times> ('k, 'v) nested) list"

record ('k, 'v) multi_map =
  mm_data :: "('k, 'v) nested"
  keyMappers :: "('k \<Rightarrow> 'k) option list"

definition mm_new :: "nat \<Rightarrow> ('k \<Rightarrow> 'k) option list option \<Rightarrow> ('k, 'v) multi_map throws" where
  "mm_new keysLength mappers =
    check (keysLength > 0)
      (check (case mappers of None \<Rightarrow> True | Some ms \<Rightarrow> length ms = keysLength)
        (Inr \<lparr>mm_data = Nested [],
          keyMappers = (case mappers of None \<Rightarrow> replicate keysLength None | Some ms \<Rightarrow> ms)\<rparr>))"

definition primitiveKeys :: "('k, 'v) multi_map \<Rightarrow> 'k list \<Rightarrow> 'k list" where
  "primitiveKeys m keys = map2 (\<lambda>mapper key. case mapper of Some f \<Rightarrow> f key | None \<Rightarrow> key) (keyMappers m) keys"

text \<open>The loop of \<open>set\<close>: all keys but the last lead down, missing maps are made. A value where a map
  is expected has no method \<open>set\<close>; the types exclude it.\<close>

fun mm_set_loop :: "'v \<Rightarrow> 'k list \<Rightarrow> ('k, 'v) nested \<Rightarrow> ('k, 'v) nested throws" where
  "mm_set_loop v [] n = Inl TypeError"
| "mm_set_loop v (k # ks) (Value _) = Inl TypeError"
| "mm_set_loop v (k # ks) (Nested m) =
    (if ks = [] then Inr (Nested (AList.update k (Value v) m))
     else
       bindE (mm_set_loop v ks (case map_of m k of None \<Rightarrow> Nested [] | Some n \<Rightarrow> n)) (\<lambda>n.
         Inr (Nested (AList.update k n m))))"

definition mm_set :: "'v \<Rightarrow> 'k list \<Rightarrow> ('k, 'v) multi_map \<Rightarrow> ('k, 'v) multi_map throws" where
  "mm_set v keys m = bindE (mm_set_loop v (primitiveKeys m keys) (mm_data m)) (\<lambda>n. Inr (m\<lparr>mm_data := n\<rparr>))"

text \<open>\<open>findLastMapAndKey\<close> for the operations that read: the innermost map, if there is one.\<close>

fun findLastMap :: "'k list \<Rightarrow> ('k, 'v) nested \<Rightarrow> ('k, 'v) nested option" where
  "findLastMap [] n = Some n"
| "findLastMap [k] n = Some n"
| "findLastMap (k # ks) (Value _) = None"
| "findLastMap (k # ks) (Nested m) = (case map_of m k of None \<Rightarrow> None | Some n \<Rightarrow> findLastMap ks n)"

definition mm_get :: "'k list \<Rightarrow> ('k, 'v) multi_map \<Rightarrow> 'v option" where
  "mm_get keys m =
    (let ks = primitiveKeys m keys in
     case findLastMap ks (mm_data m) of
       Some (Nested l) \<Rightarrow> (case map_of l (last ks) of Some (Value v) \<Rightarrow> Some v | _ \<Rightarrow> None)
     | _ \<Rightarrow> None)"

definition mm_has :: "'k list \<Rightarrow> ('k, 'v) multi_map \<Rightarrow> bool" where
  "mm_has keys m =
    (let ks = primitiveKeys m keys in
     case findLastMap ks (mm_data m) of Some (Nested l) \<Rightarrow> map_of l (last ks) \<noteq> None | _ \<Rightarrow> False)"

text \<open>Deleting in the innermost map, which is shared with the nested maps above it.\<close>

fun mm_delete_loop :: "'k list \<Rightarrow> ('k, 'v) nested \<Rightarrow> bool \<times> ('k, 'v) nested" where
  "mm_delete_loop [] n = (False, n)"
| "mm_delete_loop (k # ks) (Value v) = (False, Value v)"
| "mm_delete_loop (k # ks) (Nested m) =
    (if ks = [] then (map_of m k \<noteq> None, Nested (AList.delete k m))
     else case map_of m k of
       None \<Rightarrow> (False, Nested m)
     | Some n \<Rightarrow> (let (b, n') = mm_delete_loop ks n in (b, Nested (AList.update k n' m))))"

definition mm_delete :: "'k list \<Rightarrow> ('k, 'v) multi_map \<Rightarrow> bool \<times> ('k, 'v) multi_map" where
  "mm_delete keys m =
    (let (b, n) = mm_delete_loop (primitiveKeys m keys) (mm_data m) in (b, m\<lparr>mm_data := n\<rparr>))"

text \<open>Maps nested to depth \<open>n\<close>, and the value under a list of keys.\<close>

fun depth_ok :: "nat \<Rightarrow> ('k, 'v) nested \<Rightarrow> bool" where
  "depth_ok n (Value v) \<longleftrightarrow> n = 0"
| "depth_ok n (Nested m) \<longleftrightarrow> (case n of 0 \<Rightarrow> False | Suc n' \<Rightarrow> (\<forall>(k, c) \<in> set m. depth_ok n' c))"

fun nested_get :: "'k list \<Rightarrow> ('k, 'v) nested \<Rightarrow> 'v option" where
  "nested_get [] (Value v) = Some v"
| "nested_get (k # ks) (Nested m) = (case map_of m k of None \<Rightarrow> None | Some n \<Rightarrow> nested_get ks n)"
| "nested_get _ _ = None"

lemma depth_ok_update:
  "depth_ok (Suc n) (Nested m) \<Longrightarrow> depth_ok n c \<Longrightarrow> depth_ok (Suc n) (Nested (AList.update k c m))"
  by (induction m) (auto split: if_splits)

lemma mm_set_loop_ok:
  assumes "depth_ok (length ks) n" "ks \<noteq> []"
  shows "\<exists>n'. mm_set_loop v ks n = Inr n' \<and> depth_ok (length ks) n' \<and>
    (\<forall>qs. length qs = length ks \<longrightarrow> nested_get qs n' = (if qs = ks then Some v else nested_get qs n))"
  using assms
proof (induction ks arbitrary: n)
  case Nil
  then show ?case by simp
next
  case (Cons k ks)
  then obtain m where n: "n = Nested m" by (cases n) auto
  define c where "c = (case map_of m k of None \<Rightarrow> Nested [] | Some n \<Rightarrow> n)"
  show ?case
  proof (cases "ks = []")
    case True
    have "depth_ok 1 (Nested (AList.update k (Value v) m))"
      using Cons.prems(1) n True depth_ok_update [of 0 m "Value v" k] by simp
    moreover have "nested_get qs (Nested (AList.update k (Value v) m)) = (if qs = [k] then Some v else nested_get qs n)"
      if "length qs = 1" for qs
      using that n by (cases qs) (auto simp: update_conv')
    ultimately show ?thesis using n True by simp
  next
    case False
    have "depth_ok (length ks) c"
      using Cons.prems(1) n False map_of_SomeD [of m k]
      by (cases "map_of m k") (fastforce simp: c_def split: nat.splits)+
    from Cons.IH [OF this False] obtain c' where c': "mm_set_loop v ks c = Inr c'" "depth_ok (length ks) c'"
      "\<forall>qs. length qs = length ks \<longrightarrow> nested_get qs c' = (if qs = ks then Some v else nested_get qs c)" by blast
    have "nested_get qs c = (case map_of m k of None \<Rightarrow> None | Some n \<Rightarrow> nested_get qs n)"
      if "length qs = length ks" for qs
      using that False by (cases qs) (auto simp: c_def split: option.split)
    then have "nested_get qs (Nested (AList.update k c' m)) = (if qs = k # ks then Some v else nested_get qs n)"
      if "length qs = length (k # ks)" for qs
      using that n c'(3) by (cases qs) (auto simp: update_conv')
    with c' n False depth_ok_update [of "length ks" m c' k] Cons.prems(1) show ?thesis
      by (simp add: c_def del: depth_ok.simps)
  qed
qed

lemma findLastMap_get:
  "depth_ok (length ks) n \<Longrightarrow> ks \<noteq> [] \<Longrightarrow>
    (case findLastMap ks n of
       Some (Nested l) \<Rightarrow> (case map_of l (last ks) of Some (Value v) \<Rightarrow> Some v | _ \<Rightarrow> None)
     | _ \<Rightarrow> None) = nested_get ks n"
proof (induction ks n rule: findLastMap.induct)
  case (2 k n)
  then obtain m where m: "n = Nested m" by (cases n) auto
  have "map_of m k = Some c \<Longrightarrow> depth_ok 0 c" for c
    using 2 m map_of_SomeD [of m k c] by fastforce
  with m show ?case
    by (cases "map_of m k"; cases "the (map_of m k)") auto
next
  case (4 k k' ks m)
  show ?case
  proof (cases "map_of m k")
    case None
    then show ?thesis by simp
  next
    case (Some c)
    then have "depth_ok (length (k' # ks)) c" using 4(2) map_of_SomeD [of m k c] by fastforce
    moreover have "last (k # k' # ks) = last (k' # ks)" by simp
    ultimately show ?thesis using 4(1) [OF Some] Some
      unfolding \<open>last (k # k' # ks) = last (k' # ks)\<close> by (simp del: last.simps)
  qed
qed auto

lemma mm_get_eq:
  assumes "depth_ok (length (primitiveKeys m keys)) (mm_data m)" "primitiveKeys m keys \<noteq> []"
  shows "mm_get keys m = nested_get (primitiveKeys m keys) (mm_data m)"
  using findLastMap_get [OF assms] by (simp add: mm_get_def Let_def)

lemma mm_set_get:
  assumes "depth_ok (length (keyMappers m)) (mm_data m)" "keyMappers m \<noteq> []"
    "length ks = length (keyMappers m)" "length qs = length (keyMappers m)"
  shows "\<exists>m'. mm_set v ks m = Inr m' \<and> keyMappers m' = keyMappers m \<and>
    depth_ok (length (keyMappers m')) (mm_data m') \<and>
    mm_get qs m' = (if primitiveKeys m qs = primitiveKeys m ks then Some v else mm_get qs m)"
proof -
  have len: "length (primitiveKeys m ks) = length (keyMappers m)" "length (primitiveKeys m qs) = length (keyMappers m)"
    using assms(3,4) by (simp_all add: primitiveKeys_def)
  then have ne: "primitiveKeys m ks \<noteq> []" "primitiveKeys m qs \<noteq> []" using assms(2) by auto
  from mm_set_loop_ok [of "primitiveKeys m ks" "mm_data m" v] assms(1) len ne obtain n where
    n: "mm_set_loop v (primitiveKeys m ks) (mm_data m) = Inr n" "depth_ok (length (keyMappers m)) n"
      "nested_get (primitiveKeys m qs) n =
        (if primitiveKeys m qs = primitiveKeys m ks then Some v else nested_get (primitiveKeys m qs) (mm_data m))"
    by auto
  have "primitiveKeys (m\<lparr>mm_data := n\<rparr>) qs = primitiveKeys m qs" by (simp add: primitiveKeys_def)
  with n len ne assms(1) mm_get_eq [of "m\<lparr>mm_data := n\<rparr>" qs] mm_get_eq [of m qs] show ?thesis
    by (simp add: mm_set_def)
qed

lemma findLastMap_empty: "findLastMap ks (Nested []) = None \<or> findLastMap ks (Nested []) = Some (Nested [])"
  by (cases "(ks, Nested [] :: ('a, 'b) nested)" rule: findLastMap.cases) auto

lemma mm_new_ok:
  assumes "mm_new n ms = Inr m"
  shows "length (keyMappers m) = n" "depth_ok n (mm_data m)" "mm_get qs m = None"
proof -
  show "length (keyMappers m) = n" "depth_ok n (mm_data m)"
    using assms by (auto simp: mm_new_def split: option.splits nat.splits)
  have "mm_data m = Nested []" using assms by (auto simp: mm_new_def)
  then have "findLastMap (primitiveKeys m qs) (mm_data m) = None \<or>
      findLastMap (primitiveKeys m qs) (mm_data m) = Some (Nested [])"
    using findLastMap_empty by simp
  then show "mm_get qs m = None" by (auto simp: mm_get_def Let_def)
qed

end
