(* ===== verification/Mmr.thy ===== *)
theory Mmr
  imports Blobs
begin

text \<open>
  The Merkle mountain range, \<open>packages/core/mmr/index.ts\<close>. The two hash functions of the \<open>MmrHasher\<close>
  are arguments: \<open>hashConcat\<close>, and \<open>hashConcatPrepend\<close> at the identifier ``peak''. A mountain is its
  peak and its size; the list holds the mountains in descending order of size.

  The reference is the append function of the protocol on the list of optional peaks, where
  position \<open>i\<close> is a tree of \<open>2 ^ i\<close> leaves: adding a leaf is binary addition of 1.
\<close>

record 'h mountain =
  peak :: 'h
  msize :: int

definition fromPeak :: "'h \<Rightarrow> int \<Rightarrow> 'h mountain" where
  "fromPeak h n = \<lparr>peak = h, msize = n\<rparr>"

definition fromChildren :: "('h \<Rightarrow> 'h \<Rightarrow> 'h) \<Rightarrow> 'h mountain \<Rightarrow> 'h mountain \<Rightarrow> 'h mountain" where
  "fromChildren hashConcat left right =
    \<lparr>peak = hashConcat (peak left) (peak right), msize = msize left + msize right\<rparr>"

definition mergeWith :: "('h \<Rightarrow> 'h \<Rightarrow> 'h) \<Rightarrow> 'h mountain \<Rightarrow> 'h mountain \<Rightarrow> 'h mountain" where
  "mergeWith hashConcat self other = fromChildren hashConcat self other"

definition mmr_empty :: "'h mountain list" where
  "mmr_empty = []"

definition from_peaks_step :: "'h option \<times> nat \<Rightarrow> 'h mountain list \<Rightarrow> 'h mountain list" where
  "from_peaks_step = (\<lambda>(p, index) acc.
    case p of Some h \<Rightarrow> acc @ [fromPeak h (2 ^ index)] | None \<Rightarrow> acc)"

definition fromPeaks :: "'h option list \<Rightarrow> 'h mountain list" where
  "fromPeaks peaks = rev (fold from_peaks_step (zip peaks [0..<length peaks]) [])"

text \<open>The loop of \<open>append\<close>, on the mountains from the last one backwards.\<close>

fun append_loop :: "('h \<Rightarrow> 'h \<Rightarrow> 'h) \<Rightarrow> 'h mountain list \<Rightarrow> 'h mountain \<Rightarrow> 'h mountain list" where
  "append_loop hashConcat [] newMountain = [newMountain]"
| "append_loop hashConcat (l # ms) newMountain =
    (if msize l \<noteq> msize newMountain then newMountain # l # ms
     else append_loop hashConcat ms (mergeWith hashConcat l newMountain))"

definition mmr_append :: "('h \<Rightarrow> 'h \<Rightarrow> 'h) \<Rightarrow> 'h \<Rightarrow> 'h mountain list \<Rightarrow> 'h mountain list" where
  "mmr_append hashConcat h mountains = rev (append_loop hashConcat (rev mountains) (fromPeak h 1))"

definition getSuperPeakHash :: "('h \<Rightarrow> 'h \<Rightarrow> 'h) \<Rightarrow> 'h \<Rightarrow> 'h mountain list \<Rightarrow> 'h" where
  "getSuperPeakHash hashPeaks zero mountains =
    (case rev mountains of
       [] \<Rightarrow> zero
     | m # ms \<Rightarrow> fold (\<lambda>mountain lastHash. hashPeaks lastHash (peak mountain)) ms (peak m))"

text \<open>
  \<open>getPeaks\<close>: \<open>currentSize << 1\<close> is a 32-bit operation, so the loop need not end. The list is the
  mountains that are left, from the smallest.
\<close>

partial_function (option) get_peaks_loop :: "'h mountain list \<Rightarrow> int \<Rightarrow> 'h option list \<Rightarrow> 'h option list option" where
  "get_peaks_loop ms currentSize peaks =
    (case ms of
       [] \<Rightarrow> Some peaks
     | currentItem # rest \<Rightarrow>
         if msize currentItem \<ge> currentSize \<and> msize currentItem < 2 * currentSize
         then get_peaks_loop rest (js_shl currentSize 1) (peaks @ [Some (peak currentItem)])
         else get_peaks_loop ms (js_shl currentSize 1) (peaks @ [None]))"

definition getPeaks :: "'h mountain list \<Rightarrow> 'h option list option" where
  "getPeaks mountains = get_peaks_loop (rev mountains) 1 []"

section \<open>The reference\<close>

fun append_peaks :: "('h \<Rightarrow> 'h \<Rightarrow> 'h) \<Rightarrow> 'h \<Rightarrow> 'h option list \<Rightarrow> 'h option list" where
  "append_peaks H h [] = [Some h]"
| "append_peaks H h (None # ps) = Some h # ps"
| "append_peaks H h (Some p # ps) = None # append_peaks H (H p h) ps"

text \<open>Empty positions above the highest peak carry nothing.\<close>

fun trim :: "'h option list \<Rightarrow> 'h option list" where
  "trim [] = []"
| "trim (p # ps) = (case trim ps of [] \<Rightarrow> (if p = None then [] else [p]) | qs \<Rightarrow> p # qs)"

text \<open>The root of a perfect tree over \<open>2 ^ k\<close> hashes.\<close>

fun tree_root :: "('h \<Rightarrow> 'h \<Rightarrow> 'h) \<Rightarrow> nat \<Rightarrow> 'h list \<Rightarrow> 'h" where
  "tree_root H 0 xs = hd xs"
| "tree_root H (Suc k) xs = H (tree_root H k (take (2 ^ k) xs)) (tree_root H k (drop (2 ^ k) xs))"

section \<open>Append\<close>

fun ascending :: "nat \<Rightarrow> 'h option list \<Rightarrow> 'h mountain list" where
  "ascending k [] = []"
| "ascending k (None # ps) = ascending (Suc k) ps"
| "ascending k (Some h # ps) = fromPeak h (2 ^ k) # ascending (Suc k) ps"

lemma fromPeaks_ascending: "fromPeaks ps = rev (ascending 0 ps)"
proof -
  have "fold from_peaks_step (zip ps [k..<k + length ps]) acc = acc @ ascending k ps" for k acc
  proof (induction ps arbitrary: k acc)
    case Nil
    then show ?case by simp
  next
    case (Cons p ps)
    have "[k..<k + length (p # ps)] = k # [Suc k..<Suc k + length ps]" by (simp add: upt_rec)
    then show ?case using Cons [of "Suc k"] by (cases p) (simp_all add: from_peaks_step_def)
  qed
  from this [of 0 "[]"] show ?thesis by (simp add: fromPeaks_def)
qed

lemma ascending_sizes: "m \<in> set (ascending k ps) \<Longrightarrow> 2 ^ k \<le> msize m"
proof (induction k ps rule: ascending.induct)
  case (2 k ps)
  then show ?case by (auto intro: order_trans [of _ "2 ^ Suc k"])
next
  case (3 k h ps)
  then show ?case by (auto simp: fromPeak_def intro: order_trans [of _ "2 ^ Suc k"])
qed simp

lemma append_loop_ascending:
  "append_loop H (ascending k ps) (fromPeak h (2 ^ k)) = ascending k (append_peaks H h ps)"
proof (induction H h ps arbitrary: k rule: append_peaks.induct)
  case (2 H h ps)
  have "msize m \<noteq> 2 ^ k" if "m \<in> set (ascending (Suc k) ps)" for m
    using ascending_sizes [OF that] by auto
  then show ?case by (cases "ascending (Suc k) ps") (auto simp: fromPeak_def)
next
  case (3 H h p ps)
  have "mergeWith H (fromPeak p (2 ^ k)) (fromPeak h (2 ^ k)) = fromPeak (H p h) (2 ^ Suc k)"
    by (simp add: mergeWith_def fromChildren_def fromPeak_def)
  then show ?case using 3 [of "Suc k"] by (simp add: fromPeak_def)
qed simp

lemma mmr_append_eq: "mmr_append H h (fromPeaks ps) = fromPeaks (append_peaks H h ps)"
  using append_loop_ascending [of H 0 ps h] by (simp add: mmr_append_def fromPeaks_ascending)

section \<open>Reading the peaks back\<close>

lemma js_shl_power: "k < 30 \<Longrightarrow> js_shl (2 ^ k) 1 = 2 ^ Suc k"
proof -
  assume "k < 30"
  then have "(2 :: int) ^ k < 2 ^ 30" by (intro power_strict_increasing) auto
  then show ?thesis
    by (simp add: js_shl_def to_int32_small shift_count_def push_bit_eq_mult)
qed

lemma trim_None: "trim ps = [] \<longleftrightarrow> set ps \<subseteq> {None}"
  by (induction ps) (auto split: list.splits if_splits)

lemma ascending_Nil: "ascending k ps = [] \<longleftrightarrow> set ps \<subseteq> {None}"
  by (induction k ps rule: ascending.induct) auto

lemma get_peaks_loop_Nil [simp]: "get_peaks_loop [] n acc = Some acc"
  by (subst get_peaks_loop.simps) simp

lemma get_peaks_loop_ascending:
  "k + length ps \<le> 31 \<Longrightarrow> get_peaks_loop (ascending k ps) (2 ^ k) acc = Some (acc @ trim ps)"
proof (induction ps arbitrary: k acc)
  case Nil
  then show ?case by simp
next
  case (Cons p ps)
  show ?case
  proof (cases "ascending k (p # ps)")
    case Nil
    then have "trim (p # ps) = []" unfolding ascending_Nil trim_None .
    then show ?thesis unfolding Nil by (simp del: trim.simps)
  next
    case (Cons m ms)
    note asc = Cons
    have step: "get_peaks_loop (ascending (Suc k) ps) (js_shl (2 ^ k) 1) acc' = Some (acc' @ trim ps)" for acc'
    proof (cases "ps = []")
      case True
      then show ?thesis by simp
    next
      case False
      with Cons.prems have "k < 30" by (cases ps) auto
      with Cons.IH [of "Suc k" acc'] Cons.prems show ?thesis by (simp add: js_shl_power)
    qed
    show ?thesis
    proof (cases p)
      case None
      with asc have m: "2 ^ Suc k \<le> msize m" using ascending_sizes [of m "Suc k" ps] by simp
      have "trim ps \<noteq> []" using asc None by (metis ascending.simps(2) ascending_Nil list.distinct(1) trim_None)
      then have "trim (p # ps) = None # trim ps" using None by (cases "trim ps") auto
      with m None asc step [of "acc @ [None]"] show ?thesis
        by (subst get_peaks_loop.simps) auto
    next
      case (Some h)
      then have "trim (p # ps) = Some h # trim ps" by (cases "trim ps") auto
      with Some step [of "acc @ [Some h]"] show ?thesis
        by (subst get_peaks_loop.simps) (simp add: fromPeak_def)
    qed
  qed
qed

lemma getPeaks_fromPeaks: "length ps \<le> 31 \<Longrightarrow> getPeaks (fromPeaks ps) = Some (trim ps)"
  using get_peaks_loop_ascending [of 0 ps "[]"] by (simp add: getPeaks_def fromPeaks_ascending)

lemma length_append_peaks: "length (append_peaks H h ps) \<le> Suc (length ps)"
  by (induction H h ps rule: append_peaks.induct) auto

lemma append_peaks_not_Nil: "append_peaks H h ps \<noteq> []"
  by (induction H h ps rule: append_peaks.induct) auto

lemma trim_append_peaks: "trim (append_peaks H h ps) = append_peaks H h (trim ps)"
proof (induction H h ps rule: append_peaks.induct)
  case (2 H h ps)
  then show ?case by (cases "trim ps") auto
next
  case (3 H h p ps)
  then show ?case using append_peaks_not_Nil [of H "H p h" "trim ps"]
    by (cases "trim ps"; cases "append_peaks H (H p h) (trim ps)") auto
qed simp

text \<open>A mountain of \<open>2 ^ 31\<close> leaves or more is never reached: the sizes tried run into 0.\<close>

lemma get_peaks_loop_stuck:
  assumes "get_peaks_loop ms n acc = Some r" "ms \<noteq> []"
  shows "n \<noteq> 0"
proof -
  have "ms = [] \<or> n \<noteq> 0"
  proof (rule get_peaks_loop.raw_induct [of "\<lambda>ms n acc r. ms = [] \<or> n \<noteq> 0", OF _ assms(1)])
    fix f and ms :: "'a mountain list" and n acc r
    assume IH: "\<And>ms n acc r. f ms n acc = Some r \<Longrightarrow> ms = [] \<or> n \<noteq> 0"
      and eq: "(case ms of [] \<Rightarrow> Some acc
        | currentItem # rest \<Rightarrow>
            if n \<le> msize currentItem \<and> msize currentItem < 2 * n
            then f rest (js_shl n 1) (acc @ [Some (peak currentItem)])
            else f ms (js_shl n 1) (acc @ [None])) = Some r"
    show "ms = [] \<or> n \<noteq> 0"
    proof (rule ccontr)
      assume "\<not> (ms = [] \<or> n \<noteq> 0)"
      then obtain m rest where "ms = m # rest" "n = 0" by (cases ms) auto
      with eq have "f ms 0 (acc @ [None]) = Some r"
        by (auto simp: js_shl_def to_int32_def split: if_splits)
      with IH [of ms 0] \<open>ms = m # rest\<close> show False by blast
    qed
  qed
  with assms(2) show ?thesis by blast
qed

lemma get_peaks_loop_high:
  assumes "msize m = 2 ^ 31" "j \<le> 30"
  shows "get_peaks_loop [m] (2 ^ (30 - j)) acc = None"
  using assms(2)
proof (induction j arbitrary: acc)
  case 0
  have none: "get_peaks_loop [m] 0 acc' = None" for acc'
    using get_peaks_loop_stuck [of "[m]" 0 acc'] by (cases "get_peaks_loop [m] 0 acc'") auto
  have "js_shl (2 ^ 30) 1 = - (2 ^ 31)" "js_shl (- (2 ^ 31)) 1 = 0"
    by (simp_all add: js_shl_def to_int32_def shift_count_def push_bit_eq_mult signed_take_bit_eq_take_bit_shift
        take_bit_eq_mod)
  with assms(1) none show ?case
    by (simp add: get_peaks_loop.simps [of "[m]" "1073741824"] get_peaks_loop.simps [of "[m]" "- 2147483648"])
next
  case (Suc j)
  define k where "k = 30 - Suc j"
  then have k: "k < 30" "30 - j = Suc k" using Suc.prems by auto
  then have "(2 :: int) ^ Suc k \<le> 2 ^ 30" by (intro power_increasing) auto
  with assms(1) Suc.IH [of "acc @ [None]"] Suc.prems k(2) show ?case
    unfolding k_def [symmetric] by (subst get_peaks_loop.simps) (simp add: js_shl_power [OF k(1)])
qed

lemma getPeaks_stuck: "getPeaks (fromPeaks (replicate 31 None @ [Some h])) = None"
proof -
  have "ascending k (replicate n None @ [Some h]) = [fromPeak h (2 ^ (k + n))]" for k n
    by (induction n arbitrary: k) auto
  from this [of 0 31] show ?thesis
    using get_peaks_loop_high [of "fromPeak h (2 ^ 31)" 30 "[]"]
    by (simp add: getPeaks_def fromPeaks_ascending fromPeak_def)
qed

section \<open>What the peaks are\<close>

text \<open>
  The peaks are the roots of perfect trees over consecutive runs of the appended hashes, the
  largest tree first.
\<close>

fun covers :: "('h \<Rightarrow> 'h \<Rightarrow> 'h) \<Rightarrow> nat \<Rightarrow> 'h option list \<Rightarrow> 'h list \<Rightarrow> bool" where
  "covers H k [] xs \<longleftrightarrow> xs = []"
| "covers H k (None # ps) xs \<longleftrightarrow> covers H (Suc k) ps xs"
| "covers H k (Some h # ps) xs \<longleftrightarrow>
    2 ^ k \<le> length xs \<and> h = tree_root H k (drop (length xs - 2 ^ k) xs) \<and>
    covers H (Suc k) ps (take (length xs - 2 ^ k) xs)"

lemma covers_append:
  "covers H k ps xs \<Longrightarrow> length zs = 2 ^ k \<Longrightarrow> h = tree_root H k zs \<Longrightarrow>
    covers H k (append_peaks H h ps) (xs @ zs)"
proof (induction ps arbitrary: h k xs zs)
  case Nil
  then show ?case by simp
next
  case (Cons p ps)
  show ?case
  proof (cases p)
    case None
    with Cons.prems show ?thesis by simp
  next
    case (Some q)
    define ys where "ys = drop (length xs - 2 ^ k) xs"
    define ws where "ws = take (length xs - 2 ^ k) xs"
    have xs: "xs = ws @ ys" "length ys = 2 ^ k" "q = tree_root H k ys" "covers H (Suc k) ps ws"
      using Cons.prems(1) Some by (auto simp: ys_def ws_def)
    have "covers H (Suc k) (append_peaks H (H q h) ps) (ws @ (ys @ zs))"
      by (rule Cons.IH) (use xs Cons.prems in auto)
    with Some xs(1) show ?thesis by simp
  qed
qed

lemma covers_fold: "covers H 0 (fold (append_peaks H) xs []) xs"
proof (induction xs rule: rev_induct)
  case Nil
  then show ?case by simp
next
  case (snoc x xs)
  then show ?case using covers_append [OF snoc, of "[x]" x] by simp
qed

lemma mmr_append_fold: "fold (mmr_append H) xs mmr_empty = fromPeaks (fold (append_peaks H) xs [])"
proof (induction xs rule: rev_induct)
  case Nil
  then show ?case by (simp add: mmr_empty_def fromPeaks_def)
next
  case (snoc x xs)
  then show ?case by (simp add: mmr_append_eq)
qed

text \<open>The root of the whole range folds the peaks from the smallest to the largest.\<close>

lemma map_peak_ascending: "map peak (ascending k ps) = List.map_filter id ps"
  by (induction k ps rule: ascending.induct) (auto simp: fromPeak_def map_filter_simps)

lemma getSuperPeakHash_fromPeaks:
  "getSuperPeakHash H zero (fromPeaks ps) = (case List.map_filter id ps of [] \<Rightarrow> zero | h # hs \<Rightarrow> foldl H h hs)"
proof -
  have "fold (\<lambda>m l. H l (peak m)) ms a = foldl H a (map peak ms)" for ms a
    by (induction ms arbitrary: a) auto
  then show ?thesis
    unfolding map_peak_ascending [of 0 ps, symmetric]
    by (cases "ascending 0 ps") (auto simp: getSuperPeakHash_def fromPeaks_ascending)
qed

lemma trim_fold: "trim (fold (append_peaks H) xs []) = fold (append_peaks H) xs []"
  by (induction xs rule: rev_induct) (auto simp: trim_append_peaks)

lemma covers_length:
  "covers H k ps xs \<Longrightarrow> trim ps = ps \<Longrightarrow> ps \<noteq> [] \<Longrightarrow> 2 ^ (k + length ps - 1) \<le> length xs"
proof (induction ps arbitrary: k xs)
  case (Cons p ps)
  then have t: "ps \<noteq> [] \<Longrightarrow> trim ps = ps" by (auto split: list.splits if_splits)
  show ?case
  proof (cases "ps = []")
    case True
    with Cons show ?thesis by (cases p) auto
  next
    case False
    obtain ys where ys: "covers H (Suc k) ps ys" "length ys \<le> length xs"
      using Cons.prems(1) by (cases p) auto
    from Cons.IH [OF ys(1) t [OF False] False] ys(2) show ?thesis by simp
  qed
qed simp

lemma getPeaks_fold:
  assumes "length xs < 2 ^ 31"
  shows "getPeaks (fold (mmr_append H) xs mmr_empty) = Some (fold (append_peaks H) xs [])"
proof -
  let ?ps = "fold (append_peaks H) xs []"
  have "length ?ps \<le> 31"
  proof (cases "?ps = []")
    case False
    then have "2 ^ (length ?ps - 1) \<le> length xs"
      using covers_length [OF covers_fold trim_fold False] by simp
    also have "\<dots> < 2 ^ 31" by (rule assms)
    finally have "length ?ps - 1 < 31" by (rule power_less_imp_less_exp [rotated]) simp
    then show ?thesis by linarith
  qed simp
  then show ?thesis by (simp add: mmr_append_fold getPeaks_fromPeaks trim_fold)
qed

end
