(* ===== verification/Shuffling.thy ===== *)
theory Shuffling
  imports Numbers "HOL-Library.Multiset"
begin

text \<open>
  The deterministic Fisher-Yates shuffle, \<open>packages/core/shuffling/shuffling.ts\<close>. The hash
  function (\<open>blake2b.hashBytes\<close>) is an argument; what the code relies on is the length of its
  results. The array that is shuffled is consumed: it is returned with the result.
\<close>

definition ENTROPY_BYTES :: nat where "ENTROPY_BYTES = 32"

text \<open>\<open>hashToNumberSequence\<close>: \<open>randomBytes\<close> is the entropy followed by four bytes of a counter.\<close>

fun number_sequence_loop :: "(byte list \<Rightarrow> byte list) \<Rightarrow> byte list \<Rightarrow> nat \<Rightarrow> nat \<Rightarrow> int list throws" where
  "number_sequence_loop hashBytes randomBytes i 0 = Inr []"
| "number_sequence_loop hashBytes randomBytes i (Suc n) =
    bindE (tryAsU32 (int (i div 8))) (\<lambda>q.
    let randomBytes = blit randomBytes ENTROPY_BYTES (u32AsLeBytes q);
        newHash = hashBytes randomBytes;
        numberStartIndex = (4 * i) mod 32;
        numberEndIndex = numberStartIndex + 4 in
    bindE (leBytesAsU32 (subarray newHash numberStartIndex numberEndIndex)) (\<lambda>number.
    bindE (number_sequence_loop hashBytes randomBytes (Suc i) n) (\<lambda>rest. Inr (number # rest))))"

definition hashToNumberSequence :: "(byte list \<Rightarrow> byte list) \<Rightarrow> byte list \<Rightarrow> nat \<Rightarrow> int list throws" where
  "hashToNumberSequence hashBytes entropy len =
    number_sequence_loop hashBytes (blit (replicate (ENTROPY_BYTES + 4) 0) 0 entropy) 0 len"

fun shuffle_loop :: "int list \<Rightarrow> 'a list \<Rightarrow> nat \<Rightarrow> 'a list \<times> 'a list" where
  "shuffle_loop [] arr itemsLeft = ([], arr)"
| "shuffle_loop (x # xs) arr itemsLeft =
    (let j = nat (x mod int itemsLeft);
         r = arr ! j;
         itemsLeft = itemsLeft - 1;
         arr = take itemsLeft (arr[j := arr ! itemsLeft]);
         (rs, arr) = shuffle_loop xs arr itemsLeft in
     (r # rs, arr))"

definition fisherYatesShuffle :: "(byte list \<Rightarrow> byte list) \<Rightarrow> 'a list \<Rightarrow> byte list \<Rightarrow> ('a list \<times> 'a list) throws" where
  "fisherYatesShuffle hashBytes arr entropy =
    check (length entropy = ENTROPY_BYTES)
      (bindE (hashToNumberSequence hashBytes entropy (length arr)) (\<lambda>randomNumbers.
        Inr (shuffle_loop randomNumbers arr (length arr))))"

section \<open>The reference\<close>

text \<open>The numbers of the protocol, and the shuffle by a sequence of numbers.\<close>

definition random_number :: "(byte list \<Rightarrow> byte list) \<Rightarrow> byte list \<Rightarrow> nat \<Rightarrow> int" where
  "random_number H h i = le_val (take 4 (drop (4 * i mod 32) (H (h @ le_bytes 4 (int (i div 8))))))"

fun shuffle_spec :: "'a list \<Rightarrow> int list \<Rightarrow> 'a list" where
  "shuffle_spec s [] = []"
| "shuffle_spec s (r # rs) =
    (if s = [] then [] else
     let l = length s; i = nat (r mod int l); s' = butlast (s[i := last s]) in
     s ! i # shuffle_spec s' rs)"

lemma blit_counter:
  assumes "length h = 32" "length c = 4" "length d = 4"
  shows "blit (h @ d) ENTROPY_BYTES c = h @ c"
  using assms by (simp add: blit_def ENTROPY_BYTES_def)

lemma number_sequence_eq:
  assumes "\<And>x. length (H x) = 32" "length h = 32" "length d = 4" "i + n \<le> 2 ^ 32"
  shows "number_sequence_loop H (h @ d) i n = Inr (map (random_number H h) [i..<i + n])"
  using assms(3,4)
proof (induction n arbitrary: i d)
  case 0
  then show ?case by simp
next
  case (Suc n)
  let ?c = "le_bytes 4 (int (i div 8))"
  have range: "0 \<le> int (i div 8)" "int (i div 8) < 2 ^ 32" using Suc.prems by simp_all
  have q: "tryAsU32 (int (i div 8)) = Inr (int (i div 8))" using range by (simp add: tryAsU32_def isU32_iff)
  have b: "blit (h @ d) ENTROPY_BYTES (u32AsLeBytes (int (i div 8))) = h @ ?c"
    using assms(2) Suc.prems(1) by (simp add: u32AsLeBytes_eq blit_counter)
  have "4 * i mod 32 \<le> 28" by presburger
  then have n: "leBytesAsU32 (subarray (H (h @ ?c)) (4 * i mod 32) (4 * i mod 32 + 4)) = Inr (random_number H h i)"
    using assms(1) by (simp add: leBytesAsU32_eq random_number_def subarray_def)
  have IH: "number_sequence_loop H (h @ ?c) (Suc i) n = Inr (map (random_number H h) [Suc i..<Suc i + n])"
    using Suc by simp
  have "[i..<i + Suc n] = i # [Suc i..<Suc i + n]" by (simp add: upt_rec)
  then show ?case by (simp add: q b n IH Let_def)
qed

lemma hashToNumberSequence_eq:
  assumes "\<And>x. length (H x) = 32" "length h = 32" "n \<le> 2 ^ 32"
  shows "hashToNumberSequence H h n = Inr (map (random_number H h) [0..<n])"
proof -
  have "blit (replicate (ENTROPY_BYTES + 4) 0) 0 h = h @ replicate 4 0"
    using assms(2) by (simp add: blit_def ENTROPY_BYTES_def)
  then show ?thesis
    using number_sequence_eq [OF assms(1,2), of "replicate 4 0" 0 n] assms(3)
    by (simp add: hashToNumberSequence_def)
qed

lemma shuffle_loop_spec:
  "length xs = length arr \<Longrightarrow> shuffle_loop xs arr (length arr) = (shuffle_spec arr xs, [])"
proof (induction xs arbitrary: arr)
  case Nil
  then show ?case by simp
next
  case (Cons x xs)
  then have ne: "arr \<noteq> []" by auto
  define i where "i = nat (x mod int (length arr))"
  define arr' where "arr' = butlast (arr[i := last arr])"
  have "take (length arr - 1) (arr[i := arr ! (length arr - 1)]) = arr'"
    using ne by (simp add: arr'_def butlast_conv_take last_conv_nth)
  moreover have "length arr' = length arr - 1" "length xs = length arr'" using Cons.prems by (simp_all add: arr'_def)
  ultimately show ?case using Cons.IH [of arr'] ne
    by (simp add: Let_def i_def [symmetric] arr'_def [symmetric])
qed

lemma shuffle_spec_mset: "length rs = length s \<Longrightarrow> mset (shuffle_spec s rs) = mset s"
proof (induction rs arbitrary: s)
  case Nil
  then show ?case by simp
next
  case (Cons r rs)
  then have ne: "s \<noteq> []" by auto
  define i where "i = nat (r mod int (length s))"
  have i: "i < length s" using ne by (simp add: i_def nat_less_iff)
  define s' where "s' = butlast (s[i := last s])"
  have "s[i := last s] = s' @ [last s]"
  proof -
    have "s[i := last s] \<noteq> []" "last (s[i := last s]) = last s"
      using ne i by (auto simp: last_list_update)
    then show ?thesis unfolding s'_def by (metis append_butlast_last_id)
  qed
  then have "add_mset (last s) (mset s') = mset (s[i := last s])" by simp
  also have "\<dots> = add_mset (last s) (mset s - {#s ! i#})" using i by (rule mset_update)
  finally have "add_mset (s ! i) (mset s') = mset s" using i by simp
  moreover have "length rs = length s'" using Cons.prems by (simp add: s'_def)
  ultimately show ?case using Cons.IH [of s'] ne
    by (simp add: Let_def i_def [symmetric] s'_def [symmetric])
qed

lemma fisherYatesShuffle_eq:
  assumes "\<And>x. length (H x) = 32" "length h = 32" "length arr \<le> 2 ^ 32"
  shows "fisherYatesShuffle H arr h = Inr (shuffle_spec arr (map (random_number H h) [0..<length arr]), [])"
  using hashToNumberSequence_eq [OF assms] assms(2) shuffle_loop_spec [of "map (random_number H h) [0..<length arr]" arr]
  by (simp add: fisherYatesShuffle_def ENTROPY_BYTES_def)
end
