(* ===== verification/TrieNodes.thy ===== *)
theory TrieNodes
  imports Blobs
begin

text \<open>
  The nodes of the state trie, \<open>packages/core/trie/nodes.ts\<close> and \<open>masks.ts\<close>: a node is 64 raw bytes,
  the first bits of which tell branches, leaves with an embedded value and leaves with the hash of
  their value apart. Hashes and keys are byte lists (of 32 and 31 or 32 bytes).
\<close>

unbundle bit_operations_syntax

definition HASH_SIZE :: nat where "HASH_SIZE = 32"
definition TRUNCATED_KEY_BYTES :: nat where "TRUNCATED_KEY_BYTES = 31"
definition TRUNCATED_KEY_BITS :: nat where "TRUNCATED_KEY_BITS = TRUNCATED_KEY_BYTES * 8"
definition TRIE_NODE_BYTES :: nat where "TRIE_NODE_BYTES = 64"

definition FIRST_BIT_SET :: byte where "FIRST_BIT_SET = 0x80"
definition FIRST_BIT_SET_NEG :: byte where "FIRST_BIT_SET_NEG = 0x7f"
definition FIRST_TWO_BITS_SET :: byte where "FIRST_TWO_BITS_SET = 0xc0"
definition FIRST_TWO_BITS_SET_NEG :: byte where "FIRST_TWO_BITS_SET_NEG = 0x3f"

type_synonym trie_node = blob
type_synonym hash = blob

definition parseInputKey :: "string \<Rightarrow> blob throws" where
  "parseInputKey v =
    (if length v = HASH_SIZE * 2 then parseBytesNoPrefix v HASH_SIZE
     else parseBytesNoPrefix v TRUNCATED_KEY_BYTES)"

section \<open>Kinds of nodes\<close>

datatype node_type = Branch | Leaf | EmbedLeaf

definition getNodeType :: "trie_node \<Rightarrow> node_type" where
  "getNodeType raw =
    (if raw ! 0 AND FIRST_BIT_SET = 0 then Branch
     else if raw ! 0 AND FIRST_TWO_BITS_SET = FIRST_TWO_BITS_SET then Leaf
     else EmbedLeaf)"

definition new_trie_node :: trie_node where
  "new_trie_node = replicate TRIE_NODE_BYTES 0"

text \<open>\<open>BranchNode\<close>\<close>

definition fromSubNodes :: "hash \<Rightarrow> hash \<Rightarrow> trie_node" where
  "fromSubNodes left right =
    (let raw = blit (blit new_trie_node 0 left) HASH_SIZE right in
     raw[0 := raw ! 0 AND FIRST_BIT_SET_NEG])"

definition branch_viewOf :: "trie_node \<Rightarrow> trie_node throws" where
  "branch_viewOf n = check (getNodeType n = Branch) (Inr n)"

definition asBranchNode :: "trie_node \<Rightarrow> trie_node throws" where
  "asBranchNode n = branch_viewOf n"

definition getLeft :: "trie_node \<Rightarrow> hash throws" where
  "getLeft n = bytes_fromBlob (subarray n 0 HASH_SIZE) HASH_SIZE"

definition getRight :: "trie_node \<Rightarrow> hash throws" where
  "getRight n = bytes_fromBlob (drop HASH_SIZE n) HASH_SIZE"

text \<open>\<open>LeafNode\<close>; the hash of the value is only computed when it is needed.\<close>

definition fromValue :: "blob \<Rightarrow> blob \<Rightarrow> (unit \<Rightarrow> hash) \<Rightarrow> trie_node" where
  "fromValue key val valueHash =
    (if length val \<le> HASH_SIZE then
       let raw = new_trie_node[0 := FIRST_BIT_SET OR word_of_nat (length val)];
           raw = blit raw 1 (subarray key 0 TRUNCATED_KEY_BYTES) in
       blit raw (TRUNCATED_KEY_BYTES + 1) val
     else
       let raw = new_trie_node[0 := FIRST_TWO_BITS_SET];
           raw = blit raw 1 (subarray key 0 TRUNCATED_KEY_BYTES) in
       blit raw (TRUNCATED_KEY_BYTES + 1) (valueHash ()))"

definition leaf_viewOf :: "trie_node \<Rightarrow> trie_node throws" where
  "leaf_viewOf n = check (getNodeType n \<noteq> Branch) (Inr n)"

definition asLeafNode :: "trie_node \<Rightarrow> trie_node throws" where
  "asLeafNode n = leaf_viewOf n"

text \<open>\<open>getKey\<close>: the constructor of \<open>Bytes\<close> checks the length, which a node of 64 bytes satisfies.\<close>

definition getKey :: "trie_node \<Rightarrow> blob throws" where
  "getKey n = bytes_fromBlob (subarray n 1 (TRUNCATED_KEY_BYTES + 1)) TRUNCATED_KEY_BYTES"

definition hasEmbeddedValue :: "trie_node \<Rightarrow> bool" where
  "hasEmbeddedValue n \<longleftrightarrow> getNodeType n = EmbedLeaf"

definition getValueLength :: "trie_node \<Rightarrow> nat" where
  "getValueLength n = unat (n ! 0 AND FIRST_TWO_BITS_SET_NEG)"

definition getValue :: "trie_node \<Rightarrow> blob" where
  "getValue n = (let len = getValueLength n in subarray n HASH_SIZE (HASH_SIZE + len))"

definition getValueHash :: "trie_node \<Rightarrow> hash throws" where
  "getValueHash n = bytes_fromBlob (drop HASH_SIZE n) HASH_SIZE"

section \<open>What the nodes hold\<close>

lemmas node_sizes = HASH_SIZE_def TRUNCATED_KEY_BYTES_def TRUNCATED_KEY_BITS_def TRIE_NODE_BYTES_def

lemma fromSubNodes_eq:
  assumes "length l = 32" "length r = 32"
  shows "fromSubNodes l r = (hd l AND 0x7f) # tl l @ r"
proof -
  have "blit (blit new_trie_node 0 l) HASH_SIZE r = l @ r"
    using assms by (simp add: blit_def new_trie_node_def node_sizes)
  with assms show ?thesis by (cases l) (auto simp: fromSubNodes_def FIRST_BIT_SET_NEG_def)
qed

lemma branch_node:
  assumes "length l = 32" "length r = 32"
  shows "length (fromSubNodes l r) = 64" "getNodeType (fromSubNodes l r) = Branch"
    "getRight (fromSubNodes l r) = Inr r" "getLeft (fromSubNodes l r) = Inr ((hd l AND 0x7f) # tl l)"
proof -
  have "(w AND 0x7f) AND (0x80 :: byte) = 0" for w :: byte by (simp add: and.assoc)
  then show "getNodeType (fromSubNodes l r) = Branch"
    using assms by (simp add: fromSubNodes_eq getNodeType_def FIRST_BIT_SET_def)
  show "length (fromSubNodes l r) = 64" using assms by (cases l) (auto simp: fromSubNodes_eq)
  show "getRight (fromSubNodes l r) = Inr r"
    using assms by (cases l) (auto simp: fromSubNodes_eq getRight_def bytes_fromBlob_def new_Bytes_def node_sizes)
  show "getLeft (fromSubNodes l r) = Inr ((hd l AND 0x7f) # tl l)"
    using assms by (cases l)
      (auto simp: fromSubNodes_eq getLeft_def bytes_fromBlob_def new_Bytes_def node_sizes subarray_def)
qed

lemma fromValue_eq:
  assumes "length key \<ge> 31" "length (h ()) = 32"
  shows "fromValue key v h =
    (if length v \<le> 32 then (0x80 OR word_of_nat (length v)) # take 31 key @ v @ replicate (32 - length v) 0
     else 0xc0 # take 31 key @ h ())"
proof -
  have "drop (32 + length v) (x # replicate 63 (0 :: byte)) = replicate (32 - length v) 0" for x
    by (simp add: drop_Cons')
  then show ?thesis using assms
    by (auto simp: fromValue_def new_trie_node_def node_sizes blit_def subarray_def FIRST_BIT_SET_def
        FIRST_TWO_BITS_SET_def Let_def min_def replicate_Suc [of 63, simplified])
qed

lemma embed_header:
  assumes "n \<le> 32"
  shows "(0x80 OR word_of_nat n :: byte) AND 0x80 \<noteq> 0" "(0x80 OR word_of_nat n :: byte) AND 0xc0 \<noteq> 0xc0"
    "unat ((0x80 OR word_of_nat n :: byte) AND 0x3f) = n"
proof -
  have "\<forall>k \<in> set [0..<33]. (0x80 OR word_of_nat k :: byte) AND 0x80 \<noteq> 0 \<and>
      (0x80 OR word_of_nat k :: byte) AND 0xc0 \<noteq> 0xc0 \<and> unat ((0x80 OR word_of_nat k :: byte) AND 0x3f) = k"
    by (simp add: upt_rec)
  moreover have "n \<in> set [0..<33]" using assms by simp
  ultimately show "(0x80 OR word_of_nat n :: byte) AND 0x80 \<noteq> 0" "(0x80 OR word_of_nat n :: byte) AND 0xc0 \<noteq> 0xc0"
    "unat ((0x80 OR word_of_nat n :: byte) AND 0x3f) = n"
    by blast+
qed

lemma leaf_node:
  assumes "length key \<ge> 31" "length (h ()) = 32"
  shows "length (fromValue key v h) = 64" "getKey (fromValue key v h) = Inr (take 31 key)"
    "getNodeType (fromValue key v h) = (if length v \<le> 32 then EmbedLeaf else Leaf)"
    "getValue (fromValue key v h) = (if length v \<le> 32 then v else [])"
    "length v > 32 \<Longrightarrow> getValueHash (fromValue key v h) = Inr (h ())"
proof -
  note eq = fromValue_eq [of key h v, OF assms]
  show "length (fromValue key v h) = 64" using assms by (auto simp: eq)
  show "getKey (fromValue key v h) = Inr (take 31 key)"
    using assms by (auto simp: eq getKey_def bytes_fromBlob_def new_Bytes_def node_sizes subarray_def)
  show "getNodeType (fromValue key v h) = (if length v \<le> 32 then EmbedLeaf else Leaf)"
    using embed_header by (auto simp: eq getNodeType_def FIRST_BIT_SET_def FIRST_TWO_BITS_SET_def)
  show "getValue (fromValue key v h) = (if length v \<le> 32 then v else [])"
    using assms embed_header(3)
    by (auto simp: eq getValue_def getValueLength_def FIRST_TWO_BITS_SET_NEG_def subarray_def node_sizes Let_def)
  show "length v > 32 \<Longrightarrow> getValueHash (fromValue key v h) = Inr (h ())"
    using assms by (auto simp: eq getValueHash_def bytes_fromBlob_def new_Bytes_def node_sizes)
qed

end
