(* ===== verification/Trie.thy ===== *)
theory Trie
  imports TrieNodes SortedCollections
begin

text \<open>
  The state root, \<open>packages/core/trie/trie.ts\<close>: \<open>computeStateRoot\<close> hashes the sorted leaves with one
  pass from the largest key down and a stack of pending right siblings. The reference is the
  Merklization of the protocol, which splits the leaves by the bits of their keys. The hash
  function (\<open>hashConcat\<close>) is an argument.
\<close>

unbundle bit_operations_syntax

definition trie_zero :: hash where
  "trie_zero = bytes_zero HASH_SIZE"

text \<open>\<open>bitIndex >>> 3\<close>, then one bit of the byte by a msk.\<close>

definition getBit :: "blob \<Rightarrow> nat \<Rightarrow> bool throws" where
  "getBit key bitIndex = check (bitIndex < TRUNCATED_KEY_BITS)
    (let byte = bitIndex div 8; bit = bitIndex - byte * 8; msk = drop_bit bit 0x80; val = key ! byte AND msk in
     Inr (val \<noteq> 0))"

definition bitLookup :: "(byte \<times> nat) list" where
  "bitLookup = [(0x80, 0), (0x40, 1), (0x20, 2), (0x10, 3), (0x08, 4), (0x04, 5), (0x02, 6), (0x01, 7), (0x00, 8)]"

fun shared_prefix_loop :: "blob \<Rightarrow> blob \<Rightarrow> nat \<Rightarrow> nat \<Rightarrow> nat" where
  "shared_prefix_loop a b i 0 = TRUNCATED_KEY_BYTES * 8"
| "shared_prefix_loop a b i (Suc n) =
    (let diff = a ! i XOR b ! i in
     if diff = 0 then shared_prefix_loop a b (Suc i) n
     else case List.find (\<lambda>(msk, matchingBits). msk AND diff \<noteq> 0) bitLookup of
       Some (msk, matchingBits) \<Rightarrow> i * 8 + matchingBits
     | None \<Rightarrow> i)"

definition findSharedPrefix :: "blob \<Rightarrow> blob \<Rightarrow> nat" where
  "findSharedPrefix a b = shared_prefix_loop a b 0 TRUNCATED_KEY_BYTES"

definition leafComparator :: "trie_node \<Rightarrow> trie_node \<Rightarrow> ordering throws" where
  "leafComparator x y = bindE (getKey x) (\<lambda>a. bindE (getKey y) (\<lambda>b. Inr (blob_compare a b)))"

section \<open>\<open>computeStateRoot\<close>\<close>

text \<open>Every further leaf with the number of bits it shares with the one before.\<close>

fun with_shared_bits :: "trie_node \<Rightarrow> trie_node list \<Rightarrow> (trie_node \<times> nat) list throws" where
  "with_shared_bits prev [] = Inr []"
| "with_shared_bits prev (leaf # leaves) =
    bindE (getKey leaf) (\<lambda>k. bindE (getKey prev) (\<lambda>p.
    bindE (with_shared_bits leaf leaves) (\<lambda>rest. Inr ((leaf, findSharedPrefix k p) # rest))))"

text \<open>The two inner loops, each with the number of iterations it has left; the stack grows at its head.\<close>

fun push_zeros :: "blob \<Rightarrow> nat \<Rightarrow> nat \<Rightarrow> hash list \<Rightarrow> hash list throws" where
  "push_zeros key i 0 stack = Inr stack"
| "push_zeros key i (Suc n) stack =
    bindE (getBit key i) (\<lambda>b. push_zeros key (Suc i) n (if \<not> b then trie_zero # stack else stack))"

definition pop_or_zero :: "hash list \<Rightarrow> hash \<times> hash list" where
  "pop_or_zero stack = (case stack of [] \<Rightarrow> (trie_zero, []) | h # s \<Rightarrow> (h, s))"

fun merge_up :: "(blob \<Rightarrow> hash) \<Rightarrow> blob \<Rightarrow> nat \<Rightarrow> nat \<Rightarrow> hash list \<Rightarrow> hash list throws" where
  "merge_up hashConcat key i 0 stack = Inr stack"
| "merge_up hashConcat key i (Suc n) stack =
    bindE (getBit key i) (\<lambda>b.
      let stack = (if b then trie_zero # stack else stack);
          (current, stack) = pop_or_zero stack;
          (nxt, stack) = pop_or_zero stack in
      merge_up hashConcat key (i - 1) n (hashConcat (fromSubNodes current nxt) # stack))"

text \<open>The main loop; \<open>several\<close> tells whether there is a last node at all.\<close>

fun root_loop :: "(blob \<Rightarrow> hash) \<Rightarrow> bool \<Rightarrow> (trie_node \<times> nat) list \<Rightarrow> hash list \<Rightarrow> nat \<Rightarrow> hash list throws" where
  "root_loop hashConcat several [] stack currentDepth = Inr stack"
| "root_loop hashConcat several ((leaf, sharedBitsWithPrev) # nodes) stack currentDepth =
    (let isLastNode = (several \<and> nodes = []);
         prevDepth = currentDepth;
         currentDepth = sharedBitsWithPrev;
         startDepth = (if isLastNode then prevDepth else prevDepth + 1) in
     bindE (getKey leaf) (\<lambda>key.
     bindE (push_zeros key startDepth (currentDepth + 1 - startDepth) stack) (\<lambda>stack.
       let stack = hashConcat leaf # stack in
       if prevDepth < currentDepth then root_loop hashConcat several nodes stack currentDepth
       else
         bindE (merge_up hashConcat key prevDepth
             (if isLastNode then prevDepth + 1 - currentDepth else prevDepth - currentDepth) stack) (\<lambda>stack.
           root_loop hashConcat several nodes stack currentDepth))))"

definition computeStateRoot :: "(blob \<Rightarrow> hash) \<Rightarrow> trie_node list \<Rightarrow> hash throws" where
  "computeStateRoot hashConcat leaves =
    (case leaves of
       [] \<Rightarrow> Inr trie_zero
     | firstSorted # others \<Rightarrow>
         bindE (with_shared_bits firstSorted others) (\<lambda>rest.
           let nodes = rev ((firstSorted, 0) # rest) in
           bindE (root_loop hashConcat (length nodes \<noteq> 1) nodes [] 0) (\<lambda>stack.
             Inr (fst (pop_or_zero stack)))))"

section \<open>The reference\<close>

text \<open>Bit \<open>i\<close> of a key, the most significant bit of the first byte being bit 0.\<close>

definition key_bit :: "blob \<Rightarrow> nat \<Rightarrow> bool" where
  "key_bit k i = bit (k ! (i div 8)) (7 - i mod 8)"

definition leaf_key_of :: "trie_node \<Rightarrow> blob" where
  "leaf_key_of n = take 31 (drop 1 n)"

abbreviation lbit :: "trie_node \<Rightarrow> nat \<Rightarrow> bool" where
  "lbit n i \<equiv> key_bit (leaf_key_of n) i"

text \<open>
  The Merklization of a list of leaves below depth \<open>i\<close>: nothing is the zero hash, one leaf its own
  hash, and more leaves are split by bit \<open>i\<close> (keys of 31 bytes differ before bit 248).
\<close>

function merkle :: "(blob \<Rightarrow> hash) \<Rightarrow> nat \<Rightarrow> trie_node list \<Rightarrow> hash" where
  "merkle H i xs =
    (if xs = [] then trie_zero
     else if length xs = 1 then H (hd xs)
     else if i < 248 then
       H (fromSubNodes (merkle H (Suc i) (filter (\<lambda>x. \<not> lbit x i) xs)) (merkle H (Suc i) (filter (\<lambda>x. lbit x i) xs)))
     else trie_zero)"
  by pat_completeness auto
termination by (relation "measure (\<lambda>(H, i, xs). 248 - i)") auto

declare merkle.simps [simp del]

lemma merkle_Nil [simp]: "merkle H i [] = trie_zero"
  by (simp add: merkle.simps)

lemma merkle_single [simp]: "merkle H i [x] = H x"
  by (simp add: merkle.simps)

lemma merkle_split: "2 \<le> length xs \<Longrightarrow> i < 248 \<Longrightarrow> merkle H i xs =
    H (fromSubNodes (merkle H (Suc i) (filter (\<lambda>x. \<not> lbit x i) xs)) (merkle H (Suc i) (filter (\<lambda>x. lbit x i) xs)))"
  by (subst merkle.simps) auto

section \<open>Bits\<close>

lemma getBit_eq: "i < 248 \<Longrightarrow> getBit k i = Inr (key_bit k i)"
proof -
  assume i: "i < 248"
  define r where "r = i mod 8"
  have r: "r < 8" "i - i div 8 * 8 = r" by (auto simp: r_def minus_div_mult_eq_mod)
  have "(drop_bit r 0x80 :: byte) = push_bit (7 - r) 1"
  proof -
    have "\<forall>r \<in> set [0..<8]. (drop_bit r 0x80 :: byte) = push_bit (7 - r) 1" by code_simp
    then show ?thesis using r(1) by simp
  qed
  then have "(w AND drop_bit r 0x80 \<noteq> 0) = bit w (7 - r)" for w :: byte
    by (simp add: bit_iff_and_push_bit_not_eq_0)
  then show ?thesis
    using i r(2) by (simp add: getBit_def node_sizes key_bit_def r_def Let_def)
qed

lemma byte_less_by_bit:
  assumes "\<And>j. t < j \<Longrightarrow> bit x j = bit y j" "bit x t" "\<not> bit (y :: byte) t"
  shows "y < x"
proof -
  have "drop_bit (Suc t) (uint x) = drop_bit (Suc t) (uint y)"
    by (rule bit_eqI) (simp add: bit_simps assms(1))
  moreover have "uint z div 2 ^ Suc t = uint z div 2 ^ t div 2" for z :: byte
    using zdiv_zmult2_eq [of 2 "uint z" "2 ^ t"] by (simp only: power_Suc2)
  ultimately have high: "uint x div 2 ^ t div 2 = uint y div 2 ^ t div 2"
    by (simp only: drop_bit_eq_div)
  have "bit (uint x) t" "\<not> bit (uint y) t"
    using assms(2,3) bit_imp_le_length [OF assms(2)] by (auto simp: bit_uint_iff)
  then have "odd (uint x div 2 ^ t)" "even (uint y div 2 ^ t)" unfolding bit_iff_odd by simp_all
  moreover have "even q \<Longrightarrow> odd p \<Longrightarrow> p div 2 = q div 2 \<Longrightarrow> q < p" for p q :: int by presburger
  ultimately have "uint y div 2 ^ t < uint x div 2 ^ t" using high by blast
  then have "uint y < uint x" by (meson linorder_not_le zdiv_mono1 zero_less_numeral zero_less_power)
  then show ?thesis by (simp add: word_less_def)
qed

lemma xor_zero_iff: "x XOR y = 0 \<longleftrightarrow> x = (y :: byte)"
  by (auto simp: bit_eq_iff bit_xor_iff)

lemma first_bit:
  assumes "(w :: byte) \<noteq> 0"
  obtains m where "m < 8" "bit w (7 - m)" "\<And>j. j < m \<Longrightarrow> \<not> bit w (7 - j)"
proof -
  obtain n where n: "bit w n" using assms by (auto simp: bit_eq_iff)
  then have "n < 8" using bit_imp_le_length [of w n] by simp
  then have "bit w (7 - (7 - n))" using n by simp
  then have L: "bit w (7 - (LEAST m. bit w (7 - m)))" by (rule LeastI)
  have "(LEAST m. bit w (7 - m)) \<le> 7 - n" using \<open>bit w (7 - (7 - n))\<close> by (rule Least_le)
  then have "(LEAST m. bit w (7 - m)) < 8" by simp
  with L show thesis by (intro that) (auto dest: not_less_Least)
qed

lemma single_bit_test: "(push_bit n 1 AND w \<noteq> 0) = bit (w :: byte) n"
  by (metis and.commute bit_iff_and_push_bit_not_eq_0)

lemma bitLookup_eq: "bitLookup = map (\<lambda>m. (push_bit (7 - m) 1, m)) [0..<8] @ [(0, 8)]"
  by code_simp

lemma find_first:
  "i \<le> m \<Longrightarrow> m < n \<Longrightarrow> P m \<Longrightarrow> (\<And>j. j < m \<Longrightarrow> \<not> P j) \<Longrightarrow> List.find P [i..<n] = Some m"
proof (induction "n - i" arbitrary: i)
  case 0
  then show ?case by simp
next
  case (Suc k)
  then have "[i..<n] = i # [Suc i..<n]" by (simp add: upt_conv_Cons)
  with Suc show ?case by (cases "i = m") auto
qed

lemma find_map: "List.find P (map f xs) = map_option f (List.find (P \<circ> f) xs)"
  by (induction xs) auto

lemma find_append: "List.find P (xs @ ys) = (case List.find P xs of Some x \<Rightarrow> Some x | None \<Rightarrow> List.find P ys)"
  by (induction xs) auto

lemma bitLookup_find:
  assumes "m < 8" "bit (w :: byte) (7 - m)" "\<And>j. j < m \<Longrightarrow> \<not> bit w (7 - j)"
  shows "\<exists>msk. List.find (\<lambda>(msk, matchingBits). msk AND w \<noteq> 0) bitLookup = Some (msk, m)"
proof -
  have "List.find (\<lambda>m. bit w (7 - m)) [0..<8] = Some m"
    by (rule find_first) (use assms in auto)
  then show ?thesis
    unfolding bitLookup_eq find_append find_map by (simp add: comp_def single_bit_test del: upt_rec_numeral push_bit_of_1)
qed

text \<open>Two keys that agree on the first \<open>i\<close> bits.\<close>

definition agree :: "nat \<Rightarrow> blob \<Rightarrow> blob \<Rightarrow> bool" where
  "agree i a b \<longleftrightarrow> (\<forall>k < i. key_bit a k = key_bit b k)"

definition differ_at :: "nat \<Rightarrow> blob \<Rightarrow> blob \<Rightarrow> bool" where
  "differ_at t a b \<longleftrightarrow> t < 248 \<and> agree t a b \<and> key_bit a t \<noteq> key_bit b t"

lemma agree_bytes: "take i a = take i b \<Longrightarrow> i \<le> length a \<Longrightarrow> i \<le> length b \<Longrightarrow> agree (8 * i) a b"
proof -
  assume eq: "take i a = take i b" and len: "i \<le> length a" "i \<le> length b"
  have "a ! (k div 8) = b ! (k div 8)" if "k < 8 * i" for k
  proof -
    have "k div 8 < i" using that by (simp add: div_less_iff_less_mult mult.commute)
    then show ?thesis using eq by (metis nth_take)
  qed
  then show ?thesis by (simp add: agree_def key_bit_def)
qed

lemma differ_in_byte:
  assumes "take i a = take i b" "i < length a" "i < length b" "i < 31" "m < 8"
    "bit (a ! i) (7 - m) \<noteq> bit (b ! i) (7 - m)" "\<And>j. j < m \<Longrightarrow> bit (a ! i) (7 - j) = bit (b ! i) (7 - j)"
  shows "differ_at (8 * i + m) a b"
proof -
  have "agree (8 * i) a b" using assms(1-3) by (intro agree_bytes) auto
  moreover have "key_bit a (8 * i + j) = key_bit b (8 * i + j)" if "j < m" for j
    using assms(5,7) that by (simp add: key_bit_def div_mult_self3)
  moreover have "k < 8 * i \<or> (\<exists>j < m. k = 8 * i + j)" if "k < 8 * i + m" for k
    using that by (metis less_diff_conv2 le_add_diff_inverse linorder_not_le add.commute)
  ultimately have "agree (8 * i + m) a b" unfolding agree_def by blast
  then show ?thesis using assms(4-6) by (simp add: differ_at_def key_bit_def)
qed

lemma shared_prefix_loop_spec:
  assumes "length a = 31" "length b = 31" "a \<noteq> b"
  shows "i + n = 31 \<Longrightarrow> take i a = take i b \<Longrightarrow> differ_at (shared_prefix_loop a b i n) a b"
proof (induction n arbitrary: i)
  case 0
  then show ?case using assms by simp
next
  case (Suc n)
  have i: "i < length a" "i < length b" "i < 31" using Suc.prems assms by auto
  show ?case
  proof (cases "a ! i = b ! i")
    case True
    with Suc.prems i have "take (Suc i) a = take (Suc i) b" by (simp add: take_Suc_conv_app_nth)
    with Suc.IH [of "Suc i"] Suc.prems True show ?thesis by simp
  next
    case False
    then have ne: "a ! i XOR b ! i \<noteq> 0" by (simp add: xor_zero_iff)
    from first_bit [OF this] obtain m where m: "m < 8" "bit (a ! i XOR b ! i) (7 - m)"
      "\<And>j. j < m \<Longrightarrow> \<not> bit (a ! i XOR b ! i) (7 - j)" by blast
    from bitLookup_find [OF m] obtain msk where
      "List.find (\<lambda>(msk, matchingBits). msk AND (a ! i XOR b ! i) \<noteq> 0) bitLookup = Some (msk, m)" by blast
    with ne have "shared_prefix_loop a b i (Suc n) = 8 * i + m" by (simp add: mult.commute)
    moreover have "differ_at (8 * i + m) a b"
      using Suc.prems(2) i m by (intro differ_in_byte) (auto simp: bit_xor_iff)
    ultimately show ?thesis by simp
  qed
qed

lemma findSharedPrefix_differ:
  "length a = 31 \<Longrightarrow> length b = 31 \<Longrightarrow> a \<noteq> b \<Longrightarrow> differ_at (findSharedPrefix a b) a b"
  using shared_prefix_loop_spec [of a b 0 31] by (simp add: findSharedPrefix_def node_sizes)

lemma differ_unique: "differ_at s a b \<Longrightarrow> differ_at t a b \<Longrightarrow> s = t"
  unfolding differ_at_def agree_def by (metis linorder_neqE_nat)

lemma differ_sym: "differ_at t a b \<longleftrightarrow> differ_at t b a"
  by (auto simp: differ_at_def agree_def)

lemma blob_compare_first:
  "length a = length b \<Longrightarrow> blob_compare a b = Less \<Longrightarrow>
    \<exists>i < length a. take i a = take i b \<and> a ! i < b ! i"
proof (induction a b rule: list_induct2)
  case Nil
  then show ?case by simp
next
  case (Cons x xs y ys)
  show ?case
  proof (cases "x < y")
    case True
    then show ?thesis by (intro exI [of _ 0]) simp
  next
    case False
    with Cons.prems have "x = y" "blob_compare xs ys = Less" by (auto split: if_splits)
    with Cons.IH obtain i where "i < length xs" "take i xs = take i ys" "xs ! i < ys ! i" by blast
    with \<open>x = y\<close> show ?thesis by (intro exI [of _ "Suc i"]) simp
  qed
qed

text \<open>The order of the leaves, in terms of bits.\<close>

definition key_less :: "blob \<Rightarrow> blob \<Rightarrow> bool" where
  "key_less a b \<longleftrightarrow> (\<exists>t. differ_at t a b \<and> \<not> key_bit a t \<and> key_bit b t)"

lemma compare_key_less:
  assumes "length a = 31" "length b = 31" "blob_compare a b = Less"
  shows "key_less a b"
proof -
  obtain i where i: "i < 31" "take i a = take i b" "a ! i < b ! i"
    using blob_compare_first [of a b] assms by auto
  then have "b ! i XOR a ! i \<noteq> 0" by (auto simp: xor_zero_iff)
  from first_bit [OF this] obtain m where m: "m < 8" "bit (b ! i XOR a ! i) (7 - m)"
    "\<And>j. j < m \<Longrightarrow> \<not> bit (b ! i XOR a ! i) (7 - j)" by blast
  have d: "differ_at (8 * i + m) a b"
    using i m assms by (intro differ_in_byte) (auto simp: bit_xor_iff)
  have "\<not> (bit (a ! i) (7 - m) \<and> \<not> bit (b ! i) (7 - m))"
  proof
    assume bits: "bit (a ! i) (7 - m) \<and> \<not> bit (b ! i) (7 - m)"
    have "bit (a ! i) j = bit (b ! i) j" if "7 - m < j" for j
    proof (cases "j < 8")
      case True
      with that have "7 - j < m" "7 - (7 - j) = j" by auto
      with m(3) [of "7 - j"] show ?thesis by (auto simp: bit_xor_iff)
    next
      case False
      then show ?thesis using bit_imp_le_length [of "a ! i" j] bit_imp_le_length [of "b ! i" j] by auto
    qed
    then have "b ! i < a ! i" using bits by (intro byte_less_by_bit [of "7 - m"]) auto
    with i(3) show False by simp
  qed
  with m(1,2) have "\<not> key_bit a (8 * i + m) \<and> key_bit b (8 * i + m)"
    by (auto simp: key_bit_def bit_xor_iff)
  with d show ?thesis by (auto simp: key_less_def)
qed

section \<open>The stack of pending siblings\<close>

text \<open>
  The leaves that share the first \<open>i\<close> bits with \<open>x\<close>, the root of its right sibling at depth \<open>i\<close>, and
  the siblings that are still to come while the pass is at \<open>x\<close> with depth \<open>i\<close> (the deepest first).
\<close>

definition group :: "trie_node list \<Rightarrow> nat \<Rightarrow> trie_node \<Rightarrow> trie_node list" where
  "group X i x = filter (\<lambda>y. agree i (leaf_key_of x) (leaf_key_of y)) X"

definition right_root :: "(blob \<Rightarrow> hash) \<Rightarrow> trie_node list \<Rightarrow> nat \<Rightarrow> trie_node \<Rightarrow> hash" where
  "right_root H X i x = merkle H (Suc i) (filter (\<lambda>y. lbit y i) (group X i x))"

primrec pending :: "(blob \<Rightarrow> hash) \<Rightarrow> trie_node list \<Rightarrow> trie_node \<Rightarrow> nat \<Rightarrow> hash list" where
  "pending H X x 0 = []"
| "pending H X x (Suc i) = (if lbit x i then pending H X x i else right_root H X i x # pending H X x i)"

text \<open>The zero at the bottom of the stack may be missing: popping the empty stack gives zero.\<close>

definition stands_for :: "hash list \<Rightarrow> hash list \<Rightarrow> bool" where
  "stands_for s p \<longleftrightarrow> s = p \<or> s @ [trie_zero] = p"

lemma stands_for_refl [simp]: "stands_for p p"
  by (simp add: stands_for_def)

lemma stands_for_Nil [simp]: "stands_for s [] \<longleftrightarrow> s = []"
  by (simp add: stands_for_def)

lemma stands_for_Cons: "stands_for s p \<Longrightarrow> stands_for (h # s) (h # p)"
  by (auto simp: stands_for_def)

lemma pop_stands_for: "stands_for s (h # p) \<Longrightarrow> \<exists>s'. pop_or_zero s = (h, s') \<and> stands_for s' p"
  by (cases s) (auto simp: stands_for_def pop_or_zero_def)

lemma agree_refl [simp]: "agree i a a"
  by (simp add: agree_def)

lemma agree_0 [simp]: "agree 0 a b"
  by (simp add: agree_def)

lemma agree_sym: "agree i a b \<longleftrightarrow> agree i b a"
  by (auto simp: agree_def)

lemma agree_trans: "agree i a b \<Longrightarrow> agree i b c \<Longrightarrow> agree i a c"
  by (simp add: agree_def)

lemma agree_mono: "agree i a b \<Longrightarrow> j \<le> i \<Longrightarrow> agree j a b"
  by (simp add: agree_def)

lemma agree_Suc: "agree (Suc i) a b \<longleftrightarrow> agree i a b \<and> key_bit a i = key_bit b i"
  by (auto simp: agree_def less_Suc_eq)

lemma group_cong: "agree i (leaf_key_of x) (leaf_key_of y) \<Longrightarrow> group X i x = group X i y"
  unfolding group_def by (rule filter_cong) (auto intro: agree_trans agree_sym [THEN iffD1])

lemma group_0 [simp]: "group X 0 x = X"
  by (simp add: group_def)

lemma group_Suc: "group X (Suc i) x = filter (\<lambda>y. lbit y i = lbit x i) (group X i x)"
  by (auto simp: group_def agree_Suc intro!: filter_cong)

lemma pending_cong: "agree i (leaf_key_of x) (leaf_key_of y) \<Longrightarrow> pending H X x i = pending H X y i"
proof (induction i)
  case (Suc i)
  then have "agree i (leaf_key_of x) (leaf_key_of y)" "lbit x i = lbit y i" by (auto simp: agree_Suc)
  with Suc.IH show ?case by (simp add: right_root_def group_cong [of i x y])
qed simp

text \<open>Going up from \<open>x\<close>: the siblings on the left are missing, those on the right are on the stack.\<close>

lemma merge_up_spec:
  assumes "\<And>k. k \<le> i \<Longrightarrow> i < k + n \<Longrightarrow> lbit x k \<Longrightarrow> filter (\<lambda>y. \<not> lbit y k) (group X k x) = []"
    "\<And>k. k \<le> i \<Longrightarrow> i < k + n \<Longrightarrow> 2 \<le> length (group X k x)"
    "stands_for st (pending H X x (Suc i))" "i < 248" "n \<le> Suc i"
  shows "\<exists>st'. merge_up H (leaf_key_of x) i n (merkle H (Suc i) (group X (Suc i) x) # st) =
      Inr (merkle H (Suc i - n) (group X (Suc i - n) x) # st') \<and> stands_for st' (pending H X x (Suc i - n))"
  using assms
proof (induction n arbitrary: i st)
  case 0
  then show ?case by auto
next
  case (Suc n)
  let ?acc = "merkle H (Suc i) (group X (Suc i) x)"
  have bit: "getBit (leaf_key_of x) i = Inr (lbit x i)" using Suc.prems(4) by (simp add: getBit_eq)
  have up: "merkle H i (group X i x) =
      H (fromSubNodes (merkle H (Suc i) (filter (\<lambda>y. \<not> lbit y i) (group X i x)))
        (merkle H (Suc i) (filter (\<lambda>y. lbit y i) (group X i x))))"
    using Suc.prems(2) [of i] Suc.prems(4) by (intro merkle_split) auto
  obtain st1 where step: "merge_up H (leaf_key_of x) i (Suc n) (?acc # st) =
      merge_up H (leaf_key_of x) (i - 1) n (merkle H i (group X i x) # st1)" "stands_for st1 (pending H X x i)"
  proof (cases "lbit x i")
    case True
    then have "group X (Suc i) x = filter (\<lambda>y. lbit y i) (group X i x)" by (simp add: group_Suc)
    with True Suc.prems(1) [of i] have "merkle H i (group X i x) = H (fromSubNodes trie_zero ?acc)" by (simp add: up)
    with True bit Suc.prems(3) show ?thesis by (intro that [of st]) (simp_all add: pop_or_zero_def)
  next
    case False
    then have "group X (Suc i) x = filter (\<lambda>y. \<not> lbit y i) (group X i x)" by (simp add: group_Suc)
    then have acc: "merkle H i (group X i x) = H (fromSubNodes ?acc (right_root H X i x))"
      by (simp add: up right_root_def)
    from False Suc.prems(3) obtain st1 where "pop_or_zero st = (right_root H X i x, st1)"
      "stands_for st1 (pending H X x i)" using pop_stands_for by fastforce
    with False bit acc show ?thesis by (intro that [of st1]) (simp_all add: pop_or_zero_def [of "?acc # st"])
  qed
  show ?case
  proof (cases i)
    case 0
    with Suc.prems(5) step show ?thesis by auto
  next
    case (Suc j)
    from Suc.IH [of j st1] Suc.prems Suc step show ?thesis by simp
  qed
qed

section \<open>One leaf of the pass\<close>

definition sorted_leaves :: "trie_node list \<Rightarrow> bool" where
  "sorted_leaves X \<longleftrightarrow> (\<forall>x \<in> set X. length x = 64) \<and>
    sorted_wrt (\<lambda>x y. blob_compare (leaf_key_of x) (leaf_key_of y) = Less) X"

text \<open>\<open>x\<close> comes before \<open>y\<close>, and they part at bit \<open>c\<close>.\<close>

definition parts :: "nat \<Rightarrow> trie_node \<Rightarrow> trie_node \<Rightarrow> bool" where
  "parts c x y \<longleftrightarrow> differ_at c (leaf_key_of x) (leaf_key_of y) \<and> \<not> lbit x c \<and> lbit y c"

lemma getKey_eq: "length x = 64 \<Longrightarrow> getKey x = Inr (leaf_key_of x)"
  by (simp add: getKey_def bytes_fromBlob_def new_Bytes_def subarray_def leaf_key_of_def node_sizes)

lemma length_leaf_key [simp]: "length x = 64 \<Longrightarrow> length (leaf_key_of x) = 31"
  by (simp add: leaf_key_of_def)

lemma sorted_length: "sorted_leaves X \<Longrightarrow> m < length X \<Longrightarrow> length (X ! m) = 64"
  by (simp add: sorted_leaves_def)

lemma sorted_parts:
  assumes "sorted_leaves X" "i < j" "j < length X"
  shows "\<exists>c. parts c (X ! i) (X ! j)"
proof -
  have "length (X ! i) = 64" "length (X ! j) = 64" "blob_compare (leaf_key_of (X ! i)) (leaf_key_of (X ! j)) = Less"
    using assms by (auto simp: sorted_leaves_def sorted_wrt_iff_nth_less)
  then have "key_less (leaf_key_of (X ! i)) (leaf_key_of (X ! j))" by (intro compare_key_less) auto
  then show ?thesis by (auto simp: key_less_def parts_def)
qed

lemma parts_shared:
  assumes "parts c x y" "length x = 64" "length y = 64"
  shows "findSharedPrefix (leaf_key_of y) (leaf_key_of x) = c"
proof (rule differ_unique)
  show "differ_at c (leaf_key_of y) (leaf_key_of x)" using assms(1) by (simp add: parts_def differ_sym)
  then have "leaf_key_of y \<noteq> leaf_key_of x" by (auto simp: differ_at_def)
  then show "differ_at (findSharedPrefix (leaf_key_of y) (leaf_key_of x)) (leaf_key_of y) (leaf_key_of x)"
    using assms by (intro findSharedPrefix_differ) auto
qed

text \<open>Nothing behind \<open>y\<close> is closer to \<open>x\<close> than \<open>y\<close> is, and nothing before \<open>x\<close> is closer to \<open>y\<close>.\<close>

lemma parts_after:
  assumes "parts c x y" "parts t y z"
  shows "\<not> agree (Suc c) (leaf_key_of x) (leaf_key_of z)"
proof
  assume "agree (Suc c) (leaf_key_of x) (leaf_key_of z)"
  then have "differ_at c (leaf_key_of y) (leaf_key_of z)"
    using assms(1) by (auto simp: parts_def differ_at_def agree_def)
  then have "c = t" using assms(2) differ_unique by (auto simp: parts_def)
  with assms show False by (simp add: parts_def)
qed

lemma parts_before:
  assumes "parts c x y" "parts t z x"
  shows "\<not> agree (Suc c) (leaf_key_of y) (leaf_key_of z)"
proof
  assume "agree (Suc c) (leaf_key_of y) (leaf_key_of z)"
  then have "differ_at c (leaf_key_of z) (leaf_key_of x)"
    using assms(1) by (auto simp: parts_def differ_at_def agree_def)
  then have "c = t" using assms(2) differ_unique by (auto simp: parts_def)
  with assms show False by (simp add: parts_def)
qed

lemma parts_not_agree: "parts c x y \<Longrightarrow> \<not> agree (Suc c) (leaf_key_of x) (leaf_key_of y)"
  by (auto simp: parts_def differ_at_def agree_Suc)

lemma after_not_agree:
  assumes "sorted_leaves X" "parts c (X ! m) (X ! Suc m)" "m < j" "j < length X"
  shows "\<not> agree (Suc c) (leaf_key_of (X ! m)) (leaf_key_of (X ! j))"
proof (cases "j = Suc m")
  case True
  with parts_not_agree assms(2) show ?thesis by blast
next
  case False
  with sorted_parts [OF assms(1), of "Suc m" j] assms(3,4) parts_after [OF assms(2)] show ?thesis by force
qed

lemma before_not_agree:
  assumes "sorted_leaves X" "parts c (X ! m) (X ! Suc m)" "j \<le> m" "Suc m < length X"
  shows "\<not> agree (Suc c) (leaf_key_of (X ! Suc m)) (leaf_key_of (X ! j))"
proof (cases "j = m")
  case True
  with parts_not_agree assms(2) agree_sym show ?thesis by blast
next
  case False
  with sorted_parts [OF assms(1), of j m] assms(3,4) parts_before [OF assms(2)] show ?thesis by force
qed

lemma group_nth: "set (group X i x) = {X ! j |j. j < length X \<and> agree i (leaf_key_of x) (leaf_key_of (X ! j))}"
  by (auto simp: group_def in_set_conv_nth)

lemma filter_group_empty:
  "filter P (group X i x) = [] \<longleftrightarrow> (\<forall>j < length X. agree i (leaf_key_of x) (leaf_key_of (X ! j)) \<longrightarrow> \<not> P (X ! j))"
  by (auto simp: filter_empty_conv group_nth)

text \<open>A leaf with no neighbour that shares \<open>i\<close> bits is alone in its group.\<close>

lemma filter_alone:
  assumes "m < length X" "P (X ! m)" "\<And>j. j < length X \<Longrightarrow> j \<noteq> m \<Longrightarrow> \<not> P (X ! j)"
  shows "filter P X = [X ! m]"
proof -
  have before: "filter P (take m X) = []" using assms by (auto simp: filter_empty_conv in_set_conv_nth)
  have "\<not> P (drop (Suc m) X ! j)" if "j < length X - Suc m" for j
    using assms(3) [of "Suc m + j"] that by simp
  then have after: "filter P (drop (Suc m) X) = []" by (auto simp: filter_empty_conv in_set_conv_nth)
  have "filter P X = filter P (take m X @ X ! m # drop (Suc m) X)"
    using id_take_nth_drop [OF assms(1)] by (rule arg_cong)
  also have "\<dots> = [X ! m]" by (simp only: filter_append filter.simps before after assms(2) if_True append_Nil)
  finally show ?thesis .
qed

lemma group_alone:
  assumes "m < length X" "\<And>j. j < length X \<Longrightarrow> j \<noteq> m \<Longrightarrow> \<not> agree i (leaf_key_of (X ! m)) (leaf_key_of (X ! j))"
  shows "group X i (X ! m) = [X ! m]"
  unfolding group_def using assms by (intro filter_alone) simp_all

lemma group_two:
  assumes "m < length X" "Suc m < length X" "X ! m \<noteq> X ! Suc m"
    "agree i (leaf_key_of (X ! m)) (leaf_key_of (X ! Suc m))"
  shows "2 \<le> length (group X i (X ! m))"
proof -
  have "X ! m \<in> set (group X i (X ! m))" "X ! Suc m \<in> set (group X i (X ! m))"
    using assms by (auto simp: group_def)
  then have "card {X ! m, X ! Suc m} \<le> card (set (group X i (X ! m)))" by (intro card_mono) simp_all
  also have "\<dots> \<le> length (group X i (X ! m))" by (rule card_length)
  finally show ?thesis using assms(3) by simp
qed

text \<open>No larger leaf in the group: the right sibling is empty.\<close>

lemma right_root_zero:
  assumes "sorted_leaves X" "m < length X" "\<not> lbit (X ! m) k"
    "\<And>j. m < j \<Longrightarrow> j < length X \<Longrightarrow> \<not> agree k (leaf_key_of (X ! m)) (leaf_key_of (X ! j))" "k < 248"
  shows "right_root H X k (X ! m) = trie_zero"
proof -
  have "\<not> lbit (X ! j) k" if j: "j < length X" "agree k (leaf_key_of (X ! m)) (leaf_key_of (X ! j))" for j
  proof (cases "j < m")
    case True
    then obtain t where t: "parts t (X ! j) (X ! m)" using sorted_parts [OF assms(1), of j m] assms(2) by blast
    show ?thesis
    proof
      assume "lbit (X ! j) k"
      then have "differ_at k (leaf_key_of (X ! j)) (leaf_key_of (X ! m))"
        using j(2) assms(3,5) agree_sym by (auto simp: differ_at_def)
      with t differ_unique have "t = k" by (auto simp: parts_def)
      with t \<open>lbit (X ! j) k\<close> show False by (simp add: parts_def)
    qed
  next
    case False
    then show ?thesis using assms(3,4) j by (cases "j = m") auto
  qed
  then have "filter (\<lambda>y. lbit y k) (group X k (X ! m)) = []" by (auto simp: filter_group_empty)
  then show ?thesis by (simp add: right_root_def)
qed

lemma push_zeros_spec:
  assumes "stands_for st (pending H X x (Suc i))" "i + n < 248"
    "\<And>k. i < k \<Longrightarrow> k \<le> i + n \<Longrightarrow> \<not> lbit x k \<Longrightarrow> right_root H X k x = trie_zero"
  shows "\<exists>st'. push_zeros (leaf_key_of x) (Suc i) n st = Inr st' \<and> stands_for st' (pending H X x (Suc (i + n)))"
  using assms
proof (induction n arbitrary: i st)
  case (Suc n)
  have "stands_for (if \<not> lbit x (Suc i) then trie_zero # st else st) (pending H X x (Suc (Suc i)))"
    using Suc.prems(1) Suc.prems(3) [of "Suc i"] by (auto intro: stands_for_Cons)
  from Suc.IH [OF this] Suc.prems show ?case by (auto simp: getBit_eq)
qed auto

section \<open>The pass\<close>

definition shared_with_prev :: "trie_node list \<Rightarrow> nat \<Rightarrow> nat" where
  "shared_with_prev X i = (if i = 0 then 0 else findSharedPrefix (leaf_key_of (X ! i)) (leaf_key_of (X ! (i - 1))))"

definition annotated :: "trie_node list \<Rightarrow> nat \<Rightarrow> (trie_node \<times> nat) list" where
  "annotated X n = map (\<lambda>i. (X ! i, shared_with_prev X i)) [0..<n]"

lemma with_shared_bits_eq:
  "\<forall>x \<in> set (p # xs). length x = 64 \<Longrightarrow> with_shared_bits p xs =
    Inr (map (\<lambda>i. (xs ! i, findSharedPrefix (leaf_key_of (xs ! i)) (leaf_key_of ((p # xs) ! i)))) [0..<length xs])"
proof (induction xs arbitrary: p)
  case (Cons x xs)
  from Cons.IH [of x] Cons.prems show ?case
    by (simp add: getKey_eq map_upt_Suc del: upt_Suc)
qed simp

lemma with_shared_bits_annotated:
  assumes "\<forall>x \<in> set (p # xs). length x = 64"
  shows "\<exists>rest. with_shared_bits p xs = Inr rest \<and> (p, 0) # rest = annotated (p # xs) (length (p # xs))"
  using with_shared_bits_eq [OF assms]
  by (auto simp: annotated_def shared_with_prev_def map_upt_Suc simp del: upt_Suc intro!: map_cong)

lemma annotated_Suc: "rev (annotated X (Suc n)) = (X ! n, shared_with_prev X n) # rev (annotated X n)"
  by (simp add: annotated_def)

lemma shared_parts:
  assumes "sorted_leaves X" "Suc m < length X"
  shows "parts (shared_with_prev X (Suc m)) (X ! m) (X ! Suc m)"
proof -
  obtain c where c: "parts c (X ! m) (X ! Suc m)" using sorted_parts [OF assms(1), of m "Suc m"] assms(2) by auto
  moreover have "length (X ! m) = 64" "length (X ! Suc m) = 64" using assms by (auto simp: sorted_leaves_def)
  ultimately have "shared_with_prev X (Suc m) = c" by (simp add: shared_with_prev_def parts_shared)
  with c show ?thesis by simp
qed

lemma parts_bound: "parts c x y \<Longrightarrow> c < 248"
  by (simp add: parts_def differ_at_def)

lemma parts_agree: "parts c x y \<Longrightarrow> j \<le> c \<Longrightarrow> agree j (leaf_key_of x) (leaf_key_of y)"
  by (auto simp: parts_def differ_at_def intro: agree_mono)

text \<open>Two neighbours part at different bits: \<open>x\<close> parts from \<open>y\<close> on its 0 and from the leaf before it on its 1.\<close>

lemma parts_differ: "parts c x y \<Longrightarrow> parts d w x \<Longrightarrow> c \<noteq> d"
  by (auto simp: parts_def)

text \<open>What is pending at \<open>w\<close>, the leaf before \<open>x\<close>, is what was pending at \<open>x\<close> and \<open>x\<close>'s own group.\<close>

lemma pending_step:
  assumes "parts d w x" "st = s # st'" "s = merkle H (Suc d) (group X (Suc d) x)" "stands_for st' (pending H X x d)"
  shows "stands_for st (pending H X w (Suc d))"
proof -
  have ag: "agree d (leaf_key_of w) (leaf_key_of x)" using assms(1) by (rule parts_agree) simp
  have "group X (Suc d) x = filter (\<lambda>y. lbit y d) (group X d w)"
    using assms(1) group_cong [OF ag, of X] by (simp add: parts_def group_Suc)
  then have "s = right_root H X d w" by (simp add: assms(3) right_root_def)
  moreover have "pending H X w d = pending H X x d" using ag by (rule pending_cong)
  ultimately show ?thesis using assms by (auto simp: parts_def intro: stands_for_Cons)
qed

text \<open>Between two neighbours, \<open>x\<close> is alone below both of the bits where it parts from them.\<close>

lemma alone_between:
  assumes "sorted_leaves X" "m < length X" "Suc m < length X \<Longrightarrow> parts c (X ! m) (X ! Suc m)" "Suc m < length X \<Longrightarrow> c < i"
    "0 < m \<Longrightarrow> parts d (X ! (m - 1)) (X ! m)" "0 < m \<Longrightarrow> d < i"
  shows "group X i (X ! m) = [X ! m]"
proof (rule group_alone [OF assms(2)])
  fix j assume j: "j < length X" "j \<noteq> m"
  show "\<not> agree i (leaf_key_of (X ! m)) (leaf_key_of (X ! j))"
  proof (cases "j < m")
    case True
    then have m: "Suc (m - 1) = m" "0 < m" "j \<le> m - 1" by auto
    with before_not_agree [OF assms(1), of d "m - 1" j] assms(2,5) 
    have "\<not> agree (Suc d) (leaf_key_of (X ! m)) (leaf_key_of (X ! j))" by simp
    then show ?thesis using assms(6) [OF m(2)] agree_mono Suc_leI by blast
  next
    case False
    with j have "m < j" "Suc m < length X" by auto
    with after_not_agree [OF assms(1), of c m j] assms(3) j
    have "\<not> agree (Suc c) (leaf_key_of (X ! m)) (leaf_key_of (X ! j))" by simp
    then show ?thesis using assms(4) [OF \<open>Suc m < length X\<close>] agree_mono Suc_leI by blast
  qed
qed

lemma left_missing:
  assumes "sorted_leaves X" "m < length X" "lbit (X ! m) k" "k < 248"
    "\<And>j. j < m \<Longrightarrow> \<not> agree k (leaf_key_of (X ! m)) (leaf_key_of (X ! j))"
  shows "filter (\<lambda>y. \<not> lbit y k) (group X k (X ! m)) = []"
proof -
  have "lbit (X ! j) k" if j: "j < length X" "agree k (leaf_key_of (X ! m)) (leaf_key_of (X ! j))" for j
  proof (rule ccontr)
    assume no: "\<not> lbit (X ! j) k"
    with assms(3,5) j(2) have "m < j" by (metis linorder_neqE_nat)
    then obtain t where t: "parts t (X ! m) (X ! j)" using sorted_parts [OF assms(1)] j(1) by blast
    moreover have "differ_at k (leaf_key_of (X ! m)) (leaf_key_of (X ! j))"
      using no j(2) assms(3,4) by (simp add: differ_at_def)
    ultimately have "t = k" using differ_unique by (auto simp: parts_def)
    with t assms(3) show False by (simp add: parts_def)
  qed
  then show ?thesis by (auto simp: filter_group_empty)
qed

lemma down_step:
  assumes X: "sorted_leaves X" "m < length X" "0 < m"
    and parts: "Suc m < length X \<Longrightarrow> parts c (X ! m) (X ! Suc m) \<and> c < d" "parts d (X ! (m - 1)) (X ! m)" "c \<le> d"
    and st: "stands_for st (pending H X (X ! m) (Suc c))"
  shows "\<exists>st'. push_zeros (leaf_key_of (X ! m)) (Suc c) (d - c) st = Inr st' \<and>
      stands_for (H (X ! m) # st') (pending H X (X ! (m - 1)) (Suc d))"
proof -
  have zero: "right_root H X k (X ! m) = trie_zero" if "c < k" "k \<le> c + (d - c)" "\<not> lbit (X ! m) k" for k
  proof (rule right_root_zero [OF X(1,2) that(3)])
    show "k < 248" using that parts(2,3) parts_bound by fastforce
    fix j assume "m < j" "j < length X"
    with after_not_agree [OF X(1), of c m j] parts(1)
    have "\<not> agree (Suc c) (leaf_key_of (X ! m)) (leaf_key_of (X ! j))" by simp
    then show "\<not> agree k (leaf_key_of (X ! m)) (leaf_key_of (X ! j))" using that(1) agree_mono Suc_leI by blast
  qed
  have "c + (d - c) < 248" using parts(2,3) parts_bound by fastforce
  from push_zeros_spec [OF st this zero] obtain st' where
    push: "push_zeros (leaf_key_of (X ! m)) (Suc c) (d - c) st = Inr st'" and
    "stands_for st' (pending H X (X ! m) (Suc d))"
    using parts(3) by auto
  moreover have alone: "group X (Suc d) (X ! m) = [X ! m]"
    using parts by (intro alone_between [OF X(1,2), where c = c and d = d]) auto
  ultimately have "stands_for (H (X ! m) # st') (pending H X (X ! (m - 1)) (Suc d))"
    using parts(2) by (intro pending_step [OF parts(2) refl]) (simp_all add: parts_def)
  with push show ?thesis by blast
qed

lemma up_steps:
  assumes X: "sorted_leaves X" "Suc m < length X" and p: "parts c (X ! m) (X ! Suc m)"
    and before: "0 < m \<Longrightarrow> parts d (X ! (m - 1)) (X ! m) \<and> d < e" and e: "e \<le> c"
    and st: "stands_for st (pending H X (X ! m) (Suc c))"
  shows "\<exists>st'. merge_up H (leaf_key_of (X ! m)) c (Suc c - e) (H (X ! m) # st) =
      Inr (merkle H e (group X e (X ! m)) # st') \<and> stands_for st' (pending H X (X ! m) e)"
proof -
  have alone: "group X (Suc c) (X ! m) = [X ! m]"
    using before e p X by (intro alone_between [OF X(1), where c = c and d = d]) auto
  have left: "filter (\<lambda>y. \<not> lbit y k) (group X k (X ! m)) = []"
    if k: "k \<le> c" "c < k + (Suc c - e)" "lbit (X ! m) k" for k
  proof (rule left_missing [OF X(1) _ k(3)])
    show "m < length X" "k < 248" using X(2) k(1) parts_bound [OF p] by auto
    fix j assume "j < m"
    then have m: "0 < m" "Suc (m - 1) = m" "j \<le> m - 1" by auto
    with before_not_agree [OF X(1), of d "m - 1" j] X(2) before
    have "\<not> agree (Suc d) (leaf_key_of (X ! m)) (leaf_key_of (X ! j))" by simp
    moreover have "Suc d \<le> k" using before [OF m(1)] k(2) e by auto
    ultimately show "\<not> agree k (leaf_key_of (X ! m)) (leaf_key_of (X ! j))" using agree_mono by blast
  qed
  have two: "2 \<le> length (group X k (X ! m))" if "k \<le> c" for k
  proof (rule group_two)
    show "X ! m \<noteq> X ! Suc m" using p by (auto simp: parts_def)
    show "agree k (leaf_key_of (X ! m)) (leaf_key_of (X ! Suc m))" using p that by (rule parts_agree)
  qed (use X in auto)
  from merge_up_spec [OF left two st parts_bound [OF p], of "Suc c - e"] alone e
  show ?thesis by simp
qed

lemma root_loop_spec:
  assumes X: "sorted_leaves X" and top: "0 < shared_with_prev X 1"
  shows "Suc m < length X \<Longrightarrow> parts c (X ! m) (X ! Suc m) \<Longrightarrow> (m = 0 \<Longrightarrow> 0 < c) \<Longrightarrow>
    stands_for st (pending H X (X ! m) (Suc c)) \<Longrightarrow>
    root_loop H True (rev (annotated X (Suc m))) st c = Inr [merkle H 0 X]"
proof (induction m arbitrary: c st)
  case 0
  from up_steps [OF X 0(1,2) _ _ 0(4), of undefined 0]
  have "merge_up H (leaf_key_of (X ! 0)) c (Suc c) (H (X ! 0) # st) = Inr [merkle H 0 X]"
    by (simp del: merge_up.simps)
  moreover have "length (X ! 0) = 64"
    using X 0(1) by (intro sorted_length) auto
  moreover have "rev (annotated X (Suc 0)) = [(X ! 0, 0)]" by (simp add: annotated_def shared_with_prev_def)
  ultimately show ?case using 0(3) by (simp add: getKey_eq Let_def del: merge_up.simps)
next
  case (Suc m)
  define d where "d = shared_with_prev X (Suc m)"
  have d: "parts d (X ! m) (X ! Suc m)" using shared_parts [OF X, of m] Suc.prems(1) by (simp add: d_def)
  have d0: "m = 0 \<Longrightarrow> 0 < d" using top by (simp add: d_def)
  have "c \<noteq> d" using parts_differ [OF Suc.prems(2) d] .
  have key: "getKey (X ! Suc m) = Inr (leaf_key_of (X ! Suc m))"
    using X Suc.prems(1) by (intro getKey_eq) (auto simp: sorted_leaves_def)
  have more: "annotated X (Suc m) \<noteq> []" by (simp add: annotated_def)
  have go: "root_loop H True (rev (annotated X (Suc m))) st' d = Inr [merkle H 0 X]"
    if "stands_for st' (pending H X (X ! m) (Suc d))" for st'
    using Suc.IH [OF _ d d0 that] Suc.prems(1) by simp
  show ?case
  proof (cases "c < d")
    case True
    from down_step [OF X _ _ _ _ _ Suc.prems(4), of d] Suc.prems d True obtain st' where
      "push_zeros (leaf_key_of (X ! Suc m)) (Suc c) (d - c) st = Inr st'"
      "stands_for (H (X ! Suc m) # st') (pending H X (X ! m) (Suc d))" by auto
    with True show ?thesis
      unfolding annotated_Suc [of X "Suc m"] d_def [symmetric] by (simp add: key more go Let_def)
  next
    case False
    with \<open>c \<noteq> d\<close> have "d < c" by simp
    with up_steps [OF X _ Suc.prems(2) _ _ Suc.prems(4), of d "Suc d"] Suc.prems(1) d obtain st' where
      "merge_up H (leaf_key_of (X ! Suc m)) c (c - d) (H (X ! Suc m) # st) =
        Inr (merkle H (Suc d) (group X (Suc d) (X ! Suc m)) # st')"
      "stands_for st' (pending H X (X ! Suc m) (Suc d))" by auto
    moreover from this d have "stands_for (merkle H (Suc d) (group X (Suc d) (X ! Suc m)) # st') (pending H X (X ! m) (Suc d))"
      by (intro pending_step [OF d refl refl]) (simp add: parts_def)
    ultimately show ?thesis using \<open>d < c\<close>
      unfolding annotated_Suc [of X "Suc m"] d_def [symmetric] by (simp add: key more go Let_def)
  qed
qed

lemma root_loop_all:
  assumes X: "sorted_leaves X" "Suc m < length X" and top: "0 < shared_with_prev X 1" and n: "n = length X"
  shows "root_loop H True (rev (annotated X n)) [] 0 = Inr [merkle H 0 X]"
proof -
  define l where "l = length X - 2"
  have l: "length X = Suc (Suc l)" using X(2) by (simp add: l_def)
  define d where "d = shared_with_prev X (Suc l)"
  have d: "parts d (X ! l) (X ! Suc l)" using shared_parts [OF X(1), of l] l by (simp add: d_def)
  have d0: "l = 0 \<Longrightarrow> 0 < d" using top by (simp add: d_def)
  have key: "getKey (X ! Suc l) = Inr (leaf_key_of (X ! Suc l))"
    using X l by (intro getKey_eq sorted_length) simp_all
  have more: "annotated X (Suc l) \<noteq> []" by (simp add: annotated_def)
  have "\<not> lbit (X ! Suc l) 0 \<Longrightarrow> right_root H X 0 (X ! Suc l) = trie_zero"
    using l by (intro right_root_zero [OF X(1)]) simp_all
  then have "stands_for [] (pending H X (X ! Suc l) (Suc 0))" by (simp add: stands_for_def)
  from down_step [OF X(1) _ _ _ _ _ this, of d] l d obtain st' where st':
    "push_zeros (leaf_key_of (X ! Suc l)) (Suc 0) d [] = Inr st'"
    "stands_for (H (X ! Suc l) # st') (pending H X (X ! l) (Suc d))" by auto
  from root_loop_spec [OF X(1) top _ d d0 st'(2)] l
  have go: "root_loop H True (rev (annotated X (Suc l))) (H (X ! Suc l) # st') d = Inr [merkle H 0 X]" by simp
  have "0 < d \<or> merge_up H (leaf_key_of (X ! Suc l)) 0 (0 - d) (H (X ! Suc l) # st') = Inr (H (X ! Suc l) # st')"
    by simp
  with st'(1) go show ?thesis
    unfolding n l annotated_Suc [of X "Suc l"] d_def [symmetric] by (auto simp: key more Let_def)
qed

lemma computeStateRoot_nodes:
  assumes "\<forall>x \<in> set (x # xs). length x = 64"
  shows "computeStateRoot H (x # xs) =
    bindE (root_loop H (xs \<noteq> []) (rev (annotated (x # xs) (length (x # xs)))) [] 0) (\<lambda>stack. Inr (fst (pop_or_zero stack)))"
proof -
  from with_shared_bits_annotated [OF assms] obtain rest where
    "with_shared_bits x xs = Inr rest" and r: "(x, 0) # rest = annotated (x # xs) (length (x # xs))" by blast
  moreover have "length rest = length xs" using arg_cong [OF r, of length] by (simp add: annotated_def)
  then have "rest = [] \<longleftrightarrow> xs = []" by auto
  ultimately show ?thesis unfolding r [symmetric] by (simp add: computeStateRoot_def Let_def)
qed

lemma state_root_merkle:
  assumes X: "sorted_leaves X" and top: "2 \<le> length X \<Longrightarrow> lbit (X ! 0) 0 = lbit (X ! 1) 0"
  shows "computeStateRoot H X = Inr (merkle H 0 X)"
proof (cases X)
  case Nil
  then show ?thesis by (simp add: computeStateRoot_def)
next
  case (Cons x xs)
  have len: "\<forall>y \<in> set (x # xs). length y = 64" using X Cons by (simp add: sorted_leaves_def)
  show ?thesis
  proof (cases "xs = []")
    case True
    with Cons computeStateRoot_nodes [OF len] len show ?thesis
      by (simp add: annotated_def shared_with_prev_def getKey_eq Let_def pop_or_zero_def)
  next
    case False
    then have two: "Suc 0 < length X" using Cons by (cases xs) auto
    from shared_parts [OF X two] top two have "0 < shared_with_prev X 1"
      by (cases "shared_with_prev X 1") (auto simp: parts_def)
    from root_loop_all [OF X two this refl] False Cons computeStateRoot_nodes [OF len]
    show ?thesis by (simp add: pop_or_zero_def)
  qed
qed

text \<open>
  A single leaf on the left of the root: the zero pushed for the last node hides the right half, and
  the result depends on that leaf alone.
\<close>

definition lone_left :: "trie_node list \<Rightarrow> bool" where
  "lone_left X \<longleftrightarrow> 2 \<le> length X \<and> lbit (X ! 0) 0 \<noteq> lbit (X ! 1) 0"

lemma push_zeros_total: "i + n \<le> 248 \<Longrightarrow> \<exists>st'. push_zeros key i n st = Inr st'"
  by (induction n arbitrary: i st) (simp_all add: getBit_eq)

lemma merge_up_total: "i < 248 \<Longrightarrow> \<exists>st'. merge_up H key i n st = Inr st'"
  by (induction n arbitrary: i st) (simp_all add: getBit_eq case_prod_unfold Let_def)

lemma root_loop_last:
  assumes "\<forall>(leaf, d) \<in> set nodes. length leaf = 64 \<and> d < 248"
    "c < 248" "(if nodes = [] then c else snd (last nodes)) = 0"
  shows "\<exists>st'. root_loop H True (nodes @ [(x, 0)]) st c = root_loop H True [(x, 0)] st' 0"
  using assms
proof (induction nodes arbitrary: c st)
  case (Cons node nodes)
  obtain leaf d where node: "node = (leaf, d)" by (cases node)
  have leaf: "getKey leaf = Inr (leaf_key_of leaf)" "d < 248" using Cons.prems node by (auto intro: getKey_eq)
  have IH: "\<exists>st'. root_loop H True (nodes @ [(x, 0)]) st1 d = root_loop H True [(x, 0)] st' 0" for st1
    using Cons.IH [of d st1] Cons.prems node by (auto split: if_splits)
  obtain st1 where "push_zeros (leaf_key_of leaf) (c + 1) (d + 1 - (c + 1)) st = Inr st1"
    using push_zeros_total [of "c + 1" "d + 1 - (c + 1)"] Cons.prems leaf by fastforce
  moreover obtain st2 where "merge_up H (leaf_key_of leaf) c (c - d) (H leaf # st1) = Inr st2"
    using merge_up_total Cons.prems by blast
  ultimately show ?case using leaf IH by (auto simp: node Let_def)
qed auto

lemma state_root_lone_left:
  assumes X: "sorted_leaves X" "lone_left X"
  shows "computeStateRoot H X = Inr (H (fromSubNodes (H (hd X)) trie_zero))"
proof -
  obtain x y ys where X': "X = x # y # ys" using X(2) by (auto simp: lone_left_def Suc_le_length_iff numeral_2_eq_2)
  have p: "parts (shared_with_prev X 1) x y" using shared_parts [OF X(1), of 0] X' by simp
  have zero: "shared_with_prev X 1 = 0"
  proof (rule ccontr)
    assume "shared_with_prev X 1 \<noteq> 0"
    then have "agree 1 (leaf_key_of x) (leaf_key_of y)" using p by (intro parts_agree) auto
    then show False using X(2) X' by (simp add: agree_def lone_left_def)
  qed
  then have bit: "\<not> lbit x 0" using p by (simp add: parts_def)
  have len: "\<forall>x \<in> set (x # y # ys). length x = 64" using X X' by (simp add: sorted_leaves_def)
  define nodes where "nodes = rev (map (\<lambda>i. (X ! Suc i, shared_with_prev X (Suc i))) [0..<Suc (length ys)])"
  have all: "rev (annotated X (length X)) = nodes @ [(x, 0)]"
    by (simp add: annotated_def nodes_def X' shared_with_prev_def map_upt_Suc del: upt_Suc)
  have "shared_with_prev X (Suc i) < 248" if "i < Suc (length ys)" for i
    using shared_parts [OF X(1), of i] that X' by (intro parts_bound [where x = "X ! i" and y = "X ! Suc i"]) simp
  then have nodes: "\<forall>(leaf, d) \<in> set nodes. length leaf = 64 \<and> d < 248"
    using len by (auto simp: nodes_def X' nth_Cons simp del: upt_Suc split: nat.split)
  have "last nodes = (X ! 1, 0)" using zero by (simp add: nodes_def last_rev hd_map del: upt_Suc)
  then have "(if nodes = [] then 0 else snd (last nodes)) = 0" by simp
  from root_loop_last [OF nodes zero_less_numeral this] obtain st' where
    "root_loop H True (nodes @ [(x, 0)]) [] 0 = root_loop H True [(x, 0)] st' 0" by blast
  moreover have "root_loop H True [(x, 0)] st' 0 = Inr (H (fromSubNodes (H x) trie_zero) # st')"
    using len bit by (simp add: getKey_eq getBit_eq Let_def pop_or_zero_def)
  ultimately show ?thesis
    using computeStateRoot_nodes [OF len] all by (simp add: X' [symmetric] pop_or_zero_def) (simp add: X')
qed

lemma state_root_spec:
  assumes "sorted_leaves X"
  shows "computeStateRoot H X =
    Inr (if lone_left X then H (fromSubNodes (H (hd X)) trie_zero) else merkle H 0 X)"
  using state_root_lone_left [OF assms] state_root_merkle [OF assms] by (auto simp: lone_left_def)

end
