(* ===== verification/ChainTypes.thy ===== *)
theory ChainTypes
  imports Blobs Numbers Bitvec
begin

text \<open>
  The plain data the state transitions work on: the chain parameters of
  \<open>packages/jam/config/chain-spec.ts\<close>, the work report and its parts, validators, extrinsic items
  and the sized arrays of \<open>block/common.ts\<close> and \<open>state/common.ts\<close>. Indices, slots, counts and gas
  are \<open>nat\<close>; hashes and keys are byte strings.
\<close>

section \<open>Chain parameters\<close>

record chain_spec =
  validatorsCount :: nat
  thirdOfValidators :: nat
  validatorsSuperMajority :: nat
  coresCount :: nat
  preimageExpungePeriod :: nat
  slotDuration :: nat
  epochLength :: nat
  contestLength :: nat
  ticketsPerValidator :: nat
  maxTicketsPerExtrinsic :: nat
  rotationPeriod :: nat
  numberECPiecesPerSegment :: nat
  erasureCodedPieceSize :: nat
  maxBlockGas :: nat
  maxRefineGas :: nat
  maxLookupAnchorAge :: nat

definition EC_SEGMENT_SIZE :: nat where "EC_SEGMENT_SIZE = 4104"

text \<open>The checked conversions on naturals.\<close>

definition asU8 :: "nat \<Rightarrow> nat throws" where
  "asU8 n = bindE (tryAsU8 (int n)) (\<lambda>v. Inr (nat v))"

definition asU16 :: "nat \<Rightarrow> nat throws" where
  "asU16 n = bindE (tryAsU16 (int n)) (\<lambda>v. Inr (nat v))"

definition asU32 :: "nat \<Rightarrow> nat throws" where
  "asU32 n = bindE (tryAsU32 (int n)) (\<lambda>v. Inr (nat v))"

definition asU64 :: "nat \<Rightarrow> nat throws" where
  "asU64 n = bindE (tryAsU64 (int n)) (\<lambda>v. Inr (nat v))"

lemma asU_eq:
  "asU8 n = check (n < 2 ^ 8) (Inr n)"
  "asU16 n = check (n < 2 ^ 16) (Inr n)"
  "asU32 n = check (n < 2 ^ 32) (Inr n)"
  "asU64 n = check (n < 2 ^ 64) (Inr n)"
  by (auto simp: asU8_def asU16_def asU32_def asU64_def tryAsU8_def tryAsU16_def tryAsU32_def tryAsU64_def
      is_unsigned_iff check_def)

text \<open>
  \<open>ChainSpec.new\<close>: the three derived fields. The piece size is a quotient of numbers that must be
  whole, or the conversion to \<open>U32\<close> throws.
\<close>

definition new_ChainSpec :: "chain_spec \<Rightarrow> chain_spec throws" where
  "new_ChainSpec d =
    bindE (asU16 (validatorsCount d div 3)) (\<lambda>third.
    bindE (asU16 (validatorsCount d div 3 * 2 + 1)) (\<lambda>superMajority.
    bindE (check (numberECPiecesPerSegment d \<noteq> 0 \<and> EC_SEGMENT_SIZE mod numberECPiecesPerSegment d = 0)
        (asU32 (EC_SEGMENT_SIZE div numberECPiecesPerSegment d))) (\<lambda>pieceSize.
      Inr (d\<lparr>thirdOfValidators := third, validatorsSuperMajority := superMajority, erasureCodedPieceSize := pieceSize\<rparr>))))"

definition tiny_data :: chain_spec where
  "tiny_data = \<lparr>validatorsCount = 6, thirdOfValidators = 0, validatorsSuperMajority = 0, coresCount = 2,
    preimageExpungePeriod = 32, slotDuration = 6, epochLength = 12, contestLength = 10,
    ticketsPerValidator = 3, maxTicketsPerExtrinsic = 3, rotationPeriod = 4, numberECPiecesPerSegment = 1026,
    erasureCodedPieceSize = 0, maxBlockGas = 20000000, maxRefineGas = 1000000000, maxLookupAnchorAge = 24\<rparr>"

definition full_data :: chain_spec where
  "full_data = \<lparr>validatorsCount = 1023, thirdOfValidators = 0, validatorsSuperMajority = 0, coresCount = 341,
    preimageExpungePeriod = 19200, slotDuration = 6, epochLength = 600, contestLength = 500,
    ticketsPerValidator = 2, maxTicketsPerExtrinsic = 16, rotationPeriod = 10, numberECPiecesPerSegment = 6,
    erasureCodedPieceSize = 0, maxBlockGas = 3500000000, maxRefineGas = 5000000000, maxLookupAnchorAge = 14400\<rparr>"

definition tinyChainSpec :: "chain_spec throws" where
  "tinyChainSpec = new_ChainSpec tiny_data"

definition fullChainSpec :: "chain_spec throws" where
  "fullChainSpec = new_ChainSpec full_data"

lemma tinyChainSpec_eq:
  "tinyChainSpec = Inr (tiny_data\<lparr>thirdOfValidators := 2, validatorsSuperMajority := 5, erasureCodedPieceSize := 4\<rparr>)"
  by (simp add: tinyChainSpec_def new_ChainSpec_def tiny_data_def asU_eq EC_SEGMENT_SIZE_def)

lemma fullChainSpec_eq:
  "fullChainSpec = Inr (full_data\<lparr>thirdOfValidators := 341, validatorsSuperMajority := 683, erasureCodedPieceSize := 684\<rparr>)"
  by (simp add: fullChainSpec_def new_ChainSpec_def full_data_def asU_eq EC_SEGMENT_SIZE_def)

definition tryAsPerValidator :: "'a list \<Rightarrow> chain_spec \<Rightarrow> 'a list throws" where
  "tryAsPerValidator xs spec = check (length xs = validatorsCount spec) (Inr xs)"

definition tryAsPerEpochBlock :: "'a list \<Rightarrow> chain_spec \<Rightarrow> 'a list throws" where
  "tryAsPerEpochBlock xs spec = check (length xs = epochLength spec) (Inr xs)"

definition tryAsPerCore :: "'a list \<Rightarrow> chain_spec \<Rightarrow> 'a list throws" where
  "tryAsPerCore xs spec = check (length xs = coresCount spec) (Inr xs)"

section \<open>Validators\<close>

record validator_data =
  vd_bandersnatch :: blob
  vd_ed25519 :: blob
  vd_bls :: blob
  vd_metadata :: blob

section \<open>Work reports\<close>

record work_package_spec =
  wp_hash :: blob
  wp_length :: nat
  wp_erasureRoot :: blob
  wp_exportsRoot :: blob
  wp_exportsCount :: nat

record work_package_info =
  workPackageHash :: blob
  segmentTreeRoot :: blob

record refine_context =
  rc_anchor :: blob
  rc_stateRoot :: blob
  rc_beefyRoot :: blob
  rc_lookupAnchor :: blob
  rc_lookupAnchorSlot :: nat
  rc_prerequisites :: "blob list"

datatype work_exec_result =
    WER_ok blob
  | WER_outOfGas
  | WER_panic
  | WER_incorrectNumberOfExports
  | WER_digestTooBig
  | WER_badCode
  | WER_codeOversize

record work_refine_load =
  ld_gasUsed :: nat
  ld_importedSegments :: nat
  ld_extrinsicCount :: nat
  ld_extrinsicSize :: nat
  ld_exportedSegments :: nat

record work_result =
  re_serviceId :: nat
  re_codeHash :: blob
  re_payloadHash :: blob
  re_gas :: nat
  re_result :: work_exec_result
  re_load :: work_refine_load

record work_report =
  wr_workPackageSpec :: work_package_spec
  wr_context :: refine_context
  wr_coreIndex :: nat
  wr_authorizerHash :: blob
  wr_authorizationOutput :: blob
  wr_segmentRootLookup :: "work_package_info list"
  wr_results :: "work_result list"
  wr_authorizationGasUsed :: nat

record availability_assignment =
  aa_workReport :: work_report
  aa_timeout :: nat

section \<open>Extrinsic items\<close>

record signed_ticket =
  st_attempt :: nat
  st_signature :: blob

record ticket =
  ti_id :: blob
  ti_attempt :: nat

record availability_assurance =
  as_anchor :: blob
  as_bitfield :: bitvec
  as_validatorIndex :: nat
  as_signature :: blob

record preimage =
  pr_requester :: nat
  pr_blob :: blob

end
