(* ===== verification/ServiceState.thy ===== *)
theory ServiceState
  imports Blobs Numbers "HOL-Library.AList"
begin

text \<open>
  Service accounts and their in-memory representation: \<open>packages/jam/state/service.ts\<close>, the update
  records of \<open>state-update.ts\<close>, and the service part of \<open>in-memory-state.ts\<close>. Numbers of every width
  are \<open>int\<close>. A JavaScript \<open>Map\<close> is an association list in insertion order, and so is a
  \<open>HashDictionary\<close> (keys are hashes of one length; theory BlobDictionary proves it the same
  thing). Arrays that the code splices in place are values stored back.
\<close>

section \<open>Results that may also throw\<close>

datatype 'e failure = Thrown js_error | Failed 'e

type_synonym ('e, 'a) outcome = "'e failure + 'a"

fun lift_throws :: "'a throws \<Rightarrow> ('e, 'a) outcome" where
  "lift_throws (Inl e) = Inl (Thrown e)"
| "lift_throws (Inr x) = Inr x"

section \<open>Maps and arrays\<close>

type_synonym ('k, 'v) jsmap = "('k \<times> 'v) list"

abbreviation jm_get :: "('k, 'v) jsmap \<Rightarrow> 'k \<Rightarrow> 'v option" where
  "jm_get m \<equiv> map_of m"

abbreviation jm_set :: "('k, 'v) jsmap \<Rightarrow> 'k \<Rightarrow> 'v \<Rightarrow> ('k, 'v) jsmap" where
  "jm_set m k v \<equiv> AList.update k v m"

abbreviation jm_has :: "('k, 'v) jsmap \<Rightarrow> 'k \<Rightarrow> bool" where
  "jm_has m k \<equiv> map_of m k \<noteq> None"

abbreviation jm_delete :: "('k, 'v) jsmap \<Rightarrow> 'k \<Rightarrow> ('k, 'v) jsmap" where
  "jm_delete m k \<equiv> AList.delete k m"

definition jm_get_or :: "('k, 'v) jsmap \<Rightarrow> 'k \<Rightarrow> 'v \<Rightarrow> 'v" where
  "jm_get_or m k d = (case jm_get m k of Some v \<Rightarrow> v | None \<Rightarrow> d)"

lemma jm_set_get [simp]: "jm_get (jm_set m k v) k' = (if k' = k then Some v else jm_get m k')"
  by (simp add: update_conv)

lemma jm_delete_get [simp]: "jm_get (jm_delete m k) k' = (if k' = k then None else jm_get m k')"
  by (simp add: delete_conv)

lemma jm_get_or_set [simp]: "jm_get_or (jm_set m k v) k' d = (if k' = k then v else jm_get_or m k' d)"
  by (simp add: jm_get_or_def)

text \<open>\<open>xs.findIndex(p)\<close> and \<open>xs.splice(start, count, ...items)\<close>; a negative start counts from the end.\<close>

fun find_index :: "('a \<Rightarrow> bool) \<Rightarrow> 'a list \<Rightarrow> int" where
  "find_index P [] = - 1"
| "find_index P (x # xs) = (if P x then 0 else let i = find_index P xs in if i = - 1 then - 1 else i + 1)"

definition js_splice :: "'a list \<Rightarrow> int \<Rightarrow> nat \<Rightarrow> 'a list \<Rightarrow> 'a list" where
  "js_splice xs start removed items =
    (let s = (if start < 0 then nat (max (int (length xs) + start) 0) else min (nat start) (length xs)) in
     take s xs @ items @ drop (s + removed) xs)"

text \<open>The idiom \<open>xs.splice(index, index === -1 ? 0 : 1, item)\<close>.\<close>

definition splice_replace :: "('a \<Rightarrow> bool) \<Rightarrow> 'a \<Rightarrow> 'a list \<Rightarrow> 'a list" where
  "splice_replace P x xs = (let i = find_index P xs in js_splice xs i (if i = - 1 then 0 else 1) [x])"

lemma find_index_ge: "- 1 \<le> find_index P xs"
  by (induction xs) (auto simp: Let_def)

lemma find_index_None: "find_index P xs = - 1 \<longleftrightarrow> (\<forall>x \<in> set xs. \<not> P x)"
proof (induction xs)
  case (Cons x xs)
  then show ?case using find_index_ge [of P xs] by (auto simp: Let_def)
qed simp

lemma find_index_split:
  assumes "find_index P xs \<noteq> - 1"
  shows "\<exists>ys x zs. xs = ys @ x # zs \<and> P x \<and> (\<forall>y \<in> set ys. \<not> P y) \<and> find_index P xs = int (length ys)"
  using assms
proof (induction xs)
  case (Cons a xs)
  show ?case
  proof (cases "P a")
    case True
    then show ?thesis by (intro exI [of _ "[]"]) simp
  next
    case False
    with Cons obtain ys x zs where "xs = ys @ x # zs" "P x" "\<forall>y \<in> set ys. \<not> P y" "find_index P xs = int (length ys)"
      by (auto simp: Let_def split: if_splits)
    with False show ?thesis by (intro exI [of _ "a # ys"] exI [of _ x] exI [of _ zs]) simp
  qed
qed simp

text \<open>Looking an item up after the idiom, by a property that at most the replaced item had.\<close>

lemma splice_replace_cases:
  obtains ys zs where "xs = ys @ zs" "\<forall>y \<in> set xs. \<not> P y" "splice_replace P x xs = ys @ x # zs"
  | ys y zs where "xs = ys @ y # zs" "P y" "\<forall>y \<in> set ys. \<not> P y" "splice_replace P x xs = ys @ x # zs"
proof (cases "find_index P xs = - 1")
  case True
  then have "splice_replace P x xs = take (length xs - 1) xs @ x # drop (length xs - 1) xs"
    by (cases xs) (simp_all add: splice_replace_def js_splice_def Let_def)
  with True show thesis using that(1) [of "take (length xs - 1) xs" "drop (length xs - 1) xs"]
    by (simp add: find_index_None)
next
  case False
  then obtain ys y zs where *: "xs = ys @ y # zs" "P y" "\<forall>y \<in> set ys. \<not> P y" "find_index P xs = int (length ys)"
    using find_index_split by blast
  then have "splice_replace P x xs = ys @ x # zs"
    by (simp add: splice_replace_def js_splice_def Let_def)
  with * show thesis using that(2) by blast
qed

lemma find_append_list: "List.find P (xs @ ys) = (case List.find P xs of None \<Rightarrow> List.find P ys | Some x \<Rightarrow> Some x)"
  by (induction xs) auto

lemma find_None: "\<forall>x \<in> set xs. \<not> P x \<Longrightarrow> List.find P xs = None"
  by (simp add: find_None_iff)

lemma find_splice_same: "P x \<Longrightarrow> List.find P (splice_replace P x xs) = Some x"
  by (rule splice_replace_cases [of xs P x]) (auto simp: find_append_list find_None)

lemma find_splice_other:
  "\<not> Q x \<Longrightarrow> (\<And>y. P y \<Longrightarrow> \<not> Q y) \<Longrightarrow> List.find Q (splice_replace P x xs) = List.find Q xs"
  by (rule splice_replace_cases [of xs P x]) (auto simp: find_append_list split: option.split)

lemma find_splice_key:
  "f x = k \<Longrightarrow> k' \<noteq> k \<Longrightarrow>
    List.find (\<lambda>y. f y = k') (splice_replace (\<lambda>y. f y = k) x xs) = List.find (\<lambda>y. f y = k') xs"
  by (rule find_splice_other) auto

section \<open>Service accounts\<close>

type_synonym service_id = int
type_synonym time_slot = int

record service_account_info =
  codeHash :: blob
  balance :: int
  accumulateMinGas :: int
  onTransferMinGas :: int
  storageUtilisationBytes :: int
  gratisStorage :: int
  storageUtilisationCount :: int
  created_slot :: time_slot
  lastAccumulation :: time_slot
  parentService :: service_id

definition BASE_SERVICE_BALANCE :: int where "BASE_SERVICE_BALANCE = 100"
definition ELECTIVE_ITEM_BALANCE :: int where "ELECTIVE_ITEM_BALANCE = 10"
definition ELECTIVE_BYTE_BALANCE :: int where "ELECTIVE_BYTE_BALANCE = 1"

definition calculateThresholdBalance :: "int \<Rightarrow> int \<Rightarrow> int \<Rightarrow> int throws" where
  "calculateThresholdBalance items len gratis =
    (let storageCost = BASE_SERVICE_BALANCE + ELECTIVE_ITEM_BALANCE * items + ELECTIVE_BYTE_BALANCE * len - gratis in
     if storageCost < 0 then tryAsU64 0
     else if storageCost \<ge> 2 ^ 64 then tryAsU64 (2 ^ 64 - 1)
     else tryAsU64 storageCost)"

text \<open>The formula of the protocol, cut to 64 bits.\<close>

definition threshold :: "service_account_info \<Rightarrow> int" where
  "threshold i = min (2 ^ 64 - 1) (max 0
    (100 + 10 * storageUtilisationCount i + storageUtilisationBytes i - gratisStorage i))"

lemma calculateThresholdBalance_eq:
  "calculateThresholdBalance n len g = Inr (min (2 ^ 64 - 1) (max 0 (100 + 10 * n + len - g)))"
  by (simp add: calculateThresholdBalance_def BASE_SERVICE_BALANCE_def ELECTIVE_ITEM_BALANCE_def
      ELECTIVE_BYTE_BALANCE_def Let_def tryAsU64_def isU64_iff)

lemma threshold_range: "0 \<le> threshold i" "threshold i < 2 ^ 64"
  by (simp_all add: threshold_def)

record preimage_item =
  pi_hash :: blob
  pi_blob :: blob

record storage_item =
  si_key :: blob
  si_value :: blob

type_synonym lookup_history_slots = "time_slot list"

definition MAX_LOOKUP_HISTORY_SLOTS :: nat where "MAX_LOOKUP_HISTORY_SLOTS = 3"

definition tryAsLookupHistorySlots :: "time_slot list \<Rightarrow> lookup_history_slots throws" where
  "tryAsLookupHistorySlots items = (if length items > MAX_LOOKUP_HISTORY_SLOTS then Inl GenericError else Inr items)"

record lookup_history_item =
  li_hash :: blob
  li_length :: int
  li_slots :: lookup_history_slots

definition isRequested :: "lookup_history_slots \<Rightarrow> bool" where
  "isRequested slots \<longleftrightarrow> length slots = 0"

section \<open>Updates\<close>

datatype update_preimage =
    UP_Provide preimage_item "time_slot option" service_id
  | UP_Remove blob int
  | UP_UpdateOrAdd lookup_history_item

fun up_hash :: "update_preimage \<Rightarrow> blob" where
  "up_hash (UP_Provide preimage _ _) = pi_hash preimage"
| "up_hash (UP_Remove h _) = h"
| "up_hash (UP_UpdateOrAdd item) = li_hash item"

text \<open>The length of a blob always fits into a \<open>U32\<close> (an array has fewer than \<open>2 ^ 32\<close> elements).\<close>

fun up_length :: "update_preimage \<Rightarrow> int" where
  "up_length (UP_Provide preimage _ _) = int (length (pi_blob preimage))"
| "up_length (UP_Remove _ len) = len"
| "up_length (UP_UpdateOrAdd item) = li_length item"

datatype update_service =
    US_Update service_account_info
  | US_Create service_account_info "lookup_history_item option"

fun us_account :: "update_service \<Rightarrow> service_account_info" where
  "us_account (US_Update account) = account"
| "us_account (US_Create account _) = account"

datatype update_storage = UST_Set storage_item | UST_Remove blob

fun ust_key :: "update_storage \<Rightarrow> blob" where
  "ust_key (UST_Remove key) = key"
| "ust_key (UST_Set item) = si_key item"

fun ust_value :: "update_storage \<Rightarrow> blob option" where
  "ust_value (UST_Remove key) = None"
| "ust_value (UST_Set item) = Some (si_value item)"

record services_update =
  su_removed :: "service_id list"
  su_created :: "service_id list"
  su_updated :: "(service_id, update_service) jsmap"
  su_preimages :: "(service_id, update_preimage list) jsmap"
  su_storage :: "(service_id, update_storage list) jsmap"

section \<open>The in-memory service\<close>

text \<open>Storage is keyed by the hexadecimal text of the key.\<close>

record in_memory_service =
  sd_info :: service_account_info
  sd_preimages :: "(blob, preimage_item) jsmap"
  sd_lookupHistory :: "(blob, lookup_history_item list) jsmap"
  sd_storage :: "(string, storage_item) jsmap"

definition sv_getStorage :: "in_memory_service \<Rightarrow> blob \<Rightarrow> blob option" where
  "sv_getStorage s rawKey = map_option si_value (jm_get (sd_storage s) (bytesToHexString rawKey))"

definition sv_hasPreimage :: "in_memory_service \<Rightarrow> blob \<Rightarrow> bool" where
  "sv_hasPreimage s h \<longleftrightarrow> jm_has (sd_preimages s) h"

definition sv_getPreimage :: "in_memory_service \<Rightarrow> blob \<Rightarrow> blob option" where
  "sv_getPreimage s h = map_option pi_blob (jm_get (sd_preimages s) h)"

definition sv_getLookupHistory :: "in_memory_service \<Rightarrow> blob \<Rightarrow> int \<Rightarrow> lookup_history_slots option" where
  "sv_getLookupHistory s h len =
    (case jm_get (sd_lookupHistory s) h of
       None \<Rightarrow> None
     | Some item \<Rightarrow> map_option li_slots (List.find (\<lambda>x. li_length x = len) item))"

record service_entries =
  en_storageKeys :: "blob list"
  en_preimages :: "blob list"
  en_lookupHistory :: "(blob \<times> int) list"

text \<open>\<open>val[0].length\<close> of an empty history throws.\<close>

fun first_lengths :: "(blob \<times> lookup_history_item list) list \<Rightarrow> (blob \<times> int) list throws" where
  "first_lengths [] = Inr []"
| "first_lengths ((h, []) # xs) = Inl TypeError"
| "first_lengths ((h, item # _) # xs) = bindE (first_lengths xs) (\<lambda>r. Inr ((h, li_length item) # r))"

definition sv_getEntries :: "in_memory_service \<Rightarrow> service_entries throws" where
  "sv_getEntries s = bindE (first_lengths (sd_lookupHistory s)) (\<lambda>lookups.
    Inr \<lparr>en_storageKeys = map (si_key \<circ> snd) (sd_storage s),
         en_preimages = map fst (sd_preimages s),
         en_lookupHistory = lookups\<rparr>)"

text \<open>The entries that \<open>InMemoryState.intoServicesData\<close> lists for one service.\<close>

definition sv_intoServicesData :: "in_memory_service \<Rightarrow> service_entries" where
  "sv_intoServicesData s =
    \<lparr>en_storageKeys = map (si_key \<circ> snd) (sd_storage s),
     en_preimages = map fst (sd_preimages s),
     en_lookupHistory = concat (map (\<lambda>(h, items). map (\<lambda>item. (h, li_length item)) items) (sd_lookupHistory s))\<rparr>"

fun copy_preimages :: "in_memory_service \<Rightarrow> blob list \<Rightarrow> (blob, preimage_item) jsmap \<Rightarrow> (blob, preimage_item) jsmap throws" where
  "copy_preimages s [] acc = Inr acc"
| "copy_preimages s (h # hs) acc =
    (case sv_getPreimage s h of
       None \<Rightarrow> Inl GenericError
     | Some b \<Rightarrow> copy_preimages s hs (jm_set acc h \<lparr>pi_hash = h, pi_blob = b\<rparr>))"

fun copy_lookups :: "in_memory_service \<Rightarrow> (blob \<times> int) list \<Rightarrow> (blob, lookup_history_item list) jsmap \<Rightarrow>
    (blob, lookup_history_item list) jsmap throws" where
  "copy_lookups s [] acc = Inr acc"
| "copy_lookups s ((h, len) # xs) acc =
    (case sv_getLookupHistory s h len of
       None \<Rightarrow> Inl GenericError
     | Some slots \<Rightarrow>
         let items = jm_get_or acc h [] @ [\<lparr>li_hash = h, li_length = len, li_slots = slots\<rparr>] in
         copy_lookups s xs (jm_set acc h items))"

fun copy_storage :: "in_memory_service \<Rightarrow> blob list \<Rightarrow> (string, storage_item) jsmap \<Rightarrow> (string, storage_item) jsmap throws" where
  "copy_storage s [] acc = Inr acc"
| "copy_storage s (key # keys) acc =
    (case sv_getStorage s key of
       None \<Rightarrow> Inl GenericError
     | Some v \<Rightarrow> copy_storage s keys (jm_set acc (bytesToHexString key) \<lparr>si_key = key, si_value = v\<rparr>))"

definition sv_copyFrom :: "in_memory_service \<Rightarrow> service_entries \<Rightarrow> in_memory_service throws" where
  "sv_copyFrom s entries =
    bindE (copy_preimages s (en_preimages entries) []) (\<lambda>preimages.
    bindE (copy_lookups s (en_lookupHistory entries) []) (\<lambda>lookups.
    bindE (copy_storage s (en_storageKeys entries) []) (\<lambda>storage.
      Inr \<lparr>sd_info = sd_info s, sd_preimages = preimages, sd_lookupHistory = lookups, sd_storage = storage\<rparr>)))"

section \<open>Applying updates to the services\<close>

datatype update_error = DuplicateService | NoService | PreimageExists

type_synonym services = "(service_id, in_memory_service) jsmap"

text \<open>The services are changed in place, so an error leaves the changes made before it.\<close>

type_synonym update_result = "services \<times> (update_error, unit) outcome"

definition new_service :: "service_account_info \<Rightarrow> lookup_history_item option \<Rightarrow> in_memory_service" where
  "new_service account lookupHistory =
    \<lparr>sd_info = account, sd_preimages = [],
     sd_lookupHistory = (case lookupHistory of None \<Rightarrow> [] | Some item \<Rightarrow> [(li_hash item, [item])]),
     sd_storage = []\<rparr>"

fun updateServices :: "services \<Rightarrow> (service_id \<times> update_service) list \<Rightarrow> update_result" where
  "updateServices svcs [] = (svcs, Inr ())"
| "updateServices svcs ((serviceId, US_Create account lookupHistory) # us) =
    (if jm_has svcs serviceId then (svcs, Inl (Failed DuplicateService))
     else updateServices (jm_set svcs serviceId (new_service account lookupHistory)) us)"
| "updateServices svcs ((serviceId, US_Update account) # us) =
    (case jm_get svcs serviceId of
       None \<Rightarrow> (svcs, Inl (Failed NoService))
     | Some existingService \<Rightarrow> updateServices (jm_set svcs serviceId (existingService\<lparr>sd_info := account\<rparr>)) us)"

definition set_lookup :: "lookup_history_item \<Rightarrow> lookup_history_item list \<Rightarrow> lookup_history_item list" where
  "set_lookup lookup history = splice_replace (\<lambda>x. li_length x = li_length lookup) lookup history"

definition remove_lookup :: "int \<Rightarrow> lookup_history_item list \<Rightarrow> lookup_history_item list" where
  "remove_lookup len history =
    (let idx = find_index (\<lambda>x. li_length x = len) history in
     if idx \<noteq> - 1 then js_splice history idx 1 [] else history)"

fun updatePreimage :: "in_memory_service \<Rightarrow> update_preimage \<Rightarrow> (update_error, in_memory_service) outcome" where
  "updatePreimage service (UP_Provide preimage slot _) =
    (if jm_has (sd_preimages service) (pi_hash preimage) then Inl (Failed PreimageExists)
     else
       let service = service\<lparr>sd_preimages := jm_set (sd_preimages service) (pi_hash preimage) preimage\<rparr> in
       case slot of
         None \<Rightarrow> Inr service
       | Some slot \<Rightarrow>
           let len = int (length (pi_blob preimage)) in
           bindE (lift_throws (tryAsLookupHistorySlots [slot])) (\<lambda>slots.
             let lookup = \<lparr>li_hash = pi_hash preimage, li_length = len, li_slots = slots\<rparr>;
                 history = (case jm_get (sd_lookupHistory service) (pi_hash preimage) of
                     None \<Rightarrow> [lookup] | Some lookupHistory \<Rightarrow> set_lookup lookup lookupHistory) in
             Inr (service\<lparr>sd_lookupHistory := jm_set (sd_lookupHistory service) (pi_hash preimage) history\<rparr>)))"
| "updatePreimage service (UP_Remove h len) =
    (let service = service\<lparr>sd_preimages := jm_delete (sd_preimages service) h\<rparr> in
     Inr (case jm_get (sd_lookupHistory service) h of
            None \<Rightarrow> service
          | Some history \<Rightarrow>
              service\<lparr>sd_lookupHistory := jm_set (sd_lookupHistory service) h (remove_lookup len history)\<rparr>))"
| "updatePreimage service (UP_UpdateOrAdd item) =
    (let history = jm_get_or (sd_lookupHistory service) (li_hash item) [] in
     Inr (service\<lparr>sd_lookupHistory := jm_set (sd_lookupHistory service) (li_hash item) (set_lookup item history)\<rparr>))"

fun updatePreimages_of :: "in_memory_service \<Rightarrow> update_preimage list \<Rightarrow> in_memory_service \<times> (update_error, unit) outcome" where
  "updatePreimages_of service [] = (service, Inr ())"
| "updatePreimages_of service (u # us) =
    (case updatePreimage service u of
       Inl e \<Rightarrow> (service, Inl e)
     | Inr service \<Rightarrow> updatePreimages_of service us)"

fun updatePreimages :: "services \<Rightarrow> (service_id \<times> update_preimage list) list \<Rightarrow> update_result" where
  "updatePreimages svcs [] = (svcs, Inr ())"
| "updatePreimages svcs ((serviceId, updates) # us) =
    (case jm_get svcs serviceId of
       None \<Rightarrow> (svcs, Inl (Failed NoService))
     | Some service \<Rightarrow>
         let (service, r) = updatePreimages_of service updates; svcs = jm_set svcs serviceId service in
         case r of Inl e \<Rightarrow> (svcs, Inl e) | Inr _ \<Rightarrow> updatePreimages svcs us)"

fun updateStorage_of :: "services \<Rightarrow> service_id \<Rightarrow> update_storage list \<Rightarrow> update_result" where
  "updateStorage_of svcs serviceId [] = (svcs, Inr ())"
| "updateStorage_of svcs serviceId (u # us) =
    (case jm_get svcs serviceId of
       None \<Rightarrow> (svcs, Inl (Failed NoService))
     | Some service \<Rightarrow>
         (case u of
            UST_Set item \<Rightarrow>
              updateStorage_of (jm_set svcs serviceId
                (service\<lparr>sd_storage := jm_set (sd_storage service) (bytesToHexString (si_key item)) item\<rparr>)) serviceId us
          | UST_Remove key \<Rightarrow>
              if jm_has (sd_storage service) (bytesToHexString key) then
                updateStorage_of (jm_set svcs serviceId
                  (service\<lparr>sd_storage := jm_delete (sd_storage service) (bytesToHexString key)\<rparr>)) serviceId us
              else (svcs, Inl (Thrown AssertionFailure))))"

fun updateStorage :: "services \<Rightarrow> (service_id \<times> update_storage list) list \<Rightarrow> update_result" where
  "updateStorage svcs [] = (svcs, Inr ())"
| "updateStorage svcs ((serviceId, updates) # us) =
    (case updateStorage_of svcs serviceId updates of
       (svcs, Inl e) \<Rightarrow> (svcs, Inl e)
     | (svcs, Inr _) \<Rightarrow> updateStorage svcs us)"

fun removeServices :: "services \<Rightarrow> service_id list \<Rightarrow> update_result" where
  "removeServices svcs [] = (svcs, Inr ())"
| "removeServices svcs (serviceId # ids) =
    (if jm_has svcs serviceId then removeServices (jm_delete svcs serviceId) ids
     else (svcs, Inl (Thrown AssertionFailure)))"

text \<open>One stage after the other; the first error ends the update.\<close>

definition and_then :: "update_result \<Rightarrow> (services \<Rightarrow> update_result) \<Rightarrow> update_result" where
  "and_then r f = (case r of (svcs, Inl e) \<Rightarrow> (svcs, Inl e) | (svcs, Inr _) \<Rightarrow> f svcs)"

text \<open>The part of \<open>InMemoryState.applyUpdate\<close> that concerns services.\<close>

definition applyServicesUpdate :: "services \<Rightarrow> services_update \<Rightarrow> update_result" where
  "applyServicesUpdate svcs update =
    and_then (and_then (and_then
      (updateServices svcs (su_updated update))
      (\<lambda>svcs. updatePreimages svcs (su_preimages update)))
      (\<lambda>svcs. updateStorage svcs (su_storage update)))
      (\<lambda>svcs. removeServices svcs (su_removed update))"

end
