(* ===== verification/JsCollections.thy ===== *)
theory JsCollections
  imports BlobDictionary
begin

text \<open>
  JavaScript sets, and the hash sets of \<open>collections/hash-set.ts\<close>, as lists without repetition in the
  order of insertion. The transitions use sets of 32-byte hashes only through \<open>from\<close>, \<open>has\<close>, \<open>insert\<close>
  and iteration; locale \<open>hash_sets\<close> states what they rely on, and the interpretation shows that the sets
  over the blob dictionary provide it, so that the transitions can be modelled on lists. \<open>foldE\<close> is a
  loop over a list whose body may throw.
\<close>

section \<open>Loops\<close>

fun foldE :: "('a \<Rightarrow> 's \<Rightarrow> 'e + 's) \<Rightarrow> 'a list \<Rightarrow> 's \<Rightarrow> 'e + 's" where
  "foldE f [] s = Inr s"
| "foldE f (x # xs) s = bindE (f x s) (foldE f xs)"

fun mapE :: "('a \<Rightarrow> 'e + 'b) \<Rightarrow> 'a list \<Rightarrow> 'e + 'b list" where
  "mapE f [] = Inr []"
| "mapE f (x # xs) = bindE (f x) (\<lambda>y. bindE (mapE f xs) (\<lambda>ys. Inr (y # ys)))"

lemma bindE_cong: "m = m' \<Longrightarrow> (\<And>x. m' = Inr x \<Longrightarrow> f x = f' x) \<Longrightarrow> bindE m f = bindE m' f'"
  by (cases m') simp_all

lemma bindE_return: "(\<And>x. f x = Inr x) \<Longrightarrow> bindE m f = m"
  by (cases m) simp_all

lemma foldE_append: "foldE f (xs @ ys) s = bindE (foldE f xs s) (foldE f ys)"
  by (induction xs arbitrary: s) (simp_all add: bindE_assoc cong: bindE_cong)

lemma foldE_snoc: "foldE f (xs @ [x]) s = bindE (foldE f xs s) (f x)"
  unfolding foldE_append by (rule bindE_cong [OF refl]) (simp add: bindE_return)

lemma foldE_map: "foldE f (map g xs) = foldE (\<lambda>x. f (g x)) xs"
proof
  fix s show "foldE f (map g xs) s = foldE (\<lambda>x. f (g x)) xs s"
    by (induction xs arbitrary: s) (simp_all cong: bindE_cong)
qed

lemma foldE_concat: "foldE f (concat (map g xs)) s = foldE (\<lambda>x. foldE f (g x)) xs s"
  by (induction xs arbitrary: s) (simp_all add: foldE_append cong: bindE_cong)

lemma foldE_invariant:
  assumes "foldE f xs s = Inr s'" "P s" "\<And>x s s'. x \<in> set xs \<Longrightarrow> f x s = Inr s' \<Longrightarrow> P s \<Longrightarrow> P s'"
  shows "P s'"
  using assms by (induction xs arbitrary: s) (auto simp: bindE_Inr_iff)

lemma foldE_pure: "(\<And>x s. x \<in> set xs \<Longrightarrow> f x s = Inr (g x s)) \<Longrightarrow> foldE f xs s = Inr (fold g xs s)"
  by (induction xs arbitrary: s) simp_all

lemma mapE_Inr: "mapE f xs = Inr ys \<longleftrightarrow> list_all2 (\<lambda>x y. f x = Inr y) xs ys"
  by (induction xs arbitrary: ys) (auto simp: bindE_Inr_iff list_all2_Cons1)

lemma mapE_pure: "(\<And>x. x \<in> set xs \<Longrightarrow> f x = Inr (g x)) \<Longrightarrow> mapE f xs = Inr (map g xs)"
  by (induction xs) simp_all

section \<open>Sets in insertion order\<close>

definition js_add :: "'a \<Rightarrow> 'a list \<Rightarrow> 'a list" where
  "js_add x s = (if x \<in> set s then s else s @ [x])"

definition js_unique :: "'a list \<Rightarrow> 'a list" where
  "js_unique xs = fold js_add xs []"

lemma set_js_add [simp]: "set (js_add x s) = insert x (set s)"
  by (auto simp: js_add_def)

lemma distinct_js_add [simp]: "distinct (js_add x s) \<longleftrightarrow> distinct s"
  by (auto simp: js_add_def)

lemma set_fold_js_add [simp]: "set (fold js_add xs s) = set xs \<union> set s"
  by (induction xs arbitrary: s) auto

lemma distinct_fold_js_add [simp]: "distinct (fold js_add xs s) \<longleftrightarrow> distinct s"
  by (induction xs arbitrary: s) auto

lemma set_js_unique [simp]: "set (js_unique xs) = set xs"
  by (simp add: js_unique_def)

lemma distinct_js_unique [simp]: "distinct (js_unique xs)"
  by (simp add: js_unique_def)

lemma fold_js_add_distinct: "distinct (s @ xs) \<Longrightarrow> fold js_add xs s = s @ xs"
  by (induction xs arbitrary: s) (auto simp: js_add_def)

lemma js_unique_distinct [simp]: "distinct xs \<Longrightarrow> js_unique xs = xs"
  by (simp add: js_unique_def fold_js_add_distinct)

lemma js_unique_length: "length (js_unique xs) = length xs \<longleftrightarrow> distinct xs"
  by (metis card_distinct distinct_card distinct_js_unique js_unique_distinct set_js_unique)

section \<open>What the transitions rely on\<close>

locale hash_sets =
  fixes empty :: 's and insert_elem :: "'k \<Rightarrow> 's \<Rightarrow> 's" and has :: "'k \<Rightarrow> 's \<Rightarrow> bool"
    and elements :: "'s \<Rightarrow> 'k list" and raw :: "'k \<Rightarrow> 'r" and valid :: "'k \<Rightarrow> bool" and wf :: "'s \<Rightarrow> bool"
  assumes empty_wf: "wf empty" and empty_elements: "elements empty = []"
    and insert_wf: "wf s \<Longrightarrow> valid k \<Longrightarrow> wf (insert_elem k s)"
    and insert_elements: "wf s \<Longrightarrow> valid k \<Longrightarrow> map raw (elements (insert_elem k s)) = js_add (raw k) (map raw (elements s))"
    and has_elements: "wf s \<Longrightarrow> valid k \<Longrightarrow> has k s \<longleftrightarrow> raw k \<in> raw ` set (elements s)"
begin

definition from_list :: "'k list \<Rightarrow> 's" where
  "from_list ks = fold insert_elem ks empty"

lemma fold_insert:
  "wf s \<Longrightarrow> \<forall>k \<in> set ks. valid k \<Longrightarrow>
    wf (fold insert_elem ks s) \<and> map raw (elements (fold insert_elem ks s)) = fold js_add (map raw ks) (map raw (elements s))"
  by (induction ks arbitrary: s) (simp_all add: insert_wf insert_elements)

lemma from_list_elements:
  "\<forall>k \<in> set ks. valid k \<Longrightarrow> wf (from_list ks) \<and> map raw (elements (from_list ks)) = js_unique (map raw ks)"
  using fold_insert [OF empty_wf] by (simp add: from_list_def js_unique_def empty_elements)

lemma from_list_has:
  assumes "\<forall>k \<in> set ks. valid k" "valid k"
  shows "has k (from_list ks) \<longleftrightarrow> raw k \<in> set (map raw ks)"
proof -
  have "raw ` set (elements (from_list ks)) = set (map raw ks)"
    using from_list_elements [OF assms(1)] by (metis list.set_map set_js_unique)
  then show ?thesis using has_elements [OF conjunct1 [OF from_list_elements [OF assms(1)]] assms(2)] by simp
qed

end

lemma update_True_fst: "map fst (AList.update k True al) = js_add k (map fst al)"
  by (induction al) (auto simp: js_add_def)

interpretation hash_set32: hash_sets new_hash_dictionary hs_insert hs_has hs_elements key_raw
  "\<lambda>k. length (key_raw k) = 32" "dict_wf 32"
proof unfold_locales
  show "dict_wf 32 (new_hash_dictionary :: hash_set)" by (simp add: new_hash_dictionary_def new_dictionary_wf)
  show "hs_elements new_hash_dictionary = []"
    by (simp add: hs_elements_def dict_entries_def new_hash_dictionary_def new_dictionary_def)
qed (simp_all add: hs_insert_def dict_set_ok hs_elements_raw update_True_fst hs_has_iff set_elements_raw)

lemma hs_from_list: "hs_from ks = hash_set32.from_list ks"
  unfolding hash_set32.from_list_def hs_from_def hs_insertAll_def
  by (rule fold_cong) (simp_all add: hs_insert_def fun_eq_iff)

text \<open>A hash set made of hashes iterates over the distinct hashes in order, and finds exactly them.\<close>

lemma hash_set_is_list:
  assumes "\<forall>k \<in> set ks. length (key_raw k) = 32"
  shows "map key_raw (hs_elements (hs_from ks)) = js_unique (map key_raw ks)"
    and "length (key_raw k) = 32 \<Longrightarrow> hs_has k (hs_from ks) \<longleftrightarrow> key_raw k \<in> set (map key_raw ks)"
  using hash_set32.from_list_elements [OF assms] hash_set32.from_list_has [OF assms] by (simp_all add: hs_from_list)

end
