(* ===== verification/AccumulateQueue.thy ===== *)
theory AccumulateQueue
  imports ChainTypes ServiceState JsCollections
begin

text \<open>
  The queue of work reports that wait for others: \<open>packages/jam/transition/accumulate/accumulate-queue.ts\<close>
  with \<open>getWorkPackageHashes\<close> and \<open>uniquePreserveOrder\<close> of \<open>accumulate-utils.ts\<close>. A hash set is the
  list of its elements in the order of insertion (theory \<open>JsCollections\<close>). The reports that can be
  accumulated are given once more as an inductive set, and \<open>enqueueReports\<close> is shown to return a
  dependency order of exactly those.
\<close>

section \<open>Operations\<close>

record not_yet_accumulated =
  ny_report :: work_report
  ny_dependencies :: "blob list"

type_synonym hash_list = "blob list"

definition uniquePreserveOrder :: "'a list \<Rightarrow> 'a list" where
  "uniquePreserveOrder arr = fold js_add arr []"

definition package_hash :: "work_report \<Rightarrow> blob" where
  "package_hash report = wp_hash (wr_workPackageSpec report)"

definition getWorkPackageHashes :: "work_report list \<Rightarrow> hash_list" where
  "getWorkPackageHashes reports = js_unique (map package_hash reports)"

record accumulate_queue =
  aq_chainSpec :: chain_spec
  aq_recentlyAccumulated :: "hash_list list"
  aq_accumulationQueue :: "not_yet_accumulated list list"

definition getWorkReportsToAccumulateImmediately :: "work_report list \<Rightarrow> work_report list" where
  "getWorkReportsToAccumulateImmediately reports =
    filter (\<lambda>report. length (rc_prerequisites (wr_context report)) = 0 \<and> length (wr_segmentRootLookup report) = 0) reports"

definition getWorkReportDependencies :: "work_report \<Rightarrow> blob list" where
  "getWorkReportDependencies report =
    js_unique (rc_prerequisites (wr_context report) @ map workPackageHash (wr_segmentRootLookup report))"

definition pruneQueue :: "not_yet_accumulated list \<Rightarrow> hash_list \<Rightarrow> not_yet_accumulated list" where
  "pruneQueue reports processedHashes =
    map (\<lambda>item. \<lparr>ny_report = ny_report item,
        ny_dependencies = filter (\<lambda>dependency. dependency \<notin> set processedHashes) (ny_dependencies item)\<rparr>)
      (filter (\<lambda>item. package_hash (ny_report item) \<notin> set processedHashes) reports)"

definition getWorkReportsToAccumulateLater :: "accumulate_queue \<Rightarrow> work_report list \<Rightarrow> not_yet_accumulated list" where
  "getWorkReportsToAccumulateLater q reports =
    (let history = concat (aq_recentlyAccumulated q);
         reportsWithDependencies = filter (\<lambda>report.
           length (rc_prerequisites (wr_context report)) > 0 \<or> length (wr_segmentRootLookup report) > 0) reports;
         itemsToEnqueue = map (\<lambda>report. \<lparr>ny_report = report, ny_dependencies = getWorkReportDependencies report\<rparr>)
           reportsWithDependencies
     in pruneQueue itemsToEnqueue (js_unique history))"

lemma pruneQueue_length: "length (pruneQueue q hs) = length (filter (\<lambda>item. package_hash (ny_report item) \<notin> set hs) q)"
  by (simp add: pruneQueue_def)

lemma set_getWorkPackageHashes [simp]: "set (getWorkPackageHashes rs) = package_hash ` set rs"
  by (simp add: getWorkPackageHashes_def)

definition is_ready :: "not_yet_accumulated \<Rightarrow> bool" where
  "is_ready item \<longleftrightarrow> length (ny_dependencies item) = 0"

lemma prune_ready_shorter:
  assumes "filter is_ready queue \<noteq> []"
  shows "length (pruneQueue queue (getWorkPackageHashes (map ny_report (filter is_ready queue)))) < length queue"
proof -
  obtain item where item: "item \<in> set queue" "is_ready item"
    using assms by (metis filter_empty_conv)
  then have "package_hash (ny_report item) \<in> set (getWorkPackageHashes (map ny_report (filter is_ready queue)))" by auto
  with item(1) show ?thesis
    unfolding pruneQueue_length by (intro length_filter_less) auto
qed

text \<open>The loop of \<open>enqueueReports\<close>.\<close>

function enqueue_loop :: "not_yet_accumulated list \<Rightarrow> work_report list \<Rightarrow> work_report list" where
  "enqueue_loop queue result =
    (if length queue > 0 then
       let ready = map ny_report (filter is_ready queue) in
       if length ready = 0 then result
       else enqueue_loop (pruneQueue queue (getWorkPackageHashes ready)) (result @ ready)
     else result)"
  by pat_completeness auto
termination
  by (relation "measure (\<lambda>(queue, _). length queue)") (auto simp: prune_ready_shorter filter_empty_conv)

declare enqueue_loop.simps [simp del]

definition enqueueReports :: "not_yet_accumulated list \<Rightarrow> work_report list" where
  "enqueueReports r = enqueue_loop r []"

definition getQueueFromState :: "accumulate_queue \<Rightarrow> nat \<Rightarrow> not_yet_accumulated list" where
  "getQueueFromState q slot =
    (let phaseIndex = slot mod epochLength (aq_chainSpec q);
         fromPhaseIndexToEnd = drop phaseIndex (aq_accumulationQueue q);
         fromStartToPhaseIndex = take phaseIndex (aq_accumulationQueue q)
     in concat (fromPhaseIndexToEnd @ fromStartToPhaseIndex))"

section \<open>The reports that can be accumulated\<close>

inductive accumulable :: "not_yet_accumulated list \<Rightarrow> blob \<Rightarrow> bool" for q where
  "item \<in> set q \<Longrightarrow> \<forall>d \<in> set (ny_dependencies item). accumulable q d \<Longrightarrow>
    accumulable q (package_hash (ny_report item))"

text \<open>Every report comes from the queue, and after the reports its dependencies name.\<close>

definition dependency_order :: "not_yet_accumulated list \<Rightarrow> work_report list \<Rightarrow> bool" where
  "dependency_order q res \<longleftrightarrow> (\<forall>i < length res. \<exists>item \<in> set q. ny_report item = res ! i \<and>
    set (ny_dependencies item) \<subseteq> package_hash ` set (take i res))"

lemma prune_prune: "set C = set A \<union> set B \<Longrightarrow> pruneQueue (pruneQueue q A) B = pruneQueue q C"
  by (simp add: pruneQueue_def filter_map comp_def)

lemma prune_nothing [simp]: "pruneQueue q [] = q"
  by (simp add: pruneQueue_def map_idI)

lemma ready_pruned:
  assumes "rep \<in> set (map ny_report (filter is_ready (pruneQueue q hs)))"
  shows "\<exists>item \<in> set q. ny_report item = rep \<and> set (ny_dependencies item) \<subseteq> set hs \<and> package_hash rep \<notin> set hs"
  using assms by (force simp: pruneQueue_def is_ready_def filter_empty_conv)

lemma pruned_ready:
  assumes "item \<in> set q" "set (ny_dependencies item) \<subseteq> set hs" "package_hash (ny_report item) \<notin> set hs"
  shows "\<exists>p \<in> set (pruneQueue q hs). is_ready p"
proof -
  have "filter (\<lambda>d. d \<notin> set hs) (ny_dependencies item) = []" using assms(2) by (auto simp: filter_empty_conv)
  then show ?thesis using assms by (force simp: pruneQueue_def is_ready_def)
qed

lemma dependency_order_append:
  assumes "dependency_order q res" "\<forall>rep \<in> set ready. \<exists>item \<in> set q. ny_report item = rep \<and>
    set (ny_dependencies item) \<subseteq> package_hash ` set res"
  shows "dependency_order q (res @ ready)"
  unfolding dependency_order_def
proof (intro allI impI)
  fix i assume i: "i < length (res @ ready)"
  show "\<exists>item \<in> set q. ny_report item = (res @ ready) ! i \<and>
      set (ny_dependencies item) \<subseteq> package_hash ` set (take i (res @ ready))"
  proof (cases "i < length res")
    case True
    then show ?thesis using assms(1) by (simp add: dependency_order_def nth_append)
  next
    case False
    then have "ready ! (i - length res) \<in> set ready" using i by simp
    then obtain item where "item \<in> set q" "ny_report item = ready ! (i - length res)"
      "set (ny_dependencies item) \<subseteq> package_hash ` set res" using assms(2) by blast
    then show ?thesis using False by (force simp: nth_append)
  qed
qed

lemma distinct_ready:
  "distinct (map (package_hash \<circ> ny_report) q) \<Longrightarrow>
    distinct (map package_hash (map ny_report (filter is_ready (pruneQueue q hs))))"
proof -
  assume "distinct (map (package_hash \<circ> ny_report) q)"
  then have "distinct (map (package_hash \<circ> ny_report) (pruneQueue q hs))"
    by (simp add: pruneQueue_def comp_def distinct_map_filter)
  then show ?thesis by (simp add: comp_def distinct_map_filter)
qed

lemma distinct_map_append:
  "distinct (map f xs) \<Longrightarrow> distinct (map f ys) \<Longrightarrow> \<forall>y \<in> set ys. f y \<notin> f ` set xs \<Longrightarrow> distinct (map f (xs @ ys))"
  unfolding map_append distinct_append set_map disjoint_iff by blast

lemma enqueue_loop_spec:
  assumes "set hs = package_hash ` set res" "dependency_order q res"
  shows "dependency_order q (enqueue_loop (pruneQueue q hs) res) \<and>
    (\<forall>item \<in> set q. set (ny_dependencies item) \<subseteq> package_hash ` set (enqueue_loop (pruneQueue q hs) res) \<longrightarrow>
      package_hash (ny_report item) \<in> package_hash ` set (enqueue_loop (pruneQueue q hs) res)) \<and>
    (distinct (map (package_hash \<circ> ny_report) q) \<and> distinct (map package_hash res) \<longrightarrow>
      distinct (map package_hash (enqueue_loop (pruneQueue q hs) res)))"
  using assms
proof (induction "pruneQueue q hs" res arbitrary: hs rule: enqueue_loop.induct)
  case (1 res)
  let ?ready = "map ny_report (filter is_ready (pruneQueue q hs))"
  let ?hs = "hs @ getWorkPackageHashes ?ready"
  note from_queue = ready_pruned [of _ q hs]
  show ?case
  proof (cases "?ready = []")
    case True
    then have stop: "enqueue_loop (pruneQueue q hs) res = res" by (subst enqueue_loop.simps) simp
    have "\<forall>p \<in> set (pruneQueue q hs). \<not> is_ready p" using True by (auto simp: filter_empty_conv)
    then have "set (ny_dependencies item) \<subseteq> set hs \<longrightarrow> package_hash (ny_report item) \<in> set hs" if "item \<in> set q" for item
      using pruned_ready [OF that, of hs] by blast
    then show ?thesis using "1.prems" unfolding stop by simp
  next
    case False
    then have nonempty: "pruneQueue q hs \<noteq> []" by auto
    have split: "pruneQueue (pruneQueue q hs) (getWorkPackageHashes ?ready) = pruneQueue q ?hs"
      by (intro prune_prune) simp
    have go: "enqueue_loop (pruneQueue q hs) res = enqueue_loop (pruneQueue q ?hs) (res @ ?ready)"
      by (subst enqueue_loop.simps) (use nonempty False in \<open>simp add: Let_def split\<close>)
    have "dependency_order q (res @ ?ready)"
    proof (rule dependency_order_append [OF "1.prems"(2)], rule ballI)
      fix rep assume "rep \<in> set ?ready"
      from from_queue [OF this] show "\<exists>item \<in> set q. ny_report item = rep \<and>
          set (ny_dependencies item) \<subseteq> package_hash ` set res"
        unfolding "1.prems"(1) [symmetric] by blast
    qed
    moreover have "set ?hs = package_hash ` set (res @ ?ready)" using "1.prems"(1) by auto
    moreover have "distinct (map (package_hash \<circ> ny_report) q) \<and> distinct (map package_hash res) \<Longrightarrow>
        distinct (map package_hash (res @ ?ready))"
    proof -
      assume d: "distinct (map (package_hash \<circ> ny_report) q) \<and> distinct (map package_hash res)"
      have "\<forall>rep \<in> set ?ready. package_hash rep \<notin> package_hash ` set res"
        using from_queue "1.prems"(1) by blast
      then show ?thesis by (rule distinct_map_append [OF conjunct2 [OF d] distinct_ready [OF conjunct1 [OF d]]])
    qed
    ultimately show ?thesis
      unfolding go using "1.hyps" [OF _ refl _ split] nonempty False by blast
  qed
qed

lemma enqueueReports_order: "dependency_order q (enqueueReports q)"
  using enqueue_loop_spec [of "[]" "[]" q] by (simp add: enqueueReports_def dependency_order_def)

lemma order_accumulable:
  assumes "dependency_order q res" "i < length res"
  shows "accumulable q (package_hash (res ! i))"
  using assms(2)
proof (induction i rule: less_induct)
  case (less i)
  then obtain item where item: "item \<in> set q" "ny_report item = res ! i"
    "set (ny_dependencies item) \<subseteq> package_hash ` set (take i res)"
    using assms(1) by (auto simp: dependency_order_def)
  have "accumulable q d" if d: "d \<in> set (ny_dependencies item)" for d
  proof -
    obtain rep where "rep \<in> set (take i res)" "d = package_hash rep" using item(3) d by blast
    then obtain j where "j < i" "d = package_hash (res ! j)" using less.prems by (auto simp: in_set_conv_nth)
    then show ?thesis using less.IH less.prems by simp
  qed
  then show ?case using accumulable.intros [OF item(1)] item(2) by simp
qed

lemma enqueueReports_set: "package_hash ` set (enqueueReports q) = {h. accumulable q h}"
proof (intro set_eqI iffI)
  fix h assume "h \<in> package_hash ` set (enqueueReports q)"
  then show "h \<in> {h. accumulable q h}"
    using order_accumulable [OF enqueueReports_order] by (auto simp: in_set_conv_nth)
next
  fix h assume "h \<in> {h. accumulable q h}"
  then have "accumulable q h" by simp
  then show "h \<in> package_hash ` set (enqueueReports q)"
  proof induction
    case (1 item)
    then show ?case using enqueue_loop_spec [of "[]" "[]" q]
      by (simp add: enqueueReports_def dependency_order_def subset_iff)
  qed
qed

lemma enqueueReports_distinct:
  "distinct (map (package_hash \<circ> ny_report) q) \<Longrightarrow> distinct (map package_hash (enqueueReports q))"
  using enqueue_loop_spec [of "[]" "[]" q] by (simp add: enqueueReports_def dependency_order_def)

lemma enqueueReports_from: "set (enqueueReports q) \<subseteq> ny_report ` set q"
proof
  fix rep assume "rep \<in> set (enqueueReports q)"
  then obtain i where "i < length (enqueueReports q)" "rep = enqueueReports q ! i" by (auto simp: in_set_conv_nth)
  then show "rep \<in> ny_report ` set q" using enqueueReports_order [of q] by (force simp: dependency_order_def)
qed

text \<open>The queue of the state is rotated so that the slot comes first.\<close>

lemma getQueueFromState_rotate:
  "length (aq_accumulationQueue q) = epochLength (aq_chainSpec q) \<Longrightarrow> 0 < epochLength (aq_chainSpec q) \<Longrightarrow>
    getQueueFromState q slot = concat (rotate (slot mod epochLength (aq_chainSpec q)) (aq_accumulationQueue q))"
  by (simp add: getQueueFromState_def Let_def rotate_drop_take)

text \<open>Every report has its place: it is accumulated now or enqueued.\<close>

lemma immediate_or_later:
  "r \<in> set reports \<Longrightarrow> r \<in> set (getWorkReportsToAccumulateImmediately reports) \<or>
    package_hash r \<in> set (concat (aq_recentlyAccumulated q)) \<or>
    r \<in> ny_report ` set (getWorkReportsToAccumulateLater q reports)"
  by (force simp: getWorkReportsToAccumulateImmediately_def getWorkReportsToAccumulateLater_def Let_def pruneQueue_def)

lemma later_dependencies:
  "item \<in> set (getWorkReportsToAccumulateLater q reports) \<Longrightarrow>
    set (ny_dependencies item) = (set (rc_prerequisites (wr_context (ny_report item))) \<union>
      workPackageHash ` set (wr_segmentRootLookup (ny_report item))) - set (concat (aq_recentlyAccumulated q)) \<and>
    distinct (ny_dependencies item)"
  by (auto simp: getWorkReportsToAccumulateLater_def Let_def pruneQueue_def getWorkReportDependencies_def)

end
