(* ===== verification/PartialState.thy ===== *)
theory PartialState
  imports ServiceState ChainTypes
begin

text \<open>
  The state an accumulating service sees: the unchanged state underneath and the updates collected on
  top of it (\<open>packages/jam/jam-host-calls/externalities/state-update.ts\<close>, with the transfers and the
  preimage states of \<open>pending-transfer.ts\<close> and \<open>partial-state.ts\<close>). Objects that are changed in place
  are records returned updated.
\<close>

section \<open>Data\<close>

record privileged_services =
  pv_manager :: service_id
  pv_delegator :: service_id
  pv_registrar :: service_id
  pv_assigners :: "service_id list"
  pv_autoAccumulateServices :: "(service_id, int) jsmap"

record pending_transfer =
  tr_source :: service_id
  tr_destination :: service_id
  tr_amount :: int
  tr_memo :: blob
  tr_gas :: int

record accumulation_state_update =
  au_services :: services_update
  au_transfers :: "pending_transfer list"
  au_yieldedRoot :: "blob option"
  au_authorizationQueues :: "(nat, blob list) jsmap"
  au_validatorsData :: "validator_data list option"
  au_privilegedServices :: "privileged_services option"

definition empty_services_update :: services_update where
  "empty_services_update = \<lparr>su_removed = [], su_created = [], su_updated = [], su_preimages = [], su_storage = []\<rparr>"

text \<open>A copy of an update is the update itself: \<open>copyFrom\<close> only keeps the arrays and maps apart.\<close>

definition accumulation_empty :: accumulation_state_update where
  "accumulation_empty =
    \<lparr>au_services = empty_services_update, au_transfers = [], au_yieldedRoot = None,
     au_authorizationQueues = [], au_validatorsData = None, au_privilegedServices = None\<rparr>"

definition accumulation_new :: "services_update \<Rightarrow> accumulation_state_update" where
  "accumulation_new update = accumulation_empty\<lparr>au_services := update\<rparr>"

definition takeTransfers :: "accumulation_state_update \<Rightarrow> pending_transfer list \<times> accumulation_state_update" where
  "takeTransfers u = (au_transfers u, u\<lparr>au_transfers := []\<rparr>)"

definition takeYieldedRoot :: "accumulation_state_update \<Rightarrow> blob option \<times> accumulation_state_update" where
  "takeYieldedRoot u = (au_yieldedRoot u, u\<lparr>au_yieldedRoot := None\<rparr>)"

record state_slice =
  sl_services :: services
  sl_privilegedServices :: privileged_services

record partial_state =
  ps_state :: state_slice
  ps_update :: accumulation_state_update

abbreviation getService :: "state_slice \<Rightarrow> service_id \<Rightarrow> in_memory_service option" where
  "getService st \<equiv> map_of (sl_services st)"

section \<open>The status of a preimage\<close>

datatype preimage_status =
    PS_Requested
  | PS_Available time_slot
  | PS_Unavailable time_slot time_slot
  | PS_Reavailable time_slot time_slot time_slot

fun slotsToPreimageStatus :: "lookup_history_slots \<Rightarrow> preimage_status throws" where
  "slotsToPreimageStatus [] = Inr PS_Requested"
| "slotsToPreimageStatus [x] = Inr (PS_Available x)"
| "slotsToPreimageStatus [x, y] = Inr (PS_Unavailable x y)"
| "slotsToPreimageStatus [x, y, z] = Inr (PS_Reavailable x y z)"
| "slotsToPreimageStatus slots = Inl GenericError"

lemma slotsToPreimageStatus_total: "length slots \<le> 3 \<Longrightarrow> \<exists>s. slotsToPreimageStatus slots = Inr s"
  by (cases slots rule: slotsToPreimageStatus.cases) auto

section \<open>Reading\<close>

abbreviation ps_services :: "partial_state \<Rightarrow> services_update" where
  "ps_services ps \<equiv> au_services (ps_update ps)"

definition ps_getServiceInfo :: "partial_state \<Rightarrow> service_id option \<Rightarrow> service_account_info option" where
  "ps_getServiceInfo ps destination =
    (case destination of
       None \<Rightarrow> None
     | Some d \<Rightarrow>
         if d \<in> set (su_removed (ps_services ps)) then None
         else case jm_get (su_updated (ps_services ps)) d of
           Some u \<Rightarrow> Some (us_account u)
         | None \<Rightarrow> map_option sd_info (getService (ps_state ps) d))"

definition ps_getStorage :: "partial_state \<Rightarrow> service_id \<Rightarrow> blob \<Rightarrow> blob option" where
  "ps_getStorage ps serviceId rawKey =
    (case List.find (\<lambda>x. ust_key x = rawKey) (jm_get_or (su_storage (ps_services ps)) serviceId []) of
       Some item \<Rightarrow> ust_value item
     | None \<Rightarrow> Option.bind (getService (ps_state ps) serviceId) (\<lambda>s. sv_getStorage s rawKey))"

definition ps_hasPreimage :: "partial_state \<Rightarrow> service_id \<Rightarrow> blob \<Rightarrow> bool" where
  "ps_hasPreimage ps serviceId h =
    (case List.find (\<lambda>p. up_hash p = h) (jm_get_or (su_preimages (ps_services ps)) serviceId []) of
       Some _ \<Rightarrow> True
     | None \<Rightarrow> (case getService (ps_state ps) serviceId of None \<Rightarrow> False | Some s \<Rightarrow> sv_hasPreimage s h))"

definition ps_getPreimage :: "partial_state \<Rightarrow> service_id \<Rightarrow> blob \<Rightarrow> blob option" where
  "ps_getPreimage ps serviceId h =
    (let fallback = Option.bind (getService (ps_state ps) serviceId) (\<lambda>s. sv_getPreimage s h) in
     case List.find (\<lambda>p. up_hash p = h) (jm_get_or (su_preimages (ps_services ps)) serviceId []) of
       Some (UP_Provide p _ _) \<Rightarrow> Some (pi_blob p)
     | _ \<Rightarrow> fallback)"

definition preimageLenAsU32 :: "int \<Rightarrow> int option" where
  "preimageLenAsU32 len = (if len \<ge> 2 ^ 32 then None else Some len)"

text \<open>\<open>findLast\<close> is the first match of the reversed list.\<close>

definition ps_getLookupHistory ::
    "partial_state \<Rightarrow> time_slot \<Rightarrow> service_id \<Rightarrow> blob \<Rightarrow> int \<Rightarrow> lookup_history_item option" where
  "ps_getLookupHistory ps currentTimeslot serviceId h len =
    (let created = (case jm_get (su_updated (ps_services ps)) serviceId of
           Some (US_Create _ (Some item)) \<Rightarrow> if h = li_hash item \<and> len = li_length item then Some item else None
         | _ \<Rightarrow> None);
         stateFallback = (case preimageLenAsU32 len of
           None \<Rightarrow> None
         | Some lenU32 \<Rightarrow>
             (case getService (ps_state ps) serviceId of
                None \<Rightarrow> None
              | Some service \<Rightarrow> map_option (\<lambda>slots. \<lparr>li_hash = h, li_length = lenU32, li_slots = slots\<rparr>)
                  (sv_getLookupHistory service h lenU32))) in
     case created of
       Some item \<Rightarrow> Some item
     | None \<Rightarrow>
         (case List.find (\<lambda>u. up_hash u = h \<and> up_length u = len)
             (rev (jm_get_or (su_preimages (ps_services ps)) serviceId [])) of
            None \<Rightarrow> stateFallback
          | Some (UP_Provide p s f) \<Rightarrow>
              Some \<lparr>li_hash = h, li_length = up_length (UP_Provide p s f), li_slots = [currentTimeslot]\<rparr>
          | Some (UP_Remove _ _) \<Rightarrow> None
          | Some (UP_UpdateOrAdd item) \<Rightarrow> Some item))"

definition ps_getPrivilegedServices :: "partial_state \<Rightarrow> privileged_services" where
  "ps_getPrivilegedServices ps =
    (case au_privilegedServices (ps_update ps) of
       Some p \<Rightarrow> p
     | None \<Rightarrow> sl_privilegedServices (ps_state ps))"

section \<open>Writing\<close>

definition on_services :: "(services_update \<Rightarrow> services_update) \<Rightarrow> partial_state \<Rightarrow> partial_state" where
  "on_services f ps = ps\<lparr>ps_update := (ps_update ps)\<lparr>au_services := f (ps_services ps)\<rparr>\<rparr>"

definition ps_updateStorage :: "service_id \<Rightarrow> blob \<Rightarrow> blob option \<Rightarrow> partial_state \<Rightarrow> partial_state" where
  "ps_updateStorage serviceId key v =
    (let update = (case v of None \<Rightarrow> UST_Remove key | Some b \<Rightarrow> UST_Set \<lparr>si_key = key, si_value = b\<rparr>) in
     on_services (\<lambda>su. su\<lparr>su_storage := jm_set (su_storage su) serviceId
       (splice_replace (\<lambda>x. ust_key x = key) update (jm_get_or (su_storage su) serviceId []))\<rparr>))"

definition ps_updatePreimage :: "service_id \<Rightarrow> update_preimage \<Rightarrow> partial_state \<Rightarrow> partial_state" where
  "ps_updatePreimage serviceId newUpdate =
    on_services (\<lambda>su. su\<lparr>su_preimages := jm_set (su_preimages su) serviceId
      (jm_get_or (su_preimages su) serviceId [] @ [newUpdate])\<rparr>)"

definition ps_updateServiceInfo :: "service_id \<Rightarrow> service_account_info \<Rightarrow> partial_state \<Rightarrow> partial_state" where
  "ps_updateServiceInfo serviceId newInfo =
    on_services (\<lambda>su. su\<lparr>su_updated := jm_set (su_updated su) serviceId
      (case jm_get (su_updated su) serviceId of
         Some (US_Create _ lookupHistory) \<Rightarrow> US_Create newInfo lookupHistory
       | _ \<Rightarrow> US_Update newInfo)\<rparr>)"

definition ps_createService :: "service_id \<Rightarrow> service_account_info \<Rightarrow> lookup_history_item \<Rightarrow> partial_state \<Rightarrow> partial_state" where
  "ps_createService serviceId newInfo newLookupHistory =
    on_services (\<lambda>su. su\<lparr>su_created := su_created su @ [serviceId],
      su_updated := jm_set (su_updated su) serviceId (US_Create newInfo (Some newLookupHistory))\<rparr>)"

datatype insufficient_funds = InsufficientFundsError

definition ps_updateServiceStorageUtilisation ::
    "service_id \<Rightarrow> int \<Rightarrow> int \<Rightarrow> service_account_info \<Rightarrow> partial_state \<Rightarrow> (insufficient_funds, partial_state) outcome" where
  "ps_updateServiceStorageUtilisation serviceId items len serviceInfo ps =
    (if \<not> items \<ge> 0 then Inl (Thrown AssertionFailure)
     else if \<not> len \<ge> 0 then Inl (Thrown AssertionFailure)
     else
       let overflowItems = \<not> isU32 items; overflowBytes = \<not> isU64 len in
       if overflowItems \<or> overflowBytes then Inl (Failed InsufficientFundsError)
       else bindE (lift_throws (calculateThresholdBalance items len (gratisStorage serviceInfo))) (\<lambda>thresholdBalance.
         if balance serviceInfo < thresholdBalance then Inl (Failed InsufficientFundsError)
         else Inr (ps_updateServiceInfo serviceId
           (serviceInfo\<lparr>storageUtilisationBytes := len, storageUtilisationCount := items\<rparr>) ps)))"

section \<open>What the writes do to the reads\<close>

named_theorems partial_reads \<open>reads of a partially updated state after a write\<close>

lemma on_services_simps [simp]:
  "ps_services (on_services f ps) = f (ps_services ps)"
  "ps_state (on_services f ps) = ps_state ps"
  "au_transfers (ps_update (on_services f ps)) = au_transfers (ps_update ps)"
  "au_privilegedServices (ps_update (on_services f ps)) = au_privilegedServices (ps_update ps)"
  "au_yieldedRoot (ps_update (on_services f ps)) = au_yieldedRoot (ps_update ps)"
  by (simp_all add: on_services_def)

lemma removed_kept [simp]:
  "su_removed (ps_services (ps_updateStorage s k v ps)) = su_removed (ps_services ps)"
  "su_removed (ps_services (ps_updatePreimage s u ps)) = su_removed (ps_services ps)"
  "su_removed (ps_services (ps_updateServiceInfo s i ps)) = su_removed (ps_services ps)"
  "su_removed (ps_services (ps_createService s i l ps)) = su_removed (ps_services ps)"
  by (simp_all add: ps_updateStorage_def ps_updatePreimage_def ps_updateServiceInfo_def ps_createService_def Let_def)

lemma state_kept [simp]:
  "ps_state (ps_updateStorage s k v ps) = ps_state ps"
  "ps_state (ps_updatePreimage s u ps) = ps_state ps"
  "ps_state (ps_updateServiceInfo s i ps) = ps_state ps"
  "ps_state (ps_createService s i l ps) = ps_state ps"
  by (simp_all add: ps_updateStorage_def ps_updatePreimage_def ps_updateServiceInfo_def ps_createService_def Let_def)

lemma transfers_kept [simp]:
  "au_transfers (ps_update (ps_updateStorage s k v ps)) = au_transfers (ps_update ps)"
  "au_transfers (ps_update (ps_updatePreimage s u ps)) = au_transfers (ps_update ps)"
  "au_transfers (ps_update (ps_updateServiceInfo s i ps)) = au_transfers (ps_update ps)"
  "au_transfers (ps_update (ps_createService s i l ps)) = au_transfers (ps_update ps)"
  by (simp_all add: ps_updateStorage_def ps_updatePreimage_def ps_updateServiceInfo_def ps_createService_def Let_def)

lemma getServiceInfo_None [simp]: "ps_getServiceInfo ps None = None"
  by (simp add: ps_getServiceInfo_def)

lemma getServiceInfo_updateStorage [partial_reads]:
  "ps_getServiceInfo (ps_updateStorage s k v ps) = ps_getServiceInfo ps"
  by (rule ext) (simp add: ps_getServiceInfo_def ps_updateStorage_def Let_def split: option.split)

lemma getServiceInfo_updatePreimage [partial_reads]:
  "ps_getServiceInfo (ps_updatePreimage s u ps) = ps_getServiceInfo ps"
  by (rule ext) (simp add: ps_getServiceInfo_def ps_updatePreimage_def split: option.split)

lemma getServiceInfo_updateServiceInfo [partial_reads]:
  "ps_getServiceInfo (ps_updateServiceInfo s i ps) =
    (if s \<in> set (su_removed (ps_services ps)) then ps_getServiceInfo ps else (ps_getServiceInfo ps)(Some s := Some i))"
  by (rule ext) (auto simp: ps_getServiceInfo_def ps_updateServiceInfo_def split: option.splits update_service.splits)

lemma getServiceInfo_createService [partial_reads]:
  "ps_getServiceInfo (ps_createService s i l ps) =
    (if s \<in> set (su_removed (ps_services ps)) then ps_getServiceInfo ps else (ps_getServiceInfo ps)(Some s := Some i))"
  by (rule ext) (auto simp: ps_getServiceInfo_def ps_createService_def split: option.splits)

lemma getStorage_updateStorage [partial_reads]:
  "ps_getStorage (ps_updateStorage s k v ps) s' k' = (if s' = s \<and> k' = k then v else ps_getStorage ps s' k')"
proof (cases "s' = s \<and> k' = k")
  case True
  then show ?thesis
    by (cases v) (simp_all add: ps_getStorage_def ps_updateStorage_def Let_def find_splice_same)
next
  case False
  then show ?thesis
    by (cases v) (auto simp: ps_getStorage_def ps_updateStorage_def Let_def find_splice_key cong: option.case_cong)
qed

lemma getStorage_updateServiceInfo [partial_reads]:
  "ps_getStorage (ps_updateServiceInfo s i ps) = ps_getStorage ps"
  by (intro ext) (simp add: ps_getStorage_def ps_updateServiceInfo_def cong: option.case_cong)

lemma getStorage_updatePreimage [partial_reads]:
  "ps_getStorage (ps_updatePreimage s u ps) = ps_getStorage ps"
  by (intro ext) (simp add: ps_getStorage_def ps_updatePreimage_def cong: option.case_cong)

lemma getServiceInfo_not_removed: "ps_getServiceInfo ps (Some s) = Some i \<Longrightarrow> s \<notin> set (su_removed (ps_services ps))"
  by (auto simp: ps_getServiceInfo_def split: if_splits)

lemma utilisation_eq:
  "ps_updateServiceStorageUtilisation s n len i ps =
    (if n < 0 \<or> len < 0 then Inl (Thrown AssertionFailure)
     else if n \<ge> 2 ^ 32 \<or> len \<ge> 2 ^ 64 \<or>
       balance i < threshold (i\<lparr>storageUtilisationBytes := len, storageUtilisationCount := n\<rparr>)
     then Inl (Failed InsufficientFundsError)
     else Inr (ps_updateServiceInfo s (i\<lparr>storageUtilisationBytes := len, storageUtilisationCount := n\<rparr>) ps))"
  by (auto simp: ps_updateServiceStorageUtilisation_def is_unsigned_iff calculateThresholdBalance_eq threshold_def)

end
