(* ===== verification/AccumulateData.thy ===== *)
theory AccumulateData
  imports AccumulateQueue PartialState
begin

text \<open>
  The input of one round of accumulation, per service: \<open>packages/jam/transition/accumulate/accumulate-data.ts\<close>
  with the operands of \<open>operand.ts\<close>. A \<open>Map\<close> is an association list.
\<close>

record operand =
  op_hash :: blob
  op_exportsRoot :: blob
  op_authorizerHash :: blob
  op_payloadHash :: blob
  op_gas :: int
  op_result :: work_exec_result
  op_authorizationOutput :: blob

record accumulate_data_item =
  ai_operands :: "operand list"
  ai_reportsLength :: int

definition accumulate_data_item_empty :: accumulate_data_item where
  "accumulate_data_item_empty = \<lparr>ai_operands = [], ai_reportsLength = 0\<rparr>"

type_synonym gas_map = "(service_id, int) jsmap"

record accumulate_data =
  ad_reportsDataByServiceId :: "(service_id, accumulate_data_item) jsmap"
  ad_transfersByServiceId :: "(service_id, pending_transfer list) jsmap"
  ad_serviceIds :: "service_id list"
  ad_gasLimitByServiceId :: gas_map

text \<open>\<open>sumU64\<close> with the result cut at the largest 64-bit number.\<close>

definition sum_gas :: "int list \<Rightarrow> int throws" where
  "sum_gas gs = bindE (sumU64 gs) (\<lambda>r. tryAsU64 (if overflow r then MAX_VALUE_U64 else sum_value r))"

definition mergeGasLimit_step :: "gas_map list \<Rightarrow> service_id \<Rightarrow> gas_map \<Rightarrow> gas_map throws" where
  "mergeGasLimit_step gasMaps serviceId gasByServiceId =
    bindE (sum_gas (map (\<lambda>m. jm_get_or m serviceId 0) gasMaps)) (\<lambda>g. Inr (jm_set gasByServiceId serviceId g))"

definition mergeGasLimitByServiceId :: "service_id list \<Rightarrow> gas_map list \<Rightarrow> gas_map throws" where
  "mergeGasLimitByServiceId serviceIds gasMaps = foldE (mergeGasLimit_step gasMaps) serviceIds []"

definition mergeServiceIds :: "service_id list list \<Rightarrow> service_id list" where
  "mergeServiceIds sources = sort (fold (fold js_add) sources [])"

record transformed_transfers =
  tt_transfersByServiceId :: "(service_id, pending_transfer list) jsmap"
  tt_serviceIds :: "service_id list"
  tt_gasLimitByServiceId :: gas_map

definition transformTransfers_step :: "pending_transfer \<Rightarrow> transformed_transfers \<Rightarrow> transformed_transfers throws" where
  "transformTransfers_step t s =
    (let serviceId = tr_destination t;
         transfers = jm_get_or (tt_transfersByServiceId s) serviceId [];
         gas = jm_get_or (tt_gasLimitByServiceId s) serviceId 0
     in bindE (sum_gas [gas, tr_gas t]) (\<lambda>newGas. Inr
       \<lparr>tt_transfersByServiceId = jm_set (tt_transfersByServiceId s) serviceId (transfers @ [t]),
        tt_serviceIds = js_add serviceId (tt_serviceIds s),
        tt_gasLimitByServiceId = jm_set (tt_gasLimitByServiceId s) serviceId newGas\<rparr>))"

definition transformTransfers :: "pending_transfer list \<Rightarrow> transformed_transfers throws" where
  "transformTransfers ts = foldE transformTransfers_step ts
    \<lparr>tt_transfersByServiceId = [], tt_serviceIds = [], tt_gasLimitByServiceId = []\<rparr>"

record transformed_reports =
  tp_reportsDataByServiceId :: "(service_id, accumulate_data_item) jsmap"
  tp_serviceIds :: "service_id list"
  tp_gasLimitByServiceId :: gas_map

definition new_operand :: "work_report \<Rightarrow> work_result \<Rightarrow> operand" where
  "new_operand report result =
    \<lparr>op_hash = wp_hash (wr_workPackageSpec report), op_exportsRoot = wp_exportsRoot (wr_workPackageSpec report),
     op_authorizerHash = wr_authorizerHash report, op_payloadHash = re_payloadHash result,
     op_gas = int (re_gas result), op_result = re_result result,
     op_authorizationOutput = wr_authorizationOutput report\<rparr>"

definition transformReports_step :: "work_report \<times> work_result \<Rightarrow> transformed_reports \<Rightarrow> transformed_reports throws" where
  "transformReports_step = (\<lambda>(report, result) s.
    let serviceId = int (re_serviceId result);
        item = jm_get_or (tp_reportsDataByServiceId s) serviceId accumulate_data_item_empty;
        gas = jm_get_or (tp_gasLimitByServiceId s) serviceId 0
    in bindE (sum_gas [gas, int (re_gas result)]) (\<lambda>newGas.
       bindE (tryAsU32 (ai_reportsLength item + 1)) (\<lambda>n.
       Inr \<lparr>tp_reportsDataByServiceId = jm_set (tp_reportsDataByServiceId s) serviceId
              \<lparr>ai_operands = ai_operands item @ [new_operand report result], ai_reportsLength = n\<rparr>,
            tp_serviceIds = js_add serviceId (tp_serviceIds s),
            tp_gasLimitByServiceId = jm_set (tp_gasLimitByServiceId s) serviceId newGas\<rparr>)))"

definition transformReports :: "work_report list \<Rightarrow> transformed_reports throws" where
  "transformReports reports = foldE (\<lambda>report. foldE (\<lambda>result. transformReports_step (report, result)) (wr_results report)) reports
    \<lparr>tp_reportsDataByServiceId = [], tp_serviceIds = [], tp_gasLimitByServiceId = []\<rparr>"

definition new_accumulateData :: "work_report list \<Rightarrow> pending_transfer list \<Rightarrow> gas_map \<Rightarrow> accumulate_data throws" where
  "new_accumulateData reports transfers autoAccumulate =
    bindE (transformReports reports) (\<lambda>tp.
    bindE (transformTransfers transfers) (\<lambda>tt.
      let ids = mergeServiceIds [tp_serviceIds tp, map fst autoAccumulate, tt_serviceIds tt] in
      bindE (mergeGasLimitByServiceId ids [autoAccumulate, tp_gasLimitByServiceId tp, tt_gasLimitByServiceId tt]) (\<lambda>gas.
        Inr \<lparr>ad_reportsDataByServiceId = tp_reportsDataByServiceId tp,
             ad_transfersByServiceId = tt_transfersByServiceId tt, ad_serviceIds = ids, ad_gasLimitByServiceId = gas\<rparr>)))"

definition getOperands :: "accumulate_data \<Rightarrow> service_id \<Rightarrow> operand list" where
  "getOperands d serviceId = (case jm_get (ad_reportsDataByServiceId d) serviceId of Some i \<Rightarrow> ai_operands i | None \<Rightarrow> [])"

definition getTransfers :: "accumulate_data \<Rightarrow> service_id \<Rightarrow> pending_transfer list" where
  "getTransfers d serviceId = jm_get_or (ad_transfersByServiceId d) serviceId []"

definition getReportsLength :: "accumulate_data \<Rightarrow> service_id \<Rightarrow> int" where
  "getReportsLength d serviceId =
    (case jm_get (ad_reportsDataByServiceId d) serviceId of Some i \<Rightarrow> ai_reportsLength i | None \<Rightarrow> 0)"

definition getGasLimit :: "accumulate_data \<Rightarrow> service_id \<Rightarrow> int" where
  "getGasLimit d serviceId = jm_get_or (ad_gasLimitByServiceId d) serviceId 0"

section \<open>What a service gets\<close>

text \<open>The results of a service, with their reports, in order; its gas is added with saturation.\<close>

definition sat :: "int \<Rightarrow> int" where "sat g = min (2 ^ 64 - 1) g"

definition service_results :: "work_report list \<Rightarrow> service_id \<Rightarrow> (work_report \<times> work_result) list" where
  "service_results reports s = filter (\<lambda>(_, result). int (re_serviceId result) = s)
    (concat (map (\<lambda>report. map (Pair report) (wr_results report)) reports))"

definition service_transfers :: "pending_transfer list \<Rightarrow> service_id \<Rightarrow> pending_transfer list" where
  "service_transfers ts s = filter (\<lambda>t. tr_destination t = s) ts"

lemma sum_gas_eq: "\<forall>g \<in> set gs. 0 \<le> g \<Longrightarrow> sum_gas gs = Inr (sat (sum_list gs))"
  using sum_list_nonneg [of gs]
  by (auto simp: sum_gas_def sumU64_eq sat_def tryAsU64_def isU64_iff MAX_VALUE_U64_def)

lemma sat_sat: "0 \<le> h \<Longrightarrow> sat (sat g + h) = sat (g + h)"
  by (auto simp: sat_def)

lemma sat_nonneg [simp]: "0 \<le> sat g \<longleftrightarrow> 0 \<le> g"
  by (simp add: sat_def)

definition transfers_done :: "pending_transfer list \<Rightarrow> transformed_transfers \<Rightarrow> bool" where
  "transfers_done ts s \<longleftrightarrow> tt_serviceIds s = js_unique (map tr_destination ts) \<and>
    (\<forall>i. jm_get_or (tt_transfersByServiceId s) i [] = service_transfers ts i \<and>
      jm_get_or (tt_gasLimitByServiceId s) i 0 = sat (sum_list (map tr_gas (service_transfers ts i))))"

lemma js_unique_snoc: "js_unique (xs @ [x]) = js_add x (js_unique xs)"
  by (simp add: js_unique_def)

lemma sum_list_filter_nonneg: "\<forall>t \<in> set ts. 0 \<le> f t \<Longrightarrow> 0 \<le> (\<Sum>t\<leftarrow>filter P ts. f t :: int)"
  by (rule sum_list_nonneg) auto

lemma transformTransfers_spec:
  "\<forall>t \<in> set ts. 0 \<le> tr_gas t \<Longrightarrow> \<exists>s. transformTransfers ts = Inr s \<and> transfers_done ts s"
proof (induction ts rule: rev_induct)
  case Nil
  show ?case by (simp add: transformTransfers_def transfers_done_def js_unique_def service_transfers_def jm_get_or_def sat_def)
next
  case (snoc t ts)
  then obtain s where s: "transformTransfers ts = Inr s" "transfers_done ts s" by auto
  have nonneg: "0 \<le> (\<Sum>t\<leftarrow>service_transfers ts i. tr_gas t)" for i
    using snoc.prems by (simp add: service_transfers_def sum_list_filter_nonneg)
  have gas: "sum_gas [jm_get_or (tt_gasLimitByServiceId s) (tr_destination t) 0, tr_gas t] =
      Inr (sat (sum_list (map tr_gas (service_transfers (ts @ [t]) (tr_destination t)))))"
    using s(2) nonneg snoc.prems by (simp add: sum_gas_eq transfers_done_def sat_sat service_transfers_def)
  have "transformTransfers (ts @ [t]) = transformTransfers_step t s"
    using s(1) by (simp add: transformTransfers_def foldE_snoc)
  then show ?case
    using s(2) by (auto simp: transformTransfers_step_def Let_def gas transfers_done_def js_unique_snoc service_transfers_def)
qed

definition reports_done :: "(work_report \<times> work_result) list \<Rightarrow> transformed_reports \<Rightarrow> bool" where
  "reports_done ps s \<longleftrightarrow> tp_serviceIds s = js_unique (map (\<lambda>(_, result). int (re_serviceId result)) ps) \<and>
    (\<forall>i. let own = filter (\<lambda>(_, result). int (re_serviceId result) = i) ps in
      jm_get_or (tp_reportsDataByServiceId s) i accumulate_data_item_empty =
        \<lparr>ai_operands = map (\<lambda>(report, result). new_operand report result) own, ai_reportsLength = int (length own)\<rparr> \<and>
      jm_get_or (tp_gasLimitByServiceId s) i 0 = sat (\<Sum>(_, result)\<leftarrow>own. int (re_gas result)))"

lemma transformReports_step_spec:
  "length ps < 2 ^ 32 \<Longrightarrow> \<exists>s. foldE transformReports_step ps
    \<lparr>tp_reportsDataByServiceId = [], tp_serviceIds = [], tp_gasLimitByServiceId = []\<rparr> = Inr s \<and> reports_done ps s"
proof (induction ps rule: rev_induct)
  case Nil
  show ?case by (simp add: reports_done_def js_unique_def jm_get_or_def sat_def accumulate_data_item_empty_def Let_def)
next
  case (snoc p ps)
  let ?init = "\<lparr>tp_reportsDataByServiceId = [], tp_serviceIds = [], tp_gasLimitByServiceId = []\<rparr>"
  obtain report result where p: "p = (report, result)" by fastforce
  let ?id = "int (re_serviceId result)"
  let ?own = "filter (\<lambda>(_, result). int (re_serviceId result) = ?id) ps"
  from snoc obtain s where s: "foldE transformReports_step ps ?init = Inr s" "reports_done ps s" by auto
  have own: "jm_get_or (tp_reportsDataByServiceId s) ?id accumulate_data_item_empty =
        \<lparr>ai_operands = map (\<lambda>(report, result). new_operand report result) ?own, ai_reportsLength = int (length ?own)\<rparr>"
    "jm_get_or (tp_gasLimitByServiceId s) ?id 0 = sat (\<Sum>(_, result)\<leftarrow>?own. int (re_gas result))"
    using s(2) by (simp_all add: reports_done_def Let_def)
  have "0 \<le> (\<Sum>(_, result)\<leftarrow>?own. int (re_gas result))" by (rule sum_list_nonneg) auto
  then have gas: "sum_gas [jm_get_or (tp_gasLimitByServiceId s) ?id 0, int (re_gas result)] =
      Inr (sat ((\<Sum>(_, result)\<leftarrow>?own. int (re_gas result)) + int (re_gas result)))"
    by (simp add: own sum_gas_eq sat_sat)
  have "length ?own < 4294967295" using snoc.prems by (intro le_less_trans [OF length_filter_le]) simp
  then have "int (length ?own) + 1 < 2 ^ 32" by simp
  then have count: "tryAsU32 (int (length ?own) + 1) = Inr (int (length ?own) + 1)" by (simp add: tryAsU32_def isU32_iff)
  have "foldE transformReports_step (ps @ [p]) ?init = transformReports_step p s"
    using s(1) by (simp add: foldE_snoc)
  also have "\<dots> = Inr \<lparr>tp_reportsDataByServiceId = jm_set (tp_reportsDataByServiceId s) ?id
        \<lparr>ai_operands = map (\<lambda>(report, result). new_operand report result) ?own @ [new_operand report result],
         ai_reportsLength = int (length ?own) + 1\<rparr>,
      tp_serviceIds = js_add ?id (tp_serviceIds s),
      tp_gasLimitByServiceId = jm_set (tp_gasLimitByServiceId s) ?id
        (sat ((\<Sum>(_, result)\<leftarrow>?own. int (re_gas result)) + int (re_gas result)))\<rparr>"
    unfolding p transformReports_step_def Let_def prod.case gas by (simp add: own(1) count del: of_nat_eq_iff)
  finally show ?case
    using s(2) by (auto simp: p reports_done_def js_unique_snoc Let_def simp del: of_nat_eq_iff)
qed

lemma transformReports_flat:
  "transformReports reports = foldE transformReports_step
      (concat (map (\<lambda>report. map (Pair report) (wr_results report)) reports))
    \<lparr>tp_reportsDataByServiceId = [], tp_serviceIds = [], tp_gasLimitByServiceId = []\<rparr>"
  by (simp add: transformReports_def foldE_concat foldE_map)

lemma mergeGasLimit_spec:
  assumes "\<forall>m \<in> set maps. \<forall>i. 0 \<le> jm_get_or m i 0"
  shows "\<exists>g. mergeGasLimitByServiceId ids maps = Inr g \<and>
    (\<forall>i. jm_get g i = (if i \<in> set ids then Some (sat (\<Sum>m\<leftarrow>maps. jm_get_or m i 0)) else None))"
proof (induction ids rule: rev_induct)
  case (snoc i ids)
  then obtain g where g: "mergeGasLimitByServiceId ids maps = Inr g"
    "\<forall>i. jm_get g i = (if i \<in> set ids then Some (sat (\<Sum>m\<leftarrow>maps. jm_get_or m i 0)) else None)" by blast
  have "sum_gas (map (\<lambda>m. jm_get_or m i 0) maps) = Inr (sat (\<Sum>m\<leftarrow>maps. jm_get_or m i 0))"
    using assms by (intro sum_gas_eq) auto
  then have "mergeGasLimitByServiceId (ids @ [i]) maps = Inr (jm_set g i (sat (\<Sum>m\<leftarrow>maps. jm_get_or m i 0)))"
    using g(1) by (simp add: mergeGasLimitByServiceId_def foldE_snoc mergeGasLimit_step_def)
  then show ?case using g(2) by auto
qed (simp add: mergeGasLimitByServiceId_def)

lemma fold_fold_js_add: "set (fold (fold js_add) xss s) = set (concat xss) \<union> set s"
  "distinct (fold (fold js_add) xss s) = distinct s"
  by (induction xss arbitrary: s) auto

lemma mergeServiceIds_eq: "mergeServiceIds sources = sorted_list_of_set (set (concat sources))"
  by (rule sorted_distinct_set_unique) (simp_all add: mergeServiceIds_def fold_fold_js_add)

lemma sat3: "0 \<le> a \<Longrightarrow> 0 \<le> b \<Longrightarrow> 0 \<le> c \<Longrightarrow> sat (a + (sat b + sat c)) = sat (a + (b + c))"
  by (auto simp: sat_def)

text \<open>Everything a round hands to a service.\<close>

definition service_input :: "work_report list \<Rightarrow> pending_transfer list \<Rightarrow> gas_map \<Rightarrow> accumulate_data \<Rightarrow> service_id \<Rightarrow> bool" where
  "service_input reports transfers auto d i \<longleftrightarrow>
    getOperands d i = map (\<lambda>(report, result). new_operand report result) (service_results reports i) \<and>
    getReportsLength d i = int (length (service_results reports i)) \<and>
    getTransfers d i = service_transfers transfers i \<and>
    getGasLimit d i = sat (jm_get_or auto i 0 + ((\<Sum>(_, result)\<leftarrow>service_results reports i. int (re_gas result)) +
      (\<Sum>t\<leftarrow>service_transfers transfers i. tr_gas t)))"

lemma item_or_empty:
  "getOperands d i = ai_operands (jm_get_or (ad_reportsDataByServiceId d) i accumulate_data_item_empty)"
  "getReportsLength d i = ai_reportsLength (jm_get_or (ad_reportsDataByServiceId d) i accumulate_data_item_empty)"
  by (simp_all add: getOperands_def getReportsLength_def jm_get_or_def accumulate_data_item_empty_def split: option.split)

lemma not_service_of:
  "i \<notin> set (map (\<lambda>(_, result). int (re_serviceId result)) ps) \<Longrightarrow>
    filter (\<lambda>(_, result). int (re_serviceId result) = i) ps = []"
  "i \<notin> set (map tr_destination ts) \<Longrightarrow> service_transfers ts i = []"
  "i \<notin> set (map fst auto) \<Longrightarrow> jm_get_or auto i 0 = 0"
  by (force simp: filter_empty_conv service_transfers_def, force simp: filter_empty_conv service_transfers_def,
      simp add: jm_get_or_def map_of_eq_None_iff [THEN iffD2])

lemma new_accumulateData_spec:
  assumes "length (concat (map wr_results reports)) < 2 ^ 32" "\<forall>t \<in> set transfers. 0 \<le> tr_gas t"
    "\<forall>g \<in> snd ` set auto. 0 \<le> g"
  shows "\<exists>d. new_accumulateData reports transfers auto = Inr d \<and>
    ad_serviceIds d = sorted_list_of_set (set (map (int \<circ> re_serviceId) (concat (map wr_results reports)) @
      map fst auto @ map tr_destination transfers)) \<and>
    (\<forall>i. service_input reports transfers auto d i)"
proof -
  let ?ps = "concat (map (\<lambda>report. map (Pair report) (wr_results report)) reports)"
  have snds: "map snd ?ps = concat (map wr_results reports)" by (induction reports) (simp_all add: comp_def)
  then have "length ?ps < 2 ^ 32" using assms(1) by (metis length_map)
  from transformReports_step_spec [OF this] obtain tp where tp: "transformReports reports = Inr tp" "reports_done ?ps tp"
    unfolding transformReports_flat by blast
  from transformTransfers_spec [OF assms(2)] obtain tt where tt: "transformTransfers transfers = Inr tt"
    "transfers_done transfers tt" by blast
  let ?maps = "[auto, tp_gasLimitByServiceId tp, tt_gasLimitByServiceId tt]"
  let ?ids = "mergeServiceIds [tp_serviceIds tp, map fst auto, tt_serviceIds tt]"
  have gas_tp: "jm_get_or (tp_gasLimitByServiceId tp) i 0 = sat (\<Sum>(_, result)\<leftarrow>service_results reports i. int (re_gas result))"
    and gas_tt: "jm_get_or (tt_gasLimitByServiceId tt) i 0 = sat (\<Sum>t\<leftarrow>service_transfers transfers i. tr_gas t)" for i
    using tp(2) tt(2) by (simp_all add: reports_done_def transfers_done_def service_results_def Let_def)
  have nonneg: "0 \<le> jm_get_or auto i 0" "0 \<le> (\<Sum>(_, result)\<leftarrow>service_results reports i. int (re_gas result))"
    "0 \<le> (\<Sum>t\<leftarrow>service_transfers transfers i. tr_gas t)" for i
    using assms(2,3) by (force simp: jm_get_or_def service_transfers_def split: option.split dest: map_of_SomeD
      intro!: sum_list_nonneg)+
  obtain g where g: "mergeGasLimitByServiceId ?ids ?maps = Inr g"
    "\<forall>i. jm_get g i = (if i \<in> set ?ids then Some (sat (\<Sum>m\<leftarrow>?maps. jm_get_or m i 0)) else None)"
    using mergeGasLimit_spec [of ?maps ?ids] nonneg by (auto simp: gas_tp gas_tt)
  have ids: "set ?ids = set (map (\<lambda>(_, result). int (re_serviceId result)) ?ps) \<union> set (map fst auto) \<union> set (map tr_destination transfers)"
    using tp(2) tt(2) by (simp add: mergeServiceIds_eq reports_done_def transfers_done_def Un_assoc)
  have services: "set (map (\<lambda>(_, result). int (re_serviceId result)) ?ps) =
      set (map (int \<circ> re_serviceId) (concat (map wr_results reports)))"
    unfolding snds [symmetric] by (force simp: case_prod_unfold)
  let ?d = "\<lparr>ad_reportsDataByServiceId = tp_reportsDataByServiceId tp,
    ad_transfersByServiceId = tt_transfersByServiceId tt, ad_serviceIds = ?ids, ad_gasLimitByServiceId = g\<rparr>"
  have gas: "getGasLimit ?d i = sat (jm_get_or auto i 0 + ((\<Sum>(_, result)\<leftarrow>service_results reports i. int (re_gas result)) +
      (\<Sum>t\<leftarrow>service_transfers transfers i. tr_gas t)))" for i
  proof (cases "i \<in> set ?ids")
    case True
    then show ?thesis using g(2) nonneg by (simp add: getGasLimit_def jm_get_or_def [of g] gas_tp gas_tt sat3)
  next
    case False
    then have "service_results reports i = []" "service_transfers transfers i = []" "jm_get_or auto i 0 = 0"
      unfolding ids service_results_def using not_service_of by blast+
    then show ?thesis using False g(2) by (simp add: getGasLimit_def jm_get_or_def [of g] sat_def)
  qed
  have "service_input reports transfers auto ?d i" for i
    unfolding service_input_def gas item_or_empty
    using tp(2) tt(2) by (simp add: reports_done_def transfers_done_def getTransfers_def service_results_def Let_def)
  moreover have "new_accumulateData reports transfers auto = Inr ?d"
    by (simp add: new_accumulateData_def tp(1) tt(1) g(1) Let_def)
  moreover have "?ids = sorted_list_of_set (set (map (int \<circ> re_serviceId) (concat (map wr_results reports)) @
      map fst auto @ map tr_destination transfers))"
    using ids services by (simp add: mergeServiceIds_eq Un_assoc)
  ultimately show ?thesis by (intro exI [of _ ?d]) simp
qed

end
