(* ===== verification/AccumulateMerge.thy ===== *)
theory AccumulateMerge
  imports AccumulateData
begin

text \<open>
  Merging the results of services that were accumulated on copies of the same state:
  \<open>packages/jam/transition/accumulate/accumulation-result-merge-utils.ts\<close>. The context object is a
  record, its sets are lists in the order of insertion, and the results are visited in the order of
  their map, which is the order of the service ids. Arrays with an entry per core have one length.
\<close>

section \<open>The context\<close>

record result_value =
  rv_consumedGas :: int
  rv_stateUpdate :: accumulation_state_update

type_synonym parallel_results = "(service_id, result_value) jsmap"

record merge_result =
  mr_transfers :: "pending_transfer list"
  mr_totalGasCost :: int
  mr_state :: accumulation_state_update

record merge_context =
  mc_outputState :: accumulation_state_update
  mc_transfers :: "pending_transfer list"
  mc_totalGasCost :: int
  mc_currentPrivilegedServices :: privileged_services
  mc_updatedByManager :: privileged_services
  mc_newCreatedServices :: "service_id list"
  mc_initialCreatedServices :: "service_id list"
  mc_newRemovedServices :: "service_id list"
  mc_initialRemovedServices :: "service_id list"
  mc_chainSpec :: chain_spec

definition createMergeContext ::
    "chain_spec \<Rightarrow> privileged_services \<Rightarrow> accumulation_state_update \<Rightarrow> parallel_results \<Rightarrow> merge_context" where
  "createMergeContext spec statePrivileged inputState results =
    (let current = (case au_privilegedServices inputState of Some p \<Rightarrow> p | None \<Rightarrow> statePrivileged);
         byManager = (case Option.bind (jm_get results (pv_manager current)) (\<lambda>r. au_privilegedServices (rv_stateUpdate r)) of
           Some p \<Rightarrow> p | None \<Rightarrow> current)
     in \<lparr>mc_outputState = inputState, mc_transfers = [], mc_totalGasCost = 0,
         mc_currentPrivilegedServices = current, mc_updatedByManager = byManager,
         mc_newCreatedServices = js_unique (su_created (au_services inputState)),
         mc_initialCreatedServices = js_unique (su_created (au_services inputState)),
         mc_newRemovedServices = js_unique (su_removed (au_services inputState)),
         mc_initialRemovedServices = js_unique (su_removed (au_services inputState)),
         mc_chainSpec = spec\<rparr>)"

section \<open>Privileges\<close>

definition updatePrivilegedService :: "service_id \<Rightarrow> service_id \<Rightarrow> service_id \<Rightarrow> service_id" where
  "updatePrivilegedService currentServiceId serviceIdUpdatedByManager selfUpdatedServiceId =
    (if currentServiceId = serviceIdUpdatedByManager then selfUpdatedServiceId else serviceIdUpdatedByManager)"

definition new_assigner :: "merge_context \<Rightarrow> service_id \<Rightarrow> privileged_services \<Rightarrow> nat \<Rightarrow> service_id" where
  "new_assigner mc serviceId privileged coreIndex =
    (let currentAssigner = pv_assigners (mc_currentPrivilegedServices mc) ! coreIndex in
     if serviceId = currentAssigner then
       updatePrivilegedService currentAssigner (pv_assigners (mc_updatedByManager mc) ! coreIndex) (pv_assigners privileged ! coreIndex)
     else currentAssigner)"

definition mergePrivilegedServices :: "service_id \<Rightarrow> result_value \<Rightarrow> merge_context \<Rightarrow> merge_context throws" where
  "mergePrivilegedServices serviceId result mc =
    (let current = mc_currentPrivilegedServices mc; byManager = mc_updatedByManager mc in
     case au_privilegedServices (rv_stateUpdate result) of
       None \<Rightarrow> Inr mc
     | Some privileged \<Rightarrow>
         let out0 = (case au_privilegedServices (mc_outputState mc) of Some p \<Rightarrow> p | None \<Rightarrow> current);
             out1 = (if serviceId = pv_manager current then privileged else out0);
             out2 = (if serviceId = pv_registrar current then
                 out1\<lparr>pv_registrar := updatePrivilegedService (pv_registrar current) (pv_registrar byManager) (pv_registrar privileged)\<rparr>
               else out1);
             out3 = (if serviceId = pv_delegator current then
                 out2\<lparr>pv_delegator := updatePrivilegedService (pv_delegator current) (pv_delegator byManager) (pv_delegator privileged)\<rparr>
               else out2);
             cores = [0..<length (pv_assigners current)];
             newAssigners = map (new_assigner mc serviceId privileged) cores;
             shouldUpdate = (\<exists>i \<in> set cores. serviceId = pv_assigners current ! i \<and> newAssigners ! i \<noteq> pv_assigners current ! i)
         in bindE (if shouldUpdate then
               bindE (tryAsPerCore newAssigners (mc_chainSpec mc)) (\<lambda>a. Inr (out3\<lparr>pv_assigners := a\<rparr>))
             else Inr out3) (\<lambda>out.
           Inr (mc\<lparr>mc_outputState := mc_outputState mc\<lparr>au_privilegedServices := Some out\<rparr>\<rparr>)))"

section \<open>Validators and authorization queues\<close>

definition on_output :: "(accumulation_state_update \<Rightarrow> accumulation_state_update) \<Rightarrow> merge_context \<Rightarrow> merge_context" where
  "on_output f mc = mc\<lparr>mc_outputState := f (mc_outputState mc)\<rparr>"

definition on_out_services :: "(services_update \<Rightarrow> services_update) \<Rightarrow> merge_context \<Rightarrow> merge_context" where
  "on_out_services f = on_output (\<lambda>u. u\<lparr>au_services := f (au_services u)\<rparr>)"

definition mergeValidatorsData :: "service_id \<Rightarrow> result_value \<Rightarrow> merge_context \<Rightarrow> merge_context" where
  "mergeValidatorsData serviceId result mc =
    (case au_validatorsData (rv_stateUpdate result) of
       Some v \<Rightarrow> if serviceId = pv_delegator (mc_currentPrivilegedServices mc)
         then on_output (\<lambda>u. u\<lparr>au_validatorsData := Some v\<rparr>) mc else mc
     | None \<Rightarrow> mc)"

definition mergeAuthorizationQueues :: "service_id \<Rightarrow> result_value \<Rightarrow> merge_context \<Rightarrow> merge_context" where
  "mergeAuthorizationQueues serviceId result mc =
    (let assigners = pv_assigners (mc_currentPrivilegedServices mc) in
     fold (\<lambda>(core, queue) mc.
         if core < length assigners \<and> serviceId = assigners ! core
         then on_output (\<lambda>u. u\<lparr>au_authorizationQueues := jm_set (au_authorizationQueues u) core queue\<rparr>) mc else mc)
       (au_authorizationQueues (rv_stateUpdate result)) mc)"

section \<open>Services\<close>

definition mergeStorage :: "service_id \<Rightarrow> result_value \<Rightarrow> merge_context \<Rightarrow> merge_context" where
  "mergeStorage serviceId result mc =
    (case jm_get (su_storage (au_services (rv_stateUpdate result))) serviceId of
       Some st \<Rightarrow> on_out_services (\<lambda>su. su\<lparr>su_storage := jm_set (su_storage su) serviceId st\<rparr>) mc
     | None \<Rightarrow> mc)"

fun provided_for_other :: "service_id \<Rightarrow> update_preimage \<Rightarrow> service_id option" where
  "provided_for_other serviceId (UP_Provide _ _ other) = (if other = serviceId then None else Some other)"
| "provided_for_other serviceId _ = None"

definition push_preimage :: "service_id \<Rightarrow> update_preimage \<Rightarrow> merge_context \<Rightarrow> merge_context" where
  "push_preimage serviceId update mc = (case provided_for_other serviceId update of
      None \<Rightarrow> mc
    | Some i \<Rightarrow> on_out_services (\<lambda>su. su\<lparr>su_preimages := jm_set (su_preimages su) i (jm_get_or (su_preimages su) i [] @ [update])\<rparr>) mc)"

definition mergePreimages :: "service_id \<Rightarrow> result_value \<Rightarrow> merge_context \<Rightarrow> merge_context" where
  "mergePreimages serviceId result mc =
    (case jm_get (su_preimages (au_services (rv_stateUpdate result))) serviceId of
       None \<Rightarrow> mc
     | Some updates \<Rightarrow>
         let currentServiceUpdates = filter (\<lambda>x. provided_for_other serviceId x = None) updates;
             otherServiceUpdates = filter (\<lambda>x. provided_for_other serviceId x \<noteq> None) updates
         in fold (push_preimage serviceId) otherServiceUpdates
           (on_out_services (\<lambda>su. su\<lparr>su_preimages := jm_set (su_preimages su) serviceId currentServiceUpdates\<rparr>) mc))"

definition merge_created :: "services_update \<Rightarrow> service_id \<Rightarrow> merge_context \<Rightarrow> merge_context" where
  "merge_created services i mc =
    (let mc1 = mc\<lparr>mc_newCreatedServices := js_add i (mc_newCreatedServices mc)\<rparr> in
     case jm_get (su_updated services) i of
       Some update \<Rightarrow> on_out_services (\<lambda>su. su\<lparr>su_updated := jm_set (su_updated su) i update\<rparr>) mc1
     | None \<Rightarrow> mc1)"

definition mergeCreatedServices :: "result_value \<Rightarrow> merge_context \<Rightarrow> merge_context" where
  "mergeCreatedServices result mc =
    (let services = au_services (rv_stateUpdate result) in
     fold (merge_created services) (filter (\<lambda>i. i \<notin> set (mc_initialCreatedServices mc)) (su_created services)) mc)"

definition mergeUpdatedServices :: "service_id \<Rightarrow> result_value \<Rightarrow> merge_context \<Rightarrow> merge_context" where
  "mergeUpdatedServices serviceId result mc =
    (case jm_get (su_updated (au_services (rv_stateUpdate result))) serviceId of
       Some u \<Rightarrow> on_out_services (\<lambda>su. su\<lparr>su_updated := jm_set (su_updated su) serviceId u\<rparr>) mc
     | None \<Rightarrow> mc)"

definition merge_removed :: "services_update \<Rightarrow> service_id \<Rightarrow> merge_context \<Rightarrow> merge_context" where
  "merge_removed services i mc =
    (let mc1 = mc\<lparr>mc_newRemovedServices := js_add i (mc_newRemovedServices mc)\<rparr> in
     case jm_get (su_preimages services) i of
       Some preimages \<Rightarrow> on_out_services (\<lambda>su. su\<lparr>su_preimages := jm_set (su_preimages su) i preimages\<rparr>) mc1
     | None \<Rightarrow> mc1)"

definition mergeRemovedServices :: "result_value \<Rightarrow> merge_context \<Rightarrow> merge_context" where
  "mergeRemovedServices result mc =
    (let services = au_services (rv_stateUpdate result) in
     fold (merge_removed services) (filter (\<lambda>i. i \<notin> set (mc_initialRemovedServices mc)) (su_removed services)) mc)"

definition mergeServices :: "service_id \<Rightarrow> result_value \<Rightarrow> merge_context \<Rightarrow> merge_context" where
  "mergeServices serviceId result mc =
    mergeRemovedServices result (mergeUpdatedServices serviceId result (mergeCreatedServices result
      (mergeStorage serviceId result (mergePreimages serviceId result mc))))"

section \<open>Transfers, gas and the whole\<close>

definition mergeTransfers :: "result_value \<Rightarrow> merge_context \<Rightarrow> merge_context" where
  "mergeTransfers result mc = mc\<lparr>mc_transfers := mc_transfers mc @ au_transfers (rv_stateUpdate result)\<rparr>"

definition mergeTotalGas :: "result_value \<Rightarrow> merge_context \<Rightarrow> merge_context throws" where
  "mergeTotalGas result mc =
    bindE (sum_gas [mc_totalGasCost mc, rv_consumedGas result]) (\<lambda>g. Inr (mc\<lparr>mc_totalGasCost := g\<rparr>))"

definition merge_entry :: "service_id \<times> result_value \<Rightarrow> merge_context \<Rightarrow> merge_context throws" where
  "merge_entry = (\<lambda>(serviceId, result) mc.
    bindE (mergePrivilegedServices serviceId result mc) (\<lambda>mc.
      mergeTotalGas result (mergeTransfers result (mergeServices serviceId result
        (mergeAuthorizationQueues serviceId result (mergeValidatorsData serviceId result mc))))))"

definition finalize_merge :: "merge_context \<Rightarrow> merge_result" where
  "finalize_merge mc = \<lparr>mr_transfers = mc_transfers mc, mr_totalGasCost = mc_totalGasCost mc,
    mr_state = (let u = mc_outputState mc in u\<lparr>au_services := au_services u\<lparr>
      su_created := mc_newCreatedServices mc, su_removed := mc_newRemovedServices mc\<rparr>\<rparr>)\<rparr>"

definition mergePerallelAccumulationResults ::
    "chain_spec \<Rightarrow> privileged_services \<Rightarrow> accumulation_state_update \<Rightarrow> parallel_results \<Rightarrow> merge_result throws" where
  "mergePerallelAccumulationResults spec statePrivileged inputState results =
    bindE (foldE merge_entry results (createMergeContext spec statePrivileged inputState results))
      (\<lambda>mc. Inr (finalize_merge mc))"

section \<open>What the parts leave alone\<close>

abbreviation out_services :: "merge_context \<Rightarrow> services_update" where
  "out_services mc \<equiv> au_services (mc_outputState mc)"

lemma fold_same: "(\<And>x s. P (f x s) = P s) \<Longrightarrow> P (fold f xs s) = P s"
  by (induction xs arbitrary: s) simp_all

lemma on_out_simps [simp]:
  "mc_transfers (on_output f mc) = mc_transfers mc" "mc_totalGasCost (on_output f mc) = mc_totalGasCost mc"
  "mc_currentPrivilegedServices (on_output f mc) = mc_currentPrivilegedServices mc"
  "mc_updatedByManager (on_output f mc) = mc_updatedByManager mc"
  "mc_newCreatedServices (on_output f mc) = mc_newCreatedServices mc"
  "mc_initialCreatedServices (on_output f mc) = mc_initialCreatedServices mc"
  "mc_newRemovedServices (on_output f mc) = mc_newRemovedServices mc"
  "mc_initialRemovedServices (on_output f mc) = mc_initialRemovedServices mc"
  "mc_chainSpec (on_output f mc) = mc_chainSpec mc"
  "mc_outputState (on_output f mc) = f (mc_outputState mc)"
  by (simp_all add: on_output_def)

text \<open>The unchanging part of the context, and the part that only transfers and gas touch.\<close>

definition fixed_part where
  "fixed_part mc = (mc_currentPrivilegedServices mc, mc_updatedByManager mc, mc_initialCreatedServices mc,
    mc_initialRemovedServices mc, mc_chainSpec mc, au_transfers (mc_outputState mc))"

definition totals where
  "totals mc = (mc_transfers mc, mc_totalGasCost mc)"

lemma on_out_parts [simp]:
  "(\<And>u. au_transfers (f u) = au_transfers u) \<Longrightarrow> fixed_part (on_output f mc) = fixed_part mc" "totals (on_output f mc) = totals mc"
  by (simp_all add: fixed_part_def totals_def)

lemma validators_parts [simp]:
  "fixed_part (mergeValidatorsData s r mc) = fixed_part mc" "totals (mergeValidatorsData s r mc) = totals mc"
  "mc_newCreatedServices (mergeValidatorsData s r mc) = mc_newCreatedServices mc"
  "out_services (mergeValidatorsData s r mc) = out_services mc"
  by (simp_all add: mergeValidatorsData_def split: option.split)

lemma queues_parts [simp]:
  "fixed_part (mergeAuthorizationQueues s r mc) = fixed_part mc" "totals (mergeAuthorizationQueues s r mc) = totals mc"
  "mc_newCreatedServices (mergeAuthorizationQueues s r mc) = mc_newCreatedServices mc"
  "out_services (mergeAuthorizationQueues s r mc) = out_services mc"
  by (simp_all add: mergeAuthorizationQueues_def Let_def case_prod_unfold fold_same [of fixed_part] fold_same [of totals]
    fold_same [of mc_newCreatedServices] fold_same [of out_services])

lemma push_preimage_parts [simp]:
  "fixed_part (push_preimage s u mc) = fixed_part mc" "totals (push_preimage s u mc) = totals mc"
  "mc_newCreatedServices (push_preimage s u mc) = mc_newCreatedServices mc"
  "su_storage (out_services (push_preimage s u mc)) = su_storage (out_services mc)"
  "su_updated (out_services (push_preimage s u mc)) = su_updated (out_services mc)"
  by (simp_all add: push_preimage_def on_out_services_def split: option.split)

lemma preimages_parts [simp]:
  "fixed_part (mergePreimages s r mc) = fixed_part mc" "totals (mergePreimages s r mc) = totals mc"
  "mc_newCreatedServices (mergePreimages s r mc) = mc_newCreatedServices mc"
  "su_storage (out_services (mergePreimages s r mc)) = su_storage (out_services mc)"
  "su_updated (out_services (mergePreimages s r mc)) = su_updated (out_services mc)"
  by (simp_all add: mergePreimages_def Let_def fold_same [of fixed_part] fold_same [of totals]
    fold_same [of mc_newCreatedServices] fold_same [of "\<lambda>mc. su_storage (out_services mc)"]
    fold_same [of "\<lambda>mc. su_updated (out_services mc)"] on_out_services_def split: option.split)

lemma storage_parts [simp]:
  "fixed_part (mergeStorage s r mc) = fixed_part mc" "totals (mergeStorage s r mc) = totals mc"
  "mc_newCreatedServices (mergeStorage s r mc) = mc_newCreatedServices mc"
  "su_updated (out_services (mergeStorage s r mc)) = su_updated (out_services mc)"
  by (simp_all add: mergeStorage_def on_out_services_def split: option.split)

lemma merge_created_parts [simp]:
  "fixed_part (merge_created svs i mc) = fixed_part mc" "totals (merge_created svs i mc) = totals mc"
  "mc_newCreatedServices (merge_created svs i mc) = js_add i (mc_newCreatedServices mc)"
  "su_storage (out_services (merge_created svs i mc)) = su_storage (out_services mc)"
  by (simp_all add: merge_created_def Let_def fixed_part_def totals_def on_out_services_def split: option.split)

lemma fold_merge_created: "mc_newCreatedServices (fold (merge_created svs) ids mc) = fold js_add ids (mc_newCreatedServices mc)"
  by (induction ids arbitrary: mc) simp_all

lemma created_parts [simp]:
  "fixed_part (mergeCreatedServices r mc) = fixed_part mc" "totals (mergeCreatedServices r mc) = totals mc"
  "su_storage (out_services (mergeCreatedServices r mc)) = su_storage (out_services mc)"
  "mc_newCreatedServices (mergeCreatedServices r mc) = fold js_add
    (filter (\<lambda>i. i \<notin> set (mc_initialCreatedServices mc)) (su_created (au_services (rv_stateUpdate r)))) (mc_newCreatedServices mc)"
  by (simp_all add: mergeCreatedServices_def Let_def fold_same [of fixed_part] fold_same [of totals]
    fold_same [of "\<lambda>mc. su_storage (out_services mc)"] fold_merge_created)

lemma updated_parts [simp]:
  "fixed_part (mergeUpdatedServices s r mc) = fixed_part mc" "totals (mergeUpdatedServices s r mc) = totals mc"
  "mc_newCreatedServices (mergeUpdatedServices s r mc) = mc_newCreatedServices mc"
  "su_storage (out_services (mergeUpdatedServices s r mc)) = su_storage (out_services mc)"
  by (simp_all add: mergeUpdatedServices_def on_out_services_def split: option.split)

lemma merge_removed_parts [simp]:
  "fixed_part (merge_removed svs i mc) = fixed_part mc" "totals (merge_removed svs i mc) = totals mc"
  "mc_newCreatedServices (merge_removed svs i mc) = mc_newCreatedServices mc"
  "su_storage (out_services (merge_removed svs i mc)) = su_storage (out_services mc)"
  "su_updated (out_services (merge_removed svs i mc)) = su_updated (out_services mc)"
  by (simp_all add: merge_removed_def Let_def fixed_part_def totals_def on_out_services_def split: option.split)

lemma removed_parts [simp]:
  "fixed_part (mergeRemovedServices r mc) = fixed_part mc" "totals (mergeRemovedServices r mc) = totals mc"
  "mc_newCreatedServices (mergeRemovedServices r mc) = mc_newCreatedServices mc"
  "su_storage (out_services (mergeRemovedServices r mc)) = su_storage (out_services mc)"
  "su_updated (out_services (mergeRemovedServices r mc)) = su_updated (out_services mc)"
  by (simp_all add: mergeRemovedServices_def Let_def fold_same [of fixed_part] fold_same [of totals]
    fold_same [of mc_newCreatedServices] fold_same [of "\<lambda>mc. su_storage (out_services mc)"]
    fold_same [of "\<lambda>mc. su_updated (out_services mc)"])

lemma privileged_parts:
  assumes "mergePrivilegedServices s r mc = Inr mc'"
  shows "fixed_part mc' = fixed_part mc" "totals mc' = totals mc"
    "mc_newCreatedServices mc' = mc_newCreatedServices mc" "out_services mc' = out_services mc"
  using assms by (auto simp: mergePrivilegedServices_def Let_def bindE_Inr_iff fixed_part_def totals_def split: option.splits)

lemma privileged_returns:
  "length (pv_assigners (mc_currentPrivilegedServices mc)) = coresCount (mc_chainSpec mc) \<Longrightarrow>
    \<exists>mc'. mergePrivilegedServices s r mc = Inr mc'"
  by (simp add: mergePrivilegedServices_def Let_def tryAsPerCore_def split: option.split)

section \<open>The merged result\<close>

text \<open>Reading the storage updates of one service after the results were merged.\<close>

definition merged_storage :: "accumulation_state_update \<Rightarrow> parallel_results \<Rightarrow> service_id \<Rightarrow> update_storage list option" where
  "merged_storage input results s =
    (case Option.bind (jm_get results s) (\<lambda>r. jm_get (su_storage (au_services (rv_stateUpdate r))) s) of
       Some st \<Rightarrow> Some st
     | None \<Rightarrow> jm_get (su_storage (au_services input)) s)"

definition new_ids :: "accumulation_state_update \<Rightarrow> parallel_results \<Rightarrow> service_id list" where
  "new_ids input results = concat (map (\<lambda>(_, r). filter (\<lambda>i. i \<notin> set (su_created (au_services input)))
    (su_created (au_services (rv_stateUpdate r)))) results)"

definition merged :: "merge_context \<Rightarrow> parallel_results \<Rightarrow> accumulation_state_update \<Rightarrow> merge_context \<Rightarrow> bool" where
  "merged mc0 results input mc \<longleftrightarrow> fixed_part mc = fixed_part mc0 \<and>
    mc_transfers mc = concat (map (\<lambda>(_, r). au_transfers (rv_stateUpdate r)) results) \<and>
    mc_totalGasCost mc = sat (\<Sum>(_, r)\<leftarrow>results. rv_consumedGas r) \<and>
    mc_newCreatedServices mc = fold js_add (new_ids input results) (mc_newCreatedServices mc0) \<and>
    (\<forall>s. jm_get (su_storage (out_services mc)) s = merged_storage input results s)"

lemma merge_storage_get:
  "jm_get (su_storage (out_services (mergeStorage i r mc))) s =
    (if s = i then case jm_get (su_storage (au_services (rv_stateUpdate r))) i of
        Some st \<Rightarrow> Some st | None \<Rightarrow> jm_get (su_storage (out_services mc)) s
      else jm_get (su_storage (out_services mc)) s)"
  by (simp add: mergeStorage_def on_out_services_def split: option.split)

lemma transfers_gas_parts [simp]:
  "fixed_part (mergeTransfers r mc) = fixed_part mc" "mc_outputState (mergeTransfers r mc) = mc_outputState mc"
  "mc_newCreatedServices (mergeTransfers r mc) = mc_newCreatedServices mc"
  by (simp_all add: mergeTransfers_def fixed_part_def)

lemma initial_created: "fixed_part mc = fixed_part mc0 \<Longrightarrow> mc_initialCreatedServices mc = mc_initialCreatedServices mc0"
  by (simp add: fixed_part_def)

lemma map_of_snoc:
  "map_of (xs @ [(i, v)]) s = (case map_of xs s of Some r \<Rightarrow> Some r | None \<Rightarrow> if s = i then Some v else None)"
  by (simp add: map_add_def split: option.split)

lemma merge_entry_step:
  assumes mc: "merged mc0 results input mc" and i: "i \<notin> fst ` set results"
    and mc0: "set (mc_initialCreatedServices mc0) = set (su_created (au_services input))"
    and gas: "\<forall>(_, r) \<in> set (results @ [(i, r)]). 0 \<le> rv_consumedGas r"
    and p: "mergePrivilegedServices i r mc = Inr mc1"
  shows "\<exists>mc'. merge_entry (i, r) mc = Inr mc' \<and> merged mc0 (results @ [(i, r)]) input mc'"
proof -
  note p_parts = privileged_parts [OF p]
  let ?mc2 = "mergeServices i r (mergeAuthorizationQueues i r (mergeValidatorsData i r mc1))"
  have parts: "fixed_part ?mc2 = fixed_part mc0" "totals ?mc2 = totals mc"
    using mc p_parts by (simp_all add: mergeServices_def merged_def)
  have init1: "mc_initialCreatedServices (mergeStorage i r (mergePreimages i r (mergeAuthorizationQueues i r
      (mergeValidatorsData i r mc1)))) = mc_initialCreatedServices mc0"
    using mc p_parts by (intro initial_created) (simp add: merged_def)
  have created: "mc_newCreatedServices ?mc2 = fold js_add (new_ids input (results @ [(i, r)])) (mc_newCreatedServices mc0)"
    using mc p_parts mc0 by (simp add: mergeServices_def init1 merged_def new_ids_def)
  have stored: "jm_get (su_storage (out_services ?mc2)) s = merged_storage input (results @ [(i, r)]) s" for s
  proof -
    have none: "jm_get results i = None" using i by (simp add: map_of_eq_None_iff)
    have "jm_get (su_storage (out_services mc)) s = merged_storage input results s"
      using mc by (simp add: merged_def)
    moreover have "jm_get (su_storage (out_services ?mc2)) s =
        (if s = i then case jm_get (su_storage (au_services (rv_stateUpdate r))) i of
            Some st \<Rightarrow> Some st | None \<Rightarrow> jm_get (su_storage (out_services mc)) s
          else jm_get (su_storage (out_services mc)) s)"
      by (simp add: mergeServices_def merge_storage_get p_parts split: option.split)
    ultimately show ?thesis
      by (cases "s = i") (simp_all add: merged_storage_def map_of_snoc none del: map_of_append split: option.split)
  qed
  have nonneg: "0 \<le> (\<Sum>(_, r)\<leftarrow>results. rv_consumedGas r)" "0 \<le> rv_consumedGas r"
    using gas by (auto intro!: sum_list_nonneg)
  have total: "mc_transfers ?mc2 = mc_transfers mc" "mc_totalGasCost ?mc2 = mc_totalGasCost mc"
    using parts(2) by (simp_all add: totals_def)
  then have "mergeTotalGas r (mergeTransfers r ?mc2) = Inr ((mergeTransfers r ?mc2)\<lparr>mc_totalGasCost :=
      sat (\<Sum>(_, r)\<leftarrow>results @ [(i, r)]. rv_consumedGas r)\<rparr>)"
    using mc nonneg by (simp add: mergeTotalGas_def mergeTransfers_def merged_def sum_gas_eq sat_sat)
  moreover have "merged mc0 (results @ [(i, r)]) input ((mergeTransfers r ?mc2)\<lparr>mc_totalGasCost :=
      sat (\<Sum>(_, r)\<leftarrow>results @ [(i, r)]. rv_consumedGas r)\<rparr>)"
    using mc parts(1) created stored total by (simp add: merged_def mergeTransfers_def fixed_part_def)
  ultimately show ?thesis by (simp add: merge_entry_def p)
qed

lemma merge_fold:
  assumes "distinct (map fst results)" "set (mc_initialCreatedServices mc0) = set (su_created (au_services input))"
    "\<forall>(_, r) \<in> set results. 0 \<le> rv_consumedGas r" "merged mc0 [] input mc0"
    "foldE merge_entry results mc0 = Inr mc"
  shows "merged mc0 results input mc"
  using assms
proof (induction results arbitrary: mc rule: rev_induct)
  case (snoc p results)
  obtain i r where p: "p = (i, r)" by fastforce
  from snoc.prems(5) obtain mc' mc1 where mc': "foldE merge_entry results mc0 = Inr mc'"
    "mergePrivilegedServices i r mc' = Inr mc1" "merge_entry (i, r) mc' = Inr mc"
    by (auto simp: foldE_snoc p bindE_Inr_iff merge_entry_def)
  with snoc have "merged mc0 results input mc'" by auto
  with merge_entry_step [of mc0 results input mc' i r mc1] snoc.prems mc' show ?case by (auto simp: p)
qed simp

lemma merge_fold_returns:
  assumes "length (pv_assigners (mc_currentPrivilegedServices mc0)) = coresCount (mc_chainSpec mc0)"
    "\<forall>(_, r) \<in> set results. 0 \<le> rv_consumedGas r" "0 \<le> mc_totalGasCost mc0"
  shows "\<exists>mc. foldE merge_entry results mc0 = Inr mc"
  using assms
proof (induction results arbitrary: mc0)
  case (Cons p results)
  obtain i r where p: "p = (i, r)" by fastforce
  obtain mc1 where mc1: "mergePrivilegedServices i r mc0 = Inr mc1" using privileged_returns [of mc0 i r] Cons.prems(1) by auto
  let ?mc2 = "mergeServices i r (mergeAuthorizationQueues i r (mergeValidatorsData i r mc1))"
  have parts: "fixed_part ?mc2 = fixed_part mc0" "totals ?mc2 = totals mc0"
    using privileged_parts [OF mc1] by (simp_all add: mergeServices_def)
  have "sum_gas [mc_totalGasCost ?mc2, rv_consumedGas r] = Inr (sat (mc_totalGasCost mc0 + rv_consumedGas r))"
    using parts(2) Cons.prems by (auto simp: totals_def sum_gas_eq p)
  then have entry: "merge_entry p mc0 = Inr ((mergeTransfers r ?mc2)\<lparr>mc_totalGasCost := sat (mc_totalGasCost mc0 + rv_consumedGas r)\<rparr>)"
    by (simp add: p merge_entry_def mc1 mergeTotalGas_def mergeTransfers_def)
  show ?case
    unfolding foldE.simps entry bindE.simps
    by (rule Cons.IH) (use parts(1) Cons.prems in \<open>auto simp: fixed_part_def mergeTransfers_def p\<close>)
qed simp

text \<open>
  A merge that does not throw: transfers come in the order of the services, the gas is added with saturation,
  a service finds its own storage updates, and the created services are listed without repetition.
\<close>

definition merge_facts :: "accumulation_state_update \<Rightarrow> parallel_results \<Rightarrow> merge_result \<Rightarrow> bool" where
  "merge_facts input results m \<longleftrightarrow>
    mr_transfers m = concat (map (\<lambda>(_, r). au_transfers (rv_stateUpdate r)) results) \<and>
    mr_totalGasCost m = sat (\<Sum>(_, r)\<leftarrow>results. rv_consumedGas r) \<and>
    (\<forall>s. jm_get (su_storage (au_services (mr_state m))) s = merged_storage input results s) \<and>
    su_created (au_services (mr_state m)) = js_unique (su_created (au_services input) @ new_ids input results) \<and>
    au_transfers (mr_state m) = au_transfers input"

lemma merge_spec:
  assumes "mergePerallelAccumulationResults spec privileged input results = Inr m"
    "distinct (map fst results)" "\<forall>(_, r) \<in> set results. 0 \<le> rv_consumedGas r"
  shows "merge_facts input results m"
proof -
  let ?mc0 = "createMergeContext spec privileged input results"
  have fields: "mc_transfers ?mc0 = []" "mc_totalGasCost ?mc0 = 0" "mc_outputState ?mc0 = input"
    "mc_newCreatedServices ?mc0 = js_unique (su_created (au_services input))"
    "mc_initialCreatedServices ?mc0 = js_unique (su_created (au_services input))"
    by (simp_all add: createMergeContext_def Let_def)
  have start: "merged ?mc0 [] input ?mc0"
    by (simp add: merged_def fields sat_def new_ids_def merged_storage_def)
  from assms(1) obtain mc where mc: "foldE merge_entry results ?mc0 = Inr mc" "m = finalize_merge mc"
    by (auto simp: mergePerallelAccumulationResults_def bindE_Inr_iff)
  have "merged ?mc0 results input mc" by (rule merge_fold [OF assms(2) _ assms(3) start mc(1)]) (simp add: fields)
  moreover have "fold js_add (new_ids input results) (js_unique (su_created (au_services input))) =
      js_unique (su_created (au_services input) @ new_ids input results)" by (simp add: js_unique_def)
  ultimately show ?thesis
    by (simp add: mc(2) merge_facts_def finalize_merge_def Let_def merged_def fields fixed_part_def)
qed

lemma merge_returns:
  assumes "\<forall>(_, r) \<in> set results. 0 \<le> rv_consumedGas r"
    "length (pv_assigners (case au_privilegedServices input of Some p \<Rightarrow> p | None \<Rightarrow> privileged)) = coresCount spec"
  shows "\<exists>m. mergePerallelAccumulationResults spec privileged input results = Inr m"
proof -
  let ?mc0 = "createMergeContext spec privileged input results"
  have "\<exists>mc. foldE merge_entry results ?mc0 = Inr mc"
    by (rule merge_fold_returns) (use assms in \<open>auto simp: createMergeContext_def Let_def\<close>)
  then show ?thesis by (auto simp: mergePerallelAccumulationResults_def)
qed

section \<open>Unintended behaviour\<close>

text \<open>
  The manager's update replaces what was merged before it, so a registrar or delegator with a smaller
  service id that hands its role over in the same round is overruled even though the manager left that
  role alone; with a larger id it is not.
\<close>

lemma manager_overwrites:
  assumes "au_privilegedServices (rv_stateUpdate r) = Some p" "i = pv_manager (mc_currentPrivilegedServices mc)"
    "i \<noteq> pv_registrar (mc_currentPrivilegedServices mc)" "i \<noteq> pv_delegator (mc_currentPrivilegedServices mc)"
    "i \<notin> set (pv_assigners (mc_currentPrivilegedServices mc))"
  shows "mergePrivilegedServices i r mc = Inr (on_output (\<lambda>u. u\<lparr>au_privilegedServices := Some p\<rparr>) mc)"
proof -
  have "\<forall>j < length (pv_assigners (mc_currentPrivilegedServices mc)).
      pv_manager (mc_currentPrivilegedServices mc) \<noteq> pv_assigners (mc_currentPrivilegedServices mc) ! j"
    using assms(2,5) by (auto simp: in_set_conv_nth)
  then show ?thesis using assms(1-4) by (simp add: mergePrivilegedServices_def Let_def on_output_def)
qed

text \<open>
  A service that hands over one core writes the assigners of the round's start for all other cores, so
  what the manager or another assigner changed before is lost.
\<close>

lemma assigner_overwrites:
  assumes "mergePrivilegedServices i r mc = Inr mc'" "au_privilegedServices (rv_stateUpdate r) = Some p"
    "current = pv_assigners (mc_currentPrivilegedServices mc)" "c < length current" "current ! c = i"
    "new_assigner mc i p c \<noteq> i" "c' < length current" "current ! c' \<noteq> i"
  shows "\<exists>out. au_privilegedServices (mc_outputState mc') = Some out \<and> pv_assigners out ! c' = current ! c'"
proof -
  have upd: "\<exists>j \<in> set [0..<length current]. i = current ! j \<and>
      map (new_assigner mc i p) [0..<length current] ! j \<noteq> current ! j"
    using assms(4-6) by (intro bexI [of _ c]) auto
  have "new_assigner mc i p c' = current ! c'" using assms(3,8) by (simp add: new_assigner_def Let_def)
  then show ?thesis
    using assms(1,7) upd unfolding mergePrivilegedServices_def assms(2) Let_def assms(3) [symmetric]
    by (auto simp: bindE_Inr_iff tryAsPerCore_def)
qed

lemma provided_other: "provided_for_other i u = Some j \<Longrightarrow> j \<noteq> i"
  by (cases u) (auto split: if_splits)

lemma fold_push_own:
  "jm_get (su_preimages (out_services (fold (push_preimage i) us mc))) i = jm_get (su_preimages (out_services mc)) i"
proof (rule fold_same [of "\<lambda>mc. jm_get (su_preimages (out_services mc)) i"])
  fix u mc
  show "jm_get (su_preimages (out_services (push_preimage i u mc))) i = jm_get (su_preimages (out_services mc)) i"
    using provided_other [of i u] by (auto simp: push_preimage_def on_out_services_def split: option.split)
qed

text \<open>
  A service with preimage updates of its own replaces the list collected for it, so preimages that
  services with smaller ids provided for it in the same round are lost.
\<close>

lemma preimages_overwritten:
  assumes "jm_get (su_preimages (au_services (rv_stateUpdate r))) i = Some us"
  shows "jm_get (su_preimages (out_services (mergePreimages i r mc))) i =
    Some (filter (\<lambda>x. provided_for_other i x = None) us)"
  using assms by (simp add: mergePreimages_def Let_def fold_push_own) (simp add: on_out_services_def)

end
