(* ===== verification/Externalities.thy ===== *)
theory Externalities
  imports PartialState
begin

text \<open>
  What an accumulating service may do to the state: \<open>AccumulateExternalities\<close> of
  \<open>packages/jam/transition/externalities/accumulate-externalities.ts\<close>. Every operation returns the
  changed object with its result, or an error that leaves the object as it was; a thrown exception
  ends the accumulation. The hash function is an argument.
\<close>

section \<open>The object\<close>

definition MIN_PUBLIC_SERVICE_INDEX :: int where "MIN_PUBLIC_SERVICE_INDEX = 2 ^ 16"

definition REQUIRED_NUMBER_OF_STORAGE_ITEMS_FOR_EJECT :: int where
  "REQUIRED_NUMBER_OF_STORAGE_ITEMS_FOR_EJECT = 2"

definition LOOKUP_HISTORY_ENTRY_BYTES :: int where "LOOKUP_HISTORY_ENTRY_BYTES = 81"
definition BASE_STORAGE_BYTES :: int where "BASE_STORAGE_BYTES = 34"

record externalities =
  ex_chainSpec :: chain_spec
  ex_currentServiceId :: service_id
  ex_currentTimeslot :: time_slot
  ex_updatedState :: partial_state
  ex_checkpointedState :: accumulation_state_update
  ex_nextNewServiceId :: service_id

definition on_state :: "(partial_state \<Rightarrow> partial_state) \<Rightarrow> externalities \<Rightarrow> externalities" where
  "on_state f e = e\<lparr>ex_updatedState := f (ex_updatedState e)\<rparr>"

definition on_update :: "(accumulation_state_update \<Rightarrow> accumulation_state_update) \<Rightarrow> externalities \<Rightarrow> externalities" where
  "on_update f = on_state (\<lambda>ps. ps\<lparr>ps_update := f (ps_update ps)\<rparr>)"

definition getServiceInfo :: "externalities \<Rightarrow> service_id option \<Rightarrow> service_account_info option" where
  "getServiceInfo e destination = ps_getServiceInfo (ex_updatedState e) destination"

definition getCurrentServiceInfo :: "externalities \<Rightarrow> ('x, service_account_info) outcome" where
  "getCurrentServiceInfo e =
    (case ps_getServiceInfo (ex_updatedState e) (Some (ex_currentServiceId e)) of
       None \<Rightarrow> Inl (Thrown GenericError)
     | Some i \<Rightarrow> Inr i)"

text \<open>The number of ids the search goes round.\<close>

definition public_ids :: int where
  "public_ids = 2 ^ 32 - MIN_PUBLIC_SERVICE_INDEX - 2 ^ 8"

definition next_id :: "service_id \<Rightarrow> service_id" where
  "next_id i = (i - MIN_PUBLIC_SERVICE_INDEX + 1 + public_ids) mod public_ids + MIN_PUBLIC_SERVICE_INDEX"

text \<open>\<open>None\<close> is a search that never ends.\<close>

partial_function (option) getNextAvailableServiceId :: "partial_state \<Rightarrow> service_id \<Rightarrow> service_id option" where
  "getNextAvailableServiceId ps serviceId =
    (case ps_getServiceInfo ps (Some serviceId) of
       None \<Rightarrow> Some serviceId
     | Some _ \<Rightarrow> getNextAvailableServiceId ps (next_id serviceId))"

definition bumpServiceId :: "service_id \<Rightarrow> service_id" where
  "bumpServiceId i = MIN_PUBLIC_SERVICE_INDEX + (i - MIN_PUBLIC_SERVICE_INDEX + 42 + public_ids) mod public_ids"

text \<open>The constructor copies the state update into the checkpoint. \<open>None\<close>: it does not return.\<close>

definition forService ::
    "chain_spec \<Rightarrow> partial_state \<Rightarrow> service_id \<Rightarrow> service_id \<Rightarrow> time_slot \<Rightarrow> externalities throws option" where
  "forService spec updatedState currentServiceId nextNewServiceIdCandidate currentTimeslot =
    (case ps_getServiceInfo updatedState (Some currentServiceId) of
       None \<Rightarrow> Some (Inl GenericError)
     | Some _ \<Rightarrow>
         map_option (\<lambda>nextId. Inr
           \<lparr>ex_chainSpec = spec, ex_currentServiceId = currentServiceId, ex_currentTimeslot = currentTimeslot,
            ex_updatedState = updatedState, ex_checkpointedState = ps_update updatedState,
            ex_nextNewServiceId = nextId\<rparr>)
           (getNextAvailableServiceId updatedState nextNewServiceIdCandidate))"

definition getStateUpdates :: "externalities \<Rightarrow> accumulation_state_update \<times> accumulation_state_update" where
  "getStateUpdates e = (ps_update (ex_updatedState e), ex_checkpointedState e)"

section \<open>Preimages\<close>

abbreviation lookup_of :: "externalities \<Rightarrow> service_id \<Rightarrow> blob \<Rightarrow> int \<Rightarrow> lookup_history_item option" where
  "lookup_of e serviceId \<equiv> ps_getLookupHistory (ex_updatedState e) (ex_currentTimeslot e) serviceId"

definition checkPreimageStatus :: "externalities \<Rightarrow> blob \<Rightarrow> int \<Rightarrow> preimage_status option throws" where
  "checkPreimageStatus e h len =
    (case lookup_of e (ex_currentServiceId e) h len of
       None \<Rightarrow> Inr None
     | Some status \<Rightarrow> bindE (slotsToPreimageStatus (li_slots status)) (\<lambda>s. Inr (Some s)))"

text \<open>Whether the previous code of a service is expired; the texts for the log are left out.\<close>

definition isPreviousCodeExpired :: "externalities \<Rightarrow> service_id \<Rightarrow> blob \<Rightarrow> int \<Rightarrow> bool throws" where
  "isPreviousCodeExpired e destination previousCodeHash len =
    (case lookup_of e destination previousCodeHash len of
       None \<Rightarrow> Inr False
     | Some slots \<Rightarrow> bindE (slotsToPreimageStatus (li_slots slots)) (\<lambda>status.
         case status of
           PS_Unavailable _ y \<Rightarrow> Inr (y < ex_currentTimeslot e - int (preimageExpungePeriod (ex_chainSpec e)))
         | _ \<Rightarrow> Inr False))"

definition clampU64ToU32 :: "int \<Rightarrow> int throws" where
  "clampU64ToU32 v = (if v > MAX_VALUE_U32 then Inr MAX_VALUE_U32 else tryAsU32 v)"

datatype request_preimage_error = RP_AlreadyRequested | RP_AlreadyAvailable | RP_InsufficientFunds

text \<open>An error of the storage utilisation is reported as one of the operation.\<close>

fun map_failed :: "'f \<Rightarrow> ('e, 'a) outcome \<Rightarrow> ('f, 'a) outcome" where
  "map_failed f (Inl (Thrown x)) = Inl (Thrown x)"
| "map_failed f (Inl (Failed _)) = Inl (Failed f)"
| "map_failed f (Inr x) = Inr x"

definition request_guard :: "lookup_history_item option \<Rightarrow> (request_preimage_error, unit) outcome" where
  "request_guard existingPreimage =
    (case existingPreimage of
       None \<Rightarrow> Inr ()
     | Some item \<Rightarrow>
         let len = length (li_slots item) in
         if len = 0 then Inl (Failed RP_AlreadyRequested)
         else if len = 1 \<or> len = 3 then Inl (Failed RP_AlreadyAvailable)
         else lift_throws (check (len = 2) (Inr ())))"

definition requestPreimage :: "externalities \<Rightarrow> blob \<Rightarrow> int \<Rightarrow> (request_preimage_error, externalities) outcome" where
  "requestPreimage e h len =
    (let existingPreimage = lookup_of e (ex_currentServiceId e) h len in
     bindE (request_guard existingPreimage) (\<lambda>_.
     bindE (getCurrentServiceInfo e) (\<lambda>serviceInfo.
       let hasPreimage = existingPreimage \<noteq> None;
           countDiff = (if hasPreimage then 0 else 2);
           lenDiff = len - (case existingPreimage of None \<Rightarrow> 0 | Some item \<Rightarrow> li_length item);
           items = storageUtilisationCount serviceInfo + countDiff;
           bytes = storageUtilisationBytes serviceInfo + lenDiff + (if hasPreimage then 0 else LOOKUP_HISTORY_ENTRY_BYTES) in
     bindE (map_failed RP_InsufficientFunds (ps_updateServiceStorageUtilisation (ex_currentServiceId e) items bytes serviceInfo
         (ex_updatedState e))) (\<lambda>ps.
     bindE (lift_throws (clampU64ToU32 len)) (\<lambda>clampedLength.
     bindE (lift_throws (tryAsLookupHistorySlots (case existingPreimage of
         None \<Rightarrow> [] | Some item \<Rightarrow> li_slots item @ [ex_currentTimeslot e]))) (\<lambda>slots.
       Inr (e\<lparr>ex_updatedState := ps_updatePreimage (ex_currentServiceId e)
         (UP_UpdateOrAdd \<lparr>li_hash = h, li_length = clampedLength, li_slots = slots\<rparr>) ps\<rparr>)))))))"

datatype forget_preimage_error = FP_NotFound | FP_NotExpired | FP_StorageUtilisationError

definition forget_utilisation :: "externalities \<Rightarrow> int \<Rightarrow> (forget_preimage_error, partial_state) outcome" where
  "forget_utilisation e len =
    bindE (getCurrentServiceInfo e) (\<lambda>serviceInfo.
      let items = storageUtilisationCount serviceInfo - 2;
          bytes = storageUtilisationBytes serviceInfo - len - LOOKUP_HISTORY_ENTRY_BYTES in
      map_failed FP_StorageUtilisationError
        (ps_updateServiceStorageUtilisation (ex_currentServiceId e) items bytes serviceInfo (ex_updatedState e)))"

definition forget_remove :: "externalities \<Rightarrow> int \<Rightarrow> lookup_history_item \<Rightarrow> (forget_preimage_error, externalities) outcome" where
  "forget_remove e len status =
    bindE (forget_utilisation e len) (\<lambda>ps.
      Inr (e\<lparr>ex_updatedState := ps_updatePreimage (ex_currentServiceId e) (UP_Remove (li_hash status) (li_length status)) ps\<rparr>))"

definition forget_update :: "externalities \<Rightarrow> lookup_history_item \<Rightarrow> time_slot list \<Rightarrow> (forget_preimage_error, externalities) outcome" where
  "forget_update e status slots =
    bindE (lift_throws (tryAsLookupHistorySlots slots)) (\<lambda>slots.
      Inr (on_state (ps_updatePreimage (ex_currentServiceId e)
        (UP_UpdateOrAdd \<lparr>li_hash = li_hash status, li_length = li_length status, li_slots = slots\<rparr>)) e))"

definition forgetPreimage :: "externalities \<Rightarrow> blob \<Rightarrow> int \<Rightarrow> (forget_preimage_error, externalities) outcome" where
  "forgetPreimage e h len =
    (case lookup_of e (ex_currentServiceId e) h len of
       None \<Rightarrow> Inl (Failed FP_NotFound)
     | Some status \<Rightarrow>
         bindE (lift_throws (slotsToPreimageStatus (li_slots status))) (\<lambda>s.
           let t = ex_currentTimeslot e; expunge = int (preimageExpungePeriod (ex_chainSpec e)) in
           case s of
             PS_Requested \<Rightarrow> forget_remove e len status
           | PS_Unavailable _ y \<Rightarrow>
               if y < t - expunge then forget_remove e len status else Inl (Failed FP_NotExpired)
           | PS_Available x \<Rightarrow> forget_update e status [x, t]
           | PS_Reavailable _ y z \<Rightarrow>
               if y < t - expunge then forget_update e status [z, t] else Inl (Failed FP_NotExpired)))"

section \<open>Transfers and services\<close>

datatype transfer_error = DestinationNotFound | GasTooLow | BalanceBelowThreshold

definition transfer :: "externalities \<Rightarrow> service_id option \<Rightarrow> int \<Rightarrow> int \<Rightarrow> blob \<Rightarrow> (transfer_error, externalities) outcome" where
  "transfer e destinationId amount gasLimit memo =
    bindE (getCurrentServiceInfo e) (\<lambda>source.
      case (getServiceInfo e destinationId, destinationId) of
        (Some destination, Some destId) \<Rightarrow>
          if gasLimit < onTransferMinGas destination then Inl (Failed GasTooLow)
          else
            let newBalance = balance source - amount in
            bindE (lift_throws (calculateThresholdBalance (storageUtilisationCount source)
                (storageUtilisationBytes source) (gratisStorage source))) (\<lambda>thresholdBalance.
            if newBalance < thresholdBalance then Inl (Failed BalanceBelowThreshold)
            else
              let e1 = on_update (\<lambda>u. u\<lparr>au_transfers := au_transfers u @
                  [\<lparr>tr_source = ex_currentServiceId e, tr_destination = destId, tr_amount = amount, tr_memo = memo, tr_gas = gasLimit\<rparr>]\<rparr>) e in
              bindE (lift_throws (tryAsU64 newBalance)) (\<lambda>b.
                Inr (on_state (ps_updateServiceInfo (ex_currentServiceId e) (source\<lparr>balance := b\<rparr>)) e1)))
      | _ \<Rightarrow> Inl (Failed DestinationNotFound))"

datatype new_service_error = NS_InsufficientFunds | NS_UnprivilegedService | NS_RegistrarServiceIdAlreadyTaken

text \<open>
  The object is \<open>None\<close> inside a successful result when the search for the next id does not end. The
  account is made of \<open>bytes\<close>, \<open>items\<close> and the threshold computed before.
\<close>

definition new_account ::
    "externalities \<Rightarrow> blob \<Rightarrow> int \<Rightarrow> int \<Rightarrow> int \<Rightarrow> int \<Rightarrow> int \<Rightarrow> int \<Rightarrow> service_account_info" where
  "new_account e code thresholdForNew minGas transferGas bytes items gratis =
    \<lparr>codeHash = code, balance = thresholdForNew, accumulateMinGas = minGas, onTransferMinGas = transferGas,
     storageUtilisationBytes = bytes, gratisStorage = gratis, storageUtilisationCount = items,
     created_slot = ex_currentTimeslot e, lastAccumulation = 0, parentService = ex_currentServiceId e\<rparr>"

text \<open>Where the new service goes: the id the registrar wants, or the next free one.\<close>

definition place_service ::
    "externalities \<Rightarrow> service_account_info \<Rightarrow> lookup_history_item \<Rightarrow> service_account_info \<Rightarrow> int \<Rightarrow>
      (new_service_error, service_id \<times> externalities option) outcome" where
  "place_service e newAccount newLookupItem updatedCurrentAccount wantedServiceId =
    (let create = (\<lambda>newServiceId. on_state (\<lambda>ps. ps_updateServiceInfo (ex_currentServiceId e) updatedCurrentAccount
         (ps_createService newServiceId newAccount newLookupItem ps)) e) in
     if wantedServiceId < MIN_PUBLIC_SERVICE_INDEX \<and>
       ex_currentServiceId e = pv_registrar (ps_getPrivilegedServices (ex_updatedState e))
     then
       bindE (lift_throws (tryAsU32 wantedServiceId)) (\<lambda>newServiceId.
         if getServiceInfo e (Some newServiceId) \<noteq> None then Inl (Failed NS_RegistrarServiceIdAlreadyTaken)
         else Inr (newServiceId, Some (create newServiceId)))
     else
       let newServiceId = ex_nextNewServiceId e; e1 = create newServiceId in
       Inr (newServiceId, map_option (\<lambda>nextId. e1\<lparr>ex_nextNewServiceId := nextId\<rparr>)
         (getNextAvailableServiceId (ex_updatedState e1) (bumpServiceId newServiceId))))"

definition newService ::
    "externalities \<Rightarrow> blob \<Rightarrow> int \<Rightarrow> int \<Rightarrow> int \<Rightarrow> int \<Rightarrow> int \<Rightarrow> (new_service_error, service_id \<times> externalities option) outcome" where
  "newService e code codeLength minGas transferGas gratis wantedServiceId =
    (let items = 2 in
     bindE (lift_throws (sumU64 [LOOKUP_HISTORY_ENTRY_BYTES, codeLength])) (\<lambda>bytes.
     bindE (lift_throws (clampU64ToU32 codeLength)) (\<lambda>clampedLength.
     if gratis \<noteq> 0 \<and> ex_currentServiceId e \<noteq> pv_manager (ps_getPrivilegedServices (ex_updatedState e))
     then Inl (Failed NS_UnprivilegedService)
     else
     bindE (lift_throws (calculateThresholdBalance items (sum_value bytes) gratis)) (\<lambda>thresholdForNew.
     bindE (getCurrentServiceInfo e) (\<lambda>currentService.
     bindE (lift_throws (calculateThresholdBalance (storageUtilisationCount currentService)
         (storageUtilisationBytes currentService) (gratisStorage currentService))) (\<lambda>thresholdForCurrent.
     let balanceLeftForCurrent = balance currentService - thresholdForNew in
     if balanceLeftForCurrent < thresholdForCurrent \<or> overflow bytes then Inl (Failed NS_InsufficientFunds)
     else
     bindE (lift_throws (tryAsU64 balanceLeftForCurrent)) (\<lambda>b.
       place_service e (new_account e code thresholdForNew minGas transferGas (sum_value bytes) items gratis)
         \<lparr>li_hash = code, li_length = clampedLength, li_slots = []\<rparr> (currentService\<lparr>balance := b\<rparr>) wantedServiceId)))))))"

definition upgradeService :: "externalities \<Rightarrow> blob \<Rightarrow> int \<Rightarrow> int \<Rightarrow> (unit, externalities) outcome" where
  "upgradeService e code minGas allowance =
    bindE (getCurrentServiceInfo e) (\<lambda>serviceInfo.
    bindE (lift_throws (tryAsU64 minGas)) (\<lambda>g.
    bindE (lift_throws (tryAsU64 allowance)) (\<lambda>a.
      Inr (on_state (ps_updateServiceInfo (ex_currentServiceId e)
        (serviceInfo\<lparr>codeHash := code, accumulateMinGas := g, onTransferMinGas := a\<rparr>)) e))))"

section \<open>Privileges and the rest\<close>

datatype unprivileged_error = UnprivilegedError

definition updateValidatorsData :: "externalities \<Rightarrow> validator_data list \<Rightarrow> (unprivileged_error, externalities) outcome" where
  "updateValidatorsData e validatorsData =
    (if pv_delegator (ps_getPrivilegedServices (ex_updatedState e)) \<noteq> ex_currentServiceId e
     then Inl (Failed UnprivilegedError)
     else Inr (on_update (\<lambda>u. u\<lparr>au_validatorsData := Some validatorsData\<rparr>) e))"

definition checkpoint :: "externalities \<Rightarrow> externalities" where
  "checkpoint e = e\<lparr>ex_checkpointedState := ps_update (ex_updatedState e)\<rparr>"

datatype update_privileges_error = UP_UnprivilegedService | UP_InvalidServiceId

text \<open>\<open>assigners[coreIndex]\<close> past the end is \<open>undefined\<close>, which is no service id.\<close>

definition updateAuthorizationQueue ::
    "externalities \<Rightarrow> nat \<Rightarrow> blob list \<Rightarrow> service_id option \<Rightarrow> (update_privileges_error, externalities) outcome" where
  "updateAuthorizationQueue e coreIndex authQueue newAssigner =
    (let privilegedServices = ps_getPrivilegedServices (ex_updatedState e);
         currentAssigners = pv_assigners privilegedServices in
     if \<not> (coreIndex < length currentAssigners \<and> currentAssigners ! coreIndex = ex_currentServiceId e)
     then Inl (Failed UP_UnprivilegedService)
     else case newAssigner of
       None \<Rightarrow> Inl (Failed UP_InvalidServiceId)
     | Some a \<Rightarrow> Inr (on_update (\<lambda>u. u\<lparr>au_authorizationQueues := jm_set (au_authorizationQueues u) coreIndex authQueue,
         au_privilegedServices := Some (privilegedServices\<lparr>pv_assigners := currentAssigners[coreIndex := a]\<rparr>)\<rparr>) e))"

definition updatePrivilegedServices ::
    "externalities \<Rightarrow> service_id option \<Rightarrow> service_id list \<Rightarrow> service_id option \<Rightarrow> service_id option \<Rightarrow>
      (service_id, int) jsmap \<Rightarrow> (update_privileges_error, externalities) outcome" where
  "updatePrivilegedServices e manager assigners delegator registrar autoAccumulateServices =
    (case (manager, delegator, registrar) of
       (Some m, Some d, Some r) \<Rightarrow>
         Inr (on_update (\<lambda>u. u\<lparr>au_privilegedServices := Some
           \<lparr>pv_manager = m, pv_delegator = d, pv_registrar = r, pv_assigners = assigners,
            pv_autoAccumulateServices = autoAccumulateServices\<rparr>\<rparr>) e)
     | _ \<Rightarrow> Inl (Failed UP_InvalidServiceId))"

definition yield_root :: "externalities \<Rightarrow> blob \<Rightarrow> externalities" where
  "yield_root e h = on_update (\<lambda>u. u\<lparr>au_yieldedRoot := Some h\<rparr>) e"

datatype provide_preimage_error = PP_ServiceNotFound | PP_WasNotRequested | PP_AlreadyProvided

definition providePreimage ::
    "(blob \<Rightarrow> blob) \<Rightarrow> externalities \<Rightarrow> service_id option \<Rightarrow> blob \<Rightarrow> (provide_preimage_error, externalities) outcome" where
  "providePreimage hashBytes e serviceId pre =
    (case (serviceId, ps_getServiceInfo (ex_updatedState e) serviceId) of
       (Some sid, Some _) \<Rightarrow>
         let preimageHash = hashBytes pre in
         (case lookup_of e sid preimageHash (int (length pre)) of
            None \<Rightarrow> Inl (Failed PP_WasNotRequested)
          | Some stateLookup \<Rightarrow>
              if \<not> isRequested (li_slots stateLookup) then Inl (Failed PP_WasNotRequested)
              else if ps_hasPreimage (ex_updatedState e) sid preimageHash then Inl (Failed PP_AlreadyProvided)
              else
                let update = UP_Provide \<lparr>pi_hash = preimageHash, pi_blob = pre\<rparr> (Some (ex_currentTimeslot e)) sid;
                    e1 = on_state (ps_updatePreimage sid update) e in
                Inr (if ex_currentServiceId e \<noteq> sid
                     then on_state (ps_updatePreimage (ex_currentServiceId e) update) e1 else e1))
     | _ \<Rightarrow> Inl (Failed PP_ServiceNotFound))"

datatype eject_error = EJ_InvalidService | EJ_InvalidPreimage

definition ejected_preimages :: "service_id \<Rightarrow> blob \<Rightarrow> int \<Rightarrow> services_update \<Rightarrow> services_update" where
  "ejected_preimages d h len su = su\<lparr>su_removed := su_removed su @ [d],
     su_preimages := jm_set (su_preimages su) d (jm_get_or (su_preimages su) d [] @ [UP_Remove h len])\<rparr>"

definition eject :: "externalities \<Rightarrow> service_id option \<Rightarrow> blob \<Rightarrow> (eject_error, externalities) outcome" where
  "eject e destination previousCodeHash =
    (case (getServiceInfo e destination, destination) of
       (Some service, Some d) \<Rightarrow>
         if d \<in> set (su_removed (ps_services (ex_updatedState e))) then Inl (Failed EJ_InvalidService)
         else
           bindE (getCurrentServiceInfo e) (\<lambda>currentService.
           let expectedCodeHash = u32AsLeBytes (ex_currentServiceId e) @ replicate 28 0 in
           if codeHash service \<noteq> expectedCodeHash then Inl (Failed EJ_InvalidService)
           else if storageUtilisationCount service \<noteq> REQUIRED_NUMBER_OF_STORAGE_ITEMS_FOR_EJECT
           then Inl (Failed EJ_InvalidPreimage)
           else
           bindE (lift_throws (tryAsU64 (maxU64 (storageUtilisationBytes service) [LOOKUP_HISTORY_ENTRY_BYTES]
               - LOOKUP_HISTORY_ENTRY_BYTES))) (\<lambda>l.
           bindE (lift_throws (isPreviousCodeExpired e d previousCodeHash l)) (\<lambda>expired.
           if \<not> expired then Inl (Failed EJ_InvalidPreimage)
           else
           bindE (lift_throws (sumU64 [balance currentService, balance service])) (\<lambda>newBalance.
           if overflow newBalance then Inl (Failed EJ_InvalidService)
           else
           bindE (lift_throws (tryAsU32 l)) (\<lambda>preimageLength.
             Inr (on_state (\<lambda>ps. on_services (ejected_preimages d previousCodeHash preimageLength)
               (ps_updateServiceInfo (ex_currentServiceId e) (currentService\<lparr>balance := sum_value newBalance\<rparr>) ps)) e))))))
     | _ \<Rightarrow> Inl (Failed EJ_InvalidService))"

section \<open>Storage\<close>

definition ext_read :: "externalities \<Rightarrow> service_id option \<Rightarrow> blob \<Rightarrow> blob option" where
  "ext_read e serviceId rawKey = Option.bind serviceId (\<lambda>s. ps_getStorage (ex_updatedState e) s rawKey)"

definition ext_lookup :: "externalities \<Rightarrow> service_id option \<Rightarrow> blob \<Rightarrow> blob option" where
  "ext_lookup e serviceId h = Option.bind serviceId (\<lambda>s. ps_getPreimage (ex_updatedState e) s h)"

datatype write_error = StorageFull

definition opt_length :: "blob option \<Rightarrow> int" where
  "opt_length v = (case v of None \<Rightarrow> 0 | Some b \<Rightarrow> int (length b))"

definition ext_write :: "externalities \<Rightarrow> blob \<Rightarrow> blob option \<Rightarrow> (write_error, externalities \<times> nat option) outcome" where
  "ext_write e rawKey dat =
    (let rawKeyBytes = int (length rawKey);
         current = ext_read e (Some (ex_currentServiceId e)) rawKey;
         isAddingNew = (current = None \<and> dat \<noteq> None);
         isRemoving = (current \<noteq> None \<and> dat = None);
         countDiff = (if isAddingNew then 1 else if isRemoving then - 1 else 0);
         lenDiff = opt_length dat - opt_length current;
         baseStorageDiff = (if isAddingNew then BASE_STORAGE_BYTES else if isRemoving then - BASE_STORAGE_BYTES else 0);
         keyDiffRemoving = (if isRemoving then - rawKeyBytes else 0);
         keyDiffAdding = (if isAddingNew then rawKeyBytes else 0);
         rawKeyDiff = keyDiffRemoving + keyDiffAdding in
     bindE (getCurrentServiceInfo e) (\<lambda>serviceInfo.
     let items = storageUtilisationCount serviceInfo + countDiff;
         bytes = storageUtilisationBytes serviceInfo + lenDiff + baseStorageDiff + rawKeyDiff in
     bindE (map_failed StorageFull (ps_updateServiceStorageUtilisation (ex_currentServiceId e) items bytes serviceInfo
         (ex_updatedState e))) (\<lambda>ps.
       Inr (e\<lparr>ex_updatedState := ps_updateStorage (ex_currentServiceId e) rawKey dat ps\<rparr>, map_option length current))))"

end
