(* ===== verification/Ledger.thy ===== *)
theory Ledger
  imports Externalities
begin

text \<open>
  What the operations of theory Externalities promise about money. The abstract ledger has the
  accounts a service can see and the transfers that are still on their way; its steps are the four
  ways in which the protocol lets an accumulating service move funds. Every successful operation is
  such a step or leaves the ledger alone, so nothing creates or destroys funds and no account falls
  below its threshold.
\<close>

section \<open>The abstract ledger\<close>

record ledger =
  accounts :: "service_id \<Rightarrow> service_account_info option"
  on_the_way :: "pending_transfer list"

inductive ledger_step :: "service_id \<Rightarrow> ledger \<Rightarrow> ledger \<Rightarrow> bool" for cur where
  L_stay: "ledger_step cur l l"
| L_change: "accounts l cur = Some i \<Longrightarrow> balance i' = balance i \<Longrightarrow> threshold i' \<le> balance i' \<or> threshold i' = threshold i \<Longrightarrow>
    ledger_step cur l (l\<lparr>accounts := (accounts l)(cur \<mapsto> i')\<rparr>)"
| L_transfer: "accounts l cur = Some i \<Longrightarrow> accounts l (tr_destination t) \<noteq> None \<Longrightarrow> 0 \<le> tr_amount t \<Longrightarrow>
    threshold i \<le> balance i - tr_amount t \<Longrightarrow>
    ledger_step cur l \<lparr>accounts = (accounts l)(cur \<mapsto> i\<lparr>balance := balance i - tr_amount t\<rparr>), on_the_way = on_the_way l @ [t]\<rparr>"
| L_create: "accounts l cur = Some i \<Longrightarrow> accounts l new = None \<Longrightarrow> balance j = threshold j \<Longrightarrow>
    threshold i \<le> balance i - balance j \<Longrightarrow>
    ledger_step cur l (l\<lparr>accounts := (accounts l)(new \<mapsto> j, cur \<mapsto> i\<lparr>balance := balance i - balance j\<rparr>)\<rparr>)"
| L_eject: "accounts l cur = Some i \<Longrightarrow> accounts l d = Some j \<Longrightarrow> d \<noteq> cur \<Longrightarrow> balance i + balance j < 2 ^ 64 \<Longrightarrow>
    ledger_step cur l (l\<lparr>accounts := (accounts l)(cur \<mapsto> i\<lparr>balance := balance i + balance j\<rparr>, d := None)\<rparr>)"

definition funds :: "ledger \<Rightarrow> int" where
  "funds l = (\<Sum>s \<in> dom (accounts l). balance (the (accounts l s))) + sum_list (map tr_amount (on_the_way l))"

definition sound_account :: "service_account_info \<Rightarrow> bool" where
  "sound_account i \<longleftrightarrow> balance i < 2 ^ 64 \<and> threshold i \<le> balance i"

definition sound_ledger :: "ledger \<Rightarrow> bool" where
  "sound_ledger l \<longleftrightarrow> finite (dom (accounts l)) \<and> (\<forall>s i. accounts l s = Some i \<longrightarrow> sound_account i)"

lemma threshold_update [simp]: "threshold (i\<lparr>balance := b\<rparr>) = threshold i"
  by (simp add: threshold_def)

lemma sound_balance: "sound_account i \<Longrightarrow> 0 \<le> balance i"
  using threshold_range(1) [of i] by (simp add: sound_account_def)

definition worth :: "(service_id \<Rightarrow> service_account_info option) \<Rightarrow> int" where
  "worth acc = (\<Sum>s \<in> dom acc. balance (the (acc s)))"

lemma worth_new: "finite (dom acc) \<Longrightarrow> acc s = None \<Longrightarrow> worth (acc(s \<mapsto> i)) = worth acc + balance i"
  by (simp add: worth_def domIff sum.insert_if) (intro sum.cong, auto)

lemma worth_remove: "finite (dom acc) \<Longrightarrow> acc s = Some i \<Longrightarrow> worth (acc(s := None)) = worth acc - balance i"
proof -
  assume fin: "finite (dom acc)" and s: "acc s = Some i"
  have "worth ((acc(s := None))(s \<mapsto> i)) = worth (acc(s := None)) + balance i"
    using fin by (intro worth_new) simp_all
  moreover have "(acc(s := None))(s \<mapsto> i) = acc" using s by auto
  ultimately show ?thesis by simp
qed

lemma worth_update: "finite (dom acc) \<Longrightarrow> acc s = Some i \<Longrightarrow> worth (acc(s \<mapsto> j)) = worth acc - balance i + balance j"
  using worth_remove [of acc s i] worth_new [of "acc(s := None)" s j] by simp

lemma funds_worth: "funds l = worth (accounts l) + sum_list (map tr_amount (on_the_way l))"
  by (simp add: funds_def worth_def)

lemma ledger_step_sound:
  assumes "ledger_step cur l l'" "sound_ledger l"
  shows "sound_ledger l' \<and> funds l' = funds l"
  using assms
proof (cases rule: ledger_step.cases)
  case (L_change i i')
  with assms(2) have "sound_account i'" by (auto simp: sound_ledger_def sound_account_def)
  with L_change assms(2) show ?thesis by (simp add: funds_worth worth_update sound_ledger_def)
next
  case (L_transfer i t)
  with assms(2) have "sound_account i" by (simp add: sound_ledger_def)
  then have "sound_account (i\<lparr>balance := balance i - tr_amount t\<rparr>)" using L_transfer by (simp add: sound_account_def)
  with L_transfer assms(2) show ?thesis by (simp add: funds_worth worth_update sound_ledger_def)
next
  case (L_create i new j)
  have "sound_account i" using L_create assms(2) by (simp add: sound_ledger_def)
  then have "sound_account (i\<lparr>balance := balance i - balance j\<rparr>)" "sound_account j"
    using L_create threshold_range [of j] by (simp_all add: sound_account_def)
  moreover have "cur \<noteq> new" using L_create by auto
  ultimately show ?thesis using L_create assms(2)
    by (simp add: funds_worth worth_update worth_new sound_ledger_def)
next
  case (L_eject i d j)
  have "sound_account i" "sound_account j" using L_eject assms(2) by (simp_all add: sound_ledger_def)
  then have "sound_account (i\<lparr>balance := balance i + balance j\<rparr>)"
    using L_eject sound_balance [of j] by (simp add: sound_account_def)
  with L_eject assms(2) show ?thesis
    by (simp add: funds_worth worth_update worth_remove sound_ledger_def)
qed simp

section \<open>The ledger of the code\<close>

definition ledger_of :: "externalities \<Rightarrow> ledger" where
  "ledger_of e = \<lparr>accounts = (\<lambda>s. ps_getServiceInfo (ex_updatedState e) (Some s)),
    on_the_way = au_transfers (ps_update (ex_updatedState e))\<rparr>"

lemma finite_accounts: "finite (dom (\<lambda>s. ps_getServiceInfo ps (Some s)))"
proof (rule finite_subset)
  show "dom (\<lambda>s. ps_getServiceInfo ps (Some s)) \<subseteq>
      fst ` set (su_updated (ps_services ps)) \<union> fst ` set (sl_services (ps_state ps))"
    by (force simp: ps_getServiceInfo_def split: if_splits option.splits dest!: map_of_SomeD)
qed simp

text \<open>The operations as steps; the side conditions are those the host calls check first.\<close>

inductive ext_step :: "(blob \<Rightarrow> blob) \<Rightarrow> externalities \<Rightarrow> externalities \<Rightarrow> bool" for H where
  "requestPreimage e h len = Inr e' \<Longrightarrow> ext_step H e e'"
| "forgetPreimage e h len = Inr e' \<Longrightarrow> ext_step H e e'"
| "0 \<le> amount \<Longrightarrow> transfer e d amount g memo = Inr e' \<Longrightarrow> ext_step H e e'"
| "newService e code len g tg gratis wanted = Inr (new, Some e') \<Longrightarrow>
    new \<notin> set (su_removed (ps_services (ex_updatedState e))) \<Longrightarrow> ext_step H e e'"
| "upgradeService e code g a = Inr e' \<Longrightarrow> ext_step H e e'"
| "updateValidatorsData e vs = Inr e' \<Longrightarrow> ext_step H e e'"
| "ext_step H e (checkpoint e)"
| "updateAuthorizationQueue e c q na = Inr e' \<Longrightarrow> ext_step H e e'"
| "updatePrivilegedServices e m as dl r z = Inr e' \<Longrightarrow> ext_step H e e'"
| "ext_step H e (yield_root e h)"
| "providePreimage H e s b = Inr e' \<Longrightarrow> ext_step H e e'"
| "d \<noteq> Some (ex_currentServiceId e) \<Longrightarrow> eject e d h = Inr e' \<Longrightarrow> ext_step H e e'"
| "ext_write e k v = Inr (e', r) \<Longrightarrow> ext_step H e e'"

text \<open>The next id is one without a service, above the protected range.\<close>

definition wf_ext :: "externalities \<Rightarrow> bool" where
  "wf_ext e \<longleftrightarrow> MIN_PUBLIC_SERVICE_INDEX \<le> ex_nextNewServiceId e \<and>
    ps_getServiceInfo (ex_updatedState e) (Some (ex_nextNewServiceId e)) = None"

section \<open>Every operation is a step\<close>

lemma lift_throws_Inr [simp]: "lift_throws x = Inr y \<longleftrightarrow> x = Inr y"
  by (cases x) auto

lemma map_failed_Inr [simp]: "map_failed f x = Inr y \<longleftrightarrow> x = Inr y"
  by (cases "(f, x)" rule: map_failed.cases) auto

lemma getCurrentServiceInfo_Inr [simp]:
  "getCurrentServiceInfo e = Inr i \<longleftrightarrow> ps_getServiceInfo (ex_updatedState e) (Some (ex_currentServiceId e)) = Some i"
  by (simp add: getCurrentServiceInfo_def split: option.split)

lemma ledger_simps [simp]:
  "accounts (ledger_of e) s = ps_getServiceInfo (ex_updatedState e) (Some s)"
  "on_the_way (ledger_of e) = au_transfers (ps_update (ex_updatedState e))"
  by (simp_all add: ledger_of_def)

lemma on_state_simps [simp]:
  "ex_updatedState (on_state f e) = f (ex_updatedState e)"
  "ex_currentServiceId (on_state f e) = ex_currentServiceId e"
  "ex_nextNewServiceId (on_state f e) = ex_nextNewServiceId e"
  by (simp_all add: on_state_def)

lemma on_update_simps [simp]:
  "ex_updatedState (on_update f e) = (ex_updatedState e)\<lparr>ps_update := f (ps_update (ex_updatedState e))\<rparr>"
  "ex_currentServiceId (on_update f e) = ex_currentServiceId e"
  "ex_nextNewServiceId (on_update f e) = ex_nextNewServiceId e"
  by (simp_all add: on_update_def)

text \<open>Changing anything but the services of an update does not change what is read of them.\<close>

lemma getServiceInfo_update [partial_reads]:
  "au_services u = ps_services ps \<Longrightarrow> ps_getServiceInfo (ps\<lparr>ps_update := u\<rparr>) = ps_getServiceInfo ps"
  by (rule ext) (simp add: ps_getServiceInfo_def cong: option.case_cong if_cong)

lemma calculateThreshold_account:
  "calculateThresholdBalance (storageUtilisationCount i) (storageUtilisationBytes i) (gratisStorage i) = Inr (threshold i)"
  by (simp add: calculateThresholdBalance_eq threshold_def)

lemma utilisation_Inr:
  "ps_updateServiceStorageUtilisation s n len i ps = Inr ps' \<longleftrightarrow>
    0 \<le> n \<and> 0 \<le> len \<and> n < 2 ^ 32 \<and> len < 2 ^ 64 \<and>
    threshold (i\<lparr>storageUtilisationBytes := len, storageUtilisationCount := n\<rparr>) \<le> balance i \<and>
    ps' = ps_updateServiceInfo s (i\<lparr>storageUtilisationBytes := len, storageUtilisationCount := n\<rparr>) ps"
  by (auto simp: utilisation_eq split: if_splits)

text \<open>A step, and the next id still has no service.\<close>

definition safe_step :: "externalities \<Rightarrow> externalities \<Rightarrow> bool" where
  "safe_step e e' \<longleftrightarrow> ledger_step (ex_currentServiceId e) (ledger_of e) (ledger_of e') \<and>
    ex_currentServiceId e' = ex_currentServiceId e \<and> (wf_ext e \<longrightarrow> wf_ext e')"

lemma safe_stay:
  assumes "ps_getServiceInfo (ex_updatedState e') = ps_getServiceInfo (ex_updatedState e)"
    "au_transfers (ps_update (ex_updatedState e')) = au_transfers (ps_update (ex_updatedState e))"
    "ex_currentServiceId e' = ex_currentServiceId e" "ex_nextNewServiceId e' = ex_nextNewServiceId e"
  shows "safe_step e e'"
proof -
  have "ledger_of e' = ledger_of e" using assms by (simp add: ledger_of_def)
  with assms show ?thesis by (simp add: safe_step_def wf_ext_def L_stay)
qed

lemma safe_change:
  assumes "ps_getServiceInfo (ex_updatedState e) (Some (ex_currentServiceId e)) = Some i"
    "balance i' = balance i" "threshold i' \<le> balance i' \<or> threshold i' = threshold i"
    "ps_getServiceInfo (ex_updatedState e') = (ps_getServiceInfo (ex_updatedState e))(Some (ex_currentServiceId e) \<mapsto> i')"
    "au_transfers (ps_update (ex_updatedState e')) = au_transfers (ps_update (ex_updatedState e))"
    "ex_currentServiceId e' = ex_currentServiceId e" "ex_nextNewServiceId e' = ex_nextNewServiceId e"
  shows "safe_step e e'"
proof -
  have "ledger_of e' = (ledger_of e)\<lparr>accounts := (accounts (ledger_of e))(ex_currentServiceId e \<mapsto> i')\<rparr>"
    using assms by (auto simp: ledger_of_def)
  moreover have "wf_ext e \<Longrightarrow> wf_ext e'" using assms by (auto simp: wf_ext_def)
  ultimately show ?thesis using assms L_change [of "ledger_of e" "ex_currentServiceId e" i i'] by (simp add: safe_step_def)
qed

lemma current_not_removed:
  "ps_getServiceInfo ps (Some s) = Some i \<Longrightarrow> s \<notin> set (su_removed (ps_services ps))"
  by (rule getServiceInfo_not_removed)

lemma utilisation_step:
  assumes "ps_updateServiceStorageUtilisation (ex_currentServiceId e) n len i (ex_updatedState e) = Inr ps"
    "ps_getServiceInfo (ex_updatedState e) (Some (ex_currentServiceId e)) = Some i"
    "ps_getServiceInfo (ex_updatedState e') = ps_getServiceInfo ps"
    "au_transfers (ps_update (ex_updatedState e')) = au_transfers (ps_update ps)"
    "ex_currentServiceId e' = ex_currentServiceId e" "ex_nextNewServiceId e' = ex_nextNewServiceId e"
  shows "safe_step e e'"
proof (rule safe_change)
  show "ps_getServiceInfo (ex_updatedState e) (Some (ex_currentServiceId e)) = Some i" by fact
  show "ps_getServiceInfo (ex_updatedState e') = (ps_getServiceInfo (ex_updatedState e))
      (Some (ex_currentServiceId e) \<mapsto> i\<lparr>storageUtilisationBytes := len, storageUtilisationCount := n\<rparr>)"
    using assms by (simp add: utilisation_Inr partial_reads current_not_removed)
qed (use assms in \<open>simp_all add: utilisation_Inr\<close>)

lemma request_step: "requestPreimage e h len = Inr e' \<Longrightarrow> safe_step e e'"
  by (auto simp: requestPreimage_def Let_def bindE_Inr_iff partial_reads elim!: utilisation_step)

lemma forget_remove_step: "forget_remove e len status = Inr e' \<Longrightarrow> safe_step e e'"
  by (auto simp: forget_remove_def forget_utilisation_def Let_def bindE_Inr_iff partial_reads elim!: utilisation_step)

lemma write_step: "ext_write e k v = Inr (e', r) \<Longrightarrow> safe_step e e'"
  by (auto simp: ext_write_def Let_def bindE_Inr_iff partial_reads elim!: utilisation_step)

lemma forget_update_step: "forget_update e status slots = Inr e' \<Longrightarrow> safe_step e e'"
  by (auto simp: forget_update_def bindE_Inr_iff partial_reads intro!: safe_stay)

lemma forget_cases:
  assumes "forgetPreimage e h len = Inr e'"
  shows "\<exists>status slots. forget_remove e len status = Inr e' \<or> forget_update e status slots = Inr e'"
proof -
  obtain status s where "lookup_of e (ex_currentServiceId e) h len = Some status"
    "slotsToPreimageStatus (li_slots status) = Inr s"
    using assms by (auto simp: forgetPreimage_def bindE_Inr_iff split: option.splits)
  with assms show ?thesis by (cases s) (auto simp: forgetPreimage_def Let_def split: if_splits)
qed

lemma forget_step: "forgetPreimage e h len = Inr e' \<Longrightarrow> safe_step e e'"
  using forget_cases forget_remove_step forget_update_step by blast

lemma upgrade_step:
  assumes "upgradeService e code g a = Inr e'"
  shows "safe_step e e'"
proof -
  obtain i x y where i: "ps_getServiceInfo (ex_updatedState e) (Some (ex_currentServiceId e)) = Some i"
    "e' = on_state (ps_updateServiceInfo (ex_currentServiceId e)
      (i\<lparr>codeHash := code, accumulateMinGas := x, onTransferMinGas := y\<rparr>)) e"
    using assms by (auto simp: upgradeService_def bindE_Inr_iff)
  then show ?thesis
    by (intro safe_change [where i' = "i\<lparr>codeHash := code, accumulateMinGas := x, onTransferMinGas := y\<rparr>", OF i(1)])
      (simp_all add: partial_reads current_not_removed threshold_def)
qed

lemma provide_step: "providePreimage H e s b = Inr e' \<Longrightarrow> safe_step e e'"
  by (auto simp: providePreimage_def Let_def partial_reads split: option.splits if_splits intro!: safe_stay)

lemma privileges_step:
  "updateValidatorsData e vs = Inr e' \<Longrightarrow> safe_step e e'"
  "updateAuthorizationQueue e c q na = Inr e' \<Longrightarrow> safe_step e e'"
  "updatePrivilegedServices e m as dl r z = Inr e' \<Longrightarrow> safe_step e e'"
  "safe_step e (yield_root e h)"
  "safe_step e (checkpoint e)"
  by (auto simp: updateValidatorsData_def updateAuthorizationQueue_def updatePrivilegedServices_def yield_root_def
      checkpoint_def Let_def partial_reads split: if_splits option.splits intro!: safe_stay)

lemma transfer_cases:
  assumes "transfer e d amount g memo = Inr e'"
  obtains i destId dest where "ps_getServiceInfo (ex_updatedState e) (Some (ex_currentServiceId e)) = Some i"
    "ps_getServiceInfo (ex_updatedState e) (Some destId) = Some dest" "threshold i \<le> balance i - amount"
    "e' = on_state (ps_updateServiceInfo (ex_currentServiceId e) (i\<lparr>balance := balance i - amount\<rparr>))
      (on_update (\<lambda>u. u\<lparr>au_transfers := au_transfers u @
        [\<lparr>tr_source = ex_currentServiceId e, tr_destination = destId, tr_amount = amount, tr_memo = memo, tr_gas = g\<rparr>]\<rparr>) e)"
proof -
  obtain destId where d: "d = Some destId" using assms
    by (cases d) (auto simp: transfer_def bindE_Inr_iff getServiceInfo_def split: option.splits)
  show thesis using assms that
    by (auto simp: transfer_def d getServiceInfo_def Let_def bindE_Inr_iff calculateThreshold_account
        tryAs_Inr_iff split: option.splits if_splits)
qed

lemma transfer_step:
  assumes "transfer e d amount g memo = Inr e'" "0 \<le> amount"
  shows "safe_step e e'"
proof -
  let ?cur = "ex_currentServiceId e"
  from assms(1) obtain i destId dest where i: "ps_getServiceInfo (ex_updatedState e) (Some ?cur) = Some i"
    and dest: "ps_getServiceInfo (ex_updatedState e) (Some destId) = Some dest"
    and low: "threshold i \<le> balance i - amount"
    and e': "e' = on_state (ps_updateServiceInfo ?cur (i\<lparr>balance := balance i - amount\<rparr>))
      (on_update (\<lambda>u. u\<lparr>au_transfers := au_transfers u @
        [\<lparr>tr_source = ?cur, tr_destination = destId, tr_amount = amount, tr_memo = memo, tr_gas = g\<rparr>]\<rparr>) e)"
    by (rule transfer_cases)
  let ?t = "\<lparr>tr_source = ?cur, tr_destination = destId, tr_amount = amount, tr_memo = memo, tr_gas = g\<rparr>"
  have "ledger_of e' = \<lparr>accounts = (accounts (ledger_of e))(?cur \<mapsto> i\<lparr>balance := balance i - tr_amount ?t\<rparr>),
      on_the_way = on_the_way (ledger_of e) @ [?t]\<rparr>"
    using i by (auto simp: e' ledger_of_def partial_reads current_not_removed)
  moreover have "wf_ext e \<Longrightarrow> wf_ext e'"
    using i by (auto simp: wf_ext_def e' partial_reads current_not_removed)
  moreover have "ledger_step ?cur (ledger_of e) \<lparr>accounts = (accounts (ledger_of e))(?cur \<mapsto> i\<lparr>balance := balance i - tr_amount ?t\<rparr>),
      on_the_way = on_the_way (ledger_of e) @ [?t]\<rparr>"
    by (rule L_transfer) (use i dest low assms(2) in simp_all)
  ultimately show ?thesis by (simp add: safe_step_def e')
qed

section \<open>The search for the next id\<close>

lemma next_id_range: "MIN_PUBLIC_SERVICE_INDEX \<le> next_id i" "next_id i < MIN_PUBLIC_SERVICE_INDEX + public_ids"
  by (simp_all add: next_id_def public_ids_def MIN_PUBLIC_SERVICE_INDEX_def)

lemma bumpServiceId_range:
  "MIN_PUBLIC_SERVICE_INDEX \<le> bumpServiceId i" "bumpServiceId i < MIN_PUBLIC_SERVICE_INDEX + public_ids"
  by (simp_all add: bumpServiceId_def public_ids_def MIN_PUBLIC_SERVICE_INDEX_def)

definition found_free :: "partial_state \<Rightarrow> service_id \<Rightarrow> service_id \<Rightarrow> bool" where
  "found_free ps i j \<longleftrightarrow> ps_getServiceInfo ps (Some j) = None \<and>
    (MIN_PUBLIC_SERVICE_INDEX \<le> i \<longrightarrow> MIN_PUBLIC_SERVICE_INDEX \<le> j)"

lemma getNextAvailable_free:
  assumes "getNextAvailableServiceId ps i = Some j"
  shows "found_free ps i j"
proof (rule getNextAvailableServiceId.raw_induct [of found_free ps i j, OF _ assms])
  fix f ps i j
  assume "\<And>ps i j. f ps i = Some j \<Longrightarrow> found_free ps i j"
    "(case ps_getServiceInfo ps (Some i) of None \<Rightarrow> Some i | Some _ \<Rightarrow> f ps (next_id i)) = Some j"
  then show "found_free ps i j"
    using next_id_range(1) [of i] by (auto simp: found_free_def split: option.splits)
qed

lemma mod_minus_one: "a mod m \<noteq> 0 \<Longrightarrow> 0 < m \<Longrightarrow> (a - 1) mod m = a mod m - (1 :: int)"
proof -
  assume "a mod m \<noteq> 0" "0 < m"
  then have "0 \<le> a mod m - 1" "a mod m - 1 < m"
    using pos_mod_sign [of m a] pos_mod_bound [of m a] by linarith+
  then have "(a mod m - 1) mod m = a mod m - 1" by (rule mod_pos_pos_trivial)
  then show ?thesis by (simp add: mod_diff_left_eq)
qed

lemma distance_next: "(x - next_id i) mod public_ids = (x - i - 1) mod public_ids"
proof -
  have "(x - next_id i) mod public_ids =
      (x - MIN_PUBLIC_SERVICE_INDEX - (i - MIN_PUBLIC_SERVICE_INDEX + 1 + public_ids) mod public_ids) mod public_ids"
    by (simp add: next_id_def algebra_simps)
  also have "\<dots> = (x - MIN_PUBLIC_SERVICE_INDEX - (i - MIN_PUBLIC_SERVICE_INDEX + 1 + public_ids)) mod public_ids"
    by (rule mod_diff_right_eq)
  also have "\<dots> = (x - i - 1 - public_ids) mod public_ids" by (simp add: algebra_simps)
  finally show ?thesis by simp
qed

lemma public_ids_pos: "0 < public_ids"
  by (simp add: public_ids_def MIN_PUBLIC_SERVICE_INDEX_def)

abbreviation is_public :: "service_id \<Rightarrow> bool" where
  "is_public i \<equiv> MIN_PUBLIC_SERVICE_INDEX \<le> i \<and> i < MIN_PUBLIC_SERVICE_INDEX + public_ids"

lemma search_returns_public:
  assumes "is_public x" "ps_getServiceInfo ps (Some x) = None"
  shows "is_public i \<Longrightarrow> \<exists>j. getNextAvailableServiceId ps i = Some j"
proof (induction "nat ((x - i) mod public_ids)" arbitrary: i rule: less_induct)
  case less
  show ?case
  proof (cases "ps_getServiceInfo ps (Some i)")
    case None
    then show ?thesis by (simp add: getNextAvailableServiceId.simps)
  next
    case (Some info)
    with assms(2) have "x \<noteq> i" by auto
    moreover have "x - i < public_ids" "i - x < public_ids" using assms(1) less.prems by auto
    ultimately have "(x - i) mod public_ids \<noteq> 0"
      by (auto simp: mod_eq_0_iff_dvd dest!: zdvd_imp_le [rotated] dest: dvd_minus_iff [THEN iffD2])
        (smt (verit) dvd_minus_iff zdvd_not_zless)
    then have "(x - next_id i) mod public_ids < (x - i) mod public_ids"
      using mod_minus_one [of "x - i" public_ids] public_ids_pos distance_next [of x i] by simp
    then have "\<exists>j. getNextAvailableServiceId ps (next_id i) = Some j"
      using less.hyps [of "next_id i"] next_id_range [of i] pos_mod_sign [OF public_ids_pos, of "x - i"]
        pos_mod_sign [OF public_ids_pos, of "x - next_id i"] by (simp add: nat_less_iff)
    with Some show ?thesis by (simp add: getNextAvailableServiceId.simps [of ps i])
  qed
qed

text \<open>The search visits every public id, so it ends as soon as one of them has no service.\<close>

lemma getNextAvailable_returns:
  assumes "is_public x" "ps_getServiceInfo ps (Some x) = None"
  shows "\<exists>j. getNextAvailableServiceId ps i = Some j"
proof (cases "ps_getServiceInfo ps (Some i)")
  case None
  then show ?thesis by (simp add: getNextAvailableServiceId.simps)
next
  case (Some info)
  then show ?thesis using search_returns_public [OF assms, of "next_id i"] next_id_range [of i]
    by (simp add: getNextAvailableServiceId.simps [of ps i])
qed

section \<open>Creating and ejecting services\<close>

lemma eject_step:
  assumes "eject e d h = Inr e'" "d \<noteq> Some (ex_currentServiceId e)"
  shows "safe_step e e'"
proof -
  let ?cur = "ex_currentServiceId e"
  obtain dest where d: "d = Some dest" using assms(1)
    by (cases d) (auto simp: eject_def getServiceInfo_def split: option.splits)
  obtain i j l where i: "ps_getServiceInfo (ex_updatedState e) (Some ?cur) = Some i"
    and j: "ps_getServiceInfo (ex_updatedState e) (Some dest) = Some j"
    and low: "0 \<le> balance i + balance j" "balance i + balance j < 2 ^ 64"
    and e': "e' = on_state (\<lambda>ps. on_services (ejected_preimages dest h l)
      (ps_updateServiceInfo ?cur (i\<lparr>balance := (balance i + balance j)\<rparr>) ps)) e"
    using assms(1) by (auto simp: eject_def d getServiceInfo_def Let_def bindE_Inr_iff sumU64_eq
        split: option.splits if_splits)
  have infos: "ps_getServiceInfo (ex_updatedState e') =
      (ps_getServiceInfo (ex_updatedState e))(Some ?cur \<mapsto> i\<lparr>balance := balance i + balance j\<rparr>, Some dest := None)"
  proof
    fix x
    have "?cur \<notin> set (su_removed (ps_services (ex_updatedState e)))" using i by (rule getServiceInfo_not_removed)
    then show "ps_getServiceInfo (ex_updatedState e') x = ((ps_getServiceInfo (ex_updatedState e))
        (Some ?cur \<mapsto> i\<lparr>balance := balance i + balance j\<rparr>, Some dest := None)) x"
      using assms(2) d
      by (auto simp: e' ps_getServiceInfo_def ejected_preimages_def ps_updateServiceInfo_def
          split: option.splits update_service.splits)
  qed
  have tr: "au_transfers (ps_update (ex_updatedState e')) = au_transfers (ps_update (ex_updatedState e))"
    by (simp add: e')
  have "ledger_of e' = (ledger_of e)\<lparr>accounts := (accounts (ledger_of e))
      (?cur \<mapsto> i\<lparr>balance := balance i + balance j\<rparr>, dest := None)\<rparr>"
    using infos tr by (auto simp: ledger_of_def)
  moreover have "ledger_step ?cur (ledger_of e) ((ledger_of e)\<lparr>accounts := (accounts (ledger_of e))
      (?cur \<mapsto> i\<lparr>balance := balance i + balance j\<rparr>, dest := None)\<rparr>)"
    by (rule L_eject) (use i j low assms(2) d in auto)
  moreover have "wf_ext e \<Longrightarrow> wf_ext e'"
    using i infos by (auto simp: wf_ext_def e')
  ultimately show ?thesis by (simp add: safe_step_def e')
qed

text \<open>The state after a service was created, and the account of its parent paid for it.\<close>

definition created_state ::
    "externalities \<Rightarrow> service_id \<Rightarrow> service_account_info \<Rightarrow> lookup_history_item \<Rightarrow> service_account_info \<Rightarrow> partial_state" where
  "created_state e new j item i' =
    ps_updateServiceInfo (ex_currentServiceId e) i' (ps_createService new j item (ex_updatedState e))"

lemma place_service_cases:
  assumes "place_service e j item i' wanted = Inr (new, Some e')"
  shows "ex_updatedState e' = created_state e new j item i' \<and> ex_currentServiceId e' = ex_currentServiceId e \<and>
    (ps_getServiceInfo (ex_updatedState e) (Some new) = None \<and> new < MIN_PUBLIC_SERVICE_INDEX \<and>
      ex_nextNewServiceId e' = ex_nextNewServiceId e
     \<or> new = ex_nextNewServiceId e \<and>
      getNextAvailableServiceId (ex_updatedState e') (bumpServiceId new) = Some (ex_nextNewServiceId e'))"
  using assms
  by (auto simp: place_service_def Let_def bindE_Inr_iff created_state_def getServiceInfo_def tryAs_Inr_iff
      split: if_splits)

lemma newService_cases:
  assumes "newService e code len g tg gratis wanted = Inr (new, Some e')"
  obtains i j item where
    "ps_getServiceInfo (ex_updatedState e) (Some (ex_currentServiceId e)) = Some i"
    "balance j = threshold j" "threshold i \<le> balance i - balance j"
    "place_service e j item (i\<lparr>balance := balance i - balance j\<rparr>) wanted = Inr (new, Some e')"
proof -
  define bytes where "bytes = 81 + len"
  define c where "c = min (2 ^ 64 - 1) (max 0 (100 + 10 * 2 + bytes - gratis))"
  define j where "j = new_account e code c g tg bytes 2 gratis"
  have j: "balance j = threshold j" "balance j = c"
    by (simp_all add: j_def new_account_def threshold_def c_def)
  obtain i item where "ps_getServiceInfo (ex_updatedState e) (Some (ex_currentServiceId e)) = Some i"
    "threshold i \<le> balance i - c" "place_service e j item (i\<lparr>balance := balance i - c\<rparr>) wanted = Inr (new, Some e')"
    using assms
    by (auto simp: newService_def Let_def bindE_Inr_iff sumU64_eq calculateThresholdBalance_eq [of 2]
        calculateThreshold_account LOOKUP_HISTORY_ENTRY_BYTES_def bytes_def c_def j_def tryAs_Inr_iff split: if_splits)
  with j that show thesis by simp
qed

lemma newService_step:
  assumes "newService e code len g tg gratis wanted = Inr (new, Some e')"
    "new \<notin> set (su_removed (ps_services (ex_updatedState e)))" "wf_ext e"
  shows "safe_step e e'"
proof -
  let ?cur = "ex_currentServiceId e"
  from assms(1) obtain i j item where n:
    "ps_getServiceInfo (ex_updatedState e) (Some ?cur) = Some i"
    "balance j = threshold j" "threshold i \<le> balance i - balance j"
    "place_service e j item (i\<lparr>balance := balance i - balance j\<rparr>) wanted = Inr (new, Some e')"
    by (rule newService_cases)
  note place = place_service_cases [OF n(4)]
  have none: "ps_getServiceInfo (ex_updatedState e) (Some new) = None" using place assms(3) by (auto simp: wf_ext_def)
  have infos: "ps_getServiceInfo (ex_updatedState e') = (ps_getServiceInfo (ex_updatedState e))
      (Some new \<mapsto> j, Some ?cur \<mapsto> i\<lparr>balance := balance i - balance j\<rparr>)"
    using n(1) assms(2) by (simp add: place created_state_def partial_reads current_not_removed)
  have tr: "au_transfers (ps_update (ex_updatedState e')) = au_transfers (ps_update (ex_updatedState e))"
    by (simp add: place created_state_def)
  have "ledger_of e' = (ledger_of e)\<lparr>accounts := (accounts (ledger_of e))
      (new \<mapsto> j, ?cur \<mapsto> i\<lparr>balance := balance i - balance j\<rparr>)\<rparr>"
    using infos tr by (auto simp: ledger_of_def)
  moreover have "ledger_step ?cur (ledger_of e) ((ledger_of e)\<lparr>accounts := (accounts (ledger_of e))
      (new \<mapsto> j, ?cur \<mapsto> i\<lparr>balance := balance i - balance j\<rparr>)\<rparr>)"
    by (rule L_create) (use n none in simp_all)
  moreover have "wf_ext e'"
    using place [THEN conjunct2, THEN conjunct2]
  proof
    assume "ps_getServiceInfo (ex_updatedState e) (Some new) = None \<and> new < MIN_PUBLIC_SERVICE_INDEX \<and>
      ex_nextNewServiceId e' = ex_nextNewServiceId e"
    then show ?thesis using assms(3) n(1) infos by (auto simp: wf_ext_def)
  next
    assume "new = ex_nextNewServiceId e \<and>
      getNextAvailableServiceId (ex_updatedState e') (bumpServiceId new) = Some (ex_nextNewServiceId e')"
    then show ?thesis
      using getNextAvailable_free [of "ex_updatedState e'" "bumpServiceId new"] bumpServiceId_range(1) [of new]
      by (auto simp: wf_ext_def found_free_def)
  qed
  ultimately show ?thesis by (simp add: safe_step_def place)
qed

section \<open>Runs\<close>

lemma ext_step_safe: "ext_step H e e' \<Longrightarrow> wf_ext e \<Longrightarrow> safe_step e e'"
  by (induction rule: ext_step.induct)
    (simp_all add: request_step forget_step transfer_step newService_step upgrade_step privileges_step provide_step
      eject_step write_step)

lemma ext_steps_sound:
  assumes "(ext_step H)\<^sup>*\<^sup>* e e'" "wf_ext e" "sound_ledger (ledger_of e)"
  shows "wf_ext e' \<and> sound_ledger (ledger_of e') \<and> funds (ledger_of e') = funds (ledger_of e) \<and>
    ex_currentServiceId e' = ex_currentServiceId e"
  using assms
proof (induction rule: rtranclp_induct)
  case (step y z)
  then have "safe_step y z" by (intro ext_step_safe) auto
  with step ledger_step_sound [of "ex_currentServiceId y" "ledger_of y" "ledger_of z"] show ?case
    by (simp add: safe_step_def)
qed simp

lemma forService_wf:
  assumes "forService spec ps s candidate t = Some (Inr e)" "MIN_PUBLIC_SERVICE_INDEX \<le> candidate"
  shows "wf_ext e \<and> ex_updatedState e = ps \<and> ex_currentServiceId e = s"
  using assms getNextAvailable_free [of ps candidate]
  by (auto simp: forService_def wf_ext_def found_free_def split: option.splits)

end
