(* ===== verification/Accumulate.thy ===== *)
theory Accumulate
  imports AccumulateMerge Ledger Codec SortedCollections
begin

text \<open>
  The accumulation of a block: \<open>packages/jam/transition/accumulate/accumulate.ts\<close>, with
  \<open>generateNextServiceId\<close> of \<open>accumulate-utils.ts\<close>. The executor that runs a service's code is an
  argument: it gets the code, the externalities, what can be fetched, the encoded arguments and the gas,
  and answers with the state of the externalities it leaves behind. \<open>None\<close> is a run that does not end; it
  comes from the search for a free service id. The services of a round run on copies of one state, so
  running them one after the other gives what running them concurrently gives.
\<close>

section \<open>Data\<close>

type_synonym 'a run = "'a throws option"

definition bindR :: "'a run \<Rightarrow> ('a \<Rightarrow> 'b run) \<Rightarrow> 'b run" where
  "bindR m f = (case m of None \<Rightarrow> None | Some (Inl e) \<Rightarrow> Some (Inl e) | Some (Inr x) \<Rightarrow> f x)"

record execution_result =
  er_isOk :: bool
  er_memorySlice :: blob
  er_consumedGas :: int
  er_externalities :: externalities

record fetch_data =
  fd_entropy :: blob
  fd_transfers :: "pending_transfer list"
  fd_operands :: "operand list"

type_synonym executor = "service_id \<Rightarrow> blob \<Rightarrow> externalities \<Rightarrow> fetch_data \<Rightarrow> blob \<Rightarrow> int \<Rightarrow> execution_result"

record accumulate_state =
  as_timeslot :: nat
  as_slice :: state_slice
  as_recentlyAccumulated :: "hash_list list"
  as_accumulationQueue :: "not_yet_accumulated list list"
  as_authQueues :: "blob list list"

record count_and_gas_used =
  cg_count :: int
  cg_gasUsed :: int

type_synonym accumulation_statistics = "(service_id, count_and_gas_used) jsmap"
type_synonym yielded_roots = "(service_id, hash_list) jsmap"

record compatibility =
  gp072 :: bool
  davxy071 :: bool

definition W_C :: nat where "W_C = 4000000"
definition GAS_TO_INVOKE_WORK_REPORT :: int where "GAS_TO_INVOKE_WORK_REPORT = 10000000"

section \<open>The next service id\<close>

definition NEXT_ID_CODEC :: "(int \<times> blob \<times> int) descriptor" where
  "NEXT_ID_CODEC = codec_pair codec_varU32 (codec_pair (codec_bytes 32) codec_varU32)"

definition generateNextServiceId :: "(blob \<Rightarrow> blob) \<Rightarrow> service_id \<Rightarrow> blob \<Rightarrow> time_slot \<Rightarrow> service_id throws" where
  "generateNextServiceId H serviceId entropy timeslot =
    bindE (encodeObject NEXT_ID_CODEC (serviceId, entropy, timeslot)) (\<lambda>encoded.
    bindE (leBytesAsU32 (take 4 (H encoded))) (\<lambda>number.
      tryAsU32 (number mod public_ids + MIN_PUBLIC_SERVICE_INDEX)))"

section \<open>Selecting reports\<close>

fun cutoff_loop :: "int \<Rightarrow> work_report list \<Rightarrow> nat \<Rightarrow> int \<Rightarrow> nat" where
  "cutoff_loop gasLimit [] i currentGas = i"
| "cutoff_loop gasLimit (report # reports) i currentGas =
    (let resultsGas = fold (\<lambda>b a. a + b) (map (\<lambda>result. int (re_gas result)) (wr_results report)) 0 in
     if currentGas + resultsGas > gasLimit then i
     else cutoff_loop gasLimit reports (i + 1) (currentGas + resultsGas))"

definition findReportCutoffIndex :: "int \<Rightarrow> work_report list \<Rightarrow> nat" where
  "findReportCutoffIndex gasLimit reports = cutoff_loop gasLimit reports 0 0"

section \<open>One service\<close>

datatype pvm_invocation_error = NoService | NoPreimage | PreimageTooLong

record invocation_result =
  iv_stateUpdate :: accumulation_state_update
  iv_consumedGas :: int

definition ARGS_CODEC :: "(int \<times> int \<times> int) descriptor" where
  "ARGS_CODEC = codec_pair codec_varU32 (codec_pair codec_varU32 codec_varU32)"

text \<open>What becomes of a finished execution.\<close>

definition invocation_outcome :: "execution_result \<Rightarrow> invocation_result throws" where
  "invocation_outcome result =
    (case getStateUpdates (er_externalities result) of (newState, checkpointed) \<Rightarrow>
      bindE (tryAsU64 (er_consumedGas result)) (\<lambda>g.
      if \<not> er_isOk result then Inr \<lparr>iv_stateUpdate = checkpointed, iv_consumedGas = g\<rparr>
      else Inr \<lparr>iv_stateUpdate = (if length (er_memorySlice result) = 32
            then newState\<lparr>au_yieldedRoot := Some (er_memorySlice result)\<rparr> else newState),
          iv_consumedGas = g\<rparr>))"

definition pvmAccumulateInvocation ::
    "chain_spec \<Rightarrow> (blob \<Rightarrow> blob) \<Rightarrow> executor \<Rightarrow> nat \<Rightarrow> service_id \<Rightarrow> pending_transfer list \<Rightarrow> operand list \<Rightarrow> int \<Rightarrow>
      blob \<Rightarrow> partial_state \<Rightarrow> (pvm_invocation_error + invocation_result) run" where
  "pvmAccumulateInvocation spec H exec slot serviceId transfers operands g entropy updatedState =
    (case ps_getServiceInfo updatedState (Some serviceId) of
       None \<Rightarrow> Some (Inr (Inl NoService))
     | Some serviceInfo \<Rightarrow>
    (case ps_getPreimage updatedState serviceId (codeHash serviceInfo) of
       None \<Rightarrow> Some (Inr (Inl NoPreimage))
     | Some code \<Rightarrow>
       if length code > W_C then Some (Inr (Inl PreimageTooLong))
       else
         bindR (Some (generateNextServiceId H serviceId entropy (int slot))) (\<lambda>nextServiceId.
         bindR (forService spec updatedState serviceId nextServiceId (int slot)) (\<lambda>partialState.
         bindR (Some (tryAsU32 (int (length transfers + length operands)))) (\<lambda>argsLength.
         bindR (Some (encodeObject ARGS_CODEC (int slot, serviceId, argsLength))) (\<lambda>invocationArgs.
         bindR (Some (invocation_outcome (exec serviceId code partialState
             \<lparr>fd_entropy = entropy, fd_transfers = transfers, fd_operands = operands\<rparr> invocationArgs g))) (\<lambda>result.
           Some (Inr (Inr result)))))))))"

record single_result =
  si_stateUpdate :: "accumulation_state_update option"
  si_consumedGas :: int

definition invoke_single ::
    "chain_spec \<Rightarrow> (blob \<Rightarrow> blob) \<Rightarrow> executor \<Rightarrow> nat \<Rightarrow> blob \<Rightarrow> service_id \<Rightarrow> pending_transfer list \<Rightarrow>
      operand list \<Rightarrow> int \<Rightarrow> partial_state \<Rightarrow> single_result run" where
  "invoke_single spec H exec slot entropy serviceId transfers operands gasCost updatedState =
    bindR (pvmAccumulateInvocation spec H exec slot serviceId transfers operands gasCost entropy updatedState) (\<lambda>result.
      Some (Inr (case result of
        Inl _ \<Rightarrow> \<lparr>si_stateUpdate = Some (ps_update updatedState), si_consumedGas = 0\<rparr>
      | Inr ok \<Rightarrow> \<lparr>si_stateUpdate = Some (iv_stateUpdate ok), si_consumedGas = iv_consumedGas ok\<rparr>)))"

definition accumulateSingleService ::
    "chain_spec \<Rightarrow> (blob \<Rightarrow> blob) \<Rightarrow> executor \<Rightarrow> state_slice \<Rightarrow> nat \<Rightarrow> blob \<Rightarrow> service_id \<Rightarrow> pending_transfer list \<Rightarrow>
      operand list \<Rightarrow> int \<Rightarrow> accumulation_state_update \<Rightarrow> single_result run" where
  "accumulateSingleService spec H exec stateSlice slot entropy serviceId transfers operands gasCost inputStateUpdate =
    (let updatedState = \<lparr>ps_state = stateSlice, ps_update = inputStateUpdate\<rparr>;
         invoke = invoke_single spec H exec slot entropy serviceId transfers operands gasCost
     in case ps_getServiceInfo updatedState (Some serviceId) of
       None \<Rightarrow> invoke updatedState
     | Some serviceInfo \<Rightarrow>
         bindR (Some (sumU64 (balance serviceInfo # map tr_amount transfers))) (\<lambda>newBalance.
           if overflow newBalance then Some (Inr \<lparr>si_stateUpdate = None, si_consumedGas = 0\<rparr>)
           else invoke (ps_updateServiceInfo serviceId (serviceInfo\<lparr>balance := sum_value newBalance\<rparr>) updatedState)))"

section \<open>A round, and round after round\<close>

type_synonym single_service = "service_id \<Rightarrow> pending_transfer list \<Rightarrow> operand list \<Rightarrow> int \<Rightarrow>
  accumulation_state_update \<Rightarrow> single_result run"

fun parallel_loop ::
    "single_service \<Rightarrow> accumulate_data \<Rightarrow> accumulation_state_update \<Rightarrow> service_id list \<Rightarrow> parallel_results run" where
  "parallel_loop single d inputStateUpdate [] = Some (Inr [])"
| "parallel_loop single d inputStateUpdate (serviceId # ids) =
    bindR (single serviceId (getTransfers d serviceId) (getOperands d serviceId) (getGasLimit d serviceId) inputStateUpdate) (\<lambda>r.
    bindR (parallel_loop single d inputStateUpdate ids) (\<lambda>results.
      Some (Inr ((serviceId, \<lparr>rv_consumedGas = si_consumedGas r,
        rv_stateUpdate = (case si_stateUpdate r of None \<Rightarrow> inputStateUpdate | Some u \<Rightarrow> u)\<rparr>) # results))))"

definition accumulateInParallel ::
    "single_service \<Rightarrow> accumulate_data \<Rightarrow> accumulation_state_update \<Rightarrow> parallel_results run" where
  "accumulateInParallel single d inputStateUpdate = parallel_loop single d inputStateUpdate (ad_serviceIds d)"

definition shouldUpdateStatistics :: "compatibility \<Rightarrow> int \<Rightarrow> int \<Rightarrow> bool" where
  "shouldUpdateStatistics cp n consumedGas \<longleftrightarrow>
    (\<not> gp072 cp \<and> n > 0) \<or> (gp072 cp \<and> (n > 0 \<or> consumedGas > 0)) \<or> (davxy071 cp \<and> (n > 0 \<or> consumedGas > 0))"

definition update_statistics_of ::
    "compatibility \<Rightarrow> accumulate_data \<Rightarrow> service_id \<times> result_value \<Rightarrow> accumulation_statistics \<Rightarrow> accumulation_statistics throws" where
  "update_statistics_of cp d = (\<lambda>(serviceId, r) statistics.
    let old = jm_get_or statistics serviceId \<lparr>cg_count = 0, cg_gasUsed = 0\<rparr>;
        n = getReportsLength d serviceId
    in if shouldUpdateStatistics cp n (rv_consumedGas r) then
         bindE (tryAsU32 (cg_count old + n)) (\<lambda>c.
         bindE (tryAsU64 (cg_gasUsed old + rv_consumedGas r)) (\<lambda>g.
           Inr (jm_set statistics serviceId \<lparr>cg_count = c, cg_gasUsed = g\<rparr>)))
       else Inr statistics)"

definition updateStatistics ::
    "compatibility \<Rightarrow> parallel_results \<Rightarrow> accumulation_statistics \<Rightarrow> accumulate_data \<Rightarrow> accumulation_statistics throws" where
  "updateStatistics cp results statistics d = foldE (update_statistics_of cp d) results statistics"

definition update_yielded :: "service_id \<times> result_value \<Rightarrow> yielded_roots \<Rightarrow> yielded_roots" where
  "update_yielded = (\<lambda>(serviceId, r) yieldedRoots.
    case au_yieldedRoot (rv_stateUpdate r) of
      None \<Rightarrow> yieldedRoots
    | Some root \<Rightarrow> jm_set yieldedRoots serviceId (js_add root (jm_get_or yieldedRoots serviceId [])))"

definition updateYieldedRoots :: "parallel_results \<Rightarrow> yielded_roots \<Rightarrow> yielded_roots" where
  "updateYieldedRoots results yieldedRoots = fold update_yielded results yieldedRoots"

record sequential_result =
  sr_accumulatedReports :: int
  sr_state :: accumulation_state_update
  sr_gasCost :: int

record sequential_args =
  sq_gasLimit :: int
  sq_reports :: "work_report list"
  sq_transfers :: "pending_transfer list"
  sq_statistics :: accumulation_statistics
  sq_stateUpdate :: accumulation_state_update
  sq_autoAccumulate :: gas_map
  sq_yieldedRoots :: yielded_roots

text \<open>Everything a call does before it calls itself: the arguments of the next call and what it adds.\<close>

record round_result =
  ro_next :: sequential_args
  ro_accumulated :: nat
  ro_gas :: int

definition accumulation_round ::
    "compatibility \<Rightarrow> chain_spec \<Rightarrow> privileged_services \<Rightarrow> single_service \<Rightarrow> sequential_args \<Rightarrow> nat \<Rightarrow> round_result run" where
  "accumulation_round cp spec privileged single a i =
    bindR (Some (new_accumulateData (take i (sq_reports a)) (sq_transfers a) (sq_autoAccumulate a))) (\<lambda>accumulateData.
    bindR (accumulateInParallel single accumulateData (sq_stateUpdate a)) (\<lambda>results.
    bindR (Some (updateStatistics cp results (sq_statistics a) accumulateData)) (\<lambda>statistics.
    bindR (Some (mergePerallelAccumulationResults spec privileged (sq_stateUpdate a) results)) (\<lambda>m.
    bindR (Some (tryAsU64 (sq_gasLimit a - mr_totalGasCost m))) (\<lambda>left.
    bindR (Some (sum_gas (left # map tr_gas (sq_transfers a)))) (\<lambda>newGasLimit.
      Some (Inr \<lparr>ro_next = \<lparr>sq_gasLimit = newGasLimit, sq_reports = drop i (sq_reports a),
            sq_transfers = mr_transfers m, sq_statistics = statistics, sq_stateUpdate = mr_state m,
            sq_autoAccumulate = [], sq_yieldedRoots = updateYieldedRoots results (sq_yieldedRoots a)\<rparr>,
          ro_accumulated = i, ro_gas = mr_totalGasCost m\<rparr>)))))))"

text \<open>The maps of statistics and yielded roots, which the calls change in place, are returned.\<close>

partial_function (option) accumulateSequentially ::
    "compatibility \<Rightarrow> chain_spec \<Rightarrow> privileged_services \<Rightarrow> single_service \<Rightarrow> sequential_args \<Rightarrow>
      (sequential_result \<times> accumulation_statistics \<times> yielded_roots) run" where
  "accumulateSequentially cp spec privileged single a =
    (let i = findReportCutoffIndex (sq_gasLimit a) (sq_reports a);
         n = length (sq_transfers a) + i + length (sq_autoAccumulate a) in
     if n = 0 then
       Some (Inr (\<lparr>sr_accumulatedReports = 0, sr_state = sq_stateUpdate a, sr_gasCost = 0\<rparr>, sq_statistics a, sq_yieldedRoots a))
     else case accumulation_round cp spec privileged single a i of
       None \<Rightarrow> None
     | Some (Inl e) \<Rightarrow> Some (Inl e)
     | Some (Inr r) \<Rightarrow>
         Option.bind (accumulateSequentially cp spec privileged single (ro_next r)) (\<lambda>rest.
           Some (bindE rest (\<lambda>(seq, statistics, yielded).
             bindE (tryAsU32 (int i + sr_accumulatedReports seq)) (\<lambda>accumulated.
             bindE (tryAsU64 (ro_gas r + sr_gasCost seq)) (\<lambda>gasCost.
               Inr (\<lparr>sr_accumulatedReports = accumulated, sr_state = sr_state seq, sr_gasCost = gasCost\<rparr>,
                 statistics, yielded)))))))"

section \<open>The transition\<close>

definition accumulate_gas_limit :: "chain_spec \<Rightarrow> accumulate_state \<Rightarrow> int throws" where
  "accumulate_gas_limit spec st =
    (let calculatedGasLimit = GAS_TO_INVOKE_WORK_REPORT * int (coresCount spec) +
         fold (\<lambda>gasLimit acc. acc + gasLimit) (map snd (pv_autoAccumulateServices (sl_privilegedServices (as_slice st)))) 0
     in tryAsU64 (if int (maxBlockGas spec) > calculatedGasLimit then int (maxBlockGas spec) else calculatedGasLimit))"

definition hasDuplicatedServiceIdCreated :: "service_id list \<Rightarrow> bool" where
  "hasDuplicatedServiceIdCreated createdIds \<longleftrightarrow> length (js_unique createdIds) \<noteq> length createdIds"

record accumulate_state_update =
  ac_timeslot :: nat
  ac_recentlyAccumulated :: "hash_list list"
  ac_accumulationQueue :: "not_yet_accumulated list list"
  ac_services :: services_update

text \<open>The queue after the block: its own slot, emptied slots that were skipped, the others pruned.\<close>

fun queue_loop :: "nat \<Rightarrow> nat \<Rightarrow> int \<Rightarrow> hash_list \<Rightarrow> nat \<Rightarrow> nat \<Rightarrow> not_yet_accumulated list list \<Rightarrow>
    not_yet_accumulated list list" where
  "queue_loop epochLen phaseIndex elapsed accumulatedSet 0 i queue = queue"
| "queue_loop epochLen phaseIndex elapsed accumulatedSet (Suc k) i queue =
    (let queueIndex = (phaseIndex + epochLen - i) mod epochLen in
     queue_loop epochLen phaseIndex elapsed accumulatedSet k (i + 1)
       (if int i < elapsed then queue[queueIndex := []]
        else queue[queueIndex := pruneQueue (queue ! queueIndex) accumulatedSet]))"

definition set_last_accumulation :: "nat \<Rightarrow> service_id \<Rightarrow> partial_state \<Rightarrow> partial_state" where
  "set_last_accumulation slot serviceId ps =
    (case ps_getServiceInfo ps (Some serviceId) of
       None \<Rightarrow> ps
     | Some info \<Rightarrow> ps_updateServiceInfo serviceId (info\<lparr>lastAccumulation := int slot\<rparr>) ps)"

definition getAccumulationStateUpdate ::
    "chain_spec \<Rightarrow> accumulate_state \<Rightarrow> work_report list \<Rightarrow> not_yet_accumulated list \<Rightarrow> nat \<Rightarrow> service_id list \<Rightarrow>
      services_update \<Rightarrow> accumulate_state_update throws" where
  "getAccumulationStateUpdate spec st accumulated toAccumulateLater slot accumulatedServices servicesUpdate =
    (let epochLen = epochLength spec;
         phaseIndex = slot mod epochLen;
         accumulatedSet = getWorkPackageHashes accumulated;
         accumulatedSorted = array_sort blob_compare accumulatedSet
     in bindE (tryAsPerEpochBlock (drop 1 (as_recentlyAccumulated st) @ [js_unique accumulatedSorted]) spec) (\<lambda>recent.
        let queue = queue_loop epochLen phaseIndex (int slot - int (as_timeslot st)) accumulatedSet (epochLen - 1) 1
              ((as_accumulationQueue st)[phaseIndex := pruneQueue toAccumulateLater accumulatedSet]);
            ps = fold (set_last_accumulation slot) accumulatedServices
              \<lparr>ps_state = as_slice st, ps_update = accumulation_new servicesUpdate\<rparr>
        in bindE (tryAsPerEpochBlock queue spec) (\<lambda>queue.
          Inr \<lparr>ac_timeslot = slot, ac_recentlyAccumulated = recent, ac_accumulationQueue = queue,
               ac_services = ps_services ps\<rparr>)))"

record accumulation_output =
  ao_serviceId :: service_id
  ao_output :: blob

definition accumulationOutputComparator :: "accumulation_output \<Rightarrow> accumulation_output \<Rightarrow> ordering" where
  "accumulationOutputComparator a b =
    (let result = ao_serviceId a - ao_serviceId b in
     if result < 0 then Less else if result > 0 then Greater else blob_compare (ao_output a) (ao_output b))"

record accumulate_result =
  ar_stateUpdate :: accumulate_state_update
  ar_validatorsData :: "validator_data list option"
  ar_privilegedServices :: "privileged_services option"
  ar_authQueues :: "blob list list option"
  ar_accumulationStatistics :: accumulation_statistics
  ar_accumulationOutputLog :: "accumulation_output list"

datatype accumulation_error = DuplicateServiceCreated

text \<open>An index past the end makes the array too long for \<open>tryAsPerCore\<close>.\<close>

definition set_core :: "nat \<times> blob list \<Rightarrow> blob list list \<Rightarrow> blob list list throws" where
  "set_core = (\<lambda>(core, queue) queues.
    if core < length queues then Inr (queues[core := queue]) else Inl AssertionFailure)"

definition merged_auth_queues :: "chain_spec \<Rightarrow> blob list list \<Rightarrow> (nat, blob list) jsmap \<Rightarrow> blob list list option throws" where
  "merged_auth_queues spec authQueues updates =
    (if length updates = 0 then Inr None
     else bindE (foldE set_core updates authQueues) (\<lambda>queues. bindE (tryAsPerCore queues spec) (\<lambda>q. Inr (Some q))))"

definition accumulatable_reports :: "chain_spec \<Rightarrow> accumulate_state \<Rightarrow> work_report list \<Rightarrow> nat \<Rightarrow> work_report list" where
  "accumulatable_reports spec st reports slot =
    (let q = \<lparr>aq_chainSpec = spec, aq_recentlyAccumulated = as_recentlyAccumulated st,
              aq_accumulationQueue = as_accumulationQueue st\<rparr>;
         toAccumulateImmediately = getWorkReportsToAccumulateImmediately reports;
         toEnqueue = pruneQueue (getQueueFromState q slot @ getWorkReportsToAccumulateLater q reports)
           (getWorkPackageHashes toAccumulateImmediately)
     in toAccumulateImmediately @ enqueueReports toEnqueue)"

definition finish_accumulation ::
    "chain_spec \<Rightarrow> accumulate_state \<Rightarrow> work_report list \<Rightarrow> not_yet_accumulated list \<Rightarrow> nat \<Rightarrow>
      sequential_result \<Rightarrow> accumulation_statistics \<Rightarrow> yielded_roots \<Rightarrow> (accumulation_error, accumulate_result) outcome" where
  "finish_accumulation spec st accumulatable toAccumulateLater slot seq statistics yieldedRoots =
    (let state = sr_state seq; services = au_services state in
     if hasDuplicatedServiceIdCreated (su_created services) then Inl (Failed DuplicateServiceCreated)
     else
       bindE (lift_throws (getAccumulationStateUpdate spec st (take (nat (sr_accumulatedReports seq)) accumulatable)
         toAccumulateLater slot (map fst statistics) services)) (\<lambda>accStateUpdate.
       let outputs = concat (map (\<lambda>(serviceId, roots). map (\<lambda>root. \<lparr>ao_serviceId = serviceId, ao_output = root\<rparr>) roots) yieldedRoots)
       in bindE (lift_throws (merged_auth_queues spec (as_authQueues st) (au_authorizationQueues state))) (\<lambda>authQueues.
         Inr \<lparr>ar_stateUpdate = accStateUpdate, ar_validatorsData = au_validatorsData state,
              ar_privilegedServices = au_privilegedServices state, ar_authQueues = authQueues,
              ar_accumulationStatistics = statistics,
              ar_accumulationOutputLog = sa_fromArray accumulationOutputComparator outputs\<rparr>)))"

definition accumulate_transition ::
    "compatibility \<Rightarrow> chain_spec \<Rightarrow> (blob \<Rightarrow> blob) \<Rightarrow> executor \<Rightarrow> accumulate_state \<Rightarrow> work_report list \<Rightarrow> nat \<Rightarrow> blob \<Rightarrow>
      (accumulation_error, accumulate_result) outcome option" where
  "accumulate_transition cp spec H exec st reports slot entropy =
    (let q = \<lparr>aq_chainSpec = spec, aq_recentlyAccumulated = as_recentlyAccumulated st,
              aq_accumulationQueue = as_accumulationQueue st\<rparr>;
         toAccumulateLater = getWorkReportsToAccumulateLater q reports;
         accumulatable = accumulatable_reports spec st reports slot
     in case accumulate_gas_limit spec st of
       Inl e \<Rightarrow> Some (Inl (Thrown e))
     | Inr gasLimit \<Rightarrow>
        (case accumulateSequentially cp spec (sl_privilegedServices (as_slice st))
            (accumulateSingleService spec H exec (as_slice st) slot entropy)
            \<lparr>sq_gasLimit = gasLimit, sq_reports = accumulatable, sq_transfers = [], sq_statistics = [],
             sq_stateUpdate = accumulation_empty,
             sq_autoAccumulate = pv_autoAccumulateServices (sl_privilegedServices (as_slice st)), sq_yieldedRoots = []\<rparr> of
          None \<Rightarrow> None
        | Some (Inl e) \<Rightarrow> Some (Inl (Thrown e))
        | Some (Inr (seq, statistics, yieldedRoots)) \<Rightarrow>
            Some (finish_accumulation spec st accumulatable toAccumulateLater slot seq statistics yieldedRoots)))"

section \<open>Service ids\<close>

interpretation id_tail: two_codecs "codec_bytes 32" "\<lambda>bs. bs" "\<lambda>bs. length bs = 32" codec_varU32 nat_bytes
  "\<lambda>n. 0 \<le> n \<and> n < 2 ^ 32"
  by (intro two_codecs.intro bytes.codec_axioms varU32.codec_axioms)

interpretation next_id: two_codecs codec_varU32 nat_bytes "\<lambda>n. 0 \<le> n \<and> n < 2 ^ 32"
  "codec_pair (codec_bytes 32) codec_varU32" "\<lambda>p. fst p @ nat_bytes (snd p)"
  "\<lambda>p. length (fst p) = 32 \<and> 0 \<le> snd p \<and> snd p < 2 ^ 32"
  by (intro two_codecs.intro varU32.codec_axioms id_tail.pair_codec)

interpretation next_id_codec: codec NEXT_ID_CODEC "\<lambda>p. nat_bytes (fst p) @ fst (snd p) @ nat_bytes (snd (snd p))"
  "\<lambda>p. (0 \<le> fst p \<and> fst p < 2 ^ 32) \<and> length (fst (snd p)) = 32 \<and> 0 \<le> snd (snd p) \<and> snd (snd p) < 2 ^ 32"
  using next_id.pair_codec by (simp add: NEXT_ID_CODEC_def)

text \<open>A new id is in the public range.\<close>

lemma generateNextServiceId_range:
  assumes "0 \<le> s" "s < 2 ^ 32" "length entropy = 32" "0 \<le> t" "t < 2 ^ 32" "\<And>x. length (H x) = 32"
  shows "\<exists>i. generateNextServiceId H s entropy t = Inr i \<and>
    MIN_PUBLIC_SERVICE_INDEX \<le> i \<and> i < MIN_PUBLIC_SERVICE_INDEX + public_ids"
proof -
  have "length (nat_bytes s @ entropy @ nat_bytes t) \<le> MAX_LENGTH"
    using extra_bytes_le [of s] extra_bytes_le [of t] assms(3) by (simp add: MAX_LENGTH_def)
  then have "encodeObject NEXT_ID_CODEC (s, entropy, t) = Inr (nat_bytes s @ entropy @ nat_bytes t)"
    using next_id_codec.encodeObject_eq(1) [of "(s, entropy, t)"] assms by simp
  moreover obtain n where n: "leBytesAsU32 (take 4 (H (nat_bytes s @ entropy @ nat_bytes t))) = Inr n"
    using assms(6) by (simp add: leBytesAsU32_eq)
  moreover have "0 \<le> n mod public_ids" "n mod public_ids < public_ids" by (simp_all add: public_ids_def MIN_PUBLIC_SERVICE_INDEX_def)
  moreover have "MIN_PUBLIC_SERVICE_INDEX + public_ids < 2 ^ 32" "0 \<le> MIN_PUBLIC_SERVICE_INDEX"
    by (simp_all add: public_ids_def MIN_PUBLIC_SERVICE_INDEX_def)
  ultimately show ?thesis by (simp add: generateNextServiceId_def tryAs_Inr_iff)
qed

section \<open>Cutting off the reports\<close>

definition report_gas :: "work_report \<Rightarrow> int" where
  "report_gas report = (\<Sum>result\<leftarrow>wr_results report. int (re_gas result))"

lemma results_gas: "fold (\<lambda>b a. a + b) (map (\<lambda>result. int (re_gas result)) rs) x = x + (\<Sum>result\<leftarrow>rs. int (re_gas result))"
  by (induction rs arbitrary: x) simp_all

lemma cutoff_loop_eq:
  "cutoff_loop g reports i c = i + cutoff_loop (g - c) reports 0 0"
proof (induction reports arbitrary: g i c)
  case (Cons r rs)
  have "cutoff_loop (g - c) rs 1 (report_gas r) = 1 + cutoff_loop (g - c - report_gas r) rs 0 0" by (rule Cons.IH)
  moreover have "cutoff_loop g rs (i + 1) (c + report_gas r) = i + 1 + cutoff_loop (g - (c + report_gas r)) rs 0 0"
    by (rule Cons.IH)
  ultimately show ?case unfolding cutoff_loop.simps Let_def results_gas report_gas_def by (simp add: algebra_simps)
qed simp

lemma cutoff_Cons: "findReportCutoffIndex g (r # rs) =
    (if report_gas r > g then 0 else Suc (findReportCutoffIndex (g - report_gas r) rs))"
  using cutoff_loop_eq [of g rs 1 "report_gas r"]
  by (simp add: findReportCutoffIndex_def Let_def results_gas report_gas_def)

lemma cutoff_Nil [simp]: "findReportCutoffIndex g [] = 0"
  by (simp add: findReportCutoffIndex_def)

lemma cutoff_spec:
  "findReportCutoffIndex g rs \<le> length rs"
  "0 \<le> g \<Longrightarrow> (\<Sum>r\<leftarrow>take (findReportCutoffIndex g rs) rs. report_gas r) \<le> g"
  "findReportCutoffIndex g rs < length rs \<Longrightarrow> (\<Sum>r\<leftarrow>take (Suc (findReportCutoffIndex g rs)) rs. report_gas r) > g"
proof (induction rs arbitrary: g)
  case (Cons r rs)
  { case 1 show ?case using Cons.IH(1) [of "g - report_gas r"] by (auto simp: cutoff_Cons) }
  { case 2 then show ?case using Cons.IH(2) [of "g - report_gas r"] by (auto simp: cutoff_Cons) }
  { case 3 then show ?case using Cons.IH(3) [of "g - report_gas r"] by (auto simp: cutoff_Cons split: if_splits) }
qed simp_all

section \<open>A round\<close>

lemma bindR_Inr: "bindR m f = Some (Inr y) \<longleftrightarrow> (\<exists>x. m = Some (Inr x) \<and> f x = Some (Inr y))"
  by (auto simp: bindR_def split: option.splits sum.splits)

lemma bindR_None: "bindR m f = None \<longleftrightarrow> m = None \<or> (\<exists>x. m = Some (Inr x) \<and> f x = None)"
  by (auto simp: bindR_def split: option.splits sum.splits)

text \<open>A transfer cannot be sent without paying its gas and ten units more.\<close>

definition paid :: "pending_transfer list \<Rightarrow> int \<Rightarrow> bool" where
  "paid ts g \<longleftrightarrow> (\<forall>t \<in> set ts. 0 \<le> tr_gas t) \<and> (\<Sum>t\<leftarrow>ts. tr_gas t + 10) \<le> g"

definition metered_single :: "single_service \<Rightarrow> bool" where
  "metered_single single \<longleftrightarrow> (\<forall>s ts ops g u r. au_transfers u = [] \<and> single s ts ops g u = Some (Inr r) \<longrightarrow>
    0 \<le> si_consumedGas r \<and> (\<forall>v. si_stateUpdate r = Some v \<longrightarrow> paid (au_transfers v) (si_consumedGas r)))"

lemma parallel_ids: "parallel_loop single d u ids = Some (Inr results) \<Longrightarrow> map fst results = ids"
  by (induction ids arbitrary: results) (auto simp: bindR_Inr)

lemma paid_Nil [simp]: "paid [] g \<longleftrightarrow> 0 \<le> g"
  by (simp add: paid_def)

lemma parallel_paid:
  assumes "metered_single single" "au_transfers u = []" "parallel_loop single d u ids = Some (Inr results)"
  shows "\<forall>(_, r) \<in> set results. 0 \<le> rv_consumedGas r \<and> paid (au_transfers (rv_stateUpdate r)) (rv_consumedGas r)"
  using assms(3)
proof (induction ids arbitrary: results)
  case (Cons s ids)
  then obtain r rest where r: "single s (getTransfers d s) (getOperands d s) (getGasLimit d s) u = Some (Inr r)"
    "parallel_loop single d u ids = Some (Inr rest)"
    "results = (s, \<lparr>rv_consumedGas = si_consumedGas r,
        rv_stateUpdate = (case si_stateUpdate r of None \<Rightarrow> u | Some u \<Rightarrow> u)\<rparr>) # rest"
    by (auto simp: bindR_Inr)
  have "0 \<le> si_consumedGas r" "\<And>v. si_stateUpdate r = Some v \<Longrightarrow> paid (au_transfers v) (si_consumedGas r)"
    using assms(1,2) r(1) unfolding metered_single_def by blast+
  then show ?case using Cons.IH [OF r(2)] assms(2) by (auto simp: r(3) split: option.split)
qed simp

lemma paid_concat:
  "\<forall>(_, r) \<in> set results. paid (au_transfers (rv_stateUpdate r)) (rv_consumedGas r) \<Longrightarrow>
    paid (concat (map (\<lambda>(_, r). au_transfers (rv_stateUpdate r)) results)) (\<Sum>(_, r)\<leftarrow>results. rv_consumedGas r)"
  by (induction results) (auto simp: paid_def)

lemma paid_sum: "paid ts g \<Longrightarrow> (\<Sum>t\<leftarrow>ts. tr_gas t) + 10 * int (length ts) \<le> g"
proof -
  have "(\<Sum>t\<leftarrow>ts. tr_gas t + 10) = (\<Sum>t\<leftarrow>ts. tr_gas t) + 10 * int (length ts)" by (induction ts) simp_all
  then show "paid ts g \<Longrightarrow> (\<Sum>t\<leftarrow>ts. tr_gas t) + 10 * int (length ts) \<le> g" by (simp add: paid_def)
qed

text \<open>The gas a call may still hand out: its limit and what its transfers bring.\<close>

definition gas_in_play :: "sequential_args \<Rightarrow> int" where
  "gas_in_play a = sq_gasLimit a + (\<Sum>t\<leftarrow>sq_transfers a. tr_gas t)"

definition good_args :: "sequential_args \<Rightarrow> bool" where
  "good_args a \<longleftrightarrow> 0 \<le> sq_gasLimit a \<and> (\<forall>t \<in> set (sq_transfers a). 0 \<le> tr_gas t) \<and>
    gas_in_play a < 2 ^ 64 - 1 \<and> au_transfers (sq_stateUpdate a) = []"

lemma new_accumulateData_ids:
  assumes "new_accumulateData reports transfers auto = Inr d"
  shows "distinct (ad_serviceIds d)"
  using assms by (auto simp: new_accumulateData_def Let_def bindE_Inr_iff mergeServiceIds_eq)

lemma round_progress:
  assumes "metered_single single" "good_args a" "accumulation_round cp spec privileged single a i = Some (Inr r)"
  shows "good_args (ro_next r)" "sq_reports (ro_next r) = drop i (sq_reports a)" "sq_autoAccumulate (ro_next r) = []"
    "gas_in_play (ro_next r) + 10 * int (length (sq_transfers (ro_next r))) \<le> gas_in_play a"
proof -
  from assms(3) obtain d results st m left g where
    d: "new_accumulateData (take i (sq_reports a)) (sq_transfers a) (sq_autoAccumulate a) = Inr d"
    and results: "accumulateInParallel single d (sq_stateUpdate a) = Some (Inr results)"
    and m: "mergePerallelAccumulationResults spec privileged (sq_stateUpdate a) results = Inr m"
    and left: "tryAsU64 (sq_gasLimit a - mr_totalGasCost m) = Inr left"
    and g: "sum_gas (left # map tr_gas (sq_transfers a)) = Inr g"
    and r: "ro_next r = \<lparr>sq_gasLimit = g, sq_reports = drop i (sq_reports a),
      sq_transfers = mr_transfers m, sq_statistics = st, sq_stateUpdate = mr_state m,
      sq_autoAccumulate = [], sq_yieldedRoots = updateYieldedRoots results (sq_yieldedRoots a)\<rparr>"
    unfolding accumulation_round_def bindR_Inr by auto
  have a: "0 \<le> sq_gasLimit a" "\<forall>t \<in> set (sq_transfers a). 0 \<le> tr_gas t" "gas_in_play a < 2 ^ 64 - 1"
    "au_transfers (sq_stateUpdate a) = []" using assms(2) by (auto simp: good_args_def)
  note loop = results [unfolded accumulateInParallel_def]
  have pays: "\<forall>(_, r) \<in> set results. 0 \<le> rv_consumedGas r \<and> paid (au_transfers (rv_stateUpdate r)) (rv_consumedGas r)"
    by (rule parallel_paid [OF assms(1) a(4) loop])
  have "merge_facts (sq_stateUpdate a) results m"
    using pays by (intro merge_spec [OF m]) (auto simp: parallel_ids [OF loop] new_accumulateData_ids [OF d])
  then have facts: "mr_transfers m = concat (map (\<lambda>(_, r). au_transfers (rv_stateUpdate r)) results)"
    "mr_totalGasCost m = sat (\<Sum>(_, r)\<leftarrow>results. rv_consumedGas r)" "au_transfers (mr_state m) = []"
    by (simp_all add: merge_facts_def a(4))
  let ?total = "\<Sum>(_, r)\<leftarrow>results. rv_consumedGas r" and ?in = "\<Sum>t\<leftarrow>sq_transfers a. tr_gas t"
  have paid: "paid (mr_transfers m) ?total" unfolding facts(1) by (rule paid_concat) (use pays in blast)
  have in_nonneg: "0 \<le> ?in" using a(2) by (auto intro!: sum_list_nonneg)
  then have "sat ?total \<le> sq_gasLimit a" "sq_gasLimit a < 2 ^ 64 - 1"
    using left a(3) by (simp_all add: tryAs_Inr_iff facts(2) gas_in_play_def)
  then have total: "sat ?total = ?total" "left = sq_gasLimit a - ?total" "0 \<le> left" "0 \<le> ?total"
    using left pays by (auto simp: sat_def tryAs_Inr_iff facts(2) intro!: sum_list_nonneg)
  have "sum_gas (left # map tr_gas (sq_transfers a)) = Inr (sat (left + ?in))"
    using a(2) total(3) by (subst sum_gas_eq) auto
  then have g_eq: "g = left + ?in" using g a(3) total by (simp add: sat_def gas_in_play_def)
  have sum: "(\<Sum>t\<leftarrow>mr_transfers m. tr_gas t) + 10 * int (length (mr_transfers m)) \<le> ?total"
    by (rule paid_sum [OF paid])
  show "sq_reports (ro_next r) = drop i (sq_reports a)" "sq_autoAccumulate (ro_next r) = []" by (simp_all add: r)
  show less: "gas_in_play (ro_next r) + 10 * int (length (sq_transfers (ro_next r))) \<le> gas_in_play a"
    using sum by (simp add: r gas_in_play_def g_eq total(2))
  have "0 \<le> 10 * int (length (sq_transfers (ro_next r)))" by simp
  then have "gas_in_play (ro_next r) < 2 ^ 64 - 1" using less a(3) by linarith
  then show "good_args (ro_next r)"
    using paid in_nonneg total(3) by (simp add: good_args_def r facts(3) g_eq paid_def)
qed

text \<open>The calls a call leads to, and the hypothesis that in each of them the accumulated services return.\<close>

definition later_call :: "compatibility \<Rightarrow> chain_spec \<Rightarrow> privileged_services \<Rightarrow> single_service \<Rightarrow> sequential_args \<Rightarrow> sequential_args \<Rightarrow> bool" where
  "later_call cp spec privileged single a b \<longleftrightarrow>
    (let i = findReportCutoffIndex (sq_gasLimit a) (sq_reports a) in
     length (sq_transfers a) + i + length (sq_autoAccumulate a) \<noteq> 0 \<and>
     (\<exists>r. accumulation_round cp spec privileged single a i = Some (Inr r) \<and> b = ro_next r))"

definition services_return :: "compatibility \<Rightarrow> chain_spec \<Rightarrow> privileged_services \<Rightarrow> single_service \<Rightarrow> sequential_args \<Rightarrow> bool" where
  "services_return cp spec privileged single a \<longleftrightarrow>
    (\<forall>b d. (later_call cp spec privileged single)\<^sup>*\<^sup>* a b \<and>
      new_accumulateData (take (findReportCutoffIndex (sq_gasLimit b) (sq_reports b)) (sq_reports b))
        (sq_transfers b) (sq_autoAccumulate b) = Inr d \<longrightarrow>
      accumulateInParallel single d (sq_stateUpdate b) \<noteq> None)"

lemma round_returns:
  "services_return cp spec privileged single a \<Longrightarrow>
    accumulation_round cp spec privileged single a (findReportCutoffIndex (sq_gasLimit a) (sq_reports a)) \<noteq> None"
  by (auto simp: accumulation_round_def bindR_None services_return_def)

lemma services_return_later:
  "services_return cp spec privileged single a \<Longrightarrow> later_call cp spec privileged single a b \<Longrightarrow>
    services_return cp spec privileged single b"
  unfolding services_return_def by (blast intro: converse_rtranclp_into_rtranclp)

text \<open>
  Every call gives away gas, accumulates reports, or is followed by a call with neither transfers nor
  services that always accumulate, which is the last one or accumulates reports.
\<close>

definition call_measure :: "sequential_args \<Rightarrow> nat \<times> nat \<times> nat" where
  "call_measure a = (nat (gas_in_play a), length (sq_reports a), length (sq_autoAccumulate a) + length (sq_transfers a))"

definition call_less :: "(sequential_args \<times> sequential_args) set" where
  "call_less = inv_image (less_than <*lex*> less_than <*lex*> less_than) call_measure"

lemma wf_call_less: "wf call_less"
  by (auto simp: call_less_def)

lemma round_decreases:
  assumes "metered_single single" "good_args a" "i = findReportCutoffIndex (sq_gasLimit a) (sq_reports a)"
    "accumulation_round cp spec privileged single a i = Some (Inr r)"
    "length (sq_transfers a) + i + length (sq_autoAccumulate a) \<noteq> 0"
  shows "(ro_next r, a) \<in> call_less"
proof -
  note p = round_progress [OF assms(1,2,4)]
  have nonneg: "0 \<le> gas_in_play (ro_next r)"
    using p(1) by (auto simp: good_args_def gas_in_play_def intro!: add_nonneg_nonneg sum_list_nonneg)
  have i: "i \<le> length (sq_reports a)" using cutoff_spec(1) by (simp add: assms(3))
  show ?thesis
  proof (cases "sq_transfers (ro_next r) = []")
    case False
    then have "0 < int (length (sq_transfers (ro_next r)))" by simp
    then have "gas_in_play (ro_next r) < gas_in_play a" using p(4) by linarith
    then show ?thesis using nonneg by (simp add: call_less_def call_measure_def)
  next
    case True
    then have "gas_in_play (ro_next r) \<le> gas_in_play a" using p(4) by simp
    then show ?thesis using True p(2,3) nonneg assms(5) i
      by (auto simp: call_less_def call_measure_def)
  qed
qed

lemma sequential_unfold:
  "accumulateSequentially cp spec privileged single a =
    (let i = findReportCutoffIndex (sq_gasLimit a) (sq_reports a);
         n = length (sq_transfers a) + i + length (sq_autoAccumulate a) in
     if n = 0 then
       Some (Inr (\<lparr>sr_accumulatedReports = 0, sr_state = sq_stateUpdate a, sr_gasCost = 0\<rparr>, sq_statistics a, sq_yieldedRoots a))
     else case accumulation_round cp spec privileged single a i of
       None \<Rightarrow> None
     | Some (Inl e) \<Rightarrow> Some (Inl e)
     | Some (Inr r) \<Rightarrow>
         Option.bind (accumulateSequentially cp spec privileged single (ro_next r)) (\<lambda>rest.
           Some (bindE rest (\<lambda>(seq, statistics, yielded).
             bindE (tryAsU32 (int i + sr_accumulatedReports seq)) (\<lambda>accumulated.
             bindE (tryAsU64 (ro_gas r + sr_gasCost seq)) (\<lambda>gasCost.
               Inr (\<lparr>sr_accumulatedReports = accumulated, sr_state = sr_state seq, sr_gasCost = gasCost\<rparr>,
                 statistics, yielded)))))))"
  by (rule accumulateSequentially.simps)

lemma sequential_returns:
  assumes "metered_single single" "services_return cp spec privileged single a" "good_args a"
  shows "accumulateSequentially cp spec privileged single a \<noteq> None"
  using assms(2,3)
proof (induction a rule: wf_induct_rule [OF wf_call_less])
  case (1 a)
  let ?i = "findReportCutoffIndex (sq_gasLimit a) (sq_reports a)"
  show ?case
  proof (cases "length (sq_transfers a) + ?i + length (sq_autoAccumulate a) = 0")
    case False
    obtain o1 where o1: "accumulation_round cp spec privileged single a ?i = Some o1"
      using round_returns [OF "1.prems"(1)] by blast
    show ?thesis
    proof (cases o1)
      case (Inr r)
      with o1 have round: "accumulation_round cp spec privileged single a ?i = Some (Inr r)" by simp
      have "later_call cp spec privileged single a (ro_next r)" using False round by (auto simp: later_call_def Let_def)
      then have "services_return cp spec privileged single (ro_next r)" by (rule services_return_later [OF "1.prems"(1)])
      then have "accumulateSequentially cp spec privileged single (ro_next r) \<noteq> None"
        by (rule "1.IH" [OF round_decreases [OF assms(1) "1.prems"(2) refl round False] _
              round_progress(1) [OF assms(1) "1.prems"(2) round]])
      then show ?thesis using False by (subst sequential_unfold) (auto simp: round Let_def)
    qed (subst sequential_unfold, use False o1 in \<open>simp add: Let_def\<close>)
  qed (subst sequential_unfold, simp add: Let_def)
qed

end
