(* ===== verification/Commit.thy ===== *)
theory Commit
  imports PartialState
begin

text \<open>
  Committing an update: after \<open>InMemoryState.applyUpdate\<close> the services hold what the partially
  updated state answered while the update was collected. The update must have no key twice, which
  the maps of the code guarantee.
\<close>

lemma hex_inj: "bytesToHexString a = bytesToHexString b \<longleftrightarrow> a = b"
  by (metis Inr_inject parseBlob_toString)

definition proper_update :: "services_update \<Rightarrow> bool" where
  "proper_update su \<longleftrightarrow> distinct (map fst (su_updated su)) \<and> distinct (map fst (su_storage su)) \<and>
    distinct (su_removed su) \<and> (\<forall>(s, us) \<in> set (su_storage su). distinct (map ust_key us))"

section \<open>The stages\<close>

definition updated_service :: "update_service option \<Rightarrow> in_memory_service option \<Rightarrow> in_memory_service option" where
  "updated_service u s =
    (case u of
       None \<Rightarrow> s
     | Some (US_Create account lookupHistory) \<Rightarrow> Some (new_service account lookupHistory)
     | Some (US_Update account) \<Rightarrow> map_option (\<lambda>x. x\<lparr>sd_info := account\<rparr>) s)"

lemma updateServices_spec:
  assumes "updateServices svcs us = (svcs', Inr ())" "distinct (map fst us)"
  shows "jm_get svcs' s = updated_service (map_of us s) (jm_get svcs s) \<and>
    (case map_of us s of
       Some (US_Create a l) \<Rightarrow> jm_get svcs s = None
     | Some (US_Update a) \<Rightarrow> jm_get svcs s \<noteq> None
     | None \<Rightarrow> True)"
  using assms
proof (induction svcs us rule: updateServices.induct)
  case (2 svcs i a l us)
  from "2.prems" have notin: "map_of us i = None" by (auto simp: map_of_eq_None_iff)
  from 2 notin show ?case
    by (cases "s = i") (auto simp: updated_service_def simp del: map_of_eq_Some_iff split: if_splits option.splits update_service.splits)
next
  case (3 svcs i a us)
  from "3.prems" have notin: "map_of us i = None" by (auto simp: map_of_eq_None_iff)
  from 3 notin show ?case
    by (cases "s = i") (auto simp: updated_service_def simp del: map_of_eq_Some_iff split: option.splits update_service.splits)
qed (simp add: updated_service_def)

text \<open>Preimages change neither accounts nor storage.\<close>

lemma one_slot: "tryAsLookupHistorySlots [t] = Inr [t]"
  by (simp add: tryAsLookupHistorySlots_def MAX_LOOKUP_HISTORY_SLOTS_def)

lemma updatePreimage_frame:
  assumes "updatePreimage v u = Inr v'"
  shows "sd_info v' = sd_info v \<and> sd_storage v' = sd_storage v"
proof (cases u)
  case (UP_Provide p slot f)
  show ?thesis
  proof (cases slot)
    case (Some t)
    have "\<exists>a b. v\<lparr>sd_preimages := a, sd_lookupHistory := b\<rparr> = v'"
      using assms unfolding UP_Provide Some by (simp add: Let_def one_slot split: if_splits) blast
    then show ?thesis by (elim exE) (drule sym, simp)
  qed (use assms UP_Provide in \<open>auto simp: Let_def split: if_splits\<close>)
next
  case (UP_Remove h len)
  with assms show ?thesis by (cases "jm_get (sd_lookupHistory v) h") (auto simp: Let_def)
next
  case (UP_UpdateOrAdd item)
  with assms show ?thesis by (auto simp: Let_def)
qed

lemma updatePreimages_of_frame:
  "sd_info (fst (updatePreimages_of v us)) = sd_info v \<and> sd_storage (fst (updatePreimages_of v us)) = sd_storage v"
proof (induction us arbitrary: v)
  case (Cons u us)
  show ?case
  proof (cases "updatePreimage v u")
    case (Inr v1)
    with Cons.IH [of v1] updatePreimage_frame [OF Inr] show ?thesis by simp
  qed simp
qed simp

definition same_but_preimages :: "services \<Rightarrow> services \<Rightarrow> bool" where
  "same_but_preimages a b \<longleftrightarrow>
    (\<forall>s. map_option (\<lambda>v. (sd_info v, sd_storage v)) (jm_get a s) = map_option (\<lambda>v. (sd_info v, sd_storage v)) (jm_get b s))"

lemma updatePreimages_frame: "fst (updatePreimages svcs us) = svcs' \<Longrightarrow> same_but_preimages svcs svcs'"
proof (induction svcs us rule: updatePreimages.induct)
  case (2 svcs i updates us)
  show ?case
  proof (cases "jm_get svcs i")
    case None
    with 2 show ?thesis by (simp add: same_but_preimages_def)
  next
    case (Some v)
    obtain v1 r where v1: "updatePreimages_of v updates = (v1, r)" by (cases "updatePreimages_of v updates")
    have frame: "sd_info v1 = sd_info v \<and> sd_storage v1 = sd_storage v"
      using updatePreimages_of_frame [of v updates] v1 by simp
    then have "same_but_preimages svcs (jm_set svcs i v1)" using Some by (simp add: same_but_preimages_def)
    moreover have "same_but_preimages (jm_set svcs i v1) svcs'"
      using 2 Some v1 by (cases r) (auto simp: same_but_preimages_def)
    ultimately show ?thesis by (simp add: same_but_preimages_def)
  qed
qed (simp add: same_but_preimages_def)

definition stored :: "services \<Rightarrow> service_id \<Rightarrow> blob \<Rightarrow> blob option" where
  "stored svcs s k = Option.bind (jm_get svcs s) (\<lambda>v. sv_getStorage v k)"

lemma updateStorage_of_spec:
  assumes "updateStorage_of svcs s us = (svcs', Inr ())" "distinct (map ust_key us)"
  shows "(\<forall>s'. map_option sd_info (jm_get svcs' s') = map_option sd_info (jm_get svcs s')) \<and>
    (\<forall>s' k. stored svcs' s' k =
      (if s' = s then (case List.find (\<lambda>u. ust_key u = k) us of None \<Rightarrow> stored svcs s k | Some u \<Rightarrow> ust_value u)
       else stored svcs s' k))"
  using assms
proof (induction us arbitrary: svcs)
  case (Cons u us)
  from Cons.prems obtain v where v: "jm_get svcs s = Some v" by (auto split: option.splits)
  have none: "List.find (\<lambda>w. ust_key w = ust_key u) us = None"
    using Cons.prems(2) by (simp add: find_None_iff) (metis imageI)
  show ?case
  proof (cases u)
    case (UST_Set item)
    let ?svcs = "jm_set svcs s (v\<lparr>sd_storage := jm_set (sd_storage v) (bytesToHexString (si_key item)) item\<rparr>)"
    have "updateStorage_of ?svcs s us = (svcs', Inr ())" using Cons.prems(1) v UST_Set by simp
    with Cons.IH [OF this] Cons.prems(2) v UST_Set none show ?thesis
      by (auto simp: stored_def sv_getStorage_def hex_inj split: option.splits)
  next
    case (UST_Remove key)
    let ?svcs = "jm_set svcs s (v\<lparr>sd_storage := jm_delete (sd_storage v) (bytesToHexString key)\<rparr>)"
    have "updateStorage_of ?svcs s us = (svcs', Inr ())" using Cons.prems(1) v UST_Remove by (auto split: if_splits)
    with Cons.IH [OF this] Cons.prems(2) v UST_Remove none show ?thesis
      by (auto simp: stored_def sv_getStorage_def hex_inj split: option.splits)
  qed
qed simp

lemma updateStorage_spec:
  assumes "updateStorage svcs us = (svcs', Inr ())" "distinct (map fst us)" "\<forall>(s, vs) \<in> set us. distinct (map ust_key vs)"
  shows "(\<forall>s. map_option sd_info (jm_get svcs' s) = map_option sd_info (jm_get svcs s)) \<and>
    (\<forall>s k. stored svcs' s k =
      (case List.find (\<lambda>u. ust_key u = k) (jm_get_or us s []) of None \<Rightarrow> stored svcs s k | Some u \<Rightarrow> ust_value u))"
  using assms
proof (induction us arbitrary: svcs)
  case (Cons p us)
  obtain s vs where p: "p = (s, vs)" by (cases p)
  obtain svcs1 where one: "updateStorage_of svcs s vs = (svcs1, Inr ())" and rest: "updateStorage svcs1 us = (svcs', Inr ())"
    using Cons.prems(1) p by (auto split: prod.splits sum.splits)
  have notin: "map_of us s = None" using Cons.prems(2) p by (auto simp: map_of_eq_None_iff)
  note IH = Cons.IH [OF rest]
  show ?case
    using IH Cons.prems p notin updateStorage_of_spec [OF one]
    by (auto simp: jm_get_or_def split: option.splits)
qed (simp add: jm_get_or_def)

lemma removeServices_spec:
  "removeServices svcs ids = (svcs', Inr ()) \<Longrightarrow> jm_get svcs' s = (if s \<in> set ids then None else jm_get svcs s)"
  by (induction svcs ids rule: removeServices.induct) (auto split: if_splits)

section \<open>The whole update\<close>

lemma and_then_Inr: "and_then r f = (svcs, Inr ()) \<longleftrightarrow> (\<exists>svcs1. r = (svcs1, Inr ()) \<and> f svcs1 = (svcs, Inr ()))"
  by (auto simp: and_then_def split: prod.splits sum.splits)

lemma commit_spec:
  assumes "applyServicesUpdate (sl_services (ps_state ps)) (ps_services ps) = (svcs, Inr ())" "proper_update (ps_services ps)"
  shows "map_option sd_info (jm_get svcs s) = ps_getServiceInfo ps (Some s)"
    and "s \<notin> set (su_removed (ps_services ps)) \<Longrightarrow> stored svcs s k = ps_getStorage ps s k"
proof -
  let ?su = "ps_services ps" and ?svcs = "sl_services (ps_state ps)"
  obtain s1 s2 s3 where stages: "updateServices ?svcs (su_updated ?su) = (s1, Inr ())"
    "updatePreimages s1 (su_preimages ?su) = (s2, Inr ())" "updateStorage s2 (su_storage ?su) = (s3, Inr ())"
    "removeServices s3 (su_removed ?su) = (svcs, Inr ())"
    using assms(1) by (auto simp: applyServicesUpdate_def and_then_Inr)
  have dist: "distinct (map fst (su_updated ?su))" "distinct (map fst (su_storage ?su))"
    "\<forall>(s, us) \<in> set (su_storage ?su). distinct (map ust_key us)"
    using assms(2) by (auto simp: proper_update_def)
  note one = updateServices_spec [OF stages(1) dist(1), of s]
  have two: "map_option (\<lambda>v. (sd_info v, sd_storage v)) (jm_get s1 s) = map_option (\<lambda>v. (sd_info v, sd_storage v)) (jm_get s2 s)"
    using updatePreimages_frame [of s1 "su_preimages ?su" s2] stages(2) by (simp add: same_but_preimages_def)
  note three = updateStorage_spec [OF stages(3) dist(2,3)]
  note four = removeServices_spec [OF stages(4), of s]
  have info2: "map_option sd_info (jm_get s2 s) = map_option sd_info (jm_get s1 s)"
    and stored2: "stored s2 s k = stored s1 s k"
    using two by (auto simp: stored_def sv_getStorage_def map_option_case split: option.splits)
  have stored1: "stored s1 s k = stored ?svcs s k"
    using one by (auto simp: stored_def updated_service_def new_service_def sv_getStorage_def
        split: option.splits update_service.splits)
  show "map_option sd_info (jm_get svcs s) = ps_getServiceInfo ps (Some s)"
    using one three four info2
    by (auto simp: ps_getServiceInfo_def updated_service_def new_service_def option.map_comp comp_def
        split: option.splits update_service.splits)
  show "stored svcs s k = ps_getStorage ps s k" if "s \<notin> set (su_removed ?su)"
    using three four that stored1 stored2
    by (auto simp: ps_getStorage_def stored_def split: option.splits)
qed

end
