(* ===== verification/Accounting.thy ===== *)
theory Accounting
  imports Ledger Commit
begin

text \<open>
  Further promises of the externalities: a write changes one storage entry and exactly its share of
  the utilisation; the updates a run collects can be committed and give back what the services read;
  and three behaviours that look unintended.
\<close>

section \<open>Writing to storage\<close>

definition entry_bytes :: "blob \<Rightarrow> blob option \<Rightarrow> int" where
  "entry_bytes k v = (case v of None \<Rightarrow> 0 | Some b \<Rightarrow> 34 + int (length k) + int (length b))"

definition entry_count :: "blob option \<Rightarrow> int" where
  "entry_count v = (case v of None \<Rightarrow> 0 | Some _ \<Rightarrow> 1)"

text \<open>The account after an entry changes from \<open>old\<close> to \<open>new\<close>.\<close>

definition account_entry :: "service_account_info \<Rightarrow> blob \<Rightarrow> blob option \<Rightarrow> blob option \<Rightarrow> service_account_info" where
  "account_entry i k old new = i\<lparr>
    storageUtilisationBytes := storageUtilisationBytes i + entry_bytes k new - entry_bytes k old,
    storageUtilisationCount := storageUtilisationCount i + entry_count new - entry_count old\<rparr>"

abbreviation current_entry :: "externalities \<Rightarrow> blob \<Rightarrow> blob option" where
  "current_entry e k \<equiv> ps_getStorage (ex_updatedState e) (ex_currentServiceId e) k"

definition written :: "externalities \<Rightarrow> blob \<Rightarrow> blob option \<Rightarrow> service_account_info \<Rightarrow> externalities" where
  "written e k v i = e\<lparr>ex_updatedState := ps_updateStorage (ex_currentServiceId e) k v
    (ps_updateServiceInfo (ex_currentServiceId e) i (ex_updatedState e))\<rparr>"

lemma ext_write_eq:
  assumes "ps_getServiceInfo (ex_updatedState e) (Some (ex_currentServiceId e)) = Some i"
  shows "ext_write e k v =
    (let i' = account_entry i k (current_entry e k) v in
     if storageUtilisationCount i' < 0 \<or> storageUtilisationBytes i' < 0 then Inl (Thrown AssertionFailure)
     else if storageUtilisationCount i' \<ge> 2 ^ 32 \<or> storageUtilisationBytes i' \<ge> 2 ^ 64 \<or> balance i < threshold i'
     then Inl (Failed StorageFull)
     else Inr (written e k v i', map_option length (current_entry e k)))"
proof -
  have cur: "getCurrentServiceInfo e = Inr i" using assms by simp
  show ?thesis
    unfolding ext_write_def cur ext_read_def account_entry_def written_def entry_bytes_def entry_count_def opt_length_def
      BASE_STORAGE_BYTES_def
    by (cases "current_entry e k"; cases v) (auto simp: Let_def utilisation_eq algebra_simps)
qed

lemma written_reads:
  assumes "ps_getServiceInfo (ex_updatedState e) (Some (ex_currentServiceId e)) = Some j"
  shows "ps_getStorage (ex_updatedState (written e k v i)) s k' =
      (if s = ex_currentServiceId e \<and> k' = k then v else ps_getStorage (ex_updatedState e) s k')"
    and "ps_getServiceInfo (ex_updatedState (written e k v i)) =
      (ps_getServiceInfo (ex_updatedState e))(Some (ex_currentServiceId e) \<mapsto> i)"
  using assms by (simp_all add: written_def partial_reads current_not_removed)

section \<open>The update of a run can be committed\<close>

lemma distinct_splice_replace:
  "f x = k \<Longrightarrow> distinct (map f xs) \<Longrightarrow> distinct (map f (splice_replace (\<lambda>y. f y = k) x xs))"
  by (rule splice_replace_cases [of xs "\<lambda>y. f y = k" x]) auto

lemma in_update: "p \<in> set (AList.update k v al) \<Longrightarrow> p = (k, v) \<or> p \<in> set al"
  by (induction al) (auto split: if_splits)

lemma proper_updateStorage:
  assumes "proper_update (ps_services ps)"
  shows "proper_update (ps_services (ps_updateStorage s k v ps))"
proof -
  have "distinct (map ust_key (jm_get_or (su_storage (ps_services ps)) s []))"
    using assms by (auto simp: proper_update_def jm_get_or_def split: option.split dest: map_of_SomeD)
  then have "distinct (map ust_key (splice_replace (\<lambda>x. ust_key x = k)
      (case v of None \<Rightarrow> UST_Remove k | Some b \<Rightarrow> UST_Set \<lparr>si_key = k, si_value = b\<rparr>)
      (jm_get_or (su_storage (ps_services ps)) s [])))"
    by (intro distinct_splice_replace) (auto split: option.split)
  with assms show ?thesis
    by (auto simp: proper_update_def ps_updateStorage_def Let_def distinct_update dest!: in_update)
qed

lemma proper_updates:
  assumes "proper_update (ps_services ps)"
  shows "proper_update (ps_services (ps_updatePreimage s u ps))"
    "proper_update (ps_services (ps_updateServiceInfo s i ps))"
    "proper_update (ps_services (ps_createService s i l ps))"
  using assms
  by (simp_all add: proper_update_def ps_updatePreimage_def ps_updateServiceInfo_def ps_createService_def distinct_update)

abbreviation proper :: "externalities \<Rightarrow> bool" where
  "proper e \<equiv> proper_update (ps_services (ex_updatedState e))"

lemma proper_utilisation:
  "ps_updateServiceStorageUtilisation s n len i ps = Inr ps' \<Longrightarrow> proper_update (ps_services ps) \<Longrightarrow>
    proper_update (ps_services ps')"
  by (auto simp: utilisation_Inr proper_updates)

lemma proper_forget_remove: "forget_remove e len status = Inr e' \<Longrightarrow> proper e \<Longrightarrow> proper e'"
  by (auto simp: forget_remove_def forget_utilisation_def Let_def bindE_Inr_iff intro!: proper_updates
      dest: proper_utilisation)

lemma proper_forget_update: "forget_update e status slots = Inr e' \<Longrightarrow> proper e \<Longrightarrow> proper e'"
  by (auto simp: forget_update_def bindE_Inr_iff proper_updates)

lemma proper_forget: "forgetPreimage e h len = Inr e' \<Longrightarrow> proper e \<Longrightarrow> proper e'"
  using forget_cases proper_forget_remove proper_forget_update by blast

lemma proper_newService:
  "newService e code len g tg gratis wanted = Inr (new, Some e') \<Longrightarrow> proper e \<Longrightarrow> proper e'"
  by (erule newService_cases, drule place_service_cases) (auto simp: created_state_def proper_updates)

lemma proper_eject: "eject e d h = Inr e' \<Longrightarrow> proper e \<Longrightarrow> proper e'"
  by (auto simp: eject_def Let_def bindE_Inr_iff ejected_preimages_def proper_update_def ps_updateServiceInfo_def
      distinct_update split: option.splits if_splits)

lemma ext_step_proper: "ext_step H e e' \<Longrightarrow> proper e \<Longrightarrow> proper e'"
proof (induction rule: ext_step.induct)
  case (1 e h len e')
  then show ?case
    by (auto simp: requestPreimage_def Let_def bindE_Inr_iff intro!: proper_updates dest: proper_utilisation)
next
  case (3 amount e d g memo e')
  from 3(2) show ?case by (rule transfer_cases) (use 3(3) in \<open>simp add: proper_updates\<close>)
next
  case (13 e k v e' r)
  then show ?case
    by (auto simp: ext_write_def Let_def bindE_Inr_iff intro!: proper_updateStorage dest: proper_utilisation)
qed (auto simp: upgradeService_def updateValidatorsData_def updateAuthorizationQueue_def updatePrivilegedServices_def
    yield_root_def checkpoint_def providePreimage_def Let_def bindE_Inr_iff proper_updates
    split: option.splits if_splits intro: proper_forget proper_newService proper_eject)

lemma ext_steps_proper: "(ext_step H)\<^sup>*\<^sup>* e e' \<Longrightarrow> proper e \<Longrightarrow> proper e'"
  by (induction rule: rtranclp_induct) (auto intro: ext_step_proper)

lemma proper_empty: "proper_update empty_services_update"
  by (simp add: proper_update_def empty_services_update_def)

section \<open>Unintended behaviour\<close>

text \<open>
  A preimage that was requested in the same accumulation cannot be provided: \<open>hasPreimage\<close> takes any
  pending update with the hash for a provided preimage, and the request is one.
\<close>

lemma request_blocks_provide:
  assumes "requestPreimage e (H b) (int (length b)) = Inr e'"
    "lookup_of e (ex_currentServiceId e) (H b) (int (length b)) = None" "length b < 2 ^ 32"
  shows "providePreimage H e' (Some (ex_currentServiceId e)) b = Inl (Failed PP_AlreadyProvided)"
proof -
  let ?cur = "ex_currentServiceId e" and ?item = "\<lparr>li_hash = H b, li_length = int (length b), li_slots = []\<rparr>"
  have clamp: "clampU64ToU32 (int (length b)) = Inr (int (length b))"
    using assms(3) by (simp add: clampU64ToU32_def MAX_VALUE_U32_def tryAs_Inr_iff)
  obtain i n len ps where i: "ps_getServiceInfo (ex_updatedState e) (Some ?cur) = Some i"
    and ps: "ps_updateServiceStorageUtilisation ?cur n len i (ex_updatedState e) = Inr ps"
    and e': "e' = e\<lparr>ex_updatedState := ps_updatePreimage ?cur (UP_UpdateOrAdd ?item) ps\<rparr>"
    using assms(1)
    by (auto simp: requestPreimage_def assms(2) request_guard_def Let_def bindE_Inr_iff clamp tryAsLookupHistorySlots_def)
  have info: "ps_getServiceInfo (ex_updatedState e') (Some ?cur) \<noteq> None"
    using ps i by (auto simp: e' utilisation_Inr partial_reads current_not_removed)
  have pres: "jm_get_or (su_preimages (ps_services (ex_updatedState e'))) ?cur [] =
      jm_get_or (su_preimages (ps_services (ex_updatedState e))) ?cur [] @ [UP_UpdateOrAdd ?item]"
    using ps by (auto simp: e' utilisation_Inr ps_updatePreimage_def ps_updateServiceInfo_def)
  have "lookup_of e' ?cur (H b) (int (length b)) = Some ?item"
  proof -
    have "(case jm_get (su_updated (ps_services (ex_updatedState e'))) ?cur of
        Some (US_Create _ (Some item)) \<Rightarrow> if H b = li_hash item \<and> int (length b) = li_length item then Some item else None
      | _ \<Rightarrow> None) = None"
      using assms(2) ps
      by (auto simp: e' utilisation_Inr ps_updatePreimage_def ps_updateServiceInfo_def ps_getLookupHistory_def Let_def
          split: option.splits update_service.splits if_splits)
    then show ?thesis unfolding ps_getLookupHistory_def Let_def pres by simp
  qed
  moreover have "ps_hasPreimage (ex_updatedState e') ?cur (H b)"
    unfolding ps_hasPreimage_def pres find_append_list by (auto split: option.split)
  ultimately show ?thesis using info by (auto simp: providePreimage_def isRequested_def split: option.splits)
qed

text \<open>
  A registrar can create a service under an id it has ejected in the same accumulation, because
  an ejected service counts as missing. The new service is invisible, its deposit is gone, and the
  update cannot be committed while the old service is still in the state.
\<close>

lemma recreate_after_eject:
  assumes "newService e code len g tg gratis wanted = Inr (new, Some e')"
    "new \<in> set (su_removed (ps_services (ex_updatedState e)))"
  shows "ps_getServiceInfo (ex_updatedState e') (Some new) = None"
    and "\<exists>d \<ge> 0. funds (ledger_of e') = funds (ledger_of e) - d"
proof -
  let ?cur = "ex_currentServiceId e"
  from assms(1) obtain i j item where n: "ps_getServiceInfo (ex_updatedState e) (Some ?cur) = Some i"
    "balance j = threshold j" "place_service e j item (i\<lparr>balance := balance i - balance j\<rparr>) wanted = Inr (new, Some e')"
    by (rule newService_cases)
  have state: "ex_updatedState e' = created_state e new j item (i\<lparr>balance := balance i - balance j\<rparr>)"
    using place_service_cases [OF n(3)] by simp
  show "ps_getServiceInfo (ex_updatedState e') (Some new) = None"
    using assms(2) by (simp add: state created_state_def ps_getServiceInfo_def)
  have "ledger_of e' = (ledger_of e)\<lparr>accounts := (accounts (ledger_of e))(?cur \<mapsto> i\<lparr>balance := balance i - balance j\<rparr>)\<rparr>"
    using assms(2) n(1) by (auto simp: ledger_of_def state created_state_def partial_reads current_not_removed)
  moreover have "finite (dom (accounts (ledger_of e)))" using finite_accounts by (simp add: ledger_of_def)
  ultimately have "funds (ledger_of e') = funds (ledger_of e) - balance j"
    using n(1) by (simp add: funds_worth worth_update)
  moreover have "0 \<le> balance j" using n(2) threshold_range by simp
  ultimately show "\<exists>d \<ge> 0. funds (ledger_of e') = funds (ledger_of e) - d" by blast
qed

text \<open>Removing the only history of a hash leaves an empty list behind, and listing the entries throws.\<close>

lemma getEntries_after_remove:
  assumes "sd_lookupHistory v = [(h, [item])]"
  shows "\<exists>v'. updatePreimage v (UP_Remove h (li_length item)) = Inr v' \<and> sv_getEntries v' = Inl TypeError"
  using assms by (simp add: remove_lookup_def js_splice_def sv_getEntries_def Let_def)

end
