(* ===== verification/LedgerRuns.thy ===== *)
theory LedgerRuns
  imports Accounting
begin

text \<open>
  Runs of the externalities with the one operation that loses money: an ejected service counts as
  missing, so a new service can be put under an id that was ejected in the same accumulation, by the
  registrar or because the search for the next id lands there. The new account stays invisible and
  its deposit is gone. A run records the sum of these deposits; funds and losses together are conserved.
\<close>

inductive ext_call :: "(blob \<Rightarrow> blob) \<Rightarrow> externalities \<Rightarrow> int \<Rightarrow> externalities \<Rightarrow> bool" for H where
  call_step: "ext_step H e e' \<Longrightarrow> ext_call H e 0 e'"
| call_recreate: "newService e code len g tg gratis wanted = Inr (new, Some e') \<Longrightarrow>
    new \<in> set (su_removed (ps_services (ex_updatedState e))) \<Longrightarrow>
    calculateThresholdBalance 2 (LOOKUP_HISTORY_ENTRY_BYTES + len) gratis = Inr deposit \<Longrightarrow> ext_call H e deposit e'"

inductive_cases ext_callE: "ext_call H e lost e'"

inductive ext_run :: "(blob \<Rightarrow> blob) \<Rightarrow> externalities \<Rightarrow> int \<Rightarrow> externalities \<Rightarrow> bool" for H where
  run_refl: "ext_run H e 0 e"
| run_call: "ext_run H e lost e' \<Longrightarrow> ext_call H e' d e'' \<Longrightarrow> ext_run H e (lost + d) e''"

lemma ext_steps_run: "(ext_step H)\<^sup>*\<^sup>* e e' \<Longrightarrow> ext_run H e 0 e'"
proof (induction rule: rtranclp_induct)
  case (step y z)
  from run_call [OF step.IH call_step [OF step.hyps(2)]] show ?case by simp
qed (rule run_refl)

lemma newService_deposit:
  assumes "newService e code len g tg gratis wanted = Inr (new, Some e')"
    "calculateThresholdBalance 2 (LOOKUP_HISTORY_ENTRY_BYTES + len) gratis = Inr c"
  obtains i j item where
    "ps_getServiceInfo (ex_updatedState e) (Some (ex_currentServiceId e)) = Some i"
    "balance j = c" "0 \<le> c" "threshold i \<le> balance i - c"
    "place_service e j item (i\<lparr>balance := balance i - c\<rparr>) wanted = Inr (new, Some e')"
proof -
  have c: "c = min (2 ^ 64 - 1) (max 0 (100 + 10 * 2 + (81 + len) - gratis))"
    using assms(2) by (simp add: calculateThresholdBalance_eq LOOKUP_HISTORY_ENTRY_BYTES_def)
  define j where "j = new_account e code c g tg (81 + len) 2 gratis"
  have "balance j = c" "0 \<le> c" by (simp_all add: j_def new_account_def c)
  moreover obtain i item where "ps_getServiceInfo (ex_updatedState e) (Some (ex_currentServiceId e)) = Some i"
    "threshold i \<le> balance i - c" "place_service e j item (i\<lparr>balance := balance i - c\<rparr>) wanted = Inr (new, Some e')"
    using assms(1)
    by (auto simp: newService_def Let_def bindE_Inr_iff sumU64_eq calculateThresholdBalance_eq [of 2]
        calculateThreshold_account LOOKUP_HISTORY_ENTRY_BYTES_def c j_def tryAs_Inr_iff split: if_splits)
  ultimately show thesis using that by blast
qed

lemma recreate_sound:
  assumes "newService e code len g tg gratis wanted = Inr (new, Some e')"
    "new \<in> set (su_removed (ps_services (ex_updatedState e)))"
    "calculateThresholdBalance 2 (LOOKUP_HISTORY_ENTRY_BYTES + len) gratis = Inr c"
    "wf_ext e" "sound_ledger (ledger_of e)"
  shows "0 \<le> c \<and> wf_ext e' \<and> sound_ledger (ledger_of e') \<and> funds (ledger_of e') + c = funds (ledger_of e) \<and>
    ex_currentServiceId e' = ex_currentServiceId e"
proof -
  let ?cur = "ex_currentServiceId e"
  from assms(1,3) obtain i j item where n: "ps_getServiceInfo (ex_updatedState e) (Some ?cur) = Some i"
    "balance j = c" "0 \<le> c" "threshold i \<le> balance i - c"
    "place_service e j item (i\<lparr>balance := balance i - c\<rparr>) wanted = Inr (new, Some e')"
    by (rule newService_deposit)
  note place = place_service_cases [OF n(5)]
  let ?i = "i\<lparr>balance := balance i - c\<rparr>"
  have infos: "ps_getServiceInfo (ex_updatedState e') = (ps_getServiceInfo (ex_updatedState e))(Some ?cur \<mapsto> ?i)"
    using n(1) assms(2) by (simp add: place created_state_def partial_reads current_not_removed)
  have "au_transfers (ps_update (ex_updatedState e')) = au_transfers (ps_update (ex_updatedState e))"
    by (simp add: place created_state_def)
  with infos have l: "ledger_of e' = (ledger_of e)\<lparr>accounts := (accounts (ledger_of e))(?cur \<mapsto> ?i)\<rparr>"
    by (auto simp: ledger_of_def)
  have fin: "finite (dom (accounts (ledger_of e)))" and i: "accounts (ledger_of e) ?cur = Some i" "sound_account i"
    using assms(5) n(1) by (auto simp: sound_ledger_def)
  have "sound_account ?i" using i(2) n(3,4) by (simp add: sound_account_def)
  then have "sound_ledger (ledger_of e')" using assms(5) unfolding l by (auto simp: sound_ledger_def)
  moreover have "funds (ledger_of e') + c = funds (ledger_of e)"
    unfolding l using fin i(1) by (simp add: funds_worth worth_update)
  moreover have "wf_ext e'"
    using place [THEN conjunct2, THEN conjunct2]
  proof
    assume "ps_getServiceInfo (ex_updatedState e) (Some new) = None \<and> new < MIN_PUBLIC_SERVICE_INDEX \<and>
      ex_nextNewServiceId e' = ex_nextNewServiceId e"
    then show ?thesis using assms(4) n(1) infos by (auto simp: wf_ext_def)
  next
    assume "new = ex_nextNewServiceId e \<and>
      getNextAvailableServiceId (ex_updatedState e') (bumpServiceId new) = Some (ex_nextNewServiceId e')"
    then show ?thesis
      using getNextAvailable_free [of "ex_updatedState e'" "bumpServiceId new"] bumpServiceId_range(1) [of new]
      by (auto simp: wf_ext_def found_free_def)
  qed
  ultimately show ?thesis using n(3) place by simp
qed

lemma ext_call_sound:
  assumes "ext_call H e lost e'" "wf_ext e" "sound_ledger (ledger_of e)"
  shows "0 \<le> lost \<and> wf_ext e' \<and> sound_ledger (ledger_of e') \<and> funds (ledger_of e') + lost = funds (ledger_of e) \<and>
    ex_currentServiceId e' = ex_currentServiceId e"
  using assms(1)
proof (cases rule: ext_call.cases)
  case call_step
  with ext_step_safe [OF call_step(2) assms(2)] ledger_step_sound [of "ex_currentServiceId e" "ledger_of e" "ledger_of e'"] assms
  show ?thesis by (simp add: safe_step_def)
next
  case call_recreate
  from recreate_sound [OF call_recreate assms(2,3)] show ?thesis .
qed

text \<open>Ids are ejected for good, so a run that ejects nothing loses nothing.\<close>

abbreviation ejected :: "externalities \<Rightarrow> service_id list" where
  "ejected e \<equiv> su_removed (ps_services (ex_updatedState e))"

lemma ejected_updates [simp]:
  "ejected (on_update (\<lambda>u. u\<lparr>au_transfers := x u\<rparr>) e) = ejected e"
  "ejected (on_update (\<lambda>u. u\<lparr>au_yieldedRoot := y\<rparr>) e) = ejected e"
  "ejected (on_update (\<lambda>u. u\<lparr>au_validatorsData := z\<rparr>) e) = ejected e"
  "ejected (on_update (\<lambda>u. u\<lparr>au_privilegedServices := p\<rparr>) e) = ejected e"
  by simp_all

lemma ejected_forget: "forgetPreimage e h len = Inr e' \<Longrightarrow> ejected e' = ejected e"
proof -
  assume "forgetPreimage e h len = Inr e'"
  then obtain status slots where "forget_remove e len status = Inr e' \<or> forget_update e status slots = Inr e'"
    using forget_cases by blast
  then show ?thesis
    by (auto simp: forget_remove_def forget_utilisation_def forget_update_def Let_def bindE_Inr_iff utilisation_Inr)
qed

lemma ejected_newService:
  "newService e code len g tg gratis wanted = Inr (new, Some e') \<Longrightarrow> ejected e' = ejected e"
  by (erule newService_cases, drule place_service_cases) (simp add: created_state_def)

lemma ejected_grows: "ext_step H e e' \<Longrightarrow> set (ejected e) \<subseteq> set (ejected e')"
proof (induction rule: ext_step.induct)
  case (2 e h len e')
  then show ?case by (simp add: ejected_forget)
next
  case (3 amount e d g memo e')
  from 3(2) show ?case by (rule transfer_cases) simp
next
  case (4 e code len g tg gratis wanted new e')
  then show ?case by (simp add: ejected_newService)
next
  case (12 d e h e')
  then show ?case
    by (auto simp: eject_def Let_def bindE_Inr_iff ejected_preimages_def split: option.splits if_splits)
qed (auto simp: requestPreimage_def ext_write_def upgradeService_def updateValidatorsData_def checkpoint_def
    updateAuthorizationQueue_def updatePrivilegedServices_def yield_root_def providePreimage_def Let_def bindE_Inr_iff
    utilisation_Inr split: option.splits if_splits)

lemma call_nothing_ejected: "ext_call H e lost e' \<Longrightarrow> ejected e' = [] \<Longrightarrow> ejected e = [] \<and> lost = 0"
  by (erule ext_callE) (auto dest: ejected_grows ejected_newService)

lemma run_nothing_ejected: "ext_run H e lost e' \<Longrightarrow> ejected e' = [] \<Longrightarrow> lost = 0"
  by (induction rule: ext_run.induct) (auto dest: call_nothing_ejected)

lemma ext_run_sound:
  assumes "ext_run H e lost e'" "wf_ext e" "sound_ledger (ledger_of e)"
  shows "0 \<le> lost \<and> wf_ext e' \<and> sound_ledger (ledger_of e') \<and> funds (ledger_of e') + lost = funds (ledger_of e) \<and>
    ex_currentServiceId e' = ex_currentServiceId e"
  using assms
proof (induction rule: ext_run.induct)
  case (run_call e lost e' d e'')
  from run_call.IH [OF run_call.prems] ext_call_sound [OF run_call.hyps(2)] show ?case by auto
qed simp

end
