(* ===== verification/AccumulateFunds.thy ===== *)
theory AccumulateFunds
  imports Accumulate LedgerRuns
begin

text \<open>
  What the accumulation of one service does to the funds, when the executor changes the externalities
  only by their operations: the incoming transfers are added, and nothing else is created or lost, also
  when the run fails and the checkpoint is kept. The outer recursion and the queue of the state are
  treated here too.
\<close>

section \<open>Checkpoints\<close>

definition ledger_ps :: "partial_state \<Rightarrow> ledger" where
  "ledger_ps ps = \<lparr>accounts = (\<lambda>s. ps_getServiceInfo ps (Some s)), on_the_way = au_transfers (ps_update ps)\<rparr>"

lemma ledger_of_ps: "ledger_of e = ledger_ps (ex_updatedState e)"
  by (simp add: ledger_of_def ledger_ps_def)

lemma kept_state [simp]:
  "ps_state (ps_updateServiceInfo s i ps) = ps_state ps" "ps_state (ps_updatePreimage s u ps) = ps_state ps"
  "ps_state (ps_updateStorage s k v ps) = ps_state ps" "ps_state (ps_createService s i l ps) = ps_state ps"
  "ps_state (on_services h ps) = ps_state ps"
  "ex_checkpointedState (on_state f e) = ex_checkpointedState e" "ex_checkpointedState (on_update g e) = ex_checkpointedState e"
  by (simp_all add: ps_updateServiceInfo_def ps_updatePreimage_def ps_updateStorage_def ps_createService_def
      on_services_def on_state_def on_update_def Let_def)

text \<open>A step keeps the state underneath, and the checkpoint unless it takes a new one.\<close>

definition keeps :: "externalities \<Rightarrow> externalities \<Rightarrow> bool" where
  "keeps e e' \<longleftrightarrow> ps_state (ex_updatedState e') = ps_state (ex_updatedState e) \<and>
    (ex_checkpointedState e' = ex_checkpointedState e \<or> ex_checkpointedState e' = ps_update (ex_updatedState e))"

lemma keeps_forget: "forgetPreimage e h len = Inr e' \<Longrightarrow> keeps e e'"
proof -
  assume "forgetPreimage e h len = Inr e'"
  then obtain status slots where "forget_remove e len status = Inr e' \<or> forget_update e status slots = Inr e'"
    using forget_cases by blast
  then show ?thesis
    by (auto simp: forget_remove_def forget_utilisation_def forget_update_def Let_def bindE_Inr_iff utilisation_Inr keeps_def)
qed

lemma keeps_newService:
  assumes "newService e code len g tg gratis wanted = Inr (new, Some e')"
  shows "keeps e e'"
proof -
  from assms obtain j item i' where "place_service e j item i' wanted = Inr (new, Some e')" by (rule newService_cases)
  then show ?thesis by (auto simp: place_service_def Let_def bindE_Inr_iff keeps_def split: if_splits)
qed

lemma keeps_eject: "eject e d h = Inr e' \<Longrightarrow> keeps e e'"
  by (auto simp: eject_def Let_def bindE_Inr_iff keeps_def split: option.splits if_splits)

lemma ext_step_keeps: "ext_step H e e' \<Longrightarrow> keeps e e'"
proof (induction rule: ext_step.induct)
  case (3 amount e d g memo e')
  from 3(2) show ?case by (rule transfer_cases) (simp add: keeps_def)
next
  case (7 e)
  show ?case by (simp add: keeps_def checkpoint_def)
next
  case (2 e h len e')
  then show ?case by (rule keeps_forget)
next
  case (4 e code len g tg gratis wanted new e')
  then show ?case by (blast intro: keeps_newService)
next
  case (12 d e h e')
  then show ?case by (blast intro: keeps_eject)
qed (auto simp: keeps_def requestPreimage_def ext_write_def upgradeService_def updateValidatorsData_def
    updateAuthorizationQueue_def updatePrivilegedServices_def yield_root_def providePreimage_def Let_def bindE_Inr_iff
    utilisation_Inr split: option.splits if_splits)

text \<open>Both states of the externalities, the current one and the checkpoint, are sound and hold \<open>F\<close>.\<close>

definition holds_funds :: "partial_state \<Rightarrow> int \<Rightarrow> bool" where
  "holds_funds ps F \<longleftrightarrow> sound_ledger (ledger_ps ps) \<and> funds (ledger_ps ps) = F"

abbreviation checkpointed :: "externalities \<Rightarrow> partial_state" where
  "checkpointed e \<equiv> (ex_updatedState e)\<lparr>ps_update := ex_checkpointedState e\<rparr>"

lemma ext_call_keeps: "ext_call H e lost e' \<Longrightarrow> keeps e e'"
  by (erule ext_callE) (auto intro: ext_step_keeps keeps_newService)

text \<open>A checkpoint has lost no more than the whole run.\<close>

lemma checkpoint_funds:
  assumes "ext_run H e lost e'" "wf_ext e" "holds_funds (ex_updatedState e) F" "holds_funds (checkpointed e) F"
  shows "0 \<le> lost \<and> holds_funds (ex_updatedState e') (F - lost) \<and>
    (\<exists>c. 0 \<le> c \<and> c \<le> lost \<and> holds_funds (checkpointed e') (F - c)) \<and> ps_state (ex_updatedState e') = ps_state (ex_updatedState e)"
  using assms
proof (induction rule: ext_run.induct)
  case (run_refl e)
  then show ?case by (intro conjI exI [of _ 0]) simp_all
next
  case (run_call e lost y d z)
  from run_call.IH [OF run_call.prems] obtain c where y: "0 \<le> lost" "holds_funds (ex_updatedState y) (F - lost)"
    "0 \<le> c" "c \<le> lost" "holds_funds (checkpointed y) (F - c)" "ps_state (ex_updatedState y) = ps_state (ex_updatedState e)"
    by blast
  have k: "keeps y z" by (rule ext_call_keeps [OF run_call.hyps(2)])
  have "wf_ext y" using ext_run_sound [OF run_call.hyps(1)] run_call.prems by (simp add: holds_funds_def ledger_of_ps)
  then have "0 \<le> d" "holds_funds (ex_updatedState z) (F - (lost + d))"
    using ext_call_sound [OF run_call.hyps(2)] y(2) by (auto simp: holds_funds_def ledger_of_ps)
  moreover have "\<exists>c. 0 \<le> c \<and> c \<le> lost + d \<and> holds_funds (checkpointed z) (F - c)"
  proof (cases "ex_checkpointedState z = ex_checkpointedState y")
    case True
    then have "checkpointed z = checkpointed y" using k by (simp add: keeps_def)
    then show ?thesis using y \<open>0 \<le> d\<close> by (intro exI [of _ c]) simp
  next
    case False
    then have "checkpointed z = ex_updatedState y" using k by (simp add: keeps_def)
    then show ?thesis using y \<open>0 \<le> d\<close> by (intro exI [of _ lost]) simp
  qed
  ultimately show ?case using y k by (simp add: keeps_def)
qed

section \<open>One service\<close>

lemma invoke_cases:
  assumes "invoke_single spec H exec slot entropy s ts ops g ps = Some (Inr r)"
  obtains e where "pvmAccumulateInvocation spec H exec slot s ts ops g entropy ps = Some (Inr (Inl e))"
    "r = \<lparr>si_stateUpdate = Some (ps_update ps), si_consumedGas = 0\<rparr>"
  | ok where "pvmAccumulateInvocation spec H exec slot s ts ops g entropy ps = Some (Inr (Inr ok))"
    "r = \<lparr>si_stateUpdate = Some (iv_stateUpdate ok), si_consumedGas = iv_consumedGas ok\<rparr>"
proof -
  from assms obtain x where "pvmAccumulateInvocation spec H exec slot s ts ops g entropy ps = Some (Inr x)"
    "r = (case x of
          Inl _ \<Rightarrow> \<lparr>si_stateUpdate = Some (ps_update ps), si_consumedGas = 0\<rparr>
        | Inr ok \<Rightarrow> \<lparr>si_stateUpdate = Some (iv_stateUpdate ok), si_consumedGas = iv_consumedGas ok\<rparr>)"
    unfolding invoke_single_def bindR_Inr by auto
  then show thesis using that by (cases x) auto
qed

text \<open>
  The executor changes the externalities by calling their operations. One whose calls are all plain
  steps never puts a service under an id it ejected.
\<close>

definition calls_executor :: "(blob \<Rightarrow> blob) \<Rightarrow> executor \<Rightarrow> bool" where
  "calls_executor H exec \<longleftrightarrow> (\<forall>s code e fd args g. \<exists>lost. ext_run H e lost (er_externalities (exec s code e fd args g)))"

definition steps_executor :: "(blob \<Rightarrow> blob) \<Rightarrow> executor \<Rightarrow> bool" where
  "steps_executor H exec \<longleftrightarrow> (\<forall>s code e fd args g. (ext_step H)\<^sup>*\<^sup>* e (er_externalities (exec s code e fd args g)))"

text \<open>Both at once: the losses of the runs that \<open>Q\<close> allows, every smaller one included.\<close>

definition losing_executor :: "(int \<Rightarrow> bool) \<Rightarrow> (blob \<Rightarrow> blob) \<Rightarrow> executor \<Rightarrow> bool" where
  "losing_executor Q H exec \<longleftrightarrow> (\<forall>s code e fd args g. \<exists>lost.
    (\<forall>c. 0 \<le> c \<and> c \<le> lost \<longrightarrow> Q c) \<and> ext_run H e lost (er_externalities (exec s code e fd args g)))"

lemma calls_losing: "calls_executor H exec \<Longrightarrow> losing_executor (\<lambda>_. True) H exec"
  by (simp add: calls_executor_def losing_executor_def)

lemma steps_losing: "steps_executor H exec \<Longrightarrow> losing_executor (\<lambda>c. c = 0) H exec"
  unfolding steps_executor_def losing_executor_def by (metis ext_steps_run order_antisym)

lemma steps_calls: "steps_executor H exec \<Longrightarrow> calls_executor H exec"
  unfolding steps_executor_def calls_executor_def by (blast intro: ext_steps_run)

definition holds_lossy :: "(int \<Rightarrow> bool) \<Rightarrow> partial_state \<Rightarrow> int \<Rightarrow> bool" where
  "holds_lossy Q ps F \<longleftrightarrow> (\<exists>lost \<ge> 0. Q lost \<and> holds_funds ps (F - lost))"

lemma invocation_funds:
  assumes "pvmAccumulateInvocation spec H exec slot s ts ops g entropy ps = Some (Inr (Inr r))"
    "losing_executor Q H exec" "holds_funds ps F"
  shows "holds_lossy Q (ps\<lparr>ps_update := iv_stateUpdate r\<rparr>) F"
proof -
  from assms(1) obtain i code nid e args where i: "ps_getServiceInfo ps (Some s) = Some i"
    and gen: "generateNextServiceId H s entropy (int slot) = Inr nid"
    and e: "forService spec ps s nid (int slot) = Some (Inr e)"
    and out: "invocation_outcome (exec s code e \<lparr>fd_entropy = entropy, fd_transfers = ts, fd_operands = ops\<rparr> args g) = Inr r"
    by (auto simp: pvmAccumulateInvocation_def bindR_Inr split: option.splits if_splits)
  let ?e' = "er_externalities (exec s code e \<lparr>fd_entropy = entropy, fd_transfers = ts, fd_operands = ops\<rparr> args g)"
  have "MIN_PUBLIC_SERVICE_INDEX \<le> nid"
    using gen by (auto simp: generateNextServiceId_def bindE_Inr_iff tryAs_Inr_iff public_ids_def MIN_PUBLIC_SERVICE_INDEX_def)
  with e have wf: "wf_ext e" "ex_updatedState e = ps" using forService_wf by blast+
  have "ex_checkpointedState e = ps_update ps"
    using e i by (auto simp: forService_def)
  then have cp: "holds_funds (checkpointed e) F" "holds_funds (ex_updatedState e) F" using wf assms(3) by simp_all
  obtain lost where lost: "\<forall>c. 0 \<le> c \<and> c \<le> lost \<longrightarrow> Q c" "ext_run H e lost ?e'"
    using assms(2) unfolding losing_executor_def by meson
  from checkpoint_funds [OF lost(2) wf(1) cp(2,1)] lost(1)
  have both: "holds_lossy Q (ex_updatedState ?e') F" "holds_lossy Q (checkpointed ?e') F" "ps_state (ex_updatedState ?e') = ps_state ps"
    by (auto simp: wf(2) holds_lossy_def)
  have upd: "ps\<lparr>ps_update := u\<rparr> = (ex_updatedState ?e')\<lparr>ps_update := u\<rparr>" for u
    using both(3) by (cases ps; cases "ex_updatedState ?e'") simp
  have self: "q\<lparr>ps_update := ps_update q\<rparr> = q" for q :: partial_state by (cases q) simp
  have same: "holds_lossy Q (q\<lparr>ps_update := u\<lparr>au_yieldedRoot := y\<rparr>\<rparr>) F \<longleftrightarrow> holds_lossy Q (q\<lparr>ps_update := u\<rparr>) F" for q u y
    by (simp add: holds_lossy_def holds_funds_def ledger_ps_def ps_getServiceInfo_def cong: if_cong option.case_cong)
  show ?thesis
    using out both(1,2)
    by (auto simp: invocation_outcome_def getStateUpdates_def bindE_Inr_iff same upd self split: if_splits)
qed

text \<open>
  The incoming transfers go to the account of the service. Without an account, and when they overflow
  the balance, they are lost.
\<close>

definition incoming :: "partial_state \<Rightarrow> service_id \<Rightarrow> pending_transfer list \<Rightarrow> int" where
  "incoming ps s ts = (case ps_getServiceInfo ps (Some s) of
      None \<Rightarrow> 0
    | Some i \<Rightarrow> let amount = (\<Sum>t\<leftarrow>ts. tr_amount t) in if balance i + amount < 2 ^ 64 then amount else 0)"

lemma credit_funds:
  assumes "ps_getServiceInfo ps (Some s) = Some i" "holds_funds ps F" "0 \<le> m" "balance i + m < 2 ^ 64"
  shows "holds_funds (ps_updateServiceInfo s (i\<lparr>balance := balance i + m\<rparr>) ps) (F + m)"
proof -
  let ?i = "i\<lparr>balance := balance i + m\<rparr>"
  have l: "ledger_ps (ps_updateServiceInfo s ?i ps) = (ledger_ps ps)\<lparr>accounts := (accounts (ledger_ps ps))(s \<mapsto> ?i)\<rparr>"
  proof -
    have "ps_getServiceInfo (ps_updateServiceInfo s ?i ps) = (ps_getServiceInfo ps)(Some s \<mapsto> ?i)"
      using assms(1) by (simp add: partial_reads current_not_removed)
    moreover have "au_transfers (ps_update (ps_updateServiceInfo s ?i ps)) = au_transfers (ps_update ps)"
      by (simp add: ps_updateServiceInfo_def on_services_def)
    ultimately show ?thesis by (auto simp: ledger_ps_def)
  qed
  have i: "accounts (ledger_ps ps) s = Some i" and fin: "finite (dom (accounts (ledger_ps ps)))"
    using assms(1,2) by (simp_all add: ledger_ps_def holds_funds_def sound_ledger_def)
  have "sound_account i" using i assms(2) by (simp add: holds_funds_def sound_ledger_def)
  then have "sound_account ?i" using assms(3,4) by (simp add: sound_account_def)
  moreover have "funds (ledger_ps (ps_updateServiceInfo s ?i ps)) = F + m"
    using assms(2) i fin unfolding l by (simp add: funds_worth worth_update holds_funds_def)
  ultimately show ?thesis using assms(2) unfolding holds_funds_def l by (auto simp: sound_ledger_def)
qed

lemma invoke_funds:
  assumes "invoke_single spec H exec slot entropy s ts ops g ps = Some (Inr r)" "losing_executor Q H exec" "Q 0" "holds_funds ps F"
  shows "\<exists>v. si_stateUpdate r = Some v \<and> holds_lossy Q (ps\<lparr>ps_update := v\<rparr>) F"
  using assms(1)
proof (rule invoke_cases)
  fix e
  assume r: "r = \<lparr>si_stateUpdate = Some (ps_update ps), si_consumedGas = 0\<rparr>"
  have "ps\<lparr>ps_update := ps_update ps\<rparr> = ps" by (cases ps) simp
  then show ?thesis using assms(3,4) by (auto simp: r holds_lossy_def intro!: exI [of _ 0])
next
  fix ok
  assume "pvmAccumulateInvocation spec H exec slot s ts ops g entropy ps = Some (Inr (Inr ok))"
    "r = \<lparr>si_stateUpdate = Some (iv_stateUpdate ok), si_consumedGas = iv_consumedGas ok\<rparr>"
  then show ?thesis using invocation_funds [OF _ assms(2,4)] by simp
qed

text \<open>The update a service leaves behind: its own, or the input when its balance would overflow.\<close>

definition update_after :: "single_result \<Rightarrow> accumulation_state_update \<Rightarrow> accumulation_state_update" where
  "update_after r u = (case si_stateUpdate r of None \<Rightarrow> u | Some v \<Rightarrow> v)"

lemma single_service_funds:
  assumes "accumulateSingleService spec H exec st slot entropy s ts ops g u = Some (Inr r)"
    "losing_executor Q H exec" "Q 0" "\<forall>t \<in> set ts. 0 \<le> tr_amount t"
    "holds_funds \<lparr>ps_state = st, ps_update = u\<rparr> F"
  shows "holds_lossy Q \<lparr>ps_state = st, ps_update = update_after r u\<rparr> (F + incoming \<lparr>ps_state = st, ps_update = u\<rparr> s ts)"
proof -
  let ?ps = "\<lparr>ps_state = st, ps_update = u\<rparr>"
  show ?thesis
  proof (cases "ps_getServiceInfo ?ps (Some s)")
    case None
    then have "invoke_single spec H exec slot entropy s ts ops g ?ps = Some (Inr r)"
      using assms(1) by (simp add: accumulateSingleService_def Let_def)
    from invoke_funds [OF this assms(2,3,5)] None show ?thesis by (auto simp: incoming_def update_after_def)
  next
    case (Some i)
    let ?m = "\<Sum>t\<leftarrow>ts. tr_amount t"
    have m: "0 \<le> ?m" using assms(4) by (auto intro!: sum_list_nonneg)
    have "sound_account i" using Some assms(5) by (auto simp: holds_funds_def sound_ledger_def ledger_ps_def)
    then have b: "0 \<le> balance i" by (rule sound_balance)
    note sum = sumU64_eq [of "balance i # map tr_amount ts"]
    show ?thesis
    proof (cases "balance i + ?m < 2 ^ 64")
      case False
      then have "r = \<lparr>si_stateUpdate = None, si_consumedGas = 0\<rparr>"
        using assms(1) Some m b by (auto simp: accumulateSingleService_def Let_def sumU64_eq bindR_Inr comp_def split: if_splits)
      then show ?thesis using Some False assms(3,5)
        by (auto simp: incoming_def update_after_def holds_lossy_def intro!: exI [of _ 0])
    next
      case no: True
      have sum: "sumU64 (balance i # map tr_amount ts) = Inr \<lparr>overflow = False, sum_value = balance i + ?m\<rparr>"
        using m b no by (simp add: sumU64_eq)
      let ?ps' = "ps_updateServiceInfo s (i\<lparr>balance := balance i + ?m\<rparr>) ?ps"
      have "invoke_single spec H exec slot entropy s ts ops g ?ps' = Some (Inr r)"
        using assms(1) Some by (simp add: accumulateSingleService_def Let_def sum bindR_def [of "Some _"])
      from invoke_funds [OF this assms(2,3) credit_funds [OF Some assms(5) m no]] show ?thesis
        using Some no by (auto simp: incoming_def update_after_def ps_updateServiceInfo_def on_services_def)
    qed
  qed
qed

end
