(* ===== verification/AccumulateSpec.thy ===== *)
theory AccumulateSpec
  imports AccumulateFunds
begin

text \<open>
  The transition as a whole: which reports it accumulates, the queue it leaves behind, and two
  behaviours that look unintended.
\<close>

section \<open>Created services\<close>

lemma merge_entry_created:
  assumes "merge_entry p mc = Inr mc'" "distinct (mc_newCreatedServices mc)"
  shows "distinct (mc_newCreatedServices mc')"
proof -
  obtain i r where p: "p = (i, r)" by fastforce
  from assms(1) obtain mc1 where mc1: "mergePrivilegedServices i r mc = Inr mc1"
    "mergeTotalGas r (mergeTransfers r (mergeServices i r
        (mergeAuthorizationQueues i r (mergeValidatorsData i r mc1)))) = Inr mc'"
    by (auto simp: merge_entry_def p bindE_Inr_iff)
  then show ?thesis
    using assms(2) privileged_parts(3) [OF mc1(1)]
    by (auto simp: mergeTotalGas_def bindE_Inr_iff mergeServices_def)
qed

lemma merge_created_distinct:
  assumes "mergePerallelAccumulationResults spec privileged input results = Inr m"
  shows "distinct (su_created (au_services (mr_state m)))"
proof -
  from assms obtain mc where mc: "foldE merge_entry results (createMergeContext spec privileged input results) = Inr mc"
    "m = finalize_merge mc" by (auto simp: mergePerallelAccumulationResults_def bindE_Inr_iff)
  have "distinct (mc_newCreatedServices mc)"
    by (rule foldE_invariant [OF mc(1)]) (auto simp: createMergeContext_def Let_def intro: merge_entry_created)
  then show ?thesis by (simp add: mc(2) finalize_merge_def Let_def)
qed

lemma round_created_distinct:
  "accumulation_round cp spec privileged single a i = Some (Inr r) \<Longrightarrow>
    distinct (su_created (au_services (sq_stateUpdate (ro_next r))))"
  unfolding accumulation_round_def bindR_Inr by (auto dest: merge_created_distinct)

text \<open>
  The merge collects created services in a set, so the check for services created twice with the same
  id finds nothing: the error of the transition is never reported.
\<close>

lemma sequential_created_distinct:
  assumes "accumulateSequentially cp spec privileged single a = Some o1"
    "distinct (su_created (au_services (sq_stateUpdate a)))"
  shows "\<forall>seq st y. o1 = Inr (seq, st, y) \<longrightarrow> distinct (su_created (au_services (sr_state seq)))"
  using assms
proof (induction rule: accumulateSequentially.raw_induct [rotated 1, consumes 1, case_names step])
  case (step rec cp spec privileged single a o1)
  let ?i = "findReportCutoffIndex (sq_gasLimit a) (sq_reports a)"
  show ?case
  proof (cases "length (sq_transfers a) + ?i + length (sq_autoAccumulate a) = 0")
    case True
    then show ?thesis using step by (auto simp: Let_def)
  next
    case False
    show ?thesis
    proof (cases "accumulation_round cp spec privileged single a ?i")
      case None
      then show ?thesis using step False by (auto simp: Let_def)
    next
      case (Some x)
      show ?thesis
      proof (cases x)
        case (Inl e)
        then show ?thesis using step False Some by (auto simp: Let_def)
      next
        case (Inr r)
        with step False Some obtain rest where rest: "rec cp spec privileged single (ro_next r) = Some rest"
          "o1 = bindE rest (\<lambda>(seq, statistics, yielded).
             bindE (tryAsU32 (int ?i + sr_accumulatedReports seq)) (\<lambda>accumulated.
             bindE (tryAsU64 (ro_gas r + sr_gasCost seq)) (\<lambda>gasCost.
               Inr (\<lparr>sr_accumulatedReports = accumulated, sr_state = sr_state seq, sr_gasCost = gasCost\<rparr>,
                 statistics, yielded))))"
          by (auto simp: Let_def bind_eq_Some_conv)
        have "\<forall>seq st y. rest = Inr (seq, st, y) \<longrightarrow> distinct (su_created (au_services (sr_state seq)))"
          by (rule step(1) [OF rest(1)]) (use round_created_distinct Some Inr rest(1) in auto)
        then show ?thesis by (auto simp: rest(2) bindE_Inr_iff)
      qed
    qed
  qed
qed

lemma never_duplicate:
  "accumulate_transition cp spec H exec st reports slot entropy \<noteq> Some (Inl (Failed DuplicateServiceCreated))"
proof -
  have finish: "finish_accumulation spec st acc later slot seq statistics y \<noteq> Inl (Failed DuplicateServiceCreated)"
    if "distinct (su_created (au_services (sr_state seq)))" for acc later seq statistics y
    using that by (cases "getAccumulationStateUpdate spec st (take (nat (sr_accumulatedReports seq)) acc)
         later slot (map fst statistics) (au_services (sr_state seq))";
      cases "merged_auth_queues spec (as_authQueues st) (au_authorizationQueues (sr_state seq))")
      (simp_all add: finish_accumulation_def hasDuplicatedServiceIdCreated_def js_unique_length Let_def)
  show ?thesis
    unfolding accumulate_transition_def Let_def
    using finish sequential_created_distinct
    by (fastforce simp: accumulation_empty_def empty_services_update_def split: sum.splits option.splits)
qed

section \<open>The queue left behind\<close>

lemma queue_loop_length [simp]: "length (queue_loop E ph el hs k i q) = length q"
  by (induction k arbitrary: i q) (simp_all add: Let_def)

text \<open>The step of the loop that reaches slot \<open>j\<close> of the epoch.\<close>

definition slots_ago :: "nat \<Rightarrow> nat \<Rightarrow> nat \<Rightarrow> nat" where
  "slots_ago E ph j = (ph + E - j) mod E"

lemma slots_ago_index:
  assumes "ph < E" "j < E"
  shows "(ph + E - slots_ago E ph j) mod E = j" "slots_ago E ph j < E" "slots_ago E ph j = 0 \<longleftrightarrow> j = ph"
proof -
  consider "j \<le> ph" | "ph < j" by linarith
  then have "slots_ago E ph j = (if j \<le> ph then ph - j else ph + E - j)"
    using assms by cases (simp_all add: slots_ago_def mod_if)
  then show "(ph + E - slots_ago E ph j) mod E = j" "slots_ago E ph j < E" "slots_ago E ph j = 0 \<longleftrightarrow> j = ph"
    using assms by (auto simp: mod_if)
qed

lemma slots_ago_inject:
  assumes "ph < E" "1 \<le> i" "i < E"
  shows "slots_ago E ph ((ph + E - i) mod E) = i"
  using assms by (auto simp: slots_ago_def mod_if)

lemma queue_loop_nth:
  assumes "ph < E" "length q = E" "j < E" "1 \<le> i" "i + k = E"
  shows "queue_loop E ph el hs k i q ! j =
    (if i \<le> slots_ago E ph j then if int (slots_ago E ph j) < el then [] else pruneQueue (q ! j) hs else q ! j)"
  using assms
proof (induction k arbitrary: i q)
  case 0
  then show ?case using slots_ago_index(2) [of ph E j] by simp
next
  case (Suc k)
  let ?x = "(ph + E - i) mod E"
  let ?q = "if int i < el then q[?x := []] else q[?x := pruneQueue (q ! ?x) hs]"
  have x: "?x < E" using Suc.prems by simp
  have ago: "slots_ago E ph ?x = i" using Suc.prems by (intro slots_ago_inject) simp_all
  have "queue_loop E ph el hs (Suc k) i q ! j = queue_loop E ph el hs k (i + 1) ?q ! j" by (simp add: Let_def)
  also have "\<dots> = (if i + 1 \<le> slots_ago E ph j
      then if int (slots_ago E ph j) < el then [] else pruneQueue (?q ! j) hs else ?q ! j)"
    using Suc.prems by (intro Suc.IH) auto
  also have "?q ! j = (if slots_ago E ph j = i then if int i < el then [] else pruneQueue (q ! j) hs else q ! j)"
  proof (cases "j = ?x")
    case True
    then show ?thesis using ago x Suc.prems(2) by simp
  next
    case False
    then have "slots_ago E ph j \<noteq> i" using slots_ago_index(1) [OF Suc.prems(1,3)] by auto
    then show ?thesis using False by simp
  qed
  finally show ?case by (auto split: if_splits)
qed

text \<open>
  The new queue: the slot of the block waits for what the block brought and could not accumulate, slots
  the chain skipped are empty, all others lose what was accumulated. The ring of recent packages moves by one.
\<close>

lemma queue_update:
  assumes "getAccumulationStateUpdate spec st accumulated later slot ids su = Inr u"
    "length (as_accumulationQueue st) = epochLength spec" "0 < epochLength spec" "j < epochLength spec"
  shows "ac_accumulationQueue u ! j =
      (let hs = map package_hash accumulated; ago = slots_ago (epochLength spec) (slot mod epochLength spec) j in
       if ago = 0 then pruneQueue later hs
       else if int ago < int slot - int (as_timeslot st) then [] else pruneQueue (as_accumulationQueue st ! j) hs)"
    and "ac_timeslot u = slot" "length (ac_accumulationQueue u) = epochLength spec"
    and "butlast (ac_recentlyAccumulated u) = tl (as_recentlyAccumulated st) \<and>
      set (last (ac_recentlyAccumulated u)) = package_hash ` set accumulated \<and>
      length (ac_recentlyAccumulated u) = epochLength spec"
proof -
  let ?E = "epochLength spec" and ?ph = "slot mod epochLength spec" and ?hs = "getWorkPackageHashes accumulated"
  let ?q = "(as_accumulationQueue st)[?ph := pruneQueue later ?hs]"
  have u: "ac_accumulationQueue u = queue_loop ?E ?ph (int slot - int (as_timeslot st)) ?hs (?E - 1) 1 ?q"
    "ac_recentlyAccumulated u = drop 1 (as_recentlyAccumulated st) @ [js_unique (array_sort blob_compare ?hs)]"
    "length (ac_recentlyAccumulated u) = ?E" "ac_timeslot u = slot"
    using assms(1) by (auto simp: getAccumulationStateUpdate_def Let_def bindE_Inr_iff tryAsPerEpochBlock_def)
  have prune: "pruneQueue q ?hs = pruneQueue q (map package_hash accumulated)" for q
    by (simp add: pruneQueue_def)
  have ph: "?ph < ?E" using assms(3) by simp
  have nth: "ac_accumulationQueue u ! j = (if 1 \<le> slots_ago ?E ?ph j
      then if int (slots_ago ?E ?ph j) < int slot - int (as_timeslot st) then [] else pruneQueue (?q ! j) ?hs else ?q ! j)"
    unfolding u(1) by (rule queue_loop_nth [OF ph]) (use assms in simp_all)
  show "ac_accumulationQueue u ! j =
      (let hs = map package_hash accumulated; ago = slots_ago ?E ?ph j in
       if ago = 0 then pruneQueue later hs
       else if int ago < int slot - int (as_timeslot st) then [] else pruneQueue (as_accumulationQueue st ! j) hs)"
    using slots_ago_index(3) [OF ph assms(4)] assms(2) ph unfolding nth prune by (auto simp: Let_def)
  show "ac_timeslot u = slot" "length (ac_accumulationQueue u) = ?E" using u assms(2) by simp_all
  show "butlast (ac_recentlyAccumulated u) = tl (as_recentlyAccumulated st) \<and>
      set (last (ac_recentlyAccumulated u)) = package_hash ` set accumulated \<and> length (ac_recentlyAccumulated u) = ?E"
    using u(3) by (simp add: u(2) drop_Suc)
qed

section \<open>Gas\<close>

text \<open>
  A round whose services use more than the gas limit of the round throws. The limit bounds the reports of
  a round only, and the services that always accumulate and those that got transfers have gas of their own.
\<close>

lemma round_gas_exceeded:
  assumes "new_accumulateData (take i (sq_reports a)) (sq_transfers a) (sq_autoAccumulate a) = Inr d"
    "accumulateInParallel single d (sq_stateUpdate a) = Some (Inr results)"
    "updateStatistics cp results (sq_statistics a) d = Inr st"
    "mergePerallelAccumulationResults spec privileged (sq_stateUpdate a) results = Inr m"
    "sq_gasLimit a < mr_totalGasCost m"
  shows "accumulation_round cp spec privileged single a i = Some (Inl AssertionFailure)"
  using assms by (simp add: accumulation_round_def bindR_def tryAsU64_def isU64_iff)

end
