(* ===== verification/AccumulateReturns.thy ===== *)
theory AccumulateReturns
  imports AccumulateFunds
begin

text \<open>
  Why the recursion over the rounds ends: what an execution pays for its transfers, and when every
  execution of a round is reached. An execution is reached when the search for the id of the next new
  service ends, which it does as long as some public id is free; a run that never touches an id leaves
  it free through all rounds.
\<close>

section \<open>Paying for transfers\<close>

text \<open>
  The transfers an execution hands on are paid for from its gas. A transfer is recorded before its gas is
  charged, so a run that ends out of gas may hold one it has not paid, but such a run hands on its
  checkpoint, and what was recorded before a checkpoint had been charged.
\<close>

definition handed_on :: "execution_result \<Rightarrow> accumulation_state_update" where
  "handed_on r = (if er_isOk r then ps_update (ex_updatedState (er_externalities r)) else ex_checkpointedState (er_externalities r))"

definition metered_executor :: "executor \<Rightarrow> bool" where
  "metered_executor exec \<longleftrightarrow> (\<forall>s code e fd args g.
    au_transfers (ps_update (ex_updatedState e)) = [] \<and> au_transfers (ex_checkpointedState e) = [] \<longrightarrow>
    (let r = exec s code e fd args g in paid (au_transfers (handed_on r)) (er_consumedGas r)))"

lemma outcome_handed_on:
  assumes "invocation_outcome result = Inr r"
  shows "0 \<le> iv_consumedGas r \<and> iv_consumedGas r = er_consumedGas result \<and>
    au_transfers (iv_stateUpdate r) = au_transfers (handed_on result) \<and>
    au_services (iv_stateUpdate r) = au_services (handed_on result)"
  using assms
  by (auto simp: invocation_outcome_def getStateUpdates_def handed_on_def bindE_Inr_iff tryAs_Inr_iff split: if_splits)

lemma single_service_metered:
  assumes "metered_executor exec"
  shows "metered_single (accumulateSingleService spec H exec st slot entropy)"
proof -
  have invoke: "0 \<le> iv_consumedGas r \<and> paid (au_transfers (iv_stateUpdate r)) (iv_consumedGas r)"
    if "pvmAccumulateInvocation spec H exec slot s ts ops g entropy ps = Some (Inr (Inr r))" "au_transfers (ps_update ps) = []"
    for s ts ops g ps r
  proof -
    from that(1) obtain code nid e args i where i: "ps_getServiceInfo ps (Some s) = Some i"
      and e: "forService spec ps s nid (int slot) = Some (Inr e)"
      and out: "invocation_outcome (exec s code e \<lparr>fd_entropy = entropy, fd_transfers = ts, fd_operands = ops\<rparr> args g) = Inr r"
      by (auto simp: pvmAccumulateInvocation_def bindR_Inr split: option.splits if_splits)
    have "au_transfers (ps_update (ex_updatedState e)) = [] \<and> au_transfers (ex_checkpointedState e) = []"
      using e i that(2) by (auto simp: forService_def)
    with assms outcome_handed_on [OF out] show ?thesis by (simp add: metered_executor_def Let_def)
  qed
  have run: "0 \<le> si_consumedGas r \<and> (\<forall>v. si_stateUpdate r = Some v \<longrightarrow> paid (au_transfers v) (si_consumedGas r))"
    if "invoke_single spec H exec slot entropy s ts ops g ps = Some (Inr r)" "au_transfers (ps_update ps) = []" for s ts ops g ps r
    using that(1) by (rule invoke_cases) (use invoke that(2) in auto)
  show ?thesis
    unfolding metered_single_def
  proof (intro allI impI, elim conjE)
    fix s ts ops g u r
    assume u: "au_transfers u = []" and r: "accumulateSingleService spec H exec st slot entropy s ts ops g u = Some (Inr r)"
    have upd: "au_transfers (ps_update (ps_updateServiceInfo s j \<lparr>ps_state = st, ps_update = u\<rparr>)) = []" for j
      using u by (simp add: ps_updateServiceInfo_def on_services_def)
    show "0 \<le> si_consumedGas r \<and> (\<forall>v. si_stateUpdate r = Some v \<longrightarrow> paid (au_transfers v) (si_consumedGas r))"
      using r run u upd
      by (auto simp: accumulateSingleService_def Let_def bindR_Inr sumU64_eq [of "_ # _"] split: option.splits if_splits)
  qed
qed


section \<open>Ids nobody touches\<close>

definition unused :: "service_id \<Rightarrow> accumulation_state_update \<Rightarrow> bool" where
  "unused x u \<longleftrightarrow> jm_get (su_updated (au_services u)) x = None"

text \<open>An executor that spares \<open>x\<close>: a run on externalities without the id hands none on.\<close>

definition sparing_executor :: "service_id \<Rightarrow> executor \<Rightarrow> bool" where
  "sparing_executor x exec \<longleftrightarrow> (\<forall>s code e fd args g.
    ps_getServiceInfo (ex_updatedState e) (Some x) = None \<and> unused x (ps_update (ex_updatedState e)) \<and>
    unused x (ex_checkpointedState e) \<longrightarrow> unused x (handed_on (exec s code e fd args g)))"

abbreviation out_unused :: "service_id \<Rightarrow> merge_context \<Rightarrow> bool" where
  "out_unused x mc \<equiv> unused x (mc_outputState mc)"

lemma unused_same: "su_updated (au_services u) = su_updated (au_services v) \<Longrightarrow> unused x u = unused x v"
  by (simp add: unused_def)

lemma merge_created_unused:
  "jm_get (su_updated svs) x = None \<Longrightarrow> out_unused x (merge_created svs i mc) = out_unused x mc"
  by (auto simp: unused_def merge_created_def Let_def on_out_services_def split: option.split)

lemma merge_entry_unused:
  assumes "merge_entry (i, r) mc = Inr mc'" "unused x (rv_stateUpdate r)" "out_unused x mc"
  shows "out_unused x mc'"
proof -
  from assms(1) obtain mc1 g where p: "mergePrivilegedServices i r mc = Inr mc1" and
    mc': "mc' = (mergeTransfers r (mergeServices i r (mergeAuthorizationQueues i r (mergeValidatorsData i r mc1))))\<lparr>mc_totalGasCost := g\<rparr>"
    by (auto simp: merge_entry_def mergeTotalGas_def bindE_Inr_iff)
  let ?a = "mergeStorage i r (mergePreimages i r (mergeAuthorizationQueues i r (mergeValidatorsData i r mc1)))"
  have "su_updated (out_services ?a) = su_updated (out_services mc)" by (simp add: privileged_parts(4) [OF p])
  then have "out_unused x ?a" using assms(3) by (simp add: unused_def)
  moreover have "out_unused x (mergeCreatedServices r ?a) = out_unused x ?a"
    using assms(2) unfolding mergeCreatedServices_def Let_def
    by (intro fold_same merge_created_unused) (simp add: unused_def)
  moreover have "out_unused x (mergeUpdatedServices i r m) = out_unused x m" for m
    using assms(2) by (auto simp: mergeUpdatedServices_def unused_def on_out_services_def split: option.split)
  ultimately have "out_unused x (mergeServices i r (mergeAuthorizationQueues i r (mergeValidatorsData i r mc1)))"
    by (simp add: mergeServices_def unused_def)
  then show ?thesis by (simp add: mc')
qed

lemma merge_fold_unused:
  "foldE merge_entry results mc = Inr mc' \<Longrightarrow> \<forall>(_, r) \<in> set results. unused x (rv_stateUpdate r) \<Longrightarrow>
    out_unused x mc \<Longrightarrow> out_unused x mc'"
  by (induction results arbitrary: mc) (auto simp: bindE_Inr_iff dest: merge_entry_unused)

lemma merge_unused:
  assumes "mergePerallelAccumulationResults spec privileged input results = Inr m"
    "\<forall>(_, r) \<in> set results. unused x (rv_stateUpdate r)" "unused x input"
  shows "unused x (mr_state m)"
proof -
  from assms(1) obtain mc where mc: "foldE merge_entry results (createMergeContext spec privileged input results) = Inr mc"
    "m = finalize_merge mc" by (auto simp: mergePerallelAccumulationResults_def bindE_Inr_iff)
  have "out_unused x mc" by (rule merge_fold_unused [OF mc(1) assms(2)]) (simp add: createMergeContext_def Let_def assms(3))
  then show ?thesis by (simp add: mc(2) finalize_merge_def Let_def unused_def)
qed

lemma unused_info: "getService st x = None \<Longrightarrow> unused x u \<Longrightarrow> ps_getServiceInfo \<lparr>ps_state = st, ps_update = u\<rparr> (Some x) = None"
  by (simp add: ps_getServiceInfo_def unused_def)

lemma invoke_unused:
  assumes "invoke_single spec H exec slot entropy s ts ops g ps = Some (Inr r)" "sparing_executor x exec"
    "getService (ps_state ps) x = None" "unused x (ps_update ps)"
  shows "\<exists>v. si_stateUpdate r = Some v \<and> unused x v"
  using assms(1)
proof (rule invoke_cases)
  fix ok
  assume inv: "pvmAccumulateInvocation spec H exec slot s ts ops g entropy ps = Some (Inr (Inr ok))"
    and r: "r = \<lparr>si_stateUpdate = Some (iv_stateUpdate ok), si_consumedGas = iv_consumedGas ok\<rparr>"
  from inv obtain code nid e args i where i: "ps_getServiceInfo ps (Some s) = Some i"
    and e: "forService spec ps s nid (int slot) = Some (Inr e)"
    and out: "invocation_outcome (exec s code e \<lparr>fd_entropy = entropy, fd_transfers = ts, fd_operands = ops\<rparr> args g) = Inr ok"
    by (auto simp: pvmAccumulateInvocation_def bindR_Inr split: option.splits if_splits)
  have "ex_updatedState e = ps \<and> ex_checkpointedState e = ps_update ps" using e i by (auto simp: forService_def)
  moreover have "ps_getServiceInfo ps (Some x) = None" using assms(3,4) by (simp add: ps_getServiceInfo_def unused_def)
  ultimately have "unused x (handed_on (exec s code e \<lparr>fd_entropy = entropy, fd_transfers = ts, fd_operands = ops\<rparr> args g))"
    using assms(2,4) by (simp add: sparing_executor_def)
  then show ?thesis using outcome_handed_on [OF out] by (simp add: r unused_def)
qed (use assms(4) in simp)

lemma single_unused:
  assumes "accumulateSingleService spec H exec st slot entropy s ts ops g u = Some (Inr r)" "sparing_executor x exec"
    "getService st x = None" "unused x u"
  shows "unused x (update_after r u)"
proof -
  let ?ps = "\<lparr>ps_state = st, ps_update = u\<rparr>"
  show ?thesis
  proof (cases "ps_getServiceInfo ?ps (Some s)")
    case None
    then have "invoke_single spec H exec slot entropy s ts ops g ?ps = Some (Inr r)"
      using assms(1) by (simp add: accumulateSingleService_def Let_def)
    from invoke_unused [OF this assms(2)] assms(3,4) show ?thesis by (auto simp: update_after_def)
  next
    case (Some i)
    then have "s \<noteq> x" using unused_info [OF assms(3,4)] by auto
    then have upd: "unused x (ps_update (ps_updateServiceInfo s j ?ps))" for j
      using assms(4) by (simp add: unused_def ps_updateServiceInfo_def)
    from assms(1) Some consider "r = \<lparr>si_stateUpdate = None, si_consumedGas = 0\<rparr>"
      | j where "invoke_single spec H exec slot entropy s ts ops g (ps_updateServiceInfo s j ?ps) = Some (Inr r)"
      by (auto simp: accumulateSingleService_def Let_def bindR_Inr split: if_splits)
    then show ?thesis
    proof cases
      case 2
      from invoke_unused [OF this assms(2)] assms(3) upd show ?thesis by (auto simp: update_after_def)
    qed (simp add: update_after_def assms(4))
  qed
qed

lemma parallel_unused:
  assumes "parallel_loop (accumulateSingleService spec H exec st slot entropy) d u ids = Some (Inr results)"
    "sparing_executor x exec" "getService st x = None" "unused x u"
  shows "\<forall>(_, r) \<in> set results. unused x (rv_stateUpdate r)"
  using assms(1)
proof (induction ids arbitrary: results)
  case (Cons s ids)
  then obtain r rest where r: "accumulateSingleService spec H exec st slot entropy s (getTransfers d s) (getOperands d s)
      (getGasLimit d s) u = Some (Inr r)"
    "parallel_loop (accumulateSingleService spec H exec st slot entropy) d u ids = Some (Inr rest)"
    "results = (s, \<lparr>rv_consumedGas = si_consumedGas r, rv_stateUpdate = update_after r u\<rparr>) # rest"
    by (auto simp: bindR_Inr update_after_def)
  then show ?case using single_unused [OF r(1) assms(2-4)] Cons.IH by simp
qed simp

lemma later_unused:
  assumes "later_call cp spec privileged (accumulateSingleService spec H exec st slot entropy) a b"
    "sparing_executor x exec" "getService st x = None" "unused x (sq_stateUpdate a)"
  shows "unused x (sq_stateUpdate b)"
proof -
  from assms(1) obtain d results m where
    "accumulateInParallel (accumulateSingleService spec H exec st slot entropy) d (sq_stateUpdate a) = Some (Inr results)"
    "mergePerallelAccumulationResults spec privileged (sq_stateUpdate a) results = Inr m" "sq_stateUpdate b = mr_state m"
    unfolding later_call_def Let_def accumulation_round_def bindR_Inr by auto
  with merge_unused parallel_unused [OF _ assms(2,3,4)] assms(4) show ?thesis unfolding accumulateInParallel_def by metis
qed

section \<open>Every execution is reached\<close>

text \<open>In every call the recursion makes, some public id has no service.\<close>

definition ids_left :: "compatibility \<Rightarrow> chain_spec \<Rightarrow> privileged_services \<Rightarrow> state_slice \<Rightarrow> single_service \<Rightarrow> sequential_args \<Rightarrow> bool" where
  "ids_left cp spec privileged st single a \<longleftrightarrow> (\<forall>b. (later_call cp spec privileged single)\<^sup>*\<^sup>* a b \<longrightarrow>
    (\<exists>x. is_public x \<and> ps_getServiceInfo \<lparr>ps_state = st, ps_update = sq_stateUpdate b\<rparr> (Some x) = None))"

lemma sparing_ids_left:
  assumes "sparing_executor x exec" "getService st x = None" "unused x (sq_stateUpdate a)" "is_public x"
  shows "ids_left cp spec privileged st (accumulateSingleService spec H exec st slot entropy) a"
  unfolding ids_left_def
proof (intro allI impI)
  fix b
  assume "(later_call cp spec privileged (accumulateSingleService spec H exec st slot entropy))\<^sup>*\<^sup>* a b"
  then have "unused x (sq_stateUpdate b)"
    by (induction rule: rtranclp_induct) (use assms(3) later_unused [OF _ assms(1,2)] in blast)+
  then show "\<exists>x. is_public x \<and> ps_getServiceInfo \<lparr>ps_state = st, ps_update = sq_stateUpdate b\<rparr> (Some x) = None"
    using unused_info [OF assms(2)] assms(4) by blast
qed

lemma bindR_returns: "m \<noteq> None \<Longrightarrow> (\<And>x. f x \<noteq> None) \<Longrightarrow> bindR m f \<noteq> None"
  by (auto simp: bindR_None)

lemma bindR_some: "\<exists>y. m = Some y \<Longrightarrow> (\<And>x. \<exists>y. f x = Some y) \<Longrightarrow> \<exists>y. bindR m f = Some y"
  using bindR_returns [of m f] by auto

lemma invocation_returns:
  assumes "is_public x" "ps_getServiceInfo ps (Some x) = None"
  shows "pvmAccumulateInvocation spec H exec slot s ts ops g entropy ps \<noteq> None"
proof -
  have "forService spec ps s nid (int slot) \<noteq> None" for nid
    using getNextAvailable_returns [OF assms, of nid] by (auto simp: forService_def split: option.split)
  then show ?thesis
    unfolding pvmAccumulateInvocation_def by (auto intro!: bindR_some split: option.split)
qed

lemma invoke_returns:
  assumes "is_public x" "ps_getServiceInfo ps (Some x) = None"
  shows "invoke_single spec H exec slot entropy s ts ops g ps \<noteq> None"
  unfolding invoke_single_def by (intro bindR_returns invocation_returns [OF assms]) simp

lemma single_returns:
  assumes "is_public x" "ps_getServiceInfo \<lparr>ps_state = st, ps_update = u\<rparr> (Some x) = None"
  shows "accumulateSingleService spec H exec st slot entropy s ts ops g u \<noteq> None"
proof -
  let ?ps = "\<lparr>ps_state = st, ps_update = u\<rparr>"
  have "ps_getServiceInfo (ps_updateServiceInfo s j ?ps) (Some x) = None" if "ps_getServiceInfo ?ps (Some s) = Some i" for i j
    using that assms(2) by (auto simp: partial_reads)
  then show ?thesis using invoke_returns [OF assms(1)] assms(2)
    by (auto simp: accumulateSingleService_def Let_def intro!: bindR_some split: option.splits)
qed

lemma parallel_returns: "(\<And>s ts ops g. single s ts ops g u \<noteq> None) \<Longrightarrow> parallel_loop single d u ids \<noteq> None"
  by (induction ids) (auto simp: bindR_None)

lemma ids_left_return:
  "ids_left cp spec privileged st (accumulateSingleService spec H exec st slot entropy) a \<Longrightarrow>
    services_return cp spec privileged (accumulateSingleService spec H exec st slot entropy) a"
  unfolding services_return_def ids_left_def accumulateInParallel_def
  by (intro allI impI parallel_returns) (meson single_returns)

end
