(* ===== verification/ServiceSamples.thy ===== *)
theory ServiceSamples
  imports LedgerRuns
begin

text \<open>
  A small chain state with two services, and an accumulation of the first of them, on which the
  properties of the externalities are evaluated.
\<close>

definition sample_account :: service_account_info where
  "sample_account = \<lparr>codeHash = [1], balance = 1000, accumulateMinGas = 10, onTransferMinGas = 10,
    storageUtilisationBytes = 0, gratisStorage = 0, storageUtilisationCount = 0, created_slot = 0,
    lastAccumulation = 0, parentService = 0\<rparr>"

definition sample_service :: in_memory_service where
  "sample_service = \<lparr>sd_info = sample_account, sd_preimages = [], sd_lookupHistory = [], sd_storage = []\<rparr>"

definition sample_slice :: state_slice where
  "sample_slice = \<lparr>sl_services = [(1, sample_service), (2, sample_service)],
    sl_privilegedServices = \<lparr>pv_manager = 1, pv_delegator = 1, pv_registrar = 1, pv_assigners = [1, 1],
      pv_autoAccumulateServices = []\<rparr>\<rparr>"

definition sample_partial :: partial_state where
  "sample_partial = \<lparr>ps_state = sample_slice, ps_update = accumulation_empty\<rparr>"

definition sample_ext :: externalities where
  "sample_ext = \<lparr>ex_chainSpec = tiny_data, ex_currentServiceId = 1, ex_currentTimeslot = 7,
    ex_updatedState = sample_partial, ex_checkpointedState = accumulation_empty, ex_nextNewServiceId = 65536\<rparr>"

text \<open>After a transfer of 100 to the second service, and after writing two bytes under the key 5.\<close>

definition sample_transfer :: externalities where
  "sample_transfer = (case transfer sample_ext (Some 2) 100 10 [] of Inr e \<Rightarrow> e | Inl _ \<Rightarrow> sample_ext)"

definition sample_write :: externalities where
  "sample_write = written sample_ext [5] (Some [6, 7])
    (sample_account\<lparr>storageUtilisationBytes := 37, storageUtilisationCount := 1\<rparr>)"

lemma sample_info:
  "ps_getServiceInfo sample_partial (Some s) = (if s = 1 \<or> s = 2 then Some sample_account else None)"
  by (simp add: ps_getServiceInfo_def sample_partial_def sample_slice_def sample_service_def accumulation_empty_def
      empty_services_update_def)

lemma sample_sound: "wf_ext sample_ext \<and> sound_ledger (ledger_of sample_ext)"
  using finite_accounts [of sample_partial]
  by (auto simp: wf_ext_def sound_ledger_def ledger_of_def sample_ext_def sample_info MIN_PUBLIC_SERVICE_INDEX_def
      sound_account_def threshold_def sample_account_def split: if_splits)

lemma sample_current: "ps_getServiceInfo (ex_updatedState sample_ext) (Some (ex_currentServiceId sample_ext)) = Some sample_account"
  by (simp add: sample_ext_def sample_info)

lemma sample_transfer_run: "transfer sample_ext (Some 2) 100 10 [] = Inr sample_transfer"
proof -
  have cur: "getCurrentServiceInfo sample_ext = Inr sample_account" by (simp add: sample_current)
  have dest: "getServiceInfo sample_ext (Some 2) = Some sample_account"
    by (simp add: getServiceInfo_def sample_ext_def sample_info)
  show ?thesis unfolding sample_transfer_def transfer_def cur dest
    by (simp add: calculateThresholdBalance_eq tryAsU64_def isU64_iff sample_account_def Let_def)
qed

lemma sample_write_run: "ext_write sample_ext [5] (Some [6, 7]) = Inr (sample_write, None)"
proof -
  have "current_entry sample_ext [5] = None"
    by (simp add: sample_ext_def ps_getStorage_def sample_partial_def sample_slice_def sample_service_def accumulation_empty_def
      empty_services_update_def sv_getStorage_def jm_get_or_def)
  then show ?thesis
    unfolding ext_write_eq [OF sample_current] sample_write_def
    by (simp add: account_entry_def entry_bytes_def entry_count_def sample_account_def threshold_def)
qed

lemma sample_transfer_step: "ext_step H sample_ext sample_transfer"
  by (rule ext_step.intros(3) [OF _ sample_transfer_run]) simp

lemma sample_write_step: "ext_step H sample_ext sample_write"
  by (rule ext_step.intros(13) [OF sample_write_run])

lemma sample_proper: "proper_update (ps_services (ex_updatedState sample_ext))"
  by (simp add: sample_ext_def sample_partial_def accumulation_empty_def proper_empty)

lemma sample_steps:
  "(ext_step H)\<^sup>*\<^sup>* sample_ext sample_transfer" "(ext_step H)\<^sup>*\<^sup>* sample_ext sample_write"
  by (rule r_into_rtranclp, rule sample_transfer_step) (rule r_into_rtranclp, rule sample_write_step)

definition sample_committed :: services where
  "sample_committed = fst (applyServicesUpdate (sl_services sample_slice) (ps_services (ex_updatedState sample_write)))"

lemma sample_write_state:
  "ps_state (ex_updatedState sample_write) = sample_slice"
  "ps_services (ex_updatedState sample_write) = empty_services_update\<lparr>
    su_updated := [(1, US_Update (sample_account\<lparr>storageUtilisationBytes := 37, storageUtilisationCount := 1\<rparr>))],
    su_storage := [(1, [UST_Set \<lparr>si_key = [5], si_value = [6, 7]\<rparr>])]\<rparr>"
  by (simp_all add: sample_write_def written_def sample_ext_def sample_partial_def accumulation_empty_def
      empty_services_update_def ps_updateStorage_def ps_updateServiceInfo_def jm_get_or_def splice_replace_def
      js_splice_def Let_def)

lemma sample_commit:
  "applyServicesUpdate (sl_services (ps_state (ex_updatedState sample_write)))
    (ps_services (ex_updatedState sample_write)) = (sample_committed, Inr ())"
proof -
  have "snd (applyServicesUpdate (sl_services sample_slice) (ps_services (ex_updatedState sample_write))) = Inr ()"
    by (simp add: sample_write_state applyServicesUpdate_def empty_services_update_def sample_slice_def and_then_def)
  then show ?thesis by (simp add: sample_committed_def sample_write_state prod_eq_iff)
qed

section \<open>A deposit that is lost\<close>

text \<open>Service 9 gave its code away to service 1, so service 1 may eject it and create it again.\<close>

definition ejectable_account :: service_account_info where
  "ejectable_account = sample_account\<lparr>codeHash := u32AsLeBytes 1 @ replicate 28 0, storageUtilisationBytes := 86,
    storageUtilisationCount := 2\<rparr>"

definition ejectable_service :: in_memory_service where
  "ejectable_service = sample_service\<lparr>sd_info := ejectable_account,
    sd_lookupHistory := [([3], [\<lparr>li_hash = [3], li_length = 5, li_slots = [1, 2]\<rparr>])]\<rparr>"

definition eject_ext :: externalities where
  "eject_ext = sample_ext\<lparr>ex_currentTimeslot := 100,
    ex_updatedState := sample_partial\<lparr>ps_state := sample_slice\<lparr>sl_services := (9, ejectable_service) # sl_services sample_slice\<rparr>\<rparr>\<rparr>"

definition ejected_ext :: externalities where
  "ejected_ext = on_state (\<lambda>ps. on_services (ejected_preimages 9 [3] 5)
     (ps_updateServiceInfo 1 (sample_account\<lparr>balance := 2000\<rparr>) ps)) eject_ext"

definition recreated_ext :: externalities where
  "recreated_ext = on_state (\<lambda>ps. ps_updateServiceInfo 1 (sample_account\<lparr>balance := 1794\<rparr>)
     (ps_createService 9 (new_account ejected_ext [4] 206 1 1 86 2 0) \<lparr>li_hash = [4], li_length = 5, li_slots = []\<rparr> ps)) ejected_ext"

lemma eject_info:
  "ps_getServiceInfo (ex_updatedState eject_ext) (Some s) =
    (if s = 9 then Some ejectable_account else if s = 1 \<or> s = 2 then Some sample_account else None)"
  by (simp add: ps_getServiceInfo_def eject_ext_def sample_partial_def sample_slice_def sample_service_def
      ejectable_service_def accumulation_empty_def empty_services_update_def)

lemma eject_fields [simp]:
  "ex_currentServiceId eject_ext = 1" "ex_currentTimeslot eject_ext = 100" "ex_chainSpec eject_ext = tiny_data"
  "ex_nextNewServiceId eject_ext = 65536"
  "ps_services (ex_updatedState eject_ext) = empty_services_update" "au_transfers (ps_update (ex_updatedState eject_ext)) = []"
  "ps_getPrivilegedServices (ex_updatedState eject_ext) = sl_privilegedServices sample_slice"
  by (simp_all add: eject_ext_def sample_ext_def sample_partial_def accumulation_empty_def ps_getPrivilegedServices_def)

lemma eject_run: "eject eject_ext (Some 9) [3] = Inr ejected_ext"
proof -
  have l: "ps_getLookupHistory (ex_updatedState eject_ext) 100 9 [3] 5 = Some \<lparr>li_hash = [3], li_length = 5, li_slots = [1, 2]\<rparr>"
    by (simp add: ps_getLookupHistory_def eject_ext_def sample_partial_def accumulation_empty_def empty_services_update_def
        preimageLenAsU32_def ejectable_service_def sv_getLookupHistory_def jm_get_or_def)
  have cur: "getCurrentServiceInfo eject_ext = Inr sample_account" by (simp add: eject_info)
  show ?thesis
    unfolding eject_def getServiceInfo_def cur
    by (simp add: eject_info empty_services_update_def ejectable_account_def sample_account_def
      REQUIRED_NUMBER_OF_STORAGE_ITEMS_FOR_EJECT_def LOOKUP_HISTORY_ENTRY_BYTES_def maxU64_def tryAsU64_def isU64_iff
      isPreviousCodeExpired_def l tiny_data_def sumU64_eq tryAsU32_def isU32_iff ejected_ext_def Let_def)
qed

lemma ejected_info:
  "ps_getServiceInfo (ex_updatedState ejected_ext) (Some s) =
    (if s = 9 then None else if s = 1 then Some (sample_account\<lparr>balance := 2000\<rparr>) else if s = 2 then Some sample_account else None)"
  using eject_info [of s]
  by (simp add: ejected_ext_def ps_getServiceInfo_def ejected_preimages_def ps_updateServiceInfo_def empty_services_update_def
      split: if_splits)

lemma recreate_run: "newService ejected_ext [4] 5 1 1 0 9 = Inr (9, Some recreated_ext)"
proof -
  have cur: "getCurrentServiceInfo ejected_ext = Inr (sample_account\<lparr>balance := 2000\<rparr>)"
    by (simp add: ejected_info) (simp add: ejected_ext_def eject_info)
  have "ex_currentServiceId ejected_ext = 1" "ps_getPrivilegedServices (ex_updatedState ejected_ext) = sl_privilegedServices sample_slice"
    by (simp_all add: ejected_ext_def ps_getPrivilegedServices_def ps_updateServiceInfo_def eject_ext_def sample_partial_def
        sample_ext_def accumulation_empty_def)
  then show ?thesis
    unfolding newService_def cur
    by (simp add: sumU64_eq LOOKUP_HISTORY_ENTRY_BYTES_def calculateThresholdBalance_eq sample_account_def tryAsU64_def
      isU64_iff place_service_def clampU64ToU32_def MAX_VALUE_U32_def tryAsU32_def isU32_iff MIN_PUBLIC_SERVICE_INDEX_def
      getServiceInfo_def ejected_info sample_slice_def recreated_ext_def Let_def)
qed

lemma eject_sound: "wf_ext eject_ext \<and> sound_ledger (ledger_of eject_ext)"
  using finite_accounts [of "ex_updatedState eject_ext"]
  by (auto simp: wf_ext_def sound_ledger_def ledger_of_def eject_info MIN_PUBLIC_SERVICE_INDEX_def
      sound_account_def threshold_def sample_account_def ejectable_account_def split: if_splits)

lemma eject_recreate_run: "ext_run H eject_ext 206 recreated_ext"
proof -
  have "ext_step H eject_ext ejected_ext" by (rule ext_step.intros(12) [OF _ eject_run]) simp
  moreover have "ext_call H ejected_ext 206 recreated_ext"
  proof (rule call_recreate [OF recreate_run])
    show "9 \<in> set (ejected ejected_ext)" by (simp add: ejected_ext_def ejected_preimages_def)
    show "calculateThresholdBalance 2 (LOOKUP_HISTORY_ENTRY_BYTES + 5) 0 = Inr 206"
      by (simp add: calculateThresholdBalance_eq LOOKUP_HISTORY_ENTRY_BYTES_def)
  qed
  ultimately show ?thesis
    using run_call [OF run_call [OF run_refl [of H eject_ext] call_step [of H eject_ext ejected_ext]], of 206 recreated_ext] by simp
qed

end
