(* ===== verification/AccumulateSamples.thy ===== *)
theory AccumulateSamples
  imports AccumulateReturns ServiceSamples
begin

text \<open>
  An executor that sends one transfer, run on a service whose code is in the state. The transfer is
  recorded before it is paid for: with too little gas the run fails with the transfer in its state, and the
  checkpoint is handed on.
\<close>

definition paying_executor :: executor where
  "paying_executor = (\<lambda>s code e fd args g.
    case transfer e (Some 2) 10 10 [] of
      Inl _ \<Rightarrow> \<lparr>er_isOk = True, er_memorySlice = [], er_consumedGas = 0, er_externalities = e\<rparr>
    | Inr e' \<Rightarrow> \<lparr>er_isOk = (20 \<le> g), er_memorySlice = [], er_consumedGas = (if 20 \<le> g then 20 else max 0 g),
        er_externalities = e'\<rparr>)"

definition sample_payment :: pending_transfer where
  "sample_payment = \<lparr>tr_source = 1, tr_destination = 2, tr_amount = 10, tr_memo = [], tr_gas = 10\<rparr>"

lemma paying_steps: "steps_executor H paying_executor"
proof -
  have "ext_step H e e'" if "transfer e (Some 2) 10 10 [] = Inr e'" for e e'
    by (rule ext_step.intros(3) [OF _ that]) simp
  then show ?thesis by (auto simp: steps_executor_def paying_executor_def split: sum.split)
qed

lemma paying_metered: "metered_executor paying_executor"
  unfolding metered_executor_def Let_def
proof (intro allI impI, elim conjE)
  fix s code and e :: externalities and fd args g
  assume none: "au_transfers (ps_update (ex_updatedState e)) = []" "au_transfers (ex_checkpointedState e) = []"
  show "paid (au_transfers (handed_on (paying_executor s code e fd args g))) (er_consumedGas (paying_executor s code e fd args g))"
  proof (cases "transfer e (Some 2) 10 10 []")
    case (Inl err)
    then show ?thesis by (simp add: paying_executor_def handed_on_def none)
  next
    case (Inr e')
    from Inr show ?thesis
      by (rule transfer_cases) (simp add: paying_executor_def handed_on_def none Inr paid_def)
  qed
qed

lemma paying_spares: "sparing_executor x paying_executor"
  unfolding sparing_executor_def
proof (intro allI impI, elim conjE)
  fix s code and e :: externalities and fd args g
  assume x: "ps_getServiceInfo (ex_updatedState e) (Some x) = None" "unused x (ps_update (ex_updatedState e))"
    "unused x (ex_checkpointedState e)"
  show "unused x (handed_on (paying_executor s code e fd args g))"
  proof (cases "transfer e (Some 2) 10 10 []")
    case (Inl err)
    then show ?thesis using x by (simp add: paying_executor_def handed_on_def)
  next
    case (Inr e')
    from Inr show ?thesis
    proof (rule transfer_cases)
      fix i destId dest
      assume i: "ps_getServiceInfo (ex_updatedState e) (Some (ex_currentServiceId e)) = Some i"
        and e': "e' = on_state (ps_updateServiceInfo (ex_currentServiceId e) (i\<lparr>balance := balance i - 10\<rparr>))
          (on_update (\<lambda>u. u\<lparr>au_transfers := au_transfers u @
            [\<lparr>tr_source = ex_currentServiceId e, tr_destination = destId, tr_amount = 10, tr_memo = [], tr_gas = 10\<rparr>]\<rparr>) e)"
      have "x \<noteq> ex_currentServiceId e" using i x(1) by auto
      then have "unused x (ps_update (ex_updatedState e'))" using x(2)
        by (simp add: e' unused_def ps_updateServiceInfo_def)
      moreover have "ex_checkpointedState e' = ex_checkpointedState e" by (simp add: e')
      ultimately show ?thesis using x(3) by (simp add: paying_executor_def handed_on_def Inr)
    qed
  qed
qed

section \<open>A service with code\<close>

definition coded_slice :: state_slice where
  "coded_slice = sample_slice\<lparr>sl_services :=
    [(1, sample_service\<lparr>sd_preimages := [([1], \<lparr>pi_hash = [1], pi_blob = [9]\<rparr>)]\<rparr>), (2, sample_service)]\<rparr>"

definition sample_hash :: "blob \<Rightarrow> blob" where
  "sample_hash x = take 32 (x @ replicate 32 0)"

lemma length_sample_hash [simp]: "length (sample_hash x) = 32"
  by (simp add: sample_hash_def)

abbreviation paying_single :: single_service where
  "paying_single \<equiv> accumulateSingleService tiny_data sample_hash paying_executor coded_slice 7 (replicate 32 1)"

definition rich :: "int \<Rightarrow> partial_state" where
  "rich b = ps_updateServiceInfo 1 (sample_account\<lparr>balance := b\<rparr>) \<lparr>ps_state = coded_slice, ps_update = accumulation_empty\<rparr>"

lemma coded_info:
  "ps_getServiceInfo \<lparr>ps_state = coded_slice, ps_update = accumulation_empty\<rparr> (Some s) = (if s = 1 \<or> s = 2 then Some sample_account else None)"
  by (simp add: ps_getServiceInfo_def coded_slice_def sample_service_def accumulation_empty_def empty_services_update_def)

lemma rich_info:
  "ps_getServiceInfo (rich b) (Some s) =
    (if s = 1 then Some (sample_account\<lparr>balance := b\<rparr>) else if s = 2 then Some sample_account else None)"
proof -
  have "su_removed (ps_services \<lparr>ps_state = coded_slice, ps_update = accumulation_empty\<rparr>) = []"
    by (simp add: accumulation_empty_def empty_services_update_def)
  then show ?thesis by (simp add: rich_def partial_reads coded_info)
qed

lemma rich_code: "ps_getPreimage (rich b) 1 (codeHash (sample_account\<lparr>balance := b\<rparr>)) = Some [9]"
  by (simp add: rich_def ps_getPreimage_def ps_updateServiceInfo_def coded_slice_def accumulation_empty_def
      empty_services_update_def sv_getPreimage_def jm_get_or_def sample_account_def)

lemma rich_transfers: "au_transfers (ps_update (rich b)) = []"
  by (simp add: rich_def accumulation_empty_def)

interpretation args_tail: two_codecs codec_varU32 nat_bytes "\<lambda>n. 0 \<le> n \<and> n < 2 ^ 32" codec_varU32 nat_bytes
  "\<lambda>n. 0 \<le> n \<and> n < 2 ^ 32"
  by (intro two_codecs.intro varU32.codec_axioms)

interpretation args_pair: two_codecs codec_varU32 nat_bytes "\<lambda>n. 0 \<le> n \<and> n < 2 ^ 32"
  "codec_pair codec_varU32 codec_varU32" "\<lambda>p. nat_bytes (fst p) @ nat_bytes (snd p)"
  "\<lambda>p. (0 \<le> fst p \<and> fst p < 2 ^ 32) \<and> 0 \<le> snd p \<and> snd p < 2 ^ 32"
  by (intro two_codecs.intro varU32.codec_axioms args_tail.pair_codec)

interpretation args_codec: codec ARGS_CODEC "\<lambda>p. nat_bytes (fst p) @ nat_bytes (fst (snd p)) @ nat_bytes (snd (snd p))"
  "\<lambda>p. (0 \<le> fst p \<and> fst p < 2 ^ 32) \<and> (0 \<le> fst (snd p) \<and> fst (snd p) < 2 ^ 32) \<and> 0 \<le> snd (snd p) \<and> snd (snd p) < 2 ^ 32"
  using args_pair.pair_codec by (simp add: ARGS_CODEC_def)

text \<open>The arguments of every invocation can be encoded.\<close>

lemma args_encoded:
  assumes "0 \<le> t" "t < 2 ^ 32" "0 \<le> s" "s < 2 ^ 32" "0 \<le> n" "n < 2 ^ 32"
  shows "encodeObject ARGS_CODEC (t, s, n) = Inr (nat_bytes t @ nat_bytes s @ nat_bytes n)"
  using args_codec.encodeObject_eq(1) [of "(t, s, n)"] assms extra_bytes_le [of t] extra_bytes_le [of s] extra_bytes_le [of n]
  by (simp add: MAX_LENGTH_def)

text \<open>The transfer of the executor, and an accumulation that makes it.\<close>

lemma paying_transfer:
  assumes "ex_updatedState e = rich b" "ex_currentServiceId e = 1" "110 \<le> b" "b < 2 ^ 64"
  shows "\<exists>e'. transfer e (Some 2) 10 10 [] = Inr e' \<and> au_transfers (ps_update (ex_updatedState e')) = [sample_payment]"
proof -
  have cur: "getCurrentServiceInfo e = Inr (sample_account\<lparr>balance := b\<rparr>)" by (simp add: assms(1,2) rich_info)
  have dest: "getServiceInfo e (Some 2) = Some sample_account" by (simp add: getServiceInfo_def assms(1) rich_info)
  show ?thesis unfolding transfer_def cur dest using assms(3,4)
    by (simp add: calculateThresholdBalance_eq tryAsU64_def isU64_iff sample_account_def assms(1,2) rich_transfers sample_payment_def)
qed

lemma paying_invocation:
  assumes "110 \<le> b" "b < 2 ^ 64" "20 \<le> g" "length ts + length ops < 2 ^ 32"
  shows "\<exists>v. pvmAccumulateInvocation tiny_data sample_hash paying_executor 7 1 ts ops g (replicate 32 1) (rich b) =
      Some (Inr (Inr \<lparr>iv_stateUpdate = v, iv_consumedGas = 20\<rparr>)) \<and> au_transfers v = [sample_payment]"
proof -
  obtain nid where nid: "generateNextServiceId sample_hash 1 (replicate 32 1) 7 = Inr nid"
    using generateNextServiceId_range [of 1 "replicate 32 1" 7 sample_hash] by auto
  have "is_public 65536" by (simp add: MIN_PUBLIC_SERVICE_INDEX_def public_ids_def)
  then obtain j where "getNextAvailableServiceId (rich b) nid = Some j"
    using getNextAvailable_returns [of 65536 "rich b" nid] by (auto simp: rich_info)
  then obtain e where e: "forService tiny_data (rich b) 1 nid 7 = Some (Inr e)" "ex_updatedState e = rich b" "ex_currentServiceId e = 1"
    by (simp add: forService_def rich_info)
  obtain e' where e': "transfer e (Some 2) 10 10 [] = Inr e'" "au_transfers (ps_update (ex_updatedState e')) = [sample_payment]"
    using paying_transfer [OF e(2,3) assms(1,2)] by blast
  have n: "tryAsU32 (int (length ts + length ops)) = Inr (int (length ts + length ops))"
    using assms(4) by (simp add: tryAsU32_def isU32_iff)
  have args: "encodeObject ARGS_CODEC (7, 1, int (length ts + length ops)) =
      Inr (nat_bytes 7 @ nat_bytes 1 @ nat_bytes (int (length ts + length ops)))"
    using assms(4) by (intro args_encoded) simp_all
  have info: "ps_getServiceInfo (rich b) (Some 1) = Some (sample_account\<lparr>balance := b\<rparr>)" by (simp add: rich_info)
  show ?thesis
    unfolding pvmAccumulateInvocation_def info option.case rich_code
    using nid e(1) n args e' assms(3)
    by (simp add: bindR_def W_C_def invocation_outcome_def getStateUpdates_def paying_executor_def tryAsU64_def isU64_iff)
qed

lemma paying_single_run:
  assumes "\<forall>t \<in> set ts. 0 \<le> tr_amount t" "1000 + (\<Sum>t\<leftarrow>ts. tr_amount t) < 2 ^ 64" "20 \<le> g" "length ts + length ops < 2 ^ 32"
  shows "\<exists>v. paying_single 1 ts ops g accumulation_empty = Some (Inr \<lparr>si_stateUpdate = Some v, si_consumedGas = 20\<rparr>) \<and>
    au_transfers v = [sample_payment]"
proof -
  have nonneg: "0 \<le> (\<Sum>t\<leftarrow>ts. tr_amount t)" using assms(1) by (auto intro!: sum_list_nonneg)
  have info: "ps_getServiceInfo \<lparr>ps_state = coded_slice, ps_update = accumulation_empty\<rparr> (Some 1) = Some sample_account"
    by (simp add: coded_info)
  have sum: "sumU64 (balance sample_account # map tr_amount ts) = Inr \<lparr>overflow = False, sum_value = 1000 + (\<Sum>t\<leftarrow>ts. tr_amount t)\<rparr>"
    using assms(2) nonneg by (simp add: sample_account_def sumU64_eq)
  obtain v where "pvmAccumulateInvocation tiny_data sample_hash paying_executor 7 1 ts ops g (replicate 32 1)
      (rich (1000 + (\<Sum>t\<leftarrow>ts. tr_amount t))) = Some (Inr (Inr \<lparr>iv_stateUpdate = v, iv_consumedGas = 20\<rparr>))" "au_transfers v = [sample_payment]"
    using paying_invocation [of "1000 + (\<Sum>t\<leftarrow>ts. tr_amount t)" g ts ops] assms nonneg by auto
  then show ?thesis
    unfolding accumulateSingleService_def Let_def info option.case sum
    by (simp add: bindR_def invoke_single_def rich_def)
qed

section \<open>Rounds\<close>

definition paying_args :: sequential_args where
  "paying_args = \<lparr>sq_gasLimit = 100, sq_reports = [], sq_transfers = [], sq_statistics = [], sq_stateUpdate = accumulation_empty,
    sq_autoAccumulate = [(1, 30)], sq_yieldedRoots = []\<rparr>"

lemma paying_good_args: "good_args paying_args"
  by (simp add: good_args_def gas_in_play_def paying_args_def accumulation_empty_def)

lemma paying_ids_left: "ids_left cp tiny_data privileged coded_slice paying_single paying_args"
proof (rule sparing_ids_left [OF paying_spares])
  show "getService coded_slice 65536 = None" by (simp add: coded_slice_def)
  show "unused 65536 (sq_stateUpdate paying_args)"
    by (simp add: unused_def paying_args_def accumulation_empty_def empty_services_update_def)
  show "is_public 65536" by (simp add: MIN_PUBLIC_SERVICE_INDEX_def public_ids_def)
qed

lemma coded_funds: "\<exists>F. holds_funds \<lparr>ps_state = coded_slice, ps_update = accumulation_empty\<rparr> F"
  using finite_accounts [of "\<lparr>ps_state = coded_slice, ps_update = accumulation_empty\<rparr>"]
  by (auto simp: holds_funds_def sound_ledger_def ledger_ps_def coded_info sound_account_def threshold_def sample_account_def
      split: if_splits)

end
