(* ===== verification/AccumulateProperties.thy ===== *)
theory AccumulateProperties
  imports AccumulateSpec AccumulateSamples
begin

text \<open>
  The properties of the accumulation transition: the order of the reports, the input of every service, the
  merge of the results, the end of the recursion over rounds, the funds of a single service, the queue left
  behind, and the ids of new services. Each has a small concrete instance.
\<close>

section \<open>Samples\<close>

definition sample_result :: work_result where
  "sample_result = \<lparr>re_serviceId = 1, re_codeHash = [1], re_payloadHash = [2], re_gas = 40, re_result = WER_panic,
    re_load = \<lparr>ld_gasUsed = 0, ld_importedSegments = 0, ld_extrinsicCount = 0, ld_extrinsicSize = 0, ld_exportedSegments = 0\<rparr>\<rparr>"

definition sample_report :: work_report where
  "sample_report = \<lparr>wr_workPackageSpec = \<lparr>wp_hash = [9], wp_length = 1, wp_erasureRoot = [], wp_exportsRoot = [], wp_exportsCount = 0\<rparr>,
    wr_context = \<lparr>rc_anchor = [], rc_stateRoot = [], rc_beefyRoot = [], rc_lookupAnchor = [], rc_lookupAnchorSlot = 0,
      rc_prerequisites = []\<rparr>,
    wr_coreIndex = 0, wr_authorizerHash = [3], wr_authorizationOutput = [], wr_segmentRootLookup = [],
    wr_results = [sample_result], wr_authorizationGasUsed = 0\<rparr>"

definition sample_deposit :: pending_transfer where
  "sample_deposit = \<lparr>tr_source = 2, tr_destination = 1, tr_amount = 50, tr_memo = [], tr_gas = 5\<rparr>"

lemma sample_fields [simp]:
  "wr_results sample_report = [sample_result]" "re_serviceId sample_result = 1" "re_gas sample_result = 40"
  "tr_destination sample_deposit = 1" "tr_gas sample_deposit = 5" "tr_amount sample_deposit = 50"
  "pv_assigners (sl_privilegedServices sample_slice) = [1, 1]" "coresCount tiny_data = 2"
  "au_privilegedServices accumulation_empty = None" "au_transfers accumulation_empty = []"
  by (simp_all add: sample_report_def sample_result_def sample_deposit_def sample_slice_def tiny_data_def accumulation_empty_def)

section \<open>Which reports are accumulated\<close>

text \<open>C22: the order of accumulation. The reports taken from the queue are exactly those whose dependencies
  can be met from the queue, in the inductive sense, and every report comes after all it depends on.\<close>

theorem enqueue_order:
  "dependency_order q (enqueueReports q) \<and> package_hash ` set (enqueueReports q) = {h. accumulable q h}"
  using enqueueReports_order enqueueReports_set by blast

text \<open>C25: the input of a service. The services of a round are those with a work result, a transfer or a free
  allowance, in ascending order; every service gets its results as operands in the order of the reports, its
  transfers in their order, and the saturated sum of all gas that is meant for it.\<close>

theorem service_inputs:
  assumes "length (concat (map wr_results reports)) < 2 ^ 32" "\<forall>t \<in> set transfers. 0 \<le> tr_gas t"
    "\<forall>g \<in> snd ` set auto. 0 \<le> g"
  shows "\<exists>d. new_accumulateData reports transfers auto = Inr d \<and>
    ad_serviceIds d = sorted_list_of_set (set (map (int \<circ> re_serviceId) (concat (map wr_results reports)) @
      map fst auto @ map tr_destination transfers)) \<and>
    (\<forall>i. service_input reports transfers auto d i)"
  using new_accumulateData_spec [OF assms] .

theorem service_inputs_witness:
  "\<exists>d. new_accumulateData [sample_report] [sample_deposit] [(7, 30)] = Inr d \<and> ad_serviceIds d = [1, 7] \<and> getGasLimit d 1 = 45"
proof -
  obtain d where d: "new_accumulateData [sample_report] [sample_deposit] [(7, 30)] = Inr d"
    "ad_serviceIds d = sorted_list_of_set {1, 7}" "service_input [sample_report] [sample_deposit] [(7, 30)] d 1"
    using service_inputs [of "[sample_report]" "[sample_deposit]" "[(7, 30)]"] by (auto simp: insert_commute)
  have "sorted_list_of_set {1, 7 :: int} = [1, 7]" using sorted_list_of_set.idem_if_sorted_distinct [of "[1, 7 :: int]"] by simp
  then show ?thesis using d
    by (simp add: service_input_def service_results_def service_transfers_def sat_def jm_get_or_def)
qed

text \<open>C23: the merge. For results of different services the merge returns; the transfers are those of all services
  in their order, the gas is the saturated sum, the storage of a service is what that service wrote or else the
  input's, and the created services are those of the input and the new ones, each once.\<close>

theorem merge_results:
  assumes "distinct (map fst results)" "\<forall>(_, r) \<in> set results. 0 \<le> rv_consumedGas r"
    "length (pv_assigners (case au_privilegedServices input of Some p \<Rightarrow> p | None \<Rightarrow> privileged)) = coresCount spec"
  shows "\<exists>m. mergePerallelAccumulationResults spec privileged input results = Inr m \<and> merge_facts input results m"
  using merge_returns [OF assms(2,3)] merge_spec [OF _ assms(1,2)] by blast

theorem merge_results_witness:
  "\<exists>m. mergePerallelAccumulationResults tiny_data (sl_privilegedServices sample_slice) accumulation_empty
      [(1, \<lparr>rv_consumedGas = 7, rv_stateUpdate = accumulation_empty\<lparr>au_transfers := [sample_deposit]\<rparr>\<rparr>)] = Inr m \<and>
    mr_transfers m = [sample_deposit]"
  using merge_results [of "[(1, \<lparr>rv_consumedGas = 7, rv_stateUpdate = accumulation_empty\<lparr>au_transfers := [sample_deposit]\<rparr>\<rparr>)]"
      "sl_privilegedServices sample_slice" accumulation_empty tiny_data]
  by (auto simp: merge_facts_def)

section \<open>Rounds\<close>

text \<open>C24: the recursion of the outer accumulation ends. When what an execution hands on is paid for (the gas of
  every transfer in it and ten units for each; for a run that failed, out of gas for instance, that is its
  checkpoint, whatever it had recorded since) and some public id is free in every call the recursion makes, so that
  the search for an id ends, then the whole sequence of rounds returns. An execution itself is a function here: it
  returns, because its gas runs out.\<close>

theorem accumulation_returns:
  assumes "metered_executor exec" "good_args a"
    "ids_left cp spec privileged st (accumulateSingleService spec H exec st slot entropy) a"
  shows "accumulateSequentially cp spec privileged (accumulateSingleService spec H exec st slot entropy) a \<noteq> None"
  using sequential_returns [OF single_service_metered [OF assms(1)] ids_left_return [OF assms(3)] assms(2)] .

theorem accumulation_returns_witness:
  "accumulateSequentially \<lparr>gp072 = True, davxy071 = False\<rparr> tiny_data (sl_privilegedServices coded_slice) paying_single paying_args \<noteq> None \<and>
    (\<exists>v. paying_single 1 [] [] 30 accumulation_empty = Some (Inr \<lparr>si_stateUpdate = Some v, si_consumedGas = 20\<rparr>) \<and>
      au_transfers v = [sample_payment])"
  using accumulation_returns [OF paying_metered paying_good_args paying_ids_left] paying_single_run [of "[]" 30 "[]"]
  by simp

text \<open>C21: funds of a single accumulation. Whatever the executor does by calling the externalities, after a service
  was accumulated the ledger is sound and holds what it held before, plus the amounts of the incoming transfers, less
  the deposits of services the execution put under an id it had ejected (nothing when it does not do that).
  The incoming amounts are lost when the service does not exist and when its balance would overflow; in the
  second case the service is not run and the state stays as it was.\<close>

theorem single_accumulation_funds:
  assumes "accumulateSingleService spec H exec st slot entropy s ts ops g u = Some (Inr r)"
    "calls_executor H exec" "\<forall>t \<in> set ts. 0 \<le> tr_amount t"
    "holds_funds \<lparr>ps_state = st, ps_update = u\<rparr> F"
  shows "\<exists>lost \<ge> 0. holds_funds \<lparr>ps_state = st, ps_update = update_after r u\<rparr>
      (F + incoming \<lparr>ps_state = st, ps_update = u\<rparr> s ts - lost) \<and> (steps_executor H exec \<longrightarrow> lost = 0)"
proof (cases "steps_executor H exec")
  case True
  from single_service_funds [OF assms(1) steps_losing [OF this] refl assms(3,4)] show ?thesis
    unfolding holds_lossy_def by blast
next
  case False
  with single_service_funds [OF assms(1) calls_losing [OF assms(2)] TrueI assms(3,4)] show ?thesis
    unfolding holds_lossy_def by blast
qed

text \<open>Service 1 receives 50 and sends 10; service 5 does not exist and 50 are lost.\<close>

theorem single_accumulation_funds_witness:
  "\<exists>v F. paying_single 1 [sample_deposit] [] 30 accumulation_empty = Some (Inr \<lparr>si_stateUpdate = Some v, si_consumedGas = 20\<rparr>) \<and>
    au_transfers v = [sample_payment] \<and> holds_funds \<lparr>ps_state = coded_slice, ps_update = accumulation_empty\<rparr> F \<and>
    holds_funds \<lparr>ps_state = coded_slice, ps_update = v\<rparr> (F + 50) \<and>
    incoming \<lparr>ps_state = coded_slice, ps_update = accumulation_empty\<rparr> 5 [sample_deposit] = 0"
proof -
  obtain F where F: "holds_funds \<lparr>ps_state = coded_slice, ps_update = accumulation_empty\<rparr> F" using coded_funds by blast
  obtain v where v: "paying_single 1 [sample_deposit] [] 30 accumulation_empty = Some (Inr \<lparr>si_stateUpdate = Some v, si_consumedGas = 20\<rparr>)"
    "au_transfers v = [sample_payment]" using paying_single_run [of "[sample_deposit]" 30 "[]"] by auto
  have "incoming \<lparr>ps_state = coded_slice, ps_update = accumulation_empty\<rparr> s [sample_deposit] = (if s = 1 \<or> s = 2 then 50 else 0)" for s
    by (simp add: incoming_def coded_info sample_account_def)
  moreover have "holds_funds \<lparr>ps_state = coded_slice, ps_update = v\<rparr>
      (F + incoming \<lparr>ps_state = coded_slice, ps_update = accumulation_empty\<rparr> 1 [sample_deposit])"
    using single_accumulation_funds [OF v(1) steps_calls [OF paying_steps] _ F] paying_steps by (auto simp: update_after_def)
  ultimately show ?thesis using v F by auto
qed

section \<open>The block\<close>

text \<open>C26: the queue after a block. The slot of the block holds the reports that wait, slots the chain skipped are
  empty, the others lose what was accumulated and the dependencies on it, and the ring of accumulated packages
  moves by one slot.\<close>

theorem queue_after_block:
  assumes "getAccumulationStateUpdate spec st accumulated later slot ids su = Inr u"
    "length (as_accumulationQueue st) = epochLength spec" "0 < epochLength spec" "j < epochLength spec"
  shows "ac_accumulationQueue u ! j =
      (let hs = map package_hash accumulated; ago = slots_ago (epochLength spec) (slot mod epochLength spec) j in
       if ago = 0 then pruneQueue later hs
       else if int ago < int slot - int (as_timeslot st) then [] else pruneQueue (as_accumulationQueue st ! j) hs) \<and>
    ac_timeslot u = slot \<and> butlast (ac_recentlyAccumulated u) = tl (as_recentlyAccumulated st) \<and>
    set (last (ac_recentlyAccumulated u)) = package_hash ` set accumulated"
  using queue_update [OF assms] by blast

definition two_slots :: chain_spec where
  "two_slots = tiny_data\<lparr>epochLength := 2\<rparr>"

definition waiting :: not_yet_accumulated where
  "waiting = \<lparr>ny_report = sample_report, ny_dependencies = [[8]]\<rparr>"

definition sample_chain :: accumulate_state where
  "sample_chain = \<lparr>as_timeslot = 4, as_slice = sample_slice, as_recentlyAccumulated = [[], [[1]]],
    as_accumulationQueue = [[], [waiting]], as_authQueues = []\<rparr>"

lemma sample_chain_update:
  "\<exists>u. getAccumulationStateUpdate two_slots sample_chain [] [] 5 [] empty_services_update = Inr u"
  by (simp add: getAccumulationStateUpdate_def two_slots_def sample_chain_def tiny_data_def Let_def tryAsPerEpochBlock_def
      bindE_Inr_iff)

theorem queue_after_block_witness:
  "\<exists>u. getAccumulationStateUpdate two_slots sample_chain [] [] 5 [] empty_services_update = Inr u \<and>
    ac_accumulationQueue u ! 1 = [] \<and> ac_timeslot u = 5"
proof -
  obtain u where u: "getAccumulationStateUpdate two_slots sample_chain [] [] 5 [] empty_services_update = Inr u"
    using sample_chain_update by blast
  show ?thesis using queue_after_block [OF u, of 1] u
    by (simp add: two_slots_def sample_chain_def slots_ago_def pruneQueue_def Let_def tiny_data_def)
qed

text \<open>No service is reported as created twice. The transition collects created services in a set before it
  looks for duplicates, so its only error never occurs.\<close>

theorem duplicate_never_reported:
  "accumulate_transition cp spec H exec st reports slot entropy \<noteq> Some (Inl (Failed DuplicateServiceCreated))"
  by (rule never_duplicate)

text \<open>The first id tried for a new service lies in the public range, for every hash of 32 bytes.\<close>

theorem next_service_id:
  assumes "0 \<le> s" "s < 2 ^ 32" "length entropy = 32" "0 \<le> t" "t < 2 ^ 32" "\<And>x. length (H x) = 32"
  shows "\<exists>i. generateNextServiceId H s entropy t = Inr i \<and>
    MIN_PUBLIC_SERVICE_INDEX \<le> i \<and> i < MIN_PUBLIC_SERVICE_INDEX + public_ids"
  using generateNextServiceId_range [OF assms] .

theorem next_service_id_witness:
  "\<exists>i. generateNextServiceId (\<lambda>x. take 32 (x @ replicate 32 0)) 5 (replicate 32 1) 9 = Inr i \<and> 65536 \<le> i"
proof -
  let ?H = "\<lambda>x :: blob. take 32 (x @ replicate 32 0)"
  have "length (?H x) = 32" for x by simp
  then have "\<exists>i. generateNextServiceId ?H 5 (replicate 32 1) 9 = Inr i \<and>
      MIN_PUBLIC_SERVICE_INDEX \<le> i \<and> i < MIN_PUBLIC_SERVICE_INDEX + public_ids"
    by (intro next_service_id) simp_all
  then show ?thesis by (auto simp: MIN_PUBLIC_SERVICE_INDEX_def)
qed

end
