(* ===== verification/ClassCodec.thy ===== *)
theory ClassCodec
  imports Codec
begin

text \<open>
  Descriptors of classes, unions and converted values (\<open>Class\<close>, \<open>object\<close>, \<open>union\<close>, \<open>convert\<close> of
  \<open>packages/core/codec/descriptors.ts\<close> and \<open>descriptor.ts\<close>, \<open>codecWithContext\<close> and
  \<open>codecFixedSizeArray\<close> of \<open>packages/jam/block/codec-utils.ts\<close>).

  A class has named fields of different types, so its field descriptors are collected in a record
  (\<open>fields\<close>) that grows by one field at a time and works on nested pairs; \<open>codec_Class\<close> adds how an
  object is taken apart and created. A \<open>format\<close> is the specification of a descriptor, the bytes of a
  value and the values that have an encoding; \<open>implements\<close> is what the locale \<open>codec\<close> asks. The rules
  \<open>codec_rules\<close> derive it for a whole class from its fields.
\<close>

section \<open>Descriptors\<close>

record 'a fields =
  fl_encode :: "'a \<Rightarrow> encoder \<Rightarrow> encoder throws"
  fl_decode :: "'a decoding"
  fl_hints :: "size_hint list"
  fl_skips :: "(decoder \<Rightarrow> decoder throws) list"

definition no_fields :: "unit fields" where
  "no_fields = \<lparr>fl_encode = (\<lambda>_. Inr), fl_decode = (\<lambda>d. Inr ((), d)), fl_hints = [], fl_skips = []\<rparr>"

definition field :: "'a descriptor \<Rightarrow> 'b fields \<Rightarrow> ('a \<times> 'b) fields" where
  "field cd fs =
    \<lparr>fl_encode = (\<lambda>(x, y) e. bindE (rethrow (encode cd x e)) (fl_encode fs y)),
     fl_decode = (\<lambda>d. bindE (rethrow (decode cd d)) (\<lambda>(x, d).
       bindE (fl_decode fs d) (\<lambda>(y, d). Inr ((x, y), d)))),
     fl_hints = sizeHint cd # fl_hints fs, fl_skips = skip_fn cd # fl_skips fs\<rparr>"

definition codec_Class :: "'a fields \<Rightarrow> ('r \<Rightarrow> 'a) \<Rightarrow> ('a \<Rightarrow> 'r) \<Rightarrow> 'r descriptor" where
  "codec_Class fs fields_of create =
    \<lparr>encode = (\<lambda>t. fl_encode fs (fields_of t)), sizeHint = class_hint (fl_hints fs),
     decode = (\<lambda>d. bindE (fl_decode fs d) (\<lambda>(params, d). Inr (create params, d))),
     skip_fn = class_skipper (fl_hints fs) (fl_skips fs)\<rparr>"

definition codec_convert :: "'a descriptor \<Rightarrow> ('f \<Rightarrow> 'a throws) \<Rightarrow> ('a \<Rightarrow> 'f throws) \<Rightarrow> 'f descriptor" where
  "codec_convert cd inp out =
    \<lparr>encode = (\<lambda>x e. bindE (inp x) (\<lambda>y. encode cd y e)), sizeHint = sizeHint cd,
     decode = (\<lambda>d. bindE (decode cd d) (\<lambda>(y, d). bindE (out y) (\<lambda>x. Inr (x, d)))),
     skip_fn = skip_fn cd\<rparr>"

text \<open>Numbers of the records of this model are naturals, those of the codec integers.\<close>

definition codec_nat :: "int descriptor \<Rightarrow> nat descriptor" where
  "codec_nat cd = codec_convert cd (\<lambda>n. Inr (int n)) (\<lambda>i. Inr (nat i))"

text \<open>
  A union, whose kinds are \<open>0\<close>, \<open>1\<close>, and so on; the descriptor of a kind works on the values of that kind.
  \<open>Math.max\<close> of no variants does not occur.
\<close>

definition codec_union :: "('a \<Rightarrow> nat) \<Rightarrow> 'a descriptor list \<Rightarrow> 'a descriptor" where
  "codec_union kind variants =
    \<lparr>encode = (\<lambda>x e. if kind x < length variants
        then bindE (tryAsU32 (int (kind x))) (\<lambda>idx. bindE (varU32 idx e) (encode (variants ! kind x) x))
        else Inl GenericError),
     sizeHint = \<lparr>hint_bytes = 1 + Max (set (map (hint_bytes \<circ> sizeHint) variants)), isExact = False\<rparr>,
     decode = (\<lambda>d. bindE (dec_varU32 d) (\<lambda>(idx, d).
        if nat idx < length variants then decode (variants ! nat idx) d else Inl GenericError)),
     skip_fn = (\<lambda>d. bindE (dec_varU32 d) (\<lambda>(idx, d).
        if nat idx < length variants then skip_fn (variants ! nat idx) d else Inl GenericError))\<rparr>"

text \<open>A descriptor that depends on the chain parameters; its size hint comes from the default ones.\<close>

definition codec_withContext :: "('c \<Rightarrow> 'a descriptor) \<Rightarrow> 'c \<Rightarrow> 'c \<Rightarrow> 'a descriptor" where
  "codec_withContext chooser defaultContext context =
    (chooser context)\<lparr>sizeHint := \<lparr>hint_bytes = hint_bytes (sizeHint (chooser defaultContext)), isExact = False\<rparr>\<rparr>"

definition codec_fixedSizeArray :: "'a descriptor \<Rightarrow> nat \<Rightarrow> 'a list descriptor" where
  "codec_fixedSizeArray val len =
    (let checkLength = (\<lambda>xs. if len \<noteq> length xs then Inl GenericError else Inr xs)
     in codec_convert (codec_sequenceFixLen val len) checkLength checkLength)"

section \<open>Formats\<close>

record 'a format =
  fm_bytes :: "'a \<Rightarrow> byte list"
  fm_valid :: "'a \<Rightarrow> bool"

definition transcodes :: "'a descriptor \<Rightarrow> 'a format \<Rightarrow> bool" where
  "transcodes cd fm \<longleftrightarrow> (\<forall>x. fm_valid fm x \<longrightarrow> appends (encode cd x) (fm_bytes fm x) \<and>
    decodes (decode cd) (fm_bytes fm x) x \<and> skips (skip_fn cd) (fm_bytes fm x))"

definition implements :: "'a descriptor \<Rightarrow> 'a format \<Rightarrow> bool" where
  "implements cd fm \<longleftrightarrow> codec cd (fm_bytes fm) (fm_valid fm)"

definition implements_fields :: "'a fields \<Rightarrow> 'a format \<Rightarrow> bool" where
  "implements_fields fs fm \<longleftrightarrow> (\<forall>x. fm_valid fm x \<longrightarrow> appends (fl_encode fs x) (fm_bytes fm x) \<and>
    decodes (fl_decode fs) (fm_bytes fm x) x \<and> skips (skip_fields (fl_skips fs)) (fm_bytes fm x) \<and>
    (isExact (class_hint (fl_hints fs)) \<longrightarrow> length (fm_bytes fm x) = hint_bytes (class_hint (fl_hints fs))))"

named_theorems codec_rules \<open>a descriptor implements its format\<close>

definition fm_nat_le :: "nat \<Rightarrow> nat format" where
  "fm_nat_le n = \<lparr>fm_bytes = (\<lambda>x. le_bytes n (int x)), fm_valid = (\<lambda>x. x < 2 ^ (8 * n))\<rparr>"

definition fm_varnat :: "nat \<Rightarrow> nat format" where
  "fm_varnat w = \<lparr>fm_bytes = (\<lambda>x. nat_bytes (int x)), fm_valid = (\<lambda>x. x < 2 ^ w)\<rparr>"

definition fm_fixed :: "nat \<Rightarrow> byte list format" where
  "fm_fixed n = \<lparr>fm_bytes = (\<lambda>bs. bs), fm_valid = (\<lambda>bs. length bs = n)\<rparr>"

definition fm_blob :: "byte list format" where
  "fm_blob = \<lparr>fm_bytes = (\<lambda>bs. prefixed (length bs) bs), fm_valid = (\<lambda>bs. length bs < 2 ^ 32)\<rparr>"

definition fm_bool :: "bool format" where
  "fm_bool = \<lparr>fm_bytes = (\<lambda>b. [if b then 1 else 0]), fm_valid = (\<lambda>_. True)\<rparr>"

definition fm_option :: "'a format \<Rightarrow> 'a option format" where
  "fm_option fm = \<lparr>fm_bytes = (\<lambda>x. case x of None \<Rightarrow> [0] | Some y \<Rightarrow> 1 # fm_bytes fm y), fm_valid = pred_option (fm_valid fm)\<rparr>"

definition fm_seq :: "length_range \<Rightarrow> 'a format \<Rightarrow> 'a list format" where
  "fm_seq rng fm = \<lparr>fm_bytes = (\<lambda>xs. prefixed (length xs) (concat (map (fm_bytes fm) xs))),
    fm_valid = (\<lambda>xs. list_all (fm_valid fm) xs \<and> length xs < 2 ^ 32 \<and> minLength rng \<le> length xs \<and> length xs \<le> maxLength rng)\<rparr>"

definition fm_array :: "nat \<Rightarrow> 'a format \<Rightarrow> 'a list format" where
  "fm_array n fm = \<lparr>fm_bytes = (\<lambda>xs. concat (map (fm_bytes fm) xs)), fm_valid = (\<lambda>xs. list_all (fm_valid fm) xs \<and> length xs = n)\<rparr>"

definition fm_bits :: "nat \<Rightarrow> bitvec format" where
  "fm_bits n = \<lparr>fm_bytes = bv_raw, fm_valid = (\<lambda>v. canonical v \<and> bitLength v = n)\<rparr>"

definition fm_end :: "unit format" where
  "fm_end = \<lparr>fm_bytes = (\<lambda>_. []), fm_valid = (\<lambda>_. True)\<rparr>"

definition fm_field :: "'a format \<Rightarrow> 'b format \<Rightarrow> ('a \<times> 'b) format" where
  "fm_field f g = \<lparr>fm_bytes = (\<lambda>(x, y). fm_bytes f x @ fm_bytes g y), fm_valid = (\<lambda>(x, y). fm_valid f x \<and> fm_valid g y)\<rparr>"

definition fm_class :: "('r \<Rightarrow> 'a) \<Rightarrow> 'a format \<Rightarrow> 'r format" where
  "fm_class fields_of fm = \<lparr>fm_bytes = fm_bytes fm \<circ> fields_of, fm_valid = fm_valid fm \<circ> fields_of\<rparr>"

definition fm_such :: "('a \<Rightarrow> bool) \<Rightarrow> 'a format \<Rightarrow> 'a format" where
  "fm_such P fm = fm\<lparr>fm_valid := (\<lambda>x. P x \<and> fm_valid fm x)\<rparr>"

section \<open>Descriptors implement their formats\<close>

lemma implementsI:
  assumes "transcodes cd fm" "\<And>x. isExact (sizeHint cd) \<Longrightarrow> fm_valid fm x \<Longrightarrow> length (fm_bytes fm x) = hint_bytes (sizeHint cd)"
  shows "implements cd fm"
  using assms unfolding implements_def transcodes_def by unfold_locales auto

lemma implements_transcodes: "implements cd fm \<Longrightarrow> transcodes cd fm"
  unfolding implements_def transcodes_def
  by (auto simp: codec_def element_encoder_def element_decoder_def codec_axioms_def)

lemma implements_exact:
  "implements cd fm \<Longrightarrow> isExact (sizeHint cd) \<Longrightarrow> fm_valid fm x \<Longrightarrow> length (fm_bytes fm x) = hint_bytes (sizeHint cd)"
  unfolding implements_def codec_def codec_axioms_def by blast

lemma implements_round_trip:
  "implements cd fm \<Longrightarrow> fm_valid fm x \<Longrightarrow> length (fm_bytes fm x) \<le> MAX_LENGTH \<Longrightarrow>
    bindE (encodeObject cd x) (decodeObject (decode cd)) = Inr x"
  unfolding implements_def by (rule codec.round_trip)

lemma implements_encodeObject:
  "implements cd fm \<Longrightarrow> fm_valid fm x \<Longrightarrow> length (fm_bytes fm x) \<le> MAX_LENGTH \<Longrightarrow> encodeObject cd x = Inr (fm_bytes fm x)"
  unfolding implements_def by (metis codec.axioms(1) element_encoder.encodeObject_eq(1))

lemma implements_injective:
  "implements cd fm \<Longrightarrow> fm_valid fm x \<Longrightarrow> fm_valid fm y \<Longrightarrow> fm_bytes fm x @ bs = fm_bytes fm y @ cs \<Longrightarrow> x = y"
  unfolding implements_def by (rule codec.prefix_free)

lemma rethrow_Inr [simp]: "rethrow (Inr x) = Inr x"
  by (simp add: rethrow_def)

lemma rethrow_appends: "appends f bs \<Longrightarrow> appends (\<lambda>e. rethrow (f e)) bs"
  by (force simp: appends_def rethrow_def)

lemma rethrow_decodes: "decodes f bs x \<Longrightarrow> decodes (\<lambda>d. rethrow (f d)) bs x"
  by (simp add: decodes_def)

lemma addSizeHints_assoc: "addSizeHints (addSizeHints a b) c = addSizeHints a (addSizeHints b c)"
  by (simp add: addSizeHints_def)

lemma addSizeHints_zero: "addSizeHints (exactHint 0) h = h" "addSizeHints h (exactHint 0) = h"
  by (simp_all add: addSizeHints_def exactHint_def)

lemma foldl_addSizeHints: "foldl addSizeHints (addSizeHints a b) hs = addSizeHints a (foldl addSizeHints b hs)"
  by (induction hs arbitrary: b) (simp_all add: addSizeHints_assoc)

lemma class_hint_Cons: "class_hint (h # hs) = addSizeHints h (class_hint hs)"
  using foldl_addSizeHints [of h "exactHint 0" hs] by (simp add: class_hint_def addSizeHints_zero)

lemma no_fields_rule [codec_rules]: "implements_fields no_fields fm_end"
  by (simp add: implements_fields_def no_fields_def fm_end_def appends_Inr decodes_def skips_def class_hint_def exactHint_def)

lemma field_rule [codec_rules]:
  assumes "implements cd f" "implements_fields fs g"
  shows "implements_fields (field cd fs) (fm_field f g)"
  unfolding implements_fields_def
proof (intro allI impI conjI)
  fix p assume p: "fm_valid (fm_field f g) p"
  then obtain x y where xy: "p = (x, y)" "fm_valid f x" "fm_valid g y" by (auto simp: fm_field_def)
  have bytes: "fm_bytes (fm_field f g) p = fm_bytes f x @ fm_bytes g y" by (simp add: fm_field_def xy)
  have a: "appends (encode cd x) (fm_bytes f x)" "decodes (decode cd) (fm_bytes f x) x" "skips (skip_fn cd) (fm_bytes f x)"
    using implements_transcodes [OF assms(1)] xy(2) by (simp_all add: transcodes_def)
  have b: "appends (fl_encode fs y) (fm_bytes g y)" "decodes (fl_decode fs) (fm_bytes g y) y"
    "skips (skip_fields (fl_skips fs)) (fm_bytes g y)"
    using assms(2) xy(3) by (simp_all add: implements_fields_def)
  show "appends (fl_encode (field cd fs) p) (fm_bytes (fm_field f g) p)"
    using appends_bind [OF rethrow_appends [OF a(1)] b(1)] unfolding bytes by (simp add: field_def xy(1))
  have "decodes (\<lambda>d. bindE (rethrow (decode cd d)) (\<lambda>(x, d). bindE (fl_decode fs d) (\<lambda>(y, d). Inr ((x, y), d))))
      (fm_bytes f x @ fm_bytes g y) (x, y)"
    by (rule decodes_bind [OF rethrow_decodes [OF a(2)] decodes_return [OF b(2)]])
  then show "decodes (fl_decode (field cd fs)) (fm_bytes (fm_field f g) p) p"
    unfolding bytes by (simp add: field_def xy(1))
  show "skips (skip_fields (fl_skips (field cd fs))) (fm_bytes (fm_field f g) p)"
    using a(3) b(3) by (auto simp: bytes field_def skips_def at_append)
  assume "isExact (class_hint (fl_hints (field cd fs)))"
  then show "length (fm_bytes (fm_field f g) p) = hint_bytes (class_hint (fl_hints (field cd fs)))"
    using implements_exact [OF assms(1) _ xy(2)] assms(2) xy(3)
    by (simp add: bytes field_def class_hint_Cons addSizeHints_def implements_fields_def)
qed

lemma class_such_rule:
  assumes "implements_fields fs g" "\<And>r. P r \<Longrightarrow> create (fields_of r) = r"
  shows "implements (codec_Class fs fields_of create) (fm_such P (fm_class fields_of g))"
proof (rule implementsI)
  have "decodes (decode (codec_Class fs fields_of create)) (fm_bytes g (fields_of x)) x"
    if "P x" "fm_valid g (fields_of x)" for x
    using assms(1) that decodes_return [of "fl_decode fs" "fm_bytes g (fields_of x)" "fields_of x" create] assms(2) [of x]
    by (simp add: implements_fields_def codec_Class_def)
  moreover have "skips (class_skipper (fl_hints fs) (fl_skips fs)) (fm_bytes g (fields_of x))" if "fm_valid g (fields_of x)" for x
    using assms(1) that skips_n [of "fm_bytes g (fields_of x)"]
    by (auto simp: implements_fields_def class_skipper_def Let_def skips_def skip_n_def)
  ultimately show "transcodes (codec_Class fs fields_of create) (fm_such P (fm_class fields_of g))"
    using assms(1) by (simp add: transcodes_def fm_class_def fm_such_def implements_fields_def) (simp add: codec_Class_def)
qed (use assms in \<open>simp add: codec_Class_def fm_class_def fm_such_def implements_fields_def\<close>)

lemma class_rule [codec_rules]:
  assumes "implements_fields fs g" "\<And>r. create (fields_of r) = r"
  shows "implements (codec_Class fs fields_of create) (fm_class fields_of g)"
proof -
  have "fm_such (\<lambda>_. True) (fm_class fields_of g) = fm_class fields_of g" by (simp add: fm_such_def)
  with class_such_rule [where P = "\<lambda>_. True", OF assms(1) assms(2)] show ?thesis by simp
qed

lemma convert_rule:
  assumes "implements cd f" "\<And>x. fm_valid g x \<Longrightarrow> \<exists>y. inp x = Inr y \<and> fm_valid f y \<and> out y = Inr x \<and> fm_bytes g x = fm_bytes f y"
  shows "implements (codec_convert cd inp out) g"
proof -
  have t: "transcodes cd f" by (rule implements_transcodes [OF assms(1)])
  show ?thesis
  proof (rule implementsI)
    show "transcodes (codec_convert cd inp out) g"
      unfolding transcodes_def
    proof (intro allI impI)
      fix x assume "fm_valid g x"
      then obtain y where y: "inp x = Inr y" "fm_valid f y" "out y = Inr x" "fm_bytes g x = fm_bytes f y"
        using assms(2) by blast
      then show "appends (encode (codec_convert cd inp out) x) (fm_bytes g x) \<and>
          decodes (decode (codec_convert cd inp out)) (fm_bytes g x) x \<and> skips (skip_fn (codec_convert cd inp out)) (fm_bytes g x)"
        using t by (auto simp: transcodes_def codec_convert_def decodes_def)
    qed
    fix x assume "isExact (sizeHint (codec_convert cd inp out))" "fm_valid g x"
    then show "length (fm_bytes g x) = hint_bytes (sizeHint (codec_convert cd inp out))"
      using assms(2) [of x] implements_exact [OF assms(1)] by (auto simp: codec_convert_def)
  qed
qed

lemma bytes_rule [codec_rules]: "implements (codec_bytes n) (fm_fixed n)"
  unfolding implements_def fm_fixed_def format.simps by (rule bytes.codec_axioms)

lemma blob_rule [codec_rules]: "implements codec_blob fm_blob"
  unfolding implements_def fm_blob_def format.simps by (rule blob.codec_axioms)

lemma bool_rule [codec_rules]: "implements codec_bool fm_bool"
  unfolding implements_def fm_bool_def format.simps by (rule bool.codec_axioms)

lemma option_rule [codec_rules]: "implements cd fm \<Longrightarrow> implements (codec_optional cd) (fm_option fm)"
  unfolding implements_def fm_option_def format.simps by (rule codec.optional_codec)

lemma seq_rule [codec_rules]: "implements cd fm \<Longrightarrow> implements (codec_sequenceVarLen cd rng typical) (fm_seq rng fm)"
  unfolding implements_def fm_seq_def format.simps by (rule codec.sequenceVarLen_codec)

lemma array_rule [codec_rules]: "implements cd fm \<Longrightarrow> implements (codec_sequenceFixLen cd n) (fm_array n fm)"
  unfolding implements_def fm_array_def format.simps by (rule codec.sequenceFixLen_codec)

lemma nat_below: "n < 2 ^ k \<Longrightarrow> int n < 2 ^ k"
  by (metis of_nat_less_iff of_nat_numeral of_nat_power)

lemma nat_rule:
  assumes "codec cd (le_bytes n) (in_range n)"
  shows "implements (codec_nat cd) (fm_nat_le n)"
  unfolding codec_nat_def
  by (rule convert_rule [where f = "\<lparr>fm_bytes = le_bytes n, fm_valid = in_range n\<rparr>"])
    (use assms nat_below in \<open>auto simp: implements_def fm_nat_le_def in_range_def\<close>)

lemma nat_rules [codec_rules]:
  "implements (codec_nat codec_u8) (fm_nat_le 1)" "implements (codec_nat codec_u16) (fm_nat_le 2)"
  "implements (codec_nat codec_u32) (fm_nat_le 4)" "implements (codec_nat codec_u64) (fm_nat_le 8)"
  by (rule nat_rule, unfold_locales)+

lemma varnat_rule:
  assumes "codec cd nat_bytes (\<lambda>n. 0 \<le> n \<and> n < 2 ^ w)"
  shows "implements (codec_nat cd) (fm_varnat w)"
  unfolding codec_nat_def
  by (rule convert_rule [where f = "\<lparr>fm_bytes = nat_bytes, fm_valid = (\<lambda>n. 0 \<le> n \<and> n < 2 ^ w)\<rparr>"])
    (use assms nat_below in \<open>auto simp: implements_def fm_varnat_def\<close>)

lemma varnat_rules [codec_rules]:
  "implements (codec_nat codec_varU32) (fm_varnat 32)" "implements (codec_nat codec_varU64) (fm_varnat 64)"
  by (rule varnat_rule, unfold_locales)+

lemma context_rule:
  "transcodes (chooser context) fm \<Longrightarrow> implements (codec_withContext chooser defaultContext context) fm"
  by (rule implementsI) (simp_all add: codec_withContext_def transcodes_def)

lemma context_rule' [codec_rules]:
  "implements (chooser context) fm \<Longrightarrow> implements (codec_withContext chooser defaultContext context) fm"
  by (intro context_rule implements_transcodes)

text \<open>The descriptor of bit vectors has a wrong exact size hint, so it implements its format only under a context.\<close>

lemma bits_transcodes: "transcodes (codec_bitVecFixLen n) (fm_bits n)"
proof -
  have "skips (skip_bitVecFixLen (bitLength v)) (bv_raw v)" if "canonical v" for v
    using that by (auto simp: skips_def skip_bitVecFixLen_def skip_def ensure_at offset_update bv_raw_def canonical_def byteLength_def)
  then show ?thesis
    by (auto simp: transcodes_def codec_bitVecFixLen_def fm_bits_def bitVecFixLen_appends bitVecFixLen_decodes)
qed

lemma such_rule: "implements cd fm \<Longrightarrow> implements cd (fm_such P fm)"
  unfolding implements_def fm_such_def
  by (simp add: codec_def element_encoder_def element_decoder_def codec_axioms_def)

lemma fixedSizeArray_rule [codec_rules]: "implements cd fm \<Longrightarrow> implements (codec_fixedSizeArray cd n) (fm_array n fm)"
  unfolding codec_fixedSizeArray_def Let_def
  by (rule convert_rule [OF array_rule]) (auto simp: fm_array_def)

text \<open>The union writes the kind, then the value of that kind.\<close>

definition fm_union :: "('a \<Rightarrow> nat) \<Rightarrow> 'a format list \<Rightarrow> 'a format" where
  "fm_union kind fms = \<lparr>fm_bytes = (\<lambda>x. nat_bytes (int (kind x)) @ fm_bytes (fms ! kind x) x),
    fm_valid = (\<lambda>x. kind x < length fms \<and> fm_valid (fms ! kind x) x)\<rparr>"

lemma union_rule:
  assumes "list_all2 implements variants fms" "length fms < 2 ^ 32"
  shows "implements (codec_union kind variants) (fm_union kind fms)"
proof (rule implementsI)
  show "transcodes (codec_union kind variants) (fm_union kind fms)"
    unfolding transcodes_def
  proof (intro allI impI)
    fix x assume "fm_valid (fm_union kind fms) x"
    then have k: "kind x < length fms" and v: "fm_valid (fms ! kind x) x" by (simp_all add: fm_union_def)
    let ?cd = "variants ! kind x" and ?bs = "fm_bytes (fms ! kind x) x"
    have len: "length variants = length fms" using assms(1) by (rule list_all2_lengthD)
    have t: "appends (encode ?cd x) ?bs" "decodes (decode ?cd) ?bs x" "skips (skip_fn ?cd) ?bs"
      using implements_transcodes [OF list_all2_nthD2 [OF assms(1) k]] v by (simp_all add: transcodes_def)
    have small: "int (kind x) < 2 ^ 32" using k assms(2) by (simp add: of_nat_less_u32)
    have a: "appends (encode (codec_union kind variants) x) (nat_bytes (int (kind x)) @ ?bs)"
      using appends_bind [OF varU32_appends t(1), of "int (kind x)"] small k len
      by (simp add: codec_union_def tryAsU32_def isU32_iff)
    have "decodes (\<lambda>d. bindE (dec_varU32 d) (\<lambda>(idx, d). if nat idx < length variants then decode (variants ! nat idx) d
        else Inl GenericError)) (nat_bytes (int (kind x)) @ ?bs) x"
      by (rule decodes_bind [OF varU32_decodes]) (use small k len t(2) in simp_all)
    then have b: "decodes (decode (codec_union kind variants)) (nat_bytes (int (kind x)) @ ?bs) x"
      by (simp add: codec_union_def)
    have "skips (\<lambda>d. bindE (dec_varU32 d) (\<lambda>(idx, d). if nat idx < length variants then skip_fn (variants ! nat idx) d
        else Inl GenericError)) (prefixed (kind x) ?bs)"
      by (rule skips_prefixed) (use small k len t(3) in \<open>simp_all add: of_nat_less_u32\<close>)
    then have c: "skips (skip_fn (codec_union kind variants)) (nat_bytes (int (kind x)) @ ?bs)"
      by (simp add: codec_union_def prefixed_def)
    show "appends (encode (codec_union kind variants) x) (fm_bytes (fm_union kind fms) x) \<and>
        decodes (decode (codec_union kind variants)) (fm_bytes (fm_union kind fms) x) x \<and>
        skips (skip_fn (codec_union kind variants)) (fm_bytes (fm_union kind fms) x)"
      using a b c by (simp add: fm_union_def)
  qed
qed (simp add: codec_union_def)

end
