(* ===== verification/BlockTypes.thy ===== *)
theory BlockTypes
  imports ChainTypes ClassCodec Containers
begin

text \<open>
  The codecs of the blocks (\<open>packages/jam/block\<close>): work reports and their parts, work packages, tickets,
  guarantees, assurances, preimages, disputes, the header and the block itself. Every class has its descriptor
  \<open>codec_X\<close>, its format \<open>fm_X\<close> and the fact that the descriptor implements the format. The records of the
  reports are those of ChainTypes.
\<close>

definition HASH_SIZE :: nat where "HASH_SIZE = 32"
definition ED25519_KEY_BYTES :: nat where "ED25519_KEY_BYTES = 32"
definition ED25519_SIGNATURE_BYTES :: nat where "ED25519_SIGNATURE_BYTES = 64"
definition BANDERSNATCH_KEY_BYTES :: nat where "BANDERSNATCH_KEY_BYTES = 32"
definition BANDERSNATCH_VRF_SIGNATURE_BYTES :: nat where "BANDERSNATCH_VRF_SIGNATURE_BYTES = 96"
definition BANDERSNATCH_PROOF_BYTES :: nat where "BANDERSNATCH_PROOF_BYTES = 784"

text \<open>The chain parameters a codec falls back to for its size hint.\<close>

definition default_context :: chain_spec where
  "default_context = (case fullChainSpec of Inr spec \<Rightarrow> spec | Inl _ \<Rightarrow> full_data)"

text \<open>\<open>codecKnownSizeArray\<close>: a sequence with bounds and a typical length, or of fixed length.\<close>

definition codec_knownSizeArray :: "'a descriptor \<Rightarrow> nat + length_range \<times> nat \<Rightarrow> 'a list descriptor" where
  "codec_knownSizeArray val options = (case options of
     Inl fixedLength \<Rightarrow> codec_sequenceFixLen val fixedLength
   | Inr (rng, typicalLength) \<Rightarrow> codec_sequenceVarLen val rng (Some typicalLength))"

lemma knownSize_rules [codec_rules]:
  "implements cd fm \<Longrightarrow> implements (codec_knownSizeArray cd (Inl n)) (fm_array n fm)"
  "implements cd fm \<Longrightarrow> implements (codec_knownSizeArray cd (Inr (rng, typical))) (fm_seq rng fm)"
  by (simp_all add: codec_knownSizeArray_def array_rule seq_rule)

section \<open>Work results\<close>

definition codec_WorkRefineLoad :: "work_refine_load descriptor" where
  "codec_WorkRefineLoad = codec_Class
    (field (codec_nat codec_varU64) (field (codec_nat codec_varU32) (field (codec_nat codec_varU32)
      (field (codec_nat codec_varU32) (field (codec_nat codec_varU32) no_fields)))))
    (\<lambda>x. (ld_gasUsed x, ld_importedSegments x, ld_extrinsicCount x, ld_extrinsicSize x,
      ld_exportedSegments x, ()))
    (\<lambda>(a, b, c, d, e, _). \<lparr>ld_gasUsed = a, ld_importedSegments = b, ld_extrinsicCount = c,
      ld_extrinsicSize = d, ld_exportedSegments = e\<rparr>)"

definition fm_WorkRefineLoad :: "work_refine_load format" where
  "fm_WorkRefineLoad = fm_class
    (\<lambda>x. (ld_gasUsed x, ld_importedSegments x, ld_extrinsicCount x, ld_extrinsicSize x,
      ld_exportedSegments x, ()))
    (fm_field (fm_varnat 64) (fm_field (fm_varnat 32) (fm_field (fm_varnat 32) (fm_field (fm_varnat 32)
      (fm_field (fm_varnat 32) fm_end)))))"

lemma WorkRefineLoad_rule [codec_rules]: "implements codec_WorkRefineLoad fm_WorkRefineLoad"
  unfolding codec_WorkRefineLoad_def fm_WorkRefineLoad_def by (intro codec_rules) simp_all

text \<open>The union of execution results; \<open>convert\<close> drops the blob of an error, which the datatype does not have.\<close>

fun wer_kind :: "work_exec_result \<Rightarrow> nat" where
  "wer_kind (WER_ok okBlob) = 0"
| "wer_kind WER_outOfGas = 1"
| "wer_kind WER_panic = 2"
| "wer_kind WER_incorrectNumberOfExports = 3"
| "wer_kind WER_digestTooBig = 4"
| "wer_kind WER_badCode = 5"
| "wer_kind WER_codeOversize = 6"

fun wer_okBlob :: "work_exec_result \<Rightarrow> blob" where
  "wer_okBlob (WER_ok okBlob) = okBlob"
| "wer_okBlob _ = []"

definition codec_error_kind :: "work_exec_result \<Rightarrow> work_exec_result descriptor" where
  "codec_error_kind x = codec_Class no_fields (\<lambda>_. ()) (\<lambda>_. x)"

definition codec_WorkExecResult :: "work_exec_result descriptor" where
  "codec_WorkExecResult = codec_union wer_kind
    [codec_Class (field codec_blob no_fields) (\<lambda>x. (wer_okBlob x, ())) (\<lambda>(okBlob, _). WER_ok okBlob),
     codec_error_kind WER_outOfGas, codec_error_kind WER_panic, codec_error_kind WER_incorrectNumberOfExports,
     codec_error_kind WER_digestTooBig, codec_error_kind WER_badCode, codec_error_kind WER_codeOversize]"

definition fm_error_kind :: "work_exec_result \<Rightarrow> work_exec_result format" where
  "fm_error_kind x = fm_such (\<lambda>y. y = x) (fm_class (\<lambda>_. ()) fm_end)"

definition fm_WorkExecResult :: "work_exec_result format" where
  "fm_WorkExecResult = fm_union wer_kind
    [fm_such (\<lambda>x. wer_kind x = 0) (fm_class (\<lambda>x. (wer_okBlob x, ())) (fm_field fm_blob fm_end)),
     fm_error_kind WER_outOfGas, fm_error_kind WER_panic, fm_error_kind WER_incorrectNumberOfExports,
     fm_error_kind WER_digestTooBig, fm_error_kind WER_badCode, fm_error_kind WER_codeOversize]"

lemma error_kind_rule: "implements (codec_error_kind x) (fm_error_kind x)"
  unfolding codec_error_kind_def fm_error_kind_def by (rule class_such_rule [OF no_fields_rule]) simp

lemma ok_kind: "wer_kind x = 0 \<Longrightarrow> WER_ok (wer_okBlob x) = x"
  by (cases x) simp_all

lemma WorkExecResult_rule [codec_rules]: "implements codec_WorkExecResult fm_WorkExecResult"
  unfolding codec_WorkExecResult_def fm_WorkExecResult_def
  by (rule union_rule) (simp_all add: error_kind_rule ok_kind class_such_rule codec_rules)

definition codec_WorkResult :: "work_result descriptor" where
  "codec_WorkResult = codec_Class
    (field (codec_nat codec_u32) (field (codec_bytes HASH_SIZE) (field (codec_bytes HASH_SIZE)
      (field (codec_nat codec_u64) (field codec_WorkExecResult (field codec_WorkRefineLoad no_fields))))))
    (\<lambda>x. (re_serviceId x, re_codeHash x, re_payloadHash x, re_gas x, re_result x, re_load x, ()))
    (\<lambda>(a, b, c, d, e, f, _). \<lparr>re_serviceId = a, re_codeHash = b, re_payloadHash = c,
      re_gas = d, re_result = e, re_load = f\<rparr>)"

definition fm_WorkResult :: "work_result format" where
  "fm_WorkResult = fm_class
    (\<lambda>x. (re_serviceId x, re_codeHash x, re_payloadHash x, re_gas x, re_result x, re_load x, ()))
    (fm_field (fm_nat_le 4) (fm_field (fm_fixed HASH_SIZE) (fm_field (fm_fixed HASH_SIZE)
      (fm_field (fm_nat_le 8) (fm_field fm_WorkExecResult (fm_field fm_WorkRefineLoad fm_end))))))"

lemma WorkResult_rule [codec_rules]: "implements codec_WorkResult fm_WorkResult"
  unfolding codec_WorkResult_def fm_WorkResult_def by (intro codec_rules) simp_all

section \<open>Work reports\<close>

definition codec_WorkPackageSpec :: "work_package_spec descriptor" where
  "codec_WorkPackageSpec = codec_Class
    (field (codec_bytes HASH_SIZE) (field (codec_nat codec_u32) (field (codec_bytes HASH_SIZE)
      (field (codec_bytes HASH_SIZE) (field (codec_nat codec_u16) no_fields)))))
    (\<lambda>x. (wp_hash x, wp_length x, wp_erasureRoot x, wp_exportsRoot x, wp_exportsCount x, ()))
    (\<lambda>(a, b, c, d, e, _). \<lparr>wp_hash = a, wp_length = b, wp_erasureRoot = c,
      wp_exportsRoot = d, wp_exportsCount = e\<rparr>)"

definition fm_WorkPackageSpec :: "work_package_spec format" where
  "fm_WorkPackageSpec = fm_class
    (\<lambda>x. (wp_hash x, wp_length x, wp_erasureRoot x, wp_exportsRoot x, wp_exportsCount x, ()))
    (fm_field (fm_fixed HASH_SIZE) (fm_field (fm_nat_le 4) (fm_field (fm_fixed HASH_SIZE)
      (fm_field (fm_fixed HASH_SIZE) (fm_field (fm_nat_le 2) fm_end)))))"

lemma WorkPackageSpec_rule [codec_rules]: "implements codec_WorkPackageSpec fm_WorkPackageSpec"
  unfolding codec_WorkPackageSpec_def fm_WorkPackageSpec_def by (intro codec_rules) simp_all

definition codec_WorkPackageInfo :: "work_package_info descriptor" where
  "codec_WorkPackageInfo = codec_Class
    (field (codec_bytes HASH_SIZE) (field (codec_bytes HASH_SIZE) no_fields))
    (\<lambda>x. (workPackageHash x, segmentTreeRoot x, ()))
    (\<lambda>(a, b, _). \<lparr>workPackageHash = a, segmentTreeRoot = b\<rparr>)"

definition fm_WorkPackageInfo :: "work_package_info format" where
  "fm_WorkPackageInfo = fm_class
    (\<lambda>x. (workPackageHash x, segmentTreeRoot x, ()))
    (fm_field (fm_fixed HASH_SIZE) (fm_field (fm_fixed HASH_SIZE) fm_end))"

lemma WorkPackageInfo_rule [codec_rules]: "implements codec_WorkPackageInfo fm_WorkPackageInfo"
  unfolding codec_WorkPackageInfo_def fm_WorkPackageInfo_def by (intro codec_rules) simp_all

definition codec_RefineContext :: "refine_context descriptor" where
  "codec_RefineContext = codec_Class
    (field (codec_bytes HASH_SIZE) (field (codec_bytes HASH_SIZE) (field (codec_bytes HASH_SIZE)
      (field (codec_bytes HASH_SIZE) (field (codec_nat codec_u32)
      (field (codec_sequenceVarLen (codec_bytes HASH_SIZE) default_range None) no_fields))))))
    (\<lambda>x. (rc_anchor x, rc_stateRoot x, rc_beefyRoot x, rc_lookupAnchor x, rc_lookupAnchorSlot x,
      rc_prerequisites x, ()))
    (\<lambda>(a, b, c, d, e, f, _). \<lparr>rc_anchor = a, rc_stateRoot = b, rc_beefyRoot = c,
      rc_lookupAnchor = d, rc_lookupAnchorSlot = e, rc_prerequisites = f\<rparr>)"

definition fm_RefineContext :: "refine_context format" where
  "fm_RefineContext = fm_class
    (\<lambda>x. (rc_anchor x, rc_stateRoot x, rc_beefyRoot x, rc_lookupAnchor x, rc_lookupAnchorSlot x,
      rc_prerequisites x, ()))
    (fm_field (fm_fixed HASH_SIZE) (fm_field (fm_fixed HASH_SIZE) (fm_field (fm_fixed HASH_SIZE)
      (fm_field (fm_fixed HASH_SIZE) (fm_field (fm_nat_le 4)
      (fm_field (fm_seq default_range (fm_fixed HASH_SIZE)) fm_end))))))"

lemma RefineContext_rule [codec_rules]: "implements codec_RefineContext fm_RefineContext"
  unfolding codec_RefineContext_def fm_RefineContext_def by (intro codec_rules) simp_all

text \<open>The core index is a variable-length number that must fit 16 bits; the number of results fits 8 bits.\<close>

definition codec_coreIndex :: "nat descriptor" where
  "codec_coreIndex = codec_convert codec_varU32 (\<lambda>o1. tryAsU32 (int o1))
    (\<lambda>i. if \<not> isU16 i then Inl GenericError else bindE (tryAsU16 i) (\<lambda>i. Inr (nat i)))"

definition codec_workItems :: "'a descriptor \<Rightarrow> 'a list descriptor" where
  "codec_workItems cd = codec_convert (codec_sequenceVarLen cd default_range None) (\<lambda>x. Inr x)
    (\<lambda>items. bindE (tryAsU8 (int (length items))) (\<lambda>n. fsa_new items (nat n)))"

definition fm_workItems :: "'a format \<Rightarrow> 'a list format" where
  "fm_workItems fm = fm_such (\<lambda>xs. length xs < 2 ^ 8) (fm_seq default_range fm)"

lemma coreIndex_rule [codec_rules]: "implements codec_coreIndex (fm_varnat 16)"
  unfolding codec_coreIndex_def
  by (rule convert_rule [where f = "\<lparr>fm_bytes = nat_bytes, fm_valid = (\<lambda>n. 0 \<le> n \<and> n < 2 ^ 32)\<rparr>"])
    (use varU32.codec_axioms nat_below [of _ 16] in
      \<open>auto simp: implements_def fm_varnat_def tryAsU32_def tryAsU16_def is_unsigned_iff\<close>)

lemma workItems_rule [codec_rules]: "implements cd fm \<Longrightarrow> implements (codec_workItems cd) (fm_workItems fm)"
  unfolding codec_workItems_def fm_workItems_def
  by (rule convert_rule [OF seq_rule])
    (use nat_below [of _ 8] in \<open>auto simp: fm_such_def fm_seq_def tryAsU8_def is_unsigned_iff fsa_new_def\<close>)

definition codec_WorkReport :: "work_report descriptor" where
  "codec_WorkReport = codec_Class
    (field codec_WorkPackageSpec (field codec_RefineContext (field codec_coreIndex
      (field (codec_bytes HASH_SIZE) (field (codec_nat codec_varU64) (field codec_blob
      (field (codec_sequenceVarLen codec_WorkPackageInfo default_range None)
      (field (codec_workItems codec_WorkResult) no_fields))))))))
    (\<lambda>x. (wr_workPackageSpec x, wr_context x, wr_coreIndex x, wr_authorizerHash x,
      wr_authorizationGasUsed x, wr_authorizationOutput x, wr_segmentRootLookup x, wr_results x, ()))
    (\<lambda>(a, b, c, d, e, f, g, h, _). \<lparr>wr_workPackageSpec = a, wr_context = b,
      wr_coreIndex = c, wr_authorizerHash = d, wr_authorizationOutput = f, wr_segmentRootLookup = g,
      wr_results = h, wr_authorizationGasUsed = e\<rparr>)"

definition fm_WorkReport :: "work_report format" where
  "fm_WorkReport = fm_class
    (\<lambda>x. (wr_workPackageSpec x, wr_context x, wr_coreIndex x, wr_authorizerHash x,
      wr_authorizationGasUsed x, wr_authorizationOutput x, wr_segmentRootLookup x, wr_results x, ()))
    (fm_field fm_WorkPackageSpec (fm_field fm_RefineContext (fm_field (fm_varnat 16)
      (fm_field (fm_fixed HASH_SIZE) (fm_field (fm_varnat 64) (fm_field fm_blob
      (fm_field (fm_seq default_range fm_WorkPackageInfo) (fm_field (fm_workItems fm_WorkResult) fm_end))))))))"

lemma WorkReport_rule [codec_rules]: "implements codec_WorkReport fm_WorkReport"
  unfolding codec_WorkReport_def fm_WorkReport_def by (intro codec_rules) simp_all

section \<open>Work packages\<close>

record import_spec =
  im_treeRoot :: blob
  im_index :: nat

definition codec_ImportSpec :: "import_spec descriptor" where
  "codec_ImportSpec = codec_Class
    (field (codec_bytes HASH_SIZE) (field (codec_nat codec_u16) no_fields))
    (\<lambda>x. (im_treeRoot x, im_index x, ()))
    (\<lambda>(a, b, _). \<lparr>im_treeRoot = a, im_index = b\<rparr>)"

definition fm_ImportSpec :: "import_spec format" where
  "fm_ImportSpec = fm_class
    (\<lambda>x. (im_treeRoot x, im_index x, ()))
    (fm_field (fm_fixed HASH_SIZE) (fm_field (fm_nat_le 2) fm_end))"

lemma ImportSpec_rule [codec_rules]: "implements codec_ImportSpec fm_ImportSpec"
  unfolding codec_ImportSpec_def fm_ImportSpec_def by (intro codec_rules) simp_all

record work_item_extrinsic_spec =
  we_hash :: blob
  we_len :: nat

definition codec_WorkItemExtrinsicSpec :: "work_item_extrinsic_spec descriptor" where
  "codec_WorkItemExtrinsicSpec = codec_Class
    (field (codec_bytes HASH_SIZE) (field (codec_nat codec_u32) no_fields))
    (\<lambda>x. (we_hash x, we_len x, ()))
    (\<lambda>(a, b, _). \<lparr>we_hash = a, we_len = b\<rparr>)"

definition fm_WorkItemExtrinsicSpec :: "work_item_extrinsic_spec format" where
  "fm_WorkItemExtrinsicSpec = fm_class
    (\<lambda>x. (we_hash x, we_len x, ()))
    (fm_field (fm_fixed HASH_SIZE) (fm_field (fm_nat_le 4) fm_end))"

lemma WorkItemExtrinsicSpec_rule [codec_rules]: "implements codec_WorkItemExtrinsicSpec fm_WorkItemExtrinsicSpec"
  unfolding codec_WorkItemExtrinsicSpec_def fm_WorkItemExtrinsicSpec_def by (intro codec_rules) simp_all

definition MAX_NUMBER_OF_IMPORTS_WP :: nat where "MAX_NUMBER_OF_IMPORTS_WP = 3072"

record work_item =
  wi_service :: nat
  wi_codeHash :: blob
  wi_refineGasLimit :: nat
  wi_accumulateGasLimit :: nat
  wi_exportCount :: nat
  wi_payload :: blob
  wi_importSegments :: "import_spec list"
  wi_extrinsic :: "work_item_extrinsic_spec list"

definition codec_WorkItem :: "work_item descriptor" where
  "codec_WorkItem = codec_Class
    (field (codec_nat codec_u32) (field (codec_bytes HASH_SIZE) (field (codec_nat codec_u64)
      (field (codec_nat codec_u64) (field (codec_nat codec_u16) (field codec_blob
      (field (codec_knownSizeArray codec_ImportSpec (Inr (\<lparr>minLength = 0, maxLength = MAX_NUMBER_OF_IMPORTS_WP\<rparr>, MAX_NUMBER_OF_IMPORTS_WP)))
      (field (codec_sequenceVarLen codec_WorkItemExtrinsicSpec default_range None) no_fields))))))))
    (\<lambda>x. (wi_service x, wi_codeHash x, wi_refineGasLimit x, wi_accumulateGasLimit x,
      wi_exportCount x, wi_payload x, wi_importSegments x, wi_extrinsic x, ()))
    (\<lambda>(a, b, c, d, e, f, g, h, _). \<lparr>wi_service = a, wi_codeHash = b, wi_refineGasLimit = c,
      wi_accumulateGasLimit = d, wi_exportCount = e, wi_payload = f, wi_importSegments = g,
      wi_extrinsic = h\<rparr>)"

definition fm_WorkItem :: "work_item format" where
  "fm_WorkItem = fm_class
    (\<lambda>x. (wi_service x, wi_codeHash x, wi_refineGasLimit x, wi_accumulateGasLimit x,
      wi_exportCount x, wi_payload x, wi_importSegments x, wi_extrinsic x, ()))
    (fm_field (fm_nat_le 4) (fm_field (fm_fixed HASH_SIZE) (fm_field (fm_nat_le 8)
      (fm_field (fm_nat_le 8) (fm_field (fm_nat_le 2) (fm_field fm_blob
      (fm_field (fm_seq \<lparr>minLength = 0, maxLength = MAX_NUMBER_OF_IMPORTS_WP\<rparr> fm_ImportSpec)
      (fm_field (fm_seq default_range fm_WorkItemExtrinsicSpec) fm_end))))))))"

lemma WorkItem_rule [codec_rules]: "implements codec_WorkItem fm_WorkItem"
  unfolding codec_WorkItem_def fm_WorkItem_def by (intro codec_rules) simp_all

record work_package =
  pk_authCodeHost :: nat
  pk_authCodeHash :: blob
  pk_context :: refine_context
  pk_authToken :: blob
  pk_authConfiguration :: blob
  pk_items :: "work_item list"

definition codec_WorkPackage :: "work_package descriptor" where
  "codec_WorkPackage = codec_Class
    (field (codec_nat codec_u32) (field (codec_bytes HASH_SIZE) (field codec_RefineContext
      (field codec_blob (field codec_blob (field (codec_workItems codec_WorkItem) no_fields))))))
    (\<lambda>x. (pk_authCodeHost x, pk_authCodeHash x, pk_context x, pk_authToken x,
      pk_authConfiguration x, pk_items x, ()))
    (\<lambda>(a, b, c, d, e, f, _). \<lparr>pk_authCodeHost = a, pk_authCodeHash = b, pk_context = c,
      pk_authToken = d, pk_authConfiguration = e, pk_items = f\<rparr>)"

definition fm_WorkPackage :: "work_package format" where
  "fm_WorkPackage = fm_class
    (\<lambda>x. (pk_authCodeHost x, pk_authCodeHash x, pk_context x, pk_authToken x,
      pk_authConfiguration x, pk_items x, ()))
    (fm_field (fm_nat_le 4) (fm_field (fm_fixed HASH_SIZE) (fm_field fm_RefineContext (fm_field fm_blob
      (fm_field fm_blob (fm_field (fm_workItems fm_WorkItem) fm_end))))))"

lemma WorkPackage_rule [codec_rules]: "implements codec_WorkPackage fm_WorkPackage"
  unfolding codec_WorkPackage_def fm_WorkPackage_def by (intro codec_rules) simp_all

end
