(* ===== verification/BlockCodec.thy ===== *)
theory BlockCodec
  imports BlockTypes
begin

text \<open>
  The codecs of the extrinsics, the header and the block (\<open>tickets.ts\<close>, \<open>preimage.ts\<close>, \<open>guarantees.ts\<close>,
  \<open>assurances.ts\<close>, \<open>disputes.ts\<close>, \<open>header.ts\<close>, \<open>block.ts\<close>). What depends on the chain parameters takes
  them as its argument \<open>c\<close>.
\<close>

section \<open>Arrays sized by the chain parameters\<close>

definition codec_perValidator :: "'a descriptor \<Rightarrow> chain_spec \<Rightarrow> 'a list descriptor" where
  "codec_perValidator val = codec_withContext (\<lambda>c. codec_knownSizeArray val (Inl (validatorsCount c))) default_context"

definition codec_perEpochBlock :: "'a descriptor \<Rightarrow> chain_spec \<Rightarrow> 'a list descriptor" where
  "codec_perEpochBlock val = codec_withContext (\<lambda>c. codec_knownSizeArray val (Inl (epochLength c))) default_context"

lemma perValidator_rule [codec_rules]:
  "implements cd fm \<Longrightarrow> implements (codec_perValidator cd c) (fm_array (validatorsCount c) fm)"
  unfolding codec_perValidator_def by (intro codec_rules)

lemma perEpochBlock_rule [codec_rules]:
  "implements cd fm \<Longrightarrow> implements (codec_perEpochBlock cd c) (fm_array (epochLength c) fm)"
  unfolding codec_perEpochBlock_def by (intro codec_rules)

section \<open>Tickets\<close>

definition codec_ticketAttempt :: "nat descriptor" where
  "codec_ticketAttempt = codec_convert codec_varU32 (\<lambda>x. tryAsU32 (int x)) (\<lambda>x. bindE (tryAsU8 x) (\<lambda>x. Inr (nat x)))"

lemma ticketAttempt_rule [codec_rules]: "implements codec_ticketAttempt (fm_varnat 8)"
  unfolding codec_ticketAttempt_def
  by (rule convert_rule [where f = "\<lparr>fm_bytes = nat_bytes, fm_valid = (\<lambda>n. 0 \<le> n \<and> n < 2 ^ 32)\<rparr>"])
    (use varU32.codec_axioms nat_below [of _ 8] in
      \<open>auto simp: implements_def fm_varnat_def tryAsU32_def tryAsU8_def is_unsigned_iff\<close>)

definition codec_SignedTicket :: "signed_ticket descriptor" where
  "codec_SignedTicket = codec_Class
    (field codec_ticketAttempt (field (codec_bytes BANDERSNATCH_PROOF_BYTES) no_fields))
    (\<lambda>x. (st_attempt x, st_signature x, ()))
    (\<lambda>(a, b, _). \<lparr>st_attempt = a, st_signature = b\<rparr>)"

definition fm_SignedTicket :: "signed_ticket format" where
  "fm_SignedTicket = fm_class
    (\<lambda>x. (st_attempt x, st_signature x, ()))
    (fm_field (fm_varnat 8) (fm_field (fm_fixed BANDERSNATCH_PROOF_BYTES) fm_end))"

lemma SignedTicket_rule [codec_rules]: "implements codec_SignedTicket fm_SignedTicket"
  unfolding codec_SignedTicket_def fm_SignedTicket_def by (intro codec_rules) simp_all

definition codec_Ticket :: "ticket descriptor" where
  "codec_Ticket = codec_Class
    (field (codec_bytes HASH_SIZE) (field codec_ticketAttempt no_fields))
    (\<lambda>x. (ti_id x, ti_attempt x, ()))
    (\<lambda>(a, b, _). \<lparr>ti_id = a, ti_attempt = b\<rparr>)"

definition fm_Ticket :: "ticket format" where
  "fm_Ticket = fm_class
    (\<lambda>x. (ti_id x, ti_attempt x, ()))
    (fm_field (fm_fixed HASH_SIZE) (fm_field (fm_varnat 8) fm_end))"

lemma Ticket_rule [codec_rules]: "implements codec_Ticket fm_Ticket"
  unfolding codec_Ticket_def fm_Ticket_def by (intro codec_rules) simp_all

definition ticketsExtrinsicCodec :: "chain_spec \<Rightarrow> signed_ticket list descriptor" where
  "ticketsExtrinsicCodec = codec_withContext (\<lambda>c. codec_knownSizeArray codec_SignedTicket (Inr (\<lparr>minLength = 0, maxLength = maxTicketsPerExtrinsic c\<rparr>, maxTicketsPerExtrinsic c))) default_context"

lemma ticketsExtrinsicCodec_rule [codec_rules]:
  "implements (ticketsExtrinsicCodec c) (fm_seq \<lparr>minLength = 0, maxLength = maxTicketsPerExtrinsic c\<rparr> fm_SignedTicket)"
  unfolding ticketsExtrinsicCodec_def by (intro codec_rules)

section \<open>Preimages\<close>

definition codec_Preimage :: "preimage descriptor" where
  "codec_Preimage = codec_Class
    (field (codec_nat codec_u32) (field codec_blob no_fields))
    (\<lambda>x. (pr_requester x, pr_blob x, ()))
    (\<lambda>(a, b, _). \<lparr>pr_requester = a, pr_blob = b\<rparr>)"

definition fm_Preimage :: "preimage format" where
  "fm_Preimage = fm_class
    (\<lambda>x. (pr_requester x, pr_blob x, ()))
    (fm_field (fm_nat_le 4) (fm_field fm_blob fm_end))"

lemma Preimage_rule [codec_rules]: "implements codec_Preimage fm_Preimage"
  unfolding codec_Preimage_def fm_Preimage_def by (intro codec_rules) simp_all

definition preimagesExtrinsicCodec :: "preimage list descriptor" where
  "preimagesExtrinsicCodec = codec_sequenceVarLen codec_Preimage default_range None"

section \<open>Guarantees\<close>

record credential =
  cr_validatorIndex :: nat
  cr_signature :: blob

definition codec_Credential :: "credential descriptor" where
  "codec_Credential = codec_Class
    (field (codec_nat codec_u16) (field (codec_bytes ED25519_SIGNATURE_BYTES) no_fields))
    (\<lambda>x. (cr_validatorIndex x, cr_signature x, ()))
    (\<lambda>(a, b, _). \<lparr>cr_validatorIndex = a, cr_signature = b\<rparr>)"

definition fm_Credential :: "credential format" where
  "fm_Credential = fm_class
    (\<lambda>x. (cr_validatorIndex x, cr_signature x, ()))
    (fm_field (fm_nat_le 2) (fm_field (fm_fixed ED25519_SIGNATURE_BYTES) fm_end))"

lemma Credential_rule [codec_rules]: "implements codec_Credential fm_Credential"
  unfolding codec_Credential_def fm_Credential_def by (intro codec_rules) simp_all

definition REQUIRED_CREDENTIALS_RANGE :: "nat \<times> nat" where "REQUIRED_CREDENTIALS_RANGE = (2, 3)"

record report_guarantee =
  gu_report :: work_report
  gu_slot :: nat
  gu_credentials :: "credential list"

definition codec_ReportGuarantee :: "report_guarantee descriptor" where
  "codec_ReportGuarantee = codec_Class
    (field codec_WorkReport (field (codec_nat codec_u32)
      (field (codec_knownSizeArray codec_Credential (Inr (\<lparr>minLength = fst REQUIRED_CREDENTIALS_RANGE, maxLength = snd REQUIRED_CREDENTIALS_RANGE\<rparr>, snd REQUIRED_CREDENTIALS_RANGE))) no_fields)))
    (\<lambda>x. (gu_report x, gu_slot x, gu_credentials x, ()))
    (\<lambda>(a, b, c, _). \<lparr>gu_report = a, gu_slot = b, gu_credentials = c\<rparr>)"

definition fm_ReportGuarantee :: "report_guarantee format" where
  "fm_ReportGuarantee = fm_class
    (\<lambda>x. (gu_report x, gu_slot x, gu_credentials x, ()))
    (fm_field fm_WorkReport (fm_field (fm_nat_le 4)
      (fm_field (fm_seq \<lparr>minLength = fst REQUIRED_CREDENTIALS_RANGE, maxLength = snd REQUIRED_CREDENTIALS_RANGE\<rparr> fm_Credential) fm_end)))"

lemma ReportGuarantee_rule [codec_rules]: "implements codec_ReportGuarantee fm_ReportGuarantee"
  unfolding codec_ReportGuarantee_def fm_ReportGuarantee_def by (intro codec_rules) simp_all

definition guaranteesExtrinsicCodec :: "chain_spec \<Rightarrow> report_guarantee list descriptor" where
  "guaranteesExtrinsicCodec = codec_withContext (\<lambda>c. codec_knownSizeArray codec_ReportGuarantee (Inr (\<lparr>minLength = 0, maxLength = coresCount c\<rparr>, coresCount c))) default_context"

lemma guaranteesExtrinsicCodec_rule [codec_rules]:
  "implements (guaranteesExtrinsicCodec c) (fm_seq \<lparr>minLength = 0, maxLength = coresCount c\<rparr> fm_ReportGuarantee)"
  unfolding guaranteesExtrinsicCodec_def by (intro codec_rules)

section \<open>Assurances\<close>

definition codec_bitfield :: "chain_spec \<Rightarrow> bitvec descriptor" where
  "codec_bitfield = codec_withContext (\<lambda>c. codec_bitVecFixLen (coresCount c)) default_context"

lemma bitfield_rule [codec_rules]: "implements (codec_bitfield c) (fm_bits (coresCount c))"
  unfolding codec_bitfield_def by (rule context_rule, rule bits_transcodes)

definition codec_AvailabilityAssurance :: "chain_spec \<Rightarrow> availability_assurance descriptor" where
  "codec_AvailabilityAssurance c = codec_Class
    (field (codec_bytes HASH_SIZE) (field (codec_bitfield c) (field (codec_nat codec_u16)
      (field (codec_bytes ED25519_SIGNATURE_BYTES) no_fields))))
    (\<lambda>x. (as_anchor x, as_bitfield x, as_validatorIndex x, as_signature x, ()))
    (\<lambda>(a, b, c, d, _). \<lparr>as_anchor = a, as_bitfield = b, as_validatorIndex = c,
      as_signature = d\<rparr>)"

definition fm_AvailabilityAssurance :: "chain_spec \<Rightarrow> availability_assurance format" where
  "fm_AvailabilityAssurance c = fm_class
    (\<lambda>x. (as_anchor x, as_bitfield x, as_validatorIndex x, as_signature x, ()))
    (fm_field (fm_fixed HASH_SIZE) (fm_field (fm_bits (coresCount c)) (fm_field (fm_nat_le 2)
      (fm_field (fm_fixed ED25519_SIGNATURE_BYTES) fm_end))))"

lemma AvailabilityAssurance_rule [codec_rules]: "implements (codec_AvailabilityAssurance c) (fm_AvailabilityAssurance c)"
  unfolding codec_AvailabilityAssurance_def fm_AvailabilityAssurance_def by (intro codec_rules) simp_all

text \<open>The typical length, a size hint, is halved without rounding in the source.\<close>

definition assurancesExtrinsicCodec :: "chain_spec \<Rightarrow> availability_assurance list descriptor" where
  "assurancesExtrinsicCodec = codec_withContext (\<lambda>c. codec_knownSizeArray (codec_AvailabilityAssurance c) (Inr (\<lparr>minLength = 0, maxLength = validatorsCount c\<rparr>, validatorsCount c div 2))) default_context"

lemma assurancesExtrinsicCodec_rule [codec_rules]:
  "implements (assurancesExtrinsicCodec c) (fm_seq \<lparr>minLength = 0, maxLength = validatorsCount c\<rparr> (fm_AvailabilityAssurance c))"
  unfolding assurancesExtrinsicCodec_def by (intro codec_rules)

section \<open>Disputes\<close>

record fault =
  fa_workReportHash :: blob
  fa_wasConsideredValid :: bool
  fa_key :: blob
  fa_signature :: blob

definition codec_Fault :: "fault descriptor" where
  "codec_Fault = codec_Class
    (field (codec_bytes HASH_SIZE) (field codec_bool (field (codec_bytes ED25519_KEY_BYTES)
      (field (codec_bytes ED25519_SIGNATURE_BYTES) no_fields))))
    (\<lambda>x. (fa_workReportHash x, fa_wasConsideredValid x, fa_key x, fa_signature x, ()))
    (\<lambda>(a, b, c, d, _). \<lparr>fa_workReportHash = a, fa_wasConsideredValid = b, fa_key = c,
      fa_signature = d\<rparr>)"

definition fm_Fault :: "fault format" where
  "fm_Fault = fm_class
    (\<lambda>x. (fa_workReportHash x, fa_wasConsideredValid x, fa_key x, fa_signature x, ()))
    (fm_field (fm_fixed HASH_SIZE) (fm_field fm_bool (fm_field (fm_fixed ED25519_KEY_BYTES)
      (fm_field (fm_fixed ED25519_SIGNATURE_BYTES) fm_end))))"

lemma Fault_rule [codec_rules]: "implements codec_Fault fm_Fault"
  unfolding codec_Fault_def fm_Fault_def by (intro codec_rules) simp_all

record culprit =
  cu_workReportHash :: blob
  cu_key :: blob
  cu_signature :: blob

definition codec_Culprit :: "culprit descriptor" where
  "codec_Culprit = codec_Class
    (field (codec_bytes HASH_SIZE) (field (codec_bytes ED25519_KEY_BYTES)
      (field (codec_bytes ED25519_SIGNATURE_BYTES) no_fields)))
    (\<lambda>x. (cu_workReportHash x, cu_key x, cu_signature x, ()))
    (\<lambda>(a, b, c, _). \<lparr>cu_workReportHash = a, cu_key = b, cu_signature = c\<rparr>)"

definition fm_Culprit :: "culprit format" where
  "fm_Culprit = fm_class
    (\<lambda>x. (cu_workReportHash x, cu_key x, cu_signature x, ()))
    (fm_field (fm_fixed HASH_SIZE) (fm_field (fm_fixed ED25519_KEY_BYTES)
      (fm_field (fm_fixed ED25519_SIGNATURE_BYTES) fm_end)))"

lemma Culprit_rule [codec_rules]: "implements codec_Culprit fm_Culprit"
  unfolding codec_Culprit_def fm_Culprit_def by (intro codec_rules) simp_all

record judgement =
  ju_isWorkReportValid :: bool
  ju_index :: nat
  ju_signature :: blob

definition codec_Judgement :: "judgement descriptor" where
  "codec_Judgement = codec_Class
    (field codec_bool (field (codec_nat codec_u16) (field (codec_bytes ED25519_SIGNATURE_BYTES) no_fields)))
    (\<lambda>x. (ju_isWorkReportValid x, ju_index x, ju_signature x, ()))
    (\<lambda>(a, b, c, _). \<lparr>ju_isWorkReportValid = a, ju_index = b, ju_signature = c\<rparr>)"

definition fm_Judgement :: "judgement format" where
  "fm_Judgement = fm_class
    (\<lambda>x. (ju_isWorkReportValid x, ju_index x, ju_signature x, ()))
    (fm_field fm_bool (fm_field (fm_nat_le 2) (fm_field (fm_fixed ED25519_SIGNATURE_BYTES) fm_end)))"

lemma Judgement_rule [codec_rules]: "implements codec_Judgement fm_Judgement"
  unfolding codec_Judgement_def fm_Judgement_def by (intro codec_rules) simp_all

definition codec_votes :: "chain_spec \<Rightarrow> judgement list descriptor" where
  "codec_votes = codec_withContext (\<lambda>c. codec_sequenceFixLen codec_Judgement (validatorsSuperMajority c)) default_context"

lemma codec_votes_rule [codec_rules]:
  "implements (codec_votes c) (fm_array (validatorsSuperMajority c) fm_Judgement)"
  unfolding codec_votes_def by (intro codec_rules)

record verdict =
  ve_workReportHash :: blob
  ve_votesEpoch :: nat
  ve_votes :: "judgement list"

definition codec_Verdict :: "chain_spec \<Rightarrow> verdict descriptor" where
  "codec_Verdict c = codec_Class
    (field (codec_bytes HASH_SIZE) (field (codec_nat codec_u32) (field (codec_votes c) no_fields)))
    (\<lambda>x. (ve_workReportHash x, ve_votesEpoch x, ve_votes x, ()))
    (\<lambda>(a, b, c, _). \<lparr>ve_workReportHash = a, ve_votesEpoch = b, ve_votes = c\<rparr>)"

definition fm_Verdict :: "chain_spec \<Rightarrow> verdict format" where
  "fm_Verdict c = fm_class
    (\<lambda>x. (ve_workReportHash x, ve_votesEpoch x, ve_votes x, ()))
    (fm_field (fm_fixed HASH_SIZE) (fm_field (fm_nat_le 4)
      (fm_field (fm_array (validatorsSuperMajority c) fm_Judgement) fm_end)))"

lemma Verdict_rule [codec_rules]: "implements (codec_Verdict c) (fm_Verdict c)"
  unfolding codec_Verdict_def fm_Verdict_def by (intro codec_rules) simp_all

record disputes_extrinsic =
  dx_verdicts :: "verdict list"
  dx_culprits :: "culprit list"
  dx_faults :: "fault list"

definition codec_DisputesExtrinsic :: "chain_spec \<Rightarrow> disputes_extrinsic descriptor" where
  "codec_DisputesExtrinsic c = codec_Class
    (field (codec_sequenceVarLen (codec_Verdict c) default_range None)
      (field (codec_sequenceVarLen codec_Culprit default_range None)
      (field (codec_sequenceVarLen codec_Fault default_range None) no_fields)))
    (\<lambda>x. (dx_verdicts x, dx_culprits x, dx_faults x, ()))
    (\<lambda>(a, b, c, _). \<lparr>dx_verdicts = a, dx_culprits = b, dx_faults = c\<rparr>)"

definition fm_DisputesExtrinsic :: "chain_spec \<Rightarrow> disputes_extrinsic format" where
  "fm_DisputesExtrinsic c = fm_class
    (\<lambda>x. (dx_verdicts x, dx_culprits x, dx_faults x, ()))
    (fm_field (fm_seq default_range (fm_Verdict c)) (fm_field (fm_seq default_range fm_Culprit)
      (fm_field (fm_seq default_range fm_Fault) fm_end)))"

lemma DisputesExtrinsic_rule [codec_rules]: "implements (codec_DisputesExtrinsic c) (fm_DisputesExtrinsic c)"
  unfolding codec_DisputesExtrinsic_def fm_DisputesExtrinsic_def by (intro codec_rules) simp_all

section \<open>The header\<close>

record validator_keys =
  vk_bandersnatch :: blob
  vk_ed25519 :: blob

definition codec_ValidatorKeys :: "validator_keys descriptor" where
  "codec_ValidatorKeys = codec_Class
    (field (codec_bytes BANDERSNATCH_KEY_BYTES) (field (codec_bytes ED25519_KEY_BYTES) no_fields))
    (\<lambda>x. (vk_bandersnatch x, vk_ed25519 x, ()))
    (\<lambda>(a, b, _). \<lparr>vk_bandersnatch = a, vk_ed25519 = b\<rparr>)"

definition fm_ValidatorKeys :: "validator_keys format" where
  "fm_ValidatorKeys = fm_class
    (\<lambda>x. (vk_bandersnatch x, vk_ed25519 x, ()))
    (fm_field (fm_fixed BANDERSNATCH_KEY_BYTES) (fm_field (fm_fixed ED25519_KEY_BYTES) fm_end))"

lemma ValidatorKeys_rule [codec_rules]: "implements codec_ValidatorKeys fm_ValidatorKeys"
  unfolding codec_ValidatorKeys_def fm_ValidatorKeys_def by (intro codec_rules) simp_all

record tickets_marker =
  tm_tickets :: "ticket list"

definition codec_TicketsMarker :: "chain_spec \<Rightarrow> tickets_marker descriptor" where
  "codec_TicketsMarker c = codec_Class
    (field (codec_perEpochBlock codec_Ticket c) no_fields)
    (\<lambda>x. (tm_tickets x, ()))
    (\<lambda>(a, _). \<lparr>tm_tickets = a\<rparr>)"

definition fm_TicketsMarker :: "chain_spec \<Rightarrow> tickets_marker format" where
  "fm_TicketsMarker c = fm_class
    (\<lambda>x. (tm_tickets x, ()))
    (fm_field (fm_array (epochLength c) fm_Ticket) fm_end)"

lemma TicketsMarker_rule [codec_rules]: "implements (codec_TicketsMarker c) (fm_TicketsMarker c)"
  unfolding codec_TicketsMarker_def fm_TicketsMarker_def by (intro codec_rules) simp_all

record epoch_marker =
  em_entropy :: blob
  em_ticketsEntropy :: blob
  em_validators :: "validator_keys list"

definition codec_EpochMarker :: "chain_spec \<Rightarrow> epoch_marker descriptor" where
  "codec_EpochMarker c = codec_Class
    (field (codec_bytes HASH_SIZE) (field (codec_bytes HASH_SIZE)
      (field (codec_perValidator codec_ValidatorKeys c) no_fields)))
    (\<lambda>x. (em_entropy x, em_ticketsEntropy x, em_validators x, ()))
    (\<lambda>(a, b, c, _). \<lparr>em_entropy = a, em_ticketsEntropy = b, em_validators = c\<rparr>)"

definition fm_EpochMarker :: "chain_spec \<Rightarrow> epoch_marker format" where
  "fm_EpochMarker c = fm_class
    (\<lambda>x. (em_entropy x, em_ticketsEntropy x, em_validators x, ()))
    (fm_field (fm_fixed HASH_SIZE) (fm_field (fm_fixed HASH_SIZE)
      (fm_field (fm_array (validatorsCount c) fm_ValidatorKeys) fm_end)))"

lemma EpochMarker_rule [codec_rules]: "implements (codec_EpochMarker c) (fm_EpochMarker c)"
  unfolding codec_EpochMarker_def fm_EpochMarker_def by (intro codec_rules) simp_all

record header =
  hd_parentHeaderHash :: blob
  hd_priorStateRoot :: blob
  hd_extrinsicHash :: blob
  hd_timeSlotIndex :: nat
  hd_epochMarker :: "epoch_marker option"
  hd_ticketsMarker :: "tickets_marker option"
  hd_bandersnatchBlockAuthorIndex :: nat
  hd_entropySource :: blob
  hd_offendersMarker :: "blob list"
  hd_seal :: blob

definition codec_Header :: "chain_spec \<Rightarrow> header descriptor" where
  "codec_Header c = codec_Class
    (field (codec_bytes HASH_SIZE) (field (codec_bytes HASH_SIZE) (field (codec_bytes HASH_SIZE)
      (field (codec_nat codec_u32) (field (codec_optional (codec_EpochMarker c))
      (field (codec_optional (codec_TicketsMarker c)) (field (codec_nat codec_u16)
      (field (codec_bytes BANDERSNATCH_VRF_SIGNATURE_BYTES)
      (field (codec_sequenceVarLen (codec_bytes ED25519_KEY_BYTES) default_range None)
      (field (codec_bytes BANDERSNATCH_VRF_SIGNATURE_BYTES) no_fields))))))))))
    (\<lambda>x. (hd_parentHeaderHash x, hd_priorStateRoot x, hd_extrinsicHash x, hd_timeSlotIndex x,
      hd_epochMarker x, hd_ticketsMarker x, hd_bandersnatchBlockAuthorIndex x, hd_entropySource x,
      hd_offendersMarker x, hd_seal x, ()))
    (\<lambda>(a, b, c, d, e, f, g, h, i, j, _). \<lparr>hd_parentHeaderHash = a, hd_priorStateRoot = b,
      hd_extrinsicHash = c, hd_timeSlotIndex = d, hd_epochMarker = e, hd_ticketsMarker = f,
      hd_bandersnatchBlockAuthorIndex = g, hd_entropySource = h, hd_offendersMarker = i,
      hd_seal = j\<rparr>)"

definition fm_Header :: "chain_spec \<Rightarrow> header format" where
  "fm_Header c = fm_class
    (\<lambda>x. (hd_parentHeaderHash x, hd_priorStateRoot x, hd_extrinsicHash x, hd_timeSlotIndex x,
      hd_epochMarker x, hd_ticketsMarker x, hd_bandersnatchBlockAuthorIndex x, hd_entropySource x,
      hd_offendersMarker x, hd_seal x, ()))
    (fm_field (fm_fixed HASH_SIZE) (fm_field (fm_fixed HASH_SIZE) (fm_field (fm_fixed HASH_SIZE)
      (fm_field (fm_nat_le 4) (fm_field (fm_option (fm_EpochMarker c))
      (fm_field (fm_option (fm_TicketsMarker c)) (fm_field (fm_nat_le 2)
      (fm_field (fm_fixed BANDERSNATCH_VRF_SIGNATURE_BYTES)
      (fm_field (fm_seq default_range (fm_fixed ED25519_KEY_BYTES))
      (fm_field (fm_fixed BANDERSNATCH_VRF_SIGNATURE_BYTES) fm_end))))))))))"

lemma Header_rule [codec_rules]: "implements (codec_Header c) (fm_Header c)"
  unfolding codec_Header_def fm_Header_def by (intro codec_rules) simp_all

definition header_empty :: header where
  "header_empty = \<lparr>hd_parentHeaderHash = bytes_zero HASH_SIZE, hd_priorStateRoot = bytes_zero HASH_SIZE,
    hd_extrinsicHash = bytes_zero HASH_SIZE, hd_timeSlotIndex = 0, hd_epochMarker = None, hd_ticketsMarker = None,
    hd_bandersnatchBlockAuthorIndex = 0, hd_entropySource = bytes_zero BANDERSNATCH_VRF_SIGNATURE_BYTES,
    hd_offendersMarker = [], hd_seal = bytes_zero BANDERSNATCH_VRF_SIGNATURE_BYTES\<rparr>"

text \<open>What is signed by the seal: the encoded header without its last field.\<close>

definition encodeUnsealedHeader :: "chain_spec \<Rightarrow> header \<Rightarrow> blob throws" where
  "encodeUnsealedHeader c view = bindE (encodeObject (codec_Header c) view) (\<lambda>encodedFullHeader.
    let encodedUnsealedLen = length encodedFullHeader - BANDERSNATCH_VRF_SIGNATURE_BYTES
    in Inr (take encodedUnsealedLen encodedFullHeader))"

section \<open>The block\<close>

lemma preimagesExtrinsic_rule [codec_rules]: "implements preimagesExtrinsicCodec (fm_seq default_range fm_Preimage)"
  unfolding preimagesExtrinsicCodec_def by (intro codec_rules)

record extrinsic =
  et_tickets :: "signed_ticket list"
  et_preimages :: "preimage list"
  et_guarantees :: "report_guarantee list"
  et_assurances :: "availability_assurance list"
  et_disputes :: disputes_extrinsic

definition codec_Extrinsic :: "chain_spec \<Rightarrow> extrinsic descriptor" where
  "codec_Extrinsic c = codec_Class
    (field (ticketsExtrinsicCodec c) (field preimagesExtrinsicCodec (field (guaranteesExtrinsicCodec c)
      (field (assurancesExtrinsicCodec c) (field (codec_DisputesExtrinsic c) no_fields)))))
    (\<lambda>x. (et_tickets x, et_preimages x, et_guarantees x, et_assurances x, et_disputes x, ()))
    (\<lambda>(a, b, c, d, e, _). \<lparr>et_tickets = a, et_preimages = b, et_guarantees = c,
      et_assurances = d, et_disputes = e\<rparr>)"

definition fm_Extrinsic :: "chain_spec \<Rightarrow> extrinsic format" where
  "fm_Extrinsic c = fm_class
    (\<lambda>x. (et_tickets x, et_preimages x, et_guarantees x, et_assurances x, et_disputes x, ()))
    (fm_field (fm_seq \<lparr>minLength = 0, maxLength = maxTicketsPerExtrinsic c\<rparr> fm_SignedTicket)
      (fm_field (fm_seq default_range fm_Preimage)
      (fm_field (fm_seq \<lparr>minLength = 0, maxLength = coresCount c\<rparr> fm_ReportGuarantee)
      (fm_field (fm_seq \<lparr>minLength = 0, maxLength = validatorsCount c\<rparr> (fm_AvailabilityAssurance c))
      (fm_field (fm_DisputesExtrinsic c) fm_end)))))"

lemma Extrinsic_rule [codec_rules]: "implements (codec_Extrinsic c) (fm_Extrinsic c)"
  unfolding codec_Extrinsic_def fm_Extrinsic_def by (intro codec_rules) simp_all

record block =
  bk_header :: header
  bk_extrinsic :: extrinsic

definition codec_Block :: "chain_spec \<Rightarrow> block descriptor" where
  "codec_Block c = codec_Class
    (field (codec_Header c) (field (codec_Extrinsic c) no_fields))
    (\<lambda>x. (bk_header x, bk_extrinsic x, ()))
    (\<lambda>(a, b, _). \<lparr>bk_header = a, bk_extrinsic = b\<rparr>)"

definition fm_Block :: "chain_spec \<Rightarrow> block format" where
  "fm_Block c = fm_class
    (\<lambda>x. (bk_header x, bk_extrinsic x, ()))
    (fm_field (fm_Header c) (fm_field (fm_Extrinsic c) fm_end))"

lemma Block_rule [codec_rules]: "implements (codec_Block c) (fm_Block c)"
  unfolding codec_Block_def fm_Block_def by (intro codec_rules) simp_all

definition emptyBlock :: "nat \<Rightarrow> block" where
  "emptyBlock slot =
    \<lparr>bk_header = header_empty\<lparr>hd_timeSlotIndex := slot\<rparr>,
     bk_extrinsic = \<lparr>et_tickets = [], et_preimages = [], et_guarantees = [], et_assurances = [],
       et_disputes = \<lparr>dx_verdicts = [], dx_culprits = [], dx_faults = []\<rparr>\<rparr>\<rparr>"

section \<open>What is signed\<close>

text \<open>The unsealed header does not depend on the seal and determines everything else.\<close>

lemma length_header:
  assumes "fm_valid (fm_Header c) h"
  shows "\<exists>bs. \<forall>s. fm_bytes (fm_Header c) (h\<lparr>hd_seal := s\<rparr>) = bs @ s"
    and "length (hd_seal h) = BANDERSNATCH_VRF_SIGNATURE_BYTES"
  using assms by (auto simp: fm_Header_def fm_class_def fm_field_def fm_fixed_def fm_end_def)

lemma unsealed_eq:
  assumes "fm_valid (fm_Header c) h" "length (fm_bytes (fm_Header c) h) \<le> MAX_LENGTH"
  shows "\<exists>bs. encodeUnsealedHeader c h = Inr bs \<and> fm_bytes (fm_Header c) h = bs @ hd_seal h"
proof -
  obtain bs where bs: "\<And>s. fm_bytes (fm_Header c) (h\<lparr>hd_seal := s\<rparr>) = bs @ s" using length_header(1) [OF assms(1)] by blast
  have "fm_bytes (fm_Header c) h = bs @ hd_seal h" using bs [of "hd_seal h"] by simp
  then show ?thesis
    using implements_encodeObject [OF Header_rule assms] length_header(2) [OF assms(1)]
    by (simp add: encodeUnsealedHeader_def Let_def)
qed

lemma unsealed_determines:
  assumes "fm_valid (fm_Header c) h" "length (fm_bytes (fm_Header c) h) \<le> MAX_LENGTH"
    "fm_valid (fm_Header c) k" "length (fm_bytes (fm_Header c) k) \<le> MAX_LENGTH"
  shows "encodeUnsealedHeader c h = encodeUnsealedHeader c k \<longleftrightarrow> k = h\<lparr>hd_seal := hd_seal k\<rparr>"
proof
  assume eq: "encodeUnsealedHeader c h = encodeUnsealedHeader c k"
  obtain bs where bs: "\<And>s. fm_bytes (fm_Header c) (h\<lparr>hd_seal := s\<rparr>) = bs @ s" using length_header(1) [OF assms(1)] by blast
  from bs [of "hd_seal h"] have h: "fm_bytes (fm_Header c) h = bs @ hd_seal h" by simp
  obtain us where us: "encodeUnsealedHeader c h = Inr us" "fm_bytes (fm_Header c) h = us @ hd_seal h"
    using unsealed_eq [OF assms(1,2)] by blast
  obtain vs where vs: "encodeUnsealedHeader c k = Inr vs" "fm_bytes (fm_Header c) k = vs @ hd_seal k"
    using unsealed_eq [OF assms(3,4)] by blast
  have same: "us = bs" "vs = bs" using us vs h eq by simp_all
  have valid: "fm_valid (fm_Header c) (h\<lparr>hd_seal := hd_seal k\<rparr>)"
    using assms(1) length_header(2) [OF assms(3)]
    by (simp add: fm_Header_def fm_class_def fm_field_def fm_fixed_def fm_end_def)
  have "fm_bytes (fm_Header c) k = fm_bytes (fm_Header c) (h\<lparr>hd_seal := hd_seal k\<rparr>)"
    using vs(2) same bs by simp
  then show "k = h\<lparr>hd_seal := hd_seal k\<rparr>"
    using implements_injective [OF Header_rule assms(3) valid, of "[]" "[]"] by simp
next
  assume k: "k = h\<lparr>hd_seal := hd_seal k\<rparr>"
  obtain bs where bs: "\<And>s. fm_bytes (fm_Header c) (h\<lparr>hd_seal := s\<rparr>) = bs @ s" using length_header(1) [OF assms(1)] by blast
  from bs [of "hd_seal h"] have h: "fm_bytes (fm_Header c) h = bs @ hd_seal h" by simp
  have k': "fm_bytes (fm_Header c) k = bs @ hd_seal k" using bs [of "hd_seal k"] k by metis
  show "encodeUnsealedHeader c h = encodeUnsealedHeader c k"
    using unsealed_eq [OF assms(1,2)] unsealed_eq [OF assms(3,4)] h k' by auto
qed

section \<open>An empty block\<close>

lemma emptyBlock_valid: "fm_valid (fm_Block tiny_data) (emptyBlock 7)"
  by (simp add: emptyBlock_def header_empty_def fm_Block_def fm_Header_def fm_Extrinsic_def fm_DisputesExtrinsic_def fm_class_def
      fm_field_def fm_fixed_def fm_end_def fm_seq_def fm_nat_le_def fm_option_def bytes_zero_def default_range_def)

lemma emptyBlock_length: "length (fm_bytes (fm_Block tiny_data) (emptyBlock 7)) \<le> MAX_LENGTH"
  using extra_bytes_le [of 0] by (simp add: emptyBlock_def header_empty_def fm_Block_def fm_Header_def fm_Extrinsic_def fm_DisputesExtrinsic_def fm_class_def
      fm_field_def fm_fixed_def fm_end_def fm_seq_def fm_nat_le_def fm_option_def bytes_zero_def prefixed_def MAX_LENGTH_def
      HASH_SIZE_def BANDERSNATCH_VRF_SIGNATURE_BYTES_def)

end
