(* ===== verification/Signatures.thy ===== *)
theory Signatures
  imports BlockCodec JsCollections ServiceState
begin

text \<open>
  Batch verification of \<open>ed25519\<close> signatures (\<open>packages/core/crypto/ed25519.ts\<close>) and the signatures of a
  disputes extrinsic (\<open>packages/jam/transition/disputes/verification-utils.ts\<close>). The native function that gets
  the packed batch is the parameter \<open>W\<close>; \<open>verifies W valid\<close> is its documented behaviour, one number per
  signature, \<open>1\<close> exactly when the signature is valid.
\<close>

record input_item =
  in_key :: blob
  in_signature :: blob
  in_message :: blob

section \<open>Batches\<close>

text \<open>One item of the packed batch; keys and signatures have their fixed sizes by type.\<close>

definition pack_item :: "input_item \<Rightarrow> blob throws" where
  "pack_item i = check (length (in_message i) < 256)
    (Inr (in_key i @ in_signature i @ [of_nat (length (in_message i))] @ in_message i))"

definition ed25519_verify :: "(blob \<Rightarrow> byte list) \<Rightarrow> input_item list \<Rightarrow> bool list throws" where
  "ed25519_verify W input =
    (if length input = 0 then Inr []
     else bindE (mapE pack_item input) (\<lambda>parts. Inr (map (\<lambda>x. x = 1) (W (concat parts)))))"

definition item_bytes :: "input_item \<Rightarrow> blob" where
  "item_bytes i = in_key i @ in_signature i @ [of_nat (length (in_message i))] @ in_message i"

definition well_sized :: "input_item \<Rightarrow> bool" where
  "well_sized i \<longleftrightarrow> length (in_key i) = ED25519_KEY_BYTES \<and> length (in_signature i) = ED25519_SIGNATURE_BYTES \<and>
    length (in_message i) < 256"

definition verifies :: "(blob \<Rightarrow> byte list) \<Rightarrow> (input_item \<Rightarrow> bool) \<Rightarrow> bool" where
  "verifies W valid \<longleftrightarrow> (\<forall>items. items \<noteq> [] \<and> (\<forall>i \<in> set items. well_sized i) \<longrightarrow>
    W (concat (map item_bytes items)) = map (\<lambda>i. if valid i then 1 else 0) items)"

lemma ed25519_verify_eq:
  assumes "verifies W valid" "\<forall>i \<in> set items. well_sized i"
  shows "ed25519_verify W items = Inr (map valid items)"
proof -
  have "mapE pack_item items = Inr (map item_bytes items)"
    by (rule mapE_pure) (use assms(2) in \<open>auto simp: pack_item_def item_bytes_def well_sized_def\<close>)
  then show ?thesis using assms by (simp add: ed25519_verify_def verifies_def comp_def)
qed

section \<open>The signatures of disputes\<close>

record verification_input =
  vi_judgements :: "input_item list"
  vi_culprits :: "input_item list"
  vi_faults :: "input_item list"

record verification_result_item =
  vr_signature :: blob
  vr_isValid :: bool

record verification_output =
  vo_judgements :: "verification_result_item list"
  vo_culprits :: "verification_result_item list"
  vo_faults :: "verification_result_item list"

definition JAM_VALID :: blob where "JAM_VALID = map of_char ''jam_valid''"
definition JAM_INVALID :: blob where "JAM_INVALID = map of_char ''jam_invalid''"
definition JAM_GUARANTEE :: blob where "JAM_GUARANTEE = map of_char ''jam_guarantee''"

definition prepareCulpritSignature :: "culprit \<Rightarrow> input_item" where
  "prepareCulpritSignature c =
    \<lparr>in_key = cu_key c, in_signature = cu_signature c, in_message = blobFromParts [JAM_GUARANTEE, cu_workReportHash c]\<rparr>"

definition prepareFaultSignature :: "fault \<Rightarrow> input_item" where
  "prepareFaultSignature f =
    (let signingContext = (if fa_wasConsideredValid f then JAM_VALID else JAM_INVALID)
     in \<lparr>in_key = fa_key f, in_signature = fa_signature f, in_message = blobFromParts [signingContext, fa_workReportHash f]\<rparr>)"

definition prepareJudgementSignature :: "judgement \<Rightarrow> blob \<Rightarrow> blob \<Rightarrow> input_item" where
  "prepareJudgementSignature j workReportHash key =
    (let signingContext = (if ju_isWorkReportValid j then JAM_VALID else JAM_INVALID)
     in \<lparr>in_key = key, in_signature = ju_signature j, in_message = blobFromParts [signingContext, workReportHash]\<rparr>)"

definition verify_group :: "(blob \<Rightarrow> byte list) \<Rightarrow> input_item list \<Rightarrow> verification_result_item list throws" where
  "verify_group W signatureGroup = bindE (ed25519_verify W signatureGroup)
    (mapE (\<lambda>(idx, isValid). if idx < length signatureGroup
       then Inr \<lparr>vr_signature = in_signature (signatureGroup ! idx), vr_isValid = isValid\<rparr> else Inl TypeError) \<circ> enumerate 0)"

text \<open>The groups are verified in the order of the fields of the input object.\<close>

definition vefifyAllSignatures :: "(blob \<Rightarrow> byte list) \<Rightarrow> verification_input \<Rightarrow> verification_output throws" where
  "vefifyAllSignatures W input =
    bindE (verify_group W (vi_culprits input)) (\<lambda>culprits.
    bindE (verify_group W (vi_judgements input)) (\<lambda>judgements.
    bindE (verify_group W (vi_faults input)) (\<lambda>faults.
      Inr \<lparr>vo_judgements = judgements, vo_culprits = culprits, vo_faults = faults\<rparr>)))"

definition result_item :: "(input_item \<Rightarrow> bool) \<Rightarrow> input_item \<Rightarrow> verification_result_item" where
  "result_item valid i = \<lparr>vr_signature = in_signature i, vr_isValid = valid i\<rparr>"

lemma verify_group_eq:
  assumes "verifies W valid" "\<forall>i \<in> set items. well_sized i"
  shows "verify_group W items = Inr (map (result_item valid) items)"
proof -
  have "mapE (\<lambda>(idx, isValid). if idx < length items
      then Inr \<lparr>vr_signature = in_signature (items ! idx), vr_isValid = isValid\<rparr> else Inl TypeError) (enumerate 0 (map valid items)) =
    Inr (map (\<lambda>(idx, isValid). \<lparr>vr_signature = in_signature (items ! idx), vr_isValid = isValid\<rparr>) (enumerate 0 (map valid items)))"
    by (rule mapE_pure) (auto simp: in_set_enumerate_eq)
  moreover have "map (\<lambda>(idx, isValid). \<lparr>vr_signature = in_signature (items ! idx), vr_isValid = isValid\<rparr>) (enumerate 0 (map valid items)) =
    map (result_item valid) items"
    by (rule nth_equalityI) (simp_all add: nth_enumerate_eq result_item_def)
  ultimately show ?thesis by (simp add: verify_group_def ed25519_verify_eq [OF assms])
qed

lemma vefifyAllSignatures_eq:
  assumes "verifies W valid" "\<forall>i \<in> set (vi_culprits input) \<union> set (vi_judgements input) \<union> set (vi_faults input). well_sized i"
  shows "vefifyAllSignatures W input = Inr
    \<lparr>vo_judgements = map (result_item valid) (vi_judgements input), vo_culprits = map (result_item valid) (vi_culprits input),
     vo_faults = map (result_item valid) (vi_faults input)\<rparr>"
  using assms by (simp add: vefifyAllSignatures_def verify_group_eq)

end
