(* ===== verification/Disputes.thy ===== *)
theory Disputes
  imports Signatures SortedCollections
begin

text \<open>
  The disputes transition, \<open>packages/jam/transition/disputes\<close> with the records of \<open>state/disputes.ts\<close>.
  The hash dictionary of votes is an association list (what the dictionary over 32-byte keys refines), the
  hash sets are lists. The five checks are all run before the first error is picked, as the source does: an
  exception in any of them wins over an error of an earlier one.
\<close>

section \<open>State\<close>

record disputes_records =
  dr_goodSet :: "blob list"
  dr_badSet :: "blob list"
  dr_wonkySet :: "blob list"
  dr_punishSet :: "blob list"

definition hashComparator :: "blob \<Rightarrow> blob \<Rightarrow> ordering" where
  "hashComparator a b = blob_compare a b"

record disputes_state =
  ds_disputesRecords :: disputes_records
  ds_availabilityAssignment :: "availability_assignment option list"
  ds_timeslot :: nat
  ds_currentValidatorData :: "validator_data list"
  ds_previousValidatorData :: "validator_data list"

datatype disputes_error =
    AlreadyJudged | BadVoteSplit | VerdictsNotSortedUnique | JudgementsNotSortedUnique
  | CulpritsNotSortedUnique | FaultsNotSortedUnique | NotEnoughCulprits | NotEnoughFaults
  | CulpritsVerdictNotBad | FaultVerdictWrong | OffenderAlreadyReported | BadJudgementAge
  | BadValidatorIndex | BadSignature | BadGuarantorKey | BadAuditorKey

type_synonym checked = "(disputes_error, unit) outcome"
type_synonym votes_for_reports = "(blob, nat) jsmap"

section \<open>Sorting checks\<close>

definition isUniqueSortedBy :: "('a \<Rightarrow> blob) \<Rightarrow> 'a list \<Rightarrow> bool" where
  "isUniqueSortedBy key arr \<longleftrightarrow>
    \<not> (\<exists>i \<in> set [1..<length arr]. isGreaterOrEqual (blob_compare (key (arr ! (i - 1))) (key (arr ! i))))"

definition isUniqueSortedByIndex :: "judgement list \<Rightarrow> bool" where
  "isUniqueSortedByIndex judgements \<longleftrightarrow>
    \<not> (\<exists>i \<in> set [1..<length judgements]. ju_index (judgements ! (i - 1)) \<ge> ju_index (judgements ! i))"

section \<open>Preparing the signatures\<close>

text \<open>Indexing past the end of an array gives \<open>undefined\<close>.\<close>

definition js_nth :: "'a list \<Rightarrow> nat \<Rightarrow> 'a option" where
  "js_nth xs i = (if i < length xs then Some (xs ! i) else None)"

definition current_epoch :: "chain_spec \<Rightarrow> disputes_state \<Rightarrow> nat" where
  "current_epoch spec st = ds_timeslot st div epochLength spec"

definition validators_of :: "chain_spec \<Rightarrow> disputes_state \<Rightarrow> nat \<Rightarrow> validator_data list" where
  "validators_of spec st votesEpoch =
    (if votesEpoch = current_epoch spec st then ds_currentValidatorData st else ds_previousValidatorData st)"

definition prepare_judgement :: "chain_spec \<Rightarrow> disputes_state \<Rightarrow> verdict \<Rightarrow> judgement \<Rightarrow> (disputes_error, input_item) outcome" where
  "prepare_judgement spec st verdict j =
    (case js_nth (validators_of spec st (ve_votesEpoch verdict)) (ju_index j) of
       None \<Rightarrow> Inl (Failed BadValidatorIndex)
     | Some validator \<Rightarrow> Inr (prepareJudgementSignature j (ve_workReportHash verdict) (vd_ed25519 validator)))"

definition prepareSignaturesToVerification ::
    "chain_spec \<Rightarrow> disputes_state \<Rightarrow> disputes_extrinsic \<Rightarrow> (disputes_error, verification_input) outcome" where
  "prepareSignaturesToVerification spec st disputes =
    bindE (mapE (\<lambda>v. mapE (prepare_judgement spec st v) (ve_votes v)) (dx_verdicts disputes)) (\<lambda>judgements.
      Inr \<lparr>vi_judgements = concat judgements, vi_culprits = map prepareCulpritSignature (dx_culprits disputes),
        vi_faults = map prepareFaultSignature (dx_faults disputes)\<rparr>)"

section \<open>Votes\<close>

definition positive_votes :: "judgement list \<Rightarrow> nat" where
  "positive_votes j = fold (\<lambda>vote n. if ju_isWorkReportValid vote then n + 1 else n) j 0"

definition calculateVotesForWorkReports :: "disputes_extrinsic \<Rightarrow> votes_for_reports" where
  "calculateVotesForWorkReports disputes =
    fold (\<lambda>verdict v. jm_set v (ve_workReportHash verdict) (positive_votes (ve_votes verdict))) (dx_verdicts disputes) []"

text \<open>The first and the last culprit of a report are compared as objects, that is by their position.\<close>

definition verify_votes_of :: "chain_spec \<Rightarrow> disputes_extrinsic \<Rightarrow> blob \<times> nat \<Rightarrow> checked" where
  "verify_votes_of spec disputes = (\<lambda>(r, positive).
    if positive = validatorsSuperMajority spec then
      (case List.find (\<lambda>x. fa_workReportHash x = r) (dx_faults disputes) of
         None \<Rightarrow> Inl (Failed NotEnoughFaults) | Some _ \<Rightarrow> Inr ())
    else if positive = 0 then
      (let c1 = List.find (\<lambda>(_, x). cu_workReportHash x = r) (enumerate 0 (dx_culprits disputes));
           c2 = List.find (\<lambda>(_, x). cu_workReportHash x = r) (rev (enumerate 0 (dx_culprits disputes)))
       in if map_option fst c1 = map_option fst c2 then Inl (Failed NotEnoughCulprits) else Inr ())
    else if positive \<noteq> thirdOfValidators spec then Inl (Failed BadVoteSplit)
    else Inr ())"

definition verifyVotesForWorkReports :: "chain_spec \<Rightarrow> votes_for_reports \<Rightarrow> disputes_extrinsic \<Rightarrow> checked" where
  "verifyVotesForWorkReports spec v disputes = foldE (\<lambda>rs _. verify_votes_of spec disputes rs) v ()"

definition new_item_step :: "chain_spec \<Rightarrow> blob \<times> nat \<Rightarrow> blob list \<times> blob list \<times> blob list \<Rightarrow> blob list \<times> blob list \<times> blob list" where
  "new_item_step spec = (\<lambda>(r, positive) (good, bad, wonky).
    if positive \<ge> validatorsSuperMajority spec then (good @ [r], bad, wonky)
    else if positive = 0 then (good, bad @ [r], wonky)
    else if positive \<ge> thirdOfValidators spec then (good, bad, wonky @ [r])
    else (good, bad, wonky))"

definition getDisputesRecordsNewItems :: "chain_spec \<Rightarrow> votes_for_reports \<Rightarrow> disputes_records throws" where
  "getDisputesRecordsNewItems spec v =
    (case fold (new_item_step spec) v ([], [], []) of (good, bad, wonky) \<Rightarrow>
      bindE (ss_fromArrayUnique hashComparator good) (\<lambda>goodSet.
      bindE (ss_fromArrayUnique hashComparator bad) (\<lambda>badSet.
      bindE (ss_fromArrayUnique hashComparator wonky) (\<lambda>wonkySet.
        Inr \<lparr>dr_goodSet = goodSet, dr_badSet = badSet, dr_wonkySet = wonkySet,
             dr_punishSet = ss_fromArray hashComparator []\<rparr>))))"

section \<open>The checks\<close>

definition verify_culprit ::
    "disputes_state \<Rightarrow> disputes_records \<Rightarrow> verification_output \<Rightarrow> blob list \<Rightarrow> nat \<times> culprit \<Rightarrow> checked" where
  "verify_culprit st newItems verificationResult allValidatorKeys = (\<lambda>(i, c).
    if cu_key c \<in> set (dr_punishSet (ds_disputesRecords st)) then Inl (Failed OffenderAlreadyReported)
    else if cu_key c \<notin> set allValidatorKeys then Inl (Failed BadGuarantorKey)
    else if cu_workReportHash c \<notin> set (dr_badSet newItems) then Inl (Failed CulpritsVerdictNotBad)
    else (case js_nth (vo_culprits verificationResult) i of
       None \<Rightarrow> Inl (Failed BadSignature)
     | Some result \<Rightarrow> if vr_isValid result then Inr () else Inl (Failed BadSignature)))"

definition verifyCulprits ::
    "disputes_state \<Rightarrow> disputes_extrinsic \<Rightarrow> disputes_records \<Rightarrow> verification_output \<Rightarrow> blob list \<Rightarrow> checked" where
  "verifyCulprits st disputes newItems verificationResult allValidatorKeys =
    (if \<not> isUniqueSortedBy cu_key (dx_culprits disputes) then Inl (Failed CulpritsNotSortedUnique)
     else foldE (\<lambda>c _. verify_culprit st newItems verificationResult allValidatorKeys c) (enumerate 0 (dx_culprits disputes)) ())"

definition verify_fault ::
    "disputes_state \<Rightarrow> disputes_records \<Rightarrow> verification_output \<Rightarrow> blob list \<Rightarrow> nat \<times> fault \<Rightarrow> checked" where
  "verify_fault st newItems verificationResult allValidatorKeys = (\<lambda>(i, f).
    if fa_key f \<in> set (dr_punishSet (ds_disputesRecords st)) then Inl (Failed OffenderAlreadyReported)
    else if fa_key f \<notin> set allValidatorKeys then Inl (Failed BadAuditorKey)
    else if fa_wasConsideredValid f \<and>
      (fa_workReportHash f \<in> set (dr_goodSet newItems) \<or> fa_workReportHash f \<notin> set (dr_badSet newItems))
      then Inl (Failed FaultVerdictWrong)
    else (case js_nth (vo_faults verificationResult) i of
       None \<Rightarrow> Inl (Thrown TypeError)
     | Some result \<Rightarrow> if vr_isValid result then Inr () else Inl (Failed BadSignature)))"

definition verifyFaults ::
    "disputes_state \<Rightarrow> disputes_extrinsic \<Rightarrow> disputes_records \<Rightarrow> verification_output \<Rightarrow> blob list \<Rightarrow> checked" where
  "verifyFaults st disputes newItems verificationResult allValidatorKeys =
    (if \<not> isUniqueSortedBy fa_key (dx_faults disputes) then Inl (Failed FaultsNotSortedUnique)
     else foldE (\<lambda>f _. verify_fault st newItems verificationResult allValidatorKeys f) (enumerate 0 (dx_faults disputes)) ())"

definition verify_vote ::
    "verification_output \<Rightarrow> validator_data list \<Rightarrow> judgement \<Rightarrow> nat \<Rightarrow> (disputes_error, nat) outcome" where
  "verify_vote verificationResult k vote voteSignatureIndex =
    (case js_nth k (ju_index vote) of
       None \<Rightarrow> Inl (Failed BadValidatorIndex)
     | Some _ \<Rightarrow>
        (case js_nth (vo_judgements verificationResult) voteSignatureIndex of
           None \<Rightarrow> Inl (Thrown TypeError)
         | Some result \<Rightarrow>
             if vr_isValid result then Inr (voteSignatureIndex + 1) else Inl (Failed BadSignature)))"

definition verify_verdict ::
    "chain_spec \<Rightarrow> disputes_state \<Rightarrow> verification_output \<Rightarrow> verdict \<Rightarrow> nat \<Rightarrow> (disputes_error, nat) outcome" where
  "verify_verdict spec st verificationResult verdict voteSignatureIndex =
    (if ve_votesEpoch verdict \<noteq> current_epoch spec st \<and> ve_votesEpoch verdict + 1 \<noteq> current_epoch spec st
     then Inl (Failed BadJudgementAge)
     else foldE (verify_vote verificationResult (validators_of spec st (ve_votesEpoch verdict))) (ve_votes verdict)
       voteSignatureIndex)"

definition verifyVerdicts :: "chain_spec \<Rightarrow> disputes_state \<Rightarrow> disputes_extrinsic \<Rightarrow> verification_output \<Rightarrow> checked" where
  "verifyVerdicts spec st disputes verificationResult =
    (if \<not> isUniqueSortedBy ve_workReportHash (dx_verdicts disputes) then Inl (Failed VerdictsNotSortedUnique)
     else if list_ex (\<lambda>verdict. \<not> isUniqueSortedByIndex (ve_votes verdict)) (dx_verdicts disputes)
       then Inl (Failed JudgementsNotSortedUnique)
     else bindE (foldE (verify_verdict spec st verificationResult) (dx_verdicts disputes) 0) (\<lambda>_. Inr ()))"

definition verifyIfAlreadyJudged :: "disputes_state \<Rightarrow> disputes_extrinsic \<Rightarrow> checked" where
  "verifyIfAlreadyJudged st disputes =
    foldE (\<lambda>verdict _.
      (let rs = ds_disputesRecords st;
           isInGoodSet = ve_workReportHash verdict \<in> set (dr_goodSet rs);
           isInBadSet = ve_workReportHash verdict \<in> set (dr_badSet rs);
           isInWonkySet = ve_workReportHash verdict \<in> set (dr_wonkySet rs)
       in if isInGoodSet \<or> isInBadSet \<or> isInWonkySet then Inl (Failed AlreadyJudged) else Inr ())) (dx_verdicts disputes) ()"

section \<open>The transition\<close>

fun clear_loop ::
    "chain_spec \<Rightarrow> (blob \<Rightarrow> blob) \<Rightarrow> votes_for_reports \<Rightarrow> nat \<Rightarrow> availability_assignment option list \<Rightarrow>
      availability_assignment option list throws" where
  "clear_loop spec H v votesLeft [] = Inr []"
| "clear_loop spec H v votesLeft (a # assignments) =
    (if votesLeft = 0 then Inr (a # assignments)
     else (case a of
       None \<Rightarrow> bindE (clear_loop spec H v votesLeft assignments) (\<lambda>rest. Inr (None # rest))
     | Some assignment \<Rightarrow>
        bindE (encodeObject codec_WorkReport (aa_workReport assignment)) (\<lambda>encoded.
          (case jm_get v (H encoded) of
             None \<Rightarrow> bindE (clear_loop spec H v votesLeft assignments) (\<lambda>rest. Inr (a # rest))
           | Some positive \<Rightarrow> bindE (clear_loop spec H v (votesLeft - 1) assignments) (\<lambda>rest.
               Inr ((if positive < validatorsSuperMajority spec then None else a) # rest))))))"

definition getClearedCoreAssignment ::
    "chain_spec \<Rightarrow> (blob \<Rightarrow> blob) \<Rightarrow> disputes_state \<Rightarrow> votes_for_reports \<Rightarrow> availability_assignment option list throws" where
  "getClearedCoreAssignment spec H st v =
    bindE (clear_loop spec H v (length v) (ds_availabilityAssignment st)) (\<lambda>assignments. tryAsPerCore assignments spec)"

definition getOffenders :: "disputes_extrinsic \<Rightarrow> blob list" where
  "getOffenders disputes =
    fold js_add (map fa_key (dx_faults disputes)) (fold js_add (map cu_key (dx_culprits disputes)) [])"

definition getUpdatedDisputesRecords :: "disputes_state \<Rightarrow> disputes_records \<Rightarrow> blob list \<Rightarrow> disputes_records throws" where
  "getUpdatedDisputesRecords st newItems offenders =
    (let toAddToPunishSet = sa_fromArray hashComparator offenders; rs = ds_disputesRecords st in
     bindE (ss_fromTwoSortedCollections hashComparator (dr_goodSet rs) (dr_goodSet newItems)) (\<lambda>goodSet.
     bindE (ss_fromTwoSortedCollections hashComparator (dr_badSet rs) (dr_badSet newItems)) (\<lambda>badSet.
     bindE (ss_fromTwoSortedCollections hashComparator (dr_wonkySet rs) (dr_wonkySet newItems)) (\<lambda>wonkySet.
     bindE (ss_fromTwoSortedCollections hashComparator (dr_punishSet rs) toAddToPunishSet) (\<lambda>punishSet.
       Inr \<lparr>dr_goodSet = goodSet, dr_badSet = badSet, dr_wonkySet = wonkySet, dr_punishSet = punishSet\<rparr>)))))"

definition getValidatorKeys :: "disputes_state \<Rightarrow> blob list" where
  "getValidatorKeys st =
    fold (\<lambda>key keys. removeAll key keys) (dr_punishSet (ds_disputesRecords st))
      (js_unique (map vd_ed25519 (ds_currentValidatorData st) @ map vd_ed25519 (ds_previousValidatorData st)))"

fun is_thrown :: "('e, 'a) outcome \<Rightarrow> bool" where
  "is_thrown (Inl (Thrown e)) = True"
| "is_thrown _ = False"

fun is_failed :: "('e, 'a) outcome \<Rightarrow> bool" where
  "is_failed (Inl (Failed e)) = True"
| "is_failed _ = False"

text \<open>The checks have all run when the first error is looked for.\<close>

definition first_error :: "checked list \<Rightarrow> checked" where
  "first_error results =
    (case List.find is_thrown results of
       Some e \<Rightarrow> e
     | None \<Rightarrow> (case List.find is_failed results of Some e \<Rightarrow> e | None \<Rightarrow> Inr ()))"

record disputes_result =
  dt_offendersMark :: "blob list"
  dt_disputesRecords :: disputes_records
  dt_availabilityAssignment :: "availability_assignment option list"

definition disputes_transition ::
    "chain_spec \<Rightarrow> (blob \<Rightarrow> blob) \<Rightarrow> (blob \<Rightarrow> byte list) \<Rightarrow> disputes_state \<Rightarrow> disputes_extrinsic \<Rightarrow>
      (disputes_error, disputes_result) outcome" where
  "disputes_transition spec H W st disputes =
    bindE (prepareSignaturesToVerification spec st disputes) (\<lambda>signaturesToVerify.
    let v = calculateVotesForWorkReports disputes in
    bindE (lift_throws (getDisputesRecordsNewItems spec v)) (\<lambda>newItems.
    bindE (lift_throws (vefifyAllSignatures W signaturesToVerify)) (\<lambda>verificationResult.
    let allValidatorKeys = getValidatorKeys st in
    bindE (first_error
      [verifyVerdicts spec st disputes verificationResult,
       verifyVotesForWorkReports spec v disputes,
       verifyCulprits st disputes newItems verificationResult allValidatorKeys,
       verifyFaults st disputes newItems verificationResult allValidatorKeys,
       verifyIfAlreadyJudged st disputes]) (\<lambda>_.
    let offendersMark = getOffenders disputes in
    bindE (lift_throws (getUpdatedDisputesRecords st newItems offendersMark)) (\<lambda>disputesRecords.
    bindE (lift_throws (getClearedCoreAssignment spec H st v)) (\<lambda>availabilityAssignment.
      Inr \<lparr>dt_offendersMark = offendersMark, dt_disputesRecords = disputesRecords,
           dt_availabilityAssignment = availabilityAssignment\<rparr>))))))"

end
