(* ===== verification/DisputesSpec.thy ===== *)
theory DisputesSpec
  imports Disputes
begin

text \<open>
  What the disputes transition accepts and what it does to the state: the declarative conditions
  \<open>valid_disputes\<close> are equivalent to success, the judged reports are added to disjoint sets, offenders to the
  punish set, and the cores that hold a report judged bad or wonky are cleared.
\<close>

section \<open>Sorted hashes\<close>

lemma hash_present [simp]: "present blob_compare v xs \<longleftrightarrow> v \<in> set xs"
  by (auto simp: present_def blob_compare_Equal)

lemma hashComparator_eq [simp]: "hashComparator = blob_compare"
  by (intro ext) (simp add: hashComparator_def)

abbreviation strict_hashes :: "blob list \<Rightarrow> bool" where
  "strict_hashes \<equiv> strict_cmp blob_compare"

lemma strict_hashes_distinct: "strict_hashes xs \<Longrightarrow> distinct xs"
  unfolding strict_cmp_def
  by (induction xs) (auto simp: blob_compare_Equal [THEN iffD2])

lemma isUniqueSortedBy_iff: "isUniqueSortedBy key arr \<longleftrightarrow> strict_hashes (map key arr)"
proof -
  have "isUniqueSortedBy key arr \<longleftrightarrow> (\<forall>i \<in> {1..<length arr}. blob_compare (key (arr ! (i - 1))) (key (arr ! i)) = Less)"
    by (auto simp: isUniqueSortedBy_def)
  also have "\<dots> \<longleftrightarrow> (\<forall>i. Suc i < length arr \<longrightarrow> blob_compare (key (arr ! i)) (key (arr ! Suc i)) = Less)"
    (is "?l \<longleftrightarrow> ?r")
  proof
    assume l: ?l show ?r
    proof (intro allI impI)
      fix i assume "Suc i < length arr" then show "blob_compare (key (arr ! i)) (key (arr ! Suc i)) = Less"
        using bspec [OF l, of "Suc i"] by simp
    qed
  next
    assume r: ?r show ?l
    proof
      fix i assume "i \<in> {1..<length arr}" then show "blob_compare (key (arr ! (i - 1))) (key (arr ! i)) = Less"
        using spec [OF r, of "i - 1"] by simp
    qed
  qed
  finally show ?thesis by (simp add: blob_cmp.strict_adjacent)
qed

lemma isUniqueSortedByIndex_iff: "isUniqueSortedByIndex js \<longleftrightarrow> sorted_wrt (<) (map ju_index js)"
proof -
  have "isUniqueSortedByIndex js \<longleftrightarrow> (\<forall>i. Suc i < length js \<longrightarrow> ju_index (js ! i) < ju_index (js ! Suc i))" (is "?l \<longleftrightarrow> ?r")
  proof
    assume l: ?l show ?r
    proof (intro allI impI)
      fix i assume i: "Suc i < length js"
      then have "Suc i \<in> set [1..<length js]" by simp
      with l have "\<not> ju_index (js ! (Suc i - 1)) \<ge> ju_index (js ! Suc i)"
        unfolding isUniqueSortedByIndex_def by blast
      then show "ju_index (js ! i) < ju_index (js ! Suc i)" by simp
    qed
  next
    assume r: ?r show ?l
      unfolding isUniqueSortedByIndex_def
    proof
      assume "\<exists>i \<in> set [1..<length js]. ju_index (js ! (i - 1)) \<ge> ju_index (js ! i)"
      then obtain i where "1 \<le> i" "i < length js" "ju_index (js ! (i - 1)) \<ge> ju_index (js ! i)" by auto
      then show False using spec [OF r, of "i - 1"] by simp
    qed
  qed
  then show ?thesis by (simp add: sorted_wrt_iff_nth_Suc_transp)
qed

lemma fromArrayUnique_distinct:
  assumes "distinct xs"
  shows "\<exists>ys. ss_fromArrayUnique blob_compare xs = Inr ys \<and> strict_hashes ys \<and> set ys = set xs"
proof -
  let ?d = "array_sort blob_compare xs"
  have "sorted_cmp blob_compare ?d" by (rule blob_cmp.sorted_array_sort)
  then have "sorted_wrt (\<lambda>a b. blob_compare a b \<noteq> Greater) ?d" by (simp add: sorted_cmp_def)
  moreover have "distinct ?d" using assms by (metis mset_array_sort mset_eq_imp_distinct_iff)
  then have "sorted_wrt (\<lambda>a b. a \<noteq> b) ?d" by (simp add: distinct_conv_nth sorted_wrt_iff_nth_less)
  ultimately have "sorted_wrt (\<lambda>a b. blob_compare a b \<noteq> Greater \<and> a \<noteq> b) ?d"
    by (simp add: sorted_wrt_iff_nth_less)
  moreover have "blob_compare a b = Less" if "blob_compare a b \<noteq> Greater \<and> a \<noteq> b" for a b
    using that blob_compare_Equal by (cases "blob_compare a b") auto
  ultimately have "sorted_wrt (\<lambda>a b. blob_compare a b = Less) ?d" by (rule sorted_wrt_mono_rel [rotated])
  then have strict: "strict_hashes ?d" by (simp add: strict_cmp_def)
  then have "check_sorted_from blob_compare isEqual ?d 1 (length ?d - 1)"
  proof (cases "xs = []")
    case False
    then have "Suc (length xs - 1) = length xs" by simp
    then show ?thesis
      using check_sorted_from_iff [of 1 "length ?d - 1" ?d blob_compare isEqual] strict
      by (auto simp: blob_cmp.strict_adjacent)
  qed (simp add: array_sort_def)
  then show ?thesis using strict by (simp add: ss_fromArrayUnique_def Let_def)
qed

lemma merge_hashes:
  assumes "strict_hashes xs" "strict_hashes ys"
  shows "\<exists>zs. ss_fromTwoSortedCollections blob_compare xs ys = Inr zs \<and> strict_hashes zs \<and> set zs = set xs \<union> set ys"
  using total_comparator.ss_merge_spec [OF blob_cmp.total_comparator_axioms assms] by (auto simp: set_eq_iff)

section \<open>Checks\<close>

lemma foldE_check: "foldE (\<lambda>x _. f x) xs () = Inr () \<longleftrightarrow> (\<forall>x \<in> set xs. f x = Inr ())"
  by (induction xs) (auto simp: bindE_Inr_iff)

lemma first_error_ok: "first_error rs = Inr () \<longleftrightarrow> (\<forall>r \<in> set rs. r = Inr ())"
proof -
  have ok: "r = Inr () \<longleftrightarrow> \<not> is_thrown r \<and> \<not> is_failed r" for r :: checked
    by (cases r rule: is_thrown.cases) auto
  have "first_error rs = Inr () \<longleftrightarrow> List.find is_thrown rs = None \<and> List.find is_failed rs = None"
    by (auto simp: first_error_def find_None_iff find_Some_iff ok split: option.splits)
  then show ?thesis by (auto simp: find_None_iff ok)
qed

section \<open>Votes\<close>

lemma positive_votes_count: "positive_votes js = length (filter ju_isWorkReportValid js)"
proof -
  have "fold (\<lambda>vote n. if ju_isWorkReportValid vote then n + 1 else n) js n = n + length (filter ju_isWorkReportValid js)" for n
    by (induction js arbitrary: n) simp_all
  then show ?thesis by (simp add: positive_votes_def)
qed

definition vote_entries :: "verdict list \<Rightarrow> votes_for_reports" where
  "vote_entries vs = map (\<lambda>ve. (ve_workReportHash ve, positive_votes (ve_votes ve))) vs"

lemma calculateVotes_entries:
  assumes "distinct (map ve_workReportHash (dx_verdicts dx))"
  shows "calculateVotesForWorkReports dx = vote_entries (dx_verdicts dx)"
proof -
  have "fold (\<lambda>verdict v. jm_set v (ve_workReportHash verdict) (positive_votes (ve_votes verdict))) vs m = m @ vote_entries vs"
    if "distinct (map fst m @ map ve_workReportHash vs)" for vs m
    using that
  proof (induction vs arbitrary: m)
    case (Cons ve vs)
    have "jm_set m (ve_workReportHash ve) n = m @ [(ve_workReportHash ve, n)]" for n
      using Cons.prems by (induction m) auto
    with Cons show ?case by (auto simp: vote_entries_def)
  qed (simp add: vote_entries_def)
  from this [of "[]" "dx_verdicts dx"] show ?thesis using assms by (simp add: calculateVotesForWorkReports_def)
qed

lemma distinct_votes: "distinct (map fst (calculateVotesForWorkReports dx))"
proof -
  have "distinct (map fst (fold (\<lambda>verdict v. jm_set v (ve_workReportHash verdict) (positive_votes (ve_votes verdict))) vs m))"
    if "distinct (map fst m)" for vs m
    using that by (induction vs arbitrary: m) (simp_all add: distinct_update)
  from this [of "[]"] show ?thesis by (simp add: calculateVotesForWorkReports_def)
qed

text \<open>Where a report goes by its votes.\<close>

definition is_good :: "chain_spec \<Rightarrow> nat \<Rightarrow> bool" where
  "is_good spec n \<longleftrightarrow> validatorsSuperMajority spec \<le> n"

definition is_bad :: "chain_spec \<Rightarrow> nat \<Rightarrow> bool" where
  "is_bad spec n \<longleftrightarrow> n < validatorsSuperMajority spec \<and> n = 0"

definition is_wonky :: "chain_spec \<Rightarrow> nat \<Rightarrow> bool" where
  "is_wonky spec n \<longleftrightarrow> n < validatorsSuperMajority spec \<and> 0 < n \<and> thirdOfValidators spec \<le> n"

definition with_votes :: "(nat \<Rightarrow> bool) \<Rightarrow> votes_for_reports \<Rightarrow> blob list" where
  "with_votes P v = map fst (filter (P \<circ> snd) v)"

lemma set_with_votes: "set (with_votes P v) = {h. \<exists>n. (h, n) \<in> set v \<and> P n}"
  by (force simp: with_votes_def)

lemma distinct_with_votes: "distinct (map fst v) \<Longrightarrow> distinct (with_votes P v)"
  unfolding with_votes_def by (induction v) auto

definition new_items :: "chain_spec \<Rightarrow> votes_for_reports \<Rightarrow> disputes_records \<Rightarrow> bool" where
  "new_items spec v rs \<longleftrightarrow> strict_hashes (dr_goodSet rs) \<and> strict_hashes (dr_badSet rs) \<and> strict_hashes (dr_wonkySet rs) \<and>
    set (dr_goodSet rs) = set (with_votes (is_good spec) v) \<and> set (dr_badSet rs) = set (with_votes (is_bad spec) v) \<and>
    set (dr_wonkySet rs) = set (with_votes (is_wonky spec) v)"

lemma getDisputesRecordsNewItems_spec:
  assumes "distinct (map fst v)"
  shows "\<exists>rs. getDisputesRecordsNewItems spec v = Inr rs \<and> new_items spec v rs"
proof -
  have "fold (new_item_step spec) v (g, b, w) =
      (g @ with_votes (is_good spec) v, b @ with_votes (is_bad spec) v, w @ with_votes (is_wonky spec) v)" for g b w
    by (induction v arbitrary: g b w)
      (auto simp: new_item_step_def with_votes_def is_good_def is_bad_def is_wonky_def split: prod.splits)
  then have fold: "fold (new_item_step spec) v ([], [], []) =
      (with_votes (is_good spec) v, with_votes (is_bad spec) v, with_votes (is_wonky spec) v)" by simp
  obtain good where "ss_fromArrayUnique blob_compare (with_votes (is_good spec) v) = Inr good" "strict_hashes good"
    "set good = set (with_votes (is_good spec) v)"
    using fromArrayUnique_distinct [OF distinct_with_votes [OF assms]] by blast
  moreover obtain bad where "ss_fromArrayUnique blob_compare (with_votes (is_bad spec) v) = Inr bad" "strict_hashes bad"
    "set bad = set (with_votes (is_bad spec) v)"
    using fromArrayUnique_distinct [OF distinct_with_votes [OF assms]] by blast
  moreover obtain wonky where "ss_fromArrayUnique blob_compare (with_votes (is_wonky spec) v) = Inr wonky" "strict_hashes wonky"
    "set wonky = set (with_votes (is_wonky spec) v)"
    using fromArrayUnique_distinct [OF distinct_with_votes [OF assms]] by blast
  ultimately show ?thesis by (simp add: getDisputesRecordsNewItems_def fold new_items_def)
qed

section \<open>Clearing the cores\<close>

text \<open>The hash of a report, and what is left on a core.\<close>

definition encodable :: "work_report \<Rightarrow> bool" where
  "encodable report \<longleftrightarrow> fm_valid fm_WorkReport report \<and> length (fm_bytes fm_WorkReport report) \<le> MAX_LENGTH"

definition report_hash :: "(blob \<Rightarrow> blob) \<Rightarrow> availability_assignment \<Rightarrow> blob" where
  "report_hash H a = H (fm_bytes fm_WorkReport (aa_workReport a))"

definition cleared :: "chain_spec \<Rightarrow> (blob \<Rightarrow> blob) \<Rightarrow> votes_for_reports \<Rightarrow> availability_assignment option \<Rightarrow> availability_assignment option" where
  "cleared spec H v = (\<lambda>core. Option.bind core (\<lambda>a. case jm_get v (report_hash H a) of
     Some n \<Rightarrow> if n < validatorsSuperMajority spec then None else Some a | None \<Rightarrow> Some a))"

definition pending_hashes :: "(blob \<Rightarrow> blob) \<Rightarrow> availability_assignment option list \<Rightarrow> blob list" where
  "pending_hashes H cores = map (report_hash H) (List.map_filter id cores)"

lemma pending_simps [simp]:
  "pending_hashes H [] = []" "pending_hashes H (None # cores) = pending_hashes H cores"
  "pending_hashes H (Some a # cores) = report_hash H a # pending_hashes H cores"
  by (simp_all add: pending_hashes_def map_filter_simps)

lemma clear_loop_eq:
  assumes "\<forall>a. Some a \<in> set cores \<longrightarrow> encodable (aa_workReport a)" "distinct (pending_hashes H cores)"
    "card (dom (jm_get v) \<inter> set (pending_hashes H cores)) \<le> n"
  shows "clear_loop spec H v n cores = Inr (map (cleared spec H v) cores)"
  using assms
proof (induction cores arbitrary: n)
  case (Cons core cores)
  have untouched: "map (cleared spec H v) cs = cs" if "dom (jm_get v) \<inter> set (pending_hashes H cs) = {}" for cs
    using that
  proof (induction cs)
    case (Cons c cs)
    then show ?case by (cases c) (auto simp: cleared_def domIff split: option.splits)
  qed simp
  show ?case
  proof (cases "n = 0")
    case True
    with Cons.prems(3) have "dom (jm_get v) \<inter> set (pending_hashes H (core # cores)) = {}"
      by (simp add: card_eq_0_iff)
    then have eq: "map (cleared spec H v) (core # cores) = core # cores" using untouched [of "core # cores"] by blast
    show ?thesis unfolding eq by (simp add: True)
  next
    case False
    show ?thesis
    proof (cases core)
      case None
      then show ?thesis using Cons False by (simp add: cleared_def)
    next
      case (Some a)
      have enc: "encodeObject codec_WorkReport (aa_workReport a) = Inr (fm_bytes fm_WorkReport (aa_workReport a))"
        using Cons.prems(1) Some implements_encodeObject [OF WorkReport_rule] by (simp add: encodable_def)
      have prems: "\<forall>a. Some a \<in> set cores \<longrightarrow> encodable (aa_workReport a)" "distinct (pending_hashes H cores)"
        using Cons.prems(1,2) Some by auto
      let ?h = "report_hash H a" and ?D = "dom (jm_get v)" and ?P = "set (pending_hashes H cores)"
      have fresh: "?h \<notin> ?P" using Cons.prems(2) Some by simp
      have card: "card (?D \<inter> insert ?h ?P) \<le> n" using Cons.prems(3) Some by simp
      show ?thesis
      proof (cases "jm_get v ?h")
        case None
        then have "card (?D \<inter> ?P) \<le> n" using card by (simp add: domIff Int_insert_right)
        then show ?thesis using None Some False enc Cons.IH [OF prems]
          by (simp add: cleared_def report_hash_def)
      next
        case (Some m)
        then have "?D \<inter> insert ?h ?P = insert ?h (?D \<inter> ?P)" by auto
        then have "card (?D \<inter> ?P) \<le> n - 1" using card fresh by simp
        then show ?thesis using Some \<open>core = Some a\<close> False enc Cons.IH [OF prems, of "n - 1"]
          by (simp add: cleared_def report_hash_def)
      qed
    qed
  qed
qed simp

lemma getCleared_eq:
  assumes "\<forall>a. Some a \<in> set (ds_availabilityAssignment st) \<longrightarrow> encodable (aa_workReport a)"
    "distinct (pending_hashes H (ds_availabilityAssignment st))" "distinct (map fst v)"
    "length (ds_availabilityAssignment st) = coresCount spec"
  shows "getClearedCoreAssignment spec H st v = Inr (map (cleared spec H v) (ds_availabilityAssignment st))"
proof -
  have "card (dom (jm_get v) \<inter> set (pending_hashes H (ds_availabilityAssignment st))) \<le> card (dom (jm_get v))"
    by (rule card_mono) (auto simp: finite_dom_map_of)
  also have "\<dots> \<le> length v" using assms(3)
    by (simp add: dom_map_of_conv_image_fst) (metis distinct_card length_map list.set_map order_refl)
  finally show ?thesis
    using clear_loop_eq [OF assms(1,2)] assms(4) by (simp add: getClearedCoreAssignment_def tryAsPerCore_def)
qed

section \<open>What is accepted\<close>

text \<open>The signed message of a judgement; its validator is that of the epoch the verdict names.\<close>

definition judgement_item :: "chain_spec \<Rightarrow> disputes_state \<Rightarrow> verdict \<Rightarrow> judgement \<Rightarrow> input_item" where
  "judgement_item spec st ve j =
    prepareJudgementSignature j (ve_workReportHash ve) (vd_ed25519 (validators_of spec st (ve_votesEpoch ve) ! ju_index j))"

definition valid_verdict :: "chain_spec \<Rightarrow> disputes_state \<Rightarrow> (input_item \<Rightarrow> bool) \<Rightarrow> verdict \<Rightarrow> bool" where
  "valid_verdict spec st valid ve \<longleftrightarrow> sorted_wrt (<) (map ju_index (ve_votes ve)) \<and>
    (ve_votesEpoch ve = current_epoch spec st \<or> ve_votesEpoch ve + 1 = current_epoch spec st) \<and>
    (\<forall>j \<in> set (ve_votes ve). ju_index j < length (validators_of spec st (ve_votesEpoch ve)) \<and> valid (judgement_item spec st ve j)) \<and>
    (let rs = ds_disputesRecords st in ve_workReportHash ve \<notin> set (dr_goodSet rs) \<union> set (dr_badSet rs) \<union> set (dr_wonkySet rs))"

text \<open>The vote split with the evidence it asks for.\<close>

definition valid_split :: "chain_spec \<Rightarrow> disputes_extrinsic \<Rightarrow> blob \<times> nat \<Rightarrow> bool" where
  "valid_split spec dx = (\<lambda>(h, n).
    (n = validatorsSuperMajority spec \<and> (\<exists>f \<in> set (dx_faults dx). fa_workReportHash f = h)) \<or>
    (n \<noteq> validatorsSuperMajority spec \<and> n = 0 \<and> 2 \<le> length (filter (\<lambda>c. cu_workReportHash c = h) (dx_culprits dx))) \<or>
    (n \<noteq> validatorsSuperMajority spec \<and> n \<noteq> 0 \<and> n = thirdOfValidators spec))"

definition valid_culprit :: "disputes_state \<Rightarrow> (input_item \<Rightarrow> bool) \<Rightarrow> blob list \<Rightarrow> culprit \<Rightarrow> bool" where
  "valid_culprit st valid bad c \<longleftrightarrow> cu_key c \<in> set (getValidatorKeys st) \<and> cu_workReportHash c \<in> set bad \<and>
    valid (prepareCulpritSignature c)"

definition valid_fault :: "disputes_state \<Rightarrow> (input_item \<Rightarrow> bool) \<Rightarrow> blob list \<Rightarrow> fault \<Rightarrow> bool" where
  "valid_fault st valid bad f \<longleftrightarrow> fa_key f \<in> set (getValidatorKeys st) \<and>
    (fa_wasConsideredValid f \<longrightarrow> fa_workReportHash f \<in> set bad) \<and> valid (prepareFaultSignature f)"

definition valid_disputes :: "chain_spec \<Rightarrow> disputes_state \<Rightarrow> (input_item \<Rightarrow> bool) \<Rightarrow> disputes_extrinsic \<Rightarrow> bool" where
  "valid_disputes spec st valid dx \<longleftrightarrow>
    (let v = vote_entries (dx_verdicts dx); bad = with_votes (is_bad spec) v in
     strict_hashes (map ve_workReportHash (dx_verdicts dx)) \<and> list_all (valid_verdict spec st valid) (dx_verdicts dx) \<and>
     list_all (valid_split spec dx) v \<and>
     strict_hashes (map cu_key (dx_culprits dx)) \<and> list_all (valid_culprit st valid bad) (dx_culprits dx) \<and>
     strict_hashes (map fa_key (dx_faults dx)) \<and> list_all (valid_fault st valid bad) (dx_faults dx))"

text \<open>Keys and signatures have their sizes by type.\<close>

definition sized_disputes :: "chain_spec \<Rightarrow> disputes_state \<Rightarrow> disputes_extrinsic \<Rightarrow> bool" where
  "sized_disputes spec st dx \<longleftrightarrow> fm_valid (fm_DisputesExtrinsic spec) dx \<and>
    (\<forall>d \<in> set (ds_currentValidatorData st) \<union> set (ds_previousValidatorData st). length (vd_ed25519 d) = ED25519_KEY_BYTES)"

lemma getValidatorKeys_set:
  "set (getValidatorKeys st) = (vd_ed25519 ` (set (ds_currentValidatorData st) \<union> set (ds_previousValidatorData st))) -
    set (dr_punishSet (ds_disputesRecords st))"
proof -
  have "set (fold (\<lambda>key keys. removeAll key keys) ps ks) = set ks - set ps" for ps ks :: "blob list"
    by (induction ps arbitrary: ks) auto
  then show ?thesis by (simp add: getValidatorKeys_def image_Un)
qed

section \<open>Each check\<close>

lemma find_positions:
  "map_option fst (List.find (\<lambda>(_, x). P x) (enumerate n xs)) = map_option fst (List.find (\<lambda>(_, x). P x) (rev (enumerate n xs))) \<longleftrightarrow>
    length (filter P xs) < 2"
proof -
  let ?e = "filter (\<lambda>(_, x). P x) (enumerate n xs)"
  have hd: "List.find Q ys = (case filter Q ys of [] \<Rightarrow> None | y # _ \<Rightarrow> Some y)" for Q and ys :: "(nat \<times> 'a) list"
    by (induction ys) auto
  have last: "List.find Q (rev ys) = (case filter Q ys of [] \<Rightarrow> None | zs \<Rightarrow> Some (last zs))" for Q and ys :: "(nat \<times> 'a) list"
  proof (cases "filter Q ys" rule: rev_cases)
    case (snoc zs z)
    then have "(case filter Q ys of [] \<Rightarrow> None | zs \<Rightarrow> Some (last zs)) = Some z" by (cases zs) auto
    then show ?thesis using snoc by (simp add: hd rev_filter [symmetric])
  qed (simp add: hd rev_filter [symmetric])
  have len: "length ?e = length (filter P xs)"
    by (induction xs arbitrary: n) auto
  have "distinct (map fst ?e)" by (induction xs arbitrary: n) (auto simp: in_set_enumerate_eq)
  then have "map_option fst (case ?e of [] \<Rightarrow> None | y # _ \<Rightarrow> Some y) =
      map_option fst (case ?e of [] \<Rightarrow> None | zs \<Rightarrow> Some (last zs)) \<longleftrightarrow> length ?e < 2"
  proof (cases ?e)
    case (Cons y ys)
    assume "distinct (map fst ?e)"
    with Cons show ?thesis by (cases ys rule: rev_cases) auto
  qed simp
  then show ?thesis by (simp only: last) (simp only: hd len)
qed

lemma verify_votes_ok: "verify_votes_of spec dx p = Inr () \<longleftrightarrow> valid_split spec dx p"
proof (cases p)
  case (Pair h n)
  show ?thesis
    using find_positions [of "\<lambda>c. cu_workReportHash c = h" 0 "dx_culprits dx"]
    by (auto simp: Pair verify_votes_of_def valid_split_def find_None_iff find_Some_iff Let_def not_less split: option.splits)
qed

lemma enumerate_all: "(\<forall>p \<in> set (enumerate 0 xs). P p) \<longleftrightarrow> (\<forall>i < length xs. P (i, xs ! i))"
  by (auto simp: in_set_enumerate_eq set_eq_iff)

lemma js_nth_map [simp]: "js_nth (map f xs) i = (if i < length xs then Some (f (xs ! i)) else None)"
  by (simp add: js_nth_def)

lemma result_item_valid [simp]: "vr_isValid (result_item valid i) \<longleftrightarrow> valid i"
  by (simp add: result_item_def)

lemma verifyCulprits_ok:
  assumes "vo_culprits vr = map (result_item valid) (map prepareCulpritSignature (dx_culprits dx))"
  shows "verifyCulprits st dx items vr (getValidatorKeys st) = Inr () \<longleftrightarrow>
    strict_hashes (map cu_key (dx_culprits dx)) \<and> list_all (valid_culprit st valid (dr_badSet items)) (dx_culprits dx)"
proof -
  have "verify_culprit st items vr (getValidatorKeys st) (i, dx_culprits dx ! i) = Inr () \<longleftrightarrow>
      valid_culprit st valid (dr_badSet items) (dx_culprits dx ! i)" if "i < length (dx_culprits dx)" for i
    using that by (auto simp: verify_culprit_def assms valid_culprit_def getValidatorKeys_set)
  then show ?thesis
    by (auto simp: verifyCulprits_def isUniqueSortedBy_iff foldE_check enumerate_all list_all_length)
qed

lemma verifyFaults_ok:
  assumes "vo_faults vr = map (result_item valid) (map prepareFaultSignature (dx_faults dx))"
    "set (dr_goodSet items) \<inter> set (dr_badSet items) = {}"
  shows "verifyFaults st dx items vr (getValidatorKeys st) = Inr () \<longleftrightarrow>
    strict_hashes (map fa_key (dx_faults dx)) \<and> list_all (valid_fault st valid (dr_badSet items)) (dx_faults dx)"
proof -
  have "verify_fault st items vr (getValidatorKeys st) (i, dx_faults dx ! i) = Inr () \<longleftrightarrow>
      valid_fault st valid (dr_badSet items) (dx_faults dx ! i)" if "i < length (dx_faults dx)" for i
    using that assms(2) by (auto simp: verify_fault_def assms(1) valid_fault_def getValidatorKeys_set)
  then show ?thesis
    by (auto simp: verifyFaults_def isUniqueSortedBy_iff foldE_check enumerate_all list_all_length)
qed

lemma verify_vote_loop:
  "foldE (verify_vote vr k) votes n = Inr m \<longleftrightarrow> m = n + length votes \<and>
    (\<forall>i < length votes. ju_index (votes ! i) < length k \<and>
      (\<exists>r. js_nth (vo_judgements vr) (n + i) = Some r \<and> vr_isValid r))"
proof (induction votes arbitrary: n)
  case (Cons j votes)
  have step: "verify_vote vr k j n = Inr n' \<longleftrightarrow> n' = Suc n \<and> ju_index j < length k \<and>
      (\<exists>r. js_nth (vo_judgements vr) n = Some r \<and> vr_isValid r)" for n'
    by (auto simp: verify_vote_def js_nth_def)
  show ?case by (auto simp: bindE_Inr_iff step Cons.IH nth_Cons All_less_Suc2 split: nat.splits)
qed auto

definition judgement_items :: "chain_spec \<Rightarrow> disputes_state \<Rightarrow> verdict \<Rightarrow> input_item list" where
  "judgement_items spec st ve = map (judgement_item spec st ve) (ve_votes ve)"

definition indices_ok :: "chain_spec \<Rightarrow> disputes_state \<Rightarrow> verdict \<Rightarrow> bool" where
  "indices_ok spec st ve \<longleftrightarrow> (\<forall>j \<in> set (ve_votes ve). ju_index j < length (validators_of spec st (ve_votesEpoch ve)))"

lemma verify_verdict_loop:
  assumes "vo_judgements vr = map (result_item valid) (pre @ concat (map (judgement_items spec st) vs))"
    "\<forall>ve \<in> set vs. indices_ok spec st ve"
  shows "(\<exists>m. foldE (verify_verdict spec st vr) vs (length pre) = Inr m) \<longleftrightarrow>
    (\<forall>ve \<in> set vs. (ve_votesEpoch ve = current_epoch spec st \<or> ve_votesEpoch ve + 1 = current_epoch spec st) \<and>
      (\<forall>j \<in> set (ve_votes ve). valid (judgement_item spec st ve j)))"
  using assms
proof (induction vs arbitrary: pre)
  case (Cons ve vs)
  let ?k = "validators_of spec st (ve_votesEpoch ve)"
  have all: "vo_judgements vr = map (result_item valid) ((pre @ judgement_items spec st ve) @ concat (map (judgement_items spec st) vs))"
    using Cons.prems(1) by simp
  have nth: "js_nth (vo_judgements vr) (length pre + i) = Some (result_item valid (judgement_item spec st ve (ve_votes ve ! i)))"
    if "i < length (ve_votes ve)" for i
    using that by (simp add: Cons.prems(1) js_nth_def nth_append judgement_items_def)
  have votes: "foldE (verify_vote vr ?k) (ve_votes ve) (length pre) = Inr m \<longleftrightarrow>
      m = length (pre @ judgement_items spec st ve) \<and> (\<forall>j \<in> set (ve_votes ve). valid (judgement_item spec st ve j))" for m
    using Cons.prems(2) by (auto simp: verify_vote_loop nth indices_ok_def judgement_items_def all_set_conv_all_nth)
  have step: "verify_verdict spec st vr ve (length pre) = Inr m \<longleftrightarrow> m = length (pre @ judgement_items spec st ve) \<and>
      (ve_votesEpoch ve = current_epoch spec st \<or> ve_votesEpoch ve + 1 = current_epoch spec st) \<and>
      (\<forall>j \<in> set (ve_votes ve). valid (judgement_item spec st ve j))" for m
    unfolding verify_verdict_def using votes [of m] by auto
  have "(\<exists>m. foldE (verify_verdict spec st vr) (ve # vs) (length pre) = Inr m) \<longleftrightarrow>
      (ve_votesEpoch ve = current_epoch spec st \<or> ve_votesEpoch ve + 1 = current_epoch spec st) \<and>
      (\<forall>j \<in> set (ve_votes ve). valid (judgement_item spec st ve j)) \<and>
      (\<exists>m. foldE (verify_verdict spec st vr) vs (length (pre @ judgement_items spec st ve)) = Inr m)"
    by (auto simp: bindE_Inr_iff step)
  then show ?case using Cons.IH [OF all] Cons.prems(2) by auto
qed simp

lemma verifyVerdicts_ok:
  assumes "vo_judgements vr = map (result_item valid) (concat (map (judgement_items spec st) (dx_verdicts dx)))"
    "\<forall>ve \<in> set (dx_verdicts dx). indices_ok spec st ve"
  shows "verifyVerdicts spec st dx vr = Inr () \<longleftrightarrow> strict_hashes (map ve_workReportHash (dx_verdicts dx)) \<and>
    (\<forall>ve \<in> set (dx_verdicts dx). sorted_wrt (<) (map ju_index (ve_votes ve)) \<and>
      (ve_votesEpoch ve = current_epoch spec st \<or> ve_votesEpoch ve + 1 = current_epoch spec st) \<and>
      (\<forall>j \<in> set (ve_votes ve). valid (judgement_item spec st ve j)))"
  using verify_verdict_loop [of vr valid "[]" spec st "dx_verdicts dx"] assms
  by (auto simp: verifyVerdicts_def isUniqueSortedBy_iff isUniqueSortedByIndex_iff list_ex_iff bindE_Inr_iff)

lemma alreadyJudged_ok:
  "verifyIfAlreadyJudged st dx = Inr () \<longleftrightarrow> (\<forall>ve \<in> set (dx_verdicts dx). let rs = ds_disputesRecords st in
    ve_workReportHash ve \<notin> set (dr_goodSet rs) \<union> set (dr_badSet rs) \<union> set (dr_wonkySet rs))"
  by (auto simp: verifyIfAlreadyJudged_def foldE_check Let_def)

lemma prepareSignatures_ok:
  "prepareSignaturesToVerification spec st dx = Inr sigs \<longleftrightarrow> (\<forall>ve \<in> set (dx_verdicts dx). indices_ok spec st ve) \<and>
    sigs = \<lparr>vi_judgements = concat (map (judgement_items spec st) (dx_verdicts dx)),
      vi_culprits = map prepareCulpritSignature (dx_culprits dx), vi_faults = map prepareFaultSignature (dx_faults dx)\<rparr>"
proof -
  have votes: "mapE (prepare_judgement spec st ve) js = Inr is \<longleftrightarrow>
      (\<forall>j \<in> set js. ju_index j < length (validators_of spec st (ve_votesEpoch ve))) \<and> is = map (judgement_item spec st ve) js" for ve js "is"
    by (induction js arbitrary: "is")
      (auto simp: bindE_Inr_iff prepare_judgement_def js_nth_def judgement_item_def split: if_splits)
  have "mapE (\<lambda>v. mapE (prepare_judgement spec st v) (ve_votes v)) vs = Inr iss \<longleftrightarrow>
      (\<forall>ve \<in> set vs. indices_ok spec st ve) \<and> iss = map (judgement_items spec st) vs" for vs iss
    by (induction vs arbitrary: iss) (auto simp: bindE_Inr_iff votes indices_ok_def judgement_items_def)
  then show ?thesis by (auto simp: prepareSignaturesToVerification_def bindE_Inr_iff)
qed

section \<open>The transition\<close>

definition wf_records :: "disputes_records \<Rightarrow> bool" where
  "wf_records rs \<longleftrightarrow> strict_hashes (dr_goodSet rs) \<and> strict_hashes (dr_badSet rs) \<and> strict_hashes (dr_wonkySet rs) \<and>
    strict_hashes (dr_punishSet rs) \<and> set (dr_goodSet rs) \<inter> set (dr_badSet rs) = {} \<and>
    set (dr_goodSet rs) \<inter> set (dr_wonkySet rs) = {} \<and> set (dr_badSet rs) \<inter> set (dr_wonkySet rs) = {}"

definition wf_disputes :: "chain_spec \<Rightarrow> (blob \<Rightarrow> blob) \<Rightarrow> disputes_state \<Rightarrow> bool" where
  "wf_disputes spec H st \<longleftrightarrow> wf_records (ds_disputesRecords st) \<and>
    (\<forall>a. Some a \<in> set (ds_availabilityAssignment st) \<longrightarrow> encodable (aa_workReport a)) \<and>
    distinct (pending_hashes H (ds_availabilityAssignment st)) \<and> length (ds_availabilityAssignment st) = coresCount spec"

lemma offenders_set [simp]: "set (getOffenders dx) = cu_key ` set (dx_culprits dx) \<union> fa_key ` set (dx_faults dx)"
  by (auto simp: getOffenders_def)

lemma offenders_sorted: "strict_hashes (sa_fromArray blob_compare (getOffenders dx))"
proof -
  have "distinct (getOffenders dx)" by (simp add: getOffenders_def)
  then obtain ys where "ss_fromArrayUnique blob_compare (getOffenders dx) = Inr ys" "strict_hashes ys"
    using fromArrayUnique_distinct by blast
  then show ?thesis by (simp add: sa_fromArray_def ss_fromArrayUnique_def Let_def split: if_splits)
qed

text \<open>The records after judging the reports of \<open>v\<close>.\<close>

definition updated_records :: "chain_spec \<Rightarrow> votes_for_reports \<Rightarrow> blob set \<Rightarrow> disputes_records \<Rightarrow> disputes_records \<Rightarrow> bool" where
  "updated_records spec v offenders old new \<longleftrightarrow>
    strict_hashes (dr_goodSet new) \<and> strict_hashes (dr_badSet new) \<and> strict_hashes (dr_wonkySet new) \<and> strict_hashes (dr_punishSet new) \<and>
    set (dr_goodSet new) = set (dr_goodSet old) \<union> set (with_votes (is_good spec) v) \<and>
    set (dr_badSet new) = set (dr_badSet old) \<union> set (with_votes (is_bad spec) v) \<and>
    set (dr_wonkySet new) = set (dr_wonkySet old) \<union> set (with_votes (is_wonky spec) v) \<and>
    set (dr_punishSet new) = set (dr_punishSet old) \<union> offenders"

lemma getUpdatedDisputesRecords_spec:
  assumes "wf_records (ds_disputesRecords st)" "new_items spec v items"
  shows "\<exists>rs. getUpdatedDisputesRecords st items (getOffenders dx) = Inr rs \<and>
    updated_records spec v (set (getOffenders dx)) (ds_disputesRecords st) rs"
proof -
  let ?rs = "ds_disputesRecords st"
  have old: "strict_hashes (dr_goodSet ?rs)" "strict_hashes (dr_badSet ?rs)" "strict_hashes (dr_wonkySet ?rs)" "strict_hashes (dr_punishSet ?rs)"
    using assms(1) by (simp_all add: wf_records_def)
  have new: "strict_hashes (dr_goodSet items)" "strict_hashes (dr_badSet items)" "strict_hashes (dr_wonkySet items)"
    using assms(2) by (simp_all add: new_items_def)
  have off: "set (sa_fromArray blob_compare (getOffenders dx)) = set (getOffenders dx)" by (simp add: sa_fromArray_def)
  obtain g b w p where
    "ss_fromTwoSortedCollections blob_compare (dr_goodSet ?rs) (dr_goodSet items) = Inr g" "strict_hashes g" "set g = set (dr_goodSet ?rs) \<union> set (dr_goodSet items)"
    "ss_fromTwoSortedCollections blob_compare (dr_badSet ?rs) (dr_badSet items) = Inr b" "strict_hashes b" "set b = set (dr_badSet ?rs) \<union> set (dr_badSet items)"
    "ss_fromTwoSortedCollections blob_compare (dr_wonkySet ?rs) (dr_wonkySet items) = Inr w" "strict_hashes w" "set w = set (dr_wonkySet ?rs) \<union> set (dr_wonkySet items)"
    "ss_fromTwoSortedCollections blob_compare (dr_punishSet ?rs) (sa_fromArray blob_compare (getOffenders dx)) = Inr p" "strict_hashes p"
    "set p = set (dr_punishSet ?rs) \<union> set (getOffenders dx)"
    using merge_hashes [OF old(1) new(1)] merge_hashes [OF old(2) new(2)] merge_hashes [OF old(3) new(3)]
      merge_hashes [OF old(4) offenders_sorted [of dx]] unfolding off by blast
  then show ?thesis using assms(2)
    by (simp add: getUpdatedDisputesRecords_def updated_records_def new_items_def)
qed

lemma messages_short:
  "length JAM_VALID = 9" "length JAM_INVALID = 11" "length JAM_GUARANTEE = 13"
  by (simp_all add: JAM_VALID_def JAM_INVALID_def JAM_GUARANTEE_def)

lemma items_sized:
  assumes "sized_disputes spec st dx" "\<forall>ve \<in> set (dx_verdicts dx). indices_ok spec st ve"
  shows "\<forall>i \<in> set (map prepareCulpritSignature (dx_culprits dx)) \<union> set (concat (map (judgement_items spec st) (dx_verdicts dx))) \<union>
    set (map prepareFaultSignature (dx_faults dx)). well_sized i"
proof -
  have parts: "blobFromParts [a, b] = a @ b" for a b
    using blobFromParts_fold [where acc = "[]" and parts = "[a, b]"] by (simp add: blobFromParts_def)
  have "length (vd_ed25519 (validators_of spec st (ve_votesEpoch ve) ! ju_index j)) = ED25519_KEY_BYTES"
    if "ve \<in> set (dx_verdicts dx)" "j \<in> set (ve_votes ve)" for ve j
  proof -
    have "ju_index j < length (validators_of spec st (ve_votesEpoch ve))" using assms(2) that by (simp add: indices_ok_def)
    then have "validators_of spec st (ve_votesEpoch ve) ! ju_index j \<in> set (ds_currentValidatorData st) \<union> set (ds_previousValidatorData st)"
      by (auto simp: validators_of_def)
    then show ?thesis using assms(1) by (simp add: sized_disputes_def)
  qed
  moreover have "length (ju_signature j) = ED25519_SIGNATURE_BYTES \<and> length (ve_workReportHash ve) = HASH_SIZE"
    if "ve \<in> set (dx_verdicts dx)" "j \<in> set (ve_votes ve)" for ve j
    using assms(1) that by (auto simp: sized_disputes_def fm_DisputesExtrinsic_def fm_class_def fm_field_def fm_seq_def fm_Verdict_def
        fm_array_def fm_Judgement_def fm_fixed_def list_all_iff)
  moreover have "length (cu_key c) = ED25519_KEY_BYTES \<and> length (cu_signature c) = ED25519_SIGNATURE_BYTES \<and> length (cu_workReportHash c) = HASH_SIZE"
    if "c \<in> set (dx_culprits dx)" for c
    using assms(1) that by (auto simp: sized_disputes_def fm_DisputesExtrinsic_def fm_class_def fm_field_def fm_seq_def fm_Culprit_def
        fm_fixed_def list_all_iff)
  moreover have "length (fa_key f) = ED25519_KEY_BYTES \<and> length (fa_signature f) = ED25519_SIGNATURE_BYTES \<and> length (fa_workReportHash f) = HASH_SIZE"
    if "f \<in> set (dx_faults dx)" for f
    using assms(1) that by (auto simp: sized_disputes_def fm_DisputesExtrinsic_def fm_class_def fm_field_def fm_seq_def fm_Fault_def
        fm_fixed_def list_all_iff)
  ultimately show ?thesis
    by (auto simp: well_sized_def prepareCulpritSignature_def prepareFaultSignature_def judgement_items_def judgement_item_def
        prepareJudgementSignature_def Let_def parts messages_short HASH_SIZE_def)
qed

definition disputes_effect ::
    "chain_spec \<Rightarrow> (blob \<Rightarrow> blob) \<Rightarrow> disputes_state \<Rightarrow> disputes_extrinsic \<Rightarrow> disputes_result \<Rightarrow> bool" where
  "disputes_effect spec H st dx r \<longleftrightarrow>
    (let v = vote_entries (dx_verdicts dx) in
     updated_records spec v (set (getOffenders dx)) (ds_disputesRecords st) (dt_disputesRecords r) \<and>
     dt_offendersMark r = getOffenders dx \<and>
     dt_availabilityAssignment r = map (cleared spec H v) (ds_availabilityAssignment st))"

lemma disputes_transition_iff:
  assumes "verifies W valid" "sized_disputes spec st dx" "wf_disputes spec H st"
  shows "(\<exists>r. disputes_transition spec H W st dx = Inr r) \<longleftrightarrow> valid_disputes spec st valid dx"
    and "disputes_transition spec H W st dx = Inr r \<Longrightarrow> disputes_effect spec H st dx r"
proof -
  let ?v = "calculateVotesForWorkReports dx" and ?keys = "getValidatorKeys st"
  obtain items where items: "getDisputesRecordsNewItems spec ?v = Inr items" "new_items spec ?v items"
    using getDisputesRecordsNewItems_spec [OF distinct_votes] by blast
  let ?vr = "\<lparr>vo_judgements = map (result_item valid) (concat (map (judgement_items spec st) (dx_verdicts dx))),
      vo_culprits = map (result_item valid) (map prepareCulpritSignature (dx_culprits dx)),
      vo_faults = map (result_item valid) (map prepareFaultSignature (dx_faults dx))\<rparr>"
  let ?checks = "[verifyVerdicts spec st dx ?vr, verifyVotesForWorkReports spec ?v dx, verifyCulprits st dx items ?vr ?keys,
      verifyFaults st dx items ?vr ?keys, verifyIfAlreadyJudged st dx]"
  let ?idx = "\<forall>ve \<in> set (dx_verdicts dx). indices_ok spec st ve"
  have good_bad: "set (dr_goodSet items) \<inter> set (dr_badSet items) = {}"
  proof -
    have "\<not> (h \<in> set (with_votes (is_good spec) ?v) \<and> h \<in> set (with_votes (is_bad spec) ?v))" for h
      using distinct_votes [of dx] by (auto simp: set_with_votes is_good_def is_bad_def dest: map_of_is_SomeI)
        (metis leD map_of_is_SomeI option.inject)
    then show ?thesis using items(2) by (auto simp: new_items_def)
  qed
  obtain rs where rs: "getUpdatedDisputesRecords st items (getOffenders dx) = Inr rs"
    "updated_records spec ?v (set (getOffenders dx)) (ds_disputesRecords st) rs"
    using getUpdatedDisputesRecords_spec [OF _ items(2)] assms(3) unfolding wf_disputes_def by blast
  have clear: "getClearedCoreAssignment spec H st ?v = Inr (map (cleared spec H ?v) (ds_availabilityAssignment st))"
    by (rule getCleared_eq [OF _ _ distinct_votes]) (use assms(3) in \<open>auto simp: wf_disputes_def\<close>)
  let ?r = "\<lparr>dt_offendersMark = getOffenders dx, dt_disputesRecords = rs,
      dt_availabilityAssignment = map (cleared spec H ?v) (ds_availabilityAssignment st)\<rparr>"
  have run: "disputes_transition spec H W st dx = Inr r \<longleftrightarrow> ?idx \<and> first_error ?checks = Inr () \<and> r = ?r" for r
  proof (cases ?idx)
    case True
    have "vefifyAllSignatures W \<lparr>vi_judgements = concat (map (judgement_items spec st) (dx_verdicts dx)),
        vi_culprits = map prepareCulpritSignature (dx_culprits dx), vi_faults = map prepareFaultSignature (dx_faults dx)\<rparr> = Inr ?vr"
      using vefifyAllSignatures_eq [OF assms(1), of "\<lparr>vi_judgements = concat (map (judgement_items spec st) (dx_verdicts dx)),
        vi_culprits = map prepareCulpritSignature (dx_culprits dx), vi_faults = map prepareFaultSignature (dx_faults dx)\<rparr>"]
        items_sized [OF assms(2) True] by simp
    moreover have "prepareSignaturesToVerification spec st dx = Inr \<lparr>vi_judgements = concat (map (judgement_items spec st) (dx_verdicts dx)),
        vi_culprits = map prepareCulpritSignature (dx_culprits dx), vi_faults = map prepareFaultSignature (dx_faults dx)\<rparr>"
      using True by (simp add: prepareSignatures_ok)
    ultimately show ?thesis using True items(1) rs(1) clear
      by (auto simp: disputes_transition_def Let_def bindE_Inr_iff)
  next
    case False
    then have "prepareSignaturesToVerification spec st dx \<noteq> Inr sigs" for sigs by (simp add: prepareSignatures_ok)
    then show ?thesis using False by (auto simp: disputes_transition_def bindE_Inr_iff)
  qed
  have checks: "first_error ?checks = Inr () \<longleftrightarrow> valid_disputes spec st valid dx" if idx: ?idx
  proof (cases "strict_hashes (map ve_workReportHash (dx_verdicts dx))")
    case True
    then have v: "?v = vote_entries (dx_verdicts dx)" by (intro calculateVotes_entries strict_hashes_distinct)
    have bad: "set (dr_badSet items) = set (with_votes (is_bad spec) (vote_entries (dx_verdicts dx)))"
      using items(2) by (simp add: new_items_def v)
    have same: "valid_culprit st valid (dr_badSet items) = valid_culprit st valid (with_votes (is_bad spec) (vote_entries (dx_verdicts dx)))"
      "valid_fault st valid (dr_badSet items) = valid_fault st valid (with_votes (is_bad spec) (vote_entries (dx_verdicts dx)))"
      by (intro ext, simp add: valid_culprit_def bad) (intro ext, simp add: valid_fault_def bad)
    have verdicts: "verifyVerdicts spec st dx ?vr = Inr () \<and> verifyIfAlreadyJudged st dx = Inr () \<longleftrightarrow>
        list_all (valid_verdict spec st valid) (dx_verdicts dx)"
      using verifyVerdicts_ok [of ?vr valid spec st dx] idx True
      by (auto simp: alreadyJudged_ok list_all_iff valid_verdict_def indices_ok_def Let_def)
    have votes: "verifyVotesForWorkReports spec ?v dx = Inr () \<longleftrightarrow> list_all (valid_split spec dx) (vote_entries (dx_verdicts dx))"
      by (simp add: verifyVotesForWorkReports_def foldE_check verify_votes_ok v list_all_iff)
    show ?thesis
      using verdicts votes True verifyCulprits_ok [of ?vr valid dx st items, unfolded same]
        verifyFaults_ok [of ?vr valid dx items st, unfolded same] good_bad
      by (simp add: first_error_ok valid_disputes_def Let_def) blast
  next
    case False
    then show ?thesis using verifyVerdicts_ok [of ?vr valid spec st dx] idx
      by (auto simp: first_error_ok valid_disputes_def Let_def)
  qed
  have idx: ?idx if "valid_disputes spec st valid dx"
    using that by (auto simp: valid_disputes_def valid_verdict_def indices_ok_def list_all_iff Let_def)
  show "(\<exists>r. disputes_transition spec H W st dx = Inr r) \<longleftrightarrow> valid_disputes spec st valid dx"
    using run checks idx by blast
  assume r: "disputes_transition spec H W st dx = Inr r"
  then have "valid_disputes spec st valid dx" using run checks by blast
  then have "strict_hashes (map ve_workReportHash (dx_verdicts dx))" by (simp add: valid_disputes_def Let_def)
  then have "?v = vote_entries (dx_verdicts dx)" by (intro calculateVotes_entries strict_hashes_distinct)
  then show "disputes_effect spec H st dx r" using r run rs(2) by (simp add: disputes_effect_def Let_def)
qed

text \<open>The three verdicts exclude one another, and a report that was judged is not judged again.\<close>

lemma updated_wf:
  assumes "valid_disputes spec st valid dx" "disputes_effect spec H st dx r" "wf_records (ds_disputesRecords st)"
  shows "wf_records (dt_disputesRecords r)"
proof -
  let ?v = "vote_entries (dx_verdicts dx)" and ?old = "ds_disputesRecords st"
  have dist: "distinct (map fst ?v)"
    using assms(1) strict_hashes_distinct by (auto simp: valid_disputes_def vote_entries_def comp_def Let_def)
  have same: "m = n" if "(h, m) \<in> set ?v" "(h, n) \<in> set ?v" for h m n
    using map_of_is_SomeI [OF dist that(1)] map_of_is_SomeI [OF dist that(2)] by simp
  have fresh: "h \<notin> set (dr_goodSet ?old) \<union> set (dr_badSet ?old) \<union> set (dr_wonkySet ?old)" if "(h, n) \<in> set ?v" for h n
    using that assms(1) by (auto simp: valid_disputes_def vote_entries_def valid_verdict_def list_all_iff Let_def)
  have up: "updated_records spec ?v (set (getOffenders dx)) ?old (dt_disputesRecords r)"
    using assms(2) by (simp add: disputes_effect_def Let_def)
  have disj: "set (with_votes P ?v) \<inter> set (with_votes Q ?v) = {}" if "\<And>n. \<not> (P n \<and> Q n)" for P Q
    using same that by (fastforce simp: set_with_votes)
  have new: "set (with_votes P ?v) \<inter> (set (dr_goodSet ?old) \<union> set (dr_badSet ?old) \<union> set (dr_wonkySet ?old)) = {}" for P
    using fresh by (fastforce simp: set_with_votes)
  have apart: "set (with_votes (is_good spec) ?v) \<inter> set (with_votes (is_bad spec) ?v) = {}"
    "set (with_votes (is_good spec) ?v) \<inter> set (with_votes (is_wonky spec) ?v) = {}"
    "set (with_votes (is_bad spec) ?v) \<inter> set (with_votes (is_wonky spec) ?v) = {}"
    using disj [of "is_good spec" "is_bad spec"] disj [of "is_good spec" "is_wonky spec"] disj [of "is_bad spec" "is_wonky spec"]
    by (fastforce simp: is_good_def is_bad_def is_wonky_def)+
  show ?thesis
    using up assms(3) apart new [of "is_good spec"] new [of "is_bad spec"] new [of "is_wonky spec"]
    unfolding wf_records_def updated_records_def by (simp add: Int_Un_distrib Int_Un_distrib2) (simp add: Int_commute)
qed

end
