(* ===== verification/DisputesProperties.thy ===== *)
theory DisputesProperties
  imports DisputesSpec
begin

text \<open>
  The properties of the disputes transition, with their concrete instances. The
  batch verifier of the instances takes the packed batch apart again.
\<close>

section \<open>A batch verifier\<close>

function batch_verifier :: "(input_item \<Rightarrow> bool) \<Rightarrow> blob \<Rightarrow> byte list" where
  "batch_verifier valid bs =
    (if length bs < 97 then []
     else let n = unat (bs ! 96) in
       (if valid \<lparr>in_key = take 32 bs, in_signature = take 64 (drop 32 bs), in_message = take n (drop 97 bs)\<rparr> then 1 else 0) #
       batch_verifier valid (drop (97 + n) bs))"
  by pat_completeness auto
termination by (relation "measure (\<lambda>(_, bs). length bs)") auto

declare batch_verifier.simps [simp del]

lemma batch_verifier_item:
  assumes "well_sized i"
  shows "batch_verifier valid (item_bytes i @ bs) = (if valid i then 1 else 0) # batch_verifier valid bs"
proof -
  have len: "length (in_key i) = 32" "length (in_signature i) = 64" "length (in_message i) < 256"
    using assms by (simp_all add: well_sized_def ED25519_KEY_BYTES_def ED25519_SIGNATURE_BYTES_def)
  let ?l = "item_bytes i @ bs"
  have l: "?l = in_key i @ in_signature i @ of_nat (length (in_message i)) # in_message i @ bs" by (simp add: item_bytes_def)
  have n: "unat (?l ! 96) = length (in_message i)"
    using len by (simp add: l nth_append unat_of_nat)
  have item: "\<lparr>in_key = take 32 ?l, in_signature = take 64 (drop 32 ?l), in_message = take (length (in_message i)) (drop 97 ?l)\<rparr> = i"
  proof -
    have "take 32 ?l = in_key i" "take 64 (drop 32 ?l) = in_signature i" "take (length (in_message i)) (drop 97 ?l) = in_message i"
      unfolding l using len by simp_all
    then show ?thesis by simp
  qed
  have rest: "drop (97 + length (in_message i)) ?l = bs" using len by (simp add: l)
  have "\<not> length ?l < 97" using len by (simp add: l)
  then show ?thesis by (subst batch_verifier.simps) (simp only: Let_def n item rest if_False)
qed

lemma batch_verifier_verifies: "verifies (batch_verifier valid) valid"
proof -
  have "batch_verifier valid (concat (map item_bytes items)) = map (\<lambda>i. if valid i then 1 else 0) items"
    if "\<forall>i \<in> set items. well_sized i" for items
    using that by (induction items) (simp_all add: batch_verifier_item, subst batch_verifier.simps, simp)
  then show ?thesis by (simp add: verifies_def)
qed

section \<open>A sample chain\<close>

definition small_chain :: chain_spec where
  "small_chain = tiny_data\<lparr>thirdOfValidators := 2, validatorsSuperMajority := 5\<rparr>"

definition sample_validator :: "byte \<Rightarrow> validator_data" where
  "sample_validator k = \<lparr>vd_bandersnatch = [], vd_ed25519 = replicate 32 k, vd_bls = [], vd_metadata = []\<rparr>"

definition sample_disputes_state :: disputes_state where
  "sample_disputes_state = \<lparr>ds_disputesRecords = \<lparr>dr_goodSet = [], dr_badSet = [], dr_wonkySet = [], dr_punishSet = []\<rparr>,
    ds_availabilityAssignment = [None, None], ds_timeslot = 13,
    ds_currentValidatorData = map sample_validator [1, 2, 3, 4, 5, 6],
    ds_previousValidatorData = map sample_validator [1, 2, 3, 4, 5, 6]\<rparr>"

definition sample_vote :: "nat \<Rightarrow> judgement" where
  "sample_vote k = \<lparr>ju_isWorkReportValid = (k < 2), ju_index = k, ju_signature = replicate 64 0\<rparr>"

text \<open>Two validators of five say the report is valid.\<close>

definition wonky_disputes :: disputes_extrinsic where
  "wonky_disputes = \<lparr>dx_verdicts = [\<lparr>ve_workReportHash = replicate 32 9, ve_votesEpoch = 1,
      ve_votes = map sample_vote [0, 1, 2, 3, 4]\<rparr>], dx_culprits = [], dx_faults = []\<rparr>"

lemma sample_wf: "wf_disputes small_chain H sample_disputes_state"
  by (simp add: wf_disputes_def sample_disputes_state_def wf_records_def small_chain_def tiny_data_def strict_cmp_def)

lemma sample_sized: "sized_disputes small_chain sample_disputes_state wonky_disputes"
  by (auto simp: sized_disputes_def sample_disputes_state_def sample_validator_def ED25519_KEY_BYTES_def wonky_disputes_def
      fm_DisputesExtrinsic_def fm_class_def fm_field_def fm_seq_def fm_Verdict_def fm_array_def fm_Judgement_def fm_fixed_def
      fm_nat_le_def fm_bool_def fm_end_def default_range_def sample_vote_def HASH_SIZE_def ED25519_SIGNATURE_BYTES_def
      small_chain_def)

lemma sample_valid: "valid_disputes small_chain sample_disputes_state (\<lambda>_. True) wonky_disputes"
  by (auto simp: valid_disputes_def wonky_disputes_def vote_entries_def positive_votes_count sample_vote_def strict_cmp_def
      valid_verdict_def valid_split_def sample_disputes_state_def current_epoch_def small_chain_def tiny_data_def validators_of_def
      with_votes_def is_bad_def)

section \<open>Disputes\<close>

text \<open>C27: what is accepted. With a batch verifier that answers as documented, the transition succeeds exactly
  for the extrinsics that meet the conditions of the protocol: order, judgement age, signatures, vote splits with
  their evidence, offenders among the validators that were not punished, and reports not judged before.\<close>

theorem disputes_accepts:
  assumes "verifies W valid" "sized_disputes spec st dx" "wf_disputes spec H st"
  shows "(\<exists>r. disputes_transition spec H W st dx = Inr r) \<longleftrightarrow> valid_disputes spec st valid dx"
  using disputes_transition_iff(1) [OF assms] .

theorem disputes_accepts_witness:
  "\<exists>r. disputes_transition small_chain (take 32) (batch_verifier (\<lambda>_. True)) sample_disputes_state wonky_disputes = Inr r"
  using disputes_accepts [OF batch_verifier_verifies sample_sized sample_wf] sample_valid by blast

text \<open>C28: what is done. After success the good, bad and wonky sets are those of before and the newly judged
  reports, disjoint and sorted, every offender is in the punish set, and exactly the cores whose report was judged
  bad or wonky are cleared.\<close>

theorem disputes_applied:
  assumes "verifies W valid" "sized_disputes spec st dx" "wf_disputes spec H st"
    "disputes_transition spec H W st dx = Inr r"
  shows "wf_records (dt_disputesRecords r) \<and> disputes_effect spec H st dx r"
proof -
  have effect: "disputes_effect spec H st dx r" by (rule disputes_transition_iff(2) [OF assms])
  have "valid_disputes spec st valid dx" using disputes_transition_iff(1) [OF assms(1-3)] assms(4) by blast
  then show ?thesis using updated_wf [OF _ effect] assms(3) effect by (auto simp: wf_disputes_def)
qed

theorem disputes_applied_witness:
  "\<exists>r. disputes_transition small_chain (take 32) (batch_verifier (\<lambda>_. True)) sample_disputes_state wonky_disputes = Inr r \<and>
    wf_records (dt_disputesRecords r) \<and> replicate 32 9 \<in> set (dr_wonkySet (dt_disputesRecords r))"
proof -
  obtain r where r: "disputes_transition small_chain (take 32) (batch_verifier (\<lambda>_. True)) sample_disputes_state wonky_disputes = Inr r"
    using disputes_transition_iff(1) [OF batch_verifier_verifies sample_sized sample_wf] sample_valid by blast
  show ?thesis
    using disputes_applied [OF batch_verifier_verifies sample_sized sample_wf r] r
    by (auto simp: disputes_effect_def updated_records_def wonky_disputes_def vote_entries_def set_with_votes is_wonky_def
        positive_votes_count sample_vote_def small_chain_def)
qed

end
