(* ===== verification/DecodedTypes.thy ===== *)
theory DecodedTypes
  imports BlockCodec
begin

text \<open>
  What decoding promises for \<^emph>\<open>arbitrary\<close> bytes: whatever a descriptor returns is a value of its type. The
  numbers fit their widths, the byte strings have their sizes, sequences keep to their ranges, and bit vectors
  have no bit beyond their length. The rules follow the descriptors of \<open>descriptors.ts\<close>, like the rules of
  theory ClassCodec do for values that were encoded before.
\<close>

definition typed :: "'a descriptor \<Rightarrow> 'a format \<Rightarrow> bool" where
  "typed cd fm \<longleftrightarrow> (\<forall>d x d'. decode cd d = Inr (x, d') \<longrightarrow> fm_valid fm x)"

definition typed_fields :: "'a fields \<Rightarrow> 'a format \<Rightarrow> bool" where
  "typed_fields fs fm \<longleftrightarrow> (\<forall>d x d'. fl_decode fs d = Inr (x, d') \<longrightarrow> fm_valid fm x)"

named_theorems typed_rules \<open>a descriptor decodes values of its format only\<close>


section \<open>Numbers\<close>

lemma le_val_upper: "le_val bs < 2 ^ (8 * length bs)"
  using le_val_less [of bs] by (simp add: power_mult)

lemma view_bytes_length:
  "ensureHasBytes (int n) d = Inr u \<Longrightarrow> length (view_bytes d (d_offset d) n) = n"
  by (simp add: ensure_Inr view_bytes_def subarray_def)

lemma ensure_view: "ensureHasBytes (int n) d = Inr u \<Longrightarrow> at d (view_bytes d (d_offset d) n)"
  by (simp add: at_def view_bytes_length) (simp add: ensure_Inr)

lemma getUint_range: "getNum n (\<lambda>d. getUint n (d_offset d) d) d = Inr (x, d') \<Longrightarrow> 0 \<le> x \<and> x < 2 ^ (8 * n)"
  by (auto simp: getNum_def Let_def getUint_def bindE_Inr_iff dest!: view_bytes_length)
    (metis le_val_upper)

lemma dec_ranges:
  "dec_u8 d = Inr (x, d') \<Longrightarrow> 0 \<le> x \<and> x < 2 ^ (8 * 1)" "dec_u16 d = Inr (x, d') \<Longrightarrow> 0 \<le> x \<and> x < 2 ^ (8 * 2)"
  "dec_u32 d = Inr (x, d') \<Longrightarrow> 0 \<le> x \<and> x < 2 ^ (8 * 4)" "dec_u64 d = Inr (x, d') \<Longrightarrow> 0 \<le> x \<and> x < 2 ^ (8 * 8)"
  unfolding dec_u8_def dec_u16_def dec_u32_def dec_u64_def by (erule getUint_range)+

lemma dec_u24_range: "dec_u24 d = Inr (x, d') \<Longrightarrow> 0 \<le> x \<and> x < 2 ^ 24"
proof -
  assume r: "dec_u24 d = Inr (x, d')"
  then have e: "ensureHasBytes (int 3) d = Inr ()" by (auto simp: dec_u24_def getNum_def bindE_Inr_iff)
  let ?bs = "view_bytes d (d_offset d) 3"
  have "dec_u24 d = Inr (le_val ?bs, adv d (length ?bs))"
    by (rule decodesD [OF u24_decodes [OF view_bytes_length [OF e]] ensure_view [OF e]])
  with r le_val_upper [of ?bs] view_bytes_length [OF e] le_val_nonneg [of ?bs] show ?thesis by auto
qed

lemma prefix_byte_bounds:
  assumes "decodeVariableLengthExtraBytes fb = Inr l"
  shows "0 \<le> fb \<and> (l = 0 \<longrightarrow> fb < 128) \<and> (l = 1 \<longrightarrow> 128 \<le> fb \<and> fb < 192) \<and>
    (l = 2 \<longrightarrow> 192 \<le> fb \<and> fb < 224) \<and> (l = 3 \<longrightarrow> 224 \<le> fb \<and> fb < 240) \<and> l \<le> 8 \<and>
    (l = 8 \<or> 2 ^ 8 \<le> fb + 2 ^ (8 - l) \<and> fb + 2 ^ (8 - l) < 2 ^ 8 + 2 ^ (7 - l))"
proof -
  from assms have fb: "0 \<le> fb" "fb < 256" and l: "l = extraBytes_loop MASKS 0 fb"
    by (auto simp: decodeVariableLengthExtraBytes_def check_def split: if_splits)
  show ?thesis unfolding l MASKS_def using fb by (auto simp: eval_nat_numeral)
qed

lemma dec_varU32_range:
  assumes "dec_varU32 d = Inr (x, d')"
  shows "0 \<le> x \<and> x < 2 ^ 32"
proof -
  let ?fb = "uint (source d ! d_offset d)" and ?d = "d\<lparr>d_offset := d_offset d + 1\<rparr>"
  obtain l where l: "decodeVariableLengthExtraBytes ?fb = Inr l"
    using assms by (auto simp: dec_varU32_def Let_def bindE_Inr_iff)
  note b = prefix_byte_bounds [OF l]
  have shl: "js_shl (?fb + 2 ^ (8 - l) - 2 ^ 8) (int (l * 8)) = (?fb + 2 ^ (8 - l) - 2 ^ 8) * 2 ^ (l * 8)"
    if "l \<in> {1, 2, 3}"
  proof -
    have "(?fb + 2 ^ (8 - l) - 2 ^ 8) * 2 ^ nat (int (l * 8)) < 2 ^ 31" using that b by auto
    then show ?thesis using that b by (subst js_shl_small) auto
  qed
  consider "l = 0" | "l = 1" | "l = 2" | "l = 3" | "l = 4" using assms l
    by (auto simp: dec_varU32_def Let_def bindE_Inr_iff split: if_splits)
  then show ?thesis
  proof cases
    case 1
    then show ?thesis using assms l b by (auto simp: dec_varU32_def Let_def bindE_Inr_iff)
  next
    case 2
    then show ?thesis using assms l b shl
      by (auto simp: dec_varU32_def Let_def bindE_Inr_iff dest!: dec_ranges(1))
  next
    case 3
    then show ?thesis using assms l b shl
      by (auto simp: dec_varU32_def Let_def bindE_Inr_iff dest!: dec_ranges(2))
  next
    case 4
    then show ?thesis using assms l b shl
      by (auto simp: dec_varU32_def Let_def bindE_Inr_iff dest!: dec_u24_range)
  next
    case 5
    then show ?thesis using assms l
      by (auto simp: dec_varU32_def Let_def bindE_Inr_iff split: if_splits dest!: dec_ranges(3))
  qed
qed

lemma dec_varU64_range: "dec_varU64 d = Inr (x, d') \<Longrightarrow> 0 \<le> x \<and> x < 2 ^ 64"
  by (auto simp: dec_varU64_def Let_def bindE_Inr_iff tryAsU64_def isU64_iff check_def split: if_splits)

section \<open>Bytes and sequences\<close>

lemma dec_bytes_length: "dec_bytes n d = Inr (bs, d') \<Longrightarrow> length bs = n"
  by (auto simp: dec_bytes_def bindE_Inr_iff view_bytes_length split: if_splits)

lemma bytes_typed [typed_rules]: "typed (codec_bytes n) (fm_fixed n)"
  by (auto simp: typed_def codec_bytes_def fm_fixed_def dest: dec_bytes_length)

lemma blob_typed [typed_rules]: "typed codec_blob fm_blob"
proof -
  have "length bs < 2 ^ 32" if r: "dec_bytesBlob d = Inr (bs, d')" for d bs d'
  proof -
    obtain n d1 u where n: "dec_varU32 d = Inr (n, d1)" "ensureHasBytes n d1 = Inr u" "bs = view_bytes d1 (d_offset d1) (nat n)"
      using r by (auto simp: dec_bytesBlob_def bindE_Inr_iff)
    note rng = dec_varU32_range [OF n(1)]
    with n(2) have "ensureHasBytes (int (nat n)) d1 = Inr u" by simp
    then have "length bs = nat n" unfolding n(3) by (rule view_bytes_length)
    with rng show ?thesis by (simp add: nat_less_iff)
  qed
  then show ?thesis by (auto simp: typed_def codec_blob_def fm_blob_def)
qed

lemma bool_typed [typed_rules]: "typed codec_bool fm_bool"
  by (simp add: typed_def fm_bool_def)

lemma nat_below_iff: "0 \<le> x \<Longrightarrow> nat x < 2 ^ k \<longleftrightarrow> x < 2 ^ k"
  by (simp add: nat_less_iff)

lemma nat_typed [typed_rules]:
  "typed (codec_nat codec_u8) (fm_nat_le 1)" "typed (codec_nat codec_u16) (fm_nat_le 2)"
  "typed (codec_nat codec_u32) (fm_nat_le 4)" "typed (codec_nat codec_u64) (fm_nat_le 8)"
  "typed (codec_nat codec_varU32) (fm_varnat 32)" "typed (codec_nat codec_varU64) (fm_varnat 64)"
  by (auto simp: typed_def codec_nat_def codec_convert_def fm_nat_le_def fm_varnat_def bindE_Inr_iff
      codec_u8_def codec_u16_def codec_u32_def codec_u64_def codec_varU32_def codec_varU64_def
      dest!: dec_ranges dec_varU32_range dec_varU64_range simp: nat_below_iff)

lemma option_typed [typed_rules]: "typed cd fm \<Longrightarrow> typed (codec_optional cd) (fm_option fm)"
  unfolding typed_def codec_optional_def dec_optional_def fm_option_def
  by (fastforce simp: bindE_Inr_iff split: if_splits)

lemma sequence_typed:
  assumes "typed cd fm"
  shows "dec_sequenceFixLen (decode cd) n d = Inr (xs, d') \<Longrightarrow> length xs = n \<and> list_all (fm_valid fm) xs"
proof (induction n arbitrary: d xs d')
  case (Suc n)
  then obtain x d1 ys where x: "decode cd d = Inr (x, d1)" "xs = x # ys" "dec_sequenceFixLen (decode cd) n d1 = Inr (ys, d')"
    by (auto simp: bindE_Inr_iff)
  with Suc.IH [OF x(3)] assms show ?case by (auto simp: typed_def)
qed simp

lemma array_typed [typed_rules]: "typed cd fm \<Longrightarrow> typed (codec_sequenceFixLen cd n) (fm_array n fm)"
  using sequence_typed [of cd fm n] by (auto simp: typed_def codec_sequenceFixLen_def fm_array_def)

lemma validateLength_Inr: "validateLength rng n = Inr u \<Longrightarrow> minLength rng \<le> n \<and> n \<le> maxLength rng"
  by (auto simp: validateLength_def split: if_splits)

lemma seq_typed [typed_rules]:
  assumes "typed cd fm"
  shows "typed (codec_sequenceVarLen cd rng typical) (fm_seq rng fm)"
  unfolding typed_def
proof (intro allI impI)
  fix d xs d' assume "decode (codec_sequenceVarLen cd rng typical) d = Inr (xs, d')"
  then obtain n d1 u where n: "dec_varU32 d = Inr (n, d1)" "validateLength rng (nat n) = Inr u"
    and xs: "dec_sequenceFixLen (decode cd) (nat n) d1 = Inr (xs, d')"
    by (auto simp: codec_sequenceVarLen_def Let_def bindE_Inr_iff)
  show "fm_valid (fm_seq rng fm) xs"
    using dec_varU32_range [OF n(1)] validateLength_Inr [OF n(2)] sequence_typed [OF assms xs]
    by (auto simp: fm_seq_def nat_less_iff)
qed

section \<open>Combinators\<close>

lemma convert_typed:
  "typed cd f \<Longrightarrow> (\<And>y x. fm_valid f y \<Longrightarrow> out y = Inr x \<Longrightarrow> fm_valid g x) \<Longrightarrow> typed (codec_convert cd inp out) g"
  unfolding typed_def codec_convert_def by (fastforce simp: bindE_Inr_iff)

lemma fields_typed [typed_rules]:
  "typed_fields no_fields fm_end"
  "typed cd f \<Longrightarrow> typed_fields fs g \<Longrightarrow> typed_fields (field cd fs) (fm_field f g)"
proof -
  show "typed_fields no_fields fm_end" by (simp add: typed_fields_def fm_end_def)
  assume "typed cd f" "typed_fields fs g"
  then show "typed_fields (field cd fs) (fm_field f g)"
    unfolding typed_def typed_fields_def field_def fm_field_def
    by (fastforce simp: bindE_Inr_iff rethrow_def split: sum.splits)
qed

lemma class_such_typed:
  "typed_fields fs g \<Longrightarrow> (\<And>p. fm_valid g p \<Longrightarrow> fm_valid fm (create p)) \<Longrightarrow> typed (codec_Class fs fields_of create) fm"
  unfolding typed_def typed_fields_def codec_Class_def by (fastforce simp: bindE_Inr_iff)

lemma class_typed [typed_rules]:
  "typed_fields fs g \<Longrightarrow> (\<And>p. fields_of (create p) = p) \<Longrightarrow> typed (codec_Class fs fields_of create) (fm_class fields_of g)"
  by (rule class_such_typed) (simp_all add: fm_class_def)

lemma union_typed:
  assumes "list_all2 typed variants fms" "\<And>i x. i < length fms \<Longrightarrow> fm_valid (fms ! i) x \<Longrightarrow> kind x = i"
  shows "typed (codec_union kind variants) (fm_union kind fms)"
  unfolding typed_def
proof (intro allI impI)
  fix d x d' assume "decode (codec_union kind variants) d = Inr (x, d')"
  then obtain i d1 where i: "nat i < length variants" "decode (variants ! nat i) d1 = Inr (x, d')"
    by (auto simp: codec_union_def bindE_Inr_iff split: if_splits)
  moreover have len: "length variants = length fms" using assms(1) by (rule list_all2_lengthD)
  ultimately have v: "fm_valid (fms ! nat i) x"
    using list_all2_nthD [OF assms(1) i(1)] by (auto simp: typed_def)
  with assms(2) [of "nat i" x] i(1) len show "fm_valid (fm_union kind fms) x" by (simp add: fm_union_def)
qed

lemma context_typed [typed_rules]: "typed (chooser context) fm \<Longrightarrow> typed (codec_withContext chooser defaultContext context) fm"
  by (simp add: typed_def codec_withContext_def)

lemma fixedSizeArray_typed [typed_rules]: "typed cd fm \<Longrightarrow> typed (codec_fixedSizeArray cd n) (fm_array n fm)"
  unfolding codec_fixedSizeArray_def Let_def by (rule convert_typed [OF array_typed]) (auto split: if_splits)

lemma knownSize_typed [typed_rules]:
  "typed cd fm \<Longrightarrow> typed (codec_knownSizeArray cd (Inl n)) (fm_array n fm)"
  "typed cd fm \<Longrightarrow> typed (codec_knownSizeArray cd (Inr (rng, typical))) (fm_seq rng fm)"
  by (simp_all add: codec_knownSizeArray_def array_typed seq_typed)

lemma bits_typed [typed_rules]: "typed (codec_bitVecFixLen n) (fm_bits n)"
proof -
  have "canonical v \<and> bitLength v = n" if r: "dec_bitVecFixLen n d = Inr (v, d')" for d v d'
  proof (cases "n = 0")
    case True
    with r show ?thesis
      by (auto simp: dec_bitVecFixLen_def bindE_Inr_iff empty_bitvec_def new_bitvec_def check_def canonical_def byteLength_def)
  next
    case False
    let ?m = "ceil_div n 8"
    obtain bs d1 where bs: "dec_bytes ?m d = Inr (bs, d1)" "fromBlob bs n = Inr v"
      and last: "\<not> (n mod 8 > 0 \<and> js_shr (uint (bs ! (?m - 1))) (int (n mod 8)) > 0)"
      using r False by (auto simp: dec_bitVecFixLen_def Let_def bindE_Inr_iff split: if_splits)
    have len: "length bs = ?m" by (rule dec_bytes_length [OF bs(1)])
    have "n \<le> ?m * 8" using ceil_div_bounds(1) [of 8 n] by simp
    with False have "0 < ?m" by (cases ?m) auto
    with len have "last bs = bs ! (?m - 1)" by (subst last_conv_nth) auto
    moreover have "uint (last bs) < 2 ^ (n mod 8)" if "n mod 8 > 0"
    proof -
      have "uint (last bs) div 2 ^ (n mod 8) = 0"
        using last that js_shr_byte [of "n mod 8" "last bs"] div_int_pos_iff [of "uint (last bs)" "2 ^ (n mod 8)"]
        by (auto simp: calculation)
      then show ?thesis using zdiv_eq_0_iff [of "uint (last bs)" "2 ^ (n mod 8)"] by auto
    qed
    moreover have "v = \<lparr>data = bs, bitLength = n\<rparr>"
      using bs(2) by (auto simp: fromBlob_def new_bitvec_def check_def split: if_splits)
    ultimately show ?thesis using len by (simp add: canonical_def byteLength_def)
  qed
  then show ?thesis by (auto simp: typed_def codec_bitVecFixLen_def fm_bits_def)
qed

section \<open>The block\<close>

lemma coreIndex_typed [typed_rules]: "typed codec_coreIndex (fm_varnat 16)"
  unfolding codec_coreIndex_def
  by (rule convert_typed [where f = "\<lparr>fm_bytes = nat_bytes, fm_valid = (\<lambda>_. True)\<rparr>"])
    (auto simp: typed_def fm_varnat_def bindE_Inr_iff tryAsU16_def is_unsigned_iff check_def nat_less_iff split: if_splits)

lemma ticketAttempt_typed [typed_rules]: "typed codec_ticketAttempt (fm_varnat 8)"
  unfolding codec_ticketAttempt_def
  by (rule convert_typed [where f = "\<lparr>fm_bytes = nat_bytes, fm_valid = (\<lambda>_. True)\<rparr>"])
    (auto simp: typed_def fm_varnat_def bindE_Inr_iff tryAsU8_def is_unsigned_iff check_def nat_less_iff split: if_splits)

lemma workItems_typed [typed_rules]: "typed cd fm \<Longrightarrow> typed (codec_workItems cd) (fm_workItems fm)"
  unfolding codec_workItems_def fm_workItems_def
  by (rule convert_typed [OF seq_typed])
    (auto simp: fm_such_def fm_seq_def bindE_Inr_iff tryAsU8_def is_unsigned_iff check_def fsa_new_def split: if_splits)

lemma error_kind_typed: "typed (codec_error_kind x) (fm_error_kind x)"
  unfolding codec_error_kind_def fm_error_kind_def
  by (rule class_such_typed [OF fields_typed(1)]) (simp add: fm_such_def fm_class_def fm_end_def)

lemma ok_typed:
  "typed (codec_Class (field codec_blob no_fields) (\<lambda>x. (wer_okBlob x, ())) (\<lambda>(okBlob, _). WER_ok okBlob))
    (fm_such (\<lambda>x. wer_kind x = 0) (fm_class (\<lambda>x. (wer_okBlob x, ())) (fm_field fm_blob fm_end)))"
proof (rule class_such_typed)
  show "typed_fields (field codec_blob no_fields) (fm_field fm_blob fm_end)" by (intro typed_rules)
qed (auto simp: fm_such_def fm_class_def)

lemma WorkExecResult_typed [typed_rules]: "typed codec_WorkExecResult fm_WorkExecResult"
  unfolding codec_WorkExecResult_def fm_WorkExecResult_def
proof (rule union_typed)
  let ?fms = "[fm_such (\<lambda>x. wer_kind x = 0) (fm_class (\<lambda>x. (wer_okBlob x, ())) (fm_field fm_blob fm_end)),
      fm_error_kind WER_outOfGas, fm_error_kind WER_panic, fm_error_kind WER_incorrectNumberOfExports,
      fm_error_kind WER_digestTooBig, fm_error_kind WER_badCode, fm_error_kind WER_codeOversize]"
  fix i x assume i: "i < length ?fms" and v: "fm_valid (?fms ! i) x"
  from i have "i \<in> {0, 1, 2, 3, 4, 5, 6}" by auto
  with v show "wer_kind x = i" by (auto simp: fm_such_def fm_error_kind_def)
qed (simp add: error_kind_typed ok_typed)

lemma WorkRefineLoad_typed [typed_rules]: "typed codec_WorkRefineLoad fm_WorkRefineLoad"
  unfolding codec_WorkRefineLoad_def fm_WorkRefineLoad_def by (intro typed_rules) auto

lemma WorkResult_typed [typed_rules]: "typed codec_WorkResult fm_WorkResult"
  unfolding codec_WorkResult_def fm_WorkResult_def by (intro typed_rules) auto

lemma WorkPackageSpec_typed [typed_rules]: "typed codec_WorkPackageSpec fm_WorkPackageSpec"
  unfolding codec_WorkPackageSpec_def fm_WorkPackageSpec_def by (intro typed_rules) auto

lemma WorkPackageInfo_typed [typed_rules]: "typed codec_WorkPackageInfo fm_WorkPackageInfo"
  unfolding codec_WorkPackageInfo_def fm_WorkPackageInfo_def by (intro typed_rules) auto

lemma RefineContext_typed [typed_rules]: "typed codec_RefineContext fm_RefineContext"
  unfolding codec_RefineContext_def fm_RefineContext_def by (intro typed_rules) auto

lemma WorkReport_typed [typed_rules]: "typed codec_WorkReport fm_WorkReport"
  unfolding codec_WorkReport_def fm_WorkReport_def by (intro typed_rules) auto

lemma ImportSpec_typed [typed_rules]: "typed codec_ImportSpec fm_ImportSpec"
  unfolding codec_ImportSpec_def fm_ImportSpec_def by (intro typed_rules) auto

lemma WorkItemExtrinsicSpec_typed [typed_rules]: "typed codec_WorkItemExtrinsicSpec fm_WorkItemExtrinsicSpec"
  unfolding codec_WorkItemExtrinsicSpec_def fm_WorkItemExtrinsicSpec_def by (intro typed_rules) auto

lemma WorkItem_typed [typed_rules]: "typed codec_WorkItem fm_WorkItem"
  unfolding codec_WorkItem_def fm_WorkItem_def by (intro typed_rules) auto

lemma WorkPackage_typed [typed_rules]: "typed codec_WorkPackage fm_WorkPackage"
  unfolding codec_WorkPackage_def fm_WorkPackage_def by (intro typed_rules) auto

lemma perValidator_typed [typed_rules]: "typed cd fm \<Longrightarrow> typed (codec_perValidator cd c) (fm_array (validatorsCount c) fm)"
  unfolding codec_perValidator_def by (intro typed_rules)

lemma perEpochBlock_typed [typed_rules]: "typed cd fm \<Longrightarrow> typed (codec_perEpochBlock cd c) (fm_array (epochLength c) fm)"
  unfolding codec_perEpochBlock_def by (intro typed_rules)

lemma SignedTicket_typed [typed_rules]: "typed codec_SignedTicket fm_SignedTicket"
  unfolding codec_SignedTicket_def fm_SignedTicket_def by (intro typed_rules) auto

lemma Ticket_typed [typed_rules]: "typed codec_Ticket fm_Ticket"
  unfolding codec_Ticket_def fm_Ticket_def by (intro typed_rules) auto

lemma ticketsExtrinsicCodec_typed [typed_rules]: "typed (ticketsExtrinsicCodec c) (fm_seq \<lparr>minLength = 0, maxLength = maxTicketsPerExtrinsic c\<rparr> fm_SignedTicket)"
  unfolding ticketsExtrinsicCodec_def by (intro typed_rules)

lemma Preimage_typed [typed_rules]: "typed codec_Preimage fm_Preimage"
  unfolding codec_Preimage_def fm_Preimage_def by (intro typed_rules) auto

lemma Credential_typed [typed_rules]: "typed codec_Credential fm_Credential"
  unfolding codec_Credential_def fm_Credential_def by (intro typed_rules) auto

lemma ReportGuarantee_typed [typed_rules]: "typed codec_ReportGuarantee fm_ReportGuarantee"
  unfolding codec_ReportGuarantee_def fm_ReportGuarantee_def by (intro typed_rules) auto

lemma guaranteesExtrinsicCodec_typed [typed_rules]: "typed (guaranteesExtrinsicCodec c) (fm_seq \<lparr>minLength = 0, maxLength = coresCount c\<rparr> fm_ReportGuarantee)"
  unfolding guaranteesExtrinsicCodec_def by (intro typed_rules)

lemma bitfield_typed [typed_rules]: "typed (codec_bitfield c) (fm_bits (coresCount c))"
  unfolding codec_bitfield_def by (intro typed_rules)

lemma AvailabilityAssurance_typed [typed_rules]: "typed (codec_AvailabilityAssurance c) (fm_AvailabilityAssurance c)"
  unfolding codec_AvailabilityAssurance_def fm_AvailabilityAssurance_def by (intro typed_rules) auto

lemma assurancesExtrinsicCodec_typed [typed_rules]: "typed (assurancesExtrinsicCodec c) (fm_seq \<lparr>minLength = 0, maxLength = validatorsCount c\<rparr> (fm_AvailabilityAssurance c))"
  unfolding assurancesExtrinsicCodec_def by (intro typed_rules)

lemma Fault_typed [typed_rules]: "typed codec_Fault fm_Fault"
  unfolding codec_Fault_def fm_Fault_def by (intro typed_rules) auto

lemma Culprit_typed [typed_rules]: "typed codec_Culprit fm_Culprit"
  unfolding codec_Culprit_def fm_Culprit_def by (intro typed_rules) auto

lemma Judgement_typed [typed_rules]: "typed codec_Judgement fm_Judgement"
  unfolding codec_Judgement_def fm_Judgement_def by (intro typed_rules) auto

lemma codec_votes_typed [typed_rules]: "typed (codec_votes c) (fm_array (validatorsSuperMajority c) fm_Judgement)"
  unfolding codec_votes_def by (intro typed_rules)

lemma Verdict_typed [typed_rules]: "typed (codec_Verdict c) (fm_Verdict c)"
  unfolding codec_Verdict_def fm_Verdict_def by (intro typed_rules) auto

lemma DisputesExtrinsic_typed [typed_rules]: "typed (codec_DisputesExtrinsic c) (fm_DisputesExtrinsic c)"
  unfolding codec_DisputesExtrinsic_def fm_DisputesExtrinsic_def by (intro typed_rules) auto

lemma ValidatorKeys_typed [typed_rules]: "typed codec_ValidatorKeys fm_ValidatorKeys"
  unfolding codec_ValidatorKeys_def fm_ValidatorKeys_def by (intro typed_rules) auto

lemma TicketsMarker_typed [typed_rules]: "typed (codec_TicketsMarker c) (fm_TicketsMarker c)"
  unfolding codec_TicketsMarker_def fm_TicketsMarker_def by (intro typed_rules) auto

lemma EpochMarker_typed [typed_rules]: "typed (codec_EpochMarker c) (fm_EpochMarker c)"
  unfolding codec_EpochMarker_def fm_EpochMarker_def by (intro typed_rules) auto

lemma Header_typed [typed_rules]: "typed (codec_Header c) (fm_Header c)"
  unfolding codec_Header_def fm_Header_def by (intro typed_rules) auto

lemma preimagesExtrinsic_typed [typed_rules]: "typed preimagesExtrinsicCodec (fm_seq default_range fm_Preimage)"
  unfolding preimagesExtrinsicCodec_def by (intro typed_rules)

lemma Extrinsic_typed [typed_rules]: "typed (codec_Extrinsic c) (fm_Extrinsic c)"
  unfolding codec_Extrinsic_def fm_Extrinsic_def by (intro typed_rules) auto

lemma Block_typed [typed_rules]: "typed (codec_Block c) (fm_Block c)"
  unfolding codec_Block_def fm_Block_def by (intro typed_rules) auto

end
