(* ===== verification/BlockProperties.thy ===== *)
theory BlockProperties
  imports DecodedTypes
begin

text \<open>
  What the codec of blocks promises: encoding and decoding a block gives it back, the unsealed header has
  everything but the seal, and whatever is decoded from foreign bytes is a well-formed block.
\<close>

section \<open>Encoding\<close>

text \<open>C29: a block survives encoding and decoding: header, tickets, preimages, guarantees with their reports,
  assurances and disputes, whenever every field is in its range and the encoding fits the buffer.\<close>

theorem block_roundtrip:
  assumes "fm_valid (fm_Block c) b" "length (fm_bytes (fm_Block c) b) \<le> MAX_LENGTH"
  shows "bindE (encodeObject (codec_Block c) b) (decodeObject (decode (codec_Block c))) = Inr b"
  using implements_round_trip [OF Block_rule assms] .

theorem block_roundtrip_witness:
  "bindE (encodeObject (codec_Block tiny_data) (emptyBlock 7)) (decodeObject (decode (codec_Block tiny_data))) = Inr (emptyBlock 7)"
  by (rule block_roundtrip [OF emptyBlock_valid emptyBlock_length])

text \<open>The seal signs everything else. Two headers have the same unsealed encoding exactly when they differ
  in their seal only.\<close>

theorem unsealed_header:
  assumes "fm_valid (fm_Header c) h" "length (fm_bytes (fm_Header c) h) \<le> MAX_LENGTH"
    "fm_valid (fm_Header c) k" "length (fm_bytes (fm_Header c) k) \<le> MAX_LENGTH"
  shows "encodeUnsealedHeader c h = encodeUnsealedHeader c k \<longleftrightarrow> k = h\<lparr>hd_seal := hd_seal k\<rparr>"
  using unsealed_determines [OF assms] .

lemma empty_header:
  "fm_valid (fm_Header tiny_data) (header_empty\<lparr>hd_seal := replicate 96 x\<rparr>) \<and>
    length (fm_bytes (fm_Header tiny_data) (header_empty\<lparr>hd_seal := replicate 96 x\<rparr>)) \<le> MAX_LENGTH"
  using extra_bytes_le [of 0]
  by (simp add: header_empty_def fm_Header_def fm_class_def fm_field_def fm_fixed_def fm_end_def fm_seq_def fm_nat_le_def
      fm_option_def bytes_zero_def default_range_def prefixed_def MAX_LENGTH_def HASH_SIZE_def BANDERSNATCH_VRF_SIGNATURE_BYTES_def)

theorem unsealed_header_witness:
  "encodeUnsealedHeader tiny_data (header_empty\<lparr>hd_seal := replicate 96 1\<rparr>) =
    encodeUnsealedHeader tiny_data (header_empty\<lparr>hd_seal := replicate 96 2\<rparr>)"
  using unsealed_header [of tiny_data "header_empty\<lparr>hd_seal := replicate 96 1\<rparr>" "header_empty\<lparr>hd_seal := replicate 96 2\<rparr>"]
    empty_header [of 1] empty_header [of 2] by simp

section \<open>Decoding foreign bytes\<close>

text \<open>C30: whatever block is decoded from any bytes is well formed: every field fits its type, and the numbers of
  tickets, guarantees, credentials, assurances and votes are those that the chain parameters allow.\<close>

theorem decoded_block:
  assumes "decodeObject (decode (codec_Block c)) src = Inr b"
  shows "fm_valid (fm_Block c) b \<and> length (et_tickets (bk_extrinsic b)) \<le> maxTicketsPerExtrinsic c \<and>
    length (et_guarantees (bk_extrinsic b)) \<le> coresCount c \<and> length (et_assurances (bk_extrinsic b)) \<le> validatorsCount c \<and>
    (\<forall>g \<in> set (et_guarantees (bk_extrinsic b)). wr_coreIndex (gu_report g) < 2 ^ 16 \<and> 2 \<le> length (gu_credentials g) \<and> length (gu_credentials g) \<le> 3) \<and>
    (\<forall>a \<in> set (et_assurances (bk_extrinsic b)). bitLength (as_bitfield a) = coresCount c) \<and>
    (\<forall>v \<in> set (dx_verdicts (et_disputes (bk_extrinsic b))). length (ve_votes v) = validatorsSuperMajority c)"
proof -
  obtain d' where "decode (codec_Block c) (dec_fromBlob src) = Inr (b, d')"
    using assms by (auto simp: decodeObject_def dec_object_def bindE_Inr_iff)
  with Block_typed have v: "fm_valid (fm_Block c) b" by (auto simp: typed_def)
  then have e: "fm_valid (fm_Extrinsic c) (bk_extrinsic b)" by (simp add: fm_Block_def fm_class_def fm_field_def)
  then have seqs: "length (et_tickets (bk_extrinsic b)) \<le> maxTicketsPerExtrinsic c"
    "length (et_guarantees (bk_extrinsic b)) \<le> coresCount c" "length (et_assurances (bk_extrinsic b)) \<le> validatorsCount c"
    and all: "\<forall>g \<in> set (et_guarantees (bk_extrinsic b)). fm_valid fm_ReportGuarantee g"
    "\<forall>a \<in> set (et_assurances (bk_extrinsic b)). fm_valid (fm_AvailabilityAssurance c) a"
    "\<forall>v \<in> set (dx_verdicts (et_disputes (bk_extrinsic b))). fm_valid (fm_Verdict c) v"
    by (simp_all add: fm_Extrinsic_def fm_DisputesExtrinsic_def fm_class_def fm_field_def fm_seq_def list_all_iff)
  have g: "wr_coreIndex (gu_report g) < 2 ^ 16 \<and> 2 \<le> length (gu_credentials g) \<and> length (gu_credentials g) \<le> 3"
    if "fm_valid fm_ReportGuarantee g" for g
    using that by (simp add: fm_ReportGuarantee_def fm_WorkReport_def fm_class_def fm_field_def fm_varnat_def fm_seq_def REQUIRED_CREDENTIALS_RANGE_def)
  have a: "bitLength (as_bitfield a) = coresCount c" if "fm_valid (fm_AvailabilityAssurance c) a" for a
    using that by (simp add: fm_AvailabilityAssurance_def fm_class_def fm_field_def fm_bits_def)
  have w: "length (ve_votes x) = validatorsSuperMajority c" if "fm_valid (fm_Verdict c) x" for x
    using that by (simp add: fm_Verdict_def fm_class_def fm_field_def fm_array_def)
  show ?thesis using v seqs all g a w by blast
qed

theorem decoded_block_witness:
  "\<exists>src. decodeObject (decode (codec_Block tiny_data)) src = Inr (emptyBlock 7) \<and> fm_valid (fm_Block tiny_data) (emptyBlock 7)"
proof -
  obtain src where "decodeObject (decode (codec_Block tiny_data)) src = Inr (emptyBlock 7)"
    using implements_round_trip [OF Block_rule emptyBlock_valid emptyBlock_length] by (auto simp: bindE_Inr_iff)
  with decoded_block [OF this] show ?thesis by blast
qed

end
