(* ===== verification/Preimages.thy ===== *)
theory Preimages
  imports ServiceState ChainTypes JsCollections
begin

text \<open>
  The integration of preimages, \<open>packages/jam/transition/preimages.ts\<close>: which preimages of a block are
  accepted, and the update that the state is asked to apply. Ids of services are numbers of the block and of
  the state, so \<open>int\<close> converts between them.
\<close>

datatype preimages_error = PreimageUnneeded | PreimagesNotSortedUnique | AccountNotFound

type_synonym pending_changes = "(service_id, update_preimage list) jsmap"

definition out_of_order :: "preimage \<Rightarrow> preimage \<Rightarrow> bool" where
  "out_of_order prevPreimage currPreimage \<longleftrightarrow>
    \<not> pr_requester prevPreimage < pr_requester currPreimage \<and>
    (pr_requester prevPreimage > pr_requester currPreimage \<or>
     isLessOrEqual (blob_compare (pr_blob currPreimage) (pr_blob prevPreimage)))"

definition integrate_preimage ::
    "(blob \<Rightarrow> blob) \<Rightarrow> services \<Rightarrow> time_slot \<Rightarrow> preimage \<Rightarrow> pending_changes \<Rightarrow> (preimages_error, pending_changes) outcome" where
  "integrate_preimage H svcs slot preimage pendingChanges =
    (let requester = int (pr_requester preimage); b = pr_blob preimage; h = H b in
     case jm_get svcs requester of
       None \<Rightarrow> Inl (Failed AccountNotFound)
     | Some service \<Rightarrow>
         let hasPreimage = sv_hasPreimage service h in
         bindE (lift_throws (tryAsU32 (int (length b)))) (\<lambda>len.
         let slots = sv_getLookupHistory service h len in
         if hasPreimage \<or> slots = None \<or> \<not> isRequested (the slots) then Inl (Failed PreimageUnneeded)
         else
           let updates = jm_get_or pendingChanges requester [] @
                 [UP_Provide \<lparr>pi_hash = h, pi_blob = b\<rparr> (Some slot) requester]
           in Inr (jm_set pendingChanges requester updates)))"

definition integrate :: "(blob \<Rightarrow> blob) \<Rightarrow> services \<Rightarrow> preimage list \<Rightarrow> time_slot \<Rightarrow> (preimages_error, pending_changes) outcome" where
  "integrate H svcs preimages slot =
    (if \<exists>i \<in> set [1..<length preimages]. out_of_order (preimages ! (i - 1)) (preimages ! i)
     then Inl (Failed PreimagesNotSortedUnique)
     else foldE (integrate_preimage H svcs slot) preimages [])"

section \<open>What is accepted\<close>

lemma adjacent_iff:
  assumes "transp (\<lambda>x y. \<not> Q x y)"
  shows "\<not> (\<exists>i \<in> set [1..<length xs]. Q (xs ! (i - 1)) (xs ! i)) \<longleftrightarrow> sorted_wrt (\<lambda>x y. \<not> Q x y) xs" (is "?l \<longleftrightarrow> _")
proof -
  have "?l \<longleftrightarrow> (\<forall>i. Suc i < length xs \<longrightarrow> \<not> Q (xs ! i) (xs ! Suc i))"
  proof
    assume l: ?l
    show "\<forall>i. Suc i < length xs \<longrightarrow> \<not> Q (xs ! i) (xs ! Suc i)"
    proof (intro allI impI)
      fix i assume "Suc i < length xs"
      then have "Suc i \<in> set [1..<length xs]" by simp
      with l show "\<not> Q (xs ! i) (xs ! Suc i)" by (metis diff_Suc_1)
    qed
  next
    assume r: "\<forall>i. Suc i < length xs \<longrightarrow> \<not> Q (xs ! i) (xs ! Suc i)"
    show ?l
    proof
      assume "\<exists>i \<in> set [1..<length xs]. Q (xs ! (i - 1)) (xs ! i)"
      then obtain i where "1 \<le> i" "i < length xs" "Q (xs ! (i - 1)) (xs ! i)" by auto
      with spec [OF r, of "i - 1"] show False by simp
    qed
  qed
  then show ?thesis by (simp add: sorted_wrt_iff_nth_Suc_transp [OF assms])
qed

text \<open>Ordered by service, then by blob, without repetition; each one requested by its service and missing.\<close>

definition before :: "preimage \<Rightarrow> preimage \<Rightarrow> bool" where
  "before p q \<longleftrightarrow> pr_requester p < pr_requester q \<or>
    pr_requester p = pr_requester q \<and> blob_compare (pr_blob p) (pr_blob q) = Less"

definition needed :: "(blob \<Rightarrow> blob) \<Rightarrow> services \<Rightarrow> preimage \<Rightarrow> bool" where
  "needed H svcs p \<longleftrightarrow> (\<exists>service. jm_get svcs (int (pr_requester p)) = Some service \<and>
    \<not> sv_hasPreimage service (H (pr_blob p)) \<and>
    sv_getLookupHistory service (H (pr_blob p)) (int (length (pr_blob p))) = Some [])"

definition provide :: "(blob \<Rightarrow> blob) \<Rightarrow> time_slot \<Rightarrow> preimage \<Rightarrow> update_preimage" where
  "provide H slot p = UP_Provide \<lparr>pi_hash = H (pr_blob p), pi_blob = pr_blob p\<rparr> (Some slot) (int (pr_requester p))"

definition small_preimages :: "preimage list \<Rightarrow> bool" where
  "small_preimages ps \<longleftrightarrow> (\<forall>p \<in> set ps. length (pr_blob p) < 2 ^ 32)"

lemma out_of_order_iff: "out_of_order p q \<longleftrightarrow> \<not> before p q"
  unfolding out_of_order_def before_def using blob_compare_swap [of "pr_blob p" "pr_blob q"] by auto

lemma transp_before: "transp before"
proof (rule transpI)
  fix p q r assume "before p q" "before q r"
  then show "before p r"
    using blob_cmp.less_trans_weak [of "pr_blob p" "pr_blob q" "pr_blob r"] unfolding before_def by auto
qed

lemma integrate_order: "(\<exists>i \<in> set [1..<length ps]. out_of_order (ps ! (i - 1)) (ps ! i)) \<longleftrightarrow> \<not> sorted_wrt before ps"
  using adjacent_iff [of out_of_order ps] transp_before by (simp add: out_of_order_iff) blast

lemma integrate_preimage_eq:
  assumes "length (pr_blob p) < 2 ^ 32"
  shows "(\<exists>r. integrate_preimage H svcs slot p pending = Inr r) \<longleftrightarrow> needed H svcs p"
    and "integrate_preimage H svcs slot p pending = Inr r \<Longrightarrow>
      r = jm_set pending (int (pr_requester p)) (jm_get_or pending (int (pr_requester p)) [] @ [provide H slot p])"
proof -
  have len: "tryAsU32 (int (length (pr_blob p))) = Inr (int (length (pr_blob p)))"
    using assms by (simp add: tryAsU32_def isU32_iff)
  show "(\<exists>r. integrate_preimage H svcs slot p pending = Inr r) \<longleftrightarrow> needed H svcs p"
    by (auto simp: integrate_preimage_def needed_def Let_def len isRequested_def split: option.split)
  show "integrate_preimage H svcs slot p pending = Inr r \<Longrightarrow>
      r = jm_set pending (int (pr_requester p)) (jm_get_or pending (int (pr_requester p)) [] @ [provide H slot p])"
    by (auto simp: integrate_preimage_def provide_def Let_def len split: option.splits if_splits)
qed

lemma integrate_fold:
  assumes "small_preimages ps"
  shows "(\<exists>r. foldE (integrate_preimage H svcs slot) ps pending = Inr r) \<longleftrightarrow> (\<forall>p \<in> set ps. needed H svcs p)"
    and "foldE (integrate_preimage H svcs slot) ps pending = Inr r \<Longrightarrow>
      (distinct (map fst pending) \<longrightarrow> distinct (map fst r)) \<and>
      (\<forall>s. let us = map (provide H slot) (filter (\<lambda>p. int (pr_requester p) = s) ps) in
        jm_get r s = (if us = [] then jm_get pending s else Some (jm_get_or pending s [] @ us)))"
proof -
  have "(\<exists>r. foldE (integrate_preimage H svcs slot) ps pending = Inr r) \<longleftrightarrow> (\<forall>p \<in> set ps. needed H svcs p)"
    using assms
  proof (induction ps arbitrary: pending)
    case (Cons p ps)
    then have p: "length (pr_blob p) < 2 ^ 32" and ps: "small_preimages ps" by (simp_all add: small_preimages_def)
    from integrate_preimage_eq(1) [OF p] Cons.IH [OF ps] show ?case by (simp add: bindE_Inr_iff) blast
  qed simp
  then show "(\<exists>r. foldE (integrate_preimage H svcs slot) ps pending = Inr r) \<longleftrightarrow> (\<forall>p \<in> set ps. needed H svcs p)" .
  show "(distinct (map fst pending) \<longrightarrow> distinct (map fst r)) \<and>
      (\<forall>s. let us = map (provide H slot) (filter (\<lambda>p. int (pr_requester p) = s) ps) in
        jm_get r s = (if us = [] then jm_get pending s else Some (jm_get_or pending s [] @ us)))"
    if "foldE (integrate_preimage H svcs slot) ps pending = Inr r"
    using assms that
  proof (induction ps arbitrary: pending)
    case Nil
    then show ?case by simp
  next
    case (Cons p ps)
    let ?s = "int (pr_requester p)"
    let ?pending = "jm_set pending ?s (jm_get_or pending ?s [] @ [provide H slot p])"
    from Cons.prems have p: "length (pr_blob p) < 2 ^ 32" and ps: "small_preimages ps"
      by (simp_all add: small_preimages_def)
    from Cons.prems(2) obtain q where q: "integrate_preimage H svcs slot p pending = Inr q"
      "foldE (integrate_preimage H svcs slot) ps q = Inr r" by (auto simp: bindE_Inr_iff)
    have "foldE (integrate_preimage H svcs slot) ps ?pending = Inr r"
      using q integrate_preimage_eq(2) [OF p q(1)] by simp
    from Cons.IH [OF ps this] show ?case
      by (auto simp: Let_def jm_get_or_def distinct_update)
  qed
qed

section \<open>What applying the update does\<close>

lemma updatePreimages_all:
  assumes "distinct (map fst pending)"
    "\<And>s us. (s, us) \<in> set pending \<Longrightarrow> \<exists>sv sv'. jm_get svcs s = Some sv \<and> updatePreimages_of sv us = (sv', Inr ())"
  shows "\<exists>svcs'. updatePreimages svcs pending = (svcs', Inr ()) \<and>
    (\<forall>s. jm_get svcs' s = (case map_of pending s of None \<Rightarrow> jm_get svcs s
      | Some us \<Rightarrow> map_option (\<lambda>sv. fst (updatePreimages_of sv us)) (jm_get svcs s)))"
  using assms
proof (induction pending arbitrary: svcs)
  case (Cons e pending)
  obtain s us where e: "e = (s, us)" by (cases e)
  from Cons.prems(2) [of s us] obtain sv sv' where sv: "jm_get svcs s = Some sv" "updatePreimages_of sv us = (sv', Inr ())"
    by (auto simp: e)
  have fresh: "s \<notin> fst ` set pending" using Cons.prems(1) by (simp add: e)
  have "\<exists>sv sv''. jm_get (jm_set svcs s sv') t = Some sv \<and> updatePreimages_of sv vs = (sv'', Inr ())"
    if "(t, vs) \<in> set pending" for t vs
  proof -
    have "t \<noteq> s" using that fresh by force
    with Cons.prems(2) [of t vs] that show ?thesis by simp
  qed
  then have others: "\<And>t vs. (t, vs) \<in> set pending \<Longrightarrow>
      \<exists>sv sv''. jm_get (jm_set svcs s sv') t = Some sv \<and> updatePreimages_of sv vs = (sv'', Inr ())" by blast
  from Cons.prems(1) have dist: "distinct (map fst pending)" by (simp add: e)
  from Cons.IH [OF dist others] obtain svcs' where "updatePreimages (jm_set svcs s sv') pending = (svcs', Inr ())"
    "\<forall>t. jm_get svcs' t = (case map_of pending t of None \<Rightarrow> jm_get (jm_set svcs s sv') t
      | Some us \<Rightarrow> map_option (\<lambda>sv. fst (updatePreimages_of sv us)) (jm_get (jm_set svcs s sv') t))"
    by blast
  moreover have "map_of pending s = None" using fresh by (simp add: map_of_eq_None_iff)
  ultimately show ?case by (auto simp: e sv split: option.split)
qed simp

text \<open>Each preimage is there under its hash, and its request has been answered in this slot.\<close>

definition provided :: "(blob \<Rightarrow> blob) \<Rightarrow> time_slot \<Rightarrow> preimage list \<Rightarrow> in_memory_service \<Rightarrow> in_memory_service \<Rightarrow> bool" where
  "provided H slot qs sv sv' \<longleftrightarrow> sd_info sv' = sd_info sv \<and> sd_storage sv' = sd_storage sv \<and>
    (\<forall>q \<in> set qs. sv_getPreimage sv' (H (pr_blob q)) = Some (pr_blob q) \<and>
      sv_getLookupHistory sv' (H (pr_blob q)) (int (length (pr_blob q))) = Some [slot]) \<and>
    (\<forall>h. (\<forall>q \<in> set qs. H (pr_blob q) \<noteq> h) \<longrightarrow> sv_getPreimage sv' h = sv_getPreimage sv h) \<and>
    (\<forall>h len. (\<forall>q \<in> set qs. H (pr_blob q) \<noteq> h \<or> int (length (pr_blob q)) \<noteq> len) \<longrightarrow>
      sv_getLookupHistory sv' h len = sv_getLookupHistory sv h len)"

lemma find_set_lookup:
  "List.find (\<lambda>x. li_length x = len) (set_lookup lookup items) =
    (if len = li_length lookup then Some lookup else List.find (\<lambda>x. li_length x = len) items)"
  using find_splice_same [of "\<lambda>x. li_length x = li_length lookup" lookup items]
    find_splice_key [of li_length lookup "li_length lookup" len items] by (simp add: set_lookup_def)

lemma provide_one:
  assumes "\<not> sv_hasPreimage sv (H (pr_blob q))" "sv_getLookupHistory sv (H (pr_blob q)) (int (length (pr_blob q))) = Some xs"
  shows "\<exists>sv'. updatePreimage sv (provide H slot q) = Inr sv' \<and> provided H slot [q] sv sv' \<and>
    (\<forall>h. sv_hasPreimage sv' h \<longleftrightarrow> h = H (pr_blob q) \<or> sv_hasPreimage sv h)"
proof -
  let ?h = "H (pr_blob q)" and ?lookup = "\<lparr>li_hash = H (pr_blob q), li_length = int (length (pr_blob q)), li_slots = [slot]\<rparr>"
  obtain items where items: "jm_get (sd_lookupHistory sv) ?h = Some items"
    using assms(2) by (auto simp: sv_getLookupHistory_def split: option.splits)
  have ok: "updatePreimage sv (provide H slot q) = Inr (sv\<lparr>
      sd_preimages := jm_set (sd_preimages sv) ?h \<lparr>pi_hash = ?h, pi_blob = pr_blob q\<rparr>,
      sd_lookupHistory := jm_set (sd_lookupHistory sv) ?h (set_lookup ?lookup items)\<rparr>)"
    using assms(1) items
    by (simp add: provide_def sv_hasPreimage_def Let_def tryAsLookupHistorySlots_def MAX_LOOKUP_HISTORY_SLOTS_def)
  moreover have "List.find (\<lambda>x. li_length x = len) (set_lookup ?lookup items) =
      (if len = int (length (pr_blob q)) then Some ?lookup else List.find (\<lambda>x. li_length x = len) items)" for len
    by (simp add: find_set_lookup)
  ultimately show ?thesis unfolding ok
    by (auto simp: provided_def sv_getPreimage_def sv_getLookupHistory_def sv_hasPreimage_def items)
qed

lemma provided_Cons:
  assumes "provided H slot [q] sv sv1" "provided H slot qs sv1 sv2" "\<forall>p \<in> set qs. H (pr_blob p) \<noteq> H (pr_blob q)"
  shows "provided H slot (q # qs) sv sv2"
  using assms unfolding provided_def by simp

lemma provide_all:
  assumes "distinct (map (H \<circ> pr_blob) qs)"
    "\<forall>q \<in> set qs. \<not> sv_hasPreimage sv (H (pr_blob q)) \<and>
      sv_getLookupHistory sv (H (pr_blob q)) (int (length (pr_blob q))) = Some []"
  shows "\<exists>sv'. updatePreimages_of sv (map (provide H slot) qs) = (sv', Inr ()) \<and> provided H slot qs sv sv'"
  using assms
proof (induction qs arbitrary: sv)
  case Nil
  then show ?case by (simp add: provided_def)
next
  case (Cons q qs)
  then obtain sv1 where sv1: "updatePreimage sv (provide H slot q) = Inr sv1" "provided H slot [q] sv sv1"
    "\<forall>h. sv_hasPreimage sv1 h \<longleftrightarrow> h = H (pr_blob q) \<or> sv_hasPreimage sv h"
    using provide_one [of sv H q "[]" slot] by auto
  have fresh: "\<forall>p \<in> set qs. H (pr_blob p) \<noteq> H (pr_blob q)" using Cons.prems(1) by (auto simp: image_iff)
  have "\<forall>p \<in> set qs. \<not> sv_hasPreimage sv1 (H (pr_blob p)) \<and>
      sv_getLookupHistory sv1 (H (pr_blob p)) (int (length (pr_blob p))) = Some []"
    using Cons.prems(2) sv1(2,3) fresh by (auto simp: provided_def)
  with Cons.IH [of sv1] Cons.prems(1) obtain sv2 where
    "updatePreimages_of sv1 (map (provide H slot) qs) = (sv2, Inr ())" "provided H slot qs sv1 sv2" by auto
  then show ?case using sv1(1) provided_Cons [OF sv1(2) _ fresh] by auto
qed

definition requests :: "preimage list \<Rightarrow> service_id \<Rightarrow> preimage list" where
  "requests ps s = filter (\<lambda>p. int (pr_requester p) = s) ps"

definition no_collision :: "(blob \<Rightarrow> blob) \<Rightarrow> preimage list \<Rightarrow> bool" where
  "no_collision H ps \<longleftrightarrow> inj_on H (pr_blob ` set ps)"

lemma before_distinct:
  assumes "sorted_wrt before ps" "no_collision H ps"
  shows "distinct (map (H \<circ> pr_blob) (requests ps s))"
proof -
  have "sorted_wrt (\<lambda>p q. pr_blob p \<noteq> pr_blob q) (requests ps s)"
    unfolding requests_def
    by (rule sorted_wrt_mono_rel [OF _ sorted_wrt_filter [OF assms(1)]]) (auto simp: before_def blob_cmp.cmp_refl)
  then have "distinct (map pr_blob (requests ps s))" by (simp add: distinct_conv_nth sorted_wrt_iff_nth_less)
    (metis linorder_neqE_nat)
  moreover have "inj_on H (set (map pr_blob (requests ps s)))"
    using assms(2) by (auto simp: no_collision_def requests_def intro: inj_on_subset)
  ultimately show ?thesis by (simp add: distinct_map flip: map_map)
qed

lemma integrate_eq: "integrate H svcs ps slot =
    (if sorted_wrt before ps then foldE (integrate_preimage H svcs slot) ps [] else Inl (Failed PreimagesNotSortedUnique))"
  unfolding integrate_def integrate_order by simp

lemma integrate_accepts:
  assumes "small_preimages ps"
  shows "(\<exists>r. integrate H svcs ps slot = Inr r) \<longleftrightarrow> sorted_wrt before ps \<and> (\<forall>p \<in> set ps. needed H svcs p)"
  using integrate_fold(1) [OF assms] by (simp add: integrate_eq)

lemma integrate_applied:
  assumes "small_preimages ps" "no_collision H ps" "integrate H svcs ps slot = Inr pending"
  shows "\<exists>svcs'. updatePreimages svcs pending = (svcs', Inr ()) \<and>
    (\<forall>s. rel_option (provided H slot (requests ps s)) (jm_get svcs s) (jm_get svcs' s))"
proof -
  from assms(3) have sorted: "sorted_wrt before ps" and f: "foldE (integrate_preimage H svcs slot) ps [] = Inr pending"
    by (auto simp: integrate_eq split: if_splits)
  have needed: "\<forall>p \<in> set ps. needed H svcs p" using integrate_fold(1) [OF assms(1)] f by blast
  have pending: "distinct (map fst pending)"
    "jm_get pending s = (if requests ps s = [] then None else Some (map (provide H slot) (requests ps s)))" for s
    using integrate_fold(2) [OF assms(1) f] by (simp_all add: Let_def requests_def jm_get_or_def)
  have one: "\<exists>sv'. updatePreimages_of sv (map (provide H slot) (requests ps s)) = (sv', Inr ()) \<and>
      provided H slot (requests ps s) sv sv'" if "jm_get svcs s = Some sv" for s sv
    by (rule provide_all [OF before_distinct [OF sorted assms(2)]])
      (use needed that in \<open>auto simp: needed_def requests_def\<close>)
  have "\<exists>sv sv'. jm_get svcs s = Some sv \<and> updatePreimages_of sv us = (sv', Inr ())" if "(s, us) \<in> set pending" for s us
  proof -
    have us: "us = map (provide H slot) (requests ps s)" "requests ps s \<noteq> []"
      using pending(2) [of s] pending(1) that by (auto split: if_splits)
    then obtain p where "p \<in> set ps" "int (pr_requester p) = s" by (auto simp: requests_def filter_empty_conv)
    with needed obtain sv where "jm_get svcs s = Some sv" by (auto simp: needed_def)
    with one [OF this] us show ?thesis by blast
  qed
  from updatePreimages_all [OF pending(1) this] obtain svcs' where svcs': "updatePreimages svcs pending = (svcs', Inr ())"
    "\<forall>s. jm_get svcs' s = (case jm_get pending s of None \<Rightarrow> jm_get svcs s
      | Some us \<Rightarrow> map_option (\<lambda>sv. fst (updatePreimages_of sv us)) (jm_get svcs s))" by blast
  have "rel_option (provided H slot (requests ps s)) (jm_get svcs s) (jm_get svcs' s)" for s
  proof (cases "jm_get svcs s")
    case None
    then show ?thesis using svcs'(2) by (simp split: option.split)
  next
    case (Some sv)
    with one [OF this] svcs'(2) pending(2) [of s] show ?thesis by (auto simp: provided_def)
  qed
  with svcs'(1) show ?thesis by blast
qed

end
