(* ===== verification/Authorization.thy ===== *)
theory Authorization
  imports ChainTypes ServiceState JsCollections
begin

text \<open>
  The authorization pools, \<open>packages/jam/transition/authorization.ts\<close>. The used authorizers come as a map from
  cores to hash sets (lists without repetition), from which the filter deletes what it has met. The queues are
  fixed-size arrays of \<open>AUTHORIZATION_QUEUE_SIZE\<close> entries, so the index modulo that size is in range.
\<close>

definition MAX_AUTH_POOL_SIZE :: nat where "MAX_AUTH_POOL_SIZE = 8"
definition AUTHORIZATION_QUEUE_SIZE :: nat where "AUTHORIZATION_QUEUE_SIZE = 80"

record authorization_state =
  au_authPools :: "blob list list"
  au_authQueues :: "blob list list"

record authorization_input =
  an_slot :: nat
  an_used :: "(nat, blob list) jsmap"

fun remove_used :: "'a list \<Rightarrow> 'a list \<Rightarrow> 'a list" where
  "remove_used [] usedHashes = []"
| "remove_used (x # pool) usedHashes =
    (if x \<in> set usedHashes then remove_used pool (removeAll x usedHashes) else x # remove_used pool usedHashes)"

function shift_excess :: "'a list \<Rightarrow> 'a list" where
  "shift_excess pool = (if length pool > MAX_AUTH_POOL_SIZE then shift_excess (tl pool) else pool)"
  by pat_completeness auto
termination by (relation "measure length") (auto simp: MAX_AUTH_POOL_SIZE_def)

declare shift_excess.simps [simp del]

definition transition_core :: "authorization_state \<Rightarrow> authorization_input \<Rightarrow> nat \<Rightarrow> blob list list \<Rightarrow> blob list list throws" where
  "transition_core st inp coreIndex authPoolsUpdate =
    (if coreIndex < length authPoolsUpdate \<and> coreIndex < length (au_authQueues st) then
       let pool = authPoolsUpdate ! coreIndex; queue = au_authQueues st ! coreIndex;
           pool = (case jm_get (an_used inp) coreIndex of None \<Rightarrow> pool | Some usedHashes \<Rightarrow> remove_used pool usedHashes);
           pool = pool @ [queue ! (an_slot inp mod AUTHORIZATION_QUEUE_SIZE)]
       in Inr (authPoolsUpdate[coreIndex := shift_excess pool])
     else Inl TypeError)"

definition authorization_transition :: "chain_spec \<Rightarrow> authorization_state \<Rightarrow> authorization_input \<Rightarrow> blob list list throws" where
  "authorization_transition spec st inp =
    bindE (foldE (transition_core st inp) [0..<coresCount spec] (au_authPools st)) (\<lambda>pools. tryAsPerCore pools spec)"

section \<open>What the transition does\<close>

lemma fold_remove1_Cons:
  "fold remove1 used (x # pool) = (if x \<in> set used then fold remove1 (remove1 x used) pool else x # fold remove1 used pool)"
proof (induction used arbitrary: pool)
  case (Cons u used)
  then show ?case by (cases "u = x") auto
qed simp

lemma remove_used_eq: "distinct used \<Longrightarrow> remove_used pool used = fold remove1 used pool"
proof (induction pool arbitrary: used)
  case Nil
  then show ?case by (induction used) auto
next
  case (Cons x pool)
  then show ?case using fold_remove1_Cons [of used x pool] by (simp add: distinct_remove1_removeAll distinct_removeAll)
qed

lemma shift_excess_eq: "shift_excess pool = drop (length pool - MAX_AUTH_POOL_SIZE) pool"
proof (induction pool rule: shift_excess.induct)
  case (1 pool)
  then show ?case
    by (subst shift_excess.simps) (cases pool, auto simp: drop_Cons' MAX_AUTH_POOL_SIZE_def)
qed

text \<open>The pool after a block: each used authorizer is taken out once, the one the queue has for the slot is added,
  and of more than eight the oldest go.\<close>

definition pool_after :: "authorization_state \<Rightarrow> authorization_input \<Rightarrow> nat \<Rightarrow> blob list" where
  "pool_after st inp c =
    (let pool = fold remove1 (jm_get_or (an_used inp) c []) (au_authPools st ! c) @ [au_authQueues st ! c ! (an_slot inp mod 80)]
     in drop (length pool - 8) pool)"

definition wf_authorization :: "chain_spec \<Rightarrow> authorization_state \<Rightarrow> authorization_input \<Rightarrow> bool" where
  "wf_authorization spec st inp \<longleftrightarrow> length (au_authPools st) = coresCount spec \<and> length (au_authQueues st) = coresCount spec \<and>
    (\<forall>q \<in> set (au_authQueues st). length q = AUTHORIZATION_QUEUE_SIZE) \<and> (\<forall>(c, used) \<in> set (an_used inp). distinct used)"

lemma transition_core_eq:
  assumes "c < length pools" "c < length (au_authQueues st)" "\<forall>(c, used) \<in> set (an_used inp). distinct used"
    "pools ! c = au_authPools st ! c"
  shows "transition_core st inp c pools = Inr (pools[c := pool_after st inp c])"
proof -
  have "distinct used" if "jm_get (an_used inp) c = Some used" for used
    using assms(3) map_of_SomeD [OF that] by blast
  then show ?thesis
    using assms by (simp add: transition_core_def pool_after_def Let_def remove_used_eq shift_excess_eq jm_get_or_def
        MAX_AUTH_POOL_SIZE_def AUTHORIZATION_QUEUE_SIZE_def split: option.split)
qed

lemma authorization_fold:
  assumes "\<forall>(c, used) \<in> set (an_used inp). distinct used" "length (au_authQueues st) = n" "length (au_authPools st) = n" "k \<le> n"
  shows "foldE (transition_core st inp) [0..<k] (au_authPools st) =
    Inr (map (\<lambda>c. if c < k then pool_after st inp c else au_authPools st ! c) [0..<n])"
  using assms(4)
proof (induction k)
  case 0
  have "map (\<lambda>c. au_authPools st ! c) [0..<n] = au_authPools st" using assms(3) map_nth by blast
  then show ?case by simp
next
  case (Suc k)
  let ?pools = "map (\<lambda>c. if c < k then pool_after st inp c else au_authPools st ! c) [0..<n]"
  have "transition_core st inp k ?pools = Inr (?pools[k := pool_after st inp k])"
    by (rule transition_core_eq) (use Suc.prems assms in auto)
  moreover have "?pools[k := pool_after st inp k] = map (\<lambda>c. if c < Suc k then pool_after st inp c else au_authPools st ! c) [0..<n]"
    by (rule nth_equalityI) (auto simp: nth_list_update less_Suc_eq)
  ultimately show ?case using Suc by (simp add: foldE_snoc)
qed

lemma authorization_transition_eq:
  assumes "wf_authorization spec st inp"
  shows "authorization_transition spec st inp = Inr (map (pool_after st inp) [0..<coresCount spec])"
proof -
  have "foldE (transition_core st inp) [0..<coresCount spec] (au_authPools st) = Inr (map (pool_after st inp) [0..<coresCount spec])"
    by (subst authorization_fold [where n = "coresCount spec"]) (use assms in \<open>auto simp: wf_authorization_def intro!: map_cong\<close>)
  then show ?thesis by (simp add: authorization_transition_def tryAsPerCore_def)
qed

lemma pool_after_facts:
  "length (pool_after st inp c) \<le> 8" "last (pool_after st inp c) = au_authQueues st ! c ! (an_slot inp mod 80)"
  by (simp_all add: pool_after_def Let_def)

end
