(* ===== verification/RecentHistory.thy ===== *)
theory RecentHistory
  imports ChainTypes Mmr ServiceState
begin

text \<open>
  The recent history, \<open>packages/jam/transition/recent-history.ts\<close> with the records of \<open>state/recent-blocks.ts\<close>.
  The partial transition assigns to the last block object, which the state shares with the returned update, so it
  gives both. The hashes of two nodes and of two peaks are arguments.
\<close>

definition MAX_RECENT_HISTORY :: nat where "MAX_RECENT_HISTORY = 8"

record block_state =
  bs_headerHash :: blob
  bs_accumulationResult :: blob
  bs_postStateRoot :: blob
  bs_reported :: "(blob, work_package_info) jsmap"

record recent_blocks =
  rb_blocks :: "block_state list"
  rb_accumulationLog :: "blob option list"

record recent_history_input =
  rh_partial :: recent_blocks
  rh_headerHash :: blob
  rh_accumulateRoot :: blob
  rh_workPackages :: "(blob, work_package_info) jsmap"

definition recentBlocks_empty :: recent_blocks where
  "recentBlocks_empty = \<lparr>rb_blocks = [], rb_accumulationLog = []\<rparr>"

definition partialTransition :: "recent_blocks \<Rightarrow> blob \<Rightarrow> recent_blocks \<times> recent_blocks" where
  "partialTransition stateBlocks priorStateRoot =
    (let blocks = rb_blocks stateBlocks;
         blocks = (if length blocks > 0
           then blocks[length blocks - 1 := (blocks ! (length blocks - 1))\<lparr>bs_postStateRoot := priorStateRoot\<rparr>] else blocks)
     in (stateBlocks\<lparr>rb_blocks := blocks\<rparr>, \<lparr>rb_blocks = blocks, rb_accumulationLog = rb_accumulationLog stateBlocks\<rparr>))"

text \<open>The result is \<open>None\<close> when \<open>getPeaks\<close> does not return.\<close>

definition history_transition ::
    "(blob \<Rightarrow> blob \<Rightarrow> blob) \<Rightarrow> (blob \<Rightarrow> blob \<Rightarrow> blob) \<Rightarrow> recent_blocks \<Rightarrow> recent_history_input \<Rightarrow> recent_blocks option" where
  "history_transition hashConcat hashPeaks stateBlocks inp =
    (let recentBlocks = rb_blocks (rh_partial inp);
         mmr = mmr_append hashConcat (rh_accumulateRoot inp) (fromPeaks (rb_accumulationLog stateBlocks))
     in case getPeaks mmr of None \<Rightarrow> None
      | Some peaks \<Rightarrow>
          let recentBlocks = recentBlocks @
                [\<lparr>bs_headerHash = rh_headerHash inp, bs_accumulationResult = getSuperPeakHash hashPeaks (bytes_zero 32) mmr,
                  bs_postStateRoot = bytes_zero 32, bs_reported = rh_workPackages inp\<rparr>];
              recentBlocks = (if length recentBlocks > MAX_RECENT_HISTORY then tl recentBlocks else recentBlocks)
          in Some \<lparr>rb_blocks = recentBlocks, rb_accumulationLog = peaks\<rparr>)"

text \<open>Both transitions of a block, as the chain runs them.\<close>

record history_block =
  hb_priorStateRoot :: blob
  hb_headerHash :: blob
  hb_accumulateRoot :: blob
  hb_workPackages :: "(blob, work_package_info) jsmap"

definition history_block_transition ::
    "(blob \<Rightarrow> blob \<Rightarrow> blob) \<Rightarrow> (blob \<Rightarrow> blob \<Rightarrow> blob) \<Rightarrow> history_block \<Rightarrow> recent_blocks \<Rightarrow> recent_blocks option" where
  "history_block_transition hashConcat hashPeaks b st =
    (let (st, part) = partialTransition st (hb_priorStateRoot b)
     in history_transition hashConcat hashPeaks st \<lparr>rh_partial = part, rh_headerHash = hb_headerHash b,
          rh_accumulateRoot = hb_accumulateRoot b, rh_workPackages = hb_workPackages b\<rparr>)"

fun history_run ::
    "(blob \<Rightarrow> blob \<Rightarrow> blob) \<Rightarrow> (blob \<Rightarrow> blob \<Rightarrow> blob) \<Rightarrow> history_block list \<Rightarrow> recent_blocks \<Rightarrow> recent_blocks option" where
  "history_run hashConcat hashPeaks [] st = Some st"
| "history_run hashConcat hashPeaks (b # bs) st =
    (case history_block_transition hashConcat hashPeaks b st of None \<Rightarrow> None | Some st \<Rightarrow> history_run hashConcat hashPeaks bs st)"

section \<open>The history of a chain\<close>

text \<open>The super-peak of a range: its peaks folded from the smallest.\<close>

definition super_peak :: "(blob \<Rightarrow> blob \<Rightarrow> blob) \<Rightarrow> blob option list \<Rightarrow> blob" where
  "super_peak hashPeaks ps = (case List.map_filter id ps of [] \<Rightarrow> bytes_zero 32 | h # hs \<Rightarrow> foldl hashPeaks h hs)"

text \<open>The entry of the \<open>n\<close>-th block (from 0) of a chain: its hash and packages, the super-peak of all accumulation
  roots so far, and the root of the state after it, once the next block has brought it.\<close>

definition entry :: "(blob \<Rightarrow> blob \<Rightarrow> blob) \<Rightarrow> (blob \<Rightarrow> blob \<Rightarrow> blob) \<Rightarrow> history_block list \<Rightarrow> nat \<Rightarrow> block_state" where
  "entry hashConcat hashPeaks bs n =
    \<lparr>bs_headerHash = hb_headerHash (bs ! n),
     bs_accumulationResult = super_peak hashPeaks (fold (append_peaks hashConcat) (map hb_accumulateRoot (take (Suc n) bs)) []),
     bs_postStateRoot = (if Suc n < length bs then hb_priorStateRoot (bs ! Suc n) else bytes_zero 32),
     bs_reported = hb_workPackages (bs ! n)\<rparr>"

definition history :: "(blob \<Rightarrow> blob \<Rightarrow> blob) \<Rightarrow> (blob \<Rightarrow> blob \<Rightarrow> blob) \<Rightarrow> history_block list \<Rightarrow> recent_blocks" where
  "history hashConcat hashPeaks bs =
    \<lparr>rb_blocks = map (entry hashConcat hashPeaks bs) [length bs - MAX_RECENT_HISTORY..<length bs],
     rb_accumulationLog = fold (append_peaks hashConcat) (map hb_accumulateRoot bs) []\<rparr>"

lemma history_run_snoc:
  "history_run f g (bs @ [b]) st = (case history_run f g bs st of None \<Rightarrow> None | Some st \<Rightarrow> history_block_transition f g b st)"
  by (induction bs arbitrary: st) (auto split: option.split)

lemma range_fromPeaks: "fromPeaks (fold (append_peaks H) xs []) = fold (mmr_append H) xs mmr_empty"
  by (simp add: mmr_append_fold)

text \<open>The entries of the blocks before the last do not change when a block is added, but for the state root of the last one.\<close>

lemma entry_append: "Suc n < length bs \<Longrightarrow> entry f g (bs @ [b]) n = entry f g bs n"
  by (auto simp: entry_def nth_append)

lemma entry_last: "entry f g (bs @ [c, b]) (length bs) = (entry f g (bs @ [c]) (length bs))\<lparr>bs_postStateRoot := hb_priorStateRoot b\<rparr>"
  by (simp add: entry_def nth_append)

lemma history_step:
  assumes "length bs < 2 ^ 31 - 1"
  shows "history_block_transition f g b (history f g bs) = Some (history f g (bs @ [b]))"
proof -
  let ?log = "fold (append_peaks f) (map hb_accumulateRoot bs) []"
  let ?log' = "fold (append_peaks f) (map hb_accumulateRoot (bs @ [b])) []"
  let ?from = "length bs - MAX_RECENT_HISTORY"
  let ?old = "map (entry f g bs) [?from..<length bs]"
  let ?new = "map (entry f g (bs @ [b])) [?from..<length bs]"
  have mmr: "mmr_append f (hb_accumulateRoot b) (fromPeaks ?log) = fromPeaks ?log'"
    by (simp add: mmr_append_eq)
  have peaks: "getPeaks (fromPeaks ?log') = Some ?log'"
    unfolding range_fromPeaks by (rule getPeaks_fold) (use assms in simp)
  have super: "getSuperPeakHash g (bytes_zero 32) (fromPeaks ?log') = super_peak g ?log'"
    by (simp add: getSuperPeakHash_fromPeaks super_peak_def)
  have blocks: "(if length ?old > 0
      then ?old[length ?old - 1 := (?old ! (length ?old - 1))\<lparr>bs_postStateRoot := hb_priorStateRoot b\<rparr>] else ?old) = ?new"
  proof (cases bs rule: rev_exhaust)
    case Nil
    then show ?thesis by simp
  next
    case (snoc cs c)
    let ?m = "length ?old - 1"
    have m: "?from + ?m = length cs" "0 < length ?old" using snoc by (auto simp: MAX_RECENT_HISTORY_def)
    show ?thesis
    proof (rule nth_equalityI)
      fix i assume i: "i < length (if length ?old > 0
        then ?old[?m := (?old ! ?m)\<lparr>bs_postStateRoot := hb_priorStateRoot b\<rparr>] else ?old)"
      then have i: "i < length ?old" by (auto split: if_splits)
      show "(if length ?old > 0 then ?old[?m := (?old ! ?m)\<lparr>bs_postStateRoot := hb_priorStateRoot b\<rparr>] else ?old) ! i = ?new ! i"
      proof (cases "i = ?m")
        case True
        then show ?thesis using i m entry_last [of f g cs c b] snoc by (simp del: upt_Suc)
      next
        case False
        with i m have "Suc (?from + i) < length bs" using snoc by (simp del: upt_Suc)
        with entry_append [OF this, of f g b] False i show ?thesis by simp
      qed
    qed simp
  qed
  let ?last = "\<lparr>bs_headerHash = hb_headerHash b, bs_accumulationResult = super_peak g ?log',
      bs_postStateRoot = bytes_zero 32, bs_reported = hb_workPackages b\<rparr>"
  have last: "?last = entry f g (bs @ [b]) (length bs)"
    by (simp add: entry_def)
  have new: "(if length (?new @ [?last]) > MAX_RECENT_HISTORY then tl (?new @ [?last]) else ?new @ [?last]) =
      map (entry f g (bs @ [b])) [length (bs @ [b]) - MAX_RECENT_HISTORY..<length (bs @ [b])]"
  proof -
    have all: "?new @ [?last] = map (entry f g (bs @ [b])) [?from..<Suc (length bs)]" unfolding last by simp
    have "tl [?from..<Suc (length bs)] = [Suc ?from..<Suc (length bs)]" by (rule tl_upt)
    then show ?thesis unfolding all map_tl [symmetric]
      by (simp add: MAX_RECENT_HISTORY_def del: upt_Suc) (auto simp: Suc_diff_le [symmetric] simp del: upt_Suc)
  qed
  have part: "partialTransition (history f g bs) (hb_priorStateRoot b) =
      (\<lparr>rb_blocks = ?new, rb_accumulationLog = ?log\<rparr>, \<lparr>rb_blocks = ?new, rb_accumulationLog = ?log\<rparr>)"
    unfolding partialTransition_def history_def Let_def recent_blocks.simps blocks ..
  show ?thesis
    unfolding history_block_transition_def part Let_def prod.case history_transition_def recent_blocks.simps
      recent_history_input.simps mmr peaks option.case super new
    unfolding history_def ..
qed

lemma history_empty: "history f g [] = recentBlocks_empty"
  by (simp add: history_def recentBlocks_empty_def)

lemma history_run_eq:
  "length bs < 2 ^ 31 \<Longrightarrow> history_run f g bs recentBlocks_empty = Some (history f g bs)"
proof (induction bs rule: rev_induct)
  case Nil
  then show ?case by (simp add: history_empty)
next
  case (snoc b bs)
  then show ?case using history_step [of bs f g b] by (simp add: history_run_snoc)
qed

lemma history_length: "length (rb_blocks (history f g bs)) = min (length bs) 8"
  by (simp add: history_def MAX_RECENT_HISTORY_def)

end
