(* ===== verification/Assurances.thy ===== *)
theory Assurances
  imports Disputes Bitvec
begin

text \<open>
  The assurances transition, \<open>packages/jam/transition/assurances.ts\<close>. The signatures are checked
  asynchronously: their errors count only where the promise is awaited, after the checks of anchors, order and
  pending reports. A view gives the encoded anchor and bit field, which are their bytes.
\<close>

datatype assurances_error = InvalidAnchor | InvalidOrder | InvalidSignature | NoReportPending | InvalidValidatorIndex

definition REPORT_TIMEOUT_GRACE_PERIOD :: nat where "REPORT_TIMEOUT_GRACE_PERIOD = 5"

record assurances_input =
  ai_assurances :: "availability_assurance list"
  ai_slot :: nat
  ai_parentHash :: blob
  ai_disputesAvailAssignment :: "availability_assignment option list"

record assurances_result =
  ar_availableReports :: "work_report list"
  ar_availabilityAssignment :: "availability_assignment option list"

definition JAM_AVAILABLE :: blob where "JAM_AVAILABLE = map of_char ''jam_available''"

definition signingPayload :: "(blob \<Rightarrow> blob) \<Rightarrow> blob \<Rightarrow> blob \<Rightarrow> blob" where
  "signingPayload H anchor b = blobFromParts [JAM_AVAILABLE, H (blobFromParts [anchor, b])]"

definition assurance_item :: "(blob \<Rightarrow> blob) \<Rightarrow> validator_data list \<Rightarrow> availability_assurance \<Rightarrow> (assurances_error, input_item) outcome" where
  "assurance_item H validatorData v =
    (case js_nth validatorData (as_validatorIndex v) of
       None \<Rightarrow> Inl (Failed InvalidValidatorIndex)
     | Some key \<Rightarrow> Inr \<lparr>in_key = vd_ed25519 key, in_signature = as_signature v,
         in_message = signingPayload H (as_anchor v) (bv_raw (as_bitfield v))\<rparr>)"

definition verifySignatures ::
    "(blob \<Rightarrow> blob) \<Rightarrow> (blob \<Rightarrow> byte list) \<Rightarrow> validator_data list \<Rightarrow> availability_assurance list \<Rightarrow> (assurances_error, unit) outcome" where
  "verifySignatures H W validatorData assurances =
    bindE (mapE (assurance_item H validatorData) assurances) (\<lambda>signatures.
    bindE (lift_throws (ed25519_verify W signatures)) (\<lambda>signaturesValid.
      if list_all id signaturesValid then Inr () else Inl (Failed InvalidSignature)))"

text \<open>The first loop: the last validator index and the number of assurances of each core. A bit beyond the number of
  cores is excluded by the check.\<close>

definition count_assurance ::
    "nat \<Rightarrow> blob \<Rightarrow> availability_assurance \<Rightarrow> int \<times> nat list \<Rightarrow> (assurances_error, int \<times> nat list) outcome" where
  "count_assurance cores parentHash a = (\<lambda>(prevValidatorIndex, perCoreAssurances).
    if as_anchor a \<noteq> parentHash then Inl (Failed InvalidAnchor)
    else if prevValidatorIndex \<ge> int (as_validatorIndex a) then Inl (Failed InvalidOrder)
    else bindE (lift_throws (check (bitLength (as_bitfield a) = cores) (Inr ()))) (\<lambda>_.
      Inr (int (as_validatorIndex a),
        fold (\<lambda>idx per. per[idx := per ! idx + 1]) (indicesOfSetBits (as_bitfield a)) perCoreAssurances)))"

text \<open>One core of the second loop: which reports are available and which cores are cleared. An assignment beyond the
  end of the array is \<open>undefined\<close>, not \<open>null\<close>.\<close>

definition judge_core ::
    "chain_spec \<Rightarrow> nat \<Rightarrow> nat list \<Rightarrow> availability_assignment option list \<Rightarrow> nat \<Rightarrow> work_report list \<times> nat list \<Rightarrow>
      (assurances_error, work_report list \<times> nat list) outcome" where
  "judge_core spec slot perCoreAssurances assignments c = (\<lambda>(availableReports, coresToClear).
    let noOfAssurances = perCoreAssurances ! c in
    case js_nth assignments c of
      None \<Rightarrow> Inl (Thrown TypeError)
    | Some None \<Rightarrow> if noOfAssurances > 0 then Inl (Failed NoReportPending) else Inr (availableReports, coresToClear)
    | Some (Some workReport) \<Rightarrow>
        let coresToClear = (if slot \<ge> aa_timeout workReport + REPORT_TIMEOUT_GRACE_PERIOD then coresToClear @ [c] else coresToClear)
        in if noOfAssurances \<ge> validatorsSuperMajority spec
           then Inr (availableReports @ [aa_workReport workReport], coresToClear @ [c])
           else Inr (availableReports, coresToClear))"

definition assurances_transition ::
    "chain_spec \<Rightarrow> (blob \<Rightarrow> blob) \<Rightarrow> (blob \<Rightarrow> byte list) \<Rightarrow> validator_data list \<Rightarrow> assurances_input \<Rightarrow>
      (assurances_error, assurances_result) outcome" where
  "assurances_transition spec H W currentValidatorData inp =
    (let signaturesVerification = verifySignatures H W currentValidatorData (ai_assurances inp);
         availabilityAssignment = ai_disputesAvailAssignment inp
     in bindE (foldE (count_assurance (coresCount spec) (ai_parentHash inp)) (ai_assurances inp) (- 1, replicate (coresCount spec) 0))
       (\<lambda>(_, perCoreAssurances).
     bindE (foldE (judge_core spec (ai_slot inp) perCoreAssurances availabilityAssignment) [0..<coresCount spec] ([], []))
       (\<lambda>(availableReports, coresToClear).
     bindE signaturesVerification (\<lambda>_.
       Inr \<lparr>ar_availableReports = availableReports,
            ar_availabilityAssignment = fold (\<lambda>c a. a[c := None]) coresToClear availabilityAssignment\<rparr>))))"

section \<open>What is accepted and what is done\<close>

definition assured :: "availability_assurance \<Rightarrow> nat \<Rightarrow> bool" where
  "assured a c \<longleftrightarrow> c < bitLength (as_bitfield a) \<and> bit_at (data (as_bitfield a)) c"

definition assurances_of :: "availability_assurance list \<Rightarrow> nat \<Rightarrow> nat" where
  "assurances_of as c = length (filter (\<lambda>a. assured a c) as)"

definition assurance_signed :: "(blob \<Rightarrow> blob) \<Rightarrow> (input_item \<Rightarrow> bool) \<Rightarrow> validator_data list \<Rightarrow> availability_assurance \<Rightarrow> bool" where
  "assurance_signed H valid vs a \<longleftrightarrow> as_validatorIndex a < length vs \<and>
    valid \<lparr>in_key = vd_ed25519 (vs ! as_validatorIndex a), in_signature = as_signature a,
      in_message = signingPayload H (as_anchor a) (bv_raw (as_bitfield a))\<rparr>"

definition valid_assurances ::
    "chain_spec \<Rightarrow> (blob \<Rightarrow> blob) \<Rightarrow> (input_item \<Rightarrow> bool) \<Rightarrow> validator_data list \<Rightarrow> assurances_input \<Rightarrow> bool" where
  "valid_assurances spec H valid vs inp \<longleftrightarrow>
    (\<forall>a \<in> set (ai_assurances inp). as_anchor a = ai_parentHash inp \<and> assurance_signed H valid vs a) \<and>
    sorted_wrt (<) (map as_validatorIndex (ai_assurances inp)) \<and>
    (\<forall>c < coresCount spec. (\<exists>a \<in> set (ai_assurances inp). assured a c) \<longrightarrow> ai_disputesAvailAssignment inp ! c \<noteq> None)"

definition available :: "chain_spec \<Rightarrow> assurances_input \<Rightarrow> nat \<Rightarrow> bool" where
  "available spec inp c \<longleftrightarrow> validatorsSuperMajority spec \<le> assurances_of (ai_assurances inp) c"

definition core_after :: "chain_spec \<Rightarrow> assurances_input \<Rightarrow> nat \<Rightarrow> availability_assignment option" where
  "core_after spec inp c = (case ai_disputesAvailAssignment inp ! c of
     None \<Rightarrow> None
   | Some a \<Rightarrow> if available spec inp c \<or> ai_slot inp \<ge> aa_timeout a + 5 then None else Some a)"

definition assurances_effect :: "chain_spec \<Rightarrow> assurances_input \<Rightarrow> assurances_result \<Rightarrow> bool" where
  "assurances_effect spec inp r \<longleftrightarrow>
    ar_availabilityAssignment r = map (core_after spec inp) [0..<coresCount spec] \<and>
    ar_availableReports r = map aa_workReport (List.map_filter
      (\<lambda>c. if available spec inp c then ai_disputesAvailAssignment inp ! c else None) [0..<coresCount spec])"

definition sized_assurances :: "chain_spec \<Rightarrow> (blob \<Rightarrow> blob) \<Rightarrow> validator_data list \<Rightarrow> assurances_input \<Rightarrow> bool" where
  "sized_assurances spec H vs inp \<longleftrightarrow> length (ai_disputesAvailAssignment inp) = coresCount spec \<and>
    (\<forall>v \<in> set vs. length (vd_ed25519 v) = ED25519_KEY_BYTES) \<and> (\<forall>x. length (H x) = 32) \<and>
    (\<forall>a \<in> set (ai_assurances inp). length (as_signature a) = ED25519_SIGNATURE_BYTES \<and> bitLength (as_bitfield a) = coresCount spec)"

section \<open>The loops\<close>

lemma fold_increments:
  fixes per :: "nat list"
  assumes "distinct idxs" "\<forall>i \<in> set idxs. i < length per"
  shows "fold (\<lambda>idx per. per[idx := per ! idx + 1]) idxs per =
    map (\<lambda>c. per ! c + (if c \<in> set idxs then 1 else 0)) [0..<length per]"
  using assms
proof (induction idxs arbitrary: per)
  case Nil
  have "map (\<lambda>c. per ! c + 0) [0..<length per] = per" by (simp add: map_nth)
  then show ?case by simp
next
  case (Cons i idxs)
  then show ?case by (auto simp: nth_list_update intro!: nth_equalityI)
qed

lemma fold_clear: "fold (\<lambda>c a. a[c := None]) cs xs = map (\<lambda>c. if c \<in> set cs then None else xs ! c) [0..<length xs]"
proof (induction cs arbitrary: xs)
  case Nil
  then show ?case by (simp add: map_nth)
next
  case (Cons c cs)
  then show ?case by (auto simp: nth_list_update intro!: nth_equalityI)
qed

lemma assured_iff: "assured a c \<longleftrightarrow> c \<in> set (indicesOfSetBits (as_bitfield a))"
  by (auto simp: assured_def indicesOfSetBits_eq)

lemma count_assurance_eq:
  assumes "bitLength (as_bitfield a) = cores" "length per = cores"
  shows "count_assurance cores parentHash a (prev, per) =
    (if as_anchor a \<noteq> parentHash then Inl (Failed InvalidAnchor)
     else if prev \<ge> int (as_validatorIndex a) then Inl (Failed InvalidOrder)
     else Inr (int (as_validatorIndex a), map (\<lambda>c. per ! c + (if assured a c then 1 else 0)) [0..<cores]))"
proof -
  have "fold (\<lambda>idx per. per[idx := per ! idx + 1]) (indicesOfSetBits (as_bitfield a)) per =
      map (\<lambda>c. per ! c + (if assured a c then 1 else 0)) [0..<cores]"
    unfolding assured_iff assms(2) [symmetric]
    by (rule fold_increments) (use assms in \<open>auto simp: indicesOfSetBits_eq\<close>)
  then show ?thesis using assms(1) by (simp add: count_assurance_def check_def)
qed

lemma count_fold:
  assumes "\<forall>a \<in> set as. bitLength (as_bitfield a) = cores" "length per = cores"
  shows "(\<exists>r. foldE (count_assurance cores parentHash) as (prev, per) = Inr r) \<longleftrightarrow>
      (\<forall>a \<in> set as. as_anchor a = parentHash \<and> prev < int (as_validatorIndex a)) \<and> sorted_wrt (<) (map as_validatorIndex as)"
    and "foldE (count_assurance cores parentHash) as (prev, per) = Inr (i, per') \<Longrightarrow>
      per' = map (\<lambda>c. per ! c + assurances_of as c) [0..<cores]"
proof -
  have "(\<exists>r. foldE (count_assurance cores parentHash) as (prev, per) = Inr r) \<longleftrightarrow>
      (\<forall>a \<in> set as. as_anchor a = parentHash \<and> prev < int (as_validatorIndex a)) \<and> sorted_wrt (<) (map as_validatorIndex as)"
    using assms
  proof (induction as arbitrary: prev per)
    case (Cons a as)
    have IH: "(\<exists>r. foldE (count_assurance cores parentHash) as (int (as_validatorIndex a), map f [0..<cores]) = Inr r) \<longleftrightarrow>
        (\<forall>b \<in> set as. as_anchor b = parentHash \<and> as_validatorIndex a < as_validatorIndex b) \<and>
        sorted_wrt (<) (map as_validatorIndex as)" for f
      using Cons.IH [of "map f [0..<cores]" "int (as_validatorIndex a)"] Cons.prems(1) by simp
    have "(\<exists>r. foldE (count_assurance cores parentHash) (a # as) (prev, per) = Inr r) \<longleftrightarrow>
        as_anchor a = parentHash \<and> prev < int (as_validatorIndex a) \<and>
        (\<exists>r. foldE (count_assurance cores parentHash) as
          (int (as_validatorIndex a), map (\<lambda>c. per ! c + (if assured a c then 1 else 0)) [0..<cores]) = Inr r)"
      using Cons.prems by (simp add: count_assurance_eq not_le del: split_paired_Ex)
    then show ?case unfolding IH by (auto simp del: foldE.simps) (metis order_less_trans of_nat_less_iff)
  qed simp
  then show "(\<exists>r. foldE (count_assurance cores parentHash) as (prev, per) = Inr r) \<longleftrightarrow>
      (\<forall>a \<in> set as. as_anchor a = parentHash \<and> prev < int (as_validatorIndex a)) \<and> sorted_wrt (<) (map as_validatorIndex as)" .
  show "per' = map (\<lambda>c. per ! c + assurances_of as c) [0..<cores]"
    if "foldE (count_assurance cores parentHash) as (prev, per) = Inr (i, per')"
    using assms that
  proof (induction as arbitrary: prev per)
    case Nil
    then show ?case by (auto simp: assurances_of_def map_nth)
  next
    case (Cons a as)
    let ?per = "map (\<lambda>c. per ! c + (if assured a c then 1 else 0)) [0..<cores]"
    from Cons.prems have "foldE (count_assurance cores parentHash) as (int (as_validatorIndex a), ?per) = Inr (i, per')"
      by (auto simp: count_assurance_eq split: if_splits)
    from Cons.IH [OF _ _ this] Cons.prems(1) show ?case by (simp add: assurances_of_def)
  qed
qed

lemma judge_fold:
  assumes "\<forall>c \<in> set cs. c < length assignments"
  shows "(\<exists>r. foldE (judge_core spec slot per assignments) cs (rs, cl) = Inr r) \<longleftrightarrow>
      (\<forall>c \<in> set cs. per ! c > 0 \<longrightarrow> assignments ! c \<noteq> None)"
    and "foldE (judge_core spec slot per assignments) cs (rs, cl) = Inr (rs', cl') \<Longrightarrow>
      rs' = rs @ map aa_workReport (List.map_filter
        (\<lambda>c. if validatorsSuperMajority spec \<le> per ! c then assignments ! c else None) cs) \<and>
      set cl' = set cl \<union> {c \<in> set cs. \<exists>a. assignments ! c = Some a \<and>
        (validatorsSuperMajority spec \<le> per ! c \<or> aa_timeout a + 5 \<le> slot)}"
proof -
  show "(\<exists>r. foldE (judge_core spec slot per assignments) cs (rs, cl) = Inr r) \<longleftrightarrow>
      (\<forall>c \<in> set cs. per ! c > 0 \<longrightarrow> assignments ! c \<noteq> None)"
    using assms
  proof (induction cs arbitrary: rs cl)
    case (Cons c cs)
    then show ?case by (simp add: judge_core_def Let_def js_nth_def split: option.split)
  qed simp
  show "rs' = rs @ map aa_workReport (List.map_filter
        (\<lambda>c. if validatorsSuperMajority spec \<le> per ! c then assignments ! c else None) cs) \<and>
      set cl' = set cl \<union> {c \<in> set cs. \<exists>a. assignments ! c = Some a \<and>
        (validatorsSuperMajority spec \<le> per ! c \<or> aa_timeout a + 5 \<le> slot)}"
    if "foldE (judge_core spec slot per assignments) cs (rs, cl) = Inr (rs', cl')"
    using assms that
  proof (induction cs arbitrary: rs cl)
    case Nil
    then show ?case by (simp add: map_filter_simps)
  next
    case (Cons c cs)
    from Cons.prems obtain q where q: "judge_core spec slot per assignments c (rs, cl) = Inr q"
      "foldE (judge_core spec slot per assignments) cs q = Inr (rs', cl')" by (auto simp: bindE_Inr_iff)
    obtain rs1 cl1 where q': "q = (rs1, cl1)" by (cases q)
    have one: "rs1 = rs @ (if validatorsSuperMajority spec \<le> per ! c then case assignments ! c of None \<Rightarrow> [] | Some a \<Rightarrow> [aa_workReport a] else []) \<and>
        set cl1 = set cl \<union> (case assignments ! c of None \<Rightarrow> {} | Some a \<Rightarrow>
          if validatorsSuperMajority spec \<le> per ! c \<or> aa_timeout a + 5 \<le> slot then {c} else {})"
      using q(1) Cons.prems(1) unfolding q'
      by (auto simp: judge_core_def Let_def js_nth_def REPORT_TIMEOUT_GRACE_PERIOD_def split: option.splits if_splits)
    from Cons.IH [of rs1 cl1] q(2) Cons.prems(1) one show ?case unfolding q'
      by (auto simp: map_filter_simps split: option.splits if_splits)
  qed
qed

section \<open>The transition\<close>

lemma map_filter_same: "(\<And>x. x \<in> set xs \<Longrightarrow> f x = g x) \<Longrightarrow> List.map_filter f xs = List.map_filter g xs"
  by (induction xs) (auto simp: map_filter_simps split: option.split)

lemma mapE_iff: "(\<exists>ys. mapE f xs = Inr ys) \<longleftrightarrow> (\<forall>x \<in> set xs. \<exists>y. f x = Inr y)"
  by (induction xs) (auto simp: bindE_Inr_iff)

lemma verifySignatures_iff:
  assumes "verifies W valid" "sized_assurances spec H vs inp"
  shows "verifySignatures H W vs (ai_assurances inp) = Inr () \<longleftrightarrow>
    (\<forall>a \<in> set (ai_assurances inp). assurance_signed H valid vs a)"
proof -
  let ?as = "ai_assurances inp"
  let ?item = "\<lambda>a. \<lparr>in_key = vd_ed25519 (vs ! as_validatorIndex a), in_signature = as_signature a,
      in_message = signingPayload H (as_anchor a) (bv_raw (as_bitfield a))\<rparr>"
  have item: "assurance_item H vs a = Inr i \<longleftrightarrow> as_validatorIndex a < length vs \<and> i = ?item a" for a i
    by (auto simp: assurance_item_def js_nth_def)
  show ?thesis
  proof (cases "\<forall>a \<in> set ?as. as_validatorIndex a < length vs")
    case True
    then have items: "mapE (assurance_item H vs) ?as = Inr (map ?item ?as)"
      by (intro mapE_pure) (simp add: item)
    have "well_sized (?item a)" if "a \<in> set ?as" for a
      using assms(2) True that
      by (auto simp: sized_assurances_def well_sized_def signingPayload_def JAM_AVAILABLE_def blobFromParts_def)
    then have "ed25519_verify W (map ?item ?as) = Inr (map valid (map ?item ?as))"
      by (intro ed25519_verify_eq [OF assms(1)]) auto
    with True items show ?thesis
      by (auto simp: verifySignatures_def assurance_signed_def list_all_iff)
  next
    case False
    then obtain a where a: "a \<in> set ?as" "\<not> as_validatorIndex a < length vs" by blast
    have "\<nexists>ys. mapE (assurance_item H vs) ?as = Inr ys"
      using a by (auto simp: mapE_iff item)
    then have "verifySignatures H W vs ?as \<noteq> Inr ()"
      by (cases "mapE (assurance_item H vs) ?as") (simp_all add: verifySignatures_def)
    with a show ?thesis by (auto simp: assurance_signed_def)
  qed
qed

lemma assurances_of_pos: "0 < assurances_of as c \<longleftrightarrow> (\<exists>a \<in> set as. assured a c)"
  by (auto simp: assurances_of_def filter_empty_conv)

lemma assurances_transition_iff:
  assumes "verifies W valid" "sized_assurances spec H vs inp"
  shows "(\<exists>r. assurances_transition spec H W vs inp = Inr r) \<longleftrightarrow> valid_assurances spec H valid vs inp"
    and "assurances_transition spec H W vs inp = Inr r \<Longrightarrow> assurances_effect spec inp r"
proof -
  let ?n = "coresCount spec" and ?as = "ai_assurances inp" and ?d = "ai_disputesAvailAssignment inp"
  let ?count = "foldE (count_assurance ?n (ai_parentHash inp)) ?as (- 1, replicate ?n 0)"
  let ?per = "map (assurances_of ?as) [0..<?n]"
  let ?judge = "foldE (judge_core spec (ai_slot inp) ?per ?d) [0..<?n] ([], [])"
  have len: "length ?d = ?n" "\<forall>a \<in> set ?as. bitLength (as_bitfield a) = ?n" "length (replicate ?n (0 :: nat)) = ?n"
    using assms(2) by (simp_all add: sized_assurances_def)
  have count: "(\<exists>r. ?count = Inr r) \<longleftrightarrow> (\<forall>a \<in> set ?as. as_anchor a = ai_parentHash inp) \<and> sorted_wrt (<) (map as_validatorIndex ?as)"
    unfolding count_fold(1) [OF len(2,3)] by auto
  have per: "per = ?per" if "?count = Inr (i, per)" for i per
    using count_fold(2) [OF len(2,3) that] by (auto simp: nth_replicate)
  have judge: "(\<exists>r. ?judge = Inr r) \<longleftrightarrow> (\<forall>c < ?n. (\<exists>a \<in> set ?as. assured a c) \<longrightarrow> ?d ! c \<noteq> None)"
    by (subst judge_fold(1)) (auto simp: len(1) assurances_of_pos)
  have run: "assurances_transition spec H W vs inp = Inr r \<longleftrightarrow> (\<exists>i rs cl. ?count = Inr (i, ?per) \<and> ?judge = Inr (rs, cl) \<and>
      verifySignatures H W vs ?as = Inr () \<and>
      r = \<lparr>ar_availableReports = rs, ar_availabilityAssignment = fold (\<lambda>c a. a[c := None]) cl ?d\<rparr>)" for r
    using per by (fastforce simp: assurances_transition_def Let_def bindE_Inr_iff)
  show "(\<exists>r. assurances_transition spec H W vs inp = Inr r) \<longleftrightarrow> valid_assurances spec H valid vs inp"
  proof -
    have "(\<exists>r. assurances_transition spec H W vs inp = Inr r) \<longleftrightarrow>
        (\<exists>r. ?count = Inr r) \<and> (\<exists>r. ?judge = Inr r) \<and> verifySignatures H W vs ?as = Inr ()"
      using per unfolding run by (metis surj_pair)
    then show ?thesis
      unfolding count judge verifySignatures_iff [OF assms] valid_assurances_def by blast
  qed
  assume "assurances_transition spec H W vs inp = Inr r"
  then obtain rs cl where j: "?judge = Inr (rs, cl)"
    and r: "r = \<lparr>ar_availableReports = rs, ar_availabilityAssignment = fold (\<lambda>c a. a[c := None]) cl ?d\<rparr>"
    unfolding run by blast
  have "\<forall>c \<in> set [0..<?n]. c < length ?d" by (simp add: len(1))
  note judge_fold(2) [OF this j]
  then have rs: "rs = map aa_workReport (List.map_filter (\<lambda>c. if validatorsSuperMajority spec \<le> ?per ! c then ?d ! c else None) [0..<?n])"
    and cl: "set cl = {c. c < ?n \<and> (\<exists>a. ?d ! c = Some a \<and> (validatorsSuperMajority spec \<le> ?per ! c \<or> aa_timeout a + 5 \<le> ai_slot inp))}"
    by auto
  have "List.map_filter (\<lambda>c. if validatorsSuperMajority spec \<le> ?per ! c then ?d ! c else None) [0..<?n] =
      List.map_filter (\<lambda>c. if available spec inp c then ?d ! c else None) [0..<?n]"
    by (rule map_filter_same) (simp add: available_def)
  moreover have "fold (\<lambda>c a. a[c := None]) cl ?d = map (core_after spec inp) [0..<?n]"
    unfolding fold_clear len(1)
    by (rule map_cong) (auto simp: cl core_after_def available_def split: option.split)
  ultimately show "assurances_effect spec inp r" by (simp add: assurances_effect_def r rs)
qed

end
