(* ===== verification/Statistics.thy ===== *)
theory Statistics
  imports Accumulate BlockCodec Assurances
begin

text \<open>
  Activity statistics, \<open>packages/jam/transition/statistics.ts\<close> with the records of \<open>state/statistics.ts\<close>.
  Within an epoch the code changes the records of the state in place; the model returns them updated. Every sum is
  checked to fit its width.
\<close>

section \<open>State\<close>

record validator_statistics =
  vs_blocks :: nat
  vs_tickets :: nat
  vs_preImages :: nat
  vs_preImagesSize :: nat
  vs_guarantees :: nat
  vs_assurances :: nat

definition validatorStatistics_empty :: validator_statistics where
  "validatorStatistics_empty = \<lparr>vs_blocks = 0, vs_tickets = 0, vs_preImages = 0, vs_preImagesSize = 0, vs_guarantees = 0, vs_assurances = 0\<rparr>"

record core_statistics =
  cs_dataAvailabilityLoad :: nat
  cs_popularity :: nat
  cs_imports :: nat
  cs_exports :: nat
  cs_extrinsicSize :: nat
  cs_extrinsicCount :: nat
  cs_bundleSize :: nat
  cs_gasUsed :: nat

record service_statistics =
  ss_providedCount :: nat
  ss_providedSize :: nat
  ss_refinementCount :: nat
  ss_refinementGasUsed :: nat
  ss_imports :: nat
  ss_exports :: nat
  ss_extrinsicSize :: nat
  ss_extrinsicCount :: nat
  ss_accumulateCount :: int
  ss_accumulateGasUsed :: int

definition serviceStatistics_empty :: service_statistics where
  "serviceStatistics_empty = \<lparr>ss_providedCount = 0, ss_providedSize = 0, ss_refinementCount = 0, ss_refinementGasUsed = 0,
    ss_imports = 0, ss_exports = 0, ss_extrinsicSize = 0, ss_extrinsicCount = 0, ss_accumulateCount = 0, ss_accumulateGasUsed = 0\<rparr>"

record statistics_data =
  sd_current :: "validator_statistics list"
  sd_previous :: "validator_statistics list"
  sd_cores :: "core_statistics list"
  sd_services :: "(service_id, service_statistics) jsmap"

record statistics_state =
  sst_timeslot :: nat
  sst_statistics :: statistics_data

record statistics_input =
  sn_slot :: nat
  sn_authorIndex :: nat
  sn_extrinsic :: extrinsic
  sn_incomingReports :: "work_report list"
  sn_availableReports :: "work_report list"
  sn_accumulationStatistics :: accumulation_statistics
  sn_reporters :: "blob list"
  sn_currentValidatorData :: "validator_data list"

section \<open>Scores\<close>

definition getStatistics :: "chain_spec \<Rightarrow> statistics_state \<Rightarrow> nat \<Rightarrow> statistics_data throws" where
  "getStatistics spec st slot =
    (let currentEpoch = sst_timeslot st div epochLength spec; nextEpoch = slot div epochLength spec
     in if currentEpoch = nextEpoch then Inr (sst_statistics st)
        else bindE (tryAsPerValidator (replicate (validatorsCount spec) validatorStatistics_empty) spec) (\<lambda>emptyValidators.
          Inr ((sst_statistics st)\<lparr>sd_current := emptyValidators, sd_previous := sd_current (sst_statistics st)\<rparr>)))"

definition calculateDAScoreCore :: "work_report option \<Rightarrow> nat throws" where
  "calculateDAScoreCore availableWorkReports = (case availableWorkReports of
     None \<Rightarrow> asU32 0
   | Some r \<Rightarrow>
       let workPackageLength = wp_length (wr_workPackageSpec r);
           workPackageSegment = ceil_div (wp_exportsCount (wr_workPackageSpec r) * 65) 64
       in asU32 (workPackageLength + EC_SEGMENT_SIZE * workPackageSegment))"

record refine_score =
  rs_gasUsed :: nat
  rs_exported :: nat
  rs_imported :: nat
  rs_extrinsicCount :: nat
  rs_extrinsicSize :: nat

definition score_step :: "work_result \<Rightarrow> refine_score \<Rightarrow> refine_score" where
  "score_step workResult score =
    \<lparr>rs_gasUsed = rs_gasUsed score + ld_gasUsed (re_load workResult),
     rs_exported = rs_exported score + ld_exportedSegments (re_load workResult),
     rs_imported = rs_imported score + ld_importedSegments (re_load workResult),
     rs_extrinsicCount = rs_extrinsicCount score + ld_extrinsicCount (re_load workResult),
     rs_extrinsicSize = rs_extrinsicSize score + ld_extrinsicSize (re_load workResult)\<rparr>"

definition zero_score :: refine_score where
  "zero_score = \<lparr>rs_gasUsed = 0, rs_exported = 0, rs_imported = 0, rs_extrinsicCount = 0, rs_extrinsicSize = 0\<rparr>"

definition calculateRefineScore :: "work_result list \<Rightarrow> refine_score throws" where
  "calculateRefineScore workResults =
    (let score = fold score_step workResults zero_score in
     bindE (asU64 (rs_gasUsed score)) (\<lambda>gasUsed.
     bindE (asU16 (rs_exported score)) (\<lambda>exported.
     bindE (asU16 (rs_imported score)) (\<lambda>imported.
     bindE (asU16 (rs_extrinsicCount score)) (\<lambda>extrinsicCount.
     bindE (asU32 (rs_extrinsicSize score)) (\<lambda>extrinsicSize.
       Inr \<lparr>rs_gasUsed = gasUsed, rs_exported = exported, rs_imported = imported,
            rs_extrinsicCount = extrinsicCount, rs_extrinsicSize = extrinsicSize\<rparr>))))))"

definition calculateProvidedScoreService :: "preimage list \<Rightarrow> (nat \<times> nat) throws" where
  "calculateProvidedScoreService preimages =
    (let (number, bytes) = fold (\<lambda>preimage (number, bytes). (number + 1, bytes + length (pr_blob preimage))) preimages (0, 0) in
     bindE (asU16 number) (\<lambda>number. bindE (asU32 bytes) (\<lambda>bytes. Inr (number, bytes))))"

definition collectServiceIds :: "preimage list \<Rightarrow> work_result list \<Rightarrow> service_id list \<Rightarrow> service_id list" where
  "collectServiceIds preimages workResults accumulationKeys =
    fold js_add accumulationKeys (fold js_add (map (\<lambda>r. int (re_serviceId r)) workResults)
      (fold js_add (map (\<lambda>p. int (pr_requester p)) preimages) []))"

section \<open>The transition\<close>

definition author_statistics :: "extrinsic \<Rightarrow> validator_statistics \<Rightarrow> validator_statistics throws" where
  "author_statistics ext v =
    bindE (asU32 (vs_blocks v + 1)) (\<lambda>blocks.
    bindE (asU32 (vs_tickets v + length (et_tickets ext))) (\<lambda>tickets.
    bindE (asU32 (vs_preImages v + length (et_preimages ext))) (\<lambda>preImages.
    bindE (asU32 (vs_preImagesSize v + fold (\<lambda>p s. s + length (pr_blob p)) (et_preimages ext) 0)) (\<lambda>preImagesSize.
      Inr (v\<lparr>vs_blocks := blocks, vs_tickets := tickets, vs_preImages := preImages, vs_preImagesSize := preImagesSize\<rparr>)))))"

definition count_guarantee :: "blob list \<Rightarrow> blob \<Rightarrow> validator_statistics list \<Rightarrow> validator_statistics list throws" where
  "count_guarantee validatorKeys reporter current =
    (let index = find_index (\<lambda>x. x = reporter) validatorKeys in
     if index = - 1 then Inr current
     else case js_nth current (nat index) of
        None \<Rightarrow> Inl TypeError
      | Some v \<Rightarrow> bindE (asU32 (vs_guarantees v + 1)) (\<lambda>n. Inr (current[nat index := v\<lparr>vs_guarantees := n\<rparr>])))"

definition count_assurances :: "availability_assurance \<Rightarrow> validator_statistics list \<Rightarrow> validator_statistics list throws" where
  "count_assurances a current =
    (case js_nth current (as_validatorIndex a) of
       None \<Rightarrow> Inl TypeError
     | Some v \<Rightarrow> bindE (asU32 (vs_assurances v + 1)) (\<lambda>n. Inr (current[as_validatorIndex a := v\<lparr>vs_assurances := n\<rparr>])))"

definition update_core :: "statistics_input \<Rightarrow> nat \<Rightarrow> core_statistics list \<Rightarrow> core_statistics list throws" where
  "update_core inp coreId cores =
    bindE (asU16 coreId) (\<lambda>coreIndex.
    let workReport = List.find (\<lambda>wr. wr_coreIndex wr = coreIndex) (sn_incomingReports inp) in
    bindE (case workReport of Some r \<Rightarrow> calculateRefineScore (wr_results r) | None \<Rightarrow> Inr zero_score) (\<lambda>score.
    let availableWorkReport = List.find (\<lambda>wr. wr_coreIndex wr = coreIndex) (sn_availableReports inp) in
    bindE (foldE (\<lambda>a s. bindE (isSet (as_bitfield a) coreId) (\<lambda>b. Inr (s + (if b then 1 else 0))))
      (et_assurances (sn_extrinsic inp)) 0) (\<lambda>popularity.
    if coreIndex < length cores then
      bindE (asU32 (case workReport of Some r \<Rightarrow> wp_length (wr_workPackageSpec r) | None \<Rightarrow> 0)) (\<lambda>bundleSize.
      bindE (calculateDAScoreCore availableWorkReport) (\<lambda>dataAvailabilityLoad.
      bindE (asU16 popularity) (\<lambda>popularity.
        Inr (cores[coreIndex := \<lparr>cs_dataAvailabilityLoad = dataAvailabilityLoad, cs_popularity = popularity,
          cs_imports = rs_imported score, cs_exports = rs_exported score, cs_extrinsicSize = rs_extrinsicSize score,
          cs_extrinsicCount = rs_extrinsicCount score, cs_bundleSize = bundleSize, cs_gasUsed = rs_gasUsed score\<rparr>]))))
    else Inl TypeError)))"

definition service_score :: "statistics_input \<Rightarrow> service_id \<Rightarrow> service_statistics throws" where
  "service_score inp serviceId =
    (let workResults = concat (map (\<lambda>wr. filter (\<lambda>r. int (re_serviceId r) = serviceId) (wr_results wr)) (sn_incomingReports inp)) in
     bindE (calculateRefineScore workResults) (\<lambda>score.
     let preimages = filter (\<lambda>p. int (pr_requester p) = serviceId) (et_preimages (sn_extrinsic inp)) in
     bindE (calculateProvidedScoreService preimages) (\<lambda>(providedCount, providedSize).
     let accumulated = jm_get_or (sn_accumulationStatistics inp) serviceId \<lparr>cg_count = 0, cg_gasUsed = 0\<rparr> in
     bindE (asU32 (length workResults)) (\<lambda>refinementCount.
       Inr (serviceStatistics_empty\<lparr>ss_refinementCount := refinementCount, ss_refinementGasUsed := rs_gasUsed score,
         ss_imports := rs_imported score, ss_extrinsicCount := rs_extrinsicCount score, ss_extrinsicSize := rs_extrinsicSize score,
         ss_exports := rs_exported score, ss_providedCount := providedCount, ss_providedSize := providedSize,
         ss_accumulateCount := cg_count accumulated, ss_accumulateGasUsed := cg_gasUsed accumulated\<rparr>)))))"

definition statistics_transition :: "chain_spec \<Rightarrow> statistics_state \<Rightarrow> statistics_input \<Rightarrow> statistics_data throws" where
  "statistics_transition spec st inp =
    (let ext = sn_extrinsic inp; authorIndex = sn_authorIndex inp in
     bindE (getStatistics spec st (sn_slot inp)) (\<lambda>statistics.
     check (authorIndex < length (sd_current statistics))
      (bindE (author_statistics ext (sd_current statistics ! authorIndex)) (\<lambda>author.
       let current = (sd_current statistics)[authorIndex := author];
           validatorKeys = map vd_ed25519 (sn_currentValidatorData inp) in
       bindE (foldE (count_guarantee validatorKeys) (sn_reporters inp) current) (\<lambda>current.
       bindE (foldE count_assurances (et_assurances ext) current) (\<lambda>current.
       bindE (foldE (update_core inp) [0..<coresCount spec] (sd_cores statistics)) (\<lambda>cores.
       let serviceIds = collectServiceIds (et_preimages ext) (concat (map wr_results (sn_incomingReports inp)))
             (map fst (sn_accumulationStatistics inp)) in
       bindE (foldE (\<lambda>serviceId services. bindE (service_score inp serviceId) (\<lambda>s. Inr (jm_set services serviceId s))) serviceIds []) (\<lambda>services.
         Inr (statistics\<lparr>sd_current := current, sd_cores := cores, sd_services := services\<rparr>)))))))))"

end
