(* ===== verification/StatisticsSpec.thy ===== *)
theory StatisticsSpec
  imports Statistics
begin

text \<open>
  What the statistics of a block say: the counters of the validators grow by what each of them did, and the work
  reported per core and per service adds up to the work of the reports of the block.
\<close>

section \<open>Checked sums\<close>

lemma asU_Inr [simp]:
  "asU16 n = Inr m \<longleftrightarrow> n < 2 ^ 16 \<and> m = n" "asU32 n = Inr m \<longleftrightarrow> n < 2 ^ 32 \<and> m = n" "asU64 n = Inr m \<longleftrightarrow> n < 2 ^ 64 \<and> m = n"
  by (auto simp: asU_eq check_def)

definition load_sum :: "(work_refine_load \<Rightarrow> nat) \<Rightarrow> work_result list \<Rightarrow> nat" where
  "load_sum f rs = (\<Sum>r \<leftarrow> rs. f (re_load r))"

lemma score_fold:
  "fold score_step rs s =
    \<lparr>rs_gasUsed = rs_gasUsed s + load_sum ld_gasUsed rs, rs_exported = rs_exported s + load_sum ld_exportedSegments rs,
     rs_imported = rs_imported s + load_sum ld_importedSegments rs, rs_extrinsicCount = rs_extrinsicCount s + load_sum ld_extrinsicCount rs,
     rs_extrinsicSize = rs_extrinsicSize s + load_sum ld_extrinsicSize rs\<rparr>"
  by (induction rs arbitrary: s) (simp_all add: score_step_def load_sum_def)

definition score_of :: "work_result list \<Rightarrow> refine_score" where
  "score_of rs = \<lparr>rs_gasUsed = load_sum ld_gasUsed rs, rs_exported = load_sum ld_exportedSegments rs,
     rs_imported = load_sum ld_importedSegments rs, rs_extrinsicCount = load_sum ld_extrinsicCount rs,
     rs_extrinsicSize = load_sum ld_extrinsicSize rs\<rparr>"

lemma calculateRefineScore_Inr: "calculateRefineScore rs = Inr s \<Longrightarrow> s = score_of rs"
  by (auto simp: calculateRefineScore_def Let_def bindE_Inr_iff score_fold zero_score_def score_of_def)

lemma load_sum_concat: "(\<Sum>wr \<leftarrow> wrs. load_sum g (wr_results wr)) = load_sum g (concat (map wr_results wrs))"
  by (induction wrs) (simp_all add: load_sum_def)

text \<open>A partition by service, and one by core, sum to the whole.\<close>

lemma sum_by_key:
  fixes f :: "'a \<Rightarrow> nat"
  assumes "distinct ks" "\<forall>r \<in> set rs. g r \<in> set ks"
  shows "(\<Sum>k \<leftarrow> ks. \<Sum>r \<leftarrow> filter (\<lambda>r. g r = k) rs. f r) = (\<Sum>r \<leftarrow> rs. f r)"
proof -
  have "(\<Sum>k \<in> set ks. \<Sum>r \<leftarrow> filter (\<lambda>r. g r = k) rs. f r) = (\<Sum>r \<leftarrow> rs. f r)"
    using assms(2)
  proof (induction rs)
    case (Cons r rs)
    have "(\<Sum>k \<in> set ks. \<Sum>r \<leftarrow> filter (\<lambda>r. g r = k) (r # rs). f r) =
        (\<Sum>k \<in> set ks. (if g r = k then f r else 0) + (\<Sum>r \<leftarrow> filter (\<lambda>r. g r = k) rs. f r))"
      by (rule sum.cong) simp_all
    then show ?case using Cons by (simp add: sum.distrib sum.delta)
  qed simp
  with assms(1) show ?thesis by (simp add: sum_list_distinct_conv_sum_set)
qed

definition found :: "('a \<Rightarrow> nat) \<Rightarrow> ('a \<Rightarrow> nat) \<Rightarrow> 'a list \<Rightarrow> nat \<Rightarrow> nat" where
  "found key F xs k = (case List.find (\<lambda>x. key x = k) xs of None \<Rightarrow> 0 | Some x \<Rightarrow> F x)"

lemma sum_found:
  assumes "distinct (map key xs)" "\<forall>x \<in> set xs. key x < n"
  shows "(\<Sum>k \<leftarrow> [0..<n]. found key F xs k) = (\<Sum>x \<leftarrow> xs. F x)"
proof -
  have "(\<Sum>k \<in> {0..<n}. found key F xs k) = (\<Sum>x \<leftarrow> xs. F x)"
    using assms
  proof (induction xs)
    case Nil
    then show ?case by (simp add: found_def)
  next
    case (Cons x xs)
    then have "List.find (\<lambda>y. key y = key x) xs = None" by (auto simp: find_None_iff) (metis imageI)
    then have "found key F (x # xs) k = (if key x = k then F x else 0) + found key F xs k" for k
      by (auto simp: found_def)
    with Cons show ?case by (simp add: sum.distrib sum.delta)
  qed
  then show ?thesis by (simp add: interv_sum_list_conv_sum_set_nat)
qed

section \<open>Services\<close>

lemma fold_set_distinct:
  assumes "distinct ks" "set ks \<inter> fst ` set m = {}" "foldE (\<lambda>k m. bindE (f k) (\<lambda>x. Inr (jm_set m k x))) ks m = Inr m'"
  shows "\<exists>xs. list_all2 (\<lambda>k x. f k = Inr x) ks xs \<and> m' = m @ zip ks xs"
  using assms
proof (induction ks arbitrary: m)
  case (Cons k ks)
  then obtain x where x: "f k = Inr x" "foldE (\<lambda>k m. bindE (f k) (\<lambda>x. Inr (jm_set m k x))) ks (jm_set m k x) = Inr m'"
    by (auto simp: bindE_Inr_iff)
  have "jm_set m k x = m @ [(k, x)]" using Cons.prems(2) by (induction m) auto
  with x(2) Cons.IH [of "m @ [(k, x)]"] Cons.prems(1,2) obtain xs where
    "list_all2 (\<lambda>k x. f k = Inr x) ks xs" "m' = m @ (k, x) # zip ks xs" by auto
  with x(1) show ?case by (intro exI [of _ "x # xs"]) simp
qed simp

lemma filter_results:
  "concat (map (\<lambda>wr. filter P (wr_results wr)) rs) = filter P (concat (map wr_results rs))"
  by (simp add: filter_concat comp_def)

definition service_record :: "statistics_input \<Rightarrow> service_id \<Rightarrow> service_statistics" where
  "service_record inp s =
    (let rs = filter (\<lambda>r. int (re_serviceId r) = s) (concat (map wr_results (sn_incomingReports inp)));
         ps = filter (\<lambda>p. int (pr_requester p) = s) (et_preimages (sn_extrinsic inp));
         acc = jm_get_or (sn_accumulationStatistics inp) s \<lparr>cg_count = 0, cg_gasUsed = 0\<rparr> in
     \<lparr>ss_providedCount = length ps, ss_providedSize = (\<Sum>p \<leftarrow> ps. length (pr_blob p)),
      ss_refinementCount = length rs, ss_refinementGasUsed = load_sum ld_gasUsed rs, ss_imports = load_sum ld_importedSegments rs,
      ss_exports = load_sum ld_exportedSegments rs, ss_extrinsicSize = load_sum ld_extrinsicSize rs,
      ss_extrinsicCount = load_sum ld_extrinsicCount rs, ss_accumulateCount = cg_count acc, ss_accumulateGasUsed = cg_gasUsed acc\<rparr>)"

lemma calculateProvidedScoreService_Inr:
  assumes "calculateProvidedScoreService ps = Inr r"
  shows "r = (length ps, \<Sum>p \<leftarrow> ps. length (pr_blob p))"
proof -
  have "fold (\<lambda>p (number, bytes). (number + 1, bytes + length (pr_blob p))) ps (a, b) =
      (a + length ps, b + (\<Sum>p \<leftarrow> ps. length (pr_blob p)))" for a b
    by (induction ps arbitrary: a b) auto
  with assms show ?thesis by (auto simp: calculateProvidedScoreService_def bindE_Inr_iff simp del: One_nat_def)
qed

lemma service_score_Inr:
  assumes "service_score inp s = Inr x"
  shows "x = service_record inp s"
proof -
  obtain score provided n where score: "calculateRefineScore (filter (\<lambda>r. int (re_serviceId r) = s) (concat (map wr_results (sn_incomingReports inp)))) = Inr score"
    and provided: "calculateProvidedScoreService (filter (\<lambda>p. int (pr_requester p) = s) (et_preimages (sn_extrinsic inp))) = Inr provided"
    using assms by (auto simp: service_score_def Let_def filter_results bindE_Inr_iff)
  show ?thesis
    using assms unfolding service_score_def filter_results Let_def score provided
      calculateRefineScore_Inr [OF score] calculateProvidedScoreService_Inr [OF provided]
    by (simp add: bindE_Inr_iff serviceStatistics_empty_def score_of_def service_record_def)
qed

section \<open>Cores\<close>

definition core_score :: "core_statistics \<Rightarrow> refine_score" where
  "core_score x = \<lparr>rs_gasUsed = cs_gasUsed x, rs_exported = cs_exports x, rs_imported = cs_imports x,
    rs_extrinsicCount = cs_extrinsicCount x, rs_extrinsicSize = cs_extrinsicSize x\<rparr>"

text \<open>The record of a core: the work of the report of the block for it, the assurances given for it, the length of the
  package and the load of the report that became available.\<close>

definition core_record :: "statistics_input \<Rightarrow> nat \<Rightarrow> core_statistics \<Rightarrow> bool" where
  "core_record inp c x \<longleftrightarrow>
    core_score x = score_of (case List.find (\<lambda>wr. wr_coreIndex wr = c) (sn_incomingReports inp) of None \<Rightarrow> [] | Some r \<Rightarrow> wr_results r) \<and>
    cs_popularity x = assurances_of (et_assurances (sn_extrinsic inp)) c \<and>
    cs_bundleSize x = (case List.find (\<lambda>wr. wr_coreIndex wr = c) (sn_incomingReports inp) of
      None \<Rightarrow> 0 | Some r \<Rightarrow> wp_length (wr_workPackageSpec r)) \<and>
    cs_dataAvailabilityLoad x = (case List.find (\<lambda>wr. wr_coreIndex wr = c) (sn_availableReports inp) of
      None \<Rightarrow> 0 | Some r \<Rightarrow> wp_length (wr_workPackageSpec r) + 4104 * ceil_div (65 * wp_exportsCount (wr_workPackageSpec r)) 64)"

lemma popularity_fold:
  "foldE (\<lambda>a s. bindE (isSet (as_bitfield a) c) (\<lambda>b. Inr (s + (if b then 1 else 0)))) as s = Inr p \<Longrightarrow>
    p = s + assurances_of as c"
proof (induction as arbitrary: s)
  case (Cons a as)
  have bit: "isSet (as_bitfield a) c = Inr b \<Longrightarrow> b = assured a c" for b
    by (auto simp: isSet_eq check_def assured_def split: if_splits)
  from Cons.prems obtain b where "isSet (as_bitfield a) c = Inr b"
    "foldE (\<lambda>a s. bindE (isSet (as_bitfield a) c) (\<lambda>b. Inr (s + (if b then 1 else 0)))) as (s + (if b then 1 else 0)) = Inr p"
    by (auto simp: bindE_Inr_iff)
  with Cons.IH [OF this(2)] bit [OF this(1)] show ?case by (auto simp: assurances_of_def)
qed (simp add: assurances_of_def)

lemma update_core_Inr:
  assumes "update_core inp c cores = Inr cores'"
  shows "\<exists>x. cores' = cores[c := x] \<and> c < length cores \<and> core_record inp c x"
  using assms
  by (auto simp: update_core_def Let_def bindE_Inr_iff core_record_def core_score_def zero_score_def score_of_def load_sum_def
      calculateDAScoreCore_def EC_SEGMENT_SIZE_def mult.commute
      split: option.splits if_splits dest!: calculateRefineScore_Inr popularity_fold)

lemma update_cores:
  assumes "foldE (update_core inp) [0..<n] cores = Inr cores'"
  shows "length cores' = length cores \<and> n \<le> length cores \<and> (\<forall>c < n. core_record inp c (cores' ! c)) \<and>
    (\<forall>c. n \<le> c \<longrightarrow> cores' ! c = cores ! c)"
  using assms
proof (induction n arbitrary: cores')
  case (Suc n)
  then obtain mid where mid: "foldE (update_core inp) [0..<n] cores = Inr mid" "update_core inp n mid = Inr cores'"
    by (auto simp: foldE_snoc bindE_Inr_iff)
  obtain x where x: "cores' = mid[n := x]" "n < length mid" "core_record inp n x" using update_core_Inr [OF mid(2)] by blast
  from Suc.IH [OF mid(1)] x show ?case by (auto simp: nth_list_update less_Suc_eq)
qed simp

section \<open>Validators\<close>

definition base_validators :: "chain_spec \<Rightarrow> statistics_state \<Rightarrow> nat \<Rightarrow> validator_statistics list" where
  "base_validators spec st slot =
    (if sst_timeslot st div epochLength spec = slot div epochLength spec then sd_current (sst_statistics st)
     else replicate (validatorsCount spec) validatorStatistics_empty)"

definition guarantees_of :: "blob list \<Rightarrow> blob list \<Rightarrow> nat \<Rightarrow> nat" where
  "guarantees_of keys reporters v = length (filter (\<lambda>k. find_index (\<lambda>x. x = k) keys = int v) reporters)"

definition given_by :: "availability_assurance list \<Rightarrow> nat \<Rightarrow> nat" where
  "given_by as v = length (filter (\<lambda>a. as_validatorIndex a = v) as)"

text \<open>What the loops over reporters and assurances change: one counter each.\<close>

lemma guarantees_fold:
  "foldE (count_guarantee keys) reporters vs = Inr vs' \<Longrightarrow> length vs' = length vs \<and>
    (\<forall>v < length vs. vs' ! v = (vs ! v)\<lparr>vs_guarantees := vs_guarantees (vs ! v) + guarantees_of keys reporters v\<rparr>)"
proof (induction reporters arbitrary: vs)
  case (Cons k reporters)
  then obtain mid where mid: "count_guarantee keys k vs = Inr mid" "foldE (count_guarantee keys) reporters mid = Inr vs'"
    by (auto simp: bindE_Inr_iff)
  have "length mid = length vs \<and> (\<forall>v < length vs. mid ! v =
      (vs ! v)\<lparr>vs_guarantees := vs_guarantees (vs ! v) + (if find_index (\<lambda>x. x = k) keys = int v then 1 else 0)\<rparr>)"
    using mid(1) find_index_ge [of "\<lambda>x. x = k" keys]
    by (auto simp: count_guarantee_def Let_def bindE_Inr_iff js_nth_def nth_list_update split: if_splits option.splits)
  with Cons.IH [OF mid(2)] show ?case by (auto simp: guarantees_of_def)
qed (simp add: guarantees_of_def)

lemma assurances_fold:
  "foldE count_assurances as vs = Inr vs' \<Longrightarrow> length vs' = length vs \<and>
    (\<forall>v < length vs. vs' ! v = (vs ! v)\<lparr>vs_assurances := vs_assurances (vs ! v) + given_by as v\<rparr>)"
proof (induction as arbitrary: vs)
  case (Cons a as)
  then obtain mid where mid: "count_assurances a vs = Inr mid" "foldE count_assurances as mid = Inr vs'"
    by (auto simp: bindE_Inr_iff)
  have "length mid = length vs \<and> (\<forall>v < length vs. mid ! v =
      (vs ! v)\<lparr>vs_assurances := vs_assurances (vs ! v) + (if as_validatorIndex a = v then 1 else 0)\<rparr>)"
    using mid(1) by (auto simp: count_assurances_def bindE_Inr_iff js_nth_def nth_list_update split: if_splits option.splits)
  with Cons.IH [OF mid(2)] show ?case by (auto simp: given_by_def)
qed (simp add: given_by_def)

definition validator_record :: "chain_spec \<Rightarrow> statistics_state \<Rightarrow> statistics_input \<Rightarrow> nat \<Rightarrow> validator_statistics" where
  "validator_record spec st inp v =
    (let b = base_validators spec st (sn_slot inp) ! v; ext = sn_extrinsic inp;
         once = (\<lambda>n. if v = sn_authorIndex inp then n else 0) in
     \<lparr>vs_blocks = vs_blocks b + once 1, vs_tickets = vs_tickets b + once (length (et_tickets ext)),
      vs_preImages = vs_preImages b + once (length (et_preimages ext)),
      vs_preImagesSize = vs_preImagesSize b + once (\<Sum>p \<leftarrow> et_preimages ext. length (pr_blob p)),
      vs_guarantees = vs_guarantees b + guarantees_of (map vd_ed25519 (sn_currentValidatorData inp)) (sn_reporters inp) v,
      vs_assurances = vs_assurances b + given_by (et_assurances ext) v\<rparr>)"

section \<open>The block\<close>

definition active_services :: "statistics_input \<Rightarrow> service_id list" where
  "active_services inp = collectServiceIds (et_preimages (sn_extrinsic inp)) (concat (map wr_results (sn_incomingReports inp)))
    (map fst (sn_accumulationStatistics inp))"

lemma active_services: "distinct (active_services inp)"
  "set (active_services inp) = (\<lambda>p. int (pr_requester p)) ` set (et_preimages (sn_extrinsic inp)) \<union>
    (\<lambda>r. int (re_serviceId r)) ` set (concat (map wr_results (sn_incomingReports inp))) \<union> fst ` set (sn_accumulationStatistics inp)"
  by (auto simp: active_services_def collectServiceIds_def)

definition statistics_effect :: "chain_spec \<Rightarrow> statistics_state \<Rightarrow> statistics_input \<Rightarrow> statistics_data \<Rightarrow> bool" where
  "statistics_effect spec st inp s \<longleftrightarrow>
    sd_current s = map (validator_record spec st inp) [0..<length (base_validators spec st (sn_slot inp))] \<and>
    sd_previous s = (if sst_timeslot st div epochLength spec = sn_slot inp div epochLength spec
      then sd_previous (sst_statistics st) else sd_current (sst_statistics st)) \<and>
    length (sd_cores s) = length (sd_cores (sst_statistics st)) \<and>
    (\<forall>c < coresCount spec. core_record inp c (sd_cores s ! c)) \<and>
    sd_services s = map (\<lambda>i. (i, service_record inp i)) (active_services inp)"

lemma author_statistics_Inr:
  assumes "author_statistics ext v = Inr v'"
  shows "v' = v\<lparr>vs_blocks := vs_blocks v + 1, vs_tickets := vs_tickets v + length (et_tickets ext),
    vs_preImages := vs_preImages v + length (et_preimages ext),
    vs_preImagesSize := vs_preImagesSize v + (\<Sum>p \<leftarrow> et_preimages ext. length (pr_blob p))\<rparr>"
proof -
  have "fold (\<lambda>p s. s + length (pr_blob p)) ps n = n + (\<Sum>p \<leftarrow> ps. length (pr_blob p))" for ps :: "preimage list" and n
    by (induction ps arbitrary: n) auto
  with assms show ?thesis by (auto simp: author_statistics_def bindE_Inr_iff)
qed

lemma getStatistics_Inr:
  "getStatistics spec st slot = Inr s \<Longrightarrow> sd_current s = base_validators spec st slot \<and> sd_cores s = sd_cores (sst_statistics st) \<and>
    sd_previous s = (if sst_timeslot st div epochLength spec = slot div epochLength spec
      then sd_previous (sst_statistics st) else sd_current (sst_statistics st))"
  by (auto simp: getStatistics_def Let_def base_validators_def bindE_Inr_iff tryAsPerValidator_def split: if_splits)

lemma statistics_transition_effect:
  assumes "statistics_transition spec st inp = Inr s"
  shows "statistics_effect spec st inp s"
proof -
  let ?ext = "sn_extrinsic inp" and ?base = "base_validators spec st (sn_slot inp)" and ?i = "sn_authorIndex inp"
  let ?keys = "map vd_ed25519 (sn_currentValidatorData inp)"
  obtain d where d: "getStatistics spec st (sn_slot inp) = Inr d"
    using assms by (auto simp: statistics_transition_def Let_def bindE_Inr_iff)
  note base = getStatistics_Inr [OF d]
  obtain author vs1 vs2 cores services where i: "?i < length ?base"
    and author: "author_statistics ?ext (?base ! ?i) = Inr author"
    and vs1: "foldE (count_guarantee ?keys) (sn_reporters inp) (?base[?i := author]) = Inr vs1"
    and vs2: "foldE count_assurances (et_assurances ?ext) vs1 = Inr vs2"
    and cores: "foldE (update_core inp) [0..<coresCount spec] (sd_cores (sst_statistics st)) = Inr cores"
    and services: "foldE (\<lambda>serviceId services. bindE (service_score inp serviceId) (\<lambda>s. Inr (jm_set services serviceId s))) (active_services inp) [] = Inr services"
    and s: "s = d\<lparr>sd_current := vs2, sd_cores := cores, sd_services := services\<rparr>"
    using assms base d
    by (auto simp: statistics_transition_def Let_def bindE_Inr_iff check_def active_services_def split: if_splits)
  have "vs2 = map (validator_record spec st inp) [0..<length ?base]"
  proof (rule nth_equalityI)
    show "length vs2 = length (map (validator_record spec st inp) [0..<length ?base])"
      using guarantees_fold [OF vs1] assurances_fold [OF vs2] by simp
    fix v assume "v < length vs2"
    then have v: "v < length ?base" using guarantees_fold [OF vs1] assurances_fold [OF vs2] by simp
    then show "vs2 ! v = map (validator_record spec st inp) [0..<length ?base] ! v"
      using guarantees_fold [OF vs1] assurances_fold [OF vs2] author_statistics_Inr [OF author] i
      by (auto simp: validator_record_def Let_def nth_list_update)
  qed
  moreover obtain xs where xs: "list_all2 (\<lambda>k x. service_score inp k = Inr x) (active_services inp) xs"
    "services = zip (active_services inp) xs"
    using fold_set_distinct [OF active_services(1) _ services] by auto
  have "xs = map (service_record inp) (active_services inp)"
    using xs(1) by (induction rule: list_all2_induct) (auto dest: service_score_Inr)
  then have "services = map (\<lambda>i. (i, service_record inp i)) (active_services inp)"
    unfolding xs(2) by (simp add: zip_map2 zip_same_conv_map)
  ultimately show ?thesis
    using update_cores [OF cores] base by (simp add: statistics_effect_def s)
qed

text \<open>The work of the block, counted per core and per service.\<close>

definition core_total :: "(refine_score \<Rightarrow> nat) \<Rightarrow> chain_spec \<Rightarrow> statistics_data \<Rightarrow> nat" where
  "core_total f spec s = (\<Sum>c \<leftarrow> [0..<coresCount spec]. f (core_score (sd_cores s ! c)))"

definition service_score_of :: "service_statistics \<Rightarrow> refine_score" where
  "service_score_of x = \<lparr>rs_gasUsed = ss_refinementGasUsed x, rs_exported = ss_exports x, rs_imported = ss_imports x,
    rs_extrinsicCount = ss_extrinsicCount x, rs_extrinsicSize = ss_extrinsicSize x\<rparr>"

definition service_total :: "(refine_score \<Rightarrow> nat) \<Rightarrow> statistics_data \<Rightarrow> nat" where
  "service_total f s = (\<Sum>(i, x) \<leftarrow> sd_services s. f (service_score_of x))"

definition block_score :: "statistics_input \<Rightarrow> refine_score" where
  "block_score inp = score_of (concat (map wr_results (sn_incomingReports inp)))"

definition scores :: "(refine_score \<Rightarrow> nat) list" where
  "scores = [rs_gasUsed, rs_exported, rs_imported, rs_extrinsicCount, rs_extrinsicSize]"

lemma score_additive:
  assumes "f \<in> set scores"
  shows "\<exists>g. \<forall>rs. f (score_of rs) = load_sum g rs"
  using assms by (auto simp: scores_def score_of_def)

lemma work_balanced:
  assumes "statistics_effect spec st inp s" "f \<in> set scores"
    "distinct (map wr_coreIndex (sn_incomingReports inp))" "\<forall>r \<in> set (sn_incomingReports inp). wr_coreIndex r < coresCount spec"
  shows "core_total f spec s = f (block_score inp) \<and> service_total f s = f (block_score inp)"
proof -
  let ?reports = "sn_incomingReports inp" and ?results = "concat (map wr_results (sn_incomingReports inp))"
  obtain g where g: "\<forall>rs. f (score_of rs) = load_sum g rs" using score_additive [OF assms(2)] by blast
  have total: "f (block_score inp) = load_sum g ?results" by (simp add: block_score_def g)
  have "core_total f spec s = (\<Sum>c \<leftarrow> [0..<coresCount spec]. found wr_coreIndex (\<lambda>wr. load_sum g (wr_results wr)) ?reports c)"
    unfolding core_total_def
    by (rule arg_cong [where f = sum_list], rule map_cong)
      (use assms(1) g in \<open>auto simp: statistics_effect_def core_record_def found_def load_sum_def split: option.split\<close>)
  also have "\<dots> = (\<Sum>wr \<leftarrow> ?reports. load_sum g (wr_results wr))" by (rule sum_found [OF assms(3,4)])
  also have "\<dots> = load_sum g ?results" by (rule load_sum_concat)
  finally have 1: "core_total f spec s = f (block_score inp)" by (simp add: total)
  have "f (service_score_of (service_record inp i)) = load_sum g (filter (\<lambda>r. int (re_serviceId r) = i) ?results)" for i
  proof -
    have "service_score_of (service_record inp i) = score_of (filter (\<lambda>r. int (re_serviceId r) = i) ?results)"
      by (simp add: service_score_of_def service_record_def score_of_def Let_def)
    with g show ?thesis by simp
  qed
  then have "service_total f s = (\<Sum>i \<leftarrow> active_services inp. load_sum g (filter (\<lambda>r. int (re_serviceId r) = i) ?results))"
    using assms(1) by (simp add: service_total_def statistics_effect_def comp_def)
  also have "\<dots> = load_sum g ?results"
    unfolding load_sum_def by (rule sum_by_key) (auto simp: active_services)
  finally show ?thesis using 1 total by simp
qed

text \<open>The comment on \<open>ServiceStatistics\<close> names the available reports as their source; the services do not depend on them.\<close>

lemma services_ignore_available:
  assumes "statistics_effect spec st inp s" "statistics_effect spec st (inp\<lparr>sn_availableReports := rs\<rparr>) s'"
  shows "sd_services s' = sd_services s"
  using assms by (simp add: statistics_effect_def service_record_def active_services_def Let_def)

end
