(* ===== verification/TransitionProperties.thy ===== *)
theory TransitionProperties
  imports Preimages Authorization RecentHistory StatisticsSpec DisputesProperties ServiceSamples
begin

text \<open>
  The properties of the smaller state transitions: preimages, assurances, authorization pools, recent history and
  statistics, with their concrete instances.
\<close>

section \<open>Preimages\<close>

text \<open>C31: preimages are integrated exactly when they are sorted without repetition and each is requested by its service and
  missing. Applying the collected update then never fails: every preimage is stored under its hash, its request is
  answered with the slot, and nothing else of any service changes.\<close>

theorem preimages_integrated:
  assumes "small_preimages ps" "no_collision H ps"
  shows "((\<exists>r. integrate H svcs ps slot = Inr r) \<longleftrightarrow> sorted_wrt before ps \<and> (\<forall>p \<in> set ps. needed H svcs p)) \<and>
    (\<forall>pending. integrate H svcs ps slot = Inr pending \<longrightarrow>
      (\<exists>svcs'. updatePreimages svcs pending = (svcs', Inr ()) \<and>
        (\<forall>s. rel_option (provided H slot (requests ps s)) (jm_get svcs s) (jm_get svcs' s))))"
  using integrate_accepts [OF assms(1)] integrate_applied [OF assms] by blast

definition asking_services :: services where
  "asking_services = [(5, sample_service\<lparr>sd_lookupHistory := [([1, 2], [\<lparr>li_hash = [1, 2], li_length = 2, li_slots = []\<rparr>])]\<rparr>)]"

theorem preimages_integrated_witness:
  "\<exists>r svcs' sv. integrate id asking_services [\<lparr>pr_requester = 5, pr_blob = [1, 2]\<rparr>] 7 = Inr r \<and>
    updatePreimages asking_services r = (svcs', Inr ()) \<and> jm_get svcs' 5 = Some sv \<and>
    sv_getPreimage sv [1, 2] = Some [1, 2] \<and> sv_getLookupHistory sv [1, 2] 2 = Some [7]"
proof -
  let ?p = "\<lparr>pr_requester = 5, pr_blob = [1, 2]\<rparr>" and ?svcs = asking_services
  have "small_preimages [?p]" "no_collision id [?p]" by (simp_all add: small_preimages_def no_collision_def)
  note C = preimages_integrated [OF this, of ?svcs 7]
  have "needed id ?svcs ?p"
    by (simp add: needed_def asking_services_def sample_service_def sv_hasPreimage_def sv_getLookupHistory_def)
  with C obtain r where r: "integrate id ?svcs [?p] 7 = Inr r" by auto
  with C obtain svcs' where svcs': "updatePreimages ?svcs r = (svcs', Inr ())"
    "rel_option (provided id 7 (requests [?p] 5)) (jm_get ?svcs 5) (jm_get svcs' 5)" by blast
  then show ?thesis using r
    by (auto simp: asking_services_def option_rel_Some1 provided_def requests_def)
qed

section \<open>Assurances\<close>

text \<open>C32: assurances are accepted exactly when all are anchored at the parent, come in the order of validators, carry valid
  signatures of known validators, and name only cores with a pending report. A report with a super majority becomes
  available, in the order of cores; it and every report that timed out leave their core, all others stay.\<close>

theorem assurances_applied:
  assumes "verifies W valid" "sized_assurances spec H vs inp"
  shows "((\<exists>r. assurances_transition spec H W vs inp = Inr r) \<longleftrightarrow> valid_assurances spec H valid vs inp) \<and>
    (\<forall>r. assurances_transition spec H W vs inp = Inr r \<longrightarrow> assurances_effect spec inp r)"
  using assurances_transition_iff [OF assms] by blast

definition sample_report :: "nat \<Rightarrow> work_report" where
  "sample_report c = \<lparr>wr_workPackageSpec = \<lparr>wp_hash = [], wp_length = 10, wp_erasureRoot = [], wp_exportsRoot = [], wp_exportsCount = 1\<rparr>,
    wr_context = \<lparr>rc_anchor = [], rc_stateRoot = [], rc_beefyRoot = [], rc_lookupAnchor = [], rc_lookupAnchorSlot = 0, rc_prerequisites = []\<rparr>,
    wr_coreIndex = c, wr_authorizerHash = [], wr_authorizationOutput = [], wr_segmentRootLookup = [],
    wr_results = [\<lparr>re_serviceId = 5, re_codeHash = [], re_payloadHash = [], re_gas = 10, re_result = WER_ok [],
      re_load = \<lparr>ld_gasUsed = 7, ld_importedSegments = 1, ld_extrinsicCount = 1, ld_extrinsicSize = 20, ld_exportedSegments = 1\<rparr>\<rparr>],
    wr_authorizationGasUsed = 0\<rparr>"

definition sample_assurance :: "nat \<Rightarrow> availability_assurance" where
  "sample_assurance v = \<lparr>as_anchor = [9], as_bitfield = \<lparr>data = [1], bitLength = 2\<rparr>, as_validatorIndex = v, as_signature = replicate 64 0\<rparr>"

text \<open>Five of six validators assure the report of the first core; that of the second core timed out.\<close>

definition sample_assurances :: assurances_input where
  "sample_assurances = \<lparr>ai_assurances = map sample_assurance [0, 1, 2, 4, 5], ai_slot = 20, ai_parentHash = [9],
    ai_disputesAvailAssignment = [Some \<lparr>aa_workReport = sample_report 0, aa_timeout = 18\<rparr>, Some \<lparr>aa_workReport = sample_report 1, aa_timeout = 15\<rparr>]\<rparr>"

definition hash32 :: "blob \<Rightarrow> blob" where "hash32 x = take 32 (x @ replicate 32 0)"

lemma length_hash32 [simp]: "length (hash32 x) = 32"
  by (simp add: hash32_def)

lemma sample_assured: "assured (sample_assurance v) 0" "\<not> assured (sample_assurance v) (Suc 0)"
  by (simp_all add: assured_def sample_assurance_def bit_at_def)

theorem assurances_applied_witness:
  "\<exists>r. assurances_transition small_chain hash32 (batch_verifier (\<lambda>_. True)) (map sample_validator [1, 2, 3, 4, 5, 6]) sample_assurances = Inr r \<and>
    ar_availableReports r = [sample_report 0] \<and> ar_availabilityAssignment r = [None, None]"
proof -
  let ?vs = "map sample_validator [1, 2, 3, 4, 5, 6]" and ?inp = sample_assurances
  have cores: "coresCount small_chain = 2" "validatorsSuperMajority small_chain = 5" by (simp_all add: small_chain_def tiny_data_def)
  have sized: "sized_assurances small_chain hash32 ?vs ?inp"
    by (simp add: sized_assurances_def cores sample_assurances_def sample_validator_def ED25519_KEY_BYTES_def
        sample_assurance_def ED25519_SIGNATURE_BYTES_def)
  note C = assurances_applied [OF batch_verifier_verifies [of "\<lambda>_. True"] sized]
  have two: "[0..<2] = [0, Suc 0]" by (simp add: upt_rec)
  have below2: "c < 2 \<longleftrightarrow> c = 0 \<or> c = Suc 0" for c :: nat by auto
  have "valid_assurances small_chain hash32 (\<lambda>_. True) ?vs ?inp"
    by (auto simp: valid_assurances_def cores below2 sample_assurances_def assurance_signed_def sample_assurance_def)
  with C obtain r where r: "assurances_transition small_chain hash32 (batch_verifier (\<lambda>_. True)) ?vs ?inp = Inr r"
    and e: "assurances_effect small_chain ?inp r" by blast
  have "available small_chain ?inp 0" "\<not> available small_chain ?inp (Suc 0)"
    by (simp_all add: available_def cores assurances_of_def sample_assurances_def sample_assured)
  with r e show ?thesis
    by (simp add: assurances_effect_def cores two core_after_def map_filter_simps) (simp add: sample_assurances_def)
qed

section \<open>Authorization pools\<close>

text \<open>C33: the pools after a block are, for every core, the old pool without one occurrence of each used authorizer, with the
  authorizer that the queue of the core has for the slot added, cut to the eight youngest. So no pool ever exceeds
  eight entries, and the newest entry is the one of the queue. (The comment on the class says otherwise: that each block fills
  the pool up to its full size and that a used authorizer is removed from the queue. The code, like its tests, adds one entry,
  removes from the pool and leaves the queue alone.)\<close>

theorem authorization_pools:
  assumes "wf_authorization spec st inp"
  shows "\<exists>pools. authorization_transition spec st inp = Inr pools \<and> pools = map (pool_after st inp) [0..<coresCount spec] \<and>
    (\<forall>c < coresCount spec. length (pools ! c) \<le> MAX_AUTH_POOL_SIZE \<and>
      last (pools ! c) = au_authQueues st ! c ! (an_slot inp mod AUTHORIZATION_QUEUE_SIZE))"
  using authorization_transition_eq [OF assms] pool_after_facts
  by (simp add: MAX_AUTH_POOL_SIZE_def AUTHORIZATION_QUEUE_SIZE_def)

definition sample_pools :: authorization_state where
  "sample_pools = \<lparr>au_authPools = [[[1], [2], [1]], map (\<lambda>n. [n]) [1, 2, 3, 4, 5, 6, 7, 8]],
    au_authQueues = [replicate 80 [9], replicate 80 [7]]\<rparr>"

theorem authorization_pools_witness:
  "authorization_transition small_chain sample_pools \<lparr>an_slot = 83, an_used = [(0, [[1]])]\<rparr> =
    Inr [[[2], [1], [9]], [[2], [3], [4], [5], [6], [7], [8], [7]]]"
proof -
  let ?inp = "\<lparr>an_slot = 83, an_used = [(0, [[1]])]\<rparr>"
  have cores: "coresCount small_chain = 2" by (simp add: small_chain_def tiny_data_def)
  have two: "[0..<2] = [0, Suc 0]" by (simp add: upt_rec)
  have wf: "wf_authorization small_chain sample_pools ?inp"
    by (simp add: wf_authorization_def cores sample_pools_def AUTHORIZATION_QUEUE_SIZE_def)
  show ?thesis
    using authorization_pools [OF wf] unfolding cores two
    by (simp add: pool_after_def sample_pools_def jm_get_or_def nth_Cons')
qed

section \<open>Recent history\<close>

text \<open>C34: running the transitions of a chain of blocks from the empty history gives exactly the entries of its last eight
  blocks, oldest first: each with its hash and packages, the super-peak of every accumulation root up to it, and the
  root of the state it left, which the block after it brought.\<close>

theorem recent_history:
  assumes "length bs < 2 ^ 31"
  shows "history_run hashConcat hashPeaks bs recentBlocks_empty = Some (history hashConcat hashPeaks bs) \<and>
    length (rb_blocks (history hashConcat hashPeaks bs)) = min (length bs) MAX_RECENT_HISTORY"
  using history_run_eq [OF assms] history_length by (simp add: MAX_RECENT_HISTORY_def)

definition numbered_block :: "nat \<Rightarrow> history_block" where
  "numbered_block n = \<lparr>hb_priorStateRoot = [of_nat n], hb_headerHash = [of_nat n], hb_accumulateRoot = [of_nat n], hb_workPackages = []\<rparr>"

theorem recent_history_witness:
  "\<exists>r. history_run (@) (@) (map numbered_block [0..<10]) recentBlocks_empty = Some r \<and>
    map bs_headerHash (rb_blocks r) = map (\<lambda>n. [of_nat n]) [2..<10] \<and> bs_postStateRoot (hd (rb_blocks r)) = [3] \<and>
    rb_accumulationLog r = [None, Some [8, 9], None, Some [0, 1, 2, 3, 4, 5, 6, 7]]"
proof -
  let ?bs = "map numbered_block [0..<10]"
  have "length ?bs < 2 ^ 31" by simp
  note C = recent_history [OF this, of "(@)" "(@)"]
  have "map bs_headerHash (rb_blocks (history (@) (@) ?bs)) = map (\<lambda>n. [of_nat n]) [2..<10]"
    by (rule nth_equalityI) (simp_all add: history_def MAX_RECENT_HISTORY_def entry_def numbered_block_def)
  moreover have "bs_postStateRoot (hd (rb_blocks (history (@) (@) ?bs))) = [3]"
    by (simp add: history_def MAX_RECENT_HISTORY_def hd_map entry_def numbered_block_def)
  moreover have "rb_accumulationLog (history (@) (@) ?bs) = [None, Some [8, 9], None, Some [0, 1, 2, 3, 4, 5, 6, 7]]"
    by (simp add: history_def numbered_block_def upt_rec)
  ultimately show ?thesis using C by blast
qed

section \<open>Statistics\<close>

text \<open>C35: the statistics of a block count what each validator did in it on top of its epoch, record per core the report that
  came in, the assurances and the report that became available, and per active service the work of the reports that came in, its
  preimages and its accumulation. When no two reports name the same core, the work counted per core and the work counted per
  service are both that of all reports that came in. (The comment on \<open>ServiceStatistics\<close> says that they are based on the available
  reports; the code, like its tests, takes the incoming ones.)\<close>

theorem statistics_block:
  assumes "statistics_transition spec st inp = Inr s"
  shows "statistics_effect spec st inp s \<and>
    (distinct (map wr_coreIndex (sn_incomingReports inp)) \<and> (\<forall>r \<in> set (sn_incomingReports inp). wr_coreIndex r < coresCount spec) \<longrightarrow>
      (\<forall>f \<in> set scores. core_total f spec s = f (block_score inp) \<and> service_total f s = f (block_score inp)))"
  using statistics_transition_effect [OF assms] work_balanced by blast

definition sample_statistics :: statistics_state where
  "sample_statistics = \<lparr>sst_timeslot = 11, sst_statistics = \<lparr>sd_current = replicate 6 (validatorStatistics_empty\<lparr>vs_blocks := 3\<rparr>),
    sd_previous = [], sd_cores = replicate 2 \<lparr>cs_dataAvailabilityLoad = 0, cs_popularity = 0, cs_imports = 0, cs_exports = 0,
      cs_extrinsicSize = 0, cs_extrinsicCount = 0, cs_bundleSize = 0, cs_gasUsed = 0\<rparr>, sd_services = []\<rparr>\<rparr>"

definition sample_statistics_input :: statistics_input where
  "sample_statistics_input = \<lparr>sn_slot = 12, sn_authorIndex = 1,
    sn_extrinsic = \<lparr>et_tickets = [], et_preimages = [\<lparr>pr_requester = 6, pr_blob = [1, 2]\<rparr>], et_guarantees = [],
      et_assurances = [sample_assurance 0, sample_assurance 2], et_disputes = \<lparr>dx_verdicts = [], dx_culprits = [], dx_faults = []\<rparr>\<rparr>,
    sn_incomingReports = [sample_report 1], sn_availableReports = [sample_report 0], sn_accumulationStatistics = [],
    sn_reporters = [], sn_currentValidatorData = []\<rparr>"

theorem statistics_block_witness:
  "\<exists>s. statistics_transition small_chain sample_statistics sample_statistics_input = Inr s \<and>
    map vs_assurances (sd_current s) = [1, 0, 1, 0, 0, 0] \<and> core_total rs_gasUsed small_chain s = 7 \<and> service_total rs_gasUsed s = 7"
proof -
  have cores: "coresCount small_chain = 2" "validatorsCount small_chain = 6" "epochLength small_chain = 12"
    by (simp_all add: small_chain_def tiny_data_def)
  have "\<exists>s. statistics_transition small_chain sample_statistics sample_statistics_input = Inr s"
    unfolding statistics_transition_def
    by (simp add: getStatistics_def tryAsPerValidator_def cores sample_statistics_def sample_statistics_input_def check_def author_statistics_def
        validatorStatistics_empty_def count_assurances_def js_nth_def sample_assurance_def update_core_def upt_rec Let_def
        sample_report_def calculateRefineScore_def score_step_def zero_score_def isSet_eq calculateDAScoreCore_def
        EC_SEGMENT_SIZE_def ceil_div_def collectServiceIds_def js_add_def service_score_def calculateProvidedScoreService_def asU_eq)
  then obtain s where s: "statistics_transition small_chain sample_statistics sample_statistics_input = Inr s" ..
  from statistics_block [OF s] have "statistics_effect small_chain sample_statistics sample_statistics_input s"
    and "core_total rs_gasUsed small_chain s = rs_gasUsed (block_score sample_statistics_input)"
    and "service_total rs_gasUsed s = rs_gasUsed (block_score sample_statistics_input)"
    by (simp_all add: sample_statistics_input_def sample_report_def cores scores_def)
  moreover have "rs_gasUsed (block_score sample_statistics_input) = 7"
    by (simp add: block_score_def sample_statistics_input_def sample_report_def score_of_def load_sum_def)
  ultimately show ?thesis using s
    by (simp add: statistics_effect_def base_validators_def cores sample_statistics_def sample_statistics_input_def
        validator_record_def given_by_def sample_assurance_def validatorStatistics_empty_def upt_rec Let_def)
qed

end
