(* ===== verification/BandersnatchVrf.thy ===== *)
theory BandersnatchVrf
  imports BlockCodec JsCollections ServiceState
begin

text \<open>
  The ring signatures of tickets and the header seals, \<open>packages/jam/safrole/bandersnatch-vrf.ts\<close> and
  \<open>constants.ts\<close>. The functions of the wasm module are the fields of the record \<open>bandersnatch_wasm\<close>: from byte
  strings to a byte string whose first byte is the result kind. The module keeps three ring commitments
  in a cache, which is passed as state and shown to be transparent.
\<close>

section \<open>The native functions\<close>

record bandersnatch_wasm =
  bn_getRingCommitment :: "blob \<Rightarrow> byte list"
  bn_batchVerifyTicket :: "nat \<Rightarrow> blob \<Rightarrow> blob \<Rightarrow> nat \<Rightarrow> byte list"
  bn_verifyHeaderSeals :: "blob \<Rightarrow> blob \<Rightarrow> blob \<Rightarrow> blob \<Rightarrow> blob \<Rightarrow> blob \<Rightarrow> byte list"
  bn_verifySeal :: "blob \<Rightarrow> blob \<Rightarrow> blob \<Rightarrow> blob \<Rightarrow> byte list"
  bn_generateSeal :: "blob \<Rightarrow> blob \<Rightarrow> blob \<Rightarrow> byte list"
  bn_getVrfOutputHash :: "blob \<Rightarrow> blob \<Rightarrow> byte list"
  bn_batchGenerateRingVrf :: "blob \<Rightarrow> nat list \<Rightarrow> blob \<Rightarrow> nat \<Rightarrow> blob \<Rightarrow> nat \<Rightarrow> byte list"

type_synonym 'a vrf_result = "(unit, 'a) outcome"

definition JAM_ENTROPY :: blob where "JAM_ENTROPY = map of_char ''jam_entropy''"
definition JAM_FALLBACK_SEAL :: blob where "JAM_FALLBACK_SEAL = map of_char ''jam_fallback_seal''"
definition JAM_TICKET_SEAL :: blob where "JAM_TICKET_SEAL = map of_char ''jam_ticket_seal''"

definition BANDERSNATCH_RING_ROOT_BYTES :: nat where "BANDERSNATCH_RING_ROOT_BYTES = 144"
definition BLS_KEY_BYTES :: nat where "BLS_KEY_BYTES = 144"
definition SEED_SIZE :: nat where "SEED_SIZE = 32"

text \<open>\<open>ResultValues\<close>: \<open>Ok\<close> and \<open>Error\<close>. A missing first byte is neither.\<close>

definition RESULT_OK :: byte where "RESULT_OK = 0"
definition RESULT_ERROR :: byte where "RESULT_ERROR = 1"

definition result_at :: "byte list \<Rightarrow> nat \<Rightarrow> byte \<Rightarrow> bool" where
  "result_at bytes i kind \<longleftrightarrow> i < length bytes \<and> bytes ! i = kind"

section \<open>Seals\<close>

definition verifyHeaderSeals ::
    "bandersnatch_wasm \<Rightarrow> blob \<Rightarrow> blob \<Rightarrow> blob \<Rightarrow> blob \<Rightarrow> blob \<Rightarrow> blob \<Rightarrow> (blob \<times> blob) vrf_result" where
  "verifyHeaderSeals B authorKey signature payload encodedUnsealedHeader entropySignature entropyPayloadPrefix =
    (let sealResult = bn_verifyHeaderSeals B authorKey signature payload encodedUnsealedHeader entropySignature entropyPayloadPrefix in
     if result_at sealResult 0 RESULT_ERROR then Inl (Failed ())
     else bindE (lift_throws (bytes_fromBlob (subarray sealResult 1 33) HASH_SIZE)) (\<lambda>a.
          bindE (lift_throws (bytes_fromBlob (drop 33 sealResult) HASH_SIZE)) (\<lambda>b. Inr (a, b))))"

definition verifySeal :: "bandersnatch_wasm \<Rightarrow> blob \<Rightarrow> blob \<Rightarrow> blob \<Rightarrow> blob \<Rightarrow> blob vrf_result" where
  "verifySeal B authorKey signature payload encodedUnsealedHeader =
    (let sealResult = bn_verifySeal B authorKey signature payload encodedUnsealedHeader in
     if result_at sealResult 0 RESULT_ERROR then Inl (Failed ())
     else lift_throws (bytes_fromBlob (drop 1 sealResult) HASH_SIZE))"

definition generateSeal :: "bandersnatch_wasm \<Rightarrow> blob \<Rightarrow> blob \<Rightarrow> blob \<Rightarrow> blob vrf_result" where
  "generateSeal B authorKey inp auxData =
    (let r = bn_generateSeal B authorKey inp auxData in
     if result_at r 0 RESULT_ERROR then Inl (Failed ())
     else lift_throws (bytes_fromBlob (drop 1 r) BANDERSNATCH_VRF_SIGNATURE_BYTES))"

definition getVrfOutputHash :: "bandersnatch_wasm \<Rightarrow> blob \<Rightarrow> blob \<Rightarrow> blob vrf_result" where
  "getVrfOutputHash B authorKey inp =
    (let r = bn_getVrfOutputHash B authorKey inp in
     if result_at r 0 RESULT_ERROR then Inl (Failed ())
     else lift_throws (bytes_fromBlob (drop 1 r) HASH_SIZE))"

section \<open>Ring commitments\<close>

definition getRingCommitmentNoCache :: "bandersnatch_wasm \<Rightarrow> blob \<Rightarrow> blob vrf_result" where
  "getRingCommitmentNoCache B keys =
    (let commitmentResult = bn_getRingCommitment B keys in
     if result_at commitmentResult 0 RESULT_ERROR then Inl (Failed ())
     else lift_throws (bytes_fromBlob (drop 1 commitmentResult) BANDERSNATCH_RING_ROOT_BYTES))"

record ring_cache =
  ringCommitmentIndex :: nat
  ringCommitmentCache :: "(blob \<times> blob vrf_result) list"

definition initial_ring_cache :: ring_cache where
  "initial_ring_cache = \<lparr>ringCommitmentIndex = 0, ringCommitmentCache = replicate 3 ([], Inl (Failed ()))\<rparr>"

definition getRingCommitment :: "bandersnatch_wasm \<Rightarrow> blob list \<Rightarrow> ring_cache \<Rightarrow> ring_cache \<times> blob vrf_result" where
  "getRingCommitment B validators cache =
    (let keys = blobFromParts validators in
     case List.find (\<lambda>v. blob_isEqualTo (fst v) keys) (ringCommitmentCache cache) of
       Some cacheEntry \<Rightarrow> (cache, snd cacheEntry)
     | None \<Rightarrow>
         let v = getRingCommitmentNoCache B keys; i = ringCommitmentIndex cache; entries = ringCommitmentCache cache
         in (\<lparr>ringCommitmentIndex = (i + 1) mod length entries, ringCommitmentCache = entries[i := (keys, v)]\<rparr>, v))"

section \<open>Tickets\<close>

definition ticket_context :: "blob \<Rightarrow> nat \<Rightarrow> blob" where
  "ticket_context entropy attempt = JAM_TICKET_SEAL @ entropy @ [of_nat attempt]"

definition vrf_verifyTickets ::
    "bandersnatch_wasm \<Rightarrow> nat \<Rightarrow> blob \<Rightarrow> signed_ticket list \<Rightarrow> blob \<Rightarrow> (bool \<times> blob list) throws" where
  "vrf_verifyTickets B numberOfValidators epochRoot tickets entropy =
    (let contextLength = length entropy + length JAM_TICKET_SEAL + 1;
         ticketsData = blobFromParts (map (\<lambda>ticket.
           blobFromParts [st_signature ticket, JAM_TICKET_SEAL, entropy, [of_nat (st_attempt ticket)]]) tickets);
         verificationResult = bn_batchVerifyTicket B numberOfValidators epochRoot ticketsData contextLength
     in bindE (mapE (\<lambda>c. bytes_fromBlob c HASH_SIZE) (chunks HASH_SIZE (drop 1 verificationResult))) (\<lambda>results.
          Inr (result_at verificationResult 0 RESULT_OK, results)))"

definition buildTicketVrfInputs :: "blob \<Rightarrow> nat \<Rightarrow> blob \<times> nat" where
  "buildTicketVrfInputs entropy ticketsPer =
    (let vrfInputParts = map (\<lambda>attempt. blobFromParts [JAM_TICKET_SEAL, entropy, [of_nat attempt]]) [0..<ticketsPer]
     in (blobFromParts vrfInputParts, length JAM_TICKET_SEAL + length entropy + 1))"

definition GENERATE_RESULT_ENTRY_LENGTH :: nat where
  "GENERATE_RESULT_ENTRY_LENGTH = 1 + BANDERSNATCH_PROOF_BYTES"

definition asTicketAttempt :: "nat \<Rightarrow> nat throws" where
  "asTicketAttempt x = asU8 x"

definition parse_ticket :: "byte list \<Rightarrow> nat \<Rightarrow> signed_ticket list \<times> nat \<Rightarrow> (signed_ticket list \<times> nat) vrf_result" where
  "parse_ticket result attempt = (\<lambda>(tickets, offset).
    if result_at result offset RESULT_ERROR then Inl (Failed ())
    else
      bindE (lift_throws (bytes_fromBlob (subarray result (offset + 1) (offset + GENERATE_RESULT_ENTRY_LENGTH)) BANDERSNATCH_PROOF_BYTES)) (\<lambda>signature.
      bindE (lift_throws (asTicketAttempt attempt)) (\<lambda>attempt.
        Inr (tickets @ [\<lparr>st_attempt = attempt, st_signature = signature\<rparr>], offset + GENERATE_RESULT_ENTRY_LENGTH))))"

definition parse_validator ::
    "byte list \<Rightarrow> nat \<Rightarrow> nat \<Rightarrow> signed_ticket list list \<times> nat \<Rightarrow> (signed_ticket list list \<times> nat) vrf_result" where
  "parse_validator result ticketsPer v = (\<lambda>(perValidator, offset).
    bindE (foldE (parse_ticket result) [0..<ticketsPer] ([], offset)) (\<lambda>(tickets, offset).
      Inr (perValidator @ [tickets], offset)))"

definition parseTicketsBatchOutput :: "byte list \<Rightarrow> nat \<Rightarrow> nat \<Rightarrow> signed_ticket list list vrf_result" where
  "parseTicketsBatchOutput result numValidators ticketsPer =
    bindE (foldE (parse_validator result ticketsPer) [0..<numValidators] ([], 0)) (\<lambda>(perValidator, _). Inr perValidator)"

definition vrf_generateTickets ::
    "bandersnatch_wasm \<Rightarrow> blob list \<Rightarrow> nat list \<Rightarrow> blob list \<Rightarrow> blob \<Rightarrow> nat \<Rightarrow> signed_ticket list list vrf_result" where
  "vrf_generateTickets B ringKeys proverKeyIndices secrets entropy ticketsPer =
    (if length proverKeyIndices \<noteq> length secrets then Inl (Failed ())
     else if length proverKeyIndices = 0 then Inr []
     else
       let (inputsData, vrfInputDataLen) = buildTicketVrfInputs entropy ticketsPer;
           r = bn_batchGenerateRingVrf B (blobFromParts ringKeys) proverKeyIndices (blobFromParts secrets) SEED_SIZE inputsData vrfInputDataLen
       in parseTicketsBatchOutput r (length proverKeyIndices) ticketsPer)"

section \<open>The cache is transparent\<close>

text \<open>Every entry of the cache is the commitment of its keys, but for the initial entries, which answer the empty ring.\<close>

definition cache_ok :: "bandersnatch_wasm \<Rightarrow> ring_cache \<Rightarrow> bool" where
  "cache_ok B cache \<longleftrightarrow> length (ringCommitmentCache cache) = 3 \<and> ringCommitmentIndex cache < 3 \<and>
    (\<forall>(keys, v) \<in> set (ringCommitmentCache cache). keys \<noteq> [] \<longrightarrow> v = getRingCommitmentNoCache B keys)"

fun ring_commitments :: "bandersnatch_wasm \<Rightarrow> blob list list \<Rightarrow> ring_cache \<Rightarrow> blob vrf_result list" where
  "ring_commitments B [] cache = []"
| "ring_commitments B (r # rs) cache = (let (cache, v) = getRingCommitment B r cache in v # ring_commitments B rs cache)"

lemma cache_ok_initial: "cache_ok B initial_ring_cache"
  by (simp add: cache_ok_def initial_ring_cache_def)

lemma getRingCommitment_cached:
  assumes "cache_ok B cache" "concat validators \<noteq> []" "getRingCommitment B validators cache = (cache', v)"
  shows "cache_ok B cache' \<and> v = getRingCommitmentNoCache B (concat validators)"
proof (cases "List.find (\<lambda>v. blob_isEqualTo (fst v) (blobFromParts validators)) (ringCommitmentCache cache)")
  case None
  with assms show ?thesis
    by (auto simp: getRingCommitment_def Let_def cache_ok_def blobFromParts_concat dest!: set_update_subset_insert [THEN subsetD])
next
  case (Some e)
  then have "e \<in> set (ringCommitmentCache cache)" "fst e = concat validators"
    by (auto simp: find_Some_iff blobFromParts_concat blob_isEqualTo_iff)
  with Some assms show ?thesis by (auto simp: getRingCommitment_def Let_def cache_ok_def)
qed

lemma ring_commitments_eq:
  assumes "cache_ok B cache" "\<forall>r \<in> set rs. concat r \<noteq> []"
  shows "ring_commitments B rs cache = map (\<lambda>r. getRingCommitmentNoCache B (concat r)) rs"
  using assms
proof (induction rs arbitrary: cache)
  case (Cons r rs)
  obtain cache' v where *: "getRingCommitment B r cache = (cache', v)" by fastforce
  with Cons.prems getRingCommitment_cached [OF Cons.prems(1) _ *] Cons.IH [of cache'] show ?case by simp
qed simp

end
