(* ===== verification/Safrole.thy ===== *)
theory Safrole
  imports BandersnatchVrf Disputes Containers
begin

text \<open>
  Block production, \<open>packages/jam/safrole/safrole.ts\<close> and \<open>safrole-seal.ts\<close>, over the wasm functions \<open>B\<close> and the
  hash \<open>H\<close>. The state update holds every field of the state but the designated validators, so it is returned
  as the updated state. The ring commitment comes through a cache that BandersnatchVrf shows transparent.
  The entropy has four entries and the epoch's validators are full arrays by type.
\<close>

section \<open>State\<close>

datatype safrole_sealing_keys = SealTickets "ticket list" | SealKeys "blob list"

record safrole_state =
  sf_timeslot :: nat
  sf_designatedValidatorData :: "validator_data list"
  sf_previousValidatorData :: "validator_data list"
  sf_currentValidatorData :: "validator_data list"
  sf_nextValidatorData :: "validator_data list"
  sf_entropy :: "blob list"
  sf_ticketsAccumulator :: "ticket list"
  sf_sealingKeySeries :: safrole_sealing_keys
  sf_epochRoot :: blob

record safrole_input =
  si_slot :: nat
  si_entropy :: blob
  si_extrinsic :: "signed_ticket list"
  si_punishSet :: "blob list"
  si_epochMarker :: "blob option"
  si_ticketsMarker :: "blob option"

record safrole_ok =
  so_epochMark :: "epoch_marker option"
  so_ticketsMark :: "tickets_marker option"
  so_stateUpdate :: safrole_state

datatype safrole_error =
    IncorrectData | BadSlot | UnexpectedTicket | BadTicketOrder | BadTicketProof | BadTicketAttempt
  | DuplicateTicket | EpochMarkerInvalid | TicketsMarkerInvalid

record epoch_validators =
  ev_nextValidatorData :: "validator_data list"
  ev_currentValidatorData :: "validator_data list"
  ev_previousValidatorData :: "validator_data list"
  ev_epochRoot :: blob

definition ticketComparator :: "ticket \<Rightarrow> ticket \<Rightarrow> ordering" where
  "ticketComparator a b = bytesBlobComparator (ti_id a) (ti_id b)"

section \<open>Epochs\<close>

definition isEpochChanged :: "chain_spec \<Rightarrow> safrole_state \<Rightarrow> nat \<Rightarrow> bool" where
  "isEpochChanged spec st timeslot \<longleftrightarrow> timeslot div epochLength spec > sf_timeslot st div epochLength spec"

definition isSameEpoch :: "chain_spec \<Rightarrow> safrole_state \<Rightarrow> nat \<Rightarrow> bool" where
  "isSameEpoch spec st timeslot \<longleftrightarrow> timeslot div epochLength spec = sf_timeslot st div epochLength spec"

definition isNextEpoch :: "chain_spec \<Rightarrow> safrole_state \<Rightarrow> nat \<Rightarrow> bool" where
  "isNextEpoch spec st timeslot \<longleftrightarrow> timeslot div epochLength spec = sf_timeslot st div epochLength spec + 1"

definition getSlotPhaseIndex :: "chain_spec \<Rightarrow> nat \<Rightarrow> nat" where
  "getSlotPhaseIndex spec timeslot = timeslot mod epochLength spec"

definition getEntropy :: "chain_spec \<Rightarrow> (blob \<Rightarrow> blob) \<Rightarrow> safrole_state \<Rightarrow> nat \<Rightarrow> blob \<Rightarrow> blob list throws" where
  "getEntropy spec H st timeslot entropyHash =
    (let randomnessAcc = hd (sf_entropy st); rest = tl (sf_entropy st);
         newRandomnessAcc = H (blobFromParts [randomnessAcc, entropyHash])
     in if isEpochChanged spec st timeslot then fsa_new [newRandomnessAcc, randomnessAcc, rest ! 0, rest ! 1] 4
        else fsa_new (newRandomnessAcc # rest) 4)"

section \<open>Validators\<close>

definition next_validator :: "blob list \<Rightarrow> validator_data \<Rightarrow> validator_data" where
  "next_validator postOffenders validator =
    (if sa_has hashComparator postOffenders (vd_ed25519 validator)
     then \<lparr>vd_bandersnatch = bytes_zero BANDERSNATCH_KEY_BYTES, vd_ed25519 = bytes_zero ED25519_KEY_BYTES,
       vd_bls = bytes_zero BLS_KEY_BYTES, vd_metadata = vd_metadata validator\<rparr>
     else validator)"

definition getValidatorKeys ::
    "chain_spec \<Rightarrow> (blob list \<Rightarrow> blob vrf_result) \<Rightarrow> safrole_state \<Rightarrow> nat \<Rightarrow> blob list \<Rightarrow> (safrole_error, epoch_validators) outcome" where
  "getValidatorKeys spec ringCommitment st timeslot postOffenders =
    (if \<not> isEpochChanged spec st timeslot then
       Inr \<lparr>ev_nextValidatorData = sf_nextValidatorData st, ev_currentValidatorData = sf_currentValidatorData st,
         ev_previousValidatorData = sf_previousValidatorData st, ev_epochRoot = sf_epochRoot st\<rparr>
     else
       let newNextValidators = map (next_validator postOffenders) (sf_designatedValidatorData st) in
       case ringCommitment (map vd_bandersnatch newNextValidators) of
         Inr root \<Rightarrow> Inr \<lparr>ev_nextValidatorData = newNextValidators, ev_currentValidatorData = sf_nextValidatorData st,
           ev_previousValidatorData = sf_currentValidatorData st, ev_epochRoot = root\<rparr>
       | Inl (Failed _) \<Rightarrow> Inl (Failed IncorrectData)
       | Inl (Thrown e) \<Rightarrow> Inl (Thrown e))"

definition prepareValidatorKeysForNextEpoch ::
    "chain_spec \<Rightarrow> (blob list \<Rightarrow> blob vrf_result) \<Rightarrow> safrole_state \<Rightarrow> blob list \<Rightarrow> (safrole_error, epoch_validators option) outcome" where
  "prepareValidatorKeysForNextEpoch spec ringCommitment st postOffenders =
    (let stateEpoch = sf_timeslot st div epochLength spec; nextEpochStart = (stateEpoch + 1) * epochLength spec in
     if nextEpochStart \<ge> 2 ^ 32 then Inr None
     else bindE (lift_throws (asU32 nextEpochStart)) (\<lambda>slot.
       bindE (getValidatorKeys spec ringCommitment st slot postOffenders) (\<lambda>v. Inr (Some v))))"

section \<open>Sealing keys\<close>

definition place_tickets :: "'a list \<Rightarrow> nat \<Rightarrow> 'a option list \<Rightarrow> 'a option list" where
  "place_tickets tickets i reorderedTickets =
    reorderedTickets[2 * i := Some (tickets ! i), 2 * i + 1 := Some (tickets ! (length tickets - i - 1))]"

definition reorder_tickets :: "'a list \<Rightarrow> 'a option list" where
  "reorder_tickets tickets =
    (let ticketsLength = length tickets; middle = ticketsLength div 2;
         reorderedTickets = fold (place_tickets tickets) [0..<middle] (replicate ticketsLength None)
     in if 2 * middle < ticketsLength then reorderedTickets[2 * middle := Some (tickets ! middle)] else reorderedTickets)"

definition outsideInSequencer :: "chain_spec \<Rightarrow> ticket list \<Rightarrow> tickets_marker throws" where
  "outsideInSequencer spec tickets =
    bindE (tryAsPerEpochBlock (reorder_tickets tickets) spec) (\<lambda>ts. Inr \<lparr>tm_tickets = map the ts\<rparr>)"

definition fallback_key :: "(blob \<Rightarrow> blob) \<Rightarrow> blob \<Rightarrow> validator_data list \<Rightarrow> nat \<Rightarrow> blob throws" where
  "fallback_key H entropy newValidators i =
    (let bytes = H (blobFromParts [entropy, u32AsLeBytes (int i)]) in
     bindE (dec_u32 (dec_fromBlob bytes)) (\<lambda>(n, _).
     case js_nth newValidators (nat n mod length newValidators) of
       None \<Rightarrow> Inl TypeError
     | Some v \<Rightarrow> Inr (vd_bandersnatch v)))"

definition fallbackKeySequencer :: "chain_spec \<Rightarrow> (blob \<Rightarrow> blob) \<Rightarrow> blob \<Rightarrow> validator_data list \<Rightarrow> blob list throws" where
  "fallbackKeySequencer spec H entropy newValidators =
    bindE (mapE (fallback_key H entropy newValidators) [0..<epochLength spec]) (\<lambda>result. tryAsPerEpochBlock result spec)"

definition getSlotKeySequence ::
    "chain_spec \<Rightarrow> (blob \<Rightarrow> blob) \<Rightarrow> safrole_state \<Rightarrow> nat \<Rightarrow> validator_data list \<Rightarrow> blob \<Rightarrow> safrole_sealing_keys throws" where
  "getSlotKeySequence spec H st timeslot newValidators newEntropy =
    (let m = getSlotPhaseIndex spec (sf_timeslot st) in
     if isNextEpoch spec st timeslot \<and> m \<ge> contestLength spec \<and> length (sf_ticketsAccumulator st) = epochLength spec
     then bindE (outsideInSequencer spec (sf_ticketsAccumulator st)) (\<lambda>mk. Inr (SealTickets (tm_tickets mk)))
     else if isSameEpoch spec st timeslot then Inr (sf_sealingKeySeries st)
     else bindE (fallbackKeySequencer spec H newEntropy newValidators) (\<lambda>keys. Inr (SealKeys keys)))"

section \<open>Markers\<close>

definition getEpochMark :: "chain_spec \<Rightarrow> safrole_state \<Rightarrow> nat \<Rightarrow> validator_data list \<Rightarrow> epoch_marker option" where
  "getEpochMark spec st timeslot nextValidators =
    (if \<not> isEpochChanged spec st timeslot then None
     else Some \<lparr>em_entropy = sf_entropy st ! 0, em_ticketsEntropy = sf_entropy st ! 1,
       em_validators = map (\<lambda>v. \<lparr>vk_bandersnatch = vd_bandersnatch v, vk_ed25519 = vd_ed25519 v\<rparr>) nextValidators\<rparr>)"

definition shouldIncludeTicketsMarker :: "chain_spec \<Rightarrow> safrole_state \<Rightarrow> nat \<Rightarrow> bool" where
  "shouldIncludeTicketsMarker spec st timeslot \<longleftrightarrow>
    (let m = getSlotPhaseIndex spec (sf_timeslot st); mPrime = getSlotPhaseIndex spec timeslot in
     isSameEpoch spec st timeslot \<and> m < contestLength spec \<and> contestLength spec \<le> mPrime \<and>
     length (sf_ticketsAccumulator st) = epochLength spec)"

definition getTicketsMarker :: "chain_spec \<Rightarrow> safrole_state \<Rightarrow> nat \<Rightarrow> tickets_marker option throws" where
  "getTicketsMarker spec st timeslot =
    (if shouldIncludeTicketsMarker spec st timeslot
     then bindE (outsideInSequencer spec (sf_ticketsAccumulator st)) (\<lambda>mk. Inr (Some mk))
     else Inr None)"

definition compareWithEncoding ::
    "safrole_error \<Rightarrow> 'a option \<Rightarrow> blob option \<Rightarrow> 'a descriptor \<Rightarrow> (safrole_error, unit) outcome" where
  "compareWithEncoding err actual expected cd =
    (case (actual, expected) of
       (None, None) \<Rightarrow> Inr ()
     | (Some a, Some e) \<Rightarrow>
         bindE (lift_throws (encodeObject cd a)) (\<lambda>encoded. if blob_isEqualTo encoded e then Inr () else Inl (Failed err))
     | _ \<Rightarrow> Inl (Failed err))"

section \<open>Tickets\<close>

fun verifyTickets :: "ticket list \<Rightarrow> (safrole_error, unit) outcome" where
  "verifyTickets (a # b # tickets) =
    (let order = blob_compare (ti_id a) (ti_id b) in
     if isEqual order then Inl (Failed DuplicateTicket)
     else if isGreater order then Inl (Failed BadTicketOrder)
     else verifyTickets (b # tickets))"
| "verifyTickets _ = Inr ()"

text \<open>A missing id, where the native function returned fewer hashes than tickets, is \<open>undefined\<close>.\<close>

definition with_id :: "blob list \<Rightarrow> nat \<times> signed_ticket \<Rightarrow> ticket throws" where
  "with_id ids = (\<lambda>(i, t). case js_nth ids i of
     None \<Rightarrow> Inl TypeError
   | Some h \<Rightarrow> Inr \<lparr>ti_id = h, ti_attempt = st_attempt t\<rparr>)"

definition merge_tickets :: "chain_spec \<Rightarrow> ticket list \<Rightarrow> ticket list \<Rightarrow> (safrole_error, ticket list) outcome" where
  "merge_tickets spec accumulator tickets =
    bindE (lift_throws (ss_fromSortedArray ticketComparator accumulator)) (\<lambda>ticketsFromState.
    bindE (lift_throws (ss_fromSortedArray ticketComparator tickets)) (\<lambda>ticketsFromExtrinsic.
    bindE (lift_throws (ss_fromTwoSortedCollections ticketComparator ticketsFromState ticketsFromExtrinsic)) (\<lambda>mergedTickets.
      if length ticketsFromState + length ticketsFromExtrinsic \<noteq> length mergedTickets then Inl (Failed DuplicateTicket)
      else Inr (take (epochLength spec) mergedTickets))))"

definition getNewTicketAccumulator ::
    "chain_spec \<Rightarrow> bandersnatch_wasm \<Rightarrow> safrole_state \<Rightarrow> nat \<Rightarrow> signed_ticket list \<Rightarrow> validator_data list \<Rightarrow> blob \<Rightarrow> blob \<Rightarrow>
      (safrole_error, ticket list) outcome" where
  "getNewTicketAccumulator spec B st timeslot ext validators epochRoot entropy =
    bindE (lift_throws (if length ext = 0 then Inr (True, [])
      else vrf_verifyTickets B (length validators) epochRoot ext entropy)) (\<lambda>(isValid, ids).
    if \<not> isValid then Inl (Failed BadTicketProof)
    else
      bindE (lift_throws (mapE (with_id ids) (List.enumerate 0 ext))) (\<lambda>tickets.
      bindE (verifyTickets tickets) (\<lambda>_.
      if isEpochChanged spec st timeslot then Inr tickets
      else merge_tickets spec (sf_ticketsAccumulator st) tickets)))"

definition isExtrinsicLengthValid :: "chain_spec \<Rightarrow> nat \<Rightarrow> signed_ticket list \<Rightarrow> bool" where
  "isExtrinsicLengthValid spec timeslot ext \<longleftrightarrow>
    (if getSlotPhaseIndex spec timeslot < contestLength spec then length ext \<le> maxTicketsPerExtrinsic spec
     else length ext = 0)"

definition areTicketAttemptsValid :: "chain_spec \<Rightarrow> signed_ticket list \<Rightarrow> bool" where
  "areTicketAttemptsValid spec tickets \<longleftrightarrow> \<not> (\<exists>t \<in> set tickets. st_attempt t \<ge> ticketsPerValidator spec)"

section \<open>The transition\<close>

definition safrole_transition ::
    "chain_spec \<Rightarrow> (blob \<Rightarrow> blob) \<Rightarrow> bandersnatch_wasm \<Rightarrow> (blob list \<Rightarrow> blob vrf_result) \<Rightarrow> safrole_state \<Rightarrow> safrole_input \<Rightarrow>
      (safrole_error, safrole_ok) outcome" where
  "safrole_transition spec H B ringCommitment st inp =
    (let slot = si_slot inp in
     if sf_timeslot st \<ge> slot then Inl (Failed BadSlot)
     else if \<not> isExtrinsicLengthValid spec slot (si_extrinsic inp) then Inl (Failed UnexpectedTicket)
     else if \<not> areTicketAttemptsValid spec (si_extrinsic inp) then Inl (Failed BadTicketAttempt)
     else
       bindE (getValidatorKeys spec ringCommitment st slot (si_punishSet inp)) (\<lambda>keys.
       bindE (lift_throws (getEntropy spec H st slot (si_entropy inp))) (\<lambda>entropy.
       bindE (lift_throws (getSlotKeySequence spec H st slot (ev_currentValidatorData keys) (entropy ! 2))) (\<lambda>sealingKeySeries.
       bindE (getNewTicketAccumulator spec B st slot (si_extrinsic inp) (sf_nextValidatorData st) (ev_epochRoot keys) (entropy ! 2)) (\<lambda>accumulator.
       let stateUpdate = st\<lparr>sf_timeslot := slot, sf_previousValidatorData := ev_previousValidatorData keys,
             sf_currentValidatorData := ev_currentValidatorData keys, sf_nextValidatorData := ev_nextValidatorData keys,
             sf_entropy := entropy, sf_ticketsAccumulator := accumulator, sf_sealingKeySeries := sealingKeySeries,
             sf_epochRoot := ev_epochRoot keys\<rparr>;
           epochMarker = getEpochMark spec st slot (ev_nextValidatorData keys) in
       bindE (compareWithEncoding EpochMarkerInvalid epochMarker (si_epochMarker inp) (codec_EpochMarker spec)) (\<lambda>_.
       bindE (lift_throws (getTicketsMarker spec st slot)) (\<lambda>ticketsMarker.
       bindE (compareWithEncoding TicketsMarkerInvalid ticketsMarker (si_ticketsMarker inp) (codec_TicketsMarker spec)) (\<lambda>_.
         Inr \<lparr>so_epochMark = epochMarker, so_ticketsMark = ticketsMarker, so_stateUpdate = stateUpdate\<rparr>))))))))"

section \<open>What the author and the verifier of a seal use\<close>

record safrole_seal_state =
  ls_currentValidatorData :: "validator_data list"
  ls_sealingKeySeries :: safrole_sealing_keys
  ls_currentEntropy :: blob

definition getSafroleSealState :: "chain_spec \<Rightarrow> (blob \<Rightarrow> blob) \<Rightarrow> safrole_state \<Rightarrow> nat \<Rightarrow> safrole_seal_state throws" where
  "getSafroleSealState spec H st timeslot =
    (let isFirstInNewEpoch = isEpochChanged spec st timeslot;
         currentValidatorData = (if isFirstInNewEpoch then sf_nextValidatorData st else sf_currentValidatorData st);
         newEntropy = sf_entropy st ! (if isFirstInNewEpoch then 1 else 2);
         currentEntropy = sf_entropy st ! (if isFirstInNewEpoch then 2 else 3)
     in bindE (getSlotKeySequence spec H st timeslot currentValidatorData newEntropy) (\<lambda>sealingKeySeries.
          Inr \<lparr>ls_currentValidatorData = currentValidatorData, ls_sealingKeySeries = sealingKeySeries,
            ls_currentEntropy = currentEntropy\<rparr>))"

definition getSealingKeySeries ::
    "chain_spec \<Rightarrow> (blob \<Rightarrow> blob) \<Rightarrow> (blob list \<Rightarrow> blob vrf_result) \<Rightarrow> safrole_state \<Rightarrow> nat \<Rightarrow> blob \<Rightarrow> blob list \<Rightarrow>
      (safrole_error, safrole_sealing_keys) outcome" where
  "getSealingKeySeries spec H ringCommitment st slot entropy punishSet =
    bindE (getValidatorKeys spec ringCommitment st slot punishSet) (\<lambda>keys.
      lift_throws (getSlotKeySequence spec H st slot (ev_currentValidatorData keys) entropy))"

definition blockAuthorshipTransition ::
    "chain_spec \<Rightarrow> (blob \<Rightarrow> blob) \<Rightarrow> (blob list \<Rightarrow> blob vrf_result) \<Rightarrow> safrole_state \<Rightarrow> safrole_input \<Rightarrow>
      (safrole_error, epoch_marker option \<times> tickets_marker option \<times> safrole_sealing_keys) outcome" where
  "blockAuthorshipTransition spec H ringCommitment st inp =
    bindE (getValidatorKeys spec ringCommitment st (si_slot inp) (si_punishSet inp)) (\<lambda>keys.
    bindE (lift_throws (getEntropy spec H st (si_slot inp) (si_entropy inp))) (\<lambda>entropy.
    bindE (lift_throws (getSlotKeySequence spec H st (si_slot inp) (ev_currentValidatorData keys) (entropy ! 2))) (\<lambda>sealingKeySeries.
    let epochMark = getEpochMark spec st (si_slot inp) (ev_nextValidatorData keys) in
    bindE (lift_throws (getTicketsMarker spec st (si_slot inp))) (\<lambda>ticketsMark.
      Inr (epochMark, ticketsMark, sealingKeySeries)))))"

section \<open>Seals\<close>

datatype safrole_seal_error = InvalidValidatorIndex | InvalidValidator | InvalidTicket | IncorrectSeal

type_synonym seal_result = "(safrole_seal_error, blob) outcome"

definition vrf_failed :: "'e \<Rightarrow> 'a vrf_result \<Rightarrow> ('e, 'a) outcome" where
  "vrf_failed err r = (case r of Inr x \<Rightarrow> Inr x | Inl (Failed _) \<Rightarrow> Inl (Failed err) | Inl (Thrown e) \<Rightarrow> Inl (Thrown e))"

definition verifySealWithTicket ::
    "chain_spec \<Rightarrow> bandersnatch_wasm \<Rightarrow> ticket list \<Rightarrow> nat \<Rightarrow> blob \<Rightarrow> validator_data \<Rightarrow> header \<Rightarrow> seal_result" where
  "verifySealWithTicket spec B tickets timeSlot entropy validatorData headerView =
    (let index = timeSlot mod length tickets in
     case js_nth tickets index of
       None \<Rightarrow> Inl (Failed IncorrectSeal)
     | Some t \<Rightarrow>
         let payload = blobFromParts [JAM_TICKET_SEAL, entropy, [of_nat (ti_attempt t)]] in
         bindE (lift_throws (encodeUnsealedHeader spec headerView)) (\<lambda>unsealed.
         bindE (vrf_failed IncorrectSeal (verifyHeaderSeals B (vd_bandersnatch validatorData) (hd_seal headerView) payload unsealed
           (hd_entropySource headerView) JAM_ENTROPY)) (\<lambda>(sealOutput, entropyOutput).
         if \<not> blob_isEqualTo (ti_id t) sealOutput then Inl (Failed InvalidTicket) else Inr entropyOutput)))"

definition verifySealWithKeys ::
    "chain_spec \<Rightarrow> bandersnatch_wasm \<Rightarrow> blob list \<Rightarrow> nat \<Rightarrow> blob \<Rightarrow> validator_data \<Rightarrow> header \<Rightarrow> seal_result" where
  "verifySealWithKeys spec B keys timeSlot entropy authorKey headerView =
    (let index = timeSlot mod length keys; authorBandersnatchKey = vd_bandersnatch authorKey in
     if (case js_nth keys index of None \<Rightarrow> True | Some sealingKey \<Rightarrow> \<not> blob_isEqualTo sealingKey authorBandersnatchKey)
     then Inl (Failed InvalidValidator)
     else
       let payload = blobFromParts [JAM_FALLBACK_SEAL, entropy] in
       bindE (lift_throws (encodeUnsealedHeader spec headerView)) (\<lambda>unsealed.
       bindE (vrf_failed IncorrectSeal (verifyHeaderSeals B authorBandersnatchKey (hd_seal headerView) payload unsealed
         (hd_entropySource headerView) JAM_ENTROPY)) (\<lambda>(_, entropyOutput). Inr entropyOutput)))"

definition verifyHeaderSeal :: "chain_spec \<Rightarrow> bandersnatch_wasm \<Rightarrow> header \<Rightarrow> safrole_seal_state \<Rightarrow> seal_result" where
  "verifyHeaderSeal spec B headerView st =
    (let validatorIndex = hd_bandersnatchBlockAuthorIndex headerView in
     case js_nth (ls_currentValidatorData st) validatorIndex of
       None \<Rightarrow> Inl (Failed InvalidValidatorIndex)
     | Some authorKeys \<Rightarrow>
         let timeSlot = hd_timeSlotIndex headerView; entropy = ls_currentEntropy st in
         case ls_sealingKeySeries st of
           SealTickets tickets \<Rightarrow> verifySealWithTicket spec B tickets timeSlot entropy authorKeys headerView
         | SealKeys keys \<Rightarrow> verifySealWithKeys spec B keys timeSlot entropy authorKeys headerView)"

end
