(* ===== verification/SafroleSpec.thy ===== *)
theory SafroleSpec
  imports Safrole
begin

text \<open>
  What the Safrole transition is to do: the declarative conditions under which it accepts a block, the state it
  leads to, and the agreement of the author, the verifier of the seal and the transition.
\<close>

section \<open>Outside-in order\<close>

definition outside_in :: "'a list \<Rightarrow> 'a list" where
  "outside_in ts = map (\<lambda>i. ts ! (if even i then i div 2 else length ts - 1 - i div 2)) [0..<length ts]"

lemma place_tickets_fold:
  assumes "k \<le> length ts div 2"
  shows "fold (place_tickets ts) [0..<k] (replicate (length ts) None) =
    map (\<lambda>i. if i < 2 * k then Some (outside_in ts ! i) else None) [0..<length ts]"
  using assms
proof (induction k)
  case 0
  then show ?case by (simp add: map_replicate_const)
next
  case (Suc k)
  let ?before = "map (\<lambda>i. if i < 2 * k then Some (outside_in ts ! i) else None) [0..<length ts]"
  have k: "2 * k + 1 < length ts" using Suc.prems by simp
  have "fold (place_tickets ts) [0..<Suc k] (replicate (length ts) None) = place_tickets ts k ?before" using Suc by simp
  also have "\<dots> = map (\<lambda>i. if i < 2 * Suc k then Some (outside_in ts ! i) else None) [0..<length ts]"
  proof (rule nth_equalityI)
    fix i assume "i < length (place_tickets ts k ?before)"
    then have i: "i < length ts" by (simp add: place_tickets_def)
    have "i < 2 * k \<or> i = 2 * k \<or> i = 2 * k + 1 \<or> 2 * Suc k \<le> i" by auto
    then show "place_tickets ts k ?before ! i =
        map (\<lambda>i. if i < 2 * Suc k then Some (outside_in ts ! i) else None) [0..<length ts] ! i"
      by (elim disjE) (use i k in \<open>simp_all add: place_tickets_def outside_in_def nth_list_update\<close>)
  qed (simp add: place_tickets_def)
  finally show ?case .
qed

lemma reorder_tickets_eq: "reorder_tickets ts = map Some (outside_in ts)"
proof -
  let ?n = "length ts" and ?m = "length ts div 2"
  have "reorder_tickets ts ! i = Some (outside_in ts ! i)" if "i < ?n" for i
  proof (cases "2 * ?m < ?n")
    case True
    then have "i < 2 * ?m \<or> i = 2 * ?m" using that by linarith
    then show ?thesis
      using True that by (auto simp: reorder_tickets_def Let_def place_tickets_fold nth_list_update outside_in_def)
  next
    case False
    then show ?thesis using that by (simp add: reorder_tickets_def Let_def place_tickets_fold)
  qed
  then show ?thesis
    by (intro nth_equalityI) (auto simp: reorder_tickets_def Let_def place_tickets_fold outside_in_def)
qed

lemma mset_outside_in: "mset (outside_in ts) = mset ts"
proof -
  let ?n = "length ts" and ?f = "\<lambda>i. if even i then i div 2 else length ts - 1 - i div 2"
  have inj: "inj_on ?f {0..<?n}"
  proof (rule inj_onI)
    fix i j assume ij: "i \<in> {0..<?n}" "j \<in> {0..<?n}" "?f i = ?f j"
    obtain a where a: "i = 2 * a \<or> i = 2 * a + 1" by (metis oddE evenE)
    obtain b where b: "j = 2 * b \<or> j = 2 * b + 1" by (metis oddE evenE)
    show "i = j" using a b ij by (elim disjE) auto
  qed
  have "?f ` {0..<?n} = {0..<?n}"
    by (rule endo_inj_surj [OF _ _ inj]) auto
  then have "mset (map ?f [0..<?n]) = mset [0..<?n]"
    using inj by (intro set_eq_iff_mset_eq_distinct [THEN iffD1]) (auto simp: distinct_map)
  then have "mset (map ((!) ts) (map ?f [0..<?n])) = mset (map ((!) ts) [0..<?n])" by (simp only: mset_map)
  then show ?thesis by (simp add: outside_in_def comp_def map_nth)
qed

lemma length_outside_in [simp]: "length (outside_in ts) = length ts"
  by (simp add: outside_in_def)

lemma outsideInSequencer_eq:
  "outsideInSequencer spec ts = check (length ts = epochLength spec) (Inr \<lparr>tm_tickets = outside_in ts\<rparr>)"
  by (simp add: outsideInSequencer_def tryAsPerEpochBlock_def reorder_tickets_eq check_def comp_def)

section \<open>The best tickets\<close>

lemma ticketComparator_eq: "ticketComparator a b = blob_compare (ti_id a) (ti_id b)"
  by (simp add: ticketComparator_def bytesBlobComparator_def)

interpretation ticket_cmp: total_comparator ticketComparator
  unfolding ticketComparator_eq
  by unfold_locales (auto intro: blob_cmp.cmp_refl blob_cmp.cmp_swap [THEN iffD1] blob_cmp.cmp_swap [THEN iffD2] dest: blob_cmp.cmp_trans)

definition by_id :: "ticket list \<Rightarrow> bool" where
  "by_id ts \<longleftrightarrow> sorted_wrt (\<lambda>a b. blob_compare (ti_id a) (ti_id b) = Less) ts"

lemma strict_by_id: "strict_cmp ticketComparator ts \<longleftrightarrow> by_id ts"
  by (simp add: strict_cmp_def by_id_def ticketComparator_eq)

lemma by_id_distinct: "by_id ts \<Longrightarrow> distinct (map ti_id ts)"
  unfolding by_id_def by (induction ts) (auto simp: blob_cmp.cmp_refl)

lemma verifyTickets_iff: "verifyTickets ts = Inr () \<longleftrightarrow> by_id ts"
proof -
  have "verifyTickets ts = Inr () \<longleftrightarrow> (\<forall>i. Suc i < length ts \<longrightarrow> ticketComparator (ts ! i) (ts ! Suc i) = Less)"
  proof (induction ts rule: verifyTickets.induct)
    case (1 a b ts)
    have "(\<forall>i. Suc i < length (a # b # ts) \<longrightarrow> ticketComparator ((a # b # ts) ! i) ((a # b # ts) ! Suc i) = Less) \<longleftrightarrow>
        ticketComparator a b = Less \<and> (\<forall>i. Suc i < length (b # ts) \<longrightarrow> ticketComparator ((b # ts) ! i) ((b # ts) ! Suc i) = Less)"
      by (auto simp: nth_Cons' less_Suc_eq_0_disj)
    with 1 show ?case by (cases "blob_compare (ti_id a) (ti_id b)") (auto simp: ticketComparator_eq)
  qed simp_all
  then show ?thesis by (simp add: ticket_cmp.strict_adjacent strict_by_id [symmetric])
qed

text \<open>The \<open>n\<close> tickets with the smallest ids, in order.\<close>

definition best_tickets :: "nat \<Rightarrow> ticket set \<Rightarrow> ticket list \<Rightarrow> bool" where
  "best_tickets n all best \<longleftrightarrow> by_id best \<and> set best \<subseteq> all \<and> length best = min n (card all) \<and>
    (\<forall>x \<in> all - set best. \<forall>y \<in> set best. blob_compare (ti_id y) (ti_id x) = Less)"

lemma present_ids: "present ticketComparator v ts \<longleftrightarrow> ti_id v \<in> ti_id ` set ts"
  by (auto simp: present_def ticketComparator_eq blob_compare_Equal intro: rev_image_eqI)

lemma best_take:
  assumes "by_id zs" "set zs = all"
  shows "best_tickets n all (take n zs)"
proof -
  have "distinct zs" using by_id_distinct [OF assms(1)] distinct_map by blast
  then have "card all = length zs" using assms(2) distinct_card by blast
  moreover have "by_id (take n zs @ drop n zs)" using assms(1) by simp
  then have "by_id (take n zs)" "\<forall>y \<in> set (take n zs). \<forall>x \<in> set (drop n zs). blob_compare (ti_id y) (ti_id x) = Less"
    unfolding by_id_def sorted_wrt_append by auto
  moreover have "all = set (take n zs) \<union> set (drop n zs)" using assms(2) by (metis append_take_drop_id set_append)
  ultimately show ?thesis by (auto simp: best_tickets_def min_def)
qed

lemma merge_tickets_eq:
  assumes "by_id acc" "by_id ts"
  shows "if ti_id ` set acc \<inter> ti_id ` set ts = {}
    then \<exists>r. merge_tickets spec acc ts = Inr r \<and> best_tickets (epochLength spec) (set acc \<union> set ts) r
    else merge_tickets spec acc ts = Inl (Failed DuplicateTicket)"
proof -
  have strict: "strict_cmp ticketComparator acc" "strict_cmp ticketComparator ts" using assms by (simp_all add: strict_by_id)
  obtain zs where zs: "ss_fromTwoSortedCollections ticketComparator acc ts = Inr zs" "by_id zs" "set zs \<subseteq> set acc \<union> set ts"
      "\<forall>v :: ticket. ti_id v \<in> ti_id ` set zs \<longleftrightarrow> ti_id v \<in> ti_id ` set acc \<or> ti_id v \<in> ti_id ` set ts"
    using ticket_cmp.ss_merge_spec [OF strict] unfolding strict_by_id present_ids by blast
  have ids: "ti_id ` set zs = ti_id ` set acc \<union> ti_id ` set ts"
  proof -
    have "h \<in> ti_id ` set zs \<longleftrightarrow> h \<in> ti_id ` set acc \<union> ti_id ` set ts" for h
      using zs(4) [rule_format, of "\<lparr>ti_id = h, ti_attempt = 0\<rparr>"] by simp
    then show ?thesis by blast
  qed
  have len: "length xs = card (ti_id ` set xs)" if "by_id xs" for xs :: "ticket list"
    using distinct_card [OF by_id_distinct [OF that]] by simp
  have eq: "merge_tickets spec acc ts =
      (if length acc + length ts \<noteq> length zs then Inl (Failed DuplicateTicket) else Inr (take (epochLength spec) zs))"
    using zs(1) strict by (simp add: merge_tickets_def ticket_cmp.ss_fromSortedArray_eq)
  have "length zs + card (ti_id ` set acc \<inter> ti_id ` set ts) = length acc + length ts"
    unfolding len [OF zs(2)] len [OF assms(1)] len [OF assms(2)] ids by (rule card_Un_Int [symmetric]) auto
  then have disjoint: "length acc + length ts = length zs \<longleftrightarrow> ti_id ` set acc \<inter> ti_id ` set ts = {}"
    by (metis add_cancel_left_right card_0_eq finite_Int finite_imageI finite_set)
  show ?thesis
  proof (cases "ti_id ` set acc \<inter> ti_id ` set ts = {}")
    case True
    have d: "distinct zs" "distinct acc" "distinct ts" using assms zs(2) by_id_distinct distinct_map by blast+
    have "set acc \<inter> set ts = {}" using True by blast
    then have "card (set acc \<union> set ts) = length acc + length ts"
      using d by (simp add: card_Un_disjoint distinct_card)
    then have "set zs = set acc \<union> set ts"
      using zs(3) disjoint True d(1) by (intro card_subset_eq) (simp_all add: distinct_card)
    with True eq disjoint best_take [OF zs(2)] show ?thesis by simp
  next
    case False
    with eq disjoint show ?thesis by simp
  qed
qed

section \<open>Ticket proofs\<close>

text \<open>
  What the code relies on of the batch verification: it fails as a whole unless every signature is valid for its
  context, and else gives the output hash of each, a number of 32 bytes.
\<close>

type_synonym ticket_validity = "nat \<Rightarrow> blob \<Rightarrow> blob \<Rightarrow> blob \<Rightarrow> bool"

definition verifies_tickets :: "bandersnatch_wasm \<Rightarrow> ticket_validity \<Rightarrow> (blob \<Rightarrow> blob \<Rightarrow> blob) \<Rightarrow> bool" where
  "verifies_tickets B valid out \<longleftrightarrow> (\<forall>sig ctx. length (out sig ctx) = HASH_SIZE) \<and>
    (\<forall>n root entries len. entries \<noteq> [] \<and> (\<forall>(sig, ctx) \<in> set entries. length sig = BANDERSNATCH_PROOF_BYTES \<and> length ctx = len) \<longrightarrow>
      bn_batchVerifyTicket B n root (concat (map (\<lambda>(sig, ctx). sig @ ctx) entries)) len =
        (if \<forall>(sig, ctx) \<in> set entries. valid n root sig ctx then RESULT_OK # concat (map (\<lambda>(sig, ctx). out sig ctx) entries)
         else RESULT_ERROR # replicate (HASH_SIZE * length entries) 0))"

definition ticket_valid :: "ticket_validity \<Rightarrow> nat \<Rightarrow> blob \<Rightarrow> blob \<Rightarrow> signed_ticket \<Rightarrow> bool" where
  "ticket_valid valid n root entropy t \<longleftrightarrow> valid n root (st_signature t) (ticket_context entropy (st_attempt t))"

definition new_tickets :: "(blob \<Rightarrow> blob \<Rightarrow> blob) \<Rightarrow> blob \<Rightarrow> signed_ticket list \<Rightarrow> ticket list" where
  "new_tickets out entropy ext =
    map (\<lambda>t. \<lparr>ti_id = out (st_signature t) (ticket_context entropy (st_attempt t)), ti_attempt = st_attempt t\<rparr>) ext"

lemma chunks_concat:
  assumes "0 < k" "\<forall>x \<in> set xs. length x = k"
  shows "chunks k (concat xs) = xs"
  using assms(2) by (induction xs) (use assms(1) in \<open>auto simp: chunks_step [OF assms(1)]\<close>)

lemma vrf_verifyTickets_eq:
  assumes B: "verifies_tickets B valid out" and sizes: "\<forall>t \<in> set ext. length (st_signature t) = BANDERSNATCH_PROOF_BYTES" and "ext \<noteq> []"
  shows "vrf_verifyTickets B n root ext entropy =
    (if \<forall>t \<in> set ext. ticket_valid valid n root entropy t then Inr (True, map ti_id (new_tickets out entropy ext))
     else Inr (False, replicate (length ext) (replicate HASH_SIZE 0)))"
proof -
  let ?entries = "map (\<lambda>t. (st_signature t, ticket_context entropy (st_attempt t))) ext"
  let ?len = "length entropy + length JAM_TICKET_SEAL + 1"
  have sized: "\<forall>(sig, ctx) \<in> set ?entries. length sig = BANDERSNATCH_PROOF_BYTES \<and> length ctx = ?len"
    using sizes by (auto simp: ticket_context_def)
  have call: "bn_batchVerifyTicket B n root (concat (map (\<lambda>(sig, ctx). sig @ ctx) ?entries)) ?len =
      (if \<forall>(sig, ctx) \<in> set ?entries. valid n root sig ctx then RESULT_OK # concat (map (\<lambda>(sig, ctx). out sig ctx) ?entries)
       else RESULT_ERROR # replicate (HASH_SIZE * length ?entries) 0)"
    using B sized assms(3) unfolding verifies_tickets_def by blast
  have input: "concat (map (\<lambda>(sig, ctx). sig @ ctx) ?entries) =
      blobFromParts (map (\<lambda>t. blobFromParts [st_signature t, JAM_TICKET_SEAL, entropy, [of_nat (st_attempt t)]]) ext)"
    by (simp add: blobFromParts_concat ticket_context_def comp_def)
  have len: "length (out s c) = HASH_SIZE" for s c using B by (simp add: verifies_tickets_def)
  have ids: "concat (map (\<lambda>(sig, ctx). out sig ctx) ?entries) = concat (map ti_id (new_tickets out entropy ext))"
    by (simp add: new_tickets_def comp_def)
  have keep: "mapE (\<lambda>c. bytes_fromBlob c HASH_SIZE) cs = Inr cs" if "\<forall>c \<in> set cs. length c = HASH_SIZE" for cs
    using mapE_pure [of cs "\<lambda>c. bytes_fromBlob c HASH_SIZE" id] that by (auto simp: bytes_fromBlob_def new_Bytes_def)
  have pos: "0 < HASH_SIZE" by (simp add: HASH_SIZE_def)
  have zeros: "replicate (HASH_SIZE * length ext) 0 = concat (replicate (length ext) (replicate HASH_SIZE (0 :: byte)))"
    by (induction ext) (simp_all add: replicate_add)
  show ?thesis
  proof (cases "\<forall>t \<in> set ext. ticket_valid valid n root entropy t")
    case True
    then have ok: "\<forall>(sig, ctx) \<in> set ?entries. valid n root sig ctx" by (auto simp: ticket_valid_def)
    have "bn_batchVerifyTicket B n root (concat (map (\<lambda>(sig, ctx). sig @ ctx) ?entries)) ?len =
        RESULT_OK # concat (map ti_id (new_tickets out entropy ext))" by (rule call [unfolded ids, THEN trans]) (rule if_P [OF ok])
    moreover have "\<forall>c \<in> set (map ti_id (new_tickets out entropy ext)). length c = HASH_SIZE" by (auto simp: new_tickets_def len)
    ultimately show ?thesis
      using True chunks_concat [OF pos] keep unfolding vrf_verifyTickets_def Let_def input by (simp add: result_at_def)
  next
    case False
    then have bad: "\<not> (\<forall>(sig, ctx) \<in> set ?entries. valid n root sig ctx)" by (auto simp: ticket_valid_def)
    have "bn_batchVerifyTicket B n root (concat (map (\<lambda>(sig, ctx). sig @ ctx) ?entries)) ?len =
        RESULT_ERROR # concat (replicate (length ext) (replicate HASH_SIZE 0))" by (rule call [unfolded length_map zeros, THEN trans]) (rule if_not_P [OF bad])
    then show ?thesis
      using False chunks_concat [OF pos, of "replicate (length ext) (replicate HASH_SIZE 0)"]
        keep [of "replicate (length ext) (replicate HASH_SIZE 0)"]
      unfolding vrf_verifyTickets_def Let_def input by (simp add: result_at_def RESULT_OK_def RESULT_ERROR_def)
  qed
qed

lemma mapE_with_id:
  assumes "length ids = length ext"
  shows "mapE (with_id ids) (List.enumerate 0 ext) = Inr (map2 (\<lambda>h t. \<lparr>ti_id = h, ti_attempt = st_attempt t\<rparr>) ids ext)"
proof -
  have "mapE (with_id ids) (List.enumerate 0 ext) = Inr (map (\<lambda>(i, t). \<lparr>ti_id = ids ! i, ti_attempt = st_attempt t\<rparr>) (List.enumerate 0 ext))"
    by (rule mapE_pure) (use assms in \<open>auto simp: with_id_def js_nth_def in_set_enumerate_eq\<close>)
  also have "map (\<lambda>(i, t). \<lparr>ti_id = ids ! i, ti_attempt = st_attempt t\<rparr>) (List.enumerate 0 ext) =
      map2 (\<lambda>h t. \<lparr>ti_id = h, ti_attempt = st_attempt t\<rparr>) ids ext"
    by (rule nth_equalityI) (use assms in \<open>auto simp: nth_enumerate_eq\<close>)
  finally show ?thesis .
qed

lemma getNewTicketAccumulator_iff:
  fixes entropy :: blob
  assumes B: "verifies_tickets B valid out" and sizes: "\<forall>t \<in> set ext. length (st_signature t) = BANDERSNATCH_PROOF_BYTES"
    and acc: "by_id (sf_ticketsAccumulator st)"
  defines "new \<equiv> new_tickets out entropy ext"
  shows "(\<exists>r. getNewTicketAccumulator spec B st slot ext validators root entropy = Inr r) \<longleftrightarrow>
      (\<forall>t \<in> set ext. ticket_valid valid (length validators) root entropy t) \<and> by_id new \<and>
      (\<not> isEpochChanged spec st slot \<longrightarrow> ti_id ` set (sf_ticketsAccumulator st) \<inter> ti_id ` set new = {})"
    and "getNewTicketAccumulator spec B st slot ext validators root entropy = Inr r \<Longrightarrow>
      (if isEpochChanged spec st slot then r = new
       else best_tickets (epochLength spec) (set (sf_ticketsAccumulator st) \<union> set new) r)"
proof -
  let ?ok = "\<forall>t \<in> set ext. ticket_valid valid (length validators) root entropy t"
  have ids: "(if length ext = 0 then Inr (True, []) else vrf_verifyTickets B (length validators) root ext entropy) =
      (if ?ok then Inr (True, map ti_id new) else Inr (False, replicate (length ext) (replicate HASH_SIZE 0)))"
    using vrf_verifyTickets_eq [OF B sizes, of "length validators" root entropy] by (auto simp: new_def new_tickets_def)
  have new: "mapE (with_id (map ti_id new)) (List.enumerate 0 ext) = Inr new"
    by (subst mapE_with_id) (auto simp: new_def new_tickets_def zip_map1 zip_same_conv_map)
  have eq: "getNewTicketAccumulator spec B st slot ext validators root entropy =
      (if \<not> ?ok then Inl (Failed BadTicketProof)
       else bindE (verifyTickets new) (\<lambda>_. if isEpochChanged spec st slot then Inr new
         else merge_tickets spec (sf_ticketsAccumulator st) new))"
    unfolding getNewTicketAccumulator_def ids by (simp add: new)
  have merge: "by_id new \<Longrightarrow> if ti_id ` set (sf_ticketsAccumulator st) \<inter> ti_id ` set new = {}
    then \<exists>r. merge_tickets spec (sf_ticketsAccumulator st) new = Inr r \<and>
      best_tickets (epochLength spec) (set (sf_ticketsAccumulator st) \<union> set new) r
    else merge_tickets spec (sf_ticketsAccumulator st) new = Inl (Failed DuplicateTicket)"
    by (rule merge_tickets_eq [OF acc])
  show "(\<exists>r. getNewTicketAccumulator spec B st slot ext validators root entropy = Inr r) \<longleftrightarrow>
      ?ok \<and> by_id new \<and> (\<not> isEpochChanged spec st slot \<longrightarrow> ti_id ` set (sf_ticketsAccumulator st) \<inter> ti_id ` set new = {})"
    unfolding eq using merge verifyTickets_iff [of new]
    by (cases "ti_id ` set (sf_ticketsAccumulator st) \<inter> ti_id ` set new = {}") (auto simp: bindE_Inr_iff)
  show "getNewTicketAccumulator spec B st slot ext validators root entropy = Inr r \<Longrightarrow>
      (if isEpochChanged spec st slot then r = new
       else best_tickets (epochLength spec) (set (sf_ticketsAccumulator st) \<union> set new) r)"
    unfolding eq using merge verifyTickets_iff [of new] by (auto simp: bindE_Inr_iff split: if_splits)
qed

end
