(* ===== verification/SafroleEffect.thy ===== *)
theory SafroleEffect
  imports SafroleSpec DisputesSpec
begin

text \<open>
  When the Safrole transition accepts a block and what state it leads to, and that the invariant of the state is
  kept.
\<close>

section \<open>The invariant\<close>

definition good_chain :: "chain_spec \<Rightarrow> bool" where
  "good_chain spec \<longleftrightarrow> 0 < epochLength spec \<and> 0 < validatorsCount spec \<and> ticketsPerValidator spec \<le> 256 \<and>
    maxTicketsPerExtrinsic spec \<le> epochLength spec \<and> 41 * epochLength spec \<le> MAX_LENGTH \<and> 64 + 64 * validatorsCount spec \<le> MAX_LENGTH"

definition hash_32 :: "(blob \<Rightarrow> blob) \<Rightarrow> bool" where
  "hash_32 H \<longleftrightarrow> (\<forall>x. length (H x) = HASH_SIZE)"

definition wf_ticket :: "chain_spec \<Rightarrow> ticket \<Rightarrow> bool" where
  "wf_ticket spec t \<longleftrightarrow> length (ti_id t) = HASH_SIZE \<and> ti_attempt t < ticketsPerValidator spec"

definition wf_validators :: "chain_spec \<Rightarrow> validator_data list \<Rightarrow> bool" where
  "wf_validators spec vs \<longleftrightarrow> length vs = validatorsCount spec \<and>
    (\<forall>v \<in> set vs. length (vd_bandersnatch v) = BANDERSNATCH_KEY_BYTES \<and> length (vd_ed25519 v) = ED25519_KEY_BYTES)"

definition wf_sealing_keys :: "chain_spec \<Rightarrow> safrole_sealing_keys \<Rightarrow> bool" where
  "wf_sealing_keys spec keys = (case keys of
     SealTickets ts \<Rightarrow> length ts = epochLength spec \<and> (\<forall>t \<in> set ts. wf_ticket spec t)
   | SealKeys ks \<Rightarrow> length ks = epochLength spec \<and> (\<forall>k \<in> set ks. length k = BANDERSNATCH_KEY_BYTES))"

definition wf_safrole :: "chain_spec \<Rightarrow> safrole_state \<Rightarrow> bool" where
  "wf_safrole spec st \<longleftrightarrow> length (sf_entropy st) = 4 \<and> (\<forall>h \<in> set (sf_entropy st). length h = HASH_SIZE) \<and>
    wf_validators spec (sf_designatedValidatorData st) \<and> wf_validators spec (sf_nextValidatorData st) \<and>
    wf_validators spec (sf_currentValidatorData st) \<and> wf_validators spec (sf_previousValidatorData st) \<and>
    by_id (sf_ticketsAccumulator st) \<and> length (sf_ticketsAccumulator st) \<le> epochLength spec \<and>
    (\<forall>t \<in> set (sf_ticketsAccumulator st). wf_ticket spec t) \<and> wf_sealing_keys spec (sf_sealingKeySeries st)"

definition wf_safrole_input :: "safrole_input \<Rightarrow> bool" where
  "wf_safrole_input inp \<longleftrightarrow> sorted_cmp hashComparator (si_punishSet inp) \<and>
    (\<forall>t \<in> set (si_extrinsic inp). length (st_signature t) = BANDERSNATCH_PROOF_BYTES)"

section \<open>The state after a block\<close>

definition without_offender :: "blob list \<Rightarrow> validator_data \<Rightarrow> validator_data" where
  "without_offender offenders v =
    (if vd_ed25519 v \<in> set offenders
     then \<lparr>vd_bandersnatch = replicate 32 0, vd_ed25519 = replicate 32 0, vd_bls = replicate 144 0, vd_metadata = vd_metadata v\<rparr>
     else v)"

definition next_after :: "chain_spec \<Rightarrow> safrole_state \<Rightarrow> safrole_input \<Rightarrow> validator_data list" where
  "next_after spec st inp = (if isEpochChanged spec st (si_slot inp)
     then map (without_offender (si_punishSet inp)) (sf_designatedValidatorData st) else sf_nextValidatorData st)"

definition current_after :: "chain_spec \<Rightarrow> safrole_state \<Rightarrow> nat \<Rightarrow> validator_data list" where
  "current_after spec st slot = (if isEpochChanged spec st slot then sf_nextValidatorData st else sf_currentValidatorData st)"

definition root_after :: "chain_spec \<Rightarrow> (blob list \<Rightarrow> blob vrf_result) \<Rightarrow> safrole_state \<Rightarrow> safrole_input \<Rightarrow> blob" where
  "root_after spec ring st inp = (if isEpochChanged spec st (si_slot inp)
     then (case ring (map vd_bandersnatch (next_after spec st inp)) of Inr root \<Rightarrow> root | Inl _ \<Rightarrow> []) else sf_epochRoot st)"

definition entropy_after :: "chain_spec \<Rightarrow> (blob \<Rightarrow> blob) \<Rightarrow> safrole_state \<Rightarrow> safrole_input \<Rightarrow> blob list" where
  "entropy_after spec H st inp =
    (let e = sf_entropy st; acc = H (e ! 0 @ si_entropy inp) in
     if isEpochChanged spec st (si_slot inp) then [acc, e ! 0, e ! 1, e ! 2] else [acc, e ! 1, e ! 2, e ! 3])"

text \<open>In fallback mode the author of a slot is drawn from the validators by the hash of entropy and index.\<close>

definition fallback_author :: "(blob \<Rightarrow> blob) \<Rightarrow> blob \<Rightarrow> validator_data list \<Rightarrow> nat \<Rightarrow> blob" where
  "fallback_author H entropy vs i =
    vd_bandersnatch (vs ! (nat (le_val (take 4 (H (entropy @ le_bytes 4 (int i))))) mod length vs))"

definition tickets_complete :: "chain_spec \<Rightarrow> safrole_state \<Rightarrow> bool" where
  "tickets_complete spec st \<longleftrightarrow> length (sf_ticketsAccumulator st) = epochLength spec"

definition sealing_after :: "chain_spec \<Rightarrow> (blob \<Rightarrow> blob) \<Rightarrow> safrole_state \<Rightarrow> nat \<Rightarrow> validator_data list \<Rightarrow> blob \<Rightarrow> safrole_sealing_keys" where
  "sealing_after spec H st slot vs entropy =
    (if isNextEpoch spec st slot \<and> contestLength spec \<le> sf_timeslot st mod epochLength spec \<and> tickets_complete spec st
     then SealTickets (outside_in (sf_ticketsAccumulator st))
     else if isSameEpoch spec st slot then sf_sealingKeySeries st
     else SealKeys (map (fallback_author H entropy vs) [0..<epochLength spec]))"

definition tickets_mark :: "chain_spec \<Rightarrow> safrole_state \<Rightarrow> nat \<Rightarrow> tickets_marker option" where
  "tickets_mark spec st slot =
    (if isSameEpoch spec st slot \<and> sf_timeslot st mod epochLength spec < contestLength spec \<and>
       contestLength spec \<le> slot mod epochLength spec \<and> tickets_complete spec st
     then Some \<lparr>tm_tickets = outside_in (sf_ticketsAccumulator st)\<rparr> else None)"

definition safrole_accepts ::
    "chain_spec \<Rightarrow> (blob \<Rightarrow> blob) \<Rightarrow> (blob list \<Rightarrow> blob vrf_result) \<Rightarrow> ticket_validity \<Rightarrow> (blob \<Rightarrow> blob \<Rightarrow> blob) \<Rightarrow>
      safrole_state \<Rightarrow> safrole_input \<Rightarrow> bool" where
  "safrole_accepts spec H ring valid out st inp \<longleftrightarrow>
    (let slot = si_slot inp; ext = si_extrinsic inp; entropy = entropy_after spec H st inp ! 2; new = new_tickets out entropy ext in
     sf_timeslot st < slot \<and>
     length ext \<le> (if slot mod epochLength spec < contestLength spec then maxTicketsPerExtrinsic spec else 0) \<and>
     (\<forall>t \<in> set ext. st_attempt t < ticketsPerValidator spec \<and>
       ticket_valid valid (validatorsCount spec) (root_after spec ring st inp) entropy t) \<and>
     by_id new \<and>
     (if isEpochChanged spec st slot then \<exists>root. ring (map vd_bandersnatch (next_after spec st inp)) = Inr root
      else ti_id ` set (sf_ticketsAccumulator st) \<inter> ti_id ` set new = {}) \<and>
     si_epochMarker inp = map_option (fm_bytes (fm_EpochMarker spec)) (getEpochMark spec st slot (next_after spec st inp)) \<and>
     si_ticketsMarker inp = map_option (fm_bytes (fm_TicketsMarker spec)) (tickets_mark spec st slot))"

definition safrole_effect ::
    "chain_spec \<Rightarrow> (blob \<Rightarrow> blob) \<Rightarrow> (blob list \<Rightarrow> blob vrf_result) \<Rightarrow> (blob \<Rightarrow> blob \<Rightarrow> blob) \<Rightarrow> safrole_state \<Rightarrow> safrole_input \<Rightarrow>
      safrole_state \<Rightarrow> bool" where
  "safrole_effect spec H ring out st inp st' \<longleftrightarrow>
    (let slot = si_slot inp; entropy = entropy_after spec H st inp; new = new_tickets out (entropy ! 2) (si_extrinsic inp) in
     sf_timeslot st' = slot \<and> sf_designatedValidatorData st' = sf_designatedValidatorData st \<and>
     sf_nextValidatorData st' = next_after spec st inp \<and> sf_currentValidatorData st' = current_after spec st slot \<and>
     sf_previousValidatorData st' = (if isEpochChanged spec st slot then sf_currentValidatorData st else sf_previousValidatorData st) \<and>
     sf_epochRoot st' = root_after spec ring st inp \<and> sf_entropy st' = entropy \<and>
     sf_sealingKeySeries st' = sealing_after spec H st slot (current_after spec st slot) (entropy ! 2) \<and>
     (if isEpochChanged spec st slot then sf_ticketsAccumulator st' = new
      else best_tickets (epochLength spec) (set (sf_ticketsAccumulator st) \<union> set new) (sf_ticketsAccumulator st')))"

section \<open>The steps\<close>

lemma length_4: "length xs = 4 \<longleftrightarrow> (\<exists>a b c d. xs = [a, b, c, d])"
  by (auto simp: eval_nat_numeral length_Suc_conv)

lemma getEntropy_eq:
  "length (sf_entropy st) = 4 \<Longrightarrow> getEntropy spec H st (si_slot inp) (si_entropy inp) = Inr (entropy_after spec H st inp)"
  by (auto simp: length_4 getEntropy_def entropy_after_def fsa_new_def blobFromParts_concat Let_def)

lemma next_validator_eq:
  assumes "sorted_cmp hashComparator offenders"
  shows "next_validator offenders = without_offender offenders"
proof -
  have "sa_has hashComparator offenders h \<longleftrightarrow> h \<in> set offenders" for h
    using total_comparator.sa_has_iff [OF blob_cmp.total_comparator_axioms, of offenders h] assms
    by (simp add: hashComparator_eq hash_present)
  then show ?thesis
    by (auto simp: next_validator_def without_offender_def bytes_zero_def BANDERSNATCH_KEY_BYTES_def ED25519_KEY_BYTES_def BLS_KEY_BYTES_def)
qed

lemma getValidatorKeys_eq:
  assumes "sorted_cmp hashComparator (si_punishSet inp)"
  shows "getValidatorKeys spec ring st (si_slot inp) (si_punishSet inp) =
    (if isEpochChanged spec st (si_slot inp) \<and> \<not> (\<exists>root. ring (map vd_bandersnatch (next_after spec st inp)) = Inr root)
     then Inl (case ring (map vd_bandersnatch (next_after spec st inp)) of
        Inl (Thrown e) \<Rightarrow> Thrown e | _ \<Rightarrow> Failed IncorrectData)
     else Inr \<lparr>ev_nextValidatorData = next_after spec st inp, ev_currentValidatorData = current_after spec st (si_slot inp),
       ev_previousValidatorData = (if isEpochChanged spec st (si_slot inp) then sf_currentValidatorData st else sf_previousValidatorData st),
       ev_epochRoot = root_after spec ring st inp\<rparr>)"
  using next_validator_eq [OF assms]
  by (auto simp: getValidatorKeys_def next_after_def current_after_def root_after_def Let_def split: sum.splits failure.splits)

lemma fallback_key_eq:
  assumes "hash_32 H" "vs \<noteq> []"
  shows "fallback_key H entropy vs i = Inr (fallback_author H entropy vs i)"
proof -
  let ?h = "H (entropy @ le_bytes 4 (int i))"
  have "length (take 4 ?h) = 4" using assms(1) by (simp add: hash_32_def HASH_SIZE_def)
  moreover from this have "at (dec_fromBlob ?h) (take 4 ?h)"
    by (simp add: at_iff dec_fromBlob_def) (metis append_take_drop_id)
  ultimately have "dec_u32 (dec_fromBlob ?h) = Inr (le_val (take 4 ?h), adv (dec_fromBlob ?h) 4)"
    using decodesD [OF uint_decodes(3)] by metis
  then show ?thesis
    using assms(2) by (simp add: fallback_key_def blobFromParts_concat u32AsLeBytes_eq js_nth_def fallback_author_def)
qed

lemma getSlotKeySequence_eq:
  assumes "hash_32 H" "vs \<noteq> []"
  shows "getSlotKeySequence spec H st slot vs entropy = Inr (sealing_after spec H st slot vs entropy)"
proof -
  have "mapE (fallback_key H entropy vs) [0..<epochLength spec] = Inr (map (fallback_author H entropy vs) [0..<epochLength spec])"
    by (rule mapE_pure) (rule fallback_key_eq [OF assms])
  then show ?thesis
    by (auto simp: getSlotKeySequence_def sealing_after_def getSlotPhaseIndex_def outsideInSequencer_eq tickets_complete_def
        fallbackKeySequencer_def tryAsPerEpochBlock_def check_def Let_def)
qed

lemma getTicketsMarker_eq: "getTicketsMarker spec st slot = Inr (tickets_mark spec st slot)"
  by (simp add: getTicketsMarker_def shouldIncludeTicketsMarker_def tickets_mark_def getSlotPhaseIndex_def tickets_complete_def
      outsideInSequencer_eq check_def Let_def)

lemma compareWithEncoding_eq:
  assumes "implements cd fm" "\<forall>a. actual = Some a \<longrightarrow> fm_valid fm a \<and> length (fm_bytes fm a) \<le> MAX_LENGTH"
  shows "compareWithEncoding err actual expected cd =
    (if expected = map_option (fm_bytes fm) actual then Inr () else Inl (Failed err))"
  using assms implements_encodeObject [OF assms(1)]
  by (cases actual; cases expected) (auto simp: compareWithEncoding_def)

lemma length_concat_le: "\<forall>x \<in> set xs. length x \<le> k \<Longrightarrow> length (concat xs) \<le> k * length xs"
  by (induction xs) auto

lemma epoch_mark_fits:
  assumes "good_chain spec" "length (sf_entropy st) = 4" "\<forall>h \<in> set (sf_entropy st). length h = HASH_SIZE" "wf_validators spec vs"
    "getEpochMark spec st slot vs = Some m"
  shows "fm_valid (fm_EpochMarker spec) m \<and> length (fm_bytes (fm_EpochMarker spec) m) \<le> MAX_LENGTH"
proof -
  have m: "length (em_entropy m) = 32" "length (em_ticketsEntropy m) = 32"
    "em_validators m = map (\<lambda>v. \<lparr>vk_bandersnatch = vd_bandersnatch v, vk_ed25519 = vd_ed25519 v\<rparr>) vs"
    using assms(2,3,5) by (auto simp: getEpochMark_def length_4 HASH_SIZE_def split: if_splits)
  have keys: "length (vk_bandersnatch k) = 32" "length (vk_ed25519 k) = 32" if "k \<in> set (em_validators m)" for k
    using that assms(4) by (auto simp: m wf_validators_def BANDERSNATCH_KEY_BYTES_def ED25519_KEY_BYTES_def)
  have "length (concat (map (fm_bytes fm_ValidatorKeys) (em_validators m))) \<le> 64 * length (map (fm_bytes fm_ValidatorKeys) (em_validators m))"
    by (rule length_concat_le) (auto simp: fm_ValidatorKeys_def fm_class_def fm_field_def fm_fixed_def fm_end_def keys)
  then have "length (concat (map (fm_bytes fm_ValidatorKeys) (em_validators m))) \<le> 64 * validatorsCount spec"
    using assms(4) by (simp add: m wf_validators_def)
  then have "length (fm_bytes (fm_EpochMarker spec) m) \<le> MAX_LENGTH"
    using assms(1) m(1,2)
    by (simp add: good_chain_def fm_EpochMarker_def fm_class_def fm_field_def fm_fixed_def fm_array_def fm_end_def)
  moreover have "fm_valid (fm_EpochMarker spec) m"
    using assms(4) m(1,2) keys
    by (auto simp: fm_EpochMarker_def fm_ValidatorKeys_def fm_class_def fm_field_def fm_fixed_def fm_array_def fm_end_def HASH_SIZE_def
        BANDERSNATCH_KEY_BYTES_def ED25519_KEY_BYTES_def list_all_iff)
      (simp add: m wf_validators_def)
  ultimately show ?thesis by blast
qed

lemma tickets_mark_fits:
  assumes "good_chain spec" "\<forall>t \<in> set (sf_ticketsAccumulator st). wf_ticket spec t" "tickets_mark spec st slot = Some m"
  shows "fm_valid (fm_TicketsMarker spec) m \<and> length (fm_bytes (fm_TicketsMarker spec) m) \<le> MAX_LENGTH"
proof -
  have m: "length (tm_tickets m) = epochLength spec" "set (tm_tickets m) = set (sf_ticketsAccumulator st)"
    using assms(3) mset_outside_in [of "sf_ticketsAccumulator st"]
    by (auto simp: tickets_mark_def tickets_complete_def split: if_splits dest: mset_eq_setD)
  have t: "length (ti_id t) = 32" "ti_attempt t < 256" if "t \<in> set (tm_tickets m)" for t
    using that assms(1,2) by (auto simp: m wf_ticket_def good_chain_def HASH_SIZE_def)
  have "length (fm_bytes fm_Ticket t) \<le> 41" if "t \<in> set (tm_tickets m)" for t
    using t(1) [OF that] extra_bytes_le [of "int (ti_attempt t)"]
    by (simp add: fm_Ticket_def fm_class_def fm_field_def fm_fixed_def fm_varnat_def fm_end_def)
  then have "length (concat (map (fm_bytes fm_Ticket) (tm_tickets m))) \<le> 41 * length (map (fm_bytes fm_Ticket) (tm_tickets m))"
    by (intro length_concat_le) auto
  then have "length (fm_bytes (fm_TicketsMarker spec) m) \<le> MAX_LENGTH"
    using assms(1) m(1) by (simp add: good_chain_def fm_TicketsMarker_def fm_class_def fm_field_def fm_array_def fm_end_def)
  moreover have "fm_valid (fm_TicketsMarker spec) m"
    using m(1) t by (auto simp: fm_TicketsMarker_def fm_Ticket_def fm_class_def fm_field_def fm_fixed_def fm_array_def fm_varnat_def
        fm_end_def HASH_SIZE_def list_all_iff)
  ultimately show ?thesis by blast
qed

section \<open>Acceptance and effect\<close>

lemma next_after_wf: "wf_safrole spec st \<Longrightarrow> wf_validators spec (next_after spec st inp)"
  by (auto simp: wf_safrole_def wf_validators_def next_after_def without_offender_def BANDERSNATCH_KEY_BYTES_def ED25519_KEY_BYTES_def)

lemma current_after_wf: "wf_safrole spec st \<Longrightarrow> wf_validators spec (current_after spec st slot)"
  by (simp add: wf_safrole_def current_after_def)

lemma wf_validators_ne: "good_chain spec \<Longrightarrow> wf_validators spec vs \<Longrightarrow> vs \<noteq> []"
  by (auto simp: good_chain_def wf_validators_def)

lemma bindE_ok: "bindE m f = Inr y \<longleftrightarrow> (\<exists>x. m = Inr x \<and> f x = Inr y)"
  by (rule bindE_Inr_iff)

lemma lift_throws_ok: "lift_throws m = Inr x \<longleftrightarrow> m = Inr x"
  by (cases m) simp_all

lemma safrole_transition_Inr:
  fixes ring :: "blob list \<Rightarrow> blob vrf_result"
  assumes "good_chain spec" "hash_32 H" "wf_safrole spec st" "wf_safrole_input inp"
  defines "keys \<equiv> \<lparr>ev_nextValidatorData = next_after spec st inp, ev_currentValidatorData = current_after spec st (si_slot inp),
    ev_previousValidatorData = (if isEpochChanged spec st (si_slot inp) then sf_currentValidatorData st else sf_previousValidatorData st),
    ev_epochRoot = root_after spec ring st inp\<rparr>"
    and "entropy \<equiv> entropy_after spec H st inp"
    and "mark \<equiv> getEpochMark spec st (si_slot inp) (next_after spec st inp)"
    and "tmark \<equiv> tickets_mark spec st (si_slot inp)"
  shows "safrole_transition spec H B ring st inp = Inr r \<longleftrightarrow>
    sf_timeslot st < si_slot inp \<and> isExtrinsicLengthValid spec (si_slot inp) (si_extrinsic inp) \<and>
    areTicketAttemptsValid spec (si_extrinsic inp) \<and>
    (isEpochChanged spec st (si_slot inp) \<longrightarrow> (\<exists>root. ring (map vd_bandersnatch (next_after spec st inp)) = Inr root)) \<and>
    (\<exists>acc. getNewTicketAccumulator spec B st (si_slot inp) (si_extrinsic inp) (sf_nextValidatorData st) (root_after spec ring st inp) (entropy ! 2) = Inr acc \<and>
      r = \<lparr>so_epochMark = mark, so_ticketsMark = tmark,
        so_stateUpdate = st\<lparr>sf_timeslot := si_slot inp, sf_previousValidatorData := ev_previousValidatorData keys,
          sf_currentValidatorData := ev_currentValidatorData keys, sf_nextValidatorData := ev_nextValidatorData keys,
          sf_entropy := entropy, sf_ticketsAccumulator := acc,
          sf_sealingKeySeries := sealing_after spec H st (si_slot inp) (current_after spec st (si_slot inp)) (entropy ! 2),
          sf_epochRoot := ev_epochRoot keys\<rparr>\<rparr>) \<and>
    si_epochMarker inp = map_option (fm_bytes (fm_EpochMarker spec)) mark \<and>
    si_ticketsMarker inp = map_option (fm_bytes (fm_TicketsMarker spec)) tmark"
proof -
  have e: "length (sf_entropy st) = 4" "\<forall>h \<in> set (sf_entropy st). length h = HASH_SIZE" using assms(3) by (simp_all add: wf_safrole_def)
  have p: "sorted_cmp hashComparator (si_punishSet inp)" using assms(4) by (simp add: wf_safrole_input_def)
  have vs: "current_after spec st (si_slot inp) \<noteq> []" using wf_validators_ne [OF assms(1) current_after_wf [OF assms(3)]] .
  have cmp1: "compareWithEncoding EpochMarkerInvalid mark (si_epochMarker inp) (codec_EpochMarker spec) =
      (if si_epochMarker inp = map_option (fm_bytes (fm_EpochMarker spec)) mark then Inr () else Inl (Failed EpochMarkerInvalid))"
    unfolding mark_def
    by (rule compareWithEncoding_eq [OF EpochMarker_rule])
      (use epoch_mark_fits [OF assms(1) e next_after_wf [OF assms(3)]] in blast)
  have cmp2: "compareWithEncoding TicketsMarkerInvalid tmark (si_ticketsMarker inp) (codec_TicketsMarker spec) =
      (if si_ticketsMarker inp = map_option (fm_bytes (fm_TicketsMarker spec)) tmark then Inr () else Inl (Failed TicketsMarkerInvalid))"
    unfolding tmark_def
    by (rule compareWithEncoding_eq [OF TicketsMarker_rule])
      (use tickets_mark_fits [OF assms(1)] assms(3) in \<open>auto simp: wf_safrole_def\<close>)
  show ?thesis
    unfolding safrole_transition_def Let_def getValidatorKeys_eq [OF p] getEntropy_eq [OF e(1)] entropy_def [symmetric]
    using cmp1 cmp2 getSlotKeySequence_eq [OF assms(2) vs]
    by (simp add: bindE_ok getTicketsMarker_eq mark_def [symmetric] tmark_def [symmetric] keys_def) blast
qed

lemma safrole_transition_accepts:
  assumes "good_chain spec" "hash_32 H" "wf_safrole spec st" "wf_safrole_input inp" and B: "verifies_tickets B valid out"
  shows "(\<exists>r. safrole_transition spec H B ring st inp = Inr r) \<longleftrightarrow> safrole_accepts spec H ring valid out st inp"
proof -
  have acc: "by_id (sf_ticketsAccumulator st)" "length (sf_nextValidatorData st) = validatorsCount spec"
    using assms(3) by (simp_all add: wf_safrole_def wf_validators_def)
  have sizes: "\<forall>t \<in> set (si_extrinsic inp). length (st_signature t) = BANDERSNATCH_PROOF_BYTES"
    using assms(4) by (simp add: wf_safrole_input_def)
  have "length ext \<le> (if slot mod epochLength spec < contestLength spec then maxTicketsPerExtrinsic spec else 0) \<longleftrightarrow>
      isExtrinsicLengthValid spec slot ext" for ext slot
    by (simp add: isExtrinsicLengthValid_def getSlotPhaseIndex_def)
  moreover have "(\<forall>t \<in> set ext. st_attempt t < ticketsPerValidator spec) \<longleftrightarrow> areTicketAttemptsValid spec ext" for ext
    by (auto simp: areTicketAttemptsValid_def not_le)
  ultimately show ?thesis
    unfolding safrole_transition_Inr [OF assms(1-4)] safrole_accepts_def Let_def
    using getNewTicketAccumulator_iff(1) [OF B sizes acc(1), where spec = spec and slot = "si_slot inp"
        and validators = "sf_nextValidatorData st" and root = "root_after spec ring st inp" and entropy = "entropy_after spec H st inp ! 2"]
    by (simp add: acc(2) ball_conj_distrib) metis
qed

lemma safrole_transition_effect:
  assumes "good_chain spec" "hash_32 H" "wf_safrole spec st" "wf_safrole_input inp" and B: "verifies_tickets B valid out"
    and r: "safrole_transition spec H B ring st inp = Inr r"
  shows "safrole_effect spec H ring out st inp (so_stateUpdate r)"
proof -
  have acc: "by_id (sf_ticketsAccumulator st)" using assms(3) by (simp add: wf_safrole_def)
  have sizes: "\<forall>t \<in> set (si_extrinsic inp). length (st_signature t) = BANDERSNATCH_PROOF_BYTES"
    using assms(4) by (simp add: wf_safrole_input_def)
  note new = getNewTicketAccumulator_iff(2) [OF B sizes acc]
  show ?thesis
    using r unfolding safrole_transition_Inr [OF assms(1-4)]
    by (auto simp: safrole_effect_def Let_def dest: new split: if_splits)
qed

lemma wf_sealing_after:
  assumes "good_chain spec" "wf_safrole spec st" "wf_validators spec vs"
  shows "wf_sealing_keys spec (sealing_after spec H st slot vs entropy)"
proof -
  have "vs \<noteq> []" by (rule wf_validators_ne [OF assms(1,3)])
  then have in_vs: "vs ! (k mod length vs) \<in> set vs" for k by simp
  have "\<forall>v \<in> set vs. length (vd_bandersnatch v) = BANDERSNATCH_KEY_BYTES" using assms(3) by (simp add: wf_validators_def)
  with in_vs have key: "length (fallback_author H entropy vs i) = BANDERSNATCH_KEY_BYTES" for i
    unfolding fallback_author_def by blast
  have tickets: "\<forall>t \<in> set (outside_in (sf_ticketsAccumulator st)). wf_ticket spec t"
    using assms(2) mset_eq_setD [OF mset_outside_in [of "sf_ticketsAccumulator st"]] by (auto simp: wf_safrole_def)
  have "wf_sealing_keys spec (SealTickets (outside_in (sf_ticketsAccumulator st)))" if "tickets_complete spec st"
    using that tickets by (simp add: wf_sealing_keys_def tickets_complete_def)
  moreover have "wf_sealing_keys spec (SealKeys (map (fallback_author H entropy vs) [0..<epochLength spec]))"
    using key by (simp add: wf_sealing_keys_def)
  moreover have "wf_sealing_keys spec (sf_sealingKeySeries st)" using assms(2) by (simp add: wf_safrole_def)
  ultimately show ?thesis unfolding sealing_after_def by presburger
qed

lemma safrole_transition_wf:
  assumes "good_chain spec" "hash_32 H" "wf_safrole spec st" "wf_safrole_input inp" and B: "verifies_tickets B valid out"
    and r: "safrole_transition spec H B ring st inp = Inr r"
  shows "wf_safrole spec (so_stateUpdate r)"
proof -
  let ?st = "so_stateUpdate r" and ?slot = "si_slot inp" and ?entropy = "entropy_after spec H st inp"
  let ?new = "new_tickets out (?entropy ! 2) (si_extrinsic inp)" and ?old = "sf_ticketsAccumulator st"
  have e: "safrole_effect spec H ring out st inp ?st" by (rule safrole_transition_effect [OF assms])
  have "safrole_accepts spec H ring valid out st inp" using safrole_transition_accepts [OF assms(1-5)] r by blast
  then have new: "by_id ?new" "length (si_extrinsic inp) \<le> maxTicketsPerExtrinsic spec"
    "\<forall>t \<in> set (si_extrinsic inp). st_attempt t < ticketsPerValidator spec"
    by (auto simp: safrole_accepts_def Let_def split: if_splits)
  have new_wf: "wf_ticket spec t" if "t \<in> set ?new" for t
    using that B new(3) by (auto simp: new_tickets_def wf_ticket_def verifies_tickets_def)
  have entropy: "length ?entropy = 4" "\<forall>h \<in> set ?entropy. length h = HASH_SIZE"
    using assms(2,3) by (auto simp: entropy_after_def Let_def wf_safrole_def hash_32_def length_4)
  have tickets: "by_id (sf_ticketsAccumulator ?st) \<and> length (sf_ticketsAccumulator ?st) \<le> epochLength spec \<and>
      (\<forall>t \<in> set (sf_ticketsAccumulator ?st). wf_ticket spec t)"
  proof (cases "isEpochChanged spec st ?slot")
    case True
    then have "sf_ticketsAccumulator ?st = ?new" using e by (simp add: safrole_effect_def Let_def)
    moreover have "length ?new \<le> epochLength spec" using new(2) assms(1) by (simp add: new_tickets_def good_chain_def)
    ultimately show ?thesis using new(1) new_wf by simp
  next
    case False
    then have "best_tickets (epochLength spec) (set ?old \<union> set ?new) (sf_ticketsAccumulator ?st)"
      using e by (simp add: safrole_effect_def Let_def)
    then show ?thesis using new_wf assms(3) by (auto simp: best_tickets_def wf_safrole_def)
  qed
  show ?thesis
    using e tickets entropy next_after_wf [OF assms(3)] current_after_wf [OF assms(3)] assms(3)
      wf_sealing_after [OF assms(1,3) current_after_wf [OF assms(3)]]
    by (simp add: safrole_effect_def Let_def wf_safrole_def)
qed

section \<open>Author, verifier and transition agree\<close>

lemma sealing_uses_entropy:
  assumes "length (sf_entropy st) = 4"
  shows "entropy_after spec H st inp ! 2 = sf_entropy st ! (if isEpochChanged spec st (si_slot inp) then 1 else 2)"
    "entropy_after spec H st inp ! 3 = sf_entropy st ! (if isEpochChanged spec st (si_slot inp) then 2 else 3)"
  by (simp_all add: entropy_after_def Let_def)

lemma seal_state_agrees:
  assumes "good_chain spec" "hash_32 H" "wf_safrole spec st" "wf_safrole_input inp"
    and r: "safrole_transition spec H B ring st inp = Inr r"
  shows "getSafroleSealState spec H st (si_slot inp) =
      Inr \<lparr>ls_currentValidatorData = sf_currentValidatorData (so_stateUpdate r),
        ls_sealingKeySeries = sf_sealingKeySeries (so_stateUpdate r), ls_currentEntropy = sf_entropy (so_stateUpdate r) ! 3\<rparr>"
    and "blockAuthorshipTransition spec H ring st inp =
      Inr (so_epochMark r, so_ticketsMark r, sf_sealingKeySeries (so_stateUpdate r))"
proof -
  have e: "length (sf_entropy st) = 4" using assms(3) by (simp add: wf_safrole_def)
  have p: "sorted_cmp hashComparator (si_punishSet inp)" using assms(4) by (simp add: wf_safrole_input_def)
  note vs = wf_validators_ne [OF assms(1) current_after_wf [OF assms(3)]]
  note seal = getSlotKeySequence_eq [OF assms(2) vs]
  note r' = r [unfolded safrole_transition_Inr [OF assms(1-4)]]
  show "getSafroleSealState spec H st (si_slot inp) =
      Inr \<lparr>ls_currentValidatorData = sf_currentValidatorData (so_stateUpdate r),
        ls_sealingKeySeries = sf_sealingKeySeries (so_stateUpdate r), ls_currentEntropy = sf_entropy (so_stateUpdate r) ! 3\<rparr>"
    using r' seal [where st = st and slot = "si_slot inp" and entropy = "sf_entropy st ! (if isEpochChanged spec st (si_slot inp) then 1 else 2)"]
    by (auto simp: getSafroleSealState_def Let_def current_after_def sealing_uses_entropy [OF e])
  show "blockAuthorshipTransition spec H ring st inp =
      Inr (so_epochMark r, so_ticketsMark r, sf_sealingKeySeries (so_stateUpdate r))"
    using r' seal [where st = st and slot = "si_slot inp" and entropy = "entropy_after spec H st inp ! 2"]
    unfolding blockAuthorshipTransition_def getValidatorKeys_eq [OF p] getEntropy_eq [OF e]
    by (auto simp: getTicketsMarker_eq)
qed

lemma vrf_failed_Inr [simp]: "vrf_failed err r = Inr x \<longleftrightarrow> r = Inr x"
  by (simp add: vrf_failed_def split: sum.split failure.split)

text \<open>Who may seal a header: the owner of its slot, with a proof over the entropy and the unsealed header.\<close>

definition seal_payload :: "safrole_sealing_keys \<Rightarrow> nat \<Rightarrow> blob \<Rightarrow> blob" where
  "seal_payload keys slot entropy = (case keys of
     SealKeys ks \<Rightarrow> JAM_FALLBACK_SEAL @ entropy
   | SealTickets ts \<Rightarrow> ticket_context entropy (ti_attempt (ts ! (slot mod length ts))))"

definition owns_slot :: "safrole_sealing_keys \<Rightarrow> nat \<Rightarrow> blob \<Rightarrow> blob \<Rightarrow> bool" where
  "owns_slot keys slot key out \<longleftrightarrow> (case keys of
     SealKeys ks \<Rightarrow> ks ! (slot mod length ks) = key
   | SealTickets ts \<Rightarrow> ti_id (ts ! (slot mod length ts)) = out)"

definition sealed_by_author :: "chain_spec \<Rightarrow> bandersnatch_wasm \<Rightarrow> safrole_seal_state \<Rightarrow> header \<Rightarrow> blob \<Rightarrow> bool" where
  "sealed_by_author spec B ss h e \<longleftrightarrow>
    (\<exists>v unsealed out. js_nth (ls_currentValidatorData ss) (hd_bandersnatchBlockAuthorIndex h) = Some v \<and>
      encodeUnsealedHeader spec h = Inr unsealed \<and>
      verifyHeaderSeals B (vd_bandersnatch v) (hd_seal h) (seal_payload (ls_sealingKeySeries ss) (hd_timeSlotIndex h) (ls_currentEntropy ss))
        unsealed (hd_entropySource h) JAM_ENTROPY = Inr (out, e) \<and>
      owns_slot (ls_sealingKeySeries ss) (hd_timeSlotIndex h) (vd_bandersnatch v) out)"

lemma verifyHeaderSeal_iff:
  assumes "good_chain spec" "wf_sealing_keys spec (ls_sealingKeySeries ss)"
  shows "verifyHeaderSeal spec B h ss = Inr e \<longleftrightarrow> sealed_by_author spec B ss h e"
proof (cases "js_nth (ls_currentValidatorData ss) (hd_bandersnatchBlockAuthorIndex h)")
  case None
  then show ?thesis by (simp add: verifyHeaderSeal_def sealed_by_author_def)
next
  case (Some v)
  have pos: "0 < epochLength spec" using assms(1) by (simp add: good_chain_def)
  show ?thesis
  proof (cases "ls_sealingKeySeries ss")
    case (SealTickets ts)
    with assms pos have "js_nth ts (hd_timeSlotIndex h mod length ts) = Some (ts ! (hd_timeSlotIndex h mod length ts))"
      by (simp add: js_nth_def wf_sealing_keys_def)
    with SealTickets Some show ?thesis
      by (auto simp: verifyHeaderSeal_def verifySealWithTicket_def sealed_by_author_def seal_payload_def owns_slot_def Let_def
          bindE_ok lift_throws_ok blobFromParts_concat ticket_context_def split: if_splits)
  next
    case (SealKeys ks)
    with assms pos have "js_nth ks (hd_timeSlotIndex h mod length ks) = Some (ks ! (hd_timeSlotIndex h mod length ks))"
      by (simp add: js_nth_def wf_sealing_keys_def)
    with SealKeys Some show ?thesis
      by (auto simp: verifyHeaderSeal_def verifySealWithKeys_def sealed_by_author_def seal_payload_def owns_slot_def Let_def
          bindE_ok lift_throws_ok blobFromParts_concat split: if_splits)
  qed
qed

end
