(* ===== verification/TicketGeneration.thy ===== *)
theory TicketGeneration
  imports SafroleSpec
begin

text \<open>
  Tickets that a validator generates in a batch are accepted by the batch verification: the two functions of
  \<open>bandersnatch-vrf.ts\<close> lay out the same contexts, and the output of the generation is cut where it was joined.
\<close>

text \<open>What the code relies on of the batch generation, as its comments describe it: one error byte for a malformed batch, otherwise one
  record per prover and input, in this order, each a status byte and the signature. The status is an error where the
  module has no proof; what follows it then is not read.\<close>

type_synonym ticket_prover = "blob \<Rightarrow> nat \<Rightarrow> blob \<Rightarrow> blob \<Rightarrow> blob option"
type_synonym batch_check = "blob \<Rightarrow> nat list \<Rightarrow> blob list \<Rightarrow> blob list \<Rightarrow> bool"

definition ticket_record :: "blob \<Rightarrow> blob option \<Rightarrow> blob" where
  "ticket_record junk p = (case p of Some sig \<Rightarrow> RESULT_OK # sig | None \<Rightarrow> RESULT_ERROR # junk)"

definition generates_tickets :: "bandersnatch_wasm \<Rightarrow> ticket_prover \<Rightarrow> blob \<Rightarrow> batch_check \<Rightarrow> bool" where
  "generates_tickets B prove junk malformed \<longleftrightarrow>
    (\<forall>keys i s ctx p. prove keys i s ctx = Some p \<longrightarrow> length p = BANDERSNATCH_PROOF_BYTES) \<and>
    (\<forall>keys indices secrets contexts len. 0 < len \<and> length indices = length secrets \<and> (\<forall>s \<in> set secrets. length s = SEED_SIZE) \<and>
      (\<forall>c \<in> set contexts. length c = len) \<longrightarrow>
      bn_batchGenerateRingVrf B keys indices (concat secrets) SEED_SIZE (concat contexts) len =
        (if malformed keys indices secrets contexts then [RESULT_ERROR]
         else concat (map (\<lambda>(i, s). concat (map (\<lambda>c. ticket_record junk (prove keys i s c)) contexts)) (zip indices secrets))))"

lemma parse_ticket_step:
  assumes "length sig = BANDERSNATCH_PROOF_BYTES" "attempt < 256"
  shows "parse_ticket (pre @ RESULT_OK # sig @ post) attempt (ts, length pre) =
    Inr (ts @ [\<lparr>st_attempt = attempt, st_signature = sig\<rparr>], length pre + GENERATE_RESULT_ENTRY_LENGTH)"
proof -
  let ?r = "pre @ RESULT_OK # sig @ post"
  have "subarray ?r (length pre + 1) (length pre + GENERATE_RESULT_ENTRY_LENGTH) = sig"
    using assms(1) by (simp add: subarray_def GENERATE_RESULT_ENTRY_LENGTH_def)
  moreover have "\<not> result_at ?r (length pre) RESULT_ERROR"
    by (simp add: result_at_def RESULT_OK_def RESULT_ERROR_def)
  ultimately show ?thesis
    using assms by (simp add: parse_ticket_def bytes_fromBlob_def new_Bytes_def asTicketAttempt_def asU_eq)
qed

lemma parse_ticket_error: "parse_ticket (pre @ RESULT_ERROR # post) attempt (ts, length pre) = Inl (Failed ())"
  by (simp add: parse_ticket_def result_at_def)

abbreviation signed :: "(nat \<Rightarrow> blob option) \<Rightarrow> nat \<Rightarrow> signed_ticket" where
  "signed sig a \<equiv> \<lparr>st_attempt = a, st_signature = the (sig a)\<rparr>"

lemma parse_attempts:
  assumes "\<forall>a \<in> set as. a < 256 \<and> (\<forall>p. sig a = Some p \<longrightarrow> length p = BANDERSNATCH_PROOF_BYTES)"
  shows "foldE (parse_ticket (pre @ concat (map (\<lambda>a. ticket_record junk (sig a)) as) @ post)) as (ts, length pre) =
    (if \<exists>a \<in> set as. sig a = None then Inl (Failed ())
     else Inr (ts @ map (signed sig) as, length pre + GENERATE_RESULT_ENTRY_LENGTH * length as))"
  using assms
proof (induction as arbitrary: pre ts)
  case (Cons a as)
  let ?rest = "concat (map (\<lambda>a. ticket_record junk (sig a)) as) @ post"
  show ?case
  proof (cases "sig a")
    case None
    have "parse_ticket (pre @ RESULT_ERROR # junk @ ?rest) a (ts, length pre) = Inl (Failed ())" by (rule parse_ticket_error)
    with None show ?thesis by (simp add: ticket_record_def)
  next
    case (Some p)
    have "parse_ticket (pre @ RESULT_OK # p @ ?rest) a (ts, length pre) =
        Inr (ts @ [signed sig a], length pre + GENERATE_RESULT_ENTRY_LENGTH)"
      using Cons.prems Some parse_ticket_step [of p a pre ?rest ts] by simp
    moreover have "length (pre @ RESULT_OK # p) = length pre + GENERATE_RESULT_ENTRY_LENGTH"
      using Cons.prems Some by (simp add: GENERATE_RESULT_ENTRY_LENGTH_def)
    ultimately show ?thesis
      using Cons.IH [of "pre @ RESULT_OK # p" "ts @ [signed sig a]"] Cons.prems Some by (simp add: ticket_record_def)
  qed
qed simp

lemma parse_validators:
  assumes "n \<le> 256" "\<forall>v \<in> set vs. \<forall>a < n. \<forall>p. sig v a = Some p \<longrightarrow> length p = BANDERSNATCH_PROOF_BYTES"
  shows "foldE (parse_validator (pre @ concat (map (\<lambda>v. concat (map (\<lambda>a. ticket_record junk (sig v a)) [0..<n])) vs) @ post) n) vs (tss, length pre) =
    (if \<exists>v \<in> set vs. \<exists>a < n. sig v a = None then Inl (Failed ())
     else Inr (tss @ map (\<lambda>v. map (signed (sig v)) [0..<n]) vs, length pre + GENERATE_RESULT_ENTRY_LENGTH * n * length vs))"
  using assms(2)
proof (induction vs arbitrary: pre tss)
  case (Cons v vs)
  let ?records = "\<lambda>v. concat (map (\<lambda>a. ticket_record junk (sig v a)) [0..<n])" and ?tickets = "\<lambda>v. map (signed (sig v)) [0..<n]"
  have ok: "\<forall>a \<in> set [0..<n]. a < 256 \<and> (\<forall>p. sig v a = Some p \<longrightarrow> length p = BANDERSNATCH_PROOF_BYTES)"
    using Cons.prems assms(1) by auto
  note attempts = parse_attempts [OF ok, of pre junk "concat (map ?records vs) @ post" "[]"]
  show ?case
  proof (cases "\<exists>a < n. sig v a = None")
    case True
    then have "\<exists>a \<in> set [0..<n]. sig v a = None" by auto
    with attempts have "foldE (parse_ticket (pre @ ?records v @ concat (map ?records vs) @ post)) [0..<n] ([], length pre) = Inl (Failed ())"
      by (simp only: if_True simp_thms)
    with True show ?thesis by (auto simp: parse_validator_def)
  next
    case False
    have "length (?records v) = GENERATE_RESULT_ENTRY_LENGTH * n"
    proof -
      have "map (\<lambda>a. length (ticket_record junk (sig v a))) [0..<n] = map (\<lambda>_. GENERATE_RESULT_ENTRY_LENGTH) [0..<n]"
        by (rule map_cong [OF refl]) (use Cons.prems False in \<open>force simp: GENERATE_RESULT_ENTRY_LENGTH_def ticket_record_def\<close>)
      then show ?thesis unfolding length_concat map_map comp_def by (simp only: sum_list_triv) simp
    qed
    then have len: "length (pre @ ?records v) = length pre + GENERATE_RESULT_ENTRY_LENGTH * n" by simp
    have "parse_validator (pre @ ?records v @ concat (map ?records vs) @ post) n v (tss, length pre) =
        Inr (tss @ [?tickets v], length (pre @ ?records v))"
      using attempts False len by (auto simp: parse_validator_def)
    then show ?thesis
      using Cons.IH [of "pre @ ?records v" "tss @ [?tickets v]"] Cons.prems len False by (simp add: algebra_simps)
  qed
qed simp

lemma parse_malformed:
  assumes "0 < n" "0 < m"
  shows "parseTicketsBatchOutput [RESULT_ERROR] m n = Inl (Failed ())"
  using assms parse_ticket_error [of "[]" "[]" 0 "[]"]
  by (simp add: parseTicketsBatchOutput_def parse_validator_def upt_conv_Cons)

text \<open>The proof of a prover for an attempt.\<close>

definition proof_of :: "ticket_prover \<Rightarrow> blob list \<Rightarrow> blob \<Rightarrow> nat \<times> blob \<Rightarrow> nat \<Rightarrow> blob option" where
  "proof_of prove ring entropy = (\<lambda>(i, s) a. prove (concat ring) i s (ticket_context entropy a))"

definition batch_fails ::
    "ticket_prover \<Rightarrow> batch_check \<Rightarrow> blob list \<Rightarrow> nat list \<Rightarrow> blob list \<Rightarrow> blob \<Rightarrow> nat \<Rightarrow> bool" where
  "batch_fails prove malformed ring indices secrets entropy n \<longleftrightarrow>
    malformed (concat ring) indices secrets (map (ticket_context entropy) [0..<n]) \<or>
    (\<exists>v \<in> set (zip indices secrets). \<exists>a < n. proof_of prove ring entropy v a = None)"

lemma vrf_generateTickets_eq:
  assumes B: "generates_tickets B prove junk malformed" and len: "length indices = length secrets" "\<forall>s \<in> set secrets. length s = SEED_SIZE"
    and n: "0 < n" "n \<le> 256" and ne: "indices \<noteq> []"
  shows "vrf_generateTickets B ring indices secrets entropy n =
    (if batch_fails prove malformed ring indices secrets entropy n then Inl (Failed ())
     else Inr (map (\<lambda>v. map (signed (proof_of prove ring entropy v)) [0..<n]) (zip indices secrets)))"
proof -
  let ?contexts = "map (ticket_context entropy) [0..<n]" and ?len = "Suc (length JAM_TICKET_SEAL + length entropy)"
  let ?sig = "\<lambda>j. proof_of prove ring entropy (indices ! j, secrets ! j)"
  let ?bad = "malformed (concat ring) indices secrets ?contexts"
  have inputs: "buildTicketVrfInputs entropy n = (concat ?contexts, ?len)"
    by (simp add: buildTicketVrfInputs_def blobFromParts_concat ticket_context_def [abs_def])
  have zip: "map f (zip indices secrets) = map (\<lambda>j. f (indices ! j, secrets ! j)) [0..<length indices]" for f :: "nat \<times> blob \<Rightarrow> 'c"
    using len(1) by (intro nth_equalityI) auto
  have out: "bn_batchGenerateRingVrf B (concat ring) indices (concat secrets) SEED_SIZE (concat ?contexts) ?len =
      (if ?bad then [RESULT_ERROR] else concat (map (\<lambda>j. concat (map (\<lambda>a. ticket_record junk (?sig j a)) [0..<n])) [0..<length indices]))"
  proof -
    have "bn_batchGenerateRingVrf B (concat ring) indices (concat secrets) SEED_SIZE (concat ?contexts) ?len =
        (if ?bad then [RESULT_ERROR]
         else concat (map (\<lambda>(i, s). concat (map (\<lambda>c. ticket_record junk (prove (concat ring) i s c)) ?contexts)) (zip indices secrets)))"
      using B len unfolding generates_tickets_def by (auto simp: ticket_context_def)
    then show ?thesis by (simp add: zip comp_def proof_of_def)
  qed
  have sized: "\<forall>j \<in> set [0..<length indices]. \<forall>a < n. \<forall>p. ?sig j a = Some p \<longrightarrow> length p = BANDERSNATCH_PROOF_BYTES"
    using B unfolding generates_tickets_def proof_of_def by auto
  have pairs: "set (zip indices secrets) = (\<lambda>j. (indices ! j, secrets ! j)) ` set [0..<length indices]"
    using arg_cong [OF zip [of "\<lambda>v. v"], of set] by simp
  have missing: "(\<exists>v \<in> set (zip indices secrets). \<exists>a < n. proof_of prove ring entropy v a = None) \<longleftrightarrow>
      (\<exists>j \<in> set [0..<length indices]. \<exists>a < n. ?sig j a = None)"
    unfolding pairs by (simp only: bex_simps)
  note parse = parse_validators [OF n(2) sized, of "[]" junk "[]" "[]"]
  show ?thesis
  proof (cases ?bad)
    case True
    then show ?thesis
      using ne len(1) parse_malformed [OF n(1), of "length indices"]
      by (auto simp: vrf_generateTickets_def inputs blobFromParts_concat out batch_fails_def)
  next
    case False
    then show ?thesis
      using ne len(1) parse
      by (simp add: vrf_generateTickets_def inputs blobFromParts_concat out batch_fails_def missing parseTicketsBatchOutput_def zip)
  qed
qed

lemma generated_tickets_verify:
  assumes B: "generates_tickets B prove junk malformed" "verifies_tickets B valid out"
    and args: "length indices = length secrets" "\<forall>s \<in> set secrets. length s = SEED_SIZE" "0 < n" "n \<le> 256" "indices \<noteq> []"
    and complete: "\<forall>(i, s) \<in> set (zip indices secrets). \<forall>ctx p. prove (concat ring) i s ctx = Some p \<longrightarrow> valid v root p ctx"
  shows "if batch_fails prove malformed ring indices secrets entropy n
    then vrf_generateTickets B ring indices secrets entropy n = Inl (Failed ())
    else \<exists>tss. vrf_generateTickets B ring indices secrets entropy n = Inr tss \<and>
      tss = map (\<lambda>v. map (signed (proof_of prove ring entropy v)) [0..<n]) (zip indices secrets) \<and>
      (\<forall>ts \<in> set tss. vrf_verifyTickets B v root ts entropy = Inr (True, map ti_id (new_tickets out entropy ts)))"
proof (cases "batch_fails prove malformed ring indices secrets entropy n")
  case False
  let ?tickets = "\<lambda>v. map (signed (proof_of prove ring entropy v)) [0..<n]"
  have "vrf_verifyTickets B v root ts entropy = Inr (True, map ti_id (new_tickets out entropy ts))"
    if "ts \<in> set (map ?tickets (zip indices secrets))" for ts
  proof -
    from that obtain i s where mem: "(i, s) \<in> set (zip indices secrets)" and ts: "ts = ?tickets (i, s)" by auto
    have sig: "\<exists>p. prove (concat ring) i s (ticket_context entropy a) = Some p \<and> length p = BANDERSNATCH_PROOF_BYTES \<and>
        valid v root p (ticket_context entropy a)" if "a < n" for a
    proof -
      have "proof_of prove ring entropy (i, s) a \<noteq> None"
      proof
        assume "proof_of prove ring entropy (i, s) a = None"
        with that have "\<exists>a < n. proof_of prove ring entropy (i, s) a = None" by blast
        with mem have "\<exists>v \<in> set (zip indices secrets). \<exists>a < n. proof_of prove ring entropy v a = None" by (rule bexI [rotated])
        with False show False by (simp only: batch_fails_def simp_thms)
      qed
      then obtain p where p: "prove (concat ring) i s (ticket_context entropy a) = Some p" by (auto simp: proof_of_def)
      moreover have "length p = BANDERSNATCH_PROOF_BYTES" using B(1) p unfolding generates_tickets_def by blast
      moreover have "valid v root p (ticket_context entropy a)" using complete mem p by blast
      ultimately show ?thesis by blast
    qed
    have "\<forall>t \<in> set ts. length (st_signature t) = BANDERSNATCH_PROOF_BYTES \<and> ticket_valid valid v root entropy t"
      using sig by (fastforce simp: ts proof_of_def ticket_valid_def)
    moreover have "ts \<noteq> []" using args(3) by (simp add: ts)
    ultimately show ?thesis using vrf_verifyTickets_eq [OF B(2)] by simp
  qed
  with vrf_generateTickets_eq [OF B(1) args, of ring entropy] False show ?thesis
    by (simp only: if_False) blast
qed (use vrf_generateTickets_eq [OF B(1) args] in simp)

end
