(* ===== verification/SafroleProperties.thy ===== *)
theory SafroleProperties
  imports SafroleEffect TicketGeneration TransitionProperties
begin

text \<open>
  The properties of block production, with a concrete verifier of tickets and a sample chain to evaluate them on.
\<close>

section \<open>A sample chain\<close>

text \<open>A verifier that meets its documented behaviour: it cuts the batch into its entries and judges each.\<close>

definition ticket_verifier :: "ticket_validity \<Rightarrow> (blob \<Rightarrow> blob \<Rightarrow> blob) \<Rightarrow> nat \<Rightarrow> blob \<Rightarrow> blob \<Rightarrow> nat \<Rightarrow> byte list" where
  "ticket_verifier valid out n root bs len =
    (let entries = map (\<lambda>c. (take 784 c, drop 784 c)) (chunks (784 + len) bs) in
     if \<forall>(sig, ctx) \<in> set entries. valid n root sig ctx then 0 # concat (map (\<lambda>(sig, ctx). out sig ctx) entries)
     else 1 # replicate (32 * length entries) 0)"

text \<open>The module has proofs for the first six places of a ring, and an empty ring is malformed.\<close>

definition sample_proof :: ticket_prover where
  "sample_proof keys i s ctx = (if i < 6 then Some (replicate 784 (of_nat i)) else None)"

definition sample_wasm :: "ticket_validity \<Rightarrow> (blob \<Rightarrow> blob \<Rightarrow> blob) \<Rightarrow> bandersnatch_wasm" where
  "sample_wasm valid out = \<lparr>bn_getRingCommitment = (\<lambda>keys. 0 # replicate 144 (hd keys)), bn_batchVerifyTicket = ticket_verifier valid out,
    bn_verifyHeaderSeals = (\<lambda>key sig payload h esig prefix. 0 # replicate 32 1 @ replicate 32 2),
    bn_verifySeal = (\<lambda>key sig payload h. [1]), bn_generateSeal = (\<lambda>key inp aux. [1]), bn_getVrfOutputHash = (\<lambda>key inp. [1]),
    bn_batchGenerateRingVrf = (\<lambda>keys indices secrets n inputs len.
      if keys = [] then [1] else
      concat (map (\<lambda>(i, s). concat (map (\<lambda>c. ticket_record [] (sample_proof keys i s c)) (chunks len inputs))) (zip indices (chunks n secrets))))\<rparr>"

lemma sample_wasm_verifies:
  assumes "\<And>s c. length (out s c) = 32"
  shows "verifies_tickets (sample_wasm valid out) valid out"
proof -
  have "ticket_verifier valid out n root (concat (map (\<lambda>(sig, ctx). sig @ ctx) entries)) len =
      (if \<forall>(sig, ctx) \<in> set entries. valid n root sig ctx then RESULT_OK # concat (map (\<lambda>(sig, ctx). out sig ctx) entries)
       else RESULT_ERROR # replicate (HASH_SIZE * length entries) 0)"
    if "\<forall>(sig, ctx) \<in> set entries. length sig = BANDERSNATCH_PROOF_BYTES \<and> length ctx = len" for n root entries len
  proof -
    have "chunks (784 + len) (concat (map (\<lambda>(sig, ctx). sig @ ctx) entries)) = map (\<lambda>(sig, ctx). sig @ ctx) entries"
      by (rule chunks_concat) (use that in \<open>auto simp: BANDERSNATCH_PROOF_BYTES_def\<close>)
    moreover have "map (\<lambda>c. (take 784 c, drop 784 c)) (map (\<lambda>(sig, ctx). sig @ ctx) entries) = entries"
      by (rule map_idI [of entries, unfolded id_def, THEN trans [rotated]]) (use that in \<open>auto simp: BANDERSNATCH_PROOF_BYTES_def\<close>)
    ultimately show ?thesis
      by (simp add: ticket_verifier_def Let_def RESULT_OK_def RESULT_ERROR_def HASH_SIZE_def)
  qed
  then show ?thesis using assms by (simp add: verifies_tickets_def sample_wasm_def HASH_SIZE_def)
qed

lemma sample_wasm_generates: "generates_tickets (sample_wasm valid out) sample_proof [] (\<lambda>keys indices secrets contexts. keys = [])"
proof -
  have "chunks SEED_SIZE (concat secrets) = secrets" if "\<forall>s \<in> set secrets. length s = SEED_SIZE" for secrets
    by (rule chunks_concat) (use that in \<open>auto simp: SEED_SIZE_def\<close>)
  moreover have "chunks len (concat contexts) = contexts" if "0 < len" "\<forall>c \<in> set contexts. length c = len" for len contexts
    by (rule chunks_concat) (use that in auto)
  ultimately show ?thesis
    by (simp add: generates_tickets_def sample_wasm_def sample_proof_def BANDERSNATCH_PROOF_BYTES_def RESULT_ERROR_def)
qed

definition sample_producer :: "byte \<Rightarrow> validator_data" where
  "sample_producer k = \<lparr>vd_bandersnatch = replicate 32 k, vd_ed25519 = replicate 32 k, vd_bls = replicate 144 k, vd_metadata = []\<rparr>"

definition sample_safrole :: safrole_state where
  "sample_safrole = \<lparr>sf_timeslot = 3, sf_designatedValidatorData = map sample_producer [1, 2, 3, 4, 5, 6],
    sf_previousValidatorData = map sample_producer [7, 7, 7, 7, 7, 7], sf_currentValidatorData = map sample_producer [8, 8, 8, 8, 8, 8],
    sf_nextValidatorData = map sample_producer [9, 9, 9, 9, 9, 9], sf_entropy = [replicate 32 1, replicate 32 2, replicate 32 3, replicate 32 4],
    sf_ticketsAccumulator = [\<lparr>ti_id = replicate 32 5, ti_attempt = 0\<rparr>], sf_sealingKeySeries = SealKeys (replicate 12 (replicate 32 8)),
    sf_epochRoot = replicate 144 0\<rparr>"

definition sample_out :: "blob \<Rightarrow> blob \<Rightarrow> blob" where "sample_out sig ctx = hash32 sig"
definition sample_ring :: "blob list \<Rightarrow> blob vrf_result" where
  "sample_ring keys = getRingCommitmentNoCache (sample_wasm (\<lambda>_ _ _ _. True) sample_out) (concat keys)"

text \<open>One ticket in the same epoch, and the first block of the next epoch, where the second designated validator is an offender.\<close>

definition ticket_block :: safrole_input where
  "ticket_block = \<lparr>si_slot = 4, si_entropy = replicate 32 9, si_extrinsic = [\<lparr>st_attempt = 1, st_signature = replicate 784 4\<rparr>],
    si_punishSet = [], si_epochMarker = None, si_ticketsMarker = None\<rparr>"

definition epoch_block :: safrole_input where
  "epoch_block = \<lparr>si_slot = 12, si_entropy = replicate 32 9, si_extrinsic = [], si_punishSet = [replicate 32 2],
    si_epochMarker = Some (replicate 32 1 @ replicate 32 2 @ concat (map (\<lambda>k. replicate 64 k) [1, 0, 3, 4, 5, 6])), si_ticketsMarker = None\<rparr>"

lemma small_chain_fields: "epochLength small_chain = 12" "validatorsCount small_chain = 6" "contestLength small_chain = 10"
  "ticketsPerValidator small_chain = 3" "maxTicketsPerExtrinsic small_chain = 3"
  by (simp_all add: small_chain_def tiny_data_def)

lemma sample_producer_facts:
  "good_chain small_chain" "hash_32 hash32" "wf_safrole small_chain sample_safrole" "wf_safrole_input ticket_block" "wf_safrole_input epoch_block"
  "verifies_tickets (sample_wasm valid sample_out) valid sample_out"
proof -
  show "good_chain small_chain" by (simp add: good_chain_def small_chain_fields MAX_LENGTH_def)
  show "hash_32 hash32" by (simp add: hash_32_def HASH_SIZE_def)
  show "wf_safrole small_chain sample_safrole"
    by (simp add: wf_safrole_def sample_safrole_def wf_validators_def small_chain_fields wf_ticket_def wf_sealing_keys_def by_id_def
        HASH_SIZE_def BANDERSNATCH_KEY_BYTES_def ED25519_KEY_BYTES_def sample_producer_def)
  show "wf_safrole_input ticket_block" "wf_safrole_input epoch_block"
    by (simp_all add: wf_safrole_input_def ticket_block_def epoch_block_def BANDERSNATCH_PROOF_BYTES_def)
  show "verifies_tickets (sample_wasm valid sample_out) valid sample_out"
    by (rule sample_wasm_verifies) (simp add: sample_out_def)
qed

lemma sample_commitment: "getRingCommitmentNoCache (sample_wasm valid out) keys = Inr (replicate 144 (hd keys))"
  by (simp add: getRingCommitmentNoCache_def sample_wasm_def result_at_def RESULT_ERROR_def bytes_fromBlob_def
      new_Bytes_def BANDERSNATCH_RING_ROOT_BYTES_def)

lemma sample_ring_ok: "sample_ring keys = Inr (replicate 144 (hd (concat keys)))"
  by (simp add: sample_ring_def sample_commitment)

section \<open>The transition\<close>

text \<open>C36: Safrole accepts a block exactly when its slot is later than the state's, its tickets come before the end of the
  contest, are not too many, of allowed attempts, with valid proofs, strictly ordered by id and not known yet, the ring of a new
  epoch has a commitment, and the markers are the encodings of those the state gives.\<close>

theorem safrole_acceptance:
  assumes "good_chain spec" "hash_32 H" "wf_safrole spec st" "wf_safrole_input inp" "verifies_tickets B valid out"
  shows "(\<exists>r. safrole_transition spec H B ring st inp = Inr r) \<longleftrightarrow> safrole_accepts spec H ring valid out st inp"
  by (rule safrole_transition_accepts [OF assms])

theorem safrole_acceptance_witness:
  "(\<exists>r. safrole_transition small_chain hash32 (sample_wasm (\<lambda>n root sig ctx. n = 6) sample_out) sample_ring sample_safrole ticket_block = Inr r) \<and>
    \<not> (\<exists>r. safrole_transition small_chain hash32 (sample_wasm (\<lambda>n root sig ctx. n = 5) sample_out) sample_ring sample_safrole ticket_block = Inr r)"
proof -
  note C = safrole_acceptance [OF sample_producer_facts(1-4,6)]
  have "safrole_accepts small_chain hash32 sample_ring (\<lambda>n root sig ctx. n = 6) sample_out sample_safrole ticket_block"
    by (simp add: safrole_accepts_def Let_def small_chain_fields sample_safrole_def ticket_block_def isEpochChanged_def ticket_valid_def
        new_tickets_def by_id_def sample_out_def hash32_def getEpochMark_def tickets_mark_def)
  moreover have "\<not> safrole_accepts small_chain hash32 sample_ring (\<lambda>n root sig ctx. n = 5) sample_out sample_safrole ticket_block"
    by (simp add: safrole_accepts_def Let_def small_chain_fields ticket_block_def ticket_valid_def)
  ultimately show ?thesis using C by blast
qed

text \<open>C37: an accepted block rotates the validator sets on a new epoch, with offenders blanked in the designated set, and the entropy;
  it chooses the sealing keys, keeps the tickets with the smallest ids of old and new (only the new on a new epoch), and keeps the
  invariant of the state: full validator sets, ordered bounded tickets, full sealing keys.\<close>

theorem safrole_applied:
  assumes "good_chain spec" "hash_32 H" "wf_safrole spec st" "wf_safrole_input inp" "verifies_tickets B valid out"
    "safrole_transition spec H B ring st inp = Inr r"
  shows "safrole_effect spec H ring out st inp (so_stateUpdate r) \<and> wf_safrole spec (so_stateUpdate r)"
  using safrole_transition_effect [OF assms] safrole_transition_wf [OF assms] by blast

lemma epoch_block_accepted:
  "\<exists>r. safrole_transition small_chain hash32 (sample_wasm (\<lambda>_ _ _ _. True) sample_out) sample_ring sample_safrole epoch_block = Inr r"
proof -
  have "safrole_accepts small_chain hash32 sample_ring (\<lambda>_ _ _ _. True) sample_out sample_safrole epoch_block"
    by (simp add: safrole_accepts_def Let_def small_chain_fields sample_safrole_def epoch_block_def isEpochChanged_def isSameEpoch_def
        new_tickets_def by_id_def getEpochMark_def tickets_mark_def sample_ring_ok next_after_def without_offender_def sample_producer_def
        fm_EpochMarker_def fm_ValidatorKeys_def fm_class_def fm_field_def fm_fixed_def fm_array_def fm_end_def replicate_add [symmetric])
  then show ?thesis using safrole_transition_accepts [OF sample_producer_facts(1-3,5,6)] by blast
qed

lemma epoch_block_sealing:
  "sealing_after small_chain hash32 sample_safrole 12 (map sample_producer [9, 9, 9, 9, 9, 9]) e = SealKeys (replicate 12 (replicate 32 9))"
proof -
  have same: "map sample_producer [9, 9, 9, 9, 9, 9] ! (n mod 6) = sample_producer 9" for n
  proof -
    have "n mod 6 < 6" by simp
    then have "n mod 6 = 0 \<or> n mod 6 = 1 \<or> n mod 6 = 2 \<or> n mod 6 = 3 \<or> n mod 6 = 4 \<or> n mod 6 = 5" by presburger
    then show ?thesis by (elim disjE) simp_all
  qed
  have "map (fallback_author hash32 e (map sample_producer [9, 9, 9, 9, 9, 9])) [0..<12] = map (\<lambda>_. replicate 32 9) [0..<12]"
    by (rule map_cong [OF refl]) (use same in \<open>simp add: fallback_author_def sample_producer_def\<close>)
  then show ?thesis
    by (simp add: sealing_after_def isNextEpoch_def isSameEpoch_def sample_safrole_def small_chain_fields map_replicate_const del: upt_Suc)
qed

lemma epoch_block_effect:
  assumes "safrole_effect small_chain hash32 sample_ring sample_out sample_safrole epoch_block st"
  shows "map vd_bandersnatch (sf_nextValidatorData st) = map (replicate 32) [1, 0, 3, 4, 5, 6]"
    "sf_currentValidatorData st = map sample_producer [9, 9, 9, 9, 9, 9]"
    "sf_ticketsAccumulator st = []" "sf_sealingKeySeries st = SealKeys (replicate 12 (replicate 32 9))"
  using assms epoch_block_sealing
  by (simp_all add: safrole_effect_def Let_def small_chain_fields epoch_block_def sample_safrole_def isEpochChanged_def
      next_after_def current_after_def without_offender_def sample_producer_def new_tickets_def)

theorem safrole_applied_witness:
  "\<exists>r. safrole_transition small_chain hash32 (sample_wasm (\<lambda>_ _ _ _. True) sample_out) sample_ring sample_safrole epoch_block = Inr r \<and>
    wf_safrole small_chain (so_stateUpdate r) \<and>
    map vd_bandersnatch (sf_nextValidatorData (so_stateUpdate r)) = map (replicate 32) [1, 0, 3, 4, 5, 6] \<and>
    sf_ticketsAccumulator (so_stateUpdate r) = [] \<and> sf_sealingKeySeries (so_stateUpdate r) = SealKeys (replicate 12 (replicate 32 9))"
proof -
  obtain r where r: "safrole_transition small_chain hash32 (sample_wasm (\<lambda>_ _ _ _. True) sample_out) sample_ring sample_safrole epoch_block = Inr r"
    using epoch_block_accepted by blast
  from safrole_applied [OF sample_producer_facts(1-3,5,6) r] r show ?thesis using epoch_block_effect by blast
qed

text \<open>C38: author, verifier and transition agree. Whatever block Safrole accepts, the state in which its seal is checked beforehand is
  that of the state after it, and the author computes the same markers and sealing keys. A seal is then verified exactly when it is
  that of the one validator the slot belongs to: the key of the slot is the author's, or the output of its proof is the winning ticket.\<close>

theorem sealing_agreement:
  assumes "good_chain spec" "hash_32 H" "wf_safrole spec st" "wf_safrole_input inp" "verifies_tickets B valid out"
    "safrole_transition spec H B ring st inp = Inr r"
  shows "\<exists>ss. getSafroleSealState spec H st (si_slot inp) = Inr ss \<and>
    ss = \<lparr>ls_currentValidatorData = sf_currentValidatorData (so_stateUpdate r),
      ls_sealingKeySeries = sf_sealingKeySeries (so_stateUpdate r), ls_currentEntropy = sf_entropy (so_stateUpdate r) ! 3\<rparr> \<and>
    blockAuthorshipTransition spec H ring st inp = Inr (so_epochMark r, so_ticketsMark r, sf_sealingKeySeries (so_stateUpdate r)) \<and>
    (\<forall>h e. verifyHeaderSeal spec B h ss = Inr e \<longleftrightarrow> sealed_by_author spec B ss h e)"
proof -
  have "wf_sealing_keys spec (sf_sealingKeySeries (so_stateUpdate r))"
    using safrole_transition_wf [OF assms] by (simp add: wf_safrole_def)
  then show ?thesis
    using seal_state_agrees [OF assms(1-4,6)] by (simp add: verifyHeaderSeal_iff [OF assms(1)])
qed

definition sample_header :: header where
  "sample_header = header_empty\<lparr>hd_timeSlotIndex := 12, hd_bandersnatchBlockAuthorIndex := 3\<rparr>"

theorem sealing_agreement_witness:
  "\<exists>ss. getSafroleSealState small_chain hash32 sample_safrole 12 = Inr ss \<and>
    verifyHeaderSeal small_chain (sample_wasm (\<lambda>_ _ _ _. True) sample_out) sample_header ss = Inr (replicate 32 2) \<and>
    \<not> (\<exists>e. verifyHeaderSeal small_chain (sample_wasm (\<lambda>_ _ _ _. True) sample_out) (sample_header\<lparr>hd_bandersnatchBlockAuthorIndex := 6\<rparr>) ss = Inr e)"
proof -
  let ?B = "sample_wasm (\<lambda>_ _ _ _. True) sample_out"
  obtain r where r: "safrole_transition small_chain hash32 ?B sample_ring sample_safrole epoch_block = Inr r"
    using epoch_block_accepted by blast
  from sealing_agreement [OF sample_producer_facts(1-3,5,6) r]
  obtain ss where ss: "getSafroleSealState small_chain hash32 sample_safrole 12 = Inr ss"
      "ss = \<lparr>ls_currentValidatorData = sf_currentValidatorData (so_stateUpdate r),
        ls_sealingKeySeries = sf_sealingKeySeries (so_stateUpdate r), ls_currentEntropy = sf_entropy (so_stateUpdate r) ! 3\<rparr>"
      "\<forall>h e. verifyHeaderSeal small_chain ?B h ss = Inr e \<longleftrightarrow> sealed_by_author small_chain ?B ss h e"
    by (auto simp: epoch_block_def)
  have state: "sf_currentValidatorData (so_stateUpdate r) = map sample_producer [9, 9, 9, 9, 9, 9]"
      "sf_sealingKeySeries (so_stateUpdate r) = SealKeys (replicate 12 (replicate 32 9))"
    using epoch_block_effect safrole_transition_effect [OF sample_producer_facts(1-3,5,6) r] by blast+
  have "fm_valid (fm_Header small_chain) sample_header" "length (fm_bytes (fm_Header small_chain) sample_header) \<le> MAX_LENGTH"
    using extra_bytes_le [of 0]
    by (simp_all add: sample_header_def header_empty_def fm_Header_def fm_class_def fm_field_def fm_fixed_def fm_end_def fm_seq_def
        fm_nat_le_def fm_option_def bytes_zero_def default_range_def prefixed_def MAX_LENGTH_def HASH_SIZE_def BANDERSNATCH_VRF_SIGNATURE_BYTES_def)
  then obtain bs where "encodeUnsealedHeader small_chain sample_header = Inr bs" using unsealed_eq by blast
  then have "sealed_by_author small_chain ?B ss sample_header (replicate 32 2)"
    by (simp add: sealed_by_author_def ss(2) state js_nth_def sample_header_def owns_slot_def sample_producer_def verifyHeaderSeals_def
        sample_wasm_def result_at_def RESULT_ERROR_def bytes_fromBlob_def new_Bytes_def HASH_SIZE_def subarray_def Let_def)
  moreover have "\<not> sealed_by_author small_chain ?B ss (sample_header\<lparr>hd_bandersnatchBlockAuthorIndex := 6\<rparr>) e" for e
    by (simp add: sealed_by_author_def ss(2) state js_nth_def)
  ultimately show ?thesis using ss by blast
qed

section \<open>Ring commitments and tickets\<close>

text \<open>C39: reading ring commitments through the cache of three entries is computing them: whatever rings of at least one key are asked
  for, in whatever order, the answers are those without the cache.\<close>

theorem ring_cache_transparent:
  assumes "\<forall>ring \<in> set rings. concat ring \<noteq> []"
  shows "ring_commitments B rings initial_ring_cache = map (\<lambda>ring. getRingCommitmentNoCache B (concat ring)) rings"
  by (rule ring_commitments_eq [OF cache_ok_initial assms])

theorem ring_cache_transparent_witness:
  "ring_commitments (sample_wasm (\<lambda>_ _ _ _. True) sample_out) (map (\<lambda>k. [[k]]) [1, 2, 3, 4, 1]) initial_ring_cache =
    map (\<lambda>k. Inr (replicate 144 k)) [1, 2, 3, 4, 1]"
proof -
  have "\<forall>ring \<in> set (map (\<lambda>k :: byte. [[k]]) [1, 2, 3, 4, 1]). concat ring \<noteq> []" by simp
  from ring_cache_transparent [OF this] show ?thesis by (simp only: sample_commitment map_map comp_def concat.simps append_Nil2 list.sel)
qed

text \<open>C40: tickets that are generated in a batch are verified. The native module may refuse the whole batch or fail for single proofs;
  then the generation reports an error and returns no ticket. Otherwise it returns for each prover, in their order, one ticket per
  attempt with the proof of that prover for that attempt, and if the proofs the module gives are valid, the batch verification
  accepts the tickets of each prover and answers the ids that the contest compares.\<close>

theorem generated_tickets_accepted:
  assumes "generates_tickets B prove junk malformed" "verifies_tickets B valid out" "length indices = length secrets"
    "\<forall>s \<in> set secrets. length s = SEED_SIZE" "0 < n" "n \<le> 256" "indices \<noteq> []"
    "\<forall>(i, s) \<in> set (zip indices secrets). \<forall>ctx p. prove (concat ring) i s ctx = Some p \<longrightarrow> valid v root p ctx"
  shows "if batch_fails prove malformed ring indices secrets entropy n
    then vrf_generateTickets B ring indices secrets entropy n = Inl (Failed ())
    else \<exists>tss. vrf_generateTickets B ring indices secrets entropy n = Inr tss \<and>
      tss = map (\<lambda>v. map (\<lambda>a. \<lparr>st_attempt = a, st_signature = the (proof_of prove ring entropy v a)\<rparr>) [0..<n]) (zip indices secrets) \<and>
      (\<forall>ts \<in> set tss. vrf_verifyTickets B v root ts entropy = Inr (True, map ti_id (new_tickets out entropy ts)))"
  by (rule generated_tickets_verify [OF assms])

text \<open>One prover succeeds; with a second one, for whose place there is no proof, and for an empty ring the batch fails.\<close>

theorem generated_tickets_accepted_witness:
  "\<exists>B ts ids. vrf_generateTickets B [[5]] [1] [replicate 32 3] [8] 2 = Inr [ts] \<and> map st_attempt ts = [0, 1] \<and>
    vrf_verifyTickets B 6 [] ts [8] = Inr (True, ids) \<and>
    vrf_generateTickets B [[5]] [1, 7] [replicate 32 3, replicate 32 4] [8] 2 = Inl (Failed ()) \<and>
    vrf_generateTickets B [] [1] [replicate 32 3] [8] 2 = Inl (Failed ())"
proof -
  let ?valid = "\<lambda>_ _ sig _. sig = replicate 784 1"
  let ?B = "sample_wasm ?valid sample_out" and ?bad = "\<lambda>keys indices secrets contexts. keys = ([] :: blob)"
  let ?tickets = "map (\<lambda>a. \<lparr>st_attempt = a, st_signature = replicate 784 1\<rparr>) [0..<2]"
  have V: "verifies_tickets ?B ?valid sample_out" by (rule sample_producer_facts)
  have ok: "\<not> batch_fails sample_proof ?bad [[5]] [1] [replicate 32 3] [8] 2"
    and bad: "batch_fails sample_proof ?bad [[5]] [1, 7] [replicate 32 3, replicate 32 4] [8] 2"
      "batch_fails sample_proof ?bad [] [1] [replicate 32 3] [8] 2"
    by (simp_all add: batch_fails_def proof_of_def sample_proof_def) (auto intro: exI [of _ 0])
  have one: "vrf_generateTickets ?B [[5]] [1] [replicate 32 3] [8] 2 = Inr [?tickets] \<and>
      vrf_verifyTickets ?B 6 [] ?tickets [8] = Inr (True, map ti_id (new_tickets sample_out [8] ?tickets))"
    using generated_tickets_accepted [OF sample_wasm_generates V, where indices = "[1]" and secrets = "[replicate 32 3]" and n = 2
      and v = 6 and root = "[]" and ring = "[[5]]" and entropy = "[8]"] ok
    by (simp add: SEED_SIZE_def sample_proof_def proof_of_def)
  have "vrf_generateTickets ?B [[5]] [1, 7] [replicate 32 3, replicate 32 4] [8] 2 = Inl (Failed ())"
    using generated_tickets_accepted [OF sample_wasm_generates V, where indices = "[1, 7]" and secrets = "[replicate 32 3, replicate 32 4]"
      and n = 2 and v = 6 and root = "[]" and ring = "[[5]]" and entropy = "[8]"] bad(1)
    by (simp add: SEED_SIZE_def sample_proof_def)
  moreover have "vrf_generateTickets ?B [] [1] [replicate 32 3] [8] 2 = Inl (Failed ())"
    using generated_tickets_accepted [OF sample_wasm_generates V, where indices = "[1]" and secrets = "[replicate 32 3]"
      and n = 2 and v = 6 and root = "[]" and ring = "[]" and entropy = "[8]"] bad(2)
    by (simp add: SEED_SIZE_def sample_proof_def)
  moreover have "map st_attempt ?tickets = [0, 1]" by (simp add: upt_rec)
  ultimately show ?thesis using one
    by (intro exI [of _ ?B] exI [of _ ?tickets] exI [of _ "map ti_id (new_tickets sample_out [8] ?tickets)"] conjI) blast+
qed

end
