(* ===== verification/Spec2Isabelle.thy ===== *)
theory Spec2Isabelle
  imports Samples ArgsSpec SortedCollections BlobDictionary Containers Mmr Shuffling Trie TrieNodes AccumulateProperties DisputesProperties BlockProperties
    TransitionProperties SafroleProperties
begin

text \<open>
  A model of typeberry, a TypeScript implementation of the JAM protocol: its polkavm-style virtual
  machine (PVM), the byte codec everything is serialised with, and the number and bit helpers
  under both. This theory collects the properties that span components; every other theory models
  one group of source files and proves what the operations of that group promise.

  \<^bold>\<open>The program and its parts.\<close> A service or authorizer is a blob in the \<^emph>\<open>standard program\<close> format.
  \<open>decode-standard-program.ts\<close> and \<open>program.ts\<close> split it into code, memory segments and initial
  registers; \<open>memory-builder.ts\<close> turns the segments into the pages of \<open>memory.ts\<close>;
  \<open>program-decoder\<close> splits the code blob into instructions, a skip table (\<open>mask.ts\<close>) and a
  jump table, and \<open>basic-blocks.ts\<close> collects the legal jump targets. \<open>interpreter.ts\<close> then steps:
  charge gas, decode the arguments of the instruction (\<open>args-decoder\<close>), dispatch on the argument
  format (\<open>ops-dispatchers\<close>), run the operation (\<open>ops\<close>), and turn its result into a status. The
  operations share, by mutation, the registers, the memory and an \<open>InstructionResult\<close>; the model
  passes these as one record (\<open>machine\<close>) from operation to operation. Independently,
  \<open>packages/core/codec\<close> gives descriptors (encoder, decoder, skipper, size hint) that compose.

  \<^bold>\<open>Modelling choices.\<close> A JavaScript number is an \<open>int\<close> (all numbers of the modelled code are
  integers below \<open>2 ^ 53\<close>; the 32-bit operators are written with their conversions in theory
  JsNum), a \<open>bigint\<close> is an \<open>int\<close>, a register is a \<open>64 word\<close>, a typed array a list of 8-bit words
  (a write past its end is what the source's call does: ignored, padded or a \<open>RangeError\<close>).
  Everything that throws returns \<open>js_error + 'a\<close>, with failed assertions (\<open>check\<close>) among the
  errors; \<open>Result\<close> values of the source are a second sum. A loop that need not end is a
  \<open>partial_function\<close> into \<open>option\<close> (\<open>runProgram\<close>, \<open>decodeSequence\<close>), and that it returns is
  proved (C1, \<open>decodeSequence_returns\<close>); no fuel is used anywhere. Other loops are structural or have a measure.

  \<^bold>\<open>Theories and sources\<close> (paths under \<open>src/packages/core\<close>; pvm is \<open>pvm-interpreter\<close>):

  \<^item> Prelude: errors, \<open>bindE\<close>, little-endian byte strings, byte-string slices. JsNum: the 32-bit
    operators of JavaScript and the truncating bigint division, with their word-level meaning.
  \<^item> Numbers (\<open>numbers/index.ts\<close>), Bitvec (\<open>bytes/bitvec.ts\<close>), Natural (the abstract format of
    variable-length naturals that both codec directions are proved against).
  \<^item> Encoder, Decoder, Codec (\<open>codec/encoder.ts\<close>, \<open>decoder.ts\<close>, \<open>skip.ts\<close>, \<open>validation.ts\<close>,
    \<open>descriptors.ts\<close>): the operations of both classes, then the descriptors. Locale \<open>codec\<close>
    is the contract of a descriptor (it encodes to a format, decodes it back leaving the rest, and
    skips exactly it); it is interpreted for every primitive, and the combinators (sequences,
    optional, pair, dictionary) are proved to carry it over.
  \<^item> Registers, Gas (\<open>pvm/registers.ts\<close>, \<open>gas.ts\<close>, \<open>pvm-interface\<close>), Instructions
    (\<open>instruction.ts\<close> and the gas and argument-format tables).
  \<^item> MathUtils, Alu (\<open>pvm/ops/*-utils.ts\<close> and the register operations) against AluSpec and
    InstructionSet, the word-level reference semantics; Dispatchers (\<open>pvm/ops-dispatchers\<close>).
  \<^item> Immediates, ArgsDecoder (\<open>pvm/args-decoder\<close>) with ArgsSpec, the table of instruction formats it is
    proved against; ProgramDecoder (\<open>pvm/program-decoder\<close>, \<open>basic-blocks\<close>).
  \<^item> MemoryRanges, Memory (\<open>pvm/memory\<close>), PvmOps (loads, stores, jumps, host calls, sbrk) with
    OpsSpec, the lemmas on what they do to bytes, page access and the result.
  \<^item> Spi (\<open>pvm/spi-decoder\<close>, \<open>memory-builder.ts\<close>, \<open>program.ts\<close>), Interpreter
    (\<open>interpreter.ts\<close>, \<open>debugger-adapter.ts\<close>), JamProgram (\<open>resetJam\<close>: from blob to run).
  \<^item> Blobs (\<open>bytes/bytes.ts\<close>), Ordering (\<open>ordering/index.ts\<close>; locale \<open>total_comparator\<close> is what the
    collections ask of a comparator, interpreted on the comparison of blobs), SortedCollections
    (\<open>collections/sorted-array.ts\<close>, \<open>sorted-set.ts\<close>), BlobDictionary (\<open>blob-dictionary.ts\<close> and the
    hash dictionaries and sets over it, with the shared leaf objects as addresses of a store),
    Containers (\<open>array-view.ts\<close>, \<open>sized-array.ts\<close>, \<open>multi-map.ts\<close>).
  \<^item> Mmr (\<open>mmr/index.ts\<close>), Shuffling (\<open>shuffling/shuffling.ts\<close>), TrieNodes (\<open>trie/nodes.ts\<close>), Trie
    (\<open>computeStateRoot\<close> of \<open>trie/trie.ts\<close>), over hash functions that are arguments.
  \<^item> ChainTypes (chain parameters and the records of reports, tickets, assurances), ServiceState
    (accounts, update records, the in-memory services and how an update is applied), PartialState
    (the state under pending updates), Externalities (every operation of
    \<open>AccumulateExternalities\<close>; the search for a free id is a partial function). Ledger states what the
    operations may do to balances and shows they do it, Commit relates applying an update to reading
    through it, Accounting has the exact effect of a write and three flaws, LedgerRuns follows the
    deposits one of these loses through whole runs, ServiceSamples has states to evaluate them on.
  \<^item> JsCollections (sets and folds that may throw), AccumulateQueue (\<open>accumulate-queue.ts\<close>),
    AccumulateData (\<open>accumulate-data.ts\<close>), AccumulateMerge (\<open>accumulation-result-merge-utils.ts\<close>),
    Accumulate (\<open>accumulate.ts\<close>: one service, a round, round after round, the transition; the executor
    of a service is a parameter), AccumulateFunds and AccumulateSpec (what accumulating does to funds,
    queue and created services), AccumulateReturns (why the rounds end), AccumulateSamples (an executor that
    sends a transfer), AccumulateProperties.
  \<^item> ClassCodec (\<open>Class\<close>, \<open>union\<close>, \<open>convert\<close> and descriptors chosen by the chain parameters; formats, and
    the rules \<open>codec_rules\<close> by which a descriptor implements one), BlockTypes (\<open>block/work-*.ts\<close>,
    \<open>refine-context.ts\<close>), BlockCodec (\<open>block/header.ts\<close>, \<open>block.ts\<close> and the extrinsics), DecodedTypes (what
    decoding arbitrary bytes can give), BlockProperties.
  \<^item> Signatures (\<open>crypto/ed25519.ts\<close>, \<open>disputes/verification-utils.ts\<close>; the native batch verifier is a
    parameter), Disputes (\<open>transition/disputes\<close>), DisputesSpec (the declarative conditions and the effect),
    DisputesProperties.
  \<^item> Preimages (\<open>transition/preimages.ts\<close>), Assurances (\<open>assurances.ts\<close>), Authorization
    (\<open>authorization.ts\<close>), RecentHistory (\<open>recent-history.ts\<close>, \<open>state/recent-blocks.ts\<close>), Statistics
    (\<open>statistics.ts\<close>, \<open>state/statistics.ts\<close>) with StatisticsSpec, what the counters sum to;
    TransitionProperties.
  \<^item> BandersnatchVrf (\<open>safrole/bandersnatch-vrf.ts\<close>; the functions of the wasm module are the fields of a record, what is
    relied on of them is stated by \<open>verifies_tickets\<close> and \<open>generates_tickets\<close>), Safrole (\<open>safrole.ts\<close>, \<open>safrole-seal.ts\<close>),
    SafroleSpec and SafroleEffect (the conditions, the effect and the invariant), TicketGeneration, SafroleProperties.
  \<^item> Findings: behaviour the comments or callers do not expect, as lemmas. Samples: the concrete
    states on which the properties are instantiated.

  \<^bold>\<open>What the lemmas show.\<close> Every operation preserves the invariant (\<open>wf_interp\<close>: thirteen
  registers, well-formed pages and heap pointers, gas that is a u64, a mask as long as the code).
  A step that continues costs gas, so the run ends (C1, C2); where it goes (C3, C8); what each
  status means (\<open>out_of_gas\<close>, C4, \<open>host_call\<close>). The register instructions refine the word-level reference (C7, \<open>two_regs_imm_refine\<close>, \<open>two_regs_refine\<close>).
  Memory: loads, stores, access rights and growth, over page boundaries and around the end of the
  address space (C9, C10, \<open>read_after_write\<close>, \<open>read_only_kept\<close>, C11). Program, mask, basic blocks and arguments are decoded as their formats
  say (C12, \<open>mask_skip\<close>, C13); from a standard program to its initial state and run (C5, C6). The codec
  round-trips (\<open>varU64_roundtrip\<close>, \<open>dictionary_roundtrip\<close>) and the number and bit helpers are exact (\<open>sums_checked\<close>, \<open>bitvec_set\<close>).
  The dictionary over keys of one length is an association list (C14), the sorted collections are
  sets and multisets kept in order (C15, \<open>sorted_array_operations\<close>), the mountain range and the shuffle compute their
  specifications (C16, C17), the one-pass
  state root is the Merklization by key bits but for a single leaf on the left (C18). The operations of
  an accumulating service conserve funds but for the deposits of services put under an ejected id (C19), what it
  read is what the commit stores (C20), and a write accounts for its entry (\<open>storage_write\<close>).
  Accumulation takes the reports whose dependencies can be met, in dependency order (C22), gives
  each service its input (C25), accounts for all funds (C21), merges the results
  (C23), ends (C24) and leaves the queue pruned (C26).
  Blocks survive encoding (C29), whatever is decoded is well formed (C30), and the unsealed
  header has everything but the seal (\<open>unsealed_header\<close>). Disputes are accepted exactly under the conditions of the
  protocol (C27) and change the records and cores as stated (C28). Preimages are integrated
  when they are needed and then provided (C31); assured reports become available (C32); the authorization
  pools (C33), the recent history (C34) and the statistics (C35) are what their
  specifications say of a block. Safrole accepts the blocks the protocol allows (C36), rotates validators,
  entropy, keys and tickets as stated (C37), and author, verifier of the seal and transition agree (C38); cached
  ring commitments are the computed ones (C39) and generated tickets are accepted (C40).

  \<^bold>\<open>Bounds.\<close> Page counts, address arithmetic and gas use the source's own bounds: \<open>2 ^ 32\<close> addresses,
  \<open>2 ^ 12\<close> bytes per page, u64 gas. The hypotheses of C6 (\<open>spi_fits\<close>) are the size conditions under
  which the code accepts a standard program, including one the documentation does not name (the
  length of the arguments, see Findings). \<open>mask_skip\<close> asks for gaps of at most 255 bytes in the mask,
  because the code's table wraps at 256.

  \<^bold>\<open>Not modelled.\<close> Wrappers without state or behaviour of their own (brands, opaque types, logging,
  \<open>toString\<close>, disassembly); bindings of native and wasm code (hashes, signatures, Reed-Solomon, the
  wasm PVM), which appear as parameters at most; worker threads, networking, databases, RPC and
  JSON; lazy codec views, which rest on property interception.
  Also left out: the transition of guaranteed reports and the composition of the transitions into the import of a
  block, the codecs and the merklization of the state, the host calls over the partial state, refinement, the
  incremental trie and erasure coding around its native codec.
\<close>

section \<open>The interpreter\<close>

text \<open>C1: \<open>runProgram\<close> returns. From any state that satisfies the invariant the loop over \<open>nextStep\<close>
  ends, without an exception, in a status other than \<open>OK\<close>; the gas does not grow and the program
  (code, mask, basic blocks, jump table) is not changed.\<close>

theorem run_returns:
  assumes "wf_interp st"
  shows "\<exists>st'. runProgram st = Some (Inr st') \<and> i_status st' \<noteq> S_OK \<and> wf_interp st' \<and>
    same_program st st' \<and> gas (i_gas st') \<le> gas (i_gas st)"
  by (rule runProgram_returns [OF assms])

theorem run_returns_witness:
  "\<exists>st'. runProgram (sample_interpreter 10 [1, 0]) = Some (Inr st') \<and> i_status st' \<noteq> S_OK"
  using run_returns [OF sample_interpreter_wf [of 10 "[1, 0]"]] by auto

text \<open>C2: a step never throws, keeps the invariant of the state, never increases the gas, and a
  step that continues (\<open>OK\<close>) consumes at least one unit of gas.\<close>

theorem step_total:
  assumes "wf_interp st"
  shows "\<exists>st'. nextStep st = Inr st' \<and> wf_interp st' \<and> same_program st st' \<and>
    gas (i_gas st') \<le> gas (i_gas st) \<and> (i_status st' = S_OK \<longrightarrow> gas (i_gas st') + 1 \<le> gas (i_gas st))"
  using nextStep_post [OF assms] unfolding step_post_def by blast

theorem step_total_witness:
  "\<exists>st'. nextStep (sample_interpreter 10 [1, 0]) = Inr st' \<and> wf_interp st'"
  using step_total [OF sample_interpreter_wf [of 10 "[1, 0]"]] by auto

text \<open>C3: control flow. A step that continues either goes to the beginning of a basic block or to the
  instruction that follows the current one under the skip function; nothing else is ever executed.\<close>

theorem step_target:
  assumes "wf_interp st" "nextStep st = Inr st'" "i_status st' = S_OK"
  shows "i_pc st' \<in> i_basicBlocks st \<or>
    (\<exists>n. getNoOfBytesToNextInstruction (i_mask st) (int (i_pc (resume st) + 1)) = Inr n \<and>
         i_pc st' = i_pc (resume st) + 1 + n)"
  using step_postD [OF assms(1,2)] assms(3) unfolding step_post_def by blast

theorem step_target_witness:
  "\<exists>st'. nextStep (sample_interpreter 10 [1, 0]) = Inr st' \<and> (i_pc st' = 0 \<or>
    (\<exists>n. getNoOfBytesToNextInstruction [0, 0] 1 = Inr n \<and> i_pc st' = 1 + n))"
proof -
  obtain st' where "nextStep (sample_interpreter 10 [1, 0]) = Inr st'" "i_status st' = S_OK"
    using sample_step by blast
  with step_target [OF sample_interpreter_wf [of 10 "[1, 0]"]] show ?thesis
    by (fastforce simp: sample_interpreter_def resume_def)
qed

text \<open>Without gas a step only reports \<open>OOG\<close>: registers, memory and program counter are those of
  the resumed state.\<close>

theorem out_of_gas:
  assumes "wf_interp st" "gas (i_gas st) = 0"
  shows "nextStep st = Inr ((resume st)\<lparr>i_status := S_OOG\<rparr>)"
  by (rule nextStep_out_of_gas [OF assms])

theorem out_of_gas_witness:
  "nextStep (sample_interpreter 0 [1, 0]) = Inr ((resume (sample_interpreter 0 [1, 0]))\<lparr>i_status := S_OOG\<rparr>)"
  using out_of_gas [OF sample_interpreter_wf [of 0 "[1, 0]"]] by (simp add: sample_interpreter_def)

text \<open>C4: a byte that is no opcode costs one unit of gas and ends the run with a panic; registers,
  memory and program counter stay.\<close>

theorem invalid_opcode:
  assumes "wf_interp st" "i_status st \<noteq> S_HOST" "gas (i_gas st) \<ge> 1" "instruction_name (current_instruction st) = None"
  shows "\<exists>st'. nextStep st = Inr st' \<and> i_status st' = S_PANIC \<and> i_pc st' = i_pc st \<and>
    gas (i_gas st') = gas (i_gas st) - 1 \<and> m_regs (i_machine st') = m_regs (i_machine st) \<and>
    m_mem (i_machine st') = m_mem (i_machine st)"
proof -
  have "current_instruction st \<notin> set opcodes" using assms(4) instruction_name_iff by blast
  from nextStep_invalid [OF assms(1-3) this] show ?thesis
    by (simp add: finish_step_def set_status_def)
qed

theorem invalid_opcode_witness:
  "\<exists>st'. nextStep (sample_interpreter 10 [2, 0]) = Inr st' \<and> i_status st' = S_PANIC"
proof -
  have "current_instruction (sample_interpreter 10 [2, 0]) \<notin> set opcodes"
    by (simp add: sample_interpreter_def current_instruction_def opcodes_def instruction_enum_def)
  then have "instruction_name (current_instruction (sample_interpreter 10 [2, 0])) = None"
    using instruction_name_iff by blast
  from invalid_opcode [OF sample_interpreter_wf _ _ this] show ?thesis
    by (auto simp: sample_interpreter_def)
qed

text \<open>A host call suspends and resumes. \<open>ECALLI\<close> leaves registers and memory alone, ends the step
  with \<open>HOST\<close> and the call's index as the exit parameter; the next step starts at the instruction
  after it with a fresh result.\<close>

theorem host_call:
  assumes "wf_interp st" "i_status st \<noteq> S_HOST" "gas (i_gas st) \<ge> 1" "current_instruction st = ECALLI"
    "fillArgs (i_code st) (i_mask st) (i_pc st) ONE_IMMEDIATE = Inr (OneImmediateArgs n imm)"
  shows "\<exists>st'. nextStep st = Inr st' \<and> i_status st' = S_HOST \<and>
    getExitParam st' = Inr (Some (imm_getU32 imm)) \<and>
    m_regs (i_machine st') = m_regs (i_machine st) \<and> m_mem (i_machine st') = m_mem (i_machine st) \<and>
    i_status (resume st') = S_OK \<and> i_pc (resume st') = i_pc st + n \<and> m_res (i_machine (resume st')) = new_instructionResult"
proof -
  define s where "s = set_exitParam (imm_getU32 imm) (set_status R_HOST (set_nextPc (i_pc st + n) (i_machine st)))"
  define st' where "st' = finish_step (st\<lparr>i_gas := (i_gas st)\<lparr>gas := gas (i_gas st) - 1\<rparr>, i_machine := s\<rparr>)"
  have "ECALLI \<in> set opcodes" "instructionArgumentTypeMap ECALLI = Some ONE_IMMEDIATE"
    by (simp_all add: opcodes_def instruction_enum_def instructionArgumentTypeMap_def format_table_def)
  from nextStep_charged [OF assms(1-4) this assms(5)]
  have "nextStep st = Inr st'"
    by (simp add: st'_def s_def oneImm_dispatch_def hostCall_def imm_getUnsigned_def imm_getU32_def)
  moreover have "tryAsU32 (imm_getU32 imm) = Inr (imm_getU32 imm)"
    using fillArgs_wf [OF assms(5)] uint_lt2p [of "lo32 (imm_word imm)"]
    by (simp add: tryAs_Inr_iff imm_getU32_eq)
  ultimately show ?thesis
    by (simp add: st'_def s_def finish_step_def state_updates getExitParam_def resume_def Let_def
        instructionResult_reset_def new_instructionResult_def)
qed

theorem host_call_witness:
  "\<exists>st'. nextStep (sample_interpreter 10 [10]) = Inr st' \<and> i_status st' = S_HOST \<and> getExitParam st' = Inr (Some 0)"
proof -
  have f: "fillArgs (i_code (sample_interpreter 10 [10])) (i_mask (sample_interpreter 10 [10]))
      (i_pc (sample_interpreter 10 [10])) ONE_IMMEDIATE = Inr (OneImmediateArgs 1 (setBytes []))"
    by (simp add: sample_interpreter_def fillArgs_def getNoOfBytesToNextInstruction_def subarray_def)
  have "imm_getU32 (setBytes []) = 0" by code_simp
  with host_call [OF sample_interpreter_wf _ _ _ f] show ?thesis
    by (fastforce simp: sample_interpreter_def current_instruction_def)
qed

text \<open>C5: from a standard program to a finished run. When the sizes fit and the code section is a
  valid program, \<open>resetJam\<close> succeeds on any interpreter that satisfies the invariant, leaves the
  program counter, the gas and the invariant as required, and the run returns.\<close>

theorem jam_program_runs:
  assumes "wf_interp st" "spi_fits ro rw z s args" "length code < 2 ^ 32" "new_program code = Inr p"
    "0 \<le> g" "g < 2 ^ 64"
  shows "\<exists>st0 st'. resetJam (spi_blob ro rw z s code) args pc g False st = Inr st0 \<and> wf_interp st0 \<and>
    i_pc st0 = pc \<and> i_status st0 = S_OK \<and> gas (i_gas st0) = g \<and>
    runProgram st0 = Some (Inr st') \<and> i_status st' \<noteq> S_OK"
proof -
  define m where "m = fromInitialMemory (spi_pages ro rw z s args) (spi_heap ro rw z) (STACK_SEGMENT - spi_alignToPageSize s)"
  have m: "wf_memory m" unfolding m_def by (rule spi_memory_wf [OF assms(2)])
  have "fromSpi (spi_blob ro rw z s code) args False = Inr
    \<lparr>prog_code = code, prog_registers = getRegisters (length args), prog_memory = m, prog_metadata = []\<rparr>"
    unfolding m_def by (rule fromSpi_eq [OF assms(2,3)])
  moreover obtain bbs where "basicBlocks_reset (p_code p) (p_mask p) = Inr bbs" by (simp add: basicBlocks_reset_eq)
  ultimately obtain st0 where st0: "resetJam (spi_blob ro rw z s code) args pc g False st = Inr st0"
      "resetGeneric code pc g (Some (getRegisters (length args))) (Some m) st = Inr st0" "gas (i_gas st0) = g"
    using assms(4-6) by (simp add: resetJam_def resetGeneric_def gasCounter_eq Let_def)
  have "wf_interp st0 \<and> i_status st0 = S_OK \<and> i_pc st0 = pc"
    by (rule reset_wf [OF assms(1) st0(2)]) (simp_all add: m getRegisters_def NO_OF_REGISTERS_def)
  with st0 runProgram_returns [of st0] show ?thesis by blast
qed

theorem jam_program_runs_witness:
  "\<exists>st st0 st'. new_interpreter False = Inr st \<and>
    resetJam (spi_blob [1] [2] 1 4096 (blob_of 0 0 [] [0] sample_mask)) [3] 0 100 False st = Inr st0 \<and>
    runProgram st0 = Some (Inr st') \<and> i_status st' \<noteq> S_OK"
proof -
  obtain st where st: "new_interpreter False = Inr st"
    by (simp add: new_interpreter_def new_memory_eq gasCounter_eq empty_mask_def empty_bitvec_def new_bitvec_def new_mask_eq)
  obtain p where "new_program (blob_of 0 0 [] [0] sample_mask) = Inr p"
    using new_program_blob [of 0 0 "[]" "[0]" sample_mask] sample_mask_canonical by simp
  moreover have "length (blob_of 0 0 [] [0] sample_mask) < 2 ^ 32"
    using extra_bytes_le [of 0] extra_bytes_le [of 1] by (simp add: blob_of_def bv_raw_def sample_mask_def)
  ultimately show ?thesis
    using jam_program_runs [OF new_interpreter_wf [OF st] sample_spi_fits, of "blob_of 0 0 [] [0] sample_mask" p 100 0] st
    by auto
qed

text \<open>C6: the memory of a standard program. Every byte is the read-only data at 2^16, the heap data
  above it, the arguments at their segment, and 0 elsewhere; read-only data and arguments are
  readable, heap and stack writeable, everything else is inaccessible; the heap pointer is at the end
  of the heap's zero pages and the memory satisfies the invariant of the interpreter.\<close>

theorem spi_layout:
  assumes "spi_fits ro rw z s args" "length code < 2 ^ 32"
  shows "\<exists>p. fromSpi (spi_blob ro rw z s code) args False = Inr p \<and> prog_code p = code \<and>
    prog_registers p = getRegisters (length args) \<and>
    (\<forall>a. mem_byte (prog_memory p) a = spi_byte ro rw args a) \<and>
    (\<forall>a. map_option isWriteable (pages (prog_memory p) (a div 4096)) = spi_access ro rw z s args a) \<and>
    wf_memory (prog_memory p) \<and> sbrkIndex (prog_memory p) = spi_heap ro rw z"
proof -
  define m where "m = fromInitialMemory (spi_pages ro rw z s args) (spi_heap ro rw z) (STACK_SEGMENT - spi_alignToPageSize s)"
  have "wf_memory m" unfolding m_def by (rule spi_memory_wf [OF assms(1)])
  moreover have "\<forall>a. mem_byte m a = spi_byte ro rw args a"
    by (simp add: m_def mem_byte_initial spi_pages_byte [OF assms(1)])
  moreover have "pages m = spi_pages ro rw z s args" "sbrkIndex m = spi_heap ro rw z"
    by (simp_all add: m_def fromInitialMemory_def)
  ultimately show ?thesis
    using fromSpi_eq [OF assms] spi_pages_access [OF assms(1)] by (simp add: m_def [symmetric])
qed

theorem spi_layout_witness:
  "\<exists>p. fromSpi (spi_blob [1] [2] 1 4096 [0]) [3] False = Inr p \<and> mem_byte (prog_memory p) 65536 = 1"
  using spi_layout [OF sample_spi_fits, of "[0]"] by (auto simp: spi_byte_def Let_def)

section \<open>Instructions\<close>

text \<open>C7: the three-register instructions compute their reference. For every opcode the dispatcher and
  the operation it calls write exactly the word \<open>three_regs_sem\<close> gives (two's complement arithmetic,
  division with its two exceptional cases, shifts and rotations modulo the width, comparisons,
  conditional moves) and nothing else changes.\<close>

theorem three_regs_refine:
  "threeRegs_dispatch instruction first second third s =
    Inr (set_regs ((m_regs s)[third := three_regs_sem instruction
      (m_regs s ! first) (m_regs s ! second) (m_regs s ! third)]) s)"
  by (rule threeRegs_dispatch_eq)

text \<open>The same for the instructions with two registers and an immediate that do not access
  memory: the result is \<open>two_regs_imm_sem\<close> of the register and the sign-extended immediate.\<close>

theorem two_regs_imm_refine:
  assumes "instruction \<notin> set indirect_opcodes" "wf_imm imm"
  shows "twoRegsOneImm_dispatch instruction first second imm s =
    Inr (set_regs ((m_regs s)[first := two_regs_imm_sem instruction (m_regs s ! second) (imm_word imm)
      (m_regs s ! first)]) s)"
  by (rule twoRegsOneImm_dispatch_eq [OF assms])

theorem two_regs_imm_refine_witness:
  "twoRegsOneImm_dispatch ADD_IMM_64 1 2 (setBytes [0xff]) sample_machine =
    Inr (set_regs ((m_regs sample_machine)[1 := two_regs_imm_sem ADD_IMM_64 (m_regs sample_machine ! 2)
      (imm_word (setBytes [0xff])) (m_regs sample_machine ! 1)]) sample_machine)"
  by (rule two_regs_imm_refine) (simp_all add: indirect_opcodes_def)

text \<open>The two-register instructions (moves, bit counts, extensions, byte reversal).\<close>

theorem two_regs_refine:
  assumes "instruction \<noteq> SBRK"
  shows "twoRegs_dispatch instruction first second s =
    Inr (set_regs ((m_regs s)[second := two_regs_sem instruction (m_regs s ! first) (m_regs s ! second)]) s)"
  by (rule twoRegs_dispatch_eq [OF assms])

theorem two_regs_refine_witness:
  "twoRegs_dispatch COUNT_SET_BITS_64 1 2 sample_machine =
    Inr (set_regs ((m_regs sample_machine)[2 := two_regs_sem COUNT_SET_BITS_64 (m_regs sample_machine ! 1)
      (m_regs sample_machine ! 2)]) sample_machine)"
  by (rule two_regs_refine) simp

text \<open>C8: a dynamic jump halts at the exit address, panics at 0, at odd addresses, outside the jump
  table and where no basic block begins, and otherwise goes to the table's entry.\<close>

theorem dynamic_jump:
  assumes "0 \<le> a"
  shows "djump jt bbs a s =
    (if a = 0xffff0000 then set_status R_HALT s
     else if 0 < a \<and> even a \<and> nat (a div 2) - 1 < length jt \<and> unat (jt ! (nat (a div 2) - 1)) \<in> bbs
     then set_nextPc (unat (jt ! (nat (a div 2) - 1))) s
     else set_status R_PANIC s)"
proof -
  define k where "k = nat (a div 2) - 1"
  have q: "nat (a div 2 - 1) = k" if "0 < a" "even a"
    using that by (simp add: k_def nat_diff_distrib')
  have h: "hasIndex jt (a div 2 - 1) \<longleftrightarrow> k < length jt" if "0 < a" "even a"
    using that q [OF that] by (auto simp: hasIndex_def elim!: evenE)
  consider "a = 0xffff0000" | "a \<noteq> 0xffff0000" "0 < a \<and> even a" | "a \<noteq> 0xffff0000" "a = 0 \<or> odd a"
    using assms by linarith
  then show ?thesis
  proof cases
    case 2
    then show ?thesis using q h unfolding k_def [symmetric]
      by (simp add: djump_def EXIT_def JUMP_ALIGMENT_FACTOR_def Let_def getDestination_def
          isBeginningOfBasicBlock_def even_iff_mod_2_eq_zero)
  qed (auto simp: djump_def EXIT_def JUMP_ALIGMENT_FACTOR_def odd_iff_mod_2_eq_one)
qed

theorem dynamic_jump_witness:
  "djump [5] {0, 5} 2 sample_machine = set_nextPc 5 sample_machine"
  using dynamic_jump [of 2 "[5]" "{0, 5}" sample_machine] by simp

section \<open>Memory\<close>

text \<open>C9: a load reads memory. When every page of the access is readable the register receives the
  little-endian value of the bytes, otherwise no register changes and the first page (in address
  order, wrapping) that denies the access decides the kind of the fault: a panic for the reserved
  pages, else a page fault. The address a page fault reports is the first address of the load, also
  when that lies on a page that can be read and the fault is on the following one. This is not what
  the documentation of \<open>InstructionResult\<close> says of \<open>exitParam\<close> (see the findings); a store
  reports the start of the page at fault.\<close>

theorem load_bytes:
  assumes "wf_machine s" "r < 13" "0 < n" "n \<le> 8"
  shows "loadNumber (uint (addr :: u32)) r n s = Inr
    (if granted (m_mem s) READ (unat addr) n
     then set_regs ((m_regs s)[r := w64 (le_val (bytes_at (m_mem s) (unat addr) n))]) s
     else if isAccessFault (first_fault (m_mem s) READ (unat addr) n) then set_status R_FAULT_ACCESS s
     else set_exitParam (uint addr) (set_status R_FAULT s))"
  using loadNumber_eq [OF assms] by (simp only: load_fault_def)

theorem load_bytes_witness:
  "loadNumber (uint (65536 :: u32)) 1 4 sample_machine = Inr (set_regs ((m_regs sample_machine)[1 :=
    w64 (le_val (bytes_at (m_mem sample_machine) 65536 4))]) sample_machine)"
  using load_bytes [OF sample_machine_wf, of 1 4 65536] sample_granted [of 65536 4 READ]
  by (simp add: sample_machine_def)

text \<open>C10: a store writes memory. When every page of the access is writeable exactly the bytes of the
  access change, to the little-endian bytes of the register, and the pages keep their kind;
  otherwise memory is unchanged and the fault of the first denying page is reported.\<close>

theorem store_bytes:
  assumes "wf_machine s" "r < 13" "0 < n" "n \<le> 8"
  shows "if granted (m_mem s) WRITE (unat (addr :: u32)) n
    then \<exists>m'. store_reg n (uint addr) r s = Inr (s\<lparr>m_mem := m'\<rparr>) \<and> wf_memory m' \<and> same_shape (m_mem s) m' \<and>
      (\<forall>a. mem_byte m' a = (if unat addr \<le> a \<and> a < unat addr + n
        then le_bytes n (uint (m_regs s ! r)) ! (a - unat addr) else mem_byte (m_mem s) a))
    else store_reg n (uint addr) r s = Inr (store_fault (first_fault (m_mem s) WRITE (unat addr) n) s)"
proof -
  have st: "store_reg n (uint addr) r s = op_store (uint addr) (le_bytes n (uint (m_regs s ! r))) s"
    by (rule store_reg_bytes [OF assms(1,2,4)])
  show ?thesis
  proof (cases rule: op_store_cases [OF assms(1), of "le_bytes n (uint (m_regs s ! r))" addr])
    case (3 m')
    then show ?thesis unfolding st by auto
  next
    case 4
    then show ?thesis unfolding st by simp
  qed (use assms in simp_all)
qed

theorem store_bytes_witness:
  "\<exists>m'. store_reg 4 (uint (65536 :: u32)) 1 sample_machine = Inr (sample_machine\<lparr>m_mem := m'\<rparr>) \<and> wf_memory m'"
  using store_bytes [OF sample_machine_wf, of 1 4 65536] sample_granted [of 65536 4 WRITE]
  by (auto simp: sample_machine_def)

text \<open>Reading back what was stored. After a successful store a load of the same length at the
  same address returns exactly the stored bytes, across page boundaries.\<close>

theorem read_after_write:
  assumes "wf_memory m" "s < 4294967296" "bytes \<noteq> []" "length bytes \<le> 4294967296" "length res = length bytes"
    "storeFrom s bytes m = Inr (Inr (), m')"
  shows "loadInto res s m' = Inr (Inr bytes)"
proof -
  have n: "0 < length bytes" using assms(3) by simp
  note wf = wf_memory_pages [OF assms(1)]
  have st: "granted m WRITE s (length bytes)" "wf_pages (pages m')" "same_shape m m'"
    "\<And>a. mem_byte m' a = (if s \<le> a \<and> a < s + length bytes then bytes ! (a - s) else mem_byte m a)"
    by (cases rule: storeFrom_cases [OF wf assms(2) n assms(4)]; use assms(6) in simp)+
  have "granted m' READ s (length bytes)" using st(1,3) by (rule granted_read_shape)
  then have "List.find (\<lambda>p. \<not> accessible m' READ p) (pages_of s (length res)) = None"
    using granted_find [OF assms(2) n assms(4)] assms(5) by simp
  moreover have "mem_byte m' = (\<lambda>a. if s \<le> a \<and> a < s + length bytes then bytes ! (a - s) else mem_byte m a)"
    by (rule ext) (rule st(4))
  ultimately show ?thesis
    using loadInto_eq [OF st(2) assms(2), of res] n assms(4,5) by (simp add: map_nth_shift)
qed

theorem read_after_write_witness:
  "\<exists>m'. storeFrom 65536 [1, 2] sample_memory = Inr (Inr (), m') \<and> loadInto [0, 0] 65536 m' = Inr (Inr [1, 2])"
proof (cases rule: storeFrom_cases [OF wf_memory_pages [OF sample_memory_wf], of 65536 "[1, 2]"])
  case (4 m')
  with read_after_write [OF sample_memory_wf _ _ _ _ this(2), of "[0, 0]"] show ?thesis by auto
qed (use sample_granted [of 65536 "length [1 :: byte, 2]" WRITE] in simp_all)

text \<open>Read-only pages are never changed. Whatever a store returns, the bytes of pages that are not
  writeable are those of before, and a store that is denied changes nothing at all.\<close>

theorem read_only_kept:
  assumes "wf_memory m" "s < 4294967296" "length bytes \<le> 4294967296" "storeFrom s bytes m = Inr (res, m')"
  shows "(\<forall>a. map_option isWriteable (pages m (a div 4096)) \<noteq> Some True \<longrightarrow> mem_byte m' a = mem_byte m a) \<and>
    (res \<noteq> Inr () \<longrightarrow> m' = m)"
proof (cases "bytes = []")
  case True
  with assms(4) show ?thesis by (simp add: storeFrom_def)
next
  case False
  then have n: "0 < length bytes" by simp
  show ?thesis
  proof (cases rule: storeFrom_cases [OF wf_memory_pages [OF assms(1)] assms(2) n assms(3)])
    case (1 m1)
    have "map_option isWriteable (pages m (a div 4096)) = Some True" if "s \<le> a" "a < s + length bytes" for a
      using granted_writeable [OF 1(1) assms(2) that] .
    with 1 assms(4) show ?thesis by auto
  next
    case (2 p)
    with assms(4) show ?thesis by simp
  qed
qed

theorem read_only_kept_witness:
  "\<exists>res m'. storeFrom 65536 [1, 2] sample_memory = Inr (res, m') \<and> mem_byte m' 4096 = mem_byte sample_memory 4096"
proof -
  obtain res m' where m': "storeFrom 65536 [1, 2] sample_memory = Inr (res, m')"
    by (cases rule: storeFrom_cases [OF wf_memory_pages [OF sample_memory_wf], of 65536 "[1, 2]"]) auto
  from read_only_kept [OF sample_memory_wf _ _ this] m' show ?thesis
    by (auto simp: sample_memory_def)
qed

text \<open>C11: the heap grows as asked. \<open>sbrk\<close> throws \<open>OutOfMemory\<close> exactly when the request passes the heap's end
  or the address space; otherwise it returns the old end, which moves by the request, the pages it
  creates were absent, no byte changes, everything requested is writeable and the invariant holds.\<close>

theorem heap_growth:
  assumes "wf_memory m"
  shows "if virtualSbrkIndex m + len > min 4294967295 (endHeapIndex m) then sbrk len m = Inl OutOfMemory
    else \<exists>m'. sbrk len m = Inr (virtualSbrkIndex m, m') \<and> wf_memory m' \<and>
      virtualSbrkIndex m' = virtualSbrkIndex m + len \<and> sbrkIndex m' mod 4096 = 0 \<and>
      (\<forall>p. sbrkIndex m \<le> p * 4096 \<and> p * 4096 < sbrkIndex m' \<longrightarrow> pages m p = None) \<and>
      (\<forall>a. mem_byte m' a = mem_byte m a) \<and>
      (\<forall>a. virtualSbrkIndex m \<le> a \<and> a < virtualSbrkIndex m + len \<longrightarrow>
         map_option isWriteable (pages m' (a div 4096)) = Some True)"
proof (cases "virtualSbrkIndex m + len > min 4294967295 (endHeapIndex m)")
  case True
  then show ?thesis using sbrk_eq [OF assms, of len] by simp
next
  case False
  then obtain m' where r: "sbrk len m = Inr (virtualSbrkIndex m, m')" using sbrk_eq [OF assms, of len] by simp
  have "virtualSbrkIndex m' = virtualSbrkIndex m + len" using sbrk_Inr(2) [OF assms r] by (simp add: extended_def)
  moreover note sbrk_wf [OF assms r]
  moreover from this have "sbrkIndex m' mod 4096 = 0" by (simp add: wf_memory_def)
  ultimately show ?thesis
    using False r sbrk_new_pages [OF assms r] sbrk_mem_byte [OF assms r] sbrk_granted [OF assms r] by auto
qed

theorem heap_growth_witness:
  "\<exists>m'. sbrk 5000 sample_memory = Inr (69632, m') \<and> wf_memory m'"
  using heap_growth [OF sample_memory_wf, of 5000] by (auto simp: sample_memory_def)

text \<open>The pages of a memory range. For every non-empty range, wrapping ones included, the page range
  computed from it enumerates exactly the pages its addresses lie on.\<close>

theorem page_range_exact:
  assumes "s < 4294967296" "0 < n" "n \<le> 4294967296"
  shows "\<exists>r ps. memoryRange_fromStartAndLength s n = Inr r \<and> bindE (fromMemoryRange r) pr_pages = Inr ps \<and>
    set ps = (\<lambda>a. a div 4096) ` range_addrs s n"
proof -
  obtain r where r: "memoryRange_fromStartAndLength s n = Inr r" using memoryRange_eq [OF assms(3)] by blast
  with fromMemoryRange_pages [OF assms r] pages_of_touched [OF assms] show ?thesis by blast
qed

theorem page_range_exact_witness:
  "\<exists>r ps. memoryRange_fromStartAndLength 4294967295 2 = Inr r \<and> bindE (fromMemoryRange r) pr_pages = Inr ps \<and>
    set ps = (\<lambda>a. a div 4096) ` range_addrs 4294967295 2"
  by (rule page_range_exact) simp_all

text \<open>Overlap of memory ranges. \<open>overlapsWith\<close> holds exactly when the two ranges (empty, wrapping or
  full) share an address.\<close>

theorem memory_range_overlap:
  assumes "memoryRange_fromStartAndLength s n = Inr r" "memoryRange_fromStartAndLength t k = Inr r'"
    "s < 4294967296" "n \<le> 4294967296" "t < 4294967296" "k \<le> 4294967296"
  shows "mr_overlapsWith r r' \<longleftrightarrow> range_addrs s n \<inter> range_addrs t k \<noteq> {}"
  by (rule mr_overlapsWith_iff [OF assms])

theorem memory_range_overlap_witness:
  "\<exists>r r'. memoryRange_fromStartAndLength 4294967290 10 = Inr r \<and> memoryRange_fromStartAndLength 2 1 = Inr r' \<and>
    (mr_overlapsWith r r' \<longleftrightarrow> range_addrs 4294967290 10 \<inter> range_addrs 2 1 \<noteq> {})"
proof -
  obtain r r' where "memoryRange_fromStartAndLength 4294967290 10 = Inr r" "memoryRange_fromStartAndLength 2 1 = Inr r'"
    using memoryRange_eq [of 10 4294967290] memoryRange_eq [of 1 2] by auto
  with memory_range_overlap [OF this] show ?thesis by auto
qed

section \<open>Programs\<close>

text \<open>C12: a program blob is decoded to what it encodes: the code, the jump table's entries, and for
  every position of the code the distance to the next instruction (modulo the table's byte width).
  Items of up to four bytes are their little-endian number. Of a longer item the lowest four bytes
  count, unless one of the bytes past the fourth is 1 to 127: then the entry is clamped to the
  largest number. The code means to clamp whenever a higher byte is not zero, but its test is
  signed (see the findings), so bytes from 128 on are dropped: [0, 0, 0, 0, 0x80] is entry 0. The
  unused bits of the last byte of the mask are zero, as the decoder insists (\<open>canonical\<close>).\<close>

theorem program_blob:
  assumes "j < 2 ^ 32" "z < 256" "length jt = j * z" "length code < 2 ^ 32" "canonical m" "bitLength m = length code"
  shows "\<exists>p. new_program (blob_of j z jt code m) = Inr p \<and> p_code p = code \<and>
    length (p_jumpTable p) = (if z = 0 then 0 else j) \<and>
    (\<forall>i < length (p_jumpTable p). uint (p_jumpTable p ! i) =
      (let item = subarray jt (i * z) ((i + 1) * z) in
        if \<exists>k \<in> {4..<z}. 1 \<le> uint (item ! k) \<and> uint (item ! k) \<le> 127 then 2 ^ 32 - 1 else le_val item mod 2 ^ 32)) \<and>
    length (p_mask p) = length code \<and>
    (\<forall>i < length code. unat (p_mask p ! i) = gap (mask_bits m) i mod 256)"
proof -
  have entry: "uint (new_jumpTable z jt ! i) =
      (let item = subarray jt (i * z) ((i + 1) * z) in
        if \<exists>k \<in> {4..<z}. 1 \<le> uint (item ! k) \<and> uint (item ! k) \<le> 127 then 2 ^ 32 - 1 else le_val item mod 2 ^ 32)"
    if "i < length (new_jumpTable z jt)" for i
  proof -
    have i: "i < j" using that assms(3) by (simp split: if_splits)
    then have "(i + 1) * z \<le> length jt" unfolding assms(3) by (intro mult_le_mono1) simp
    then have len: "length (subarray jt (i * z) ((i + 1) * z)) = z" by (simp add: algebra_simps)
    show ?thesis unfolding nth_new_jumpTable [OF that] decodeNext_spec len Let_def by (rule refl)
  qed
  from new_program_blob [OF assms] show ?thesis
    using entry assms(3,6) by (simp add: unat_of_nat)
qed

theorem program_blob_witness:
  "\<exists>p. new_program (blob_of 3 5 [7, 0, 0, 0, 0, 0, 0, 0, 0, 0x80, 7, 0, 0, 0, 1] [0] sample_mask) = Inr p \<and> p_code p = [0] \<and>
    List.map uint (p_jumpTable p) = [7, 0, 2 ^ 32 - 1] \<and> List.map unat (p_mask p) = [gap (mask_bits sample_mask) 0 mod 256]"
proof -
  let ?jt = "[7, 0, 0, 0, 0, 0, 0, 0, 0, 0x80, 7, 0, 0, 0, 1] :: byte list"
  obtain p where p: "new_program (blob_of 3 5 ?jt [0] sample_mask) = Inr p" "p_code p = [0]" "length (p_jumpTable p) = 3"
    "\<forall>i < 3. uint (p_jumpTable p ! i) = (let item = subarray ?jt (i * 5) ((i + 1) * 5) in
        if \<exists>k \<in> {4..<5}. 1 \<le> uint (item ! k) \<and> uint (item ! k) \<le> 127 then 2 ^ 32 - 1 else le_val item mod 2 ^ 32)"
    "length (p_mask p) = 1" "unat (p_mask p ! 0) = gap (mask_bits sample_mask) 0 mod 256"
    using program_blob [of 3 5 ?jt "[0]" sample_mask] sample_mask_canonical by auto
  have four: "(\<exists>k \<in> {4..<5 :: nat}. P k) \<longleftrightarrow> P 4" for P by (auto simp: atLeastLessThan_def numeral_eq_Suc less_Suc_eq)
  have "uint (p_jumpTable p ! 0) = 7" "uint (p_jumpTable p ! 1) = 0" "uint (p_jumpTable p ! 2) = 2 ^ 32 - 1"
    using p(4) by (simp_all add: four subarray_def Let_def)
  moreover have "p_jumpTable p = [p_jumpTable p ! 0, p_jumpTable p ! 1, p_jumpTable p ! 2]"
    using p(3) by (intro nth_equalityI) (auto simp: less_Suc_eq numeral_eq_Suc)
  then have "List.map uint (p_jumpTable p) = [uint (p_jumpTable p ! 0), uint (p_jumpTable p ! 1), uint (p_jumpTable p ! 2)]"
    by (metis list.simps(8) list.simps(9))
  moreover have "List.map unat (p_mask p) = [unat (p_mask p ! 0)]"
    using p(5) by (cases "p_mask p") simp_all
  ultimately show ?thesis using p(1,2,6) by simp
qed

text \<open>The mask is the skip function. As long as no instruction is longer than 255 bytes the mask
  reports an instruction exactly at the set bits, and the distance it returns is the number of clear
  bits up to the next set one (or the end of the code), cut at 25.\<close>

theorem mask_skip:
  assumes "new_mask m = Inr t" "\<forall>i < bitLength m. gap (mask_bits m) i \<le> 255"
  shows "(isInstruction t i \<longleftrightarrow> i < bitLength m \<and> mask_bits m ! i) \<and>
    getNoOfBytesToNextInstruction t (int i) = Inr (min (gap (mask_bits m) i) 25)"
proof (cases "i < bitLength m")
  case True
  then have "256 dvd gap (mask_bits m) i \<longleftrightarrow> gap (mask_bits m) i = 0" using assms(2) by (auto dest!: dvd_imp_le)
  moreover have "gap (mask_bits m) i mod 256 = gap (mask_bits m) i" using True assms(2) by (intro mod_less) fastforce
  ultimately show ?thesis
    using True assms gap_0_iff [of i "mask_bits m"]
    by (simp add: isInstruction_eq [OF assms(1)] getNoOfBytes_eq [OF assms(1)] MAX_INSTRUCTION_DISTANCE_def)
next
  case False
  then show ?thesis
    by (simp add: isInstruction_eq [OF assms(1)] getNoOfBytes_eq [OF assms(1)] MAX_INSTRUCTION_DISTANCE_def)
qed

theorem mask_skip_witness:
  "\<exists>t. new_mask sample_mask = Inr t \<and> (isInstruction t 0 \<longleftrightarrow> 0 < bitLength sample_mask \<and> mask_bits sample_mask ! 0)"
proof -
  obtain t where t: "new_mask sample_mask = Inr t" using new_mask_total by blast
  have "\<forall>i < bitLength sample_mask. gap (mask_bits sample_mask) i \<le> 255"
  proof (intro allI impI)
    fix i assume "i < bitLength sample_mask"
    have "gap (mask_bits sample_mask) i \<le> length (mask_bits sample_mask) - i" by (rule gap_le)
    then show "gap (mask_bits sample_mask) i \<le> 255" by (simp add: sample_mask_def)
  qed
  from mask_skip [OF t this] t show ?thesis by blast
qed

text \<open>Basic blocks begin at 0 and right after each terminating instruction, nowhere else.\<close>

theorem basic_blocks:
  assumes "new_mask m = Inr t" "bitLength m = length code" "\<forall>i < bitLength m. gap (mask_bits m) i \<le> 25"
  shows "basicBlocks_reset code t = Inr ({0} \<union> {i + 1 + gap (mask_bits m) (i + 1) |i.
    i < length code \<and> mask_bits m ! i \<and> unat (code ! i) \<in> set termination_opcodes})"
proof -
  have t: "length t = length code" "\<And>i. i < length code \<Longrightarrow> unat (t ! i) = gap (mask_bits m) i"
    using assms new_mask_eq [of m] by (auto simp: unat_of_nat mod_less le_imp_less_Suc less_imp_le_nat)
  have ends: "isBasicBlockTermination code t i \<longleftrightarrow> mask_bits m ! i \<and> unat (code ! i) \<in> set termination_opcodes"
    if "i < length code" for i
  proof -
    have "256 dvd gap (mask_bits m) i \<longleftrightarrow> gap (mask_bits m) i = 0"
      using assms(2,3) that by (fastforce dest!: dvd_imp_le)
    then show ?thesis
      using that assms(2) gap_0_iff [of i "mask_bits m"]
      by (simp add: isBasicBlockTermination_def isInstruction_eq [OF assms(1)] terminates_iff)
  qed
  have next_i: "(if i + 1 < length t then min (unat (t ! (i + 1))) 25 else 0) = gap (mask_bits m) (i + 1)" for i
    using t assms(2,3) by (auto simp: not_less)
  show ?thesis unfolding basicBlocks_reset_eq next_i using ends by (auto 0 3)
qed

theorem basic_blocks_witness:
  "\<exists>t bbs. new_mask sample_mask = Inr t \<and> basicBlocks_reset [0] t = Inr bbs \<and> 0 \<in> bbs"
proof -
  obtain t where t: "new_mask sample_mask = Inr t" using new_mask_total by blast
  have "gap (mask_bits sample_mask) i \<le> 25" if "i < bitLength sample_mask" for i
    using gap_le [of "mask_bits sample_mask" i] by (simp add: sample_mask_def)
  with basic_blocks [OF t sample_mask_canonical(2)] t show ?thesis by auto
qed

text \<open>C13: the arguments of an instruction are those of its format, for every format, code, mask and
  position. The skip is one plus the distance to the next instruction (\<open>n\<close> operand bytes); registers
  are the nibbles the format names, cut at 12; immediates are the operand bytes it names, read as
  signed numbers of their own length and extended to 64 bits (zero-extended for the extended width),
  and a jump's target is the instruction plus its signed offset. A length held in a nibble is cut at
  4 and not bounded by the instruction; a field that passes the end of the code is cut there.\<close>

theorem args_decode:
  "\<exists>n a. getNoOfBytesToNextInstruction m (int (pc + 1)) = Inr n \<and> fillArgs code m pc ty = Inr a \<and>
    args_type a = ty \<and> noOfBytesToSkip a = 1 + n \<and>
    arg_registers a = format_registers ty code pc \<and>
    List.map imm_word (arg_immediates a) = format_immediates ty code pc n \<and>
    branch_target a = format_target ty code pc n"
proof -
  obtain n where n: "getNoOfBytesToNextInstruction m (int (pc + 1)) = Inr n"
    using getNoOfBytes_total [of m "pc + 1"] by auto
  with fillArgs_spec [OF n, of code ty] show ?thesis by blast
qed

section \<open>Codec\<close>

text \<open>Variable-length naturals. Every 64-bit number is encoded in at most nine bytes, decoded back,
  and skipped exactly.\<close>

theorem varU64_roundtrip:
  assumes "0 \<le> n" "n < 2 ^ 64"
  shows "encodeObject codec_varU64 n = Inr (nat_bytes n) \<and> decodeObject (decode codec_varU64) (nat_bytes n) = Inr n \<and>
    length (nat_bytes n) \<le> 9 \<and>
    skip_fn codec_varU64 (dec_fromBlob (nat_bytes n @ rest)) = Inr (adv (dec_fromBlob (nat_bytes n @ rest)) (length (nat_bytes n)))"
proof -
  have "at (dec_fromBlob (nat_bytes n @ rest)) (nat_bytes n)" using at_fromBlob [of "nat_bytes n @ rest"] by (simp add: at_append)
  with assms varU64.skip_skips [of n] varU64.encodeObject_eq(1) [of n] varU64.decodeObject_eq [of n] extra_bytes_le [of n]
  show ?thesis by (simp add: skips_def MAX_LENGTH_def)
qed

theorem varU64_roundtrip_witness:
  "decodeObject (decode codec_varU64) (nat_bytes 300) = Inr 300"
  using varU64_roundtrip [of 300] by simp

text \<open>A sequence of hashes survives encoding and decoding, for every list the encoder's size limit
  admits.\<close>

theorem hash_sequence_roundtrip:
  assumes "\<forall>h \<in> set hs. length h = 32" "length hs < 2 ^ 19"
  shows "bindE (encodeObject (codec_sequenceVarLen (codec_bytes 32) default_range None) hs)
    (decodeObject (decode (codec_sequenceVarLen (codec_bytes 32) default_range None))) = Inr hs"
proof (rule hash_seq.round_trip)
  show "list_all (\<lambda>bs. length bs = 32) hs \<and> length hs < 2 ^ 32 \<and>
     minLength default_range \<le> length hs \<and> length hs \<le> maxLength default_range"
    using assms by (simp add: list_all_iff default_range_def)
  have "length (concat (List.map (\<lambda>bs. bs) hs)) = 32 * length hs"
    using assms(1) by (induction hs) auto
  then show "length (prefixed (length hs) (concat (List.map (\<lambda>bs. bs) hs))) \<le> MAX_LENGTH"
    using assms(2) extra_bytes_le [of "int (length hs)"] by (simp add: prefixed_def MAX_LENGTH_def)
qed

theorem hash_sequence_roundtrip_witness:
  "bindE (encodeObject (codec_sequenceVarLen (codec_bytes 32) default_range None) [replicate 32 7])
    (decodeObject (decode (codec_sequenceVarLen (codec_bytes 32) default_range None))) = Inr [replicate 32 7]"
  by (rule hash_sequence_roundtrip) simp_all

text \<open>A dictionary (here from service ids to blobs) with distinct keys is encoded in key order and
  decoded to its entries in key order, whatever the order they were inserted in.\<close>

theorem dictionary_roundtrip:
  assumes "\<forall>(k, v) \<in> set xs. in_range 4 k \<and> length v < 2 ^ 32" "length xs < 2 ^ 32" "distinct (List.map fst xs)"
    "length (prefixed (length xs) (u32_blob.entry_bytes (sort_by (\<lambda>a b. a - b) xs))) \<le> MAX_LENGTH"
  shows "bindE (encodeObject (codec_dictionary codec_u32 codec_blob (\<lambda>a b. a - b) None) xs)
      (decodeObject (decode (codec_dictionary codec_u32 codec_blob (\<lambda>a b. a - b) None))) =
      Inr (sort_by (\<lambda>a b. a - b) xs) \<and>
    sorted_wrt (\<lambda>x y. fst x < fst y) (sort_by (\<lambda>a b. a - b) xs) \<and> mset (sort_by (\<lambda>a b. a - b) xs) = mset xs"
proof -
  let ?cmp = "\<lambda>a b :: int. a - b"
  let ?cd = "codec_dictionary codec_u32 codec_blob ?cmp None"
  let ?bs = "prefixed (length xs) (u32_blob.entry_bytes (sort_by ?cmp xs))"
  have "strict_comparator ?cmp" by (auto simp: strict_comparator_def)
  from sort_by_sorted [OF this assms(3)]
  have sorted: "sorted_wrt (\<lambda>x y. fst x < fst y) (sort_by ?cmp xs)" by simp
  then have inc: "u32_blob.increasing ?cmp (sort_by ?cmp xs)" by (simp add: u32_blob.increasing_def)
  have valid: "list_all (\<lambda>(k, v). in_range 4 k \<and> length v < 2 ^ 32) xs" using assms(1) by (simp add: list_all_iff)
  note d = u32_blob.dictionary_codec_decodes [OF valid assms(2) inc assms(3) mset_sort_by]
  have "encodeObject ?cd xs = Inr ?bs"
    by (rule element_encoder.encodeObject_eq(1) [of _ "\<lambda>_. ?bs" "\<lambda>ys. ys = xs"])
       (use d(1) assms(4) in \<open>auto simp: element_encoder_def\<close>)
  moreover have "decodeObject (decode ?cd) ?bs = Inr (sort_by ?cmp xs)"
    by (rule element_decoder.decodeObject_eq [of _ "\<lambda>_. ?bs" "\<lambda>ys. ys = sort_by ?cmp xs"])
       (use d(2) in \<open>auto simp: element_decoder_def\<close>)
  ultimately show ?thesis using sorted by (simp add: mset_sort_by)
qed

theorem dictionary_roundtrip_witness:
  "bindE (encodeObject (codec_dictionary codec_u32 codec_blob (\<lambda>a b. a - b) None) [(2, [5]), (1, [])])
      (decodeObject (decode (codec_dictionary codec_u32 codec_blob (\<lambda>a b. a - b) None))) = Inr [(1, []), (2, [5])]"
proof -
  let ?xs = "[(2, [5]), (1, [])] :: (int \<times> byte list) list"
  have s: "sort_by (\<lambda>a b. a - b) ?xs = [(1, []), (2, [5])]" by code_simp
  have "length (prefixed (length ?xs) (u32_blob.entry_bytes (sort_by (\<lambda>a b. a - b) ?xs))) \<le> MAX_LENGTH"
    using extra_bytes_le [of 0] extra_bytes_le [of 1] extra_bytes_le [of 2]
    unfolding s u32_blob.entry_bytes_def by (simp add: prefixed_def MAX_LENGTH_def)
  from dictionary_roundtrip [OF _ _ _ this] show ?thesis unfolding s by (simp add: in_range_def)
qed

text \<open>\<open>decodeSequence\<close> returns. With an element decoder that stays within its source and consumes
  at least one byte per element the loop over the input ends for every input.\<close>

theorem decodeSequence_returns:
  assumes "consumes f"
  shows "\<exists>r. decodeSequence f src = Some r"
  using decodeSequence_loop_terminates [OF assms, of "[]" "dec_fromBlob src"] by (auto simp: decodeSequence_def)

theorem decodeSequence_returns_witness:
  "\<exists>r. decodeSequence dec_u8 [1, 2, 3] = Some r"
proof (rule decodeSequence_returns)
  show "consumes dec_u8"
    using bounded_ints(1) by (auto simp: consumes_def bounded_getNum dec_u8_def getNum_def bindE_Inr_iff Let_def)
qed

text \<open>Overflow detection of the checked sums: the value is the sum modulo the width and the flag says
  whether the true sum does not fit, for any number of terms.\<close>

theorem sums_checked:
  assumes "\<forall>v \<in> set vs. 0 \<le> v \<and> v < 2 ^ 32"
  shows "sumU32 vs = Inr \<lparr>overflow = (sum_list vs \<ge> 2 ^ 32), sum_value = sum_list vs mod 2 ^ 32\<rparr> \<and>
    sumU64 vs = Inr \<lparr>overflow = (sum_list vs \<ge> 2 ^ 64), sum_value = sum_list vs mod 2 ^ 64\<rparr>"
proof -
  have "0 \<le> sum_list vs" using assms by (intro sum_list_nonneg) auto
  with assms show ?thesis using sumU32_eq [of vs] by (auto simp: sumU64_eq list_all_iff not_less)
qed

theorem sums_checked_witness:
  "sumU32 [4294967295, 2] = Inr \<lparr>overflow = True, sum_value = 1\<rparr>"
  using sums_checked [of "[4294967295, 2]"] by simp

text \<open>Setting a bit of a bit vector changes that bit and no other one, keeps the length, and the set
  bits are enumerated in order; an index past the length is refused.\<close>

theorem bitvec_set:
  assumes "wf_bitvec v"
  shows "if idx < bitLength v
    then \<exists>v'. setBit v idx val = Inr v' \<and> wf_bitvec v' \<and> bitLength v' = bitLength v \<and>
      indicesOfSetBits v' = filter (\<lambda>i. if i = idx then val else i \<in> set (indicesOfSetBits v)) [0..<bitLength v]
    else \<exists>e. setBit v idx val = Inl e"
proof (cases "idx < bitLength v")
  case True
  then obtain v' where v': "setBit v idx val = Inr v'" using setBit_Inr_iff by blast
  with setBit_wf [OF assms v'] setBit_bit_at [OF assms True v'] True show ?thesis
    by (auto simp: indicesOfSetBits_eq intro!: filter_cong)
next
  case False
  then show ?thesis using setBit_Inr_iff [of v idx val] by (cases "setBit v idx val") auto
qed

theorem bitvec_set_witness:
  "\<exists>v'. setBit \<lparr>data = [0], bitLength = 8\<rparr> 3 True = Inr v' \<and> wf_bitvec v'"
  using bitvec_set [of "\<lparr>data = [0], bitLength = 8\<rparr>" 3 True] by (auto simp: wf_bitvec_def)

section \<open>Collections\<close>

text \<open>C14: the blob dictionary. Over keys of one length it is an association list in insertion order:
  \<open>get\<close> reads it, \<open>set\<close> overwrites in place or appends, \<open>delete\<close> removes and tells whether the key was
  there, for every conversion threshold and every history of operations.\<close>

theorem dictionary_refines:
  assumes "dict_wf L d" "length (key_raw k) = L"
  shows "dict_get k d = map_of (dict_abs d) (key_raw k) \<and>
    dict_wf L (dict_set k v d) \<and> dict_abs (dict_set k v d) = AList.update (key_raw k) v (dict_abs d) \<and>
    dict_wf L (snd (dict_delete k d)) \<and>
    dict_abs (snd (dict_delete k d)) = AList.delete (key_raw k) (dict_abs d) \<and>
    (fst (dict_delete k d) \<longleftrightarrow> map_of (dict_abs d) (key_raw k) \<noteq> None) \<and>
    dict_size d = length (dict_abs d)"
proof -
  obtain b d' where del: "dict_delete k d = (b, d')" by fastforce
  show ?thesis
    using dict_get_abs [OF assms] dict_set_ok [OF assms, of v] dict_delete_ok [OF assms del]
      dict_size_abs [OF assms(1)]
    by (simp add: del map_of_eq_None_iff)
qed

theorem dictionary_refines_witness:
  "dict_abs (dict_set short_key (7 :: int) new_hash_dictionary) = [([1, 2, 3, 4, 5, 6], 7)]"
proof -
  have "dict_wf 6 (new_hash_dictionary :: int blob_dictionary)" "dict_abs (new_hash_dictionary :: int blob_dictionary) = []"
    "length (key_raw short_key) = 6"
    by (simp_all add: new_hash_dictionary_def new_dictionary_wf short_key_def)
  with dictionary_refines [of 6 "new_hash_dictionary :: int blob_dictionary" short_key 7] show ?thesis
    by (simp add: short_key_def)
qed



text \<open>Sorted arrays. Sorting an array sorts it stably, insertion keeps it sorted and adds one
  element, removal takes out one equal element, and the merge of two sorted arrays succeeds with the sorted
  union of both.\<close>

theorem sorted_array_operations:
  assumes "total_comparator cmp" "sorted_cmp cmp xs" "sorted_cmp cmp ys"
  shows "sorted_cmp cmp (sa_fromArray cmp zs) \<and> mset (sa_fromArray cmp zs) = mset zs \<and>
    filter (\<lambda>y. cmp y k = Equal) (sa_fromArray cmp zs) = filter (\<lambda>y. cmp y k = Equal) zs \<and>
    sorted_cmp cmp (sa_insert cmp v xs) \<and> mset (sa_insert cmp v xs) = add_mset v (mset xs) \<and>
    (case sa_removeOne cmp v xs of
       (None, xs') \<Rightarrow> xs' = xs \<and> \<not> present cmp v xs
     | (Some x, xs') \<Rightarrow> cmp x v = Equal \<and> sorted_cmp cmp xs' \<and> add_mset x (mset xs') = mset xs) \<and>
    (\<exists>ms. sa_fromTwoSortedCollections cmp xs ys = Inr ms \<and> sorted_cmp cmp ms \<and> mset ms = mset xs + mset ys)"
proof -
  note c = assms(1)
  have "case sa_removeOne cmp v xs of
       (None, xs') \<Rightarrow> xs' = xs \<and> \<not> present cmp v xs
     | (Some x, xs') \<Rightarrow> cmp x v = Equal \<and> sorted_cmp cmp xs' \<and> add_mset x (mset xs') = mset xs"
    using total_comparator.sa_removeOne_eq [OF c assms(2), of v] by (cases "present cmp v xs") auto
  then show ?thesis
    using total_comparator.sorted_array_sort [OF c, of zs] total_comparator.array_sort_stable [OF c, of k zs]
      total_comparator.sa_insert_sorted [OF c assms(2), of v] total_comparator.sa_insert_mset [OF c, of v xs]
      total_comparator.sa_merge_eq [OF c assms(2,3)] total_comparator.merge_loop_sorted [OF c assms(2,3)]
    by (simp add: sa_fromArray_def mset_merge_loop)
qed

theorem sorted_array_operations_witness:
  "sorted_cmp blob_compare (sa_insert blob_compare [6] [[5], [7 :: byte]])"
  using sorted_array_operations [OF blob_cmp.total_comparator_axioms, of "[[5], [7]]" "[]" "[]" "[]" "[6]"]
  by simp

text \<open>C16: the Merkle mountain range. Up to \<open>2 ^ 31 - 1\<close> leaves, \<open>getPeaks\<close> returns, its peaks are those of
  the reference append function, and they are the roots of perfect trees over consecutive runs of the
  appended hashes.\<close>

theorem mountain_range:
  assumes "length xs < 2 ^ 31"
  shows "getPeaks (fold (mmr_append H) xs mmr_empty) = Some (fold (append_peaks H) xs []) \<and>
    covers H 0 (fold (append_peaks H) xs []) xs"
  using getPeaks_fold [OF assms] covers_fold by blast

theorem mountain_range_witness:
  "getPeaks (fold (mmr_append (\<lambda>a b. a * 10 + b)) [1, 2, 3 :: int] mmr_empty) = Some [Some 3, Some 12]"
  using mountain_range [of "[1, 2, 3 :: int]" "\<lambda>a b. a * 10 + b"] by simp

text \<open>C17: the shuffle. With a hash of 32 bytes the shuffle succeeds, computes the function of the
  specification on the pseudo-random numbers derived from the entropy, and is a permutation.\<close>

theorem shuffle_permutes:
  assumes "\<And>x. length (H x) = 32" "length h = 32" "length arr \<le> 2 ^ 32"
  shows "\<exists>res. fisherYatesShuffle H arr h = Inr (res, []) \<and> mset res = mset arr \<and>
    res = shuffle_spec arr (map (random_number H h) [0..<length arr])"
  using fisherYatesShuffle_eq [OF assms] shuffle_spec_mset [of "map (random_number H h) [0..<length arr]" arr]
  by simp

theorem shuffle_permutes_witness:
  "\<exists>res. fisherYatesShuffle (\<lambda>x. take 32 (x @ replicate 32 0)) [1, 2, 3 :: int] (replicate 32 7) = Inr (res, []) \<and>
    mset res = {#1, 2, 3#}"
  using shuffle_permutes [of "\<lambda>x. take 32 (x @ replicate 32 0)" "replicate 32 7" "[1, 2, 3 :: int]"] by auto

text \<open>Hexadecimal text. Printing a blob and parsing the text gives the blob back, and the fixed-size
  parser accepts exactly the length it is asked for.\<close>

theorem hex_roundtrip:
  "parseBlob (bytesToHexString b) = Inr b \<and>
    parseBytes (bytesToHexString b) n = (if length b = n then Inr b else if length b > n then Inl GenericError
      else Inl AssertionFailure)"
  by (simp add: parseBlob_toString parseBytes_toString)

text \<open>C18: the state root. On leaves sorted by their keys the one-pass algorithm with its stack of siblings
  returns the Merklization that splits the leaves by the bits of their keys, unless the smallest leaf is
  the only one on the left of the root: then the result is the branch of that leaf and the zero hash.\<close>

theorem state_root:
  assumes "sorted_leaves X"
  shows "computeStateRoot H X =
    Inr (if lone_left X then H (fromSubNodes (H (hd X)) trie_zero) else merkle H 0 X)"
  using assms by (rule state_root_spec)

definition two_leaves :: "trie_node list" where
  "two_leaves = [replicate 63 0 @ [1], 0 # 1 # replicate 62 0]"

lemma two_leaves_sorted: "sorted_leaves two_leaves \<and> \<not> lone_left two_leaves"
  by code_simp

theorem state_root_witness:
  "computeStateRoot (take 32) two_leaves = Inr (merkle (take 32) 0 two_leaves)"
  using state_root [of two_leaves "take 32"] two_leaves_sorted by simp

text \<open>C19: funds. Whatever an accumulating service does by calling its externalities, the balances of all
  services, the amounts of the pending transfers and the deposits lost so far keep their sum, every balance
  stays a 64-bit number no smaller than the threshold of its account, and the next service id stays free. A
  deposit is lost when a service is created under an id that was ejected in the same accumulation (see the
  findings); a run that has ejected nothing loses nothing. Transfers have amounts that are not negative and
  a service does not eject itself: the host calls read the amount as a natural number and refuse that target.\<close>

theorem funds_conserved:
  assumes "ext_run H e lost e'" "wf_ext e" "sound_ledger (ledger_of e)"
  shows "wf_ext e' \<and> sound_ledger (ledger_of e') \<and> funds (ledger_of e') + lost = funds (ledger_of e) \<and> 0 \<le> lost \<and>
    (ejected e' = [] \<longrightarrow> lost = 0) \<and> ex_currentServiceId e' = ex_currentServiceId e"
  using ext_run_sound [OF assms] run_nothing_ejected [OF assms(1)] by blast

theorem funds_conserved_witness:
  "funds (ledger_of sample_transfer) = funds (ledger_of sample_ext) \<and>
    funds (ledger_of recreated_ext) + 206 = funds (ledger_of eject_ext)"
  using funds_conserved [of id sample_ext 0 sample_transfer, OF ext_steps_run [OF sample_steps(1)]]
    funds_conserved [of id eject_ext 206 recreated_ext, OF eject_recreate_run] sample_sound eject_sound
  by simp

text \<open>C20: the commit. When the updates of an accumulation are applied to the state without an error,
  every service that was not ejected answers with the account and the storage the accumulating service
  had read, and the ejected services are gone.\<close>

theorem commit_reads:
  assumes "(ext_step H)\<^sup>*\<^sup>* e e'" "proper_update (ps_services (ex_updatedState e))"
    "applyServicesUpdate (sl_services (ps_state (ex_updatedState e'))) (ps_services (ex_updatedState e')) = (svcs, Inr ())"
  shows "map_option sd_info (jm_get svcs s) = ps_getServiceInfo (ex_updatedState e') (Some s) \<and>
    (s \<notin> set (su_removed (ps_services (ex_updatedState e'))) \<longrightarrow> stored svcs s k = ps_getStorage (ex_updatedState e') s k)"
  using commit_spec [OF assms(3) ext_steps_proper [OF assms(1,2)]] by simp

theorem commit_reads_witness:
  "map_option sd_info (jm_get sample_committed 1) = ps_getServiceInfo (ex_updatedState sample_write) (Some 1)"
  using commit_reads [of id sample_ext sample_write sample_committed 1 "[]"] sample_steps(2) [of id]
    sample_proper sample_commit by blast

text \<open>Writing to storage. The write is refused when the utilisation leaves its bounds or the balance
  does not cover the new threshold; otherwise it returns the length of the old value, the entry reads as the new
  value, no other entry changes, and the account differs by the entry's share of the utilisation only.\<close>

theorem storage_write:
  assumes "ps_getServiceInfo (ex_updatedState e) (Some (ex_currentServiceId e)) = Some i"
  shows "ext_write e k v =
      (let i' = account_entry i k (current_entry e k) v in
       if storageUtilisationCount i' < 0 \<or> storageUtilisationBytes i' < 0 then Inl (Thrown AssertionFailure)
       else if storageUtilisationCount i' \<ge> 2 ^ 32 \<or> storageUtilisationBytes i' \<ge> 2 ^ 64 \<or> balance i < threshold i'
       then Inl (Failed StorageFull)
       else Inr (written e k v i', map_option length (current_entry e k))) \<and>
    ps_getStorage (ex_updatedState (written e k v j)) s k' =
      (if s = ex_currentServiceId e \<and> k' = k then v else ps_getStorage (ex_updatedState e) s k') \<and>
    ps_getServiceInfo (ex_updatedState (written e k v j)) =
      (ps_getServiceInfo (ex_updatedState e))(Some (ex_currentServiceId e) \<mapsto> j)"
  using ext_write_eq [OF assms, of k v] written_reads [OF assms] by blast

theorem storage_write_witness:
  "current_entry sample_write [5] = Some [6, 7]"
  using storage_write [OF sample_current, of "[5]" "Some [6, 7]" "sample_account\<lparr>storageUtilisationBytes := 37,
    storageUtilisationCount := 1\<rparr>" 1 "[5]"]
  by (simp add: sample_write_def written_def sample_ext_def)

end
